(* ===== verification/Prelude.thy ===== *)
theory Prelude
  imports Main "HOL-Library.AList"
begin

text \<open>
  Shared ground of the development: how Go values and control flow are written in HOL, and the
  generic lemmas the component theories use.

  \<^item> A Go pointer or nullable value is an \<open>option\<close> (\<open>None\<close> is \<open>nil\<close>).
  \<^item> A Go map is an association list with distinct keys. The functions \<open>map_of\<close>,
    \<open>AList.update\<close> and \<open>AList.delete\<close> are Go's lookup, store and \<open>delete\<close>; where the code
    ranges over a map, the model ranges over the list, and the theorems about such loops
    do not depend on the order of the list.
  \<^item> A Go run-time panic is the result \<open>None\<close> of an operation whose other results are \<open>Some\<close>;
    an error return is a value of a sum type (\<open>Inl\<close> the error).
  \<^item> A \<open>time.Time\<close> is its instant in nanoseconds, counted so that the zero time is 0; a
    \<open>time.Duration\<close> is its count of nanoseconds. \<open>time_sub\<close> saturates as Go's
    \<open>Time.Sub\<close> does.
\<close>

section \<open>Time\<close>

type_synonym gotime = int
type_synonym duration = int

definition max_duration :: duration where
  "max_duration = 2 ^ 63 - 1"

definition min_duration :: duration where
  "min_duration = - (2 ^ 63)"

definition nanosecond :: duration where
  "nanosecond = 1"

definition millisecond :: duration where
  "millisecond = 1000000"

definition second :: duration where
  "second = 1000000000"

definition time_is_zero :: "gotime \<Rightarrow> bool" where
  "time_is_zero t \<longleftrightarrow> t = 0"

definition time_add :: "gotime \<Rightarrow> duration \<Rightarrow> gotime" where
  "time_add t d = t + d"

definition time_sub :: "gotime \<Rightarrow> gotime \<Rightarrow> duration" where
  "time_sub t u = max min_duration (min max_duration (t - u))"

definition time_before :: "gotime \<Rightarrow> gotime \<Rightarrow> bool" where
  "time_before t u \<longleftrightarrow> t < u"

definition time_after :: "gotime \<Rightarrow> gotime \<Rightarrow> bool" where
  "time_after t u \<longleftrightarrow> u < t"

named_theorems gotime_simps

lemmas duration_consts [gotime_simps] =
  max_duration_def min_duration_def nanosecond_def millisecond_def second_def

lemmas time_defs [gotime_simps] =
  time_is_zero_def time_add_def time_sub_def time_before_def time_after_def

lemma time_sub_less_iff:
  assumes "min_duration < d" "d \<le> max_duration"
  shows "time_sub t u < d \<longleftrightarrow> t - u < d"
  using assms by (auto simp: time_sub_def min_def max_def)

lemma time_sub_ge_iff:
  assumes "min_duration < d" "d \<le> max_duration"
  shows "d \<le> time_sub t u \<longleftrightarrow> d \<le> t - u"
  using assms by (auto simp: time_sub_def min_def max_def)

section \<open>Fixed-width arithmetic\<close>

definition wrap32 :: "int \<Rightarrow> int" where
  "wrap32 n = (n + 2 ^ 31) mod 2 ^ 32 - 2 ^ 31"

definition wrap64 :: "int \<Rightarrow> int" where
  "wrap64 n = (n + 2 ^ 63) mod 2 ^ 64 - 2 ^ 63"

definition seconds :: "int \<Rightarrow> duration" where
  "seconds n = wrap64 (n * second)"

lemma wrap32_id: "- (2 ^ 31) \<le> n \<Longrightarrow> n < 2 ^ 31 \<Longrightarrow> wrap32 n = n"
  by (simp add: wrap32_def)

lemma wrap64_id: "- (2 ^ 63) \<le> n \<Longrightarrow> n < 2 ^ 63 \<Longrightarrow> wrap64 n = n"
  by (simp add: wrap64_def)

lemma wrap32_range: "- (2 ^ 31) \<le> wrap32 n" "wrap32 n < 2 ^ 31"
  by (simp_all add: wrap32_def)

text \<open>An \<open>int32\<close> number of seconds is a duration without overflow.\<close>

lemma seconds_int32: "- (2 ^ 31) \<le> n \<Longrightarrow> n < 2 ^ 31 \<Longrightarrow> seconds n = n * second"
  unfolding seconds_def second_def by (rule wrap64_id) simp_all

section \<open>Errors\<close>

text \<open>
  The error values of \<open>fleeterror\<close>: a Connect status code and a message. Sentinel errors of a
  package (\<open>errors.New\<close> values compared with \<open>errors.Is\<close>) are datatypes of their component.
\<close>

datatype grpc_code =
    CodeCanceled
  | CodeInvalidArgument
  | CodeDeadlineExceeded
  | CodeNotFound
  | CodeAlreadyExists
  | CodePermissionDenied
  | CodeResourceExhausted
  | CodeFailedPrecondition
  | CodeUnimplemented
  | CodeInternal
  | CodeUnavailable
  | CodeUnauthenticated

datatype fleet_error = FleetError (fe_code: grpc_code) (fe_msg: string)

abbreviation "NewInvalidArgumentError \<equiv> FleetError CodeInvalidArgument"
abbreviation "NewForbiddenError \<equiv> FleetError CodePermissionDenied"
abbreviation "NewInternalError \<equiv> FleetError CodeInternal"
abbreviation "NewFailedPreconditionError \<equiv> FleetError CodeFailedPrecondition"
abbreviation "NewUnimplementedError \<equiv> FleetError CodeUnimplemented"

section \<open>Maps as association lists\<close>

abbreviation keys :: "('k \<times> 'v) list \<Rightarrow> 'k list" where
  "keys al \<equiv> map fst al"

abbreviation vals :: "('k \<times> 'v) list \<Rightarrow> 'v list" where
  "vals al \<equiv> map snd al"

abbreviation has_key :: "('k \<times> 'v) list \<Rightarrow> 'k \<Rightarrow> bool" where
  "has_key al k \<equiv> map_of al k \<noteq> None"

lemma map_of_update [simp]: "map_of (AList.update k v al) = (map_of al)(k \<mapsto> v)"
  by (simp add: update_conv')

lemma map_of_delete [simp]: "map_of (AList.delete k al) = (map_of al)(k := None)"
  by (simp add: delete_conv')

lemma distinct_keys_update [simp]:
  "distinct (keys al) \<Longrightarrow> distinct (keys (AList.update k v al))"
  by (rule distinct_update)

lemma distinct_keys_delete [simp]:
  "distinct (keys al) \<Longrightarrow> distinct (keys (AList.delete k al))"
  by (rule distinct_delete)

lemma set_keys_update: "set (keys (AList.update k v al)) = insert k (set (keys al))"
  by (induction al) auto

lemma set_keys_delete: "set (keys (AList.delete k al)) = set (keys al) - {k}"
  by (induction al) (auto simp: AList.delete_eq)

lemma length_update:
  "length (AList.update k v al) = (if k \<in> set (keys al) then length al else Suc (length al))"
  by (induction al) auto

lemma delete_fresh: "k \<notin> set (keys al) \<Longrightarrow> AList.delete k al = al"
  by (induction al) auto

lemma set_update_subset: "set (AList.update k v al) \<subseteq> insert (k, v) (set al)"
  by (induction al) auto

lemma delete_append: "AList.delete k (xs @ ys) = AList.delete k xs @ AList.delete k ys"
  by (simp add: AList.delete_eq)

lemma has_key_iff: "has_key al k \<longleftrightarrow> k \<in> set (keys al)"
  by (simp add: map_of_eq_None_iff)

lemma map_of_SomeI_distinct:
  "distinct (keys al) \<Longrightarrow> (k, v) \<in> set al \<Longrightarrow> map_of al k = Some v"
  by simp

section \<open>Decimal rendering\<close>

text \<open>The verb \<open>%d\<close> of \<open>fmt\<close>.\<close>

definition digit_char :: "nat \<Rightarrow> char" where
  "digit_char d = char_of (48 + d)"

fun show_nat :: "nat \<Rightarrow> string" where
  "show_nat n = (if n < 10 then [digit_char n] else show_nat (n div 10) @ [digit_char (n mod 10)])"

declare show_nat.simps [simp del]

definition show_int :: "int \<Rightarrow> string" where
  "show_int z = (if z < 0 then ''-'' @ show_nat (nat (- z)) else show_nat (nat z))"

section \<open>Runs of operations\<close>

text \<open>
  A stateful component is a start state and an operation \<open>exec\<close>; \<open>None\<close> is a panic. A run
  is a finite sequence of operations in the order in which they took the component's mutex.
\<close>

fun run_ops :: "('op \<Rightarrow> 's \<Rightarrow> 's option) \<Rightarrow> 'op list \<Rightarrow> 's \<Rightarrow> 's option" where
  "run_ops exec [] s = Some s"
| "run_ops exec (x # xs) s = Option.bind (exec x s) (run_ops exec xs)"

lemma run_ops_append:
  "run_ops e (xs @ ys) s = Option.bind (run_ops e xs s) (run_ops e ys)"
  by (induction xs arbitrary: s) (simp_all add: Option.bind_assoc, metis bind_assoc)

text \<open>
  The contract every stateful component discharges: every operation, from a state that satisfies
  the invariant, returns without a panic and keeps it; and where the component has one start
  state, that state satisfies it.
\<close>

locale kept_component =
  fixes exec :: "'op \<Rightarrow> 's \<Rightarrow> 's option"
    and inv :: "'s \<Rightarrow> bool"
  assumes inv_exec: "inv s \<Longrightarrow> \<exists>t. exec x s = Some t \<and> inv t"
begin

lemma run_safe: "inv s \<Longrightarrow> \<exists>t. run_ops exec xs s = Some t \<and> inv t"
proof (induction xs arbitrary: s)
  case Nil
  then show ?case by simp
next
  case (Cons x xs)
  from inv_exec [OF Cons.prems] obtain u where "exec x s = Some u" "inv u"
    by blast
  with Cons.IH [of u] show ?case by simp
qed

text \<open>What holds of a step from a state that satisfies the invariant holds along every run, if it composes.\<close>

lemma run_steps:
  assumes step: "\<And>s x t. inv s \<Longrightarrow> exec x s = Some t \<Longrightarrow> R s t"
    and refl: "\<And>s. R s s"
    and trans: "\<And>s t u. R s t \<Longrightarrow> R t u \<Longrightarrow> R s u"
  shows "inv s \<Longrightarrow> run_ops exec xs s = Some t \<Longrightarrow> R s t"
proof (induction xs arbitrary: s)
  case Nil
  then show ?case using refl by simp
next
  case (Cons x xs)
  from inv_exec [OF Cons.prems(1)] obtain u where u: "exec x s = Some u" "inv u"
    by blast
  with Cons.prems Cons.IH [of u] have "R u t" by simp
  with step [OF Cons.prems(1) u(1)] show ?case by (rule trans)
qed

end

locale safe_component = kept_component exec inv
  for init_state :: 's and exec :: "'op \<Rightarrow> 's \<Rightarrow> 's option" and inv :: "'s \<Rightarrow> bool" +
  assumes inv_init: "inv init_state"
begin

lemma run_from_init: "\<exists>t. run_ops exec xs init_state = Some t \<and> inv t"
  by (rule run_safe [OF inv_init])

lemma run_inv: "run_ops exec xs init_state = Some t \<Longrightarrow> inv t"
  using run_from_init [of xs] by auto

end

section \<open>Lists\<close>

lemma filter_partition_length:
  "length (filter P xs) + length (filter (\<lambda>x. \<not> P x) xs) = length xs"
  by (induction xs) auto

lemma length_filter_update:
  assumes "l < length xs"
  shows "length (filter P (xs[l := x])) + (if P (xs ! l) then 1 else 0) =
    length (filter P xs) + (if P x then 1 else 0)"
proof -
  have "filter P xs = filter P (take l xs @ xs ! l # drop (Suc l) xs)"
    using assms by (simp add: id_take_nth_drop [symmetric])
  then show ?thesis using assms by (simp add: upd_conv_take_nth_drop)
qed

lemma foldl_inv:
  "I s \<Longrightarrow> (\<And>s x. x \<in> set xs \<Longrightarrow> I s \<Longrightarrow> I (f s x)) \<Longrightarrow> I (foldl f s xs)"
proof (induction xs arbitrary: s)
  case Nil
  then show ?case by simp
next
  case (Cons x xs)
  then show ?case by simp
qed

end
