(* ===== verification/Control_Registry.thy ===== *)
theory Control_Registry
  imports Prelude
begin

text \<open>
  The in-memory registry of agent control streams
  (\<open>server/internal/domain/fleetnode/control\<close>: \<open>registry.go\<close> and \<open>stream.go\<close>).

  Connections and in-flight commands are Go objects that several goroutines hold by pointer, and
  the code compares those pointers, so they live in two heaps (\<open>hp_conns\<close>, \<open>hp_cmds\<close>); an
  address is an index, and an allocation appends. A buffered channel that is never closed is the
  list of its buffered values; a \<open>done\<close> channel, which is only ever closed, is a flag. Closing a
  closed channel panics, which is the result \<open>None\<close>. The release closures of the artifact
  slots, each guarded by a \<open>sync.Once\<close>, are the list \<open>rg_leases\<close>.

  Each operation below is one critical section of \<open>Registry.mu\<close> (or one channel operation),
  so a run is a sequence of operations in lock order. Messages of the generated protocol code
  are kept with the fields this package reads and an opaque rest. The target set of a pair
  command is a map made by the dispatching service for that command alone.
\<close>

section \<open>Data\<close>

datatype control_error =
    ErrNoActiveStream
  | errSessionInvalidated
  | errNoInFlightCommand
  | ErrReportQuotaExceeded
  | ErrEmptyReport
  | ErrArtifactNotExpected
  | ErrArtifactAlreadyTransferred
  | ErrArtifactTransferLimitExceeded
  | ErrArtifactTransferAttemptsExceeded
  | ErrArtifactTooLarge
  | errDuplicateCommandID
  | ErrFleet fleet_error

definition commandEventBuffer :: nat where "commandEventBuffer = 64"
definition outgoingBuffer :: nat where "outgoingBuffer = 1024"
definition MaxConcurrentCommandArtifactUploadsPerFleetNode :: nat where
  "MaxConcurrentCommandArtifactUploadsPerFleetNode = 2"
definition maxConcurrentCommandArtifactDownloadsPerFleetNode :: nat where
  "maxConcurrentCommandArtifactDownloadsPerFleetNode = 2"
definition maxCommandArtifactTransferAttempts :: nat where
  "maxCommandArtifactTransferAttempts = 3"

definition MaxScanTargets :: int where "MaxScanTargets = 2 ^ (32 - 20)"
definition MaxPortsPerIP :: int where "MaxPortsPerIP = 10"
definition maxReportsPerCommand :: int where
  "maxReportsPerCommand = MaxScanTargets * MaxPortsPerIP"

datatype ack_code =
    ACK_CODE_UNSPECIFIED | ACK_CODE_OK | ACK_CODE_PARTIAL | ACK_CODE_BAD_REQUEST
  | ACK_CODE_AGENT_INCAPABLE | ACK_CODE_SCAN_FAILED | ACK_CODE_REPORT_FAILED
  | ACK_CODE_INTERNAL | ACK_CODE_BUSY | ACK_CODE_UNAUTHENTICATED | ACK_CODE_UNIMPLEMENTED
  | ACK_CODE_OTHER int

record control_ack =
  ak_CommandId :: string
  ak_Succeeded :: bool
  ak_ErrorMessage :: string
  ak_Code :: ack_code

record control_command =
  cc_CommandId :: string
  cc_Payload :: string

datatype discover_response = DiscoverResponse nat

record pair_result =
  pr_DeviceIdentifier :: string
  pr_Rest :: nat

datatype command_event =
    EvBatch discover_response
  | EvPairResults "pair_result list"
  | EvAck control_ack

type_synonym report_scope = "string \<Rightarrow> string \<Rightarrow> bool"

datatype report_kind = ReportKindDiscovery | ReportKindPair

record pair_meta =
  pm_OrgID :: int
  pm_AssignedBy :: "int option"
  pm_Targets :: "string list"

datatype artifact_direction = ArtifactDirectionUpload | ArtifactDirectionDownload

datatype artifact_purpose = PURPOSE_UNSPECIFIED | PURPOSE_MINER_LOGS | PURPOSE_FIRMWARE_PAYLOAD

record artifact_spec =
  ax_Direction :: artifact_direction
  ax_Purpose :: artifact_purpose
  ax_ArtifactID :: string
  ax_DeviceIdentifier :: string
  ax_SizeBytes :: int
  ax_MaxSizeBytes :: int

record artifact_ref =
  ar_ArtifactId :: string
  ar_Purpose :: artifact_purpose
  ar_Filename :: string
  ar_SizeBytes :: int
  ar_Sha256 :: string

record artifact_expectation =
  ae_spec :: artifact_spec
  ae_inProgress :: bool
  ae_completed :: bool
  ae_attempts :: nat
  ae_uploadRef :: "artifact_ref option"

record inflight_command =
  ic_id :: string
  ic_kind :: report_kind
  ic_scope :: "report_scope option"
  ic_events :: "command_event list option"
  ic_reported :: int
  ic_maxReports :: int
  ic_pair :: "pair_meta option"
  ic_ack :: "control_ack list option"
  ic_artifacts :: "artifact_expectation list"
  ic_done :: bool

record connection =
  cn_outgoing :: "control_command list"
  cn_done :: bool
  cn_cmds :: "(string \<times> nat) list"
  cn_maxCommandProtocolVersion :: int

record session_fence =
  sf_fingerprint :: string
  sf_revoked :: bool

record lease =
  ls_direction :: artifact_direction
  ls_node :: int
  ls_released :: bool

record registry =
  rg_conns :: "(int \<times> nat) list"
  rg_sessionFences :: "(int \<times> session_fence) list"
  rg_uploads :: "(int \<times> nat) list"
  rg_downloads :: "(int \<times> nat) list"
  rg_leases :: "lease list"
  hp_conns :: "connection list"
  hp_cmds :: "inflight_command list"

definition COMMAND_PROTOCOL_VERSION_V1 :: int where "COMMAND_PROTOCOL_VERSION_V1 = 1"

definition NewRegistry :: registry where
  "NewRegistry = \<lparr>rg_conns = [], rg_sessionFences = [], rg_uploads = [], rg_downloads = [],
     rg_leases = [], hp_conns = [], hp_cmds = []\<rparr>"

definition reportBearing :: "inflight_command \<Rightarrow> bool" where
  "reportBearing c \<longleftrightarrow> ic_events c \<noteq> None"

section \<open>The registry (registry.go)\<close>

definition upd_conn :: "nat \<Rightarrow> (connection \<Rightarrow> connection) \<Rightarrow> registry \<Rightarrow> registry" where
  "upd_conn a f s = s\<lparr>hp_conns := (hp_conns s)[a := f (hp_conns s ! a)]\<rparr>"

definition upd_cmd :: "nat \<Rightarrow> (inflight_command \<Rightarrow> inflight_command) \<Rightarrow> registry \<Rightarrow> registry" where
  "upd_cmd c f s = s\<lparr>hp_cmds := (hp_cmds s)[c := f (hp_cmds s ! c)]\<rparr>"

definition ConnectedFleetNodeIDs :: "registry \<Rightarrow> int list" where
  "ConnectedFleetNodeIDs s = keys (rg_conns s)"

definition CommandProtocolUpgradeRequired :: "int \<Rightarrow> registry \<Rightarrow> bool" where
  "CommandProtocolUpgradeRequired n s =
     (case map_of (rg_conns s) n of
        None \<Rightarrow> False
      | Some a \<Rightarrow> cn_maxCommandProtocolVersion (hp_conns s ! a) < COMMAND_PROTOCOL_VERSION_V1)"

definition close_conn :: "nat \<Rightarrow> registry \<Rightarrow> registry option" where
  "close_conn a s =
     (if cn_done (hp_conns s ! a) then None
      else Some (upd_conn a (\<lambda>k. k\<lparr>cn_done := True\<rparr>) s))"

definition close_cmd :: "nat \<Rightarrow> registry \<Rightarrow> registry option" where
  "close_cmd c s =
     (if ic_done (hp_cmds s ! c) then None
      else Some (upd_cmd c (\<lambda>k. k\<lparr>ic_done := True\<rparr>) s))"

definition delete_cmd :: "nat \<Rightarrow> string \<Rightarrow> registry \<Rightarrow> registry" where
  "delete_cmd a i s = upd_conn a (\<lambda>k. k\<lparr>cn_cmds := AList.delete i (cn_cmds k)\<rparr>) s"

fun teardown_cmds :: "nat \<Rightarrow> (string \<times> nat) list \<Rightarrow> registry \<Rightarrow> registry option" where
  "teardown_cmds a [] s = Some s"
| "teardown_cmds a ((i, c) # rest) s =
     Option.bind (close_cmd c s) (\<lambda>t. teardown_cmds a rest (delete_cmd a i t))"

definition teardown :: "nat \<Rightarrow> registry \<Rightarrow> registry option" where
  "teardown a s = Option.bind (close_conn a s) (teardown_cmds a (cn_cmds (hp_conns s ! a)))"

definition inflightFor :: "int \<Rightarrow> string \<Rightarrow> registry \<Rightarrow> nat option" where
  "inflightFor n i s =
     (case map_of (rg_conns s) n of
        None \<Rightarrow> None
      | Some a \<Rightarrow> map_of (cn_cmds (hp_conns s ! a)) i)"

definition protocol_error :: "int \<Rightarrow> int \<Rightarrow> control_error" where
  "protocol_error v m = ErrFleet (NewFailedPreconditionError
     (''fleet node command protocol version '' @ show_int v @
      '' does not support this command; requires version '' @ show_int m @
      ''; upgrade Fleet Node''))"

text \<open>
  \<open>addCmd\<close> returns the connection, whose \<open>outgoing\<close> and \<open>done\<close> channels the caller uses, and
  the address of the stored command.
\<close>

definition addCmd ::
  "int \<Rightarrow> int \<Rightarrow> inflight_command \<Rightarrow> registry \<Rightarrow> (control_error + nat \<times> nat) \<times> registry" where
  "addCmd n minimumVersion c s =
     (case map_of (rg_conns s) n of
        None \<Rightarrow> (Inl ErrNoActiveStream, s)
      | Some a \<Rightarrow>
          let conn = hp_conns s ! a in
          if cn_maxCommandProtocolVersion conn < minimumVersion
          then (Inl (protocol_error (cn_maxCommandProtocolVersion conn) minimumVersion), s)
          else if has_key (cn_cmds conn) (ic_id c) then (Inl errDuplicateCommandID, s)
          else
            let addr = length (hp_cmds s);
                s1 = s\<lparr>hp_cmds := hp_cmds s @ [c]\<rparr>
            in (Inr (a, addr),
                upd_conn a (\<lambda>k. k\<lparr>cn_cmds := AList.update (ic_id c) addr (cn_cmds k)\<rparr>) s1))"

definition removeCmd :: "int \<Rightarrow> nat \<Rightarrow> registry \<Rightarrow> registry option" where
  "removeCmd n c s =
     (case map_of (rg_conns s) n of
        None \<Rightarrow> Some s
      | Some a \<Rightarrow>
          let i = ic_id (hp_cmds s ! c) in
          if map_of (cn_cmds (hp_conns s ! a)) i = Some c
          then close_cmd c (delete_cmd a i s)
          else Some s)"

section \<open>Streams (stream.go)\<close>

definition new_connection :: "int \<Rightarrow> connection" where
  "new_connection v =
     \<lparr>cn_outgoing = [], cn_done = False, cn_cmds = [], cn_maxCommandProtocolVersion = v\<rparr>"

text \<open>The returned stream is the address of its connection.\<close>

definition registerLocked :: "int \<Rightarrow> int \<Rightarrow> registry \<Rightarrow> (nat \<times> registry) option" where
  "registerLocked n v s =
     Option.bind
       (case map_of (rg_conns s) n of None \<Rightarrow> Some s | Some old \<Rightarrow> teardown old s)
       (\<lambda>t. let a = length (hp_conns t)
            in Some (a, t\<lparr>hp_conns := hp_conns t @ [new_connection v],
                         rg_conns := AList.update n a (rg_conns t)\<rparr>))"

definition Register :: "int \<Rightarrow> registry \<Rightarrow> (nat \<times> registry) option" where
  "Register n s = registerLocked n COMMAND_PROTOCOL_VERSION_V1 s"

definition RegisterAuthenticated ::
  "int \<Rightarrow> string \<Rightarrow> int \<Rightarrow> registry \<Rightarrow> ((control_error + nat) \<times> registry) option" where
  "RegisterAuthenticated n fp v s =
     (case map_of (rg_sessionFences s) n of
        Some fence \<Rightarrow>
          if sf_revoked fence \<or> sf_fingerprint fence \<noteq> fp
          then Some (Inl errSessionInvalidated, s)
          else map_option (\<lambda>(a, t). (Inr a, t)) (registerLocked n v s)
      | None \<Rightarrow> map_option (\<lambda>(a, t). (Inr a, t)) (registerLocked n v s))"

definition disconnectLocked :: "int \<Rightarrow> registry \<Rightarrow> registry option" where
  "disconnectLocked n s =
     (case map_of (rg_conns s) n of
        None \<Rightarrow> Some s
      | Some a \<Rightarrow>
          map_option (\<lambda>t. t\<lparr>rg_conns := AList.delete n (rg_conns t)\<rparr>) (teardown a s))"

definition ReplaceSession :: "int \<Rightarrow> string \<Rightarrow> registry \<Rightarrow> registry option" where
  "ReplaceSession n fp s =
     disconnectLocked n (s\<lparr>rg_sessionFences := AList.update n
       \<lparr>sf_fingerprint = fp, sf_revoked = False\<rparr> (rg_sessionFences s)\<rparr>)"

definition RevokeSession :: "int \<Rightarrow> registry \<Rightarrow> registry option" where
  "RevokeSession n s =
     disconnectLocked n (s\<lparr>rg_sessionFences := AList.update n
       \<lparr>sf_fingerprint = [], sf_revoked = True\<rparr> (rg_sessionFences s)\<rparr>)"

definition Disconnect :: "int \<Rightarrow> registry \<Rightarrow> registry option" where
  "Disconnect n s = disconnectLocked n s"

definition Unregister :: "int \<Rightarrow> nat \<Rightarrow> registry \<Rightarrow> registry option" where
  "Unregister n a s =
     (if map_of (rg_conns s) n \<noteq> Some a then Some s
      else map_option (\<lambda>t. t\<lparr>rg_conns := AList.delete n (rg_conns t)\<rparr>) (teardown a s))"

text \<open>A non-blocking send on a buffered channel: dropped when the buffer is full.\<close>

definition chan_try_send :: "nat \<Rightarrow> 'a \<Rightarrow> 'a list \<Rightarrow> 'a list" where
  "chan_try_send cap x q = (if length q < cap then q @ [x] else q)"

definition deliverEvent :: "int \<Rightarrow> string \<Rightarrow> command_event \<Rightarrow> registry \<Rightarrow> registry" where
  "deliverEvent n i ev s =
     (case inflightFor n i s of
        None \<Rightarrow> s
      | Some c \<Rightarrow>
          (case ic_events (hp_cmds s ! c) of
             None \<Rightarrow> s
           | Some q \<Rightarrow> upd_cmd c (\<lambda>k. k\<lparr>ic_events :=
               Some (chan_try_send commandEventBuffer ev q)\<rparr>) s))"

definition send_terminal :: "command_event \<Rightarrow> command_event list \<Rightarrow> command_event list" where
  "send_terminal ev q =
     (if length q < commandEventBuffer then q @ [ev]
      else chan_try_send commandEventBuffer ev (case q of [] \<Rightarrow> [] | _ # r \<Rightarrow> r))"

definition deliverAck :: "int \<Rightarrow> control_ack \<Rightarrow> registry \<Rightarrow> registry" where
  "deliverAck n ack s =
     (case inflightFor n (ak_CommandId ack) s of
        None \<Rightarrow> s
      | Some c \<Rightarrow>
          (case ic_events (hp_cmds s ! c) of
             Some q \<Rightarrow> upd_cmd c (\<lambda>k. k\<lparr>ic_events := Some (send_terminal (EvAck ack) q)\<rparr>) s
           | None \<Rightarrow>
               upd_cmd c (\<lambda>k. k\<lparr>ic_ack := map_option (chan_try_send 1 ack) (ic_ack k)\<rparr>) s))"

definition PublishAck :: "int \<Rightarrow> control_ack \<Rightarrow> registry \<Rightarrow> registry" where
  "PublishAck n ack s = deliverAck n ack s"

definition PublishBatch :: "int \<Rightarrow> string \<Rightarrow> discover_response \<Rightarrow> registry \<Rightarrow> registry" where
  "PublishBatch n i batch s = deliverEvent n i (EvBatch batch) s"

definition PublishPairResults :: "int \<Rightarrow> string \<Rightarrow> pair_result list \<Rightarrow> registry \<Rightarrow> registry" where
  "PublishPairResults n i results s = deliverEvent n i (EvPairResults results) s"

definition AdmitReport ::
  "int \<Rightarrow> string \<Rightarrow> nat \<Rightarrow> report_kind \<Rightarrow> registry \<Rightarrow> control_error option \<times> registry" where
  "AdmitReport n i deviceCount want s =
     (case inflightFor n i s of
        None \<Rightarrow> (Some errNoInFlightCommand, s)
      | Some c \<Rightarrow>
          let cmd = hp_cmds s ! c in
          if \<not> reportBearing cmd \<or> ic_kind cmd \<noteq> want then (Some errNoInFlightCommand, s)
          else if ic_reported cmd + int deviceCount > ic_maxReports cmd
          then (Some ErrReportQuotaExceeded, s)
          else (None, upd_cmd c (\<lambda>k. k\<lparr>ic_reported := ic_reported k + int deviceCount\<rparr>) s))"

definition ReportScopeFor :: "int \<Rightarrow> string \<Rightarrow> registry \<Rightarrow> report_scope option \<times> bool" where
  "ReportScopeFor n i s =
     (case inflightFor n i s of
        None \<Rightarrow> (None, False)
      | Some c \<Rightarrow>
          if reportBearing (hp_cmds s ! c) then (ic_scope (hp_cmds s ! c), True)
          else (None, False))"

subsection \<open>Artifact slots\<close>

definition slots_of :: "artifact_direction \<Rightarrow> registry \<Rightarrow> (int \<times> nat) list" where
  "slots_of d s = (case d of ArtifactDirectionUpload \<Rightarrow> rg_uploads s
                           | ArtifactDirectionDownload \<Rightarrow> rg_downloads s)"

definition set_slots ::
  "artifact_direction \<Rightarrow> (int \<times> nat) list \<Rightarrow> registry \<Rightarrow> registry" where
  "set_slots d m s = (case d of ArtifactDirectionUpload \<Rightarrow> s\<lparr>rg_uploads := m\<rparr>
                              | ArtifactDirectionDownload \<Rightarrow> s\<lparr>rg_downloads := m\<rparr>)"

definition slot_count :: "(int \<times> nat) list \<Rightarrow> int \<Rightarrow> nat" where
  "slot_count m n = (case map_of m n of None \<Rightarrow> 0 | Some k \<Rightarrow> k)"

definition acquireCommandArtifactSlot ::
  "artifact_direction \<Rightarrow> int \<Rightarrow> nat \<Rightarrow> registry \<Rightarrow> (control_error + nat) \<times> registry" where
  "acquireCommandArtifactSlot d n limit s =
     (if map_of (rg_conns s) n = None then (Inl ErrNoActiveStream, s)
      else if limit \<le> slot_count (slots_of d s) n
      then (Inl ErrArtifactTransferLimitExceeded, s)
      else
        (Inr (length (rg_leases s)),
         (set_slots d (AList.update n (slot_count (slots_of d s) n + 1) (slots_of d s)) s)
           \<lparr>rg_leases := rg_leases s @ [\<lparr>ls_direction = d, ls_node = n, ls_released = False\<rparr>]\<rparr>))"

definition AcquireCommandArtifactUpload ::
  "int \<Rightarrow> registry \<Rightarrow> (control_error + nat) \<times> registry" where
  "AcquireCommandArtifactUpload n s =
     acquireCommandArtifactSlot ArtifactDirectionUpload n
       MaxConcurrentCommandArtifactUploadsPerFleetNode s"

definition AcquireCommandArtifactDownload ::
  "int \<Rightarrow> registry \<Rightarrow> (control_error + nat) \<times> registry" where
  "AcquireCommandArtifactDownload n s =
     acquireCommandArtifactSlot ArtifactDirectionDownload n
       maxConcurrentCommandArtifactDownloadsPerFleetNode s"

definition releaseCommandArtifactSlot ::
  "artifact_direction \<Rightarrow> int \<Rightarrow> registry \<Rightarrow> registry" where
  "releaseCommandArtifactSlot d n s =
     (if slot_count (slots_of d s) n \<le> 1 then set_slots d (AList.delete n (slots_of d s)) s
      else set_slots d (AList.update n (slot_count (slots_of d s) n - 1) (slots_of d s)) s)"

text \<open>The closure returned by an acquisition: \<open>once.Do\<close> of the release.\<close>

definition release_lease :: "nat \<Rightarrow> registry \<Rightarrow> registry" where
  "release_lease l s =
     (if length (rg_leases s) \<le> l then s
      else let k = rg_leases s ! l in
        if ls_released k then s
        else releaseCommandArtifactSlot (ls_direction k) (ls_node k)
               (s\<lparr>rg_leases := (rg_leases s)[l := k\<lparr>ls_released := True\<rparr>]\<rparr>))"

subsection \<open>Artifact expectations\<close>

definition artifactExpectationMatches :: "artifact_spec \<Rightarrow> artifact_spec \<Rightarrow> bool" where
  "artifactExpectationMatches e want =
     (if ax_Direction e \<noteq> ax_Direction want then False
      else if ax_Purpose e \<noteq> ax_Purpose want \<or> ax_Purpose e = PURPOSE_UNSPECIFIED then False
      else if ax_Direction e = ArtifactDirectionDownload \<and>
              (ax_ArtifactID e = [] \<or> ax_ArtifactID want = [] \<or>
               ax_ArtifactID e \<noteq> ax_ArtifactID want) then False
      else if ax_Direction e \<noteq> ArtifactDirectionDownload \<and>
              ax_ArtifactID e \<noteq> [] \<and> ax_ArtifactID e \<noteq> ax_ArtifactID want then False
      else if ax_DeviceIdentifier e \<noteq> [] \<and> ax_DeviceIdentifier e \<noteq> ax_DeviceIdentifier want
      then False
      else True)"

text \<open>The index of the first expectation that matches, as the code takes its address.\<close>

fun first_match :: "artifact_spec \<Rightarrow> artifact_expectation list \<Rightarrow> nat option" where
  "first_match want [] = None"
| "first_match want (e # es) =
     (if artifactExpectationMatches (ae_spec e) want then Some 0
      else map_option Suc (first_match want es))"

definition artifactExpectationFor :: "inflight_command \<Rightarrow> artifact_spec \<Rightarrow> nat option" where
  "artifactExpectationFor c want = first_match want (ic_artifacts c)"

definition upd_artifact ::
  "nat \<Rightarrow> nat \<Rightarrow> (artifact_expectation \<Rightarrow> artifact_expectation) \<Rightarrow> registry \<Rightarrow> registry" where
  "upd_artifact c j f s =
     upd_cmd c (\<lambda>k. k\<lparr>ic_artifacts := (ic_artifacts k)[j := f (ic_artifacts k ! j)]\<rparr>) s"

definition start_attempt :: "artifact_expectation \<Rightarrow> artifact_expectation" where
  "start_attempt e = e\<lparr>ae_attempts := ae_attempts e + 1, ae_inProgress := True\<rparr>"

text \<open>The channel \<open>cmd.done\<close> returned on success is the command's address.\<close>

definition AdmitCommandArtifactTransfer ::
  "int \<Rightarrow> string \<Rightarrow> artifact_spec \<Rightarrow> registry \<Rightarrow> (control_error + nat) \<times> registry" where
  "AdmitCommandArtifactTransfer n i want s =
     (case inflightFor n i s of
        None \<Rightarrow> (Inl errNoInFlightCommand, s)
      | Some c \<Rightarrow>
          (case artifactExpectationFor (hp_cmds s ! c) want of
             None \<Rightarrow> (Inl ErrArtifactNotExpected, s)
           | Some j \<Rightarrow>
               let e = ic_artifacts (hp_cmds s ! c) ! j in
               if 0 < ax_MaxSizeBytes (ae_spec e) \<and>
                  ax_MaxSizeBytes (ae_spec e) < ax_SizeBytes want
               then (Inl ErrArtifactTooLarge, s)
               else if ae_inProgress e \<or> ae_completed e then (Inl ErrArtifactAlreadyTransferred, s)
               else if maxCommandArtifactTransferAttempts \<le> ae_attempts e
               then (Inl ErrArtifactTransferAttemptsExceeded, s)
               else (Inr c, upd_artifact c j start_attempt s)))"

definition AdmitCommandArtifact ::
  "int \<Rightarrow> string \<Rightarrow> artifact_spec \<Rightarrow> registry \<Rightarrow> control_error option \<times> registry" where
  "AdmitCommandArtifact n i want s =
     (case AdmitCommandArtifactTransfer n i want s of
        (Inl e, t) \<Rightarrow> (Some e, t)
      | (Inr _, t) \<Rightarrow> (None, t))"

text \<open>The common shape of the operations that change a matching expectation, if there is one.\<close>

definition with_expectation ::
  "int \<Rightarrow> string \<Rightarrow> artifact_spec \<Rightarrow> registry \<Rightarrow> (nat \<times> nat \<times> artifact_expectation) option" where
  "with_expectation n i want s =
     (case inflightFor n i s of
        None \<Rightarrow> None
      | Some c \<Rightarrow>
          map_option (\<lambda>j. (c, j, ic_artifacts (hp_cmds s ! c) ! j))
            (artifactExpectationFor (hp_cmds s ! c) want))"

definition CompleteCommandArtifactTransfer ::
  "int \<Rightarrow> string \<Rightarrow> artifact_spec \<Rightarrow> registry \<Rightarrow> registry" where
  "CompleteCommandArtifactTransfer n i want s =
     (case with_expectation n i want s of
        None \<Rightarrow> s
      | Some (c, j, e) \<Rightarrow>
          upd_artifact c j (\<lambda>e. e\<lparr>ae_inProgress := False, ae_completed := True\<rparr>) s)"

definition cloneCommandArtifactRef :: "artifact_ref option \<Rightarrow> artifact_ref option" where
  "cloneCommandArtifactRef ref =
     (case ref of
        None \<Rightarrow> None
      | Some r \<Rightarrow> Some \<lparr>ar_ArtifactId = ar_ArtifactId r, ar_Purpose = ar_Purpose r,
          ar_Filename = ar_Filename r, ar_SizeBytes = ar_SizeBytes r, ar_Sha256 = ar_Sha256 r\<rparr>)"

definition CompleteCommandArtifactUpload ::
  "int \<Rightarrow> string \<Rightarrow> artifact_spec \<Rightarrow> artifact_ref option \<Rightarrow> registry \<Rightarrow> bool \<times> registry" where
  "CompleteCommandArtifactUpload n i want ref s =
     (if ax_Direction want \<noteq> ArtifactDirectionUpload \<or> ref = None then (False, s)
      else
        (case with_expectation n i want s of
           None \<Rightarrow> (False, s)
         | Some (c, j, e) \<Rightarrow>
             (True, upd_artifact c j (\<lambda>e. e\<lparr>ae_inProgress := False, ae_completed := True,
                      ae_uploadRef := cloneCommandArtifactRef ref\<rparr>) s)))"

definition CompletedCommandArtifactUpload ::
  "int \<Rightarrow> string \<Rightarrow> artifact_spec \<Rightarrow> registry \<Rightarrow> artifact_ref option" where
  "CompletedCommandArtifactUpload n i want s =
     (if ax_Direction want \<noteq> ArtifactDirectionUpload then None
      else
        (case with_expectation n i want s of
           None \<Rightarrow> None
         | Some (c, j, e) \<Rightarrow>
             if \<not> ae_completed e \<or> ae_uploadRef e = None then None
             else cloneCommandArtifactRef (ae_uploadRef e)))"

definition AdmitCompletedCommandArtifactUploadRetry ::
  "int \<Rightarrow> string \<Rightarrow> artifact_spec \<Rightarrow> registry \<Rightarrow> (control_error + nat) \<times> registry" where
  "AdmitCompletedCommandArtifactUploadRetry n i want s =
     (if ax_Direction want \<noteq> ArtifactDirectionUpload then (Inl ErrArtifactNotExpected, s)
      else
        (case inflightFor n i s of
           None \<Rightarrow> (Inl errNoInFlightCommand, s)
         | Some c \<Rightarrow>
             (case artifactExpectationFor (hp_cmds s ! c) want of
                None \<Rightarrow> (Inl ErrArtifactAlreadyTransferred, s)
              | Some j \<Rightarrow>
                  let e = ic_artifacts (hp_cmds s ! c) ! j in
                  if \<not> ae_completed e \<or> ae_uploadRef e = None
                  then (Inl ErrArtifactAlreadyTransferred, s)
                  else if ae_inProgress e then (Inl ErrArtifactAlreadyTransferred, s)
                  else if maxCommandArtifactTransferAttempts \<le> ae_attempts e
                  then (Inl ErrArtifactTransferAttemptsExceeded, s)
                  else (Inr c, upd_artifact c j start_attempt s))))"

definition FinishCompletedCommandArtifactUploadRetry ::
  "int \<Rightarrow> string \<Rightarrow> artifact_spec \<Rightarrow> registry \<Rightarrow> registry" where
  "FinishCompletedCommandArtifactUploadRetry n i want s =
     (if ax_Direction want \<noteq> ArtifactDirectionUpload then s
      else
        (case with_expectation n i want s of
           None \<Rightarrow> s
         | Some (c, j, e) \<Rightarrow>
             if \<not> ae_completed e then s
             else upd_artifact c j (\<lambda>e. e\<lparr>ae_inProgress := False\<rparr>) s))"

definition ReinstateCommandArtifactTransfer ::
  "int \<Rightarrow> string \<Rightarrow> artifact_spec \<Rightarrow> registry \<Rightarrow> registry" where
  "ReinstateCommandArtifactTransfer n i want s =
     (case with_expectation n i want s of
        None \<Rightarrow> s
      | Some (c, j, e) \<Rightarrow>
          if ae_completed e then s
          else upd_artifact c j (\<lambda>e. e\<lparr>ae_inProgress := False\<rparr>) s)"

definition ReinstateCommandArtifactUpload ::
  "int \<Rightarrow> string \<Rightarrow> artifact_spec \<Rightarrow> registry \<Rightarrow> registry" where
  "ReinstateCommandArtifactUpload n i want s =
     (if ax_Direction want \<noteq> ArtifactDirectionUpload then s
      else ReinstateCommandArtifactTransfer n i want s)"

subsection \<open>Pair results\<close>

type_synonym pair_persist_meta = "int \<times> int option"

fun scope_results ::
  "string list \<Rightarrow> pair_result list \<Rightarrow> string list \<times> pair_result list" where
  "scope_results targets [] = (targets, [])"
| "scope_results targets (r # rs) =
     (if pr_DeviceIdentifier r \<notin> set targets then scope_results targets rs
      else
        (case scope_results (removeAll (pr_DeviceIdentifier r) targets) rs of
           (left, kept) \<Rightarrow> (left, r # kept)))"

definition AdmitAndScopePairResults ::
  "int \<Rightarrow> string \<Rightarrow> pair_result list \<Rightarrow> registry \<Rightarrow>
    (control_error + pair_result list \<times> pair_persist_meta) \<times> registry" where
  "AdmitAndScopePairResults n i results s =
     (case inflightFor n i s of
        None \<Rightarrow> (Inl errNoInFlightCommand, s)
      | Some c \<Rightarrow>
          let cmd = hp_cmds s ! c in
          (case ic_pair cmd of
             None \<Rightarrow> (Inl errNoInFlightCommand, s)
           | Some m \<Rightarrow>
               if \<not> reportBearing cmd \<or> ic_kind cmd \<noteq> ReportKindPair
               then (Inl errNoInFlightCommand, s)
               else if results = [] then (Inl ErrEmptyReport, s)
               else
                 (case scope_results (pm_Targets m) results of
                    (left, kept) \<Rightarrow>
                      (Inr (kept, (pm_OrgID m, pm_AssignedBy m)),
                       upd_cmd c (\<lambda>k. k\<lparr>ic_pair := Some (m\<lparr>pm_Targets := left\<rparr>),
                         ic_reported := ic_reported k + int (length kept)\<rparr>) s))))"

definition reinstate_target :: "string list \<times> int \<Rightarrow> string \<Rightarrow> string list \<times> int" where
  "reinstate_target st i =
     (case st of
        (targets, reported) \<Rightarrow>
          if i \<in> set targets then (targets, reported) else (targets @ [i], reported - 1))"

definition ReinstatePairTargets ::
  "int \<Rightarrow> string \<Rightarrow> string list \<Rightarrow> registry \<Rightarrow> registry" where
  "ReinstatePairTargets n i identifiers s =
     (case inflightFor n i s of
        None \<Rightarrow> s
      | Some c \<Rightarrow>
          let cmd = hp_cmds s ! c in
          (case ic_pair cmd of
             None \<Rightarrow> s
           | Some m \<Rightarrow>
               if ic_kind cmd \<noteq> ReportKindPair then s
               else
                 (case foldl reinstate_target (pm_Targets m, ic_reported cmd) identifiers of
                    (targets, reported) \<Rightarrow>
                      upd_cmd c (\<lambda>k. k\<lparr>ic_pair := Some (m\<lparr>pm_Targets := targets\<rparr>),
                        ic_reported := reported\<rparr>) s)))"

section \<open>Commands and channel operations (session.go, command.go)\<close>

definition cloneArtifactExpectations :: "artifact_spec list \<Rightarrow> artifact_expectation list" where
  "cloneArtifactExpectations specs =
     map (\<lambda>x. \<lparr>ae_spec = x, ae_inProgress = False, ae_completed = False, ae_attempts = 0,
              ae_uploadRef = None\<rparr>) specs"

definition report_command ::
  "control_command \<Rightarrow> report_scope option \<Rightarrow> report_kind \<Rightarrow> pair_meta option \<Rightarrow> inflight_command" where
  "report_command cmd scope kind pair =
     \<lparr>ic_id = cc_CommandId cmd, ic_kind = kind, ic_scope = scope, ic_events = Some [],
      ic_reported = 0,
      ic_maxReports = (case pair of None \<Rightarrow> maxReportsPerCommand
                                  | Some m \<Rightarrow> int (card (set (pm_Targets m)))),
      ic_pair = pair, ic_ack = None, ic_artifacts = [], ic_done = False\<rparr>"

definition ack_command :: "control_command \<Rightarrow> artifact_spec list \<Rightarrow> inflight_command" where
  "ack_command cmd artifacts =
     \<lparr>ic_id = cc_CommandId cmd, ic_kind = ReportKindDiscovery, ic_scope = None,
      ic_events = None, ic_reported = 0, ic_maxReports = 0, ic_pair = None, ic_ack = Some [],
      ic_artifacts = cloneArtifactExpectations artifacts, ic_done = False\<rparr>"

text \<open>
  The \<open>select\<close> of \<open>enqueue\<close> takes any of its ready cases; the case taken is an argument. The
  cases of the context are ready when it is done with the given message.
\<close>

datatype enqueue_case = TakeOutgoing | TakeConnDone | TakeCtxDone

definition enqueue_ready :: "string option \<Rightarrow> enqueue_case \<Rightarrow> nat \<Rightarrow> registry \<Rightarrow> bool" where
  "enqueue_ready ctxErr taken a s =
     (case taken of
        TakeOutgoing \<Rightarrow> length (cn_outgoing (hp_conns s ! a)) < outgoingBuffer
      | TakeConnDone \<Rightarrow> cn_done (hp_conns s ! a)
      | TakeCtxDone \<Rightarrow> ctxErr \<noteq> None)"

definition ctx_error :: "string \<Rightarrow> string option \<Rightarrow> control_error" where
  "ctx_error what ctxErr =
     ErrFleet (NewInternalError (what @ (case ctxErr of None \<Rightarrow> ''<nil>'' | Some m \<Rightarrow> m)))"

definition enqueue_select ::
  "string option \<Rightarrow> enqueue_case \<Rightarrow> nat \<Rightarrow> control_command \<Rightarrow> registry \<Rightarrow>
    control_error option \<times> registry" where
  "enqueue_select ctxErr taken a cmd s =
     (case taken of
        TakeOutgoing \<Rightarrow> (None, upd_conn a (\<lambda>k. k\<lparr>cn_outgoing := cn_outgoing k @ [cmd]\<rparr>) s)
      | TakeConnDone \<Rightarrow> (Some ErrNoActiveStream, s)
      | TakeCtxDone \<Rightarrow> (Some (ctx_error ''send command: '' ctxErr), s))"

section \<open>Runs\<close>

text \<open>
  Every operation another goroutine can perform on the registry. Streams, sessions and waiters
  pass the addresses they hold; an address that was never handed out does nothing. A channel
  operation that is not ready does nothing (its goroutine stays blocked).
\<close>

datatype registry_op =
    OpRegister int
  | OpRegisterAuthenticated int string int
  | OpReplaceSession int string
  | OpRevokeSession int
  | OpDisconnect int
  | OpUnregister int nat
  | OpSend int int control_command "report_scope option" report_kind "pair_meta option"
  | OpSendCommand int int control_command "artifact_spec list"
  | OpRemoveCmd int nat
  | OpEnqueue nat control_command
  | OpRecvOutgoing nat
  | OpRecvEvent nat
  | OpRecvAck nat
  | OpPublishAck int control_ack
  | OpPublishBatch int string discover_response
  | OpPublishPairResults int string "pair_result list"
  | OpAdmitReport int string nat report_kind
  | OpAcquireUpload int
  | OpAcquireDownload int
  | OpReleaseLease nat
  | OpAdmitArtifact int string artifact_spec
  | OpCompleteTransfer int string artifact_spec
  | OpCompleteUpload int string artifact_spec "artifact_ref option"
  | OpAdmitUploadRetry int string artifact_spec
  | OpFinishUploadRetry int string artifact_spec
  | OpReinstateTransfer int string artifact_spec
  | OpReinstateUpload int string artifact_spec
  | OpAdmitPairResults int string "pair_result list"
  | OpReinstatePairTargets int string "string list"

fun exec :: "registry_op \<Rightarrow> registry \<Rightarrow> registry option" where
  "exec (OpRegister n) s = map_option snd (Register n s)"
| "exec (OpRegisterAuthenticated n fp v) s = map_option snd (RegisterAuthenticated n fp v s)"
| "exec (OpReplaceSession n fp) s = ReplaceSession n fp s"
| "exec (OpRevokeSession n) s = RevokeSession n s"
| "exec (OpDisconnect n) s = Disconnect n s"
| "exec (OpUnregister n a) s = Unregister n a s"
| "exec (OpSend n v cmd scope kind pair) s =
     Some (snd (addCmd n v (report_command cmd scope kind pair) s))"
| "exec (OpSendCommand n v cmd artifacts) s = Some (snd (addCmd n v (ack_command cmd artifacts) s))"
| "exec (OpRemoveCmd n c) s = (if c < length (hp_cmds s) then removeCmd n c s else Some s)"
| "exec (OpEnqueue a cmd) s =
     Some (if a < length (hp_conns s) \<and> enqueue_ready None TakeOutgoing a s
           then snd (enqueue_select None TakeOutgoing a cmd s) else s)"
| "exec (OpRecvOutgoing a) s =
     Some (upd_conn a (\<lambda>k. k\<lparr>cn_outgoing := tl (cn_outgoing k)\<rparr>) s)"
| "exec (OpRecvEvent c) s = Some (upd_cmd c (\<lambda>k. k\<lparr>ic_events := map_option tl (ic_events k)\<rparr>) s)"
| "exec (OpRecvAck c) s = Some (upd_cmd c (\<lambda>k. k\<lparr>ic_ack := map_option tl (ic_ack k)\<rparr>) s)"
| "exec (OpPublishAck n ack) s = Some (PublishAck n ack s)"
| "exec (OpPublishBatch n i b) s = Some (PublishBatch n i b s)"
| "exec (OpPublishPairResults n i rs) s = Some (PublishPairResults n i rs s)"
| "exec (OpAdmitReport n i k want) s = Some (snd (AdmitReport n i k want s))"
| "exec (OpAcquireUpload n) s = Some (snd (AcquireCommandArtifactUpload n s))"
| "exec (OpAcquireDownload n) s = Some (snd (AcquireCommandArtifactDownload n s))"
| "exec (OpReleaseLease l) s = Some (release_lease l s)"
| "exec (OpAdmitArtifact n i w) s = Some (snd (AdmitCommandArtifact n i w s))"
| "exec (OpCompleteTransfer n i w) s = Some (CompleteCommandArtifactTransfer n i w s)"
| "exec (OpCompleteUpload n i w ref) s = Some (snd (CompleteCommandArtifactUpload n i w ref s))"
| "exec (OpAdmitUploadRetry n i w) s =
     Some (snd (AdmitCompletedCommandArtifactUploadRetry n i w s))"
| "exec (OpFinishUploadRetry n i w) s = Some (FinishCompletedCommandArtifactUploadRetry n i w s)"
| "exec (OpReinstateTransfer n i w) s = Some (ReinstateCommandArtifactTransfer n i w s)"
| "exec (OpReinstateUpload n i w) s = Some (ReinstateCommandArtifactUpload n i w s)"
| "exec (OpAdmitPairResults n i rs) s = Some (snd (AdmitAndScopePairResults n i rs s))"
| "exec (OpReinstatePairTargets n i ids) s = Some (ReinstatePairTargets n i ids s)"

section \<open>The invariant\<close>

text \<open>
  \<open>stored s a i c\<close>: the connection at \<open>a\<close> holds the command at \<open>c\<close> under the id \<open>i\<close>.
\<close>

definition stored :: "registry \<Rightarrow> nat \<Rightarrow> string \<Rightarrow> nat \<Rightarrow> bool" where
  "stored s a i c \<longleftrightarrow> a < length (hp_conns s) \<and> map_of (cn_cmds (hp_conns s ! a)) i = Some c"

definition current :: "registry \<Rightarrow> nat \<Rightarrow> bool" where
  "current s a \<longleftrightarrow> (\<exists>n. map_of (rg_conns s) n = Some a)"

text \<open>The connections in the table are exactly the open ones, one per node.\<close>

definition conns_ok :: "registry \<Rightarrow> bool" where
  "conns_ok s \<longleftrightarrow>
     distinct (keys (rg_conns s)) \<and>
     (\<forall>n a. map_of (rg_conns s) n = Some a \<longrightarrow> a < length (hp_conns s)) \<and>
     (\<forall>n m a. map_of (rg_conns s) n = Some a \<longrightarrow> map_of (rg_conns s) m = Some a \<longrightarrow> n = m) \<and>
     (\<forall>a < length (hp_conns s). cn_done (hp_conns s ! a) \<longleftrightarrow> \<not> current s a) \<and>
     (\<forall>a < length (hp_conns s). distinct (keys (cn_cmds (hp_conns s ! a))))"

text \<open>The commands held by connections are exactly the open ones, each held once.\<close>

definition cmds_ok :: "registry \<Rightarrow> bool" where
  "cmds_ok s \<longleftrightarrow>
     (\<forall>a i c. stored s a i c \<longrightarrow>
        current s a \<and> c < length (hp_cmds s) \<and> ic_id (hp_cmds s ! c) = i) \<and>
     (\<forall>a b i j c. stored s a i c \<longrightarrow> stored s b j c \<longrightarrow> a = b) \<and>
     (\<forall>c < length (hp_cmds s). ic_done (hp_cmds s ! c) \<longleftrightarrow> (\<nexists>a i. stored s a i c))"

definition artifact_ok :: "artifact_expectation \<Rightarrow> bool" where
  "artifact_ok e \<longleftrightarrow> ae_attempts e \<le> maxCommandArtifactTransferAttempts \<and>
     (ae_inProgress e \<longrightarrow> 0 < ae_attempts e)"

definition command_ok :: "inflight_command \<Rightarrow> bool" where
  "command_ok c \<longleftrightarrow>
     (ic_events c = None \<longleftrightarrow> ic_ack c \<noteq> None) \<and>
     (case ic_events c of None \<Rightarrow> True | Some q \<Rightarrow> length q \<le> commandEventBuffer) \<and>
     (case ic_ack c of None \<Rightarrow> True | Some q \<Rightarrow> length q \<le> 1) \<and>
     (ic_kind c = ReportKindDiscovery \<longrightarrow> 0 \<le> ic_reported c \<and> ic_reported c \<le> ic_maxReports c) \<and>
     list_all artifact_ok (ic_artifacts c)"

definition bounds_ok :: "registry \<Rightarrow> bool" where
  "bounds_ok s \<longleftrightarrow> list_all command_ok (hp_cmds s) \<and>
     list_all (\<lambda>k. length (cn_outgoing k) \<le> outgoingBuffer) (hp_conns s)"

definition held_leases :: "registry \<Rightarrow> artifact_direction \<Rightarrow> int \<Rightarrow> nat" where
  "held_leases s d n =
     length (filter (\<lambda>l. ls_direction l = d \<and> ls_node l = n \<and> \<not> ls_released l) (rg_leases s))"

text \<open>The slot counters count the leases not yet released, and stay within their limit.\<close>

definition slots_ok :: "registry \<Rightarrow> bool" where
  "slots_ok s \<longleftrightarrow> (\<forall>d n. slot_count (slots_of d s) n = held_leases s d n \<and>
     held_leases s d n \<le> 2)"

definition registry_inv :: "registry \<Rightarrow> bool" where
  "registry_inv s \<longleftrightarrow> conns_ok s \<and> cmds_ok s \<and> bounds_ok s \<and> slots_ok s"

end
