(* ===== verification/Control_Safety.thy ===== *)
theory Control_Safety
  imports Control_Registry
begin

text \<open>
  Safety of the control registry: every operation keeps the invariant of
  \<open>Control_Registry\<close> and never closes a channel twice, for every order of operations. The
  registry is an instance of the interface \<open>safe_component\<close>.
\<close>

section \<open>Updates in place\<close>

lemma upd_simps [simp]:
  "rg_conns (upd_conn a f s) = rg_conns s" "rg_conns (upd_cmd c g s) = rg_conns s"
  "rg_sessionFences (upd_conn a f s) = rg_sessionFences s"
  "rg_sessionFences (upd_cmd c g s) = rg_sessionFences s"
  "hp_conns (upd_cmd c g s) = hp_conns s" "hp_cmds (upd_conn a f s) = hp_cmds s"
  "length (hp_conns (upd_conn a f s)) = length (hp_conns s)"
  "length (hp_cmds (upd_cmd c g s)) = length (hp_cmds s)"
  "rg_leases (upd_conn a f s) = rg_leases s" "rg_leases (upd_cmd c g s) = rg_leases s"
  "slots_of d (upd_conn a f s) = slots_of d s" "slots_of d (upd_cmd c g s) = slots_of d s"
  by (simp_all add: upd_conn_def upd_cmd_def slots_of_def split: artifact_direction.splits)

lemma nth_upd_cmd:
  "b < length (hp_cmds s) \<Longrightarrow>
    hp_cmds (upd_cmd c f s) ! b = (if b = c then f (hp_cmds s ! c) else hp_cmds s ! b)"
  by (simp add: upd_cmd_def nth_list_update)

lemma nth_upd_conn:
  "b < length (hp_conns s) \<Longrightarrow>
    hp_conns (upd_conn a f s) ! b = (if b = a then f (hp_conns s ! a) else hp_conns s ! b)"
  by (simp add: upd_conn_def nth_list_update)

lemma current_upd [simp]: "current (upd_cmd c f s) = current s" "current (upd_conn a g s) = current s"
  by (auto simp: current_def fun_eq_iff)

lemma stored_upd_cmd [simp]: "stored (upd_cmd c f s) = stored s"
  by (auto simp: stored_def fun_eq_iff)

lemma slots_ok_upd [simp]:
  "slots_ok (upd_cmd c f s) = slots_ok s" "slots_ok (upd_conn a g s) = slots_ok s"
  by (simp_all add: slots_ok_def held_leases_def)

lemma command_ok_at:
  "registry_inv s \<Longrightarrow> c < length (hp_cmds s) \<Longrightarrow> command_ok (hp_cmds s ! c)"
  by (simp add: registry_inv_def bounds_ok_def list_all_length)

lemma list_all_update: "list_all P xs \<Longrightarrow> P y \<Longrightarrow> list_all P (xs[i := y])"
  by (auto simp: list_all_iff dest!: subsetD [OF set_update_subset_insert])

text \<open>
  A command may change in place as long as its id, its \<open>done\<close> channel and its own bounds
  stay right; most operations are of this kind.
\<close>

lemma inv_upd_cmd:
  assumes "registry_inv s"
    and "c < length (hp_cmds s) \<Longrightarrow> ic_id (f (hp_cmds s ! c)) = ic_id (hp_cmds s ! c)"
    and "c < length (hp_cmds s) \<Longrightarrow> ic_done (f (hp_cmds s ! c)) = ic_done (hp_cmds s ! c)"
    and "c < length (hp_cmds s) \<Longrightarrow> command_ok (hp_cmds s ! c) \<Longrightarrow> command_ok (f (hp_cmds s ! c))"
  shows "registry_inv (upd_cmd c f s)"
proof (cases "c < length (hp_cmds s)")
  case True
  note f = assms(2-4) [OF True]
  have "bounds_ok (upd_cmd c f s)"
    using assms(1) f(3) command_ok_at [OF assms(1) True]
    by (auto simp: registry_inv_def bounds_ok_def upd_cmd_def intro: list_all_update)
  moreover have "conns_ok (upd_cmd c f s)"
    using assms(1) by (simp add: registry_inv_def conns_ok_def)
  moreover have "cmds_ok (upd_cmd c f s)"
    using assms(1) f(1,2) by (auto simp: registry_inv_def cmds_ok_def nth_upd_cmd)
  ultimately show ?thesis
    using assms(1) by (simp add: registry_inv_def)
next
  case False
  then have "upd_cmd c f s = s" by (simp add: upd_cmd_def list_update_beyond)
  with assms(1) show ?thesis by simp
qed

lemma inv_upd_conn:
  assumes "registry_inv s"
    and same: "cn_done (f (hp_conns s ! a)) = cn_done (hp_conns s ! a)"
      "cn_cmds (f (hp_conns s ! a)) = cn_cmds (hp_conns s ! a)"
    and out: "a < length (hp_conns s) \<Longrightarrow> length (cn_outgoing (hp_conns s ! a)) \<le> outgoingBuffer \<Longrightarrow>
      length (cn_outgoing (f (hp_conns s ! a))) \<le> outgoingBuffer"
  shows "registry_inv (upd_conn a f s)"
proof (cases "a < length (hp_conns s)")
  case True
  have st: "stored (upd_conn a f s) = stored s"
    using same by (auto simp: stored_def fun_eq_iff nth_upd_conn split: if_splits)
  have "list_all (\<lambda>k. length (cn_outgoing k) \<le> outgoingBuffer) (hp_conns s)"
    using assms(1) by (simp add: registry_inv_def bounds_ok_def)
  moreover from this have "length (cn_outgoing (f (hp_conns s ! a))) \<le> outgoingBuffer"
    using out True by (simp add: list_all_length)
  ultimately have "bounds_ok (upd_conn a f s)"
    using assms(1) by (simp add: registry_inv_def bounds_ok_def upd_conn_def list_all_update)
  moreover have "conns_ok (upd_conn a f s)"
    using assms(1) same by (auto simp: registry_inv_def conns_ok_def nth_upd_conn)
  moreover have "cmds_ok (upd_conn a f s)"
    using assms(1) by (simp add: registry_inv_def cmds_ok_def st)
  ultimately show ?thesis
    using assms(1) by (simp add: registry_inv_def)
next
  case False
  then have "upd_conn a f s = s" by (simp add: upd_conn_def list_update_beyond)
  with assms(1) show ?thesis by simp
qed

section \<open>Teardown\<close>

definition mark_done :: "nat list \<Rightarrow> inflight_command list \<Rightarrow> inflight_command list" where
  "mark_done cs h = foldl (\<lambda>h c. h[c := (h ! c)\<lparr>ic_done := True\<rparr>]) h cs"

lemma mark_done_simps [simp]:
  "mark_done [] h = h"
  "mark_done (c # cs) h = mark_done cs (h[c := (h ! c)\<lparr>ic_done := True\<rparr>])"
  by (simp_all add: mark_done_def)

lemma length_mark_done [simp]: "length (mark_done cs h) = length h"
  by (induction cs arbitrary: h) simp_all

lemma nth_mark_done:
  "c < length h \<Longrightarrow>
    mark_done cs h ! c = (if c \<in> set cs then (h ! c)\<lparr>ic_done := True\<rparr> else h ! c)"
proof (induction cs arbitrary: h)
  case Nil
  then show ?case by simp
next
  case (Cons a cs)
  then show ?case by (cases "a = c") (simp_all add: nth_list_update)
qed

definition torn :: "nat \<Rightarrow> registry \<Rightarrow> registry" where
  "torn a s = s\<lparr>hp_conns := (hp_conns s)[a := (hp_conns s ! a)\<lparr>cn_done := True, cn_cmds := []\<rparr>],
     hp_cmds := mark_done (vals (cn_cmds (hp_conns s ! a))) (hp_cmds s)\<rparr>"

lemma torn_simps [simp]:
  "rg_conns (torn a s) = rg_conns s" "rg_sessionFences (torn a s) = rg_sessionFences s"
  "rg_leases (torn a s) = rg_leases s" "rg_uploads (torn a s) = rg_uploads s"
  "rg_downloads (torn a s) = rg_downloads s"
  "length (hp_conns (torn a s)) = length (hp_conns s)"
  "length (hp_cmds (torn a s)) = length (hp_cmds s)"
  by (simp_all add: torn_def)

lemma teardown_cmds_eq:
  assumes "a < length (hp_conns s)" "distinct (vals L)"
    and "\<And>c. c \<in> set (vals L) \<Longrightarrow> c < length (hp_cmds s) \<and> \<not> ic_done (hp_cmds s ! c)"
  shows "teardown_cmds a L s = Some (s\<lparr>
     hp_conns := (hp_conns s)[a := (hp_conns s ! a)\<lparr>cn_cmds :=
       filter (\<lambda>(i, c). i \<notin> set (keys L)) (cn_cmds (hp_conns s ! a))\<rparr>],
     hp_cmds := mark_done (vals L) (hp_cmds s)\<rparr>)"
  using assms
proof (induction L arbitrary: s)
  case Nil
  then show ?case by (simp add: case_prod_unfold)
next
  case (Cons p L)
  obtain i c where p: "p = (i, c)" by (cases p)
  let ?t = "delete_cmd a i (upd_cmd c (\<lambda>k. k\<lparr>ic_done := True\<rparr>) s)"
  have "close_cmd c s = Some (upd_cmd c (\<lambda>k. k\<lparr>ic_done := True\<rparr>) s)"
    using Cons.prems p by (simp add: close_cmd_def)
  moreover have "teardown_cmds a L ?t = Some (?t\<lparr>
     hp_conns := (hp_conns ?t)[a := (hp_conns ?t ! a)\<lparr>cn_cmds :=
       filter (\<lambda>(i, c). i \<notin> set (keys L)) (cn_cmds (hp_conns ?t ! a))\<rparr>],
     hp_cmds := mark_done (vals L) (hp_cmds ?t)\<rparr>)"
    using Cons.prems p
    by (intro Cons.IH) (auto simp: delete_cmd_def upd_cmd_def upd_conn_def nth_list_update)
  ultimately show ?case
    using Cons.prems p
    by (simp add: delete_cmd_def upd_cmd_def upd_conn_def AList.delete_eq case_prod_unfold eq_commute [of i])
qed

lemma inv_current:
  assumes "registry_inv s" "map_of (rg_conns s) n = Some a"
  shows "a < length (hp_conns s)" "\<not> cn_done (hp_conns s ! a)"
  using assms by (auto simp: registry_inv_def conns_ok_def current_def)

lemma inv_stored:
  assumes "registry_inv s" "stored s a i c"
  shows "c < length (hp_cmds s)" "ic_id (hp_cmds s ! c) = i" "\<not> ic_done (hp_cmds s ! c)"
    "current s a"
  using assms by (auto simp: registry_inv_def cmds_ok_def)

lemma inv_stored_unique:
  "registry_inv s \<Longrightarrow> stored s a i c \<Longrightarrow> stored s b j c \<Longrightarrow> a = b \<and> i = j"
  by (metis inv_stored(2) registry_inv_def cmds_ok_def)

lemma stored_iff:
  assumes "registry_inv s" "a < length (hp_conns s)"
  shows "stored s a i c \<longleftrightarrow> (i, c) \<in> set (cn_cmds (hp_conns s ! a))"
  using assms by (auto simp: stored_def registry_inv_def conns_ok_def)

lemma distinct_vals_cmds:
  assumes "registry_inv s" "a < length (hp_conns s)"
  shows "distinct (vals (cn_cmds (hp_conns s ! a)))"
proof -
  have "inj_on snd (set (cn_cmds (hp_conns s ! a)))"
  proof (rule inj_onI)
    fix p q
    assume p: "p \<in> set (cn_cmds (hp_conns s ! a))" and q: "q \<in> set (cn_cmds (hp_conns s ! a))"
      and eq: "snd p = snd q"
    from p have "stored s a (fst p) (snd p)" by (simp add: stored_iff [OF assms])
    moreover from q have "stored s a (fst q) (snd p)" by (simp add: eq stored_iff [OF assms])
    ultimately have "fst p = fst q" using inv_stored_unique [OF assms(1)] by blast
    with eq show "p = q" by (simp add: prod_eq_iff)
  qed
  moreover have "distinct (cn_cmds (hp_conns s ! a))"
    using assms by (simp add: registry_inv_def conns_ok_def distinct_map)
  ultimately show ?thesis by (simp add: distinct_map)
qed

lemma teardown_eq:
  assumes "registry_inv s" "map_of (rg_conns s) n = Some a"
  shows "teardown a s = Some (torn a s)"
proof -
  note a = inv_current [OF assms]
  let ?t = "upd_conn a (\<lambda>k. k\<lparr>cn_done := True\<rparr>) s"
  let ?L = "cn_cmds (hp_conns s ! a)"
  have "c < length (hp_cmds s) \<and> \<not> ic_done (hp_cmds s ! c)" if "c \<in> set (vals ?L)" for c
  proof -
    from that obtain i where "stored s a i c"
      using stored_iff [OF assms(1) a(1)] by auto
    with inv_stored [OF assms(1)] show ?thesis by blast
  qed
  then have "teardown_cmds a ?L ?t = Some (?t\<lparr>
     hp_conns := (hp_conns ?t)[a := (hp_conns ?t ! a)\<lparr>cn_cmds :=
       filter (\<lambda>(i, c). i \<notin> set (keys ?L)) (cn_cmds (hp_conns ?t ! a))\<rparr>],
     hp_cmds := mark_done (vals ?L) (hp_cmds ?t)\<rparr>)"
    using a distinct_vals_cmds [OF assms(1) a(1)] by (intro teardown_cmds_eq) simp_all
  moreover have "filter (\<lambda>(i, c). i \<notin> set (keys ?L)) ?L = []"
    by (auto simp: filter_empty_conv intro: rev_image_eqI)
  ultimately show ?thesis
    using a by (simp add: teardown_def close_conn_def torn_def upd_conn_def)
qed

text \<open>What a torn-down connection leaves behind.\<close>

lemma nth_torn_conn:
  "b < length (hp_conns s) \<Longrightarrow> hp_conns (torn a s) ! b =
    (if b = a then (hp_conns s ! a)\<lparr>cn_done := True, cn_cmds := []\<rparr> else hp_conns s ! b)"
  by (simp add: torn_def nth_list_update)

lemma nth_torn_cmd:
  assumes "registry_inv s" "a < length (hp_conns s)" "c < length (hp_cmds s)"
  shows "hp_cmds (torn a s) ! c =
    (if \<exists>i. stored s a i c then (hp_cmds s ! c)\<lparr>ic_done := True\<rparr> else hp_cmds s ! c)"
proof -
  have "c \<in> set (vals (cn_cmds (hp_conns s ! a))) \<longleftrightarrow> (\<exists>i. stored s a i c)"
    by (auto simp: stored_iff [OF assms(1,2)] intro: rev_image_eqI)
  then show ?thesis
    using assms(3) by (simp add: torn_def nth_mark_done)
qed

lemma stored_torn:
  "stored (torn a s) b i c \<longleftrightarrow> stored s b i c \<and> b \<noteq> a"
  by (cases "b < length (hp_conns s)") (auto simp: stored_def nth_torn_conn)

definition dropped :: "int \<Rightarrow> nat \<Rightarrow> registry \<Rightarrow> registry" where
  "dropped n a s = (torn a s)\<lparr>rg_conns := AList.delete n (rg_conns s)\<rparr>"

lemma dropped_simps [simp]:
  "rg_conns (dropped n a s) = AList.delete n (rg_conns s)"
  "rg_sessionFences (dropped n a s) = rg_sessionFences s"
  "hp_conns (dropped n a s) = hp_conns (torn a s)" "hp_cmds (dropped n a s) = hp_cmds (torn a s)"
  "stored (dropped n a s) = stored (torn a s)" "slots_ok (dropped n a s) = slots_ok s"
  by (auto simp: dropped_def fun_eq_iff stored_def slots_ok_def slots_of_def held_leases_def
      split: artifact_direction.splits)

lemma current_dropped:
  assumes "registry_inv s" "map_of (rg_conns s) n = Some a"
  shows "current (dropped n a s) b \<longleftrightarrow> current s b \<and> b \<noteq> a"
proof -
  have "k = n" if "map_of (rg_conns s) k = Some a" for k
    using assms that unfolding registry_inv_def conns_ok_def by blast
  then have "map_of (AList.delete n (rg_conns s)) k = Some b \<longleftrightarrow>
      map_of (rg_conns s) k = Some b \<and> b \<noteq> a" for k
    using assms(2) by (metis fun_upd_apply map_of_delete option.inject option.distinct(1))
  then show ?thesis by (simp add: current_def)
qed

lemma command_ok_done [simp]: "command_ok (c\<lparr>ic_done := d\<rparr>) = command_ok c"
  by (simp add: command_ok_def)

lemma inv_dropped:
  assumes inv: "registry_inv s" and n: "map_of (rg_conns s) n = Some a"
  shows "registry_inv (dropped n a s)"
proof -
  note a = inv_current [OF inv n] and cur = current_dropped [OF inv n]
  have "conns_ok (dropped n a s)"
    using inv by (auto simp: conns_ok_def nth_torn_conn cur registry_inv_def)
  moreover have "cmds_ok (dropped n a s)"
    unfolding cmds_ok_def
  proof (intro conjI allI impI)
    fix b i c
    assume "stored (dropped n a s) b i c"
    then have st: "stored s b i c" "b \<noteq> a" by (simp_all add: stored_torn)
    note c = inv_stored [OF inv st(1)]
    show "current (dropped n a s) b" "c < length (hp_cmds (dropped n a s))"
      using c st by (simp_all add: cur)
    show "ic_id (hp_cmds (dropped n a s) ! c) = i"
      using c a by (simp add: nth_torn_cmd [OF inv])
  next
    fix b b' i j c
    assume "stored (dropped n a s) b i c" "stored (dropped n a s) b' j c"
    then show "b = b'"
      using inv_stored_unique [OF inv] by (auto simp: stored_torn)
  next
    fix c
    assume "c < length (hp_cmds (dropped n a s))"
    then show "ic_done (hp_cmds (dropped n a s) ! c) = (\<nexists>b i. stored (dropped n a s) b i c)"
      using inv a inv_stored_unique [OF inv]
      by (auto simp: nth_torn_cmd stored_torn registry_inv_def cmds_ok_def)
  qed
  moreover have "bounds_ok (dropped n a s)"
    using inv a
    by (auto simp: registry_inv_def bounds_ok_def list_all_length nth_torn_conn
        nth_torn_cmd [OF inv])
  ultimately show ?thesis
    using inv by (simp add: registry_inv_def)
qed

section \<open>Registration\<close>

lemma new_connection_simps [simp]:
  "cn_outgoing (new_connection v) = []" "\<not> cn_done (new_connection v)"
  "cn_cmds (new_connection v) = []" "cn_maxCommandProtocolVersion (new_connection v) = v"
  by (simp_all add: new_connection_def)

lemma inv_add_conn:
  assumes inv: "registry_inv u" and free: "map_of (rg_conns u) n = None"
    and m: "map_of m = (map_of (rg_conns u))(n \<mapsto> length (hp_conns u))" "distinct (keys m)"
  shows "registry_inv (u\<lparr>hp_conns := hp_conns u @ [new_connection v], rg_conns := m\<rparr>)"
    (is "registry_inv ?t")
proof -
  have lt: "a < length (hp_conns u)" if "map_of (rg_conns u) k = Some a" for k a
    using inv that by (rule inv_current)
  have cur: "current ?t a \<longleftrightarrow> current u a \<or> a = length (hp_conns u)" for a
    using free unfolding current_def by (simp add: m) (metis option.distinct(1))
  have cur_lt: "current u a \<Longrightarrow> a < length (hp_conns u)" for a
    using lt by (auto simp: current_def)
  have st: "stored ?t a i c \<longleftrightarrow> stored u a i c" for a i c
    by (auto simp: stored_def nth_append)
  have inj: "k = l" if "map_of m k = Some a" "map_of m l = Some a" for k l a
  proof -
    have "\<forall>k l a. map_of (rg_conns u) k = Some a \<longrightarrow> map_of (rg_conns u) l = Some a \<longrightarrow> k = l"
      using inv by (simp add: registry_inv_def conns_ok_def)
    with that lt [of k a] lt [of l a] show ?thesis
      by (auto simp: m split: if_splits)
  qed
  have "cn_done (hp_conns ?t ! a) \<longleftrightarrow> \<not> current ?t a" if "a < length (hp_conns ?t)" for a
    using inv that cur_lt
    by (auto simp: cur registry_inv_def conns_ok_def nth_append less_Suc_eq)
  moreover have "distinct (keys (cn_cmds (hp_conns ?t ! a)))" if "a < length (hp_conns ?t)" for a
    using inv that
    by (auto simp: registry_inv_def conns_ok_def nth_append less_Suc_eq)
  moreover have "a < length (hp_conns ?t)" if "map_of m k = Some a" for k a
    using that lt [of k a] by (auto simp: m split: if_splits)
  ultimately have "conns_ok ?t"
    using inj m(2) by (simp add: conns_ok_def)
  moreover have "cmds_ok ?t"
    using inv by (simp add: cmds_ok_def st cur registry_inv_def)
  moreover have "bounds_ok ?t" "slots_ok ?t"
    using inv by (auto simp: registry_inv_def bounds_ok_def slots_ok_def slots_of_def
        held_leases_def split: artifact_direction.splits)
  ultimately show ?thesis by (simp add: registry_inv_def)
qed

definition registered :: "int \<Rightarrow> int \<Rightarrow> registry \<Rightarrow> registry" where
  "registered n v s =
     (let u = (case map_of (rg_conns s) n of None \<Rightarrow> s | Some a \<Rightarrow> torn a s)
      in u\<lparr>hp_conns := hp_conns u @ [new_connection v],
           rg_conns := AList.update n (length (hp_conns s)) (rg_conns s)\<rparr>)"

lemma registerLocked_eq:
  assumes "registry_inv s"
  shows "registerLocked n v s = Some (length (hp_conns s), registered n v s)"
  using teardown_eq [OF assms, of n]
  by (auto simp: registerLocked_def registered_def Let_def split: option.splits)

lemma inv_registered:
  assumes inv: "registry_inv s"
  shows "registry_inv (registered n v s)"
proof (cases "map_of (rg_conns s) n")
  case None
  then show ?thesis
    using inv_add_conn [OF inv None, of "AList.update n (length (hp_conns s)) (rg_conns s)" v] inv
    by (simp add: registered_def registry_inv_def [of s] conns_ok_def)
next
  case (Some a)
  have "registry_inv ((dropped n a s)\<lparr>
      hp_conns := hp_conns (dropped n a s) @ [new_connection v],
      rg_conns := AList.update n (length (hp_conns s)) (rg_conns s)\<rparr>)"
    using inv by (intro inv_add_conn [OF inv_dropped [OF inv Some], of n])
      (auto simp: registry_inv_def conns_ok_def)
  then show ?thesis
    using Some by (simp add: registered_def dropped_def Let_def)
qed

lemma disconnectLocked_eq:
  assumes "registry_inv s"
  shows "disconnectLocked n s =
    Some (case map_of (rg_conns s) n of None \<Rightarrow> s | Some a \<Rightarrow> dropped n a s)"
  using teardown_eq [OF assms, of n]
  by (auto simp: disconnectLocked_def dropped_def split: option.splits)

lemma inv_disconnect:
  assumes "registry_inv s"
  shows "\<exists>t. disconnectLocked n s = Some t \<and> registry_inv t"
  using assms by (simp add: disconnectLocked_eq inv_dropped split: option.splits)

lemma inv_fences [simp]: "registry_inv (s\<lparr>rg_sessionFences := m\<rparr>) = registry_inv s"
  by (simp add: registry_inv_def conns_ok_def cmds_ok_def bounds_ok_def slots_ok_def stored_def
      current_def slots_of_def held_leases_def cong: artifact_direction.case_cong)

section \<open>Adding and removing commands\<close>

definition added :: "nat \<Rightarrow> inflight_command \<Rightarrow> registry \<Rightarrow> registry" where
  "added a c s = upd_conn a
     (\<lambda>k. k\<lparr>cn_cmds := AList.update (ic_id c) (length (hp_cmds s)) (cn_cmds k)\<rparr>)
     (s\<lparr>hp_cmds := hp_cmds s @ [c]\<rparr>)"

lemma added_simps [simp]:
  "rg_conns (added a c s) = rg_conns s" "hp_cmds (added a c s) = hp_cmds s @ [c]"
  "rg_sessionFences (added a c s) = rg_sessionFences s"
  "length (hp_conns (added a c s)) = length (hp_conns s)" "current (added a c s) = current s"
  "slots_ok (added a c s) = slots_ok s"
  by (simp_all add: added_def) (auto simp: current_def fun_eq_iff slots_ok_def slots_of_def
      held_leases_def split: artifact_direction.splits)

lemma nth_added_conn:
  "b < length (hp_conns s) \<Longrightarrow> hp_conns (added a c s) ! b =
    (if b = a then (hp_conns s ! a)\<lparr>cn_cmds :=
       AList.update (ic_id c) (length (hp_cmds s)) (cn_cmds (hp_conns s ! a))\<rparr>
     else hp_conns s ! b)"
  by (simp add: added_def upd_conn_def nth_list_update)

lemma stored_added:
  assumes "a < length (hp_conns s)" "map_of (cn_cmds (hp_conns s ! a)) (ic_id c) = None"
  shows "stored (added a c s) b i k \<longleftrightarrow>
    stored s b i k \<or> b = a \<and> i = ic_id c \<and> k = length (hp_cmds s)"
  using assms by (auto simp: stored_def nth_added_conn split: if_splits)

lemma inv_added:
  assumes inv: "registry_inv s" and n: "map_of (rg_conns s) n = Some a"
    and free: "map_of (cn_cmds (hp_conns s ! a)) (ic_id c) = None"
    and c: "command_ok c" "\<not> ic_done c"
  shows "registry_inv (added a c s)"
proof -
  note a = inv_current [OF inv n]
  note st = stored_added [OF a(1) free]
  have lt: "k < length (hp_cmds s)" if "stored s b i k" for b i k
    using inv_stored(1) [OF inv that] .
  have "conns_ok (added a c s)"
    using inv by (auto simp: conns_ok_def nth_added_conn registry_inv_def)
  moreover have "cmds_ok (added a c s)"
    unfolding cmds_ok_def
  proof (intro conjI allI impI)
    fix b i k
    assume "stored (added a c s) b i k"
    then consider "stored s b i k" | "b = a" "i = ic_id c" "k = length (hp_cmds s)"
      by (auto simp: st)
    then show "current (added a c s) b" "k < length (hp_cmds (added a c s))"
      "ic_id (hp_cmds (added a c s) ! k) = i"
      using inv_stored [OF inv, of b i k] n by (cases; auto simp: current_def nth_append)+
  next
    fix b b' i j k
    assume "stored (added a c s) b i k" "stored (added a c s) b' j k"
    then show "b = b'"
      using inv_stored_unique [OF inv, of b i k b' j] lt by (auto simp: st)
  next
    fix k
    assume k: "k < length (hp_cmds (added a c s))"
    show "ic_done (hp_cmds (added a c s) ! k) = (\<nexists>b i. stored (added a c s) b i k)"
    proof (cases "k = length (hp_cmds s)")
      case True
      with c show ?thesis by (auto simp: st)
    next
      case False
      with k inv show ?thesis by (simp add: st nth_append registry_inv_def cmds_ok_def)
    qed
  qed
  moreover have "bounds_ok (added a c s)"
    using inv c by (auto simp: registry_inv_def bounds_ok_def list_all_length nth_added_conn
        nth_append)
  ultimately show ?thesis
    using inv by (simp add: registry_inv_def)
qed

lemma addCmd_cases:
  obtains (refused) e where "addCmd n v c s = (Inl e, s)"
  | (stored) a where "map_of (rg_conns s) n = Some a"
      "map_of (cn_cmds (hp_conns s ! a)) (ic_id c) = None"
      "v \<le> cn_maxCommandProtocolVersion (hp_conns s ! a)"
      "addCmd n v c s = (Inr (a, length (hp_cmds s)), added a c s)"
proof (cases "map_of (rg_conns s) n")
  case None
  then show ?thesis using refused by (simp add: addCmd_def)
next
  case (Some a)
  consider (old) "cn_maxCommandProtocolVersion (hp_conns s ! a) < v"
    | (dup) "v \<le> cn_maxCommandProtocolVersion (hp_conns s ! a)"
        "has_key (cn_cmds (hp_conns s ! a)) (ic_id c)"
    | (new) "v \<le> cn_maxCommandProtocolVersion (hp_conns s ! a)"
        "map_of (cn_cmds (hp_conns s ! a)) (ic_id c) = None"
    by fastforce
  then show ?thesis
  proof cases
    case old
    with Some show ?thesis by (intro refused) (simp add: addCmd_def)
  next
    case dup
    with Some show ?thesis by (intro refused [of errDuplicateCommandID]) (simp add: addCmd_def Let_def)
  next
    case new
    with Some show ?thesis
      by (intro stored [of a]) (simp_all add: addCmd_def Let_def added_def)
  qed
qed

lemma inv_addCmd:
  assumes "registry_inv s" "command_ok c" "\<not> ic_done c"
  shows "registry_inv (snd (addCmd n v c s))"
  using assms by (cases n v c s rule: addCmd_cases) (simp_all add: inv_added)

definition removed :: "nat \<Rightarrow> nat \<Rightarrow> registry \<Rightarrow> registry" where
  "removed a c s = upd_cmd c (\<lambda>k. k\<lparr>ic_done := True\<rparr>) (delete_cmd a (ic_id (hp_cmds s ! c)) s)"

lemma removed_simps [simp]:
  "rg_conns (removed a c s) = rg_conns s" "rg_sessionFences (removed a c s) = rg_sessionFences s"
  "length (hp_conns (removed a c s)) = length (hp_conns s)"
  "length (hp_cmds (removed a c s)) = length (hp_cmds s)"
  "current (removed a c s) = current s" "slots_ok (removed a c s) = slots_ok s"
  by (simp_all add: removed_def delete_cmd_def)

lemma nth_removed:
  "b < length (hp_conns s) \<Longrightarrow> hp_conns (removed a c s) ! b =
    (if b = a then (hp_conns s ! a)\<lparr>cn_cmds :=
       AList.delete (ic_id (hp_cmds s ! c)) (cn_cmds (hp_conns s ! a))\<rparr> else hp_conns s ! b)"
  "k < length (hp_cmds s) \<Longrightarrow> hp_cmds (removed a c s) ! k =
    (if k = c then (hp_cmds s ! c)\<lparr>ic_done := True\<rparr> else hp_cmds s ! k)"
  by (simp_all add: removed_def delete_cmd_def nth_upd_cmd nth_upd_conn)

lemma stored_removed:
  assumes inv: "registry_inv s" and st: "stored s a (ic_id (hp_cmds s ! c)) c"
  shows "stored (removed a c s) b i k \<longleftrightarrow> stored s b i k \<and> k \<noteq> c"
proof -
  have "stored (removed a c s) b i k \<longleftrightarrow>
      stored s b i k \<and> (b = a \<longrightarrow> i \<noteq> ic_id (hp_cmds s ! c))"
    by (cases "b < length (hp_conns s)") (auto simp: stored_def nth_removed)
  moreover have "k = c" if "stored s b i k" "b = a" "i = ic_id (hp_cmds s ! c)"
    using that st by (simp add: stored_def)
  moreover have "b = a \<and> i = ic_id (hp_cmds s ! c)" if "stored s b i c"
    using inv_stored_unique [OF inv that st] by simp
  ultimately show ?thesis by blast
qed

lemma inv_removed:
  assumes inv: "registry_inv s" and st: "stored s a (ic_id (hp_cmds s ! c)) c"
  shows "registry_inv (removed a c s)"
proof -
  note str = stored_removed [OF inv st]
  have "conns_ok (removed a c s)"
    using inv by (auto simp: conns_ok_def nth_removed registry_inv_def)
  moreover have "cmds_ok (removed a c s)"
    unfolding cmds_ok_def
  proof (intro conjI allI impI)
    fix b i k
    assume "stored (removed a c s) b i k"
    then show "current (removed a c s) b" "k < length (hp_cmds (removed a c s))"
      "ic_id (hp_cmds (removed a c s) ! k) = i"
      using inv_stored [OF inv, of b i k] by (auto simp: str nth_removed)
  next
    fix b b' i j k
    assume "stored (removed a c s) b i k" "stored (removed a c s) b' j k"
    then show "b = b'" using inv_stored_unique [OF inv, of b i k b' j] by (auto simp: str)
  next
    fix k
    assume "k < length (hp_cmds (removed a c s))"
    then show "ic_done (hp_cmds (removed a c s) ! k) = (\<nexists>b i. stored (removed a c s) b i k)"
      using inv by (auto simp: str nth_removed registry_inv_def cmds_ok_def)
  qed
  moreover have "bounds_ok (removed a c s)"
    using inv by (auto simp: registry_inv_def bounds_ok_def list_all_length nth_removed)
  ultimately show ?thesis
    using inv by (simp add: registry_inv_def)
qed

lemma removeCmd_cases:
  assumes inv: "registry_inv s"
  obtains (stale) "removeCmd n c s = Some s" "\<And>a. map_of (rg_conns s) n = Some a \<Longrightarrow>
      \<not> stored s a (ic_id (hp_cmds s ! c)) c"
  | (freed) a where "map_of (rg_conns s) n = Some a" "stored s a (ic_id (hp_cmds s ! c)) c"
      "removeCmd n c s = Some (removed a c s)"
proof (cases "map_of (rg_conns s) n")
  case None
  then show ?thesis using stale by (simp add: removeCmd_def)
next
  case (Some a)
  note a = inv_current [OF inv Some]
  show ?thesis
  proof (cases "stored s a (ic_id (hp_cmds s ! c)) c")
    case True
    with inv_stored(3) [OF inv True] Some show ?thesis
      by (intro freed [of a])
        (simp_all add: removeCmd_def stored_def close_cmd_def removed_def delete_cmd_def)
  next
    case False
    with Some a show ?thesis
      by (intro stale) (auto simp: removeCmd_def stored_def)
  qed
qed

lemma inv_removeCmd:
  assumes "registry_inv s"
  shows "\<exists>t. removeCmd n c s = Some t \<and> registry_inv t"
  using assms by (cases n c rule: removeCmd_cases [OF assms]) (simp_all add: inv_removed)

section \<open>Operations on one command\<close>

lemma command_ok_chan:
  "command_ok c \<Longrightarrow> ic_events c = Some q \<Longrightarrow> length q' \<le> commandEventBuffer \<Longrightarrow>
    command_ok (c\<lparr>ic_events := Some q'\<rparr>)"
  by (simp add: command_ok_def)

lemma length_chan_try_send: "length q \<le> cap \<Longrightarrow> length (chan_try_send cap x q) \<le> cap"
  by (simp add: chan_try_send_def)

lemma length_send_terminal:
  "length q \<le> commandEventBuffer \<Longrightarrow> length (send_terminal ev q) \<le> commandEventBuffer"
  by (auto simp: send_terminal_def chan_try_send_def split: list.splits)

lemma command_ok_events: "command_ok c \<Longrightarrow> ic_events c = Some q \<Longrightarrow> length q \<le> commandEventBuffer"
  by (simp add: command_ok_def)

lemma inv_deliverEvent:
  assumes "registry_inv s"
  shows "registry_inv (deliverEvent n i ev s)"
  using assms
  by (auto simp: deliverEvent_def split: option.splits
      intro!: inv_upd_cmd intro: command_ok_chan length_chan_try_send command_ok_events)

lemma command_ok_ack:
  "command_ok c \<Longrightarrow> (\<And>q. length q \<le> Suc 0 \<Longrightarrow> length (f q) \<le> Suc 0) \<Longrightarrow>
    command_ok (c\<lparr>ic_ack := map_option f (ic_ack c)\<rparr>)"
  by (auto simp: command_ok_def split: option.splits)

lemma inv_deliverAck:
  assumes "registry_inv s"
  shows "registry_inv (deliverAck n ack s)"
  using assms
  by (auto simp: deliverAck_def split: option.splits
      intro!: inv_upd_cmd
      intro: command_ok_chan length_send_terminal command_ok_events command_ok_ack
        length_chan_try_send)

lemma inv_AdmitReport:
  assumes "registry_inv s"
  shows "registry_inv (snd (AdmitReport n i k want s))"
  using assms
  by (auto simp: AdmitReport_def Let_def command_ok_def split: option.splits intro!: inv_upd_cmd)

lemma artifact_ok_attempt:
  "ae_attempts e < maxCommandArtifactTransferAttempts \<Longrightarrow> artifact_ok (start_attempt e)"
  by (simp add: artifact_ok_def start_attempt_def)

lemma first_match_less: "first_match want es = Some j \<Longrightarrow> j < length es"
  by (induction es arbitrary: j) (auto split: if_splits)

lemma inv_upd_artifact:
  assumes "registry_inv s"
    and "artifact_ok (ic_artifacts (hp_cmds s ! c) ! j) \<Longrightarrow>
      artifact_ok (f (ic_artifacts (hp_cmds s ! c) ! j))"
    and "j < length (ic_artifacts (hp_cmds s ! c))"
  shows "registry_inv (upd_artifact c j f s)"
proof -
  have "command_ok (k\<lparr>ic_artifacts := (ic_artifacts k)[j := f (ic_artifacts k ! j)]\<rparr>)"
    if "command_ok k" "k = hp_cmds s ! c" for k
  proof -
    have "list_all artifact_ok (ic_artifacts k)" using that by (simp add: command_ok_def)
    then have "list_all artifact_ok ((ic_artifacts k)[j := f (ic_artifacts k ! j)])"
      using assms(2,3) that(2) by (intro list_all_update) (simp_all add: list_all_length)
    with that(1) show ?thesis by (simp add: command_ok_def)
  qed
  then show ?thesis
    unfolding upd_artifact_def using assms(1) by (intro inv_upd_cmd) simp_all
qed

lemma inv_AdmitTransfer:
  assumes "registry_inv s"
  shows "registry_inv (snd (AdmitCommandArtifactTransfer n i w s))"
  using assms
  by (auto simp: AdmitCommandArtifactTransfer_def Let_def artifactExpectationFor_def
      split: option.splits intro!: inv_upd_artifact artifact_ok_attempt dest: first_match_less)

lemma snd_AdmitCommandArtifact:
  "snd (AdmitCommandArtifact n i w s) = snd (AdmitCommandArtifactTransfer n i w s)"
  by (simp add: AdmitCommandArtifact_def split: prod.splits sum.splits)

lemma inv_AdmitRetry:
  assumes "registry_inv s"
  shows "registry_inv (snd (AdmitCompletedCommandArtifactUploadRetry n i w s))"
  using assms
  by (auto simp: AdmitCompletedCommandArtifactUploadRetry_def Let_def artifactExpectationFor_def
      split: option.splits intro!: inv_upd_artifact artifact_ok_attempt dest: first_match_less)

lemma with_expectationD:
  assumes "with_expectation n i w s = Some (c, j, e)"
  shows "e = ic_artifacts (hp_cmds s ! c) ! j" "j < length (ic_artifacts (hp_cmds s ! c))"
    "inflightFor n i s = Some c"
  using assms
  by (auto simp: with_expectation_def artifactExpectationFor_def split: option.splits
      dest: first_match_less)

lemma inv_artifact_change:
  assumes "registry_inv s" "with_expectation n i w s = Some (c, j, e)"
    and "\<And>e. artifact_ok e \<Longrightarrow> artifact_ok (f e)"
  shows "registry_inv (upd_artifact c j f s)"
  using assms with_expectationD(2) [OF assms(2)] by (intro inv_upd_artifact) auto

lemma inv_artifact_ops:
  assumes "registry_inv s"
  shows "registry_inv (CompleteCommandArtifactTransfer n i w s)"
    "registry_inv (snd (CompleteCommandArtifactUpload n i w ref s))"
    "registry_inv (FinishCompletedCommandArtifactUploadRetry n i w s)"
    "registry_inv (ReinstateCommandArtifactTransfer n i w s)"
    "registry_inv (ReinstateCommandArtifactUpload n i w s)"
  using assms
  by (auto simp: CompleteCommandArtifactTransfer_def CompleteCommandArtifactUpload_def
      FinishCompletedCommandArtifactUploadRetry_def ReinstateCommandArtifactTransfer_def
      ReinstateCommandArtifactUpload_def artifact_ok_def split: option.splits
      intro!: inv_artifact_change)

lemma inv_pair_ops:
  assumes "registry_inv s"
  shows "registry_inv (snd (AdmitAndScopePairResults n i rs s))"
    "registry_inv (ReinstatePairTargets n i ids s)"
  using assms
  by (auto simp: AdmitAndScopePairResults_def ReinstatePairTargets_def Let_def command_ok_def
      split: option.splits prod.splits intro!: inv_upd_cmd)

section \<open>Artifact slots\<close>

lemma slots_simps [simp]:
  "slots_of d (set_slots d' m s) = (if d = d' then m else slots_of d s)"
  "slots_of d (s\<lparr>rg_leases := L\<rparr>) = slots_of d s"
  "held_leases (set_slots d m s) = held_leases s"
  by (auto simp: slots_of_def set_slots_def held_leases_def fun_eq_iff
      split: artifact_direction.splits)

lemma slot_count_simps [simp]:
  "slot_count (AList.update n k m) = (slot_count m)(n := k)"
  "slot_count (AList.delete n m) = (slot_count m)(n := 0)"
  by (auto simp: slot_count_def fun_eq_iff)

lemma inv_slots_leases:
  assumes "registry_inv s" "slots_ok (set_slots d m (s\<lparr>rg_leases := L\<rparr>))"
  shows "registry_inv (set_slots d m (s\<lparr>rg_leases := L\<rparr>))"
  using assms
  by (cases d) (auto simp: registry_inv_def conns_ok_def cmds_ok_def bounds_ok_def stored_def
      current_def set_slots_def)

lemma set_slots_leases: "(set_slots d m s)\<lparr>rg_leases := L\<rparr> = set_slots d m (s\<lparr>rg_leases := L\<rparr>)"
  by (simp add: set_slots_def split: artifact_direction.splits)

lemma inv_acquire:
  assumes "registry_inv s" "limit \<le> 2"
  shows "registry_inv (snd (acquireCommandArtifactSlot d n limit s))"
  using assms
  by (auto simp: acquireCommandArtifactSlot_def set_slots_leases registry_inv_def [of s]
      slots_ok_def held_leases_def intro!: inv_slots_leases)

lemma held_leases_pos:
  "l < length (rg_leases s) \<Longrightarrow> rg_leases s ! l = k \<Longrightarrow> \<not> ls_released k \<Longrightarrow>
    0 < held_leases s (ls_direction k) (ls_node k)"
  by (auto simp: held_leases_def length_greater_0_conv filter_empty_conv)

lemma inv_release:
  assumes "registry_inv s"
  shows "registry_inv (release_lease l s)"
proof (cases "l < length (rg_leases s) \<and> \<not> ls_released (rg_leases s ! l)")
  case False
  with assms show ?thesis by (auto simp: release_lease_def Let_def)
next
  case True
  let ?k = "rg_leases s ! l" let ?L = "(rg_leases s)[l := ?k\<lparr>ls_released := True\<rparr>]"
  let ?u = "s\<lparr>rg_leases := ?L\<rparr>"
  have h: "held_leases ?u d n =
      held_leases s d n - (if d = ls_direction ?k \<and> n = ls_node ?k then 1 else 0)" for d n
    using True length_filter_update [of l "rg_leases s"
        "\<lambda>l. ls_direction l = d \<and> ls_node l = n \<and> \<not> ls_released l" "?k\<lparr>ls_released := True\<rparr>"]
    by (auto simp: held_leases_def split: if_splits)
  have ok: "slot_count (slots_of d s) n = held_leases s d n" "held_leases s d n \<le> 2" for d n
    using assms by (simp_all add: registry_inv_def slots_ok_def)
  have pos: "0 < held_leases s (ls_direction ?k) (ls_node ?k)"
    using True by (intro held_leases_pos) simp_all
  obtain m where m: "release_lease l s = set_slots (ls_direction ?k) m ?u"
    and c: "slot_count m = (slot_count (slots_of (ls_direction ?k) s))
      (ls_node ?k := held_leases s (ls_direction ?k) (ls_node ?k) - 1)"
  proof (cases "held_leases s (ls_direction ?k) (ls_node ?k) \<le> 1")
    case one: True
    show ?thesis
      using True one pos that [of "AList.delete (ls_node ?k) (slots_of (ls_direction ?k) s)"]
      by (simp add: release_lease_def releaseCommandArtifactSlot_def Let_def ok)
  next
    case two: False
    show ?thesis
      using True two that [of "AList.update (ls_node ?k)
        (held_leases s (ls_direction ?k) (ls_node ?k) - 1) (slots_of (ls_direction ?k) s)"]
      by (simp add: release_lease_def releaseCommandArtifactSlot_def Let_def ok)
  qed
  have "slots_ok (set_slots (ls_direction ?k) m ?u)"
    using ok by (auto simp: slots_ok_def h c intro: le_trans diff_le_self)
  with assms show ?thesis unfolding m by (intro inv_slots_leases)
qed

section \<open>Every operation\<close>

lemma command_ok_new [simp]:
  "command_ok (report_command cmd scope kind pair)" "\<not> ic_done (report_command cmd scope kind pair)"
  "command_ok (ack_command cmd specs)" "\<not> ic_done (ack_command cmd specs)"
  by (auto simp: command_ok_def report_command_def ack_command_def cloneArtifactExpectations_def
      artifact_ok_def list_all_iff maxReportsPerCommand_def MaxScanTargets_def MaxPortsPerIP_def
      split: option.splits)

lemma inv_Unregister:
  assumes "registry_inv s"
  shows "\<exists>t. Unregister n a s = Some t \<and> registry_inv t"
  using assms teardown_eq [OF assms, of n a] inv_dropped [OF assms, of n a]
  by (auto simp: Unregister_def dropped_def)

lemma inv_RegisterAuthenticated:
  assumes "registry_inv s"
  shows "\<exists>r t. RegisterAuthenticated n fp v s = Some (r, t) \<and> registry_inv t"
  using assms inv_registered [OF assms]
  by (auto simp: RegisterAuthenticated_def registerLocked_eq split: option.splits)

lemma inv_recv:
  assumes "registry_inv s"
  shows "registry_inv (upd_conn a (\<lambda>k. k\<lparr>cn_outgoing := tl (cn_outgoing k)\<rparr>) s)"
    "registry_inv (upd_cmd c (\<lambda>k. k\<lparr>ic_events := map_option tl (ic_events k)\<rparr>) s)"
    "registry_inv (upd_cmd c (\<lambda>k. k\<lparr>ic_ack := map_option tl (ic_ack k)\<rparr>) s)"
  using assms
  by (auto intro!: inv_upd_conn inv_upd_cmd simp: command_ok_def split: option.splits)

lemma inv_enqueue:
  assumes "registry_inv s" "enqueue_ready ctxErr taken a s"
  shows "registry_inv (snd (enqueue_select ctxErr taken a cmd s))"
  using assms
  by (auto simp: enqueue_select_def enqueue_ready_def split: enqueue_case.splits
      intro!: inv_upd_conn)

lemma inv_exec_op:
  assumes "registry_inv s"
  shows "\<exists>t. exec op s = Some t \<and> registry_inv t"
proof (cases op)
  case (OpRegister n)
  with assms show ?thesis by (simp add: Register_def registerLocked_eq inv_registered)
next
  case (OpRegisterAuthenticated n fp v)
  with inv_RegisterAuthenticated [OF assms, of n fp v] show ?thesis by auto
next
  case (OpReplaceSession n fp)
  with assms show ?thesis by (simp add: ReplaceSession_def inv_disconnect)
next
  case (OpRevokeSession n)
  with assms show ?thesis by (simp add: RevokeSession_def inv_disconnect)
next
  case (OpDisconnect n)
  with assms show ?thesis by (simp add: Disconnect_def inv_disconnect)
next
  case (OpRemoveCmd n c)
  with assms inv_removeCmd [OF assms] show ?thesis by simp
next
  case (OpEnqueue a cmd)
  with assms show ?thesis by (auto intro: inv_enqueue)
qed (use assms in \<open>simp_all add: inv_Unregister inv_addCmd inv_recv PublishAck_def
  PublishBatch_def PublishPairResults_def inv_deliverAck inv_deliverEvent inv_AdmitReport
  AcquireCommandArtifactUpload_def AcquireCommandArtifactDownload_def inv_acquire
  MaxConcurrentCommandArtifactUploadsPerFleetNode_def
  maxConcurrentCommandArtifactDownloadsPerFleetNode_def inv_release snd_AdmitCommandArtifact
  inv_AdmitTransfer inv_AdmitRetry inv_artifact_ops inv_pair_ops\<close>)

lemma inv_NewRegistry: "registry_inv NewRegistry"
  by (auto simp: registry_inv_def conns_ok_def cmds_ok_def bounds_ok_def slots_ok_def stored_def
      current_def slots_of_def held_leases_def slot_count_def NewRegistry_def
      split: artifact_direction.splits)

interpretation registry: safe_component NewRegistry exec registry_inv
  by unfold_locales (auto simp: inv_NewRegistry inv_exec_op)

lemma reachable_inv:
  obtains s where "run_ops exec ops NewRegistry = Some s" "registry_inv s"
  using registry.run_from_init by blast

section \<open>Lookups after an operation\<close>

lemma inflightFor_iff:
  assumes "registry_inv s"
  shows "inflightFor n i s = Some c \<longleftrightarrow>
    (\<exists>a. map_of (rg_conns s) n = Some a \<and> stored s a i c)"
  using inv_current [OF assms, of n] by (auto simp: inflightFor_def stored_def split: option.splits)

lemma inflightFor_less:
  "registry_inv s \<Longrightarrow> inflightFor n i s = Some c \<Longrightarrow> c < length (hp_cmds s)"
  using inv_stored(1) by (auto simp: inflightFor_iff)

lemma inflightFor_upd_cmd [simp]: "inflightFor n i (upd_cmd c f s) = inflightFor n i s"
  by (simp add: inflightFor_def split: option.splits)

lemma option_eqI: "(\<And>x. u = Some x \<longleftrightarrow> w = Some x) \<Longrightarrow> u = w"
  by (cases u; cases w) auto

lemma inflightFor_removed:
  assumes inv: "registry_inv s" and n: "map_of (rg_conns s) n = Some a"
    and st: "stored s a (ic_id (hp_cmds s ! c)) c"
  shows "inflightFor m i (removed a c s) =
    (if m = n \<and> inflightFor m i s = Some c then None else inflightFor m i s)"
proof (rule option_eqI)
  fix k
  have "m = n" if "map_of (rg_conns s) m = Some b" "stored s b i c" for b
  proof -
    have "b = a" using inv_stored_unique [OF inv that(2) st] by simp
    with that(1) n inv show ?thesis unfolding registry_inv_def conns_ok_def by blast
  qed
  then show "inflightFor m i (removed a c s) = Some k \<longleftrightarrow>
      (if m = n \<and> inflightFor m i s = Some c then None else inflightFor m i s) = Some k"
    using inflightFor_iff [OF inv] inflightFor_iff [OF inv_removed [OF inv st]]
      stored_removed [OF inv st] by (auto simp: stored_def)
qed

lemma hp_conns_registered:
  assumes "b < length (hp_conns s)"
  shows "hp_conns (registered n v s) ! b =
    (if map_of (rg_conns s) n = Some b
     then (hp_conns s ! b)\<lparr>cn_done := True, cn_cmds := []\<rparr> else hp_conns s ! b)"
  using assms by (auto simp: registered_def Let_def nth_append nth_torn_conn split: option.splits)

lemma registered_simps [simp]:
  "rg_conns (registered n v s) = AList.update n (length (hp_conns s)) (rg_conns s)"
  "rg_sessionFences (registered n v s) = rg_sessionFences s"
  "hp_conns (registered n v s) ! length (hp_conns s) = new_connection v"
  by (auto simp: registered_def Let_def nth_append split: option.splits)

lemma inflightFor_registered:
  assumes "registry_inv s"
  shows "inflightFor m i (registered n v s) = (if m = n then None else inflightFor m i s)"
proof (cases "m = n")
  case True
  then show ?thesis by (simp add: inflightFor_def)
next
  case False
  have "b < length (hp_conns s) \<and> map_of (rg_conns s) n \<noteq> Some b"
    if "map_of (rg_conns s) m = Some b" for b
    using assms that False inv_current(1) [OF assms that]
    unfolding registry_inv_def conns_ok_def by blast
  with False show ?thesis
    by (auto simp: inflightFor_def hp_conns_registered split: option.splits)
qed

lemma done_registered:
  assumes "registry_inv s" "inflightFor n i s = Some c"
  shows "ic_done (hp_cmds (registered n v s) ! c)"
proof -
  obtain a where a: "map_of (rg_conns s) n = Some a" "stored s a i c"
    using assms by (auto simp: inflightFor_iff)
  then have "hp_cmds (registered n v s) = hp_cmds (torn a s)"
    by (simp add: registered_def Let_def)
  then show ?thesis
    using a nth_torn_cmd [OF assms(1) inv_current(1) [OF assms(1) a(1)], of c]
      inflightFor_less [OF assms] by auto
qed

section \<open>Session fences\<close>

definition fenced :: "int \<Rightarrow> string \<Rightarrow> registry \<Rightarrow> bool" where
  "fenced n fp s \<longleftrightarrow>
     (case map_of (rg_sessionFences s) n of
        None \<Rightarrow> False
      | Some f \<Rightarrow> sf_revoked f \<or> sf_fingerprint f \<noteq> fp)"

lemma RegisterAuthenticated_fenced:
  "fenced n fp s \<Longrightarrow> RegisterAuthenticated n fp v s = Some (Inl errSessionInvalidated, s)"
  by (auto simp: fenced_def RegisterAuthenticated_def split: option.splits)

lemma fences_of_chan [simp]:
  "rg_sessionFences (deliverEvent n i ev s) = rg_sessionFences s"
  "rg_sessionFences (deliverAck n ack s) = rg_sessionFences s"
  "rg_sessionFences (snd (AdmitReport n i k want s)) = rg_sessionFences s"
  "rg_sessionFences (upd_artifact c j f s) = rg_sessionFences s"
  "rg_sessionFences (set_slots d m s) = rg_sessionFences s"
  by (auto simp: deliverEvent_def deliverAck_def AdmitReport_def Let_def upd_artifact_def
      set_slots_def split: option.splits artifact_direction.splits)

lemma fences_of_artifacts [simp]:
  "rg_sessionFences (snd (AdmitCommandArtifact n i w s)) = rg_sessionFences s"
  "rg_sessionFences (snd (AdmitCompletedCommandArtifactUploadRetry n i w s)) = rg_sessionFences s"
  "rg_sessionFences (CompleteCommandArtifactTransfer n i w s) = rg_sessionFences s"
  "rg_sessionFences (snd (CompleteCommandArtifactUpload n i w ref s)) = rg_sessionFences s"
  "rg_sessionFences (FinishCompletedCommandArtifactUploadRetry n i w s) = rg_sessionFences s"
  "rg_sessionFences (ReinstateCommandArtifactTransfer n i w s) = rg_sessionFences s"
  "rg_sessionFences (ReinstateCommandArtifactUpload n i w s) = rg_sessionFences s"
  "rg_sessionFences (snd (acquireCommandArtifactSlot d n limit s)) = rg_sessionFences s"
  "rg_sessionFences (release_lease l s) = rg_sessionFences s"
  by (auto simp: snd_AdmitCommandArtifact AdmitCommandArtifactTransfer_def
      AdmitCompletedCommandArtifactUploadRetry_def CompleteCommandArtifactTransfer_def
      CompleteCommandArtifactUpload_def FinishCompletedCommandArtifactUploadRetry_def
      ReinstateCommandArtifactTransfer_def ReinstateCommandArtifactUpload_def
      acquireCommandArtifactSlot_def release_lease_def releaseCommandArtifactSlot_def Let_def
      split: option.splits)

lemma fences_of_pair [simp]:
  "rg_sessionFences (snd (AdmitAndScopePairResults n i rs s)) = rg_sessionFences s"
  "rg_sessionFences (ReinstatePairTargets n i ids s) = rg_sessionFences s"
  "rg_sessionFences (snd (enqueue_select ctxErr taken a cmd s)) = rg_sessionFences s"
  "rg_sessionFences (snd (addCmd n v c s)) = rg_sessionFences s"
  by (auto simp: AdmitAndScopePairResults_def ReinstatePairTargets_def Let_def enqueue_select_def
      addCmd_def split: option.splits prod.splits enqueue_case.splits)

lemma fences_of_disconnect:
  "registry_inv s \<Longrightarrow> disconnectLocked n s = Some t \<Longrightarrow> rg_sessionFences t = rg_sessionFences s"
  by (auto simp: disconnectLocked_eq split: option.splits)

lemma fences_of_exec:
  assumes "registry_inv s" "exec op s = Some t"
  shows "rg_sessionFences t =
    (case op of
       OpReplaceSession n fp \<Rightarrow>
         AList.update n \<lparr>sf_fingerprint = fp, sf_revoked = False\<rparr> (rg_sessionFences s)
     | OpRevokeSession n \<Rightarrow>
         AList.update n \<lparr>sf_fingerprint = [], sf_revoked = True\<rparr> (rg_sessionFences s)
     | _ \<Rightarrow> rg_sessionFences s)"
proof (cases op)
  case (OpRegisterAuthenticated n fp v)
  with assms show ?thesis
    by (auto simp: RegisterAuthenticated_def registerLocked_eq split: option.splits if_splits)
next
  case (OpReplaceSession n fp)
  with assms show ?thesis by (auto simp: ReplaceSession_def dest!: fences_of_disconnect [rotated])
next
  case (OpRevokeSession n)
  with assms show ?thesis by (auto simp: RevokeSession_def dest!: fences_of_disconnect [rotated])
next
  case (OpRemoveCmd n c)
  with assms show ?thesis
    by (cases n c rule: removeCmd_cases [OF assms(1)]) (auto split: if_splits)
next
  case (OpUnregister n a)
  with assms teardown_eq [OF assms(1), of n a] show ?thesis
    by (auto simp: Unregister_def split: if_splits)
qed (use assms in \<open>auto simp: Register_def registerLocked_eq Disconnect_def
  PublishAck_def PublishBatch_def PublishPairResults_def AcquireCommandArtifactUpload_def
  AcquireCommandArtifactDownload_def fences_of_disconnect split: if_splits\<close>)

lemma fenced_exec:
  assumes "registry_inv s" "exec op s = Some t" "fenced n fp s" "op \<noteq> OpReplaceSession n fp"
  shows "fenced n fp t"
  using assms fences_of_exec [OF assms(1,2)]
  by (auto simp: fenced_def split: registry_op.splits option.splits)

lemma fenced_run:
  "registry_inv s \<Longrightarrow> run_ops exec ops s = Some t \<Longrightarrow> fenced n fp s \<Longrightarrow>
    OpReplaceSession n fp \<notin> set ops \<Longrightarrow> fenced n fp t"
proof (induction ops arbitrary: s)
  case Nil
  then show ?case by simp
next
  case (Cons op ops)
  obtain u where u: "exec op s = Some u" "registry_inv u"
    using inv_exec_op [OF Cons.prems(1)] by blast
  have "fenced n fp u"
    using fenced_exec [OF Cons.prems(1) u(1) Cons.prems(3)] Cons.prems(4) by auto
  with Cons u show ?case by simp
qed

section \<open>Properties\<close>

text \<open>
  C5. In every order of operations on the registry no channel is closed twice (no operation
  panics); afterwards the connections in the table are exactly the open ones, one per node, and
  the commands held by connections are exactly the ones whose \<open>done\<close> channel is open, each
  held once under its own id by a connection in the table.
\<close>
theorem registry_never_panics:
  "\<exists>s. run_ops exec ops NewRegistry = Some s \<and> conns_ok s \<and> cmds_ok s"
  using registry.run_from_init by (auto simp: registry_inv_def)


text \<open>
  The newest stream of a node wins: registering closes the \<open>done\<close> channels of the node's
  previous connection and of all its commands, installs a fresh open connection, leaves every
  other node's commands alone, and makes the \<open>Unregister\<close> of every older stream a no-op.
\<close>
theorem newest_registration_wins:
  "case run_ops exec ops NewRegistry of
     None \<Rightarrow> False
   | Some s \<Rightarrow>
       (case Register n s of
          None \<Rightarrow> False
        | Some (a, t) \<Rightarrow>
            map_of (rg_conns t) n = Some a \<and> \<not> cn_done (hp_conns t ! a) \<and>
            (\<forall>m i. inflightFor m i t = (if m = n then None else inflightFor m i s)) \<and>
            {c. \<exists>i. inflightFor n i s = Some c} \<subseteq> {c. ic_done (hp_cmds t ! c)} \<and>
            {b. map_of (rg_conns s) n = Some b} \<subseteq>
              {b. cn_done (hp_conns t ! b) \<and> Unregister n b t = Some t})"
proof (rule reachable_inv [of ops])
  fix s
  assume run: "run_ops exec ops NewRegistry = Some s" and inv: "registry_inv s"
  have "cn_done (hp_conns (registered n v s) ! b) \<and>
      Unregister n b (registered n v s) = Some (registered n v s)"
    if "map_of (rg_conns s) n = Some b" for b v
    using inv_current [OF inv that] that by (simp add: hp_conns_registered Unregister_def)
  with run inv show ?thesis
    by (auto simp: Register_def registerLocked_eq inflightFor_registered done_registered)
qed

text \<open>
  Freeing a command is by identity: \<open>removeCmd\<close> takes away at most the one command object
  it was given, also when its id has been reused by a newer command, and a second call changes
  nothing.
\<close>
theorem remove_is_by_identity:
  "case run_ops exec ops NewRegistry of
     None \<Rightarrow> False
   | Some s \<Rightarrow>
       (case removeCmd n c s of
          None \<Rightarrow> False
        | Some t \<Rightarrow>
            (\<forall>m i. inflightFor m i t =
               (if m = n \<and> inflightFor m i s = Some c then None else inflightFor m i s)) \<and>
            removeCmd n c t = Some t)"
proof (rule reachable_inv [of ops])
  fix s
  assume run: "run_ops exec ops NewRegistry = Some s" and inv: "registry_inv s"
  from inv show ?thesis
  proof (cases rule: removeCmd_cases [of s n c])
    case stale
    have "inflightFor n i s \<noteq> Some c" for i
      using stale(2) inv_stored(2) [OF inv, of _ i c] by (auto simp: inflightFor_iff [OF inv])
    with run stale(1) show ?thesis by auto
  next
    case (freed a)
    have "\<not> stored (removed a c s) a i c" for i
      by (simp add: stored_removed [OF inv freed(2)])
    then have "removeCmd n c (removed a c s) = Some (removed a c s)"
      using freed(1) inv_current(1) [OF inv freed(1)] by (simp add: removeCmd_def stored_def Let_def)
    with run freed show ?thesis by (simp add: inflightFor_removed [OF inv])
  qed
qed

text \<open>
  C23. A fenced session stays out: once the sessions of a node were revoked or replaced by one
  with another fingerprint, no later stream of the old session can register, whatever happens in
  between, until the node's session is replaced by one with that very fingerprint.
\<close>
theorem fenced_session_stays_out:
  assumes "fence \<in> {OpRevokeSession n} \<union> OpReplaceSession n ` (- {fp})"
    and "OpReplaceSession n fp \<notin> set later"
  shows "case run_ops exec (earlier @ fence # later) NewRegistry of
     None \<Rightarrow> False
   | Some s \<Rightarrow> RegisterAuthenticated n fp v s = Some (Inl errSessionInvalidated, s)"
proof (rule reachable_inv [of earlier])
  fix s
  assume s: "run_ops exec earlier NewRegistry = Some s" "registry_inv s"
  obtain u where u: "exec fence s = Some u" "registry_inv u"
    using inv_exec_op [OF s(2)] by blast
  obtain t where t: "run_ops exec later u = Some t"
    using registry.run_safe [OF u(2)] by blast
  have "fenced n fp u"
    using fences_of_exec [OF s(2) u(1)] assms(1) by (auto simp: fenced_def)
  then have "fenced n fp t"
    using fenced_run [OF u(2) t] assms(2) by simp
  with s u t show ?thesis
    by (simp add: run_ops_append RegisterAuthenticated_fenced)
qed

theorem fenced_session_stays_out_witness:
  "case run_ops exec ([OpRegisterAuthenticated 7 ''old'' 1] @ OpReplaceSession 7 ''new'' #
       [OpRegisterAuthenticated 7 ''new'' 1]) NewRegistry of
     None \<Rightarrow> False
   | Some s \<Rightarrow> RegisterAuthenticated 7 ''old'' 1 s = Some (Inl errSessionInvalidated, s)"
  by (rule fenced_session_stays_out) simp_all

end
