(* ===== verification/Control_Delivery.thy ===== *)
theory Control_Delivery
  imports Control_Safety "HOL-Library.Sublist"
begin

text \<open>
  What the registry delivers and admits: acks and events on the channels of a command, pair
  results against the dispatched targets, and artifact transfers against the expectations of a
  command.
\<close>

section \<open>Pair results\<close>

abbreviation result_ids :: "pair_result list \<Rightarrow> string list" where
  "result_ids rs \<equiv> map pr_DeviceIdentifier rs"

lemma scope_results_props:
  assumes "scope_results targets rs = (left, kept)"
  shows "set left = set targets - set (result_ids rs)" "distinct (result_ids kept)"
    "set (result_ids kept) = set (result_ids rs) \<inter> set targets" "subseq kept rs"
proof -
  have "set left = set targets - set (result_ids rs) \<and> distinct (result_ids kept) \<and>
    set (result_ids kept) = set (result_ids rs) \<inter> set targets \<and> subseq kept rs"
    using assms
  proof (induction rs arbitrary: targets left kept)
    case Nil
    then show ?case by simp
  next
    case (Cons r rs)
    let ?d = "pr_DeviceIdentifier r"
    show ?case
    proof (cases "?d \<in> set targets")
      case False
      then have "scope_results targets rs = (left, kept)" using Cons.prems by simp
      from Cons.IH [OF this] False show ?thesis by auto
    next
      case True
      obtain l k where lk: "scope_results (removeAll ?d targets) rs = (l, k)"
        by (cases "scope_results (removeAll ?d targets) rs")
      then have "left = l" "kept = r # k" using Cons.prems True by simp_all
      with Cons.IH [OF lk] True show ?thesis by auto
    qed
  qed
  then show "set left = set targets - set (result_ids rs)" "distinct (result_ids kept)"
    "set (result_ids kept) = set (result_ids rs) \<inter> set targets" "subseq kept rs" by auto
qed

lemma scope_results_none:
  "set (result_ids rs) \<inter> set targets = {} \<Longrightarrow> scope_results targets rs = (targets, [])"
  by (induction targets rs rule: scope_results.induct) auto

text \<open>Reports admitted so far plus targets still open.\<close>

definition pair_balance :: "inflight_command \<Rightarrow> int" where
  "pair_balance c = ic_reported c +
     (case ic_pair c of None \<Rightarrow> 0 | Some m \<Rightarrow> int (card (set (pm_Targets m))))"

lemma scope_results_balance:
  assumes "scope_results targets rs = (left, kept)"
  shows "card (set left) + length kept = card (set targets)"
proof -
  note p = scope_results_props [OF assms]
  have "length kept = card (set (result_ids rs) \<inter> set targets)"
    using distinct_card [OF p(2)] p(3) by simp
  moreover have "card (set targets) =
      card (set targets - set (result_ids rs)) + card (set (result_ids rs) \<inter> set targets)"
    by (subst card_Un_disjoint [symmetric]) (auto intro: arg_cong [where f = card])
  ultimately show ?thesis using p(1) by simp
qed

lemma reinstate_target_simps:
  "i \<in> set targets \<Longrightarrow> reinstate_target (targets, k) i = (targets, k)"
  "i \<notin> set targets \<Longrightarrow> reinstate_target (targets, k) i = (targets @ [i], k - 1)"
  by (simp_all add: reinstate_target_def)

lemma reinstate_targets_fold:
  assumes "foldl reinstate_target (targets, k) ids = (targets', k')"
  shows "k' + int (card (set targets')) = k + int (card (set targets))"
  using assms
proof (induction ids arbitrary: targets k)
  case Nil
  then show ?case by simp
next
  case (Cons a ids)
  show ?case
  proof (cases "a \<in> set targets")
    case True
    with Cons show ?thesis by (simp add: reinstate_target_simps)
  next
    case False
    then have "foldl reinstate_target (targets @ [a], k - 1) ids = (targets', k')"
      using Cons.prems by (simp add: reinstate_target_simps)
    from Cons.IH [OF this] False show ?thesis by simp
  qed
qed

lemma pair_balance_reinstate:
  assumes "registry_inv s" "c < length (hp_cmds s)"
  shows "pair_balance (hp_cmds (ReinstatePairTargets n i ids s) ! c) = pair_balance (hp_cmds s ! c)"
  using assms
  by (auto simp: ReinstatePairTargets_def Let_def nth_upd_cmd pair_balance_def
      split: option.splits prod.splits dest!: reinstate_targets_fold)

text \<open>A successful admission, spelled out.\<close>

lemma AdmitPair_Inr:
  assumes "AdmitAndScopePairResults n i rs s = (Inr (kept, meta), t)"
  obtains c m left where "inflightFor n i s = Some c" "ic_pair (hp_cmds s ! c) = Some m"
    "reportBearing (hp_cmds s ! c)" "ic_kind (hp_cmds s ! c) = ReportKindPair" "rs \<noteq> []"
    "scope_results (pm_Targets m) rs = (left, kept)" "meta = (pm_OrgID m, pm_AssignedBy m)"
    "t = upd_cmd c (\<lambda>k. k\<lparr>ic_pair := Some (m\<lparr>pm_Targets := left\<rparr>),
       ic_reported := ic_reported k + int (length kept)\<rparr>) s"
  using assms
  by (auto simp: AdmitAndScopePairResults_def Let_def split: option.splits if_splits prod.splits)

lemma AdmitPair_again:
  assumes inv: "registry_inv s" and ok: "AdmitAndScopePairResults n i rs s = (Inr (kept, meta), t)"
  shows "AdmitAndScopePairResults n i rs t = (Inr ([], meta), t)"
  using ok
proof (rule AdmitPair_Inr)
  fix c m left
  assume a: "inflightFor n i s = Some c" "ic_pair (hp_cmds s ! c) = Some m"
    "reportBearing (hp_cmds s ! c)" "ic_kind (hp_cmds s ! c) = ReportKindPair" "rs \<noteq> []"
    "scope_results (pm_Targets m) rs = (left, kept)" "meta = (pm_OrgID m, pm_AssignedBy m)"
    and t: "t = upd_cmd c (\<lambda>k. k\<lparr>ic_pair := Some (m\<lparr>pm_Targets := left\<rparr>),
       ic_reported := ic_reported k + int (length kept)\<rparr>) s"
  have c: "c < length (hp_cmds s)" using inflightFor_less [OF inv a(1)] .
  have left: "scope_results left rs = (left, [])"
    using scope_results_props(1) [OF a(6)] by (intro scope_results_none) auto
  have id: "upd_cmd c (\<lambda>k. k\<lparr>ic_pair := Some (m\<lparr>pm_Targets := left\<rparr>), ic_reported := ic_reported k\<rparr>) t = t"
    using c by (cases "hp_cmds s ! c") (simp add: t upd_cmd_def)
  show ?thesis
    using a c left id
    by (simp add: AdmitAndScopePairResults_def Let_def t nth_upd_cmd reportBearing_def)
qed

section \<open>Artifact expectations\<close>

lemma first_match_update:
  assumes "first_match want es = Some j" "ae_spec (f (es ! j)) = ae_spec (es ! j)"
  shows "first_match want (es[j := f (es ! j)]) = Some j"
  using assms by (induction es arbitrary: j) (auto split: if_splits nat.splits)

lemma expectation_after:
  assumes inv: "registry_inv s" and c: "inflightFor n i s = Some c"
    and j: "artifactExpectationFor (hp_cmds s ! c) want = Some j"
    and f: "\<And>e. ae_spec (f e) = ae_spec e"
  shows "inflightFor n i (upd_artifact c j f s) = Some c"
    "artifactExpectationFor (hp_cmds (upd_artifact c j f s) ! c) want = Some j"
    "ic_artifacts (hp_cmds (upd_artifact c j f s) ! c) ! j = f (ic_artifacts (hp_cmds s ! c) ! j)"
  using c j f first_match_less [of want "ic_artifacts (hp_cmds s ! c)" j] inflightFor_less [OF inv c]
  by (auto simp: upd_artifact_def nth_upd_cmd artifactExpectationFor_def first_match_update)

lemma AdmitTransfer_Inr:
  assumes "AdmitCommandArtifactTransfer n i want s = (Inr c, t)"
  obtains j where "inflightFor n i s = Some c"
    "artifactExpectationFor (hp_cmds s ! c) want = Some j"
    "t = upd_artifact c j start_attempt s"
    "ae_attempts (ic_artifacts (hp_cmds s ! c) ! j) < maxCommandArtifactTransferAttempts"
  using assms
  by (auto simp: AdmitCommandArtifactTransfer_def Let_def split: option.splits if_splits)

lemma clone_ref [simp]: "cloneCommandArtifactRef ref = ref"
  by (cases ref) (simp_all add: cloneCommandArtifactRef_def)

lemma ack_first_wins:
  "map_option (chan_try_send (Suc 0) ack) q = (if q = Some [] then Some [ack] else q)"
  by (cases q) (auto simp: chan_try_send_def)

section \<open>Properties\<close>

text \<open>
  A terminal ack always arrives: for a report-bearing command in flight it becomes the last
  event, at the price of at most the oldest buffered event when the buffer is full; for an
  ack-only command the first ack stays. An ack for any other id changes nothing.
\<close>
theorem terminal_ack_is_delivered:
  "case run_ops exec ops NewRegistry of
     None \<Rightarrow> False
   | Some s \<Rightarrow>
       (case inflightFor n (ak_CommandId ack) s of
          None \<Rightarrow> PublishAck n ack s = s
        | Some c \<Rightarrow>
            (case ic_events (hp_cmds s ! c) of
               Some q \<Rightarrow> ic_events (hp_cmds (PublishAck n ack s) ! c) =
                 Some ((if length q < commandEventBuffer then q else tl q) @ [EvAck ack])
             | None \<Rightarrow> ic_ack (hp_cmds (PublishAck n ack s) ! c) =
                 (if ic_ack (hp_cmds s ! c) = Some [] then Some [ack]
                  else ic_ack (hp_cmds s ! c))))"
proof (rule reachable_inv [of ops])
  fix s
  assume run: "run_ops exec ops NewRegistry = Some s" and inv: "registry_inv s"
  have sendt: "send_terminal ev q = (if length q < commandEventBuffer then q else tl q) @ [ev]"
    if "length q \<le> commandEventBuffer" for ev q
    using that by (cases q) (auto simp: send_terminal_def chan_try_send_def commandEventBuffer_def)
  have "length q \<le> commandEventBuffer"
    if "inflightFor n i s = Some c" "ic_events (hp_cmds s ! c) = Some q" for i c q
    using command_ok_events [OF command_ok_at [OF inv inflightFor_less [OF inv that(1)]] that(2)] .
  then show ?thesis
    using run inflightFor_less [OF inv]
    by (auto simp: PublishAck_def deliverAck_def nth_upd_cmd sendt ack_first_wins
        split: option.splits)
qed

text \<open>
  C28. Pair results are admitted once and only for dispatched targets: the kept results are, in
  report order, one per identifier that is still an open target; those targets are consumed, so
  that repeating the report keeps nothing; the sum of admitted reports and open targets does not
  change, neither by admission nor by reinstating identifiers after a failed write.
\<close>
theorem pair_results_admitted_once:
  "case run_ops exec ops NewRegistry of
     None \<Rightarrow> False
   | Some s \<Rightarrow>
       (case AdmitAndScopePairResults n i rs s of
          (Inl e, t) \<Rightarrow> t = s \<and> e \<in> {errNoInFlightCommand, ErrEmptyReport}
        | (Inr (kept, meta), t) \<Rightarrow>
            (\<exists>c m. inflightFor n i s = Some c \<and> ic_pair (hp_cmds s ! c) = Some m \<and>
               subseq kept rs \<and> distinct (result_ids kept) \<and>
               set (result_ids kept) = set (result_ids rs) \<inter> set (pm_Targets m) \<and>
               meta = (pm_OrgID m, pm_AssignedBy m) \<and>
               AdmitAndScopePairResults n i rs t = (Inr ([], meta), t) \<and>
               pair_balance (hp_cmds t ! c) = pair_balance (hp_cmds s ! c) \<and>
               pair_balance (hp_cmds (ReinstatePairTargets n i ids t) ! c) =
                 pair_balance (hp_cmds s ! c)))"
proof (rule reachable_inv [of ops])
  fix s
  assume run: "run_ops exec ops NewRegistry = Some s" and inv: "registry_inv s"
  show ?thesis
  proof (cases "AdmitAndScopePairResults n i rs s")
    case (Pair r t)
    show ?thesis
    proof (cases r)
      case (Inl e)
      with Pair run show ?thesis
        by (auto simp: AdmitAndScopePairResults_def Let_def split: option.splits if_splits prod.splits)
    next
      case (Inr p)
      obtain kept meta where p: "p = (kept, meta)" by (cases p)
      with Pair Inr have ok: "AdmitAndScopePairResults n i rs s = (Inr (kept, meta), t)" by simp
      from ok obtain c m left where c: "inflightFor n i s = Some c" "ic_pair (hp_cmds s ! c) = Some m"
        "scope_results (pm_Targets m) rs = (left, kept)" "meta = (pm_OrgID m, pm_AssignedBy m)"
        and t: "t = upd_cmd c (\<lambda>k. k\<lparr>ic_pair := Some (m\<lparr>pm_Targets := left\<rparr>),
          ic_reported := ic_reported k + int (length kept)\<rparr>) s"
        by (rule AdmitPair_Inr)
      note lt = inflightFor_less [OF inv c(1)]
      have "registry_inv t" using inv_pair_ops(1) [OF inv, of n i rs] ok by simp
      then have re: "pair_balance (hp_cmds (ReinstatePairTargets n i ids t) ! c) =
          pair_balance (hp_cmds t ! c)"
        using lt t by (intro pair_balance_reinstate) simp_all
      have "pair_balance (hp_cmds t ! c) = pair_balance (hp_cmds s ! c)"
        using c lt scope_results_balance [OF c(3)] by (simp add: t nth_upd_cmd pair_balance_def)
      with re run ok c scope_results_props [OF c(3)] AdmitPair_again [OF inv ok] show ?thesis
        by simp
    qed
  qed
qed

text \<open>
  An artifact expectation has one transfer at a time: an admitted transfer has started one
  more attempt, of at most three, on a matching expectation of the command in flight, and every
  further admission of that artifact is refused until the transfer is given back; a refused
  admission changes nothing.
\<close>
theorem artifact_transfer_is_exclusive:
  "case run_ops exec ops NewRegistry of
     None \<Rightarrow> False
   | Some s \<Rightarrow>
       (case AdmitCommandArtifactTransfer n i want s of
          (Inl e, t) \<Rightarrow> t = s
        | (Inr c, t) \<Rightarrow>
            (\<exists>j. inflightFor n i s = Some c \<and>
               artifactExpectationFor (hp_cmds s ! c) want = Some j \<and>
               ae_attempts (ic_artifacts (hp_cmds t ! c) ! j) =
                 ae_attempts (ic_artifacts (hp_cmds s ! c) ! j) + 1 \<and>
               ae_attempts (ic_artifacts (hp_cmds t ! c) ! j) \<le> 3) \<and>
            fst (AdmitCommandArtifactTransfer n i want t) \<noteq> Inr c \<and>
            snd (AdmitCommandArtifactTransfer n i want t) = t)"
proof (rule reachable_inv [of ops])
  fix s
  assume run: "run_ops exec ops NewRegistry = Some s" and inv: "registry_inv s"
  show ?thesis
  proof (cases "AdmitCommandArtifactTransfer n i want s")
    case (Pair r t)
    show ?thesis
    proof (cases r)
      case (Inl e)
      with Pair run show ?thesis
        by (auto simp: AdmitCommandArtifactTransfer_def Let_def split: option.splits if_splits)
    next
      case (Inr c)
      with Pair have ok: "AdmitCommandArtifactTransfer n i want s = (Inr c, t)" by simp
      from ok obtain j where j: "inflightFor n i s = Some c"
        "artifactExpectationFor (hp_cmds s ! c) want = Some j"
        "t = upd_artifact c j start_attempt s"
        "ae_attempts (ic_artifacts (hp_cmds s ! c) ! j) < maxCommandArtifactTransferAttempts"
        by (rule AdmitTransfer_Inr)
      note after = expectation_after [OF inv j(1,2), of start_attempt]
      then show ?thesis
        using run ok j
        by (auto simp: AdmitCommandArtifactTransfer_def Let_def start_attempt_def
            maxCommandArtifactTransferAttempts_def)
    qed
  qed
qed

text \<open>
  A completed upload can be recovered while its command is in flight: after
  \<open>CompleteCommandArtifactUpload\<close> reported success, \<open>CompletedCommandArtifactUpload\<close> returns the
  stored reference and a fresh transfer of the artifact is refused as already done; when it
  reports failure nothing has changed.
\<close>
theorem completed_upload_round_trip:
  "case run_ops exec ops NewRegistry of
     None \<Rightarrow> False
   | Some s \<Rightarrow>
       (case CompleteCommandArtifactUpload n i want ref s of
          (False, t) \<Rightarrow> t = s
        | (True, t) \<Rightarrow>
            CompletedCommandArtifactUpload n i want t = ref \<and> ref \<noteq> None \<and>
            fst (AdmitCommandArtifactTransfer n i want t) \<in>
              Inl ` {ErrArtifactTooLarge, ErrArtifactAlreadyTransferred})"
proof (rule reachable_inv [of ops])
  fix s
  assume run: "run_ops exec ops NewRegistry = Some s" and inv: "registry_inv s"
  show ?thesis
  proof (cases "fst (CompleteCommandArtifactUpload n i want ref s)")
    case False
    with run show ?thesis
      by (auto simp: CompleteCommandArtifactUpload_def split: option.splits if_splits)
  next
    case True
    let ?f = "\<lambda>e. e\<lparr>ae_inProgress := False, ae_completed := True, ae_uploadRef := ref\<rparr>"
    from True obtain c j e where d: "ax_Direction want = ArtifactDirectionUpload" "ref \<noteq> None"
      and w: "with_expectation n i want s = Some (c, j, e)"
      and t: "CompleteCommandArtifactUpload n i want ref s = (True, upd_artifact c j ?f s)"
      by (auto simp: CompleteCommandArtifactUpload_def split: option.splits if_splits)
    have j: "inflightFor n i s = Some c" "artifactExpectationFor (hp_cmds s ! c) want = Some j"
      using w by (auto simp: with_expectation_def split: option.splits)
    note after = expectation_after [OF inv j, of ?f]
    then show ?thesis
      using run t d
      by (auto simp: CompletedCommandArtifactUpload_def with_expectation_def
          AdmitCommandArtifactTransfer_def Let_def)
  qed
qed

end
