(* ===== verification/Control_Dispatch.thy ===== *)
theory Control_Dispatch
  imports Control_Delivery
begin

text \<open>
  Sending commands: the calls of \<open>session.go\<close> and \<open>command.go\<close> that span several critical
  sections, the result loop of \<open>dispatch.go\<close> and the admission classes of \<open>admission.go\<close>.

  A call that gives up the mutex in between is run under a schedule: the operations other
  goroutines perform at each gap, the state of its context there and the ready case a
  \<open>select\<close> takes. A call whose \<open>select\<close> has no such ready case is still \<open>Blocked\<close>.
\<close>

section \<open>Outcomes\<close>

datatype 'a outcome = Panicked | Blocked | Returned 'a

definition or_panic :: "'a option \<Rightarrow> 'a outcome" where
  "or_panic r = (case r of None \<Rightarrow> Panicked | Some x \<Rightarrow> Returned x)"

definition obind :: "'a outcome \<Rightarrow> ('a \<Rightarrow> 'b outcome) \<Rightarrow> 'b outcome" where
  "obind r f = (case r of Panicked \<Rightarrow> Panicked | Blocked \<Rightarrow> Blocked | Returned x \<Rightarrow> f x)"

definition others :: "registry_op list \<Rightarrow> registry \<Rightarrow> registry outcome" where
  "others ops s = or_panic (run_ops exec ops s)"

record enqueue_schedule =
  eq_ctxEntry :: "string option"
  eq_before :: "registry_op list"
  eq_ctx :: "string option"
  eq_taken :: enqueue_case

definition enqueue ::
  "enqueue_schedule \<Rightarrow> nat \<Rightarrow> control_command \<Rightarrow> registry \<Rightarrow>
    (control_error option \<times> registry) outcome" where
  "enqueue sch a cmd s =
     (if eq_ctxEntry sch \<noteq> None
      then Returned (Some (ctx_error ''send command: '' (eq_ctxEntry sch)), s)
      else obind (others (eq_before sch) s)
        (\<lambda>t. if enqueue_ready (eq_ctx sch) (eq_taken sch) a t
             then Returned (enqueue_select (eq_ctx sch) (eq_taken sch) a cmd t)
             else Blocked))"

definition add_error :: "control_error \<Rightarrow> control_error" where
  "add_error e =
     (if e = errDuplicateCommandID
      then ErrFleet (NewInternalError ''duplicate command_id in flight for fleet_node'')
      else e)"

section \<open>Report-bearing commands (session.go)\<close>

definition Session_Close :: "int \<Rightarrow> nat \<Rightarrow> registry \<Rightarrow> registry option" where
  "Session_Close n c s = removeCmd n c s"

text \<open>The session is the address of its command.\<close>

definition Send ::
  "registry_op list \<Rightarrow> enqueue_schedule \<Rightarrow> registry_op list \<Rightarrow> int \<Rightarrow> int \<Rightarrow> control_command \<Rightarrow>
    report_scope option \<Rightarrow> report_kind \<Rightarrow> pair_meta option \<Rightarrow> registry \<Rightarrow>
    ((control_error + nat) \<times> registry) outcome" where
  "Send gap1 sch gap2 n minimumVersion cmd scope kind pair s =
     (case addCmd n minimumVersion (report_command cmd scope kind pair) s of
        (Inl e, t) \<Rightarrow> Returned (Inl (add_error e), t)
      | (Inr (a, c), t) \<Rightarrow>
          obind (others gap1 t) (\<lambda>t.
          obind (enqueue sch a cmd t) (\<lambda>(r, t).
            case r of
              None \<Rightarrow> Returned (Inr c, t)
            | Some e \<Rightarrow>
                obind (others gap2 t) (\<lambda>t.
                obind (or_panic (Session_Close n c t)) (\<lambda>t. Returned (Inl e, t))))))"

section \<open>Ack-only commands (command.go)\<close>

definition missing_uploads :: "artifact_expectation list \<Rightarrow> nat" where
  "missing_uploads es = length (filter (\<lambda>e. ax_Direction (ae_spec e) = ArtifactDirectionUpload \<and>
     (\<not> ae_completed e \<or> ae_uploadRef e = None)) es)"

fun upload_refs :: "artifact_expectation list \<Rightarrow> artifact_ref list" where
  "upload_refs [] = []"
| "upload_refs (e # es) =
     (if ax_Direction (ae_spec e) = ArtifactDirectionUpload \<and> ae_completed e
      then (case cloneCommandArtifactRef (ae_uploadRef e) of
              None \<Rightarrow> upload_refs es
            | Some r \<Rightarrow> r # upload_refs es)
      else upload_refs es)"

definition missing_error :: "nat \<Rightarrow> control_error" where
  "missing_error k = ErrFleet (NewInternalError
     (''fleet node reported command success before '' @ show_nat k @
      '' expected artifact upload(s) completed''))"

definition completedUploadRefs ::
  "control_ack \<Rightarrow> inflight_command \<Rightarrow> artifact_ref list \<times> control_error option" where
  "completedUploadRefs ack c =
     (upload_refs (ic_artifacts c),
      if ak_Code ack = ACK_CODE_OK \<and> ak_Succeeded ack \<and> 0 < missing_uploads (ic_artifacts c)
      then Some (missing_error (missing_uploads (ic_artifacts c))) else None)"

datatype await_case = TakeAck | TakeDone | TakeCtx

record await_schedule =
  aw_before :: "registry_op list"
  aw_ctx :: "string option"
  aw_taken :: await_case
  aw_gap :: "registry_op list"

type_synonym send_result = "control_ack option \<times> artifact_ref list \<times> control_error option"

definition take_ack ::
  "registry_op list \<Rightarrow> nat \<Rightarrow> registry \<Rightarrow> (send_result \<times> registry) outcome option" where
  "take_ack gap c s =
     (case ic_ack (hp_cmds s ! c) of
        Some (ack # q) \<Rightarrow>
          Some (obind (others gap (upd_cmd c (\<lambda>k. k\<lparr>ic_ack := Some q\<rparr>) s)) (\<lambda>t.
            case completedUploadRefs ack (hp_cmds t ! c) of
              (refs, err) \<Rightarrow> Returned ((Some ack, refs, err), t)))
      | _ \<Rightarrow> None)"

definition await_ack ::
  "await_schedule \<Rightarrow> nat \<Rightarrow> registry \<Rightarrow> (send_result \<times> registry) outcome" where
  "await_ack sch c s =
     obind (others (aw_before sch) s) (\<lambda>t.
       case aw_taken sch of
         TakeAck \<Rightarrow> (case take_ack (aw_gap sch) c t of None \<Rightarrow> Blocked | Some r \<Rightarrow> r)
       | TakeDone \<Rightarrow>
           if \<not> ic_done (hp_cmds t ! c) then Blocked
           else (case take_ack (aw_gap sch) c t of
                   None \<Rightarrow> Returned ((None, [], Some ErrNoActiveStream), t)
                 | Some r \<Rightarrow> r)
       | TakeCtx \<Rightarrow>
           if aw_ctx sch = None then Blocked
           else Returned ((None, [], Some (ctx_error ''await ack: '' (aw_ctx sch))), t))"

text \<open>Everything between the registration of the command and its deferred removal.\<close>

definition send_and_await ::
  "enqueue_schedule \<Rightarrow> await_schedule \<Rightarrow> nat \<Rightarrow> nat \<Rightarrow> control_command \<Rightarrow> registry \<Rightarrow>
    (send_result \<times> registry) outcome" where
  "send_and_await esch asch a c cmd s =
     obind (enqueue esch a cmd s) (\<lambda>(r, t).
       case r of
         None \<Rightarrow> await_ack asch c t
       | Some e \<Rightarrow> Returned ((None, [], Some e), t))"

definition SendCommandWithArtifactResults ::
  "registry_op list \<Rightarrow> enqueue_schedule \<Rightarrow> await_schedule \<Rightarrow> registry_op list \<Rightarrow> int \<Rightarrow> int \<Rightarrow>
    control_command \<Rightarrow> artifact_spec list \<Rightarrow> registry \<Rightarrow> (send_result \<times> registry) outcome" where
  "SendCommandWithArtifactResults gap1 esch asch gap2 n minimumVersion cmd artifacts s =
     (case addCmd n minimumVersion (ack_command cmd artifacts) s of
        (Inl e, t) \<Rightarrow> Returned ((None, [], Some (add_error e)), t)
      | (Inr (a, c), t) \<Rightarrow>
          obind (others gap1 t) (\<lambda>t.
          obind (send_and_await esch asch a c cmd t) (\<lambda>(r, t).
          obind (others gap2 t) (\<lambda>t.
          obind (or_panic (removeCmd n c t)) (\<lambda>t. Returned (r, t))))))"

definition SendCommandWithArtifacts where
  "SendCommandWithArtifacts gap1 esch asch gap2 n minimumVersion cmd artifacts s =
     obind (SendCommandWithArtifactResults gap1 esch asch gap2 n minimumVersion cmd artifacts s)
       (\<lambda>((ack, refs, err), t). Returned ((ack, err), t))"

definition SendCommand where
  "SendCommand gap1 esch asch gap2 n minimumVersion cmd s =
     SendCommandWithArtifacts gap1 esch asch gap2 n minimumVersion cmd [] s"

section \<open>The result loop (dispatch.go)\<close>

text \<open>\<open>code_string\<close> is the \<open>String\<close> method of the generated enum.\<close>

definition ack_reason :: "(ack_code \<Rightarrow> string) \<Rightarrow> control_ack \<Rightarrow> string" where
  "ack_reason code_string ack =
     (if ak_ErrorMessage ack = [] then ''code '' @ code_string (ak_Code ack)
      else ak_ErrorMessage ack)"

definition AckFailure :: "(ack_code \<Rightarrow> string) \<Rightarrow> control_ack \<Rightarrow> string \<Rightarrow> fleet_error" where
  "AckFailure code_string ack noun =
     (let reason = ack_reason code_string ack; code = ak_Code ack in
      if code = ACK_CODE_BAD_REQUEST then
        NewInvalidArgumentError (''fleet node rejected '' @ noun @ '' command: '' @ reason)
      else if code = ACK_CODE_UNAUTHENTICATED then
        NewFailedPreconditionError
          (''fleet node rejected '' @ noun @ '' credentials: '' @ reason)
      else if code = ACK_CODE_BUSY then
        FleetError CodeResourceExhausted
          (''fleet node is busy with another command; retry shortly: '' @ reason)
      else if code = ACK_CODE_AGENT_INCAPABLE then
        NewFailedPreconditionError (''fleet node cannot service this '' @ noun @
          '' command; try another node: '' @ reason)
      else if code = ACK_CODE_UNIMPLEMENTED then
        NewUnimplementedError
          (''fleet node does not support this '' @ noun @ '' command: '' @ reason)
      else if code = ACK_CODE_REPORT_FAILED then
        NewInternalError (''fleet node could not upload all '' @ noun @
          '' results; some may have been applied, re-list to confirm: '' @ reason)
      else NewInternalError (''fleet node reported '' @ noun @ '' failure: '' @ reason))"

text \<open>
  The callback \<open>onData\<close> is a closure: it reads and changes its own state \<open>'st\<close> and returns
  whether to stop, and an error.
\<close>

type_synonym 'st on_data = "'st \<Rightarrow> command_event \<Rightarrow> (bool \<times> fleet_error option) \<times> 'st"

definition handleEvent ::
  "(ack_code \<Rightarrow> string) \<Rightarrow> string \<Rightarrow> 'st on_data \<Rightarrow> 'st \<Rightarrow> command_event \<Rightarrow>
    (bool \<times> fleet_error option) \<times> 'st" where
  "handleEvent code_string noun onData st ev =
     (case ev of
        EvAck ack \<Rightarrow>
          if ak_Code ack = ACK_CODE_PARTIAL then
            (case onData st ev of ((_, err), st') \<Rightarrow> ((True, err), st'))
          else if ak_Code ack \<noteq> ACK_CODE_OK \<or> \<not> ak_Succeeded ack then
            ((True, Some (AckFailure code_string ack noun)), st)
          else ((True, None), st)
      | _ \<Rightarrow> onData st ev)"

datatype ctx_state = CtxLive | CtxDeadlineExceeded | CtxCanceled

definition timeout_error :: "string \<Rightarrow> string \<Rightarrow> fleet_error" where
  "timeout_error noun timeout =
     FleetError CodeDeadlineExceeded (noun @ '' command timed out after '' @ timeout)"

definition canceled_error :: fleet_error where
  "canceled_error = FleetError CodeCanceled ''operation was canceled''"

definition no_stream_error :: fleet_error where
  "no_stream_error = NewFailedPreconditionError ''fleet node has no active control stream''"

definition stream_closed_error :: fleet_error where
  "stream_closed_error = NewFailedPreconditionError
     ''fleet node control stream closed before command completed''"

fun drain_events ::
  "(ack_code \<Rightarrow> string) \<Rightarrow> string \<Rightarrow> 'st on_data \<Rightarrow> 'st \<Rightarrow> command_event list \<Rightarrow>
    fleet_error option \<times> 'st" where
  "drain_events cs noun onData st [] = (Some stream_closed_error, st)"
| "drain_events cs noun onData st (ev # evs) =
     (case handleEvent cs noun onData st ev of
        ((terminal, err), st') \<Rightarrow>
          if terminal then (err, st') else drain_events cs noun onData st' evs)"

text \<open>
  The cases the loop's \<open>select\<close> takes, in order. When the session is done, its command has left
  the registry and the events still buffered are fixed.
\<close>

datatype loop_case =
    SeeCtxDone ctx_state
  | SeeEvent command_event
  | SeeSessionDone "command_event list"

fun run_loop ::
  "(ack_code \<Rightarrow> string) \<Rightarrow> string \<Rightarrow> string \<Rightarrow> 'st on_data \<Rightarrow> 'st \<Rightarrow> loop_case list \<Rightarrow>
    (fleet_error option \<times> 'st) outcome" where
  "run_loop cs noun timeout onData st [] = Blocked"
| "run_loop cs noun timeout onData st (x # xs) =
     (case x of
        SeeCtxDone c \<Rightarrow>
          if c = CtxDeadlineExceeded then Returned (Some (timeout_error noun timeout), st)
          else Returned (Some canceled_error, st)
      | SeeEvent ev \<Rightarrow>
          (case handleEvent cs noun onData st ev of
             ((terminal, err), st') \<Rightarrow>
               if terminal then Returned (err, st')
               else run_loop cs noun timeout onData st' xs)
      | SeeSessionDone evs \<Rightarrow> Returned (drain_events cs noun onData st evs))"

text \<open>
  The context the loop waits on: detached from the caller's cancellation when the accepted
  command has to finish, so that only its deadline can be seen.
\<close>

definition loop_cases :: "bool \<Rightarrow> loop_case list \<Rightarrow> loop_case list" where
  "loop_cases finishAfterCancellation xs =
     (if finishAfterCancellation then filter (\<lambda>x. x \<noteq> SeeCtxDone CtxCanceled) xs else xs)"

definition send_failure :: "string \<Rightarrow> string \<Rightarrow> ctx_state \<Rightarrow> control_error \<Rightarrow> control_error" where
  "send_failure noun timeout ctx e =
     (if ctx = CtxDeadlineExceeded then ErrFleet (timeout_error noun timeout)
      else if ctx \<noteq> CtxLive then ErrFleet canceled_error
      else if e = ErrNoActiveStream then ErrFleet no_stream_error
      else e)"

text \<open>The result of \<open>sender.Send\<close> and the cases seen by the loop are arguments.\<close>

definition runCommand ::
  "(ack_code \<Rightarrow> string) \<Rightarrow> string \<Rightarrow> string \<Rightarrow> 'st on_data \<Rightarrow> 'st \<Rightarrow> bool \<Rightarrow>
    control_error option \<Rightarrow> ctx_state \<Rightarrow> loop_case list \<Rightarrow>
    (control_error option \<times> 'st) outcome" where
  "runCommand cs noun timeout onData st finishAfterCancellation sent ctx xs =
     (case sent of
        Some e \<Rightarrow> Returned (Some (send_failure noun timeout ctx e), st)
      | None \<Rightarrow>
          obind (run_loop cs noun timeout onData st (loop_cases finishAfterCancellation xs))
            (\<lambda>(err, st'). Returned (map_option ErrFleet err, st')))"

definition RunCommand where
  "RunCommand cs noun timeout onData st sent ctx xs =
     runCommand cs noun timeout onData st False sent ctx xs"

definition RunCommandToCompletion where
  "RunCommandToCompletion cs noun timeout onData st sent ctx xs =
     runCommand cs noun timeout onData st True sent ctx xs"

section \<open>Admission classes (admission.go)\<close>

definition MaxConcurrentCommandsPerFleetNode :: int where
  "MaxConcurrentCommandsPerFleetNode = 512"
definition ReservedGeneralCommandSlotsPerFleetNode :: int where
  "ReservedGeneralCommandSlotsPerFleetNode = 8"
definition MaxConcurrentDeferrableReadsPerFleetNode :: int where
  "MaxConcurrentDeferrableReadsPerFleetNode =
     MaxConcurrentCommandsPerFleetNode - ReservedGeneralCommandSlotsPerFleetNode"

datatype admission_class =
  CommandAdmissionGeneral | CommandAdmissionDeferrableRead | CommandAdmissionExclusive

datatype miner_action =
    GetCoolingMode | GetErrors | Reboot | StartMining | StopMining | BlinkLed | Curtail | Uncurtail
  | SetCoolingMode | SetPowerTarget | UpdateMiningPools | GetMiningPools | UpdateMinerPassword
  | DownloadLogs | FirmwareUpdate | GetFirmwareUpdateStatus | ApplyCurtailmentConfig
  | OtherAction

text \<open>\<open>None\<close> is a nil message, \<open>Some None\<close> one without an action.\<close>

definition AdmissionForMinerCommand :: "miner_action option option \<Rightarrow> admission_class \<times> string" where
  "AdmissionForMinerCommand command =
     (case command of
        None \<Rightarrow> (CommandAdmissionGeneral, ''miner_command_empty'')
      | Some None \<Rightarrow> (CommandAdmissionGeneral, ''miner_command_empty'')
      | Some (Some action) \<Rightarrow>
          (case action of
             GetCoolingMode \<Rightarrow> (CommandAdmissionDeferrableRead, ''get_cooling_mode'')
           | GetErrors \<Rightarrow> (CommandAdmissionDeferrableRead, ''get_errors'')
           | Reboot \<Rightarrow> (CommandAdmissionGeneral, ''reboot'')
           | StartMining \<Rightarrow> (CommandAdmissionGeneral, ''start_mining'')
           | StopMining \<Rightarrow> (CommandAdmissionGeneral, ''stop_mining'')
           | BlinkLed \<Rightarrow> (CommandAdmissionGeneral, ''blink_led'')
           | Curtail \<Rightarrow> (CommandAdmissionGeneral, ''curtail'')
           | Uncurtail \<Rightarrow> (CommandAdmissionGeneral, ''uncurtail'')
           | SetCoolingMode \<Rightarrow> (CommandAdmissionGeneral, ''set_cooling_mode'')
           | SetPowerTarget \<Rightarrow> (CommandAdmissionGeneral, ''set_power_target'')
           | UpdateMiningPools \<Rightarrow> (CommandAdmissionGeneral, ''update_mining_pools'')
           | GetMiningPools \<Rightarrow> (CommandAdmissionGeneral, ''get_mining_pools'')
           | UpdateMinerPassword \<Rightarrow> (CommandAdmissionGeneral, ''update_miner_password'')
           | DownloadLogs \<Rightarrow> (CommandAdmissionGeneral, ''download_logs'')
           | FirmwareUpdate \<Rightarrow> (CommandAdmissionGeneral, ''firmware_update'')
           | GetFirmwareUpdateStatus \<Rightarrow> (CommandAdmissionGeneral, ''get_firmware_update_status'')
           | ApplyCurtailmentConfig \<Rightarrow> (CommandAdmissionGeneral, ''apply_curtailment_config'')
           | OtherAction \<Rightarrow> (CommandAdmissionGeneral, ''miner_command_unknown'')))"

datatype agent_command =
    CmdDiscover
  | CmdPair
  | CmdRecoverMinerEndpoints
  | CmdTelemetry
  | CmdMinerCommand "miner_action option option"
  | CmdUnset (has_unknown_fields: bool)

definition AdmissionForCommand :: "agent_command option \<Rightarrow> admission_class \<times> string" where
  "AdmissionForCommand command =
     (case command of
        None \<Rightarrow> (CommandAdmissionGeneral, ''malformed'')
      | Some CmdDiscover \<Rightarrow> (CommandAdmissionExclusive, ''discovery'')
      | Some CmdPair \<Rightarrow> (CommandAdmissionExclusive, ''pairing'')
      | Some CmdRecoverMinerEndpoints \<Rightarrow> (CommandAdmissionExclusive, ''endpoint_recovery'')
      | Some CmdTelemetry \<Rightarrow> (CommandAdmissionDeferrableRead, ''telemetry'')
      | Some (CmdMinerCommand m) \<Rightarrow> AdmissionForMinerCommand m
      | Some (CmdUnset unknown) \<Rightarrow>
          if unknown then (CommandAdmissionGeneral, ''unknown'')
          else (CommandAdmissionGeneral, ''empty''))"

section \<open>Commands never move\<close>

text \<open>
  What the registry's tables look like, without the contents of commands: no operation but
  registration, teardown, addition and removal changes it.
\<close>

definition shape :: "registry \<Rightarrow> (int \<times> nat) list \<times> (string \<times> nat) list list \<times> nat" where
  "shape s = (rg_conns s, map cn_cmds (hp_conns s), length (hp_cmds s))"

lemma shape_upd [simp]:
  "shape (upd_cmd c f s) = shape s" "shape (upd_artifact c j g s) = shape s"
  "shape (set_slots d m s) = shape s" "shape (s\<lparr>rg_leases := L\<rparr>) = shape s"
  "shape (s\<lparr>rg_sessionFences := F\<rparr>) = shape s"
  by (auto simp: shape_def upd_artifact_def set_slots_def split: artifact_direction.splits)

lemma shape_upd_conn:
  "(\<And>k. cn_cmds (f k) = cn_cmds k) \<Longrightarrow> shape (upd_conn a f s) = shape s"
  by (cases "a < length (hp_conns s)")
    (auto simp: shape_def upd_conn_def map_update list_update_beyond list_update_same_conv)

lemma shape_delivery [simp]:
  "shape (deliverEvent n i ev s) = shape s" "shape (deliverAck n ack s) = shape s"
  "shape (snd (AdmitReport n i k want s)) = shape s"
  by (auto simp: deliverEvent_def deliverAck_def AdmitReport_def Let_def split: option.splits)

lemma shape_artifacts [simp]:
  "shape (snd (AdmitCommandArtifact n i w s)) = shape s"
  "shape (snd (AdmitCompletedCommandArtifactUploadRetry n i w s)) = shape s"
  "shape (CompleteCommandArtifactTransfer n i w s) = shape s"
  "shape (snd (CompleteCommandArtifactUpload n i w ref s)) = shape s"
  "shape (FinishCompletedCommandArtifactUploadRetry n i w s) = shape s"
  "shape (ReinstateCommandArtifactTransfer n i w s) = shape s"
  "shape (ReinstateCommandArtifactUpload n i w s) = shape s"
  "shape (snd (acquireCommandArtifactSlot d n limit s)) = shape s"
  "shape (release_lease l s) = shape s"
  by (auto simp: snd_AdmitCommandArtifact AdmitCommandArtifactTransfer_def
      AdmitCompletedCommandArtifactUploadRetry_def CompleteCommandArtifactTransfer_def
      CompleteCommandArtifactUpload_def FinishCompletedCommandArtifactUploadRetry_def
      ReinstateCommandArtifactTransfer_def ReinstateCommandArtifactUpload_def
      acquireCommandArtifactSlot_def release_lease_def releaseCommandArtifactSlot_def Let_def
      split: option.splits)

lemma shape_pair [simp]:
  "shape (snd (AdmitAndScopePairResults n i rs s)) = shape s"
  "shape (ReinstatePairTargets n i ids s) = shape s"
  by (auto simp: AdmitAndScopePairResults_def ReinstatePairTargets_def Let_def
      split: option.splits prod.splits)

lemma shape_enqueue [simp]: "shape (snd (enqueue_select ctxErr taken a cmd s)) = shape s"
  by (auto simp: enqueue_select_def shape_upd_conn split: enqueue_case.splits)

text \<open>Later states only forget what an earlier state stored; nothing moves.\<close>

definition extends :: "registry \<Rightarrow> registry \<Rightarrow> bool" where
  "extends s t \<longleftrightarrow>
     length (hp_conns s) \<le> length (hp_conns t) \<and> length (hp_cmds s) \<le> length (hp_cmds t) \<and>
     (\<forall>a i c. c < length (hp_cmds s) \<longrightarrow> stored t a i c \<longrightarrow> stored s a i c) \<and>
     (\<forall>n a. a < length (hp_conns s) \<longrightarrow> map_of (rg_conns t) n = Some a \<longrightarrow>
        map_of (rg_conns s) n = Some a)"

lemma extends_shape:
  assumes "shape t = shape s"
  shows "extends s t"
proof -
  have len: "length (hp_conns t) = length (hp_conns s)" "length (hp_cmds t) = length (hp_cmds s)"
    "rg_conns t = rg_conns s" and cmds: "map cn_cmds (hp_conns t) = map cn_cmds (hp_conns s)"
    using assms by (auto simp: shape_def dest: map_eq_imp_length_eq)
  have "cn_cmds (hp_conns t ! a) = cn_cmds (hp_conns s ! a)" if "a < length (hp_conns s)" for a
    using arg_cong [OF cmds, of "\<lambda>xs. xs ! a"] that len by simp
  then show ?thesis by (auto simp: extends_def len stored_def)
qed

lemma extends_refl [simp]: "extends s s"
  by (simp add: extends_def)

lemma extends_trans: "extends s t \<Longrightarrow> extends t u \<Longrightarrow> extends s u"
  unfolding extends_def by (meson le_trans less_le_trans)

lemma extends_registered:
  assumes "registry_inv s"
  shows "extends s (registered n v s)"
proof -
  have len: "length (hp_conns (registered n v s)) = Suc (length (hp_conns s))"
    "length (hp_cmds (registered n v s)) = length (hp_cmds s)"
    by (auto simp: registered_def Let_def split: option.splits)
  have "stored s a i c" if "stored (registered n v s) a i c" for a i c
  proof (cases "a < length (hp_conns s)")
    case True
    with that show ?thesis by (auto simp: stored_def hp_conns_registered split: if_splits)
  next
    case False
    with that have "a = length (hp_conns s)" by (simp add: stored_def len)
    with that show ?thesis by (simp add: stored_def)
  qed
  then show ?thesis by (auto simp: extends_def len split: if_splits)
qed

lemma extends_dropped: "extends s (dropped n a s)"
  by (auto simp: extends_def stored_torn split: if_splits)

lemma extends_added:
  assumes "registry_inv s" "map_of (rg_conns s) n = Some a"
    "map_of (cn_cmds (hp_conns s ! a)) (ic_id c) = None"
  shows "extends s (added a c s)"
  using stored_added [OF inv_current(1) [OF assms(1,2)] assms(3)] by (auto simp: extends_def)

lemma extends_removed:
  assumes "registry_inv s" "stored s a (ic_id (hp_cmds s ! c)) c"
  shows "extends s (removed a c s)"
  by (auto simp: extends_def stored_removed [OF assms])

lemma extends_addCmd: "registry_inv s \<Longrightarrow> extends s (snd (addCmd n v c s))"
  by (rule addCmd_cases [of n v c s]) (auto intro: extends_added)

lemma extends_removeCmd: "registry_inv s \<Longrightarrow> removeCmd n c s = Some t \<Longrightarrow> extends s t"
  by (rule removeCmd_cases [of s n c]) (auto intro: extends_removed)

lemma extends_disconnect:
  "registry_inv s \<Longrightarrow> disconnectLocked n s = Some t \<Longrightarrow> extends s t"
  by (auto simp: disconnectLocked_eq extends_dropped split: option.splits)

lemma extends_fence:
  assumes "registry_inv s" "disconnectLocked n (s\<lparr>rg_sessionFences := F\<rparr>) = Some t"
  shows "extends s t"
  using assms
  by (intro extends_trans [OF extends_shape extends_disconnect [of "s\<lparr>rg_sessionFences := F\<rparr>" n]])
    simp_all

lemma extends_exec:
  assumes "registry_inv s" "exec op s = Some t"
  shows "extends s t"
proof (cases op)
  case (OpRegisterAuthenticated n fp v)
  with assms show ?thesis
    by (auto simp: RegisterAuthenticated_def registerLocked_eq extends_registered
        split: option.splits if_splits)
next
  case (OpUnregister n a)
  with assms teardown_eq [OF assms(1), of n a] extends_dropped [of s n a] show ?thesis
    by (auto simp: Unregister_def dropped_def split: if_splits)
next
  case (OpRemoveCmd n c)
  with assms show ?thesis by (auto intro: extends_removeCmd split: if_splits)
qed (use assms in \<open>auto simp: Register_def registerLocked_eq extends_registered Disconnect_def
  ReplaceSession_def RevokeSession_def extends_fence
  extends_disconnect extends_addCmd PublishAck_def PublishBatch_def PublishPairResults_def
  AcquireCommandArtifactUpload_def AcquireCommandArtifactDownload_def shape_upd_conn
  intro: extends_shape\<close>)

lemma extends_run: "registry_inv s \<Longrightarrow> run_ops exec ops s = Some t \<Longrightarrow> extends s t"
proof (induction ops arbitrary: s)
  case Nil
  then show ?case by simp
next
  case (Cons op ops)
  obtain u where u: "exec op s = Some u" "registry_inv u"
    using inv_exec_op [OF Cons.prems(1)] by blast
  with Cons have "extends u t" by simp
  with extends_exec [OF Cons.prems(1) u(1)] show ?case by (rule extends_trans)
qed

section \<open>Freeing a command\<close>

lemma others_safe:
  assumes "registry_inv s"
  obtains t where "others ops s = Returned t" "registry_inv t" "extends s t"
  using registry.run_safe [OF assms, of ops] extends_run [OF assms]
  by (auto simp: others_def or_panic_def)

text \<open>A command is only ever held by the connection of the node it was sent to.\<close>

definition home :: "int \<Rightarrow> nat \<Rightarrow> registry \<Rightarrow> bool" where
  "home n c s \<longleftrightarrow> (\<forall>a i. stored s a i c \<longrightarrow> map_of (rg_conns s) n = Some a)"

lemma home_extends:
  assumes inv: "registry_inv s" "registry_inv t" and "extends s t" "c < length (hp_cmds s)" "home n c s"
  shows "home n c t"
  unfolding home_def
proof (intro allI impI)
  fix a i
  assume st: "stored t a i c"
  then have a: "stored s a i c" using assms(3,4) by (auto simp: extends_def)
  then have n: "map_of (rg_conns s) n = Some a" using assms(5) by (auto simp: home_def)
  obtain m where m: "map_of (rg_conns t) m = Some a"
    using inv_stored(4) [OF inv(2) st] by (auto simp: current_def)
  then have "map_of (rg_conns s) m = Some a"
    using assms(3) inv_current(1) [OF inv(1) n] by (auto simp: extends_def)
  with n inv(1) have "m = n" unfolding registry_inv_def conns_ok_def by blast
  with m show "map_of (rg_conns t) n = Some a" by simp
qed

lemma removeCmd_done:
  assumes inv: "registry_inv s" and c: "c < length (hp_cmds s)" "home n c s"
    and t: "removeCmd n c s = Some t"
  shows "ic_done (hp_cmds t ! c)"
proof (rule removeCmd_cases [OF inv, of n c])
  assume stale: "removeCmd n c s = Some s"
    "\<And>a. map_of (rg_conns s) n = Some a \<Longrightarrow> \<not> stored s a (ic_id (hp_cmds s ! c)) c"
  have "\<not> stored s a i c" for a i
    using stale(2) [of a] c(2) inv_stored(2) [OF inv, of a i c] by (auto simp: home_def)
  then have "ic_done (hp_cmds s ! c)" using inv c(1) by (simp add: registry_inv_def cmds_ok_def)
  with stale t show ?thesis by simp
next
  fix a
  assume "removeCmd n c s = Some (removed a c s)"
  with t c(1) show ?thesis by (auto simp: nth_removed)
qed

lemma done_not_inflight:
  assumes "registry_inv t" "ic_done (hp_cmds t ! c)"
  shows "inflightFor m i t \<noteq> Some c"
  using assms inv_stored(3) [OF assms(1)] by (auto simp: inflightFor_iff)

lemma home_added:
  assumes "registry_inv s" "map_of (rg_conns s) n = Some a"
    "map_of (cn_cmds (hp_conns s ! a)) (ic_id c) = None"
  shows "home n (length (hp_cmds s)) (added a c s)"
proof -
  have "\<not> stored s b i (length (hp_cmds s))" for b i
    using inv_stored(1) [OF assms(1)] by blast
  then show ?thesis
    using stored_added [OF inv_current(1) [OF assms(1,2)] assms(3)] assms(2)
    by (auto simp: home_def)
qed

lemma close_command:
  assumes inv: "registry_inv s" and c: "c < length (hp_cmds s)" "home n c s"
  obtains u t where "others gap s = Returned u" "removeCmd n c u = Some t" "registry_inv t"
    "ic_done (hp_cmds t ! c)"
proof -
  obtain u where u: "others gap s = Returned u" "registry_inv u" "extends s u"
    using others_safe [OF inv] by metis
  obtain t where t: "removeCmd n c u = Some t" "registry_inv t"
    using inv_removeCmd [OF u(2)] by blast
  have "ic_done (hp_cmds t ! c)"
    using removeCmd_done [OF u(2) _ home_extends [OF inv u(2,3) c] t(1)] c(1) u(3)
    by (simp add: extends_def)
  with u(1) t that show thesis by blast
qed

lemma enqueue_safe:
  assumes inv: "registry_inv s"
  shows "enqueue sch a cmd s = Blocked \<and> eq_ctxEntry sch = None \<and>
       (eq_taken sch \<noteq> TakeCtxDone \<or> eq_ctx sch = None) \<or>
     (\<exists>r t. enqueue sch a cmd s = Returned (r, t) \<and> registry_inv t \<and> extends s t)"
proof (cases "eq_ctxEntry sch")
  case (Some m)
  with inv show ?thesis by (simp add: enqueue_def)
next
  case None
  obtain u where u: "others (eq_before sch) s = Returned u" "registry_inv u" "extends s u"
    using others_safe [OF inv] by metis
  show ?thesis
  proof (cases "enqueue_ready (eq_ctx sch) (eq_taken sch) a u")
    case True
    let ?r = "enqueue_select (eq_ctx sch) (eq_taken sch) a cmd u"
    have "registry_inv (snd ?r)" "extends u (snd ?r)"
      using inv_enqueue [OF u(2) True] by (simp_all add: extends_shape)
    with None u True show ?thesis
      by (cases ?r) (auto simp: enqueue_def obind_def intro: extends_trans)
  next
    case False
    with None u show ?thesis by (auto simp: enqueue_def obind_def enqueue_ready_def)
  qed
qed

lemma enqueue_entry: "enqueue sch a cmd s = Returned (None, t) \<Longrightarrow> eq_ctxEntry sch = None"
  by (auto simp: enqueue_def split: if_splits)

lemma take_ack_safe:
  assumes inv: "registry_inv s"
  shows "take_ack gap c s = None \<or>
    (\<exists>r t. take_ack gap c s = Some (Returned (r, t)) \<and> registry_inv t \<and> extends s t)"
proof (cases "ic_ack (hp_cmds s ! c)")
  case None
  then show ?thesis by (simp add: take_ack_def)
next
  case (Some q)
  show ?thesis
  proof (cases q)
    case Nil
    with Some show ?thesis by (simp add: take_ack_def)
  next
    case (Cons ack q')
    let ?u = "upd_cmd c (\<lambda>k. k\<lparr>ic_ack := Some q'\<rparr>) s"
    have "registry_inv ?u"
      using inv Some Cons by (intro inv_upd_cmd) (auto simp: command_ok_def)
    then obtain t where t: "others gap ?u = Returned t" "registry_inv t" "extends ?u t"
      using others_safe by metis
    have "extends s t" using extends_trans [OF extends_shape t(3)] by simp
    with Some Cons t show ?thesis by (auto simp: take_ack_def obind_def split: prod.splits)
  qed
qed

lemma await_safe:
  assumes inv: "registry_inv s"
  shows "await_ack sch c s = Blocked \<and> (aw_taken sch \<noteq> TakeCtx \<or> aw_ctx sch = None) \<or>
    (\<exists>r t. await_ack sch c s = Returned (r, t) \<and> registry_inv t \<and> extends s t)"
proof -
  obtain u where u: "others (aw_before sch) s = Returned u" "registry_inv u" "extends s u"
    using others_safe [OF inv] by metis
  have "take_ack (aw_gap sch) c u = None \<or>
      (\<exists>r t. take_ack (aw_gap sch) c u = Some (Returned (r, t)) \<and> registry_inv t \<and> extends s t)"
    using take_ack_safe [OF u(2), of "aw_gap sch" c] extends_trans [OF u(3)] by blast
  with u show ?thesis
    by (cases "aw_taken sch") (auto simp: await_ack_def obind_def split: option.splits)
qed

lemma send_and_await_safe:
  assumes inv: "registry_inv u"
  shows "send_and_await esch asch a c cmd u = Blocked \<and> eq_ctxEntry esch = None \<and>
      ((eq_taken esch \<noteq> TakeCtxDone \<or> eq_ctx esch = None) \<or>
       (aw_taken asch \<noteq> TakeCtx \<or> aw_ctx asch = None)) \<or>
    (\<exists>r t. send_and_await esch asch a c cmd u = Returned (r, t) \<and> registry_inv t \<and> extends u t)"
proof (cases "enqueue esch a cmd u = Blocked")
  case True
  with enqueue_safe [OF inv, of esch a cmd] show ?thesis by (auto simp: send_and_await_def obind_def)
next
  case False
  then obtain r t where t: "enqueue esch a cmd u = Returned (r, t)" "registry_inv t" "extends u t"
    using enqueue_safe [OF inv, of esch a cmd] by blast
  show ?thesis
  proof (cases r)
    case None
    with t await_safe [OF t(2), of asch c] enqueue_entry [of esch a cmd u t] show ?thesis
      by (auto simp: send_and_await_def obind_def intro: extends_trans [OF t(3)])
  next
    case (Some e)
    with t show ?thesis by (simp add: send_and_await_def obind_def)
  qed
qed

section \<open>The result loop, flattened\<close>

text \<open>A callback that never stops the loop: it folds every event it is given into its state.\<close>

definition folding :: "('st \<Rightarrow> command_event \<Rightarrow> 'st) \<Rightarrow> 'st on_data" where
  "folding f st ev = ((False, None), f st ev)"

definition ctx_failure :: "string \<Rightarrow> string \<Rightarrow> ctx_state \<Rightarrow> fleet_error" where
  "ctx_failure noun timeout c =
     (if c = CtxDeadlineExceeded then timeout_error noun timeout else canceled_error)"

fun observed :: "string \<Rightarrow> string \<Rightarrow> loop_case list \<Rightarrow> (fleet_error + command_event) list" where
  "observed noun timeout [] = []"
| "observed noun timeout (SeeEvent ev # xs) = Inr ev # observed noun timeout xs"
| "observed noun timeout (SeeCtxDone c # xs) = [Inl (ctx_failure noun timeout c)]"
| "observed noun timeout (SeeSessionDone evs # xs) = map Inr evs @ [Inl stream_closed_error]"

fun is_data :: "fleet_error + command_event \<Rightarrow> bool" where
  "is_data (Inl e) = False"
| "is_data (Inr (EvAck a)) = False"
| "is_data (Inr ev) = True"

definition ack_result :: "(ack_code \<Rightarrow> string) \<Rightarrow> string \<Rightarrow> control_ack \<Rightarrow> fleet_error option" where
  "ack_result cs noun ack =
     (if ak_Code ack = ACK_CODE_PARTIAL \<or> ak_Code ack = ACK_CODE_OK \<and> ak_Succeeded ack then None
      else Some (AckFailure cs ack noun))"

text \<open>The decision at the first observation that is not data.\<close>

definition decide ::
  "(ack_code \<Rightarrow> string) \<Rightarrow> string \<Rightarrow> ('st \<Rightarrow> command_event \<Rightarrow> 'st) \<Rightarrow> 'st \<Rightarrow>
    (fleet_error + command_event) list \<Rightarrow> (fleet_error option \<times> 'st) outcome" where
  "decide cs noun f st xs =
     (let st' = foldl f st (map projr (takeWhile is_data xs)) in
      case dropWhile is_data xs of
        [] \<Rightarrow> Blocked
      | x # _ \<Rightarrow>
          (case x of
             Inl e \<Rightarrow> Returned (Some e, st')
           | Inr ev \<Rightarrow>
               (case ev of
                  EvAck ack \<Rightarrow> Returned (ack_result cs noun ack,
                    if ak_Code ack = ACK_CODE_PARTIAL then f st' ev else st')
                | _ \<Rightarrow> Blocked)))"

lemma decide_Nil [simp]: "decide cs noun f st [] = Blocked"
  by (simp add: decide_def)

lemma decide_data [simp]:
  "is_data (Inr ev) \<Longrightarrow> decide cs noun f st (Inr ev # xs) = decide cs noun f (f st ev) xs"
  by (simp add: decide_def)

lemma decide_ack [simp]:
  "decide cs noun f st (Inr (EvAck ack) # xs) =
     Returned (ack_result cs noun ack,
       if ak_Code ack = ACK_CODE_PARTIAL then f st (EvAck ack) else st)"
  by (simp add: decide_def)

lemma decide_failure [simp]: "decide cs noun f st (Inl e # xs) = Returned (Some e, st)"
  by (simp add: decide_def)

lemma handleEvent_ack:
  "handleEvent cs noun (folding f) st (EvAck ack) =
     ((True, ack_result cs noun ack), if ak_Code ack = ACK_CODE_PARTIAL then f st (EvAck ack) else st)"
  by (auto simp: handleEvent_def folding_def ack_result_def)

lemma handleEvent_data:
  "is_data (Inr ev) \<Longrightarrow> handleEvent cs noun (folding f) st ev = ((False, None), f st ev)"
  by (cases ev) (simp_all add: handleEvent_def folding_def)

lemma drain_decide:
  "Returned (drain_events cs noun (folding f) st evs) =
    decide cs noun f st (map Inr evs @ [Inl stream_closed_error])"
proof (induction evs arbitrary: st)
  case Nil
  then show ?case by simp
next
  case (Cons ev evs)
  then show ?case
    by (cases "is_data (Inr ev)"; cases ev) (simp_all add: handleEvent_data handleEvent_ack)
qed

lemma run_loop_decide:
  "run_loop cs noun timeout (folding f) st xs = decide cs noun f st (observed noun timeout xs)"
proof (induction xs arbitrary: st)
  case Nil
  then show ?case by simp
next
  case (Cons x xs)
  show ?case
  proof (cases x)
    case (SeeEvent ev)
    with Cons show ?thesis
      by (cases "is_data (Inr ev)"; cases ev) (simp_all add: handleEvent_data handleEvent_ack)
  qed (simp_all add: ctx_failure_def drain_decide)
qed

lemma gap_after_add:
  assumes "registry_inv s" "map_of (rg_conns s) n = Some a"
    and "map_of (cn_cmds (hp_conns s ! a)) (ic_id (ack_command cmd artifacts)) = None"
  obtains u where "others gap (added a (ack_command cmd artifacts) s) = Returned u" "registry_inv u"
    "home n (length (hp_cmds s)) u" "length (hp_cmds s) < length (hp_cmds u)"
proof -
  obtain u where u: "others gap (added a (ack_command cmd artifacts) s) = Returned u"
    "registry_inv u" "extends (added a (ack_command cmd artifacts) s) u"
    using others_safe [OF inv_added [OF assms]] by (metis command_ok_new(3,4))
  have "home n (length (hp_cmds s)) u" "length (hp_cmds s) < length (hp_cmds u)"
    using home_extends [OF inv_added [OF assms] u(2,3) _ home_added [OF assms]] u(3)
    by (simp_all add: extends_def)
  with u that show ?thesis by blast
qed

section \<open>Properties\<close>

text \<open>
  \<open>SendCommandWithArtifactResults\<close> always frees its command: whatever other goroutines do in
  its gaps and whichever ready case its selects take, it never panics, and when it returns the
  command it stored is closed and held by no connection; when the command could not be stored
  nothing has changed. It can only stay blocked while no context case is ready.
\<close>
theorem send_command_frees_its_slot:
  "case run_ops exec ops NewRegistry of
     None \<Rightarrow> False
   | Some s \<Rightarrow>
       (case SendCommandWithArtifactResults gap1 esch asch gap2 n v cmd artifacts s of
          Panicked \<Rightarrow> False
        | Blocked \<Rightarrow> eq_ctxEntry esch = None \<and>
            \<not> (eq_taken esch = TakeCtxDone \<and> eq_ctx esch \<noteq> None \<and>
               aw_taken asch = TakeCtx \<and> aw_ctx asch \<noteq> None)
        | Returned (r, t) \<Rightarrow>
            (case addCmd n v (ack_command cmd artifacts) s of
               (Inl e, _) \<Rightarrow> t = s \<and> r = (None, [], Some (add_error e))
             | (Inr (a, c), _) \<Rightarrow>
                 registry_inv t \<and> ic_done (hp_cmds t ! c) \<and>
                 (\<forall>m i. inflightFor m i t \<noteq> Some c)))"
proof (rule reachable_inv [of ops])
  fix s
  assume run: "run_ops exec ops NewRegistry = Some s" and inv: "registry_inv s"
  let ?c = "ack_command cmd artifacts" let ?S = "SendCommandWithArtifactResults gap1 esch asch gap2"
  show ?thesis
  proof (rule addCmd_cases [of n v ?c s])
    fix e
    assume "addCmd n v ?c s = (Inl e, s)"
    with run show ?thesis by (simp add: SendCommandWithArtifactResults_def)
  next
    fix a
    assume a: "map_of (rg_conns s) n = Some a" "map_of (cn_cmds (hp_conns s ! a)) (ic_id ?c) = None"
      and add: "addCmd n v ?c s = (Inr (a, length (hp_cmds s)), added a ?c s)"
    let ?c = "length (hp_cmds s)"
    obtain u where u: "others gap1 (added a (ack_command cmd artifacts) s) = Returned u"
      "registry_inv u" and at: "home n ?c u" "?c < length (hp_cmds u)"
      by (rule gap_after_add [OF inv a])
    define body where "body = send_and_await esch asch a ?c cmd u"
    have call: "?S n v cmd artifacts s = obind body (\<lambda>(r, t).
        obind (others gap2 t) (\<lambda>t. obind (or_panic (removeCmd n ?c t)) (\<lambda>t. Returned (r, t))))"
      using add u(1) by (simp add: SendCommandWithArtifactResults_def body_def obind_def)
    consider (blocked) "body = Blocked" "eq_ctxEntry esch = None"
        "(eq_taken esch \<noteq> TakeCtxDone \<or> eq_ctx esch = None) \<or>
         (aw_taken asch \<noteq> TakeCtx \<or> aw_ctx asch = None)"
      | (ret) r t where "body = Returned (r, t)" "registry_inv t" "extends u t"
      using send_and_await_safe [OF u(2), of esch asch a ?c cmd] by (auto simp: body_def)
    then show ?thesis
    proof cases
      case blocked
      with run call show ?thesis by (auto simp: obind_def)
    next
      case ret
      have "home n ?c t" "?c < length (hp_cmds t)"
        using home_extends [OF u(2) ret(2,3) at(2,1)] at(2) ret(3) by (simp_all add: extends_def)
      then obtain w x where "others gap2 t = Returned w" "removeCmd n ?c w = Some x"
        "registry_inv x" "ic_done (hp_cmds x ! ?c)"
        using close_command [OF ret(2)] by metis
      with run add call ret(1) show ?thesis
        by (simp add: obind_def or_panic_def done_not_inflight)
    qed
  qed
qed

text \<open>
  The outcome of a report-bearing command is decided by the first thing the dispatcher sees
  that is not data: success exactly for an ack that is PARTIAL, or OK and marked succeeded;
  otherwise the mapped failure of the ack, the context's error, or the closed stream. Every
  batch seen before reaches the callback, also the ones still buffered when the stream closes,
  and a PARTIAL ack does too.
\<close>
theorem run_command_decided_by_first_ack:
  "runCommand cs noun timeout (folding f) st finish None ctx xs =
     (case decide cs noun f st (observed noun timeout (loop_cases finish xs)) of
        Returned (err, st') \<Rightarrow> Returned (map_option ErrFleet err, st')
      | Blocked \<Rightarrow> Blocked
      | Panicked \<Rightarrow> Panicked)"
  by (simp add: runCommand_def run_loop_decide obind_def split: outcome.splits prod.splits)

text \<open>
  The admission lanes: exactly telemetry, \<open>GetErrors\<close> and \<open>GetCoolingMode\<close> may use the
  deferrable-read lane, exactly discovery, pairing and endpoint recovery are exclusive, and
  everything else, malformed and unknown commands included, is general; eight slots are left to
  general commands when the deferrable lane is full.
\<close>
theorem admission_lanes:
  "(fst (AdmissionForCommand c) = CommandAdmissionDeferrableRead \<longleftrightarrow>
      c \<in> {Some CmdTelemetry, Some (CmdMinerCommand (Some (Some GetErrors))),
           Some (CmdMinerCommand (Some (Some GetCoolingMode)))}) \<and>
   (fst (AdmissionForCommand c) = CommandAdmissionExclusive \<longleftrightarrow>
      c \<in> {Some CmdDiscover, Some CmdPair, Some CmdRecoverMinerEndpoints}) \<and>
   MaxConcurrentCommandsPerFleetNode - MaxConcurrentDeferrableReadsPerFleetNode = 8"
  by (auto simp: AdmissionForCommand_def AdmissionForMinerCommand_def
      MaxConcurrentDeferrableReadsPerFleetNode_def ReservedGeneralCommandSlotsPerFleetNode_def
      split: option.splits agent_command.splits miner_action.splits)

end
