(* ===== verification/Go_Float.thy ===== *)
theory Go_Float
  imports Prelude Complex_Main
begin

text \<open>
  Go's \<open>float64\<close>: IEEE 754 binary64 values as exact rationals, two infinities and NaN, with
  arithmetic rounded to nearest, ties to even. The two zeros are one value: no code modelled
  here divides by a zero or looks at a sign bit. A duration in seconds and the ceiling of a
  finite value are included. Every operation is executable.
\<close>

section \<open>Values and rounding\<close>

datatype f64 = NaN | PosInf | NegInf | Fin rat

definition pow2 :: "int \<Rightarrow> rat" where
  "pow2 k = (if 0 \<le> k then 2 ^ nat k else 1 / 2 ^ nat (- k))"

text \<open>Number of binary digits of a non-negative integer.\<close>

function bits :: "int \<Rightarrow> int" where
  "bits n = (if n \<le> 0 then 0 else 1 + bits (n div 2))"
  by pat_completeness auto

termination bits
  by (relation "measure nat") auto

declare bits.simps [simp del]

text \<open>The exponent \<open>e\<close> with \<open>2^e \<le> x < 2^(e+1)\<close>, for positive \<open>x\<close>.\<close>

definition exponent :: "rat \<Rightarrow> int" where
  "exponent x =
     (case quotient_of x of
        (a, b) \<Rightarrow>
          let k = bits a - bits b
          in if pow2 k \<le> x then k else k - 1)"

definition round_even :: "rat \<Rightarrow> int" where
  "round_even q =
     (let n = \<lfloor>q\<rfloor>; r = q - of_int n in
      if r < 1 / 2 then n
      else if 1 / 2 < r then n + 1
      else if even n then n else n + 1)"

text \<open>53 bits of precision, smallest normal exponent -1022, overflow at \<open>2^1024\<close>.\<close>

definition round_pos :: "rat \<Rightarrow> f64" where
  "round_pos x =
     (let u = pow2 (max (exponent x) (-1022) - 52);
          r = of_int (round_even (x / u)) * u
      in if pow2 1024 \<le> r then PosInf else Fin r)"

definition fl_neg :: "f64 \<Rightarrow> f64" where
  "fl_neg x = (case x of NaN \<Rightarrow> NaN | PosInf \<Rightarrow> NegInf | NegInf \<Rightarrow> PosInf | Fin q \<Rightarrow> Fin (- q))"

definition rnd :: "rat \<Rightarrow> f64" where
  "rnd x = (if x = 0 then Fin 0 else if 0 < x then round_pos x else fl_neg (round_pos (- x)))"

section \<open>Arithmetic\<close>

fun fl_add :: "f64 \<Rightarrow> f64 \<Rightarrow> f64" where
  "fl_add NaN y = NaN"
| "fl_add x NaN = NaN"
| "fl_add PosInf NegInf = NaN"
| "fl_add NegInf PosInf = NaN"
| "fl_add PosInf y = PosInf"
| "fl_add NegInf y = NegInf"
| "fl_add x PosInf = PosInf"
| "fl_add x NegInf = NegInf"
| "fl_add (Fin a) (Fin b) = rnd (a + b)"

definition fl_sub :: "f64 \<Rightarrow> f64 \<Rightarrow> f64" where
  "fl_sub x y = fl_add x (fl_neg y)"

text \<open>Multiplication and division by a positive finite constant.\<close>

definition fl_scale :: "f64 \<Rightarrow> rat \<Rightarrow> f64" where
  "fl_scale x k = (case x of Fin a \<Rightarrow> rnd (a * k) | y \<Rightarrow> y)"

definition fl_unscale :: "f64 \<Rightarrow> rat \<Rightarrow> f64" where
  "fl_unscale x k = (case x of Fin a \<Rightarrow> rnd (a / k) | y \<Rightarrow> y)"

text \<open>Division of one value by another that is not zero.\<close>

fun fl_div :: "f64 \<Rightarrow> f64 \<Rightarrow> f64" where
  "fl_div NaN y = NaN"
| "fl_div x NaN = NaN"
| "fl_div (Fin a) (Fin b) = rnd (a / b)"
| "fl_div (Fin a) y = Fin 0"
| "fl_div PosInf (Fin b) = (if b < 0 then NegInf else PosInf)"
| "fl_div NegInf (Fin b) = (if b < 0 then PosInf else NegInf)"
| "fl_div x y = NaN"

fun fl_less :: "f64 \<Rightarrow> f64 \<Rightarrow> bool" where
  "fl_less NaN y = False"
| "fl_less x NaN = False"
| "fl_less NegInf y = (y \<noteq> NegInf)"
| "fl_less x NegInf = False"
| "fl_less PosInf y = False"
| "fl_less x PosInf = True"
| "fl_less (Fin a) (Fin b) = (a < b)"

definition fl_le :: "f64 \<Rightarrow> f64 \<Rightarrow> bool" where
  "fl_le x y \<longleftrightarrow> fl_less x y \<or> x = y \<and> x \<noteq> NaN"

definition is_nan :: "f64 \<Rightarrow> bool" where
  "is_nan x \<longleftrightarrow> x = NaN"

definition is_inf :: "f64 \<Rightarrow> bool" where
  "is_inf x \<longleftrightarrow> x = PosInf \<or> x = NegInf"

definition fl_of_int :: "int \<Rightarrow> f64" where
  "fl_of_int k = rnd (of_int k)"

text \<open>\<open>Duration.Seconds\<close> and \<open>int(math.Ceil(x))\<close> of a finite value.\<close>

definition duration_Seconds :: "duration \<Rightarrow> f64" where
  "duration_Seconds d =
     (let sec = (if d < 0 then - ((- d) div 1000000000) else d div 1000000000);
          nsec = d - sec * 1000000000
      in fl_add (fl_of_int sec) (fl_unscale (fl_of_int nsec) 1000000000))"

definition fl_ceiling :: "f64 \<Rightarrow> int" where
  "fl_ceiling x = (case x of Fin q \<Rightarrow> \<lceil>q\<rceil> | _ \<Rightarrow> 0)"

text \<open>A loop that adds up a list, in list order, starting from \<open>0.0\<close>.\<close>

definition fl_sum :: "f64 list \<Rightarrow> f64" where
  "fl_sum xs = foldl fl_add (Fin 0) xs"

section \<open>The order\<close>

lemma fl_less_irrefl [simp]: "\<not> fl_less x x"
  by (cases x) simp_all

lemma fl_less_asym: "fl_less x y \<Longrightarrow> \<not> fl_less y x"
  by (cases x; cases y) simp_all

lemma fl_less_neg_trans: "y \<noteq> NaN \<Longrightarrow> fl_less x z \<Longrightarrow> fl_less x y \<or> fl_less y z"
  by (cases x; cases y; cases z) auto

lemma fl_less_linear: "x \<noteq> NaN \<Longrightarrow> y \<noteq> NaN \<Longrightarrow> fl_less x y \<or> x = y \<or> fl_less y x"
  by (cases x; cases y) auto

lemma fl_less_nan [simp]: "\<not> fl_less x NaN" "\<not> fl_less NaN x"
  by (cases x) simp_all

lemma fl_sum_snoc [simp]: "fl_sum (xs @ [x]) = fl_add (fl_sum xs) x"
  by (simp add: fl_sum_def)

lemma fl_sum_Nil [simp]: "fl_sum [] = Fin 0"
  by (simp add: fl_sum_def)

end
