(* ===== verification/Curtail_Modes.thy ===== *)
theory Curtail_Modes
  imports Go_Float
begin

text \<open>
  The selection modes of a curtailment (\<open>server/internal/domain/curtailment/modes\<close>): how many
  of the ranked miners are taken. The Go interface \<open>Mode\<close> is the locale \<open>mode\<close> with the
  promises its documentation makes; both implementations interpret it.
\<close>

section \<open>Data (mode.go)\<close>

record candidate =
  cd_DeviceIdentifier :: string
  cd_PowerW :: f64
  cd_EfficiencyJH :: f64

datatype outcome =
  OutcomeTargetReached | OutcomeUndershootTolerated | OutcomeInsufficientLoad

record insufficient_detail =
  id_AvailableKW :: f64
  id_RequestedKW :: f64
  id_ToleranceKW :: f64
  id_CandidateMinPowerW :: int
  id_ExcludedBelowThreshold :: int
  id_ExcludedOffline :: int
  id_ExcludedPhantomLoad :: int
  id_ExcludedDeadMonitor :: int
  id_ExcludedMaintenance :: int
  id_ExcludedUpdating :: int
  id_ExcludedRebootRequired :: int
  id_ExcludedStale :: int
  id_ExcludedNonActionable :: int
  id_ExcludedPairing :: int
  id_ExcludedCooldown :: int
  id_ExcludedCapabilityMiss :: int
  id_ExcludedActiveEvent :: int

record result =
  rs_Outcome :: outcome
  rs_Selected :: "candidate list"
  rs_RealizedReductionW :: f64
  rs_InsufficientDetail :: "insufficient_detail option"

abbreviation power_sum :: "candidate list \<Rightarrow> f64" where
  "power_sum cs \<equiv> fl_sum (map cd_PowerW cs)"

text \<open>The mode of an event (\<open>models.Mode\<close>); the unset mode is \<open>ModeOther []\<close>.\<close>

datatype event_mode = ModeFixedKw | ModeFullFleet | ModeOther string

section \<open>The modes (fixed_kw.go, full_fleet.go)\<close>

record fixed_kw =
  fk_TargetKW :: f64
  fk_ToleranceKW :: f64
  fk_ExclusionSummary :: insufficient_detail

datatype mode_error = TargetNotPositive f64 | ToleranceNegative f64

definition NewFixedKw ::
  "f64 \<Rightarrow> f64 \<Rightarrow> insufficient_detail \<Rightarrow> mode_error + fixed_kw" where
  "NewFixedKw targetKW toleranceKW summary =
     (if fl_le targetKW (Fin 0) then Inl (TargetNotPositive targetKW)
      else if fl_less toleranceKW (Fin 0) then Inl (ToleranceNegative toleranceKW)
      else Inr \<lparr>fk_TargetKW = targetKW, fk_ToleranceKW = toleranceKW,
                fk_ExclusionSummary = summary\<rparr>)"

text \<open>
  The accumulation loop: the candidates taken so far, the running sum and the rest. It returns
  the selection and its sum as soon as the target is reached, or the full sum.
\<close>

fun accumulate ::
  "f64 \<Rightarrow> candidate list \<Rightarrow> f64 \<Rightarrow> candidate list \<Rightarrow> (candidate list \<times> f64) + f64" where
  "accumulate targetW taken totalW [] = Inr totalW"
| "accumulate targetW taken totalW (c # cs) =
     (let totalW' = fl_add totalW (cd_PowerW c) in
      if fl_le targetW totalW' then Inl (taken @ [c], totalW')
      else accumulate targetW (taken @ [c]) totalW' cs)"

definition FixedKw_Select :: "fixed_kw \<Rightarrow> candidate list \<Rightarrow> result" where
  "FixedKw_Select m ranked =
     (let targetW = fl_scale (fk_TargetKW m) 1000;
          toleranceW = fl_scale (fk_ToleranceKW m) 1000
      in case accumulate targetW [] (Fin 0) ranked of
           Inl (selected, totalW) \<Rightarrow>
             \<lparr>rs_Outcome = OutcomeTargetReached, rs_Selected = selected,
              rs_RealizedReductionW = totalW, rs_InsufficientDetail = None\<rparr>
         | Inr totalW \<Rightarrow>
             if fl_less (Fin 0) toleranceW \<and> fl_le (fl_sub targetW toleranceW) totalW
             then \<lparr>rs_Outcome = OutcomeUndershootTolerated, rs_Selected = ranked,
                   rs_RealizedReductionW = totalW, rs_InsufficientDetail = None\<rparr>
             else \<lparr>rs_Outcome = OutcomeInsufficientLoad, rs_Selected = [],
                   rs_RealizedReductionW = Fin 0,
                   rs_InsufficientDetail = Some ((fk_ExclusionSummary m)
                     \<lparr>id_AvailableKW := fl_unscale totalW 1000,
                      id_RequestedKW := fk_TargetKW m, id_ToleranceKW := fk_ToleranceKW m\<rparr>)\<rparr>)"

definition FullFleet_Select :: "candidate list \<Rightarrow> result" where
  "FullFleet_Select ranked =
     \<lparr>rs_Outcome = OutcomeTargetReached, rs_Selected = ranked,
      rs_RealizedReductionW = power_sum ranked, rs_InsufficientDetail = None\<rparr>"

text \<open>A value of the interface type \<open>Mode\<close>, and its methods.\<close>

datatype mode_value = FixedKw fixed_kw | FullFleet

definition RequiresDualSignalTelemetry :: "mode_value \<Rightarrow> bool" where
  "RequiresDualSignalTelemetry m = (case m of FixedKw _ \<Rightarrow> True | FullFleet \<Rightarrow> False)"

definition Select :: "mode_value \<Rightarrow> candidate list \<Rightarrow> result" where
  "Select m ranked =
     (case m of FixedKw f \<Rightarrow> FixedKw_Select f ranked | FullFleet \<Rightarrow> FullFleet_Select ranked)"

section \<open>The contract of a mode\<close>

locale mode =
  fixes select :: "candidate list \<Rightarrow> result"
  assumes takes_prefix:
      "rs_Outcome (select cs) \<noteq> OutcomeInsufficientLoad \<Longrightarrow>
        \<exists>n. rs_Selected (select cs) = take n cs"
    and realizes: "rs_RealizedReductionW (select cs) = power_sum (rs_Selected (select cs))"
    and insufficient_empty:
      "rs_Outcome (select cs) = OutcomeInsufficientLoad \<Longrightarrow> rs_Selected (select cs) = []"
    and detail_iff:
      "rs_InsufficientDetail (select cs) \<noteq> None \<longleftrightarrow> rs_Outcome (select cs) = OutcomeInsufficientLoad"
begin

lemma selected_take: "\<exists>n. rs_Selected (select cs) = take n cs"
  using takes_prefix [of cs] insufficient_empty [of cs] take_0 [of cs] by metis

lemma set_selected: "set (rs_Selected (select cs)) \<subseteq> set cs"
  using selected_take [of cs] set_take_subset by fastforce

end

text \<open>The first prefix that reaches the target, if there is one.\<close>

lemma accumulate_Inl:
  assumes "accumulate t taken s cs = Inl (sel, w)" "s = power_sum taken"
  obtains n where "0 < n" "n \<le> length cs" "sel = taken @ take n cs" "w = power_sum sel" "fl_le t w"
    "\<And>k. 0 < k \<Longrightarrow> k < n \<Longrightarrow> \<not> fl_le t (power_sum (taken @ take k cs))"
  using assms
proof (induction cs arbitrary: taken s thesis)
  case Nil
  then show ?case by simp
next
  case (Cons c cs)
  let ?s = "fl_add s (cd_PowerW c)"
  have s: "?s = power_sum (taken @ [c])" using Cons.prems(3) by simp
  show ?case
  proof (cases "fl_le t ?s")
    case True
    with Cons.prems s show ?thesis
      by (intro Cons.prems(1) [of 1]) (auto simp: Let_def)
  next
    case False
    then have "accumulate t (taken @ [c]) ?s cs = Inl (sel, w)"
      using Cons.prems(2) by (simp add: Let_def)
    from Cons.IH [OF _ this s] obtain n where n: "0 < n" "n \<le> length cs"
      "sel = (taken @ [c]) @ take n cs" "w = power_sum sel" "fl_le t w"
      "\<And>k. 0 < k \<Longrightarrow> k < n \<Longrightarrow> \<not> fl_le t (power_sum ((taken @ [c]) @ take k cs))" by blast
    show ?thesis
    proof (rule Cons.prems(1) [of "Suc n"])
      fix k
      assume "0 < k" "k < Suc n"
      then show "\<not> fl_le t (power_sum (taken @ take k (c # cs)))"
        using n(6) [of "k - 1"] False s by (cases k; cases "k - 1") auto
    qed (use n in simp_all)
  qed
qed

lemma accumulate_Inr:
  "accumulate t taken s cs = Inr w \<Longrightarrow> s = power_sum taken \<Longrightarrow>
    w = power_sum (taken @ cs) \<and> (\<forall>k. 0 < k \<longrightarrow> k \<le> length cs \<longrightarrow>
      \<not> fl_le t (power_sum (taken @ take k cs)))"
proof (induction cs arbitrary: taken s)
  case Nil
  then show ?case by simp
next
  case (Cons c cs)
  let ?s = "fl_add s (cd_PowerW c)"
  have s: "?s = power_sum (taken @ [c])" using Cons.prems(2) by simp
  have no: "\<not> fl_le t ?s" and acc: "accumulate t (taken @ [c]) ?s cs = Inr w"
    using Cons.prems(1) by (auto simp: Let_def split: if_splits)
  have "\<not> fl_le t (power_sum (taken @ take k (c # cs)))" if "0 < k" "k \<le> length (c # cs)" for k
    using Cons.IH [OF acc s] that no s by (cases k; cases "k - 1") auto
  with Cons.IH [OF acc s] show ?case by simp
qed

lemma FixedKw_mode: "mode (FixedKw_Select m)"
proof unfold_locales
  fix cs
  let ?t = "fl_scale (fk_TargetKW m) 1000"
  show "rs_Outcome (FixedKw_Select m cs) \<noteq> OutcomeInsufficientLoad \<Longrightarrow>
      \<exists>n. rs_Selected (FixedKw_Select m cs) = take n cs"
    by (auto simp: FixedKw_Select_def Let_def elim!: accumulate_Inl split: sum.splits if_splits
        intro: exI [of _ "length cs"])
  show "rs_RealizedReductionW (FixedKw_Select m cs) = power_sum (rs_Selected (FixedKw_Select m cs))"
    by (auto simp: FixedKw_Select_def Let_def elim!: accumulate_Inl dest!: accumulate_Inr
        split: sum.splits)
qed (auto simp: FixedKw_Select_def Let_def split: sum.splits)

lemma FullFleet_mode: "mode FullFleet_Select"
proof unfold_locales
  fix cs
  show "\<exists>n. rs_Selected (FullFleet_Select cs) = take n cs"
    by (intro exI [of _ "length cs"]) (simp add: FullFleet_Select_def)
qed (simp_all add: FullFleet_Select_def)

interpretation any_mode: mode "Select m" for m
  using FixedKw_mode FullFleet_mode by (cases m) (simp_all add: Select_def [abs_def])

section \<open>Properties\<close>

text \<open>
  The fixed-kW mode takes the shortest ranked prefix whose running sum reaches the target.
  When none does, it takes everything if a positive tolerance admits the full sum, and nothing
  otherwise, and then reports the full sum as available. The running sums are the ones floating
  point computes.
\<close>
theorem fixed_kw_takes_shortest_prefix:
  "let t = fl_scale (fk_TargetKW m) 1000; tol = fl_scale (fk_ToleranceKW m) 1000;
       r = FixedKw_Select m cs;
       reach = {n. 0 < n \<and> n \<le> length cs \<and> fl_le t (power_sum (take n cs))}
   in if reach \<noteq> {} then
        rs_Outcome r = OutcomeTargetReached \<and> rs_Selected r = take (LEAST n. n \<in> reach) cs \<and>
        rs_RealizedReductionW r = power_sum (rs_Selected r)
      else if fl_less (Fin 0) tol \<and> fl_le (fl_sub t tol) (power_sum cs) then
        rs_Outcome r = OutcomeUndershootTolerated \<and> rs_Selected r = cs
      else rs_Outcome r = OutcomeInsufficientLoad \<and> rs_Selected r = [] \<and>
        map_option id_AvailableKW (rs_InsufficientDetail r) =
          Some (fl_unscale (power_sum cs) 1000)"
proof -
  let ?t = "fl_scale (fk_TargetKW m) 1000"
  let ?reach = "{n. 0 < n \<and> n \<le> length cs \<and> fl_le ?t (power_sum (take n cs))}"
  show ?thesis
  proof (cases "accumulate ?t [] (Fin 0) cs")
    case (Inl p)
    obtain sel w where p: "p = (sel, w)" by (cases p)
    with Inl have "accumulate ?t [] (Fin 0) cs = Inl (sel, w)" by simp
    then obtain n where n: "0 < n" "n \<le> length cs" "sel = take n cs" "w = power_sum sel"
      "fl_le ?t w" "\<And>k. 0 < k \<Longrightarrow> k < n \<Longrightarrow> \<not> fl_le ?t (power_sum (take k cs))"
      by (rule accumulate_Inl) auto
    have mem: "n \<in> ?reach" using n by simp
    have least: "(LEAST k. k \<in> ?reach) = n"
    proof (rule Least_equality)
      show "n \<in> ?reach" by (rule mem)
    next
      fix k
      assume k: "k \<in> ?reach"
      have "k < n \<Longrightarrow> False" using n(6) [of k] k by simp
      then show "n \<le> k" using not_less by blast
    qed
    have "?reach \<noteq> {}" using mem by blast
    moreover have "FixedKw_Select m cs = \<lparr>rs_Outcome = OutcomeTargetReached, rs_Selected = take n cs,
        rs_RealizedReductionW = power_sum (take n cs), rs_InsufficientDetail = None\<rparr>"
      using Inl p n(3,4) by (simp add: Let_def FixedKw_Select_def)
    ultimately show ?thesis
      unfolding Let_def least by (simp only: if_True not_False_eq_True result.select_convs simp_thms)
  next
    case (Inr w)
    have w: "w = power_sum cs"
      and none: "\<forall>k. 0 < k \<longrightarrow> k \<le> length cs \<longrightarrow> \<not> fl_le ?t (power_sum (take k cs))"
      using accumulate_Inr [OF Inr] by simp_all
    from none have "?reach = {}" by blast
    with Inr w show ?thesis unfolding Let_def by (simp add: FixedKw_Select_def Let_def)
  qed
qed

end
