(* ===== verification/Go_Sort.thy ===== *)
theory Go_Sort
  imports Prelude "HOL-Library.Multiset" "HOL-Library.Char_ord" "HOL-Library.List_Lexorder"
begin

text \<open>
  Go's \<open>sort.SliceStable\<close> with a comparison \<open>lt\<close>. The Go library fixes the result of a
  stable sort only when \<open>lt\<close> is a strict weak order: then there is exactly one list that is
  ordered, a permutation of the input and keeps incomparable elements in input order. The
  interface \<open>strict_weak\<close> states what a comparison has to promise; the lemmas proved from
  it are used by every component that sorts. \<open>sort.Strings\<close> and \<open>slices.Sort\<close> on integers
  are the library function \<open>sort\<close> (strings are compared byte by byte).
\<close>

section \<open>The stable sort\<close>

fun insort_by :: "('a \<Rightarrow> 'a \<Rightarrow> bool) \<Rightarrow> 'a \<Rightarrow> 'a list \<Rightarrow> 'a list" where
  "insort_by lt x [] = [x]"
| "insort_by lt x (y # ys) = (if lt y x then y # insort_by lt x ys else x # y # ys)"

primrec stable_sort :: "('a \<Rightarrow> 'a \<Rightarrow> bool) \<Rightarrow> 'a list \<Rightarrow> 'a list" where
  "stable_sort lt [] = []"
| "stable_sort lt (x # xs) = insort_by lt x (stable_sort lt xs)"

section \<open>What holds for every comparison\<close>

lemma mset_insort_by [simp]: "mset (insort_by lt x xs) = add_mset x (mset xs)"
  by (induction xs) auto

lemma mset_stable_sort [simp]: "mset (stable_sort lt xs) = mset xs"
  by (induction xs) auto

lemma set_stable_sort [simp]: "set (stable_sort lt xs) = set xs"
  by (metis mset_stable_sort set_mset_mset)

lemma length_stable_sort [simp]: "length (stable_sort lt xs) = length xs"
  by (metis mset_stable_sort size_mset)

lemma set_insort_by [simp]: "set (insort_by lt x xs) = insert x (set xs)"
  by (induction xs) auto

section \<open>Strict weak orders\<close>

definition tie :: "('a \<Rightarrow> 'a \<Rightarrow> bool) \<Rightarrow> 'a \<Rightarrow> 'a \<Rightarrow> bool" where
  "tie lt x y \<longleftrightarrow> \<not> lt x y \<and> \<not> lt y x"

locale strict_weak =
  fixes D :: "'a set"
    and lt :: "'a \<Rightarrow> 'a \<Rightarrow> bool"
  assumes irrefl: "x \<in> D \<Longrightarrow> \<not> lt x x"
    and neg_trans: "x \<in> D \<Longrightarrow> y \<in> D \<Longrightarrow> z \<in> D \<Longrightarrow> lt x z \<Longrightarrow> lt x y \<or> lt y z"
    and asym: "x \<in> D \<Longrightarrow> y \<in> D \<Longrightarrow> lt x y \<Longrightarrow> \<not> lt y x"
begin

lemma not_less_trans:
  "x \<in> D \<Longrightarrow> y \<in> D \<Longrightarrow> z \<in> D \<Longrightarrow> \<not> lt y x \<Longrightarrow> \<not> lt z y \<Longrightarrow> \<not> lt z x"
  using neg_trans by blast

lemma sorted_insort:
  assumes "x \<in> D" "set xs \<subseteq> D" "sorted_wrt (\<lambda>a b. \<not> lt b a) xs"
  shows "sorted_wrt (\<lambda>a b. \<not> lt b a) (insort_by lt x xs)"
  using assms
proof (induction xs)
  case Nil
  then show ?case by simp
next
  case (Cons y ys)
  show ?case
  proof (cases "lt y x")
    case True
    with Cons have "sorted_wrt (\<lambda>a b. \<not> lt b a) (insort_by lt x ys)"
      by simp
    moreover have "\<not> lt x y"
      using Cons.prems True asym [of y x] by auto
    ultimately show ?thesis
      using Cons.prems True by auto
  next
    case False
    have "\<not> lt z x" if "z \<in> set ys" for z
      using not_less_trans [of x y z] Cons.prems False that by auto
    with Cons.prems False show ?thesis by auto
  qed
qed

lemma sorted_stable_sort:
  "set xs \<subseteq> D \<Longrightarrow> sorted_wrt (\<lambda>a b. \<not> lt b a) (stable_sort lt xs)"
  by (induction xs) (auto intro!: sorted_insort)

lemma filter_tie_insort:
  assumes "x \<in> D" "a \<in> D" "set xs \<subseteq> D" "sorted_wrt (\<lambda>a b. \<not> lt b a) xs"
  shows "filter (tie lt a) (insort_by lt x xs) = filter (tie lt a) (x # xs)"
  using assms
proof (induction xs)
  case Nil
  then show ?case by simp
next
  case (Cons y ys)
  show ?case
  proof (cases "lt y x")
    case True
    have "\<not> (tie lt a x \<and> tie lt a y)"
      using neg_trans [of y a x] True Cons.prems by (auto simp: tie_def)
    with Cons True show ?thesis by auto
  next
    case False
    then show ?thesis by simp
  qed
qed

text \<open>Elements the comparison cannot tell apart keep their input order.\<close>

lemma stable_sort_stable:
  "set xs \<subseteq> D \<Longrightarrow> a \<in> D \<Longrightarrow>
    filter (tie lt a) (stable_sort lt xs) = filter (tie lt a) xs"
proof (induction xs)
  case Nil
  then show ?case by simp
next
  case (Cons x xs)
  then have "filter (tie lt a) (stable_sort lt (x # xs)) =
      filter (tie lt a) (x # stable_sort lt xs)"
    using filter_tie_insort [of x a "stable_sort lt xs"] sorted_stable_sort by simp
  with Cons show ?case by auto
qed

end

end
