(* ===== verification/Curtail_Selector.thy ===== *)
theory Curtail_Selector
  imports Curtail_Modes Go_Sort
begin

text \<open>
  Building a curtailment plan (\<open>server/internal/domain/curtailment/selector.go\<close>): the
  dual-signal filter, the worst-efficiency-first ranking, the hand-over to the mode, and the
  all-paired policy, which keeps a target for every paired miner and parks the ones that cannot
  be commanded. The fields of \<open>Plan\<close> that only the service fills in are left out.
\<close>

section \<open>Data\<close>

datatype skip_reason =
    SkipBelowThreshold | SkipPhantomLoadNoHash | SkipPowerTelemetryUnreliable | SkipStaleTelemetry
  | SkipUnreachableResidualLoad | SkipUpdating | SkipRebootRequired | SkipMaintenance
  | SkipNonActionableStatus | SkipPairing | SkipCurtailFullUnsupported | SkipCooldown
  | SkipActiveEvent

record candidate_input =
  ci_DeviceIdentifier :: string
  ci_PowerW :: f64
  ci_HashRateHS :: f64
  ci_AvgEfficiencyJH :: "f64 option"

record skipped_device =
  sk_DeviceIdentifier :: string
  sk_Reason :: skip_reason

text \<open>\<open>TargetStateNone\<close> is the empty string.\<close>

datatype target_state =
    TargetStateNone | TargetStatePending | TargetStateDispatching | TargetStateDispatched
  | TargetStateConfirmed | TargetStateDrifted | TargetStateUnavailable | TargetStateResolved
  | TargetStateReleased | TargetStateRestoreFailed

record selected_device =
  se_DeviceIdentifier :: string
  se_PowerW :: f64
  se_HashRateHS :: f64
  se_EfficiencyJH :: f64
  se_TargetState :: target_state
  se_LastError :: string

record plan =
  pl_Selected :: "selected_device list"
  pl_Skipped :: "skipped_device list"
  pl_EstimatedReductionKW :: f64
  pl_EstimatedRemainingPowerKW :: f64
  pl_Outcome :: outcome
  pl_InsufficientLoadDetail :: "insufficient_detail option"
  pl_PolicyTargetCount :: nat
  pl_UnavailableTargetCount :: nat

section \<open>BuildPlan\<close>

text \<open>The switch of the dual-signal filter; \<open>None\<close> admits the candidate.\<close>

definition dual_signal_skip :: "int \<Rightarrow> candidate_input \<Rightarrow> skip_reason option" where
  "dual_signal_skip candidateMinPowerW c =
     (if fl_less (ci_PowerW c) (fl_of_int candidateMinPowerW) \<and> fl_le (ci_HashRateHS c) (Fin 0)
      then Some SkipBelowThreshold
      else if fl_less (ci_PowerW c) (fl_of_int candidateMinPowerW)
      then Some SkipPowerTelemetryUnreliable
      else if fl_le (ci_HashRateHS c) (Fin 0) then Some SkipPhantomLoadNoHash
      else None)"

record filter_state =
  fs_skipped :: "skipped_device list"
  fs_eligible :: "candidate_input list"
  fs_belowThreshold :: int
  fs_phantomLoad :: int
  fs_deadMonitor :: int

definition filter_step :: "int \<Rightarrow> filter_state \<Rightarrow> candidate_input \<Rightarrow> filter_state" where
  "filter_step minW f c =
     (case dual_signal_skip minW c of
        None \<Rightarrow> f\<lparr>fs_eligible := fs_eligible f @ [c]\<rparr>
      | Some r \<Rightarrow>
          let g = f\<lparr>fs_skipped := fs_skipped f @
                [\<lparr>sk_DeviceIdentifier = ci_DeviceIdentifier c, sk_Reason = r\<rparr>]\<rparr>
          in if r = SkipBelowThreshold then g\<lparr>fs_belowThreshold := fs_belowThreshold g + 1\<rparr>
             else if r = SkipPhantomLoadNoHash then g\<lparr>fs_phantomLoad := fs_phantomLoad g + 1\<rparr>
             else g\<lparr>fs_deadMonitor := fs_deadMonitor g + 1\<rparr>)"

definition filter_inputs ::
  "bool \<Rightarrow> int \<Rightarrow> skipped_device list \<Rightarrow> candidate_input list \<Rightarrow> filter_state" where
  "filter_inputs dualSignal minW preFiltered inputs =
     (let f = \<lparr>fs_skipped = preFiltered, fs_eligible = [], fs_belowThreshold = 0,
               fs_phantomLoad = 0, fs_deadMonitor = 0\<rparr>
      in if dualSignal then foldl (filter_step minW) f inputs
         else f\<lparr>fs_eligible := inputs\<rparr>)"

definition worse_efficiency :: "candidate_input \<Rightarrow> candidate_input \<Rightarrow> bool" where
  "worse_efficiency x y =
     (case ci_AvgEfficiencyJH x of
        None \<Rightarrow> False
      | Some ex \<Rightarrow>
          (case ci_AvgEfficiencyJH y of None \<Rightarrow> True | Some ey \<Rightarrow> fl_less ey ex))"

definition to_candidate :: "candidate_input \<Rightarrow> candidate" where
  "to_candidate c =
     \<lparr>cd_DeviceIdentifier = ci_DeviceIdentifier c, cd_PowerW = ci_PowerW c,
      cd_EfficiencyJH = (case ci_AvgEfficiencyJH c of None \<Rightarrow> Fin 0 | Some e \<Rightarrow> e)\<rparr>"

definition merge_counts :: "filter_state \<Rightarrow> insufficient_detail \<Rightarrow> insufficient_detail" where
  "merge_counts f d =
     d\<lparr>id_ExcludedBelowThreshold := id_ExcludedBelowThreshold d + fs_belowThreshold f,
       id_ExcludedPhantomLoad := id_ExcludedPhantomLoad d + fs_phantomLoad f,
       id_ExcludedDeadMonitor := id_ExcludedDeadMonitor d + fs_deadMonitor f\<rparr>"

definition hashByDevice :: "candidate_input list \<Rightarrow> (string \<times> f64) list" where
  "hashByDevice inputs =
     foldl (\<lambda>m c. AList.update (ci_DeviceIdentifier c) (ci_HashRateHS c) m) [] inputs"

definition hash_of :: "candidate_input list \<Rightarrow> string \<Rightarrow> f64" where
  "hash_of inputs d = (case map_of (hashByDevice inputs) d of None \<Rightarrow> Fin 0 | Some h \<Rightarrow> h)"

definition to_selected :: "candidate_input list \<Rightarrow> candidate \<Rightarrow> selected_device" where
  "to_selected inputs c =
     \<lparr>se_DeviceIdentifier = cd_DeviceIdentifier c, se_PowerW = cd_PowerW c,
      se_HashRateHS = hash_of inputs (cd_DeviceIdentifier c),
      se_EfficiencyJH = cd_EfficiencyJH c, se_TargetState = TargetStateNone, se_LastError = []\<rparr>"

definition BuildPlan ::
  "candidate_input list \<Rightarrow> skipped_device list \<Rightarrow> int \<Rightarrow> mode_value \<Rightarrow> plan" where
  "BuildPlan inputs preFiltered candidateMinPowerW m =
     (let f = filter_inputs (RequiresDualSignalTelemetry m) candidateMinPowerW preFiltered inputs;
          ranked = map to_candidate (stable_sort worse_efficiency (fs_eligible f));
          res = Select m ranked;
          selected = map (to_selected inputs) (rs_Selected res)
      in \<lparr>pl_Selected = selected, pl_Skipped = fs_skipped f,
          pl_EstimatedReductionKW = fl_unscale (rs_RealizedReductionW res) 1000,
          pl_EstimatedRemainingPowerKW =
            fl_unscale (fl_sub (power_sum ranked) (rs_RealizedReductionW res)) 1000,
          pl_Outcome = rs_Outcome res,
          pl_InsufficientLoadDetail = map_option (merge_counts f) (rs_InsufficientDetail res),
          pl_PolicyTargetCount = length selected, pl_UnavailableTargetCount = 0\<rparr>)"

section \<open>The all-paired policy\<close>

record model_candidate =
  mc_DeviceIdentifier :: string
  mc_DriverName :: "string option"
  mc_Model :: string
  mc_DeviceStatus :: string
  mc_PairingStatus :: string
  mc_LatestMetricsAt :: "gotime option"
  mc_LatestPowerW :: "f64 option"
  mc_LatestHashRateHS :: "f64 option"
  mc_AvgEfficiencyJH :: "f64 option"

definition isFiniteFloat :: "f64 option \<Rightarrow> bool" where
  "isFiniteFloat p = (case p of None \<Rightarrow> True | Some x \<Rightarrow> \<not> is_nan x \<and> \<not> is_inf x)"

definition hasNonNegativeFiniteFloat :: "f64 option \<Rightarrow> bool" where
  "hasNonNegativeFiniteFloat p =
     (case p of None \<Rightarrow> False | Some x \<Rightarrow> isFiniteFloat p \<and> fl_le (Fin 0) x)"

definition derefFloat :: "f64 option \<Rightarrow> f64" where
  "derefFloat p = (case p of None \<Rightarrow> Fin 0 | Some x \<Rightarrow> x)"

abbreviation deviceStatusNeedsMiningPool :: string where
  "deviceStatusNeedsMiningPool \<equiv> ''NEEDS_MINING_POOL''"
abbreviation deviceStatusInactive :: string where
  "deviceStatusInactive \<equiv> ''INACTIVE''"
abbreviation pairingStatusAuthenticationNeeded :: string where
  "pairingStatusAuthenticationNeeded \<equiv> ''AUTHENTICATION_NEEDED''"

definition statusAuthoritativeHashRateHS :: "model_candidate \<Rightarrow> f64" where
  "statusAuthoritativeHashRateHS c =
     (if mc_DeviceStatus c = deviceStatusNeedsMiningPool then Fin 0
      else if hasNonNegativeFiniteFloat (mc_LatestHashRateHS c)
      then derefFloat (mc_LatestHashRateHS c)
      else Fin 0)"

definition hasPositivePowerSample :: "model_candidate \<Rightarrow> bool" where
  "hasPositivePowerSample c \<longleftrightarrow> hasNonNegativeFiniteFloat (mc_LatestPowerW c) \<and>
     fl_less (Fin 0) (derefFloat (mc_LatestPowerW c))"

definition no_driver :: "model_candidate \<Rightarrow> bool" where
  "no_driver c \<longleftrightarrow> mc_DriverName c = None \<or> mc_DriverName c = Some []"

abbreviation unavailable :: "string \<Rightarrow> target_state \<times> string" where
  "unavailable r \<equiv> (TargetStateUnavailable, r)"

abbreviation pending :: "target_state \<times> string" where
  "pending \<equiv> (TargetStatePending, [])"

definition AllPairedPolicyTargetState ::
  "model_candidate option \<Rightarrow> bool \<Rightarrow> target_state \<times> string" where
  "AllPairedPolicyTargetState cand includeMaintenance =
     (case cand of
        None \<Rightarrow> unavailable ''missing_status''
      | Some c \<Rightarrow>
          if mc_PairingStatus c = pairingStatusAuthenticationNeeded
          then unavailable ''authentication_needed''
          else if no_driver c then unavailable ''no_driver''
          else if mc_DeviceStatus c = [] then unavailable ''missing_status''
          else if mc_DeviceStatus c = ''OFFLINE'' then unavailable ''offline''
          else if mc_DeviceStatus c = ''UPDATING'' then unavailable ''updating''
          else if mc_DeviceStatus c = ''REBOOT_REQUIRED'' then unavailable ''reboot_required''
          else if mc_DeviceStatus c \<in> {deviceStatusInactive, ''ERROR'', ''UNKNOWN''}
          then unavailable ''non_actionable_status''
          else if mc_DeviceStatus c = deviceStatusNeedsMiningPool then
            if \<not> hasPositivePowerSample c then unavailable ''stale_telemetry'' else pending
          else if mc_DeviceStatus c = ''MAINTENANCE'' then
            if \<not> includeMaintenance then unavailable ''maintenance'' else pending
          else pending)"

definition IsAllPairedPolicyPairingStatus :: "string \<Rightarrow> bool" where
  "IsAllPairedPolicyPairingStatus status \<longleftrightarrow>
     status \<in> {''PAIRED'', ''DEFAULT_PASSWORD'', pairingStatusAuthenticationNeeded}"

definition AllPairedPolicyRestoreTargetState ::
  "model_candidate option \<Rightarrow> target_state \<times> string" where
  "AllPairedPolicyRestoreTargetState cand =
     (case cand of
        None \<Rightarrow> unavailable ''missing_status''
      | Some c \<Rightarrow>
          if mc_PairingStatus c = pairingStatusAuthenticationNeeded
          then unavailable ''authentication_needed''
          else if mc_PairingStatus c \<notin> {''PAIRED'', ''DEFAULT_PASSWORD''}
          then unavailable ''unpaired''
          else if no_driver c then unavailable ''no_driver''
          else if mc_DeviceStatus c \<in> {deviceStatusInactive, deviceStatusNeedsMiningPool}
          then pending
          else AllPairedPolicyTargetState cand True)"

definition shouldPersistBaselinePowerW :: "event_mode \<Rightarrow> f64 \<Rightarrow> int \<Rightarrow> bool \<Rightarrow> bool" where
  "shouldPersistBaselinePowerW m powerW minPowerW hashing =
     (if fl_le powerW (Fin 0) then False
      else if m = ModeFullFleet \<and> hashing \<and> fl_less powerW (fl_of_int minPowerW) then False
      else True)"

definition AllPairedPromotionBaselinePowerW ::
  "model_candidate option \<Rightarrow> int \<Rightarrow> f64 option" where
  "AllPairedPromotionBaselinePowerW cand minPowerW =
     (case cand of
        None \<Rightarrow> None
      | Some c \<Rightarrow>
          if \<not> hasNonNegativeFiniteFloat (mc_LatestPowerW c) then None
          else
            let power = derefFloat (mc_LatestPowerW c);
                hashing = fl_less (Fin 0) (statusAuthoritativeHashRateHS c)
            in if \<not> shouldPersistBaselinePowerW ModeFullFleet power minPowerW hashing then None
               else Some power)"

definition policy_device :: "bool \<Rightarrow> model_candidate \<Rightarrow> selected_device" where
  "policy_device includeMaintenance c =
     (case AllPairedPolicyTargetState (Some c) includeMaintenance of
        (state, reason) \<Rightarrow>
          \<lparr>se_DeviceIdentifier = mc_DeviceIdentifier c,
           se_PowerW = (if state \<noteq> TargetStateUnavailable \<and>
                           hasNonNegativeFiniteFloat (mc_LatestPowerW c)
                        then derefFloat (mc_LatestPowerW c) else Fin 0),
           se_HashRateHS = statusAuthoritativeHashRateHS c,
           se_EfficiencyJH = derefFloat (if isFiniteFloat (mc_AvgEfficiencyJH c)
                                         then mc_AvgEfficiencyJH c else None),
           se_TargetState = state, se_LastError = reason\<rparr>)"

record policy_state =
  ps_selected :: "selected_device list"
  ps_skipped :: "skipped_device list"
  ps_reductionW :: f64
  ps_unavailable :: nat

definition policy_step ::
  "string list \<Rightarrow> bool \<Rightarrow> policy_state \<Rightarrow> model_candidate option \<Rightarrow> policy_state" where
  "policy_step activeEventDevices includeMaintenance p cand =
     (case cand of
        None \<Rightarrow> p
      | Some c \<Rightarrow>
          if mc_DeviceIdentifier c \<in> set activeEventDevices then
            p\<lparr>ps_skipped := ps_skipped p @
                [\<lparr>sk_DeviceIdentifier = mc_DeviceIdentifier c, sk_Reason = SkipActiveEvent\<rparr>]\<rparr>
          else if \<not> IsAllPairedPolicyPairingStatus (mc_PairingStatus c) then
            p\<lparr>ps_skipped := ps_skipped p @
                [\<lparr>sk_DeviceIdentifier = mc_DeviceIdentifier c, sk_Reason = SkipPairing\<rparr>]\<rparr>
          else
            let d = policy_device includeMaintenance c in
            p\<lparr>ps_selected := ps_selected p @ [d],
              ps_reductionW :=
                (if se_TargetState d \<noteq> TargetStateUnavailable \<and>
                    hasNonNegativeFiniteFloat (mc_LatestPowerW c)
                 then fl_add (ps_reductionW p) (se_PowerW d) else ps_reductionW p),
              ps_unavailable :=
                (if se_TargetState d = TargetStateUnavailable then ps_unavailable p + 1
                 else ps_unavailable p)\<rparr>)"

definition BuildAllPairedPolicyPlan ::
  "model_candidate option list \<Rightarrow> string list \<Rightarrow> bool \<Rightarrow> int \<Rightarrow> plan" where
  "BuildAllPairedPolicyPlan candidates activeEventDevices includeMaintenance minPowerW =
     (let p = foldl (policy_step activeEventDevices includeMaintenance)
            \<lparr>ps_selected = [], ps_skipped = [], ps_reductionW = Fin 0, ps_unavailable = 0\<rparr>
            candidates
      in \<lparr>pl_Selected = ps_selected p, pl_Skipped = ps_skipped p,
          pl_EstimatedReductionKW = fl_unscale (ps_reductionW p) 1000,
          pl_EstimatedRemainingPowerKW = Fin 0, pl_Outcome = OutcomeTargetReached,
          pl_InsufficientLoadDetail = None,
          pl_PolicyTargetCount = length (ps_selected p),
          pl_UnavailableTargetCount = ps_unavailable p\<rparr>)"

section \<open>The filter\<close>

abbreviation rejected :: "int \<Rightarrow> skip_reason \<Rightarrow> candidate_input list \<Rightarrow> candidate_input list" where
  "rejected minW r \<equiv> filter (\<lambda>c. dual_signal_skip minW c = Some r)"

definition skip_record :: "int \<Rightarrow> candidate_input \<Rightarrow> skipped_device" where
  "skip_record minW c = \<lparr>sk_DeviceIdentifier = ci_DeviceIdentifier c,
     sk_Reason = the (dual_signal_skip minW c)\<rparr>"

lemma dual_signal_skip_cases:
  obtains "dual_signal_skip minW c = None" | "dual_signal_skip minW c = Some SkipBelowThreshold"
  | "dual_signal_skip minW c = Some SkipPhantomLoadNoHash"
  | "dual_signal_skip minW c = Some SkipPowerTelemetryUnreliable"
  unfolding dual_signal_skip_def by (meson option.distinct)

lemma filter_fold:
  "foldl (filter_step minW) f inputs =
    \<lparr>fs_skipped = fs_skipped f @
       map (skip_record minW) (filter (\<lambda>c. dual_signal_skip minW c \<noteq> None) inputs),
     fs_eligible = fs_eligible f @ filter (\<lambda>c. dual_signal_skip minW c = None) inputs,
     fs_belowThreshold = fs_belowThreshold f + int (length (rejected minW SkipBelowThreshold inputs)),
     fs_phantomLoad = fs_phantomLoad f + int (length (rejected minW SkipPhantomLoadNoHash inputs)),
     fs_deadMonitor =
       fs_deadMonitor f + int (length (rejected minW SkipPowerTelemetryUnreliable inputs))\<rparr>"
proof (induction inputs arbitrary: f)
  case Nil
  then show ?case by simp
next
  case (Cons c cs)
  show ?case
    by (rule dual_signal_skip_cases [of minW c])
      (simp_all add: Cons.IH filter_step_def [of minW f c] skip_record_def Let_def)
qed

text \<open>The candidates a mode gets to rank.\<close>

definition admitted :: "mode_value \<Rightarrow> int \<Rightarrow> candidate_input list \<Rightarrow> candidate_input list" where
  "admitted m minW inputs =
     (if RequiresDualSignalTelemetry m then filter (\<lambda>c. dual_signal_skip minW c = None) inputs
      else inputs)"

definition turned_away :: "mode_value \<Rightarrow> int \<Rightarrow> candidate_input list \<Rightarrow> candidate_input list" where
  "turned_away m minW inputs =
     (if RequiresDualSignalTelemetry m then filter (\<lambda>c. dual_signal_skip minW c \<noteq> None) inputs
      else [])"

lemma filter_inputs_simps [simp]:
  "fs_eligible (filter_inputs (RequiresDualSignalTelemetry m) minW pre inputs) =
    admitted m minW inputs"
  "fs_skipped (filter_inputs (RequiresDualSignalTelemetry m) minW pre inputs) =
    pre @ map (skip_record minW) (turned_away m minW inputs)"
  by (simp_all add: filter_inputs_def filter_fold admitted_def turned_away_def Let_def)

lemma set_admitted: "set (admitted m minW inputs) \<subseteq> set inputs"
  by (auto simp: admitted_def)

lemma power_to_candidate [simp]: "cd_PowerW (to_candidate c) = ci_PowerW c"
  by (simp add: to_candidate_def)

lemma map_power_to_candidate [simp]: "map (cd_PowerW \<circ> to_candidate) cs = map ci_PowerW cs"
  by simp

section \<open>The ranking\<close>

text \<open>
  On candidates without a NaN efficiency the comparison is a strict weak order, which is what
  \<open>sort.SliceStable\<close> needs; \<open>classifyCandidates\<close> drops non-finite efficiencies beforehand.
\<close>

interpretation by_efficiency: strict_weak "{c. ci_AvgEfficiencyJH c \<noteq> Some NaN}" worse_efficiency
proof unfold_locales
  fix x y z :: candidate_input
  assume "x \<in> {c. ci_AvgEfficiencyJH c \<noteq> Some NaN}" "y \<in> {c. ci_AvgEfficiencyJH c \<noteq> Some NaN}"
    "z \<in> {c. ci_AvgEfficiencyJH c \<noteq> Some NaN}" "worse_efficiency x z"
  then show "worse_efficiency x y \<or> worse_efficiency y z"
    by (auto simp: worse_efficiency_def split: option.splits) (metis fl_less_neg_trans)
qed (auto simp: worse_efficiency_def dest: fl_less_asym split: option.splits)

lemma plan_prefix:
  obtains n where
    "rs_Selected (Select m (map to_candidate ranked)) = map to_candidate (take n ranked)"
  using any_mode.selected_take [of m "map to_candidate ranked"] by (auto simp: take_map)

lemma build_plan_selected_ids:
  "se_DeviceIdentifier ` set (pl_Selected (BuildPlan inputs pre minW m)) \<subseteq>
    ci_DeviceIdentifier ` set (admitted m minW inputs)"
proof -
  let ?r = "stable_sort worse_efficiency (admitted m minW inputs)"
  obtain n where n: "rs_Selected (Select m (map to_candidate ?r)) = map to_candidate (take n ?r)"
    by (rule plan_prefix)
  have "set (take n ?r) \<subseteq> set (admitted m minW inputs)"
    using set_take_subset [of n ?r] by simp
  with n show ?thesis
    by (auto simp: BuildPlan_def Let_def to_selected_def to_candidate_def)
qed

section \<open>Properties\<close>

text \<open>
  A plan takes the worst miners first. Everything the two-signal filter turns away is listed
  as skipped with its reason, after the skips handed in; the rest is ranked by efficiency, worst
  first, miners without a known efficiency last and ties in input order; the plan selects a
  prefix of that ranking and promises the sum of its power readings. The inputs must not carry a
  NaN efficiency.
\<close>
theorem build_plan_takes_worst_first:
  assumes "\<forall>c\<in>set inputs. ci_AvgEfficiencyJH c \<noteq> Some NaN"
  shows "\<exists>n ranked. let p = BuildPlan inputs preFiltered minW m; adm = admitted m minW inputs in
    mset ranked = mset adm \<and> sorted_wrt (\<lambda>a b. \<not> worse_efficiency b a) ranked \<and>
    (\<forall>a. a \<in> set inputs \<longrightarrow>
      filter (tie worse_efficiency a) ranked = filter (tie worse_efficiency a) adm) \<and>
    pl_Selected p = map (\<lambda>c. to_selected inputs (to_candidate c)) (take n ranked) \<and>
    pl_Skipped p = preFiltered @ map (skip_record minW) (turned_away m minW inputs) \<and>
    pl_EstimatedReductionKW p = fl_unscale (fl_sum (map ci_PowerW (take n ranked))) 1000"
proof -
  let ?adm = "admitted m minW inputs"
  let ?r = "stable_sort worse_efficiency ?adm"
  have D: "set ?adm \<subseteq> {c. ci_AvgEfficiencyJH c \<noteq> Some NaN}"
    using assms set_admitted by blast
  obtain n where n: "rs_Selected (Select m (map to_candidate ?r)) = map to_candidate (take n ?r)"
    by (rule plan_prefix)
  have "\<forall>a. a \<in> set inputs \<longrightarrow>
      filter (tie worse_efficiency a) ?r = filter (tie worse_efficiency a) ?adm"
    using by_efficiency.stable_sort_stable [OF D] assms by blast
  with n show ?thesis
    by (intro exI [of _ n] exI [of _ ?r])
      (simp add: BuildPlan_def Let_def any_mode.realizes by_efficiency.sorted_stable_sort [OF D])
qed

definition demo_inputs :: "candidate_input list" where
  "demo_inputs =
     [\<lparr>ci_DeviceIdentifier = ''a'', ci_PowerW = Fin 3000, ci_HashRateHS = Fin 9,
       ci_AvgEfficiencyJH = Some (Fin 20)\<rparr>,
      \<lparr>ci_DeviceIdentifier = ''b'', ci_PowerW = Fin 3000, ci_HashRateHS = Fin 9,
       ci_AvgEfficiencyJH = Some (Fin 30)\<rparr>]"

theorem build_plan_takes_worst_first_witness:
  "\<exists>n ranked. let p = BuildPlan demo_inputs [] 100 FullFleet; adm = admitted FullFleet 100 demo_inputs in
    mset ranked = mset adm \<and> sorted_wrt (\<lambda>a b. \<not> worse_efficiency b a) ranked \<and>
    (\<forall>a. a \<in> set demo_inputs \<longrightarrow>
      filter (tie worse_efficiency a) ranked = filter (tie worse_efficiency a) adm) \<and>
    pl_Selected p = map (\<lambda>c. to_selected demo_inputs (to_candidate c)) (take n ranked) \<and>
    pl_Skipped p = [] @ map (skip_record 100) (turned_away FullFleet 100 demo_inputs) \<and>
    pl_EstimatedReductionKW p = fl_unscale (fl_sum (map ci_PowerW (take n ranked))) 1000"
  by (rule build_plan_takes_worst_first) (simp add: demo_inputs_def)

lemma admitted_has_both_signals:
  assumes "c \<in> set (admitted m minW inputs)" "RequiresDualSignalTelemetry m"
  shows "\<not> fl_less (ci_PowerW c) (fl_of_int minW) \<and> \<not> fl_le (ci_HashRateHS c) (Fin 0)"
  using assms by (auto simp: admitted_def dual_signal_skip_def split: if_splits)

text \<open>
  A plan that falls short says why. In the fixed-kW mode the plan carries a detail exactly
  when the outcome is insufficient load; then nothing is selected, the available power is the sum
  over the admitted miners in rank order, and each of the three telemetry exclusion counts is the
  count handed in plus the number of inputs that the filter turned away for that reason.
\<close>
theorem build_plan_explains_shortfall:
  "let p = BuildPlan inputs preFiltered minW (FixedKw k); s = fk_ExclusionSummary k in
   case pl_InsufficientLoadDetail p of
     None \<Rightarrow> pl_Outcome p \<in> {OutcomeTargetReached, OutcomeUndershootTolerated}
   | Some d \<Rightarrow> pl_Outcome p = OutcomeInsufficientLoad \<and> pl_Selected p = [] \<and>
       id_AvailableKW d = fl_unscale (fl_sum (map ci_PowerW
         (stable_sort worse_efficiency (admitted (FixedKw k) minW inputs)))) 1000 \<and>
       id_ExcludedBelowThreshold d = id_ExcludedBelowThreshold s +
         int (length (rejected minW SkipBelowThreshold inputs)) \<and>
       id_ExcludedPhantomLoad d = id_ExcludedPhantomLoad s +
         int (length (rejected minW SkipPhantomLoadNoHash inputs)) \<and>
       id_ExcludedDeadMonitor d = id_ExcludedDeadMonitor s +
         int (length (rejected minW SkipPowerTelemetryUnreliable inputs))"
proof -
  let ?f = "filter_inputs True minW preFiltered inputs"
  have f: "fs_eligible ?f = admitted (FixedKw k) minW inputs"
    using filter_inputs_simps(1) [of "FixedKw k"] by (simp add: RequiresDualSignalTelemetry_def)
  have counts: "fs_belowThreshold ?f = int (length (rejected minW SkipBelowThreshold inputs))"
    "fs_phantomLoad ?f = int (length (rejected minW SkipPhantomLoadNoHash inputs))"
    "fs_deadMonitor ?f = int (length (rejected minW SkipPowerTelemetryUnreliable inputs))"
    by (simp_all add: filter_inputs_def filter_fold)
  let ?r = "map to_candidate (stable_sort worse_efficiency (admitted (FixedKw k) minW inputs))"
  let ?t = "fl_scale (fk_TargetKW k) 1000"
  show ?thesis
  proof (cases "accumulate ?t [] (Fin 0) ?r")
    case (Inl a)
    then show ?thesis
      by (auto simp: BuildPlan_def Let_def Select_def FixedKw_Select_def f
          RequiresDualSignalTelemetry_def split: prod.splits)
  next
    case (Inr w)
    then have "w = fl_sum (map ci_PowerW
        (stable_sort worse_efficiency (admitted (FixedKw k) minW inputs)))"
      using accumulate_Inr [OF Inr] by simp
    with Inr show ?thesis
      by (auto simp: BuildPlan_def Let_def Select_def FixedKw_Select_def f counts merge_counts_def
          RequiresDualSignalTelemetry_def)
  qed
qed

section \<open>The all-paired policy\<close>

text \<open>Which paired candidates a policy event takes over, and the record of the others.\<close>

definition owned :: "string list \<Rightarrow> model_candidate \<Rightarrow> bool" where
  "owned activeEventDevices c \<longleftrightarrow> mc_DeviceIdentifier c \<notin> set activeEventDevices \<and>
     IsAllPairedPolicyPairingStatus (mc_PairingStatus c)"

lemma policy_fold:
  fixes p :: policy_state
  shows "ps_selected (foldl (policy_step act inc) p cs) =
      ps_selected p @ map (policy_device inc) (filter (owned act) (List.map_filter id cs))"
    "map sk_DeviceIdentifier (ps_skipped (foldl (policy_step act inc) p cs)) =
      map sk_DeviceIdentifier (ps_skipped p) @
      map mc_DeviceIdentifier (filter (\<lambda>c. \<not> owned act c) (List.map_filter id cs))"
    "ps_unavailable (foldl (policy_step act inc) p cs) = ps_unavailable p +
      length (filter (\<lambda>d. se_TargetState d = TargetStateUnavailable)
        (map (policy_device inc) (filter (owned act) (List.map_filter id cs))))"
  by (induction cs arbitrary: p)
    (auto simp: policy_step_def owned_def Let_def map_filter_simps split: option.splits)

lemma se_TargetState_policy_device [simp]:
  "se_TargetState (policy_device inc c) = fst (AllPairedPolicyTargetState (Some c) inc)"
  "se_LastError (policy_device inc c) = snd (AllPairedPolicyTargetState (Some c) inc)"
  by (simp_all add: policy_device_def split: prod.splits)

lemma policy_state_cases:
  "AllPairedPolicyTargetState cand inc = pending \<or>
    fst (AllPairedPolicyTargetState cand inc) = TargetStateUnavailable \<and>
    snd (AllPairedPolicyTargetState cand inc) \<noteq> []"
  by (simp add: AllPairedPolicyTargetState_def split: option.splits)

lemma maintenance_only_widens:
  "AllPairedPolicyTargetState cand inc = pending \<Longrightarrow> AllPairedPolicyTargetState cand True = pending"
  by (auto simp: AllPairedPolicyTargetState_def split: option.splits if_splits)

text \<open>Whatever the policy may put to sleep, it may also wake up.\<close>

lemma curtailed_is_restorable:
  assumes "AllPairedPolicyTargetState (Some c) inc = pending"
    and "IsAllPairedPolicyPairingStatus (mc_PairingStatus c)"
  shows "AllPairedPolicyRestoreTargetState (Some c) = pending"
  using assms maintenance_only_widens [OF assms(1)]
  by (auto simp: AllPairedPolicyRestoreTargetState_def AllPairedPolicyTargetState_def
      IsAllPairedPolicyPairingStatus_def split: if_splits)

text \<open>
  The all-paired plan takes over every paired miner that no other event holds, in input
  order, and lists every other candidate as skipped. Each target is either ready for dispatch or
  parked with a reason, the parked ones are counted and promise no power, and every target that is
  ready to be put to sleep would be ready to be woken up again.
\<close>
theorem all_paired_plan_owns_and_can_restore:
  "let p = BuildAllPairedPolicyPlan candidates act inc minW;
       known = List.map_filter id candidates; mine = filter (owned act) known
   in pl_Selected p = map (policy_device inc) mine \<and>
      map sk_DeviceIdentifier (pl_Skipped p) =
        map mc_DeviceIdentifier (filter (\<lambda>c. \<not> owned act c) known) \<and>
      pl_PolicyTargetCount p = length mine \<and>
      pl_UnavailableTargetCount p =
        length (filter (\<lambda>d. se_TargetState d = TargetStateUnavailable) (pl_Selected p)) \<and>
      list_all (\<lambda>d. if se_TargetState d = TargetStateUnavailable
          then se_LastError d \<noteq> [] \<and> se_PowerW d = Fin 0
          else se_TargetState d = TargetStatePending \<and> se_LastError d = []) (pl_Selected p) \<and>
      list_all (\<lambda>c. AllPairedPolicyRestoreTargetState (Some c) = pending)
        (filter (\<lambda>c. se_TargetState (policy_device inc c) = TargetStatePending) mine)"
proof -
  let ?mine = "filter (owned act) (List.map_filter id candidates)"
  let ?ok = "\<lambda>d. if se_TargetState d = TargetStateUnavailable
        then se_LastError d \<noteq> [] \<and> se_PowerW d = Fin 0
        else se_TargetState d = TargetStatePending \<and> se_LastError d = []"
  have ok: "?ok (policy_device inc c)" for c
    using policy_state_cases [of "Some c" inc] by (auto simp: policy_device_def split: prod.splits)
  have states: "list_all ?ok (map (policy_device inc) ?mine)"
    unfolding list_all_iff set_map ball_simps(9) using ok by blast
  have ready: "AllPairedPolicyTargetState (Some c) inc = pending"
    if "se_TargetState (policy_device inc c) = TargetStatePending" for c
    using policy_state_cases [of "Some c" inc] that by auto
  have restorable: "list_all (\<lambda>c. AllPairedPolicyRestoreTargetState (Some c) = pending)
      (filter (\<lambda>c. se_TargetState (policy_device inc c) = TargetStatePending) ?mine)"
    unfolding list_all_iff set_filter owned_def using ready curtailed_is_restorable by blast
  show ?thesis
    unfolding Let_def BuildAllPairedPolicyPlan_def plan.select_convs policy_fold
      policy_state.select_convs append_Nil list.map add_0
    using states restorable by (intro conjI) (simp_all only: length_map list.map append_Nil)
qed

end
