(* ===== verification/Curtail_Scope.thy ===== *)
theory Curtail_Scope
  imports Curtail_Modes
begin

text \<open>
  The target scope of a curtailment request (\<open>server/internal/domain/curtailment/service.go\<close>):
  validation, normalisation and the candidate filter handed to the store. In that filter empty
  selector lists mean the whole organisation, so the point of this code is that no request is
  widened by accident.
\<close>

section \<open>Data\<close>

datatype scope_type =
    ScopeTypeWholeOrg | ScopeTypeSite | ScopeTypeDeviceList | ScopeTypeMixed
  | ScopeTypeOther string

record scope =
  sc_SchemaVersion :: nat
  sc_Type :: scope_type
  sc_SiteID :: int
  sc_SiteIDs :: "int list"
  sc_BuildingIDs :: "int list"
  sc_RackIDs :: "int list"
  sc_GroupIDs :: "int list"
  sc_DeviceIdentifiers :: "string list"

record list_candidates_params =
  lc_OrgID :: int
  lc_ResultLimit :: int
  lc_DeviceIdentifiers :: "string list"
  lc_SiteIDs :: "int list"
  lc_BuildingIDs :: "int list"
  lc_RackIDs :: "int list"
  lc_GroupIDs :: "int list"

datatype scope_error =
    UnsupportedSchemaVersion nat
  | TooManyTopologyIDs
  | TooManyDeviceIdentifiers
  | SiteIDsNotPositive
  | BuildingIDsNotPositive
  | RackIDsNotPositive
  | GroupIDsNotPositive
  | NotExactlyOneSelector
  | SchemaVersionRequired
  | SiteIDMissing
  | DeviceIdentifiersEmpty
  | NoTerminalSelectors
  | UnrecognizedScopeType scope_type
  | SiteNotFound int
  | TopologyResolverMissing
  | ScopeStoreError string

abbreviation ScopeSchemaVersionCurrent :: nat where "ScopeSchemaVersionCurrent \<equiv> 1"
abbreviation ScopeTopologyIDsPerTypeMax :: nat where "ScopeTopologyIDsPerTypeMax \<equiv> 256"
abbreviation ScopeDeviceIdentifiersMax :: nat where "ScopeDeviceIdentifiersMax \<equiv> 10000"
abbreviation ScopeResolvedMinerMax :: nat where "ScopeResolvedMinerMax \<equiv> 10000"

definition no_filter :: list_candidates_params where
  "no_filter = \<lparr>lc_OrgID = 0, lc_ResultLimit = 0, lc_DeviceIdentifiers = [], lc_SiteIDs = [],
     lc_BuildingIDs = [], lc_RackIDs = [], lc_GroupIDs = []\<rparr>"

section \<open>Validation\<close>

definition hasNonPositiveInt64 :: "int list \<Rightarrow> bool" where
  "hasNonPositiveInt64 vs \<longleftrightarrow> list_ex (\<lambda>v. v \<le> 0) vs"

definition hasTopologySelectors :: "scope \<Rightarrow> bool" where
  "hasTopologySelectors s \<longleftrightarrow> sc_BuildingIDs s \<noteq> [] \<or> sc_RackIDs s \<noteq> [] \<or> sc_GroupIDs s \<noteq> []"

definition IsTopologyScope :: "scope \<Rightarrow> bool" where
  "IsTopologyScope s = hasTopologySelectors s"

definition scopeSelectorTypeCount :: "scope \<Rightarrow> nat" where
  "scopeSelectorTypeCount s = length (filter (\<lambda>b. b)
     [sc_Type s = ScopeTypeWholeOrg, sc_SiteID s \<noteq> 0 \<or> sc_SiteIDs s \<noteq> [],
      sc_BuildingIDs s \<noteq> [], sc_RackIDs s \<noteq> [], sc_GroupIDs s \<noteq> [],
      sc_DeviceIdentifiers s \<noteq> []])"

definition validateScopeSchemaVersion :: "nat \<Rightarrow> scope_error option" where
  "validateScopeSchemaVersion version =
     (if version \<le> ScopeSchemaVersionCurrent then None
      else Some (UnsupportedSchemaVersion version))"

definition validateScopeContract :: "scope \<Rightarrow> scope_error option" where
  "validateScopeContract s =
     (case validateScopeSchemaVersion (sc_SchemaVersion s) of
        Some e \<Rightarrow> Some e
      | None \<Rightarrow>
          if ScopeTopologyIDsPerTypeMax < length (sc_SiteIDs s)
             \<or> ScopeTopologyIDsPerTypeMax < length (sc_BuildingIDs s)
             \<or> ScopeTopologyIDsPerTypeMax < length (sc_RackIDs s)
             \<or> ScopeTopologyIDsPerTypeMax < length (sc_GroupIDs s)
          then Some TooManyTopologyIDs
          else if ScopeDeviceIdentifiersMax < length (sc_DeviceIdentifiers s)
          then Some TooManyDeviceIdentifiers
          else if sc_SiteID s < 0 \<or> hasNonPositiveInt64 (sc_SiteIDs s) then Some SiteIDsNotPositive
          else if hasNonPositiveInt64 (sc_BuildingIDs s) then Some BuildingIDsNotPositive
          else if hasNonPositiveInt64 (sc_RackIDs s) then Some RackIDsNotPositive
          else if hasNonPositiveInt64 (sc_GroupIDs s) then Some GroupIDsNotPositive
          else if scopeSelectorTypeCount s \<noteq> 1 then Some NotExactlyOneSelector
          else if hasTopologySelectors s \<and> sc_SchemaVersion s \<noteq> ScopeSchemaVersionCurrent
          then Some SchemaVersionRequired
          else None)"

section \<open>Normalisation\<close>

text \<open>The loop of the two \<open>unique\<close> functions; \<open>seen\<close> holds the values already kept.\<close>

fun unique_loop :: "('a \<Rightarrow> bool) \<Rightarrow> 'a list \<Rightarrow> 'a list \<Rightarrow> 'a list" where
  "unique_loop keep seen [] = []"
| "unique_loop keep seen (v # vs) =
     (if \<not> keep v then unique_loop keep seen vs
      else if v \<in> set seen then unique_loop keep seen vs
      else v # unique_loop keep (v # seen) vs)"

definition uniquePositiveInt64s :: "int list \<Rightarrow> int list" where
  "uniquePositiveInt64s vs = unique_loop (\<lambda>v. 0 < v) [] vs"

definition uniqueNonEmptyStrings :: "string list \<Rightarrow> string list" where
  "uniqueNonEmptyStrings vs = unique_loop (\<lambda>v. v \<noteq> []) [] vs"

definition normalize_lists :: "scope \<Rightarrow> scope" where
  "normalize_lists s =
     (let siteIDs = uniquePositiveInt64s
            (sc_SiteIDs s @ (if 0 < sc_SiteID s then [sc_SiteID s] else []))
      in s\<lparr>sc_SiteIDs := siteIDs,
           sc_SiteID := (case siteIDs of [x] \<Rightarrow> x | _ \<Rightarrow> 0),
           sc_DeviceIdentifiers := uniqueNonEmptyStrings (sc_DeviceIdentifiers s),
           sc_BuildingIDs := uniquePositiveInt64s (sc_BuildingIDs s),
           sc_RackIDs := uniquePositiveInt64s (sc_RackIDs s),
           sc_GroupIDs := uniquePositiveInt64s (sc_GroupIDs s)\<rparr>)"

definition normalize_type :: "scope \<Rightarrow> scope_type" where
  "normalize_type s =
     (if sc_Type s = ScopeTypeWholeOrg then ScopeTypeWholeOrg
      else if hasTopologySelectors s then ScopeTypeMixed
      else if sc_SiteIDs s \<noteq> [] \<and> sc_DeviceIdentifiers s \<noteq> [] then ScopeTypeMixed
      else if 1 < length (sc_SiteIDs s) then ScopeTypeMixed
      else if length (sc_SiteIDs s) = 1 then ScopeTypeSite
      else if sc_DeviceIdentifiers s \<noteq> [] then ScopeTypeDeviceList
      else sc_Type s)"

definition normalizeScope :: "scope \<Rightarrow> scope" where
  "normalizeScope s = (let t = normalize_lists s in t\<lparr>sc_Type := normalize_type t\<rparr>)"

definition IsSiteOnlyScope :: "scope \<Rightarrow> bool" where
  "IsSiteOnlyScope s \<longleftrightarrow>
     (let t = normalizeScope s
      in sc_SiteIDs t \<noteq> [] \<and> sc_DeviceIdentifiers t = [] \<and> \<not> hasTopologySelectors t)"

definition isClosedLoopFullFleetStart :: "scope \<Rightarrow> event_mode \<Rightarrow> bool" where
  "isClosedLoopFullFleetStart s m \<longleftrightarrow>
     (let t = normalizeScope s
      in if m \<noteq> ModeFullFleet then False
         else if IsTopologyScope t then True
         else case sc_Type t of
                ScopeTypeWholeOrg \<Rightarrow> True
              | ScopeTypeSite \<Rightarrow> True
              | ScopeTypeMixed \<Rightarrow> IsSiteOnlyScope t
              | ScopeTypeDeviceList \<Rightarrow> False
              | ScopeTypeOther _ \<Rightarrow> False)"

section \<open>Resolution\<close>

definition resolveScope :: "scope \<Rightarrow> scope_error + list_candidates_params" where
  "resolveScope scope0 =
     (case validateScopeContract scope0 of
        Some e \<Rightarrow> Inl e
      | None \<Rightarrow>
          let s = normalizeScope scope0 in
          case sc_Type s of
            ScopeTypeWholeOrg \<Rightarrow> Inr no_filter
          | ScopeTypeSite \<Rightarrow>
              if length (sc_SiteIDs s) \<noteq> 1 then Inl SiteIDMissing
              else Inr (no_filter\<lparr>lc_SiteIDs := sc_SiteIDs s\<rparr>)
          | ScopeTypeDeviceList \<Rightarrow>
              if sc_DeviceIdentifiers s = [] then Inl DeviceIdentifiersEmpty
              else Inr (no_filter\<lparr>lc_DeviceIdentifiers := sc_DeviceIdentifiers s\<rparr>)
          | ScopeTypeMixed \<Rightarrow>
              if sc_SiteIDs s = [] \<and> sc_DeviceIdentifiers s = [] then
                if sc_BuildingIDs s \<noteq> [] then Inr (no_filter\<lparr>lc_BuildingIDs := sc_BuildingIDs s\<rparr>)
                else if sc_RackIDs s \<noteq> [] then Inr (no_filter\<lparr>lc_RackIDs := sc_RackIDs s\<rparr>)
                else if sc_GroupIDs s \<noteq> [] then Inr (no_filter\<lparr>lc_GroupIDs := sc_GroupIDs s\<rparr>)
                else Inl NoTerminalSelectors
              else Inr (no_filter\<lparr>lc_SiteIDs := sc_SiteIDs s,
                                 lc_DeviceIdentifiers := sc_DeviceIdentifiers s\<rparr>)
          | ScopeTypeOther t \<Rightarrow> Inl (UnrecognizedScopeType (ScopeTypeOther t)))"

definition ListCandidatesParamsForScope :: "scope \<Rightarrow> scope_error + list_candidates_params" where
  "ListCandidatesParamsForScope s = resolveScope s"

definition listCandidatesFilterHasTopology :: "list_candidates_params \<Rightarrow> bool" where
  "listCandidatesFilterHasTopology f \<longleftrightarrow>
     lc_BuildingIDs f \<noteq> [] \<or> lc_RackIDs f \<noteq> [] \<or> lc_GroupIDs f \<noteq> []"

text \<open>
  The store answers two questions: does a site belong to the organisation, and does a topology
  selection resolve. The second interface may be missing.
\<close>

fun check_sites ::
  "(int \<Rightarrow> int \<Rightarrow> scope_error + bool) \<Rightarrow> int \<Rightarrow> int list \<Rightarrow> scope_error option" where
  "check_sites siteBelongsToOrg orgID [] = None"
| "check_sites siteBelongsToOrg orgID (x # xs) =
     (case siteBelongsToOrg orgID x of
        Inl e \<Rightarrow> Some e
      | Inr False \<Rightarrow> Some (SiteNotFound x)
      | Inr True \<Rightarrow> check_sites siteBelongsToOrg orgID xs)"

definition resolveScopeForOrg ::
  "(int \<Rightarrow> int \<Rightarrow> scope_error + bool) \<Rightarrow>
   (list_candidates_params \<Rightarrow> scope_error option) option \<Rightarrow>
   int \<Rightarrow> scope \<Rightarrow> scope_error + list_candidates_params" where
  "resolveScopeForOrg siteBelongsToOrg topologyStore orgID s =
     (case resolveScope s of
        Inl e \<Rightarrow> Inl e
      | Inr filter0 \<Rightarrow>
          let f = filter0\<lparr>lc_OrgID := orgID\<rparr> in
          if lc_SiteIDs f \<noteq> [] then
            (case check_sites siteBelongsToOrg orgID (lc_SiteIDs f) of
               Some e \<Rightarrow> Inl e | None \<Rightarrow> Inr f)
          else if \<not> listCandidatesFilterHasTopology f then Inr f
          else case topologyStore of
                 None \<Rightarrow> Inl TopologyResolverMissing
               | Some resolve \<Rightarrow> (case resolve f of Some e \<Rightarrow> Inl e | None \<Rightarrow> Inr f))"

definition validateResolvedMinerCount :: "nat \<Rightarrow> bool" where
  "validateResolvedMinerCount count \<longleftrightarrow> count \<le> ScopeResolvedMinerMax"

section \<open>Lemmas\<close>

lemma set_unique_loop: "set (unique_loop keep seen vs) = {v \<in> set vs. keep v} - set seen"
  by (induction keep seen vs rule: unique_loop.induct) auto

lemma distinct_unique_loop: "distinct (unique_loop keep seen vs)"
  by (induction keep seen vs rule: unique_loop.induct) (auto simp: set_unique_loop)

lemma unique_loop_id:
  "distinct vs \<Longrightarrow> \<forall>v\<in>set vs. keep v \<Longrightarrow> set seen \<inter> set vs = {} \<Longrightarrow> unique_loop keep seen vs = vs"
  by (induction keep seen vs rule: unique_loop.induct) auto

lemma unique_lists [simp]:
  "set (uniquePositiveInt64s is) = {v \<in> set is. 0 < v}"
  "distinct (uniquePositiveInt64s is)"
  "set (uniqueNonEmptyStrings ss) = set ss - {[]}"
  "distinct (uniqueNonEmptyStrings ss)"
  by (auto simp: uniquePositiveInt64s_def uniqueNonEmptyStrings_def set_unique_loop
      distinct_unique_loop)

lemma unique_idem [simp]:
  "uniquePositiveInt64s (uniquePositiveInt64s is) = uniquePositiveInt64s is"
  "uniqueNonEmptyStrings (uniqueNonEmptyStrings ss) = uniqueNonEmptyStrings ss"
  unfolding uniquePositiveInt64s_def uniqueNonEmptyStrings_def
  by (auto intro!: unique_loop_id simp: set_unique_loop distinct_unique_loop)

lemma unique_empty_iff:
  "uniquePositiveInt64s is = [] \<longleftrightarrow> \<not> (\<exists>v\<in>set is. 0 < v)"
  "uniqueNonEmptyStrings ss = [] \<longleftrightarrow> set ss \<subseteq> {[]}"
  using unique_lists(1) [of "is"] unique_lists(3) [of ss] by (metis (no_types, lifting)
      empty_Collect_eq set_empty) (metis Diff_eq_empty_iff set_empty unique_lists(3))

lemma site_id_already_listed:
  fixes ys :: "int list"
  defines "l \<equiv> uniquePositiveInt64s ys"
  assumes "x = (case l of [y] \<Rightarrow> y | _ \<Rightarrow> 0)"
  shows "uniquePositiveInt64s (l @ (if 0 < x then [x] else [])) = l"
proof (cases l rule: remdups_adj.cases)
  case (2 y)
  then have "0 < y"
    using unique_lists(1) [of ys] unfolding l_def [symmetric] by auto
  with 2 assms(2) show ?thesis by (simp add: uniquePositiveInt64s_def)
qed (use assms(2) unique_idem(1) [of ys, folded l_def] in auto)

lemma normalize_lists_idem: "normalize_lists (normalize_lists s) = normalize_lists s"
  by (simp add: normalize_lists_def Let_def site_id_already_listed cong: if_cong
      split del: if_split)

lemma normalize_type_set [simp]: "normalize_type (s\<lparr>sc_Type := normalize_type s\<rparr>) = normalize_type s"
  by (auto simp: normalize_type_def hasTopologySelectors_def)

lemma normalize_lists_type [simp]:
  "normalize_lists (s\<lparr>sc_Type := t\<rparr>) = (normalize_lists s)\<lparr>sc_Type := t\<rparr>"
  by (simp add: normalize_lists_def Let_def)

lemma normalizeScope_idem [simp]: "normalizeScope (normalizeScope s) = normalizeScope s"
  by (simp add: normalizeScope_def Let_def normalize_lists_idem)

lemma normalizeScope_simps [simp]:
  "sc_SiteIDs (normalizeScope s) = uniquePositiveInt64s
    (sc_SiteIDs s @ (if 0 < sc_SiteID s then [sc_SiteID s] else []))"
  "sc_DeviceIdentifiers (normalizeScope s) = uniqueNonEmptyStrings (sc_DeviceIdentifiers s)"
  "sc_BuildingIDs (normalizeScope s) = uniquePositiveInt64s (sc_BuildingIDs s)"
  "sc_RackIDs (normalizeScope s) = uniquePositiveInt64s (sc_RackIDs s)"
  "sc_GroupIDs (normalizeScope s) = uniquePositiveInt64s (sc_GroupIDs s)"
  "sc_Type (normalizeScope s) = normalize_type (normalize_lists s)"
  by (simp_all add: normalizeScope_def normalize_lists_def Let_def)

text \<open>A valid scope names its targets in exactly one way.\<close>

definition one_selector :: "scope \<Rightarrow> bool" where
  "one_selector s \<longleftrightarrow> scopeSelectorTypeCount s = 1 \<and> 0 \<le> sc_SiteID s \<and>
     (\<forall>x \<in> set (sc_SiteIDs s) \<union> set (sc_BuildingIDs s) \<union> set (sc_RackIDs s) \<union> set (sc_GroupIDs s).
       0 < x)"

lemma valid_scope: "validateScopeContract s = None \<Longrightarrow> one_selector s"
  by (auto simp: validateScopeContract_def one_selector_def hasNonPositiveInt64_def list_ex_iff not_le
      split: option.splits if_splits)

lemma scopeSelectorTypeCount_one:
  assumes "scopeSelectorTypeCount s = 1"
  obtains (org) "sc_Type s = ScopeTypeWholeOrg" "sc_SiteID s = 0" "sc_SiteIDs s = []"
      "sc_BuildingIDs s = []" "sc_RackIDs s = []" "sc_GroupIDs s = []" "sc_DeviceIdentifiers s = []"
  | (sites) "sc_Type s \<noteq> ScopeTypeWholeOrg" "sc_SiteID s \<noteq> 0 \<or> sc_SiteIDs s \<noteq> []"
      "sc_BuildingIDs s = []" "sc_RackIDs s = []" "sc_GroupIDs s = []" "sc_DeviceIdentifiers s = []"
  | (buildings) "sc_Type s \<noteq> ScopeTypeWholeOrg" "sc_SiteID s = 0" "sc_SiteIDs s = []"
      "sc_BuildingIDs s \<noteq> []" "sc_RackIDs s = []" "sc_GroupIDs s = []" "sc_DeviceIdentifiers s = []"
  | (racks) "sc_Type s \<noteq> ScopeTypeWholeOrg" "sc_SiteID s = 0" "sc_SiteIDs s = []"
      "sc_BuildingIDs s = []" "sc_RackIDs s \<noteq> []" "sc_GroupIDs s = []" "sc_DeviceIdentifiers s = []"
  | (groups) "sc_Type s \<noteq> ScopeTypeWholeOrg" "sc_SiteID s = 0" "sc_SiteIDs s = []"
      "sc_BuildingIDs s = []" "sc_RackIDs s = []" "sc_GroupIDs s \<noteq> []" "sc_DeviceIdentifiers s = []"
  | (devices) "sc_Type s \<noteq> ScopeTypeWholeOrg" "sc_SiteID s = 0" "sc_SiteIDs s = []"
      "sc_BuildingIDs s = []" "sc_RackIDs s = []" "sc_GroupIDs s = []" "sc_DeviceIdentifiers s \<noteq> []"
  using assms by (simp add: scopeSelectorTypeCount_def split: if_splits)

text \<open>What the filter of a valid scope is, by the kind of selector.\<close>

lemma length_eq_1: "length xs = 1 \<longleftrightarrow> (\<exists>x. xs = [x])"
  by (cases xs) auto

lemma normalize_type_lists:
  "normalize_type (normalize_lists s) =
     (if sc_Type s = ScopeTypeWholeOrg then ScopeTypeWholeOrg
      else if hasTopologySelectors (normalizeScope s) then ScopeTypeMixed
      else if sc_SiteIDs (normalizeScope s) \<noteq> [] \<and> sc_DeviceIdentifiers (normalizeScope s) \<noteq> []
      then ScopeTypeMixed
      else if 1 < length (sc_SiteIDs (normalizeScope s)) then ScopeTypeMixed
      else if length (sc_SiteIDs (normalizeScope s)) = 1 then ScopeTypeSite
      else if sc_DeviceIdentifiers (normalizeScope s) \<noteq> [] then ScopeTypeDeviceList
      else sc_Type s)"
  by (simp add: normalize_type_def normalize_lists_def normalizeScope_def hasTopologySelectors_def
      Let_def)

lemma resolve_org:
  assumes "resolveScope s = Inr f" "sc_Type s = ScopeTypeWholeOrg"
  shows "f = no_filter"
  using assms by (auto simp: resolveScope_def Let_def normalize_type_lists split: option.splits)

lemma resolve_lists:
  assumes "resolveScope s = Inr f" "sc_Type s \<noteq> ScopeTypeWholeOrg"
    and "scopeSelectorTypeCount s = 1"
  shows "f = no_filter\<lparr>lc_SiteIDs := sc_SiteIDs (normalizeScope s),
      lc_BuildingIDs := sc_BuildingIDs (normalizeScope s),
      lc_RackIDs := sc_RackIDs (normalizeScope s), lc_GroupIDs := sc_GroupIDs (normalizeScope s),
      lc_DeviceIdentifiers := sc_DeviceIdentifiers (normalizeScope s)\<rparr>"
  using assms(3)
proof (cases rule: scopeSelectorTypeCount_one)
  case org
  with assms(2) show ?thesis by simp
qed (use assms(1) in \<open>auto simp: resolveScope_def Let_def normalize_type_lists hasTopologySelectors_def
       no_filter_def uniquePositiveInt64s_def uniqueNonEmptyStrings_def
       split: option.splits if_splits scope_type.splits\<close>)

lemma resolve_valid: "resolveScope s = Inr f \<Longrightarrow> one_selector s"
  by (auto simp: resolveScope_def intro: valid_scope split: option.splits)

lemma resolve_nonempty:
  assumes "resolveScope s = Inr f" "sc_Type s \<noteq> ScopeTypeWholeOrg"
  shows "lc_SiteIDs f \<noteq> [] \<or> lc_BuildingIDs f \<noteq> [] \<or> lc_RackIDs f \<noteq> [] \<or> lc_GroupIDs f \<noteq> [] \<or>
    lc_DeviceIdentifiers f \<noteq> []"
  using assms
  by (auto simp: resolveScope_def Let_def normalize_type_lists no_filter_def
      split: option.splits if_splits scope_type.splits)

lemma closed_loop_iff:
  assumes "resolveScope s = Inr f" "scopeSelectorTypeCount s = 1"
  shows "isClosedLoopFullFleetStart s ModeFullFleet \<longleftrightarrow> lc_DeviceIdentifiers f = []"
  using assms(2)
proof (cases rule: scopeSelectorTypeCount_one)
  case org
  with assms(1) show ?thesis
    by (auto simp: isClosedLoopFullFleetStart_def Let_def normalize_type_lists IsTopologyScope_def
        no_filter_def dest: resolve_org)
qed (use assms(1) in \<open>auto simp: resolveScope_def isClosedLoopFullFleetStart_def IsSiteOnlyScope_def
       IsTopologyScope_def hasTopologySelectors_def Let_def normalize_type_lists no_filter_def
       uniquePositiveInt64s_def uniqueNonEmptyStrings_def
       split: option.splits if_splits scope_type.splits\<close>)

section \<open>Properties\<close>

text \<open>
  C35. A scope is never widened. A request that resolves to a filter either asked for the whole
  organisation, and then the filter is empty, or the filter has exactly one non-empty selector and
  each of its selectors holds exactly the identifiers of the request, without repetitions and
  without the empty string. A full-fleet start is closed-loop exactly when no explicit miners are
  named.
\<close>
theorem resolve_scope_never_widens:
  "case resolveScope s of
     Inl e \<Rightarrow> True
   | Inr f \<Rightarrow>
       (if sc_Type s = ScopeTypeWholeOrg then f = no_filter
        else length (filter (\<lambda>b. b) [lc_SiteIDs f \<noteq> [], lc_BuildingIDs f \<noteq> [], lc_RackIDs f \<noteq> [],
               lc_GroupIDs f \<noteq> [], lc_DeviceIdentifiers f \<noteq> []]) = 1) \<and>
       set (lc_SiteIDs f) = set (sc_SiteIDs s) \<union> (if sc_SiteID s = 0 then {} else {sc_SiteID s}) \<and>
       set (lc_BuildingIDs f) = set (sc_BuildingIDs s) \<and> set (lc_RackIDs f) = set (sc_RackIDs s) \<and>
       set (lc_GroupIDs f) = set (sc_GroupIDs s) \<and>
       set (lc_DeviceIdentifiers f) = set (sc_DeviceIdentifiers s) - {[]} \<and>
       distinct (lc_SiteIDs f) \<and> distinct (lc_DeviceIdentifiers f) \<and>
       (isClosedLoopFullFleetStart s ModeFullFleet \<longleftrightarrow> lc_DeviceIdentifiers f = [])"
proof (cases "resolveScope s")
  case (Inl e)
  then show ?thesis by simp
next
  case (Inr f)
  have one: "one_selector s" and count: "scopeSelectorTypeCount s = 1"
    using resolve_valid [OF Inr] by (simp_all add: one_selector_def)
  note closed = closed_loop_iff [OF Inr count]
  show ?thesis
  proof (cases "sc_Type s = ScopeTypeWholeOrg")
    case True
    from count True have "sc_SiteID s = 0 \<and> sc_SiteIDs s = [] \<and> sc_BuildingIDs s = [] \<and>
        sc_RackIDs s = [] \<and> sc_GroupIDs s = [] \<and> sc_DeviceIdentifiers s = []"
      by (cases rule: scopeSelectorTypeCount_one) simp_all
    with Inr True closed resolve_org [OF Inr True] show ?thesis
      by (simp add: no_filter_def)
  next
    case False
    note f = resolve_lists [OF Inr False count] and ne = resolve_nonempty [OF Inr False]
    have sets: "{v \<in> set (sc_SiteIDs s). 0 < v} = set (sc_SiteIDs s)"
      "{v \<in> set (sc_BuildingIDs s). 0 < v} = set (sc_BuildingIDs s)"
      "{v \<in> set (sc_RackIDs s). 0 < v} = set (sc_RackIDs s)"
      "{v \<in> set (sc_GroupIDs s). 0 < v} = set (sc_GroupIDs s)" "0 < sc_SiteID s \<longleftrightarrow> sc_SiteID s \<noteq> 0"
      using one by (auto simp: one_selector_def)
    from count have "length (filter (\<lambda>b. b) [lc_SiteIDs f \<noteq> [], lc_BuildingIDs f \<noteq> [],
        lc_RackIDs f \<noteq> [], lc_GroupIDs f \<noteq> [], lc_DeviceIdentifiers f \<noteq> []]) = 1"
      by (cases rule: scopeSelectorTypeCount_one)
        (use ne in \<open>auto simp: f uniquePositiveInt64s_def uniqueNonEmptyStrings_def no_filter_def\<close>)
    with Inr False closed sets show ?thesis by (auto simp: f)
  qed
qed

end
