(* ===== verification/Curtail_Service.thy ===== *)
theory Curtail_Service
  imports Curtail_Selector Curtail_Scope
begin

text \<open>
  The selection pipeline of the curtailment service
  (\<open>server/internal/domain/curtailment/service.go\<close>): the classifier that decides which miners may
  be considered at all, the choice of the mode, the pipeline shared by Preview and Start, the target
  rows written for a plan, and the small rules of the event life cycle (start state, batch sizes,
  minimum duration). The store is a record of functions. Counters are Go \<open>int32\<close>; they count
  candidates, of which the pipeline admits at most 10000, so they do not overflow.
\<close>

section \<open>classifyCandidates\<close>

record classify_opts =
  co_IncludeMaintenance :: bool
  co_ActiveEventDevices :: "string list"
  co_CooldownDevices :: "string list"
  co_CandidateMinPowerW :: int

definition no_detail :: insufficient_detail where
  "no_detail = \<lparr>id_AvailableKW = Fin 0, id_RequestedKW = Fin 0, id_ToleranceKW = Fin 0,
     id_CandidateMinPowerW = 0, id_ExcludedBelowThreshold = 0, id_ExcludedOffline = 0,
     id_ExcludedPhantomLoad = 0, id_ExcludedDeadMonitor = 0, id_ExcludedMaintenance = 0,
     id_ExcludedUpdating = 0, id_ExcludedRebootRequired = 0, id_ExcludedStale = 0,
     id_ExcludedNonActionable = 0, id_ExcludedPairing = 0, id_ExcludedCooldown = 0,
     id_ExcludedCapabilityMiss = 0, id_ExcludedActiveEvent = 0\<rparr>"

text \<open>The switch on the device status; \<open>None\<close> falls through to the telemetry checks.\<close>

definition status_skip :: "bool \<Rightarrow> model_candidate \<Rightarrow> skip_reason option" where
  "status_skip includeMaintenance c =
     (if mc_DeviceStatus c = [] then Some SkipStaleTelemetry
      else if mc_DeviceStatus c = ''UPDATING'' then Some SkipUpdating
      else if mc_DeviceStatus c = ''REBOOT_REQUIRED'' then Some SkipRebootRequired
      else if mc_DeviceStatus c = ''OFFLINE'' then Some SkipUnreachableResidualLoad
      else if mc_DeviceStatus c = deviceStatusInactive then Some SkipNonActionableStatus
      else if mc_DeviceStatus c = ''MAINTENANCE'' then
        (if \<not> includeMaintenance then Some SkipMaintenance else None)
      else if mc_DeviceStatus c = deviceStatusNeedsMiningPool then
        (if \<not> hasPositivePowerSample c then Some SkipStaleTelemetry else None)
      else None)"

definition classify_skip :: "classify_opts \<Rightarrow> model_candidate \<Rightarrow> skip_reason option" where
  "classify_skip opts c =
     (if mc_DeviceIdentifier c \<in> set (co_ActiveEventDevices opts) then Some SkipActiveEvent
      else if mc_PairingStatus c \<noteq> ''PAIRED'' then Some SkipPairing
      else if no_driver c then Some SkipCurtailFullUnsupported
      else case status_skip (co_IncludeMaintenance opts) c of
             Some r \<Rightarrow> Some r
           | None \<Rightarrow>
               if mc_LatestMetricsAt c = None then Some SkipStaleTelemetry
               else if \<not> hasNonNegativeFiniteFloat (mc_LatestPowerW c) \<or>
                       mc_DeviceStatus c \<noteq> deviceStatusNeedsMiningPool \<and>
                       \<not> hasNonNegativeFiniteFloat (mc_LatestHashRateHS c)
               then Some SkipStaleTelemetry
               else if mc_DeviceIdentifier c \<in> set (co_CooldownDevices opts) then Some SkipCooldown
               else None)"

text \<open>The counter of the summary that goes with a reason.\<close>

definition count_skip :: "skip_reason \<Rightarrow> insufficient_detail \<Rightarrow> insufficient_detail" where
  "count_skip r d =
     (case r of
        SkipActiveEvent \<Rightarrow> d\<lparr>id_ExcludedActiveEvent := id_ExcludedActiveEvent d + 1\<rparr>
      | SkipPairing \<Rightarrow> d\<lparr>id_ExcludedPairing := id_ExcludedPairing d + 1\<rparr>
      | SkipCurtailFullUnsupported \<Rightarrow>
          d\<lparr>id_ExcludedCapabilityMiss := id_ExcludedCapabilityMiss d + 1\<rparr>
      | SkipStaleTelemetry \<Rightarrow> d\<lparr>id_ExcludedStale := id_ExcludedStale d + 1\<rparr>
      | SkipUpdating \<Rightarrow> d\<lparr>id_ExcludedUpdating := id_ExcludedUpdating d + 1\<rparr>
      | SkipRebootRequired \<Rightarrow> d\<lparr>id_ExcludedRebootRequired := id_ExcludedRebootRequired d + 1\<rparr>
      | SkipUnreachableResidualLoad \<Rightarrow> d\<lparr>id_ExcludedOffline := id_ExcludedOffline d + 1\<rparr>
      | SkipNonActionableStatus \<Rightarrow>
          d\<lparr>id_ExcludedNonActionable := id_ExcludedNonActionable d + 1\<rparr>
      | SkipMaintenance \<Rightarrow> d\<lparr>id_ExcludedMaintenance := id_ExcludedMaintenance d + 1\<rparr>
      | SkipCooldown \<Rightarrow> d\<lparr>id_ExcludedCooldown := id_ExcludedCooldown d + 1\<rparr>
      | _ \<Rightarrow> d)"

definition to_input :: "model_candidate \<Rightarrow> candidate_input" where
  "to_input c =
     \<lparr>ci_DeviceIdentifier = mc_DeviceIdentifier c, ci_PowerW = derefFloat (mc_LatestPowerW c),
      ci_HashRateHS = statusAuthoritativeHashRateHS c,
      ci_AvgEfficiencyJH = (if \<not> isFiniteFloat (mc_AvgEfficiencyJH c) then None
                            else mc_AvgEfficiencyJH c)\<rparr>"

record classified =
  cl_eligible :: "candidate_input list"
  cl_skipped :: "skipped_device list"
  cl_summary :: insufficient_detail

definition classify_step :: "classify_opts \<Rightarrow> classified \<Rightarrow> model_candidate \<Rightarrow> classified" where
  "classify_step opts k c =
     (case classify_skip opts c of
        Some r \<Rightarrow>
          k\<lparr>cl_skipped := cl_skipped k @
               [\<lparr>sk_DeviceIdentifier = mc_DeviceIdentifier c, sk_Reason = r\<rparr>],
             cl_summary := count_skip r (cl_summary k)\<rparr>
      | None \<Rightarrow> k\<lparr>cl_eligible := cl_eligible k @ [to_input c]\<rparr>)"

text \<open>A nil candidate is dereferenced: the loop panics.\<close>

fun classify_loop ::
  "classify_opts \<Rightarrow> classified \<Rightarrow> model_candidate option list \<Rightarrow> classified option" where
  "classify_loop opts k [] = Some k"
| "classify_loop opts k (None # cs) = None"
| "classify_loop opts k (Some c # cs) = classify_loop opts (classify_step opts k c) cs"

definition classifyCandidates ::
  "model_candidate option list \<Rightarrow> classify_opts \<Rightarrow> classified option" where
  "classifyCandidates cands opts =
     classify_loop opts
       \<lparr>cl_eligible = [], cl_skipped = [],
        cl_summary = no_detail\<lparr>id_CandidateMinPowerW := co_CandidateMinPowerW opts\<rparr>\<rparr> cands"

section \<open>runSelector\<close>

definition buildMode ::
  "event_mode \<Rightarrow> f64 \<Rightarrow> f64 \<Rightarrow> insufficient_detail \<Rightarrow> mode_error + mode_value" where
  "buildMode m targetKW toleranceKW summary =
     (if m = ModeFullFleet then Inr FullFleet
      else map_sum id FixedKw (NewFixedKw targetKW toleranceKW summary))"

definition candidateDeviceIdentifiers :: "model_candidate option list \<Rightarrow> string list" where
  "candidateDeviceIdentifiers cands =
     filter (\<lambda>d. d \<noteq> []) (map mc_DeviceIdentifier (List.map_filter id cands))"

text \<open>\<open>None\<close> is the panic on a nil candidate.\<close>

definition missingDeviceIdentifiers ::
  "string list \<Rightarrow> model_candidate option list \<Rightarrow> string list option" where
  "missingDeviceIdentifiers requested cands =
     (if requested = [] then Some []
      else if None \<in> set cands then None
      else Some (filter (\<lambda>d. d \<notin> mc_DeviceIdentifier ` the ` set cands) requested))"

record org_config =
  oc_OrgID :: int
  oc_MaxDurationDefaultSec :: int
  oc_CandidateMinPowerW :: int

record preview_request =
  pr_OrgID :: int
  pr_Scope :: scope
  pr_Mode :: event_mode
  pr_Strategy :: string
  pr_Level :: string
  pr_Priority :: string
  pr_TargetKW :: f64
  pr_ToleranceKW :: f64
  pr_IncludeMaintenance :: bool
  pr_ForceIncludeMaintenance :: bool
  pr_ForceIncludeAllPairedMiners :: bool
  pr_CandidateMinPowerWOverride :: "int option"
  pr_PostEventCooldownSec :: int

record cooldown_params =
  cp_OrgID :: int
  cp_CooldownSec :: int
  cp_DeviceIdentifiers :: "string list"

datatype select_error =
    SelectScope scope_error
  | SelectStore string
  | TooManyMiners
  | DevicesNotFound "string list"
  | InvalidModeParams mode_error

record curtailment_store =
  st_SiteBelongsToOrg :: "int \<Rightarrow> int \<Rightarrow> scope_error + bool"
  st_ResolveTopology :: "(list_candidates_params \<Rightarrow> scope_error option) option"
  st_GetOrgConfig :: "int \<Rightarrow> select_error + org_config"
  st_ListActive :: "int \<Rightarrow> select_error + string list"
  st_ListCandidates :: "list_candidates_params \<Rightarrow> select_error + model_candidate option list"
  st_ListRecentlyResolved :: "cooldown_params \<Rightarrow> select_error + string list"

text \<open>The parts of the pipeline, each ending in an error or handing on to the next.\<close>

definition cooldown_set ::
  "curtailment_store \<Rightarrow> preview_request \<Rightarrow> model_candidate option list \<Rightarrow>
   select_error + string list" where
  "cooldown_set st req cands =
     (if 0 < pr_PostEventCooldownSec req \<and> cands \<noteq> []
      then st_ListRecentlyResolved st
             \<lparr>cp_OrgID = pr_OrgID req, cp_CooldownSec = pr_PostEventCooldownSec req,
              cp_DeviceIdentifiers = candidateDeviceIdentifiers cands\<rparr>
      else Inr [])"

definition select_operator_sized ::
  "curtailment_store \<Rightarrow> preview_request \<Rightarrow> int \<Rightarrow> string list \<Rightarrow> model_candidate option list \<Rightarrow>
   (select_error + plan) option" where
  "select_operator_sized st req minPowerW active cands =
     (case cooldown_set st req cands of
        Inl e \<Rightarrow> Some (Inl e)
      | Inr cooled \<Rightarrow>
          (case classifyCandidates cands
                  \<lparr>co_IncludeMaintenance = pr_IncludeMaintenance req \<and> pr_ForceIncludeMaintenance req,
                   co_ActiveEventDevices = active, co_CooldownDevices = cooled,
                   co_CandidateMinPowerW = minPowerW\<rparr> of
             None \<Rightarrow> None
           | Some k \<Rightarrow>
               Some (case buildMode (pr_Mode req) (pr_TargetKW req) (pr_ToleranceKW req)
                            (cl_summary k) of
                       Inl e \<Rightarrow> Inl (InvalidModeParams e)
                     | Inr m \<Rightarrow> Inr (BuildPlan (cl_eligible k) (cl_skipped k) minPowerW m))))"

definition select_from ::
  "curtailment_store \<Rightarrow> preview_request \<Rightarrow> list_candidates_params \<Rightarrow> int \<Rightarrow> string list \<Rightarrow>
   model_candidate option list \<Rightarrow> (select_error + plan) option" where
  "select_from st req f minPowerW active cands =
     (if \<not> validateResolvedMinerCount (length cands) then Some (Inl TooManyMiners)
      else case missingDeviceIdentifiers (lc_DeviceIdentifiers f) cands of
             None \<Rightarrow> None
           | Some missing \<Rightarrow>
               if missing \<noteq> [] then Some (Inl (DevicesNotFound missing))
               else if pr_ForceIncludeAllPairedMiners req
               then Some (Inr (BuildAllPairedPolicyPlan cands active
                      (pr_IncludeMaintenance req \<and> pr_ForceIncludeMaintenance req) minPowerW))
               else select_operator_sized st req minPowerW active cands)"

definition runSelector ::
  "curtailment_store \<Rightarrow> preview_request \<Rightarrow> (select_error + plan \<times> int \<times> org_config) option" where
  "runSelector st req =
     (case resolveScopeForOrg (st_SiteBelongsToOrg st) (st_ResolveTopology st) (pr_OrgID req)
             (pr_Scope req) of
        Inl e \<Rightarrow> Some (Inl (SelectScope e))
      | Inr f \<Rightarrow>
          (case st_GetOrgConfig st (pr_OrgID req) of
             Inl e \<Rightarrow> Some (Inl e)
           | Inr orgConfig \<Rightarrow>
               let minPowerW = (case pr_CandidateMinPowerWOverride req of
                                  None \<Rightarrow> oc_CandidateMinPowerW orgConfig | Some w \<Rightarrow> w)
               in case st_ListActive st (pr_OrgID req) of
                    Inl e \<Rightarrow> Some (Inl e)
                  | Inr active \<Rightarrow>
                      (case st_ListCandidates st
                              (f\<lparr>lc_ResultLimit := int ScopeResolvedMinerMax + 1\<rparr>) of
                         Inl e \<Rightarrow> Some (Inl e)
                       | Inr cands \<Rightarrow>
                           map_option (map_sum id (\<lambda>p. (p, minPowerW, orgConfig)))
                             (select_from st req f minPowerW active cands))))"

definition effectivePostEventCooldownSec :: "preview_request \<Rightarrow> int" where
  "effectivePostEventCooldownSec req =
     (if pr_Priority req = ''EMERGENCY'' then 0 else pr_PostEventCooldownSec req)"

section \<open>Target rows and life-cycle rules\<close>

datatype event_state =
    EventStatePending | EventStateActive | EventStateRestoring | EventStateCompleted
  | EventStateCompletedWithFailures | EventStateCancelled | EventStateFailed

definition IsTerminal :: "event_state \<Rightarrow> bool" where
  "IsTerminal s \<longleftrightarrow> s \<in> {EventStateCompleted, EventStateCompletedWithFailures,
     EventStateCancelled, EventStateFailed}"

record insert_target_params =
  it_DeviceIdentifier :: string
  it_TargetType :: string
  it_State :: target_state
  it_DesiredState :: string
  it_BaselinePowerW :: "f64 option"
  it_LastError :: "string option"

definition target_row :: "event_mode \<Rightarrow> int \<Rightarrow> selected_device \<Rightarrow> insert_target_params" where
  "target_row m minPowerW d =
     \<lparr>it_DeviceIdentifier = se_DeviceIdentifier d, it_TargetType = ''miner'',
      it_State = (if se_TargetState d = TargetStateNone then TargetStatePending
                  else se_TargetState d),
      it_DesiredState = ''curtailed'',
      it_BaselinePowerW =
        (if shouldPersistBaselinePowerW m (se_PowerW d) minPowerW
              (fl_less (Fin 0) (se_HashRateHS d))
         then Some (se_PowerW d) else None),
      it_LastError = (if se_LastError d = [] then None else Some (se_LastError d))\<rparr>"

definition BuildInsertTargetParams ::
  "selected_device list \<Rightarrow> event_mode \<Rightarrow> int \<Rightarrow> insert_target_params list" where
  "BuildInsertTargetParams selected m minPowerW = map (target_row m minPowerW) selected"

definition BuildFullFleetAdmissionTargets ::
  "model_candidate option list \<Rightarrow> bool \<Rightarrow> int \<Rightarrow>
   (insert_target_params list \<times> skipped_device list) option" where
  "BuildFullFleetAdmissionTargets cands includeMaintenance minPowerW =
     map_option
       (\<lambda>k. let p = BuildPlan (cl_eligible k) (cl_skipped k) minPowerW FullFleet
            in (BuildInsertTargetParams (pl_Selected p) ModeFullFleet minPowerW, pl_Skipped p))
       (classifyCandidates cands
          \<lparr>co_IncludeMaintenance = includeMaintenance, co_ActiveEventDevices = [],
           co_CooldownDevices = [], co_CandidateMinPowerW = minPowerW\<rparr>)"

definition eventStartState :: "scope \<Rightarrow> event_mode \<Rightarrow> nat \<Rightarrow> event_state" where
  "eventStartState s m targetCount =
     (if isClosedLoopFullFleetStart s m then EventStateActive
      else if m = ModeFullFleet \<and> targetCount = 0 then EventStateCompleted
      else EventStatePending)"

text \<open>The state and the target rows that Start persists; an unset mode is fixed-kW.\<close>

definition insert_mode :: "event_mode \<Rightarrow> event_mode" where
  "insert_mode m = (if m = ModeOther [] then ModeFixedKw else m)"

definition insert_state :: "preview_request \<Rightarrow> plan \<Rightarrow> event_state" where
  "insert_state req p =
     (if pr_ForceIncludeAllPairedMiners req \<and>
         (pl_Selected p = [] \<or> pl_UnavailableTargetCount p = length (pl_Selected p))
      then EventStatePending
      else eventStartState (normalizeScope (pr_Scope req)) (insert_mode (pr_Mode req))
             (length (pl_Selected p)))"

definition insert_targets :: "preview_request \<Rightarrow> plan \<Rightarrow> int \<Rightarrow> insert_target_params list" where
  "insert_targets req p minPowerW =
     (if \<not> isClosedLoopFullFleetStart (normalizeScope (pr_Scope req)) (insert_mode (pr_Mode req))
         \<or> pr_ForceIncludeAllPairedMiners req
      then BuildInsertTargetParams (pl_Selected p) (insert_mode (pr_Mode req)) minPowerW
      else [])"

abbreviation RestoreBatchSizeMax :: int where "RestoreBatchSizeMax \<equiv> 10000"

definition ComputeEffectiveBatchSize :: "int \<Rightarrow> int \<Rightarrow> int" where
  "ComputeEffectiveBatchSize restoreBatchSize nonTerminalCount =
     (if restoreBatchSize \<le> 0 then
        (if nonTerminalCount \<le> 0 then 0
         else if RestoreBatchSizeMax < nonTerminalCount then RestoreBatchSizeMax
         else nonTerminalCount)
      else restoreBatchSize)"

text \<open>\<open>0.01\<close> is the \<open>float64\<close> nearest to it; the product of an \<open>int32\<close> with it is finite.\<close>

definition hundredth :: rat where
  "hundredth = (case rnd (1 / 100) of Fin q \<Rightarrow> q | _ \<Rightarrow> 0)"

definition fl_ceil :: "f64 \<Rightarrow> int" where
  "fl_ceil x = (case x of Fin q \<Rightarrow> \<lceil>q\<rceil> | _ \<Rightarrow> 0)"

definition adaptiveManualCurtailBatchSize :: "int \<Rightarrow> int" where
  "adaptiveManualCurtailBatchSize selectedCount =
     (if selectedCount \<le> 0 then 0
      else let base = fl_ceil (fl_scale (fl_of_int selectedCount) hundredth)
           in if base < 10 then 10 else if 100 < base then 100 else base)"

definition defaultManualCurtailBatchSize :: "int \<Rightarrow> int" where
  "defaultManualCurtailBatchSize selectedCount =
     (let n = adaptiveManualCurtailBatchSize selectedCount in if n \<le> 0 then 10 else n)"

record curtail_event =
  ev_State :: event_state
  ev_MinCurtailedDurationSec :: int
  ev_StartedAt :: "gotime option"

text \<open>\<open>True\<close> is a nil error.\<close>

definition checkMinCurtailedDurationGate :: "curtail_event \<Rightarrow> bool \<Rightarrow> gotime \<Rightarrow> bool" where
  "checkMinCurtailedDurationGate ev force now =
     (if force then True
      else if ev_State ev \<noteq> EventStateActive then True
      else case ev_StartedAt ev of
             None \<Rightarrow> True
           | Some t \<Rightarrow>
               if ev_MinCurtailedDurationSec ev \<le> 0 then True
               else ev_MinCurtailedDurationSec ev * second \<le> time_sub now t)"

section \<open>Lemmas\<close>

abbreviation known :: "'a option list \<Rightarrow> 'a list" where
  "known xs \<equiv> List.map_filter id xs"

lemma set_known: "set (known xs) = {x. Some x \<in> set xs}"
  by (induction xs) (auto simp: map_filter_simps split: option.splits)

definition classify_record :: "classify_opts \<Rightarrow> model_candidate \<Rightarrow> skipped_device" where
  "classify_record opts c = \<lparr>sk_DeviceIdentifier = mc_DeviceIdentifier c,
     sk_Reason = the (classify_skip opts c)\<rparr>"

definition excluded_total :: "insufficient_detail \<Rightarrow> int" where
  "excluded_total d = id_ExcludedOffline d + id_ExcludedMaintenance d + id_ExcludedUpdating d +
     id_ExcludedRebootRequired d + id_ExcludedStale d + id_ExcludedNonActionable d +
     id_ExcludedPairing d + id_ExcludedCooldown d + id_ExcludedCapabilityMiss d +
     id_ExcludedActiveEvent d"

lemma status_skip_reasons:
  "status_skip inc c = Some r \<Longrightarrow> r \<in> {SkipStaleTelemetry, SkipUpdating, SkipRebootRequired,
    SkipUnreachableResidualLoad, SkipNonActionableStatus, SkipMaintenance}"
  by (simp add: status_skip_def split: if_splits)

lemma classify_skip_reasons:
  "classify_skip opts c = Some r \<Longrightarrow> r \<in> {SkipStaleTelemetry, SkipUpdating, SkipRebootRequired,
    SkipUnreachableResidualLoad, SkipNonActionableStatus, SkipMaintenance, SkipActiveEvent,
    SkipPairing, SkipCurtailFullUnsupported, SkipCooldown}"
  by (auto simp: classify_skip_def dest: status_skip_reasons split: if_splits option.splits)

lemma excluded_total_count:
  "classify_skip opts c = Some r \<Longrightarrow> excluded_total (count_skip r d) = excluded_total d + 1"
  by (drule classify_skip_reasons) (auto simp: excluded_total_def count_skip_def)

lemma classify_loop_None: "classify_loop opts k cs = None \<longleftrightarrow> None \<in> set cs"
  by (induction opts k cs rule: classify_loop.induct) auto

lemma to_input_finite: "ci_AvgEfficiencyJH (to_input c) \<notin> {Some NaN, Some PosInf, Some NegInf}"
  by (auto simp: to_input_def isFiniteFloat_def is_nan_def is_inf_def split: option.splits)

text \<open>What an admitted miner is known to be.\<close>

definition curtailable :: "classify_opts \<Rightarrow> model_candidate \<Rightarrow> bool" where
  "curtailable opts c \<longleftrightarrow>
     mc_DeviceIdentifier c \<notin> set (co_ActiveEventDevices opts) \<union> set (co_CooldownDevices opts) \<and>
     mc_PairingStatus c = ''PAIRED'' \<and> \<not> no_driver c \<and> mc_LatestMetricsAt c \<noteq> None \<and>
     hasNonNegativeFiniteFloat (mc_LatestPowerW c) \<and>
     mc_DeviceStatus c \<notin>
       {[], ''UPDATING'', ''REBOOT_REQUIRED'', ''OFFLINE'', deviceStatusInactive} \<and>
     (if mc_DeviceStatus c = deviceStatusNeedsMiningPool then hasPositivePowerSample c
      else hasNonNegativeFiniteFloat (mc_LatestHashRateHS c)) \<and>
     (if mc_DeviceStatus c = ''MAINTENANCE'' then co_IncludeMaintenance opts else True)"

lemma classify_skip_None_iff: "classify_skip opts c = None \<longleftrightarrow> curtailable opts c"
  unfolding classify_skip_def curtailable_def status_skip_def
  by (auto split: if_splits)

lemma classify_loop_Some:
  "classify_loop opts k cs = Some k' \<Longrightarrow>
    cl_eligible k' = cl_eligible k @ map to_input (filter (curtailable opts) (known cs)) \<and>
    cl_skipped k' = cl_skipped k @
      map (classify_record opts) (filter (\<lambda>c. \<not> curtailable opts c) (known cs)) \<and>
    excluded_total (cl_summary k') = excluded_total (cl_summary k) +
      int (length (filter (\<lambda>c. \<not> curtailable opts c) (known cs)))"
proof (induction opts k cs rule: classify_loop.induct)
  case (3 opts k c cs)
  then show ?case
    using classify_skip_None_iff [of opts c]
    by (cases "classify_skip opts c")
      (auto simp: classify_step_def classify_record_def excluded_total_count map_filter_simps)
qed (simp_all add: map_filter_simps)

lemma classify_result:
  assumes "classifyCandidates cands opts = Some k"
  shows "cl_eligible k = map to_input (filter (curtailable opts) (known cands))"
    "cl_skipped k = map (classify_record opts) (filter (\<lambda>c. \<not> curtailable opts c) (known cands))"
    "excluded_total (cl_summary k) = int (length (cl_skipped k))"
  using classify_loop_Some [OF assms [unfolded classifyCandidates_def]]
  by (simp_all add: excluded_total_def no_detail_def)

lemma select_operator_sizedE:
  assumes "select_operator_sized st req w active cands = Some (Inr p)"
  obtains cooled k m where "cooldown_set st req cands = Inr cooled"
    "classifyCandidates cands
       \<lparr>co_IncludeMaintenance = pr_IncludeMaintenance req \<and> pr_ForceIncludeMaintenance req,
        co_ActiveEventDevices = active, co_CooldownDevices = cooled,
        co_CandidateMinPowerW = w\<rparr> = Some k"
    "p = BuildPlan (cl_eligible k) (cl_skipped k) w m"
  using assms unfolding select_operator_sized_def by (simp split: option.splits sum.splits) blast

lemma map_sum_Inr: "map_sum f g z = Inr y \<longleftrightarrow> (\<exists>x. z = Inr x \<and> y = g x)"
  by (cases z) auto

lemma named_devices_found:
  assumes "select_from st req f w active cands = Some (Inr p)"
  shows "set (lc_DeviceIdentifiers f) \<subseteq> mc_DeviceIdentifier ` set (known cands)"
proof -
  have "the ` set cands = set (known cands)" if "None \<notin> set cands"
    using that by (induction cands) (auto simp: map_filter_simps split: option.splits)
  moreover have "missingDeviceIdentifiers (lc_DeviceIdentifiers f) cands = Some []"
    using assms by (simp add: select_from_def split: if_splits option.splits)
  ultimately show ?thesis
    by (auto simp: missingDeviceIdentifiers_def filter_empty_conv split: if_splits)
qed

lemma selected_owned_by_none:
  assumes "select_from st req f w active cands = Some (Inr p)"
  shows "se_DeviceIdentifier ` set (pl_Selected p) \<subseteq>
    mc_DeviceIdentifier ` set (known cands) - set active"
proof (cases "pr_ForceIncludeAllPairedMiners req")
  case True
  then have "p = BuildAllPairedPolicyPlan cands active
      (pr_IncludeMaintenance req \<and> pr_ForceIncludeMaintenance req) w"
    using assms by (auto simp: select_from_def split: if_splits option.splits)
  then have sel: "pl_Selected p = map (policy_device
      (pr_IncludeMaintenance req \<and> pr_ForceIncludeMaintenance req)) (filter (owned active) (known cands))"
    by (simp add: BuildAllPairedPolicyPlan_def Let_def policy_fold)
  have "se_DeviceIdentifier (policy_device inc c) = mc_DeviceIdentifier c" for inc c
    by (simp add: policy_device_def split: prod.split)
  then show ?thesis unfolding sel by (auto simp: owned_def)
next
  case False
  then have "select_operator_sized st req w active cands = Some (Inr p)"
    using assms by (simp add: select_from_def split: if_splits option.splits)
  then obtain cooled k m where k: "classifyCandidates cands
       \<lparr>co_IncludeMaintenance = pr_IncludeMaintenance req \<and> pr_ForceIncludeMaintenance req,
        co_ActiveEventDevices = active, co_CooldownDevices = cooled,
        co_CandidateMinPowerW = w\<rparr> = Some k"
    and p: "p = BuildPlan (cl_eligible k) (cl_skipped k) w m"
    by (rule select_operator_sizedE)
  have "se_DeviceIdentifier ` set (pl_Selected p) \<subseteq> ci_DeviceIdentifier ` set (cl_eligible k)"
    unfolding p by (rule order_trans [OF build_plan_selected_ids image_mono [OF set_admitted]])
  also have "\<dots> \<subseteq> mc_DeviceIdentifier ` set (known cands) - set active"
    by (auto simp: classify_result(1) [OF k] to_input_def curtailable_def)
  finally show ?thesis .
qed

section \<open>Properties\<close>

text \<open>
  The classifier splits the candidates exactly. It panics only on a nil candidate; otherwise
  the eligible inputs are the curtailable candidates and the skipped records the others, both in
  input order, the exclusion counters add up to the number of skipped miners, and no eligible input
  carries a NaN or infinite efficiency or power.
\<close>
theorem classify_splits_candidates:
  "case classifyCandidates cands opts of
     None \<Rightarrow> None \<in> set cands
   | Some k \<Rightarrow>
       cl_eligible k = map to_input (filter (curtailable opts) (known cands)) \<and>
       map sk_DeviceIdentifier (cl_skipped k) =
         map mc_DeviceIdentifier (filter (\<lambda>c. \<not> curtailable opts c) (known cands)) \<and>
       excluded_total (cl_summary k) = int (length (cl_skipped k)) \<and>
       list_all (\<lambda>i. ci_AvgEfficiencyJH i \<notin> {Some NaN, Some PosInf, Some NegInf} \<and>
         hasNonNegativeFiniteFloat (Some (ci_PowerW i))) (cl_eligible k)"
proof (cases "classifyCandidates cands opts")
  case None
  then have "None \<in> set cands" by (simp add: classifyCandidates_def classify_loop_None)
  with None show ?thesis by simp
next
  case (Some k)
  have "hasNonNegativeFiniteFloat (Some (ci_PowerW (to_input c)))" if "curtailable opts c" for c
    using that
    by (auto simp: curtailable_def to_input_def derefFloat_def hasNonNegativeFiniteFloat_def
        split: option.splits)
  with Some to_input_finite show ?thesis
    by (auto simp: classify_result [OF Some] classify_record_def list_all_iff)
qed

text \<open>
  The pipeline never takes a miner that another event holds. A plan it returns was built
  from at most 10000 candidates of the resolved scope; it selects only miners among those that
  no active event holds; and every explicitly named miner was found.
\<close>
theorem run_selector_respects_other_events:
  "case runSelector st req of
     Some (Inr (p, minW, cfg)) \<Rightarrow>
       \<exists>f active cands.
         resolveScopeForOrg (st_SiteBelongsToOrg st) (st_ResolveTopology st) (pr_OrgID req)
           (pr_Scope req) = Inr f \<and>
         st_ListActive st (pr_OrgID req) = Inr active \<and>
         st_ListCandidates st (f\<lparr>lc_ResultLimit := 10001\<rparr>) = Inr cands \<and>
         length cands \<le> 10000 \<and>
         set (lc_DeviceIdentifiers f) \<subseteq> mc_DeviceIdentifier ` set (known cands) \<and>
         se_DeviceIdentifier ` set (pl_Selected p) \<subseteq>
           mc_DeviceIdentifier ` set (known cands) - set active
   | _ \<Rightarrow> True"
proof (cases "runSelector st req")
  case None
  then show ?thesis by simp
next
  case (Some r)
  show ?thesis
  proof (cases r)
    case (Inl e)
    with Some show ?thesis by simp
  next
    case (Inr q)
    obtain p w cfg where q: "q = (p, w, cfg)" by (cases q)
    obtain f active cands where f: "resolveScopeForOrg (st_SiteBelongsToOrg st)
        (st_ResolveTopology st) (pr_OrgID req) (pr_Scope req) = Inr f"
      and active: "st_ListActive st (pr_OrgID req) = Inr active"
      and cands: "st_ListCandidates st (f\<lparr>lc_ResultLimit := 10001\<rparr>) = Inr cands"
      and sel: "select_from st req f w active cands = Some (Inr p)"
      using Some unfolding Inr q
      by (auto simp: runSelector_def Let_def map_sum_Inr split: sum.splits)
    have "length cands \<le> 10000"
      using sel by (simp add: select_from_def validateResolvedMinerCount_def split: if_splits)
    with Some Inr q f active cands selected_owned_by_none [OF sel] named_devices_found [OF sel]
    show ?thesis by auto
  qed
qed

definition demo_offline :: model_candidate where
  "demo_offline = \<lparr>mc_DeviceIdentifier = ''m1'', mc_DriverName = Some ''antminer'', mc_Model = [],
     mc_DeviceStatus = ''OFFLINE'', mc_PairingStatus = ''PAIRED'', mc_LatestMetricsAt = None,
     mc_LatestPowerW = None, mc_LatestHashRateHS = None, mc_AvgEfficiencyJH = None\<rparr>"

definition demo_store :: curtailment_store where
  "demo_store = \<lparr>st_SiteBelongsToOrg = \<lambda>_ _. Inr True, st_ResolveTopology = None,
     st_GetOrgConfig = \<lambda>org. Inr \<lparr>oc_OrgID = org, oc_MaxDurationDefaultSec = 3600,
       oc_CandidateMinPowerW = 500\<rparr>,
     st_ListActive = \<lambda>_. Inr [], st_ListCandidates = \<lambda>_. Inr [Some demo_offline],
     st_ListRecentlyResolved = \<lambda>_. Inr []\<rparr>"

definition demo_request :: preview_request where
  "demo_request = \<lparr>pr_OrgID = 1,
     pr_Scope = \<lparr>sc_SchemaVersion = 0, sc_Type = ScopeTypeDeviceList, sc_SiteID = 0, sc_SiteIDs = [],
       sc_BuildingIDs = [], sc_RackIDs = [], sc_GroupIDs = [], sc_DeviceIdentifiers = [''m1'']\<rparr>,
     pr_Mode = ModeFullFleet, pr_Strategy = [], pr_Level = [], pr_Priority = [], pr_TargetKW = Fin 0, pr_ToleranceKW = Fin 0,
     pr_IncludeMaintenance = False, pr_ForceIncludeMaintenance = False,
     pr_ForceIncludeAllPairedMiners = False, pr_CandidateMinPowerWOverride = None,
     pr_PostEventCooldownSec = 0\<rparr>"

text \<open>
  A full-fleet start whose miners are all skipped is accepted. For a device-list scope with
  one offline miner the pipeline reports the target as reached with nothing selected, and the event
  is persisted as completed with no targets.
\<close>
theorem full_fleet_all_skipped_is_accepted:
  "case runSelector demo_store demo_request of
     Some (Inr (p, minW, cfg)) \<Rightarrow>
       pl_Selected p = [] \<and> length (pl_Skipped p) = 1 \<and> pl_Outcome p = OutcomeTargetReached \<and>
       pl_InsufficientLoadDetail p = None \<and> insert_state demo_request p = EventStateCompleted \<and>
       insert_targets demo_request p minW = []
   | _ \<Rightarrow> False"
  by code_simp

end
