(* ===== verification/Authz.thy ===== *)
theory Authz
  imports Go_Sort
begin

text \<open>
  The permission model of \<open>server/internal/domain/authz\<close>: the effective permissions of a user
  inside an organization (\<open>effective.go\<close>), the grouping of database rows into assignments
  (\<open>resolver.go\<close>), the permission catalog (\<open>catalog.go\<close>), the built-in roles
  (\<open>builtin.go\<close>) and the checks a custom role passes before it is saved (\<open>service.go\<close>).

  A \<open>map[string]bool\<close> that only ever stores \<open>true\<close> is the list of its keys. A nil receiver is
  \<open>None\<close>. Descriptions in the catalog are display text and are left out.
\<close>

section \<open>Effective permissions (effective.go)\<close>

abbreviation ScopeOrg :: string where "ScopeOrg \<equiv> ''org''"
abbreviation ScopeSite :: string where "ScopeSite \<equiv> ''site''"

record assignment =
  as_AssignmentID :: int
  as_ScopeType :: string
  as_SiteID :: "int option"
  as_Permissions :: "string list"

record resource_context =
  rc_SiteID :: "int option"

abbreviation org_context :: resource_context where
  "org_context \<equiv> \<lparr>rc_SiteID = None\<rparr>"

abbreviation site_context :: "int \<Rightarrow> resource_context" where
  "site_context s \<equiv> \<lparr>rc_SiteID = Some s\<rparr>"

record effective_permissions =
  ep_orgScope :: "string list"
  ep_bySite :: "(int \<times> string list) list"

definition add_keys :: "string list \<Rightarrow> string list \<Rightarrow> string list" where
  "add_keys acc ks = foldl (\<lambda>s k. List.insert k s) acc ks"

definition add_assignment :: "effective_permissions \<Rightarrow> assignment \<Rightarrow> effective_permissions" where
  "add_assignment out a =
     (if as_ScopeType a = ScopeOrg then
        out\<lparr>ep_orgScope := add_keys (ep_orgScope out) (as_Permissions a)\<rparr>
      else if as_ScopeType a = ScopeSite then
        (case as_SiteID a of
           None \<Rightarrow> out
         | Some s \<Rightarrow>
             let perms = (case map_of (ep_bySite out) s of None \<Rightarrow> [] | Some p \<Rightarrow> p)
             in out\<lparr>ep_bySite :=
                  AList.update s (add_keys perms (as_Permissions a)) (ep_bySite out)\<rparr>)
      else out)"

definition NewEffectivePermissions :: "assignment list \<Rightarrow> effective_permissions" where
  "NewEffectivePermissions assignments =
     foldl add_assignment \<lparr>ep_orgScope = [], ep_bySite = []\<rparr> assignments"

definition Has :: "effective_permissions option \<Rightarrow> string \<Rightarrow> resource_context \<Rightarrow> bool" where
  "Has e key rc =
     (case e of
        None \<Rightarrow> False
      | Some p \<Rightarrow>
          (case rc_SiteID rc of
             None \<Rightarrow> key \<in> set (ep_orgScope p)
           | Some s \<Rightarrow>
               (case map_of (ep_bySite p) s of
                  Some siteKeys \<Rightarrow> key \<in> set siteKeys
                | None \<Rightarrow> key \<in> set (ep_orgScope p))))"

definition SiteScopeFor :: "effective_permissions option \<Rightarrow> string \<Rightarrow> bool \<times> int list" where
  "SiteScopeFor e key =
     (case e of
        None \<Rightarrow> (False, [])
      | Some p \<Rightarrow>
          let orgWide = key \<in> set (ep_orgScope p);
              hit = (\<lambda>(s, perms). (orgWide \<and> key \<notin> set perms) \<or> (\<not> orgWide \<and> key \<in> set perms))
          in (orgWide, sort (map fst (filter hit (ep_bySite p)))))"

definition HasOrgWide :: "effective_permissions option \<Rightarrow> string \<Rightarrow> bool" where
  "HasOrgWide e key =
     (case e of
        None \<Rightarrow> False
      | Some p \<Rightarrow>
          key \<in> set (ep_orgScope p) \<and>
          (\<forall>s \<in> set (keys (ep_bySite p)). Has e key (site_context s)))"

text \<open>
  \<open>IsSubsumedBy\<close> reads \<open>other.bySite\<close> after the organization pass, so it panics (\<open>None\<close>)
  on a nil \<open>other\<close> when that pass finds nothing to refuse.
\<close>

definition relevant_sites :: "effective_permissions \<Rightarrow> effective_permissions \<Rightarrow> int list" where
  "relevant_sites p q = remdups (keys (ep_bySite p) @ keys (ep_bySite q))"

definition IsSubsumedBy ::
  "effective_permissions option \<Rightarrow> effective_permissions option \<Rightarrow> bool option" where
  "IsSubsumedBy e other =
     (case e of
        None \<Rightarrow> Some True
      | Some p \<Rightarrow>
          if \<not> list_all (\<lambda>key. Has other key org_context) (ep_orgScope p) then Some False
          else
            (case other of
               None \<Rightarrow> None
             | Some q \<Rightarrow>
                 Some (list_all
                   (\<lambda>s. list_all (\<lambda>key. Has other key (site_context s))
                          (case map_of (ep_bySite p) s of
                             None \<Rightarrow> ep_orgScope p
                           | Some ks \<Rightarrow> ks))
                   (relevant_sites p q))))"

definition StrictlyDominates ::
  "effective_permissions option \<Rightarrow> effective_permissions option \<Rightarrow> bool option" where
  "StrictlyDominates e other =
     Option.bind (IsSubsumedBy other e)
       (\<lambda>a. if a then map_option Not (IsSubsumedBy e other) else Some False)"

definition Keys :: "effective_permissions option \<Rightarrow> string list" where
  "Keys e = (case e of None \<Rightarrow> [] | Some p \<Rightarrow> sort (ep_orgScope p))"

section \<open>Rows of the permission query (resolver.go)\<close>

record permission_row =
  row_AssignmentID :: int
  row_ScopeType :: string
  row_ScopeID :: "int option"
  row_PermissionKey :: "string option"

definition newAssignmentFromRow :: "permission_row \<Rightarrow> assignment" where
  "newAssignmentFromRow row =
     \<lparr>as_AssignmentID = row_AssignmentID row, as_ScopeType = row_ScopeType row,
      as_SiteID = row_ScopeID row, as_Permissions = []\<rparr>"

text \<open>
  The slice \<open>assignments\<close> with a pointer to its last element is a pair: the finished
  assignments in reverse, and the current one.
\<close>

definition group_row ::
  "assignment list \<times> assignment \<Rightarrow> permission_row \<Rightarrow> assignment list \<times> assignment" where
  "group_row st row =
     (case st of
        (closed, current) \<Rightarrow>
          let (closed', current') =
            (if row_AssignmentID row \<noteq> as_AssignmentID current
             then (current # closed, newAssignmentFromRow row)
             else (closed, current))
          in (case row_PermissionKey row of
                None \<Rightarrow> (closed', current')
              | Some k \<Rightarrow>
                  (closed', current'\<lparr>as_Permissions := as_Permissions current' @ [k]\<rparr>)))"

definition assignmentsFromRows :: "permission_row list \<Rightarrow> effective_permissions" where
  "assignmentsFromRows rows =
     (case rows of
        [] \<Rightarrow> NewEffectivePermissions []
      | row # _ \<Rightarrow>
          (case foldl group_row ([], newAssignmentFromRow row) rows of
             (closed, current) \<Rightarrow> NewEffectivePermissions (rev (current # closed))))"

section \<open>The catalog (catalog.go) and the built-in roles (builtin.go)\<close>

abbreviation PermFleetRead :: string where "PermFleetRead \<equiv> ''fleet:read''"
abbreviation PermMinerRead :: string where "PermMinerRead \<equiv> ''miner:read''"
abbreviation PermMinerBlinkLED :: string where "PermMinerBlinkLED \<equiv> ''miner:blink_led''"
abbreviation PermMinerDownloadLogs :: string where
  "PermMinerDownloadLogs \<equiv> ''miner:download_logs''"
abbreviation PermRackRead :: string where "PermRackRead \<equiv> ''rack:read''"
abbreviation PermRackManage :: string where "PermRackManage \<equiv> ''rack:manage''"
abbreviation PermSiteRead :: string where "PermSiteRead \<equiv> ''site:read''"
abbreviation PermCurtailmentManage :: string where
  "PermCurtailmentManage \<equiv> ''curtailment:manage''"
abbreviation PermRoleManage :: string where "PermRoleManage \<equiv> ''role:manage''"
abbreviation PermInstanceUpdate :: string where "PermInstanceUpdate \<equiv> ''instance:update''"
abbreviation PermMaintenanceRead :: string where "PermMaintenanceRead \<equiv> ''maintenance:read''"
abbreviation PermMaintenanceManage :: string where
  "PermMaintenanceManage \<equiv> ''maintenance:manage''"
abbreviation ResourceMiner :: string where "ResourceMiner \<equiv> ''miner''"

record catalog_entry =
  ce_Key :: string
  ce_Resource :: string

abbreviation entry :: "string \<Rightarrow> string \<Rightarrow> catalog_entry" where
  "entry k r \<equiv> \<lparr>ce_Key = k, ce_Resource = r\<rparr>"

definition catalog :: "catalog_entry list" where
  "catalog =
    [entry ''fleet:read'' ''fleet'',
     entry ''miner:read'' ''miner'', entry ''miner:blink_led'' ''miner'',
     entry ''miner:reboot'' ''miner'', entry ''miner:start_mining'' ''miner'',
     entry ''miner:stop_mining'' ''miner'', entry ''miner:update_pools'' ''miner'',
     entry ''miner:update_worker_names'' ''miner'', entry ''miner:rename'' ''miner'',
     entry ''miner:delete'' ''miner'', entry ''miner:set_cooling_mode'' ''miner'',
     entry ''miner:set_power_target'' ''miner'', entry ''miner:firmware_update'' ''miner'',
     entry ''miner:download_logs'' ''miner'', entry ''miner:update_password'' ''miner'',
     entry ''miner:unpair'' ''miner'', entry ''miner:pair'' ''miner'',
     entry ''miner:export_csv'' ''miner'',
     entry ''rack:read'' ''rack'', entry ''rack:manage'' ''rack'',
     entry ''site:read'' ''site'', entry ''site:manage'' ''site'',
     entry ''activity:read'' ''activity'',
     entry ''serverlog:read'' ''serverlog'',
     entry ''curtailment:read'' ''curtailment'', entry ''curtailment:manage'' ''curtailment'',
     entry ''curtailment:ingest'' ''curtailment'',
     entry ''pool:read'' ''pool'', entry ''pool:manage'' ''pool'',
     entry ''schedule:read'' ''schedule'', entry ''schedule:manage'' ''schedule'',
     entry ''fleetnode:read'' ''fleetnode'', entry ''fleetnode:manage'' ''fleetnode'',
     entry ''alert:read'' ''alert'', entry ''alert:manage'' ''alert'',
     entry ''apikey:manage'' ''apikey'',
     entry ''user:read'' ''user'', entry ''user:manage'' ''user'',
     entry ''role:manage'' ''role'',
     entry ''instance:update'' ''instance'',
     entry ''maintenance:read'' ''maintenance'', entry ''maintenance:manage'' ''maintenance'']"

definition AllPermissions :: "string list" where
  "AllPermissions = map ce_Key catalog"

definition AllPermissionsSorted :: "string list" where
  "AllPermissionsSorted = sort AllPermissions"

definition CatalogByResource :: "(string \<times> catalog_entry list) list" where
  "CatalogByResource =
     foldl (\<lambda>groups c. AList.update (ce_Resource c)
                ((case map_of groups (ce_Resource c) of None \<Rightarrow> [] | Some es \<Rightarrow> es) @ [c]) groups)
       [] catalog"

definition ResourceOrder :: "string list" where
  "ResourceOrder =
     foldl (\<lambda>out c. if ce_Resource c \<in> set out then out else out @ [ce_Resource c]) [] catalog"

definition Lookup :: "string \<Rightarrow> catalog_entry option" where
  "Lookup key = find (\<lambda>c. ce_Key c = key) catalog"

datatype reconcile_mode = ReconcileFull | ReconcileAdditive

record builtin_role_spec =
  br_Key :: string
  br_Mode :: reconcile_mode
  br_SeedPermissions :: "string list"

definition adminSeedPermissions :: "string list" where
  "adminSeedPermissions =
     filter (\<lambda>key. key \<notin> {PermRoleManage, PermInstanceUpdate}) AllPermissions"

definition fieldTechSeedPermissions :: "string list" where
  "fieldTechSeedPermissions =
     [PermFleetRead, PermMinerRead, PermMinerBlinkLED, PermMinerDownloadLogs,
      PermRackRead, PermRackManage, PermMaintenanceRead, PermMaintenanceManage]"

definition BuiltinRoles :: "builtin_role_spec list" where
  "BuiltinRoles =
    [\<lparr>br_Key = ''SUPER_ADMIN'', br_Mode = ReconcileFull, br_SeedPermissions = AllPermissions\<rparr>,
     \<lparr>br_Key = ''ADMIN'', br_Mode = ReconcileAdditive,
       br_SeedPermissions = adminSeedPermissions\<rparr>,
     \<lparr>br_Key = ''FIELD_TECH'', br_Mode = ReconcileAdditive,
       br_SeedPermissions = fieldTechSeedPermissions\<rparr>]"

section \<open>Saving a custom role (service.go)\<close>

definition unknown_key_error :: "string \<Rightarrow> fleet_error" where
  "unknown_key_error k = NewInvalidArgumentError (''unknown permission key: '' @ k)"

fun dedup_keys :: "string list \<Rightarrow> string list \<Rightarrow> string list \<Rightarrow> fleet_error + string list" where
  "dedup_keys seen out [] = Inr (sort out)"
| "dedup_keys seen out (k # ks) =
     (case Lookup k of
        None \<Rightarrow> Inl (unknown_key_error k)
      | Some _ \<Rightarrow>
          if k \<in> set seen then dedup_keys seen out ks
          else dedup_keys (k # seen) (out @ [k]) ks)"

definition validateAndDedupKeys :: "string list \<Rightarrow> fleet_error + string list" where
  "validateAndDedupKeys ks = dedup_keys [] [] ks"

definition requires_error :: "string \<Rightarrow> string \<Rightarrow> fleet_error" where
  "requires_error k r = NewInvalidArgumentError (k @ '' requires '' @ r @ '' in the same role'')"

definition entry_resource :: "string \<Rightarrow> string" where
  "entry_resource k = (case Lookup k of None \<Rightarrow> [] | Some c \<Rightarrow> ce_Resource c)"

definition read_key :: "string \<Rightarrow> string" where
  "read_key k = entry_resource k @ '':read''"

fun check_pairing :: "string list \<Rightarrow> string list \<Rightarrow> fleet_error option" where
  "check_pairing held [] = None"
| "check_pairing held (k # ks) =
     (if k = read_key k then check_pairing held ks
      else if Lookup (read_key k) \<noteq> None \<and> read_key k \<notin> set held
           then Some (requires_error k (read_key k))
      else if entry_resource k = ResourceMiner \<and> PermFleetRead \<notin> set held
           then Some (requires_error k PermFleetRead)
      else check_pairing held ks)"

definition validateReadPairing :: "string list \<Rightarrow> fleet_error option" where
  "validateReadPairing ks = check_pairing ks ks"

definition validateAndNormalizeKeys :: "string list \<Rightarrow> fleet_error + string list" where
  "validateAndNormalizeKeys ks =
     (case validateAndDedupKeys ks of
        Inl e \<Rightarrow> Inl e
      | Inr normalized \<Rightarrow>
          (case validateReadPairing normalized of
             Some e \<Rightarrow> Inl e
           | None \<Rightarrow> Inr normalized))"

text \<open>
  The database read that loads the caller's permissions is the argument \<open>loaded\<close>: an error,
  or the snapshot.
\<close>

fun check_grant :: "effective_permissions option \<Rightarrow> string list \<Rightarrow> fleet_error option" where
  "check_grant eff [] = None"
| "check_grant eff (k # ks) =
     (if \<not> Has eff k org_context
      then Some (NewForbiddenError
             (''cannot grant '' @ k @ '': caller does not hold this permission at org scope''))
      else check_grant eff ks)"

definition authorizeCallerCanGrant ::
  "string + effective_permissions \<Rightarrow> string list \<Rightarrow> fleet_error option" where
  "authorizeCallerCanGrant loaded normalizedKeys =
     (case loaded of
        Inl msg \<Rightarrow> Some (NewInternalError (''authz: load caller permissions: '' @ msg))
      | Inr eff \<Rightarrow>
          if \<not> Has (Some eff) PermRoleManage org_context
          then Some (NewForbiddenError ''caller does not hold role:manage at org scope'')
          else check_grant (Some eff) normalizedKeys)"

section \<open>Building a snapshot\<close>

text \<open>
  What a list of assignments means, independent of the snapshot: the organization grants, and
  at a site with at least one site assignment only that site's grants.
\<close>

definition org_grants :: "assignment list \<Rightarrow> string \<Rightarrow> bool" where
  "org_grants as key \<longleftrightarrow> (\<exists>a \<in> set as. as_ScopeType a = ScopeOrg \<and> key \<in> set (as_Permissions a))"

definition assigned_at :: "assignment list \<Rightarrow> int \<Rightarrow> bool" where
  "assigned_at as s \<longleftrightarrow> (\<exists>a \<in> set as. as_ScopeType a = ScopeSite \<and> as_SiteID a = Some s)"

definition site_grants :: "assignment list \<Rightarrow> int \<Rightarrow> string \<Rightarrow> bool" where
  "site_grants as s key \<longleftrightarrow>
     (\<exists>a \<in> set as. as_ScopeType a = ScopeSite \<and> as_SiteID a = Some s \<and>
        key \<in> set (as_Permissions a))"

definition allowed :: "assignment list \<Rightarrow> string \<Rightarrow> resource_context \<Rightarrow> bool" where
  "allowed as key rc \<longleftrightarrow>
     (case rc_SiteID rc of
        None \<Rightarrow> org_grants as key
      | Some s \<Rightarrow> if assigned_at as s then site_grants as s key else org_grants as key)"

named_theorems authz_spec

lemmas grant_defs [authz_spec] = org_grants_def assigned_at_def site_grants_def

lemma set_add_keys [simp]: "set (add_keys acc ks) = set acc \<union> set ks"
  unfolding add_keys_def by (induction ks arbitrary: acc) auto

lemma add_assignment_snoc:
  "NewEffectivePermissions (as @ [a]) = add_assignment (NewEffectivePermissions as) a"
  by (simp add: NewEffectivePermissions_def)

lemma NewEffectivePermissions_Nil [simp]:
  "NewEffectivePermissions [] = \<lparr>ep_orgScope = [], ep_bySite = []\<rparr>"
  by (simp add: NewEffectivePermissions_def)

lemma orgScope_New:
  "key \<in> set (ep_orgScope (NewEffectivePermissions as)) \<longleftrightarrow> org_grants as key"
  by (induction as rule: rev_induct)
    (auto simp: add_assignment_snoc add_assignment_def authz_spec Let_def split: option.splits)

lemma bySite_dom_New:
  "has_key (ep_bySite (NewEffectivePermissions as)) s \<longleftrightarrow> assigned_at as s"
  by (induction as rule: rev_induct)
    (auto simp: add_assignment_snoc add_assignment_def authz_spec Let_def split: option.splits)

lemma bySite_New:
  "map_of (ep_bySite (NewEffectivePermissions as)) s = Some ks \<Longrightarrow>
     key \<in> set ks \<longleftrightarrow> site_grants as s key"
proof (induction as arbitrary: ks rule: rev_induct)
  case Nil
  then show ?case by simp
next
  case (snoc a as)
  have none: "\<not> site_grants as s key" if "map_of (ep_bySite (NewEffectivePermissions as)) s = None"
    using bySite_dom_New [of as s] that by (auto simp: authz_spec)
  from snoc.prems snoc.IH none show ?case
    by (auto simp: add_assignment_snoc add_assignment_def Let_def site_grants_def
        split: option.splits if_splits)
qed

lemma distinct_bySite_New: "distinct (keys (ep_bySite (NewEffectivePermissions as)))"
  by (induction as rule: rev_induct)
    (auto simp: add_assignment_snoc add_assignment_def Let_def split: option.splits)

lemma Has_New: "Has (Some (NewEffectivePermissions as)) key rc \<longleftrightarrow> allowed as key rc"
proof (cases "rc_SiteID rc")
  case None
  then show ?thesis by (simp add: Has_def allowed_def orgScope_New)
next
  case (Some s)
  then show ?thesis
    using bySite_dom_New [of as s] bySite_New [of as s]
    by (auto simp: Has_def allowed_def orgScope_New split: option.splits)
qed

section \<open>Rows to assignments\<close>

text \<open>The same meaning read off the rows of the query, one row per granted key.\<close>

definition row_assignment :: "permission_row \<Rightarrow> assignment" where
  "row_assignment row =
     (newAssignmentFromRow row)\<lparr>as_Permissions :=
        (case row_PermissionKey row of None \<Rightarrow> [] | Some k \<Rightarrow> [k])\<rparr>"

definition rows_consistent :: "permission_row list \<Rightarrow> bool" where
  "rows_consistent rows \<longleftrightarrow>
     (\<forall>r \<in> set rows. \<forall>r' \<in> set rows. row_AssignmentID r = row_AssignmentID r' \<longrightarrow>
        row_ScopeType r = row_ScopeType r' \<and> row_ScopeID r = row_ScopeID r')"

text \<open>
  The grouping loop, as an invariant over the rows read so far: for any scope the assignments
  built grant exactly the keys of those rows, and every scope of a row is present.
\<close>

definition scope_keys :: "assignment list \<Rightarrow> string \<Rightarrow> int option \<Rightarrow> string set" where
  "scope_keys as t s =
     \<Union> (set ` as_Permissions ` {a \<in> set as. as_ScopeType a = t \<and> as_SiteID a = s})"

definition has_scope :: "assignment list \<Rightarrow> string \<Rightarrow> int option \<Rightarrow> bool" where
  "has_scope as t s \<longleftrightarrow> (\<exists>a \<in> set as. as_ScopeType a = t \<and> as_SiteID a = s)"

lemma allowed_scope:
  "allowed as key rc \<longleftrightarrow>
     (case rc_SiteID rc of
        None \<Rightarrow> \<exists>s. key \<in> scope_keys as ScopeOrg s
      | Some s \<Rightarrow>
          if has_scope as ScopeSite (Some s) then key \<in> scope_keys as ScopeSite (Some s)
          else \<exists>s. key \<in> scope_keys as ScopeOrg s)"
  by (auto simp: allowed_def authz_spec scope_keys_def has_scope_def split: option.splits)

lemma allowed_cong:
  assumes "\<And>t s. scope_keys as t s = scope_keys bs t s"
    and "\<And>t s. has_scope as t s = has_scope bs t s"
  shows "allowed as key rc = allowed bs key rc"
  by (simp only: allowed_scope assms)

definition grouped_as :: "permission_row list \<Rightarrow> assignment list \<times> assignment \<Rightarrow> bool" where
  "grouped_as rows st \<longleftrightarrow>
     (case st of (closed, current) \<Rightarrow>
        (\<forall>t s. scope_keys (current # closed) t s = scope_keys (map row_assignment rows) t s) \<and>
        (\<forall>t s. has_scope (current # closed) t s = has_scope (map row_assignment rows) t s) \<and>
        (\<exists>r \<in> set rows. row_AssignmentID r = as_AssignmentID current \<and>
           row_ScopeType r = as_ScopeType current \<and> row_ScopeID r = as_SiteID current))"

lemma scope_keys_Cons:
  "scope_keys (a # as) t s =
     (if as_ScopeType a = t \<and> as_SiteID a = s then set (as_Permissions a) else {}) \<union>
     scope_keys as t s"
  by (auto simp: scope_keys_def)

lemma scope_keys_append: "scope_keys (as @ bs) t s = scope_keys as t s \<union> scope_keys bs t s"
  by (auto simp: scope_keys_def)

lemma has_scope_append: "has_scope (as @ bs) t s \<longleftrightarrow> has_scope as t s \<or> has_scope bs t s"
  by (auto simp: has_scope_def)

lemma has_scope_Cons:
  "has_scope (a # as) t s \<longleftrightarrow> as_ScopeType a = t \<and> as_SiteID a = s \<or> has_scope as t s"
  by (auto simp: has_scope_def)

lemma scope_Nil [simp]: "scope_keys [] t s = {}" "\<not> has_scope [] t s"
  by (auto simp: scope_keys_def has_scope_def)

lemmas scope_simps = scope_keys_Cons scope_keys_append has_scope_Cons has_scope_append

lemma group_row_same:
  assumes "row_AssignmentID row = as_AssignmentID current"
  shows "group_row (closed, current) row =
    (closed, current\<lparr>as_Permissions := as_Permissions current @
       (case row_PermissionKey row of None \<Rightarrow> [] | Some k \<Rightarrow> [k])\<rparr>)"
  using assms by (auto simp: group_row_def split: option.splits)

lemma group_row_new:
  assumes "row_AssignmentID row \<noteq> as_AssignmentID current"
  shows "group_row (closed, current) row = (current # closed, row_assignment row)"
  using assms
  by (auto simp: group_row_def row_assignment_def newAssignmentFromRow_def split: option.splits)

lemma row_assignment_sel [simp]:
  "as_ScopeType (row_assignment r) = row_ScopeType r"
  "as_SiteID (row_assignment r) = row_ScopeID r"
  "as_AssignmentID (row_assignment r) = row_AssignmentID r"
  "as_Permissions (row_assignment r) = (case row_PermissionKey r of None \<Rightarrow> [] | Some k \<Rightarrow> [k])"
  by (simp_all add: row_assignment_def newAssignmentFromRow_def)

lemma grouped_as_step:
  assumes "grouped_as rows st" "rows_consistent (rows @ [row])"
  shows "grouped_as (rows @ [row]) (group_row st row)"
proof -
  obtain closed current where st: "st = (closed, current)"
    by (cases st)
  show ?thesis
  proof (cases "row_AssignmentID row = as_AssignmentID current")
    case True
    from assms(1) st obtain r where r: "r \<in> set rows"
      "row_AssignmentID r = as_AssignmentID current"
      "row_ScopeType r = as_ScopeType current" "row_ScopeID r = as_SiteID current"
      by (auto simp: grouped_as_def)
    with assms(2) True have "row_ScopeType row = as_ScopeType current"
      and "row_ScopeID row = as_SiteID current"
      unfolding rows_consistent_def by (metis UnCI list.set_intros(1) set_append)+
    moreover have "scope_keys (map row_assignment rows) t s = scope_keys (current # closed) t s"
      and "has_scope (map row_assignment rows) t s = has_scope (current # closed) t s" for t s
      using assms(1) st by (simp_all add: grouped_as_def)
    ultimately show ?thesis
      using st True r by (auto simp: grouped_as_def group_row_same scope_simps)
  next
    case False
    with assms(1) st show ?thesis
      by (auto simp: grouped_as_def group_row_new scope_simps)
  qed
qed

lemma grouped_as_first:
  "grouped_as [row] (group_row ([], newAssignmentFromRow row) row)"
  by (simp add: grouped_as_def group_row_same newAssignmentFromRow_def scope_simps)

lemma rows_consistent_prefix: "rows_consistent (xs @ ys) \<Longrightarrow> rows_consistent xs"
  by (auto simp: rows_consistent_def)

lemma grouped_as_rows:
  assumes "rows_consistent (row # rows)"
  shows "grouped_as (row # rows) (foldl group_row ([], newAssignmentFromRow row) (row # rows))"
  using assms
proof (induction rows rule: rev_induct)
  case Nil
  then show ?case using grouped_as_first by simp
next
  case (snoc r rows)
  from snoc.prems have "rows_consistent (row # rows)"
    using rows_consistent_prefix [of "row # rows" "[r]"] by simp
  with snoc.IH snoc.prems grouped_as_step [of "row # rows" _ r] show ?case
    by simp
qed

lemma allowed_rev: "allowed (rev as) key rc = allowed as key rc"
  by (rule allowed_cong) (auto simp: scope_keys_def has_scope_def)

lemma Has_assignmentsFromRows:
  assumes "rows_consistent rows"
  shows "Has (Some (assignmentsFromRows rows)) key rc \<longleftrightarrow>
    allowed (map row_assignment rows) key rc"
proof (cases rows)
  case Nil
  then show ?thesis
    by (simp add: assignmentsFromRows_def Has_New [of "[]", simplified])
next
  case (Cons row rest)
  obtain closed current
    where fold: "foldl group_row ([], newAssignmentFromRow row) rows = (closed, current)"
    by (cases "foldl group_row ([], newAssignmentFromRow row) rows")
  with grouped_as_rows [of row rest] assms Cons
  have "grouped_as rows (closed, current)" by simp
  then have "allowed (current # closed) key rc = allowed (map row_assignment rows) key rc"
    by (intro allowed_cong) (auto simp: grouped_as_def)
  moreover have "assignmentsFromRows rows = NewEffectivePermissions (rev (current # closed))"
    using fold Cons by (simp add: assignmentsFromRows_def)
  ultimately show ?thesis by (simp only: Has_New allowed_rev)
qed

section \<open>Authority and the subsumption order\<close>

text \<open>The (key, site) pairs a snapshot can act under; \<open>None\<close> is the organization itself.\<close>

definition authority :: "effective_permissions \<Rightarrow> (string \<times> int option) set" where
  "authority p = {(key, s). Has (Some p) key \<lparr>rc_SiteID = s\<rparr>}"

lemma authority_iff [simp]: "(key, s) \<in> authority p \<longleftrightarrow> Has (Some p) key \<lparr>rc_SiteID = s\<rparr>"
  by (simp add: authority_def)

lemma Has_org [simp]: "Has (Some p) key org_context \<longleftrightarrow> key \<in> set (ep_orgScope p)"
  by (simp add: Has_def)

lemma Has_site:
  "Has (Some p) key (site_context s) \<longleftrightarrow>
     key \<in> set (case map_of (ep_bySite p) s of None \<Rightarrow> ep_orgScope p | Some ks \<Rightarrow> ks)"
  by (simp add: Has_def split: option.splits)

lemma Has_None [simp]: "\<not> Has None key rc"
  by (simp add: Has_def)

lemma set_relevant_sites:
  "s \<in> set (relevant_sites p q) \<longleftrightarrow> has_key (ep_bySite p) s \<or> has_key (ep_bySite q) s"
  by (simp add: relevant_sites_def flip: dom_map_of_conv_image_fst) (simp add: dom_def)

lemma IsSubsumedBy_Some:
  "IsSubsumedBy (Some p) (Some q) = Some (
     set (ep_orgScope p) \<subseteq> set (ep_orgScope q) \<and>
     (\<forall>s \<in> set (relevant_sites p q). \<forall>key.
        Has (Some p) key (site_context s) \<longrightarrow> Has (Some q) key (site_context s)))"
  by (auto simp: IsSubsumedBy_def list_all_iff Has_site)

lemma site_irrelevant:
  assumes "s \<notin> set (relevant_sites p q)"
  shows "Has (Some p) key (site_context s) \<longleftrightarrow> key \<in> set (ep_orgScope p)"
    and "Has (Some q) key (site_context s) \<longleftrightarrow> key \<in> set (ep_orgScope q)"
  using assms by (auto simp: set_relevant_sites Has_site)

lemma IsSubsumedBy_authority:
  "IsSubsumedBy (Some p) (Some q) = Some (authority p \<subseteq> authority q)"
proof -
  let ?org = "set (ep_orgScope p) \<subseteq> set (ep_orgScope q)"
  let ?sites = "\<forall>s \<in> set (relevant_sites p q). \<forall>key.
        Has (Some p) key (site_context s) \<longrightarrow> Has (Some q) key (site_context s)"
  have "authority p \<subseteq> authority q" if "?org" "?sites"
  proof clarify
    fix key s
    assume "(key, s) \<in> authority p"
    with that site_irrelevant [of _ p q] show "(key, s) \<in> authority q"
      by (cases s) (auto, blast)
  qed
  moreover have "?org \<and> ?sites" if "authority p \<subseteq> authority q"
    using subsetD [OF that, of "(_, None)"] subsetD [OF that, of "(_, Some _)"] by auto
  ultimately show ?thesis
    by (simp only: IsSubsumedBy_Some) blast
qed

lemma StrictlyDominates_authority:
  "StrictlyDominates (Some p) (Some q) = Some (authority q \<subset> authority p)"
  by (auto simp: StrictlyDominates_def IsSubsumedBy_authority)

text \<open>
  Interface of a permission snapshot for the code that only asks questions: the decision per
  site, and the decision that has to hold at every site.
\<close>

locale permission_snapshot =
  fixes can :: "string \<Rightarrow> int option \<Rightarrow> bool"
    and can_everywhere :: "string \<Rightarrow> bool"
  assumes everywhere_iff: "can_everywhere key \<longleftrightarrow> (\<forall>s. can key s)"
begin

lemma everywhere_at: "can_everywhere key \<Longrightarrow> can key s"
  by (simp add: everywhere_iff)

lemma not_everywhere: "\<not> can key s \<Longrightarrow> \<not> can_everywhere key"
  by (auto simp: everywhere_iff)

end

lemma HasOrgWide_everywhere:
  "HasOrgWide (Some p) key \<longleftrightarrow> (\<forall>s. Has (Some p) key \<lparr>rc_SiteID = s\<rparr>)"
proof
  assume wide: "HasOrgWide (Some p) key"
  show "\<forall>s. Has (Some p) key \<lparr>rc_SiteID = s\<rparr>"
  proof
    fix s
    show "Has (Some p) key \<lparr>rc_SiteID = s\<rparr>"
    proof (cases s)
      case None
      with wide show ?thesis by (simp add: HasOrgWide_def)
    next
      case (Some site)
      with wide show ?thesis
        by (cases "map_of (ep_bySite p) site")
          (auto simp: HasOrgWide_def Has_site dest: map_of_SomeD dest!: bspec)
    qed
  qed
next
  assume all: "\<forall>s. Has (Some p) key \<lparr>rc_SiteID = s\<rparr>"
  from all [rule_format, of None] have "key \<in> set (ep_orgScope p)" by simp
  with all show "HasOrgWide (Some p) key" by (simp add: HasOrgWide_def)
qed

interpretation snapshot: permission_snapshot
  "\<lambda>key s. Has e key \<lparr>rc_SiteID = s\<rparr>" "HasOrgWide e" for e
proof
  show "HasOrgWide e key \<longleftrightarrow> (\<forall>s. Has e key \<lparr>rc_SiteID = s\<rparr>)" for key
    by (cases e) (simp_all add: HasOrgWide_everywhere, simp add: HasOrgWide_def)
qed

section \<open>Validation of role keys\<close>

lemma catalog_distinct: "distinct AllPermissions"
  by (simp add: AllPermissions_def catalog_def)

lemma Lookup_None_iff: "Lookup k = None \<longleftrightarrow> k \<notin> set AllPermissions"
  by (auto simp: Lookup_def AllPermissions_def find_None_iff)

lemma Lookup_Some_key: "Lookup k = Some c \<Longrightarrow> ce_Key c = k \<and> c \<in> set catalog"
  by (auto simp: Lookup_def find_Some_iff)

lemma dedup_keys_eq:
  assumes "set seen = set out" "distinct out"
  shows "dedup_keys seen out ks =
    (case find (\<lambda>k. k \<notin> set AllPermissions) ks of
       Some k \<Rightarrow> Inl (unknown_key_error k)
     | None \<Rightarrow> Inr (sorted_list_of_set (set out \<union> set ks)))"
  using assms
proof (induction seen out ks rule: dedup_keys.induct)
  case (1 seen out)
  then show ?case
    by (simp add: sorted_list_of_set_sort_remdups distinct_remdups_id)
next
  case (2 seen out k ks)
  show ?case
  proof (cases "Lookup k")
    case None
    then show ?thesis
      using Lookup_None_iff [of k] by simp
  next
    case (Some c)
    then have "k \<in> set AllPermissions"
      using Lookup_None_iff [of k] by auto
    with Some 2 show ?thesis
      by (auto simp: insert_absorb split: option.splits)
  qed
qed

lemma validateAndDedupKeys_eq:
  "validateAndDedupKeys ks =
    (case find (\<lambda>k. k \<notin> set AllPermissions) ks of
       Some k \<Rightarrow> Inl (unknown_key_error k)
     | None \<Rightarrow> Inr (sorted_list_of_set (set ks)))"
  using dedup_keys_eq [of "[]" "[]" ks]
  by (simp add: validateAndDedupKeys_def split: option.splits)

text \<open>The rule a role's key set has to satisfy, stated per key.\<close>

definition read_paired :: "string set \<Rightarrow> string \<Rightarrow> bool" where
  "read_paired held k \<longleftrightarrow> k = read_key k \<or>
     (read_key k \<in> set AllPermissions \<longrightarrow> read_key k \<in> held) \<and>
     (entry_resource k = ResourceMiner \<longrightarrow> PermFleetRead \<in> held)"

lemma check_pairing_None:
  "check_pairing held ks = None \<longleftrightarrow> (\<forall>k \<in> set ks. read_paired (set held) k)"
  by (induction held ks rule: check_pairing.induct)
    (auto simp: read_paired_def Lookup_None_iff simp del: not_None_eq split: if_splits)

lemma find_known_None:
  "find (\<lambda>k. k \<notin> set AllPermissions) ks = None \<longleftrightarrow> set ks \<subseteq> set AllPermissions"
  by (auto simp: find_None_iff)

lemma check_grant_None: "check_grant (Some p) ks = None \<longleftrightarrow> set ks \<subseteq> set (ep_orgScope p)"
  by (induction ks) auto

lemma authority_org_role:
  "authority (NewEffectivePermissions
     [\<lparr>as_AssignmentID = i, as_ScopeType = ScopeOrg, as_SiteID = s, as_Permissions = ks\<rparr>]) =
   set ks \<times> UNIV"
  by (auto simp: authority_def Has_New allowed_def authz_spec split: option.splits)

lemma org_role_dominates:
  "StrictlyDominates
     (Some (NewEffectivePermissions [\<lparr>as_AssignmentID = i, as_ScopeType = ScopeOrg,
        as_SiteID = s, as_Permissions = ks\<rparr>]))
     (Some (NewEffectivePermissions [\<lparr>as_AssignmentID = i', as_ScopeType = ScopeOrg,
        as_SiteID = s', as_Permissions = ks'\<rparr>])) = Some (set ks' \<subset> set ks)"
  by (auto simp: StrictlyDominates_authority authority_org_role)

lemma catalog_members:
  "PermFleetRead \<in> set AllPermissions" "PermRoleManage \<in> set AllPermissions"
  "PermMinerRead \<in> set AllPermissions" "PermMinerBlinkLED \<in> set AllPermissions"
  "PermMinerDownloadLogs \<in> set AllPermissions" "PermRackRead \<in> set AllPermissions"
  "PermRackManage \<in> set AllPermissions" "PermMaintenanceRead \<in> set AllPermissions"
  "PermMaintenanceManage \<in> set AllPermissions" "PermSiteRead \<in> set AllPermissions"
  by (simp_all add: AllPermissions_def catalog_def)

lemma set_adminSeed: "set adminSeedPermissions = set AllPermissions - {PermRoleManage, PermInstanceUpdate}"
  by (auto simp: adminSeedPermissions_def)

lemma admin_seed_strict: "set adminSeedPermissions \<subset> set AllPermissions"
  unfolding set_adminSeed using catalog_members(2) by blast

lemma field_tech_seed_strict: "set fieldTechSeedPermissions \<subset> set adminSeedPermissions"
proof
  show "set fieldTechSeedPermissions \<subseteq> set adminSeedPermissions"
    by (simp add: set_adminSeed fieldTechSeedPermissions_def catalog_members)
  have "PermSiteRead \<in> set adminSeedPermissions" "PermSiteRead \<notin> set fieldTechSeedPermissions"
    by (simp_all add: set_adminSeed fieldTechSeedPermissions_def catalog_members)
  then show "set fieldTechSeedPermissions \<noteq> set adminSeedPermissions" by blast
qed

lemma read_key_not_manage: "read_key k \<noteq> PermRoleManage" "read_key k \<noteq> PermInstanceUpdate"
  by (auto simp: read_key_def dest!: arg_cong [where f = last])

lemma read_paired_catalog:
  assumes "set AllPermissions - {PermRoleManage, PermInstanceUpdate} \<subseteq> held"
  shows "read_paired held k"
  using assms read_key_not_manage catalog_members(1) by (auto simp: read_paired_def)

lemma field_tech_resources:
  "entry_resource PermFleetRead = ''fleet''" "entry_resource PermMinerRead = ''miner''"
  "entry_resource PermMinerBlinkLED = ''miner''" "entry_resource PermMinerDownloadLogs = ''miner''"
  "entry_resource PermRackRead = ''rack''" "entry_resource PermRackManage = ''rack''"
  "entry_resource PermMaintenanceRead = ''maintenance''"
  "entry_resource PermMaintenanceManage = ''maintenance''"
  by (simp_all add: entry_resource_def Lookup_def catalog_def)

lemma field_tech_paired:
  "\<forall>k \<in> set fieldTechSeedPermissions. read_paired (set fieldTechSeedPermissions) k"
  by (simp add: fieldTechSeedPermissions_def read_paired_def read_key_def field_tech_resources)

lemma seeds_paired:
  "list_all (\<lambda>r. validateReadPairing (br_SeedPermissions r) = None) BuiltinRoles"
  using field_tech_paired read_paired_catalog [of "set AllPermissions"]
    read_paired_catalog [of "set adminSeedPermissions"]
  by (auto simp: BuiltinRoles_def validateReadPairing_def check_pairing_None set_adminSeed)

section \<open>Properties\<close>

text \<open>
  C34. The decision of \<open>Has\<close> on a snapshot is the documented narrowing rule: an organization
  action needs an organization grant; at a site with at least one site assignment only the
  grants of that site count, and at every other site the organization grants do. The result
  does not depend on the order of the assignments.
\<close>
theorem has_follows_narrowing:
  "Has (Some (NewEffectivePermissions as)) key rc \<longleftrightarrow> allowed as key rc"
  by (rule Has_New)

text \<open>
  \<open>IsSubsumedBy\<close> decides inclusion of authority over every permission key and every site
  of the organization, although it only visits the sites where one of the parties narrows; and
  \<open>StrictlyDominates\<close> decides proper inclusion. Neither panics on two non-nil snapshots.
\<close>
theorem subsumption_decides_authority:
  "IsSubsumedBy (Some p) (Some q) = Some (authority p \<subseteq> authority q) \<and>
   StrictlyDominates (Some p) (Some q) = Some (authority q \<subset> authority p)"
  by (simp add: IsSubsumedBy_authority StrictlyDominates_authority)

text \<open>
  \<open>HasOrgWide\<close>, which looks only at the sites with a site assignment, holds exactly when
  the key is held at the organization and at every site.
\<close>
theorem org_wide_is_every_site: "HasOrgWide e key \<longleftrightarrow> (\<forall>s. Has e key \<lparr>rc_SiteID = s\<rparr>)"
  by (rule snapshot.everywhere_iff)

text \<open>
  The projection \<open>SiteScopeFor\<close> gives to the store layer agrees with \<open>Has\<close> at every
  site: with an organization grant the sites are the denylist, without one the allowlist; they
  are sorted and without repetition.
\<close>
theorem site_scope_agrees_with_has:
  "case SiteScopeFor (Some (NewEffectivePermissions as)) key of (orgWide, sites) \<Rightarrow>
     sorted sites \<and> distinct sites \<and>
     (\<forall>s. Has (Some (NewEffectivePermissions as)) key (site_context s) \<longleftrightarrow>
        (if orgWide then s \<notin> set sites else s \<in> set sites))"
proof -
  let ?p = "NewEffectivePermissions as"
  have d: "distinct (keys (ep_bySite ?p))" by (rule distinct_bySite_New)
  then have "map_of (ep_bySite ?p) s = Some ks \<longleftrightarrow> (s, ks) \<in> set (ep_bySite ?p)" for s ks
    by (simp add: map_of_eq_Some_iff)
  moreover have "distinct (map fst (filter P (ep_bySite ?p)))" for P
    using d by (rule distinct_map_filter)
  ultimately show ?thesis
    using d
    by (auto simp: SiteScopeFor_def Let_def Has_site map_of_eq_None_iff
        split: option.splits intro: rev_image_eqI dest: eq_key_imp_eq_value [OF d])
qed

text \<open>
  Grouping the rows of the permission query by assignment id and building the snapshot
  gives the narrowing decision of the rows themselves, when rows of one assignment carry one
  scope. A row without a permission key grants nothing but still narrows its site.
\<close>
theorem rows_give_narrowing:
  assumes "rows_consistent rows"
  shows "Has (Some (assignmentsFromRows rows)) key rc \<longleftrightarrow>
    allowed (map row_assignment rows) key rc"
  using assms by (rule Has_assignmentsFromRows)

theorem rows_give_narrowing_witness:
  "\<not> Has (Some (assignmentsFromRows
      [\<lparr>row_AssignmentID = 1, row_ScopeType = ScopeOrg, row_ScopeID = None,
        row_PermissionKey = Some PermFleetRead\<rparr>,
       \<lparr>row_AssignmentID = 2, row_ScopeType = ScopeSite, row_ScopeID = Some 7,
        row_PermissionKey = None\<rparr>])) PermFleetRead (site_context 7)"
  by (subst rows_give_narrowing)
    (simp_all add: rows_consistent_def allowed_def authz_spec)

text \<open>
  The key list of a custom role is accepted exactly when every key is in the catalog and
  every action comes with the read permission of its resource (and miner actions with
  \<open>fleet:read\<close>); what is saved is the sorted list of the distinct keys of the request.
\<close>
theorem role_keys_accepted_iff:
  "validateAndNormalizeKeys ks = Inr ns \<longleftrightarrow>
     set ks \<subseteq> set AllPermissions \<and> list_all (read_paired (set ks)) ks \<and>
     ns = sorted_list_of_set (set ks)"
proof (cases "set ks \<subseteq> set AllPermissions")
  case True
  then have "validateAndDedupKeys ks = Inr (sorted_list_of_set (set ks))"
    using find_known_None [of ks] by (simp add: validateAndDedupKeys_eq)
  moreover have "validateReadPairing (sorted_list_of_set (set ks)) = None \<longleftrightarrow>
      list_all (read_paired (set ks)) ks"
    by (simp add: validateReadPairing_def check_pairing_None list_all_iff)
  ultimately show ?thesis
    using True by (auto simp: validateAndNormalizeKeys_def split: option.splits)
next
  case False
  then obtain k where "find (\<lambda>k. k \<notin> set AllPermissions) ks = Some k"
    using find_known_None [of ks] by auto
  with False show ?thesis
    by (simp add: validateAndNormalizeKeys_def validateAndDedupKeys_eq)
qed

text \<open>
  C37. The parity check refuses every role the caller could not hold: it passes exactly when
  the caller's permissions were loaded and hold \<open>role:manage\<close> and every key of the role at
  organization scope, and a user given that role alone gets no organization authority the
  caller lacks.
\<close>
theorem grant_check_prevents_escalation:
  "authorizeCallerCanGrant loaded ks = None \<longleftrightarrow>
     (\<exists>eff. loaded = Inr eff \<and> PermRoleManage \<in> set (ep_orgScope eff) \<and>
        {k. Has (Some (NewEffectivePermissions
              [\<lparr>as_AssignmentID = i, as_ScopeType = ScopeOrg, as_SiteID = None,
                as_Permissions = ks\<rparr>])) k org_context} \<subseteq>
        {k. Has (Some eff) k org_context})"
proof -
  have "Has (Some (NewEffectivePermissions
      [\<lparr>as_AssignmentID = i, as_ScopeType = ScopeOrg, as_SiteID = None, as_Permissions = ks\<rparr>]))
      k org_context \<longleftrightarrow> k \<in> set ks" for k
    by (simp only: Has_New) (simp add: allowed_def authz_spec)
  then show ?thesis
    by (auto simp: authorizeCallerCanGrant_def check_grant_None simp del: Has_org
        simp add: Has_def split: sum.splits)
qed

text \<open>
  The built-in roles form a strict chain of authority (a user with only SUPER_ADMIN
  dominates one with only ADMIN, who dominates one with only FIELD_TECH), and the seed of each
  of them satisfies the rule custom roles have to satisfy.
\<close>
theorem builtin_roles_chain:
  "let user = (\<lambda>ks. Some (NewEffectivePermissions
         [\<lparr>as_AssignmentID = 1, as_ScopeType = ScopeOrg, as_SiteID = None,
           as_Permissions = ks\<rparr>]))
   in StrictlyDominates (user AllPermissions) (user adminSeedPermissions) = Some True \<and>
      StrictlyDominates (user adminSeedPermissions) (user fieldTechSeedPermissions) = Some True \<and>
      list_all (\<lambda>r. validateReadPairing (br_SeedPermissions r) = None) BuiltinRoles"
  using admin_seed_strict field_tech_seed_strict seeds_paired
  unfolding Let_def org_role_dominates by blast

end
