(* ===== verification/Curtail_Envelope.thy ===== *)
theory Curtail_Envelope
  imports Authz
begin

text \<open>
  The authorization envelope of a curtailment
  (\<open>server/internal/domain/curtailment/authorization_envelope.go\<close>): the snapshot of resource
  coverage stored with an event, its strict parser, and the check that a caller's current
  permissions still cover it before the event is executed. The JSON decoder is a parameter.
\<close>

section \<open>Data\<close>

text \<open>A nil slice is \<open>None\<close>.\<close>

record authorization_envelope =
  ae_SchemaVersion :: int
  ae_SelectedResourceSiteIDs :: "int list option"
  ae_CurrentMemberSiteIDs :: "int list option"
  ae_MinerScopeUnbounded :: bool
  ae_FacilityFanSiteIDs :: "int list option"
  ae_FacilityFanScopeUnbounded :: bool

definition elems :: "'a list option \<Rightarrow> 'a list" where
  "elems x = (case x of None \<Rightarrow> [] | Some xs \<Rightarrow> xs)"

abbreviation PermCurtailmentManage :: string where "PermCurtailmentManage \<equiv> ''curtailment:manage''"
abbreviation PermSiteRead :: string where "PermSiteRead \<equiv> ''site:read''"
abbreviation AuthorizationEnvelopeSchemaVersion :: int where
  "AuthorizationEnvelopeSchemaVersion \<equiv> 1"

section \<open>AuthorizationEnvelopeAllows\<close>

definition manage_sites ::
  "authorization_envelope \<Rightarrow> int list \<Rightarrow> int list \<Rightarrow> int list" where
  "manage_sites env currentSelected currentMember =
     remdups (elems (ae_SelectedResourceSiteIDs env) @ elems (ae_CurrentMemberSiteIDs env) @
       elems (ae_FacilityFanSiteIDs env) @ currentSelected @ currentMember)"

definition AuthorizationEnvelopeAllows ::
  "effective_permissions option \<Rightarrow> authorization_envelope \<Rightarrow> int list \<Rightarrow> int list \<Rightarrow> bool \<Rightarrow> bool" where
  "AuthorizationEnvelopeAllows effective env currentSelected currentMember currentRequiresOrgWide =
     (if effective = None then False
      else if (ae_MinerScopeUnbounded env \<or> ae_FacilityFanScopeUnbounded env \<or>
               currentRequiresOrgWide) \<and>
              \<not> HasOrgWide effective PermCurtailmentManage then False
      else if \<not> list_all (\<lambda>s. Has effective PermCurtailmentManage (site_context s))
                 (manage_sites env currentSelected currentMember) then False
      else if ae_FacilityFanScopeUnbounded env \<and> \<not> HasOrgWide effective PermSiteRead then False
      else list_all (\<lambda>s. Has effective PermSiteRead (site_context s))
             (elems (ae_FacilityFanSiteIDs env)))"

section \<open>AuthorizationEnvelopeFromJSON\<close>

datatype envelope_error =
    EnvelopeMustBeSet
  | EnvelopeNotObject
  | EnvelopeFieldCount
  | EnvelopeMissingField string
  | EnvelopeNotBoolean string
  | EnvelopeInvalidField
  | EnvelopeUnsupportedVersion int
  | EnvelopeSitesNotArrays
  | EnvelopeSiteIDsNotPositive string
  | EnvelopeNoMinerCoverage

definition authorizationEnvelopeFields :: "string list" where
  "authorizationEnvelopeFields =
     [''schema_version'', ''selected_resource_site_ids'', ''current_member_site_ids'',
      ''miner_scope_unbounded'', ''facility_fan_site_ids'', ''facility_fan_scope_unbounded'']"

text \<open>ASCII white space; JSON admits no other around a value.\<close>

definition is_space :: "char \<Rightarrow> bool" where
  "is_space c \<longleftrightarrow> c \<in> {CHR 0x09, CHR 0x0A, CHR 0x0B, CHR 0x0C, CHR 0x0D, CHR '' ''}"

definition TrimSpace :: "string \<Rightarrow> string" where
  "TrimSpace s = rev (dropWhile is_space (rev (dropWhile is_space s)))"

definition validateAuthorizationEnvelopeSiteIDs ::
  "int list \<Rightarrow> string \<Rightarrow> envelope_error option" where
  "validateAuthorizationEnvelopeSiteIDs siteIDs field =
     (if list_ex (\<lambda>s. s \<le> 0) siteIDs then Some (EnvelopeSiteIDsNotPositive field) else None)"

definition is_null :: "(string \<times> string) list \<Rightarrow> string \<Rightarrow> bool" where
  "is_null obj field = (TrimSpace (case map_of obj field of None \<Rightarrow> [] | Some v \<Rightarrow> v) = ''null'')"

definition check_fields :: "(string \<times> string) list \<Rightarrow> envelope_error option" where
  "check_fields obj =
     (if length obj \<noteq> length authorizationEnvelopeFields then Some EnvelopeFieldCount
      else case List.find (\<lambda>field. map_of obj field = None) authorizationEnvelopeFields of
             Some field \<Rightarrow> Some (EnvelopeMissingField field)
           | None \<Rightarrow>
               map_option EnvelopeNotBoolean
                 (List.find (is_null obj)
                    [''miner_scope_unbounded'', ''facility_fan_scope_unbounded'']))"

definition check_envelope :: "authorization_envelope \<Rightarrow> envelope_error + authorization_envelope" where
  "check_envelope env =
     (if ae_SchemaVersion env \<noteq> AuthorizationEnvelopeSchemaVersion
      then Inl (EnvelopeUnsupportedVersion (ae_SchemaVersion env))
      else if ae_SelectedResourceSiteIDs env = None \<or> ae_CurrentMemberSiteIDs env = None \<or>
              ae_FacilityFanSiteIDs env = None then Inl EnvelopeSitesNotArrays
      else case validateAuthorizationEnvelopeSiteIDs (elems (ae_SelectedResourceSiteIDs env))
                  ''selected_resource_site_ids'' of
             Some e \<Rightarrow> Inl e
           | None \<Rightarrow>
               (case validateAuthorizationEnvelopeSiteIDs (elems (ae_CurrentMemberSiteIDs env))
                       ''current_member_site_ids'' of
                  Some e \<Rightarrow> Inl e
                | None \<Rightarrow>
                    (case validateAuthorizationEnvelopeSiteIDs (elems (ae_FacilityFanSiteIDs env))
                            ''facility_fan_site_ids'' of
                       Some e \<Rightarrow> Inl e
                     | None \<Rightarrow>
                         if \<not> ae_MinerScopeUnbounded env \<and>
                            elems (ae_SelectedResourceSiteIDs env) = [] \<and>
                            elems (ae_CurrentMemberSiteIDs env) = []
                         then Inl EnvelopeNoMinerCoverage
                         else Inr env)))"

text \<open>
  The two decodings of the input: the object's fields with their raw values (\<open>Inr None\<close> is the
  JSON value null) and the struct.
\<close>

definition AuthorizationEnvelopeFromJSON ::
  "(string \<Rightarrow> unit + (string \<times> string) list option) \<Rightarrow>
   (string \<Rightarrow> unit + authorization_envelope) \<Rightarrow>
   string \<Rightarrow> envelope_error + authorization_envelope" where
  "AuthorizationEnvelopeFromJSON unmarshal_fields unmarshal_envelope raw =
     (if raw = [] then Inl EnvelopeMustBeSet
      else case unmarshal_fields raw of
             Inl _ \<Rightarrow> Inl EnvelopeNotObject
           | Inr None \<Rightarrow> Inl EnvelopeNotObject
           | Inr (Some obj) \<Rightarrow>
               (case check_fields obj of
                  Some e \<Rightarrow> Inl e
                | None \<Rightarrow>
                    (case unmarshal_envelope raw of
                       Inl _ \<Rightarrow> Inl EnvelopeInvalidField
                     | Inr env \<Rightarrow> check_envelope env)))"

section \<open>Properties\<close>

text \<open>The permissions an envelope calls for; a missing site is the organisation itself.\<close>

definition required ::
  "authorization_envelope \<Rightarrow> int list \<Rightarrow> int list \<Rightarrow> bool \<Rightarrow> (string \<times> int option) set" where
  "required env currentSelected currentMember orgWide =
     (if ae_MinerScopeUnbounded env \<or> ae_FacilityFanScopeUnbounded env \<or> orgWide
      then {PermCurtailmentManage} \<times> UNIV else {}) \<union>
     {PermCurtailmentManage} \<times> Some ` (set (elems (ae_SelectedResourceSiteIDs env)) \<union>
       set (elems (ae_CurrentMemberSiteIDs env)) \<union> set (elems (ae_FacilityFanSiteIDs env)) \<union>
       set currentSelected \<union> set currentMember) \<union>
     (if ae_FacilityFanScopeUnbounded env then {PermSiteRead} \<times> UNIV else {}) \<union>
     {PermSiteRead} \<times> Some ` set (elems (ae_FacilityFanSiteIDs env))"

text \<open>
  C31. The envelope check is exactly coverage: it admits a snapshot if and only if the snapshot
  holds every permission the envelope and the current topology call for, at every site there is
  when a part of the scope is unbounded, and at every listed site otherwise.
\<close>
theorem envelope_allows_iff_covered:
  "AuthorizationEnvelopeAllows (Some p) env currentSelected currentMember orgWide \<longleftrightarrow>
    required env currentSelected currentMember orgWide \<subseteq> authority p"
proof -
  have org: "HasOrgWide (Some p) key \<longleftrightarrow> {key} \<times> UNIV \<subseteq> authority p" for key
    unfolding HasOrgWide_everywhere authority_iff [symmetric] by blast
  have sites: "list_all (\<lambda>s. Has (Some p) key (site_context s)) ss \<longleftrightarrow>
      {key} \<times> Some ` set ss \<subseteq> authority p" for key ss
    unfolding list_all_iff authority_iff [symmetric] by blast
  show ?thesis
    unfolding AuthorizationEnvelopeAllows_def required_def org sites
    by (auto simp: manage_sites_def)
qed

lemma check_envelope_id: "check_envelope env = Inr env' \<Longrightarrow> env' = env"
  by (auto simp: check_envelope_def split: if_splits option.splits)

lemma check_envelope_ok:
  assumes "check_envelope env = Inr env"
  shows "ae_SchemaVersion env = 1" "ae_SelectedResourceSiteIDs env \<noteq> None"
    "ae_CurrentMemberSiteIDs env \<noteq> None" "ae_FacilityFanSiteIDs env \<noteq> None"
    "set (manage_sites env [] []) \<subseteq> {s. 0 < s}"
    "ae_MinerScopeUnbounded env \<or>
      elems (ae_SelectedResourceSiteIDs env) @ elems (ae_CurrentMemberSiteIDs env) \<noteq> []"
  using assms
  by (auto simp: check_envelope_def manage_sites_def validateAuthorizationEnvelopeSiteIDs_def
      list_ex_iff not_le split: if_splits)

lemma check_fields_None:
  assumes "check_fields obj = None"
  shows "length obj = 6" "set authorizationEnvelopeFields \<subseteq> set (keys obj)"
  using assms
  by (auto simp: check_fields_def authorizationEnvelopeFields_def map_of_eq_None_iff
      split: if_splits option.splits)

text \<open>
  The parser fails closed. Whatever the two JSON decodings return, an accepted envelope has the
  supported version, came from an object with exactly the six fields, has three non-nil lists of
  positive site ids, and covers at least one site or is unbounded.
\<close>
theorem envelope_parser_fails_closed:
  "case AuthorizationEnvelopeFromJSON uf ue raw of
     Inl e \<Rightarrow> True
   | Inr env \<Rightarrow>
       (\<exists>obj. uf raw = Inr (Some obj) \<and> ue raw = Inr env \<and> length obj = 6 \<and>
          set authorizationEnvelopeFields \<subseteq> set (keys obj)) \<and>
       ae_SchemaVersion env = 1 \<and>
       None \<notin> {ae_SelectedResourceSiteIDs env, ae_CurrentMemberSiteIDs env,
                ae_FacilityFanSiteIDs env} \<and>
       set (manage_sites env [] []) \<subseteq> {s. 0 < s} \<and>
       (if ae_MinerScopeUnbounded env then True
        else elems (ae_SelectedResourceSiteIDs env) @ elems (ae_CurrentMemberSiteIDs env) \<noteq> [])"
proof (cases "AuthorizationEnvelopeFromJSON uf ue raw")
  case (Inl e)
  then show ?thesis by simp
next
  case (Inr env)
  then obtain obj where obj: "uf raw = Inr (Some obj)" "check_fields obj = None"
    "ue raw = Inr env" "check_envelope env = Inr env"
    using check_envelope_id
    by (fastforce simp: AuthorizationEnvelopeFromJSON_def split: if_splits sum.splits option.splits)
  with Inr show ?thesis
    using check_fields_None [OF obj(2)] check_envelope_ok [OF obj(4)] by auto
qed

end
