(* ===== verification/Curtail_Rows.thy ===== *)
theory Curtail_Rows
  imports Curtail_Service Curtail_Envelope
begin

text \<open>
  The rows the curtailment reconciler works on and the decisions it takes from them alone
  (\<open>curtailment/reconciler/reconciler.go\<close>, \<open>reconciler_allpaired.go\<close>,
  \<open>dispatch_authorization.go\<close>): its configuration, the event and
  target rows, the evidence telemetry gives that a miner is curtailed or restored, the retry
  budget, the batch and interval rules, the fan delays and the policy checks.

  An \<open>event\<close> holds the columns a tick does not change. The columns the handlers write back into
  the loaded event (the fan stamps and the pending-dispatch clock) are in \<open>event_cols\<close>. A target
  row is never nil: the store builds a row for every record. An \<open>int32\<close> counter wraps, as does the
  product of a number of seconds with \<open>time.Second\<close>.
\<close>

section \<open>Configuration\<close>

record reconciler_config =
  cf_TickInterval :: duration
  cf_MaxRetries :: int
  cf_CurtailMaxRetries :: int
  cf_DriftThresholdFactor :: f64
  cf_CurtailDispatchTimeoutSec :: int
  cf_RestoreDispatchTimeoutSec :: int
  cf_ConfirmationFastPathEnabled :: bool

definition defaultTickInterval :: duration where "defaultTickInterval = 30 * second"
definition defaultMaxRetries :: int where "defaultMaxRetries = 10"
definition defaultCurtailMaxRetries :: int where "defaultCurtailMaxRetries = 50"
definition defaultDriftThresholdFactor :: f64 where "defaultDriftThresholdFactor = Fin (1 / 2)"
definition defaultCurtailDispatchTimeoutSec :: int where "defaultCurtailDispatchTimeoutSec = 5"
definition defaultRestoreDispatchTimeoutSec :: int where "defaultRestoreDispatchTimeoutSec = 30"

definition withDefaults :: "reconciler_config \<Rightarrow> reconciler_config" where
  "withDefaults c = c
     \<lparr>cf_TickInterval := (if cf_TickInterval c \<le> 0 then defaultTickInterval else cf_TickInterval c),
      cf_MaxRetries := (if cf_MaxRetries c \<le> 0 then defaultMaxRetries else cf_MaxRetries c),
      cf_CurtailMaxRetries :=
        (if cf_CurtailMaxRetries c \<le> 0 then defaultCurtailMaxRetries else cf_CurtailMaxRetries c),
      cf_DriftThresholdFactor :=
        (if fl_le (cf_DriftThresholdFactor c) (Fin 0) then defaultDriftThresholdFactor
         else cf_DriftThresholdFactor c),
      cf_CurtailDispatchTimeoutSec :=
        (if cf_CurtailDispatchTimeoutSec c = 0 then defaultCurtailDispatchTimeoutSec
         else cf_CurtailDispatchTimeoutSec c),
      cf_RestoreDispatchTimeoutSec :=
        (if cf_RestoreDispatchTimeoutSec c \<le> 0 then defaultRestoreDispatchTimeoutSec
         else cf_RestoreDispatchTimeoutSec c)\<rparr>"

section \<open>Rows\<close>

text \<open>\<open>DesiredNone\<close> is the empty string.\<close>

datatype desired_state = DesiredNone | DesiredStateCurtailed | DesiredStateActive

datatype loop_type = LoopTypeOpen | LoopTypeClosed

record phase_summary =
  ph_State :: target_state
  ph_DispatchedAt :: "gotime option"
  ph_BatchUUID :: "string option"
  ph_CompletedAt :: "gotime option"
  ph_RetryCount :: int
  ph_LastError :: "string option"

record target =
  t_DeviceIdentifier :: string
  t_State :: target_state
  t_DesiredState :: desired_state
  t_BaselinePowerW :: "f64 option"
  t_LastDispatchedAt :: "gotime option"
  t_LastBatchUUID :: "string option"
  t_ObservedPowerW :: "f64 option"
  t_ObservedAt :: "gotime option"
  t_ConfirmedAt :: "gotime option"
  t_RetryCount :: int
  t_LastError :: "string option"
  t_CurtailPhase :: phase_summary
  t_RestorePhase :: "phase_summary option"

record event =
  e_EventUUID :: string
  e_OrgID :: int
  e_State :: event_state
  e_Mode :: event_mode
  e_LoopType :: loop_type
  e_ScopeType :: scope_type
  e_ScopeJSON :: string
  e_AuthorizationEnvelopeJSON :: string
  e_DecisionSnapshotJSON :: string
  e_CurtailBatchSize :: "int option"
  e_CurtailBatchIntervalSec :: int
  e_RestoreBatchSize :: int
  e_RestoreBatchIntervalSec :: int
  e_EffectiveBatchSize :: "int option"
  e_MaxDurationSeconds :: "int option"
  e_AllowUnbounded :: bool
  e_IncludeMaintenance :: bool
  e_ForceIncludeMaintenance :: bool
  e_ForceIncludeAllPairedMiners :: bool
  e_FacilityFanDeviceIDs :: "int list"
  e_FanOffDelaySec :: int
  e_FanRestoreDelaySec :: int
  e_StartedAt :: "gotime option"
  e_CreatedAt :: gotime

record event_cols =
  k_FanOffSentAt :: "gotime option"
  k_FanOnSentAt :: "gotime option"
  k_FanAirflowReopenedAt :: "gotime option"
  k_FanLastError :: "string option"
  k_LastCurtailPendingDispatchAt :: "gotime option"

section \<open>Telemetry evidence\<close>

definition isFinite :: "f64 \<Rightarrow> bool" where
  "isFinite v \<longleftrightarrow> \<not> is_nan v \<and> \<not> is_inf v"

text \<open>A pointer to a finite number.\<close>

abbreviation finite_sample :: "f64 option \<Rightarrow> bool" where
  "finite_sample p \<equiv> (case p of None \<Rightarrow> False | Some v \<Rightarrow> isFinite v)"

text \<open>Product of a finite positive number with any \<open>float64\<close>.\<close>

definition fl_mul_pos :: "rat \<Rightarrow> f64 \<Rightarrow> f64" where
  "fl_mul_pos b k = (case k of Fin q \<Rightarrow> rnd (b * q) | y \<Rightarrow> y)"

definition usable_baseline :: "f64 option \<Rightarrow> rat option" where
  "usable_baseline b = (case b of Some (Fin q) \<Rightarrow> if 0 < q then Some q else None | _ \<Rightarrow> None)"

definition isCurtailed ::
  "f64 option \<Rightarrow> f64 option \<Rightarrow> f64 option \<Rightarrow> f64 \<Rightarrow> bool \<Rightarrow> bool" where
  "isCurtailed latestPowerW baselinePowerW latestHashRateHS driftThresholdFactor
     requirePositiveEvidence =
     (if \<not> finite_sample latestPowerW then
        if requirePositiveEvidence then False
        else if \<not> finite_sample latestHashRateHS then True
        else fl_le (the latestHashRateHS) (Fin 0)
      else case usable_baseline baselinePowerW of
             Some b \<Rightarrow> fl_le (the latestPowerW) (fl_mul_pos b driftThresholdFactor)
           | None \<Rightarrow>
               if \<not> finite_sample latestHashRateHS then \<not> requirePositiveEvidence
               else fl_le (the latestHashRateHS) (Fin 0))"

definition hash_restored :: "f64 option \<Rightarrow> bool" where
  "hash_restored latestHashRateHS =
     (if \<not> finite_sample latestHashRateHS then False
      else fl_less (Fin 0) (the latestHashRateHS))"

definition isRestored :: "f64 option \<Rightarrow> f64 option \<Rightarrow> f64 option \<Rightarrow> f64 \<Rightarrow> bool" where
  "isRestored latestPowerW baselinePowerW latestHashRateHS restoreThresholdFactor =
     (if finite_sample latestPowerW then
        (case usable_baseline baselinePowerW of
           Some b \<Rightarrow> fl_less (fl_mul_pos b restoreThresholdFactor) (the latestPowerW)
         | None \<Rightarrow> hash_restored latestHashRateHS)
      else hash_restored latestHashRateHS)"

definition hasFreshTelemetry :: "model_candidate option \<Rightarrow> bool" where
  "hasFreshTelemetry cand =
     (case cand of
        None \<Rightarrow> False
      | Some c \<Rightarrow>
          if mc_LatestMetricsAt c = None then False
          else if finite_sample (mc_LatestPowerW c) then True
          else finite_sample (mc_LatestHashRateHS c))"

definition hasFreshCurtailedFanEvidence ::
  "model_candidate option \<Rightarrow> target \<Rightarrow> f64 \<Rightarrow> bool" where
  "hasFreshCurtailedFanEvidence cand t driftThresholdFactor =
     (case cand of
        None \<Rightarrow> False
      | Some c \<Rightarrow>
          if mc_LatestMetricsAt c = None then False
          else isCurtailed (mc_LatestPowerW c) (t_BaselinePowerW t) (mc_LatestHashRateHS c)
                 driftThresholdFactor True)"

section \<open>Retry budget\<close>

definition isCurtailRetryTarget :: "target \<Rightarrow> bool" where
  "isCurtailRetryTarget t \<longleftrightarrow>
     t_DesiredState t = DesiredNone \<or> t_DesiredState t = DesiredStateCurtailed"

definition maxRetriesForTarget :: "reconciler_config \<Rightarrow> target \<Rightarrow> int" where
  "maxRetriesForTarget cfg t =
     (if isCurtailRetryTarget t then cf_CurtailMaxRetries cfg else cf_MaxRetries cfg)"

definition retryBudgetTerminalizes :: "reconciler_config \<Rightarrow> target \<Rightarrow> int \<Rightarrow> bool" where
  "retryBudgetTerminalizes cfg t retryCount \<longleftrightarrow>
     \<not> isCurtailRetryTarget t \<and> maxRetriesForTarget cfg t \<le> retryCount"

definition loadedDispatchBatchUUID :: "target \<Rightarrow> string option" where
  "loadedDispatchBatchUUID t =
     (if t_DesiredState t = DesiredStateActive then
        (case t_RestorePhase t of None \<Rightarrow> None | Some p \<Rightarrow> ph_BatchUUID p)
      else ph_BatchUUID (t_CurtailPhase t))"

definition expectedDesiredStateForEventState :: "event_state \<Rightarrow> desired_state" where
  "expectedDesiredStateForEventState s =
     (case s of
        EventStatePending \<Rightarrow> DesiredStateCurtailed
      | EventStateActive \<Rightarrow> DesiredStateCurtailed
      | EventStateRestoring \<Rightarrow> DesiredStateActive
      | _ \<Rightarrow> DesiredNone)"

record skipped_command =
  sd_DeviceIdentifier :: string
  sd_FilterName :: string
  sd_Reason :: string

record command_result =
  cr_BatchIdentifier :: string
  cr_Skipped :: "skipped_command list"
  cr_DispatchedDeviceIdentifiers :: "string list"

definition skippedDeviceReason :: "skipped_command \<Rightarrow> string" where
  "skippedDeviceReason s =
     (if sd_Reason s \<noteq> [] then sd_Reason s
      else if sd_FilterName s \<noteq> [] then ''filtered by '' @ sd_FilterName s
      else ''filtered by command preflight'')"

text \<open>The map built by a loop over the list: a later entry for a device overwrites an earlier one.\<close>

definition skipped_set :: "skipped_command list \<Rightarrow> string \<Rightarrow> string option" where
  "skipped_set ss d = map_of (rev (map (\<lambda>s. (sd_DeviceIdentifier s, skippedDeviceReason s)) ss)) d"

definition candidatesByDeviceID :: "model_candidate list \<Rightarrow> string \<Rightarrow> model_candidate option" where
  "candidatesByDeviceID cands d = map_of (rev (map (\<lambda>c. (mc_DeviceIdentifier c, c)) cands)) d"

section \<open>Kinds of event\<close>

definition isAllPairedPolicyEvent :: "event \<Rightarrow> bool" where
  "isAllPairedPolicyEvent ev \<longleftrightarrow> e_ForceIncludeAllPairedMiners ev"

definition isAllPairedPolicyReleasedCurtailTarget :: "event \<Rightarrow> target \<Rightarrow> bool" where
  "isAllPairedPolicyReleasedCurtailTarget ev t \<longleftrightarrow>
     isAllPairedPolicyEvent ev \<and> t_State t = TargetStateReleased \<and>
     t_DesiredState t = DesiredStateCurtailed"

definition isClosedLoopFullFleet :: "event \<Rightarrow> bool" where
  "isClosedLoopFullFleet ev \<longleftrightarrow> e_Mode ev = ModeFullFleet \<and> e_LoopType ev = LoopTypeClosed"

definition isTopologyCandidateFilter :: "list_candidates_params \<Rightarrow> bool" where
  "isTopologyCandidateFilter p \<longleftrightarrow>
     lc_BuildingIDs p \<noteq> [] \<or> lc_RackIDs p \<noteq> [] \<or> lc_GroupIDs p \<noteq> []"

text \<open>
  The JSON decodings are parameters: the raw fields of an object (\<open>Inr None\<close> is null), the scope
  payload (the scope and its \<open>whole_org\<close> flag), and the members of \<open>scope_json\<close> and of the
  decision snapshot that are read on their own.
\<close>

record json =
  js_fields :: "string \<Rightarrow> unit + (string \<times> string) list option"
  js_scope :: "string \<Rightarrow> unit + (scope \<times> bool)"
  js_envelope :: "string \<Rightarrow> unit + authorization_envelope"
  js_site_id :: "string \<Rightarrow> unit + int"
  js_candidate_min_power_w :: "string \<Rightarrow> unit + int"
  js_post_event_cooldown_sec :: "string \<Rightarrow> unit + int"
  js_requires_admin_controls :: "string \<Rightarrow> unit + bool"

datatype scope_json_error =
    ScopeJSONInvalid
  | ScopeJSONNoSelector
  | ScopeJSONContract scope_error

definition scope_selector_fields :: "string list" where
  "scope_selector_fields =
     [''whole_org'', ''site_id'', ''site_ids'', ''building_ids'', ''rack_ids'', ''group_ids'',
      ''device_identifiers'']"

definition check_scope_json ::
  "(string \<times> string) list \<Rightarrow> scope \<Rightarrow> scope_json_error + scope option" where
  "check_scope_json obj s =
     (let n = length (filter (has_key obj) scope_selector_fields) in
      if n = 0 then
        (case validateScopeSchemaVersion (sc_SchemaVersion s) of
           Some e \<Rightarrow> Inl (ScopeJSONContract e)
         | None \<Rightarrow> if sc_SchemaVersion s \<noteq> 0 then Inl ScopeJSONNoSelector else Inr None)
      else if n \<noteq> 1 then Inl (ScopeJSONContract NotExactlyOneSelector)
      else case validateScopeContract s of
             Some e \<Rightarrow> Inl (ScopeJSONContract e)
           | None \<Rightarrow> Inr (Some (normalizeScope s)))"

text \<open>\<open>Inr None\<close> is the answer that the row holds no scope.\<close>

definition ScopeFromJSON :: "json \<Rightarrow> string \<Rightarrow> scope_json_error + scope option" where
  "ScopeFromJSON js raw =
     (if raw = [] then Inr None
      else case js_fields js raw of
             Inl _ \<Rightarrow> Inl ScopeJSONInvalid
           | Inr None \<Rightarrow> Inl ScopeJSONInvalid
           | Inr (Some obj) \<Rightarrow>
               (case js_scope js raw of
                  Inl _ \<Rightarrow> Inl ScopeJSONInvalid
                | Inr (payload, wholeOrg) \<Rightarrow>
                    check_scope_json obj
                      (payload\<lparr>sc_Type := (if wholeOrg then ScopeTypeWholeOrg
                                          else ScopeTypeOther [])\<rparr>)))"

definition listCandidatesParamsForEventScope :: "json \<Rightarrow> event \<Rightarrow> list_candidates_params option" where
  "listCandidatesParamsForEventScope js ev =
     (case e_ScopeType ev of
        ScopeTypeWholeOrg \<Rightarrow> Some no_filter
      | ScopeTypeSite \<Rightarrow>
          (case js_site_id js (e_ScopeJSON ev) of
             Inl _ \<Rightarrow> None
           | Inr s \<Rightarrow> if s \<le> 0 then None else Some (no_filter\<lparr>lc_SiteIDs := [s]\<rparr>))
      | ScopeTypeMixed \<Rightarrow>
          (case ScopeFromJSON js (e_ScopeJSON ev) of
             Inr (Some s) \<Rightarrow>
               (case ListCandidatesParamsForScope s of Inl _ \<Rightarrow> None | Inr p \<Rightarrow> Some p)
           | _ \<Rightarrow> None)
      | ScopeTypeDeviceList \<Rightarrow> None
      | ScopeTypeOther s \<Rightarrow> if s = [] then Some no_filter else None)"

definition isClosedLoopTopologyEvent :: "json \<Rightarrow> event \<Rightarrow> bool" where
  "isClosedLoopTopologyEvent js ev =
     (if \<not> isClosedLoopFullFleet ev then False
      else case listCandidatesParamsForEventScope js ev of
             None \<Rightarrow> False
           | Some p \<Rightarrow> isTopologyCandidateFilter p)"

definition isAllPairedTopologyPolicyEvent :: "json \<Rightarrow> event \<Rightarrow> bool" where
  "isAllPairedTopologyPolicyEvent js ev \<longleftrightarrow>
     isAllPairedPolicyEvent ev \<and> isClosedLoopTopologyEvent js ev"

definition candidateMinPowerWForEvent :: "json \<Rightarrow> event \<Rightarrow> int \<Rightarrow> int" where
  "candidateMinPowerWForEvent js ev fallback =
     (if e_DecisionSnapshotJSON ev = [] then fallback
      else case js_candidate_min_power_w js (e_DecisionSnapshotJSON ev) of
             Inl _ \<Rightarrow> fallback
           | Inr n \<Rightarrow> if n \<le> 0 then fallback else n)"

definition postEventCooldownSecForEvent :: "json \<Rightarrow> event \<Rightarrow> int" where
  "postEventCooldownSecForEvent js ev =
     (if e_DecisionSnapshotJSON ev = [] then 0
      else case js_post_event_cooldown_sec js (e_DecisionSnapshotJSON ev) of
             Inl _ \<Rightarrow> 0
           | Inr n \<Rightarrow> if n \<le> 0 then 0 else n)"

section \<open>Batches and intervals\<close>

definition batchSizeForEvent :: "event \<Rightarrow> int" where
  "batchSizeForEvent ev =
     (case e_EffectiveBatchSize ev of Some n \<Rightarrow> if 0 < n then n else 1 | None \<Rightarrow> 1)"

definition curtailBatchSizeForEvent :: "event \<Rightarrow> nat \<Rightarrow> int" where
  "curtailBatchSizeForEvent ev targetCount =
     (case e_CurtailBatchSize ev of
        Some n \<Rightarrow> if 0 < n then n else if targetCount = 0 then 1
                 else min (int targetCount) (2 ^ 31 - 1)
      | None \<Rightarrow> if targetCount = 0 then 1 else min (int targetCount) (2 ^ 31 - 1))"

definition curtailBatchIntervalActive :: "event \<Rightarrow> bool" where
  "curtailBatchIntervalActive ev \<longleftrightarrow>
     e_CurtailBatchSize ev \<noteq> None \<and> 0 < e_CurtailBatchIntervalSec ev"

definition hasUnrecordedCurtailDispatch :: "target list \<Rightarrow> bool" where
  "hasUnrecordedCurtailDispatch targets \<longleftrightarrow>
     list_ex (\<lambda>t. t_State t = TargetStateDispatching \<and> ph_DispatchedAt (t_CurtailPhase t) = None)
       targets"

text \<open>The clock is read only when an interval is active and a wave has been recorded.\<close>

definition interval_wait :: "event \<Rightarrow> event_cols \<Rightarrow> (gotime \<times> duration) option" where
  "interval_wait ev k =
     (if \<not> curtailBatchIntervalActive ev then None
      else map_option (\<lambda>t. (t, seconds (e_CurtailBatchIntervalSec ev)))
             (k_LastCurtailPendingDispatchAt k))"

definition hasInFlightCurtailDispatch :: "target list \<Rightarrow> bool" where
  "hasInFlightCurtailDispatch targets \<longleftrightarrow>
     list_ex (\<lambda>t. t_DesiredState t = DesiredStateCurtailed \<and> t_State t = TargetStateDispatching)
       targets"

definition restoreClaimBatchSize :: "event \<Rightarrow> int" where
  "restoreClaimBatchSize ev =
     (if e_RestoreBatchSize ev = 0 then RestoreBatchSizeMax else batchSizeForEvent ev)"

definition isReopenableTargetState :: "target_state \<Rightarrow> bool" where
  "isReopenableTargetState s \<longleftrightarrow>
     s = TargetStateResolved \<or> s = TargetStateRestoreFailed \<or> s = TargetStateReleased"

definition excludeNonReopenableExistingTargetParams ::
  "insert_target_params list \<Rightarrow> target list \<Rightarrow> insert_target_params list" where
  "excludeNonReopenableExistingTargetParams targets existingTargets =
     filter (\<lambda>p. case map_of (rev (map (\<lambda>t. (t_DeviceIdentifier t, t_State t)) existingTargets))
                       (it_DeviceIdentifier p) of
                   Some s \<Rightarrow> isReopenableTargetState s
                 | None \<Rightarrow> True) targets"

definition excludeDeviceIdentifiers ::
  "insert_target_params list \<Rightarrow> string list \<Rightarrow> insert_target_params list" where
  "excludeDeviceIdentifiers targets deviceIdentifiers =
     filter (\<lambda>p. it_DeviceIdentifier p \<notin> set deviceIdentifiers) targets"

section \<open>Facility fans\<close>

definition activeFanTargetConfirmation :: "target list \<Rightarrow> nat \<times> bool" where
  "activeFanTargetConfirmation targets =
     foldl (\<lambda>(confirmed, allConfirmed) t.
       if t_DesiredState t = DesiredStateActive then
         (confirmed, allConfirmed \<and> t_State t \<in> {TargetStateResolved, TargetStateReleased})
       else if t_State t \<noteq> TargetStateConfirmed then (confirmed, False)
       else (Suc confirmed, allConfirmed)) (0, True) targets"

definition activeFanTargetsNeedAirflow :: "event_cols \<Rightarrow> target list \<Rightarrow> bool" where
  "activeFanTargetsNeedAirflow k targets =
     (if k_FanOffSentAt k = None then False
      else case activeFanTargetConfirmation targets of
             (confirmed, allConfirmed) \<Rightarrow> \<not> allConfirmed \<or> confirmed = 0)"

text \<open>The loop of \<open>activeFanOffDelayElapsed\<close>; \<open>None\<close> is its early return.\<close>

fun latest_confirmation ::
  "gotime option \<Rightarrow> gotime option \<Rightarrow> target list \<Rightarrow> gotime option option" where
  "latest_confirmation reopened acc [] = Some acc"
| "latest_confirmation reopened acc (t # ts) =
     (if t_DesiredState t = DesiredStateActive then latest_confirmation reopened acc ts
      else if t_State t \<noteq> TargetStateConfirmed then None
      else case t_ConfirmedAt t of
             None \<Rightarrow> None
           | Some c \<Rightarrow>
               if (case reopened of None \<Rightarrow> False | Some r \<Rightarrow> time_before c r) then None
               else latest_confirmation reopened
                      (case acc of
                         None \<Rightarrow> Some c
                       | Some l \<Rightarrow> if time_after c l then Some c else Some l) ts)"

definition activeFanOffDelayElapsed :: "event \<Rightarrow> event_cols \<Rightarrow> target list \<Rightarrow> gotime \<Rightarrow> bool" where
  "activeFanOffDelayElapsed ev k targets now =
     (if e_FanOffDelaySec ev \<le> 0 then True
      else case latest_confirmation (k_FanAirflowReopenedAt k) None targets of
             Some (Some latest) \<Rightarrow>
               (let delayStartedAt =
                      (case k_FanAirflowReopenedAt k of
                         Some r \<Rightarrow> if time_after r latest then r else latest
                       | None \<Rightarrow> latest)
                in \<not> time_before now (time_add delayStartedAt (seconds (e_FanOffDelaySec ev))))
           | _ \<Rightarrow> False)"

definition fanAirflowNeedsReopen :: "event_cols \<Rightarrow> bool" where
  "fanAirflowNeedsReopen k \<longleftrightarrow>
     k_FanOffSentAt k \<noteq> None \<and> (k_FanAirflowReopenedAt k = None \<or> k_FanLastError k \<noteq> None)"

definition restoringFanAirflowStartedAt :: "event_cols \<Rightarrow> gotime option" where
  "restoringFanAirflowStartedAt k =
     (case (k_FanOnSentAt k, k_FanAirflowReopenedAt k) of
        (Some on, Some reopened) \<Rightarrow> if time_before reopened on then None else Some reopened
      | _ \<Rightarrow> None)"

definition restoreFanFailureAlertStartedAt :: "event_cols \<Rightarrow> gotime option" where
  "restoreFanFailureAlertStartedAt k =
     (case restoringFanAirflowStartedAt k of
        Some t \<Rightarrow> Some t
      | None \<Rightarrow> if k_FanOnSentAt k \<noteq> None then k_FanOnSentAt k else k_FanAirflowReopenedAt k)"

section \<open>Topology obligations and the all-paired policy\<close>

definition hasTopologyRestoreWork :: "target list \<Rightarrow> bool" where
  "hasTopologyRestoreWork targets \<longleftrightarrow>
     list_ex (\<lambda>t. t_DesiredState t = DesiredStateActive \<and>
       t_State t \<notin> {TargetStateUnavailable, TargetStateResolved, TargetStateRestoreFailed,
                     TargetStateReleased}) targets"

definition targetErrorString :: "target \<Rightarrow> string" where
  "targetErrorString t = (case t_LastError t of None \<Rightarrow> [] | Some e \<Rightarrow> e)"

definition shouldRefreshAllPairedRestoreTarget :: "target \<Rightarrow> target_state \<Rightarrow> string \<Rightarrow> bool" where
  "shouldRefreshAllPairedRestoreTarget t nextState reason =
     (if t_State t = TargetStatePending then nextState \<noteq> TargetStatePending
      else if t_State t = TargetStateUnavailable
      then nextState \<noteq> t_State t \<or> reason \<noteq> targetErrorString t
      else if t_State t = TargetStateRestoreFailed then nextState \<noteq> TargetStatePending
      else False)"

definition allPairedPolicyRefreshDeviceIdentifiers :: "target list \<Rightarrow> string list" where
  "allPairedPolicyRefreshDeviceIdentifiers targets =
     map t_DeviceIdentifier
       (filter (\<lambda>t. t_DeviceIdentifier t \<noteq> [] \<and> t_DesiredState t = DesiredStateCurtailed \<and>
                    t_State t \<in> {TargetStatePending, TargetStateUnavailable}) targets)"

record topology_coverage =
  tc_SelectedResourceSiteIDs :: "int list"
  tc_CurrentMemberSiteIDs :: "int list"
  tc_RequireOrgWide :: bool

definition siteIDsWithinEnvelope :: "int list \<Rightarrow> int list \<Rightarrow> bool" where
  "siteIDsWithinEnvelope current persisted \<longleftrightarrow> list_all (\<lambda>s. s \<in> set persisted) current"

definition topologyCoverageWithinEnvelope ::
  "topology_coverage \<Rightarrow> authorization_envelope \<Rightarrow> bool" where
  "topologyCoverageWithinEnvelope coverage env =
     (if ae_MinerScopeUnbounded env then True
      else if tc_RequireOrgWide coverage then False
      else siteIDsWithinEnvelope (tc_SelectedResourceSiteIDs coverage)
             (elems (ae_SelectedResourceSiteIDs env)) \<and>
           siteIDsWithinEnvelope (tc_CurrentMemberSiteIDs coverage)
             (elems (ae_CurrentMemberSiteIDs env)))"

definition authorizationEnvelopeAllowsDispatch ::
  "effective_permissions option \<Rightarrow> authorization_envelope \<Rightarrow> topology_coverage \<Rightarrow> bool" where
  "authorizationEnvelopeAllowsDispatch effective env coverage =
     AuthorizationEnvelopeAllows effective env (tc_SelectedResourceSiteIDs coverage)
       (tc_CurrentMemberSiteIDs coverage) (tc_RequireOrgWide coverage)"

definition nonAdminRestoreBatchIntervalMax :: int where "nonAdminRestoreBatchIntervalMax = 300"

definition EventRequiresAdminControls :: "json \<Rightarrow> event \<Rightarrow> org_config option \<Rightarrow> unit + bool" where
  "EventRequiresAdminControls js ev orgConfig =
     (if e_AllowUnbounded ev \<or> e_ForceIncludeMaintenance ev \<or> e_ForceIncludeAllPairedMiners ev \<or>
         nonAdminRestoreBatchIntervalMax < e_CurtailBatchIntervalSec ev \<or>
         nonAdminRestoreBatchIntervalMax < e_RestoreBatchIntervalSec ev \<or>
         (case (e_MaxDurationSeconds ev, orgConfig) of
            (Some m, Some oc) \<Rightarrow>
              0 < oc_MaxDurationDefaultSec oc \<and> oc_MaxDurationDefaultSec oc < m
          | _ \<Rightarrow> False)
      then Inr True
      else if e_DecisionSnapshotJSON ev = [] then Inr False
      else js_requires_admin_controls js (e_DecisionSnapshotJSON ev))"

end
