(* ===== verification/Curtail_Effects.thy ===== *)
theory Curtail_Effects
  imports Curtail_Rows "HOL-Library.State_Monad"
begin

text \<open>
  The state a tick of the curtailment reconciler runs in and the calls it makes.

  A handler is a computation of the state monad over a \<open>world\<close>: the target rows it loaded (the
  \<open>[]*models.Target\<close> slice; a pointer into it is an index), the columns of the event it writes
  back, the dispatch rejections latched per event, whether the confirmation pulse was woken, and
  the trace of the calls made so far, newest first. The receiver \<open>r\<close> is the \<open>Reconciler\<close> struct:
  its configuration, JSON decodings and collaborators (store, command service, permission
  resolver, clock). A collaborator is a function of the trace, so it may answer every call
  differently and may depend on everything that happened before: other processes that write the
  same rows show up as the answers of the store. Logging and metrics are left out.
\<close>

section \<open>Calls and answers\<close>

text \<open>The result of a guarded write: \<open>nil\<close>, \<open>ErrCurtailmentEventStateRaceLoss\<close>, another error.\<close>

datatype store_result = Stored | RaceLoss | Failed string

datatype live_answer = LiveError | LiveMissing | LiveState event_state

datatype power_mode = PowerOn | PowerOff

record update_params =
  up_State :: target_state
  up_LastDispatchedAt :: "gotime option"
  up_LastBatchUUID :: "string option"
  up_ObservedPowerW :: "f64 option"
  up_ObservedAt :: "gotime option"
  up_ConfirmedAt :: "gotime option"
  up_RetryCount :: "int option"
  up_LastError :: "string option"
  up_ExpectedEventState :: "event_state option"
  up_ExpectedDesiredState :: "desired_state option"
  up_ExpectedState :: "target_state option"
  up_ExpectedDispatchBatchUUID :: "string option"

text \<open>A literal of the struct with only \<open>State\<close> set.\<close>

definition params_of :: "target_state \<Rightarrow> update_params" where
  "params_of s =
     \<lparr>up_State = s, up_LastDispatchedAt = None, up_LastBatchUUID = None, up_ObservedPowerW = None,
      up_ObservedAt = None, up_ConfirmedAt = None, up_RetryCount = None, up_LastError = None,
      up_ExpectedEventState = None, up_ExpectedDesiredState = None, up_ExpectedState = None,
      up_ExpectedDispatchBatchUUID = None\<rparr>"

lemma params_of_simps [simp]:
  "up_State (params_of s) = s" "up_LastDispatchedAt (params_of s) = None"
  "up_LastBatchUUID (params_of s) = None" "up_RetryCount (params_of s) = None"
  "up_ExpectedEventState (params_of s) = None" "up_ExpectedDesiredState (params_of s) = None"
  "up_ExpectedState (params_of s) = None" "up_ExpectedDispatchBatchUUID (params_of s) = None"
  "up_ConfirmedAt (params_of s) = None" "up_ObservedPowerW (params_of s) = None"
  by (simp_all add: params_of_def)

record readiness_update =
  ru_DeviceIdentifier :: string
  ru_ExpectedState :: target_state
  ru_ExpectedDesiredState :: desired_state
  ru_State :: target_state
  ru_Reason :: string
  ru_BaselinePowerW :: "f64 option"

record fan_params =
  fp_ExpectedEventState :: event_state
  fp_FanOffSentAt :: "gotime option"
  fp_FanOnSentAt :: "gotime option"
  fp_FanAirflowReopenedAt :: "gotime option"
  fp_FanAirflowReopenedAtOnSuccess :: "gotime option"
  fp_ClearFanAirflowReopenedAt :: bool
  fp_LastError :: "string option"

definition fan_params_of :: "event_state \<Rightarrow> fan_params" where
  "fan_params_of s =
     \<lparr>fp_ExpectedEventState = s, fp_FanOffSentAt = None, fp_FanOnSentAt = None,
      fp_FanAirflowReopenedAt = None, fp_FanAirflowReopenedAtOnSuccess = None,
      fp_ClearFanAirflowReopenedAt = False, fp_LastError = None\<rparr>"

text \<open>\<open>FanStored\<close> carries the error text the command returned; \<open>FanFailed\<close> is an error of the store.\<close>

datatype fan_answer = FanStored "string option" | FanFailed

record topology_snapshot =
  ts_Coverage :: topology_coverage
  ts_DispatchMembers :: "string list"

text \<open>A fence either fails before its callback runs, or runs it on the locked event.\<close>

datatype fence_answer = FenceFailed store_result | FenceOpen event topology_snapshot

datatype coverage_answer = Coverage topology_coverage | CoverageInvalid | CoverageError

type_synonym curtail_answer = "string + command_result option"

text \<open>The trace.\<close>

datatype trace_entry =
    ENow gotime
  | ELive live_answer
  | ERead string
  | ECandidates list_candidates_params
  | EWrite string update_params store_result
  | EBump string store_result
  | EClock event_state gotime store_result
  | ECurtail "string list"
  | EUncurtail "string list"
  | EFence fence_answer
  | EFenceEnd store_result
  | EPark "string list" store_result
  | EEventState event_state event_state "gotime option" "gotime option" store_result
  | EBeginRestore "string list" bool
  | EFanIntent fan_params fan_answer
  | EFan power_mode fan_params fan_answer
  | EFanAlert bool
  | EReadiness "readiness_update list" "string list option"
  | EDepartures "string list" store_result
  | EClaim int int "insert_target_params list"
  | EEvent event
  | EHeartbeat gotime int

section \<open>The receiver and the world\<close>

type_synonym 'a ask = "trace_entry list \<Rightarrow> 'a"

record reconciler =
  r_cfg :: reconciler_config
  r_json :: json
  r_now :: "gotime ask"
  r_GetEventByUUID :: "live_answer ask"
  r_remaining :: "duration ask"
  r_ListNonTerminalEvents :: "(event \<times> event_cols) list option ask"
  r_ListTargetsByEvent :: "target list option ask"
  r_ListCandidates :: "(list_candidates_params \<Rightarrow> model_candidate list option) ask"
  r_UpdateTargetState :: "(string \<Rightarrow> update_params \<Rightarrow> store_result) ask"
  r_BumpTargetRetry :: "(string \<Rightarrow> store_result) ask"
  r_RecordCurtailPendingDispatch :: "(event_state \<Rightarrow> gotime \<Rightarrow> store_result) ask"
  r_UpdateEventState ::
    "(event_state \<Rightarrow> event_state \<Rightarrow> gotime option \<Rightarrow> gotime option \<Rightarrow> store_result) ask"
  r_BeginRestoreTransition :: "(string list \<Rightarrow> bool) ask"
  r_BulkRefresh :: "(readiness_update list \<Rightarrow> string list option) ask"
  r_GetOrgConfig :: "org_config option ask"
  r_ListActiveTargetDevices :: "string list option ask"
  r_ListCooldownDevices :: "(int \<Rightarrow> string list \<Rightarrow> string list option) ask"
  r_ClaimFullFleet :: "(int \<Rightarrow> int \<Rightarrow> insert_target_params list \<Rightarrow> target list option) ask"
  r_ClaimAllPaired :: "(int \<Rightarrow> insert_target_params list \<Rightarrow> int option) ask"
  r_Curtail :: "(string list \<Rightarrow> curtail_answer) ask"
  r_Uncurtail :: "(string list \<Rightarrow> curtail_answer) ask"
  r_fans :: bool
  r_fanStore :: bool
  r_fanAlert :: bool
  r_CommandFanState :: "(fan_params \<Rightarrow> power_mode option \<Rightarrow> fan_answer) ask"
  r_topologyStore :: "(list_candidates_params \<Rightarrow> coverage_answer) ask option"
  r_restoreStore :: "(string list \<Rightarrow> store_result) ask option"
  r_dispatchFence :: "(list_candidates_params \<Rightarrow> string list \<Rightarrow> fence_answer) ask option"
  r_restoreFence :: "(string list \<Rightarrow> fence_answer) ask option"
  r_fenceEnd :: "store_result ask"
  r_ParkReturnedTargets :: "(string list \<Rightarrow> store_result) ask"
  r_LoadEffective :: "(unit + effective_permissions option) ask option"
  r_LoadRoleName :: "(unit + string) ask"

record world =
  w_targets :: "target list"
  w_cols :: event_cols
  w_rejects :: "(string \<times> (string \<times> bool)) list"
  w_wake :: bool
  w_log :: "trace_entry list"

type_synonym 'a act = "(world, 'a) state"

abbreviation ret :: "'a \<Rightarrow> 'a act" where
  "ret \<equiv> State_Monad.return"

definition gets :: "(world \<Rightarrow> 'a) \<Rightarrow> 'a act" where
  "gets f = State (\<lambda>w. (f w, w))"

definition modify :: "(world \<Rightarrow> world) \<Rightarrow> unit act" where
  "modify f = State (\<lambda>w. ((), f w))"

text \<open>A call to a collaborator: the answer depends on the trace, and the call is added to it.\<close>

definition perform :: "'a ask \<Rightarrow> ('a \<Rightarrow> trace_entry) \<Rightarrow> 'a act" where
  "perform ask mk = State (\<lambda>w. let a = ask (w_log w) in (a, w\<lparr>w_log := mk a # w_log w\<rparr>))"

abbreviation targets :: "target list act" where
  "targets \<equiv> gets w_targets"

abbreviation cols :: "event_cols act" where
  "cols \<equiv> gets w_cols"

definition tgt :: "nat \<Rightarrow> target act" where
  "tgt i = gets (\<lambda>w. w_targets w ! i)"

definition upd :: "nat \<Rightarrow> (target \<Rightarrow> target) \<Rightarrow> unit act" where
  "upd i f = modify (\<lambda>w. w\<lparr>w_targets := (w_targets w)[i := f (w_targets w ! i)]\<rparr>)"

definition upd_cols :: "(event_cols \<Rightarrow> event_cols) \<Rightarrow> unit act" where
  "upd_cols f = modify (\<lambda>w. w\<lparr>w_cols := f (w_cols w)\<rparr>)"

definition now :: "reconciler \<Rightarrow> gotime act" where
  "now r = perform (r_now r) ENow"

fun each :: "('b \<Rightarrow> unit act) \<Rightarrow> 'b list \<Rightarrow> unit act" where
  "each f [] = ret ()"
| "each f (x # xs) = do { f x; each f xs }"

section \<open>Preconditions\<close>

text \<open>
  \<open>wp m Q\<close> holds of a world from which \<open>m\<close> ends in a result and world with \<open>Q\<close>. Every computation
  ends, so this is total correctness. \<open>keeps I m\<close>: \<open>m\<close> preserves \<open>I\<close>. The rules below are in the
  collections \<open>wp\<close> (rewriting) and \<open>keeps\<close> (introduction).
\<close>

named_theorems wp and keeps_intro

definition wp :: "'a act \<Rightarrow> ('a \<Rightarrow> world \<Rightarrow> bool) \<Rightarrow> world \<Rightarrow> bool" where
  "wp m Q w = (case run_state m w of (a, w') \<Rightarrow> Q a w')"

lemma wp_ret [wp]: "wp (ret a) Q = Q a"
  by (simp add: wp_def fun_eq_iff)

lemma wp_bind [wp]: "wp (State_Monad.bind m f) Q = wp m (\<lambda>a. wp (f a) Q)"
  by (simp add: wp_def fun_eq_iff split: prod.splits)

lemma wp_gets [wp]: "wp (gets f) Q = (\<lambda>w. Q (f w) w)"
  by (simp add: wp_def gets_def fun_eq_iff)

lemma wp_modify [wp]: "wp (modify f) Q = (\<lambda>w. Q () (f w))"
  by (simp add: wp_def modify_def fun_eq_iff)

lemma wp_perform [wp]:
  "wp (perform ask mk) Q =
     (\<lambda>w. Q (ask (w_log w)) (w\<lparr>w_log := mk (ask (w_log w)) # w_log w\<rparr>))"
  by (simp add: wp_def perform_def Let_def fun_eq_iff)

lemma wp_tgt [wp]: "wp (tgt i) Q = (\<lambda>w. Q (w_targets w ! i) w)"
  by (simp add: tgt_def wp)

lemma wp_upd [wp]:
  "wp (upd i f) Q = (\<lambda>w. Q () (w\<lparr>w_targets := (w_targets w)[i := f (w_targets w ! i)]\<rparr>))"
  by (simp add: upd_def wp)

lemma wp_upd_cols [wp]: "wp (upd_cols f) Q = (\<lambda>w. Q () (w\<lparr>w_cols := f (w_cols w)\<rparr>))"
  by (simp add: upd_cols_def wp)

lemma wp_now [wp]:
  "wp (now r) Q = (\<lambda>w. Q (r_now r (w_log w)) (w\<lparr>w_log := ENow (r_now r (w_log w)) # w_log w\<rparr>))"
  by (simp add: now_def wp)

lemma wp_if [wp]: "wp (if b then m else n) Q = (if b then wp m Q else wp n Q)"
  by simp

lemma wp_mono: "wp m P w \<Longrightarrow> (\<And>a w'. P a w' \<Longrightarrow> Q a w') \<Longrightarrow> wp m Q w"
  by (auto simp: wp_def split: prod.splits)

lemma wp_always: "(\<And>a w'. Q a w') \<Longrightarrow> wp m Q w"
  by (auto simp: wp_def split: prod.splits)

lemma wp_conj: "wp m P w \<Longrightarrow> wp m Q w \<Longrightarrow> wp m (\<lambda>a w'. P a w' \<and> Q a w') w"
  by (auto simp: wp_def split: prod.splits)

definition keeps :: "(world \<Rightarrow> bool) \<Rightarrow> 'a act \<Rightarrow> bool" where
  "keeps I m \<longleftrightarrow> (\<forall>w. I w \<longrightarrow> wp m (\<lambda>_. I) w)"

lemma keepsD: "keeps I m \<Longrightarrow> I w \<Longrightarrow> wp m (\<lambda>_. I) w"
  by (simp add: keeps_def)

lemma keeps_snd: "keeps I m \<Longrightarrow> I w \<Longrightarrow> I (snd (run_state m w))"
  by (cases "run_state m w") (auto simp: keeps_def wp_def)

lemma keeps_ret [keeps_intro, intro!]: "keeps I (ret a)"
  by (simp add: keeps_def wp)

lemma keeps_gets [keeps_intro, intro!]: "keeps I (gets f)"
  by (simp add: keeps_def wp)

lemma keeps_tgt [keeps_intro, intro!]: "keeps I (tgt i)"
  by (simp add: keeps_def wp)

lemma keeps_bind [keeps_intro]:
  "keeps I m \<Longrightarrow> (\<And>a. keeps I (f a)) \<Longrightarrow> keeps I (State_Monad.bind m f)"
  unfolding keeps_def by (auto simp: wp intro: wp_mono)

lemma keeps_if [keeps_intro]:
  "(b \<Longrightarrow> keeps I m) \<Longrightarrow> (\<not> b \<Longrightarrow> keeps I n) \<Longrightarrow> keeps I (if b then m else n)"
  by simp

lemma keeps_option [keeps_intro]:
  "(x = None \<Longrightarrow> keeps I m) \<Longrightarrow> (\<And>y. x = Some y \<Longrightarrow> keeps I (f y)) \<Longrightarrow>
   keeps I (case x of None \<Rightarrow> m | Some y \<Rightarrow> f y)"
  by (cases x) simp_all

lemma keeps_sum [keeps_intro]:
  "(\<And>y. x = Inl y \<Longrightarrow> keeps I (f y)) \<Longrightarrow> (\<And>y. x = Inr y \<Longrightarrow> keeps I (g y)) \<Longrightarrow>
   keeps I (case x of Inl y \<Rightarrow> f y | Inr y \<Rightarrow> g y)"
  by (cases x) simp_all

lemma keeps_prod [keeps_intro]:
  "(\<And>y z. x = (y, z) \<Longrightarrow> keeps I (f y z)) \<Longrightarrow> keeps I (case x of (y, z) \<Rightarrow> f y z)"
  by (cases x) simp_all

lemma keeps_store_result [keeps_intro]:
  "keeps I m \<Longrightarrow> keeps I n \<Longrightarrow> (\<And>e. keeps I (f e)) \<Longrightarrow>
   keeps I (case x of Stored \<Rightarrow> m | RaceLoss \<Rightarrow> n | Failed e \<Rightarrow> f e)"
  by (cases x) simp_all

lemma keeps_fan_answer [keeps_intro]:
  "(\<And>e. keeps I (f e)) \<Longrightarrow> keeps I m \<Longrightarrow>
   keeps I (case x of FanStored e \<Rightarrow> f e | FanFailed \<Rightarrow> m)"
  by (cases x) simp_all

lemma keeps_Let [keeps_intro]: "keeps I (f x) \<Longrightarrow> keeps I (let y = x in f y)"
  by simp

lemma keeps_each [keeps_intro]: "(\<And>x. x \<in> set xs \<Longrightarrow> keeps I (f x)) \<Longrightarrow> keeps I (each f xs)"
  by (induction xs) (auto intro: keeps_intro)

end
