(* ===== verification/Curtail_Dispatch.thy ===== *)
theory Curtail_Dispatch
  imports Curtail_Effects
begin

text \<open>
  Sending commands (\<open>curtailment/reconciler/reconciler.go\<close> and \<open>dispatch_authorization.go\<close>): the
  guarded row writes, the recording of failures against the retry budget, the liveness check, the
  authorization of commands to a topology scope, the Curtail batches and the Uncurtail batches.
\<close>

section \<open>Rows and liveness\<close>

definition fill_params :: "event \<Rightarrow> update_params \<Rightarrow> update_params" where
  "fill_params ev p = p
     \<lparr>up_ExpectedEventState :=
        (case up_ExpectedEventState p of None \<Rightarrow> Some (e_State ev) | s \<Rightarrow> s),
      up_ExpectedDesiredState :=
        (case up_ExpectedDesiredState p of
           None \<Rightarrow> (case expectedDesiredStateForEventState (e_State ev) of
                     DesiredNone \<Rightarrow> None | d \<Rightarrow> Some d)
         | d \<Rightarrow> d)\<rparr>"

definition writeTargetState ::
  "reconciler \<Rightarrow> event \<Rightarrow> string \<Rightarrow> update_params \<Rightarrow> store_result act" where
  "writeTargetState r ev deviceID p =
     (let q = fill_params ev p
      in perform (\<lambda>l. r_UpdateTargetState r l deviceID q) (EWrite deviceID q))"

definition bumpTargetRetry :: "reconciler \<Rightarrow> string \<Rightarrow> store_result act" where
  "bumpTargetRetry r deviceID = perform (\<lambda>l. r_BumpTargetRetry r l deviceID) (EBump deviceID)"

definition recordDispatchFailureGuarded ::
  "reconciler \<Rightarrow> event \<Rightarrow> nat \<Rightarrow> string \<Rightarrow> target_state \<Rightarrow>
   (target_state \<times> string option) option \<Rightarrow> unit act" where
  "recordDispatchFailureGuarded r ev i errMsg nonTerminalFailureState guard = do {
     t \<leftarrow> tgt i;
     let newRetry = wrap32 (t_RetryCount t + 1);
     let state = (if retryBudgetTerminalizes (r_cfg r) t newRetry then TargetStateRestoreFailed
                  else nonTerminalFailureState);
     let params = (params_of state)
           \<lparr>up_LastError := Some errMsg, up_RetryCount := Some newRetry,
            up_ExpectedDesiredState :=
              (if t_DesiredState t \<noteq> DesiredNone then Some (t_DesiredState t) else None),
            up_ExpectedState := map_option fst guard,
            up_ExpectedDispatchBatchUUID := Option.bind guard snd\<rparr>;
     res \<leftarrow> writeTargetState r ev (t_DeviceIdentifier t) params;
     (case res of
        Stored \<Rightarrow> upd i (\<lambda>t. t\<lparr>t_State := state, t_RetryCount := newRetry,
                                   t_LastError := Some errMsg\<rparr>)
      | RaceLoss \<Rightarrow> ret ()
      | Failed _ \<Rightarrow>
          if guard \<noteq> None then ret ()
          else do {
            b \<leftarrow> bumpTargetRetry r (t_DeviceIdentifier t);
            if b = Stored then upd i (\<lambda>t. t\<lparr>t_RetryCount := newRetry\<rparr>) else ret () })}"

definition recordDispatchFailure ::
  "reconciler \<Rightarrow> event \<Rightarrow> nat \<Rightarrow> string \<Rightarrow> target_state \<Rightarrow> unit act" where
  "recordDispatchFailure r ev i errMsg nonTerminalFailureState =
     recordDispatchFailureGuarded r ev i errMsg nonTerminalFailureState None"

definition recordDispatchedObservationFailure ::
  "reconciler \<Rightarrow> event \<Rightarrow> nat \<Rightarrow> string \<Rightarrow> target_state \<Rightarrow> unit act" where
  "recordDispatchedObservationFailure r ev i errMsg nonTerminalFailureState = do {
     t \<leftarrow> tgt i;
     recordDispatchFailureGuarded r ev i errMsg nonTerminalFailureState
       (Some (TargetStateDispatched, loadedDispatchBatchUUID t)) }"

definition eventStillDispatchable :: "reconciler \<Rightarrow> event \<Rightarrow> bool act" where
  "eventStillDispatchable r ev = do {
     latest \<leftarrow> perform (r_GetEventByUUID r) ELive;
     ret (case latest of
            LiveState s \<Rightarrow> \<not> (IsTerminal s \<or> s \<noteq> e_State ev)
          | _ \<Rightarrow> False) }"

definition recordCurtailPendingDispatch :: "reconciler \<Rightarrow> event \<Rightarrow> gotime \<Rightarrow> bool act" where
  "recordCurtailPendingDispatch r ev dispatchedAt = do {
     res \<leftarrow> perform (\<lambda>l. r_RecordCurtailPendingDispatch r l (e_State ev) dispatchedAt)
             (EClock (e_State ev) dispatchedAt);
     (case res of
        Stored \<Rightarrow> do {
          upd_cols (\<lambda>k. k\<lparr>k_LastCurtailPendingDispatchAt := Some dispatchedAt\<rparr>);
          ret True }
      | RaceLoss \<Rightarrow> ret False
      | Failed _ \<Rightarrow> ret False) }"

definition curtailBatchIntervalElapsed :: "reconciler \<Rightarrow> event \<Rightarrow> bool act" where
  "curtailBatchIntervalElapsed r ev = do {
     k \<leftarrow> cols;
     (case interval_wait ev k of
        None \<Rightarrow> ret True
      | Some (prior, interval) \<Rightarrow> do { t \<leftarrow> now r; ret (interval \<le> time_sub t prior) }) }"

definition sendCurtail :: "reconciler \<Rightarrow> string list \<Rightarrow> curtail_answer act" where
  "sendCurtail r ids = perform (\<lambda>l. r_Curtail r l ids) (\<lambda>_. ECurtail ids)"

definition sendUncurtail :: "reconciler \<Rightarrow> string list \<Rightarrow> curtail_answer act" where
  "sendUncurtail r ids = perform (\<lambda>l. r_Uncurtail r l ids) (\<lambda>_. EUncurtail ids)"

definition beginRestore :: "reconciler \<Rightarrow> string list \<Rightarrow> bool act" where
  "beginRestore r unsent = perform (\<lambda>l. r_BeginRestoreTransition r l unsent) (EBeginRestore unsent)"

section \<open>Topology authorization\<close>

definition AdminRoleName :: string where "AdminRoleName = ''ADMIN''"
definition SuperAdminRoleName :: string where "SuperAdminRoleName = ''SUPER_ADMIN''"

definition eventCreatorCanUseRequiredAdminControls ::
  "reconciler \<Rightarrow> event \<Rightarrow> (unit + bool) act" where
  "eventCreatorCanUseRequiredAdminControls r ev = do {
     oc \<leftarrow> (if e_MaxDurationSeconds ev \<noteq> None
            then do { a \<leftarrow> perform (r_GetOrgConfig r) (\<lambda>_. ERead ''GetOrgConfig'');
                      ret (case a of None \<Rightarrow> Inl () | Some c \<Rightarrow> Inr (Some c)) }
            else ret (Inr None));
     (case oc of
        Inl _ \<Rightarrow> ret (Inl ())
      | Inr orgConfig \<Rightarrow>
          (case EventRequiresAdminControls (r_json r) ev orgConfig of
             Inl _ \<Rightarrow> ret (Inl ())
           | Inr needed \<Rightarrow>
               if \<not> needed then ret (Inr True)
               else do {
                 role \<leftarrow> perform (r_LoadRoleName r) (\<lambda>_. ERead ''LoadRoleName'');
                 ret (map_sum id (\<lambda>n. n = AdminRoleName \<or> n = SuperAdminRoleName) role) })) }"

text \<open>The checks made inside the dispatch fence; the result is the reason of a rejection.\<close>

definition fence_rejection ::
  "reconciler \<Rightarrow> event \<Rightarrow> topology_snapshot \<Rightarrow> string list \<Rightarrow> string option act" where
  "fence_rejection r latest topology ids =
     (case ScopeFromJSON (r_json r) (e_ScopeJSON latest) of
        Inl _ \<Rightarrow> ret (Some ''reload persisted topology scope'')
      | Inr None \<Rightarrow> ret (Some ''reload persisted topology scope'')
      | Inr (Some latestScope) \<Rightarrow>
          if \<not> IsTopologyScope latestScope then ret (Some ''reload persisted topology scope'')
          else
            (case AuthorizationEnvelopeFromJSON (js_fields (r_json r)) (js_envelope (r_json r))
                    (e_AuthorizationEnvelopeJSON latest) of
               Inl _ \<Rightarrow> ret (Some ''parse persisted authorization envelope'')
             | Inr env \<Rightarrow>
                 if \<not> topologyCoverageWithinEnvelope (ts_Coverage topology) env
                 then ret (Some ''current topology exceeds the persisted authorization envelope'')
                 else if \<not> list_all (\<lambda>d. d \<in> set (ts_DispatchMembers topology)) ids
                 then ret (Some ''claimed miner is no longer in the persisted topology scope'')
                 else
                   (case r_LoadEffective r of
                      None \<Rightarrow> ret (Some ''dispatch permission resolver is not configured'')
                    | Some load \<Rightarrow> do {
                        effective \<leftarrow> perform load (\<lambda>_. ERead ''LoadEffective'');
                        (case effective of
                           Inl _ \<Rightarrow> ret (Some ''reload event creator permissions'')
                         | Inr perms \<Rightarrow>
                             if \<not> authorizationEnvelopeAllowsDispatch perms env
                                   (ts_Coverage topology)
                             then ret (Some ''event creator no longer has required permissions'')
                             else do {
                               admin \<leftarrow> eventCreatorCanUseRequiredAdminControls r latest;
                               ret (case admin of
                                      Inl _ \<Rightarrow> Some ''evaluate event admin requirements''
                                    | Inr True \<Rightarrow> None
                                    | Inr False \<Rightarrow>
                                        Some ''event creator no longer has the admin role required by this event'') }) })))"

text \<open>\<open>NotTopology\<close> is the answer (false, true), \<open>Refused\<close> is (true, false).\<close>

datatype dispatch_permit = NotTopology | Refused | Permitted curtail_answer

definition reject_dispatch ::
  "reconciler \<Rightarrow> event \<Rightarrow> string \<times> bool \<Rightarrow> string list \<Rightarrow> dispatch_permit act" where
  "reject_dispatch r ev rejection knownUnsent = do {
     modify (\<lambda>w. w\<lparr>w_rejects := AList.update (e_EventUUID ev) rejection (w_rejects w)\<rparr>);
     ok \<leftarrow> beginRestore r (if snd rejection then [] else knownUnsent);
     (if ok then modify (\<lambda>w. w\<lparr>w_rejects := AList.delete (e_EventUUID ev) (w_rejects w)\<rparr>)
      else ret ());
     ret Refused }"

text \<open>The command inside the fence, once the checks are done, and what follows the fence.\<close>

definition fence_outcome ::
  "reconciler \<Rightarrow> event \<Rightarrow> string list \<Rightarrow> string list \<Rightarrow> string option \<Rightarrow> dispatch_permit act" where
  "fence_outcome r ev ids knownUnsent rejection =
     (case rejection of
        Some reason \<Rightarrow> do {
          perform (r_fenceEnd r) EFenceEnd;
          reject_dispatch r ev (reason, False) knownUnsent }
      | None \<Rightarrow> do {
          result \<leftarrow> sendCurtail r ids;
          end \<leftarrow> perform (r_fenceEnd r) EFenceEnd;
          (case end of
             Stored \<Rightarrow> ret (Permitted result)
           | RaceLoss \<Rightarrow> ret Refused
           | Failed _ \<Rightarrow>
               reject_dispatch r ev (''acquire topology dispatch fence'', True) knownUnsent) })"

definition run_dispatch_fence ::
  "reconciler \<Rightarrow> event \<Rightarrow> (list_candidates_params \<Rightarrow> string list \<Rightarrow> fence_answer) ask \<Rightarrow>
   list_candidates_params \<Rightarrow> string list \<Rightarrow> string list \<Rightarrow> dispatch_permit act" where
  "run_dispatch_fence r ev fence params ids knownUnsent = do {
     a \<leftarrow> perform (\<lambda>l. fence l params ids) EFence;
     (case a of
        FenceFailed RaceLoss \<Rightarrow> ret Refused
      | FenceFailed _ \<Rightarrow>
          reject_dispatch r ev (''acquire topology dispatch fence'', False) knownUnsent
      | FenceOpen latest topology \<Rightarrow> do {
          rejection \<leftarrow> fence_rejection r latest topology ids;
          fence_outcome r ev ids knownUnsent rejection }) }"

definition authorizeTopologyCurtailDispatch ::
  "reconciler \<Rightarrow> event \<Rightarrow> string list \<Rightarrow> string list \<Rightarrow> dispatch_permit act" where
  "authorizeTopologyCurtailDispatch r ev ids knownUnsent =
     (if e_ScopeType ev \<noteq> ScopeTypeMixed then ret NotTopology
      else do {
        latched \<leftarrow> gets (\<lambda>w. map_of (w_rejects w) (e_EventUUID ev));
        (case latched of
           Some rejection \<Rightarrow> reject_dispatch r ev rejection knownUnsent
         | None \<Rightarrow>
             (case ScopeFromJSON (r_json r) (e_ScopeJSON ev) of
                Inl _ \<Rightarrow> reject_dispatch r ev (''parse persisted mixed scope'', False) knownUnsent
              | Inr None \<Rightarrow> reject_dispatch r ev (''parse persisted mixed scope'', False) knownUnsent
              | Inr (Some s) \<Rightarrow>
                  if \<not> IsTopologyScope s then ret NotTopology
                  else
                    (case ListCandidatesParamsForScope s of
                       Inl _ \<Rightarrow>
                         reject_dispatch r ev (''parse persisted topology selector'', False) knownUnsent
                     | Inr params \<Rightarrow>
                         (case r_dispatchFence r of
                            None \<Rightarrow>
                              reject_dispatch r ev (''topology dispatch fence is not configured'', False)
                                knownUnsent
                          | Some fence \<Rightarrow>
                              run_dispatch_fence r ev fence (params\<lparr>lc_OrgID := e_OrgID ev\<rparr>) ids
                                knownUnsent)))) })"

section \<open>Curtail batches\<close>

text \<open>
  The pre-write loop. \<open>None\<close> is the early return on a lost race; otherwise the targets whose row
  now says DISPATCHING and the devices known not to have been sent a command.
\<close>

fun prewrite_curtail ::
  "reconciler \<Rightarrow> event \<Rightarrow> target_state \<Rightarrow> nat list \<Rightarrow> nat list \<Rightarrow> string list \<Rightarrow>
   (nat list \<times> string list) option act" where
  "prewrite_curtail r ev fallback [] dispatchSet unsent = ret (Some (dispatchSet, unsent))"
| "prewrite_curtail r ev fallback (i # claim) dispatchSet unsent = do {
     t \<leftarrow> tgt i;
     let unsent' = (if t_State t = TargetStatePending then unsent @ [t_DeviceIdentifier t]
                    else unsent);
     res \<leftarrow> writeTargetState r ev (t_DeviceIdentifier t) (params_of TargetStateDispatching);
     (case res of
        Stored \<Rightarrow> do {
          upd i (\<lambda>t. t\<lparr>t_State := TargetStateDispatching\<rparr>);
          prewrite_curtail r ev fallback claim (dispatchSet @ [i]) unsent' }
      | RaceLoss \<Rightarrow> ret None
      | Failed e \<Rightarrow> do {
          recordDispatchFailure r ev i e fallback;
          prewrite_curtail r ev fallback claim dispatchSet unsent' }) }"

definition device_ids :: "nat list \<Rightarrow> string list act" where
  "device_ids is = gets (\<lambda>w. map (\<lambda>i. t_DeviceIdentifier (w_targets w ! i)) is)"

definition no_curtail_batch :: string where
  "no_curtail_batch = ''command produced no batch (no live devices to dispatch)''"

definition curtail_not_enqueued :: string where
  "curtail_not_enqueued = ''curtail command did not enqueue device''"

text \<open>One iteration of the loop over the targets of a command that produced a batch.\<close>

definition commit_curtail ::
  "reconciler \<Rightarrow> event \<Rightarrow> target_state \<Rightarrow> command_result \<Rightarrow> gotime \<Rightarrow> nat \<Rightarrow> unit act" where
  "commit_curtail r ev fallback result at' i = do {
     t \<leftarrow> tgt i;
     (case skipped_set (cr_Skipped result) (t_DeviceIdentifier t) of
        Some skipReason \<Rightarrow> recordDispatchFailure r ev i skipReason fallback
      | None \<Rightarrow>
          if t_DeviceIdentifier t \<notin> set (cr_DispatchedDeviceIdentifiers result)
          then recordDispatchFailure r ev i curtail_not_enqueued fallback
          else do {
            res \<leftarrow> writeTargetState r ev (t_DeviceIdentifier t)
                    ((params_of TargetStateDispatched)
                      \<lparr>up_LastDispatchedAt := Some at', up_LastError := Some [],
                       up_LastBatchUUID := Some (cr_BatchIdentifier result),
                       up_ExpectedDesiredState := Some DesiredStateCurtailed\<rparr>);
            (case res of
               Stored \<Rightarrow>
                 upd i (\<lambda>t. t\<lparr>t_State := TargetStateDispatched, t_LastDispatchedAt := Some at',
                   t_LastError := None, t_LastBatchUUID := Some (cr_BatchIdentifier result),
                   t_CurtailPhase := (t_CurtailPhase t)
                     \<lparr>ph_State := TargetStateDispatched, ph_DispatchedAt := Some at',
                      ph_BatchUUID := Some (cr_BatchIdentifier result)\<rparr>\<rparr>)
             | RaceLoss \<Rightarrow> ret ()
             | Failed e \<Rightarrow> recordDispatchFailure r ev i e fallback) }) }"

definition settle_curtail ::
  "reconciler \<Rightarrow> event \<Rightarrow> target_state \<Rightarrow> nat list \<Rightarrow> curtail_answer \<Rightarrow> unit act" where
  "settle_curtail r ev fallback dispatchSet answer =
     (case answer of
        Inl errMsg \<Rightarrow> each (\<lambda>i. recordDispatchFailure r ev i errMsg fallback) dispatchSet
      | Inr None \<Rightarrow> each (\<lambda>i. recordDispatchFailure r ev i no_curtail_batch fallback) dispatchSet
      | Inr (Some result) \<Rightarrow>
          if cr_BatchIdentifier result = [] then
            each (\<lambda>i. do {
              t \<leftarrow> tgt i;
              recordDispatchFailure r ev i
                (case skipped_set (cr_Skipped result) (t_DeviceIdentifier t) of
                   Some skipReason \<Rightarrow> skipReason | None \<Rightarrow> no_curtail_batch) fallback }) dispatchSet
          else do {
            at' \<leftarrow> now r;
            each (commit_curtail r ev fallback result at') dispatchSet })"

definition send_curtail_batch ::
  "reconciler \<Rightarrow> event \<Rightarrow> target_state \<Rightarrow> nat list \<Rightarrow> string list \<Rightarrow> bool act" where
  "send_curtail_batch r ev fallback dispatchSet unsent = do {
     ids \<leftarrow> device_ids dispatchSet;
     permit \<leftarrow> authorizeTopologyCurtailDispatch r ev ids unsent;
     (case permit of
        Refused \<Rightarrow> ret False
      | Permitted answer \<Rightarrow> do { settle_curtail r ev fallback dispatchSet answer; ret True }
      | NotTopology \<Rightarrow> do {
          live \<leftarrow> eventStillDispatchable r ev;
          if \<not> live then ret False
          else do {
            answer \<leftarrow> sendCurtail r ids;
            settle_curtail r ev fallback dispatchSet answer;
            ret True } }) }"

text \<open>What follows the pre-write loop.\<close>

definition send_prepared ::
  "reconciler \<Rightarrow> event \<Rightarrow> target_state \<Rightarrow> (nat list \<times> string list) option \<Rightarrow> bool act" where
  "send_prepared r ev fallback pre =
     (case pre of
        None \<Rightarrow> ret False
      | Some (dispatchSet, unsent) \<Rightarrow>
          if dispatchSet = [] then ret True
          else do {
            live \<leftarrow> eventStillDispatchable r ev;
            if \<not> live then ret False else send_curtail_batch r ev fallback dispatchSet unsent })"

definition dispatchCurtailBatchWithKnownUnsent ::
  "reconciler \<Rightarrow> event \<Rightarrow> nat list \<Rightarrow> target_state \<Rightarrow> bool \<Rightarrow> string list \<Rightarrow> bool act" where
  "dispatchCurtailBatchWithKnownUnsent r ev claim fallback recordPendingDispatch preclaimed =
     (if claim = [] then ret True
      else do {
        live \<leftarrow> eventStillDispatchable r ev;
        if \<not> live then ret False
        else do {
          recorded \<leftarrow> (if recordPendingDispatch
                       then do { t \<leftarrow> now r; recordCurtailPendingDispatch r ev t }
                       else ret True);
          if \<not> recorded then ret False
          else do {
            pre \<leftarrow> prewrite_curtail r ev fallback claim [] preclaimed;
            send_prepared r ev fallback pre } } })"

definition dispatchCurtailBatch ::
  "reconciler \<Rightarrow> event \<Rightarrow> nat list \<Rightarrow> target_state \<Rightarrow> bool \<Rightarrow> bool act" where
  "dispatchCurtailBatch r ev claim fallback recordPendingDispatch =
     dispatchCurtailBatchWithKnownUnsent r ev claim fallback recordPendingDispatch []"

definition dispatchOneCurtail :: "reconciler \<Rightarrow> event \<Rightarrow> nat \<Rightarrow> target_state \<Rightarrow> unit act" where
  "dispatchOneCurtail r ev i fallback = do { dispatchCurtailBatch r ev [i] fallback False; ret () }"

text \<open>
  The closure \<open>dispatchByState\<close>: its loop over the slice, with the batch under construction. The
  rows of earlier batches of the loop lie behind it, so what the batches do to them is not seen.
\<close>

definition dispatch_claim ::
  "reconciler \<Rightarrow> event \<Rightarrow> target_state \<Rightarrow> bool \<Rightarrow> nat list \<Rightarrow> bool act" where
  "dispatch_claim r ev state recordPendingDispatch claim = do {
     ts \<leftarrow> gets (\<lambda>w. map (\<lambda>i. w_targets w ! i) claim);
     dispatchCurtailBatch r ev claim state
       (if state = TargetStateDispatching
        then recordPendingDispatch \<and> hasUnrecordedCurtailDispatch ts
        else recordPendingDispatch) }"

fun dispatch_by_state ::
  "reconciler \<Rightarrow> event \<Rightarrow> int \<Rightarrow> target_state \<Rightarrow> bool \<Rightarrow> bool \<Rightarrow> nat list \<Rightarrow> nat list \<Rightarrow> bool act" where
  "dispatch_by_state r ev batchSize state single rec claim [] =
     (if claim = [] then ret True else dispatch_claim r ev state rec claim)"
| "dispatch_by_state r ev batchSize state single rec claim (i # is) = do {
     t \<leftarrow> tgt i;
     if t_State t \<noteq> state \<or> \<not> isCurtailRetryTarget t
     then dispatch_by_state r ev batchSize state single rec claim is
     else if batchSize \<le> int (length (claim @ [i])) then do {
       ok \<leftarrow> dispatch_claim r ev state rec (claim @ [i]);
       if \<not> ok then ret False
       else if single then ret True
       else dispatch_by_state r ev batchSize state single rec [] is }
     else dispatch_by_state r ev batchSize state single rec (claim @ [i]) is }"

text \<open>\<open>n\<close> is the length of the slice: claimed rows appended later are not in it.\<close>

definition dispatchPendingCurtailBatches :: "reconciler \<Rightarrow> event \<Rightarrow> nat \<Rightarrow> unit act" where
  "dispatchPendingCurtailBatches r ev n = do {
     let batchSize = curtailBatchSizeForEvent ev n;
     let intervalActive = curtailBatchIntervalActive ev;
     ok \<leftarrow> dispatch_by_state r ev batchSize TargetStateDispatching intervalActive intervalActive
            [] [0..<n];
     if \<not> ok then ret ()
     else do {
       elapsed \<leftarrow> (if intervalActive then curtailBatchIntervalElapsed r ev else ret True);
       if \<not> elapsed then ret ()
       else do {
         dispatch_by_state r ev batchSize TargetStatePending intervalActive True [] [0..<n];
         ret () } } }"

text \<open>
  \<open>dispatchable\<close> is built in the array of \<open>claimed\<close>, so the caller's slice afterwards starts with
  the dispatchable rows; it is the result.
\<close>

definition dispatchClaimedCurtailTargets ::
  "reconciler \<Rightarrow> event \<Rightarrow> nat list \<Rightarrow> nat list act" where
  "dispatchClaimedCurtailTargets r ev claimed = do {
     dispatchable \<leftarrow> gets (\<lambda>w. filter (\<lambda>i. t_State (w_targets w ! i) \<in>
                       {TargetStatePending, TargetStateDispatching}) claimed);
     (if dispatchable = [] then ret True
      else do {
        ids \<leftarrow> device_ids dispatchable;
        dispatchCurtailBatchWithKnownUnsent r ev dispatchable TargetStateDispatching True ids });
     ret (dispatchable @ drop (length dispatchable) claimed) }"

end
