(* ===== verification/Curtail_Restore.thy ===== *)
theory Curtail_Restore
  imports Curtail_Dispatch
begin

text \<open>
  The restore half of the reconciler (\<open>curtailment/reconciler/reconciler.go\<close> and
  \<open>dispatch_authorization.go\<close>): parking of miners that cannot take a command, the restore fence,
  the Uncurtail batch, the gates and claims that admit one batch per tick, the confirmation of
  restores from telemetry and the completion of the event.
\<close>

section \<open>Failures and parking\<close>

definition parkUncommandableTopologyRestore ::
  "reconciler \<Rightarrow> event \<Rightarrow> nat \<Rightarrow> model_candidate option \<Rightarrow> bool act" where
  "parkUncommandableTopologyRestore r ev i candidate =
     (case AllPairedPolicyRestoreTargetState candidate of
        (nextState, reason) \<Rightarrow>
          if nextState \<noteq> TargetStateUnavailable then ret False
          else do {
            t \<leftarrow> tgt i;
            res \<leftarrow> writeTargetState r ev (t_DeviceIdentifier t)
                    ((params_of TargetStateUnavailable)
                      \<lparr>up_LastError := Some reason, up_ExpectedState := Some (t_State t),
                       up_ExpectedDesiredState := Some DesiredStateActive\<rparr>);
            (case res of
               Stored \<Rightarrow> do {
                 upd i (\<lambda>t. t\<lparr>t_State := TargetStateUnavailable, t_LastError := Some reason,
                   t_RestorePhase := map_option (\<lambda>p. p\<lparr>ph_State := TargetStateUnavailable,
                                                      ph_LastError := Some reason\<rparr>)
                                       (t_RestorePhase t)\<rparr>);
                 ret True }
             | RaceLoss \<Rightarrow> ret True
             | Failed _ \<Rightarrow> ret False) })"

definition device_params :: "event \<Rightarrow> string list \<Rightarrow> list_candidates_params" where
  "device_params ev ids = no_filter\<lparr>lc_OrgID := e_OrgID ev, lc_DeviceIdentifiers := ids\<rparr>"

definition listCandidates ::
  "reconciler \<Rightarrow> list_candidates_params \<Rightarrow> model_candidate list option act" where
  "listCandidates r p = perform (\<lambda>l. r_ListCandidates r l p) (\<lambda>_. ECandidates p)"

fun park_failures ::
  "reconciler \<Rightarrow> event \<Rightarrow> model_candidate list \<Rightarrow> (nat \<times> string) list \<Rightarrow> string list act" where
  "park_failures r ev cands [] = ret []"
| "park_failures r ev cands ((i, reason) # fs) = do {
     t \<leftarrow> tgt i;
     ok \<leftarrow> parkUncommandableTopologyRestore r ev i (candidatesByDeviceID cands (t_DeviceIdentifier t));
     parked \<leftarrow> park_failures r ev cands fs;
     ret (if ok then t_DeviceIdentifier t # parked else parked) }"

definition recordRestoreDispatchFailures ::
  "reconciler \<Rightarrow> event \<Rightarrow> (nat \<times> string) list \<Rightarrow> unit act" where
  "recordRestoreDispatchFailures r ev failures =
     (if failures = [] then ret ()
      else do {
        parked \<leftarrow>
          (if isAllPairedTopologyPolicyEvent (r_json r) ev then do {
             ids \<leftarrow> device_ids (map fst failures);
             cands \<leftarrow> listCandidates r (device_params ev (filter (\<lambda>d. d \<noteq> []) ids));
             (case cands of None \<Rightarrow> ret [] | Some cs \<Rightarrow> park_failures r ev cs failures) }
           else ret []);
        each (\<lambda>(i, reason). do {
          t \<leftarrow> tgt i;
          if t_DeviceIdentifier t \<in> set parked then ret ()
          else recordDispatchFailureGuarded r ev i reason TargetStatePending
                 (Some (TargetStateDispatching, None)) }) failures })"

section \<open>The Uncurtail batch\<close>

text \<open>
  \<open>RestoreReached\<close> carries the targets of the command and its answer; \<open>None\<close> stands for a command
  that was not run, whose result and error are both nil.
\<close>

datatype restore_fence =
    RestoreNotTopology
  | RestoreNotReached store_result
  | RestoreReached "nat list" "curtail_answer option"

definition run_restore_fence ::
  "reconciler \<Rightarrow> (string list \<Rightarrow> fence_answer) ask \<Rightarrow> nat list \<Rightarrow> restore_fence act" where
  "run_restore_fence r fence dispatchSet = do {
     ids \<leftarrow> device_ids dispatchSet;
     a \<leftarrow> perform (\<lambda>l. fence l ids) EFence;
     (case a of
        FenceFailed e \<Rightarrow> ret (RestoreNotReached e)
      | FenceOpen latest topology \<Rightarrow>
          if e_State latest = EventStateRestoring then do {
            answer \<leftarrow> sendUncurtail r ids;
            perform (r_fenceEnd r) EFenceEnd;
            ret (RestoreReached dispatchSet (Some answer)) }
          else do {
            ts \<leftarrow> targets;
            let returned = (\<lambda>i. t_DeviceIdentifier (ts ! i) \<in> set (ts_DispatchMembers topology));
            let commandTargets = filter (\<lambda>i. \<not> returned i) dispatchSet;
            back \<leftarrow> device_ids (filter returned dispatchSet);
            park \<leftarrow> perform (\<lambda>l. r_ParkReturnedTargets r l back) (EPark back);
            if park \<noteq> Stored then do {
              perform (r_fenceEnd r) EFenceEnd;
              ret (RestoreReached commandTargets None) }
            else if commandTargets = [] then do {
              perform (r_fenceEnd r) EFenceEnd;
              ret (RestoreReached [] None) }
            else do {
              out \<leftarrow> device_ids commandTargets;
              answer \<leftarrow> sendUncurtail r out;
              perform (r_fenceEnd r) EFenceEnd;
              ret (RestoreReached commandTargets (Some answer)) } }) }"

definition fenceTopologyRestoreDispatch ::
  "reconciler \<Rightarrow> event \<Rightarrow> nat list \<Rightarrow> restore_fence act" where
  "fenceTopologyRestoreDispatch r ev dispatchSet =
     (if e_ScopeType ev \<noteq> ScopeTypeMixed then ret RestoreNotTopology
      else case ScopeFromJSON (r_json r) (e_ScopeJSON ev) of
             Inl _ \<Rightarrow> ret (RestoreNotReached (Failed ''parse persisted mixed restore scope''))
           | Inr None \<Rightarrow> ret (RestoreNotReached (Failed ''persisted mixed restore scope is missing''))
           | Inr (Some s) \<Rightarrow>
               if \<not> IsTopologyScope s then ret RestoreNotTopology
               else case r_restoreFence r of
                      None \<Rightarrow>
                        ret (RestoreNotReached
                          (Failed ''topology restore dispatch fence is not configured''))
                    | Some fence \<Rightarrow> run_restore_fence r fence dispatchSet)"

fun prewrite_restore ::
  "reconciler \<Rightarrow> event \<Rightarrow> nat list \<Rightarrow> nat list \<Rightarrow> nat list option act" where
  "prewrite_restore r ev [] dispatchSet = ret (Some dispatchSet)"
| "prewrite_restore r ev (i # claim) dispatchSet = do {
     t \<leftarrow> tgt i;
     res \<leftarrow> writeTargetState r ev (t_DeviceIdentifier t)
             ((params_of TargetStateDispatching)
               \<lparr>up_ExpectedDesiredState := Some DesiredStateActive,
                up_ExpectedState := Some (t_State t)\<rparr>);
     (case res of
        Stored \<Rightarrow> do {
          upd i (\<lambda>t. t\<lparr>t_State := TargetStateDispatching\<rparr>);
          prewrite_restore r ev claim (dispatchSet @ [i]) }
      | RaceLoss \<Rightarrow> ret None
      | Failed e \<Rightarrow> do {
          recordDispatchFailure r ev i e TargetStatePending;
          prewrite_restore r ev claim dispatchSet }) }"

definition no_uncurtail_batch :: string where
  "no_uncurtail_batch = ''uncurtail command produced no batch (no live devices to dispatch)''"

definition uncurtail_not_enqueued :: string where
  "uncurtail_not_enqueued = ''uncurtail command did not enqueue device''"

text \<open>The loop over the targets of the command; the result lists the failures it collects.\<close>

fun commit_restore ::
  "reconciler \<Rightarrow> event \<Rightarrow> command_result \<Rightarrow> gotime \<Rightarrow> nat list \<Rightarrow> (nat \<times> string) list act" where
  "commit_restore r ev result at' [] = ret []"
| "commit_restore r ev result at' (i # is) = do {
     t \<leftarrow> tgt i;
     (case skipped_set (cr_Skipped result) (t_DeviceIdentifier t) of
        Some reason \<Rightarrow> do { fs \<leftarrow> commit_restore r ev result at' is; ret ((i, reason) # fs) }
      | None \<Rightarrow>
          if t_DeviceIdentifier t \<notin> set (cr_DispatchedDeviceIdentifiers result) then do {
            fs \<leftarrow> commit_restore r ev result at' is;
            ret ((i, uncurtail_not_enqueued) # fs) }
          else do {
            res \<leftarrow> writeTargetState r ev (t_DeviceIdentifier t)
                    ((params_of TargetStateDispatched)
                      \<lparr>up_LastDispatchedAt := Some at',
                       up_LastBatchUUID := Some (cr_BatchIdentifier result),
                       up_LastError := Some [],
                       up_ExpectedDesiredState := Some DesiredStateActive\<rparr>);
            (case res of
               Stored \<Rightarrow>
                 upd i (\<lambda>t. t\<lparr>t_State := TargetStateDispatched, t_LastDispatchedAt := Some at',
                   t_LastBatchUUID := Some (cr_BatchIdentifier result), t_LastError := None\<rparr>)
             | RaceLoss \<Rightarrow> ret ()
             | Failed e \<Rightarrow> recordDispatchFailure r ev i e TargetStatePending);
            commit_restore r ev result at' is }) }"

definition restoreDispatchFailures :: "nat list \<Rightarrow> string \<Rightarrow> (nat \<times> string) list" where
  "restoreDispatchFailures is reason = map (\<lambda>i. (i, reason)) is"

definition settle_restore ::
  "reconciler \<Rightarrow> event \<Rightarrow> nat list \<Rightarrow> curtail_answer option \<Rightarrow> unit act" where
  "settle_restore r ev commandTargets answer =
     (case answer of
        Some (Inl errMsg) \<Rightarrow>
          recordRestoreDispatchFailures r ev (restoreDispatchFailures commandTargets errMsg)
      | Some (Inr (Some result)) \<Rightarrow>
          if cr_BatchIdentifier result = [] then
            recordRestoreDispatchFailures r ev
              (restoreDispatchFailures commandTargets no_uncurtail_batch)
          else do {
            at' \<leftarrow> now r;
            failures \<leftarrow> commit_restore r ev result at' commandTargets;
            recordRestoreDispatchFailures r ev failures }
      | _ \<Rightarrow>
          recordRestoreDispatchFailures r ev
            (restoreDispatchFailures commandTargets no_uncurtail_batch))"

definition send_restore_batch :: "reconciler \<Rightarrow> event \<Rightarrow> nat list \<Rightarrow> unit act" where
  "send_restore_batch r ev dispatchSet = do {
     fence \<leftarrow> fenceTopologyRestoreDispatch r ev dispatchSet;
     (case fence of
        RestoreNotReached RaceLoss \<Rightarrow> ret ()
      | RestoreNotReached e \<Rightarrow>
          each (\<lambda>i. recordDispatchFailure r ev i
                 (case e of Failed msg \<Rightarrow> msg | _ \<Rightarrow> ''topology restore dispatch fence failed'')
                 TargetStatePending) dispatchSet
      | RestoreReached commandTargets answer \<Rightarrow>
          if commandTargets = [] then ret () else settle_restore r ev commandTargets answer
      | RestoreNotTopology \<Rightarrow> do {
          ids \<leftarrow> device_ids dispatchSet;
          answer \<leftarrow> sendUncurtail r ids;
          settle_restore r ev dispatchSet (Some answer) }) }"

definition send_prepared_restore :: "reconciler \<Rightarrow> event \<Rightarrow> nat list option \<Rightarrow> unit act" where
  "send_prepared_restore r ev pre =
     (case pre of
        None \<Rightarrow> ret ()
      | Some dispatchSet \<Rightarrow>
          if dispatchSet = [] then ret ()
          else do {
            live \<leftarrow> eventStillDispatchable r ev;
            if \<not> live then ret () else send_restore_batch r ev dispatchSet })"

definition dispatchRestoreBatch :: "reconciler \<Rightarrow> event \<Rightarrow> nat list \<Rightarrow> unit act" where
  "dispatchRestoreBatch r ev claim = do {
     live \<leftarrow> eventStillDispatchable r ev;
     if \<not> live then ret ()
     else do {
       pre \<leftarrow> prewrite_restore r ev claim [];
       send_prepared_restore r ev pre } }"

section \<open>Gates and claims\<close>

text \<open>
  When the delay before miners restart began: \<open>None\<close> holds them back, \<open>Some None\<close> asks for no delay.
\<close>

definition restore_delay_start :: "event \<Rightarrow> event_cols \<Rightarrow> gotime option option" where
  "restore_delay_start ev k =
     (if e_FacilityFanDeviceIDs ev = [] then Some None
      else if e_State ev = EventStateActive \<or> e_State ev = EventStatePending then
        (if k_FanOffSentAt k = None then Some None
         else map_option Some (k_FanAirflowReopenedAt k))
      else case restoringFanAirflowStartedAt k of
             Some t \<Rightarrow> Some (Some t)
           | None \<Rightarrow> map_option Some (k_FanOnSentAt k))"

definition fan_restore_gate :: "reconciler \<Rightarrow> event \<Rightarrow> bool act" where
  "fan_restore_gate r ev = do {
     k \<leftarrow> cols;
     (case restore_delay_start ev k of
        None \<Rightarrow> ret False
      | Some None \<Rightarrow> ret True
      | Some (Some start) \<Rightarrow> do {
          t \<leftarrow> now r;
          ret (\<not> time_before t (time_add start (seconds (e_FanRestoreDelaySec ev)))) }) }"

definition restore_in_flight :: "target list \<Rightarrow> bool" where
  "restore_in_flight ts \<longleftrightarrow>
     list_ex (\<lambda>t. t_DesiredState t = DesiredStateActive \<and>
       t_State t \<in> {TargetStateDispatched, TargetStateDrifted}) ts"

definition newest_restore :: "target list \<Rightarrow> gotime option" where
  "newest_restore ts =
     foldl (\<lambda>newest t.
       if t_DesiredState t \<noteq> DesiredStateActive then newest
       else case t_LastDispatchedAt t of
              None \<Rightarrow> newest
            | Some d \<Rightarrow> (case newest of
                          None \<Rightarrow> Some d
                        | Some n \<Rightarrow> if time_after d n then Some d else Some n)) None ts"

definition restore_interval_gate :: "reconciler \<Rightarrow> event \<Rightarrow> bool act" where
  "restore_interval_gate r ev =
     (if e_RestoreBatchIntervalSec ev \<le> 0 then ret True
      else do {
        ts \<leftarrow> targets;
        (case newest_restore ts of
           None \<Rightarrow> ret True
         | Some newest \<Rightarrow> do {
             t \<leftarrow> now r;
             ret (\<not> time_sub t newest < seconds (e_RestoreBatchIntervalSec ev)) }) })"

text \<open>The claim loops: targets with the wanted state, in slice order, until the batch is full.\<close>

fun claim_loop :: "int \<Rightarrow> target_state \<Rightarrow> nat list \<Rightarrow> (nat \<times> target) list \<Rightarrow> nat list" where
  "claim_loop batchSize state claim [] = claim"
| "claim_loop batchSize state claim ((i, t) # rest) =
     (if t_DesiredState t \<noteq> DesiredStateActive \<or> t_State t \<noteq> state
      then claim_loop batchSize state claim rest
      else if batchSize \<le> int (length (claim @ [i])) then claim @ [i]
      else claim_loop batchSize state (claim @ [i]) rest)"

definition restore_claim :: "event \<Rightarrow> target list \<Rightarrow> nat list" where
  "restore_claim ev ts =
     (let orphans = claim_loop (restoreClaimBatchSize ev) TargetStateDispatching []
                      (List.enumerate 0 ts)
      in if orphans \<noteq> [] then orphans
         else claim_loop (restoreClaimBatchSize ev) TargetStatePending [] (List.enumerate 0 ts))"

definition maybeClaimRestoreBatch :: "reconciler \<Rightarrow> event \<Rightarrow> unit act" where
  "maybeClaimRestoreBatch r ev = do {
     airflow \<leftarrow> fan_restore_gate r ev;
     if \<not> airflow then ret ()
     else do {
       ts \<leftarrow> targets;
       if restore_in_flight ts then ret ()
       else do {
         spaced \<leftarrow> restore_interval_gate r ev;
         if \<not> spaced then ret ()
         else if restore_claim ev ts = [] then ret ()
         else dispatchRestoreBatch r ev (restore_claim ev ts) } } }"

section \<open>Confirmation and completion\<close>

definition resolvedRestoreTargetParams :: "gotime \<Rightarrow> f64 option \<Rightarrow> update_params" where
  "resolvedRestoreTargetParams t observedPowerW = (params_of TargetStateResolved)
     \<lparr>up_ConfirmedAt := Some t, up_ObservedAt := Some t,
      up_ObservedPowerW := (if finite_sample observedPowerW then observedPowerW else None)\<rparr>"

definition confirmOneRestore ::
  "reconciler \<Rightarrow> event \<Rightarrow> nat \<Rightarrow> model_candidate option \<Rightarrow> unit act" where
  "confirmOneRestore r ev i cand = do {
     parked \<leftarrow> (if isAllPairedTopologyPolicyEvent (r_json r) ev
                then parkUncommandableTopologyRestore r ev i cand else ret False);
     if parked then ret ()
     else case cand of
       None \<Rightarrow> recordDispatchedObservationFailure r ev i
                 ''candidate row missing (device unpaired or deleted)'' TargetStatePending
     | Some c \<Rightarrow> do {
         t \<leftarrow> tgt i;
         if \<not> isRestored (mc_LatestPowerW c) (t_BaselinePowerW t) (mc_LatestHashRateHS c)
              (cf_DriftThresholdFactor (r_cfg r)) then
           (case t_LastDispatchedAt t of
              None \<Rightarrow> ret ()
            | Some sent \<Rightarrow>
                if cf_RestoreDispatchTimeoutSec (r_cfg r) \<le> 0 then ret ()
                else do {
                  at' \<leftarrow> now r;
                  if seconds (cf_RestoreDispatchTimeoutSec (r_cfg r)) < time_sub at' sent
                  then recordDispatchedObservationFailure r ev i ''restore telemetry timeout''
                         TargetStatePending
                  else ret () })
         else do {
           at' \<leftarrow> now r;
           let params = (resolvedRestoreTargetParams at' (mc_LatestPowerW c))
                 \<lparr>up_ExpectedDesiredState := Some DesiredStateActive,
                  up_ExpectedState := Some TargetStateDispatched,
                  up_ExpectedDispatchBatchUUID := loadedDispatchBatchUUID t\<rparr>;
           res \<leftarrow> writeTargetState r ev (t_DeviceIdentifier t) params;
           if res = Stored then
             upd i (\<lambda>t. t\<lparr>t_State := TargetStateResolved, t_ConfirmedAt := Some at',
               t_ObservedAt := Some at',
               t_ObservedPowerW := (case up_ObservedPowerW params of
                                      None \<Rightarrow> t_ObservedPowerW t | p \<Rightarrow> p)\<rparr>)
           else ret () } } }"

definition confirmDispatchedRestores :: "reconciler \<Rightarrow> event \<Rightarrow> unit act" where
  "confirmDispatchedRestores r ev = do {
     ts \<leftarrow> targets;
     let ids = map t_DeviceIdentifier
                 (filter (\<lambda>t. t_DesiredState t = DesiredStateActive \<and>
                              t_State t = TargetStateDispatched) ts);
     if ids = [] then ret ()
     else do {
       cands \<leftarrow> listCandidates r (device_params ev ids);
       (case cands of
          None \<Rightarrow> ret ()
        | Some cs \<Rightarrow>
            each (\<lambda>i. do {
              t \<leftarrow> tgt i;
              if t_DesiredState t \<noteq> DesiredStateActive \<or> t_State t \<noteq> TargetStateDispatched
              then ret ()
              else confirmOneRestore r ev i (candidatesByDeviceID cs (t_DeviceIdentifier t)) })
              [0..<length ts]) } }"

text \<open>The switch over the target states: \<open>None\<close> is the early return, else the number of failures.\<close>

fun restoring_tally :: "nat \<Rightarrow> target list \<Rightarrow> nat option" where
  "restoring_tally failed [] = Some failed"
| "restoring_tally failed (t # ts) =
     (if t_State t \<in> {TargetStateResolved, TargetStateReleased} then restoring_tally failed ts
      else if t_State t = TargetStateRestoreFailed then restoring_tally (Suc failed) ts
      else None)"

definition updateEventState ::
  "reconciler \<Rightarrow> event \<Rightarrow> event_state \<Rightarrow> gotime option \<Rightarrow> gotime option \<Rightarrow> store_result act" where
  "updateEventState r ev s startedAt endedAt =
     perform (\<lambda>l. r_UpdateEventState r l (e_State ev) s startedAt endedAt)
       (EEventState (e_State ev) s startedAt endedAt)"

definition maybeCompleteRestoring :: "reconciler \<Rightarrow> event \<Rightarrow> bool act" where
  "maybeCompleteRestoring r ev = do {
     k \<leftarrow> cols;
     if e_FacilityFanDeviceIDs ev \<noteq> [] \<and> k_FanOnSentAt k = None then ret False
     else do {
       ts \<leftarrow> targets;
       (case restoring_tally 0 ts of
          None \<Rightarrow> ret False
        | Some failed \<Rightarrow> do {
            t \<leftarrow> now r;
            updateEventState r ev
              (if 0 < failed then EventStateCompletedWithFailures else EventStateCompleted)
              None (Some t);
            ret True }) } }"

end
