(* ===== verification/Curtail_Active.thy ===== *)
theory Curtail_Active
  imports Curtail_Restore
begin

text \<open>
  The curtail half of the reconciler (\<open>curtailment/reconciler/reconciler.go\<close>): confirmation of
  dispatched targets and drift of confirmed ones, the transition of a pending event, the bound on
  an event's duration, and the facility fans in every phase.
\<close>

section \<open>Confirmation and drift\<close>

definition confirmedCurtailTargetParams :: "gotime \<Rightarrow> f64 option \<Rightarrow> update_params" where
  "confirmedCurtailTargetParams t observedPowerW = (params_of TargetStateConfirmed)
     \<lparr>up_ConfirmedAt := Some t, up_ObservedAt := Some t, up_RetryCount := Some 0,
      up_ObservedPowerW := (if finite_sample observedPowerW then observedPowerW else None)\<rparr>"

text \<open>The guard both observers share: the row must exist and, for an all-paired event, be paired.\<close>

definition candidate_problem :: "event \<Rightarrow> model_candidate option \<Rightarrow> string option" where
  "candidate_problem ev cand =
     (case cand of
        None \<Rightarrow> Some ''candidate row missing (device unpaired or deleted)''
      | Some c \<Rightarrow>
          if isAllPairedPolicyEvent ev \<and> \<not> IsAllPairedPolicyPairingStatus (mc_PairingStatus c)
          then Some ''device is no longer paired-like'' else None)"

definition curtailed_now :: "reconciler \<Rightarrow> target \<Rightarrow> model_candidate \<Rightarrow> bool \<Rightarrow> bool" where
  "curtailed_now r t c requirePositiveEvidence =
     isCurtailed (mc_LatestPowerW c) (t_BaselinePowerW t) (mc_LatestHashRateHS c)
       (cf_DriftThresholdFactor (r_cfg r)) requirePositiveEvidence"

definition age_curtail_dispatch :: "reconciler \<Rightarrow> event \<Rightarrow> nat \<Rightarrow> unit act" where
  "age_curtail_dispatch r ev i = do {
     t \<leftarrow> tgt i;
     (case t_LastDispatchedAt t of
        None \<Rightarrow> ret ()
      | Some sent \<Rightarrow>
          if cf_CurtailDispatchTimeoutSec (r_cfg r) \<le> 0 then ret ()
          else do {
            at' \<leftarrow> now r;
            if seconds (cf_CurtailDispatchTimeoutSec (r_cfg r)) < time_sub at' sent
            then recordDispatchedObservationFailure r ev i ''curtail telemetry timeout''
                   TargetStateDispatching
            else ret () }) }"

definition confirmOneDispatched ::
  "reconciler \<Rightarrow> event \<Rightarrow> nat \<Rightarrow> model_candidate option \<Rightarrow> target_state \<Rightarrow> unit act" where
  "confirmOneDispatched r ev i cand nonTerminalState =
     (case candidate_problem ev cand of
        Some problem \<Rightarrow> recordDispatchedObservationFailure r ev i problem nonTerminalState
      | None \<Rightarrow> do {
          t \<leftarrow> tgt i;
          if \<not> curtailed_now r t (the cand) True then age_curtail_dispatch r ev i
          else do {
            at' \<leftarrow> now r;
            let params = (confirmedCurtailTargetParams at' (mc_LatestPowerW (the cand)))
                  \<lparr>up_ExpectedState := Some TargetStateDispatched,
                   up_ExpectedDispatchBatchUUID := loadedDispatchBatchUUID t\<rparr>;
            res \<leftarrow> writeTargetState r ev (t_DeviceIdentifier t) params;
            if res = Stored then
              upd i (\<lambda>t. t\<lparr>t_State := TargetStateConfirmed, t_ConfirmedAt := Some at',
                t_ObservedAt := Some at', t_RetryCount := 0,
                t_ObservedPowerW := (case up_ObservedPowerW params of
                                       None \<Rightarrow> t_ObservedPowerW t | p \<Rightarrow> p)\<rparr>)
            else ret () } })"

definition confirmDispatched :: "reconciler \<Rightarrow> event \<Rightarrow> unit act" where
  "confirmDispatched r ev = do {
     ts \<leftarrow> targets;
     let ids = map t_DeviceIdentifier (filter (\<lambda>t. t_State t = TargetStateDispatched) ts);
     if ids = [] then ret ()
     else do {
       cands \<leftarrow> listCandidates r (device_params ev ids);
       (case cands of
          None \<Rightarrow> ret ()
        | Some cs \<Rightarrow>
            each (\<lambda>i. do {
              t \<leftarrow> tgt i;
              if t_State t \<noteq> TargetStateDispatched then ret ()
              else confirmOneDispatched r ev i (candidatesByDeviceID cs (t_DeviceIdentifier t))
                     TargetStateDispatched }) [0..<length ts]) } }"

definition observed_power :: "model_candidate \<Rightarrow> f64 option" where
  "observed_power c = (if finite_sample (mc_LatestPowerW c) then mc_LatestPowerW c else None)"

definition mark_drifted :: "reconciler \<Rightarrow> event \<Rightarrow> nat \<Rightarrow> model_candidate \<Rightarrow> unit act" where
  "mark_drifted r ev i c = do {
     t \<leftarrow> tgt i;
     at' \<leftarrow> now r;
     res \<leftarrow> writeTargetState r ev (t_DeviceIdentifier t)
             ((params_of TargetStateDrifted)
               \<lparr>up_ObservedAt := Some at', up_ObservedPowerW := observed_power c\<rparr>);
     if res \<noteq> Stored then ret ()
     else do {
       upd i (\<lambda>t. t\<lparr>t_State := TargetStateDrifted, t_ObservedAt := Some at',
         t_ObservedPowerW := (case observed_power c of None \<Rightarrow> t_ObservedPowerW t | p \<Rightarrow> p)\<rparr>);
       k \<leftarrow> cols;
       if retryBudgetTerminalizes (r_cfg r) t (t_RetryCount t) then ret ()
       else if k_FanOffSentAt k = None then dispatchOneCurtail r ev i TargetStateDrifted
       else ret () } }"

definition reconfirm_due :: "reconciler \<Rightarrow> event_cols \<Rightarrow> target \<Rightarrow> model_candidate \<Rightarrow> bool" where
  "reconfirm_due r k t c \<longleftrightarrow>
     (case k_FanAirflowReopenedAt k of
        None \<Rightarrow> False
      | Some reopened \<Rightarrow>
          (case t_ConfirmedAt t of None \<Rightarrow> True | Some at' \<Rightarrow> time_before at' reopened) \<and>
          hasFreshCurtailedFanEvidence (Some c) t (cf_DriftThresholdFactor (r_cfg r)))"

definition refresh_observation :: "reconciler \<Rightarrow> event \<Rightarrow> nat \<Rightarrow> model_candidate \<Rightarrow> unit act" where
  "refresh_observation r ev i c = do {
     t \<leftarrow> tgt i;
     at' \<leftarrow> now r;
     k \<leftarrow> cols;
     let confirmedAt = (if reconfirm_due r k t c then Some at' else None);
     res \<leftarrow> writeTargetState r ev (t_DeviceIdentifier t)
             ((params_of TargetStateConfirmed)
               \<lparr>up_ObservedAt := Some at', up_ConfirmedAt := confirmedAt,
                up_ObservedPowerW := observed_power c\<rparr>);
     if res \<noteq> Stored then ret ()
     else upd i (\<lambda>t. t\<lparr>t_ObservedAt := Some at',
            t_ConfirmedAt := (case confirmedAt of None \<Rightarrow> t_ConfirmedAt t | x \<Rightarrow> x),
            t_ObservedPowerW := (case observed_power c of None \<Rightarrow> t_ObservedPowerW t | p \<Rightarrow> p)\<rparr>) }"

definition checkDrift :: "reconciler \<Rightarrow> event \<Rightarrow> nat \<Rightarrow> model_candidate option \<Rightarrow> unit act" where
  "checkDrift r ev i cand =
     (case candidate_problem ev cand of
        Some problem \<Rightarrow> recordDispatchFailure r ev i problem TargetStateDrifted
      | None \<Rightarrow> do {
          t \<leftarrow> tgt i;
          if \<not> curtailed_now r t (the cand) False then mark_drifted r ev i (the cand)
          else refresh_observation r ev i (the cand) })"

section \<open>The transition of a pending event\<close>

record pending_tally =
  pt_confirmed :: nat
  pt_terminalFailures :: nat
  pt_unavailable :: nat
  pt_releasedPolicy :: nat

text \<open>One pass of the switch; \<open>None\<close> is its return.\<close>

definition tally_target ::
  "json \<Rightarrow> event \<Rightarrow> pending_tally \<Rightarrow> target \<Rightarrow> pending_tally option" where
  "tally_target js ev c t =
     (case t_State t of
        TargetStateConfirmed \<Rightarrow> Some (c\<lparr>pt_confirmed := Suc (pt_confirmed c)\<rparr>)
      | TargetStateRestoreFailed \<Rightarrow>
          if isClosedLoopTopologyEvent js ev \<and> t_DesiredState t = DesiredStateActive then Some c
          else Some (c\<lparr>pt_terminalFailures := Suc (pt_terminalFailures c)\<rparr>)
      | TargetStateUnavailable \<Rightarrow>
          if isAllPairedPolicyEvent ev
          then Some (c\<lparr>pt_unavailable := Suc (pt_unavailable c)\<rparr>) else None
      | TargetStateReleased \<Rightarrow>
          if isAllPairedPolicyReleasedCurtailTarget ev t
          then Some (c\<lparr>pt_releasedPolicy := Suc (pt_releasedPolicy c)\<rparr>)
          else if isClosedLoopTopologyEvent js ev then Some c
          else None
      | TargetStateResolved \<Rightarrow>
          if t_DesiredState t \<noteq> DesiredStateActive \<or> \<not> isClosedLoopFullFleet ev then None
          else Some c
      | TargetStateNone \<Rightarrow> Some c
      | _ \<Rightarrow> None)"

fun tally_loop :: "json \<Rightarrow> event \<Rightarrow> pending_tally \<Rightarrow> target list \<Rightarrow> pending_tally option" where
  "tally_loop js ev c [] = Some c"
| "tally_loop js ev c (t # ts) =
     (case tally_target js ev c t of None \<Rightarrow> None | Some c' \<Rightarrow> tally_loop js ev c' ts)"

definition empty_tally :: pending_tally where
  "empty_tally = \<lparr>pt_confirmed = 0, pt_terminalFailures = 0, pt_unavailable = 0,
     pt_releasedPolicy = 0\<rparr>"

text \<open>The decision: the state the event moves to, if any.\<close>

definition pending_decision :: "json \<Rightarrow> event \<Rightarrow> target list \<Rightarrow> event_state option" where
  "pending_decision js ev ts =
     (if ts = [] \<and> isAllPairedPolicyEvent ev then None
      else case tally_loop js ev empty_tally ts of
             None \<Rightarrow> None
           | Some c \<Rightarrow>
               if pt_confirmed c = 0 \<and> (0 < pt_unavailable c \<or> 0 < pt_releasedPolicy c) then None
               else if pt_confirmed c = 0 \<and> 0 < pt_terminalFailures c
               then Some EventStateCompletedWithFailures
               else Some EventStateActive)"

definition maybeMarkActive :: "reconciler \<Rightarrow> event \<Rightarrow> unit act" where
  "maybeMarkActive r ev = do {
     ts \<leftarrow> targets;
     (case pending_decision (r_json r) ev ts of
        None \<Rightarrow> ret ()
      | Some s \<Rightarrow> do {
          t \<leftarrow> now r;
          (if s = EventStateActive then updateEventState r ev s (Some t) None
           else updateEventState r ev s None (Some t));
          ret () }) }"

definition enforceMaxDuration :: "reconciler \<Rightarrow> event \<Rightarrow> bool act" where
  "enforceMaxDuration r ev =
     (case (e_MaxDurationSeconds ev, e_StartedAt ev) of
        (Some m, Some started) \<Rightarrow>
          if e_AllowUnbounded ev \<or> m \<le> 0 then ret False
          else do {
            t \<leftarrow> now r;
            if time_sub t started < seconds m then ret False
            else do { beginRestore r []; ret True } }
      | _ \<Rightarrow> ret False)"

section \<open>Facility fans\<close>

definition commandAndPersistFanState ::
  "reconciler \<Rightarrow> fan_params \<Rightarrow> power_mode \<Rightarrow> fan_answer act" where
  "commandAndPersistFanState r params pw =
     perform (\<lambda>l. r_CommandFanState r l params (Some pw)) (EFan pw params)"

definition fanAlert :: "reconciler \<Rightarrow> bool \<Rightarrow> unit act" where
  "fanAlert r failed =
     (if r_fanAlert r then perform (\<lambda>_. ()) (\<lambda>_. EFanAlert failed) else ret ())"

text \<open>
  The fan-ON command of a live event: an airflow marker is set at the first attempt and replaced
  when the hardware accepts the command. True when command and write both succeed.
\<close>

definition reopen_fans :: "reconciler \<Rightarrow> event_state \<Rightarrow> gotime \<Rightarrow> bool act" where
  "reopen_fans r expected at' = do {
     k \<leftarrow> cols;
     let first = (if k_FanAirflowReopenedAt k = None then Some at' else None);
     let params = (fan_params_of expected)
           \<lparr>fp_FanAirflowReopenedAt := first, fp_FanAirflowReopenedAtOnSuccess := Some at'\<rparr>;
     a \<leftarrow> commandAndPersistFanState r params PowerOn;
     (case a of
        FanFailed \<Rightarrow> ret False
      | FanStored lastError \<Rightarrow> do {
          upd_cols (\<lambda>k. k\<lparr>k_FanAirflowReopenedAt :=
              (if lastError = None then Some at'
               else case first of None \<Rightarrow> k_FanAirflowReopenedAt k | x \<Rightarrow> x),
            k_FanLastError := lastError\<rparr>);
          ret (lastError = None) }) }"

definition reopenEventFans :: "reconciler \<Rightarrow> event \<Rightarrow> bool act" where
  "reopenEventFans r ev = do {
     k \<leftarrow> cols;
     if \<not> r_fans r \<or> \<not> r_fanStore r \<or> e_FacilityFanDeviceIDs ev = [] \<or> k_FanOffSentAt k = None
     then ret False
     else do { at' \<leftarrow> now r; reopen_fans r (e_State ev) at' } }"

definition reconcilePendingFans :: "reconciler \<Rightarrow> event \<Rightarrow> bool act" where
  "reconcilePendingFans r ev = do {
     k \<leftarrow> cols;
     if k_FanOffSentAt k = None \<or> k_FanLastError k = None then ret True
     else if \<not> r_fans r \<or> \<not> r_fanStore r \<or> e_FacilityFanDeviceIDs ev = [] then ret False
     else do {
       at' \<leftarrow> now r;
       ok \<leftarrow> reopen_fans r EventStatePending at';
       (if ok then fanAlert r False else ret ());
       ret ok } }"

text \<open>The first OFF: its intent is stored before the hardware is commanded.\<close>

definition store_off_intent :: "reconciler \<Rightarrow> gotime \<Rightarrow> bool act" where
  "store_off_intent r at' = do {
     k \<leftarrow> cols;
     if k_FanOffSentAt k \<noteq> None then ret True
     else do {
       let intent = (fan_params_of EventStateActive)
             \<lparr>fp_FanOffSentAt := Some at', fp_LastError := k_FanLastError k\<rparr>;
       a \<leftarrow> perform (\<lambda>l. r_CommandFanState r l intent None) (EFanIntent intent);
       (case a of
          FanFailed \<Rightarrow> ret False
        | FanStored _ \<Rightarrow> do {
            upd_cols (\<lambda>k. k\<lparr>k_FanOffSentAt := Some at'\<rparr>);
            ret True }) } }"

definition command_fans_off :: "reconciler \<Rightarrow> bool act" where
  "command_fans_off r = do {
     k \<leftarrow> cols;
     let clear = (k_FanAirflowReopenedAt k \<noteq> None);
     a \<leftarrow> commandAndPersistFanState r
           ((fan_params_of EventStateActive)\<lparr>fp_ClearFanAirflowReopenedAt := clear\<rparr>) PowerOff;
     (case a of
        FanFailed \<Rightarrow> ret False
      | FanStored lastError \<Rightarrow> do {
          upd_cols (\<lambda>k. k\<lparr>k_FanAirflowReopenedAt :=
              (if clear then None else k_FanAirflowReopenedAt k), k_FanLastError := lastError\<rparr>);
          ret (lastError = None) }) }"

text \<open>The switch that chooses the power: \<open>None\<close> leaves the fans alone.\<close>

definition desired_fan_power ::
  "event \<Rightarrow> event_cols \<Rightarrow> target list \<Rightarrow> gotime \<Rightarrow> power_mode option" where
  "desired_fan_power ev k ts t =
     (case activeFanTargetConfirmation ts of
        (confirmed, allConfirmed) \<Rightarrow>
          if \<not> allConfirmed \<or> confirmed = 0 then
            (if k_FanOffSentAt k = None then None else Some PowerOn)
          else if (k_FanOffSentAt k = None \<or> k_FanAirflowReopenedAt k \<noteq> None) \<and>
                  \<not> activeFanOffDelayElapsed ev k ts t then None
          else Some PowerOff)"

definition reconcileActiveFans :: "reconciler \<Rightarrow> event \<Rightarrow> nat list \<Rightarrow> bool act" where
  "reconcileActiveFans r ev is =
     (if \<not> r_fans r \<or> \<not> r_fanStore r \<or> e_FacilityFanDeviceIDs ev = [] then ret False
      else do {
        ts \<leftarrow> gets (\<lambda>w. map (\<lambda>i. w_targets w ! i) is);
        t \<leftarrow> now r;
        k \<leftarrow> cols;
        (case desired_fan_power ev k ts t of
           None \<Rightarrow> ret False
         | Some PowerOn \<Rightarrow> reopen_fans r EventStateActive t
         | Some PowerOff \<Rightarrow> do {
             stored \<leftarrow> store_off_intent r t;
             if \<not> stored then ret False else command_fans_off r }) })"

definition reconcileRestoringFans :: "reconciler \<Rightarrow> event \<Rightarrow> unit act" where
  "reconcileRestoringFans r ev =
     (if \<not> r_fans r \<or> \<not> r_fanStore r \<or> e_FacilityFanDeviceIDs ev = [] then ret ()
      else do {
        at' \<leftarrow> now r;
        k \<leftarrow> cols;
        let clear = (k_FanOnSentAt k = None);
        let onSuccess = (if restoringFanAirflowStartedAt k = None then Some at' else None);
        a \<leftarrow> commandAndPersistFanState r
              ((fan_params_of EventStateRestoring)
                \<lparr>fp_FanOnSentAt := (if clear then Some at' else None),
                 fp_ClearFanAirflowReopenedAt := clear,
                 fp_FanAirflowReopenedAtOnSuccess := onSuccess\<rparr>) PowerOn;
        (case a of
           FanFailed \<Rightarrow> ret ()
         | FanStored lastError \<Rightarrow> do {
             upd_cols (\<lambda>k. k\<lparr>k_FanOnSentAt :=
                 (if k_FanOnSentAt k = None then Some at' else k_FanOnSentAt k),
               k_FanAirflowReopenedAt :=
                 (if lastError = None \<and> onSuccess \<noteq> None then onSuccess
                  else if clear then None else k_FanAirflowReopenedAt k),
               k_FanLastError := lastError\<rparr>);
             k' \<leftarrow> cols;
             if lastError = None then fanAlert r False
             else case restoreFanFailureAlertStartedAt k' of
                    None \<Rightarrow> ret ()
                  | Some start \<Rightarrow>
                      if time_before at' (time_add start (seconds (e_FanRestoreDelaySec ev)))
                      then ret () else fanAlert r True }) })"

end
