(* ===== verification/Curtail_Admission.thy ===== *)
theory Curtail_Admission
  imports Curtail_Active
begin

text \<open>
  Admission of new miners into a running event (\<open>curtailment/reconciler/reconciler.go\<close> and
  \<open>reconciler_allpaired.go\<close>): validation of a topology scope against the authorization envelope,
  departures, airflow before admission, the claim of new targets, and the readiness refresh of the
  all-paired policy. The rows handled here are those of the slice loaded at the start of the tick;
  claimed rows are appended to it. Where the code ranges over a map of rows keyed by device, the
  model takes them in slice order.
\<close>

section \<open>Topology validation and departures\<close>

definition rejectClosedLoopAdmission :: "reconciler \<Rightarrow> unit act" where
  "rejectClosedLoopAdmission r = do { beginRestore r []; ret () }"

definition validate_coverage ::
  "reconciler \<Rightarrow> event \<Rightarrow> topology_coverage \<Rightarrow> bool act" where
  "validate_coverage r ev coverage =
     (case AuthorizationEnvelopeFromJSON (js_fields (r_json r)) (js_envelope (r_json r))
             (e_AuthorizationEnvelopeJSON ev) of
        Inl _ \<Rightarrow> do { rejectClosedLoopAdmission r; ret False }
      | Inr env \<Rightarrow>
          if \<not> topologyCoverageWithinEnvelope coverage env
          then do { rejectClosedLoopAdmission r; ret False }
          else
            (case r_LoadEffective r of
               None \<Rightarrow> do { rejectClosedLoopAdmission r; ret False }
             | Some load \<Rightarrow> do {
                 effective \<leftarrow> perform load (\<lambda>_. ERead ''LoadEffective'');
                 (case effective of
                    Inl _ \<Rightarrow> ret False
                  | Inr perms \<Rightarrow>
                      if \<not> authorizationEnvelopeAllowsDispatch perms env coverage
                      then do { rejectClosedLoopAdmission r; ret False }
                      else do {
                        admin \<leftarrow> eventCreatorCanUseRequiredAdminControls r ev;
                        (case admin of
                           Inl _ \<Rightarrow> ret False
                         | Inr adminAllowed \<Rightarrow>
                             if \<not> adminAllowed then do { rejectClosedLoopAdmission r; ret False }
                             else ret True) }) }))"

definition validateClosedLoopTopologyAdmission ::
  "reconciler \<Rightarrow> event \<Rightarrow> list_candidates_params \<Rightarrow> bool act" where
  "validateClosedLoopTopologyAdmission r ev params =
     (if lc_BuildingIDs params = [] \<and> lc_RackIDs params = [] \<and> lc_GroupIDs params = []
      then ret True
      else case r_topologyStore r of
             None \<Rightarrow> do { rejectClosedLoopAdmission r; ret False }
           | Some resolve \<Rightarrow> do {
               a \<leftarrow> perform (\<lambda>l. resolve l params) (\<lambda>_. ERead ''ResolveCurtailmentTopologyScope'');
               (case a of
                  CoverageInvalid \<Rightarrow> do { rejectClosedLoopAdmission r; ret False }
                | CoverageError \<Rightarrow> ret False
                | Coverage coverage \<Rightarrow> validate_coverage r ev coverage) })"

definition topology_members :: "event \<Rightarrow> model_candidate list \<Rightarrow> string list" where
  "topology_members ev cands =
     map mc_DeviceIdentifier
       (filter (\<lambda>c. mc_DeviceIdentifier c \<noteq> [] \<and>
          (if isAllPairedPolicyEvent ev then IsAllPairedPolicyPairingStatus (mc_PairingStatus c)
           else mc_PairingStatus c = ''PAIRED'')) cands)"

definition departed :: "event \<Rightarrow> target list \<Rightarrow> model_candidate list \<Rightarrow> string list" where
  "departed ev ts cands =
     map t_DeviceIdentifier
       (filter (\<lambda>t. t_DesiredState t \<noteq> DesiredStateActive \<and>
          t_State t \<notin> {TargetStateResolved, TargetStateRestoreFailed, TargetStateReleased} \<and>
          t_DeviceIdentifier t \<notin> set (topology_members ev cands)) ts)"

text \<open>The result is (departures, ok).\<close>

definition reconcileClosedLoopTopologyDepartures ::
  "reconciler \<Rightarrow> event \<Rightarrow> model_candidate list \<Rightarrow> (bool \<times> bool) act" where
  "reconcileClosedLoopTopologyDepartures r ev cands = do {
     ts \<leftarrow> targets;
     let departures = departed ev ts cands;
     if departures = [] then ret (False, True)
     else case r_restoreStore r of
            None \<Rightarrow> do { rejectClosedLoopAdmission r; ret (True, False) }
          | Some restore \<Rightarrow> do {
              res \<leftarrow> perform (\<lambda>l. restore l departures) (EDepartures departures);
              ret (True, res = Stored) } }"

type_synonym topology_tick = "list_candidates_params \<times> model_candidate list"

abbreviation live_curtail_state :: "event \<Rightarrow> bool" where
  "live_curtail_state ev \<equiv> e_State ev = EventStatePending \<or> e_State ev = EventStateActive"

text \<open>Expansion of the scope, bounded at one more than the limit.\<close>

definition expand_scope ::
  "reconciler \<Rightarrow> list_candidates_params \<Rightarrow> model_candidate list option act" where
  "expand_scope r params = do {
     cands \<leftarrow> listCandidates r (params\<lparr>lc_ResultLimit := int ScopeResolvedMinerMax + 1\<rparr>);
     (case cands of
        None \<Rightarrow> ret None
      | Some cs \<Rightarrow>
          if ScopeResolvedMinerMax < length cs
          then do { rejectClosedLoopAdmission r; ret None } else ret (Some cs)) }"

definition prepareClosedLoopTopologyTick ::
  "reconciler \<Rightarrow> event \<Rightarrow> (topology_tick option \<times> bool) act" where
  "prepareClosedLoopTopologyTick r ev =
     (if \<not> isClosedLoopFullFleet ev \<or> \<not> live_curtail_state ev \<or> e_ScopeType ev \<noteq> ScopeTypeMixed
      then ret (None, False)
      else case ScopeFromJSON (r_json r) (e_ScopeJSON ev) of
             Inl _ \<Rightarrow> do { rejectClosedLoopAdmission r; ret (None, True) }
           | Inr None \<Rightarrow> do { rejectClosedLoopAdmission r; ret (None, True) }
           | Inr (Some s) \<Rightarrow>
               if \<not> IsTopologyScope s then ret (None, False)
               else case ListCandidatesParamsForScope s of
                      Inl _ \<Rightarrow> do { rejectClosedLoopAdmission r; ret (None, True) }
                    | Inr p \<Rightarrow> do {
                        let params = p\<lparr>lc_OrgID := e_OrgID ev\<rparr>;
                        valid \<leftarrow> validateClosedLoopTopologyAdmission r ev params;
                        if \<not> valid then ret (None, True)
                        else do {
                          cands \<leftarrow> expand_scope r params;
                          (case cands of
                             None \<Rightarrow> ret (None, True)
                           | Some cs \<Rightarrow> do {
                               d \<leftarrow> reconcileClosedLoopTopologyDepartures r ev cs;
                               if \<not> snd d \<or> fst d then ret (None, True)
                               else ret (Some (params, cs), False) }) } })"

section \<open>Readiness of the all-paired policy\<close>

definition releaseAllPairedPolicyTarget :: "reconciler \<Rightarrow> event \<Rightarrow> nat \<Rightarrow> string \<Rightarrow> unit act" where
  "releaseAllPairedPolicyTarget r ev i reason = do {
     t \<leftarrow> tgt i;
     res \<leftarrow> writeTargetState r ev (t_DeviceIdentifier t)
             ((params_of TargetStateReleased)\<lparr>up_LastError := Some reason\<rparr>);
     if res = Stored then
       upd i (\<lambda>t. t\<lparr>t_State := TargetStateReleased, t_LastError := Some reason\<rparr>)
     else ret () }"

definition mirror_readiness :: "readiness_update \<Rightarrow> target \<Rightarrow> target" where
  "mirror_readiness u t =
     (let lastError = (if ru_Reason u = [] then None else Some (ru_Reason u));
          t1 = t\<lparr>t_State := ru_State u, t_LastError := lastError,
                t_BaselinePowerW := (if t_BaselinePowerW t = None then ru_BaselinePowerW u
                                     else t_BaselinePowerW t)\<rparr>
      in if t_DesiredState t \<noteq> DesiredStateActive then t1
         else
           let t2 = t1\<lparr>t_ConfirmedAt := None,
                      t_RestorePhase := map_option (\<lambda>p. p\<lparr>ph_State := ru_State u,
                        ph_CompletedAt := None, ph_LastError := lastError\<rparr>) (t_RestorePhase t1)\<rparr>
           in if ru_State u \<noteq> TargetStatePending then t2
              else t2\<lparr>t_RetryCount := 0, t_LastDispatchedAt := None, t_LastBatchUUID := None,
                     t_RestorePhase := map_option (\<lambda>p. p\<lparr>ph_RetryCount := 0,
                       ph_DispatchedAt := None, ph_BatchUUID := None\<rparr>) (t_RestorePhase t2)\<rparr>)"

text \<open>\<open>refreshable\<close> maps a device to its row; a later entry overwrites an earlier one.\<close>

definition applyAllPairedReadinessUpdates ::
  "reconciler \<Rightarrow> (string \<times> nat) list \<Rightarrow> readiness_update list \<Rightarrow> bool act" where
  "applyAllPairedReadinessUpdates r refreshable updates = do {
     applied \<leftarrow> perform (\<lambda>l. r_BulkRefresh r l updates) (EReadiness updates);
     (case applied of
        None \<Rightarrow> ret False
      | Some devices \<Rightarrow> do {
          each (\<lambda>u.
            if ru_DeviceIdentifier u \<notin> set devices then ret ()
            else case map_of (rev refreshable) (ru_DeviceIdentifier u) of
                   None \<Rightarrow> ret ()
                 | Some i \<Rightarrow> upd i (mirror_readiness u)) updates;
          ret True }) }"

definition readiness_of ::
  "reconciler \<Rightarrow> event \<Rightarrow> target \<Rightarrow> model_candidate \<Rightarrow> readiness_update option" where
  "readiness_of r ev t c =
     (case AllPairedPolicyTargetState (Some c)
             (e_IncludeMaintenance ev \<and> e_ForceIncludeMaintenance ev) of
        (nextState, reason) \<Rightarrow>
          let baseline =
                (if nextState = TargetStatePending \<and> t_BaselinePowerW t = None
                 then AllPairedPromotionBaselinePowerW (Some c)
                        (candidateMinPowerWForEvent (r_json r) ev 0)
                 else None);
              update = \<lparr>ru_DeviceIdentifier = t_DeviceIdentifier t, ru_ExpectedState = t_State t,
                ru_ExpectedDesiredState = t_DesiredState t, ru_State = nextState,
                ru_Reason = reason, ru_BaselinePowerW = baseline\<rparr>
          in if nextState = t_State t \<and> reason = targetErrorString t then
               (if baseline \<noteq> None then Some update else None)
             else if nextState \<noteq> TargetStatePending \<and> nextState \<noteq> TargetStateUnavailable
             then None
             else Some update)"

fun collect_readiness ::
  "reconciler \<Rightarrow> event \<Rightarrow> (string \<Rightarrow> model_candidate option) \<Rightarrow> nat list \<Rightarrow>
   (nat \<times> readiness_update) list act" where
  "collect_readiness r ev cands [] = ret []"
| "collect_readiness r ev cands (i # is) = do {
     t \<leftarrow> tgt i;
     if t_DesiredState t \<noteq> DesiredStateCurtailed \<or>
        t_State t \<notin> {TargetStatePending, TargetStateUnavailable}
     then collect_readiness r ev cands is
     else case cands (t_DeviceIdentifier t) of
            None \<Rightarrow> do {
              releaseAllPairedPolicyTarget r ev i ''released: device is no longer paired-like'';
              collect_readiness r ev cands is }
          | Some c \<Rightarrow>
              if \<not> IsAllPairedPolicyPairingStatus (mc_PairingStatus c) then do {
                releaseAllPairedPolicyTarget r ev i ''released: device is no longer paired-like'';
                collect_readiness r ev cands is }
              else do {
                us \<leftarrow> collect_readiness r ev cands is;
                ret (case readiness_of r ev t c of None \<Rightarrow> us | Some u \<Rightarrow> (i, u) # us) } }"

definition apply_collected ::
  "reconciler \<Rightarrow> (nat \<times> readiness_update) list \<Rightarrow> bool act" where
  "apply_collected r us =
     (if us = [] then ret True
      else applyAllPairedReadinessUpdates r (map (\<lambda>(i, u). (ru_DeviceIdentifier u, i)) us)
             (map snd us))"

definition refreshAllPairedPolicyTargets ::
  "reconciler \<Rightarrow> event \<Rightarrow> (string \<Rightarrow> model_candidate option) \<Rightarrow> unit act" where
  "refreshAllPairedPolicyTargets r ev cands = do {
     ts \<leftarrow> targets;
     us \<leftarrow> collect_readiness r ev cands [0..<length ts];
     apply_collected r us;
     ret () }"

definition restore_refreshable :: "target \<Rightarrow> bool" where
  "restore_refreshable t \<longleftrightarrow>
     t_DeviceIdentifier t \<noteq> [] \<and> t_DesiredState t = DesiredStateActive \<and>
     t_State t \<in> {TargetStatePending, TargetStateUnavailable, TargetStateRestoreFailed}"

definition restore_readiness ::
  "(string \<Rightarrow> model_candidate option) \<Rightarrow> (nat \<times> target) list \<Rightarrow> (nat \<times> readiness_update) list" where
  "restore_readiness cands its =
     List.map_filter (\<lambda>(i, t).
       case AllPairedPolicyRestoreTargetState (cands (t_DeviceIdentifier t)) of
         (nextState, reason) \<Rightarrow>
           if \<not> shouldRefreshAllPairedRestoreTarget t nextState reason then None
           else Some (i, \<lparr>ru_DeviceIdentifier = t_DeviceIdentifier t, ru_ExpectedState = t_State t,
             ru_ExpectedDesiredState = t_DesiredState t, ru_State = nextState,
             ru_Reason = reason, ru_BaselinePowerW = None\<rparr>)) its"

definition refreshAllPairedTopologyRestoreTargets :: "reconciler \<Rightarrow> event \<Rightarrow> bool act" where
  "refreshAllPairedTopologyRestoreTargets r ev =
     (if \<not> isAllPairedTopologyPolicyEvent (r_json r) ev then ret True
      else do {
        ts \<leftarrow> targets;
        let its = filter (\<lambda>(i, t). restore_refreshable t) (List.enumerate 0 ts);
        if its = [] then ret True
        else do {
          cands \<leftarrow> listCandidates r (device_params ev (map (t_DeviceIdentifier \<circ> snd) its));
          (case cands of
             None \<Rightarrow> ret False
           | Some cs \<Rightarrow> apply_collected r (restore_readiness (candidatesByDeviceID cs) its)) } })"

section \<open>Claims\<close>

definition topologyAdmissionAirflowReady :: "reconciler \<Rightarrow> event \<Rightarrow> bool act" where
  "topologyAdmissionAirflowReady r ev = do {
     k \<leftarrow> cols;
     if k_FanOffSentAt k = None \<or> e_FacilityFanDeviceIDs ev = [] then ret True
     else case k_FanAirflowReopenedAt k of
            None \<Rightarrow> do { reopenEventFans r ev; ret False }
          | Some reopened \<Rightarrow>
              if fanAirflowNeedsReopen k then do { reopenEventFans r ev; ret False }
              else do {
                t \<leftarrow> now r;
                ret (\<not> time_before t
                      (time_add reopened (seconds (max (e_FanRestoreDelaySec ev) 0)))) } }"

text \<open>The pacing gate before new Curtail work: \<open>True\<close> admits.\<close>

definition admission_paced :: "reconciler \<Rightarrow> event \<Rightarrow> bool act" where
  "admission_paced r ev = do {
     elapsed \<leftarrow> (if curtailBatchIntervalActive ev then curtailBatchIntervalElapsed r ev
                 else ret True);
     if \<not> elapsed then ret False
     else do { ts \<leftarrow> targets; ret (\<not> hasInFlightCurtailDispatch ts) } }"

definition listActiveDevices :: "reconciler \<Rightarrow> string list option act" where
  "listActiveDevices r =
     perform (r_ListActiveTargetDevices r) (\<lambda>_. ERead ''ListActiveCurtailmentTargetDevices'')"

definition claimAllPairedPolicyTargets ::
  "reconciler \<Rightarrow> event \<Rightarrow> model_candidate list \<Rightarrow> list_candidates_params \<Rightarrow> bool act" where
  "claimAllPairedPolicyTargets r ev cands params = do {
     oc \<leftarrow> perform (r_GetOrgConfig r) (\<lambda>_. ERead ''GetOrgConfig'');
     (case oc of
        None \<Rightarrow> ret False
      | Some orgConfig \<Rightarrow> do {
          activeDevices \<leftarrow> listActiveDevices r;
          (case activeDevices of
             None \<Rightarrow> ret False
           | Some active \<Rightarrow> do {
               ts \<leftarrow> targets;
               let minPowerW =
                     candidateMinPowerWForEvent (r_json r) ev (oc_CandidateMinPowerW orgConfig);
               let plan = BuildAllPairedPolicyPlan (map Some cands)
                     (filter (\<lambda>d. d \<notin> set (map t_DeviceIdentifier ts)) active)
                     (e_IncludeMaintenance ev \<and> e_ForceIncludeMaintenance ev) minPowerW;
               let rows = excludeNonReopenableExistingTargetParams
                     (BuildInsertTargetParams (pl_Selected plan) ModeFullFleet minPowerW) ts;
               if rows = [] then ret False
               else do {
                 ready \<leftarrow> (if isTopologyCandidateFilter params
                           then topologyAdmissionAirflowReady r ev else ret True);
                 if \<not> ready then ret True
                 else do {
                   paced \<leftarrow> (if isTopologyCandidateFilter params then admission_paced r ev
                             else ret True);
                   if \<not> paced then ret False
                   else do {
                     let size = curtailBatchSizeForEvent ev (length rows);
                     claimed \<leftarrow> perform (\<lambda>l. r_ClaimAllPaired r l size rows)
                                 (\<lambda>_. EClaim 0 size rows);
                     ret (case claimed of
                            None \<Rightarrow> False
                          | Some n \<Rightarrow> 0 < n \<and> isTopologyCandidateFilter params) } } } }) }) }"

text \<open>Rows a full-fleet admission would insert, before the pacing gates; \<open>None\<close> is a read that failed.\<close>

definition admission_rows ::
  "reconciler \<Rightarrow> event \<Rightarrow> model_candidate list \<Rightarrow> insert_target_params list option act" where
  "admission_rows r ev cands = do {
     oc \<leftarrow> perform (r_GetOrgConfig r) (\<lambda>_. ERead ''GetOrgConfig'');
     (case oc of
        None \<Rightarrow> ret None
      | Some orgConfig \<Rightarrow> do {
          ts \<leftarrow> targets;
          let rows = (case BuildFullFleetAdmissionTargets (map Some cands)
                  (e_IncludeMaintenance ev \<and> e_ForceIncludeMaintenance ev)
                  (candidateMinPowerWForEvent (r_json r) ev (oc_CandidateMinPowerW orgConfig)) of
                None \<Rightarrow> [] | Some (admissions, _) \<Rightarrow> admissions);
          let fresh = excludeNonReopenableExistingTargetParams rows ts;
          activeDevices \<leftarrow> listActiveDevices r;
          (case activeDevices of
             None \<Rightarrow> ret None
           | Some active \<Rightarrow> do {
               let free = excludeDeviceIdentifiers fresh active;
               let cooldownSec = postEventCooldownSecForEvent (r_json r) ev;
               if cooldownSec \<le> 0 then ret (Some free)
               else do {
                 let ids = filter (\<lambda>d. d \<noteq> []) (map mc_DeviceIdentifier cands);
                 cooling \<leftarrow> perform (\<lambda>l. r_ListCooldownDevices r l cooldownSec ids)
                             (\<lambda>_. ERead ''ListRecentlyResolvedCurtailedDevices'');
                 (case cooling of
                    None \<Rightarrow> ret None
                  | Some cs \<Rightarrow> ret (Some (excludeDeviceIdentifiers free cs))) } }) }) }"

text \<open>The claimed rows are appended to the world; the result gives their indices.\<close>

definition claim_full_fleet ::
  "reconciler \<Rightarrow> event \<Rightarrow> insert_target_params list \<Rightarrow> nat list act" where
  "claim_full_fleet r ev rows = do {
     let size = curtailBatchSizeForEvent ev (length rows);
     let cooldownSec = postEventCooldownSecForEvent (r_json r) ev;
     claimed \<leftarrow> perform (\<lambda>l. r_ClaimFullFleet r l cooldownSec size rows)
                 (\<lambda>_. EClaim cooldownSec size rows);
     (case claimed of
        None \<Rightarrow> ret []
      | Some new \<Rightarrow> do {
          n \<leftarrow> gets (\<lambda>w. length (w_targets w));
          modify (\<lambda>w. w\<lparr>w_targets := w_targets w @ new\<rparr>);
          ret [n..<n + length new] }) }"

definition admit_candidates ::
  "reconciler \<Rightarrow> event \<Rightarrow> list_candidates_params \<Rightarrow> model_candidate list \<Rightarrow> (nat list \<times> bool) act" where
  "admit_candidates r ev params cands =
     (if isAllPairedPolicyEvent ev
      then do { stop \<leftarrow> claimAllPairedPolicyTargets r ev cands params; ret ([], stop) }
      else do {
        rows \<leftarrow> admission_rows r ev cands;
        (case rows of
           None \<Rightarrow> ret ([], False)
         | Some rs \<Rightarrow>
             if rs = [] then ret ([], False)
             else do {
               ready \<leftarrow> (if isTopologyCandidateFilter params
                         then topologyAdmissionAirflowReady r ev else ret True);
               if \<not> ready then ret ([], True)
               else do {
                 paced \<leftarrow> (if isTopologyCandidateFilter params then admission_paced r ev
                           else ret True);
                 if \<not> paced then ret ([], False)
                 else do { claimed \<leftarrow> claim_full_fleet r ev rs; ret (claimed, False) } } }) })"

definition claimClosedLoopFullFleetTargetsFromSnapshot ::
  "reconciler \<Rightarrow> event \<Rightarrow> topology_tick option \<Rightarrow> (nat list \<times> bool) act" where
  "claimClosedLoopFullFleetTargetsFromSnapshot r ev snapshot =
     (if \<not> isClosedLoopFullFleet ev \<or> \<not> live_curtail_state ev then ret ([], False)
      else case snapshot of
        Some (params, cands) \<Rightarrow>
          if isTopologyCandidateFilter params then admit_candidates r ev params cands
          else do {
            paced \<leftarrow> admission_paced r ev;
            if \<not> paced then ret ([], False) else admit_candidates r ev params cands }
      | None \<Rightarrow>
          (case listCandidatesParamsForEventScope (r_json r) ev of
             None \<Rightarrow> ret ([], False)
           | Some p \<Rightarrow> do {
               let params = p\<lparr>lc_OrgID := e_OrgID ev\<rparr>;
               let topology = isTopologyCandidateFilter params;
               valid \<leftarrow> validateClosedLoopTopologyAdmission r ev params;
               if \<not> valid then ret ([], topology)
               else do {
                 paced \<leftarrow> (if topology then ret True else admission_paced r ev);
                 if \<not> paced then ret ([], False)
                 else do {
                   cands \<leftarrow> expand_scope r params;
                   (case cands of
                      None \<Rightarrow> ret ([], topology)
                    | Some cs \<Rightarrow> do {
                        d \<leftarrow> (if topology then reconcileClosedLoopTopologyDepartures r ev cs
                             else ret (False, True));
                        if \<not> snd d \<or> fst d then ret ([], True)
                        else admit_candidates r ev params cs }) } } }))"

end
