(* ===== verification/Curtail_Tick.thy ===== *)
theory Curtail_Tick
  imports Curtail_Admission
begin

text \<open>
  The handlers of a tick (\<open>curtailment/reconciler/reconciler.go\<close>): one per state of the event, the
  dispatch on the state, and the tick over all live events. A panic inside a handler, which
  \<open>processEvent\<close> recovers, does not occur in the model. Deadlines appear only as the remaining
  budget that stops a tick between two events.
\<close>

section \<open>Shared parts\<close>

definition loadTargets :: "reconciler \<Rightarrow> bool act" where
  "loadTargets r = do {
     a \<leftarrow> perform (r_ListTargetsByEvent r) (\<lambda>_. ERead ''ListTargetsByEvent'');
     (case a of
        None \<Rightarrow> ret False
      | Some ts \<Rightarrow> do { modify (\<lambda>w. w\<lparr>w_targets := ts\<rparr>); ret True }) }"

definition wakeIfDispatchedWork :: "nat list \<Rightarrow> unit act" where
  "wakeIfDispatchedWork is =
     modify (\<lambda>w. if list_ex (\<lambda>i. t_State (w_targets w ! i) = TargetStateDispatched) is
                 then w\<lparr>w_wake := True\<rparr> else w)"

definition all_rows :: "nat list act" where
  "all_rows = gets (\<lambda>w. [0..<length (w_targets w)])"

definition driveTopologyRestores :: "reconciler \<Rightarrow> event \<Rightarrow> bool act" where
  "driveTopologyRestores r ev =
     (if \<not> live_curtail_state ev then ret False
      else do {
        refreshed \<leftarrow> refreshAllPairedTopologyRestoreTargets r ev;
        if \<not> refreshed then ret True
        else do {
          work \<leftarrow> gets (\<lambda>w. hasTopologyRestoreWork (w_targets w));
          if \<not> work then ret False
          else do {
            confirmDispatchedRestores r ev;
            left \<leftarrow> gets (\<lambda>w. hasTopologyRestoreWork (w_targets w));
            if \<not> left then ret False
            else do {
              k \<leftarrow> cols;
              airflow \<leftarrow> (if e_FacilityFanDeviceIDs ev \<noteq> [] \<and> fanAirflowNeedsReopen k
                          then reopenEventFans r ev else ret True);
              if \<not> airflow then ret True
              else do {
                maybeClaimRestoreBatch r ev;
                rows \<leftarrow> all_rows;
                wakeIfDispatchedWork rows;
                gets (\<lambda>w. hasTopologyRestoreWork (w_targets w)) } } } } })"

section \<open>Pending events\<close>

definition refresh_pending_policy :: "reconciler \<Rightarrow> event \<Rightarrow> unit act" where
  "refresh_pending_policy r ev =
     (if \<not> isAllPairedPolicyEvent ev then ret ()
      else do {
        ts \<leftarrow> targets;
        let ids = allPairedPolicyRefreshDeviceIdentifiers ts;
        if ids = [] then ret ()
        else do {
          cands \<leftarrow> listCandidates r (device_params ev ids);
          (case cands of
             None \<Rightarrow> ret ()
           | Some cs \<Rightarrow> refreshAllPairedPolicyTargets r ev (candidatesByDeviceID cs)) } })"

definition admit_pending :: "reconciler \<Rightarrow> event \<Rightarrow> topology_tick option \<Rightarrow> unit act" where
  "admit_pending r ev snapshot =
     (if snapshot = None \<and> \<not> isAllPairedPolicyEvent ev then ret ()
      else do {
        c \<leftarrow> claimClosedLoopFullFleetTargetsFromSnapshot r ev snapshot;
        if snd c then ret ()
        else do {
          claimed \<leftarrow> dispatchClaimedCurtailTargets r ev (fst c);
          wakeIfDispatchedWork claimed } })"

definition pending_rows :: "reconciler \<Rightarrow> event \<Rightarrow> nat \<Rightarrow> topology_tick option \<Rightarrow> unit act" where
  "pending_rows r ev n snapshot =
     (if n = 0 \<and> \<not> isAllPairedPolicyEvent ev then
        (if isClosedLoopFullFleet ev then do {
           t \<leftarrow> now r;
           updateEventState r ev EventStateActive (Some t) None;
           ret () }
         else ret ())
      else do {
        live \<leftarrow> eventStillDispatchable r ev;
        if \<not> live then ret ()
        else do {
          refresh_pending_policy r ev;
          dispatchPendingCurtailBatches r ev n;
          confirmDispatched r ev;
          maybeMarkActive r ev;
          admit_pending r ev snapshot } })"

definition dispatch_pending_body :: "reconciler \<Rightarrow> event \<Rightarrow> nat \<Rightarrow> unit act" where
  "dispatch_pending_body r ev n = do {
     airflow \<leftarrow> reconcilePendingFans r ev;
     if \<not> airflow then ret ()
     else do {
       restoring \<leftarrow> driveTopologyRestores r ev;
       p \<leftarrow> prepareClosedLoopTopologyTick r ev;
       if snd p \<or> restoring then ret () else pending_rows r ev n (fst p) } }"

definition dispatchPending :: "reconciler \<Rightarrow> event \<Rightarrow> unit act" where
  "dispatchPending r ev = do {
     loaded \<leftarrow> loadTargets r;
     if \<not> loaded then ret ()
     else do {
       rows \<leftarrow> all_rows;
       dispatch_pending_body r ev (length rows);
       wakeIfDispatchedWork rows } }"

section \<open>Active events\<close>

definition observe_drifted ::
  "reconciler \<Rightarrow> event \<Rightarrow> model_candidate option \<Rightarrow> nat \<Rightarrow> nat list act" where
  "observe_drifted r ev cand i = do {
     t \<leftarrow> tgt i;
     k \<leftarrow> cols;
     if retryBudgetTerminalizes (r_cfg r) t (t_RetryCount t) then do {
       recordDispatchFailure r ev i ''retry budget exhausted on drifted target'' TargetStateDrifted;
       ret [] }
     else case (if isAllPairedPolicyEvent ev then candidate_problem ev cand else None) of
            Some problem \<Rightarrow> do {
              recordDispatchFailure r ev i problem TargetStateDrifted;
              ret [] }
          | None \<Rightarrow>
              if k_FanOffSentAt k \<noteq> None then ret [i]
              else do { dispatchOneCurtail r ev i TargetStateDrifted; ret [] } }"

text \<open>
  One row of the loop. The result is \<open>None\<close> when the handler returns, else whether the airflow was
  reopened and the drifted rows whose dispatch waits for it.
\<close>

definition observe_row ::
  "reconciler \<Rightarrow> event \<Rightarrow> (string \<Rightarrow> model_candidate option) \<Rightarrow> bool \<Rightarrow> nat \<Rightarrow>
   (bool \<times> nat list) option act" where
  "observe_row r ev cands reopened i = do {
     t \<leftarrow> tgt i;
     k \<leftarrow> cols;
     let cand = cands (t_DeviceIdentifier t);
     if \<not> isCurtailRetryTarget t then ret (Some (reopened, []))
     else if t_State t = TargetStateConfirmed then
       (if k_FanOffSentAt k \<noteq> None \<and> \<not> hasFreshTelemetry cand then
          (if reopened then ret (Some (True, []))
           else do {
             ok \<leftarrow> reopenEventFans r ev;
             ret (if ok then Some (True, []) else None) })
        else do {
          checkDrift r ev i cand;
          after \<leftarrow> tgt i;
          ret (Some (reopened, if t_State after = TargetStateDrifted \<and> k_FanOffSentAt k \<noteq> None
                               then [i] else [])) })
     else if t_State t = TargetStateDispatched then do {
       confirmOneDispatched r ev i cand TargetStateDispatched;
       ret (Some (reopened, [])) }
     else if t_State t = TargetStateDispatching then do {
       (if retryBudgetTerminalizes (r_cfg r) t (t_RetryCount t)
        then recordDispatchFailure r ev i ''retry budget exhausted from interrupted dispatch''
               TargetStateDispatching
        else ret ());
       ret (Some (reopened, [])) }
     else if t_State t = TargetStateDrifted then do {
       waiting \<leftarrow> observe_drifted r ev cand i;
       ret (Some (reopened, waiting)) }
     else ret (Some (reopened, [])) }"

fun observe_loop ::
  "reconciler \<Rightarrow> event \<Rightarrow> (string \<Rightarrow> model_candidate option) \<Rightarrow> bool \<Rightarrow> nat list \<Rightarrow> nat list \<Rightarrow>
   (bool \<times> nat list) option act" where
  "observe_loop r ev cands reopened deferred [] = ret (Some (reopened, deferred))"
| "observe_loop r ev cands reopened deferred (i # is) = do {
     res \<leftarrow> observe_row r ev cands reopened i;
     (case res of
        None \<Rightarrow> ret None
      | Some (reopened', waiting) \<Rightarrow>
          observe_loop r ev cands reopened' (deferred @ waiting) is) }"

text \<open>Rows seen through telemetry, then airflow, deferred rows and batches.\<close>

definition observe_with ::
  "reconciler \<Rightarrow> event \<Rightarrow> nat \<Rightarrow> (string \<Rightarrow> model_candidate option) \<Rightarrow> bool option act" where
  "observe_with r ev n cands = do {
     (if isAllPairedPolicyEvent ev then refreshAllPairedPolicyTargets r ev cands else ret ());
     seen \<leftarrow> observe_loop r ev cands False [] [0..<n];
     (case seen of
        None \<Rightarrow> ret None
      | Some (reopened, deferred) \<Rightarrow> do {
          need \<leftarrow> gets (\<lambda>w. activeFanTargetsNeedAirflow (w_cols w)
                             (map (\<lambda>i. w_targets w ! i) [0..<n]));
          airflow \<leftarrow> (if need then reconcileActiveFans r ev [0..<n] else ret True);
          if \<not> airflow then ret None
          else do {
            each (\<lambda>i. dispatchOneCurtail r ev i TargetStateDrifted) deferred;
            dispatchPendingCurtailBatches r ev n;
            ret (Some (reopened \<or> need)) } }) }"

definition observe_rows :: "reconciler \<Rightarrow> event \<Rightarrow> nat \<Rightarrow> bool option act" where
  "observe_rows r ev n =
     (if n = 0 then ret (Some False)
      else do {
        ids \<leftarrow> device_ids [0..<n];
        cands \<leftarrow> listCandidates r (device_params ev ids);
        (case cands of
           Some cs \<Rightarrow> observe_with r ev n (candidatesByDeviceID cs)
         | None \<Rightarrow> do {
             k \<leftarrow> cols;
             if k_FanOffSentAt k \<noteq> None \<and> e_FacilityFanDeviceIDs ev \<noteq> [] then do {
               ok \<leftarrow> reopenEventFans r ev;
               ret (if ok then Some True else None) }
             else ret (Some False) }) })"

definition admit_active ::
  "reconciler \<Rightarrow> event \<Rightarrow> nat \<Rightarrow> topology_tick option \<Rightarrow> bool \<Rightarrow> unit act" where
  "admit_active r ev n snapshot reopened = do {
     c \<leftarrow> claimClosedLoopFullFleetTargetsFromSnapshot r ev snapshot;
     if snd c then ret ()
     else do {
       k \<leftarrow> cols;
       let need = (fst c \<noteq> [] \<and> \<not> reopened \<and> fanAirflowNeedsReopen k);
       airflow \<leftarrow> (if need then reconcileActiveFans r ev ([0..<n] @ fst c) else ret True);
       if \<not> airflow then ret ()
       else do {
         claimed \<leftarrow> dispatchClaimedCurtailTargets r ev (fst c);
         wakeIfDispatchedWork claimed;
         (if reopened \<or> need then ret True else reconcileActiveFans r ev ([0..<n] @ claimed));
         ret () } } }"

definition observe_active_body :: "reconciler \<Rightarrow> event \<Rightarrow> nat \<Rightarrow> unit act" where
  "observe_active_body r ev n = do {
     over \<leftarrow> enforceMaxDuration r ev;
     if over then ret ()
     else do {
       restoring \<leftarrow> driveTopologyRestores r ev;
       p \<leftarrow> prepareClosedLoopTopologyTick r ev;
       if snd p then ret ()
       else do {
         live \<leftarrow> eventStillDispatchable r ev;
         if \<not> live then ret ()
         else do {
           observed \<leftarrow> observe_rows r ev n;
           (case observed of
              None \<Rightarrow> ret ()
            | Some reopened \<Rightarrow>
                if restoring then do {
                  (if reopened then ret True else reconcileActiveFans r ev [0..<n]);
                  ret () }
                else admit_active r ev n (fst p) reopened) } } } }"

definition observeActive :: "reconciler \<Rightarrow> event \<Rightarrow> unit act" where
  "observeActive r ev = do {
     loaded \<leftarrow> loadTargets r;
     if \<not> loaded then ret ()
     else do {
       rows \<leftarrow> all_rows;
       observe_active_body r ev (length rows);
       wakeIfDispatchedWork rows } }"

section \<open>Restoring events and the tick\<close>

definition observe_restoring_body :: "reconciler \<Rightarrow> event \<Rightarrow> unit act" where
  "observe_restoring_body r ev = do {
     reconcileRestoringFans r ev;
     refreshed \<leftarrow> refreshAllPairedTopologyRestoreTargets r ev;
     if \<not> refreshed then ret ()
     else do {
       confirmDispatchedRestores r ev;
       done' \<leftarrow> maybeCompleteRestoring r ev;
       if done' then ret () else maybeClaimRestoreBatch r ev } }"

definition observeRestoring :: "reconciler \<Rightarrow> event \<Rightarrow> unit act" where
  "observeRestoring r ev = do {
     loaded \<leftarrow> loadTargets r;
     if \<not> loaded then ret ()
     else do {
       rows \<leftarrow> all_rows;
       observe_restoring_body r ev;
       wakeIfDispatchedWork rows } }"

definition processEvent :: "reconciler \<Rightarrow> event \<Rightarrow> unit act" where
  "processEvent r ev =
     (case e_State ev of
        EventStatePending \<Rightarrow> dispatchPending r ev
      | EventStateActive \<Rightarrow> observeActive r ev
      | EventStateRestoring \<Rightarrow> observeRestoring r ev
      | _ \<Rightarrow> ret ())"

text \<open>The loop over the events: each starts with its own columns and no rows.\<close>

fun run_events :: "reconciler \<Rightarrow> (event \<times> event_cols) list \<Rightarrow> unit act" where
  "run_events r [] = ret ()"
| "run_events r ((ev, k) # evs) = do {
     remaining \<leftarrow> gets (\<lambda>w. r_remaining r (w_log w));
     if remaining \<le> 0 then ret ()
     else do {
       perform (\<lambda>_. ()) (\<lambda>_. EEvent ev);
       modify (\<lambda>w. w\<lparr>w_targets := [], w_cols := k\<rparr>);
       processEvent r ev;
       run_events r evs } }"

definition runTick :: "reconciler \<Rightarrow> unit act" where
  "runTick r = do {
     tickStart \<leftarrow> now r;
     events \<leftarrow> perform (r_ListNonTerminalEvents r) (\<lambda>_. ERead ''ListNonTerminalEvents'');
     (case events of
        None \<Rightarrow> perform (\<lambda>_. ()) (\<lambda>_. EHeartbeat tickStart 0)
      | Some evs \<Rightarrow> do {
          run_events r evs;
          perform (\<lambda>_. ()) (\<lambda>_. EHeartbeat tickStart (wrap32 (int (length evs)))) }) }"

end
