(* ===== verification/Curtail_Safety.thy ===== *)
theory Curtail_Safety
  imports Curtail_Tick
begin

text \<open>
  What a tick may do, stated over its trace, and the proof that every tick keeps to it whatever the
  store, the command service, the permission resolver and the clock answer.
\<close>

section \<open>The specification of a trace\<close>

definition is_event :: "trace_entry \<Rightarrow> bool" where
  "is_event e \<longleftrightarrow> (case e of EEvent _ \<Rightarrow> True | _ \<Rightarrow> False)"

definition is_uncurtail :: "trace_entry \<Rightarrow> bool" where
  "is_uncurtail e \<longleftrightarrow> (case e of EUncurtail _ \<Rightarrow> True | _ \<Rightarrow> False)"

text \<open>The event being processed, and the entries since its processing began.\<close>

fun event_of :: "trace_entry list \<Rightarrow> event option" where
  "event_of [] = None"
| "event_of (e # l) = (case e of EEvent ev \<Rightarrow> Some ev | _ \<Rightarrow> event_of l)"

definition recent :: "trace_entry list \<Rightarrow> trace_entry list" where
  "recent l = takeWhile (\<lambda>e. \<not> is_event e) l"

text \<open>
  A durable DISPATCHING row for a device, written for this event under the guards of its state and
  of the direction of the command.
\<close>

definition prewrite_of :: "event \<Rightarrow> desired_state \<Rightarrow> string \<Rightarrow> trace_entry \<Rightarrow> bool" where
  "prewrite_of ev des d e =
     (case e of
        EWrite d' p Stored \<Rightarrow>
          d' = d \<and> up_State p = TargetStateDispatching \<and>
          up_ExpectedEventState p = Some (e_State ev) \<and> up_ExpectedDesiredState p = Some des
      | _ \<Rightarrow> False)"

definition prewritten :: "event \<Rightarrow> desired_state \<Rightarrow> string \<Rightarrow> trace_entry list \<Rightarrow> bool" where
  "prewritten ev des d l \<longleftrightarrow> list_ex (prewrite_of ev des d) (recent l)"

text \<open>Reads made inside a fence, and the parking of returned miners.\<close>

definition in_fence :: "trace_entry \<Rightarrow> bool" where
  "in_fence e \<longleftrightarrow> (case e of ERead _ \<Rightarrow> True | EPark _ res \<Rightarrow> res = Stored | _ \<Rightarrow> False)"

text \<open>
  The last thing before a Curtail command: the event was seen live in the loaded state, or the
  dispatch fence holds the event and its topology, every device is a member, and the coverage is
  within the envelope the event was authorized for.
\<close>

definition envelope_of :: "reconciler \<Rightarrow> event \<Rightarrow> envelope_error + authorization_envelope" where
  "envelope_of r ev =
     AuthorizationEnvelopeFromJSON (js_fields (r_json r)) (js_envelope (r_json r))
       (e_AuthorizationEnvelopeJSON ev)"

definition curtail_gate ::
  "reconciler \<Rightarrow> event \<Rightarrow> string list \<Rightarrow> trace_entry list \<Rightarrow> bool" where
  "curtail_gate r ev ids l =
     (case dropWhile in_fence l of
        ELive a # _ \<Rightarrow> a = LiveState (e_State ev)
      | EFence (FenceOpen latest topology) # _ \<Rightarrow>
          list_all (\<lambda>d. d \<in> set (ts_DispatchMembers topology)) ids \<and>
          (case envelope_of r latest of
             Inl _ \<Rightarrow> False
           | Inr env \<Rightarrow> topologyCoverageWithinEnvelope (ts_Coverage topology) env)
      | _ \<Rightarrow> False)"

text \<open>
  Before an Uncurtail command: the event was seen live in the loaded state, or the restore fence
  holds it and it is restoring or none of the devices is back in its scope.
\<close>

definition restore_gate :: "event \<Rightarrow> string list \<Rightarrow> trace_entry list \<Rightarrow> bool" where
  "restore_gate ev ids l =
     (case dropWhile in_fence l of
        ELive a # _ \<Rightarrow> a = LiveState (e_State ev)
      | EFence (FenceOpen latest topology) # _ \<Rightarrow>
          e_State latest = EventStateRestoring \<or>
          list_all (\<lambda>d. d \<notin> set (ts_DispatchMembers topology)) ids
      | _ \<Rightarrow> False)"

definition event_step :: "event_state \<Rightarrow> event_state \<Rightarrow> bool" where
  "event_step s s' \<longleftrightarrow>
     s = EventStatePending \<and> s' \<in> {EventStateActive, EventStateCompletedWithFailures} \<or>
     s = EventStateRestoring \<and> s' \<in> {EventStateCompleted, EventStateCompletedWithFailures}"

text \<open>Only a restore that has used up its budget is given up.\<close>

definition write_ok :: "reconciler \<Rightarrow> event \<Rightarrow> update_params \<Rightarrow> bool" where
  "write_ok r ev p \<longleftrightarrow>
     up_ExpectedEventState p = Some (e_State ev) \<and>
     (up_State p = TargetStateRestoreFailed \<longrightarrow>
        up_ExpectedDesiredState p = Some DesiredStateActive \<and>
        (case up_RetryCount p of None \<Rightarrow> False | Some n \<Rightarrow> cf_MaxRetries (r_cfg r) \<le> n))"

definition entry_ok :: "reconciler \<Rightarrow> event \<Rightarrow> trace_entry \<Rightarrow> trace_entry list \<Rightarrow> bool" where
  "entry_ok r ev e l =
     (case e of
        ECurtail ids \<Rightarrow>
          (e_State ev = EventStatePending \<or> e_State ev = EventStateActive) \<and>
          list_all (\<lambda>d. prewritten ev DesiredStateCurtailed d l) ids \<and> curtail_gate r ev ids l
      | EUncurtail ids \<Rightarrow>
          list_all (\<lambda>d. prewritten ev DesiredStateActive d l) ids \<and> restore_gate ev ids l \<and>
          \<not> list_ex is_uncurtail (recent l) \<and>
          int (length ids) \<le> max 1 (restoreClaimBatchSize ev)
      | EWrite d p res \<Rightarrow> write_ok r ev p
      | EEventState s s' _ _ _ \<Rightarrow> s = e_State ev \<and> event_step s s'
      | _ \<Rightarrow> True)"

text \<open>Entries outside the processing of an event are the tick's own.\<close>

fun safe_trace :: "reconciler \<Rightarrow> trace_entry list \<Rightarrow> bool" where
  "safe_trace r [] \<longleftrightarrow> True"
| "safe_trace r (e # l) \<longleftrightarrow>
     (case event_of l of None \<Rightarrow> True | Some ev \<Rightarrow> entry_ok r ev e l) \<and> safe_trace r l"

section \<open>The invariant\<close>

text \<open>
  There are \<open>n\<close> rows, \<open>u\<close> says that no Uncurtail command was sent yet, \<open>S\<close> holds the rows whose pre-write is durable,
  \<open>des\<close> is the direction of the command in preparation.
\<close>

definition dev :: "world \<Rightarrow> nat \<Rightarrow> string" where
  "dev w i = t_DeviceIdentifier (w_targets w ! i)"

definition running ::
  "reconciler \<Rightarrow> event \<Rightarrow> desired_state \<Rightarrow> nat \<Rightarrow> bool \<Rightarrow> nat set \<Rightarrow> world \<Rightarrow> bool" where
  "running r ev des n u S w \<longleftrightarrow>
     safe_trace r (w_log w) \<and> event_of (w_log w) = Some ev \<and> length (w_targets w) = n \<and>
     (u \<longrightarrow> \<not> list_ex is_uncurtail (recent (w_log w))) \<and>
     (\<forall>i\<in>S. i < n \<and> prewritten ev des (dev w i) (w_log w))"

lemma recent_Cons: "recent (e # l) = (if is_event e then [] else e # recent l)"
  by (simp add: recent_def)

lemma event_of_Cons: "\<not> is_event e \<Longrightarrow> event_of (e # l) = event_of l"
  by (simp add: is_event_def split: trace_entry.splits)

declare event_of.simps(2) [simp del]

lemma prewritten_Cons:
  "\<not> is_event e \<Longrightarrow> prewritten ev des d (e # l) \<longleftrightarrow> prewrite_of ev des d e \<or> prewritten ev des d l"
  by (simp add: prewritten_def recent_Cons)

lemma running_empty: "running r ev des n u S w \<Longrightarrow> running r ev des' n u {} w"
  by (simp add: running_def)

lemma running_spent: "running r ev des n u S w \<Longrightarrow> running r ev des' n False {} w"
  by (simp add: running_def)

lemma running_mono: "running r ev des n u S w \<Longrightarrow> S' \<subseteq> S \<Longrightarrow> running r ev des n u S' w"
  by (auto simp: running_def)

lemma running_log:
  assumes "running r ev des n u S w" "\<not> is_event e" "\<not> is_uncurtail e"
    "entry_ok r ev e (w_log w)"
  shows "running r ev des n u S (w\<lparr>w_log := e # w_log w\<rparr>)"
  using assms by (auto simp: running_def event_of_Cons prewritten_Cons dev_def recent_Cons split: option.splits)

lemma keeps_perform:
  assumes "\<And>a. \<not> is_event (mk a)" "\<And>a. \<not> is_uncurtail (mk a)"
    "\<And>a l. event_of l = Some ev \<Longrightarrow> entry_ok r ev (mk a) l"
  shows "keeps (running r ev des n u S) (perform ask mk)"
  unfolding keeps_def wp
proof (intro allI impI)
  fix w assume w: "running r ev des n u S w"
  then have "event_of (w_log w) = Some ev" by (simp add: running_def)
  then show "running r ev des n u S (w\<lparr>w_log := mk (ask (w_log w)) # w_log w\<rparr>)"
    using w assms by (intro running_log) auto
qed

text \<open>Updates that keep the device of a row, or leave rows and trace alone.\<close>

lemma device_update:
  assumes "t_DeviceIdentifier (f (ts ! i)) = t_DeviceIdentifier (ts ! i)" "j < length ts"
  shows "t_DeviceIdentifier (ts[i := f (ts ! i)] ! j) = t_DeviceIdentifier (ts ! j)"
  using assms by (cases "i = j") simp_all

lemma running_upd:
  assumes "running r ev des n u S w"
    "t_DeviceIdentifier (f (w_targets w ! i)) = t_DeviceIdentifier (w_targets w ! i)"
  shows "running r ev des n u S (w\<lparr>w_targets := (w_targets w)[i := f (w_targets w ! i)]\<rparr>)"
  using assms by (auto simp: running_def dev_def device_update)

lemma keeps_upd [keeps_intro]:
  assumes "\<And>t. t_DeviceIdentifier (f t) = t_DeviceIdentifier t"
  shows "keeps (running r ev des n u S) (upd i f)"
  using assms by (auto simp: keeps_def wp intro: running_upd)

lemma keeps_upd_cols [keeps_intro]: "keeps (running r ev des n u S) (upd_cols f)"
  by (simp add: keeps_def wp running_def dev_def)

lemma keeps_modify [keeps_intro]:
  "(\<And>w. w_targets (f w) = w_targets w \<and> w_log (f w) = w_log w) \<Longrightarrow>
   keeps (running r ev des n u S) (modify f)"
  by (simp add: keeps_def wp running_def dev_def)

lemma keeps_permit [keeps_intro]:
  "keeps I m \<Longrightarrow> keeps I n \<Longrightarrow> (\<And>a. keeps I (f a)) \<Longrightarrow>
   keeps I (case x of NotTopology \<Rightarrow> m | Refused \<Rightarrow> n | Permitted a \<Rightarrow> f a)"
  by (cases x) simp_all

lemma keeps_coverage [keeps_intro]:
  "(\<And>c. keeps I (f c)) \<Longrightarrow> keeps I m \<Longrightarrow> keeps I n \<Longrightarrow>
   keeps I (case x of Coverage c \<Rightarrow> f c | CoverageInvalid \<Rightarrow> m | CoverageError \<Rightarrow> n)"
  by (cases x) simp_all

lemma keeps_power [keeps_intro]:
  "keeps I m \<Longrightarrow> keeps I n \<Longrightarrow> keeps I (case x of PowerOn \<Rightarrow> m | PowerOff \<Rightarrow> n)"
  by (cases x) simp_all

lemma keeps_bool [keeps_intro]:
  "keeps I m \<Longrightarrow> keeps I n \<Longrightarrow> keeps I (case x of True \<Rightarrow> m | False \<Rightarrow> n)"
  by (cases x) simp_all

lemmas entry_defs = is_event_def is_uncurtail_def entry_ok_def

section \<open>Writes and failures\<close>

lemma fill_params_simps [simp]:
  "up_State (fill_params ev p) = up_State p" "up_RetryCount (fill_params ev p) = up_RetryCount p"
  "up_ExpectedEventState p = None \<Longrightarrow>
     up_ExpectedEventState (fill_params ev p) = Some (e_State ev)"
  "up_ExpectedDesiredState p = Some d \<Longrightarrow> up_ExpectedDesiredState (fill_params ev p) = Some d"
  by (simp_all add: fill_params_def)

lemma keeps_write [keeps_intro]:
  "write_ok r ev (fill_params ev p) \<Longrightarrow>
   keeps (running r ev des n u S) (writeTargetState r ev d p)"
  unfolding writeTargetState_def Let_def
  by (rule keeps_perform) (simp_all add: entry_defs)

lemma write_ok_other:
  "up_ExpectedEventState p = None \<Longrightarrow> up_State p \<noteq> TargetStateRestoreFailed \<Longrightarrow>
   write_ok r ev (fill_params ev p)"
  by (simp add: write_ok_def)

lemma terminalizes_active:
  "retryBudgetTerminalizes cfg t n \<Longrightarrow>
   t_DesiredState t = DesiredStateActive \<and> cf_MaxRetries cfg \<le> n"
  by (cases "t_DesiredState t")
    (simp_all add: retryBudgetTerminalizes_def isCurtailRetryTarget_def maxRetriesForTarget_def)

lemma keeps_failure_guarded [keeps_intro]:
  assumes "fallback \<noteq> TargetStateRestoreFailed"
  shows "keeps (running r ev des n u S) (recordDispatchFailureGuarded r ev i e fallback guard)"
  unfolding recordDispatchFailureGuarded_def bumpTargetRetry_def Let_def
  using assms
  by (intro keeps_intro keeps_perform)
    (auto simp: entry_defs write_ok_def dest: terminalizes_active)

lemma keeps_failure [keeps_intro]:
  "fallback \<noteq> TargetStateRestoreFailed \<Longrightarrow>
   keeps (running r ev des n u S) (recordDispatchFailure r ev i e fallback)"
  unfolding recordDispatchFailure_def by (intro keeps_intro)

lemma keeps_observation_failure [keeps_intro]:
  "fallback \<noteq> TargetStateRestoreFailed \<Longrightarrow>
   keeps (running r ev des n u S) (recordDispatchedObservationFailure r ev i e fallback)"
  unfolding recordDispatchedObservationFailure_def by (intro keeps_intro)

lemma keeps_now [keeps_intro]: "keeps (running r' ev des n u S) (now r)"
  unfolding now_def by (rule keeps_perform) (simp_all add: entry_defs)

lemma keeps_live [keeps_intro]: "keeps (running r ev' des n u S) (eventStillDispatchable r ev)"
  unfolding eventStillDispatchable_def
  by (intro keeps_intro keeps_perform) (simp_all add: entry_defs)

lemma keeps_clock [keeps_intro]:
  "keeps (running r ev des n u S) (recordCurtailPendingDispatch r ev t)"
  unfolding recordCurtailPendingDispatch_def
  by (intro keeps_intro keeps_perform) (simp_all add: entry_defs)

lemma keeps_interval [keeps_intro]:
  "keeps (running r ev des n u S) (curtailBatchIntervalElapsed r ev)"
  unfolding curtailBatchIntervalElapsed_def by (intro keeps_intro)

lemma keeps_begin_restore [keeps_intro]: "keeps (running r ev des n u S) (beginRestore r ids)"
  unfolding beginRestore_def by (rule keeps_perform) (simp_all add: entry_defs)

lemma keeps_device_ids [keeps_intro]: "keeps I (device_ids is)"
  unfolding device_ids_def by (intro keeps_intro)

lemma keeps_candidates [keeps_intro]: "keeps (running r ev des n u S) (listCandidates r p)"
  unfolding listCandidates_def by (rule keeps_perform) (simp_all add: entry_defs)

lemma keeps_admin [keeps_intro]:
  "keeps (running r ev des n u S) (eventCreatorCanUseRequiredAdminControls r ev')"
  unfolding eventCreatorCanUseRequiredAdminControls_def
  by (intro keeps_intro keeps_perform) (simp_all add: entry_defs)

lemma keeps_reject [keeps_intro]:
  "keeps (running r ev des n u S) (reject_dispatch r ev' x ids)"
  unfolding reject_dispatch_def by (intro keeps_intro) auto

section \<open>Curtail commands\<close>

abbreviation fenced :: "event \<Rightarrow> topology_snapshot \<Rightarrow> world \<Rightarrow> bool" where
  "fenced latest topology w \<equiv>
     (\<exists>l. dropWhile in_fence (w_log w) = EFence (FenceOpen latest topology) # l)"

lemma in_fence_read [simp]: "in_fence (ERead x)"
  by (simp add: in_fence_def)

lemma admin_fenced:
  "fenced latest topology w \<Longrightarrow> w_targets w = ts \<Longrightarrow>
   wp (eventCreatorCanUseRequiredAdminControls r ev)
     (\<lambda>_ w'. fenced latest topology w' \<and> w_targets w' = ts) w"
  unfolding eventCreatorCanUseRequiredAdminControls_def
  by (auto simp: wp split: option.splits sum.splits)

lemma fence_rejection_wp:
  assumes "fenced latest topology w" "w_targets w = ts"
  shows "wp (fence_rejection r latest topology ids)
    (\<lambda>res w'. fenced latest topology w' \<and> w_targets w' = ts \<and>
       (res = None \<longrightarrow> curtail_gate r ev ids (w_log w'))) w"
  using assms unfolding fence_rejection_def
  by (auto simp: wp curtail_gate_def envelope_of_def split: option.splits sum.splits
      intro!: admin_fenced [THEN wp_mono])

lemma keeps_fence_rejection [keeps_intro]:
  "keeps (running r ev des n u S) (fence_rejection r latest topology ids)"
  unfolding fence_rejection_def
  by (intro keeps_intro keeps_perform) (simp_all add: entry_defs)

text \<open>The ids of prepared rows are prewritten.\<close>

lemma running_ids:
  "running r ev des n u (set is) w \<Longrightarrow> list_all (\<lambda>d. prewritten ev des d (w_log w)) (map (dev w) is)"
  by (simp add: running_def list_all_iff)

lemma send_curtail_wp:
  assumes "running r ev DesiredStateCurtailed n u (set is) w" "ids = map (dev w) is"
    "live_curtail_state ev" "curtail_gate r ev ids (w_log w)"
  shows "wp (sendCurtail r ids) (\<lambda>_. running r ev DesiredStateCurtailed n u {}) w"
  unfolding sendCurtail_def wp using assms
  by (intro running_log running_empty [OF assms(1)])
    (auto simp: entry_defs dest: running_ids)

lemma fence_outcome_wp:
  assumes "running r ev DesiredStateCurtailed n u (set is) w" "ids = map (dev w) is"
    "live_curtail_state ev" "rejection = None \<Longrightarrow> curtail_gate r ev ids (w_log w)"
  shows "wp (fence_outcome r ev ids unsent rejection) (\<lambda>_. running r ev DesiredStateCurtailed n u {}) w"
proof (cases rejection)
  case None
  have "keeps (running r ev DesiredStateCurtailed n u {}) (do {
      e \<leftarrow> perform (r_fenceEnd r) EFenceEnd;
      (case e of Stored \<Rightarrow> ret (Permitted a) | RaceLoss \<Rightarrow> ret Refused
       | Failed x \<Rightarrow> reject_dispatch r ev (''acquire topology dispatch fence'', True) unsent) })"
    for a by (intro keeps_intro keeps_perform) (simp_all add: entry_defs)
  with None assms show ?thesis
    unfolding fence_outcome_def
    by (auto simp: wp_bind [of "sendCurtail _ _"] intro!: send_curtail_wp [THEN wp_mono] dest: keepsD)
next
  case (Some reason)
  have "keeps (running r ev DesiredStateCurtailed n u {}) (do {
      perform (r_fenceEnd r) EFenceEnd; reject_dispatch r ev (reason, False) unsent })"
    by (intro keeps_intro keeps_perform) (simp_all add: entry_defs)
  with Some show ?thesis
    unfolding fence_outcome_def by (auto intro: keepsD running_empty [OF assms(1)])
qed

lemma run_dispatch_fence_wp:
  assumes w: "running r ev DesiredStateCurtailed n u (set is) w" "ids = map (dev w) is"
    "live_curtail_state ev"
  shows "wp (run_dispatch_fence r ev fence params ids unsent)
    (\<lambda>_. running r ev DesiredStateCurtailed n u {}) w"
proof -
  let ?w = "\<lambda>a. w\<lparr>w_log := EFence a # w_log w\<rparr>"
  have run: "running r ev DesiredStateCurtailed n u (set is) (?w a)" for a
    by (rule running_log [OF w(1)]) (simp_all add: entry_defs)
  have reject: "wp (reject_dispatch r ev x unsent) (\<lambda>_. running r ev DesiredStateCurtailed n u {}) (?w a)"
    for x a using keepsD [OF keeps_reject running_empty [OF run]] .
  have "wp (do { rejection \<leftarrow> fence_rejection r latest topology ids;
               fence_outcome r ev ids unsent rejection })
      (\<lambda>_. running r ev DesiredStateCurtailed n u {}) (?w (FenceOpen latest topology))"
    for latest topology
    unfolding wp_bind
  proof (rule wp_mono [OF wp_conj [OF fence_rejection_wp [where ts = "w_targets w" and ev = ev]
            keepsD [OF keeps_fence_rejection run]]])
    fix res :: "string option" and w'
    assume "(fenced latest topology w' \<and> w_targets w' = w_targets w \<and>
        (res = None \<longrightarrow> curtail_gate r ev ids (w_log w'))) \<and>
      running r ev DesiredStateCurtailed n u (set is) w'"
    then show "wp (fence_outcome r ev ids unsent res) (\<lambda>_. running r ev DesiredStateCurtailed n u {}) w'"
      using w by (intro fence_outcome_wp) (auto simp: dev_def)
  qed (simp_all add: in_fence_def)
  then show ?thesis
    unfolding run_dispatch_fence_def wp_bind [of "perform _ _"] wp_perform
    using run [THEN running_empty] reject
    by (auto simp: wp_ret split: fence_answer.splits store_result.splits)
qed

lemma reject_refuses: "wp (reject_dispatch r ev x unsent) (\<lambda>permit _. permit = Refused) w"
  by (auto simp: reject_dispatch_def beginRestore_def wp)

lemma fence_outcome_handled:
  "wp (fence_outcome r ev ids unsent rejection) (\<lambda>permit _. permit \<noteq> NotTopology) w"
  unfolding fence_outcome_def sendCurtail_def
  by (auto simp: wp split: option.splits store_result.splits intro: reject_refuses [THEN wp_mono])

lemma run_dispatch_fence_handled:
  "wp (run_dispatch_fence r ev fence params ids unsent) (\<lambda>permit _. permit \<noteq> NotTopology) w"
  unfolding run_dispatch_fence_def
  by (auto simp: wp split: fence_answer.splits store_result.splits
      intro: reject_refuses [THEN wp_mono] wp_always fence_outcome_handled)

lemma authorize_wp:
  assumes w: "running r ev DesiredStateCurtailed n u (set is) w" "ids = map (dev w) is"
    "live_curtail_state ev"
  shows "wp (authorizeTopologyCurtailDispatch r ev ids unsent)
    (\<lambda>permit w'. running r ev DesiredStateCurtailed n u {} w' \<and> (permit = NotTopology \<longrightarrow> w' = w)) w"
proof -
  note run = running_empty [OF w(1)]
  have "wp (reject_dispatch r ev x unsent)
      (\<lambda>permit w'. running r ev DesiredStateCurtailed n u {} w' \<and> (permit = NotTopology \<longrightarrow> w' = w)) w"
    for x
    by (rule wp_mono [OF wp_conj [OF reject_refuses keepsD [OF keeps_reject run]]]) auto
  moreover have "wp (run_dispatch_fence r ev fence params ids unsent)
      (\<lambda>permit w'. running r ev DesiredStateCurtailed n u {} w' \<and> (permit = NotTopology \<longrightarrow> w' = w)) w"
    for fence params
    by (rule wp_mono [OF wp_conj [OF run_dispatch_fence_handled run_dispatch_fence_wp [OF w]]]) auto
  ultimately show ?thesis
    unfolding authorizeTopologyCurtailDispatch_def
    using run by (auto simp: wp split: option.splits sum.splits)
qed

text \<open>The liveness check that comes last before a command opens its gate.\<close>

lemma live_wp:
  assumes "running r ev des n u S w"
  shows "wp (eventStillDispatchable r ev)
    (\<lambda>live w'. running r ev des n u S w' \<and> w_targets w' = w_targets w \<and>
       (live \<longrightarrow> (\<exists>l. w_log w' = ELive (LiveState (e_State ev)) # l))) w"
proof -
  have "running r ev des n u S (w\<lparr>w_log := ELive a # w_log w\<rparr>)" for a
    by (rule running_log [OF assms]) (simp_all add: entry_defs)
  then show ?thesis
    by (auto simp: eventStillDispatchable_def wp split: live_answer.splits)
qed

lemma live_gates:
  assumes "w_log w = ELive (LiveState (e_State ev)) # l"
  shows "curtail_gate r ev ids (w_log w)" "restore_gate ev ids (w_log w)"
  using assms by (simp_all add: curtail_gate_def restore_gate_def in_fence_def)

lemma keeps_commit_curtail [keeps_intro]:
  "fallback \<noteq> TargetStateRestoreFailed \<Longrightarrow>
   keeps (running r ev des n u S) (commit_curtail r ev fallback result t i)"
  unfolding commit_curtail_def by (intro keeps_intro write_ok_other) auto

lemma keeps_settle_curtail [keeps_intro]:
  "fallback \<noteq> TargetStateRestoreFailed \<Longrightarrow>
   keeps (running r ev des n u S) (settle_curtail r ev fallback is answer)"
  unfolding settle_curtail_def by (intro keeps_intro)

lemma send_curtail_batch_wp:
  assumes w: "running r ev DesiredStateCurtailed n u (set is) w" "live_curtail_state ev"
    and f: "fallback \<noteq> TargetStateRestoreFailed"
  shows "wp (send_curtail_batch r ev fallback is unsent)
    (\<lambda>_. running r ev DesiredStateCurtailed n u {}) w"
proof -
  have ids: "map (\<lambda>i. t_DeviceIdentifier (w_targets w ! i)) is = map (dev w) is"
    by (simp add: dev_def)
  have settle: "wp (settle_curtail r ev fallback is a) (\<lambda>_. running r ev DesiredStateCurtailed n u {}) w'"
    if "running r ev DesiredStateCurtailed n u {} w'" for a w'
    using keepsD [OF keeps_settle_curtail [OF f] that] .
  have send: "wp (sendCurtail r (map (dev w) is))
      (\<lambda>a. wp (settle_curtail r ev fallback is a) (\<lambda>_. running r ev DesiredStateCurtailed n u {})) w'"
    if "running r ev DesiredStateCurtailed n u (set is) w'" "w_targets w' = w_targets w"
      "\<exists>l. w_log w' = ELive (LiveState (e_State ev)) # l" for w'
    using that w(2)
    by (intro wp_mono [OF send_curtail_wp [OF that(1)] settle])
      (auto simp: dev_def intro: live_gates)
  have "wp (do { live \<leftarrow> eventStillDispatchable r ev;
      if \<not> live then ret False
      else do { answer \<leftarrow> sendCurtail r (map (dev w) is);
        settle_curtail r ev fallback is answer; ret True } })
      (\<lambda>_. running r ev DesiredStateCurtailed n u {}) w"
    unfolding wp_bind wp_if wp_ret
    by (rule wp_mono [OF live_wp [OF w(1)]]) (auto intro: send running_empty)
  then show ?thesis
    unfolding send_curtail_batch_def device_ids_def wp_bind [of "gets _"] wp_gets ids
      wp_bind [of "authorizeTopologyCurtailDispatch _ _ _ _"]
    by (intro wp_mono [OF authorize_wp [OF w(1) refl w(2)]])
      (auto simp: wp settle split: dispatch_permit.splits)
qed

text \<open>The pre-write loop adds the rows it returns.\<close>

lemma running_insert:
  assumes "running r ev des n u S w" "i < n" "prewritten ev des (dev w i) (w_log w)"
  shows "running r ev des n u (insert i S) w"
  using assms by (simp add: running_def)

lemma write_wp:
  assumes "running r ev des n u S w" "write_ok r ev (fill_params ev p)"
  shows "wp (writeTargetState r ev d p)
    (\<lambda>res w'. running r ev des n u S w' \<and> w_targets w' = w_targets w \<and>
       w_log w' = EWrite d (fill_params ev p) res # w_log w) w"
  using assms
  by (auto simp: writeTargetState_def Let_def wp entry_defs intro!: running_log)

text \<open>A stored pre-write and the mirrored row make one more prepared row.\<close>

lemma prewrite_stored:
  assumes "running r ev des n u S w" "i < n"
    "w_log w = EWrite (dev w i) (fill_params ev p) Stored # l" "up_State p = TargetStateDispatching"
    "up_ExpectedEventState p = None" "up_ExpectedDesiredState (fill_params ev p) = Some des"
  shows "running r ev des n u (insert i S)
    (w\<lparr>w_targets := (w_targets w)[i := (w_targets w ! i)\<lparr>t_State := s\<rparr>]\<rparr>)"
proof (rule running_upd [where f = "\<lambda>t. t\<lparr>t_State := s\<rparr>"])
  have "prewritten ev des (dev w i) (w_log w)"
    using assms by (simp add: prewritten_Cons is_event_def prewrite_of_def)
  then show "running r ev des n u (insert i S) w"
    using assms(1,2) by (simp add: running_def)
qed simp

lemma live_curtail_desired:
  "live_curtail_state ev \<Longrightarrow>
   up_ExpectedDesiredState (fill_params ev (params_of s)) = Some DesiredStateCurtailed"
  by (auto simp: fill_params_def expectedDesiredStateForEventState_def)

lemma prewrite_curtail_wp:
  assumes "running r ev DesiredStateCurtailed n u (set ds) w" "set claim \<subseteq> {..<n}"
    "live_curtail_state ev" "fallback \<noteq> TargetStateRestoreFailed"
  shows "wp (prewrite_curtail r ev fallback claim ds unsent)
    (\<lambda>res. case res of
        None \<Rightarrow> running r ev DesiredStateCurtailed n u {}
      | Some (ds', _) \<Rightarrow> running r ev DesiredStateCurtailed n u (set ds')) w"
  using assms(1,2)
proof (induction claim arbitrary: ds unsent w)
  case Nil then show ?case by (simp add: wp)
next
  case (Cons i claim)
  let ?Q = "\<lambda>res. case res of
        None \<Rightarrow> running r ev DesiredStateCurtailed n u {}
      | Some (ds', _) \<Rightarrow> running r ev DesiredStateCurtailed n u (set ds')"
  have stored: "wp (prewrite_curtail r ev fallback claim (ds @ [i]) us) ?Q
      (w'\<lparr>w_targets := (w_targets w)[i := (w_targets w ! i)\<lparr>t_State := TargetStateDispatching\<rparr>]\<rparr>)"
    if "running r ev DesiredStateCurtailed n u (set ds) w'" "w_targets w' = w_targets w"
      "w_log w' = EWrite (dev w i) (fill_params ev (params_of TargetStateDispatching)) Stored # l"
    for w' us l
    using prewrite_stored [OF that(1), of i _ l TargetStateDispatching] that(2,3) Cons.prems assms(3)
    by (intro Cons.IH) (auto simp: live_curtail_desired dev_def)
  have failed: "wp (recordDispatchFailure r ev i e fallback)
      (\<lambda>_. wp (prewrite_curtail r ev fallback claim ds us) ?Q) w'"
    if "running r ev DesiredStateCurtailed n u (set ds) w'" for w' us e
    by (rule wp_mono [OF keepsD [OF keeps_failure [OF assms(4)] that]])
      (use Cons in auto)
  show ?case
    unfolding prewrite_curtail.simps Let_def wp_bind wp_tgt
    by (rule wp_mono [OF write_wp [OF Cons.prems(1)]])
      (auto simp: wp write_ok_def dev_def split: store_result.splits
        intro: stored [unfolded dev_def] failed running_empty)
qed

text \<open>With no row prepared the direction plays no part.\<close>

abbreviation calm :: "reconciler \<Rightarrow> event \<Rightarrow> nat \<Rightarrow> bool \<Rightarrow> world \<Rightarrow> bool" where
  "calm r ev n u \<equiv> running r ev DesiredStateCurtailed n u {}"

lemma running_calm: "running r ev des n u {} = calm r ev n u"
  by (simp add: running_def fun_eq_iff)

lemma send_prepared_wp:
  assumes "case pre of None \<Rightarrow> calm r ev n u w
      | Some (ds, _) \<Rightarrow> running r ev DesiredStateCurtailed n u (set ds) w"
    "live_curtail_state ev" "fallback \<noteq> TargetStateRestoreFailed"
  shows "wp (send_prepared r ev fallback pre) (\<lambda>_. calm r ev n u) w"
proof -
  have "wp (do { live \<leftarrow> eventStillDispatchable r ev;
      if \<not> live then ret False else send_curtail_batch r ev fallback ds unsent }) (\<lambda>_. calm r ev n u) w"
    if "running r ev DesiredStateCurtailed n u (set ds) w" for ds unsent
    unfolding wp_bind wp_if wp_ret
    by (rule wp_mono [OF live_wp [OF that]])
      (auto intro: running_empty send_curtail_batch_wp [OF _ assms(2,3)])
  then show ?thesis
    using assms(1) unfolding send_prepared_def
    by (auto simp: wp_ret split: option.splits)
qed

lemma keeps_dispatch_unsent:
  assumes "live_curtail_state ev" "fallback \<noteq> TargetStateRestoreFailed" "set claim \<subseteq> {..<n}"
  shows "keeps (calm r ev n u)
    (dispatchCurtailBatchWithKnownUnsent r ev claim fallback rec preclaimed)"
proof -
  have k: "keeps (calm r ev n u) (do {
      pre \<leftarrow> prewrite_curtail r ev fallback claim [] preclaimed; send_prepared r ev fallback pre })"
    unfolding keeps_def wp_bind
    by (intro allI impI wp_mono [OF prewrite_curtail_wp] send_prepared_wp)
      (use assms in \<open>auto split: option.splits\<close>)
  show ?thesis
    unfolding dispatchCurtailBatchWithKnownUnsent_def by (rule k keeps_intro)+
qed

lemma keeps_dispatch_batch [keeps_intro]:
  "live_curtail_state ev \<Longrightarrow> fallback \<noteq> TargetStateRestoreFailed \<Longrightarrow> set claim \<subseteq> {..<n} \<Longrightarrow>
   keeps (calm r ev n u) (dispatchCurtailBatch r ev claim fallback rec)"
  unfolding dispatchCurtailBatch_def by (rule keeps_dispatch_unsent)

lemma keeps_dispatch_one [keeps_intro]:
  "live_curtail_state ev \<Longrightarrow> fallback \<noteq> TargetStateRestoreFailed \<Longrightarrow> i < n \<Longrightarrow>
   keeps (calm r ev n u) (dispatchOneCurtail r ev i fallback)"
  unfolding dispatchOneCurtail_def by (intro keeps_intro) auto

lemma keeps_dispatch_by_state:
  assumes "live_curtail_state ev" "state \<noteq> TargetStateRestoreFailed"
    "set claim \<subseteq> {..<n}" "set is \<subseteq> {..<n}"
  shows "keeps (calm r ev n u) (dispatch_by_state r ev batchSize state single rec claim is)"
  using assms(3,4)
proof (induction "is" arbitrary: claim)
  case Nil
  with assms(1,2) show ?case
    by (auto simp: dispatch_claim_def intro!: keeps_intro)
next
  case (Cons i "is")
  then have "keeps (calm r ev n u) (dispatch_by_state r ev batchSize state single rec c is)"
    if "set c \<subseteq> {..<n}" for c
    using that by auto
  with Cons.prems assms(1,2) show ?case
    unfolding dispatch_by_state.simps dispatch_claim_def by (intro keeps_intro) auto
qed

lemma keeps_dispatch_pending [keeps_intro]:
  assumes "live_curtail_state ev"
  shows "keeps (calm r ev n u) (dispatchPendingCurtailBatches r ev n)"
  unfolding dispatchPendingCurtailBatches_def
  using assms by (intro keeps_intro keeps_dispatch_by_state) auto

section \<open>Uncurtail commands\<close>

lemma keeps_park [keeps_intro]:
  "keeps (running r ev des n u S) (parkUncommandableTopologyRestore r ev i c)"
  unfolding parkUncommandableTopologyRestore_def
  by (intro keeps_intro write_ok_other) auto

lemma keeps_park_failures [keeps_intro]:
  "keeps (running r ev des n u S) (park_failures r ev cands fs)"
proof (induction fs)
  case (Cons f fs) then show ?case
    by (cases f) (auto intro!: keeps_intro)
qed (auto intro: keeps_intro)

lemma keeps_restore_failures [keeps_intro]:
  "keeps (running r ev des n u S) (recordRestoreDispatchFailures r ev fs)"
  unfolding recordRestoreDispatchFailures_def by (intro keeps_intro) auto

lemma keeps_commit_restore [keeps_intro]:
  "keeps (running r ev des n u S) (commit_restore r ev result t is)"
  by (induction "is") (auto intro!: keeps_intro write_ok_other)

lemma keeps_settle_restore [keeps_intro]:
  "keeps (running r ev des n u S) (settle_restore r ev is answer)"
  unfolding settle_restore_def by (intro keeps_intro)

lemma send_uncurtail_wp:
  assumes "running r ev DesiredStateActive n True (set is) w" "ids = map (dev w) is"
    "restore_gate ev ids (w_log w)" "int (length is) \<le> max 1 (restoreClaimBatchSize ev)"
  shows "wp (sendUncurtail r ids) (\<lambda>_. running r ev DesiredStateActive n False {}) w"
  using assms running_ids [OF assms(1)]
  by (auto simp: sendUncurtail_def wp running_def event_of_Cons is_event_def entry_ok_def)

lemma keeps_fence_end [keeps_intro]:
  "keeps (running r ev des n u S) (perform (r_fenceEnd r) EFenceEnd)"
  by (rule keeps_perform) (simp_all add: entry_defs)

lemma uncurtail_then_end:
  assumes "running r ev DesiredStateActive n True (set is) w" "ids = map (dev w) is"
    "restore_gate ev ids (w_log w)" "int (length is) \<le> max 1 (restoreClaimBatchSize ev)"
  shows "wp (do { answer \<leftarrow> sendUncurtail r ids; perform (r_fenceEnd r) EFenceEnd; ret (f answer) })
    (\<lambda>_. running r ev DesiredStateActive n False {}) w"
  unfolding wp_bind wp_ret
  by (rule wp_mono [OF send_uncurtail_wp [OF assms]]) (rule keepsD [OF keeps_fence_end])

lemma run_restore_fence_wp:
  assumes w: "running r ev DesiredStateActive n True (set is) w"
    and size: "int (length is) \<le> max 1 (restoreClaimBatchSize ev)"
  shows "wp (run_restore_fence r fence is) (\<lambda>_. running r ev DesiredStateActive n False {}) w"
proof -
  let ?ids = "map (\<lambda>i. t_DeviceIdentifier (w_targets w ! i))"
  let ?w = "\<lambda>a. w\<lparr>w_log := EFence a # w_log w\<rparr>"
  let ?v = "\<lambda>a bk res. (?w a)\<lparr>w_log := EPark bk res # w_log (?w a)\<rparr>"
  have dev: "dev (w\<lparr>w_log := l\<rparr>) = (\<lambda>i. t_DeviceIdentifier (w_targets w ! i))" for l
    by (simp add: dev_def fun_eq_iff)
  have part_size: "int (length (filter P is)) \<le> max 1 (restoreClaimBatchSize ev)" for P
    using size length_filter_le [of P "is"] by linarith
  have run: "running r ev DesiredStateActive n True (set is) (?w a)" for a
    by (rule running_log [OF w]) (simp_all add: entry_defs)
  have park: "running r ev DesiredStateActive n True (set is) (?v a bk res)" for a bk res
    by (rule running_log [OF run]) (simp_all add: entry_defs)
  have stop: "wp (do { perform (r_fenceEnd r) EFenceEnd; ret x })
      (\<lambda>_. running r ev DesiredStateActive n False {}) (?v a bk res)" for x a bk res
    unfolding wp_bind wp_ret by (rule keepsD [OF keeps_fence_end running_spent [OF park]])
  have whole: "wp (do { answer \<leftarrow> sendUncurtail r (?ids is); perform (r_fenceEnd r) EFenceEnd;
        ret (f answer) }) (\<lambda>_. running r ev DesiredStateActive n False {}) (?w (FenceOpen latest topology))"
    if "e_State latest = EventStateRestoring" for f :: "curtail_answer \<Rightarrow> restore_fence" and latest topology
    by (rule uncurtail_then_end [OF run]) (use that size in \<open>simp_all add: dev restore_gate_def in_fence_def\<close>)
  have part: "wp (do { answer \<leftarrow> sendUncurtail r (?ids js); perform (r_fenceEnd r) EFenceEnd;
        ret (f answer) }) (\<lambda>_. running r ev DesiredStateActive n False {})
        (?v (FenceOpen latest topology) bk Stored)"
    if "js = filter (\<lambda>i. t_DeviceIdentifier (w_targets w ! i) \<notin> set (ts_DispatchMembers topology)) is"
    for f :: "curtail_answer \<Rightarrow> restore_fence" and latest topology bk js
    by (rule uncurtail_then_end [of r ev n js, OF running_mono [OF park]])
      (use that part_size in \<open>auto simp: dev restore_gate_def in_fence_def list_all_iff\<close>)
  show ?thesis
    unfolding run_restore_fence_def device_ids_def
    using running_spent [OF run] stop whole part
    by (auto simp: wp Let_def split: fence_answer.splits)
qed

lemma run_restore_fence_handled:
  "wp (run_restore_fence r fence is) (\<lambda>a _. a \<noteq> RestoreNotTopology) w"
  unfolding run_restore_fence_def device_ids_def sendUncurtail_def
  by (auto simp: wp Let_def split: fence_answer.splits)

lemma restore_fence_wp:
  assumes w: "running r ev DesiredStateActive n True (set is) w"
    and size: "int (length is) \<le> max 1 (restoreClaimBatchSize ev)"
  shows "wp (fenceTopologyRestoreDispatch r ev is)
    (\<lambda>a w'. running r ev DesiredStateActive n False {} w' \<and> (a = RestoreNotTopology \<longrightarrow> w' = w)) w"
proof -
  have "wp (run_restore_fence r fence is)
      (\<lambda>a w'. running r ev DesiredStateActive n False {} w' \<and> (a = RestoreNotTopology \<longrightarrow> w' = w)) w" for fence
    by (rule wp_mono [OF wp_conj [OF run_restore_fence_handled run_restore_fence_wp [OF w size]]]) auto
  then show ?thesis
    unfolding fenceTopologyRestoreDispatch_def
    using running_spent [OF w] by (auto simp: wp split: option.splits sum.splits)
qed

lemma keeps_restore_each [keeps_intro]:
  "keeps (running r ev des n u S) (each (\<lambda>i. recordDispatchFailure r ev i (g e) TargetStatePending) is)"
  by (intro keeps_intro) auto

lemma send_restore_batch_wp:
  assumes w: "running r ev DesiredStateActive n True (set is) w"
    and live: "w_log w = ELive (LiveState (e_State ev)) # l"
    and size: "int (length is) \<le> max 1 (restoreClaimBatchSize ev)"
  shows "wp (send_restore_batch r ev is) (\<lambda>_. running r ev DesiredStateActive n False {}) w"
proof -
  have ids: "map (\<lambda>i. t_DeviceIdentifier (w_targets w ! i)) is = map (dev w) is"
    by (simp add: dev_def)
  have settle: "wp (settle_restore r ev js a) (\<lambda>_. running r ev DesiredStateActive n False {}) w'"
    if "running r ev DesiredStateActive n False {} w'" for js a w'
    using keepsD [OF keeps_settle_restore that] .
  have fail: "wp (each (\<lambda>i. recordDispatchFailure r ev i m TargetStatePending) is)
      (\<lambda>_. running r ev DesiredStateActive n False {}) w'"
    if "running r ev DesiredStateActive n False {} w'" for m w'
    using keepsD [OF keeps_restore_each that] .
  have send: "wp (do { ids \<leftarrow> device_ids is; answer \<leftarrow> sendUncurtail r ids;
      settle_restore r ev is (Some answer) }) (\<lambda>_. running r ev DesiredStateActive n False {}) w"
    unfolding device_ids_def wp_bind wp_gets ids
    by (rule wp_mono [OF send_uncurtail_wp [OF w refl live_gates(2) [OF live] size]]) (rule settle)
  show ?thesis
    unfolding send_restore_batch_def wp_bind [of "fenceTopologyRestoreDispatch _ _ _"]
    by (rule wp_mono [OF restore_fence_wp [OF w size]])
      (auto simp: wp_ret wp_if settle fail send split: restore_fence.splits store_result.splits)
qed

lemma prewrite_restore_wp:
  assumes "running r ev DesiredStateActive n True (set ds) w" "set claim \<subseteq> {..<n}"
  shows "wp (prewrite_restore r ev claim ds)
    (\<lambda>res. case res of
        None \<Rightarrow> running r ev DesiredStateActive n True {}
      | Some ds' \<Rightarrow> running r ev DesiredStateActive n True (set ds')) w"
  using assms
proof (induction claim arbitrary: ds w)
  case Nil then show ?case by (simp add: wp)
next
  case (Cons i claim)
  let ?Q = "\<lambda>res. case res of
        None \<Rightarrow> running r ev DesiredStateActive n True {}
      | Some ds' \<Rightarrow> running r ev DesiredStateActive n True (set ds')"
  let ?p = "(params_of TargetStateDispatching)\<lparr>up_ExpectedDesiredState := Some DesiredStateActive,
     up_ExpectedState := Some (t_State (w_targets w ! i))\<rparr>"
  have stored: "wp (prewrite_restore r ev claim (ds @ [i])) ?Q
      (w'\<lparr>w_targets := (w_targets w)[i := (w_targets w ! i)\<lparr>t_State := TargetStateDispatching\<rparr>]\<rparr>)"
    if "running r ev DesiredStateActive n True (set ds) w'" "w_targets w' = w_targets w"
      "w_log w' = EWrite (dev w i) (fill_params ev ?p) Stored # l" for w' l
    using prewrite_stored [OF that(1), of i ?p l TargetStateDispatching] that(2,3) Cons.prems
    by (intro Cons.IH) (auto simp: dev_def)
  have failed: "wp (recordDispatchFailure r ev i e TargetStatePending)
      (\<lambda>_. wp (prewrite_restore r ev claim ds) ?Q) w'"
    if "running r ev DesiredStateActive n True (set ds) w'" for w' e
    by (rule wp_mono [OF keepsD [OF keeps_failure that]]) (use Cons in auto)
  show ?case
    unfolding prewrite_restore.simps Let_def wp_bind wp_tgt
    by (rule wp_mono [OF write_wp [OF Cons.prems(1)]])
      (auto simp: wp write_ok_def split: store_result.splits
        intro: stored [unfolded dev_def] failed running_empty)
qed

lemma prewrite_restore_length:
  "wp (prewrite_restore r ev claim ds)
     (\<lambda>res _. case res of None \<Rightarrow> True | Some ds' \<Rightarrow> length ds' \<le> length ds + length claim) w"
proof (induction claim arbitrary: ds w)
  case Nil then show ?case by (simp add: wp)
next
  case (Cons i claim)
  have *: "wp (prewrite_restore r ev claim ds')
     (\<lambda>res _. case res of None \<Rightarrow> True | Some d \<Rightarrow> length d \<le> length ds + length (i # claim)) w'"
    if "length ds' \<le> Suc (length ds)" for ds' w'
    by (rule wp_mono [OF Cons]) (use that in \<open>auto split: option.splits\<close>)
  have **: "wp (recordDispatchFailure r ev i e TargetStatePending) (\<lambda>_. wp (prewrite_restore r ev claim ds)
     (\<lambda>res _. case res of None \<Rightarrow> True | Some d \<Rightarrow> length d \<le> length ds + length (i # claim))) w'"
    for e w' by (rule wp_always) (simp add: *)
  show ?case
    unfolding prewrite_restore.simps wp_bind wp_tgt
    by (rule wp_always) (use * ** in \<open>auto simp: wp split: store_result.splits\<close>)
qed

lemma send_prepared_restore_wp:
  assumes "case pre of None \<Rightarrow> running r ev DesiredStateActive n True {} w
      | Some ds \<Rightarrow> running r ev DesiredStateActive n True (set ds) w \<and>
          int (length ds) \<le> max 1 (restoreClaimBatchSize ev)"
  shows "wp (send_prepared_restore r ev pre) (\<lambda>_. running r ev DesiredStateActive n False {}) w"
proof -
  have "wp (do { live \<leftarrow> eventStillDispatchable r ev;
      if \<not> live then ret () else send_restore_batch r ev ds })
      (\<lambda>_. running r ev DesiredStateActive n False {}) w"
    if "running r ev DesiredStateActive n True (set ds) w"
      "int (length ds) \<le> max 1 (restoreClaimBatchSize ev)" for ds
    unfolding wp_bind wp_if wp_ret
    by (rule wp_mono [OF live_wp [OF that(1)]])
      (use that(2) in \<open>auto intro: running_spent send_restore_batch_wp\<close>)
  then show ?thesis
    using assms unfolding send_prepared_restore_def
    by (auto simp: wp_ret intro: running_spent split: option.splits)
qed

text \<open>A computation that may send the one Uncurtail command of a tick.\<close>

definition spends :: "reconciler \<Rightarrow> event \<Rightarrow> nat \<Rightarrow> 'a act \<Rightarrow> bool" where
  "spends r ev n m \<longleftrightarrow> (\<forall>w. calm r ev n True w \<longrightarrow> wp m (\<lambda>_. calm r ev n False) w)"

lemma spends_keeps: "keeps (calm r ev n True) m \<Longrightarrow> spends r ev n m"
  unfolding spends_def keeps_def by (blast intro: wp_mono running_spent)

lemma spends_ret: "spends r ev n (ret a)"
  by (rule spends_keeps keeps_ret)+

lemma spends_bind: "keeps (calm r ev n True) m \<Longrightarrow> (\<And>a. spends r ev n (f a)) \<Longrightarrow>
  spends r ev n (State_Monad.bind m f)"
  unfolding spends_def wp_bind keeps_def by (auto intro: wp_mono)

lemma spends_then: "spends r ev n m \<Longrightarrow> (\<And>a. keeps (calm r ev n False) (f a)) \<Longrightarrow>
  spends r ev n (State_Monad.bind m f)"
  unfolding spends_def wp_bind keeps_def by (auto intro: wp_mono)

lemma spends_targets: "(\<And>ts. length ts = n \<Longrightarrow> spends r ev n (f ts)) \<Longrightarrow>
  spends r ev n (State_Monad.bind targets f)"
  unfolding spends_def by (simp add: wp running_def)

lemma spends_if: "(b \<Longrightarrow> spends r ev n m) \<Longrightarrow> (\<not> b \<Longrightarrow> spends r ev n m') \<Longrightarrow>
  spends r ev n (if b then m else m')"
  by simp

lemma spends_dispatch_restore:
  assumes "set claim \<subseteq> {..<n}" "int (length claim) \<le> max 1 (restoreClaimBatchSize ev)"
  shows "spends r ev n (dispatchRestoreBatch r ev claim)"
proof -
  have "wp (do { pre \<leftarrow> prewrite_restore r ev claim []; send_prepared_restore r ev pre })
      (\<lambda>_. running r ev DesiredStateActive n False {}) w"
    if "running r ev DesiredStateActive n True {} w" for w
    unfolding wp_bind
    by (rule wp_mono [OF wp_conj [OF prewrite_restore_wp prewrite_restore_length]])
      (use that assms in \<open>auto intro!: send_prepared_restore_wp split: option.splits\<close>)
  then have "spends r ev n (do {
      pre \<leftarrow> prewrite_restore r ev claim []; send_prepared_restore r ev pre })"
    unfolding spends_def running_calm [of r ev DesiredStateActive n] by blast
  note * = this
  show ?thesis
    unfolding dispatchRestoreBatch_def by (rule * spends_if spends_ret spends_bind keeps_live)+
qed

section \<open>Handlers\<close>

text \<open>Rules that keep what is known of a value read from the world.\<close>

lemma keeps_targets [keeps_intro]:
  "(\<And>ts. length ts = n \<Longrightarrow> keeps (running r ev des n u S) (f ts)) \<Longrightarrow>
   keeps (running r ev des n u S) (State_Monad.bind targets f)"
  unfolding keeps_def by (simp add: wp running_def)

lemma keeps_all_rows [keeps_intro]:
  "keeps (running r ev des n u S) (f [0..<n]) \<Longrightarrow>
   keeps (running r ev des n u S) (State_Monad.bind all_rows f)"
  unfolding keeps_def by (simp add: wp all_rows_def running_def)

lemma claim_loop_range:
  "set (claim_loop k s claim its) \<subseteq> set claim \<union> fst ` set its"
proof (induction its arbitrary: claim)
  case (Cons x its) then show ?case
    by (cases x) (auto split: if_splits dest!: Cons.IH [THEN subsetD])
qed simp

lemma restore_claim_range: "set (restore_claim ev ts) \<subseteq> {..<length ts}"
proof -
  have "set (claim_loop k s [] (List.enumerate 0 ts)) \<subseteq> {..<length ts}" for k s
    using claim_loop_range [of k s "[]" "List.enumerate 0 ts"] by (auto simp: in_set_enumerate_eq)
  then show ?thesis by (auto simp: restore_claim_def Let_def split: if_splits)
qed

lemma keeps_fan_gate [keeps_intro]: "keeps (running r ev des n u S) (fan_restore_gate r ev)"
  unfolding fan_restore_gate_def by (rule keeps_intro)+

lemma keeps_interval_gate [keeps_intro]:
  "keeps (running r ev des n u S) (restore_interval_gate r ev)"
  unfolding restore_interval_gate_def by (rule keeps_intro)+

lemma claim_loop_length:
  "int (length claim) < max 1 k \<Longrightarrow> int (length (claim_loop k s claim its)) \<le> max 1 k"
  by (induction k s claim its rule: claim_loop.induct) auto

lemma restore_claim_length: "int (length (restore_claim ev ts)) \<le> max 1 (restoreClaimBatchSize ev)"
  using claim_loop_length [of "[]" "restoreClaimBatchSize ev"]
  by (simp add: restore_claim_def Let_def)

lemma spends_claim_restore: "spends r ev n (maybeClaimRestoreBatch r ev)"
  unfolding maybeClaimRestoreBatch_def
  by (rule spends_targets spends_if spends_ret spends_dispatch_restore spends_bind
      restore_claim_length keeps_intro restore_claim_range [THEN subset_trans] | simp)+

lemma keeps_update_event:
  "event_step (e_State ev) s \<Longrightarrow> keeps (running r ev des n u S) (updateEventState r ev s a b)"
  unfolding updateEventState_def by (rule keeps_perform) (simp_all add: entry_defs)

lemma keeps_confirm_restore [keeps_intro]:
  "keeps (running r ev des n u S) (confirmOneRestore r ev i c)"
  unfolding confirmOneRestore_def Let_def
  by (rule keeps_intro write_ok_other | simp add: resolvedRestoreTargetParams_def)+

lemma keeps_confirm_restores [keeps_intro]:
  "keeps (running r ev des n u S) (confirmDispatchedRestores r ev)"
  unfolding confirmDispatchedRestores_def Let_def by (rule keeps_intro)+

lemma keeps_complete [keeps_intro]:
  "e_State ev = EventStateRestoring \<Longrightarrow>
   keeps (running r ev des n u S) (maybeCompleteRestoring r ev)"
  unfolding maybeCompleteRestoring_def
  by (rule keeps_intro keeps_update_event | simp add: event_step_def)+

lemma keeps_age [keeps_intro]: "keeps (running r ev des n u S) (age_curtail_dispatch r ev i)"
  unfolding age_curtail_dispatch_def by (rule keeps_intro | simp)+

lemma keeps_confirm [keeps_intro]:
  "s \<noteq> TargetStateRestoreFailed \<Longrightarrow>
   keeps (running r ev des n u S) (confirmOneDispatched r ev i c s)"
  unfolding confirmOneDispatched_def Let_def
  by (rule keeps_intro write_ok_other | simp add: confirmedCurtailTargetParams_def)+

lemma keeps_confirm_all [keeps_intro]: "keeps (running r ev des n u S) (confirmDispatched r ev)"
  unfolding confirmDispatched_def Let_def by (rule keeps_intro | simp)+

lemma keeps_drift [keeps_intro]:
  "live_curtail_state ev \<Longrightarrow> i < n \<Longrightarrow> keeps (calm r ev n u) (checkDrift r ev i c)"
  unfolding checkDrift_def mark_drifted_def refresh_observation_def Let_def
  by (rule keeps_intro write_ok_other | simp)+

lemma pending_decision_step:
  "pending_decision js ev ts = Some s \<Longrightarrow> s \<in> {EventStateActive, EventStateCompletedWithFailures}"
  by (auto simp: pending_decision_def split: if_splits option.splits)

lemma keeps_mark_active [keeps_intro]:
  "e_State ev = EventStatePending \<Longrightarrow> keeps (running r ev des n u S) (maybeMarkActive r ev)"
  unfolding maybeMarkActive_def
  by (rule keeps_intro keeps_update_event |
      simp add: event_step_def | drule pending_decision_step)+

lemma keeps_max_duration [keeps_intro]:
  "keeps (running r ev des n u S) (enforceMaxDuration r ev)"
  unfolding enforceMaxDuration_def by (rule keeps_intro)+

lemma keeps_fan_command [keeps_intro]:
  "keeps (running r ev des n u S) (commandAndPersistFanState r p pw)"
  unfolding commandAndPersistFanState_def by (rule keeps_perform) (simp_all add: entry_defs)

lemma keeps_fan_alert [keeps_intro]: "keeps (running r ev des n u S) (fanAlert r b)"
  unfolding fanAlert_def by (rule keeps_intro keeps_perform | simp add: entry_defs)+

lemma keeps_reopen [keeps_intro]: "keeps (running r ev des n u S) (reopen_fans r s t)"
  unfolding reopen_fans_def Let_def by (rule keeps_intro)+

lemma keeps_reopen_event [keeps_intro]: "keeps (running r ev des n u S) (reopenEventFans r ev)"
  unfolding reopenEventFans_def by (rule keeps_intro)+

lemma keeps_pending_fans [keeps_intro]: "keeps (running r ev des n u S) (reconcilePendingFans r ev)"
  unfolding reconcilePendingFans_def by (rule keeps_intro)+

lemma keeps_intent [keeps_intro]: "keeps (running r ev des n u S) (store_off_intent r t)"
  unfolding store_off_intent_def Let_def
  by (rule keeps_intro keeps_perform | simp add: entry_defs)+

lemma keeps_fans_off [keeps_intro]: "keeps (running r ev des n u S) (command_fans_off r)"
  unfolding command_fans_off_def Let_def by (rule keeps_intro)+

lemma keeps_active_fans [keeps_intro]:
  "keeps (running r ev des n u S) (reconcileActiveFans r ev is)"
  unfolding reconcileActiveFans_def by (rule keeps_intro)+

lemma keeps_restoring_fans [keeps_intro]:
  "keeps (running r ev des n u S) (reconcileRestoringFans r ev)"
  unfolding reconcileRestoringFans_def Let_def by (rule keeps_intro)+

section \<open>Admission\<close>

lemma keeps_reject_admission [keeps_intro]:
  "keeps (running r ev des n u S) (rejectClosedLoopAdmission r)"
  unfolding rejectClosedLoopAdmission_def by (rule keeps_intro)+

lemma keeps_validate_coverage [keeps_intro]:
  "keeps (running r ev des n u S) (validate_coverage r ev' coverage)"
  unfolding validate_coverage_def by (rule keeps_intro keeps_perform | simp add: entry_defs)+

lemma keeps_validate [keeps_intro]:
  "keeps (running r ev des n u S) (validateClosedLoopTopologyAdmission r ev' p)"
  unfolding validateClosedLoopTopologyAdmission_def
  by (rule keeps_intro keeps_perform | simp add: entry_defs)+

lemma keeps_departures [keeps_intro]:
  "keeps (running r ev des n u S) (reconcileClosedLoopTopologyDepartures r ev cs)"
  unfolding reconcileClosedLoopTopologyDepartures_def Let_def
  by (rule keeps_intro keeps_perform | simp add: entry_defs)+

lemma keeps_expand [keeps_intro]: "keeps (running r ev des n u S) (expand_scope r p)"
  unfolding expand_scope_def by (rule keeps_intro)+

lemma keeps_prepare [keeps_intro]:
  "keeps (running r ev des n u S) (prepareClosedLoopTopologyTick r ev)"
  unfolding prepareClosedLoopTopologyTick_def Let_def by (rule keeps_intro)+

lemma keeps_release [keeps_intro]:
  "keeps (running r ev des n u S) (releaseAllPairedPolicyTarget r ev i x)"
  unfolding releaseAllPairedPolicyTarget_def by (rule keeps_intro write_ok_other | simp)+

lemma mirror_device [simp]: "t_DeviceIdentifier (mirror_readiness u t) = t_DeviceIdentifier t"
  by (simp add: mirror_readiness_def Let_def)

lemma keeps_apply [keeps_intro]: "keeps (running r ev des n u S) (apply_collected r us)"
  unfolding apply_collected_def applyAllPairedReadinessUpdates_def
  by (rule keeps_intro keeps_perform | simp add: entry_defs)+

lemma keeps_collect [keeps_intro]:
  "keeps (running r ev des n u S) (collect_readiness r ev cands is)"
proof (induction "is")
  case (Cons i "is") then show ?case
    unfolding collect_readiness.simps by (intro keeps_intro)
qed (simp add: keeps_ret)

lemma keeps_refresh_policy [keeps_intro]:
  "keeps (running r ev des n u S) (refreshAllPairedPolicyTargets r ev cands)"
  unfolding refreshAllPairedPolicyTargets_def by (rule keeps_intro)+

lemma keeps_refresh_restore [keeps_intro]:
  "keeps (running r ev des n u S) (refreshAllPairedTopologyRestoreTargets r ev)"
  unfolding refreshAllPairedTopologyRestoreTargets_def Let_def by (rule keeps_intro)+

lemma keeps_airflow_ready [keeps_intro]:
  "keeps (running r ev des n u S) (topologyAdmissionAirflowReady r ev)"
  unfolding topologyAdmissionAirflowReady_def by (rule keeps_intro)+

lemma keeps_paced [keeps_intro]: "keeps (running r ev des n u S) (admission_paced r ev)"
  unfolding admission_paced_def by (rule keeps_intro)+

lemma keeps_active_devices [keeps_intro]: "keeps (running r ev des n u S) (listActiveDevices r)"
  unfolding listActiveDevices_def by (rule keeps_perform) (simp_all add: entry_defs)

lemma keeps_claim_all_paired [keeps_intro]:
  "keeps (running r ev des n u S) (claimAllPairedPolicyTargets r ev cs p)"
  unfolding claimAllPairedPolicyTargets_def Let_def
  by (rule keeps_intro keeps_perform | simp add: entry_defs)+

lemma keeps_admission_rows [keeps_intro]:
  "keeps (running r ev des n u S) (admission_rows r ev cs)"
  unfolding admission_rows_def Let_def by (rule keeps_intro keeps_perform | simp add: entry_defs)+

text \<open>A claim may append rows; it names only rows that exist.\<close>

definition claims :: "reconciler \<Rightarrow> event \<Rightarrow> nat \<Rightarrow> bool \<Rightarrow> (nat list \<times> bool) act \<Rightarrow> bool" where
  "claims r ev n u m \<longleftrightarrow>
     (\<forall>w. calm r ev n u w \<longrightarrow>
        wp m (\<lambda>c w'. \<exists>k. calm r ev k u w' \<and> n \<le> k \<and> set (fst c) \<subseteq> {..<k}) w)"

lemma claims_ret: "claims r ev n u (ret ([], b))"
  by (auto simp: claims_def wp)

lemma claims_bind:
  "keeps (calm r ev n u) m \<Longrightarrow> (\<And>a. claims r ev n u (f a)) \<Longrightarrow> claims r ev n u (State_Monad.bind m f)"
  unfolding claims_def wp_bind keeps_def by (auto intro: wp_mono)

lemma claims_if: "(b \<Longrightarrow> claims r ev n u m) \<Longrightarrow> (\<not> b \<Longrightarrow> claims r ev n u m') \<Longrightarrow>
  claims r ev n u (if b then m else m')"
  by simp

lemma claims_option: "(x = None \<Longrightarrow> claims r ev n u m) \<Longrightarrow>
  (\<And>y. x = Some y \<Longrightarrow> claims r ev n u (f y)) \<Longrightarrow> claims r ev n u (case x of None \<Rightarrow> m | Some y \<Rightarrow> f y)"
  by (cases x) simp_all

lemma claims_prod: "(\<And>y z. x = (y, z) \<Longrightarrow> claims r ev n u (f y z)) \<Longrightarrow>
  claims r ev n u (case x of (y, z) \<Rightarrow> f y z)"
  by (cases x) simp_all

lemma claims_full_fleet:
  "claims r ev n u (State_Monad.bind (claim_full_fleet r ev rs) (\<lambda>claimed. ret (claimed, False)))"
  unfolding claims_def
proof (intro allI impI)
  fix w assume w: "calm r ev n u w"
  have len: "length (w_targets w) = n" using w by (simp add: running_def)
  have run: "\<exists>k. calm r ev k u (w\<lparr>w_log := EClaim a b c # w_log w, w_targets := w_targets w @ new\<rparr>) \<and>
      n \<le> k \<and> {n..<n + length new} \<subseteq> {..<k}" for a b c new
    using running_log [OF w, of "EClaim a b c"] len
    by (intro exI [of _ "n + length new"]) (auto simp: running_def entry_defs)
  have same: "calm r ev n u (w\<lparr>w_log := EClaim a b c # w_log w\<rparr>)" for a b c
    by (rule running_log [OF w]) (simp_all add: entry_defs)
  show "wp (State_Monad.bind (claim_full_fleet r ev rs) (\<lambda>claimed. ret (claimed, False)))
      (\<lambda>c w'. \<exists>k. calm r ev k u w' \<and> n \<le> k \<and> set (fst c) \<subseteq> {..<k}) w"
    unfolding claim_full_fleet_def Let_def using run same len
    by (auto simp: wp split: option.splits intro!: exI [of _ n])
qed

lemmas claims_intro = claims_full_fleet claims_ret claims_bind claims_if claims_option claims_prod

lemma claims_admit: "claims r ev n u (admit_candidates r ev p cs)"
  unfolding admit_candidates_def by (rule claims_intro keeps_intro)+

lemma claims_snapshot: "claims r ev n u (claimClosedLoopFullFleetTargetsFromSnapshot r ev snapshot)"
  unfolding claimClosedLoopFullFleetTargetsFromSnapshot_def Let_def
  by (rule claims_admit claims_intro keeps_intro)+

text \<open>What a handler leaves behind.\<close>

definition settled :: "reconciler \<Rightarrow> event \<Rightarrow> world \<Rightarrow> bool" where
  "settled r ev w \<longleftrightarrow> safe_trace r (w_log w) \<and> event_of (w_log w) = Some ev"

definition ends :: "reconciler \<Rightarrow> event \<Rightarrow> nat \<Rightarrow> bool \<Rightarrow> 'a act \<Rightarrow> bool" where
  "ends r ev n u m \<longleftrightarrow> (\<forall>w. calm r ev n u w \<longrightarrow> wp m (\<lambda>_. settled r ev) w)"

lemma calm_settled: "calm r ev n u w \<Longrightarrow> settled r ev w"
  by (simp add: settled_def running_def)

lemma ends_keeps: "keeps (calm r ev n u) m \<Longrightarrow> ends r ev n u m"
  unfolding ends_def keeps_def by (blast intro: wp_mono calm_settled)

lemma ends_ret: "ends r ev n u (ret a)"
  by (rule ends_keeps keeps_ret)+

lemma ends_bind:
  "keeps (calm r ev n u) m \<Longrightarrow> (\<And>a. ends r ev n u (f a)) \<Longrightarrow> ends r ev n u (State_Monad.bind m f)"
  unfolding ends_def wp_bind keeps_def by (auto intro: wp_mono)

lemma ends_spends: "spends r ev n m \<Longrightarrow> ends r ev n True m"
  unfolding ends_def spends_def by (blast intro: wp_mono calm_settled)

lemma ends_spend:
  "spends r ev n m \<Longrightarrow> (\<And>a. ends r ev n False (f a)) \<Longrightarrow> ends r ev n True (State_Monad.bind m f)"
  unfolding ends_def wp_bind spends_def by (auto intro: wp_mono)

lemma ends_if: "(b \<Longrightarrow> ends r ev n u m) \<Longrightarrow> (\<not> b \<Longrightarrow> ends r ev n u m') \<Longrightarrow>
  ends r ev n u (if b then m else m')"
  by simp

lemma ends_option: "(x = None \<Longrightarrow> ends r ev n u m) \<Longrightarrow>
  (\<And>y. x = Some y \<Longrightarrow> ends r ev n u (f y)) \<Longrightarrow> ends r ev n u (case x of None \<Rightarrow> m | Some y \<Rightarrow> f y)"
  by (cases x) simp_all

lemma ends_claim:
  assumes "\<And>c k. n \<le> k \<Longrightarrow> set (fst c) \<subseteq> {..<k} \<Longrightarrow> ends r ev k u (f c)"
  shows "ends r ev n u
    (State_Monad.bind (claimClosedLoopFullFleetTargetsFromSnapshot r ev snapshot) f)"
  using claims_snapshot [of r ev n u snapshot] assms unfolding ends_def claims_def wp_bind
  by (blast intro: wp_mono)

lemmas ends_intro = ends_claim ends_ret ends_bind ends_if ends_option

lemma keeps_wake [keeps_intro]: "keeps (running r ev des n u S) (wakeIfDispatchedWork is)"
  unfolding wakeIfDispatchedWork_def by (rule keeps_intro) simp

lemma keeps_dispatch_claimed [keeps_intro]:
  assumes "live_curtail_state ev" "set claimed \<subseteq> {..<k}"
  shows "keeps (calm r ev k u) (dispatchClaimedCurtailTargets r ev claimed)"
proof -
  have "keeps (calm r ev k u) (dispatchCurtailBatchWithKnownUnsent r ev
      (filter P claimed) TargetStateDispatching True ids)" for ids P
    using assms by (intro keeps_dispatch_unsent) auto
  then show ?thesis
    unfolding dispatchClaimedCurtailTargets_def device_ids_def keeps_def
    by (simp add: wp)
qed

lemma ends_admit_pending:
  "live_curtail_state ev \<Longrightarrow> ends r ev n u (admit_pending r ev snapshot)"
  unfolding admit_pending_def by (rule ends_intro ends_keeps keeps_intro | assumption)+

lemma ends_admit_active:
  "live_curtail_state ev \<Longrightarrow> ends r ev n u (admit_active r ev n snapshot reopened)"
  unfolding admit_active_def Let_def by (rule ends_intro keeps_intro | assumption)+

section \<open>The tick\<close>

lemma spends_drive: "spends r ev n (driveTopologyRestores r ev)"
proof -
  have *: "spends r ev n (do { maybeClaimRestoreBatch r ev; rows \<leftarrow> all_rows;
      wakeIfDispatchedWork rows; gets (\<lambda>w. hasTopologyRestoreWork (w_targets w)) })"
    by (rule spends_then [OF spends_claim_restore]) (rule keeps_intro)+
  show ?thesis
    unfolding driveTopologyRestores_def by (rule * spends_if spends_ret spends_bind keeps_intro)+
qed

lemma keeps_refresh_pending [keeps_intro]:
  "keeps (running r ev des n u S) (refresh_pending_policy r ev)"
  unfolding refresh_pending_policy_def Let_def by (rule keeps_intro)+

lemma ends_pending_rows:
  assumes "e_State ev = EventStatePending"
  shows "ends r ev n u (pending_rows r ev n snapshot)"
  unfolding pending_rows_def using assms
  by (intro ends_if ends_bind ends_ret ends_admit_pending keeps_update_event keeps_intro)
    (simp_all add: event_step_def)

lemma ends_pending_body:
  assumes "e_State ev = EventStatePending"
  shows "ends r ev n True (dispatch_pending_body r ev n)"
  unfolding dispatch_pending_body_def
  by (rule ends_spend [OF spends_drive] ends_pending_rows [OF assms] ends_intro keeps_intro)+

text \<open>A value whose range is known whatever the world.\<close>

lemma keeps_bind_result:
  assumes "keeps I m" "\<And>w. wp m (\<lambda>a _. P a) w" "\<And>a. P a \<Longrightarrow> keeps I (f a)"
  shows "keeps I (State_Monad.bind m f)"
  unfolding keeps_def wp_bind
proof (intro allI impI)
  fix w assume "I w"
  then show "wp m (\<lambda>a. wp (f a) (\<lambda>_. I)) w"
    by (intro wp_mono [OF wp_conj [OF keepsD [OF assms(1)] assms(2)]])
      (auto intro: keepsD [OF assms(3)])
qed

lemma keeps_observe_drifted [keeps_intro]:
  "live_curtail_state ev \<Longrightarrow> i < n \<Longrightarrow> keeps (calm r ev n u) (observe_drifted r ev c i)"
  unfolding observe_drifted_def by (rule keeps_intro | assumption | simp)+

lemma keeps_observe_row [keeps_intro]:
  "live_curtail_state ev \<Longrightarrow> i < n \<Longrightarrow> keeps (calm r ev n u) (observe_row r ev cands reopened i)"
  unfolding observe_row_def Let_def by (rule keeps_intro | assumption | simp)+

lemma keeps_observe_loop [keeps_intro]:
  "live_curtail_state ev \<Longrightarrow> set is \<subseteq> {..<n} \<Longrightarrow>
   keeps (calm r ev n u) (observe_loop r ev cands reopened deferred is)"
  by (induction "is" arbitrary: reopened deferred) (auto intro!: keeps_intro)

lemma observe_drifted_range: "wp (observe_drifted r ev c i) (\<lambda>ds _. set ds \<subseteq> {i}) w"
  unfolding observe_drifted_def by (auto simp: wp intro!: wp_always split: option.splits)

lemma observe_row_range:
  "wp (observe_row r ev cands reopened i)
     (\<lambda>res _. case res of None \<Rightarrow> True | Some (_, ds) \<Rightarrow> set ds \<subseteq> {i}) w"
  unfolding observe_row_def Let_def
  by (auto simp: wp intro!: wp_always observe_drifted_range [THEN wp_mono])

lemma observe_loop_range:
  "set is \<subseteq> {..<n} \<Longrightarrow> set deferred \<subseteq> {..<n} \<Longrightarrow>
   wp (observe_loop r ev cands reopened deferred is)
     (\<lambda>res _. case res of None \<Rightarrow> True | Some (_, ds) \<Rightarrow> set ds \<subseteq> {..<n}) w"
proof (induction "is" arbitrary: reopened deferred w)
  case Nil then show ?case by (simp add: wp)
next
  case (Cons i "is")
  show ?case
    unfolding observe_loop.simps wp_bind
    by (rule wp_mono [OF observe_row_range])
      (use Cons.prems in \<open>force simp: wp split: option.splits intro!: Cons.IH\<close>)
qed

lemma keeps_observe_with [keeps_intro]:
  assumes "live_curtail_state ev"
  shows "keeps (calm r ev n u) (observe_with r ev n cands)"
proof -
  have tail: "keeps (calm r ev n u) (case seen of
        None \<Rightarrow> ret None
      | Some (reopened, deferred) \<Rightarrow> do {
          need \<leftarrow> gets (\<lambda>w. activeFanTargetsNeedAirflow (w_cols w)
                             (map (\<lambda>i. w_targets w ! i) [0..<n]));
          airflow \<leftarrow> (if need then reconcileActiveFans r ev [0..<n] else ret True);
          if \<not> airflow then ret None
          else do {
            each (\<lambda>i. dispatchOneCurtail r ev i TargetStateDrifted) deferred;
            dispatchPendingCurtailBatches r ev n;
            ret (Some (reopened \<or> need)) } })"
    if "case seen of None \<Rightarrow> True | Some (_, ds) \<Rightarrow> set ds \<subseteq> {..<n}" for seen
    using that assms by (auto intro!: keeps_intro split: option.splits)
  show ?thesis
    unfolding observe_with_def
    by (intro keeps_bind [where m = "if _ then _ else _"] keeps_if keeps_refresh_policy keeps_ret
        keeps_bind_result [OF keeps_observe_loop [OF assms] observe_loop_range tail]) auto
qed

lemma keeps_observe_rows [keeps_intro]:
  "live_curtail_state ev \<Longrightarrow> keeps (calm r ev n u) (observe_rows r ev n)"
  unfolding observe_rows_def by (rule keeps_intro | assumption)+

lemma ends_active_body:
  assumes "e_State ev = EventStateActive"
  shows "ends r ev n True (observe_active_body r ev n)"
  unfolding observe_active_body_def
  by (rule ends_spend [OF spends_drive] ends_admit_active ends_intro keeps_intro | simp add: assms)+

lemma ends_restoring_body:
  assumes "e_State ev = EventStateRestoring"
  shows "ends r ev n True (observe_restoring_body r ev)"
  unfolding observe_restoring_body_def
  by (rule ends_spends [OF spends_claim_restore] ends_intro keeps_intro | rule assms)+

lemma settled_log:
  "settled r ev w \<Longrightarrow> \<not> is_event e \<Longrightarrow> entry_ok r ev e (w_log w) \<Longrightarrow>
   settled r ev (w\<lparr>w_log := e # w_log w\<rparr>)"
  by (simp add: settled_def event_of_Cons)

lemma keeps_settled_wake: "keeps (settled r ev) (wakeIfDispatchedWork is)"
  by (simp add: keeps_def wakeIfDispatchedWork_def wp settled_def)

text \<open>Every handler has this shape; it starts with no Uncurtail command sent.\<close>

definition started :: "reconciler \<Rightarrow> event \<Rightarrow> world \<Rightarrow> bool" where
  "started r ev w \<longleftrightarrow> settled r ev w \<and> \<not> list_ex is_uncurtail (recent (w_log w))"

lemma handler_wp:
  assumes "\<And>n. ends r ev n True (body n)" "started r ev w"
  shows "wp (do {
     loaded \<leftarrow> loadTargets r;
     if \<not> loaded then ret ()
     else do { rows \<leftarrow> all_rows; body (length rows); wakeIfDispatchedWork rows } })
     (\<lambda>_. settled r ev) w"
proof -
  let ?w = "w\<lparr>w_log := ERead ''ListTargetsByEvent'' # w_log w\<rparr>"
  have read: "settled r ev ?w"
    using assms(2) by (intro settled_log) (simp_all add: entry_defs started_def)
  have "wp (do { rows \<leftarrow> all_rows; body (length rows); wakeIfDispatchedWork rows })
      (\<lambda>_. settled r ev) (?w\<lparr>w_targets := ts\<rparr>)" for ts
  proof -
    have "calm r ev (length ts) True (?w\<lparr>w_targets := ts\<rparr>)"
      using read assms(2)
      by (simp add: settled_def started_def running_def recent_Cons is_event_def is_uncurtail_def)
    then have "wp (body (length ts)) (\<lambda>_. settled r ev) (?w\<lparr>w_targets := ts\<rparr>)"
      using assms(1) by (simp add: ends_def)
    then show ?thesis
      by (auto simp: wp all_rows_def elim!: wp_mono intro: keepsD [OF keeps_settled_wake])
  qed
  with read show ?thesis
    unfolding loadTargets_def by (auto simp: wp split: option.splits)
qed

lemma process_wp:
  assumes "started r ev w"
  shows "wp (processEvent r ev) (\<lambda>_. settled r ev) w"
  unfolding processEvent_def dispatchPending_def observeActive_def observeRestoring_def
  using handler_wp [of r ev "\<lambda>n. dispatch_pending_body r ev n", OF _ assms]
    handler_wp [of r ev "\<lambda>n. observe_active_body r ev n", OF _ assms]
    handler_wp [of r ev "\<lambda>_. observe_restoring_body r ev", OF _ assms] assms
  by (auto split: event_state.split simp: wp started_def
      intro: ends_pending_body ends_active_body ends_restoring_body)

lemma safe_log:
  "safe_trace r l \<Longrightarrow> (case e of EEvent _ \<Rightarrow> True | ENow _ \<Rightarrow> True | ERead _ \<Rightarrow> True |
     EHeartbeat _ _ \<Rightarrow> True | _ \<Rightarrow> False) \<Longrightarrow> safe_trace r (e # l)"
  by (auto simp: entry_ok_def split: option.splits trace_entry.splits)

lemma keeps_run_events: "keeps (\<lambda>w. safe_trace r (w_log w)) (run_events r evs)"
proof (induction evs)
  case Nil show ?case by (simp add: keeps_ret)
next
  case (Cons x evs)
  obtain ev k where x: "x = (ev, k)" by (cases x)
  have "wp (processEvent r ev) (\<lambda>_. wp (run_events r evs) (\<lambda>_ w. safe_trace r (w_log w)))
      (w\<lparr>w_log := EEvent ev # w_log w, w_targets := [], w_cols := k\<rparr>)"
    if "safe_trace r (w_log w)" for w
  proof (rule wp_mono [OF process_wp])
    show "started r ev (w\<lparr>w_log := EEvent ev # w_log w, w_targets := [], w_cols := k\<rparr>)"
      using that safe_log [of r "w_log w" "EEvent ev"]
      by (simp add: started_def settled_def event_of.simps recent_Cons is_event_def)
    show "settled r ev w' \<Longrightarrow> wp (run_events r evs) (\<lambda>_ w. safe_trace r (w_log w)) w'" for w'
      by (rule keepsD [OF Cons]) (simp add: settled_def)
  qed
  then show ?case by (simp add: keeps_def wp x)
qed

lemma keeps_tick: "keeps (\<lambda>w. safe_trace r (w_log w)) (runTick r)"
proof -
  have "wp (run_events r evs) (\<lambda>_. wp (perform (\<lambda>_. ()) (\<lambda>_. EHeartbeat t k))
      (\<lambda>_ w. safe_trace r (w_log w))) w" if "safe_trace r (w_log w)" for evs w t k
    by (rule wp_mono [OF keepsD [OF keeps_run_events [of r evs]]])
      (use that safe_log [of r _ "EHeartbeat t k"] in \<open>auto simp: wp\<close>)
  then show ?thesis
    unfolding keeps_def runTick_def
    using safe_log by (auto simp: wp split: option.splits simp del: safe_trace.simps)
qed


end
