(* ===== verification/Curtail_Outcomes.thy ===== *)
theory Curtail_Outcomes
  imports Curtail_Safety
begin

text \<open>
  What the reconciler decides: the evidence for curtailment and restoration, the transitions of an
  event, the batch a restore claims, the power of the fans and the retry budget.
\<close>

section \<open>Evidence\<close>

lemma fl_le_not_less: "x \<noteq> NaN \<Longrightarrow> y \<noteq> NaN \<Longrightarrow> fl_le x y \<longleftrightarrow> \<not> fl_less y x"
  by (cases x; cases y) (auto simp: fl_le_def)

lemma fl_le_less_False: "fl_le x y \<Longrightarrow> fl_less y x \<Longrightarrow> False"
  by (cases x; cases y) (auto simp: fl_le_def)

lemma rnd_not_NaN [simp]: "rnd q \<noteq> NaN"
  by (simp add: rnd_def round_pos_def fl_neg_def Let_def split: f64.splits if_splits)

lemma fl_mul_pos_not_NaN: "fl_mul_pos b k \<noteq> NaN \<longleftrightarrow> k \<noteq> NaN"
  by (cases k) (simp_all add: fl_mul_pos_def)

lemma finite_sample_not_NaN: "finite_sample p \<Longrightarrow> the p \<noteq> NaN"
  by (auto simp: isFinite_def is_nan_def split: option.splits)

lemma above_threshold:
  "isFinite x \<Longrightarrow> fl_less (fl_mul_pos b (Fin q)) x \<longleftrightarrow> \<not> fl_le x (fl_mul_pos b (Fin q))"
  by (subst fl_le_not_less) (auto simp: isFinite_def is_nan_def fl_mul_pos_not_NaN)

lemma hash_restored_iff:
  "hash_restored h \<longleftrightarrow> finite_sample h \<and> \<not> fl_le (the h) (Fin 0)"
  by (auto simp: hash_restored_def finite_sample_not_NaN fl_le_not_less)

text \<open>The two tests of telemetry never contradict each other: no sample both confirms a
  curtailment and confirms a restoration, whatever the threshold. With a threshold that is a number,
  a target counts as drifted exactly when the same sample would confirm its restoration, so a
  reading on the threshold itself counts as curtailed.\<close>

theorem evidence_is_exclusive:
  "\<not> (isCurtailed p b h k req \<and> isRestored p b h k) \<and>
   isRestored p b h (Fin q) = (\<not> isCurtailed p b h (Fin q) False)"
  by (auto simp: isCurtailed_def isRestored_def hash_restored_iff above_threshold
      dest: fl_le_less_False split: option.splits if_splits)

section \<open>Transitions of an event\<close>

definition row_done :: "target \<Rightarrow> bool" where
  "row_done t \<longleftrightarrow>
     t_State t \<in> {TargetStateResolved, TargetStateReleased, TargetStateRestoreFailed}"

abbreviation row_failed :: "target \<Rightarrow> bool" where
  "row_failed t \<equiv> t_State t = TargetStateRestoreFailed"

lemma restoring_tally_eq:
  "restoring_tally k ts =
     (if list_all row_done ts then Some (k + length (filter row_failed ts)) else None)"
  by (induction ts arbitrary: k) (auto simp: row_done_def)

definition fans_on_sent :: "event \<Rightarrow> event_cols \<Rightarrow> bool" where
  "fans_on_sent ev k \<longleftrightarrow> e_FacilityFanDeviceIDs ev = [] \<or> k_FanOnSentAt k \<noteq> None"

definition event_writes :: "trace_entry list \<Rightarrow> event_state list" where
  "event_writes l = List.map_filter (\<lambda>e. case e of EEventState _ s _ _ _ \<Rightarrow> Some s | _ \<Rightarrow> None) l"

text \<open>A restoring event is completed in the tick in which every row is resolved, released or
  given up, and not before its fans were commanded on; it completes with failures exactly when some
  restore was given up. The tick then claims no further batch.\<close>

theorem restoring_completes_iff_done:
  "fst (run_state (maybeCompleteRestoring r ev) w) =
     (fans_on_sent ev (w_cols w) \<and> list_all row_done (w_targets w)) \<and>
   event_writes (w_log (snd (run_state (maybeCompleteRestoring r ev) w))) =
     (if fst (run_state (maybeCompleteRestoring r ev) w)
      then [if list_ex row_failed (w_targets w) then EventStateCompletedWithFailures
            else EventStateCompleted]
      else []) @ event_writes (w_log w)"
  by (auto simp: fans_on_sent_def maybeCompleteRestoring_def updateEventState_def gets_def now_def perform_def
      Let_def restoring_tally_eq event_writes_def map_filter_simps list_ex_iff filter_empty_conv)

definition confirmed_row :: "target \<Rightarrow> bool" where
  "confirmed_row t \<longleftrightarrow> t_State t = TargetStateConfirmed"

text \<open>Rows that still wait for something, rows that failed, and rows held without a miner.\<close>

definition waiting_row :: "json \<Rightarrow> event \<Rightarrow> target \<Rightarrow> bool" where
  "waiting_row js ev t \<longleftrightarrow>
     t_State t \<in> {TargetStatePending, TargetStateDispatching, TargetStateDispatched,
       TargetStateDrifted} \<or>
     t_State t = TargetStateUnavailable \<and> \<not> isAllPairedPolicyEvent ev \<or>
     t_State t = TargetStateReleased \<and> \<not> isAllPairedPolicyReleasedCurtailTarget ev t \<and>
       \<not> isClosedLoopTopologyEvent js ev \<or>
     t_State t = TargetStateResolved \<and>
       (t_DesiredState t \<noteq> DesiredStateActive \<or> \<not> isClosedLoopFullFleet ev)"

definition failed_row :: "json \<Rightarrow> event \<Rightarrow> target \<Rightarrow> bool" where
  "failed_row js ev t \<longleftrightarrow>
     t_State t = TargetStateRestoreFailed \<and>
     \<not> (isClosedLoopTopologyEvent js ev \<and> t_DesiredState t = DesiredStateActive)"

definition held_row :: "event \<Rightarrow> target \<Rightarrow> bool" where
  "held_row ev t \<longleftrightarrow>
     t_State t = TargetStateUnavailable \<and> isAllPairedPolicyEvent ev \<or>
     isAllPairedPolicyReleasedCurtailTarget ev t"

lemma tally_target_eq:
  "tally_target js ev c t =
     (if waiting_row js ev t then None
      else Some (c\<lparr>pt_confirmed := pt_confirmed c + (if confirmed_row t then 1 else 0),
        pt_terminalFailures := pt_terminalFailures c + (if failed_row js ev t then 1 else 0),
        pt_unavailable := pt_unavailable c +
          (if t_State t = TargetStateUnavailable \<and> isAllPairedPolicyEvent ev then 1 else 0),
        pt_releasedPolicy := pt_releasedPolicy c +
          (if isAllPairedPolicyReleasedCurtailTarget ev t then 1 else 0)\<rparr>))"
  by (cases "t_State t")
    (auto simp: tally_target_def waiting_row_def confirmed_row_def failed_row_def
      isAllPairedPolicyReleasedCurtailTarget_def)

lemma tally_loop_eq:
  "tally_loop js ev c ts =
     (if list_ex (waiting_row js ev) ts then None
      else Some (c\<lparr>pt_confirmed := pt_confirmed c + length (filter confirmed_row ts),
        pt_terminalFailures := pt_terminalFailures c + length (filter (failed_row js ev) ts),
        pt_unavailable := pt_unavailable c + length (filter (\<lambda>t. t_State t = TargetStateUnavailable \<and>
            isAllPairedPolicyEvent ev) ts),
        pt_releasedPolicy := pt_releasedPolicy c +
          length (filter (isAllPairedPolicyReleasedCurtailTarget ev) ts)\<rparr>))"
  by (induction ts arbitrary: c) (auto simp: tally_target_eq)

text \<open>A pending event stays pending while any row waits; once none does it becomes active if a
  row is confirmed or nothing was ever at stake, completes with failures if all that is left are
  failures, and an all-paired event with no confirmed row stays pending while it holds rows for
  miners that are unavailable or released.\<close>

theorem pending_event_decision:
  "pending_decision js ev ts =
     (if list_ex (waiting_row js ev) ts \<or> ts = [] \<and> isAllPairedPolicyEvent ev then None
      else if list_ex confirmed_row ts then Some EventStateActive
      else if list_ex (held_row ev) ts then None
      else if list_ex (failed_row js ev) ts then Some EventStateCompletedWithFailures
      else Some EventStateActive)"
  by (auto simp: pending_decision_def tally_loop_eq empty_tally_def held_row_def list_ex_iff
      filter_empty_conv length_greater_0_conv)

section \<open>Restore batches\<close>

definition restore_rows :: "target_state \<Rightarrow> target list \<Rightarrow> nat list" where
  "restore_rows s ts =
     filter (\<lambda>i. t_DesiredState (ts ! i) = DesiredStateActive \<and> t_State (ts ! i) = s) [0..<length ts]"

lemma claim_loop_take:
  "int (length claim) < max 1 k \<Longrightarrow>
   claim_loop k s claim its =
     claim @ take (nat (max 1 k) - length claim)
       (map fst (filter (\<lambda>(i, t). t_DesiredState t = DesiredStateActive \<and> t_State t = s) its))"
proof (induction its arbitrary: claim)
  case Nil then show ?case by simp
next
  case (Cons x its)
  obtain i t where x: "x = (i, t)" by (cases x)
  show ?case
  proof (cases "t_DesiredState t = DesiredStateActive \<and> t_State t = s")
    case False with Cons x show ?thesis by auto
  next
    case True
    have "nat (max 1 k) - length claim = Suc (nat (max 1 k) - Suc (length claim))"
      using Cons.prems by linarith
    with True x show ?thesis
      using Cons.IH [of "claim @ [i]"] Cons.prems by auto
  qed
qed

lemma enumerate_rows:
  "map fst (filter (\<lambda>(i, t). t_DesiredState t = DesiredStateActive \<and> t_State t = s)
     (List.enumerate 0 ts)) = restore_rows s ts"
proof -
  have "List.enumerate 0 ts = map (\<lambda>i. (i, ts ! i)) [0..<length ts]"
    by (rule nth_equalityI) (simp_all add: nth_enumerate_eq)
  then show ?thesis by (simp add: restore_rows_def filter_map comp_def)
qed

text \<open>The batch a restore claims holds rows of one kind only: the rows an earlier process left
  in flight come first, and only when there are none are pending rows taken. The rows are the first
  of their kind in the order of the event, no more than the batch size and at least one if there is
  one.\<close>

theorem restore_claims_orphans_first:
  "restore_claim ev ts =
     take (nat (max 1 (restoreClaimBatchSize ev)))
       (if restore_rows TargetStateDispatching ts \<noteq> [] then restore_rows TargetStateDispatching ts
        else restore_rows TargetStatePending ts)"
proof -
  have "claim_loop k s [] (List.enumerate 0 ts) = take (nat (max 1 k)) (restore_rows s ts)" for k s
    using claim_loop_take [of "[]" k s] by (simp add: enumerate_rows)
  then show ?thesis by (simp add: restore_claim_def Let_def)
qed

section \<open>Fans\<close>

text \<open>A curtailed row whose miner is confirmed off; a restored row that needs no more airflow.\<close>

definition fan_confirmed :: "target \<Rightarrow> bool" where
  "fan_confirmed t \<longleftrightarrow> t_DesiredState t \<noteq> DesiredStateActive \<and> t_State t = TargetStateConfirmed"

definition fan_settled :: "target \<Rightarrow> bool" where
  "fan_settled t \<longleftrightarrow>
     fan_confirmed t \<or>
     t_DesiredState t = DesiredStateActive \<and> t_State t \<in> {TargetStateResolved, TargetStateReleased}"

lemma activeFanTargetConfirmation_eq:
  "activeFanTargetConfirmation ts =
     (length (filter fan_confirmed ts), list_all fan_settled ts)"
proof -
  have "foldl (\<lambda>(confirmed, allConfirmed) t.
       if t_DesiredState t = DesiredStateActive then
         (confirmed, allConfirmed \<and> t_State t \<in> {TargetStateResolved, TargetStateReleased})
       else if t_State t \<noteq> TargetStateConfirmed then (confirmed, False)
       else (Suc confirmed, allConfirmed)) (n, b) ts =
     (n + length (filter fan_confirmed ts), b \<and> list_all fan_settled ts)" for n b
    by (induction ts arbitrary: n b) (auto simp: fan_confirmed_def fan_settled_def)
  then show ?thesis by (simp add: activeFanTargetConfirmation_def)
qed

definition fans_configured :: "reconciler \<Rightarrow> event \<Rightarrow> bool" where
  "fans_configured r ev \<longleftrightarrow> r_fans r \<and> r_fanStore r \<and> e_FacilityFanDeviceIDs ev \<noteq> []"

definition off_was_sent :: "event_cols \<Rightarrow> bool" where
  "off_was_sent k \<longleftrightarrow> k_FanOffSentAt k \<noteq> None"

definition is_fan :: "power_mode \<Rightarrow> trace_entry \<Rightarrow> bool" where
  "is_fan p e \<longleftrightarrow> (case e of EFan q _ _ \<Rightarrow> q = p | _ \<Rightarrow> False)"

definition fan_intent_stored :: "trace_entry \<Rightarrow> bool" where
  "fan_intent_stored e \<longleftrightarrow>
     (case e of EFanIntent p (FanStored _) \<Rightarrow> fp_FanOffSentAt p \<noteq> None | _ \<Rightarrow> False)"

lemma fans_settled_tests:
  "length (filter fan_confirmed ts) = 0 \<longleftrightarrow> \<not> list_ex fan_confirmed ts"
  by (auto simp: list_ex_iff filter_empty_conv)

lemma fans_off_iff:
  "desired_fan_power ev k ts t = Some PowerOff \<longleftrightarrow>
     list_all fan_settled ts \<and> list_ex fan_confirmed ts \<and>
     (k_FanOffSentAt k \<noteq> None \<and> k_FanAirflowReopenedAt k = None \<or> activeFanOffDelayElapsed ev k ts t)"
  unfolding desired_fan_power_def activeFanTargetConfirmation_eq prod.case fans_settled_tests
  by (cases "activeFanOffDelayElapsed ev k ts t") auto

lemma fans_on_iff:
  "desired_fan_power ev k ts t = Some PowerOn \<longleftrightarrow>
     \<not> (list_all fan_settled ts \<and> list_ex fan_confirmed ts) \<and> k_FanOffSentAt k \<noteq> None"
  unfolding desired_fan_power_def activeFanTargetConfirmation_eq prod.case fans_settled_tests
  by auto

lemma fan_off_trace:
  "list_ex (is_fan PowerOff)
       (w_log (snd (run_state (reconcileActiveFans r ev is) (w\<lparr>w_log := []\<rparr>)))) \<longleftrightarrow>
     fans_configured r ev \<and>
     desired_fan_power ev (w_cols w) (map (\<lambda>i. w_targets w ! i) is) (r_now r []) =
       Some PowerOff \<and>
     (k_FanOffSentAt (w_cols w) \<noteq> None \<or>
      list_ex fan_intent_stored
        (w_log (snd (run_state (reconcileActiveFans r ev is) (w\<lparr>w_log := []\<rparr>)))))"
  by (cases "desired_fan_power ev (w_cols w) (map (\<lambda>i. w_targets w ! i) is) (r_now r [])")
    (auto simp: reconcileActiveFans_def fans_configured_def gets_def now_def perform_def Let_def
      reopen_fans_def store_off_intent_def command_fans_off_def commandAndPersistFanState_def
      upd_cols_def modify_def is_fan_def fan_intent_stored_def
      split: power_mode.splits fan_answer.splits)


section \<open>The retry budget\<close>

definition store_works :: "reconciler \<Rightarrow> bool" where
  "store_works r \<longleftrightarrow> (\<forall>l d p. r_UpdateTargetState r l d p = Stored)"

text \<open>A series of failed restore attempts of one row.\<close>

definition fail_each :: "reconciler \<Rightarrow> event \<Rightarrow> nat \<Rightarrow> string list \<Rightarrow> unit act" where
  "fail_each r ev i msgs = each (\<lambda>m. recordDispatchFailure r ev i m TargetStatePending) msgs"

definition after_failures :: "reconciler_config \<Rightarrow> target \<Rightarrow> nat \<Rightarrow> target_state" where
  "after_failures cfg t n =
     (if n = 0 then t_State t
      else if isCurtailRetryTarget t \<or> t_RetryCount t + int n < cf_MaxRetries cfg
      then TargetStatePending else TargetStateRestoreFailed)"

lemma failure_step:
  "store_works r \<Longrightarrow> i < length (w_targets w) \<Longrightarrow>
   w_targets (snd (run_state (recordDispatchFailure r ev i m TargetStatePending) w)) ! i =
     (w_targets w ! i)
       \<lparr>t_State := (if retryBudgetTerminalizes (r_cfg r) (w_targets w ! i)
                        (wrap32 (t_RetryCount (w_targets w ! i) + 1))
                    then TargetStateRestoreFailed else TargetStatePending),
        t_RetryCount := wrap32 (t_RetryCount (w_targets w ! i) + 1), t_LastError := Some m\<rparr> \<and>
   length (w_targets (snd (run_state (recordDispatchFailure r ev i m TargetStatePending) w))) =
     length (w_targets w)"
  by (simp add: store_works_def recordDispatchFailure_def recordDispatchFailureGuarded_def tgt_def
      gets_def Let_def writeTargetState_def perform_def upd_def modify_def)

lemma fail_each_run:
  assumes "store_works r" "i < length (w_targets w)"
    "- (2 ^ 31) \<le> t_RetryCount (w_targets w ! i)"
    "t_RetryCount (w_targets w ! i) + int (length msgs) < 2 ^ 31"
  shows "t_State (w_targets (snd (run_state (fail_each r ev i msgs) w)) ! i) =
           after_failures (r_cfg r) (w_targets w ! i) (length msgs)"
  using assms
proof (induction msgs arbitrary: w)
  case Nil then show ?case by (simp add: fail_each_def after_failures_def)
next
  case (Cons m msgs)
  define w' where "w' = snd (run_state (recordDispatchFailure r ev i m TargetStatePending) w)"
  have wr: "wrap32 (t_RetryCount (w_targets w ! i) + 1) = t_RetryCount (w_targets w ! i) + 1"
    using Cons.prems by (intro wrap32_id) auto
  note step = failure_step [OF Cons.prems(1,2), of ev m, folded w'_def, unfolded wr]
  have "fail_each r ev i (m # msgs) =
      do { recordDispatchFailure r ev i m TargetStatePending; fail_each r ev i msgs }"
    by (simp add: fail_each_def)
  then have "snd (run_state (fail_each r ev i (m # msgs)) w) = snd (run_state (fail_each r ev i msgs) w')"
    by (simp add: w'_def split: prod.splits)
  moreover have "t_State (w_targets (snd (run_state (fail_each r ev i msgs) w')) ! i) =
      after_failures (r_cfg r) (w_targets w' ! i) (length msgs)"
    using Cons.prems step by (intro Cons.IH) auto
  ultimately show ?case
    using step by (auto simp: after_failures_def retryBudgetTerminalizes_def maxRetriesForTarget_def
        isCurtailRetryTarget_def)
qed

section \<open>A batch that goes through\<close>

definition command_works :: "reconciler \<Rightarrow> event \<Rightarrow> string \<Rightarrow> bool" where
  "command_works r ev b \<longleftrightarrow>
     store_works r \<and> (\<forall>l. r_GetEventByUUID r l = LiveState (e_State ev)) \<and>
     (\<forall>l s t. r_RecordCurtailPendingDispatch r l s t = Stored) \<and>
     (\<forall>l ids. r_Curtail r l ids =
        Inr (Some \<lparr>cr_BatchIdentifier = b, cr_Skipped = [], cr_DispatchedDeviceIdentifiers = ids\<rparr>))"

definition names :: "world \<Rightarrow> string list" where
  "names w = map t_DeviceIdentifier (w_targets w)"

lemma names_upd [simp]:
  "t_DeviceIdentifier t = t_DeviceIdentifier (ts ! i) \<Longrightarrow>
   map t_DeviceIdentifier (ts[i := t]) = map t_DeviceIdentifier ts"
  by (cases "i < length ts") (auto simp: map_update list_update_same_conv list_update_beyond)

lemma prewrite_works:
  "store_works r \<Longrightarrow>
   wp (prewrite_curtail r ev fb claim ds us)
     (\<lambda>res w'. (\<exists>u. res = Some (ds @ claim, u)) \<and> names w' = names w) w"
proof (induction claim arbitrary: ds us w)
  case Nil then show ?case by (simp add: wp)
next
  case (Cons i claim)
  show ?case
    unfolding prewrite_curtail.simps writeTargetState_def Let_def wp store_works_def
    using Cons.prems
    by (auto simp: store_works_def wp names_def
        intro!: wp_mono [OF Cons.IH [OF Cons.prems, of "ds @ [i]", unfolded names_def]])
qed

definition dispatched_in :: "string \<Rightarrow> target \<Rightarrow> bool" where
  "dispatched_in b t \<longleftrightarrow>
     t_State t = TargetStateDispatched \<and> t_LastBatchUUID t = Some b \<and> t_LastDispatchedAt t \<noteq> None"

lemma commit_works:
  assumes "store_works r" "i < length (w_targets w)" "names w ! i \<in> set ids"
  shows "wp (commit_curtail r ev fb
        \<lparr>cr_BatchIdentifier = b, cr_Skipped = [], cr_DispatchedDeviceIdentifiers = ids\<rparr> at' i)
     (\<lambda>_ w'. names w' = names w \<and> dispatched_in b (w_targets w' ! i) \<and>
        (\<forall>j. dispatched_in b (w_targets w ! j) \<longrightarrow> dispatched_in b (w_targets w' ! j))) w"
  using assms
  by (simp add: commit_curtail_def wp skipped_set_def names_def writeTargetState_def store_works_def
      Let_def dispatched_in_def nth_list_update)

lemma commits_work:
  assumes "store_works r" "list_all (\<lambda>i. i < length (w_targets w) \<and> names w ! i \<in> set ids) is"
  shows "wp (each (commit_curtail r ev fb
        \<lparr>cr_BatchIdentifier = b, cr_Skipped = [], cr_DispatchedDeviceIdentifiers = ids\<rparr> at') is)
     (\<lambda>_ w'. names w' = names w \<and> list_all (\<lambda>i. dispatched_in b (w_targets w' ! i)) is \<and>
        (\<forall>j. dispatched_in b (w_targets w ! j) \<longrightarrow> dispatched_in b (w_targets w' ! j))) w"
  using assms(2)
proof (induction "is" arbitrary: w)
  case Nil then show ?case by (simp add: wp)
next
  case (Cons i js)
  have len: "names w' = names w \<Longrightarrow> length (w_targets w') = length (w_targets w)" for w'
    by (metis length_map names_def)
  have "wp (commit_curtail r ev fb
        \<lparr>cr_BatchIdentifier = b, cr_Skipped = [], cr_DispatchedDeviceIdentifiers = ids\<rparr> at' i)
     (\<lambda>_ w'. names w' = names w \<and> dispatched_in b (w_targets w' ! i) \<and>
        (\<forall>j. dispatched_in b (w_targets w ! j) \<longrightarrow> dispatched_in b (w_targets w' ! j))) w"
    using Cons.prems by (intro commit_works assms(1)) auto
  then show ?case
    unfolding each.simps wp
  proof (rule wp_mono)
    fix u w'
    assume s: "names w' = names w \<and> dispatched_in b (w_targets w' ! i) \<and>
        (\<forall>j. dispatched_in b (w_targets w ! j) \<longrightarrow> dispatched_in b (w_targets w' ! j))"
    then have "list_all (\<lambda>i. i < length (w_targets w') \<and> names w' ! i \<in> set ids) js"
      using Cons.prems len [of w'] by simp
    from Cons.IH [OF this]
    show "wp (each (commit_curtail r ev fb
        \<lparr>cr_BatchIdentifier = b, cr_Skipped = [], cr_DispatchedDeviceIdentifiers = ids\<rparr> at') js)
     (\<lambda>_ w'. names w' = names w \<and> list_all (\<lambda>i. dispatched_in b (w_targets w' ! i)) (i # js) \<and>
        (\<forall>j. dispatched_in b (w_targets w ! j) \<longrightarrow> dispatched_in b (w_targets w' ! j))) w'"
      by (rule wp_mono) (use s in simp)
  qed
qed

lemma settle_works:
  assumes "store_works r" "b \<noteq> []" "list_all (\<lambda>i. i < length (w_targets w)) is"
  shows "wp (settle_curtail r ev fb is
        (Inr (Some \<lparr>cr_BatchIdentifier = b, cr_Skipped = [],
          cr_DispatchedDeviceIdentifiers = map (\<lambda>i. t_DeviceIdentifier (w_targets w ! i)) is\<rparr>)))
     (\<lambda>_ w'. list_all (\<lambda>i. dispatched_in b (w_targets w' ! i)) is) w"
  using assms(2,3)
  by (auto simp: settle_curtail_def wp names_def list_all_iff
      intro!: wp_mono [OF commits_work [OF assms(1)]])

lemma live_works:
  "command_works r ev b \<Longrightarrow> \<not> IsTerminal (e_State ev) \<Longrightarrow>
   wp (eventStillDispatchable r ev) Q w \<longleftrightarrow>
     Q True (w\<lparr>w_log := ELive (LiveState (e_State ev)) # w_log w\<rparr>)"
  by (simp add: eventStillDispatchable_def wp command_works_def)

lemma send_works:
  assumes "command_works r ev b" "b \<noteq> []" "\<not> IsTerminal (e_State ev)"
    "e_ScopeType ev \<noteq> ScopeTypeMixed" "list_all (\<lambda>i. i < length (w_targets w)) is"
  shows "wp (send_prepared r ev fb (Some (is, u)))
     (\<lambda>ok w'. ok \<and> list_all (\<lambda>i. dispatched_in b (w_targets w' ! i)) is) w"
  using assms(2,4,5) assms(1) [unfolded command_works_def]
  by (auto simp: send_prepared_def send_curtail_batch_def device_ids_def wp
      authorizeTopologyCurtailDispatch_def live_works [OF assms(1,3)] sendCurtail_def
      intro!: settle_works [of r b "w\<lparr>w_log := l\<rparr>" for l, simplified])

lemma batch_works:
  assumes "command_works r ev b" "b \<noteq> []" "\<not> IsTerminal (e_State ev)"
    "e_ScopeType ev \<noteq> ScopeTypeMixed" "list_all (\<lambda>i. i < length (w_targets w)) claim"
  shows "wp (dispatchCurtailBatch r ev claim fb rec)
     (\<lambda>ok w'. ok \<and> list_all (\<lambda>i. dispatched_in b (w_targets w' ! i)) claim) w"
proof -
  have st: "store_works r" and cl: "\<And>l s t. r_RecordCurtailPendingDispatch r l s t = Stored"
    using assms(1) by (simp_all add: command_works_def)
  have go: "wp (do { pre \<leftarrow> prewrite_curtail r ev fb claim [] []; send_prepared r ev fb pre })
      (\<lambda>ok w'. ok \<and> list_all (\<lambda>i. dispatched_in b (w_targets w' ! i)) claim) v"
    if "names v = names w" for v
    unfolding wp
  proof (rule wp_mono [OF prewrite_works [OF st]])
    fix a :: "(nat list \<times> string list) option" and v' assume h: "(\<exists>u. a = Some ([] @ claim, u)) \<and> names v' = names v"
    then have "length (w_targets v') = length (w_targets w)"
      using that by (metis length_map names_def)
    with h assms show "wp (send_prepared r ev fb a)
        (\<lambda>ok w'. ok \<and> list_all (\<lambda>i. dispatched_in b (w_targets w' ! i)) claim) v'"
      by (auto intro!: send_works)
  qed
  show ?thesis
    unfolding dispatchCurtailBatch_def dispatchCurtailBatchWithKnownUnsent_def
      recordCurtailPendingDispatch_def
    by (auto simp: wp live_works [OF assms(1,3)] cl names_def intro!: go [unfolded wp])
qed

text \<open>C15. A Curtail batch for an event that is live and outside the topology fence goes through when
  its collaborators do their part: with a store that takes the writes and a command service that
  enqueues every device, each row of the claim ends up dispatched under the identifier of the
  batch.\<close>

theorem curtail_batch_goes_through:
  assumes "command_works r ev b" "b \<noteq> []" "\<not> IsTerminal (e_State ev)"
    "e_ScopeType ev \<noteq> ScopeTypeMixed" "list_all (\<lambda>i. i < length (w_targets w)) claim"
  shows "fst (run_state (dispatchCurtailBatch r ev claim fb rec) w) \<and>
     list_all (\<lambda>i. dispatched_in b
       (w_targets (snd (run_state (dispatchCurtailBatch r ev claim fb rec) w)) ! i)) claim"
  using batch_works [OF assms, of fb "rec"] by (auto simp: wp_def split: prod.splits)

text \<open>The retry budget: while the store takes the writes, every recorded failure of a row counts;
  a row to be curtailed returns to pending however often it fails, and a row to be restored is given
  up with the failure that brings its count to the maximum, not before and not later.\<close>

theorem restore_is_given_up_on_budget:
  assumes "store_works r" "i < length (w_targets w)"
    "- (2 ^ 31) \<le> t_RetryCount (w_targets w ! i)"
    "t_RetryCount (w_targets w ! i) + int (length msgs) < 2 ^ 31"
  shows "t_State (w_targets (snd (run_state (fail_each r ev i msgs) w)) ! i) =
     (if msgs = [] then t_State (w_targets w ! i)
      else if isCurtailRetryTarget (w_targets w ! i) \<or>
        t_RetryCount (w_targets w ! i) + int (length msgs) < cf_MaxRetries (r_cfg r)
      then TargetStatePending else TargetStateRestoreFailed)"
  using fail_each_run [OF assms] by (simp add: after_failures_def)

section \<open>A concrete reconciler\<close>

definition demo_config :: reconciler_config where
  "demo_config = withDefaults
     \<lparr>cf_TickInterval = 0, cf_MaxRetries = 2, cf_CurtailMaxRetries = 0,
      cf_DriftThresholdFactor = Fin 0, cf_CurtailDispatchTimeoutSec = 0,
      cf_RestoreDispatchTimeoutSec = 0, cf_ConfirmationFastPathEnabled = False\<rparr>"

definition demo_json :: json where
  "demo_json =
     \<lparr>js_fields = (\<lambda>_. Inl ()), js_scope = (\<lambda>_. Inl ()), js_envelope = (\<lambda>_. Inl ()),
      js_site_id = (\<lambda>_. Inl ()), js_candidate_min_power_w = (\<lambda>_. Inl ()),
      js_post_event_cooldown_sec = (\<lambda>_. Inl ()), js_requires_admin_controls = (\<lambda>_. Inl ())\<rparr>"

definition demo_event :: "event_state \<Rightarrow> event" where
  "demo_event s =
     \<lparr>e_EventUUID = ''ev'', e_OrgID = 1, e_State = s, e_Mode = ModeFixedKw,
      e_LoopType = LoopTypeOpen, e_ScopeType = ScopeTypeWholeOrg, e_ScopeJSON = [],
      e_AuthorizationEnvelopeJSON = [], e_DecisionSnapshotJSON = [], e_CurtailBatchSize = None,
      e_CurtailBatchIntervalSec = 0, e_RestoreBatchSize = 1, e_RestoreBatchIntervalSec = 0,
      e_EffectiveBatchSize = Some 1, e_MaxDurationSeconds = None, e_AllowUnbounded = False,
      e_IncludeMaintenance = False, e_ForceIncludeMaintenance = False,
      e_ForceIncludeAllPairedMiners = False, e_FacilityFanDeviceIDs = [], e_FanOffDelaySec = 0,
      e_FanRestoreDelaySec = 0, e_StartedAt = None, e_CreatedAt = 0\<rparr>"

definition demo_target :: "string \<Rightarrow> desired_state \<Rightarrow> target" where
  "demo_target d des =
     \<lparr>t_DeviceIdentifier = d, t_State = TargetStatePending, t_DesiredState = des,
      t_BaselinePowerW = None, t_LastDispatchedAt = None, t_LastBatchUUID = None,
      t_ObservedPowerW = None, t_ObservedAt = None, t_ConfirmedAt = None, t_RetryCount = 0,
      t_LastError = None,
      t_CurtailPhase = \<lparr>ph_State = TargetStatePending, ph_DispatchedAt = None, ph_BatchUUID = None,
        ph_CompletedAt = None, ph_RetryCount = 0, ph_LastError = None\<rparr>,
      t_RestorePhase = None\<rparr>"

definition demo_cols :: event_cols where
  "demo_cols = \<lparr>k_FanOffSentAt = None, k_FanOnSentAt = None, k_FanAirflowReopenedAt = None,
     k_FanLastError = None, k_LastCurtailPendingDispatchAt = None\<rparr>"

definition demo_rows :: "target list" where
  "demo_rows = [demo_target ''m1'' DesiredStateCurtailed, demo_target ''m2'' DesiredStateActive]"

definition demo_reconciler :: reconciler where
  "demo_reconciler =
     \<lparr>r_cfg = demo_config, r_json = demo_json, r_now = (\<lambda>l. int (length l)),
      r_GetEventByUUID = (\<lambda>_. LiveState EventStatePending), r_remaining = (\<lambda>_. 1),
      r_ListNonTerminalEvents = (\<lambda>_. Some [(demo_event EventStatePending, demo_cols)]),
      r_ListTargetsByEvent = (\<lambda>_. Some [hd demo_rows]), r_ListCandidates = (\<lambda>_ _. None),
      r_UpdateTargetState = (\<lambda>_ _ _. Stored), r_BumpTargetRetry = (\<lambda>_ _. Stored),
      r_RecordCurtailPendingDispatch = (\<lambda>_ _ _. Stored),
      r_UpdateEventState = (\<lambda>_ _ _ _ _. Stored), r_BeginRestoreTransition = (\<lambda>_ _. True),
      r_BulkRefresh = (\<lambda>_ _. None), r_GetOrgConfig = (\<lambda>_. None),
      r_ListActiveTargetDevices = (\<lambda>_. None), r_ListCooldownDevices = (\<lambda>_ _ _. None),
      r_ClaimFullFleet = (\<lambda>_ _ _ _. None), r_ClaimAllPaired = (\<lambda>_ _ _. None),
      r_Curtail = (\<lambda>_ ids. Inr (Some \<lparr>cr_BatchIdentifier = ''b1'', cr_Skipped = [],
        cr_DispatchedDeviceIdentifiers = ids\<rparr>)),
      r_Uncurtail = (\<lambda>_ _. Inr None), r_fans = False, r_fanStore = False, r_fanAlert = False,
      r_CommandFanState = (\<lambda>_ _ _. FanFailed), r_topologyStore = None, r_restoreStore = None,
      r_dispatchFence = None, r_restoreFence = None, r_fenceEnd = (\<lambda>_. Stored),
      r_ParkReturnedTargets = (\<lambda>_ _. Stored), r_LoadEffective = None,
      r_LoadRoleName = (\<lambda>_. Inl ())\<rparr>"

definition demo_world :: world where
  "demo_world = \<lparr>w_targets = demo_rows, w_cols = demo_cols, w_rejects = [], w_wake = False,
     w_log = []\<rparr>"

lemma demo_works:
  "command_works demo_reconciler (demo_event EventStatePending) ''b1''" "store_works demo_reconciler"
  by (simp_all add: command_works_def store_works_def demo_reconciler_def demo_event_def)

lemma demo_event_simps:
  "e_State (demo_event s) = s" "e_ScopeType (demo_event s) = ScopeTypeWholeOrg"
  "\<not> IsTerminal EventStatePending"
  by (simp_all add: demo_event_def IsTerminal_def)

text \<open>A tick that is not empty: the pending row to be curtailed is sent its command.\<close>

lemma demo_tick_sends:
  "list_ex (\<lambda>e. e = ECurtail [''m1'']) (w_log (snd (run_state (runTick demo_reconciler) demo_world)))"
  by code_simp

theorem curtail_batch_goes_through_witness:
  "dispatched_in ''b1'' (w_targets (snd (run_state (dispatchCurtailBatch demo_reconciler
     (demo_event EventStatePending) [0] TargetStatePending True) demo_world)) ! 0)"
  using curtail_batch_goes_through [OF demo_works(1), of demo_world "[0]" TargetStatePending True]
  by (simp add: demo_event_simps demo_world_def demo_rows_def)

theorem restore_is_given_up_on_budget_witness:
  "t_State (w_targets (snd (run_state (fail_each demo_reconciler (demo_event EventStateRestoring) 1
     [''first'', ''second'']) demo_world)) ! 1) = TargetStateRestoreFailed"
  using restore_is_given_up_on_budget [OF demo_works(2), of 1 demo_world "[''first'', ''second'']"
    "demo_event EventStateRestoring"]
  by (simp add: demo_world_def demo_rows_def demo_target_def isCurtailRetryTarget_def
      demo_reconciler_def demo_config_def withDefaults_def)

end
