(* ===== verification/Curtail_Pulse.thy ===== *)
theory Curtail_Pulse
  imports Curtail_Rows "HOL-Library.Char_ord" "HOL-Library.List_Lexorder"
begin

text \<open>
  The confirmation pulse of the reconciler (\<open>curtailment/reconciler/confirmation_fast_path.go\<close>): the
  page cursor over the eligible rows, one pass (read, sample, group by event, bulk writes in chunks)
  and the backoff between passes. The locale \<open>keyset\<close> is what the paging needs of the order the
  store sorts by.
\<close>

section \<open>Rows, samples and updates\<close>

definition ConfirmationBatchSize :: nat where "ConfirmationBatchSize = 500"
definition confirmationPulseInterval :: duration where "confirmationPulseInterval = 3 * second"
definition confirmationBackoffMax :: duration where "confirmationBackoffMax = 30 * second"

record confirmation_target =
  ct_EventID :: int
  ct_OrgID :: int
  ct_EventState :: event_state
  ct_DeviceDatabaseID :: int
  ct_DeviceIdentifier :: string
  ct_DesiredState :: desired_state
  ct_BaselinePowerW :: "f64 option"
  ct_BatchUUID :: string
  ct_PairingStatus :: string
  ct_ForceIncludeAllPairedMiners :: bool

type_synonym page_cursor = "int \<times> string"

definition zeroCursor :: page_cursor where "zeroCursor = (0, [])"

definition cursor_of :: "confirmation_target \<Rightarrow> page_cursor" where
  "cursor_of item = (ct_EventID item, ct_DeviceIdentifier item)"

datatype target_phase = TargetPhaseCurtail | TargetPhaseRestore

record confirmation_update =
  cu_DeviceDatabaseID :: int
  cu_DeviceIdentifier :: string
  cu_Phase :: target_phase
  cu_BatchUUID :: string
  cu_ObservedPowerW :: "f64 option"
  cu_ObservedAt :: gotime
  cu_ConfirmedAt :: gotime

record device_metrics =
  dm_PowerW :: "f64 option"
  dm_HashrateHS :: "f64 option"

record sample_result =
  sr_DeviceID :: string
  sr_OrgID :: int
  sr_Metrics :: device_metrics
  sr_FlightStart :: gotime
  sr_Err :: bool

definition sampleMeasurements :: "device_metrics \<Rightarrow> f64 option \<times> f64 option" where
  "sampleMeasurements m = (dm_PowerW m, dm_HashrateHS m)"

text \<open>The direction a sample proves for a row: the switch on the desired state.\<close>

definition proven_phase ::
  "reconciler_config \<Rightarrow> confirmation_target \<Rightarrow> device_metrics \<Rightarrow> target_phase option" where
  "proven_phase cfg item m =
     (case sampleMeasurements m of
        (powerW, hashRateHS) \<Rightarrow>
          (case ct_DesiredState item of
             DesiredStateCurtailed \<Rightarrow>
               if ct_ForceIncludeAllPairedMiners item \<and>
                  \<not> IsAllPairedPolicyPairingStatus (ct_PairingStatus item) then None
               else if \<not> isCurtailed powerW (ct_BaselinePowerW item) hashRateHS
                         (cf_DriftThresholdFactor cfg) True then None
               else Some TargetPhaseCurtail
           | DesiredStateActive \<Rightarrow>
               if \<not> isRestored powerW (ct_BaselinePowerW item) hashRateHS
                     (cf_DriftThresholdFactor cfg) then None
               else Some TargetPhaseRestore
           | DesiredNone \<Rightarrow> None))"

definition confirmationUpdateFromSample ::
  "reconciler_config \<Rightarrow> gotime \<Rightarrow> confirmation_target \<Rightarrow> sample_result \<Rightarrow> gotime \<Rightarrow>
   confirmation_update option" where
  "confirmationUpdateFromSample cfg now item sample sampledAfter =
     (if sr_OrgID sample \<noteq> ct_OrgID item \<or> \<not> time_after (sr_FlightStart sample) sampledAfter then None
      else case proven_phase cfg item (sr_Metrics sample) of
             None \<Rightarrow> None
           | Some phase \<Rightarrow>
               (let powerW = fst (sampleMeasurements (sr_Metrics sample)) in
                Some \<lparr>cu_DeviceDatabaseID = ct_DeviceDatabaseID item,
                  cu_DeviceIdentifier = ct_DeviceIdentifier item, cu_Phase = phase,
                  cu_BatchUUID = ct_BatchUUID item,
                  cu_ObservedPowerW = (if finite_sample powerW then powerW else None),
                  cu_ObservedAt = now, cu_ConfirmedAt = now\<rparr>))"

section \<open>A pass\<close>

text \<open>
  The answers a pass may get, each by the number of the call: the eligibility reads, the clock, the
  sampler, whether the sampling budget ran out, whether the write budget ran out before a write, and
  the number of rows a write applied (\<open>None\<close> is an error).
\<close>

record pulse_env =
  pe_cfg :: reconciler_config
  pe_list :: "nat \<Rightarrow> page_cursor \<Rightarrow> confirmation_target list option"
  pe_now :: "nat \<Rightarrow> gotime"
  pe_sample :: "(int \<times> string) list \<Rightarrow> gotime \<Rightarrow> sample_result list"
  pe_sampledTimedOut :: bool
  pe_writeExpired :: "nat \<Rightarrow> bool"
  pe_bulk :: "nat \<Rightarrow> int \<Rightarrow> event_state \<Rightarrow> confirmation_update list \<Rightarrow> nat option"

definition advance :: "page_cursor \<Rightarrow> confirmation_target list \<Rightarrow> page_cursor" where
  "advance c items = (if items = [] then c else cursor_of (List.last items))"

definition nextConfirmationPage ::
  "(nat \<Rightarrow> page_cursor \<Rightarrow> confirmation_target list option) \<Rightarrow> page_cursor \<Rightarrow>
   confirmation_target list option \<times> page_cursor" where
  "nextConfirmationPage list_eligible c =
     (case list_eligible 0 c of
        None \<Rightarrow> (None, c)
      | Some items \<Rightarrow>
          if items = [] \<and> c \<noteq> zeroCursor then
            (case list_eligible 1 zeroCursor of
               None \<Rightarrow> (None, zeroCursor)
             | Some items' \<Rightarrow> (Some items', advance zeroCursor items'))
          else (Some items, advance c items))"

definition sample_key :: "confirmation_target \<Rightarrow> int \<times> string" where
  "sample_key item = (ct_OrgID item, ct_DeviceIdentifier item)"

text \<open>\<open>samplesByDevice\<close>: a later result for a key overwrites an earlier one.\<close>

definition samples_by_device ::
  "confirmation_target list \<Rightarrow> sample_result list \<Rightarrow> int \<times> string \<Rightarrow> sample_result option" where
  "samples_by_device items results key =
     (if key \<in> set (map sample_key items)
      then map_of (rev (map (\<lambda>s. ((sr_OrgID s, sr_DeviceID s), s)) results)) key else None)"

type_synonym event_updates = "int \<times> event_state \<times> confirmation_update list"

fun add_update ::
  "int \<Rightarrow> event_state \<Rightarrow> confirmation_update \<Rightarrow> event_updates list \<Rightarrow> event_updates list" where
  "add_update eid st u [] = [(eid, st, [u])]"
| "add_update eid st u ((e, s, us) # gs) =
     (if e = eid then (e, s, us @ [u]) # gs else (e, s, us) # add_update eid st u gs)"

text \<open>The update an item contributes, and the loop that groups them by event.\<close>

definition item_update ::
  "pulse_env \<Rightarrow> gotime \<Rightarrow> (int \<times> string \<Rightarrow> sample_result option) \<Rightarrow> nat \<times> confirmation_target \<Rightarrow>
   confirmation_update option" where
  "item_update e sampledAfter samples = (\<lambda>(i, item).
     case samples (sample_key item) of
       None \<Rightarrow> None
     | Some sample \<Rightarrow>
         if sr_Err sample then None
         else confirmationUpdateFromSample (pe_cfg e) (pe_now e (Suc i)) item sample sampledAfter)"

fun group_updates ::
  "(nat \<times> confirmation_target \<Rightarrow> confirmation_update option) \<Rightarrow> event_updates list \<Rightarrow>
   (nat \<times> confirmation_target) list \<Rightarrow> event_updates list" where
  "group_updates f gs [] = gs"
| "group_updates f gs ((i, item) # rest) =
     (case f (i, item) of
        None \<Rightarrow> group_updates f gs rest
      | Some u \<Rightarrow> group_updates f (add_update (ct_EventID item) (ct_EventState item) u gs) rest)"

function chunks :: "nat \<Rightarrow> 'a list \<Rightarrow> 'a list list" where
  "chunks n xs = (if xs = [] \<or> n = 0 then [] else take n xs # chunks n (drop n xs))"
  by pat_completeness auto
termination by (relation "measure (\<lambda>(n, xs). length xs)") auto

declare chunks.simps [simp del]

definition bulk_writes :: "event_updates list \<Rightarrow> event_updates list" where
  "bulk_writes gs =
     concat (map (\<lambda>(eid, st, us). map (\<lambda>c. (eid, st, c)) (chunks ConfirmationBatchSize us)) gs)"

text \<open>The write loop: the writes issued and whether the pass failed; it stops when the budget is out.\<close>

fun write_loop ::
  "pulse_env \<Rightarrow> nat \<Rightarrow> bool \<Rightarrow> event_updates list \<Rightarrow> event_updates list \<times> bool" where
  "write_loop e n failed [] = ([], failed)"
| "write_loop e n failed ((eid, st, c) # ws) =
     (if pe_writeExpired e n then ([], True)
      else case write_loop e (Suc n) (failed \<or> pe_bulk e n eid st c = None) ws of
             (issued, f) \<Rightarrow> ((eid, st, c) # issued, f))"

record pass_result =
  ps_parked :: bool
  ps_failed :: bool
  ps_cursor :: page_cursor
  ps_writes :: "event_updates list"

definition confirmationPass :: "pulse_env \<Rightarrow> page_cursor \<Rightarrow> pass_result" where
  "confirmationPass e c =
     (case nextConfirmationPage (pe_list e) c of
        (None, c') \<Rightarrow> \<lparr>ps_parked = False, ps_failed = True, ps_cursor = c', ps_writes = []\<rparr>
      | (Some items, c') \<Rightarrow>
          if items = [] then \<lparr>ps_parked = True, ps_failed = False, ps_cursor = c', ps_writes = []\<rparr>
          else
            (let sampledAfter = pe_now e 0;
                 results = pe_sample e (map sample_key items) sampledAfter;
                 samples = samples_by_device items results;
                 keys = remdups (map sample_key items);
                 omissions = length (filter (\<lambda>k. samples k = None) keys);
                 failedRows = length (filter (\<lambda>item. case samples (sample_key item) of
                                None \<Rightarrow> False | Some s \<Rightarrow> sr_Err s) items);
                 passFailed = (pe_sampledTimedOut e \<or> length keys div 2 < omissions \<or>
                               length items div 2 < failedRows);
                 groups = group_updates (item_update e sampledAfter samples) []
                            (List.enumerate 0 items)
             in case write_loop e 0 passFailed (bulk_writes groups) of
                  (issued, f) \<Rightarrow>
                    \<lparr>ps_parked = False, ps_failed = f, ps_cursor = c', ps_writes = issued\<rparr>))"

text \<open>The wait before the next pass of an active pulse, from the outcomes of the passes so far.\<close>

fun next_backoff :: "duration \<Rightarrow> bool \<Rightarrow> duration" where
  "next_backoff backoff failed =
     (if failed then min (wrap64 (backoff * 2)) confirmationBackoffMax else confirmationPulseInterval)"

definition backoff_after :: "bool list \<Rightarrow> duration" where
  "backoff_after outcomes = foldl next_backoff confirmationPulseInterval outcomes"

section \<open>What a pass writes\<close>

lemma concat_chunks: "0 < n \<Longrightarrow> concat (chunks n xs) = xs"
  by (induction n xs rule: chunks.induct) (subst chunks.simps, auto)

lemma chunks_bounds: "c \<in> set (chunks n xs) \<Longrightarrow> c \<noteq> [] \<and> length c \<le> n \<and> set c \<subseteq> set xs"
proof (induction n xs rule: chunks.induct)
  case (1 n xs)
  from "1.prems" have ne: "\<not> (xs = [] \<or> n = 0)" and
    c: "c = take n xs \<or> c \<in> set (chunks n (drop n xs))"
    by (subst (asm) chunks.simps, simp split: if_splits)+
  from c show ?case
  proof
    assume "c = take n xs" with ne show ?thesis by (auto dest: in_set_takeD)
  next
    assume "c \<in> set (chunks n (drop n xs))"
    from "1.IH" [OF ne this] show ?thesis by (auto dest: in_set_dropD)
  qed
qed

definition updates_of :: "int \<Rightarrow> event_updates list \<Rightarrow> confirmation_update list" where
  "updates_of eid ws = concat (map (\<lambda>(e, st, us). if e = eid then us else []) ws)"

lemma updates_of_simps [simp]:
  "updates_of eid [] = []"
  "updates_of eid ((e, st, us) # ws) = (if e = eid then us else []) @ updates_of eid ws"
  "updates_of eid (ws @ ws') = updates_of eid ws @ updates_of eid ws'"
  by (simp_all add: updates_of_def)

lemma updates_of_bulk: "updates_of eid (bulk_writes gs) = updates_of eid gs"
proof -
  have "updates_of eid (map (\<lambda>c. (e, st, c)) cs) = (if e = eid then concat cs else [])" for e st cs
    by (induction cs) auto
  then show ?thesis
    by (induction gs) (auto simp: bulk_writes_def concat_chunks ConfirmationBatchSize_def)
qed

text \<open>Grouping keeps one group per event, so the updates of an event stay in the order of the page.\<close>

lemma updates_of_add:
  "distinct (map fst gs) \<Longrightarrow>
   updates_of eid (add_update e st u gs) = updates_of eid gs @ (if e = eid then [u] else []) \<and>
   distinct (map fst (add_update e st u gs)) \<and> fst ` set (add_update e st u gs) \<subseteq> insert e (fst ` set gs)"
proof (induction gs)
  case Nil then show ?case by simp
next
  case (Cons g gs)
  obtain e' s' us where g: "g = (e', s', us)" by (cases g)
  have none: "updates_of e' gs = []" if "e' \<notin> fst ` set gs"
    using that by (induction gs) auto
  from Cons g none show ?case by (auto simp: image_iff)
qed

lemma updates_of_group:
  "distinct (map fst gs) \<Longrightarrow>
   updates_of eid (group_updates f gs its) =
     updates_of eid gs @ List.map_filter f (filter (\<lambda>(i, item). ct_EventID item = eid) its)"
proof (induction its arbitrary: gs)
  case Nil then show ?case by (simp add: map_filter_simps)
next
  case (Cons x its)
  obtain i item where x: "x = (i, item)" by (cases x)
  show ?case
  proof (cases "f (i, item)")
    case None with Cons x show ?thesis by (simp add: map_filter_simps)
  next
    case (Some u)
    note a = updates_of_add [OF Cons.prems, of eid "ct_EventID item" "ct_EventState item" u]
    with Cons.IH [of "add_update (ct_EventID item) (ct_EventState item) u gs"] Some x
    show ?thesis by (simp add: map_filter_simps)
  qed
qed

lemma write_loop_prefix: "\<exists>rest. ws = fst (write_loop e n failed ws) @ rest"
  by (induction e n failed ws rule: write_loop.induct) (auto split: prod.splits)

lemma write_loop_all: "\<forall>n. \<not> pe_writeExpired e n \<Longrightarrow> fst (write_loop e n failed ws) = ws"
  by (induction e n failed ws rule: write_loop.induct) (auto split: prod.splits)

definition page_of :: "pulse_env \<Rightarrow> page_cursor \<Rightarrow> confirmation_target list" where
  "page_of e c = (case fst (nextConfirmationPage (pe_list e) c) of None \<Rightarrow> [] | Some items \<Rightarrow> items)"

definition results_of :: "pulse_env \<Rightarrow> page_cursor \<Rightarrow> sample_result list" where
  "results_of e c = pe_sample e (map sample_key (page_of e c)) (pe_now e 0)"

definition pass_update ::
  "pulse_env \<Rightarrow> page_cursor \<Rightarrow> nat \<times> confirmation_target \<Rightarrow> confirmation_update option" where
  "pass_update e c = item_update e (pe_now e 0) (samples_by_device (page_of e c) (results_of e c))"

lemma write_loop_failed: "fst (write_loop e n failed ws) = fst (write_loop e n False ws)"
proof (induction ws arbitrary: n failed)
  case (Cons w ws)
  obtain eid st c where w: "w = (eid, st, c)" by (cases w)
  show ?case
    using Cons [of "Suc n" "failed \<or> pe_bulk e n eid st c = None"]
      Cons [of "Suc n" "pe_bulk e n eid st c = None"]
    by (auto simp: w split: prod.splits)
qed simp

lemma pass_writes:
  "ps_writes (confirmationPass e c) = fst (write_loop e 0 False
     (bulk_writes (group_updates (pass_update e c) [] (List.enumerate 0 (page_of e c)))))"
proof (cases "nextConfirmationPage (pe_list e) c" rule: prod.exhaust)
  case (Pair items c')
  have fst_case: "ps_writes (case p of (i, f) \<Rightarrow> \<lparr>ps_parked = False, ps_failed = f, ps_cursor = c',
      ps_writes = i\<rparr>) = fst p" for p
    by (cases p) simp
  show ?thesis
  proof (cases items)
    case None with Pair show ?thesis
      by (simp add: confirmationPass_def page_of_def bulk_writes_def)
  next
    case (Some page)
    with Pair have page: "page_of e c = page" by (simp add: page_of_def)
    show ?thesis
    proof (cases "page = []")
      case True with Some Pair page show ?thesis
        by (simp add: confirmationPass_def bulk_writes_def)
    next
      case False with Some Pair show ?thesis
        unfolding confirmationPass_def pass_update_def results_of_def page
        by (simp add: Let_def fst_case) (rule write_loop_failed)
    qed
  qed
qed

text \<open>A sample of the pass that justifies an update of a row.\<close>

definition justifies ::
  "pulse_env \<Rightarrow> confirmation_update \<Rightarrow> confirmation_target \<Rightarrow> sample_result \<Rightarrow> bool" where
  "justifies e u item s \<longleftrightarrow>
     sr_OrgID s = ct_OrgID item \<and> sr_DeviceID s = ct_DeviceIdentifier item \<and> \<not> sr_Err s \<and>
     time_after (sr_FlightStart s) (pe_now e 0) \<and>
     proven_phase (pe_cfg e) item (sr_Metrics s) = Some (cu_Phase u)"

definition update_for :: "int \<Rightarrow> confirmation_update \<Rightarrow> confirmation_target \<Rightarrow> bool" where
  "update_for eid u item \<longleftrightarrow>
     ct_EventID item = eid \<and> cu_DeviceIdentifier u = ct_DeviceIdentifier item \<and>
     cu_DeviceDatabaseID u = ct_DeviceDatabaseID item \<and> cu_BatchUUID u = ct_BatchUUID item"

lemma pass_update_justified:
  "pass_update e c (i, item) = Some u \<Longrightarrow> item \<in> set (page_of e c) \<Longrightarrow>
   update_for (ct_EventID item) u item \<and> list_ex (justifies e u item) (results_of e c)"
  by (fastforce simp: pass_update_def item_update_def samples_by_device_def sample_key_def
      confirmationUpdateFromSample_def Let_def update_for_def justifies_def list_ex_iff
      split: option.splits if_splits dest: map_of_SomeD)

lemma group_member:
  assumes "(eid, st, us) \<in> set (group_updates f [] its)" "u \<in> set us"
  shows "\<exists>i item. (i, item) \<in> set its \<and> ct_EventID item = eid \<and> f (i, item) = Some u"
proof -
  have "u \<in> set (updates_of eid (group_updates f [] its))"
    using assms by (force simp: updates_of_def)
  then show ?thesis
    by (auto simp: updates_of_group map_filter_def) blast
qed



section \<open>The sweep of the pages\<close>

text \<open>
  What the paging needs of the store: a strict order on the keys in which the zero cursor is below
  every key. The store lists the rows after a cursor in that order, up to the page size.
\<close>

locale keyset =
  fixes lt :: "page_cursor \<Rightarrow> page_cursor \<Rightarrow> bool"
    and valid :: "page_cursor \<Rightarrow> bool"
  assumes irrefl: "\<not> lt k k"
    and trans: "lt i j \<Longrightarrow> lt j k \<Longrightarrow> lt i k"
    and zero_least: "valid k \<Longrightarrow> lt zeroCursor k"
begin

definition ordered :: "confirmation_target list \<Rightarrow> bool" where
  "ordered L \<longleftrightarrow> sorted_wrt (\<lambda>a b. lt (cursor_of a) (cursor_of b)) L \<and>
     list_all (\<lambda>x. valid (cursor_of x)) L"

definition after :: "confirmation_target list \<Rightarrow> page_cursor \<Rightarrow> confirmation_target list" where
  "after L c = filter (\<lambda>x. lt c (cursor_of x)) L"

lemma after_zero: "ordered L \<Longrightarrow> after L zeroCursor = L"
  by (simp add: after_def ordered_def list_all_iff zero_least)

lemma after_member:
  assumes "sorted_wrt (\<lambda>a b. lt (cursor_of a) (cursor_of b)) (xs @ x # ys)"
  shows "after (xs @ x # ys) (cursor_of x) = ys"
proof -
  have "\<not> lt (cursor_of x) (cursor_of a)" if "a \<in> set xs" for a
    using assms that by (auto simp: sorted_wrt_append dest: trans intro: irrefl)
      (meson irrefl trans)
  then have "filter (\<lambda>a. lt (cursor_of x) (cursor_of a)) xs = []"
    by (auto simp: filter_empty_conv)
  with assms show ?thesis
    by (simp add: after_def sorted_wrt_append irrefl)
qed

lemma sorted_suffix: "sorted_wrt R L \<Longrightarrow> (\<exists>p. L = p @ s) \<Longrightarrow> sorted_wrt R s"
  by (auto simp: sorted_wrt_append)

text \<open>Rows after a cursor are a suffix of the ordered list, and reading a page drops it.\<close>

lemma after_suffix: "ordered L \<Longrightarrow> \<exists>p. L = p @ after L c"
proof (induction L)
  case Nil then show ?case by (simp add: after_def)
next
  case (Cons x L)
  show ?case
  proof (cases "lt c (cursor_of x)")
    case True
    with Cons.prems have "after (x # L) c = x # L"
      by (auto simp: after_def ordered_def intro!: filter_True dest: trans)
    then show ?thesis by simp
  next
    case False
    with Cons show ?thesis
      by (force simp: after_def ordered_def intro: exI [of _ "x # p" for p])
  qed
qed

lemma after_page:
  assumes "ordered L" "after L c \<noteq> []" "0 < n"
  shows "after L (cursor_of (List.last (take n (after L c)))) = drop n (after L c)"
proof -
  let ?t = "take n (after L c)"
  from after_suffix [OF assms(1)] obtain p where p: "L = p @ after L c" by blast
  have "?t \<noteq> []" using assms by auto
  then have "L = (p @ butlast ?t) @ List.last ?t # drop n (after L c)"
    using p by (metis append_Cons append_assoc append_butlast_last_id append_take_drop_id
        self_append_conv2)
  with assms(1) after_member show ?thesis unfolding ordered_def by metis
qed

end

definition list_after ::
  "(page_cursor \<Rightarrow> page_cursor \<Rightarrow> bool) \<Rightarrow> confirmation_target list \<Rightarrow> nat \<Rightarrow> page_cursor \<Rightarrow>
   confirmation_target list option" where
  "list_after lt L i c = Some (take ConfirmationBatchSize (filter (\<lambda>x. lt c (cursor_of x)) L))"

text \<open>The rows of a number of successive reads.\<close>

fun sweep ::
  "(page_cursor \<Rightarrow> page_cursor \<Rightarrow> bool) \<Rightarrow> confirmation_target list \<Rightarrow> nat \<Rightarrow> page_cursor \<Rightarrow>
   confirmation_target list" where
  "sweep lt L 0 c = []"
| "sweep lt L (Suc n) c =
     (case nextConfirmationPage (list_after lt L) c of
        (items, c') \<Rightarrow> (case items of None \<Rightarrow> [] | Some p \<Rightarrow> p) @ sweep lt L n c')"

context keyset
begin

lemma read_page:
  "after L c \<noteq> [] \<Longrightarrow> nextConfirmationPage (list_after lt L) c =
     (Some (take ConfirmationBatchSize (after L c)),
      cursor_of (List.last (take ConfirmationBatchSize (after L c))))"
  by (simp add: nextConfirmationPage_def list_after_def advance_def ConfirmationBatchSize_def
      flip: after_def)

lemma read_wraps:
  "after L c = [] \<Longrightarrow> nextConfirmationPage (list_after lt L) c =
     nextConfirmationPage (list_after lt L) zeroCursor"
  by (cases "c = zeroCursor") (simp_all add: nextConfirmationPage_def list_after_def after_def)

lemma sweep_reaches_end:
  "ordered L \<Longrightarrow> length (after L c) \<le> n * ConfirmationBatchSize \<Longrightarrow>
   set (after L c) \<subseteq> set (sweep lt L n c)"
proof (induction n arbitrary: c)
  case 0 then show ?case by simp
next
  case (Suc n)
  show ?case
  proof (cases "after L c = []")
    case False
    let ?c = "cursor_of (List.last (take ConfirmationBatchSize (after L c)))"
    have nx: "after L ?c = drop ConfirmationBatchSize (after L c)"
      using False Suc.prems by (intro after_page) (simp_all add: ConfirmationBatchSize_def)
    have "set (after L ?c) \<subseteq> set (sweep lt L n ?c)"
      using Suc.prems by (intro Suc.IH) (auto simp: nx)
    then show ?thesis
      unfolding nx by (simp add: read_page [OF False])
        (metis Un_mono append_take_drop_id set_append subset_refl)
  qed simp
qed

lemma sweep_mono: "set (sweep lt L n c) \<subseteq> set (sweep lt L (n + k) c)"
proof (induction n arbitrary: c)
  case (Suc n)
  obtain items c' where "nextConfirmationPage (list_after lt L) c = (items, c')" by (rule prod.exhaust)
  with Suc [of c'] show ?case by auto
qed simp

lemma sweep_from_end:
  assumes "ordered L" "after L c = []" "length L \<le> p * ConfirmationBatchSize"
  shows "set L \<subseteq> set (sweep lt L p c)"
proof (cases p)
  case 0 with assms show ?thesis by simp
next
  case (Suc q)
  have "sweep lt L p c = sweep lt L p zeroCursor"
    unfolding Suc sweep.simps read_wraps [OF assms(2)] ..
  with sweep_reaches_end [OF assms(1), of zeroCursor p] assms show ?thesis
    by (simp add: after_zero)
qed

lemma sweep_covers:
  "ordered L \<Longrightarrow> length L \<le> p * ConfirmationBatchSize \<Longrightarrow>
   length (after L c) \<le> n * ConfirmationBatchSize \<Longrightarrow> set L \<subseteq> set (sweep lt L (n + p) c)"
proof (induction n arbitrary: c)
  case 0 then show ?case using sweep_from_end [of L c p] by simp
next
  case (Suc n)
  show ?case
  proof (cases "after L c = []")
    case True
    with Suc.prems have "set L \<subseteq> set (sweep lt L p c)" by (intro sweep_from_end)
    also have "\<dots> \<subseteq> set (sweep lt L (p + Suc n) c)" by (rule sweep_mono)
    finally show ?thesis by (simp add: add.commute)
  next
    case False
    let ?c = "cursor_of (List.last (take ConfirmationBatchSize (after L c)))"
    have nx: "after L ?c = drop ConfirmationBatchSize (after L c)"
      using False Suc.prems by (intro after_page) (simp_all add: ConfirmationBatchSize_def)
    have "set L \<subseteq> set (sweep lt L (n + p) ?c)"
      using Suc.prems by (intro Suc.IH) (auto simp: nx)
    then show ?thesis by (auto simp: read_page [OF False])
  qed
qed

end

text \<open>The order of the store's primary key, with identifiers compared bytewise.\<close>

definition key_less :: "page_cursor \<Rightarrow> page_cursor \<Rightarrow> bool" where
  "key_less a b \<longleftrightarrow> fst a < fst b \<or> fst a = fst b \<and> snd a < snd b"

definition real_key :: "page_cursor \<Rightarrow> bool" where
  "real_key k \<longleftrightarrow> 0 < fst k"

interpretation pages: keyset key_less real_key
  by unfold_locales (auto simp: key_less_def zeroCursor_def real_key_def)

text \<open>No page can hold up the pulse: whatever cursor it starts from and whether or not any row is
  ever confirmed, after twice as many reads as there are pages every eligible row has been on a page
  that was read.\<close>

theorem pulse_visits_every_row:
  assumes "sorted_wrt (\<lambda>a b. key_less (cursor_of a) (cursor_of b)) L"
    "list_all (\<lambda>x. 0 < ct_EventID x) L" "length L \<le> p * ConfirmationBatchSize"
  shows "set L \<subseteq> set (sweep key_less L (p + p) c)"
proof (rule pages.sweep_covers)
  show "pages.ordered L" using assms(1,2) by (simp add: pages.ordered_def real_key_def cursor_of_def)
  show "length (pages.after L c) \<le> p * ConfirmationBatchSize"
    using assms(3) by (simp add: pages.after_def order.trans [OF length_filter_le])
qed (rule assms(3))

definition demo_row :: "int \<Rightarrow> confirmation_target" where
  "demo_row i = \<lparr>ct_EventID = i, ct_OrgID = 1, ct_EventState = EventStateActive,
     ct_DeviceDatabaseID = i, ct_DeviceIdentifier = ''m'', ct_DesiredState = DesiredStateCurtailed,
     ct_BaselinePowerW = None, ct_BatchUUID = ''b'', ct_PairingStatus = ''PAIRED'',
     ct_ForceIncludeAllPairedMiners = False\<rparr>"

theorem pulse_visits_every_row_witness:
  "demo_row 1 \<in> set (sweep key_less [demo_row 1, demo_row 2] 2 (1, ''m''))"
  using pulse_visits_every_row [of "[demo_row 1, demo_row 2]" 1 "(1, ''m'')"]
  by (simp add: demo_row_def key_less_def cursor_of_def ConfirmationBatchSize_def numeral_2_eq_2)

section \<open>Backoff\<close>

lemma backoff_step:
  "confirmationPulseInterval \<le> b \<Longrightarrow> b \<le> confirmationBackoffMax \<Longrightarrow>
   confirmationPulseInterval \<le> next_backoff b f \<and> next_backoff b f \<le> confirmationBackoffMax"
  by (auto simp: wrap64_id confirmationBackoffMax_def confirmationPulseInterval_def second_def)

text \<open>The wait stays between the cadence and the cap, and a successful pass resets it.\<close>

lemma backoff_bounds:
  "confirmationPulseInterval \<le> backoff_after fs \<and> backoff_after fs \<le> confirmationBackoffMax"
proof (induction fs rule: rev_induct)
  case Nil then show ?case
    by (simp add: backoff_after_def confirmationBackoffMax_def confirmationPulseInterval_def second_def)
next
  case (snoc f fs) then show ?case
    using backoff_step [of "backoff_after fs" f] by (simp add: backoff_after_def)
qed

lemma backoff_resets: "backoff_after (fs @ [False]) = confirmationPulseInterval"
  by (simp add: backoff_after_def)

end
