(* ===== verification/Curtail_Lifecycle.thy ===== *)
theory Curtail_Lifecycle
  imports Curtail_Rows
begin

text \<open>
  The life cycle of the curtailment reconciler (\<open>curtailment/reconciler/reconciler.go\<close>, \<open>Start\<close> to
  \<open>finishActivation\<close>): activations are created by \<open>Start\<close>, cancelled by \<open>Stop\<close>, \<open>Abort\<close> or the
  parent context, and end when their tick loop and pulse have ended.

  Activations live in a heap; the fields \<open>loopCancel\<close>, \<open>workCancel\<close>, \<open>runCanceled\<close> and \<open>runDone\<close> are
  set and cleared together, so one index stands for them. \<open>Stop\<close> holds \<open>lifecycleMu\<close> while it waits:
  it is a step that takes the mutex and a step that gives it back. The goroutine of an activation
  moves through the phases of \<open>tickLoop\<close>, with its deferred calls as steps of their own. A step that
  is not enabled (a blocked call) leaves the state as it is; closing a closed channel is a panic.
\<close>

section \<open>Configuration checks\<close>

datatype start_error =
    StoreRequired
  | DispatcherRequired
  | TickIntervalTooShort
  | CurtailTimeoutTooShort
  | SamplerMissing
  | BulkConfirmationMissing
  | StillStopping

text \<open>The collaborators that may be nil.\<close>

record wiring =
  wi_store :: bool
  wi_cmd :: bool
  wi_sampler :: bool
  wi_confirmationStore :: bool

definition start_config_error :: "reconciler_config \<Rightarrow> wiring \<Rightarrow> start_error option" where
  "start_config_error cfg wi =
     (if \<not> wi_store wi then Some StoreRequired
      else if \<not> wi_cmd wi then Some DispatcherRequired
      else if cf_TickInterval cfg < second then Some TickIntervalTooShort
      else if cf_CurtailDispatchTimeoutSec cfg < 1 then Some CurtailTimeoutTooShort
      else if cf_ConfirmationFastPathEnabled cfg \<and> \<not> wi_sampler wi then Some SamplerMissing
      else if cf_ConfirmationFastPathEnabled cfg \<and> \<not> wi_confirmationStore wi
      then Some BulkConfirmationMissing
      else None)"

section \<open>Activations\<close>

datatype loop_phase = Waiting | Ticking | LoopLeft | Cleared | Exited

record activation =
  ac_loopCancelled :: bool
  ac_workCancelled :: bool
  ac_phase :: loop_phase
  ac_pulse :: bool
  ac_done :: bool

record lifecycle =
  lc_run :: "nat option"
  lc_stopping :: "nat option"
  lc_heap :: "activation list"

definition lc_init :: lifecycle where
  "lc_init = \<lparr>lc_run = None, lc_stopping = None, lc_heap = []\<rparr>"

definition upd_ac :: "nat \<Rightarrow> (activation \<Rightarrow> activation) \<Rightarrow> lifecycle \<Rightarrow> lifecycle" where
  "upd_ac a f s =
     (if a < length (lc_heap s) then s\<lparr>lc_heap := (lc_heap s)[a := f (lc_heap s ! a)]\<rparr> else s)"

definition cancel_loop :: "activation \<Rightarrow> activation" where
  "cancel_loop k = k\<lparr>ac_loopCancelled := True\<rparr>"

definition cancel_work :: "activation \<Rightarrow> activation" where
  "cancel_work k = k\<lparr>ac_workCancelled := True\<rparr>"

text \<open>\<open>Start\<close>: \<open>None\<close> while the mutex is taken, else the answer and the new state.\<close>

definition Start_lc ::
  "reconciler_config \<Rightarrow> wiring \<Rightarrow> lifecycle \<Rightarrow> (start_error option \<times> lifecycle) option" where
  "Start_lc cfg wi s =
     (case start_config_error cfg wi of
        Some e \<Rightarrow> Some (Some e, s)
      | None \<Rightarrow>
          if lc_stopping s \<noteq> None then None
          else case lc_run s of
                 Some a \<Rightarrow>
                   Some (if ac_loopCancelled (lc_heap s ! a) then Some StillStopping else None, s)
               | None \<Rightarrow>
                   Some (None, s\<lparr>lc_run := Some (length (lc_heap s)),
                     lc_heap := lc_heap s @
                       [\<lparr>ac_loopCancelled = False, ac_workCancelled = False, ac_phase = Waiting,
                         ac_pulse = cf_ConfirmationFastPathEnabled cfg, ac_done = False\<rparr>]\<rparr>))"

text \<open>\<open>Stop\<close> up to its wait; an idle reconciler is left at once.\<close>

definition stop_begin :: "lifecycle \<Rightarrow> lifecycle" where
  "stop_begin s =
     (if lc_stopping s \<noteq> None then s
      else case lc_run s of
             None \<Rightarrow> s
           | Some a \<Rightarrow> upd_ac a cancel_loop (s\<lparr>lc_stopping := Some a\<rparr>))"

text \<open>The wait ends when \<open>runDone\<close> is closed, or with the caller's context.\<close>

definition stop_done :: "lifecycle \<Rightarrow> lifecycle" where
  "stop_done s =
     (case lc_stopping s of
        Some a \<Rightarrow>
          if ac_done (lc_heap s ! a) then upd_ac a cancel_work (s\<lparr>lc_stopping := None\<rparr>) else s
      | None \<Rightarrow> s)"

definition stop_timeout :: "lifecycle \<Rightarrow> lifecycle" where
  "stop_timeout s =
     (case lc_stopping s of
        Some a \<Rightarrow> upd_ac a cancel_work (s\<lparr>lc_stopping := None\<rparr>)
      | None \<Rightarrow> s)"

definition Abort_lc :: "lifecycle \<Rightarrow> lifecycle" where
  "Abort_lc s =
     (case lc_run s of None \<Rightarrow> s | Some a \<Rightarrow> upd_ac a (cancel_work \<circ> cancel_loop) s)"

text \<open>The steps of the goroutines of an activation.\<close>

definition tick_start :: "activation \<Rightarrow> activation" where
  "tick_start k = (if ac_phase k = Waiting then k\<lparr>ac_phase := Ticking\<rparr> else k)"

definition tick_end :: "activation \<Rightarrow> activation" where
  "tick_end k =
     (if ac_phase k = Ticking
      then k\<lparr>ac_phase := (if ac_loopCancelled k then LoopLeft else Waiting)\<rparr> else k)"

definition loop_leave :: "activation \<Rightarrow> activation" where
  "loop_leave k =
     (if ac_phase k = Waiting \<and> ac_loopCancelled k then k\<lparr>ac_phase := LoopLeft\<rparr> else k)"

definition pulse_leave :: "activation \<Rightarrow> activation" where
  "pulse_leave k = (if ac_loopCancelled k then k\<lparr>ac_pulse := False\<rparr> else k)"

text \<open>\<open>finishActivation\<close> clears the fields whatever they hold; it runs after the pulse has ended.\<close>

definition finishActivation :: "nat \<Rightarrow> lifecycle \<Rightarrow> lifecycle" where
  "finishActivation a s =
     (if a < length (lc_heap s) \<and> ac_phase (lc_heap s ! a) = LoopLeft \<and> \<not> ac_pulse (lc_heap s ! a)
      then upd_ac a (\<lambda>k. k\<lparr>ac_phase := Cleared\<rparr>) (s\<lparr>lc_run := None\<rparr>) else s)"

definition close_done :: "nat \<Rightarrow> lifecycle \<Rightarrow> lifecycle option" where
  "close_done a s =
     (if a < length (lc_heap s) \<and> ac_phase (lc_heap s ! a) = Cleared then
        if ac_done (lc_heap s ! a) then None
        else Some (upd_ac a (\<lambda>k. k\<lparr>ac_phase := Exited, ac_done := True\<rparr>) s)
      else Some s)"

datatype lc_op =
    OpStart reconciler_config wiring
  | OpStopBegin
  | OpStopDone
  | OpStopTimeout
  | OpAbort
  | OpParentCancel nat
  | OpTickStart nat
  | OpTickEnd nat
  | OpLoopLeave nat
  | OpPulseLeave nat
  | OpFinish nat
  | OpClose nat

fun lc_exec :: "lc_op \<Rightarrow> lifecycle \<Rightarrow> lifecycle option" where
  "lc_exec (OpStart cfg wi) s = Some (case Start_lc cfg wi s of None \<Rightarrow> s | Some (_, t) \<Rightarrow> t)"
| "lc_exec OpStopBegin s = Some (stop_begin s)"
| "lc_exec OpStopDone s = Some (stop_done s)"
| "lc_exec OpStopTimeout s = Some (stop_timeout s)"
| "lc_exec OpAbort s = Some (Abort_lc s)"
| "lc_exec (OpParentCancel a) s = Some (upd_ac a cancel_loop s)"
| "lc_exec (OpTickStart a) s = Some (upd_ac a tick_start s)"
| "lc_exec (OpTickEnd a) s = Some (upd_ac a tick_end s)"
| "lc_exec (OpLoopLeave a) s = Some (upd_ac a loop_leave s)"
| "lc_exec (OpPulseLeave a) s = Some (upd_ac a pulse_leave s)"
| "lc_exec (OpFinish a) s = Some (finishActivation a s)"
| "lc_exec (OpClose a) s = close_done a s"

section \<open>Invariant\<close>

text \<open>An activation works until its fields are cleared: until then it may tick or confirm.\<close>

definition working :: "activation \<Rightarrow> bool" where
  "working k \<longleftrightarrow> ac_phase k \<in> {Waiting, Ticking, LoopLeft} \<or> ac_pulse k"

definition ac_ok :: "activation \<Rightarrow> bool" where
  "ac_ok k \<longleftrightarrow>
     (ac_done k \<longleftrightarrow> ac_phase k = Exited) \<and> (ac_phase k \<in> {Cleared, Exited} \<longrightarrow> \<not> ac_pulse k) \<and>
     (ac_phase k \<in> {LoopLeft, Cleared, Exited} \<longrightarrow> ac_loopCancelled k)"

definition lc_inv :: "lifecycle \<Rightarrow> bool" where
  "lc_inv s \<longleftrightarrow>
     (\<forall>a < length (lc_heap s). ac_ok (lc_heap s ! a) \<and>
        (working (lc_heap s ! a) \<longleftrightarrow> lc_run s = Some a)) \<and>
     (case lc_run s of None \<Rightarrow> True | Some a \<Rightarrow> a < length (lc_heap s)) \<and>
     (case lc_stopping s of
        None \<Rightarrow> True
      | Some a \<Rightarrow> a < length (lc_heap s) \<and> (lc_run s = Some a \<or> lc_run s = None))"

lemma lc_invD:
  assumes "lc_inv s"
  shows "a < length (lc_heap s) \<Longrightarrow> ac_ok (lc_heap s ! a)"
    "a < length (lc_heap s) \<Longrightarrow> working (lc_heap s ! a) \<longleftrightarrow> lc_run s = Some a"
    "lc_run s = Some a \<Longrightarrow> a < length (lc_heap s)"
    "lc_stopping s = Some a \<Longrightarrow> a < length (lc_heap s)"
  using assms by (auto simp: lc_inv_def split: option.splits)

text \<open>A step of one activation that keeps its own conditions and does not decide whether it works.\<close>

lemma lc_inv_upd:
  assumes "lc_inv s" "\<And>k. ac_ok k \<Longrightarrow> ac_ok (f k) \<and> (working (f k) \<longleftrightarrow> working k)"
  shows "lc_inv (upd_ac a f s)"
  using assms by (auto simp: lc_inv_def upd_ac_def nth_list_update split: option.splits)

lemmas lc_defs = cancel_loop_def cancel_work_def tick_start_def tick_end_def loop_leave_def
  pulse_leave_def working_def ac_ok_def

lemma lc_inv_steps [intro]:
  assumes "lc_inv s"
  shows "lc_inv (upd_ac a cancel_loop s)" "lc_inv (upd_ac a cancel_work s)"
    "lc_inv (upd_ac a (cancel_work \<circ> cancel_loop) s)" "lc_inv (upd_ac a tick_start s)"
    "lc_inv (upd_ac a tick_end s)" "lc_inv (upd_ac a loop_leave s)"
  using assms by (auto intro!: lc_inv_upd simp: lc_defs)

lemma lc_inv_pulse [intro]: "lc_inv s \<Longrightarrow> lc_inv (upd_ac a pulse_leave s)"
  by (erule lc_inv_upd, case_tac "ac_phase k") (simp_all add: lc_defs)

lemma lc_inv_stopping:
  "lc_inv s \<Longrightarrow> lc_inv (s\<lparr>lc_stopping := None\<rparr>)"
  "lc_inv s \<Longrightarrow> lc_run s = Some a \<Longrightarrow> lc_inv (s\<lparr>lc_stopping := Some a\<rparr>)"
  by (auto simp: lc_inv_def split: option.splits)

lemma lc_inv_Start: "lc_inv s \<Longrightarrow> Start_lc cfg wi s = Some (e, t) \<Longrightarrow> lc_inv t"
  by (auto simp: Start_lc_def lc_inv_def nth_append working_def ac_ok_def
      split: option.splits if_splits)

lemma lc_inv_Finish:
  assumes "lc_inv s" shows "lc_inv (finishActivation a s)"
proof (cases "a < length (lc_heap s) \<and> ac_phase (lc_heap s ! a) = LoopLeft \<and>
    \<not> ac_pulse (lc_heap s ! a)")
  case True
  then have "lc_run s = Some a" using lc_invD(2) [OF assms, of a] by (simp add: working_def)
  with True assms show ?thesis
    by (auto simp: finishActivation_def upd_ac_def lc_inv_def nth_list_update working_def ac_ok_def
        split: option.splits)
next
  case False with assms show ?thesis by (auto simp: finishActivation_def)
qed

lemma lc_inv_Close:
  assumes "lc_inv s" shows "\<exists>t. close_done a s = Some t \<and> lc_inv t"
proof (cases "a < length (lc_heap s) \<and> ac_phase (lc_heap s ! a) = Cleared")
  case True
  then have ok: "ac_ok (lc_heap s ! a)" "lc_run s \<noteq> Some a"
    using lc_invD(1,2) [OF assms, of a] by (auto simp: working_def ac_ok_def)
  with True assms show ?thesis
    by (auto simp: close_done_def upd_ac_def lc_inv_def nth_list_update working_def ac_ok_def
        split: option.splits)
next
  case False with assms show ?thesis by (auto simp: close_done_def)
qed

lemma lc_inv_exec: "lc_inv s \<Longrightarrow> \<exists>t. lc_exec x s = Some t \<and> lc_inv t"
proof (cases x)
  case (OpClose a) moreover assume "lc_inv s"
  ultimately show ?thesis using lc_inv_Close by simp
qed (auto simp: stop_begin_def stop_done_def stop_timeout_def Abort_lc_def
    intro: lc_inv_Start lc_inv_Finish lc_inv_stopping split: option.splits)

interpretation lifecycle: safe_component lc_init lc_exec lc_inv
  by unfold_locales (rule lc_inv_exec | simp add: lc_inv_def lc_init_def)+

lemma at_most_one_working:
  assumes "lc_inv s" shows "length (filter working (lc_heap s)) \<le> 1"
proof -
  have "{i. i < length (lc_heap s) \<and> working (lc_heap s ! i)} \<subseteq> set_option (lc_run s)"
    using lc_invD(2) [OF assms] by auto
  then have "card {i. i < length (lc_heap s) \<and> working (lc_heap s ! i)} \<le> card (set_option (lc_run s))"
    by (intro card_mono) auto
  also have "\<dots> \<le> 1" by (cases "lc_run s") auto
  finally show ?thesis by (simp add: length_filter_conv_card)
qed

lemma stopped_is_idle:
  assumes "lc_inv s" "lc_stopping s = Some a" "ac_done (lc_heap s ! a)"
  shows "\<not> list_ex working (lc_heap s)"
proof -
  have "a < length (lc_heap s)" using assms by (auto dest: lc_invD(4))
  with assms(3) have "\<not> working (lc_heap s ! a)"
    using lc_invD(1) [OF assms(1), of a] by (auto simp: ac_ok_def working_def)
  then have "lc_run s \<noteq> Some a" using lc_invD(2) [OF assms(1)] \<open>a < _\<close> by blast
  then have "lc_run s = None" using assms(1,2) by (auto simp: lc_inv_def split: option.splits)
  then show ?thesis using lc_invD(2) [OF assms(1)] by (auto simp: list_ex_iff in_set_conv_nth)
qed

text \<open>C33. However starts, stops, aborts and the goroutines interleave, no step panics, at most one
  activation ever works, and when a stop sees its activation ended nothing works any more: a start
  can never overlap the activation before it.\<close>

theorem one_activation_at_a_time:
  "case run_ops lc_exec ops lc_init of
     None \<Rightarrow> False
   | Some s \<Rightarrow>
       length (filter working (lc_heap s)) \<le> 1 \<and>
       (case lc_stopping s of
          None \<Rightarrow> True
        | Some a \<Rightarrow> if ac_done (lc_heap s ! a) then \<not> list_ex working (lc_heap s) else True)"
proof -
  obtain s where s: "run_ops lc_exec ops lc_init = Some s" "lc_inv s"
    using lifecycle.run_from_init by blast
  then show ?thesis
    using at_most_one_working [OF s(2)] by (auto simp: stopped_is_idle split: option.splits)
qed

text \<open>A reconciler whose activation is still ending refuses to start; one that runs is left alone.\<close>

lemma start_answers:
  "lc_inv s \<Longrightarrow> start_config_error cfg wi = None \<Longrightarrow> lc_stopping s = None \<Longrightarrow>
   Start_lc cfg wi s =
     (case lc_run s of
        None \<Rightarrow> Some (None, s\<lparr>lc_run := Some (length (lc_heap s)),
          lc_heap := lc_heap s @ [\<lparr>ac_loopCancelled = False, ac_workCancelled = False,
            ac_phase = Waiting, ac_pulse = cf_ConfirmationFastPathEnabled cfg, ac_done = False\<rparr>]\<rparr>)
      | Some a \<Rightarrow> Some (if ac_loopCancelled (lc_heap s ! a) then Some StillStopping else None, s))"
  by (simp add: Start_lc_def)

text \<open>Defaults make a configuration acceptable unless a value was set too small.\<close>

lemma defaults_start:
  "start_config_error (withDefaults cfg) \<lparr>wi_store = True, wi_cmd = True, wi_sampler = True,
     wi_confirmationStore = True\<rparr> =
     (if 0 < cf_TickInterval cfg \<and> cf_TickInterval cfg < second then Some TickIntervalTooShort
      else if cf_CurtailDispatchTimeoutSec cfg < 0 then Some CurtailTimeoutTooShort else None)"
  by (auto simp: start_config_error_def withDefaults_def defaultTickInterval_def second_def
      defaultCurtailDispatchTimeoutSec_def)

end
