(* ===== verification/Go_Text.thy ===== *)
theory Go_Text
  imports Prelude
begin

text \<open>
  The parts of Go's standard library the services use on text: \<open>strings.TrimSpace\<close>,
  \<open>strings.Join\<close> and \<open>strings.Split\<close>, UTF-8 validity and rune counts, the unpadded URL
  alphabet of base64, and \<open>strconv.ParseInt\<close> with base 10 and 64 bits. A Go string is a
  list of bytes, here the type \<open>string\<close>.
\<close>

named_theorems text_simps

abbreviation byte :: "char \<Rightarrow> nat" where
  "byte c \<equiv> of_char c"

lemma byte_lt [simp]: "byte c < 256"
  using of_char_mod_256 [of c] by (metis mod_less_divisor zero_less_numeral)

section \<open>Trimming white space\<close>

text \<open>The UTF-8 encodings of the runes \<open>unicode.IsSpace\<close> accepts.\<close>

definition space_runes :: "string list" where
  "space_runes =
     map (\<lambda>n. [char_of n]) [9, 10, 11, 12, 13, 32 :: nat] @
     [map char_of [0xC2, 0x85 :: nat], map char_of [0xC2, 0xA0 :: nat],
      map char_of [0xE1, 0x9A, 0x80 :: nat]] @
     map (\<lambda>n. map char_of [0xE2, 0x80, n])
       ([0x80 ..< 0x8B] @ [0xA8, 0xA9, 0xAF :: nat]) @
     [map char_of [0xE2, 0x81, 0x9F :: nat], map char_of [0xE3, 0x80, 0x80 :: nat]]"

text \<open>The first of the given words the string begins with, if any.\<close>

fun strip_word :: "string \<Rightarrow> string \<Rightarrow> string option" where
  "strip_word [] s = Some s"
| "strip_word (c # w) [] = None"
| "strip_word (c # w) (d # s) = (if c = d then strip_word w s else None)"

fun strip_any :: "string list \<Rightarrow> string \<Rightarrow> string option" where
  "strip_any [] s = None"
| "strip_any (w # ws) s = (case strip_word w s of Some t \<Rightarrow> Some t | None \<Rightarrow> strip_any ws s)"

lemma strip_word_length: "strip_word w s = Some t \<Longrightarrow> length s = length w + length t"
  by (induction w s rule: strip_word.induct) (auto split: if_splits)

lemma strip_any_length:
  "strip_any ws s = Some t \<Longrightarrow> [] \<notin> set ws \<Longrightarrow> length t < length s"
proof (induction ws)
  case Nil
  then show ?case by simp
next
  case (Cons w ws)
  then show ?case
    by (cases "strip_word w s") (auto dest: strip_word_length)
qed

function trim_left :: "string list \<Rightarrow> string \<Rightarrow> string" where
  "trim_left ws s =
     (if [] \<in> set ws then s
      else case strip_any ws s of Some t \<Rightarrow> trim_left ws t | None \<Rightarrow> s)"
  by pat_completeness auto

termination trim_left
  by (relation "measure (\<lambda>(ws, s). length s)") (auto dest: strip_any_length)

declare trim_left.simps [simp del]

definition strings_TrimSpace :: "string \<Rightarrow> string" where
  "strings_TrimSpace s = rev (trim_left (map rev space_runes) (rev (trim_left space_runes s)))"

lemma trim_left_fix: "strip_any ws s = None \<Longrightarrow> trim_left ws s = s"
  by (subst trim_left.simps) simp

lemma trim_left_done: "[] \<notin> set ws \<Longrightarrow> strip_any ws (trim_left ws s) = None"
proof (induction ws s rule: trim_left.induct)
  case (1 ws s)
  then show ?case
    by (cases "strip_any ws s") (simp_all add: trim_left.simps [of ws s])
qed

lemma strip_any_None_iff: "strip_any ws s = None \<longleftrightarrow> (\<forall>w \<in> set ws. strip_word w s = None)"
  by (induction ws) (auto split: option.splits)

lemma strip_word_Some_iff: "strip_word w s = Some t \<longleftrightarrow> s = w @ t"
  by (induction w s rule: strip_word.induct) auto

lemma strip_word_None_iff: "strip_word w s = None \<longleftrightarrow> (\<forall>t. s \<noteq> w @ t)"
  by (metis not_Some_eq strip_word_Some_iff)

lemma trim_left_suffix: "\<exists>p. s = p @ trim_left ws s"
proof (induction ws s rule: trim_left.induct)
  case (1 ws s)
  show ?case
  proof (cases "[] \<in> set ws \<or> strip_any ws s = None")
    case True
    then show ?thesis by (auto simp: trim_left.simps [of ws s])
  next
    case False
    then obtain t where t: "strip_any ws s = Some t" by auto
    then have "\<exists>w. s = w @ t"
      by (induction ws) (auto simp: strip_word_Some_iff split: option.splits)
    moreover obtain p where "t = p @ trim_left ws t"
      using t False 1 by auto
    ultimately show ?thesis
      using t False by (metis append.assoc option.simps(5) trim_left.simps)
  qed
qed

text \<open>Trimming is idempotent, and its result neither begins nor ends with white space.\<close>

lemma no_empty_space [simp]: "[] \<notin> set space_runes" "[] \<notin> set (map rev space_runes)"
  by (auto simp: space_runes_def)

lemma trim_prefix_kept:
  assumes "strip_any ws s = None" "s = t @ u"
  shows "strip_any ws t = None"
  using assms by (auto simp: strip_any_None_iff strip_word_None_iff)

lemma strings_TrimSpace_clean:
  "strip_any space_runes (strings_TrimSpace s) = None \<and>
   strip_any (map rev space_runes) (rev (strings_TrimSpace s)) = None"
proof -
  let ?l = "trim_left space_runes s"
  obtain p where "rev ?l = p @ trim_left (map rev space_runes) (rev ?l)"
    using trim_left_suffix by blast
  then have "?l = strings_TrimSpace s @ rev p"
    unfolding strings_TrimSpace_def by (metis rev_append rev_rev_ident)
  moreover have "strip_any space_runes ?l = None"
    by (rule trim_left_done) simp
  ultimately have "strip_any space_runes (strings_TrimSpace s) = None"
    by (metis trim_prefix_kept)
  moreover have "strip_any (map rev space_runes) (rev (strings_TrimSpace s)) = None"
    unfolding strings_TrimSpace_def rev_rev_ident by (rule trim_left_done [OF no_empty_space(2)])
  ultimately show ?thesis ..
qed

lemma strings_TrimSpace_idem [simp]:
  "strings_TrimSpace (strings_TrimSpace s) = strings_TrimSpace s"
  using strings_TrimSpace_clean [of s]
  by (simp add: strings_TrimSpace_def [of "strings_TrimSpace s"] trim_left_fix)

section \<open>UTF-8\<close>

definition utf8_cont :: "nat \<Rightarrow> bool" where
  "utf8_cont b \<longleftrightarrow> 0x80 \<le> b \<and> b \<le> 0xBF"

text \<open>The accepted second bytes after a first byte of a longer encoding.\<close>

definition utf8_second :: "nat \<Rightarrow> nat \<Rightarrow> bool" where
  "utf8_second a b \<longleftrightarrow>
     (if a = 0xE0 then 0xA0 \<le> b \<and> b \<le> 0xBF
      else if a = 0xED then 0x80 \<le> b \<and> b \<le> 0x9F
      else if a = 0xF0 then 0x90 \<le> b \<and> b \<le> 0xBF
      else if a = 0xF4 then 0x80 \<le> b \<and> b \<le> 0x8F
      else utf8_cont b)"

text \<open>The number of runes of a valid encoding, \<open>None\<close> for an invalid one.\<close>

fun utf8_runes :: "nat list \<Rightarrow> nat option" where
  "utf8_runes [] = Some 0"
| "utf8_runes (a # xs) =
     (if a < 0x80 then map_option Suc (utf8_runes xs)
      else if a < 0xC2 then None
      else if a < 0xE0 then
        (case xs of
           b # ys \<Rightarrow> if utf8_cont b then map_option Suc (utf8_runes ys) else None
         | _ \<Rightarrow> None)
      else if a < 0xF0 then
        (case xs of
           b # c # ys \<Rightarrow>
             if utf8_second a b \<and> utf8_cont c then map_option Suc (utf8_runes ys) else None
         | _ \<Rightarrow> None)
      else if a < 0xF5 then
        (case xs of
           b # c # d # ys \<Rightarrow>
             if utf8_second a b \<and> utf8_cont c \<and> utf8_cont d
             then map_option Suc (utf8_runes ys) else None
         | _ \<Rightarrow> None)
      else None)"

definition utf8_ValidString :: "string \<Rightarrow> bool" where
  "utf8_ValidString s \<longleftrightarrow> utf8_runes (map of_char s) \<noteq> None"

text \<open>The rune count of a valid string; an invalid one is rejected before it is counted.\<close>

definition utf8_RuneCount :: "string \<Rightarrow> nat" where
  "utf8_RuneCount s = (case utf8_runes (map of_char s) of Some n \<Rightarrow> n | None \<Rightarrow> length s)"

lemma map_option_Suc_add: "map_option ((+) (Suc z)) x = map_option (\<lambda>m. Suc (z + m)) x"
  by (cases x) auto

lemma utf8_runes_append:
  "utf8_runes xs = Some n \<Longrightarrow> utf8_runes (xs @ ys) = map_option (\<lambda>m. n + m) (utf8_runes ys)"
proof (induction xs arbitrary: n rule: utf8_runes.induct)
  case 1
  then show ?case by (simp add: option.map_ident)
next
  case (2 a xs)
  then show ?case
    by (auto split: if_splits list.splits option.splits simp: option.map_comp comp_def map_option_Suc_add)
qed

lemma utf8_valid_append:
  "utf8_ValidString s \<Longrightarrow> utf8_ValidString t \<Longrightarrow> utf8_ValidString (s @ t)"
  by (auto simp: utf8_ValidString_def utf8_runes_append)

lemma utf8_valid_ascii_Cons:
  "byte c < 0x80 \<Longrightarrow> utf8_ValidString (c # s) \<longleftrightarrow> utf8_ValidString s"
  by (simp add: utf8_ValidString_def)

lemma utf8_valid_Nil [simp]: "utf8_ValidString []"
  by (simp add: utf8_ValidString_def)

lemma utf8_valid_ascii: "list_all (\<lambda>c. byte c < 0x80) s \<Longrightarrow> utf8_ValidString s"
  by (induction s) (simp_all add: utf8_valid_ascii_Cons)

section \<open>Joining and splitting at a byte\<close>

fun join_byte :: "char \<Rightarrow> string list \<Rightarrow> string" where
  "join_byte c [] = []"
| "join_byte c [p] = p"
| "join_byte c (p # ps) = p @ c # join_byte c ps"

fun split_byte :: "char \<Rightarrow> string \<Rightarrow> string list" where
  "split_byte c [] = [[]]"
| "split_byte c (x # xs) =
     (if x = c then [] # split_byte c xs
      else case split_byte c xs of p # ps \<Rightarrow> (x # p) # ps | [] \<Rightarrow> [[x]])"

lemma split_byte_nonempty [simp]: "split_byte c s \<noteq> []"
  by (induction s) (auto split: list.splits)

lemma split_byte_part: "c \<notin> set p \<Longrightarrow> split_byte c p = [p]"
  by (induction p) auto

lemma split_byte_append:
  "c \<notin> set p \<Longrightarrow> split_byte c (p @ c # s) = p # split_byte c s"
  by (induction p) auto

lemma split_join:
  "ps \<noteq> [] \<Longrightarrow> (\<And>p. p \<in> set ps \<Longrightarrow> c \<notin> set p) \<Longrightarrow> split_byte c (join_byte c ps) = ps"
  by (induction c ps rule: join_byte.induct) (auto simp: split_byte_part split_byte_append)

lemma utf8_valid_join:
  "byte c < 0x80 \<Longrightarrow> (\<And>p. p \<in> set ps \<Longrightarrow> utf8_ValidString p) \<Longrightarrow>
    utf8_ValidString (join_byte c ps)"
  by (induction c ps rule: join_byte.induct) (auto intro!: utf8_valid_append simp: utf8_valid_ascii_Cons)

section \<open>Base64, URL alphabet, no padding\<close>

definition b64_alphabet :: string where
  "b64_alphabet = ''ABCDEFGHIJKLMNOPQRSTUVWXYZabcdefghijklmnopqrstuvwxyz0123456789-_''"

definition b64_char :: "nat \<Rightarrow> char" where
  "b64_char n = b64_alphabet ! n"

fun index_of :: "'a \<Rightarrow> 'a list \<Rightarrow> nat option" where
  "index_of x [] = None"
| "index_of x (y # ys) = (if x = y then Some 0 else map_option Suc (index_of x ys))"

definition b64_value :: "char \<Rightarrow> nat option" where
  "b64_value c = index_of c b64_alphabet"

fun b64_encode :: "nat list \<Rightarrow> nat list" where
  "b64_encode [] = []"
| "b64_encode [a] = [a div 4, a mod 4 * 16]"
| "b64_encode [a, b] = [a div 4, a mod 4 * 16 + b div 16, b mod 16 * 4]"
| "b64_encode (a # b # c # xs) =
     a div 4 # (a mod 4 * 16 + b div 16) # (b mod 16 * 4 + c div 64) # c mod 64 # b64_encode xs"

fun b64_decode :: "nat list \<Rightarrow> nat list option" where
  "b64_decode [] = Some []"
| "b64_decode [p] = None"
| "b64_decode [p, q] = Some [p * 4 + q div 16]"
| "b64_decode [p, q, r] = Some [p * 4 + q div 16, q mod 16 * 16 + r div 4]"
| "b64_decode (p # q # r # s # xs) =
     map_option (\<lambda>ys. (p * 4 + q div 16) # (q mod 16 * 16 + r div 4) # (r mod 4 * 64 + s) # ys)
       (b64_decode xs)"

text \<open>\<open>RawURLEncoding.EncodeToString\<close>\<close>

definition RawURLEncode :: "string \<Rightarrow> string" where
  "RawURLEncode s = map b64_char (b64_encode (map of_char s))"

text \<open>\<open>RawURLEncoding.DecodeString\<close>: line ends are skipped, any other stray byte is an error.\<close>

definition RawURLDecode :: "string \<Rightarrow> string option" where
  "RawURLDecode s =
     (case those (map b64_value (filter (\<lambda>c. c \<noteq> CHR 0x0A \<and> c \<noteq> CHR 0x0D) s)) of
        None \<Rightarrow> None
      | Some ns \<Rightarrow> map_option (map char_of) (b64_decode ns))"

lemma split_radix:
  fixes x y m :: nat
  assumes "y < m"
  shows "(x * m + y) div m = x" "(x * m + y) mod m = y"
  using assms by simp_all

lemma byte_parts:
  fixes a :: nat
  assumes "a < 256"
  shows "a div 16 < 16" "a div 64 < 4" "a div 4 < 64"
  using assms by simp_all

lemmas radix = split_radix [where m = 16] split_radix [where m = 4] split_radix [where m = 64]

lemma b64_round_trip: "(\<And>x. x \<in> set xs \<Longrightarrow> x < 256) \<Longrightarrow> b64_decode (b64_encode xs) = Some xs"
proof (induction xs rule: b64_encode.induct)
  case (4 a b c xs)
  then have "b < 256" "c < 256" "b64_decode (b64_encode xs) = Some xs" by auto
  then show ?case by (simp add: radix byte_parts)
next
  case (3 a b)
  then have "b < 256" by auto
  then show ?case by (simp add: radix byte_parts)
qed simp_all

lemma b64_digit_range:
  fixes a b :: nat
  assumes "b < 256"
  shows "a mod 4 * 16 + b div 16 < 64" "a mod 16 * 4 + b div 64 < 64"
proof -
  have "a mod 4 < 4" "a mod 16 < 16" by simp_all
  with byte_parts [OF assms] show "a mod 4 * 16 + b div 16 < 64" "a mod 16 * 4 + b div 64 < 64"
    by linarith+
qed

lemma b64_encode_range:
  "(\<And>x. x \<in> set xs \<Longrightarrow> x < 256) \<Longrightarrow> y \<in> set (b64_encode xs) \<Longrightarrow> y < 64"
proof (induction xs rule: b64_encode.induct)
  case (4 a b c xs)
  then have "a < 256" "b < 256" "c < 256" by auto
  with 4 show ?case by (auto simp: byte_parts b64_digit_range)
next
  case (3 a b)
  then have "a < 256" "b < 256" by auto
  with 3 show ?case using b64_digit_range(2) [of 0 b] by (auto simp: byte_parts b64_digit_range)
next
  case (2 a)
  then have "a < 256" by auto
  with 2 show ?case using b64_digit_range(1) [of 0 a] by (auto simp: byte_parts)
qed simp

lemma b64_char_value_all:
  "list_all (\<lambda>n. b64_value (b64_char n) = Some n \<and> b64_char n \<noteq> CHR 0x0A \<and> b64_char n \<noteq> CHR 0x0D)
     [0..<64]"
  by code_simp

lemma b64_char_value:
  "n < 64 \<Longrightarrow> b64_value (b64_char n) = Some n \<and> b64_char n \<noteq> CHR 0x0A \<and> b64_char n \<noteq> CHR 0x0D"
  using b64_char_value_all by (simp add: list_all_iff)

lemma those_map_Some: "(\<And>x. x \<in> set xs \<Longrightarrow> f x = Some (g x)) \<Longrightarrow> those (map f xs) = Some (map g xs)"
  by (induction xs) auto

lemma RawURL_round_trip: "RawURLDecode (RawURLEncode s) = Some s"
proof -
  let ?ns = "b64_encode (map of_char s) :: nat list"
  have r: "n < 64" if "n \<in> set ?ns" for n
    using that by (rule b64_encode_range [rotated]) auto
  have "filter (\<lambda>c. c \<noteq> CHR 0x0A \<and> c \<noteq> CHR 0x0D) (map b64_char ?ns) = map b64_char ?ns"
    using r b64_char_value by (auto simp: filter_id_conv)
  moreover have "those (map b64_value (map b64_char ?ns)) = Some ?ns"
    using those_map_Some [of ?ns "b64_value \<circ> b64_char" id] r b64_char_value by simp
  moreover have "b64_decode ?ns = Some (map of_char s)"
    by (rule b64_round_trip) auto
  ultimately show ?thesis
    by (simp add: RawURLDecode_def RawURLEncode_def comp_def)
qed

section \<open>Decimal integers\<close>

definition digit_value :: "char \<Rightarrow> nat option" where
  "digit_value c = (if 48 \<le> byte c \<and> byte c \<le> 57 then Some (byte c - 48) else None)"

fun parse_digits :: "nat \<Rightarrow> string \<Rightarrow> nat option" where
  "parse_digits acc [] = Some acc"
| "parse_digits acc (c # cs) =
     (case digit_value c of None \<Rightarrow> None | Some d \<Rightarrow> parse_digits (acc * 10 + d) cs)"

text \<open>\<open>strconv.ParseInt(s, 10, 64)\<close>; \<open>None\<close> is a syntax or a range error.\<close>

definition ParseInt64 :: "string \<Rightarrow> int option" where
  "ParseInt64 s =
     (let neg = (case s of c # _ \<Rightarrow> c = CHR ''-'' | [] \<Rightarrow> False);
          body = (case s of c # cs \<Rightarrow> if c = CHR ''-'' \<or> c = CHR ''+'' then cs else s | [] \<Rightarrow> s)
      in if body = [] then None
         else case parse_digits 0 body of
           None \<Rightarrow> None
         | Some n \<Rightarrow>
             if neg then (if 2 ^ 63 < n then None else Some (- int n))
             else if 2 ^ 63 \<le> n then None else Some (int n))"

lemma parse_digits_append:
  "parse_digits acc (s @ t) = Option.bind (parse_digits acc s) (\<lambda>a. parse_digits a t)"
  by (induction s arbitrary: acc) (auto split: option.splits)

lemma digit_value_char [simp]: "d < 10 \<Longrightarrow> digit_value (digit_char d) = Some d"
  by (simp add: digit_value_def digit_char_def)

lemma parse_show_nat: "parse_digits 0 (show_nat n) = Some n"
proof (induction n rule: show_nat.induct)
  case (1 n)
  show ?case
  proof (cases "n < 10")
    case True
    then show ?thesis by (subst show_nat.simps) simp
  next
    case False
    with 1 show ?thesis
      by (subst show_nat.simps) (simp add: parse_digits_append)
  qed
qed

lemma show_nat_digits: "c \<in> set (show_nat n) \<Longrightarrow> 48 \<le> byte c \<and> byte c \<le> 57"
proof (induction n rule: show_nat.induct)
  case (1 n)
  show ?case
  proof (cases "n < 10")
    case True
    with 1(2) show ?thesis by (subst (asm) show_nat.simps) (auto simp: digit_char_def)
  next
    case False
    have "48 \<le> byte (digit_char (n mod 10)) \<and> byte (digit_char (n mod 10)) \<le> 57"
      by (auto simp: digit_char_def)
    with 1 False show ?thesis by (subst (asm) (2) show_nat.simps) auto
  qed
qed

lemma show_nat_nonempty [simp]: "show_nat n \<noteq> []"
  by (subst show_nat.simps) simp

lemma ParseInt_show:
  assumes "- (2 ^ 63) \<le> z" "z < 2 ^ 63"
  shows "ParseInt64 (show_int z) = Some z"
proof (cases "z < 0")
  case True
  with assms show ?thesis
    by (auto simp: show_int_def ParseInt64_def parse_show_nat Let_def)
next
  case False
  obtain c cs where s: "show_nat (nat z) = c # cs"
    by (cases "show_nat (nat z)") auto
  have "c \<noteq> CHR ''-''" "c \<noteq> CHR ''+''"
    using show_nat_digits [of c "nat z"] s by (auto)
  moreover have "parse_digits 0 (c # cs) = Some (nat z)"
    using parse_show_nat [of "nat z"] s by metis
  ultimately show ?thesis
    using False assms by (auto simp: show_int_def ParseInt64_def Let_def s simp del: parse_digits.simps)
qed

lemma show_int_ascii: "c \<in> set (show_int z) \<Longrightarrow> byte c < 0x80 \<and> c \<noteq> CHR 0x00"
  using show_nat_digits [of c] by (force simp: show_int_def split: if_splits)

lemma show_int_valid: "utf8_ValidString (show_int z)"
  by (rule utf8_valid_ascii) (auto simp: list_all_iff dest: show_int_ascii)

end
