(* ===== verification/Rollout_Behavior.thy ===== *)
theory Rollout_Behavior
  imports Go_Text Go_Float Go_Sort
begin

text \<open>
  What an operator sets on a release channel (\<open>rollout/behavior.go\<close>): the scope of miners and
  its stored selectors, the limits a reviewed batch has to meet, the pacing behavior and its
  validation, and the manufacturer and model key of an assignment.

  A nullable column (\<open>sql.NullFloat64\<close>, \<open>sql.NullInt32\<close>) is an \<open>option\<close>, as is the pointer the
  code copies it into. Text is a string of bytes.
\<close>

section \<open>Scope\<close>

record Scope =
  sc_SiteIDs :: "int list"
  sc_BuildingIDs :: "int list"
  sc_RackIDs :: "int list"
  sc_GroupIDs :: "int list"
  sc_DeviceIdentifiers :: "string list"

definition empty_scope :: Scope where
  "empty_scope = \<lparr>sc_SiteIDs = [], sc_BuildingIDs = [], sc_RackIDs = [], sc_GroupIDs = [],
     sc_DeviceIdentifiers = []\<rparr>"

definition scope_IsEmpty :: "Scope \<Rightarrow> bool" where
  "scope_IsEmpty s \<longleftrightarrow>
     length (sc_SiteIDs s) + length (sc_BuildingIDs s) + length (sc_RackIDs s) +
     length (sc_GroupIDs s) + length (sc_DeviceIdentifiers s) = 0"

text \<open>The loop of \<open>uniquePositive\<close> and \<open>uniqueNonEmpty\<close>: what \<open>drop\<close> refuses or was seen is left out.\<close>

fun unique_keep :: "('a \<Rightarrow> bool) \<Rightarrow> 'a list \<Rightarrow> 'a list \<Rightarrow> 'a list" where
  "unique_keep skip out [] = out"
| "unique_keep skip out (v # vs) =
     (if skip v \<or> v \<in> set out then unique_keep skip out vs
      else unique_keep skip (out @ [v]) vs)"

definition uniquePositive :: "int list \<Rightarrow> int list" where
  "uniquePositive ids = sort (unique_keep (\<lambda>n. n \<le> 0) [] ids)"

definition uniqueNonEmpty :: "string list \<Rightarrow> string list" where
  "uniqueNonEmpty vs = sort (unique_keep (\<lambda>v. v = []) [] vs)"

definition scope_normalize :: "Scope \<Rightarrow> Scope" where
  "scope_normalize s =
     \<lparr>sc_SiteIDs = uniquePositive (sc_SiteIDs s),
      sc_BuildingIDs = uniquePositive (sc_BuildingIDs s),
      sc_RackIDs = uniquePositive (sc_RackIDs s),
      sc_GroupIDs = uniquePositive (sc_GroupIDs s),
      sc_DeviceIdentifiers = uniqueNonEmpty (sc_DeviceIdentifiers s)\<rparr>"

abbreviation "TargetTypeSite \<equiv> ''site''"
abbreviation "TargetTypeBuilding \<equiv> ''building''"
abbreviation "TargetTypeRack \<equiv> ''rack''"
abbreviation "TargetTypeGroup \<equiv> ''group''"
abbreviation "TargetTypeMiner \<equiv> ''miner''"

text \<open>The parallel arrays of types and identifiers, as a list of pairs.\<close>

definition scope_targets :: "Scope \<Rightarrow> (string \<times> int) list" where
  "scope_targets s =
     map (Pair TargetTypeSite) (sc_SiteIDs s) @ map (Pair TargetTypeBuilding) (sc_BuildingIDs s) @
     map (Pair TargetTypeRack) (sc_RackIDs s) @ map (Pair TargetTypeGroup) (sc_GroupIDs s)"

record scope_target_row =
  tr_TargetType :: string
  tr_TargetID :: int
  tr_DeviceIdentifier :: string

definition add_target :: "Scope \<Rightarrow> scope_target_row \<Rightarrow> Scope" where
  "add_target s t =
     (if tr_TargetType t = TargetTypeSite then s\<lparr>sc_SiteIDs := sc_SiteIDs s @ [tr_TargetID t]\<rparr>
      else if tr_TargetType t = TargetTypeBuilding
        then s\<lparr>sc_BuildingIDs := sc_BuildingIDs s @ [tr_TargetID t]\<rparr>
      else if tr_TargetType t = TargetTypeRack then s\<lparr>sc_RackIDs := sc_RackIDs s @ [tr_TargetID t]\<rparr>
      else if tr_TargetType t = TargetTypeGroup
        then s\<lparr>sc_GroupIDs := sc_GroupIDs s @ [tr_TargetID t]\<rparr>
      else if tr_TargetType t = TargetTypeMiner \<and> tr_DeviceIdentifier t \<noteq> []
        then s\<lparr>sc_DeviceIdentifiers := sc_DeviceIdentifiers s @ [tr_DeviceIdentifier t]\<rparr>
      else s)"

definition scopeFromTargets :: "scope_target_row list \<Rightarrow> Scope" where
  "scopeFromTargets rows = foldl add_target empty_scope rows"

text \<open>
  The rows \<open>replaceTargets\<close> stores for a scope. The page query returns them ordered by type and
  identifier under the collation of the database; no claim below depends on that order.
\<close>

definition stored_rows :: "Scope \<Rightarrow> scope_target_row list" where
  "stored_rows s =
     (let placed = map (\<lambda>(k, i). \<lparr>tr_TargetType = k, tr_TargetID = i, tr_DeviceIdentifier = []\<rparr>)
            (scope_targets s);
          miners = map (\<lambda>d. \<lparr>tr_TargetType = TargetTypeMiner, tr_TargetID = 0, tr_DeviceIdentifier = d\<rparr>)
            (sc_DeviceIdentifiers s)
      in placed @ miners)"

section \<open>Thresholds and behavior\<close>

record Thresholds =
  th_MaxHashrateDropPercent :: "f64 option"
  th_MaxEfficiencyIncreasePercent :: "f64 option"
  th_MaxTempIncreaseC :: "f64 option"
  th_MaxNewErrors :: "int option"
  th_MinSampleCoveragePercent :: "f64 option"

definition no_thresholds :: Thresholds where
  "no_thresholds = \<lparr>th_MaxHashrateDropPercent = None, th_MaxEfficiencyIncreasePercent = None,
     th_MaxTempIncreaseC = None, th_MaxNewErrors = None, th_MinSampleCoveragePercent = None\<rparr>"

definition coverage :: "Thresholds \<Rightarrow> f64" where
  "coverage t =
     (case th_MinSampleCoveragePercent t of None \<Rightarrow> Fin 1 | Some p \<Rightarrow> fl_unscale p 100)"

definition hasSampledLimit :: "Thresholds \<Rightarrow> bool" where
  "hasSampledLimit t \<longleftrightarrow>
     th_MaxHashrateDropPercent t \<noteq> None \<or> th_MaxEfficiencyIncreasePercent t \<noteq> None \<or>
     th_MaxTempIncreaseC t \<noteq> None"

record Behavior =
  b_Method :: string
  b_Order :: string
  b_BatchSize :: int
  b_PilotSize :: int
  b_WaitBetweenBatchesSeconds :: int
  b_ReviewAfterEachBatch :: bool
  b_AutoContinue :: bool
  b_StabilizationSeconds :: int
  b_Thresholds :: Thresholds
  b_MaxConcurrentOffline :: int
  b_ControllerTimeoutSeconds :: int

abbreviation "MethodAllAtOnce \<equiv> ''all_at_once''"
abbreviation "MethodBatched \<equiv> ''batched''"
abbreviation "MethodPilotThenContinue \<equiv> ''pilot_then_continue''"
abbreviation "MethodDelegated \<equiv> ''delegated''"
abbreviation "OrderLeastEfficientFirst \<equiv> ''least_efficient_first''"
abbreviation "OrderRandom \<equiv> ''random''"

definition allAtOnce :: Behavior where
  "allAtOnce = \<lparr>b_Method = MethodAllAtOnce, b_Order = OrderLeastEfficientFirst, b_BatchSize = 0,
     b_PilotSize = 0, b_WaitBetweenBatchesSeconds = 0, b_ReviewAfterEachBatch = False,
     b_AutoContinue = False, b_StabilizationSeconds = 0, b_Thresholds = no_thresholds,
     b_MaxConcurrentOffline = 0, b_ControllerTimeoutSeconds = 0\<rparr>"

definition gatesAfterBatch :: "Behavior \<Rightarrow> bool" where
  "gatesAfterBatch b \<longleftrightarrow> b_Method b = MethodPilotThenContinue \<or> b_ReviewAfterEachBatch b"

section \<open>Validation\<close>

definition behavior_defaults :: "Behavior \<Rightarrow> Behavior" where
  "behavior_defaults b =
     (let b = (if b_Method b = [] then b\<lparr>b_Method := MethodAllAtOnce\<rparr> else b)
      in if b_Order b = [] then b\<lparr>b_Order := OrderLeastEfficientFirst\<rparr> else b)"

text \<open>The switch on the method: what each method requires, and the settings it clears.\<close>

definition validate_method :: "Behavior \<Rightarrow> fleet_error + Behavior" where
  "validate_method b =
     (if b_Method b = MethodAllAtOnce then
        Inr (b\<lparr>b_BatchSize := 0, b_PilotSize := 0, b_WaitBetweenBatchesSeconds := 0,
          b_ReviewAfterEachBatch := False, b_AutoContinue := False, b_StabilizationSeconds := 0,
          b_Thresholds := no_thresholds\<rparr>)
      else if b_Method b = MethodBatched then
        (if b_BatchSize b < 1
         then Inl (NewInvalidArgumentError ''batched updates need a batch size of at least 1'')
         else let b = b\<lparr>b_PilotSize := 0\<rparr>
              in Inr (if b_ReviewAfterEachBatch b then b\<lparr>b_WaitBetweenBatchesSeconds := 0\<rparr> else b))
      else if b_Method b = MethodPilotThenContinue then
        (if b_PilotSize b < 1
         then Inl (NewInvalidArgumentError ''pilot updates need a pilot batch size of at least 1'')
         else Inr (b\<lparr>b_BatchSize := 0, b_WaitBetweenBatchesSeconds := 0,
           b_ReviewAfterEachBatch := True\<rparr>))
      else if b_Method b = MethodDelegated then
        (if b_BatchSize b \<noteq> 0 \<or> b_PilotSize b \<noteq> 0 \<or> b_WaitBetweenBatchesSeconds b \<noteq> 0 \<or>
            b_ReviewAfterEachBatch b \<or> b_AutoContinue b \<or> b_StabilizationSeconds b \<noteq> 0 \<or>
            b_Thresholds b \<noteq> no_thresholds
         then Inl (NewInvalidArgumentError
           ''delegated rollouts cannot configure engine pacing or telemetry gates'')
         else Inr b)
      else Inl (NewInvalidArgumentError (''unknown rollout method '' @ b_Method b)))"

text \<open>The settings that have no effect are reset before the ranges are checked.\<close>

definition clear_unused :: "Behavior \<Rightarrow> Behavior" where
  "clear_unused b =
     (let b = (if b_Method b \<noteq> MethodDelegated then b\<lparr>b_ControllerTimeoutSeconds := 0\<rparr> else b)
      in if \<not> gatesAfterBatch b
         then b\<lparr>b_AutoContinue := False, b_StabilizationSeconds := 0, b_Thresholds := no_thresholds\<rparr>
         else b)"

definition set_and :: "'a option \<Rightarrow> ('a \<Rightarrow> bool) \<Rightarrow> bool" where
  "set_and x P \<longleftrightarrow> (case x of None \<Rightarrow> False | Some v \<Rightarrow> P v)"

definition validate_thresholds :: "Thresholds \<Rightarrow> fleet_error option" where
  "validate_thresholds t =
     (if set_and (th_MaxHashrateDropPercent t) (\<lambda>v. fl_less v (Fin 0) \<or> fl_less (Fin 100) v)
      then Some (NewInvalidArgumentError ''max hashrate drop must be between 0 and 100 percent'')
      else if set_and (th_MaxEfficiencyIncreasePercent t) (\<lambda>v. fl_less v (Fin 0))
      then Some (NewInvalidArgumentError ''max efficiency increase must not be negative'')
      else if set_and (th_MaxTempIncreaseC t) (\<lambda>v. fl_less v (Fin 0))
      then Some (NewInvalidArgumentError ''max temperature increase must not be negative'')
      else if set_and (th_MaxNewErrors t) (\<lambda>v. v < 0)
      then Some (NewInvalidArgumentError ''max new errors must not be negative'')
      else if set_and (th_MinSampleCoveragePercent t) (\<lambda>v. fl_le v (Fin 0) \<or> fl_less (Fin 100) v)
      then Some (NewInvalidArgumentError
        ''min sample coverage must be above 0 and at most 100 percent'')
      else if th_MinSampleCoveragePercent t \<noteq> None \<and> \<not> hasSampledLimit t
      then Some (NewInvalidArgumentError
        ''min sample coverage applies only with a hashrate, efficiency or temperature limit'')
      else None)"

text \<open>\<open>validate\<close> changes the behavior in place; on success the result is the changed behavior.\<close>

definition behavior_validate :: "Behavior \<Rightarrow> fleet_error + Behavior" where
  "behavior_validate b =
     (let b = behavior_defaults b in
      if b_Order b \<noteq> OrderLeastEfficientFirst \<and> b_Order b \<noteq> OrderRandom
      then Inl (NewInvalidArgumentError (''unknown rollout order '' @ b_Order b))
      else case validate_method b of
        Inl e \<Rightarrow> Inl e
      | Inr b \<Rightarrow>
          let b = clear_unused b in
          if b_WaitBetweenBatchesSeconds b < 0 \<or> b_StabilizationSeconds b < 0 \<or>
             b_MaxConcurrentOffline b < 0 \<or> b_ControllerTimeoutSeconds b < 0
          then Inl (NewInvalidArgumentError ''durations and limits must not be negative'')
          else case validate_thresholds (b_Thresholds b) of
            Some e \<Rightarrow> Inl e
          | None \<Rightarrow> Inr b)"

section \<open>Rows\<close>

record RolloutBehaviorSnapshot =
  bs_Method :: string
  bs_OrderBy :: string
  bs_BatchSize :: int
  bs_PilotSize :: int
  bs_WaitBetweenBatchesSeconds :: int
  bs_ReviewAfterEachBatch :: bool
  bs_AutoContinue :: bool
  bs_StabilizationSeconds :: int
  bs_MaxHashrateDropPercent :: "f64 option"
  bs_MaxEfficiencyIncreasePercent :: "f64 option"
  bs_MaxTempIncreaseC :: "f64 option"
  bs_MaxNewErrors :: "int option"
  bs_MinSampleCoveragePercent :: "f64 option"
  bs_MaxConcurrentOffline :: int
  bs_ControllerTimeoutSeconds :: int

text \<open>The columns of a channel that carry its behavior are the snapshot's, beside its identity.\<close>

record ReleaseChannel = RolloutBehaviorSnapshot +
  ch_ID :: int
  ch_OrgID :: int
  ch_Name :: string
  ch_Description :: string

definition behaviorFrom :: "'a RolloutBehaviorSnapshot_scheme \<Rightarrow> Behavior" where
  "behaviorFrom c =
     \<lparr>b_Method = bs_Method c, b_Order = bs_OrderBy c, b_BatchSize = bs_BatchSize c,
      b_PilotSize = bs_PilotSize c, b_WaitBetweenBatchesSeconds = bs_WaitBetweenBatchesSeconds c,
      b_ReviewAfterEachBatch = bs_ReviewAfterEachBatch c, b_AutoContinue = bs_AutoContinue c,
      b_StabilizationSeconds = bs_StabilizationSeconds c,
      b_Thresholds = \<lparr>th_MaxHashrateDropPercent = bs_MaxHashrateDropPercent c,
        th_MaxEfficiencyIncreasePercent = bs_MaxEfficiencyIncreasePercent c,
        th_MaxTempIncreaseC = bs_MaxTempIncreaseC c, th_MaxNewErrors = bs_MaxNewErrors c,
        th_MinSampleCoveragePercent = bs_MinSampleCoveragePercent c\<rparr>,
      b_MaxConcurrentOffline = bs_MaxConcurrentOffline c,
      b_ControllerTimeoutSeconds = bs_ControllerTimeoutSeconds c\<rparr>"

definition behavior_snapshot :: "Behavior \<Rightarrow> RolloutBehaviorSnapshot" where
  "behavior_snapshot b =
     \<lparr>bs_Method = b_Method b, bs_OrderBy = b_Order b, bs_BatchSize = b_BatchSize b,
      bs_PilotSize = b_PilotSize b, bs_WaitBetweenBatchesSeconds = b_WaitBetweenBatchesSeconds b,
      bs_ReviewAfterEachBatch = b_ReviewAfterEachBatch b, bs_AutoContinue = b_AutoContinue b,
      bs_StabilizationSeconds = b_StabilizationSeconds b,
      bs_MaxHashrateDropPercent = th_MaxHashrateDropPercent (b_Thresholds b),
      bs_MaxEfficiencyIncreasePercent = th_MaxEfficiencyIncreasePercent (b_Thresholds b),
      bs_MaxTempIncreaseC = th_MaxTempIncreaseC (b_Thresholds b),
      bs_MaxNewErrors = th_MaxNewErrors (b_Thresholds b),
      bs_MinSampleCoveragePercent = th_MinSampleCoveragePercent (b_Thresholds b),
      bs_MaxConcurrentOffline = b_MaxConcurrentOffline b,
      bs_ControllerTimeoutSeconds = b_ControllerTimeoutSeconds b\<rparr>"

section \<open>The key of an assignment\<close>

record PairKey =
  pk_Manufacturer :: string
  pk_Model :: string

text \<open>Every byte is printable, or a space that is neither first nor last.\<close>

definition printable_at :: "string \<Rightarrow> nat \<Rightarrow> bool" where
  "printable_at v i \<longleftrightarrow>
     (let c = byte (v ! i)
      in (33 \<le> c \<and> c \<le> 126) \<or> (c = 32 \<and> 0 < i \<and> i < length v - 1))"

definition check_key_part :: "string \<Rightarrow> string \<Rightarrow> fleet_error option" where
  "check_key_part name v =
     (if v = [] then Some (NewInvalidArgumentError (name @ '' is required''))
      else if list_all (printable_at v) [0 ..< length v] then None
      else Some (NewInvalidArgumentError
        (name @ '' must be printable ASCII without surrounding spaces'')))"

text \<open>
  The two parts are checked in the order of a range over a map, which Go leaves open; the
  model checks the manufacturer first. Which error is returned when both parts are
  bad is the only thing that depends on it.
\<close>

definition normalizePairKey :: "string \<Rightarrow> string \<Rightarrow> fleet_error + PairKey" where
  "normalizePairKey manufacturer model =
     (let k = \<lparr>pk_Manufacturer = strings_TrimSpace manufacturer, pk_Model = strings_TrimSpace model\<rparr>
      in case check_key_part ''manufacturer'' (pk_Manufacturer k) of
           Some e \<Rightarrow> Inl e
         | None \<Rightarrow> (case check_key_part ''model'' (pk_Model k) of Some e \<Rightarrow> Inl e | None \<Rightarrow> Inr k))"

definition fold_byte :: "char \<Rightarrow> char" where
  "fold_byte c = (if 65 \<le> byte c \<and> byte c \<le> 90 then char_of (byte c + 32) else c)"

definition fold_text :: "string \<Rightarrow> string" where
  "fold_text v = map fold_byte v"

definition matchesObserved :: "PairKey \<Rightarrow> string \<Rightarrow> string \<Rightarrow> bool" where
  "matchesObserved k manufacturer model \<longleftrightarrow>
     fold_text (strings_TrimSpace manufacturer) = fold_text (pk_Manufacturer k) \<and>
     fold_text (strings_TrimSpace model) = fold_text (pk_Model k)"

definition folded :: "PairKey \<Rightarrow> PairKey" where
  "folded k = \<lparr>pk_Manufacturer = fold_text (pk_Manufacturer k), pk_Model = fold_text (pk_Model k)\<rparr>"

section \<open>Scopes: canonical form and storage\<close>

lemma unique_loop_spec:
  "distinct out \<Longrightarrow> (\<forall>v \<in> set out. \<not> skip v) \<Longrightarrow>
    distinct (unique_keep skip out vs) \<and>
    set (unique_keep skip out vs) = set out \<union> {v \<in> set vs. \<not> skip v}"
  by (induction skip out vs rule: unique_keep.induct) auto

lemma unique_loop_facts:
  "distinct (unique_keep skip [] vs)" "set (unique_keep skip [] vs) = {v \<in> set vs. \<not> skip v}"
  using unique_loop_spec [of "[]" skip vs] by auto

lemma unique_keep_id:
  "distinct (out @ vs) \<Longrightarrow> (\<forall>v \<in> set vs. \<not> skip v) \<Longrightarrow> unique_keep skip out vs = out @ vs"
  by (induction skip out vs rule: unique_keep.induct) auto

definition canonical_list :: "('a::linorder \<Rightarrow> bool) \<Rightarrow> 'a list \<Rightarrow> bool" where
  "canonical_list skip vs \<longleftrightarrow> sorted vs \<and> distinct vs \<and> list_all (\<lambda>v. \<not> skip v) vs"

lemma canonical_unique: "canonical_list skip (sort (unique_keep skip [] vs))"
  by (auto simp: canonical_list_def unique_loop_facts list_all_iff)

lemma unique_canonical: "canonical_list skip vs \<Longrightarrow> sort (unique_keep skip [] vs) = vs"
  by (simp add: canonical_list_def unique_keep_id list_all_iff sorted_sort_id)

definition scope_canonical :: "Scope \<Rightarrow> bool" where
  "scope_canonical s \<longleftrightarrow>
     canonical_list (\<lambda>n. n \<le> 0) (sc_SiteIDs s) \<and> canonical_list (\<lambda>n. n \<le> 0) (sc_BuildingIDs s) \<and>
     canonical_list (\<lambda>n. n \<le> 0) (sc_RackIDs s) \<and> canonical_list (\<lambda>n. n \<le> 0) (sc_GroupIDs s) \<and>
     canonical_list (\<lambda>v. v = []) (sc_DeviceIdentifiers s)"

lemma normalize_canonical: "scope_canonical (scope_normalize s)"
  by (simp add: scope_canonical_def scope_normalize_def uniquePositive_def uniqueNonEmpty_def
      canonical_unique)

lemma normalize_fixed: "scope_canonical s \<Longrightarrow> scope_normalize s = s"
  by (simp add: scope_canonical_def scope_normalize_def uniquePositive_def uniqueNonEmpty_def
      unique_canonical)

text \<open>The selectors of one kind come back in stored order, whatever stands between them.\<close>

definition ids_of :: "string \<Rightarrow> scope_target_row list \<Rightarrow> int list" where
  "ids_of k rows = map tr_TargetID (filter (\<lambda>r. tr_TargetType r = k) rows)"

definition miners_of :: "scope_target_row list \<Rightarrow> string list" where
  "miners_of rows =
     map tr_DeviceIdentifier
       (filter (\<lambda>r. tr_TargetType r = TargetTypeMiner \<and> tr_DeviceIdentifier r \<noteq> []) rows)"

lemma add_target_fields:
  "sc_SiteIDs (foldl add_target s rows) = sc_SiteIDs s @ ids_of TargetTypeSite rows"
  "sc_BuildingIDs (foldl add_target s rows) = sc_BuildingIDs s @ ids_of TargetTypeBuilding rows"
  "sc_RackIDs (foldl add_target s rows) = sc_RackIDs s @ ids_of TargetTypeRack rows"
  "sc_GroupIDs (foldl add_target s rows) = sc_GroupIDs s @ ids_of TargetTypeGroup rows"
  "sc_DeviceIdentifiers (foldl add_target s rows) = sc_DeviceIdentifiers s @ miners_of rows"
  by (induction rows arbitrary: s) (auto simp: add_target_def ids_of_def miners_of_def)

lemma scopeFromTargets_by_kind:
  "scopeFromTargets rows =
     \<lparr>sc_SiteIDs = ids_of TargetTypeSite rows, sc_BuildingIDs = ids_of TargetTypeBuilding rows,
      sc_RackIDs = ids_of TargetTypeRack rows, sc_GroupIDs = ids_of TargetTypeGroup rows,
      sc_DeviceIdentifiers = miners_of rows\<rparr>"
  unfolding scopeFromTargets_def by (rule Scope.equality) (simp_all add: add_target_fields empty_scope_def)

lemma stored_rows_fields:
  assumes "scope_canonical s"
  shows "ids_of TargetTypeSite (stored_rows s) = sc_SiteIDs s"
    "ids_of TargetTypeBuilding (stored_rows s) = sc_BuildingIDs s"
    "ids_of TargetTypeRack (stored_rows s) = sc_RackIDs s"
    "ids_of TargetTypeGroup (stored_rows s) = sc_GroupIDs s"
    "miners_of (stored_rows s) = sc_DeviceIdentifiers s"
  using assms
  by (auto simp: ids_of_def miners_of_def stored_rows_def scope_targets_def filter_map comp_def
      filter_id_conv scope_canonical_def canonical_list_def list_all_iff Let_def)

lemma mset_ids_of: "mset rows = mset rows' \<Longrightarrow> mset (ids_of k rows) = mset (ids_of k rows')"
  by (simp add: ids_of_def)

lemma mset_miners_of: "mset rows = mset rows' \<Longrightarrow> mset (miners_of rows) = mset (miners_of rows')"
  by (simp add: miners_of_def)

lemma sort_unique_mset:
  "mset vs = mset ws \<Longrightarrow> canonical_list skip ws \<Longrightarrow> sort (unique_keep skip [] vs) = ws"
proof -
  assume m: "mset vs = mset ws" and c: "canonical_list skip ws"
  then have "distinct vs" "\<forall>v \<in> set vs. \<not> skip v"
    by (auto simp: canonical_list_def list_all_iff dest: mset_eq_imp_distinct_iff mset_eq_setD)
  then have "unique_keep skip [] vs = vs"
    by (simp add: unique_keep_id)
  with m c show ?thesis
    by (metis canonical_list_def properties_for_sort)
qed

text \<open>
  A canonical scope survives storage: whatever order its rows come back in, normalising what
  they describe gives the scope.
\<close>

lemma scope_round_trip:
  assumes "scope_canonical s" "mset rows = mset (stored_rows s)"
  shows "scope_normalize (scopeFromTargets rows) = s"
  using assms stored_rows_fields [OF assms(1)]
  by (auto simp: scope_normalize_def scopeFromTargets_by_kind uniquePositive_def uniqueNonEmpty_def
      scope_canonical_def intro!: Scope.equality sort_unique_mset
      dest: mset_ids_of [of _ _ TargetTypeSite] mset_ids_of [of _ _ TargetTypeBuilding]
        mset_ids_of [of _ _ TargetTypeRack] mset_ids_of [of _ _ TargetTypeGroup] mset_miners_of)

section \<open>Validated behaviors\<close>

text \<open>What a rollout may rely on: every setting of a method is in range and no other setting is set.\<close>

definition thresholds_ok :: "Thresholds \<Rightarrow> bool" where
  "thresholds_ok t \<longleftrightarrow> validate_thresholds t = None"

definition ungated :: "Behavior \<Rightarrow> bool" where
  "ungated b \<longleftrightarrow>
     \<not> b_AutoContinue b \<and> b_StabilizationSeconds b = 0 \<and> b_Thresholds b = no_thresholds"

definition unpaced :: "Behavior \<Rightarrow> bool" where
  "unpaced b \<longleftrightarrow>
     b_BatchSize b = 0 \<and> b_PilotSize b = 0 \<and> b_WaitBetweenBatchesSeconds b = 0 \<and>
     \<not> b_ReviewAfterEachBatch b \<and> ungated b"

definition method_ok :: "Behavior \<Rightarrow> bool" where
  "method_ok b \<longleftrightarrow>
     b_Method b = MethodAllAtOnce \<and> unpaced b \<and> b_ControllerTimeoutSeconds b = 0 \<or>
     b_Method b = MethodBatched \<and> 1 \<le> b_BatchSize b \<and> b_PilotSize b = 0 \<and>
       b_ControllerTimeoutSeconds b = 0 \<and>
       (if b_ReviewAfterEachBatch b
        then b_WaitBetweenBatchesSeconds b = 0 \<and> 0 \<le> b_StabilizationSeconds b
        else 0 \<le> b_WaitBetweenBatchesSeconds b \<and> ungated b) \<or>
     b_Method b = MethodPilotThenContinue \<and> 1 \<le> b_PilotSize b \<and> b_BatchSize b = 0 \<and>
       b_WaitBetweenBatchesSeconds b = 0 \<and> b_ReviewAfterEachBatch b \<and>
       0 \<le> b_StabilizationSeconds b \<and> b_ControllerTimeoutSeconds b = 0 \<or>
     b_Method b = MethodDelegated \<and> unpaced b \<and> 0 \<le> b_ControllerTimeoutSeconds b"

definition behavior_ok :: "Behavior \<Rightarrow> bool" where
  "behavior_ok b \<longleftrightarrow>
     (b_Order b = OrderLeastEfficientFirst \<or> b_Order b = OrderRandom) \<and> method_ok b \<and>
     0 \<le> b_MaxConcurrentOffline b \<and> thresholds_ok (b_Thresholds b)"

lemma validate_method_errors: "validate_method b = Inl e \<Longrightarrow> fe_code e = CodeInvalidArgument"
  by (auto simp: validate_method_def Let_def split: if_splits)

lemma validate_thresholds_errors: "validate_thresholds t = Some e \<Longrightarrow> fe_code e = CodeInvalidArgument"
  by (auto simp: validate_thresholds_def split: if_splits)

lemma validate_errors: "behavior_validate b = Inl e \<Longrightarrow> fe_code e = CodeInvalidArgument"
  by (auto simp: behavior_validate_def Let_def validate_method_errors validate_thresholds_errors
      split: if_splits sum.splits option.splits)

lemma no_thresholds_ok: "thresholds_ok no_thresholds"
  by (simp add: thresholds_ok_def validate_thresholds_def no_thresholds_def set_and_def hasSampledLimit_def)

text \<open>What is left of a behavior after the method switch and the reset of unused settings.\<close>

lemma cleared_method_ok:
  assumes "validate_method b = Inr c"
    and "0 \<le> b_WaitBetweenBatchesSeconds (clear_unused c)"
    and "0 \<le> b_StabilizationSeconds (clear_unused c)"
    and "0 \<le> b_ControllerTimeoutSeconds (clear_unused c)"
  shows "method_ok (clear_unused c)"
  using assms unfolding validate_method_def
  by (simp split: if_splits)
    (auto simp: Let_def clear_unused_def gatesAfterBatch_def method_ok_def unpaced_def ungated_def
      split: if_splits)

lemma cleared_order:
  assumes "validate_method b = Inr c"
  shows "b_Order (clear_unused c) = b_Order b"
  using assms by (auto simp: validate_method_def clear_unused_def Let_def split: if_splits)

lemma validate_ok:
  assumes "behavior_validate b = Inr c"
  shows "behavior_ok c"
proof -
  let ?d = "behavior_defaults b"
  from assms obtain e where e: "validate_method ?d = Inr e"
      and order: "b_Order ?d = OrderLeastEfficientFirst \<or> b_Order ?d = OrderRandom"
      and c: "c = clear_unused e"
      and ranges: "0 \<le> b_WaitBetweenBatchesSeconds c" "0 \<le> b_StabilizationSeconds c"
        "0 \<le> b_MaxConcurrentOffline c" "0 \<le> b_ControllerTimeoutSeconds c"
      and th: "validate_thresholds (b_Thresholds c) = None"
    by (auto simp: behavior_validate_def Let_def split: if_splits sum.splits option.splits)
  show ?thesis
    using cleared_method_ok [OF e] cleared_order [OF e] order ranges th
    unfolding c behavior_ok_def thresholds_ok_def by simp
qed

lemma ok_method:
  assumes "method_ok b"
  shows "validate_method b = Inr b" "clear_unused b = b" "b_Method b \<noteq> []"
    "0 \<le> b_WaitBetweenBatchesSeconds b" "0 \<le> b_StabilizationSeconds b"
    "0 \<le> b_ControllerTimeoutSeconds b"
  using assms unfolding method_ok_def unpaced_def ungated_def
  by (elim disjE conjE;
      simp add: validate_method_def clear_unused_def gatesAfterBatch_def Let_def split: if_splits)+

lemma ok_validate:
  assumes "behavior_ok b"
  shows "behavior_validate b = Inr b"
proof -
  have "b_Order b \<noteq> []" and m: "method_ok b"
    using assms by (auto simp: behavior_ok_def)
  then have d: "behavior_defaults b = b"
    using ok_method(3) [OF m] by (simp add: behavior_defaults_def Let_def)
  show ?thesis
    using assms ok_method [OF m]
    by (auto simp: behavior_validate_def d behavior_ok_def thresholds_ok_def Let_def)
qed


lemma snapshot_round_trip: "behaviorFrom (behavior_snapshot b) = b"
  by (simp add: behaviorFrom_def behavior_snapshot_def)

section \<open>Keys\<close>

lemma fold_byte_idem [simp]: "fold_byte (fold_byte c) = fold_byte c"
  by (auto simp: fold_byte_def)

lemma fold_text_idem [simp]: "fold_text (fold_text v) = fold_text v"
  by (simp add: fold_text_def)

lemma folded_idem [simp]: "folded (folded k) = folded k"
  by (simp add: folded_def)

text \<open>A key matches what a device of its own spelling reports, in any case of its letters.\<close>

lemma normalized_key_matches:
  "normalizePairKey ma mo = Inr k \<Longrightarrow>
     matchesObserved k ma mo \<and> normalizePairKey (pk_Manufacturer k) (pk_Model k) = Inr k"
  by (auto simp: normalizePairKey_def matchesObserved_def Let_def split: option.splits)

end
