(* ===== verification/Rollout_Targets.thy ===== *)
theory Rollout_Targets
  imports Rollout_Behavior
begin

text \<open>
  A rollout's miners as the engine sees them (\<open>rollout/rollout.go\<close>, \<open>rollout/enforce.go\<close>): the
  rows, the predicates on a target, its phase, the scopes of a stage, the evidence an
  automatic gate is judged by, the state and counts shown to an operator, and the order and
  batches a rollout starts with.

  \<open>sqlc.ListFirmwareRolloutDevicesRow\<close> is split in two: \<open>device_row\<close> holds the columns of
  \<open>firmware_rollout_device\<close>, which the engine writes, and \<open>device_live\<close> what the same query reads of
  the device, its telemetry, its queue and its provenance, which the engine does not own. The
  texts of a hold reason are the constructors of \<open>hold\<close>. A device's four metrics are in the order
  hashrate, power, efficiency, temperature. A counter that goes up once per target does not
  overflow: a rollout has fewer than \<open>2^31\<close> targets.
\<close>

section \<open>Rows\<close>

abbreviation "StatusActive \<equiv> ''active''"
abbreviation "StatusCompleted \<equiv> ''completed''"
abbreviation "StatusCompletedWithFailures \<equiv> ''completed_with_failures''"
abbreviation "StatusCanceled \<equiv> ''canceled''"
abbreviation "StageBatch \<equiv> ''batch''"
abbreviation "StageAwaitingReview \<equiv> ''awaiting_review''"
abbreviation "StageWaiting \<equiv> ''waiting''"
abbreviation "StageRest \<equiv> ''rest''"
abbreviation "HaltReasonFailed \<equiv> ''failed''"
abbreviation "HaltReasonCanceled \<equiv> ''canceled''"
abbreviation "HaltReasonSkipped \<equiv> ''skipped''"

definition MaxAttempts :: int where
  "MaxAttempts = 3"

record Actor =
  ac_Type :: string
  ac_ID :: int
  ac_Name :: string
  ac_OwnerUserID :: int

definition ownerUserID :: "Actor \<Rightarrow> int" where
  "ownerUserID a = (if ac_Type a = ''user'' then ac_ID a else ac_OwnerUserID a)"

definition SystemActor :: Actor where
  "SystemActor = \<lparr>ac_Type = ''system'', ac_ID = 0, ac_Name = [], ac_OwnerUserID = 0\<rparr>"

record firmware_rollout =
  r_ID :: int
  r_OrgID :: int
  r_ChannelID :: int
  r_Manufacturer :: string
  r_Model :: string
  r_FirmwareChecksum :: string
  r_FirmwareVersion :: string
  r_PreviousFirmwareChecksum :: string
  r_PreviousFirmwareVersion :: string
  r_AssignmentGeneration :: int
  r_Status :: string
  r_Stage :: string
  r_CancelReason :: string
  r_BehaviorSnapshot :: RolloutBehaviorSnapshot
  r_BatchCount :: int
  r_CurrentBatch :: int
  r_StageChangedAt :: gotime
  r_StagePausedMicroseconds :: int
  r_PausedAt :: "gotime option"
  r_CreatedAt :: gotime
  r_FinishedAt :: "gotime option"
  r_ControllerWaitingSince :: "gotime option"
  r_Revision :: int
  r_LastActionBy :: Actor

record device_row =
  rd_DeviceID :: int
  rd_BatchIndex :: "int option"
  rd_Position :: "int option"
  rd_Attempts :: int
  rd_FirstSentAt :: "gotime option"
  rd_LastSentAt :: "gotime option"
  rd_LastDispatchedAt :: "gotime option"
  rd_LastDispatchedBatchUuid :: "string option"
  rd_VerifiedAt :: "gotime option"
  rd_HaltedAt :: "gotime option"
  rd_HaltReason :: string
  rd_LastError :: string
  rd_SkipNote :: string
  rd_ExcludedAt :: "gotime option"
  rd_BaselineStatus :: "string option"
  rd_Baseline :: "f64 option \<times> f64 option \<times> f64 option \<times> f64 option"
  rd_BaselineOpenErrors :: "int option"
  rd_BaselineAt :: "gotime option"

record device_live =
  lv_DeviceIdentifier :: string
  lv_FirmwareVersion :: string
  lv_IpAddress :: string
  lv_Status :: string
  lv_Metrics :: "f64 option \<times> f64 option \<times> f64 option \<times> f64 option"
  lv_OpenErrors :: int
  lv_ErrorsSinceBaseline :: int
  lv_LastDispatchSucceeded :: bool
  lv_LastDeployedFirmwareChecksum :: string
  lv_LastDeployedFirmwareVersion :: string
  lv_LastDeployedAt :: "gotime option"
  lv_PendingFirmwareChecksums :: "string list"
  lv_PendingLegacyFirmwareFileIds :: "string list"
  lv_IsChannelMember :: bool
  lv_InScope :: "bool option"

section \<open>Targets\<close>

record rollout_target =
  t_row :: device_row
  t_live :: device_live
  t_foreignCommand :: bool

abbreviation t_DeviceID :: "rollout_target \<Rightarrow> int" where
  "t_DeviceID t \<equiv> rd_DeviceID (t_row t)"

abbreviation t_DeviceIdentifier :: "rollout_target \<Rightarrow> string" where
  "t_DeviceIdentifier t \<equiv> lv_DeviceIdentifier (t_live t)"

text \<open>
  \<open>listTargets\<close>: the rows with what is read of their devices. \<open>own\<close> are the files that carry the
  rollout's checksum.
\<close>

definition foreign_command :: "firmware_rollout \<Rightarrow> string list \<Rightarrow> device_live \<Rightarrow> bool" where
  "foreign_command r own l \<longleftrightarrow>
     (\<exists>c \<in> set (lv_PendingFirmwareChecksums l). c \<noteq> r_FirmwareChecksum r) \<or>
     (\<exists>f \<in> set (lv_PendingLegacyFirmwareFileIds l). f \<notin> set own)"

definition listTargets ::
  "firmware_rollout \<Rightarrow> string list \<Rightarrow> (int \<Rightarrow> device_live) \<Rightarrow> device_row list \<Rightarrow> rollout_target list" where
  "listTargets r own live rows =
     map (\<lambda>d. let l = live (rd_DeviceID d)
              in \<lparr>t_row = d, t_live = l, t_foreignCommand = foreign_command r own l\<rparr>) rows"

definition t_online :: "rollout_target \<Rightarrow> bool" where
  "t_online t \<longleftrightarrow> lv_Status (t_live t) \<notin> {'''', ''OFFLINE'', ''UNKNOWN'', ''UPDATING''}"

definition t_hashing :: "rollout_target \<Rightarrow> bool" where
  "t_hashing t \<longleftrightarrow> lv_Status (t_live t) = ''ACTIVE''"

definition t_baselineHashing :: "rollout_target \<Rightarrow> bool" where
  "t_baselineHashing t \<longleftrightarrow> rd_BaselineStatus (t_row t) = Some ''ACTIVE''"

definition t_inBatch :: "rollout_target \<Rightarrow> int \<Rightarrow> bool" where
  "t_inBatch t i \<longleftrightarrow> rd_BatchIndex (t_row t) = Some i"

definition d_excluded :: "device_row \<Rightarrow> bool" where
  "d_excluded d \<longleftrightarrow> rd_ExcludedAt d \<noteq> None"

definition d_halted :: "device_row \<Rightarrow> bool" where
  "d_halted d \<longleftrightarrow> rd_HaltedAt d \<noteq> None"

definition d_failed :: "device_row \<Rightarrow> bool" where
  "d_failed d \<longleftrightarrow> d_halted d \<and> rd_HaltReason d = HaltReasonFailed"

definition d_skipped :: "device_row \<Rightarrow> bool" where
  "d_skipped d \<longleftrightarrow> d_halted d \<and> rd_HaltReason d = HaltReasonSkipped"

definition d_verified :: "device_row \<Rightarrow> bool" where
  "d_verified d \<longleftrightarrow> rd_VerifiedAt d \<noteq> None"

definition d_settled :: "device_row \<Rightarrow> bool" where
  "d_settled d \<longleftrightarrow> d_verified d \<or> d_halted d"

definition reportsTarget :: "rollout_target \<Rightarrow> firmware_rollout \<Rightarrow> bool" where
  "reportsTarget t r \<longleftrightarrow> lv_FirmwareVersion (t_live t) = r_FirmwareVersion r"

definition meetsConvergence :: "rollout_target \<Rightarrow> firmware_rollout \<Rightarrow> bool" where
  "meetsConvergence t r \<longleftrightarrow>
     reportsTarget t r \<and> lv_LastDeployedFirmwareChecksum (t_live t) = r_FirmwareChecksum r \<and>
     \<not> t_foreignCommand t \<and> t_online t \<and>
     (t_hashing t \<or> (rd_BaselineAt (t_row t) \<noteq> None \<and> \<not> t_baselineHashing t))"

lemmas row_defs = d_excluded_def d_halted_def d_failed_def d_skipped_def d_verified_def d_settled_def

section \<open>Phases\<close>

datatype device_phase =
  PhaseQueued | PhaseInProgress | PhaseRetrying | PhaseDone | PhaseFailed | PhaseExcluded | PhaseSkipped

record persistedPhase =
  pp_Excluded :: bool
  pp_Halted :: bool
  pp_Verified :: bool
  pp_HaltReason :: string
  pp_Attempts :: int

definition persistedDevicePhase :: "string \<Rightarrow> persistedPhase \<Rightarrow> device_phase" where
  "persistedDevicePhase status p =
     (if pp_Excluded p then PhaseExcluded
      else if pp_Halted p \<and> pp_HaltReason p = HaltReasonSkipped then PhaseSkipped
      else if pp_Verified p then PhaseDone
      else if pp_HaltReason p = HaltReasonFailed \<and> (pp_Halted p \<or> status \<noteq> StatusActive) then PhaseFailed
      else if pp_HaltReason p = HaltReasonCanceled \<and> status \<noteq> StatusActive
        then (if pp_Attempts p = 0 then PhaseQueued else PhaseInProgress)
      else if 2 \<le> pp_Attempts p then PhaseRetrying
      else if pp_Attempts p = 1 then PhaseInProgress
      else PhaseQueued)"

definition d_phase :: "device_row \<Rightarrow> firmware_rollout \<Rightarrow> device_phase" where
  "d_phase d r =
     persistedDevicePhase (r_Status r)
       \<lparr>pp_Excluded = d_excluded d, pp_Halted = d_halted d, pp_Verified = d_verified d,
        pp_HaltReason = rd_HaltReason d, pp_Attempts = rd_Attempts d\<rparr>"

abbreviation t_phase :: "rollout_target \<Rightarrow> firmware_rollout \<Rightarrow> device_phase" where
  "t_phase t r \<equiv> d_phase (t_row t) r"

record DeviceCounts =
  dc_Queued :: int
  dc_InProgress :: int
  dc_Retrying :: int
  dc_Done :: int
  dc_Failed :: int
  dc_Excluded :: int
  dc_Skipped :: int

definition no_counts :: DeviceCounts where
  "no_counts = \<lparr>dc_Queued = 0, dc_InProgress = 0, dc_Retrying = 0, dc_Done = 0, dc_Failed = 0,
     dc_Excluded = 0, dc_Skipped = 0\<rparr>"

definition count_phase :: "DeviceCounts \<Rightarrow> device_phase \<Rightarrow> DeviceCounts" where
  "count_phase c p =
     (case p of
        PhaseQueued \<Rightarrow> c\<lparr>dc_Queued := dc_Queued c + 1\<rparr>
      | PhaseInProgress \<Rightarrow> c\<lparr>dc_InProgress := dc_InProgress c + 1\<rparr>
      | PhaseRetrying \<Rightarrow> c\<lparr>dc_Retrying := dc_Retrying c + 1\<rparr>
      | PhaseDone \<Rightarrow> c\<lparr>dc_Done := dc_Done c + 1\<rparr>
      | PhaseFailed \<Rightarrow> c\<lparr>dc_Failed := dc_Failed c + 1\<rparr>
      | PhaseExcluded \<Rightarrow> c\<lparr>dc_Excluded := dc_Excluded c + 1\<rparr>
      | PhaseSkipped \<Rightarrow> c\<lparr>dc_Skipped := dc_Skipped c + 1\<rparr>)"

definition countPhases :: "device_phase list \<Rightarrow> DeviceCounts" where
  "countPhases ps = foldl count_phase no_counts ps"

section \<open>The scope of a stage\<close>

definition activeTargets :: "rollout_target list \<Rightarrow> rollout_target list" where
  "activeTargets ts = filter (\<lambda>t. \<not> d_excluded (t_row t)) ts"

definition evidenceScope :: "firmware_rollout \<Rightarrow> rollout_target list \<Rightarrow> rollout_target list" where
  "evidenceScope r ts =
     filter (\<lambda>t. (r_Stage r = StageRest \<and> rd_BatchIndex (t_row t) = None) \<or>
                 (r_Stage r \<noteq> StageRest \<and> t_inBatch t (r_CurrentBatch r))) ts"

definition reviewScope :: "firmware_rollout \<Rightarrow> rollout_target list \<Rightarrow> rollout_target list" where
  "reviewScope r ts =
     (if r_Stage r = StageRest then activeTargets ts else activeTargets (evidenceScope r ts))"

definition allSettled :: "rollout_target list \<Rightarrow> bool" where
  "allSettled ts \<longleftrightarrow> list_all (\<lambda>t. d_settled (t_row t)) ts"

definition countFailed :: "rollout_target list \<Rightarrow> nat" where
  "countFailed ts = length (filter (\<lambda>t. d_failed (t_row t)) ts)"

definition anyFailed :: "rollout_target list \<Rightarrow> bool" where
  "anyFailed ts \<longleftrightarrow> countFailed ts > 0"

definition hasUpdatesInFlight :: "firmware_rollout \<Rightarrow> rollout_target list \<Rightarrow> bool" where
  "hasUpdatesInFlight r ts \<longleftrightarrow>
     list_ex (\<lambda>t. t_phase t r = PhaseInProgress \<or> t_phase t r = PhaseRetrying) ts"

section \<open>Metrics\<close>

record Aggregate =
  ag_Baseline :: "f64 option"
  ag_Current :: "f64 option"
  ag_SampledDevices :: int

record metricAggregate =
  ma_baseline :: f64
  ma_current :: f64
  ma_n :: nat

definition ma_zero :: metricAggregate where
  "ma_zero = \<lparr>ma_baseline = Fin 0, ma_current = Fin 0, ma_n = 0\<rparr>"

definition ma_add :: "metricAggregate \<Rightarrow> f64 option \<Rightarrow> f64 option \<Rightarrow> metricAggregate" where
  "ma_add a baseline current =
     (case (baseline, current) of
        (Some b, Some c) \<Rightarrow>
          \<lparr>ma_baseline = fl_add (ma_baseline a) b, ma_current = fl_add (ma_current a) c,
           ma_n = Suc (ma_n a)\<rparr>
      | _ \<Rightarrow> a)"

definition ma_sum :: "metricAggregate \<Rightarrow> Aggregate" where
  "ma_sum a =
     (if ma_n a = 0 then \<lparr>ag_Baseline = None, ag_Current = None, ag_SampledDevices = 0\<rparr>
      else \<lparr>ag_Baseline = Some (ma_baseline a), ag_Current = Some (ma_current a),
            ag_SampledDevices = int (ma_n a)\<rparr>)"

definition ma_mean :: "metricAggregate \<Rightarrow> Aggregate" where
  "ma_mean a =
     (if ma_n a = 0 then \<lparr>ag_Baseline = None, ag_Current = None, ag_SampledDevices = 0\<rparr>
      else \<lparr>ag_Baseline = Some (fl_unscale (ma_baseline a) (of_nat (ma_n a))),
            ag_Current = Some (fl_unscale (ma_current a) (of_nat (ma_n a))),
            ag_SampledDevices = int (ma_n a)\<rparr>)"

definition percentChange :: "Aggregate \<Rightarrow> f64 option" where
  "percentChange m =
     (case (ag_Baseline m, ag_Current m) of
        (Some b, Some c) \<Rightarrow>
          if b = Fin 0 then None else Some (fl_scale (fl_div (fl_sub c b) b) 100)
      | _ \<Rightarrow> None)"

section \<open>Evidence\<close>

datatype metric_name = MHashrate | MEfficiency | MTemperature

datatype hold =
    HoldNone
  | HoldPaused
  | HoldWaitingBeforeNextBatch
  | HoldManualReview
  | HoldMinersFailed int
  | HoldNotYetVerified int int
  | HoldMinersOffline int
  | HoldMinersNotHashing int
  | HoldCoverage metric_name int int
  | HoldChangeUndefined metric_name
  | HoldLimit metric_name f64 f64
  | HoldNewErrors int int
  | HoldStabilizing
  | HoldArtifactMissing
  | HoldOfflineCapacity int int

record Evidence =
  ev_DevicesTotal :: int
  ev_Verified :: int
  ev_Online :: int
  ev_Hashing :: int
  ev_BaselineHashing :: int
  ev_Failed :: int
  ev_Excluded :: int
  ev_Skipped :: int
  ev_HashrateChangePercent :: "f64 option"
  ev_EfficiencyChangePercent :: "f64 option"
  ev_TemperatureChangeC :: "f64 option"
  ev_NewErrors :: int
  ev_ReadyToAdvance :: bool
  ev_HoldReason :: hold
  ev_StabilizationRemainingSeconds :: int
  ev_HashRateHs :: Aggregate
  ev_PowerW :: Aggregate
  ev_EfficiencyJh :: Aggregate
  ev_TempC :: Aggregate

text \<open>The variables of the loop over the scope.\<close>

record tally =
  ta_Excluded :: int
  ta_Skipped :: int
  ta_Verified :: int
  ta_Failed :: int
  ta_Online :: int
  ta_Hashing :: int
  ta_BaselineHashing :: int
  ta_NewErrors :: int
  ta_offline :: int
  ta_notHashing :: int
  ta_hash :: metricAggregate
  ta_power :: metricAggregate
  ta_efficiency :: metricAggregate
  ta_temp :: metricAggregate

definition tally_zero :: tally where
  "tally_zero = \<lparr>ta_Excluded = 0, ta_Skipped = 0, ta_Verified = 0, ta_Failed = 0, ta_Online = 0,
     ta_Hashing = 0, ta_BaselineHashing = 0, ta_NewErrors = 0, ta_offline = 0, ta_notHashing = 0,
     ta_hash = ma_zero, ta_power = ma_zero, ta_efficiency = ma_zero, ta_temp = ma_zero\<rparr>"

definition tally_verified :: "rollout_target \<Rightarrow> tally \<Rightarrow> tally" where
  "tally_verified t a =
     (case (rd_Baseline (t_row t), lv_Metrics (t_live t)) of
        ((bh, bp, be, bt), (h, p, e, tp)) \<Rightarrow>
          a\<lparr>ta_offline := ta_offline a + (if \<not> t_online t then 1 else 0),
            ta_notHashing := ta_notHashing a +
              (if t_online t \<and> \<not> t_hashing t \<and>
                  (rd_BaselineAt (t_row t) = None \<or> t_baselineHashing t) then 1 else 0),
            ta_Verified := ta_Verified a + 1,
            ta_hash := ma_add (ta_hash a) bh h,
            ta_power := ma_add (ta_power a) bp p,
            ta_efficiency := ma_add (ta_efficiency a) be e,
            ta_temp := ma_add (ta_temp a) bt tp\<rparr>)"

definition tally_one :: "tally \<Rightarrow> rollout_target \<Rightarrow> tally" where
  "tally_one a t =
     (if d_excluded (t_row t) then a\<lparr>ta_Excluded := ta_Excluded a + 1\<rparr>
      else if d_skipped (t_row t) then a\<lparr>ta_Skipped := ta_Skipped a + 1\<rparr>
      else
        let a = (if d_verified (t_row t) then tally_verified t a else a)
        in a\<lparr>ta_Failed := ta_Failed a + (if d_failed (t_row t) then 1 else 0),
             ta_Online := ta_Online a + (if t_online t then 1 else 0),
             ta_Hashing := ta_Hashing a + (if t_hashing t then 1 else 0),
             ta_BaselineHashing := ta_BaselineHashing a + (if t_baselineHashing t then 1 else 0),
             ta_NewErrors := wrap32 (ta_NewErrors a + lv_ErrorsSinceBaseline (t_live t))\<rparr>)"

definition tally_scope :: "rollout_target list \<Rightarrow> tally" where
  "tally_scope scope = foldl tally_one tally_zero scope"

text \<open>Active time in the stage: a pause in progress stops the clock, past pauses are taken off.\<close>

definition stageElapsed :: "gotime \<Rightarrow> firmware_rollout \<Rightarrow> duration" where
  "stageElapsed now r =
     (let until = (case r_PausedAt r of Some p \<Rightarrow> p | None \<Rightarrow> now);
          elapsed = time_sub until (r_StageChangedAt r)
      in if elapsed \<le> 0 \<or> elapsed div 1000 < r_StagePausedMicroseconds r then 0
         else elapsed - r_StagePausedMicroseconds r * 1000)"

definition summarize :: "rollout_target list \<Rightarrow> Evidence" where
  "summarize scope =
     (let a = tally_scope scope;
          hash = ma_sum (ta_hash a); temp = ma_mean (ta_temp a); eff = ma_mean (ta_efficiency a)
      in \<lparr>ev_DevicesTotal = int (length scope), ev_Verified = ta_Verified a, ev_Online = ta_Online a,
          ev_Hashing = ta_Hashing a, ev_BaselineHashing = ta_BaselineHashing a,
          ev_Failed = ta_Failed a, ev_Excluded = ta_Excluded a, ev_Skipped = ta_Skipped a,
          ev_HashrateChangePercent = percentChange hash,
          ev_EfficiencyChangePercent = percentChange eff,
          ev_TemperatureChangeC =
            (case (ag_Baseline temp, ag_Current temp) of
               (Some b, Some c) \<Rightarrow> Some (fl_sub c b) | _ \<Rightarrow> None),
          ev_NewErrors = ta_NewErrors a, ev_ReadyToAdvance = False, ev_HoldReason = HoldNone,
          ev_StabilizationRemainingSeconds = 0,
          ev_HashRateHs = hash, ev_PowerW = ma_sum (ta_power a), ev_EfficiencyJh = eff,
          ev_TempC = temp\<rparr>)"

definition sample_covered :: "Thresholds \<Rightarrow> Evidence \<Rightarrow> Aggregate \<Rightarrow> bool" where
  "sample_covered th ev a \<longleftrightarrow>
     0 < ag_SampledDevices a \<and>
     fl_le (fl_scale (coverage th) (of_int (ev_Verified ev))) (fl_of_int (ag_SampledDevices a))"

text \<open>
  The cases on one limit: not set, not enough samples, no defined change, over the limit. An
  undefined change that the code dereferences is a panic, \<open>None\<close>; \<open>checked\<close> tells whether the
  code has a case for it first.
\<close>

definition judge_limit ::
  "metric_name \<Rightarrow> bool \<Rightarrow> (f64 \<Rightarrow> f64 \<Rightarrow> bool) \<Rightarrow> Thresholds \<Rightarrow> Evidence \<Rightarrow> f64 option \<Rightarrow> Aggregate \<Rightarrow>
   f64 option \<Rightarrow> hold option" where
  "judge_limit m checked over th ev limit agg change =
     (case limit of
        None \<Rightarrow> Some HoldNone
      | Some l \<Rightarrow>
          if \<not> sample_covered th ev agg then Some (HoldCoverage m (ag_SampledDevices agg) (ev_Verified ev))
          else case change of
            None \<Rightarrow> (if checked then Some (HoldChangeUndefined m) else None)
          | Some c \<Rightarrow> Some (if over c l then HoldLimit m c l else HoldNone))"

definition or_else :: "hold option \<Rightarrow> hold option \<Rightarrow> hold option" where
  "or_else x y = (case x of Some HoldNone \<Rightarrow> y | _ \<Rightarrow> x)"

definition judge_limits :: "Thresholds \<Rightarrow> Evidence \<Rightarrow> hold option" where
  "judge_limits th ev =
     or_else (judge_limit MHashrate True (\<lambda>c l. fl_less c (fl_neg l)) th ev
                (th_MaxHashrateDropPercent th) (ev_HashRateHs ev) (ev_HashrateChangePercent ev))
     (or_else (judge_limit MEfficiency True (\<lambda>c l. fl_less l c) th ev
                (th_MaxEfficiencyIncreasePercent th) (ev_EfficiencyJh ev) (ev_EfficiencyChangePercent ev))
     (or_else (judge_limit MTemperature False (\<lambda>c l. fl_less l c) th ev
                (th_MaxTempIncreaseC th) (ev_TempC ev) (ev_TemperatureChangeC ev))
      (Some (case th_MaxNewErrors th of
               Some l \<Rightarrow> if l < ev_NewErrors ev then HoldNewErrors (ev_NewErrors ev) l else HoldNone
             | None \<Rightarrow> HoldNone))))"

definition judge_stabilization :: "gotime \<Rightarrow> firmware_rollout \<Rightarrow> Evidence \<Rightarrow> Evidence" where
  "judge_stabilization now r ev =
     (let s = bs_StabilizationSeconds (r_BehaviorSnapshot r);
          remaining = seconds s - stageElapsed now r
      in if 0 < s \<and> 0 < remaining
         then ev\<lparr>ev_StabilizationRemainingSeconds := fl_ceiling (duration_Seconds remaining),
                 ev_HoldReason := HoldStabilizing\<rparr>
         else ev\<lparr>ev_ReadyToAdvance := True\<rparr>)"

definition evaluate :: "gotime \<Rightarrow> firmware_rollout \<Rightarrow> rollout_target list \<Rightarrow> Evidence option" where
  "evaluate now r scope =
     (let ev = summarize scope; a = tally_scope scope;
          th = b_Thresholds (behaviorFrom (r_BehaviorSnapshot r));
          hold = (\<lambda>h. Some (ev\<lparr>ev_HoldReason := h\<rparr>))
      in if r_Status r \<noteq> StatusActive then Some ev
         else if r_PausedAt r \<noteq> None then hold HoldPaused
         else if r_Stage r = StageBatch then hold HoldNone
         else if r_Stage r = StageWaiting then hold HoldWaitingBeforeNextBatch
         else if r_Stage r = StageRest then hold HoldNone
         else if \<not> bs_AutoContinue (r_BehaviorSnapshot r) then hold HoldManualReview
         else if 0 < ev_Failed ev then hold (HoldMinersFailed (ev_Failed ev))
         else if ev_Verified ev + ev_Excluded ev + ev_Skipped ev < ev_DevicesTotal ev
           then hold (HoldNotYetVerified
             (ev_DevicesTotal ev - ev_Verified ev - ev_Excluded ev - ev_Skipped ev) (ev_DevicesTotal ev))
         else if 0 < ta_offline a then hold (HoldMinersOffline (ta_offline a))
         else if 0 < ta_notHashing a then hold (HoldMinersNotHashing (ta_notHashing a))
         else case judge_limits th ev of
             None \<Rightarrow> None
           | Some HoldNone \<Rightarrow> Some (judge_stabilization now r ev)
           | Some h \<Rightarrow> hold h)"

section \<open>The state shown to an operator\<close>

datatype rollout_state =
    StateInProgress | StateStabilizingTelemetry | StatePausedAtPilotGate | StatePausedAtBatchReview
  | StatePaused | StateCompleted | StateCompletedWithFailures | StateCanceled
  | StateWaitingForController

definition deriveState :: "firmware_rollout \<Rightarrow> Evidence option \<Rightarrow> rollout_state" where
  "deriveState r ev =
     (if r_Status r = StatusCompleted then StateCompleted
      else if r_Status r = StatusCompletedWithFailures then StateCompletedWithFailures
      else if r_Status r = StatusCanceled then StateCanceled
      else if r_PausedAt r \<noteq> None then StatePaused
      else if r_Stage r = StageAwaitingReview then
        (if bs_AutoContinue (r_BehaviorSnapshot r) \<and>
            set_and ev (\<lambda>e. ev_HoldReason e = HoldStabilizing) then StateStabilizingTelemetry
         else if bs_Method (r_BehaviorSnapshot r) = MethodPilotThenContinue \<and> r_CurrentBatch r = 0
         then StatePausedAtPilotGate
         else StatePausedAtBatchReview)
      else StateInProgress)"

section \<open>The gate\<close>

text \<open>A verified miner has recovered: it is back online, and hashing if it hashed before.\<close>

definition recovered :: "rollout_target \<Rightarrow> bool" where
  "recovered t \<longleftrightarrow>
     t_online t \<and> (t_hashing t \<or> (rd_BaselineAt (t_row t) \<noteq> None \<and> \<not> t_baselineHashing t))"

text \<open>The miners an automatic gate weighs are neither excluded nor skipped.\<close>

definition weighed :: "rollout_target list \<Rightarrow> rollout_target list" where
  "weighed scope = filter (\<lambda>t. \<not> d_excluded (t_row t) \<and> \<not> d_skipped (t_row t)) scope"

definition proven :: "rollout_target \<Rightarrow> bool" where
  "proven t \<longleftrightarrow> d_verified (t_row t) \<and> \<not> d_failed (t_row t) \<and> recovered t"

text \<open>The pairs of samples of one metric over the verified miners, and their aggregates.\<close>

definition samples ::
  "(f64 option \<times> f64 option \<times> f64 option \<times> f64 option \<Rightarrow> f64 option) \<Rightarrow> rollout_target list \<Rightarrow>
   (f64 \<times> f64) list" where
  "samples pick scope =
     List.map_filter (\<lambda>t. case (pick (rd_Baseline (t_row t)), pick (lv_Metrics (t_live t))) of
          (Some b, Some c) \<Rightarrow> Some (b, c) | _ \<Rightarrow> None)
       (filter (\<lambda>t. d_verified (t_row t)) (weighed scope))"

definition total_of :: "(f64 \<times> f64) list \<Rightarrow> metricAggregate" where
  "total_of ps =
     \<lparr>ma_baseline = fl_sum (map fst ps), ma_current = fl_sum (map snd ps), ma_n = length ps\<rparr>"

definition new_errors :: "rollout_target list \<Rightarrow> int" where
  "new_errors ts = foldl (\<lambda>n t. wrap32 (n + lv_ErrorsSinceBaseline (t_live t))) 0 ts"

abbreviation "pick_hash \<equiv> \<lambda>(h, p, e, t). h"
abbreviation "pick_power \<equiv> \<lambda>(h, p, e, t). p"
abbreviation "pick_efficiency \<equiv> \<lambda>(h, p, e, t). e"
abbreviation "pick_temp \<equiv> \<lambda>(h, p, e, t). t"

text \<open>A limit that is set holds: enough samples, a defined change, and the change within it.\<close>

definition limit_met ::
  "(f64 \<Rightarrow> f64 \<Rightarrow> bool) \<Rightarrow> Thresholds \<Rightarrow> nat \<Rightarrow> f64 option \<Rightarrow> nat \<Rightarrow> f64 option \<Rightarrow> bool" where
  "limit_met over th verified limit sampled change \<longleftrightarrow>
     (case limit of
        None \<Rightarrow> True
      | Some l \<Rightarrow>
          0 < sampled \<and>
          fl_le (fl_scale (coverage th) (of_nat verified)) (fl_of_int (int sampled)) \<and>
          set_and change (\<lambda>c. \<not> over c l))"

definition temp_change :: "(f64 \<times> f64) list \<Rightarrow> f64 option" where
  "temp_change ps =
     (if ps = [] then None
      else Some (fl_sub (fl_unscale (fl_sum (map snd ps)) (of_nat (length ps)))
                        (fl_unscale (fl_sum (map fst ps)) (of_nat (length ps)))))"

definition limits_met :: "Thresholds \<Rightarrow> rollout_target list \<Rightarrow> bool" where
  "limits_met th scope \<longleftrightarrow>
     (let v = length (filter (\<lambda>t. d_verified (t_row t)) (weighed scope));
          h = samples pick_hash scope; e = samples pick_efficiency scope; tp = samples pick_temp scope
      in limit_met (\<lambda>c l. fl_less c (fl_neg l)) th v (th_MaxHashrateDropPercent th) (length h)
           (percentChange (ma_sum (total_of h))) \<and>
         limit_met (\<lambda>c l. fl_less l c) th v (th_MaxEfficiencyIncreasePercent th) (length e)
           (percentChange (ma_mean (total_of e))) \<and>
         limit_met (\<lambda>c l. fl_less l c) th v (th_MaxTempIncreaseC th) (length tp) (temp_change tp) \<and>
         (case th_MaxNewErrors th of None \<Rightarrow> True | Some l \<Rightarrow> new_errors (weighed scope) \<le> l))"

definition stabilized :: "gotime \<Rightarrow> firmware_rollout \<Rightarrow> bool" where
  "stabilized now r \<longleftrightarrow>
     (let s = bs_StabilizationSeconds (r_BehaviorSnapshot r)
      in s \<le> 0 \<or> seconds s \<le> stageElapsed now r)"

text \<open>An active rollout, not paused, that stands at a review gate it may release itself.\<close>

definition at_automatic_gate :: "firmware_rollout \<Rightarrow> bool" where
  "at_automatic_gate r \<longleftrightarrow>
     r_Status r = StatusActive \<and> r_PausedAt r = None \<and>
     r_Stage r \<noteq> StageBatch \<and> r_Stage r \<noteq> StageWaiting \<and> r_Stage r \<noteq> StageRest \<and>
     bs_AutoContinue (r_BehaviorSnapshot r)"

definition gate_open :: "gotime \<Rightarrow> firmware_rollout \<Rightarrow> rollout_target list \<Rightarrow> bool" where
  "gate_open now r scope \<longleftrightarrow>
     at_automatic_gate r \<and> list_all proven (weighed scope) \<and>
     limits_met (b_Thresholds (behaviorFrom (r_BehaviorSnapshot r))) scope \<and> stabilized now r"

section \<open>What the loop over the scope counts\<close>

lemma tally_snoc: "tally_scope (ts @ [t]) = tally_one (tally_scope ts) t"
  by (simp add: tally_scope_def)

lemma weighed_snoc:
  "weighed (ts @ [t]) =
     weighed ts @ (if d_excluded (t_row t) \<or> d_skipped (t_row t) then [] else [t])"
  by (simp add: weighed_def)

lemma ma_add_total:
  "ma_add (total_of ps) b c = total_of (ps @ (case (b, c) of (Some x, Some y) \<Rightarrow> [(x, y)] | _ \<Rightarrow> []))"
  by (auto simp: ma_add_def total_of_def split: option.splits)

lemma map_filter_app: "List.map_filter f (xs @ ys) = List.map_filter f xs @ List.map_filter f ys"
  by (simp add: List.map_filter_def)

lemma samples_snoc:
  "samples pick (ts @ [t]) =
     samples pick ts @
       (if d_excluded (t_row t) \<or> d_skipped (t_row t) \<or> \<not> d_verified (t_row t) then []
        else case (pick (rd_Baseline (t_row t)), pick (lv_Metrics (t_live t))) of
          (Some b, Some c) \<Rightarrow> [(b, c)] | _ \<Rightarrow> [])"
  by (auto simp: samples_def weighed_snoc map_filter_app map_filter_simps split: option.splits)

lemmas tally_defs = tally_snoc tally_one_def tally_verified_def weighed_snoc Let_def

lemma tally_counts:
  "ta_Excluded (tally_scope ts) + ta_Skipped (tally_scope ts) + int (length (weighed ts)) = int (length ts)"
  "ta_Verified (tally_scope ts) = int (length (filter (\<lambda>t. d_verified (t_row t)) (weighed ts)))"
  "ta_Failed (tally_scope ts) = int (length (filter (\<lambda>t. d_failed (t_row t)) (weighed ts)))"
  "ta_offline (tally_scope ts) =
     int (length (filter (\<lambda>t. d_verified (t_row t) \<and> \<not> t_online t) (weighed ts)))"
  "ta_notHashing (tally_scope ts) =
     int (length (filter (\<lambda>t. d_verified (t_row t) \<and> t_online t \<and> \<not> recovered t) (weighed ts)))"
  "ta_NewErrors (tally_scope ts) = new_errors (weighed ts)"
  by (induction ts rule: rev_induct;
      auto simp: tally_defs tally_scope_def [of "[]"] tally_zero_def weighed_def [of "[]"] recovered_def
        new_errors_def split: prod.splits)+

lemma tally_metrics:
  "ta_hash (tally_scope ts) = total_of (samples pick_hash ts)"
  "ta_power (tally_scope ts) = total_of (samples pick_power ts)"
  "ta_efficiency (tally_scope ts) = total_of (samples pick_efficiency ts)"
  "ta_temp (tally_scope ts) = total_of (samples pick_temp ts)"
  by (induction ts rule: rev_induct;
      auto simp: tally_defs tally_scope_def [of "[]"] tally_zero_def samples_snoc ma_add_total
        samples_def [of _ "[]"] weighed_def [of "[]"] map_filter_simps ma_zero_def total_of_def [of "[]"]
        split: prod.splits)+

section \<open>The gate is judged as specified\<close>

lemma length_filter_eq: "length (filter P xs) = length xs \<longleftrightarrow> list_all P xs"
  by (metis filter_True length_filter_less list_all_iff nat_neq_iff)

lemma length_filter_0: "length (filter P xs) = 0 \<longleftrightarrow> list_all (\<lambda>x. \<not> P x) xs"
  by (simp add: filter_empty_conv list_all_iff)

text \<open>None of the four counting cases holds exactly when every weighed miner is proven.\<close>

lemma counts_clear:
  "(\<not> 0 < ev_Failed (summarize ts) \<and>
    \<not> ev_Verified (summarize ts) + ev_Excluded (summarize ts) + ev_Skipped (summarize ts)
        < ev_DevicesTotal (summarize ts) \<and>
    \<not> 0 < ta_offline (tally_scope ts) \<and> \<not> 0 < ta_notHashing (tally_scope ts)) \<longleftrightarrow>
   list_all proven (weighed ts)"
proof -
  let ?w = "weighed ts"
  let ?v = "length (filter (\<lambda>t. d_verified (t_row t)) ?w)"
  have le: "?v \<le> length ?w" by simp
  have v: "\<not> ev_Verified (summarize ts) + ev_Excluded (summarize ts) + ev_Skipped (summarize ts)
      < ev_DevicesTotal (summarize ts) \<longleftrightarrow> list_all (\<lambda>t. d_verified (t_row t)) ?w"
    unfolding length_filter_eq [of "\<lambda>t. d_verified (t_row t)" ?w, symmetric]
    using tally_counts(1) [of ts] le
    by (simp add: summarize_def Let_def tally_counts(2), linarith)
  show ?thesis
    unfolding v
    by (auto simp: summarize_def Let_def tally_counts filter_empty_conv list_all_iff proven_def
        recovered_def)
qed

lemma or_else_none: "or_else x y = Some HoldNone \<longleftrightarrow> x = Some HoldNone \<and> y = Some HoldNone"
  by (auto simp: or_else_def split: option.splits hold.splits)

lemma or_else_panic: "or_else x y = None \<longleftrightarrow> x = None \<or> x = Some HoldNone \<and> y = None"
  by (auto simp: or_else_def split: option.splits hold.splits)

lemma judge_limit_none:
  assumes "ag_SampledDevices agg = int n" "ev_Verified ev = int v"
  shows "judge_limit m c over th ev limit agg change = Some HoldNone \<longleftrightarrow>
    limit_met over th v limit n change"
  using assms
  by (auto simp: judge_limit_def limit_met_def sample_covered_def set_and_def split: option.splits)

lemma judge_limit_panic:
  "judge_limit m c over th ev limit agg change = None \<longleftrightarrow>
     \<not> c \<and> limit \<noteq> None \<and> sample_covered th ev agg \<and> change = None"
  by (auto simp: judge_limit_def split: option.splits)

lemma sampled_of: "ag_SampledDevices (ma_sum (total_of ps)) = int (length ps)"
  "ag_SampledDevices (ma_mean (total_of ps)) = int (length ps)"
  by (auto simp: ma_sum_def ma_mean_def total_of_def)

lemma summarize_temp_change: "ev_TemperatureChangeC (summarize ts) = temp_change (samples pick_temp ts)"
  by (simp add: summarize_def Let_def tally_metrics temp_change_def ma_mean_def total_of_def)

lemma summarize_fields:
  "ev_Verified (summarize ts) = int (length (filter (\<lambda>t. d_verified (t_row t)) (weighed ts)))"
  "ev_NewErrors (summarize ts) = new_errors (weighed ts)"
  "ev_HashRateHs (summarize ts) = ma_sum (total_of (samples pick_hash ts))"
  "ev_EfficiencyJh (summarize ts) = ma_mean (total_of (samples pick_efficiency ts))"
  "ev_TempC (summarize ts) = ma_mean (total_of (samples pick_temp ts))"
  "ev_HashrateChangePercent (summarize ts) = percentChange (ma_sum (total_of (samples pick_hash ts)))"
  "ev_EfficiencyChangePercent (summarize ts) =
     percentChange (ma_mean (total_of (samples pick_efficiency ts)))"
  "ev_ReadyToAdvance (summarize ts) = False"
  by (simp_all add: summarize_def Let_def tally_counts tally_metrics)

lemma judge_limits_none: "judge_limits th (summarize ts) = Some HoldNone \<longleftrightarrow> limits_met th ts"
  unfolding judge_limits_def or_else_none limits_met_def Let_def
  by (simp add: judge_limit_none [OF _ summarize_fields(1)] summarize_fields(2-7) sampled_of
      summarize_temp_change split: option.splits)

lemma judge_limits_total: "judge_limits th (summarize ts) \<noteq> None"
  unfolding judge_limits_def or_else_panic
  by (auto simp: judge_limit_panic summarize_temp_change summarize_fields temp_change_def sample_covered_def
      sampled_of)

lemma stabilization_ready:
  "ev_ReadyToAdvance (judge_stabilization now r ev) \<longleftrightarrow> ev_ReadyToAdvance ev \<or> stabilized now r"
  by (auto simp: judge_stabilization_def stabilized_def Let_def)

lemma at_gate_cases:
  "at_automatic_gate r \<longleftrightarrow>
     \<not> (r_Status r \<noteq> StatusActive) \<and> \<not> (r_PausedAt r \<noteq> None) \<and> r_Stage r \<noteq> StageBatch \<and>
     r_Stage r \<noteq> StageWaiting \<and> r_Stage r \<noteq> StageRest \<and> \<not> (\<not> bs_AutoContinue (r_BehaviorSnapshot r))"
  by (auto simp: at_automatic_gate_def)

lemma evaluate_at_gate:
  assumes "at_automatic_gate r" "list_all proven (weighed ts)"
  shows "evaluate now r ts =
    (case judge_limits (b_Thresholds (behaviorFrom (r_BehaviorSnapshot r))) (summarize ts) of
       None \<Rightarrow> None
     | Some HoldNone \<Rightarrow> Some (judge_stabilization now r (summarize ts))
     | Some h \<Rightarrow> Some ((summarize ts)\<lparr>ev_HoldReason := h\<rparr>))"
proof -
  note c = iffD2 [OF counts_clear assms(2)]
  note g = assms(1) [unfolded at_gate_cases]
  show ?thesis
    unfolding evaluate_def Let_def using c g by (simp only: if_False simp_thms)
qed

lemma evaluate_elsewhere:
  assumes "\<not> (at_automatic_gate r \<and> list_all proven (weighed ts))"
  shows "\<exists>ev. evaluate now r ts = Some ev \<and> \<not> ev_ReadyToAdvance ev"
proof -
  have "\<not> at_automatic_gate r \<or>
      (0 < ev_Failed (summarize ts) \<or>
       ev_Verified (summarize ts) + ev_Excluded (summarize ts) + ev_Skipped (summarize ts)
         < ev_DevicesTotal (summarize ts) \<or>
       0 < ta_offline (tally_scope ts) \<or> 0 < ta_notHashing (tally_scope ts))"
    using assms counts_clear [of ts] by blast
  then show ?thesis
    unfolding evaluate_def Let_def at_gate_cases
    by (elim disjE) (auto simp: summarize_fields(8))
qed

lemma gate_ready:
  "\<exists>ev. evaluate now r ts = Some ev \<and> (ev_ReadyToAdvance ev \<longleftrightarrow> gate_open now r ts)"
proof (cases "at_automatic_gate r \<and> list_all proven (weighed ts)")
  case True
  let ?th = "b_Thresholds (behaviorFrom (r_BehaviorSnapshot r))"
  show ?thesis
  proof (cases "limits_met ?th ts")
    case met: True
    then show ?thesis
      using True judge_limits_none [of ?th ts] evaluate_at_gate [of r ts now]
      by (simp add: gate_open_def stabilization_ready summarize_fields(8))
  next
    case False
    then obtain h where "judge_limits ?th (summarize ts) = Some h" "h \<noteq> HoldNone"
      using judge_limits_none judge_limits_total by (metis option.exhaust)
    then show ?thesis
      using True False evaluate_at_gate [of r ts now]
      by (auto simp: gate_open_def summarize_fields(8) split: hold.splits)
  qed
next
  case False
  then show ?thesis
    using evaluate_elsewhere [OF False, of now] by (auto simp: gate_open_def)
qed

lemma evaluate_never_panics: "evaluate now r ts \<noteq> None"
  using gate_ready [of now r ts] by auto

end
