(* ===== verification/Rollout_Plan.thy ===== *)
theory Rollout_Plan
  imports Rollout_Targets
begin

text \<open>
  How a rollout starts and how its miners are listed (\<open>rollout/rollout.go\<close>, \<open>rollout/service.go\<close>):
  the order of the members, their batches, the rows and the snapshot a rollout is created with,
  the batch count a preview reports, and the cursors and pages of a listing.

  A shuffle is the sequence of swaps the random source makes; \<open>rand.Shuffle\<close> calls its function
  with positions of the list only.
\<close>

section \<open>Order\<close>

record member_row =
  m_DeviceID :: int
  m_DeviceIdentifier :: string
  m_EfficiencyJh :: "f64 option"

definition less_efficient :: "member_row \<Rightarrow> member_row \<Rightarrow> bool" where
  "less_efficient x y =
     (case (m_EfficiencyJh x, m_EfficiencyJh y) of
        (Some a, None) \<Rightarrow> True
      | (None, Some b) \<Rightarrow> False
      | (Some a, Some b) \<Rightarrow>
          if a \<noteq> b \<or> a = NaN then fl_less b a else m_DeviceIdentifier x < m_DeviceIdentifier y
      | (None, None) \<Rightarrow> m_DeviceIdentifier x < m_DeviceIdentifier y)"

definition swap_at :: "nat \<times> nat \<Rightarrow> 'a list \<Rightarrow> 'a list" where
  "swap_at p xs =
     (case p of (i, j) \<Rightarrow>
        if i < length xs \<and> j < length xs then xs[i := xs ! j, j := xs ! i] else xs)"

definition shuffle :: "(nat \<times> nat) list \<Rightarrow> 'a list \<Rightarrow> 'a list" where
  "shuffle swaps xs = fold swap_at swaps xs"

definition orderMembers :: "(nat \<times> nat) list \<Rightarrow> member_row list \<Rightarrow> string \<Rightarrow> int list" where
  "orderMembers swaps rows order =
     map m_DeviceID
       (if order = OrderRandom then shuffle swaps rows else stable_sort less_efficient rows)"

section \<open>Batches\<close>

text \<open>The loop \<open>for start := 0; start < len(ordered); start += size\<close>, for a positive size.\<close>

function split_batches :: "nat \<Rightarrow> 'a list \<Rightarrow> 'a list list" where
  "split_batches n xs = (if xs = [] \<or> n = 0 then [] else take n xs # split_batches n (drop n xs))"
  by pat_completeness auto

termination split_batches
  by (relation "measure (\<lambda>(n, xs). length xs)") auto

declare split_batches.simps [simp del]

record batch_plan =
  bp_batches :: "int list list"
  bp_rest :: "int list"

text \<open>
  The switch on the method. A batch size below one does not end the loop, or slices out of
  range, and a negative pilot size slices out of range: no plan.
\<close>

definition plan_batches :: "Behavior \<Rightarrow> int list \<Rightarrow> batch_plan option" where
  "plan_batches b ordered =
     (if b_Method b = MethodPilotThenContinue then
        (let n = min (b_PilotSize b) (int (length ordered))
         in if n < 0 then None
            else Some \<lparr>bp_batches = [take (nat n) ordered], bp_rest = drop (nat n) ordered\<rparr>)
      else if b_Method b = MethodBatched then
        (if b_BatchSize b < 1 then None
         else Some \<lparr>bp_batches = split_batches (nat (b_BatchSize b)) ordered, bp_rest = []\<rparr>)
      else Some \<lparr>bp_batches = [], bp_rest = ordered\<rparr>)"

definition first_stage :: "batch_plan \<Rightarrow> string" where
  "first_stage p = (if bp_batches p \<noteq> [] then StageBatch else StageRest)"

section \<open>The rows of a new rollout\<close>

text \<open>
  The health query \<open>SnapshotFirmwareRolloutDevices\<close> reads of a device: its status, its recent
  metrics and its open errors.
\<close>

record device_health =
  dh_Status :: "string option"
  dh_Metrics :: "f64 option \<times> f64 option \<times> f64 option \<times> f64 option"
  dh_OpenErrors :: int

definition new_row :: "int \<Rightarrow> device_row" where
  "new_row i = \<lparr>rd_DeviceID = i, rd_BatchIndex = None, rd_Position = None, rd_Attempts = 0,
     rd_FirstSentAt = None, rd_LastSentAt = None, rd_LastDispatchedAt = None,
     rd_LastDispatchedBatchUuid = None, rd_VerifiedAt = None, rd_HaltedAt = None, rd_HaltReason = [],
     rd_LastError = [], rd_SkipNote = [], rd_ExcludedAt = None, rd_BaselineStatus = None,
     rd_Baseline = (None, None, None, None), rd_BaselineOpenErrors = None, rd_BaselineAt = None\<rparr>"

definition snapshot_row ::
  "(int \<Rightarrow> device_health) \<Rightarrow> gotime \<Rightarrow> int option \<Rightarrow> int \<Rightarrow> int \<Rightarrow> device_row" where
  "snapshot_row health at_time batch position i =
     (new_row i)\<lparr>rd_BatchIndex := batch, rd_Position := Some position,
       rd_BaselineStatus := dh_Status (health i), rd_Baseline := dh_Metrics (health i),
       rd_BaselineOpenErrors := Some (dh_OpenErrors (health i)), rd_BaselineAt := Some at_time\<rparr>"

text \<open>One call of \<open>snapshot\<close>: a position is the offset plus the index in the list, from one.\<close>

definition snapshot_rows ::
  "(int \<Rightarrow> device_health) \<Rightarrow> gotime \<Rightarrow> int option \<Rightarrow> nat \<Rightarrow> int list \<Rightarrow> device_row list" where
  "snapshot_rows health at_time batch offset ids =
     map (\<lambda>(k, i). snapshot_row health at_time batch (int (offset + k + 1)) i) (enumerate 0 ids)"

fun snapshot_batches ::
  "(int \<Rightarrow> device_health) \<Rightarrow> gotime \<Rightarrow> nat \<Rightarrow> nat \<Rightarrow> int list list \<Rightarrow> device_row list" where
  "snapshot_batches health at_time index offset [] = []"
| "snapshot_batches health at_time index offset (ids # rest) =
     snapshot_rows health at_time (Some (int index)) offset ids @
     snapshot_batches health at_time (Suc index) (offset + length ids) rest"

definition plan_rows :: "(int \<Rightarrow> device_health) \<Rightarrow> gotime \<Rightarrow> batch_plan \<Rightarrow> device_row list" where
  "plan_rows health at_time p =
     snapshot_batches health at_time 0 0 (bp_batches p) @
     snapshot_rows health at_time None (length (concat (bp_batches p))) (bp_rest p)"

record rolloutSpec =
  sp_OrgID :: int
  sp_ChannelID :: int
  sp_Pair :: PairKey
  sp_FirmwareChecksum :: string
  sp_FirmwareVersion :: string
  sp_PreviousFirmwareChecksum :: string
  sp_PreviousFirmwareVersion :: string
  sp_AssignmentGeneration :: int
  sp_Actor :: Actor
  sp_Behavior :: Behavior
  sp_Members :: "member_row list"

text \<open>
  \<open>startRollout\<close>: nothing when there is no member. The offline cap is the channel's. Where no plan
  comes out the call does not return. \<open>sp_Members\<close> are the rows it works on, given by a retry or
  read by the mismatch query; \<open>dbnow\<close> is the database clock, \<open>now\<close> the service's.
\<close>

record rollout_start =
  rs_rollout :: firmware_rollout
  rs_rows :: "device_row list"

definition startRollout ::
  "(nat \<times> nat) list \<Rightarrow> (int \<Rightarrow> device_health) \<Rightarrow> gotime \<Rightarrow> gotime \<Rightarrow> int \<Rightarrow> int \<Rightarrow> rolloutSpec \<Rightarrow>
   rollout_start option option" where
  "startRollout swaps health now dbnow newID cap spec =
     (if sp_Members spec = [] then Some None
      else
        let ordered = orderMembers swaps (sp_Members spec) (b_Order (sp_Behavior spec));
            b = (sp_Behavior spec)\<lparr>b_MaxConcurrentOffline := cap\<rparr>
        in map_option (\<lambda>p. Some
             \<lparr>rs_rollout = \<lparr>r_ID = newID, r_OrgID = sp_OrgID spec, r_ChannelID = sp_ChannelID spec,
                r_Manufacturer = pk_Manufacturer (sp_Pair spec), r_Model = pk_Model (sp_Pair spec),
                r_FirmwareChecksum = sp_FirmwareChecksum spec, r_FirmwareVersion = sp_FirmwareVersion spec,
                r_PreviousFirmwareChecksum = sp_PreviousFirmwareChecksum spec,
                r_PreviousFirmwareVersion = sp_PreviousFirmwareVersion spec,
                r_AssignmentGeneration = sp_AssignmentGeneration spec,
                r_Status = StatusActive, r_Stage = first_stage p, r_CancelReason = [],
                r_BehaviorSnapshot = behavior_snapshot b,
                r_BatchCount = int (length (bp_batches p)), r_CurrentBatch = 0,
                r_StageChangedAt = dbnow, r_StagePausedMicroseconds = 0, r_PausedAt = None,
                r_CreatedAt = dbnow, r_FinishedAt = None,
                r_ControllerWaitingSince = (if b_Method b = MethodDelegated then Some now else None),
                r_Revision = 1, r_LastActionBy = sp_Actor spec\<rparr>,
              rs_rows = plan_rows health dbnow p\<rparr>) (plan_batches b ordered))"

section \<open>The batch count of a preview\<close>

text \<open>Division of \<open>int32\<close> values truncates towards zero; the sum and the difference wrap.\<close>

definition go_quot :: "int \<Rightarrow> int \<Rightarrow> int" where
  "go_quot a b = (if a < 0 then - ((- a) div b) else a div b)"

definition preview_BatchCount :: "Behavior \<Rightarrow> int \<Rightarrow> int" where
  "preview_BatchCount b n =
     (if b_Method b = MethodBatched
      then go_quot (wrap32 (wrap32 (n + b_BatchSize b) - 1)) (b_BatchSize b)
      else if b_Method b = MethodPilotThenContinue then (if 0 < n then 1 else 0)
      else 0)"

section \<open>Cursors and pages\<close>

definition DefaultPageSize :: int where "DefaultPageSize = 100"
definition MaxPageSize :: int where "MaxPageSize = 1000"

definition clampPageSize :: "int \<Rightarrow> int" where
  "clampPageSize n =
     (if n \<le> 0 then DefaultPageSize else if MaxPageSize < n then MaxPageSize else n)"

definition encodeCursor :: "string list \<Rightarrow> string" where
  "encodeCursor parts = RawURLEncode (join_byte (CHR 0x00) parts)"

definition invalid_cursor :: fleet_error where
  "invalid_cursor = NewInvalidArgumentError ''invalid cursor''"

definition decodeCursor :: "string \<Rightarrow> nat \<Rightarrow> fleet_error + string list" where
  "decodeCursor cursor n =
     (case RawURLDecode cursor of
        None \<Rightarrow> Inl invalid_cursor
      | Some raw \<Rightarrow>
          if \<not> utf8_ValidString raw then Inl invalid_cursor
          else let parts = split_byte (CHR 0x00) raw
               in if length parts \<noteq> n then Inl invalid_cursor else Inr parts)"

text \<open>The page \<open>ListRolloutDevices\<close> cuts, with the cursor of the next one.\<close>

definition page_offset :: "string \<Rightarrow> fleet_error + nat" where
  "page_offset cursor =
     (if cursor = [] then Inr 0
      else case decodeCursor cursor 1 of
        Inl e \<Rightarrow> Inl e
      | Inr parts \<Rightarrow>
          (case ParseInt64 (hd parts) of
             None \<Rightarrow> Inl invalid_cursor
           | Some z \<Rightarrow> if z < 0 then Inl invalid_cursor else Inr (nat z)))"

definition device_page :: "'a list \<Rightarrow> int \<Rightarrow> string \<Rightarrow> fleet_error + 'a list \<times> string" where
  "device_page devices pageSize cursor =
     (case page_offset cursor of
        Inl e \<Rightarrow> Inl e
      | Inr offset \<Rightarrow>
          if length devices \<le> offset then Inr ([], [])
          else
            let finish = min (offset + nat (clampPageSize pageSize)) (length devices);
                next = (if finish < length devices then encodeCursor [show_int (int finish)] else [])
            in Inr (take (finish - offset) (drop offset devices), next))"

text \<open>A client that asks for pages until the cursor comes back empty, at most \<open>fuel\<close> times.\<close>

fun read_pages :: "nat \<Rightarrow> 'a list \<Rightarrow> int \<Rightarrow> string \<Rightarrow> 'a list option" where
  "read_pages 0 devices psize cursor = None"
| "read_pages (Suc fuel) devices psize cursor =
     (case device_page devices psize cursor of
        Inl e \<Rightarrow> None
      | Inr (page, next) \<Rightarrow>
          if next = [] then Some page
          else map_option ((@) page) (read_pages fuel devices psize next))"

section \<open>The order of members\<close>

text \<open>Without NaN the comparison is a strict weak order, so the stable sort is determined.\<close>

definition measured :: "member_row set" where
  "measured = {m. m_EfficiencyJh m \<noteq> Some NaN}"

interpretation efficiency_order: strict_weak measured less_efficient
proof unfold_locales
  fix x y z
  show "x \<in> measured \<Longrightarrow> \<not> less_efficient x x"
    by (auto simp: less_efficient_def measured_def split: option.splits)
  show "x \<in> measured \<Longrightarrow> y \<in> measured \<Longrightarrow> less_efficient x y \<Longrightarrow> \<not> less_efficient y x"
    by (auto simp: less_efficient_def measured_def split: option.splits if_splits dest: fl_less_asym)
  show "less_efficient x y \<or> less_efficient y z"
    if "x \<in> measured" "y \<in> measured" "z \<in> measured" "less_efficient x z"
  proof (cases "m_EfficiencyJh x"; cases "m_EfficiencyJh y"; cases "m_EfficiencyJh z")
    fix a b c
    assume e: "m_EfficiencyJh x = Some a" "m_EfficiencyJh y = Some b" "m_EfficiencyJh z = Some c"
    then have n: "a \<noteq> NaN" "b \<noteq> NaN" "c \<noteq> NaN"
      using that by (auto simp: measured_def)
    show ?thesis
      using that e n fl_less_neg_trans [of b c a] fl_less_linear [of a b] fl_less_linear [of b c]
      by (auto simp: less_efficient_def split: if_splits)
  qed (use that in \<open>auto simp: less_efficient_def\<close>)
qed

lemma mset_swap_at: "mset (swap_at p xs) = mset xs"
  by (cases p) (auto simp: swap_at_def mset_swap)

lemma mset_shuffle: "mset (shuffle swaps xs) = mset xs"
  unfolding shuffle_def by (induction swaps arbitrary: xs) (simp_all add: mset_swap_at)

lemma mset_orderMembers: "mset (orderMembers swaps rows order) = mset (map m_DeviceID rows)"
  by (simp add: orderMembers_def mset_shuffle)

section \<open>Batches\<close>

lemma concat_split_batches: "0 < n \<Longrightarrow> concat (split_batches n xs) = xs"
proof (induction n xs rule: split_batches.induct)
  case (1 n xs)
  then show ?case by (subst split_batches.simps) auto
qed

lemma chunk_sizes: "c \<in> set (split_batches n xs) \<Longrightarrow> c \<noteq> [] \<and> length c \<le> n"
proof (induction n xs rule: split_batches.induct)
  case (1 n xs)
  then show ?case by (subst (asm) (2) split_batches.simps) (auto split: if_splits)
qed

text \<open>Only the last batch may be short.\<close>

lemma full_chunks: "c \<in> set (butlast (split_batches n xs)) \<Longrightarrow> length c = n"
proof (induction n xs rule: split_batches.induct)
  case (1 n xs)
  then show ?case
    by (subst (asm) (2) split_batches.simps) (auto simp: split_batches.simps [of n "drop n xs"] split: if_splits)
qed

lemma length_chunks: "0 < n \<Longrightarrow> length (split_batches n xs) = (length xs + n - 1) div n"
proof (induction n xs rule: split_batches.induct)
  case (1 n xs)
  show ?case
  proof (cases "length xs \<le> n")
    case True
    then have "split_batches n xs = (if xs = [] then [] else [xs])"
      using 1(2) by (simp add: split_batches.simps [of n xs] split_batches.simps [of n "[]"])
    moreover have "(length xs + n - 1) div n = (if xs = [] then 0 else 1)"
      using True 1(2) by (cases xs) (auto intro!: div_nat_eqI)
    ultimately show ?thesis by simp
  next
    case False
    then have "length xs + n - 1 = (length (drop n xs) + n - 1) + n"
      using 1(2) by simp
    then have "(length xs + n - 1) div n = Suc ((length (drop n xs) + n - 1) div n)"
      using 1(2) by (simp only: div_add_self2)
    moreover have "length (split_batches n xs) = Suc (length (split_batches n (drop n xs)))"
      using False 1(2) by (subst split_batches.simps) auto
    moreover have "length (split_batches n (drop n xs)) = (length (drop n xs) + n - 1) div n"
      using False 1 by (intro 1(1)) auto
    ultimately show ?thesis by simp
  qed
qed

lemma plan_concat:
  "plan_batches b ordered = Some p \<Longrightarrow> concat (bp_batches p) @ bp_rest p = ordered"
  by (auto simp: plan_batches_def Let_def concat_split_batches split: if_splits)

lemma plan_batches_cap: "plan_batches (b\<lparr>b_MaxConcurrentOffline := cap\<rparr>) ordered = plan_batches b ordered"
  by (simp add: plan_batches_def)

lemma plan_exists: "behavior_ok b \<Longrightarrow> plan_batches b ordered \<noteq> None"
  by (auto simp: plan_batches_def behavior_ok_def method_ok_def Let_def)

definition batch_limit :: "Behavior \<Rightarrow> int" where
  "batch_limit b = (if b_Method b = MethodPilotThenContinue then b_PilotSize b else b_BatchSize b)"

lemma plan_sizes:
  assumes "plan_batches b ordered = Some p" "behavior_ok b" "ordered \<noteq> []" "c \<in> set (bp_batches p)"
  shows "c \<noteq> [] \<and> int (length c) \<le> batch_limit b"
proof (cases "b_Method b = MethodPilotThenContinue")
  case True
  then have "1 \<le> b_PilotSize b"
    using assms(2) by (auto simp: behavior_ok_def method_ok_def)
  moreover have "1 \<le> int (length ordered)"
    using assms(3) by (cases ordered) auto
  ultimately show ?thesis
    using True assms by (auto simp: plan_batches_def Let_def batch_limit_def min_def split: if_splits)
next
  case False
  with assms have "b_Method b = MethodBatched" "c \<in> set (split_batches (nat (b_BatchSize b)) ordered)"
      "1 \<le> b_BatchSize b"
    by (auto simp: plan_batches_def split: if_splits)
  with False show ?thesis
    using chunk_sizes [of c "nat (b_BatchSize b)" ordered] by (simp add: batch_limit_def) linarith
qed

section \<open>The rows of a new rollout\<close>

definition positions_from :: "nat \<Rightarrow> nat \<Rightarrow> int option list" where
  "positions_from offset n = map (\<lambda>k. Some (int (offset + k + 1))) [0 ..< n]"

lemma positions_append:
  "positions_from offset (m + n) = positions_from offset m @ positions_from (offset + m) n"
  by (auto simp: positions_from_def nth_append intro!: nth_equalityI)

lemma map_snapshot_rows:
  "map rd_DeviceID (snapshot_rows health t batch offset ids) = ids"
  "map rd_BatchIndex (snapshot_rows health t batch offset ids) = replicate (length ids) batch"
  "map rd_Position (snapshot_rows health t batch offset ids) =
     positions_from offset (length ids)"
  by (auto simp: snapshot_rows_def snapshot_row_def new_row_def enumerate_eq_zip positions_from_def
      intro!: nth_equalityI)

lemma map_snapshot_batches:
  "map rd_DeviceID (snapshot_batches health t k offset bs) = concat bs"
  "map rd_BatchIndex (snapshot_batches health t k offset bs) =
     concat (map (\<lambda>(i, c). replicate c (Some (int i))) (enumerate k (map length bs)))"
  "map rd_Position (snapshot_batches health t k offset bs) =
     positions_from offset (length (concat bs))"
proof (induction bs arbitrary: k offset)
  case Nil
  {
    case 1 then show ?case by simp
  next
    case 2 then show ?case by simp
  next
    case 3 then show ?case by (simp add: positions_from_def)
  }
next
  case (Cons ids bs)
  {
    case 1 then show ?case by (simp add: map_snapshot_rows Cons)
  next
    case 2 then show ?case by (simp add: map_snapshot_rows Cons)
  next
    case 3 then show ?case by (simp add: map_snapshot_rows Cons positions_append)
  }
qed

lemma map_plan_rows:
  "map rd_DeviceID (plan_rows health t p) = concat (bp_batches p) @ bp_rest p"
  "map rd_BatchIndex (plan_rows health t p) =
     concat (map (\<lambda>(i, c). replicate c (Some (int i))) (enumerate 0 (map length (bp_batches p)))) @
     replicate (length (bp_rest p)) None"
  "map rd_Position (plan_rows health t p) =
     positions_from 0 (length (concat (bp_batches p)) + length (bp_rest p))"
  by (simp_all add: plan_rows_def map_snapshot_rows map_snapshot_batches positions_append)

text \<open>
  A started rollout: the rows hold every member once, in order; the batches come first, none empty
  and none above the configured size, and the rest is in no batch; the rollout stands in its first
  batch, or in the rest stage when there is none.
\<close>

definition well_started :: "rolloutSpec \<Rightarrow> rollout_start \<Rightarrow> bool" where
  "well_started spec s \<longleftrightarrow>
     (let rows = rs_rows s; r = rs_rollout s; b = sp_Behavior spec
      in mset (map rd_DeviceID rows) = mset (map m_DeviceID (sp_Members spec)) \<and>
         map rd_Position rows = positions_from 0 (length rows) \<and>
         (\<exists>sizes. r_BatchCount r = int (length sizes) \<and>
            list_all (\<lambda>c. 0 < c \<and> int c \<le> batch_limit b) sizes \<and>
            map rd_BatchIndex rows =
              concat (map (\<lambda>(i, c). replicate c (Some (int i))) (enumerate 0 sizes)) @
              replicate (length rows - sum_list sizes) None \<and>
            r_Stage r = (if sizes = [] then StageRest else StageBatch)) \<and>
         r_Status r = StatusActive \<and> r_CurrentBatch r = 0 \<and>
         list_all (\<lambda>d. rd_Attempts d = 0 \<and> \<not> d_settled d \<and> \<not> d_excluded d) rows)"

lemma snapshot_fresh:
  "d \<in> set (snapshot_rows health t batch offset ids) \<Longrightarrow>
     rd_Attempts d = 0 \<and> \<not> d_settled d \<and> \<not> d_excluded d"
  by (auto simp: snapshot_rows_def snapshot_row_def new_row_def row_defs)

lemma snapshot_batches_fresh:
  "d \<in> set (snapshot_batches health t k offset bs) \<Longrightarrow>
     rd_Attempts d = 0 \<and> \<not> d_settled d \<and> \<not> d_excluded d"
  by (induction bs arbitrary: k offset) (auto dest: snapshot_fresh)

lemma plan_rows_fresh:
  "list_all (\<lambda>d. rd_Attempts d = 0 \<and> \<not> d_settled d \<and> \<not> d_excluded d) (plan_rows health t p)"
  by (auto simp: plan_rows_def list_all_iff dest: snapshot_fresh snapshot_batches_fresh)

lemma length_plan_rows:
  "length (plan_rows health t p) = length (concat (bp_batches p)) + length (bp_rest p)"
  using arg_cong [OF map_plan_rows(1) [of health t p], of length] by simp

lemma started_well:
  assumes "startRollout swaps health now dbnow newID cap spec = Some (Some s)"
    and "behavior_ok (sp_Behavior spec)"
  shows "well_started spec s"
proof -
  let ?o = "orderMembers swaps (sp_Members spec) (b_Order (sp_Behavior spec))"
  from assms(1) obtain p where p: "plan_batches (sp_Behavior spec) ?o = Some p"
      and ne: "sp_Members spec \<noteq> []"
      and s: "rs_rows s = plan_rows health dbnow p" "r_BatchCount (rs_rollout s) = int (length (bp_batches p))"
        "r_Stage (rs_rollout s) = first_stage p" "r_Status (rs_rollout s) = StatusActive"
        "r_CurrentBatch (rs_rollout s) = 0"
    by (auto simp: startRollout_def Let_def plan_batches_cap split: if_splits)
  have "?o \<noteq> []"
    using ne mset_orderMembers [of swaps "sp_Members spec"]
    by (metis list.map_disc_iff mset_zero_iff)
  then have sizes: "list_all (\<lambda>c. 0 < c \<and> int c \<le> batch_limit (sp_Behavior spec)) (map length (bp_batches p))"
    using plan_sizes [OF p assms(2)] by (auto simp: list_all_iff)
  have "sum_list (map length (bp_batches p)) = length (concat (bp_batches p))"
    by (simp add: length_concat)
  then have "length (bp_rest p) = length (rs_rows s) - sum_list (map length (bp_batches p))"
    by (simp add: s length_plan_rows)
  then show ?thesis
    unfolding well_started_def Let_def
    using s sizes map_plan_rows [of health dbnow p] plan_concat [OF p] plan_rows_fresh mset_orderMembers
    by (auto simp: first_stage_def length_plan_rows intro!: exI [of _ "map length (bp_batches p)"])
qed

section \<open>Previews\<close>

text \<open>The previewed number of batches is the planned one unless the sum overflows.\<close>

lemma preview_matches_plan:
  assumes "plan_batches b ordered = Some p" "ordered \<noteq> []"
    and "int (length ordered) + b_BatchSize b < 2 ^ 31"
  shows "preview_BatchCount b (int (length ordered)) = int (length (bp_batches p))"
proof (cases "b_Method b = MethodBatched")
  case True
  then have size: "1 \<le> b_BatchSize b" and p: "bp_batches p = split_batches (nat (b_BatchSize b)) ordered"
    using assms(1) by (auto simp: plan_batches_def split: if_splits)
  have "wrap32 (wrap32 (int (length ordered) + b_BatchSize b) - 1) =
      int (length ordered) + b_BatchSize b - 1"
    using assms size by (simp add: wrap32_id)
  moreover have "int (length (split_batches (nat (b_BatchSize b)) ordered)) =
      (int (length ordered) + b_BatchSize b - 1) div b_BatchSize b"
    using size by (simp add: length_chunks zdiv_int nat_add_distrib of_nat_diff)
  ultimately show ?thesis
    using True p size by (simp add: preview_BatchCount_def go_quot_def)
next
  case False
  with assms show ?thesis
    by (auto simp: preview_BatchCount_def plan_batches_def Let_def split: if_splits)
qed

section \<open>Cursors and pages\<close>

definition cursor_parts :: "string list \<Rightarrow> bool" where
  "cursor_parts parts \<longleftrightarrow>
     parts \<noteq> [] \<and> list_all (\<lambda>p. utf8_ValidString p \<and> CHR 0x00 \<notin> set p) parts"

lemma cursor_decodes:
  "cursor_parts parts \<Longrightarrow> decodeCursor (encodeCursor parts) (length parts) = Inr parts"
  by (auto simp: decodeCursor_def encodeCursor_def RawURL_round_trip cursor_parts_def list_all_iff
      utf8_valid_join split_join Let_def)

lemma b64_encode_empty: "b64_encode xs = [] \<longleftrightarrow> xs = []"
  by (cases xs rule: b64_encode.cases) auto

lemma encodeCursor_nonempty: "p \<noteq> [] \<Longrightarrow> encodeCursor [p] \<noteq> []"
  by (simp add: encodeCursor_def RawURLEncode_def b64_encode_empty)

lemma show_int_nonempty: "show_int z \<noteq> []"
  by (simp add: show_int_def)

lemma page_offset_of:
  assumes "n < 2 ^ 63"
  shows "page_offset (encodeCursor [show_int (int n)]) = Inr n"
proof -
  have "cursor_parts [show_int (int n)]"
    using show_int_ascii [of "CHR 0x00"] by (auto simp: cursor_parts_def show_int_valid)
  from cursor_decodes [OF this] have "decodeCursor (encodeCursor [show_int (int n)]) 1 = Inr [show_int (int n)]"
    by simp
  moreover have "int n < 2 ^ 63"
    using assms by (metis of_nat_less_iff of_nat_numeral of_nat_power)
  ultimately show ?thesis
    using encodeCursor_nonempty [OF show_int_nonempty]
    by (simp add: page_offset_def ParseInt_show)
qed

lemma clamp_positive: "0 < clampPageSize n" "clampPageSize n \<le> MaxPageSize"
  by (simp_all add: clampPageSize_def DefaultPageSize_def MaxPageSize_def)

lemma pages_from:
  assumes "length devices < 2 ^ 63" "page_offset cursor = Inr off" "length devices - off < fuel"
  shows "read_pages fuel devices psize cursor = Some (drop off devices)"
  using assms(2,3)
proof (induction fuel arbitrary: cursor off)
  case 0
  then show ?case by simp
next
  case (Suc fuel)
  let ?stop = "min (off + nat (clampPageSize psize)) (length devices)"
  have step: "0 < nat (clampPageSize psize)"
    using clamp_positive(1) [of psize] by simp
  show ?case
  proof (cases "off < length devices \<and> ?stop < length devices")
    case True
    have "page_offset (encodeCursor [show_int (int ?stop)]) = Inr ?stop"
      using True assms(1) by (intro page_offset_of) simp
    then have "read_pages fuel devices psize (encodeCursor [show_int (int ?stop)]) = Some (drop ?stop devices)"
      using Suc True step by (intro Suc.IH) auto
    moreover have "take (?stop - off) (drop off devices) @ drop ?stop devices = drop off devices"
      using True step append_take_drop_id [of "?stop - off" "drop off devices"] by auto
    ultimately show ?thesis
      using True Suc.prems encodeCursor_nonempty [OF show_int_nonempty]
      by (simp add: device_page_def Let_def)
  next
    case False
    then show ?thesis
      using Suc.prems by (auto simp: device_page_def Let_def)
  qed
qed

section \<open>Properties\<close>


text \<open>
  A cursor made of valid text parts without a zero byte decodes to the same parts, and a client
  that follows the cursors of a listing reads every device exactly once and in order, whatever page
  size it asks for.
\<close>

theorem cursors_and_pages_round_trip:
  assumes "cursor_parts parts" and "length devices < 2 ^ 63"
  shows "decodeCursor (encodeCursor parts) (length parts) = Inr parts \<and>
    read_pages (Suc (length devices)) devices psize [] = Some devices"
proof -
  have "page_offset [] = Inr 0" by (simp add: page_offset_def)
  from pages_from [OF assms(2) this, of "Suc (length devices)" psize] show ?thesis
    using cursor_decodes [OF assms(1)] by simp
qed

lemma cursors_and_pages_round_trip_witness:
  "decodeCursor (encodeCursor [''rig-7'', ''42'']) 2 = Inr [''rig-7'', ''42''] \<and>
   read_pages 4 [10, 20, 30 :: int] 2 [] = Some [10, 20, 30]"
proof -
  have p: "cursor_parts [''rig-7'', ''42'']" by code_simp
  have d: "length [10, 20, 30 :: int] < 2 ^ 63" by simp
  have l: "length [''rig-7'', ''42''] = 2" "Suc (length [10, 20, 30 :: int]) = 4" by simp_all
  show ?thesis
    using cursors_and_pages_round_trip [OF p d, of 2] unfolding l .
qed

text \<open>
  A preview of two miners in batches of \<open>2^31 - 1\<close> reports a negative number of batches, while
  the rollout has one: the \<open>int32\<close> sum wraps.
\<close>

definition huge_batches :: Behavior where
  "huge_batches = allAtOnce\<lparr>b_Method := MethodBatched, b_BatchSize := 2147483647\<rparr>"

lemma preview_overflows:
  "behavior_ok huge_batches" "preview_BatchCount huge_batches 2 = -1"
  "map_option (\<lambda>p. length (bp_batches p)) (plan_batches huge_batches [7, 8]) = Some 1"
proof -
  show "behavior_ok huge_batches"
    by (simp add: behavior_ok_def huge_batches_def allAtOnce_def method_ok_def ungated_def no_thresholds_ok)
  show "preview_BatchCount huge_batches 2 = -1"
    by (simp add: preview_BatchCount_def huge_batches_def allAtOnce_def go_quot_def wrap32_def)
  show "map_option (\<lambda>p. length (bp_batches p)) (plan_batches huge_batches [7, 8]) = Some 1"
    by (simp add: plan_batches_def huge_batches_def allAtOnce_def length_chunks)
qed

end
