(* ===== verification/Rollout_Engine.thy ===== *)
theory Rollout_Engine
  imports Rollout_Plan
begin

text \<open>
  The enforcement loop of a rollout (\<open>rollout/enforce.go\<close>): reconciling its targets with the
  channel, latching convergence, failing exhausted miners, sending updates within the channel's
  offline budget, and moving the rollout through its stages.

  \<open>rollout_db\<close> is what the transactions write: the rollout, its device rows in listing order, the
  channel's reservations and offline cap, the pair's assignment and the event log. Each
  transaction holds the row locks until it commits, so it is one step on this state; where a
  statement fails, or the body returns an error, nothing is written. \<open>tx_env\<close> is what a
  transaction reads of the rest of the fleet: the clocks, the device reads (a later read in
  the same transaction may differ), the files, the queue, and what the command service answers.
  The statements are those of \<open>sqlc/queries/release_channel.sql\<close> and
  \<open>release_channel_delegated.sql\<close>. The database's triggers advance the revision; nothing here
  depends on its value beyond the check a caller asks for.
\<close>

section \<open>State and environment\<close>

record reservation =
  rv_DeviceID :: int
  rv_BatchUuid :: string
  rv_ObservedOffline :: bool

record channel_firmware =
  as_FirmwareChecksum :: string
  as_FirmwareVersion :: string
  as_AssignmentGeneration :: int

record rollout_event =
  re_Type :: string
  re_Actor :: Actor
  re_Note :: string
  re_DeviceIdentifiers :: "string list"

record rollout_db =
  st_rollout :: firmware_rollout
  st_rows :: "device_row list"
  st_reservations :: "reservation list"
  st_cap :: int
  st_assignment :: "channel_firmware option"
  st_events :: "rollout_event list"

record tx_env =
  e_now :: gotime
  e_dbnow :: gotime
  e_fails :: bool
  e_live :: "nat \<Rightarrow> int \<Rightarrow> device_live"
  e_ownFiles :: "string list"
  e_fileAvailable :: bool
  e_deleted :: "int \<Rightarrow> bool"
  e_queued :: "int \<Rightarrow> string \<Rightarrow> bool"
  e_otherTargets :: "int list"
  e_joiners :: "int list"
  e_command :: "string list \<Rightarrow> (string list \<times> string) option"
  e_pinned :: bool
  e_suppressed :: "(int \<times> string) list"
  e_priorRow :: "int \<Rightarrow> device_row option"
  e_completions :: "(int \<times> gotime) list"

datatype rollout_error = RErr (re_code: grpc_code) (re_reason: string) (re_devices: "string list")

abbreviation "failed_precondition why \<equiv> RErr CodeFailedPrecondition why []"
abbreviation "internal_error \<equiv> RErr CodeInternal [] []"

type_synonym 'a tx = "rollout_db \<Rightarrow> rollout_error + 'a \<times> rollout_db"

definition run_tx :: "tx_env \<Rightarrow> 'a tx \<Rightarrow> rollout_db \<Rightarrow> (rollout_error + 'a) \<times> rollout_db" where
  "run_tx e body s =
     (if e_fails e then (Inl internal_error, s)
      else case body s of Inl err \<Rightarrow> (Inl err, s) | Inr (a, s') \<Rightarrow> (Inr a, s'))"

section \<open>Statements\<close>

definition update_where :: "(device_row \<Rightarrow> bool) \<Rightarrow> (device_row \<Rightarrow> device_row) \<Rightarrow> device_row list \<Rightarrow> device_row list" where
  "update_where P f ds = map (\<lambda>d. if P d then f d else d) ds"

definition ExcludeDevices :: "gotime \<Rightarrow> int list \<Rightarrow> device_row list \<Rightarrow> device_row list" where
  "ExcludeDevices now ids =
     update_where (\<lambda>d. rd_DeviceID d \<in> set ids \<and> rd_ExcludedAt d = None) (\<lambda>d. d\<lparr>rd_ExcludedAt := Some now\<rparr>)"

definition ReincludeDevices :: "int list \<Rightarrow> device_row list \<Rightarrow> device_row list" where
  "ReincludeDevices ids =
     update_where (\<lambda>d. rd_DeviceID d \<in> set ids \<and> rd_ExcludedAt d \<noteq> None)
       (\<lambda>d. d\<lparr>rd_ExcludedAt := None, rd_VerifiedAt := None\<rparr>)"

text \<open>Late joiners sort last: they have no position.\<close>

definition AppendDevices :: "int list \<Rightarrow> device_row list \<Rightarrow> device_row list" where
  "AppendDevices ids ds =
     ds @ map new_row (remdups (filter (\<lambda>i. i \<notin> rd_DeviceID ` set ds) ids))"

definition MarkVerified :: "gotime \<Rightarrow> int list \<Rightarrow> device_row list \<Rightarrow> device_row list" where
  "MarkVerified now ids =
     update_where (\<lambda>d. rd_DeviceID d \<in> set ids \<and> rd_VerifiedAt d = None) (\<lambda>d. d\<lparr>rd_VerifiedAt := Some now\<rparr>)"

definition Unverify :: "int list \<Rightarrow> device_row list \<Rightarrow> device_row list" where
  "Unverify ids =
     update_where (\<lambda>d. rd_DeviceID d \<in> set ids \<and> rd_VerifiedAt d \<noteq> None) (\<lambda>d. d\<lparr>rd_VerifiedAt := None\<rparr>)"

definition HaltDevices :: "gotime \<Rightarrow> int list \<Rightarrow> string \<Rightarrow> string \<Rightarrow> device_row list \<Rightarrow> device_row list" where
  "HaltDevices now ids why err =
     update_where (\<lambda>d. rd_DeviceID d \<in> set ids \<and> rd_HaltedAt d = None)
       (\<lambda>d. d\<lparr>rd_HaltedAt := Some now, rd_HaltReason := why, rd_LastError := err, rd_SkipNote := []\<rparr>)"

definition greatest :: "gotime option \<Rightarrow> gotime option \<Rightarrow> gotime \<Rightarrow> gotime" where
  "greatest a b c =
     max (case a of Some x \<Rightarrow> x | None \<Rightarrow> c) (max (case b of Some x \<Rightarrow> x | None \<Rightarrow> c) c)"

definition sent_row :: "gotime \<Rightarrow> int list \<Rightarrow> string \<Rightarrow> device_row \<Rightarrow> device_row" where
  "sent_row now dispatched uuid d =
     (let t = greatest (rd_LastSentAt d) (rd_LastDispatchedAt d) now;
          d' = d\<lparr>rd_Attempts := rd_Attempts d + 1,
                 rd_FirstSentAt := (case rd_FirstSentAt d of Some x \<Rightarrow> Some x | None \<Rightarrow> Some t),
                 rd_LastSentAt := Some t\<rparr>
      in if rd_DeviceID d \<in> set dispatched
         then d'\<lparr>rd_LastDispatchedAt := Some t,
                 rd_LastDispatchedBatchUuid := (if uuid = [] then None else Some uuid)\<rparr>
         else d')"

definition MarkSentRows :: "gotime \<Rightarrow> int list \<Rightarrow> int list \<Rightarrow> string \<Rightarrow> device_row list \<Rightarrow> device_row list" where
  "MarkSentRows now ids dispatched uuid =
     update_where (\<lambda>d. rd_DeviceID d \<in> set ids) (sent_row now dispatched uuid)"

definition AddReservations :: "int list \<Rightarrow> string \<Rightarrow> reservation list \<Rightarrow> reservation list" where
  "AddReservations ids uuid rs =
     (if uuid = [] then rs
      else rs @ map (\<lambda>i. \<lparr>rv_DeviceID = i, rv_BatchUuid = uuid, rv_ObservedOffline = False\<rparr>)
        (filter (\<lambda>i. \<not> list_ex (\<lambda>v. rv_DeviceID v = i \<and> rv_BatchUuid v = uuid) rs) ids))"

definition MarkSent :: "gotime \<Rightarrow> int list \<Rightarrow> int list \<Rightarrow> string \<Rightarrow> rollout_db \<Rightarrow> rollout_db" where
  "MarkSent now ids dispatched uuid s =
     s\<lparr>st_rows := MarkSentRows now ids dispatched uuid (st_rows s),
       st_reservations := AddReservations dispatched uuid (st_reservations s)\<rparr>"

definition status_offline :: "string \<Rightarrow> bool" where
  "status_offline v \<longleftrightarrow> v \<in> {'''', ''OFFLINE'', ''UNKNOWN'', ''UPDATING''}"

definition ObserveOffline :: "tx_env \<Rightarrow> (int \<Rightarrow> device_live) \<Rightarrow> reservation list \<Rightarrow> reservation list" where
  "ObserveOffline e live rs =
     map (\<lambda>v. if \<not> e_deleted e (rv_DeviceID v) \<and> status_offline (lv_Status (live (rv_DeviceID v)))
              then v\<lparr>rv_ObservedOffline := True\<rparr> else v) rs"

text \<open>
  A device holds a slot while it is an offline member some rollout of the channel targets, or while
  a reservation of it is unresolved.
\<close>

definition slot_reserved :: "tx_env \<Rightarrow> (int \<Rightarrow> device_live) \<Rightarrow> reservation \<Rightarrow> bool" where
  "slot_reserved e live v \<longleftrightarrow>
     \<not> e_deleted e (rv_DeviceID v) \<and>
     (status_offline (lv_Status (live (rv_DeviceID v))) \<or>
      (\<not> rv_ObservedOffline v \<and> e_queued e (rv_DeviceID v) (rv_BatchUuid v)))"

definition OfflineSlots :: "tx_env \<Rightarrow> (int \<Rightarrow> device_live) \<Rightarrow> rollout_db \<Rightarrow> int list" where
  "OfflineSlots e live s =
     remdups
       (filter (\<lambda>i. \<not> e_deleted e i \<and> lv_IsChannelMember (live i) \<and> status_offline (lv_Status (live i)))
          (map rd_DeviceID (st_rows s) @ e_otherTargets e) @
        map rv_DeviceID (filter (slot_reserved e live) (st_reservations s)))"

text \<open>\<open>AdvanceFirmwareRolloutStage\<close>; \<open>None\<close> is no row.\<close>

definition AdvanceStage ::
  "gotime \<Rightarrow> string \<Rightarrow> string \<Rightarrow> int \<Rightarrow> gotime \<Rightarrow> int \<Rightarrow> Actor option \<Rightarrow> firmware_rollout \<Rightarrow>
   firmware_rollout option" where
  "AdvanceStage now from stage batch changedAt pausedUs actor r =
     (if r_Status r = StatusActive \<and> r_Stage r = from \<and> r_PausedAt r = None \<and>
         r_StageChangedAt r = changedAt \<and> r_StagePausedMicroseconds r = pausedUs
      then Some (r\<lparr>r_Stage := stage, r_CurrentBatch := batch,
             r_StageChangedAt := max (r_StageChangedAt r) now, r_StagePausedMicroseconds := 0,
             r_LastActionBy := (case actor of Some a \<Rightarrow> a | None \<Rightarrow> r_LastActionBy r)\<rparr>)
      else None)"

definition finish_time :: "gotime \<Rightarrow> firmware_rollout \<Rightarrow> gotime" where
  "finish_time now r = max (r_CreatedAt r) (greatest (Some (r_StageChangedAt r)) (r_PausedAt r) now)"

definition FinishRollout :: "gotime \<Rightarrow> string \<Rightarrow> firmware_rollout \<Rightarrow> firmware_rollout option" where
  "FinishRollout now status r =
     (if r_Status r = StatusActive \<and> r_PausedAt r = None
      then Some (r\<lparr>r_Status := status, r_FinishedAt := Some (finish_time now r), r_PausedAt := None\<rparr>)
      else None)"

section \<open>Events\<close>

text \<open>The loop of \<open>persistRolloutEvent\<close>: one event per thousand identifiers, at least one.\<close>

function event_batches :: "string list \<Rightarrow> string list list" where
  "event_batches ids =
     (if length ids \<le> 1000 then [ids] else take 1000 ids # event_batches (drop 1000 ids))"
  by pat_completeness auto

termination event_batches
  by (relation "measure length") auto

declare event_batches.simps [simp del]

definition log_event :: "string \<Rightarrow> Actor \<Rightarrow> string \<Rightarrow> string list \<Rightarrow> rollout_db \<Rightarrow> rollout_db" where
  "log_event kind actor note ids s =
     s\<lparr>st_events := st_events s @
        map (\<lambda>b. \<lparr>re_Type = kind, re_Actor = actor, re_Note = note, re_DeviceIdentifiers = b\<rparr>)
          (event_batches ids)\<rparr>"

section \<open>Preparation\<close>

definition read_targets :: "tx_env \<Rightarrow> nat \<Rightarrow> rollout_db \<Rightarrow> rollout_target list" where
  "read_targets e n s = listTargets (st_rollout s) (e_ownFiles e) (e_live e n) (st_rows s)"

definition target_ids :: "(rollout_target \<Rightarrow> bool) \<Rightarrow> rollout_target list \<Rightarrow> int list" where
  "target_ids P ts = map t_DeviceID (filter P ts)"

text \<open>Each step takes the targets read before it and the number of the next read.\<close>

definition excludeDepartedTargets ::
  "tx_env \<Rightarrow> nat \<Rightarrow> rollout_target list \<Rightarrow> rollout_db \<Rightarrow> rollout_target list \<times> rollout_db" where
  "excludeDepartedTargets e n ts s =
     (let leavers = target_ids (\<lambda>t. \<not> lv_IsChannelMember (t_live t) \<and> \<not> d_excluded (t_row t)) ts
      in if leavers = [] then (ts, s)
         else let s' = s\<lparr>st_rows := ExcludeDevices (e_dbnow e) leavers (st_rows s)\<rparr>
              in (read_targets e n s', s'))"

definition syncMembership :: "tx_env \<Rightarrow> rollout_db \<Rightarrow> rollout_target list \<times> rollout_db" where
  "syncMembership e s =
     (case excludeDepartedTargets e 1 (read_targets e 0 s) s of
        (ts, s) \<Rightarrow>
          if bs_Method (r_BehaviorSnapshot (st_rollout s)) = MethodDelegated then (ts, s)
          else
            let returners = target_ids (\<lambda>t. lv_IsChannelMember (t_live t) \<and> d_excluded (t_row t)) ts;
                s1 = (if returners = [] then s
                      else s\<lparr>st_rows := ReincludeDevices returners (st_rows s)\<rparr>);
                s2 = (if e_joiners e = [] then s1
                      else s1\<lparr>st_rows := AppendDevices (e_joiners e) (st_rows s1)\<rparr>)
            in if returners = [] \<and> e_joiners e = [] then (ts, s2) else (read_targets e 2 s2, s2))"

text \<open>
  The targets whose provenance is recorded. The record itself is kept with the device, outside the
  rollout's rows; the read after it shows it.
\<close>

definition provenance_due :: "firmware_rollout \<Rightarrow> bool \<Rightarrow> rollout_target \<Rightarrow> bool" where
  "provenance_due r terminal t \<longleftrightarrow>
     (let l = t_live t; d = t_row t;
          knownDeployment = (lv_LastDeployedAt l \<noteq> None \<and> lv_LastDeployedFirmwareChecksum l \<noteq> [] \<and>
            lv_LastDeployedFirmwareVersion l \<noteq> [])
      in (terminal \<or> (\<not> d_excluded d \<and> \<not> d_halted d)) \<and> rd_LastDispatchedAt d \<noteq> None \<and>
         reportsTarget t r \<and> \<not> t_foreignCommand t \<and>
         (lv_LastDispatchSucceeded l \<or>
          (\<not> terminal \<and> lv_InScope l = Some True \<and> knownDeployment \<and>
           lv_LastDeployedFirmwareVersion l \<noteq> r_FirmwareVersion r)) \<and>
         (lv_LastDeployedAt l = None \<or> lv_LastDeployedFirmwareChecksum l = [] \<or>
          (case (lv_LastDeployedAt l, rd_LastDispatchedAt d) of
             (Some x, Some y) \<Rightarrow> \<not> time_after x y | _ \<Rightarrow> True)) \<and>
         lv_LastDeployedFirmwareChecksum l \<noteq> r_FirmwareChecksum r)"

definition recordDeploymentProvenance ::
  "tx_env \<Rightarrow> nat \<Rightarrow> bool \<Rightarrow> rollout_target list \<Rightarrow> rollout_db \<Rightarrow> int list \<times> rollout_target list" where
  "recordDeploymentProvenance e n terminal ts s =
     (let deployed = target_ids (provenance_due (st_rollout s) terminal) ts
      in (deployed, if deployed = [] then ts else read_targets e n s))"

definition drifted :: "firmware_rollout \<Rightarrow> rollout_target \<Rightarrow> bool" where
  "drifted r t \<longleftrightarrow>
     \<not> reportsTarget t r \<or> lv_LastDeployedFirmwareChecksum (t_live t) \<noteq> r_FirmwareChecksum r \<or>
     t_foreignCommand t"

text \<open>Excluded and halted miners are passed over, as are a delegated rollout's unsent and verified ones.\<close>

definition convergence_open :: "firmware_rollout \<Rightarrow> rollout_target \<Rightarrow> bool" where
  "convergence_open r t \<longleftrightarrow>
     \<not> (d_excluded (t_row t) \<or> d_halted (t_row t) \<or>
        (bs_Method (r_BehaviorSnapshot r) = MethodDelegated \<and>
         (rd_Attempts (t_row t) = 0 \<or> d_verified (t_row t))))"

definition recordConvergence ::
  "tx_env \<Rightarrow> nat \<Rightarrow> rollout_target list \<Rightarrow> rollout_db \<Rightarrow> rollout_target list \<times> rollout_db" where
  "recordConvergence e n ts s =
     (let r = st_rollout s;
          away = target_ids (\<lambda>t. convergence_open r t \<and> d_verified (t_row t) \<and> drifted r t) ts;
          arrived = target_ids (\<lambda>t. convergence_open r t \<and> \<not> d_verified (t_row t) \<and> meetsConvergence t r) ts;
          s1 = (if away = [] then s else s\<lparr>st_rows := Unverify away (st_rows s)\<rparr>);
          s2 = (if arrived = [] then s1
                else s1\<lparr>st_rows := MarkVerified (e_dbnow e) arrived (st_rows s1)\<rparr>)
      in if away = [] \<and> arrived = [] then (ts, s2) else (read_targets e n s2, s2))"

definition set_controller_wait :: "gotime option \<Rightarrow> rollout_db \<Rightarrow> rollout_db" where
  "set_controller_wait w s = s\<lparr>st_rollout := (st_rollout s)\<lparr>r_ControllerWaitingSince := w\<rparr>\<rparr>"

text \<open>\<open>prepareRollout\<close>: \<open>None\<close> for a rollout that has ended.\<close>

definition prepareRollout :: "tx_env \<Rightarrow> rollout_target list option tx" where
  "prepareRollout e s =
     (if r_Status (st_rollout s) \<noteq> StatusActive then Inr (None, s)
      else case syncMembership e s of (ts, s) \<Rightarrow>
        (case recordDeploymentProvenance e 3 False ts s of (_, ts) \<Rightarrow>
           (case recordConvergence e 4 ts s of (ts, s) \<Rightarrow>
              let r = st_rollout s
              in Inr (Some ts,
                   if bs_Method (r_BehaviorSnapshot r) = MethodDelegated \<and> r_PausedAt r = None \<and>
                      r_ControllerWaitingSince r = None \<and> \<not> hasUpdatesInFlight r ts
                   then set_controller_wait (Some (e_now e)) s else s))))"

section \<open>Dispatch\<close>

definition resendInterval :: duration where
  "resendInterval = 600 * second"

record offlineBudget =
  ob_limit :: int
  ob_held :: "int list"

text \<open>\<open>room\<close>; \<open>None\<close> is unlimited (\<open>-1\<close> in the code).\<close>

definition room :: "offlineBudget option \<Rightarrow> nat option" where
  "room b =
     (case b of
        None \<Rightarrow> None
      | Some b \<Rightarrow> if ob_limit b \<le> 0 then None else Some (nat (ob_limit b) - length (ob_held b)))"

definition reserve :: "offlineBudget \<Rightarrow> int \<Rightarrow> offlineBudget" where
  "reserve b i = (if i \<in> set (ob_held b) then b else b\<lparr>ob_held := ob_held b @ [i]\<rparr>)"

definition refreshOfflineBudget ::
  "tx_env \<Rightarrow> rollout_db \<Rightarrow> offlineBudget option \<times> rollout_db" where
  "refreshOfflineBudget e s =
     (let s' = s\<lparr>st_reservations := ObserveOffline e (e_live e 0) (st_reservations s)\<rparr>
      in (if st_cap s \<le> 0 then None
          else Some (foldl reserve \<lparr>ob_limit = st_cap s, ob_held = []\<rparr> (OfflineSlots e (e_live e 0) s')),
          s'))"

datatype verdict = Leave | Incompatible | Exhausted | Due

definition judge_target :: "gotime \<Rightarrow> rollout_target \<Rightarrow> verdict" where
  "judge_target now t =
     (let d = t_row t; l = t_live t; cutoff = time_add now (- resendInterval)
      in if d_settled d then Leave
         else if lv_PendingFirmwareChecksums l \<noteq> [] \<or> lv_PendingLegacyFirmwareFileIds l \<noteq> [] then Leave
         else if set_and (rd_LastSentAt d) (\<lambda>x. \<not> time_before x cutoff) then Leave
         else if lv_InScope l \<noteq> Some True then Incompatible
         else if MaxAttempts \<le> rd_Attempts d then Exhausted
         else Due)"

definition judged :: "gotime \<Rightarrow> verdict \<Rightarrow> rollout_target list \<Rightarrow> int list" where
  "judged now v scope = target_ids (\<lambda>t. judge_target now t = v) scope"

definition cap_list :: "nat option \<Rightarrow> 'a list \<Rightarrow> 'a list" where
  "cap_list k xs = (case k of None \<Rightarrow> xs | Some n \<Rightarrow> take n xs)"

definition byID :: "rollout_target list \<Rightarrow> int \<Rightarrow> string" where
  "byID scope i =
     (case map_of (rev (map (\<lambda>t. (t_DeviceID t, t_DeviceIdentifier t)) scope)) i of
        Some n \<Rightarrow> n | None \<Rightarrow> [])"

abbreviation "incompatible_text \<equiv> ''Reported manufacturer or model changed before the update verified; no further update was sent. Review this miner's identity and firmware compatibility before retrying.''"

definition exhausted_text :: "firmware_rollout \<Rightarrow> string" where
  "exhausted_text r =
     ''Did not report '' @ r_FirmwareVersion r @ '' after '' @ show_int MaxAttempts @ '' update attempts''"

text \<open>The miners failed before anything is sent, with their event.\<close>

definition fail_targets :: "tx_env \<Rightarrow> rollout_target list \<Rightarrow> rollout_db \<Rightarrow> nat \<times> rollout_db" where
  "fail_targets e scope s =
     (let bad = judged (e_now e) Incompatible scope; worn = judged (e_now e) Exhausted scope;
          s1 = s\<lparr>st_rows := HaltDevices (e_dbnow e) bad HaltReasonFailed incompatible_text (st_rows s)\<rparr>;
          s2 = s1\<lparr>st_rows := HaltDevices (e_dbnow e) worn HaltReasonFailed
                   (exhausted_text (st_rollout s)) (st_rows s1)\<rparr>;
          halted = length worn + length bad
      in (halted,
          if halted = 0 then s
          else log_event ''rollout_device_failed'' SystemActor []
            (map t_DeviceIdentifier (filter (\<lambda>t. t_DeviceID t \<in> set (worn @ bad)) scope)) s2))"

definition current_assignment :: "firmware_rollout \<Rightarrow> channel_firmware option \<Rightarrow> bool" where
  "current_assignment r a \<longleftrightarrow>
     set_and a (\<lambda>a. as_AssignmentGeneration a = r_AssignmentGeneration r \<and>
       as_FirmwareChecksum a = r_FirmwareChecksum r \<and> as_FirmwareVersion a = r_FirmwareVersion r)"

record dispatch_result =
  dr_halted :: nat
  dr_asked :: "int list"
  dr_sent :: "string list"

text \<open>
  \<open>dispatchLockedBatch\<close>. \<open>dr_asked\<close> are the devices the command service was asked to update; the
  other fields are the results of the code.
\<close>

definition dispatchLockedBatch ::
  "tx_env \<Rightarrow> rollout_target list \<Rightarrow> offlineBudget option \<Rightarrow> dispatch_result tx" where
  "dispatchLockedBatch e scope budget s =
     (case fail_targets e scope s of (halted, s) \<Rightarrow>
        let r = st_rollout s;
            due = cap_list (room budget) (judged (e_now e) Due scope);
            quiet = \<lparr>dr_halted = halted, dr_asked = [], dr_sent = []\<rparr>
        in if due = [] then Inr (quiet, s)
           else if \<not> e_fileAvailable e then Inr (quiet, s)
           else if st_assignment s = None then Inl internal_error
           else if \<not> current_assignment r (st_assignment s) then Inr (quiet, s)
           else case e_command e (map (byID scope) due) of
             None \<Rightarrow> Inl internal_error
           | Some (accepted, uuid) \<Rightarrow>
               let dispatched = filter (\<lambda>i. byID scope i \<in> set accepted) due;
                   counted = (if bs_Method (r_BehaviorSnapshot r) = MethodDelegated then dispatched else due)
               in Inr (\<lparr>dr_halted = halted, dr_asked = due, dr_sent = map (byID scope) dispatched\<rparr>,
                       MarkSent (e_dbnow e) counted dispatched uuid s))"

definition dispatchUpdates :: "tx_env \<Rightarrow> firmware_rollout \<Rightarrow> dispatch_result tx" where
  "dispatchUpdates e observed s =
     (case refreshOfflineBudget e s of (budget, s) \<Rightarrow>
        let r = st_rollout s; quiet = \<lparr>dr_halted = 0, dr_asked = [], dr_sent = []\<rparr>
        in if r_Status r \<noteq> StatusActive \<or> r_PausedAt r \<noteq> None \<or>
              bs_Method (r_BehaviorSnapshot r) = MethodDelegated \<or>
              r_Stage r \<noteq> r_Stage observed \<or> r_CurrentBatch r \<noteq> r_CurrentBatch observed \<or>
              r_StageChangedAt r \<noteq> r_StageChangedAt observed \<or>
              (r_Stage r \<noteq> StageBatch \<and> r_Stage r \<noteq> StageRest)
           then Inr (quiet, s)
           else case excludeDepartedTargets e 1 (read_targets e 0 s) s of (ts, s) \<Rightarrow>
             dispatchLockedBatch e (reviewScope r ts) budget s)"

text \<open>\<open>dispatchHoldReason\<close>: the same eligibility, read only.\<close>

definition dispatchHoldReason ::
  "tx_env \<Rightarrow> bool \<Rightarrow> rollout_target list \<Rightarrow> rollout_db \<Rightarrow> hold" where
  "dispatchHoldReason e firmwareAvailable ts s =
     (let r = st_rollout s in
      if r_Status r \<noteq> StatusActive \<or> r_PausedAt r \<noteq> None \<or>
         (r_Stage r \<noteq> StageBatch \<and> r_Stage r \<noteq> StageRest) then HoldNone
      else if \<not> list_ex (\<lambda>t. judge_target (e_now e) t = Due) (reviewScope r ts) then HoldNone
      else if \<not> firmwareAvailable then HoldArtifactMissing
      else if st_cap s \<le> 0 then HoldNone
      else let slots = OfflineSlots e (e_live e 0) s
           in if st_cap s \<le> int (length slots)
              then HoldOfflineCapacity (int (length slots)) (st_cap s) else HoldNone)"

section \<open>Stages\<close>

abbreviation "stale_stage \<equiv> failed_precondition ''not_at_gate''"

definition transition :: "tx_env \<Rightarrow> string \<Rightarrow> string \<Rightarrow> unit tx" where
  "transition e from to s =
     (let r = st_rollout s
      in case AdvanceStage (e_dbnow e) from to (r_CurrentBatch r) (r_StageChangedAt r)
             (r_StagePausedMicroseconds r) None r of
           None \<Rightarrow> Inl stale_stage
         | Some r' \<Rightarrow> Inr ((), s\<lparr>st_rollout := r'\<rparr>))"

definition advance_stage :: "tx_env \<Rightarrow> string \<Rightarrow> Actor option \<Rightarrow> unit tx" where
  "advance_stage e from actor s =
     (let r = st_rollout s in
      if r_PausedAt r \<noteq> None then Inl (failed_precondition ''paused'')
      else
        let next = wrap32 (r_CurrentBatch r + 1);
            (stage, batch) =
              (if next < r_BatchCount r then (StageBatch, next) else (StageRest, r_CurrentBatch r))
        in case AdvanceStage (e_dbnow e) from stage batch (r_StageChangedAt r)
               (r_StagePausedMicroseconds r) actor r of
             None \<Rightarrow> Inl stale_stage
           | Some r' \<Rightarrow> Inr ((), s\<lparr>st_rollout := r'\<rparr>))"

definition finish_rollout :: "tx_env \<Rightarrow> rollout_target list \<Rightarrow> rollout_db \<Rightarrow> rollout_db" where
  "finish_rollout e scope s =
     (let (status, kind) =
            (if anyFailed scope then (StatusCompletedWithFailures, ''rollout_completed_with_failures'')
             else (StatusCompleted, ''rollout_completed''))
      in case FinishRollout (e_dbnow e) status (st_rollout s) of
           None \<Rightarrow> s
         | Some r \<Rightarrow> log_event kind SystemActor [] [] (s\<lparr>st_rollout := r\<rparr>))"

definition settled_step :: "tx_env \<Rightarrow> rollout_target list \<Rightarrow> unit tx" where
  "settled_step e scope s =
     (let r = st_rollout s; b = behaviorFrom (r_BehaviorSnapshot r) in
      if r_Stage r = StageBatch then
        (if gatesAfterBatch b then
           (case transition e StageBatch StageAwaitingReview s of
              Inl err \<Rightarrow> Inl err
            | Inr (_, s) \<Rightarrow> Inr ((), log_event ''rollout_review_ready'' SystemActor [] [] s))
         else if 0 < b_WaitBetweenBatchesSeconds b then transition e StageBatch StageWaiting s
         else advance_stage e StageBatch None s)
      else if r_Stage r = StageAwaitingReview then
        (if \<not> bs_AutoContinue (r_BehaviorSnapshot r) then Inr ((), s)
         else case evaluate (e_now e) r scope of
           None \<Rightarrow> Inl internal_error
         | Some ev \<Rightarrow>
             if \<not> ev_ReadyToAdvance ev then Inr ((), s)
             else case advance_stage e StageAwaitingReview None s of
               Inl err \<Rightarrow> Inl err
             | Inr (_, s) \<Rightarrow> Inr ((), log_event ''rollout_continued'' SystemActor [] [] s))
      else if r_Stage r = StageWaiting then
        (if stageElapsed (e_now e) r < seconds (b_WaitBetweenBatchesSeconds b) then Inr ((), s)
         else advance_stage e StageWaiting None s)
      else Inr ((), finish_rollout e scope s))"

text \<open>\<open>advanceRolloutProgress\<close>; the result is the rollout it reopened, if any.\<close>

definition advanceRolloutProgress :: "tx_env \<Rightarrow> firmware_rollout \<Rightarrow> firmware_rollout option tx" where
  "advanceRolloutProgress e observed s =
     (let r = st_rollout s in
      if r_Status r \<noteq> StatusActive \<or> r_PausedAt r \<noteq> None then Inr (None, s)
      else if r_Stage r \<noteq> r_Stage observed \<or> r_CurrentBatch r \<noteq> r_CurrentBatch observed \<or>
              r_StageChangedAt r \<noteq> r_StageChangedAt observed \<or>
              r_StagePausedMicroseconds r \<noteq> r_StagePausedMicroseconds observed
      then Inl stale_stage
      else
        let scope = reviewScope r (read_targets e 0 s)
        in if \<not> allSettled scope then
             (if r_Stage r = StageAwaitingReview \<or> r_Stage r = StageWaiting then
                (case transition e (r_Stage r) StageBatch s of
                   Inl err \<Rightarrow> Inl err
                 | Inr (_, s) \<Rightarrow> Inr (Some (st_rollout s), s))
              else Inr (None, s))
           else case settled_step e scope s of
             Inl err \<Rightarrow> Inl err
           | Inr (_, s) \<Rightarrow> Inr (None, s))"

end
