(* ===== verification/Rollout_Control.thy ===== *)
theory Rollout_Control
  imports Rollout_Engine
begin

text \<open>
  What operators and controllers do to a rollout (\<open>rollout/rollout.go\<close>, \<open>rollout/delegated.go\<close>):
  continue, pause, resume, cancel, retry and skip, the advances and completion of a delegated
  rollout, its enforcement, and the view that is returned. With the transactions of the
  enforcement loop they are the operations that interleave on one rollout.
\<close>

section \<open>Mutations\<close>

record Mutation =
  mu_Actor :: Actor
  mu_ExpectedRevision :: int
  mu_Note :: string

definition text_ok :: "nat \<Rightarrow> string \<Rightarrow> bool" where
  "text_ok n v \<longleftrightarrow> utf8_ValidString v \<and> utf8_RuneCount v \<le> n \<and> CHR 0x00 \<notin> set v"

definition validateMutation :: "Mutation \<Rightarrow> rollout_error option" where
  "validateMutation m =
     (if mu_ExpectedRevision m < 0 \<or> \<not> text_ok 1024 (mu_Note m)
      then Some (RErr CodeInvalidArgument [] []) else None)"

definition validateIdentifiers :: "string list \<Rightarrow> rollout_error option" where
  "validateIdentifiers ids =
     (if ids = [] \<or> 1000 < length ids then Some (RErr CodeInvalidArgument [] [])
      else if list_all (\<lambda>i. i \<noteq> [] \<and> text_ok 255 i) ids \<and> distinct ids then None
      else Some (RErr CodeInvalidArgument [] []))"

definition stale_revision :: "Mutation \<Rightarrow> firmware_rollout \<Rightarrow> bool" where
  "stale_revision m r \<longleftrightarrow> mu_ExpectedRevision m \<noteq> 0 \<and> r_Revision r \<noteq> mu_ExpectedRevision m"

definition mutateActive :: "Mutation \<Rightarrow> unit tx \<Rightarrow> unit tx" where
  "mutateActive m change s =
     (if stale_revision m (st_rollout s) then Inl (failed_precondition ''stale_revision'')
      else if r_Status (st_rollout s) \<noteq> StatusActive then Inl (failed_precondition ''not_active'')
      else change s)"

definition note_event :: "string \<Rightarrow> Mutation \<Rightarrow> string list \<Rightarrow> rollout_db \<Rightarrow> rollout_db" where
  "note_event kind m ids = log_event kind (mu_Actor m) (mu_Note m) ids"

definition set_rollout :: "(firmware_rollout \<Rightarrow> firmware_rollout) \<Rightarrow> rollout_db \<Rightarrow> rollout_db" where
  "set_rollout f s = s\<lparr>st_rollout := f (st_rollout s)\<rparr>"

definition record_action :: "Mutation \<Rightarrow> rollout_db \<Rightarrow> rollout_db" where
  "record_action m = set_rollout (\<lambda>r. r\<lparr>r_LastActionBy := mu_Actor m\<rparr>)"

section \<open>Operator actions\<close>

definition ContinueRollout :: "tx_env \<Rightarrow> Mutation \<Rightarrow> unit tx" where
  "ContinueRollout e m =
     mutateActive m (\<lambda>s.
       if r_Stage (st_rollout s) \<noteq> StageAwaitingReview then Inl (failed_precondition ''not_at_gate'')
       else case advance_stage e StageAwaitingReview (Some (mu_Actor m)) s of
         Inl err \<Rightarrow> Inl err
       | Inr (_, s) \<Rightarrow> Inr ((), note_event ''rollout_continued'' m [] s))"

definition PauseStatement :: "gotime \<Rightarrow> Actor \<Rightarrow> firmware_rollout \<Rightarrow> firmware_rollout option" where
  "PauseStatement now actor r =
     (if r_Status r = StatusActive \<and> r_PausedAt r = None
      then Some (r\<lparr>r_PausedAt := Some (max (r_CreatedAt r) (max (r_StageChangedAt r) now)),
             r_LastActionBy := actor\<rparr>)
      else None)"

definition PauseRollout :: "tx_env \<Rightarrow> Mutation \<Rightarrow> unit tx" where
  "PauseRollout e m =
     mutateActive m (\<lambda>s.
       case PauseStatement (e_dbnow e) (mu_Actor m) (st_rollout s) of
         None \<Rightarrow> Inl (failed_precondition ''paused'')
       | Some r \<Rightarrow> Inr ((), note_event ''rollout_paused'' m [] (s\<lparr>st_rollout := r\<rparr>)))"

definition ResumeStatement :: "gotime \<Rightarrow> Actor \<Rightarrow> firmware_rollout \<Rightarrow> firmware_rollout option" where
  "ResumeStatement now actor r =
     (case r_PausedAt r of
        Some p \<Rightarrow>
          if r_Status r = StatusActive
          then Some (r\<lparr>r_PausedAt := None,
                 r_StagePausedMicroseconds := r_StagePausedMicroseconds r + max 0 (now - p) div 1000,
                 r_LastActionBy := actor\<rparr>)
          else None
      | None \<Rightarrow> None)"

text \<open>The wait clock of a delegated rollout runs while nothing is in flight.\<close>

definition restart_wait :: "tx_env \<Rightarrow> rollout_db \<Rightarrow> rollout_db" where
  "restart_wait e s =
     (if bs_Method (r_BehaviorSnapshot (st_rollout s)) = MethodDelegated
      then set_controller_wait
        (if hasUpdatesInFlight (st_rollout s) (read_targets e 0 s) then None else Some (e_now e)) s
      else s)"

definition ResumeRollout :: "tx_env \<Rightarrow> Mutation \<Rightarrow> unit tx" where
  "ResumeRollout e m =
     mutateActive m (\<lambda>s.
       case ResumeStatement (e_dbnow e) (mu_Actor m) (st_rollout s) of
         None \<Rightarrow> Inl (failed_precondition [])
       | Some r \<Rightarrow> Inr ((), note_event ''rollout_resumed'' m [] (restart_wait e (s\<lparr>st_rollout := r\<rparr>))))"

definition CancelStatement :: "gotime \<Rightarrow> string \<Rightarrow> Actor \<Rightarrow> firmware_rollout \<Rightarrow> firmware_rollout option" where
  "CancelStatement now why actor r =
     (if r_Status r = StatusActive
      then Some (r\<lparr>r_Status := StatusCanceled, r_FinishedAt := Some (finish_time now r),
             r_PausedAt := None, r_CancelReason := why, r_LastActionBy := actor\<rparr>)
      else None)"

definition CancelRollout :: "tx_env \<Rightarrow> Mutation \<Rightarrow> unit tx" where
  "CancelRollout e m =
     mutateActive m (\<lambda>s.
       case CancelStatement (e_dbnow e) ''canceled_remaining'' (mu_Actor m) (st_rollout s) of
         None \<Rightarrow> Inl (failed_precondition ''not_active'')
       | Some r \<Rightarrow>
           let s1 = s\<lparr>st_rollout := r\<rparr>;
               remaining = target_ids (\<lambda>t. \<not> d_halted (t_row t) \<and> \<not> d_verified (t_row t))
                 (read_targets e 0 s1);
               s2 = s1\<lparr>st_rows := HaltDevices (e_dbnow e) remaining HaltReasonCanceled
                      ''Update canceled by operator'' (st_rows s1)\<rparr>
           in Inr ((), note_event ''rollout_canceled'' m [] s2))"

text \<open>
  \<open>RequeueFirmwareRolloutDevices\<close>: the halted rows are reset, miners the rollout does not hold yet
  are added with the baseline of the row that halted them.
\<close>

definition requeued_row :: "device_row \<Rightarrow> device_row" where
  "requeued_row d =
     d\<lparr>rd_HaltedAt := None, rd_HaltReason := [], rd_LastError := [], rd_SkipNote := [],
       rd_Attempts := 0, rd_FirstSentAt := None, rd_LastSentAt := None, rd_LastDispatchedAt := None,
       rd_LastDispatchedBatchUuid := None, rd_VerifiedAt := None\<rparr>"

definition retry_row :: "tx_env \<Rightarrow> int \<Rightarrow> device_row" where
  "retry_row e i =
     (case e_priorRow e i of
        None \<Rightarrow> new_row i
      | Some p \<Rightarrow> (new_row i)\<lparr>rd_BaselineStatus := rd_BaselineStatus p, rd_Baseline := rd_Baseline p,
                    rd_BaselineOpenErrors := rd_BaselineOpenErrors p, rd_BaselineAt := rd_BaselineAt p\<rparr>)"

definition resettable :: "int list \<Rightarrow> device_row \<Rightarrow> bool" where
  "resettable ids d \<longleftrightarrow> rd_DeviceID d \<in> set ids \<and> d_halted d \<and> \<not> d_excluded d"

definition RequeueRolloutDevices :: "tx_env \<Rightarrow> int list \<Rightarrow> device_row list \<Rightarrow> int list \<times> device_row list" where
  "RequeueRolloutDevices e ids ds =
     (let added = remdups (filter (\<lambda>i. i \<notin> rd_DeviceID ` set ds) ids)
      in (map rd_DeviceID (filter (resettable ids) ds) @ added,
          update_where (resettable ids) requeued_row ds @ map (retry_row e) added))"

definition requeuedNames :: "(int \<times> string) list \<Rightarrow> int list \<Rightarrow> string list" where
  "requeuedNames rows ids = map snd (filter (\<lambda>(i, _). i \<in> set ids) rows)"

text \<open>\<open>RetryFailedDevices\<close> on an active rollout.\<close>

definition RetryActive :: "tx_env \<Rightarrow> Mutation \<Rightarrow> unit tx" where
  "RetryActive e m s =
     (if stale_revision m (st_rollout s) then Inl (failed_precondition ''stale_revision'')
      else
        let (requeued, rows) = RequeueRolloutDevices e (map fst (e_suppressed e)) (st_rows s);
            s1 = s\<lparr>st_rows := rows\<rparr>
        in if requeued = [] then Inr ((), s1)
           else Inr ((), note_event ''rollout_retried'' m (requeuedNames (e_suppressed e) requeued)
                  (record_action m (restart_wait e s1))))"

text \<open>
  \<open>RetryFailedDevices\<close> on a finished rollout: it has to carry the current assignment and its pair
  has to have no active rollout; then a new rollout is started for the suppressed members, all at
  once. The result is what to start, if anything.
\<close>

definition RetryFinished ::
  "tx_env \<Rightarrow> Mutation \<Rightarrow> bool \<Rightarrow> rollout_db \<Rightarrow> rollout_error + rolloutSpec option" where
  "RetryFinished e m otherActive s =
     (let r = st_rollout s in
      if stale_revision m r then Inl (failed_precondition ''stale_revision'')
      else if \<not> set_and (st_assignment s) (\<lambda>a. as_AssignmentGeneration a = r_AssignmentGeneration r \<and>
                as_FirmwareChecksum a = r_FirmwareChecksum r)
      then Inl (failed_precondition ''stale_generation'')
      else if otherActive then Inl (failed_precondition ''rollout_active'')
      else if e_suppressed e = [] then Inr None
      else Inr (Some \<lparr>sp_OrgID = r_OrgID r, sp_ChannelID = r_ChannelID r,
             sp_Pair = \<lparr>pk_Manufacturer = r_Manufacturer r, pk_Model = r_Model r\<rparr>,
             sp_FirmwareChecksum = r_FirmwareChecksum r, sp_FirmwareVersion = r_FirmwareVersion r,
             sp_PreviousFirmwareChecksum = r_PreviousFirmwareChecksum r,
             sp_PreviousFirmwareVersion = r_PreviousFirmwareVersion r,
             sp_AssignmentGeneration = r_AssignmentGeneration r, sp_Actor = mu_Actor m,
             sp_Behavior = allAtOnce,
             sp_Members = map (\<lambda>(i, n). \<lparr>m_DeviceID = i, m_DeviceIdentifier = n, m_EfficiencyJh = None\<rparr>)
               (e_suppressed e)\<rparr>))"

section \<open>Selections\<close>

record DeviceSelection =
  ds_DeviceIdentifiers :: "string list"
  ds_Count :: int

text \<open>The loop of \<open>selectQueued\<close>: the names still wanted, and the targets selected so far.\<close>

fun select_loop ::
  "firmware_rollout \<Rightarrow> int \<Rightarrow> string list \<Rightarrow> rollout_target list \<Rightarrow> rollout_target list \<Rightarrow>
   string list \<times> rollout_target list" where
  "select_loop r k named selected [] = (named, selected)"
| "select_loop r k named selected (t # ts) =
     (let queued = (t_phase t r = PhaseQueued \<and> lv_IsChannelMember (t_live t)) in
      if 0 < k then
        (if queued \<and> int (length selected) < k then select_loop r k named (selected @ [t]) ts
         else select_loop r k named selected ts)
      else if t_DeviceIdentifier t \<in> set named \<and> queued
        then select_loop r k (removeAll (t_DeviceIdentifier t) named) (selected @ [t]) ts
      else select_loop r k named selected ts)"

definition selectQueued ::
  "firmware_rollout \<Rightarrow> rollout_target list \<Rightarrow> DeviceSelection \<Rightarrow> rollout_error + rollout_target list" where
  "selectQueued r ts sel =
     (case select_loop r (ds_Count sel) (ds_DeviceIdentifiers sel) [] ts of
        (named, selected) \<Rightarrow>
          if named \<noteq> []
          then Inl (RErr CodeFailedPrecondition ''device_not_queued''
                 (filter (\<lambda>i. i \<in> set named) (ds_DeviceIdentifiers sel)))
          else Inr selected)"

definition SkipDevices :: "gotime \<Rightarrow> int list \<Rightarrow> string \<Rightarrow> device_row list \<Rightarrow> device_row list" where
  "SkipDevices now ids note =
     update_where (\<lambda>d. rd_DeviceID d \<in> set ids \<and> rd_Attempts d = 0 \<and> \<not> d_halted d \<and> \<not> d_verified d \<and>
         \<not> d_excluded d)
       (\<lambda>d. d\<lparr>rd_HaltedAt := Some now, rd_HaltReason := HaltReasonSkipped, rd_SkipNote := note\<rparr>)"

definition skipTargets :: "tx_env \<Rightarrow> Mutation \<Rightarrow> rollout_target list \<Rightarrow> rollout_db \<Rightarrow> rollout_db" where
  "skipTargets e m ts s =
     s\<lparr>st_rows := SkipDevices (e_dbnow e) (map t_DeviceID ts) (mu_Note m) (st_rows s)\<rparr>"

definition SkipRolloutDevices :: "tx_env \<Rightarrow> string list \<Rightarrow> Mutation \<Rightarrow> unit tx" where
  "SkipRolloutDevices e ids m s =
     (case validateMutation m of
        Some err \<Rightarrow> Inl err
      | None \<Rightarrow> (case validateIdentifiers ids of
          Some err \<Rightarrow> Inl err
        | None \<Rightarrow>
            mutateActive m (\<lambda>s.
              let r = st_rollout s; ts = read_targets e 0 s
              in case selectQueued r ts \<lparr>ds_DeviceIdentifiers = ids, ds_Count = 0\<rparr> of
                   Inl err \<Rightarrow> Inl err
                 | Inr selected \<Rightarrow>
                     let s1 = record_action m (skipTargets e m selected s);
                         s2 = (if bs_Method (r_BehaviorSnapshot r) = MethodDelegated \<and>
                                  \<not> hasUpdatesInFlight r ts
                               then set_controller_wait (Some (e_now e)) s1 else s1)
                     in Inr ((), note_event ''rollout_devices_skipped'' m ids s2)) s))"

section \<open>Delegated rollouts\<close>

definition requireDelegated :: "firmware_rollout \<Rightarrow> rollout_error option" where
  "requireDelegated r =
     (if r_Status r \<noteq> StatusActive then Some (failed_precondition ''not_active'')
      else if bs_Method (r_BehaviorSnapshot r) \<noteq> MethodDelegated
      then Some (failed_precondition ''not_delegated'')
      else None)"

definition selection_ok :: "DeviceSelection \<Rightarrow> bool" where
  "selection_ok sel \<longleftrightarrow>
     \<not> ((0 < ds_Count sel) = (ds_DeviceIdentifiers sel \<noteq> []) \<or> ds_Count sel < 0 \<or> 1000 < ds_Count sel)"

definition not_dispatchable :: "rollout_target \<Rightarrow> bool" where
  "not_dispatchable t \<longleftrightarrow>
     lv_InScope (t_live t) \<noteq> Some True \<or> lv_PendingFirmwareChecksums (t_live t) \<noteq> [] \<or>
     lv_PendingLegacyFirmwareFileIds (t_live t) \<noteq> []"

text \<open>Sending the selection: all of it, or an error that rolls the whole transaction back.\<close>

definition advance_send ::
  "tx_env \<Rightarrow> rollout_target list \<Rightarrow> offlineBudget option \<Rightarrow> dispatch_result tx" where
  "advance_send e selected budget s =
     (if selected = [] then Inr (\<lparr>dr_halted = 0, dr_asked = [], dr_sent = []\<rparr>, s)
      else if \<not> e_pinned e \<or> \<not> e_fileAvailable e then Inl (failed_precondition ''artifact_missing'')
      else case dispatchLockedBatch e selected budget s of
        Inl err \<Rightarrow> Inl err
      | Inr (d, s) \<Rightarrow>
          if length (dr_sent d) \<noteq> length selected
          then Inl (RErr CodeFailedPrecondition ''device_not_dispatchable''
                 (filter (\<lambda>n. n \<notin> set (dr_sent d)) (map t_DeviceIdentifier selected)))
          else Inr (d, s))"

definition AdvanceRollout :: "tx_env \<Rightarrow> DeviceSelection \<Rightarrow> Mutation \<Rightarrow> dispatch_result tx" where
  "AdvanceRollout e sel m s =
     (let r = st_rollout s; ts = read_targets e 0 s in
      if validateMutation m \<noteq> None then Inl (RErr CodeInvalidArgument [] [])
      else if \<not> selection_ok sel then Inl (RErr CodeInvalidArgument [] [])
      else if ds_DeviceIdentifiers sel \<noteq> [] \<and> validateIdentifiers (ds_DeviceIdentifiers sel) \<noteq> None
      then Inl (RErr CodeInvalidArgument [] [])
      else if stale_revision m r then Inl (failed_precondition ''stale_revision'')
      else case requireDelegated r of Some err \<Rightarrow> Inl err | None \<Rightarrow>
        if r_PausedAt r \<noteq> None then Inl (failed_precondition ''paused'')
        else if \<not> current_assignment r (st_assignment s)
        then Inl (failed_precondition ''stale_generation'')
        else case selectQueued r ts sel of Inl err \<Rightarrow> Inl err | Inr selected \<Rightarrow>
          (case List.find not_dispatchable selected of
             Some t \<Rightarrow> Inl (RErr CodeFailedPrecondition ''device_not_dispatchable'' [t_DeviceIdentifier t])
           | None \<Rightarrow>
               (case refreshOfflineBudget e s of (budget, s) \<Rightarrow>
                  if (case room budget of Some n \<Rightarrow> n < length selected | None \<Rightarrow> False)
                  then Inl (failed_precondition ''offline_budget_full'')
                  else case advance_send e selected budget s of
                    Inl err \<Rightarrow> Inl err
                  | Inr (d, s) \<Rightarrow>
                      let s1 = record_action m s;
                          w = (if dr_sent d = [] \<and> \<not> hasUpdatesInFlight r ts then Some (e_now e) else None)
                      in Inr (d, note_event ''rollout_advanced'' m (dr_sent d) (set_controller_wait w s1)))))"

definition CompleteDelegated :: "gotime \<Rightarrow> string \<Rightarrow> Actor \<Rightarrow> firmware_rollout \<Rightarrow> firmware_rollout" where
  "CompleteDelegated now status actor r =
     (if r_Status r = StatusActive
      then r\<lparr>r_Status := status, r_FinishedAt := Some (finish_time now r), r_PausedAt := None,
             r_ControllerWaitingSince := None, r_LastActionBy := actor\<rparr>
      else r)"

definition completeDelegated :: "tx_env \<Rightarrow> rollout_target list \<Rightarrow> Mutation \<Rightarrow> rollout_db \<Rightarrow> rollout_db" where
  "completeDelegated e ts m s =
     (let (status, kind) =
            (if anyFailed (activeTargets ts)
             then (StatusCompletedWithFailures, ''rollout_completed_with_failures'')
             else (StatusCompleted, ''rollout_completed''))
      in note_event kind m [] (set_rollout (CompleteDelegated (e_dbnow e) status (mu_Actor m)) s))"

definition CompleteRollout :: "tx_env \<Rightarrow> Mutation \<Rightarrow> unit tx" where
  "CompleteRollout e m s =
     (case validateMutation m of
        Some err \<Rightarrow> Inl err
      | None \<Rightarrow>
          mutateActive m (\<lambda>s.
            let r = st_rollout s; ts = read_targets e 0 s
            in case requireDelegated r of Some err \<Rightarrow> Inl err | None \<Rightarrow>
              if \<not> current_assignment r (st_assignment s) then Inl (failed_precondition ''stale_generation'')
              else if hasUpdatesInFlight r ts then Inl (failed_precondition ''updates_in_flight'')
              else
                let queued = filter (\<lambda>t. t_phase t r = PhaseQueued) ts;
                    s1 = skipTargets e m queued s;
                    s2 = (if queued = [] then s1
                          else note_event ''rollout_devices_skipped'' m (map t_DeviceIdentifier queued) s1)
                in Inr ((), completeDelegated e ts m s2)) s)"

text \<open>An attempt has run out when nothing is queued and its end lies a resend interval back.\<close>

definition attempt_over :: "tx_env \<Rightarrow> rollout_target \<Rightarrow> bool" where
  "attempt_over e t \<longleftrightarrow>
     (let d = t_row t; l = t_live t in
      \<not> d_settled d \<and> rd_Attempts d \<noteq> 0 \<and>
      lv_PendingFirmwareChecksums l = [] \<and> lv_PendingLegacyFirmwareFileIds l = [] \<and>
      set_and (rd_LastSentAt d) (\<lambda>sent.
        let ended = (case map_of (rev (e_completions e)) (rd_DeviceID d) of
                       Some f \<Rightarrow> if time_after f sent then f else sent
                     | None \<Rightarrow> sent)
        in \<not> time_sub (e_now e) ended < resendInterval))"

definition delegated_text :: "firmware_rollout \<Rightarrow> string" where
  "delegated_text r =
     ''Did not verify '' @ r_FirmwareVersion r @
     '' after the controller's update attempt; retry to queue another attempt.''"

definition enforceDelegated :: "tx_env \<Rightarrow> unit tx" where
  "enforceDelegated e s =
     (let r = st_rollout s; ts0 = read_targets e 0 s in
      if r_Status r \<noteq> StatusActive \<or> r_PausedAt r \<noteq> None then Inr ((), s)
      else
        let over = filter (attempt_over e) (activeTargets ts0);
            s1 = (if over = [] then s
                  else log_event ''rollout_device_failed'' SystemActor [] (map t_DeviceIdentifier over)
                    (s\<lparr>st_rows := HaltDevices (e_dbnow e) (map t_DeviceID over) HaltReasonFailed
                        (delegated_text r) (st_rows s)\<rparr>));
            ts = (if over = [] then ts0 else read_targets e 1 s1)
        in if allSettled (activeTargets ts)
           then Inr ((), completeDelegated e ts
                  \<lparr>mu_Actor = SystemActor, mu_ExpectedRevision = 0, mu_Note = []\<rparr> s1)
           else if hasUpdatesInFlight r ts then Inr ((), set_controller_wait None s1)
           else case r_ControllerWaitingSince r of
             None \<Rightarrow> Inr ((), set_controller_wait (Some (e_now e)) s1)
           | Some since \<Rightarrow>
               let timeout = seconds (bs_ControllerTimeoutSeconds (r_BehaviorSnapshot r))
               in if timeout \<le> 0 \<or> time_sub (e_now e) since < timeout then Inr ((), s1)
                  else Inr ((), log_event ''rollout_controller_timed_out'' SystemActor [] []
                         (case PauseStatement (e_dbnow e) SystemActor (st_rollout s1) of
                            Some r' \<Rightarrow> s1\<lparr>st_rollout := r'\<rparr> | None \<Rightarrow> s1)))"

section \<open>One enforcement pass\<close>

text \<open>The transactions of \<open>enforceRollout\<close>, each with what it reads; \<open>ts\<close> are the prepared targets.\<close>

definition enforceRollout ::
  "(nat \<Rightarrow> tx_env) \<Rightarrow> firmware_rollout \<Rightarrow> rollout_target list \<Rightarrow> rollout_db \<Rightarrow>
   (rollout_error + unit) \<times> rollout_db" where
  "enforceRollout env r ts s =
     (if r_PausedAt r \<noteq> None then (Inr (), s)
      else if bs_Method (r_BehaviorSnapshot r) = MethodDelegated
      then run_tx (env 0) (enforceDelegated (env 0)) s
      else
        let (first, s) =
              (if (r_Stage r = StageBatch \<or> r_Stage r = StageRest) \<and> \<not> allSettled (reviewScope r ts)
               then run_tx (env 0) (dispatchUpdates (env 0) r) s
               else (Inr \<lparr>dr_halted = 1, dr_asked = [], dr_sent = []\<rparr>, s))
        in case first of
             Inl err \<Rightarrow> (Inl err, s)
           | Inr d \<Rightarrow>
               if dr_halted d = 0 then (Inr (), s)
               else case run_tx (env 1) (advanceRolloutProgress (env 1) r) s of
                 (Inl err, s) \<Rightarrow> (Inl err, s)
               | (Inr None, s) \<Rightarrow> (Inr (), s)
               | (Inr (Some reopened), s) \<Rightarrow>
                   (case run_tx (env 2) (dispatchUpdates (env 2) reopened) s of
                      (Inl err, s) \<Rightarrow> (Inl err, s)
                    | (Inr d, s) \<Rightarrow>
                        if dr_halted d = 0 then (Inr (), s)
                        else case run_tx (env 3) (advanceRolloutProgress (env 3) reopened) s of
                          (Inl err, s) \<Rightarrow> (Inl err, s) | (Inr _, s) \<Rightarrow> (Inr (), s)))"

section \<open>The view\<close>

text \<open>A device of the view: the columns of its target, with what is derived from them.\<close>

record RolloutDevice =
  vd_target :: rollout_target
  vd_Phase :: device_phase
  vd_Batch :: int
  vd_Online :: bool
  vd_Hashing :: bool
  vd_HasBaseline :: bool
  vd_BaselineHashing :: bool
  vd_BaselineOpenErrors :: int

definition target_view :: "firmware_rollout \<Rightarrow> rollout_target \<Rightarrow> RolloutDevice" where
  "target_view r t =
     \<lparr>vd_target = t, vd_Phase = t_phase t r,
      vd_Batch = (case rd_BatchIndex (t_row t) of Some i \<Rightarrow> wrap32 (i + 1) | None \<Rightarrow> 0),
      vd_Online = t_online t, vd_Hashing = t_hashing t,
      vd_HasBaseline = (rd_BaselineAt (t_row t) \<noteq> None), vd_BaselineHashing = t_baselineHashing t,
      vd_BaselineOpenErrors = (case rd_BaselineOpenErrors (t_row t) of Some n \<Rightarrow> n | None \<Rightarrow> 0)\<rparr>"

record rollout_view =
  vw_Rollout :: firmware_rollout
  vw_Behavior :: Behavior
  vw_Devices :: "RolloutDevice list"
  vw_DeviceCounts :: DeviceCounts
  vw_CurrentBatchCounts :: DeviceCounts
  vw_Evidence :: "Evidence option"
  vw_State :: rollout_state

text \<open>\<open>rolloutView\<close>; \<open>None\<close> would be a nil dereference while the evidence is judged.\<close>

definition rolloutView :: "tx_env \<Rightarrow> bool \<Rightarrow> rollout_db \<Rightarrow> rollout_view option" where
  "rolloutView e firmwareAvailable s =
     (let r = st_rollout s; ts = read_targets e 0 s; devices = map (target_view r) ts;
          counts = countPhases (map vd_Phase devices);
          batch = (if r_Stage r = StageRest then no_counts
                   else countPhases (map vd_Phase
                     (filter (\<lambda>d. vd_Batch d = wrap32 (r_CurrentBatch r + 1)) devices)));
          view = (\<lambda>ev.
            \<lparr>vw_Rollout = r, vw_Behavior = behaviorFrom (r_BehaviorSnapshot r), vw_Devices = devices,
             vw_DeviceCounts = counts, vw_CurrentBatchCounts = batch, vw_Evidence = ev,
             vw_State =
               (if r_Status r = StatusActive \<and> r_PausedAt r = None \<and>
                   bs_Method (r_BehaviorSnapshot r) = MethodDelegated \<and>
                   dc_InProgress counts = 0 \<and> dc_Retrying counts = 0
                then StateWaitingForController else deriveState r ev)\<rparr>)
      in if r_Status r \<noteq> StatusActive then Some (view None)
         else case evaluate (e_now e) r (evidenceScope r ts) of
           None \<Rightarrow> None
         | Some ev \<Rightarrow>
             Some (view (Some
               (if r_PausedAt r = None \<and> (r_Stage r = StageBatch \<or> r_Stage r = StageRest)
                then ev\<lparr>ev_HoldReason := dispatchHoldReason e firmwareAvailable ts s\<rparr> else ev))))"

end
