(* ===== verification/Rollout_Safety.thy ===== *)
theory Rollout_Safety
  imports Rollout_Control "HOL-Library.Sublist"
begin

text \<open>
  What holds of a rollout in every interleaving of the enforcement loop's transactions with
  operators and controllers: the state keeps its invariant, and its history only grows. The
  operations are listed in \<open>rollout_op\<close>; each is one committed or rolled back transaction. Every
  operation is a chain of primitive changes (rows, header, events, the rest), and the lemmas on
  these carry the proofs.
\<close>

section \<open>Operations\<close>

datatype rollout_op =
    Prepare tx_env
  | Dispatch tx_env firmware_rollout
  | Progress tx_env firmware_rollout
  | Delegated tx_env
  | Continue tx_env Mutation
  | Pause tx_env Mutation
  | Resume tx_env Mutation
  | Cancel tx_env Mutation
  | Retry tx_env Mutation
  | Skip tx_env "string list" Mutation
  | Advance tx_env DeviceSelection Mutation
  | Complete tx_env Mutation
  | Supersede tx_env string Actor
  | Observe tx_env
  | Release "reservation \<Rightarrow> bool"
  | Reassign "channel_firmware option"
  | SetCap int
  | Touch int

text \<open>
  Besides the transactions of this package: an assignment change that cancels the rollout, the
  observation and release of reservations at the start of a tick, changes of the assignment and
  of the cap, and a revision the database's triggers write.
\<close>

definition CancelActive :: "tx_env \<Rightarrow> string \<Rightarrow> Actor \<Rightarrow> unit tx" where
  "CancelActive e why actor s =
     (case CancelStatement (e_dbnow e) why actor (st_rollout s) of
        None \<Rightarrow> Inr ((), s)
      | Some r \<Rightarrow> Inr ((), log_event ''rollout_canceled'' actor [] [] (s\<lparr>st_rollout := r\<rparr>)))"

definition RetryFailedDevices :: "tx_env \<Rightarrow> Mutation \<Rightarrow> unit tx" where
  "RetryFailedDevices e m s =
     (if r_Status (st_rollout s) = StatusActive then RetryActive e m s else Inr ((), s))"

fun rollout_exec :: "rollout_op \<Rightarrow> rollout_db \<Rightarrow> rollout_db option" where
  "rollout_exec (Prepare e) s = Some (snd (run_tx e (prepareRollout e) s))"
| "rollout_exec (Dispatch e r) s = Some (snd (run_tx e (dispatchUpdates e r) s))"
| "rollout_exec (Progress e r) s = Some (snd (run_tx e (advanceRolloutProgress e r) s))"
| "rollout_exec (Delegated e) s = Some (snd (run_tx e (enforceDelegated e) s))"
| "rollout_exec (Continue e m) s = Some (snd (run_tx e (ContinueRollout e m) s))"
| "rollout_exec (Pause e m) s = Some (snd (run_tx e (PauseRollout e m) s))"
| "rollout_exec (Resume e m) s = Some (snd (run_tx e (ResumeRollout e m) s))"
| "rollout_exec (Cancel e m) s = Some (snd (run_tx e (CancelRollout e m) s))"
| "rollout_exec (Retry e m) s = Some (snd (run_tx e (RetryFailedDevices e m) s))"
| "rollout_exec (Skip e ids m) s = Some (snd (run_tx e (SkipRolloutDevices e ids m) s))"
| "rollout_exec (Advance e sel m) s = Some (snd (run_tx e (AdvanceRollout e sel m) s))"
| "rollout_exec (Complete e m) s = Some (snd (run_tx e (CompleteRollout e m) s))"
| "rollout_exec (Supersede e why a) s = Some (snd (run_tx e (CancelActive e why a) s))"
| "rollout_exec (Observe e) s =
     Some (s\<lparr>st_reservations := ObserveOffline e (e_live e 0) (st_reservations s)\<rparr>)"
| "rollout_exec (Release P) s = Some (s\<lparr>st_reservations := filter P (st_reservations s)\<rparr>)"
| "rollout_exec (Reassign a) s = Some (s\<lparr>st_assignment := a\<rparr>)"
| "rollout_exec (SetCap n) s = Some (s\<lparr>st_cap := n\<rparr>)"
| "rollout_exec (Touch n) s = Some (set_rollout (\<lambda>r. r\<lparr>r_Revision := n\<rparr>) s)"

section \<open>Invariant and history\<close>

definition row_ok :: "device_row \<Rightarrow> bool" where
  "row_ok d \<longleftrightarrow>
     0 \<le> rd_Attempts d \<and> rd_Attempts d \<le> MaxAttempts \<and> (rd_Attempts d = 0 \<longleftrightarrow> rd_LastSentAt d = None) \<and>
     (d_halted d \<longrightarrow> rd_HaltReason d \<in> {HaltReasonFailed, HaltReasonCanceled, HaltReasonSkipped})"

definition known_status :: "string \<Rightarrow> bool" where
  "known_status v \<longleftrightarrow> v \<in> {StatusActive, StatusCompleted, StatusCompletedWithFailures, StatusCanceled}"

definition known_stage :: "string \<Rightarrow> bool" where
  "known_stage v \<longleftrightarrow> v \<in> {StageBatch, StageAwaitingReview, StageWaiting, StageRest}"

lemma known_names [simp]:
  "known_status StatusActive" "known_status StatusCompleted" "known_status StatusCompletedWithFailures"
  "known_status StatusCanceled" "known_stage StageBatch" "known_stage StageAwaitingReview"
  "known_stage StageWaiting" "known_stage StageRest"
  by (simp_all add: known_status_def known_stage_def)

definition rollout_ok :: "firmware_rollout \<Rightarrow> bool" where
  "rollout_ok r \<longleftrightarrow>
     known_status (r_Status r) \<and> known_stage (r_Stage r) \<and>
     0 \<le> r_CurrentBatch r \<and> 0 \<le> r_BatchCount r \<and> r_BatchCount r < 2 ^ 31 \<and>
     (r_Stage r \<noteq> StageRest \<longrightarrow> r_CurrentBatch r < r_BatchCount r) \<and>
     (r_Status r = StatusActive \<longleftrightarrow> r_FinishedAt r = None) \<and>
     (r_Status r \<noteq> StatusActive \<longrightarrow> r_PausedAt r = None)"

definition rows_ok :: "device_row list \<Rightarrow> bool" where
  "rows_ok ds \<longleftrightarrow> distinct (map rd_DeviceID ds) \<and> list_all row_ok ds"

definition rollout_inv :: "rollout_db \<Rightarrow> bool" where
  "rollout_inv s \<longleftrightarrow> rollout_ok (st_rollout s) \<and> rows_ok (st_rows s)"

text \<open>The columns of a rollout and of a row that are written once.\<close>

definition identity_of :: "firmware_rollout \<Rightarrow> (int list \<times> string list) \<times> RolloutBehaviorSnapshot" where
  "identity_of r =
     (([r_ID r, r_OrgID r, r_ChannelID r, r_AssignmentGeneration r, r_BatchCount r, r_CreatedAt r],
       [r_Manufacturer r, r_Model r, r_FirmwareChecksum r, r_FirmwareVersion r,
        r_PreviousFirmwareChecksum r, r_PreviousFirmwareVersion r]), r_BehaviorSnapshot r)"

definition baseline_of :: "device_row \<Rightarrow>
  (int \<times> int option \<times> int option) \<times> string option \<times>
  (f64 option \<times> f64 option \<times> f64 option \<times> f64 option) \<times> int option \<times> gotime option" where
  "baseline_of d =
     ((rd_DeviceID d, rd_BatchIndex d, rd_Position d), rd_BaselineStatus d, rd_Baseline d,
      rd_BaselineOpenErrors d, rd_BaselineAt d)"

definition active :: "rollout_db \<Rightarrow> bool" where
  "active s \<longleftrightarrow> r_Status (st_rollout s) = StatusActive"

text \<open>
  History: a rollout keeps its identity and behavior; its miners keep their batch, position and
  baseline and are never dropped; it never returns to an earlier batch; events are only
  appended; and a rollout that has ended keeps its header and rows.
\<close>

definition history :: "rollout_db \<Rightarrow> rollout_db \<Rightarrow> bool" where
  "history s t \<longleftrightarrow>
     identity_of (st_rollout t) = identity_of (st_rollout s) \<and>
     r_CurrentBatch (st_rollout s) \<le> r_CurrentBatch (st_rollout t) \<and>
     prefix (map baseline_of (st_rows s)) (map baseline_of (st_rows t)) \<and>
     prefix (st_events s) (st_events t) \<and>
     (active s \<or>
      st_rows t = st_rows s \<and> (st_rollout t)\<lparr>r_Revision := 0\<rparr> = (st_rollout s)\<lparr>r_Revision := 0\<rparr>)"

lemma history_refl: "history s s"
  by (simp add: history_def)

lemma active_kept:
  "(st_rollout t)\<lparr>r_Revision := 0\<rparr> = (st_rollout s)\<lparr>r_Revision := 0\<rparr> \<Longrightarrow> active t \<longleftrightarrow> active s"
  unfolding active_def by (metis firmware_rollout.select_convs(11) firmware_rollout.surjective
      firmware_rollout.update_convs(23))

lemma history_trans: "history s t \<Longrightarrow> history t u \<Longrightarrow> history s u"
  using active_kept [of t s] unfolding history_def
  by (auto intro: prefix_order.trans)

definition sound_step :: "rollout_db \<Rightarrow> rollout_db \<Rightarrow> bool" where
  "sound_step s t \<longleftrightarrow> (rollout_inv s \<longrightarrow> rollout_inv t \<and> history s t)"

lemma good_refl [simp]: "sound_step s s"
  by (simp add: sound_step_def history_refl)

lemma good_trans: "sound_step s t \<Longrightarrow> sound_step t u \<Longrightarrow> sound_step s u"
  unfolding sound_step_def using history_trans by blast

section \<open>Primitive changes\<close>

definition rows_safe :: "device_row list \<Rightarrow> device_row list \<Rightarrow> bool" where
  "rows_safe ds ds' \<longleftrightarrow>
     prefix (map baseline_of ds) (map baseline_of ds') \<and> (rows_ok ds \<longrightarrow> rows_ok ds')"

definition header_safe :: "firmware_rollout \<Rightarrow> firmware_rollout \<Rightarrow> bool" where
  "header_safe r r' \<longleftrightarrow>
     (rollout_ok r \<longrightarrow>
        identity_of r' = identity_of r \<and> r_CurrentBatch r \<le> r_CurrentBatch r' \<and> rollout_ok r')"

lemma good_rows:
  "active s \<Longrightarrow> rows_safe (st_rows s) ds \<Longrightarrow> sound_step s (s\<lparr>st_rows := ds\<rparr>)"
  by (auto simp: sound_step_def history_def rows_safe_def rollout_inv_def)

lemma good_header:
  "active s \<Longrightarrow> header_safe (st_rollout s) r \<Longrightarrow> sound_step s (s\<lparr>st_rollout := r\<rparr>)"
  by (auto simp: sound_step_def history_def header_safe_def rollout_inv_def)

lemma good_event [simp]: "sound_step s (log_event k a n ids s)"
  by (auto simp: sound_step_def history_def log_event_def rollout_inv_def)

lemma good_note [simp]: "sound_step s (note_event k m ids s)"
  by (simp add: note_event_def)

lemma good_other:
  "sound_step s (s\<lparr>st_reservations := rs\<rparr>)" "sound_step s (s\<lparr>st_assignment := a\<rparr>)"
  "sound_step s (s\<lparr>st_cap := n\<rparr>)"
  by (auto simp: sound_step_def history_def rollout_inv_def)

lemma log_event_fields [simp]:
  "st_rollout (log_event k a n ids s) = st_rollout s" "st_rows (log_event k a n ids s) = st_rows s"
  "st_rollout (note_event k m ids s) = st_rollout s" "st_rows (note_event k m ids s) = st_rows s"
  "st_assignment (log_event k a n ids s) = st_assignment s"
  by (simp_all add: log_event_def note_event_def)

lemma log_event_other:
  "st_reservations (log_event k a n ids s) = st_reservations s"
  "st_cap (log_event k a n ids s) = st_cap s"
  by (simp_all add: log_event_def)

lemma active_simps [simp]:
  "active (log_event k a n ids s) = active s" "active (note_event k m ids s) = active s"
  "active (s\<lparr>st_rows := ds\<rparr>) = active s" "active (s\<lparr>st_reservations := rs\<rparr>) = active s"
  by (simp_all add: active_def)

lemma rows_safe_update:
  assumes "\<And>d. d \<in> set ds \<Longrightarrow> P d \<Longrightarrow> baseline_of (f d) = baseline_of d"
    and "\<And>d. d \<in> set ds \<Longrightarrow> P d \<Longrightarrow> rows_ok ds \<Longrightarrow> row_ok d \<Longrightarrow> row_ok (f d)"
  shows "rows_safe ds (update_where P f ds)"
proof -
  have b: "map baseline_of (update_where P f ds) = map baseline_of ds"
    using assms(1) by (simp add: update_where_def)
  then have "map (fst \<circ> fst) (map baseline_of (update_where P f ds)) = map (fst \<circ> fst) (map baseline_of ds)"
    by (rule arg_cong)
  then have "map rd_DeviceID (update_where P f ds) = map rd_DeviceID ds"
    by (simp add: baseline_of_def comp_def)
  moreover have "list_all row_ok (update_where P f ds)" if "rows_ok ds"
    using that assms(2) by (auto simp: update_where_def rows_ok_def list_all_iff)
  ultimately show ?thesis
    by (simp add: rows_safe_def b rows_ok_def)
qed

lemma rows_safe_trans: "rows_safe a b \<Longrightarrow> rows_safe b c \<Longrightarrow> rows_safe a c"
  unfolding rows_safe_def using prefix_order.trans by blast

lemma rows_safe_refl [simp]: "rows_safe ds ds"
  by (simp add: rows_safe_def)

lemma rows_safe_append:
  assumes "\<And>i. rd_DeviceID (f i) = i" "\<And>i. row_ok (f i)"
  shows "rows_safe ds (ds @ map f (remdups (filter (\<lambda>i. i \<notin> rd_DeviceID ` set ds) ids)))"
  using assms by (auto simp: rows_safe_def rows_ok_def list_all_iff comp_def)

lemma new_row_ok: "rd_DeviceID (new_row i) = i" "row_ok (new_row i)"
  by (simp_all add: new_row_def row_ok_def MaxAttempts_def row_defs)

lemma retry_row_ok: "rd_DeviceID (retry_row e i) = i" "row_ok (retry_row e i)"
  by (simp_all add: retry_row_def new_row_def row_ok_def MaxAttempts_def row_defs split: option.splits)

named_theorems row_statements

lemma safe_Exclude [row_statements]: "rows_safe ds (ExcludeDevices now ids ds)"
  unfolding ExcludeDevices_def by (rule rows_safe_update) (simp_all add: baseline_of_def row_ok_def row_defs)

lemma safe_Reinclude [row_statements]: "rows_safe ds (ReincludeDevices ids ds)"
  unfolding ReincludeDevices_def by (rule rows_safe_update) (simp_all add: baseline_of_def row_ok_def row_defs)

lemma safe_Append [row_statements]: "rows_safe ds (AppendDevices ids ds)"
  unfolding AppendDevices_def by (rule rows_safe_append) (simp_all add: new_row_ok)

lemma safe_Verified [row_statements]: "rows_safe ds (MarkVerified now ids ds)"
  unfolding MarkVerified_def by (rule rows_safe_update) (simp_all add: baseline_of_def row_ok_def row_defs)

lemma safe_Unverify [row_statements]: "rows_safe ds (Unverify ids ds)"
  unfolding Unverify_def by (rule rows_safe_update) (simp_all add: baseline_of_def row_ok_def row_defs)

lemma safe_Halt [row_statements]:
  "why \<in> {HaltReasonFailed, HaltReasonCanceled} \<Longrightarrow> rows_safe ds (HaltDevices now ids why err ds)"
  unfolding HaltDevices_def by (rule rows_safe_update) (auto simp: baseline_of_def row_ok_def row_defs)

lemma safe_Skip [row_statements]: "rows_safe ds (SkipDevices now ids note ds)"
  unfolding SkipDevices_def by (rule rows_safe_update) (auto simp: baseline_of_def row_ok_def row_defs)

lemma ids_update_where:
  "(\<And>d. rd_DeviceID (f d) = rd_DeviceID d) \<Longrightarrow> map rd_DeviceID (update_where P f ds) = map rd_DeviceID ds"
  by (simp add: update_where_def)

lemma requeued_row_id: "rd_DeviceID (requeued_row d) = rd_DeviceID d"
  by (simp add: requeued_row_def)

lemma safe_Requeue [row_statements]: "rows_safe ds (snd (RequeueRolloutDevices e ids ds))"
proof -
  have u: "rows_safe ds (update_where (resettable ids) requeued_row ds)"
    by (rule rows_safe_update)
      (simp_all add: baseline_of_def requeued_row_def row_ok_def row_defs MaxAttempts_def)
  have ids: "rd_DeviceID ` set (update_where (resettable ids) requeued_row ds) = rd_DeviceID ` set ds"
    by (metis ids_update_where requeued_row_id set_map)
  show ?thesis
    unfolding RequeueRolloutDevices_def Let_def snd_conv ids [symmetric]
    by (rule rows_safe_trans [OF u rows_safe_append]) (rule retry_row_ok)+
qed

lemma sent_row_ok:
  "baseline_of (sent_row now dispatched uuid d) = baseline_of d"
  "row_ok d \<Longrightarrow> rd_Attempts d < MaxAttempts \<Longrightarrow> row_ok (sent_row now dispatched uuid d)"
  by (auto simp: sent_row_def baseline_of_def row_ok_def row_defs Let_def)

lemma safe_MarkSent:
  assumes "\<And>d. d \<in> set ds \<Longrightarrow> rd_DeviceID d \<in> set ids \<Longrightarrow> rows_ok ds \<Longrightarrow> rd_Attempts d < MaxAttempts"
  shows "rows_safe ds (MarkSentRows now ids dispatched uuid ds)"
  unfolding MarkSentRows_def by (rule rows_safe_update) (simp_all add: sent_row_ok assms)

lemmas chained_statements =
  rows_safe_trans [OF _ safe_Exclude] rows_safe_trans [OF _ safe_Reinclude]
  rows_safe_trans [OF _ safe_Append] rows_safe_trans [OF _ safe_Verified]
  rows_safe_trans [OF _ safe_Unverify] rows_safe_refl

lemma snapshot_sent: "d \<in> set (snapshot_rows health t batch offset ids) \<Longrightarrow> row_ok d"
  by (auto simp: snapshot_rows_def snapshot_row_def new_row_def row_ok_def row_defs MaxAttempts_def)

lemma snapshot_batches_sent: "d \<in> set (snapshot_batches health t k offset bs) \<Longrightarrow> row_ok d"
  by (induction bs arbitrary: k offset) (auto dest: snapshot_sent)

lemma plan_rows_sent: "d \<in> set (plan_rows health t p) \<Longrightarrow> row_ok d"
  by (auto simp: plan_rows_def dest: snapshot_sent snapshot_batches_sent)

section \<open>Preparation\<close>

definition reads :: "rollout_target list \<Rightarrow> rollout_db \<Rightarrow> bool" where
  "reads ts s \<longleftrightarrow> map t_row ts = st_rows s"

lemma reads_read [simp]: "reads (read_targets e n s) s"
  by (simp add: reads_def read_targets_def listTargets_def Let_def comp_def)

text \<open>A step that changes rows only.\<close>

definition rows_step :: "rollout_db \<Rightarrow> rollout_db \<Rightarrow> bool" where
  "rows_step s t \<longleftrightarrow> t = s\<lparr>st_rows := st_rows t\<rparr> \<and> rows_safe (st_rows s) (st_rows t)"

lemma rows_step_refl [simp]: "rows_step s s"
  by (simp add: rows_step_def)

lemma rows_step_trans: "rows_step s t \<Longrightarrow> rows_step t u \<Longrightarrow> rows_step s u"
  unfolding rows_step_def by (metis rollout_db.surjective rollout_db.update_convs(2) rows_safe_trans)

lemma rows_stepI: "rows_safe (st_rows s) ds \<Longrightarrow> rows_step s (s\<lparr>st_rows := ds\<rparr>)"
  by (simp add: rows_step_def)

lemma rows_step_good: "rows_step s t \<Longrightarrow> active s \<Longrightarrow> sound_step s t"
  unfolding rows_step_def using good_rows by metis

lemma rows_step_fields:
  assumes "rows_step s t"
  shows "st_rollout t = st_rollout s" "st_assignment t = st_assignment s"
    "st_reservations t = st_reservations s" "st_cap t = st_cap s" "st_events t = st_events s"
  using assms unfolding rows_step_def
  by (metis rollout_db.select_convs rollout_db.surjective rollout_db.update_convs(2))+

lemma excludeDeparted_step:
  assumes "excludeDepartedTargets e n ts s = (ts', s')" "reads ts s"
  shows "rows_step s s' \<and> reads ts' s'"
  using assms by (auto simp: excludeDepartedTargets_def Let_def row_statements intro!: rows_stepI split: if_splits)

lemma syncMembership_step:
  assumes "syncMembership e s = (ts, s')"
  shows "rows_step s s' \<and> reads ts s'"
proof -
  obtain ts1 s1 where x: "excludeDepartedTargets e 1 (read_targets e 0 s) s = (ts1, s1)"
    by fastforce
  have s1: "rows_step s s1" "reads ts1 s1"
    using excludeDeparted_step [OF x] by simp_all
  have "rows_step s1 s' \<and> reads ts s'"
    using assms s1(2)
    by (auto simp: syncMembership_def x [unfolded One_nat_def] Let_def split: if_splits
        intro!: rows_stepI chained_statements)
  with s1(1) show ?thesis using rows_step_trans by blast
qed

lemma recordConvergence_step:
  assumes "recordConvergence e n ts s = (ts', s')"
  shows "rows_step s s'"
  using assms
  by (auto simp: recordConvergence_def Let_def split: if_splits intro!: rows_stepI chained_statements)

lemma good_wait: "active s \<Longrightarrow> sound_step s (set_controller_wait w s)"
  unfolding set_controller_wait_def
  by (rule good_header) (auto simp: header_safe_def identity_of_def rollout_ok_def)

lemma active_wait [simp]: "active (set_controller_wait w s) = active s"
  by (simp add: set_controller_wait_def active_def)

lemma good_prepare:
  assumes "prepareRollout e s = Inr (x, t)"
  shows "sound_step s t"
proof (cases "active s")
  case False
  then show ?thesis using assms by (simp add: prepareRollout_def active_def)
next
  case True
  obtain ts1 s1 where a: "syncMembership e s = (ts1, s1)" by fastforce
  obtain ids ts2 where b: "recordDeploymentProvenance e 3 False ts1 s1 = (ids, ts2)" by fastforce
  obtain ts3 s2 where c: "recordConvergence e 4 ts2 s1 = (ts3, s2)" by fastforce
  have st: "rows_step s s2"
    using syncMembership_step [OF a] recordConvergence_step [OF c] rows_step_trans by blast
  then have g: "sound_step s s2" and act: "active s2"
    using True rows_step_good rows_step_fields(1) [OF st] by (auto simp: active_def)
  have "t = s2 \<or> t = set_controller_wait (Some (e_now e)) s2"
    using assms True by (auto simp: prepareRollout_def active_def a b c Let_def split: if_splits)
  then show ?thesis
    using g act good_wait good_trans by blast
qed

section \<open>Dispatch\<close>

definition attempts_of :: "device_row list \<Rightarrow> (int \<times> int) list" where
  "attempts_of ds = map (\<lambda>d. (rd_DeviceID d, rd_Attempts d)) ds"

lemma attempts_Halt: "attempts_of (HaltDevices now ids why err ds) = attempts_of ds"
  by (simp add: attempts_of_def HaltDevices_def update_where_def)

text \<open>A step that fails miners: rows that keep their attempts, and events.\<close>

lemma fail_targets_step:
  assumes "fail_targets e scope s = (h, t)"
  shows "(active s \<longrightarrow> sound_step s t) \<and> st_rollout t = st_rollout s \<and>
    attempts_of (st_rows t) = attempts_of (st_rows s) \<and> st_assignment t = st_assignment s \<and>
    st_cap t = st_cap s \<and> st_reservations t = st_reservations s"
proof -
  define s1 where "s1 = s\<lparr>st_rows := HaltDevices (e_dbnow e) (judged (e_now e) Incompatible scope)
    HaltReasonFailed incompatible_text (st_rows s)\<rparr>"
  define s2 where "s2 = s1\<lparr>st_rows := HaltDevices (e_dbnow e) (judged (e_now e) Exhausted scope)
    HaltReasonFailed (exhausted_text (st_rollout s)) (st_rows s1)\<rparr>"
  have "rows_step s s1" unfolding s1_def by (rule rows_stepI) (simp add: row_statements)
  moreover have "rows_step s1 s2" unfolding s2_def by (rule rows_stepI) (simp add: row_statements)
  ultimately have r: "rows_step s s2" by (rule rows_step_trans)
  have at2: "attempts_of (st_rows s2) = attempts_of (st_rows s)"
    by (simp add: s2_def s1_def attempts_Halt)
  have "t = s \<or> (\<exists>ids. t = log_event ''rollout_device_failed'' SystemActor [] ids s2)"
    using assms unfolding fail_targets_def Let_def s1_def s2_def by (auto split: if_splits)
  then show ?thesis
    using rows_step_good [OF r] good_trans [OF _ good_event] rows_step_fields [OF r] at2
    by (auto simp: log_event_other)
qed

definition scope_of :: "rollout_target list \<Rightarrow> rollout_db \<Rightarrow> bool" where
  "scope_of scope s \<longleftrightarrow> t_row ` set scope \<subseteq> set (st_rows s)"

lemma scope_of_review: "reads ts s \<Longrightarrow> scope_of (reviewScope r ts) s"
proof -
  assume "reads ts s"
  then have "t_row ` set ts = set (st_rows s)"
    unfolding reads_def by (metis set_map)
  moreover have "set (reviewScope r ts) \<subseteq> set ts"
    by (auto simp: reviewScope_def activeTargets_def evidenceScope_def split: if_splits)
  ultimately show ?thesis unfolding scope_of_def by blast
qed

lemma attempts_unique:
  assumes "rows_ok ds" "attempts_of ds' = attempts_of ds" "d \<in> set ds" "d' \<in> set ds'"
    "rd_DeviceID d' = rd_DeviceID d"
  shows "rd_Attempts d' = rd_Attempts d"
proof -
  have m: "map_of (attempts_of ds) (rd_DeviceID d) = Some (rd_Attempts d)"
    if "distinct (map rd_DeviceID ds)" "d \<in> set ds" for ds d
    using that by (intro map_of_is_SomeI) (auto simp: attempts_of_def comp_def)
  have ids: "map rd_DeviceID ds' = map rd_DeviceID ds"
    using arg_cong [OF assms(2), of "map fst"] by (simp add: attempts_of_def comp_def)
  show ?thesis
    using m [of ds d] m [of ds' d'] assms ids by (simp add: rows_ok_def)
qed

lemma Due_attempts: "judge_target now t = Due \<Longrightarrow> rd_Attempts (t_row t) < MaxAttempts"
  by (auto simp: judge_target_def Let_def split: if_splits)

lemma cap_list_subset: "set (cap_list k xs) \<subseteq> set xs"
  by (auto simp: cap_list_def split: option.splits dest: in_set_takeD)

lemma good_MarkSent:
  assumes "active s"
    and "\<And>d. d \<in> set (st_rows s) \<Longrightarrow> rd_DeviceID d \<in> set ids \<Longrightarrow> rows_ok (st_rows s) \<Longrightarrow>
      rd_Attempts d < MaxAttempts"
  shows "sound_step s (MarkSent now ids dispatched uuid s)"
proof -
  have "sound_step s (s\<lparr>st_rows := MarkSentRows now ids dispatched uuid (st_rows s)\<rparr>)"
    by (rule good_rows [OF assms(1)]) (rule safe_MarkSent, rule assms(2))
  moreover have "sound_step (s\<lparr>st_rows := MarkSentRows now ids dispatched uuid (st_rows s)\<rparr>)
      (MarkSent now ids dispatched uuid s)"
    unfolding MarkSent_def
    using good_other(1) [of "s\<lparr>st_rows := MarkSentRows now ids dispatched uuid (st_rows s)\<rparr>"] by simp
  ultimately show ?thesis by (rule good_trans)
qed

text \<open>What a dispatch did: nothing beyond failing miners, or one command for its due miners.\<close>

lemma dispatchLocked_cases:
  assumes "dispatchLockedBatch e scope budget s = Inr (d, t)"
  obtains h u where "fail_targets e scope s = (h, u)" "t = u" "dr_asked d = []" "dr_sent d = []" "dr_halted d = h"
  | h u accepted uuid where "fail_targets e scope s = (h, u)"
      "dr_asked d = cap_list (room budget) (judged (e_now e) Due scope)" "dr_halted d = h"
      "dr_sent d = map (byID scope) (filter (\<lambda>i. byID scope i \<in> set accepted) (dr_asked d))"
      "e_fileAvailable e" "current_assignment (st_rollout u) (st_assignment u)"
      "e_command e (map (byID scope) (dr_asked d)) = Some (accepted, uuid)"
      "t = MarkSent (e_dbnow e)
         (if bs_Method (r_BehaviorSnapshot (st_rollout u)) = MethodDelegated
          then filter (\<lambda>i. byID scope i \<in> set accepted) (dr_asked d) else dr_asked d)
         (filter (\<lambda>i. byID scope i \<in> set accepted) (dr_asked d)) uuid u"
proof -
  obtain h u where f: "fail_targets e scope s = (h, u)" by fastforce
  let ?due = "cap_list (room budget) (judged (e_now e) Due scope)"
  let ?ok = "\<lambda>accepted. filter (\<lambda>i. byID scope i \<in> set accepted) ?due"
  have "d = \<lparr>dr_halted = h, dr_asked = [], dr_sent = []\<rparr> \<and> t = u \<or>
    (\<exists>accepted uuid. e_fileAvailable e \<and> current_assignment (st_rollout u) (st_assignment u) \<and>
       e_command e (map (byID scope) ?due) = Some (accepted, uuid) \<and>
       d = \<lparr>dr_halted = h, dr_asked = ?due, dr_sent = map (byID scope) (?ok accepted)\<rparr> \<and>
       t = MarkSent (e_dbnow e) (if bs_Method (r_BehaviorSnapshot (st_rollout u)) = MethodDelegated
             then ?ok accepted else ?due) (?ok accepted) uuid u)"
    using assms unfolding dispatchLockedBatch_def f prod.case Let_def
    by (simp split: if_split_asm option.split_asm prod.split_asm)
  then show thesis
  proof (elim disjE exE conjE)
    assume "d = \<lparr>dr_halted = h, dr_asked = [], dr_sent = []\<rparr>" "t = u"
    then show thesis using f by (intro that(1)) simp_all
  next
    fix accepted uuid
    assume c: "e_fileAvailable e" "current_assignment (st_rollout u) (st_assignment u)"
      "e_command e (map (byID scope) ?due) = Some (accepted, uuid)"
      "d = \<lparr>dr_halted = h, dr_asked = ?due, dr_sent = map (byID scope) (?ok accepted)\<rparr>"
      "t = MarkSent (e_dbnow e) (if bs_Method (r_BehaviorSnapshot (st_rollout u)) = MethodDelegated
             then ?ok accepted else ?due) (?ok accepted) uuid u"
    show thesis
      by (rule that(2) [of h u accepted uuid]) (use f c in simp_all)
  qed
qed

lemma good_dispatchLocked:
  assumes "dispatchLockedBatch e scope budget s = Inr (d, t)" "active s" "scope_of scope s"
  shows "sound_step s t"
  using assms(1)
proof (cases rule: dispatchLocked_cases)
  case (1 h u)
  then show ?thesis using fail_targets_step [of e scope s h u] assms(2) by simp
next
  case (2 h u accepted uuid)
  note f = fail_targets_step [OF 2(1)]
  have au: "active u" using assms(2) f by (simp add: active_def)
  have "rd_Attempts d' < MaxAttempts"
    if row: "d' \<in> set (st_rows u)" and asked: "rd_DeviceID d' \<in> set (dr_asked d)"
      and ok: "rows_ok (st_rows u)" for d'
  proof -
    obtain x where x: "x \<in> set scope" "judge_target (e_now e) x = Due" "t_DeviceID x = rd_DeviceID d'"
      using asked cap_list_subset unfolding 2(2) judged_def target_ids_def by fastforce
    have "t_row x \<in> set (st_rows s)"
      using x(1) assms(3) by (auto simp: scope_of_def)
    then have "rd_Attempts d' = rd_Attempts (t_row x)"
      using attempts_unique [of "st_rows u" "st_rows s" d' "t_row x"] row ok f x(3) by simp
    then show ?thesis using Due_attempts [OF x(2)] by simp
  qed
  then have "sound_step u t"
    unfolding 2(8) by (intro good_MarkSent [OF au]) (auto split: if_splits)
  then show ?thesis using f assms(2) good_trans by blast
qed

lemma dispatchLocked_status:
  assumes "dispatchLockedBatch e scope budget s = Inr (d, t)"
  shows "active t = active s"
  using assms
proof (cases rule: dispatchLocked_cases)
  case (1 h u)
  then show ?thesis using fail_targets_step [of e scope s h u] by (simp add: active_def)
next
  case (2 h u accepted uuid)
  then show ?thesis using fail_targets_step [OF 2(1)] by (simp add: active_def MarkSent_def)
qed

lemma refresh_step:
  assumes "refreshOfflineBudget e s = (b, t)"
  shows "t = s\<lparr>st_reservations := st_reservations t\<rparr>"
  using assms by (auto simp: refreshOfflineBudget_def Let_def)

lemma good_dispatch:
  assumes "dispatchUpdates e observed s = Inr (d, t)"
  shows "sound_step s t"
proof -
  obtain b u where b: "refreshOfflineBudget e s = (b, u)" by fastforce
  have u: "sound_step s u"
    using refresh_step [OF b] good_other(1) by metis
  obtain ts v where x: "excludeDepartedTargets e 1 (read_targets e 0 u) u = (ts, v)" by fastforce
  have v: "rows_step u v" "reads ts v" using excludeDeparted_step [OF x] by simp_all
  have "t = u \<or> active u \<and> dispatchLockedBatch e (reviewScope (st_rollout u) ts) b v = Inr (d, t)"
    using assms by (auto simp: dispatchUpdates_def b x [unfolded One_nat_def] Let_def active_def split: if_splits)
  then show ?thesis
  proof
    assume "t = u" then show ?thesis using u by simp
  next
    assume l: "active u \<and> dispatchLockedBatch e (reviewScope (st_rollout u) ts) b v = Inr (d, t)"
    then have "active v" using rows_step_fields(1) [OF v(1)] by (simp add: active_def)
    with l v have "sound_step v t"
      using good_dispatchLocked scope_of_review by blast
    then show ?thesis
      using u rows_step_good [OF v(1)] l good_trans by blast
  qed
qed

section \<open>Stages\<close>

lemma good_transition:
  assumes "transition e from to s = Inr (x, t)" "from \<noteq> StageRest" "known_stage to"
  shows "sound_step s t"
proof -
  have "active s" and t: "t = s\<lparr>st_rollout := st_rollout t\<rparr>"
    and h: "header_safe (st_rollout s) (st_rollout t)"
    using assms
    by (auto simp: transition_def AdvanceStage_def Let_def active_def header_safe_def identity_of_def
        rollout_ok_def split: if_splits)
  then show ?thesis using good_header by metis
qed

lemma good_advance:
  assumes "advance_stage e from actor s = Inr (x, t)" "from \<noteq> StageRest"
  shows "sound_step s t"
proof -
  let ?r = "st_rollout s"
  have w: "wrap32 (r_CurrentBatch ?r + 1) = r_CurrentBatch ?r + 1"
    if "rollout_ok ?r" "r_Stage ?r \<noteq> StageRest"
    using that by (intro wrap32_id) (auto simp: rollout_ok_def)
  have "active s" and t: "t = s\<lparr>st_rollout := st_rollout t\<rparr>" and stage: "r_Stage ?r \<noteq> StageRest"
    using assms by (auto simp: advance_stage_def AdvanceStage_def Let_def active_def split: if_splits)
  moreover have "header_safe ?r (st_rollout t)"
    unfolding header_safe_def
  proof
    assume ok: "rollout_ok ?r"
    show "identity_of (st_rollout t) = identity_of ?r \<and> r_CurrentBatch ?r \<le> r_CurrentBatch (st_rollout t) \<and>
        rollout_ok (st_rollout t)"
      using assms(1) ok unfolding advance_stage_def Let_def w [OF ok stage]
      by (auto simp: AdvanceStage_def identity_of_def rollout_ok_def split: if_splits)
  qed
  ultimately show ?thesis using good_header by metis
qed

lemma good_finish: "active s \<Longrightarrow> sound_step s (finish_rollout e scope s)"
proof -
  assume a: "active s"
  have "sound_step s (s\<lparr>st_rollout := r\<rparr>)"
    if "FinishRollout now status (st_rollout s) = Some r"
      "status \<in> {StatusCompleted, StatusCompletedWithFailures}" for now status r
    using that a
    by (intro good_header) (auto simp: FinishRollout_def header_safe_def identity_of_def rollout_ok_def
        split: if_splits)
  then show ?thesis
    using good_trans [OF _ good_event]
    by (auto simp: finish_rollout_def Let_def split: option.splits)
qed

lemma good_settled:
  assumes "settled_step e scope s = Inr (x, t)" "active s"
  shows "sound_step s t"
  using assms good_finish [OF assms(2)] unfolding settled_step_def Let_def
  by (auto split: if_splits sum.splits option.splits intro: good_transition good_advance
      intro!: good_trans [OF _ good_event])

lemma good_progress:
  assumes "advanceRolloutProgress e observed s = Inr (x, t)"
  shows "sound_step s t"
  using assms unfolding advanceRolloutProgress_def Let_def
  by (auto simp: active_def split: if_splits sum.splits intro: good_transition good_settled)

section \<open>Operators\<close>

lemma mutate_cases:
  assumes "mutateActive m change s = Inr (x, t)"
  shows "active s \<and> change s = Inr (x, t)"
  using assms by (auto simp: mutateActive_def active_def split: if_splits)

lemma good_continue: "ContinueRollout e m s = Inr (x, t) \<Longrightarrow> sound_step s t"
  unfolding ContinueRollout_def
  by (drule mutate_cases)
    (auto split: if_splits sum.splits intro: good_advance intro!: good_trans [OF _ good_note])

lemma good_pause_statement:
  "PauseStatement now a (st_rollout s) = Some r \<Longrightarrow> sound_step s (s\<lparr>st_rollout := r\<rparr>)"
  by (rule good_header)
    (auto simp: PauseStatement_def active_def header_safe_def identity_of_def rollout_ok_def split: if_splits)

lemma good_pause: "PauseRollout e m s = Inr (x, t) \<Longrightarrow> sound_step s t"
  unfolding PauseRollout_def
  by (drule mutate_cases)
    (auto split: option.splits intro: good_pause_statement intro!: good_trans [OF _ good_note])

lemma good_restart: "active s \<Longrightarrow> sound_step s (restart_wait e s)"
  by (simp add: restart_wait_def good_wait)

lemma active_restart [simp]: "active (restart_wait e s) = active s"
  by (simp add: restart_wait_def)

lemma good_resume: "ResumeRollout e m s = Inr (x, t) \<Longrightarrow> sound_step s t"
proof -
  assume "ResumeRollout e m s = Inr (x, t)"
  then obtain r where a: "active s" and r: "ResumeStatement (e_dbnow e) (mu_Actor m) (st_rollout s) = Some r"
    and t: "t = note_event ''rollout_resumed'' m [] (restart_wait e (s\<lparr>st_rollout := r\<rparr>))"
    unfolding ResumeRollout_def by (auto dest!: mutate_cases split: option.splits)
  have "sound_step s (s\<lparr>st_rollout := r\<rparr>)" "active (s\<lparr>st_rollout := r\<rparr>)"
    using a r
    by (auto simp: ResumeStatement_def active_def header_safe_def identity_of_def rollout_ok_def
        intro!: good_header split: if_splits option.splits)
  then show ?thesis
    unfolding t using good_restart good_note good_trans by blast
qed

text \<open>Cancelling writes the header and then halts what remains; the two commute.\<close>

lemma good_cancel: "CancelRollout e m s = Inr (x, t) \<Longrightarrow> sound_step s t"
proof -
  assume "CancelRollout e m s = Inr (x, t)"
  then obtain r ids where a: "active s"
    and r: "CancelStatement (e_dbnow e) ''canceled_remaining'' (mu_Actor m) (st_rollout s) = Some r"
    and t: "t = note_event ''rollout_canceled'' m []
      (s\<lparr>st_rollout := r, st_rows := HaltDevices (e_dbnow e) ids HaltReasonCanceled
         ''Update canceled by operator'' (st_rows s)\<rparr>)"
    unfolding CancelRollout_def by (auto dest!: mutate_cases simp: Let_def split: option.splits)
  let ?u = "s\<lparr>st_rows := HaltDevices (e_dbnow e) ids HaltReasonCanceled ''Update canceled by operator'' (st_rows s)\<rparr>"
  have "sound_step s ?u"
    by (rule good_rows [OF a]) (simp add: row_statements)
  moreover have "sound_step ?u (?u\<lparr>st_rollout := r\<rparr>)"
    using a r
    by (intro good_header) (auto simp: CancelStatement_def active_def header_safe_def identity_of_def
        rollout_ok_def split: if_splits)
  moreover have "?u\<lparr>st_rollout := r\<rparr> = s\<lparr>st_rollout := r, st_rows := st_rows ?u\<rparr>"
    by simp
  ultimately have "sound_step s (s\<lparr>st_rollout := r, st_rows := HaltDevices (e_dbnow e) ids HaltReasonCanceled
      ''Update canceled by operator'' (st_rows s)\<rparr>)"
    using good_trans by fastforce
  then show ?thesis
    unfolding t by (rule good_trans) simp
qed

lemma good_supersede: "CancelActive e why a s = Inr (x, t) \<Longrightarrow> sound_step s t"
proof -
  assume c: "CancelActive e why a s = Inr (x, t)"
  have "sound_step s (s\<lparr>st_rollout := r\<rparr>)" if "CancelStatement (e_dbnow e) why a (st_rollout s) = Some r" for r
    using that
    by (intro good_header) (auto simp: CancelStatement_def active_def header_safe_def identity_of_def
        rollout_ok_def split: if_splits)
  then show ?thesis
    using c good_trans [OF _ good_event] by (auto simp: CancelActive_def split: option.splits)
qed

lemma good_action: "active s \<Longrightarrow> sound_step s (record_action m s)"
  unfolding record_action_def set_rollout_def
  by (rule good_header) (auto simp: header_safe_def identity_of_def rollout_ok_def)

lemma active_action [simp]: "active (record_action m s) = active s"
  by (simp add: record_action_def set_rollout_def active_def)

lemma good_retry: "RetryFailedDevices e m s = Inr (x, t) \<Longrightarrow> sound_step s t"
proof -
  assume c: "RetryFailedDevices e m s = Inr (x, t)"
  show ?thesis
  proof (cases "active s")
    case False
    then show ?thesis using c by (simp add: RetryFailedDevices_def active_def)
  next
    case True
    obtain ids rows where q: "RequeueRolloutDevices e (map fst (e_suppressed e)) (st_rows s) = (ids, rows)"
      by fastforce
    let ?u = "s\<lparr>st_rows := rows\<rparr>"
    have g: "sound_step s ?u"
      using safe_Requeue [of "st_rows s" e "map fst (e_suppressed e)"] q
      by (intro good_rows [OF True]) simp
    have t: "t = ?u \<or> (\<exists>names. t = note_event ''rollout_retried'' m names (record_action m (restart_wait e ?u)))"
      using c True by (auto simp: RetryFailedDevices_def RetryActive_def active_def q Let_def split: if_splits)
    have "sound_step ?u (record_action m (restart_wait e ?u))"
      by (rule good_trans [OF good_restart good_action]) (simp_all add: True)
    from good_trans [OF good_trans [OF g this] good_note] g t show ?thesis
      by (elim disjE exE) simp_all
  qed
qed

lemma good_skipTargets: "active s \<Longrightarrow> sound_step s (skipTargets e m ts s)"
  unfolding skipTargets_def by (rule good_rows) (auto simp: row_statements)

lemma active_skipTargets [simp]: "active (skipTargets e m ts s) = active s"
  by (simp add: skipTargets_def)

lemma good_skip: "SkipRolloutDevices e ids m s = Inr (x, t) \<Longrightarrow> sound_step s t"
proof -
  assume "SkipRolloutDevices e ids m s = Inr (x, t)"
  then have a: "active s" and
    "\<exists>sel. t = note_event ''rollout_devices_skipped'' m ids (record_action m (skipTargets e m sel s)) \<or>
      t = note_event ''rollout_devices_skipped'' m ids
        (set_controller_wait (Some (e_now e)) (record_action m (skipTargets e m sel s)))"
    unfolding SkipRolloutDevices_def
    by (auto dest!: mutate_cases simp: Let_def split: option.splits sum.splits if_splits)
  then obtain sel where t: "t = note_event ''rollout_devices_skipped'' m ids (record_action m (skipTargets e m sel s)) \<or>
      t = note_event ''rollout_devices_skipped'' m ids
        (set_controller_wait (Some (e_now e)) (record_action m (skipTargets e m sel s)))"
    by blast
  let ?v = "record_action m (skipTargets e m sel s)"
  have "sound_step s ?v"
    by (rule good_trans [OF good_skipTargets [OF a] good_action]) (simp add: a)
  moreover have "sound_step ?v (set_controller_wait (Some (e_now e)) ?v)"
    by (rule good_wait) (simp add: a)
  ultimately show ?thesis
    using t good_note good_trans by blast
qed

section \<open>Controllers\<close>

lemma select_loop_subset:
  "set (snd (select_loop r k named selected ts)) \<subseteq> set selected \<union> set ts"
  by (induction r k named selected ts rule: select_loop.induct) (auto simp: Let_def)

lemma selectQueued_subset: "selectQueued r ts sel = Inr selected \<Longrightarrow> set selected \<subseteq> set ts"
  using select_loop_subset [of r "ds_Count sel" "ds_DeviceIdentifiers sel" "[]" ts]
  by (auto simp: selectQueued_def split: prod.splits if_splits)

lemma advance_send_cases:
  assumes "advance_send e selected budget s = Inr (d, t)"
  shows "selected = [] \<and> t = s \<and> dr_sent d = [] \<and> dr_asked d = [] \<or>
    selected \<noteq> [] \<and> dispatchLockedBatch e selected budget s = Inr (d, t) \<and>
    length (dr_sent d) = length selected"
  using assms by (auto simp: advance_send_def split: if_splits sum.splits)

text \<open>The way through \<open>AdvanceRollout\<close> that commits.\<close>

lemma AdvanceRollout_cases:
  assumes "AdvanceRollout e sel m s = Inr (d, t)"
  obtains selected budget u v w where "active s" "r_PausedAt (st_rollout s) = None"
    "selectQueued (st_rollout s) (read_targets e 0 s) sel = Inr selected"
    "list_all (\<lambda>t. \<not> not_dispatchable t) selected"
    "refreshOfflineBudget e s = (budget, u)"
    "case room budget of Some n \<Rightarrow> length selected \<le> n | None \<Rightarrow> True"
    "advance_send e selected budget u = Inr (d, v)"
    "t = note_event ''rollout_advanced'' m (dr_sent d) (set_controller_wait w (record_action m v))"
proof -
  have act: "active s"
    using assms by (auto simp: AdvanceRollout_def requireDelegated_def active_def Let_def split: if_splits option.splits)
  obtain budget u where b: "refreshOfflineBudget e s = (budget, u)" by fastforce
  have "r_PausedAt (st_rollout s) = None"
    using assms unfolding AdvanceRollout_def Let_def by (simp split: if_split_asm option.split_asm)
  moreover obtain selected where sel: "selectQueued (st_rollout s) (read_targets e 0 s) sel = Inr selected"
    using assms unfolding AdvanceRollout_def Let_def
    by (simp split: if_split_asm option.split_asm sum.split_asm)
  moreover have find: "List.find not_dispatchable selected = None"
    using assms unfolding AdvanceRollout_def Let_def sel
    by (simp split: if_split_asm option.split_asm)
  moreover obtain v where "advance_send e selected budget u = Inr (d, v)"
    "case room budget of Some n \<Rightarrow> length selected \<le> n | None \<Rightarrow> True"
    "\<exists>w. t = note_event ''rollout_advanced'' m (dr_sent d) (set_controller_wait w (record_action m v))"
    using assms unfolding AdvanceRollout_def Let_def sel sum.case find option.case b prod.case
    by (force split: if_split_asm option.split_asm sum.split_asm)
  ultimately show thesis
    using that act b by (auto simp: find_None_iff list_all_iff)
qed

lemma good_AdvanceRollout: "AdvanceRollout e sel m s = Inr (d, t) \<Longrightarrow> sound_step s t"
proof (erule AdvanceRollout_cases)
  fix selected budget u v w
  assume a: "active s" and q: "selectQueued (st_rollout s) (read_targets e 0 s) sel = Inr selected"
    and b: "refreshOfflineBudget e s = (budget, u)" and v: "advance_send e selected budget u = Inr (d, v)"
    and t: "t = note_event ''rollout_advanced'' m (dr_sent d) (set_controller_wait w (record_action m v))"
  have u: "u = s\<lparr>st_reservations := st_reservations u\<rparr>"
    by (rule refresh_step [OF b])
  then have su: "sound_step s u" using good_other(1) by metis
  have au: "active u" "st_rows u = st_rows s"
    using a u by (metis active_simps(4), metis rollout_db.select_convs(2) rollout_db.surjective rollout_db.update_convs(3))
  have "t_row ` set (read_targets e 0 s) = set (st_rows s)"
    using reads_read [of e 0 s] unfolding reads_def by (metis set_map)
  then have "scope_of selected u"
    unfolding scope_of_def au(2) using selectQueued_subset [OF q] by blast
  then have uv: "sound_step u v"
    using advance_send_cases [OF v] good_dispatchLocked au(1) by auto
  have "active v"
    using advance_send_cases [OF v] dispatchLocked_status au(1) by blast
  then have "sound_step v t"
    unfolding t by (intro good_trans [OF good_trans [OF good_action good_wait] good_note]) simp_all
  with su uv show ?thesis using good_trans by blast
qed

lemma good_completeDelegated: "active s \<Longrightarrow> sound_step s (completeDelegated e ts m s)"
proof -
  assume a: "active s"
  have "sound_step s (set_rollout (CompleteDelegated now status actor) s)"
    if "status \<in> {StatusCompleted, StatusCompletedWithFailures}" for now status actor
    unfolding set_rollout_def using that a
    by (intro good_header) (auto simp: CompleteDelegated_def header_safe_def identity_of_def rollout_ok_def)
  then show ?thesis
    using good_trans [OF _ good_note] by (auto simp: completeDelegated_def)
qed

lemma good_complete: "CompleteRollout e m s = Inr (x, t) \<Longrightarrow> sound_step s t"
proof -
  assume "CompleteRollout e m s = Inr (x, t)"
  then have a: "active s" and
    "\<exists>q. t = completeDelegated e (read_targets e 0 s) m (skipTargets e m q s) \<or>
      t = completeDelegated e (read_targets e 0 s) m
        (note_event ''rollout_devices_skipped'' m (map t_DeviceIdentifier q) (skipTargets e m q s))"
    unfolding CompleteRollout_def
    by (auto dest!: mutate_cases simp: Let_def split: option.splits if_splits)
  then obtain q where t: "t = completeDelegated e (read_targets e 0 s) m (skipTargets e m q s) \<or>
      t = completeDelegated e (read_targets e 0 s) m
        (note_event ''rollout_devices_skipped'' m (map t_DeviceIdentifier q) (skipTargets e m q s))"
    by blast
  have "sound_step s (completeDelegated e (read_targets e 0 s) m (skipTargets e m q s))"
    by (rule good_trans [OF good_skipTargets good_completeDelegated]) (simp_all add: a)
  moreover have "sound_step s (completeDelegated e (read_targets e 0 s) m
        (note_event ''rollout_devices_skipped'' m (map t_DeviceIdentifier q) (skipTargets e m q s)))"
    by (rule good_trans [OF good_trans [OF good_skipTargets good_note] good_completeDelegated])
      (simp_all add: a)
  ultimately show ?thesis using t by (elim disjE) simp_all
qed

lemma good_enforceDelegated: "enforceDelegated e s = Inr (x, t) \<Longrightarrow> sound_step s t"
proof -
  assume c: "enforceDelegated e s = Inr (x, t)"
  show ?thesis
  proof (cases "active s")
    case False
    then show ?thesis using c by (simp add: enforceDelegated_def active_def Let_def)
  next
    case True
    define over where "over = filter (attempt_over e) (activeTargets (read_targets e 0 s))"
    define u where "u = (if over = [] then s
      else log_event ''rollout_device_failed'' SystemActor [] (map t_DeviceIdentifier over)
        (s\<lparr>st_rows := HaltDevices (e_dbnow e) (map t_DeviceID over) HaltReasonFailed
            (delegated_text (st_rollout s)) (st_rows s)\<rparr>))"
    have su: "sound_step s u" and au: "active u"
      unfolding u_def using True
      by (auto intro!: good_trans [OF _ good_event] good_rows simp: row_statements)
    have "t = s \<or> t = u \<or> (\<exists>ts m. t = completeDelegated e ts m u) \<or> (\<exists>w. t = set_controller_wait w u) \<or>
      (\<exists>k v. t = log_event k SystemActor [] [] v \<and>
        (v = u \<or> (\<exists>r. PauseStatement (e_dbnow e) SystemActor (st_rollout u) = Some r \<and> v = u\<lparr>st_rollout := r\<rparr>)))"
      using c unfolding enforceDelegated_def Let_def over_def [symmetric] u_def [symmetric]
      by (simp split: if_split_asm option.split_asm) blast+
    then have "t = s \<or> sound_step u t"
      using good_completeDelegated [OF au] good_wait [OF au] good_trans [OF good_pause_statement good_event]
      by auto
    with su show ?thesis using good_trans by auto
  qed
qed

section \<open>Every operation\<close>

lemma good_run_tx:
  "(\<And>a t. body s = Inr (a, t) \<Longrightarrow> sound_step s t) \<Longrightarrow> sound_step s (snd (run_tx e body s))"
  by (auto simp: run_tx_def split: sum.splits)

lemma good_touch: "sound_step s (set_rollout (\<lambda>r. r\<lparr>r_Revision := n\<rparr>) s)"
  by (auto simp: sound_step_def history_def set_rollout_def rollout_inv_def rollout_ok_def identity_of_def)

lemma good_exec: "rollout_exec x s = Some t \<Longrightarrow> sound_step s t"
  by (cases x)
    (auto intro!: good_run_tx good_other good_touch
      intro: good_prepare good_dispatch good_progress good_enforceDelegated good_continue good_pause
        good_resume good_cancel good_retry good_skip good_AdvanceRollout good_complete good_supersede)

lemma exec_total: "\<exists>t. rollout_exec x s = Some t"
  by (cases x) auto

interpretation engine: kept_component rollout_exec rollout_inv
  by unfold_locales (metis exec_total good_exec sound_step_def)

lemma run_history: "rollout_inv s \<Longrightarrow> run_ops rollout_exec ops s = Some t \<Longrightarrow> history s t"
  by (rule engine.run_steps [where R = history])
    (auto intro: history_refl history_trans dest: good_exec simp: sound_step_def)

text \<open>A rollout as it is created satisfies the invariant.\<close>

definition new_db :: "rollout_start \<Rightarrow> int \<Rightarrow> channel_firmware option \<Rightarrow> rollout_db" where
  "new_db st cap a = \<lparr>st_rollout = rs_rollout st, st_rows = rs_rows st, st_reservations = [],
     st_cap = cap, st_assignment = a, st_events = []\<rparr>"

lemma started_inv:
  assumes "startRollout swaps health now dbnow newID cap spec = Some (Some st)"
    and "behavior_ok (sp_Behavior spec)"
    and "distinct (map m_DeviceID (sp_Members spec))" "length (sp_Members spec) < 2 ^ 31"
  shows "rollout_inv (new_db st c a)"
proof -
  have w: "well_started spec st" by (rule started_well [OF assms(1,2)])
  have ids: "mset (map rd_DeviceID (rs_rows st)) = mset (map m_DeviceID (sp_Members spec))"
    using w by (simp add: well_started_def Let_def)
  then have "distinct (map rd_DeviceID (rs_rows st))"
    using assms(3) mset_eq_imp_distinct_iff by blast
  moreover have "list_all row_ok (rs_rows st)"
    using assms(1) plan_rows_sent
    by (auto simp: startRollout_def Let_def list_all_iff split: if_splits)
  moreover have "rollout_ok (rs_rollout st)"
  proof -
    obtain sizes where n: "r_BatchCount (rs_rollout st) = int (length sizes)" "list_all (\<lambda>c. 0 < c) sizes"
        "map rd_BatchIndex (rs_rows st) =
          concat (map (\<lambda>(i, c). replicate c (Some (int i))) (enumerate 0 sizes)) @
          replicate (length (rs_rows st) - sum_list sizes) None"
        "r_Stage (rs_rollout st) = (if sizes = [] then StageRest else StageBatch)"
      using w by (auto simp: well_started_def Let_def list_all_iff)
    have "length sizes \<le> sum_list sizes"
      using n(2) by (induction sizes) auto
    moreover have "sum_list sizes \<le> length (rs_rows st)"
      using arg_cong [OF n(3), of length]
      by (simp add: length_concat comp_def case_prod_unfold enumerate_eq_zip map_zip_map2 [symmetric])
    moreover have "length (rs_rows st) = length (sp_Members spec)"
      using arg_cong [OF ids, of size] by simp
    ultimately have "int (length sizes) < 2 ^ 31"
      using assms(4) by simp
    then show ?thesis
      using n assms(1)
      by (auto simp: rollout_ok_def startRollout_def Let_def split: if_splits)
  qed
  ultimately show ?thesis
    by (simp add: rollout_inv_def new_db_def rows_ok_def)
qed

section \<open>Property\<close>

text \<open>
  C20. In every interleaving of enforcement, dispatch, operators, controllers and assignment changes
  on a rollout: nothing panics, the invariant is kept (no miner is attempted more than three times,
  a batch in progress exists, a rollout has ended exactly when it has an end time), and history
  only grows: the rollout keeps its identity and behavior, no miner is dropped or changes its batch
  or baseline, no earlier batch is returned to, events are appended only, and once the rollout has
  ended neither its header nor any of its rows changes.
\<close>

theorem rollout_history_only_grows:
  "case run_ops rollout_exec ops s of
     None \<Rightarrow> \<not> rollout_inv s
   | Some t \<Rightarrow> (if rollout_inv s then rollout_inv t \<and> history s t else True)"
  using engine.run_safe [of s ops] run_history [of s ops] by (auto split: option.splits)

end
