(* ===== verification/Rollout_Outcomes.thy ===== *)
theory Rollout_Outcomes
  imports Rollout_Safety
begin

text \<open>
  What a rollout's transactions achieve: to whom a dispatch sends and how many, when a rollout
  leaves a batch and how it finishes, and that a controller's advance sends its whole selection or
  changes nothing.
\<close>

section \<open>Dispatch\<close>

text \<open>A miner that may be sent an update: part of the stage, unsettled, free, compatible, not worn out.\<close>

definition may_send :: "firmware_rollout \<Rightarrow> gotime \<Rightarrow> rollout_target \<Rightarrow> bool" where
  "may_send r now t \<longleftrightarrow>
     \<not> d_settled (t_row t) \<and> \<not> d_excluded (t_row t) \<and>
     (r_Stage r = StageRest \<or> rd_BatchIndex (t_row t) = Some (r_CurrentBatch r)) \<and>
     lv_PendingFirmwareChecksums (t_live t) = [] \<and> lv_PendingLegacyFirmwareFileIds (t_live t) = [] \<and>
     lv_InScope (t_live t) = Some True \<and> rd_Attempts (t_row t) < MaxAttempts \<and>
     (case rd_LastSentAt (t_row t) of None \<Rightarrow> True | Some x \<Rightarrow> x < now - resendInterval)"

text \<open>The slots held when the budget is read.\<close>

definition held_slots :: "tx_env \<Rightarrow> rollout_db \<Rightarrow> int list" where
  "held_slots e s =
     OfflineSlots e (e_live e 0)
       (s\<lparr>st_reservations := ObserveOffline e (e_live e 0) (st_reservations s)\<rparr>)"

definition fits_budget :: "tx_env \<Rightarrow> rollout_db \<Rightarrow> 'a list \<Rightarrow> bool" where
  "fits_budget e s asked \<longleftrightarrow>
     st_cap s \<le> 0 \<or> asked = [] \<or> int (length (held_slots e s) + length asked) \<le> st_cap s"

definition send_ok :: "tx_env \<Rightarrow> rollout_db \<Rightarrow> dispatch_result \<Rightarrow> bool" where
  "send_ok e s d \<longleftrightarrow>
     dr_asked d = [] \<or>
     (let r = st_rollout s in
      active s \<and> r_PausedAt r = None \<and> bs_Method (r_BehaviorSnapshot r) \<noteq> MethodDelegated \<and>
      (r_Stage r = StageBatch \<or> r_Stage r = StageRest) \<and>
      e_fileAvailable e \<and> current_assignment r (st_assignment s) \<and> fits_budget e s (dr_asked d) \<and>
      (\<forall>i \<in> set (dr_asked d). \<exists>t n. t_DeviceID t = i \<and> t_row t \<in> set (st_rows s) \<and>
         t_live t = e_live e n i \<and> may_send r (e_now e) t))"

lemma Due_facts:
  "judge_target now t = Due \<Longrightarrow>
     \<not> d_settled (t_row t) \<and> lv_PendingFirmwareChecksums (t_live t) = [] \<and>
     lv_PendingLegacyFirmwareFileIds (t_live t) = [] \<and> lv_InScope (t_live t) = Some True \<and>
     rd_Attempts (t_row t) < MaxAttempts \<and>
     (case rd_LastSentAt (t_row t) of None \<Rightarrow> True | Some x \<Rightarrow> x < now - resendInterval)"
  by (auto simp: judge_target_def Let_def set_and_def time_before_def time_add_def
      split: if_splits option.splits)

lemma distinct_reserve: "distinct (ob_held b) \<Longrightarrow> distinct (ob_held (foldl reserve b is))"
  by (induction "is" arbitrary: b) (auto simp: reserve_def)

lemma reserve_fold:
  "distinct is \<Longrightarrow> set is \<inter> set (ob_held b) = {} \<Longrightarrow>
     foldl reserve b is = b\<lparr>ob_held := ob_held b @ is\<rparr>"
  by (induction "is" arbitrary: b) (auto simp: reserve_def)

lemma refreshed:
  assumes "refreshOfflineBudget e s = (b, u)"
  shows "u = s\<lparr>st_reservations := ObserveOffline e (e_live e 0) (st_reservations s)\<rparr>"
    "b = (if st_cap s \<le> 0 then None else Some \<lparr>ob_limit = st_cap s, ob_held = held_slots e s\<rparr>)"
  using assms reserve_fold [of "held_slots e s" "\<lparr>ob_limit = st_cap s, ob_held = []\<rparr>"]
  by (auto simp: refreshOfflineBudget_def Let_def held_slots_def OfflineSlots_def)

lemma room_of:
  assumes "refreshOfflineBudget e s = (b, u)"
  shows "room b = (if st_cap s \<le> 0 then None else Some (nat (st_cap s) - length (held_slots e s)))"
  using refreshed(2) [OF assms] by (simp add: room_def)

lemma capped_fits:
  assumes "refreshOfflineBudget e s = (b, u)"
  shows "fits_budget e s (cap_list (room b) xs)"
  unfolding fits_budget_def cap_list_def room_of [OF assms] by auto

lemma excluded_unchanged:
  assumes "excludeDepartedTargets e n (read_targets e k s) s = (ts, u)" "t \<in> set ts" "\<not> d_excluded (t_row t)"
  shows "t_row t \<in> set (st_rows s) \<and> (\<exists>j. t_live t = e_live e j (t_DeviceID t))"
proof -
  have r: "t_row x \<in> set (st_rows w) \<and> t_live x = e_live e j (t_DeviceID x)"
    if "x \<in> set (read_targets e j w)" for x j w
    using that by (auto simp: read_targets_def listTargets_def Let_def)
  have x: "d \<in> set (st_rows s)" if "d \<in> set (ExcludeDevices now ids (st_rows s))" "\<not> d_excluded d" for d now ids
    using that by (auto simp: ExcludeDevices_def update_where_def d_excluded_def split: if_splits)
  show ?thesis
    using assms r x by (fastforce simp: excludeDepartedTargets_def Let_def split: if_splits)
qed

lemma review_targets:
  assumes "t \<in> set (reviewScope r ts)"
  shows "t \<in> set ts" "\<not> d_excluded (t_row t)"
    "r_Stage r = StageRest \<or> rd_BatchIndex (t_row t) = Some (r_CurrentBatch r)"
  using assms by (auto simp: reviewScope_def activeTargets_def evidenceScope_def t_inBatch_def split: if_splits)

lemma dispatch_send_ok:
  assumes "dispatchUpdates e observed s = Inr (d, t)"
  shows "send_ok e s d"
proof -
  obtain b u where b: "refreshOfflineBudget e s = (b, u)" by fastforce
  have u: "st_rollout u = st_rollout s" "st_rows u = st_rows s" "st_assignment u = st_assignment s"
    unfolding refreshed(1) [OF b] by simp_all
  obtain ts v where x: "excludeDepartedTargets e (Suc 0) (read_targets e 0 u) u = (ts, v)" by fastforce
  have v: "st_rollout v = st_rollout u" "st_assignment v = st_assignment u"
    using excludeDeparted_step [OF x] rows_step_fields by auto
  let ?r = "st_rollout s"
  have "dr_asked d = [] \<or> (active s \<and> r_PausedAt ?r = None \<and> bs_Method (r_BehaviorSnapshot ?r) \<noteq> MethodDelegated \<and>
      (r_Stage ?r = StageBatch \<or> r_Stage ?r = StageRest) \<and>
      dispatchLockedBatch e (reviewScope ?r ts) b v = Inr (d, t))"
    using assms by (auto simp: dispatchUpdates_def b x u active_def Let_def split: if_splits)
  then show ?thesis
  proof
    assume "dr_asked d = []" then show ?thesis by (simp add: send_ok_def)
  next
    assume h: "active s \<and> r_PausedAt ?r = None \<and> bs_Method (r_BehaviorSnapshot ?r) \<noteq> MethodDelegated \<and>
      (r_Stage ?r = StageBatch \<or> r_Stage ?r = StageRest) \<and>
      dispatchLockedBatch e (reviewScope ?r ts) b v = Inr (d, t)"
    then have "dispatchLockedBatch e (reviewScope ?r ts) b v = Inr (d, t)" by simp
    then show ?thesis
    proof (cases rule: dispatchLocked_cases)
      case (1 h' w)
      then show ?thesis by (simp add: send_ok_def)
    next
      case (2 h' w accepted uuid)
      have w: "st_rollout w = ?r" "st_assignment w = st_assignment s"
        using fail_targets_step [OF 2(1)] v u by simp_all
      have "\<exists>t n. t_DeviceID t = i \<and> t_row t \<in> set (st_rows s) \<and> t_live t = e_live e n i \<and>
          may_send ?r (e_now e) t" if i: "i \<in> set (dr_asked d)" for i
      proof -
        obtain y where y: "y \<in> set (reviewScope ?r ts)" "judge_target (e_now e) y = Due" "t_DeviceID y = i"
          using i cap_list_subset unfolding 2(2) judged_def target_ids_def by fastforce
        have "t_row y \<in> set (st_rows s) \<and> (\<exists>j. t_live y = e_live e j i)"
          using excluded_unchanged [OF x review_targets(1,2) [OF y(1)]] y(3) by (simp add: u)
        then show ?thesis
          using y(3) Due_facts [OF y(2)] review_targets [OF y(1)] by (auto simp: may_send_def)
      qed
      then show ?thesis
        using h 2(2,5,6) w capped_fits [OF b] by (auto simp: send_ok_def Let_def)
    qed
  qed
qed

text \<open>
  C17. An autonomous dispatch asks for updates only while its rollout is active, unpaused and in a
  batch or the rest stage, under the assignment it was started for and with the artifact at hand;
  every miner asked is in the stage, unsettled, a compatible member, without a pending command,
  tried fewer than three times and not within the last ten minutes; and together with the
  slots already held they stay within the channel's offline limit.
\<close>

theorem dispatch_respects_stage_and_budget:
  "case dispatchUpdates e observed s of Inl err \<Rightarrow> True | Inr (d, t) \<Rightarrow> send_ok e s d"
  using dispatch_send_ok by (auto split: sum.splits)

section \<open>Progress\<close>

definition moved_on :: "firmware_rollout \<Rightarrow> firmware_rollout \<Rightarrow> bool" where
  "moved_on r r' \<longleftrightarrow>
     r_CurrentBatch r' \<noteq> r_CurrentBatch r \<or> (r_Stage r \<noteq> StageRest \<and> r_Stage r' = StageRest)"

text \<open>What lets a settled batch go: no gate and no wait, an open gate, or a wait that is over.\<close>

definition released :: "tx_env \<Rightarrow> firmware_rollout \<Rightarrow> rollout_target list \<Rightarrow> bool" where
  "released e r scope \<longleftrightarrow>
     (let b = behaviorFrom (r_BehaviorSnapshot r) in
      if r_Stage r = StageBatch then \<not> gatesAfterBatch b \<and> b_WaitBetweenBatchesSeconds b \<le> 0
      else if r_Stage r = StageAwaitingReview then gate_open (e_now e) r scope
      else seconds (b_WaitBetweenBatchesSeconds b) \<le> stageElapsed (e_now e) r)"

definition progress_ok :: "tx_env \<Rightarrow> rollout_db \<Rightarrow> rollout_db \<Rightarrow> bool" where
  "progress_ok e s t \<longleftrightarrow>
     (let r = st_rollout s; r' = st_rollout t; scope = reviewScope r (read_targets e 0 s) in
      st_rows t = st_rows s \<and>
      (if r_Status r' \<noteq> r_Status r
       then r_Stage r = StageRest \<and> allSettled scope \<and>
         r_Status r' = (if anyFailed scope then StatusCompletedWithFailures else StatusCompleted)
       else True) \<and>
      (if moved_on r r' then allSettled scope \<and> released e r scope else True))"

lemma transition_effect:
  assumes "transition e from to s = Inr (x, t)"
  shows "st_rows t = st_rows s" "r_Status (st_rollout t) = r_Status (st_rollout s)"
    "r_CurrentBatch (st_rollout t) = r_CurrentBatch (st_rollout s)" "r_Stage (st_rollout t) = to"
  using assms by (auto simp: transition_def AdvanceStage_def Let_def split: if_splits)

lemma advance_effect:
  assumes "advance_stage e from a s = Inr (x, t)"
  shows "st_rows t = st_rows s" "r_Status (st_rollout t) = r_Status (st_rollout s)"
  using assms by (auto simp: advance_stage_def AdvanceStage_def Let_def split: if_splits)

lemma finish_effect:
  "st_rows (finish_rollout e scope s) = st_rows s"
  "r_CurrentBatch (st_rollout (finish_rollout e scope s)) = r_CurrentBatch (st_rollout s)"
  "r_Stage (st_rollout (finish_rollout e scope s)) = r_Stage (st_rollout s)"
  "r_Status (st_rollout (finish_rollout e scope s)) \<noteq> r_Status (st_rollout s) \<Longrightarrow>
   r_Status (st_rollout (finish_rollout e scope s)) =
     (if anyFailed scope then StatusCompletedWithFailures else StatusCompleted)"
  by (auto simp: finish_rollout_def FinishRollout_def Let_def split: option.splits if_splits)

lemma settled_progress:
  assumes "settled_step e scope s = Inr (x, t)" "known_stage (r_Stage (st_rollout s))"
  shows "st_rows t = st_rows s \<and>
    (r_Status (st_rollout t) \<noteq> r_Status (st_rollout s) \<longrightarrow> r_Stage (st_rollout s) = StageRest \<and>
       r_Status (st_rollout t) = (if anyFailed scope then StatusCompletedWithFailures else StatusCompleted)) \<and>
    (moved_on (st_rollout s) (st_rollout t) \<longrightarrow> released e (st_rollout s) scope)"
proof -
  let ?r = "st_rollout s" and ?b = "behaviorFrom (r_BehaviorSnapshot (st_rollout s))"
  consider (batch) "r_Stage ?r = StageBatch" | (review) "r_Stage ?r = StageAwaitingReview"
    | (wait) "r_Stage ?r = StageWaiting" | (rest) "r_Stage ?r = StageRest"
    using assms(2) unfolding known_stage_def by blast
  then show ?thesis
  proof cases
    case batch
    then show ?thesis
      using assms(1)
      by (auto simp: settled_step_def Let_def released_def moved_on_def transition_effect advance_effect
          not_less split: if_splits sum.splits)
  next
    case review
    obtain ev where ev: "evaluate (e_now e) ?r scope = Some ev"
        "ev_ReadyToAdvance ev \<longleftrightarrow> gate_open (e_now e) ?r scope"
      using gate_ready by blast
    show ?thesis
      using assms(1) review ev
      by (auto simp: settled_step_def Let_def released_def moved_on_def advance_effect
          split: if_splits sum.splits)
  next
    case wait
    then show ?thesis
      using assms(1)
      by (auto simp: settled_step_def Let_def released_def moved_on_def advance_effect not_less
          split: if_splits)
  next
    case rest
    then have "t = finish_rollout e scope s"
      using assms(1) by (simp add: settled_step_def Let_def)
    then show ?thesis
      using rest finish_effect [of e scope s] by (simp add: moved_on_def)
  qed
qed

lemma progress_progress:
  assumes "advanceRolloutProgress e observed s = Inr (x, t)" "known_stage (r_Stage (st_rollout s))"
  shows "progress_ok e s t"
proof -
  let ?scope = "reviewScope (st_rollout s) (read_targets e 0 s)"
  consider (same) "t = s" | (reopened) y where "transition e StageAwaitingReview StageBatch s = Inr (y, t)"
    | (resumed) y where "transition e StageWaiting StageBatch s = Inr (y, t)"
    | (settled) "allSettled ?scope" "\<exists>y. settled_step e ?scope s = Inr (y, t)"
    using assms(1) unfolding advanceRolloutProgress_def Let_def
    by (auto split: if_splits sum.splits)
  then show ?thesis
  proof cases
    case same
    then show ?thesis by (simp add: progress_ok_def moved_on_def Let_def)
  next
    case reopened
    then show ?thesis
      by (auto simp: progress_ok_def moved_on_def Let_def transition_effect)
  next
    case resumed
    then show ?thesis
      by (auto simp: progress_ok_def moved_on_def Let_def transition_effect)
  next
    case settled
    then show ?thesis
      using settled_progress [OF _ assms(2)] by (auto simp: progress_ok_def Let_def)
  qed
qed

text \<open>
  C18. The enforcement loop moves a rollout on by itself only when every miner in its scope is
  settled and the batch is released: by a behavior without gate and wait, by an open automatic gate, or
  by a wait that is over. It ends a rollout only in the rest stage, as completed with failures
  exactly when a miner of the channel failed.
\<close>

theorem progress_needs_settled_and_released:
  "case advanceRolloutProgress e observed s of
     Inl err \<Rightarrow> True
   | Inr (x, t) \<Rightarrow> (if known_stage (r_Stage (st_rollout s)) then progress_ok e s t else True)"
  using progress_progress by (auto split: sum.splits)

text \<open>
  C19. An automatic gate opens exactly when it should: the evidence is always computed, and it
  releases the gate if and only if the rollout stands unpaused at a gate it may release, every
  miner that is neither excluded nor skipped is verified, not failed, online and hashing as
  before, every configured limit holds on enough samples, and the stabilization time has passed.
\<close>

theorem automatic_gate_opens_on_evidence:
  "\<exists>ev. evaluate now r scope = Some ev \<and> (ev_ReadyToAdvance ev \<longleftrightarrow> gate_open now r scope)"
  by (rule gate_ready)

section \<open>Controllers\<close>

text \<open>What a controller's advance achieves: the whole selection, within the budget.\<close>

definition advanced_whole :: "tx_env \<Rightarrow> DeviceSelection \<Rightarrow> rollout_db \<Rightarrow> dispatch_result \<Rightarrow> bool" where
  "advanced_whole e sel s d \<longleftrightarrow>
     active s \<and> r_PausedAt (st_rollout s) = None \<and>
     (case selectQueued (st_rollout s) (read_targets e 0 s) sel of
        Inl err \<Rightarrow> False
      | Inr selected \<Rightarrow>
          dr_asked d = map t_DeviceID selected \<and> dr_sent d = map (byID selected) (dr_asked d) \<and>
          fits_budget e s (dr_asked d) \<and>
          list_all (\<lambda>t. \<not> not_dispatchable t \<and> judge_target (e_now e) t = Due) selected)"

lemma filter_whole: "length xs \<le> length (filter P xs) \<Longrightarrow> filter P xs = xs"
  by (metis filter_True le_antisym length_filter_le length_filter_less linorder_not_le)

lemma cap_list_length: "length (cap_list k xs) \<le> length xs"
  by (auto simp: cap_list_def split: option.splits)

lemma cap_list_whole: "length xs \<le> length (cap_list k xs) \<Longrightarrow> cap_list k xs = xs"
  by (auto simp: cap_list_def split: option.splits)

text \<open>As many miners sent as selected means that nobody was left out on the way.\<close>

lemma sent_whole:
  assumes due: "due = cap_list k (judged now Due selected)"
    and n: "length (filter P due) = length selected"
  shows "due = map t_DeviceID selected" "filter P due = due"
    "list_all (\<lambda>t. judge_target now t = Due) selected"
proof -
  let ?j = "judged now Due selected" and ?f = "filter (\<lambda>t. judge_target now t = Due) selected"
  have "length (filter P due) \<le> length due" "length due \<le> length ?j" "length ?j \<le> length selected"
    using cap_list_length [of k ?j] by (simp_all add: due judged_def target_ids_def)
  then have l: "length due \<le> length (filter P due)" "length ?j \<le> length due" "length selected \<le> length ?f"
    using n length_filter_le [of "\<lambda>t. judge_target now t = Due" selected]
    by (auto simp: judged_def target_ids_def simp del: length_filter_le)
  show "filter P due = due" by (rule filter_whole [OF l(1)])
  have f: "?f = selected" by (rule filter_whole [OF l(3)])
  then show "list_all (\<lambda>t. judge_target now t = Due) selected"
    by (metis (no_types, lifting) filter_id_conv list_all_iff)
  show "due = map t_DeviceID selected"
    using cap_list_whole l(2) f unfolding due judged_def target_ids_def by metis
qed

lemma advance_whole:
  assumes "AdvanceRollout e sel m s = Inr (d, t)"
  shows "advanced_whole e sel s d"
  using assms
proof (cases rule: AdvanceRollout_cases)
  case (1 selected budget u v w)
  show ?thesis
  proof (cases "selected = []")
    case True
    then show ?thesis
      using 1 advance_send_cases [OF 1(7)] by (simp add: advanced_whole_def fits_budget_def)
  next
    case False
    then have d: "dispatchLockedBatch e selected budget u = Inr (d, v)" "length (dr_sent d) = length selected"
      using advance_send_cases [OF 1(7)] by blast+
    from d(1) show ?thesis
    proof (cases rule: dispatchLocked_cases)
      case (1 h w)
      with d(2) False show ?thesis by simp
    next
      case (2 h w' accepted uuid)
      let ?due = "cap_list (room budget) (judged (e_now e) Due selected)"
      let ?P = "\<lambda>i. byID selected i \<in> set accepted"
      have f: "dr_asked d = ?due" "dr_sent d = map (byID selected) (filter ?P ?due)"
        using 2(2,4) by simp_all
      have n: "length (filter ?P ?due) = length selected"
        using d(2) f(2) by simp
      note whole = sent_whole [OF refl n]
      have "fits_budget e s (dr_asked d)"
        unfolding f(1) by (rule capped_fits [OF 1(5)])
      then show ?thesis
        using 1(1-4) f whole by (simp add: advanced_whole_def list_all_iff)
    qed
  qed
qed


end
