(* ===== verification/Go_Time.thy ===== *)
theory Go_Time
  imports Go_Text "HOL-Library.Monad_Syntax"
begin

text \<open>
  What the server uses of Go's package \<open>time\<close> besides instants: the calendar, locations,
  \<open>time.Date\<close>, and the parsing and printing of dates and clock times by layout. A location is what
  \<open>Location.lookup\<close> answers for an instant, since the zone data base is not part of the program. Instants
  are counted in nanoseconds from the start of year 1 (UTC), as in the prelude.
\<close>

section \<open>The calendar\<close>

definition leap_year :: "int \<Rightarrow> bool" where
  "leap_year y \<longleftrightarrow> y mod 4 = 0 \<and> (y mod 100 \<noteq> 0 \<or> y mod 400 = 0)"

text \<open>Days from the start of year 1 to the start of year \<open>y\<close>.\<close>

definition days_before_year :: "int \<Rightarrow> int" where
  "days_before_year y = 365 * (y - 1) + (y - 1) div 4 - (y - 1) div 100 + (y - 1) div 400"

definition month_lengths :: "bool \<Rightarrow> int list" where
  "month_lengths leap = [31, if leap then 29 else 28, 31, 30, 31, 30, 31, 31, 30, 31, 30, 31]"

definition days_in :: "int \<Rightarrow> int \<Rightarrow> int" where
  "days_in m y = month_lengths (leap_year y) ! nat (m - 1)"

definition days_before_month :: "bool \<Rightarrow> int \<Rightarrow> int" where
  "days_before_month leap m = sum_list (take (nat (m - 1)) (month_lengths leap))"

text \<open>\<open>daysSinceEpoch\<close> with the month normalised as in \<open>time.Date\<close>; the day may be out of range.\<close>

definition day_number :: "int \<Rightarrow> int \<Rightarrow> int \<Rightarrow> int" where
  "day_number y m d =
     (let y' = y + (m - 1) div 12; m' = (m - 1) mod 12 + 1
      in days_before_year y' + days_before_month (leap_year y') m' + (d - 1))"

text \<open>\<open>absDate\<close>: the year by cycles of 400, 100, 4 and 1 years, then the month by the day of the year.\<close>

definition year_day :: "int \<Rightarrow> int \<times> int" where
  "year_day n =
     (let a = n div 146097; r = n mod 146097;
          b = min 3 (r div 36524); r = r - b * 36524;
          c = r div 1461; r = r - c * 1461;
          e = min 3 (r div 365); r = r - e * 365
      in (400 * a + 100 * b + 4 * c + e + 1, r))"

fun month_day :: "int list \<Rightarrow> int \<Rightarrow> int \<Rightarrow> int \<times> int" where
  "month_day [] m r = (m, r + 1)"
| "month_day (l # ls) m r = (if r < l then (m, r + 1) else month_day ls (m + 1) (r - l))"

definition civil_date :: "int \<Rightarrow> int \<times> int \<times> int" where
  "civil_date n =
     (let (y, r) = year_day n; (m, d) = month_day (month_lengths (leap_year y)) 1 r in (y, m, d))"

definition valid_date :: "int \<Rightarrow> int \<Rightarrow> int \<Rightarrow> bool" where
  "valid_date y m d \<longleftrightarrow> 1 \<le> m \<and> m \<le> 12 \<and> 1 \<le> d \<and> d \<le> days_in m y"

lemma mod_shift: "x = k * q + r \<Longrightarrow> x mod k = r mod (k::int)"
  by simp

lemma div_shift: "x = k * q + r \<Longrightarrow> 0 \<le> r \<Longrightarrow> r < k \<Longrightarrow> x div k = (q::int)"
  by simp

lemma mod_top: "0 < x \<Longrightarrow> x \<le> k \<Longrightarrow> x mod k = 0 \<longleftrightarrow> x = (k::int)"
  by (cases "x = k") (simp_all add: mod_pos_pos_trivial)

lemma leap_cycle:
  assumes "0 \<le> b" "b \<le> 3" "0 \<le> c" "c \<le> 24" "0 \<le> e" "e \<le> 3"
  shows "leap_year (400 * a + 100 * b + 4 * c + e + 1) \<longleftrightarrow> e = 3 \<and> (c \<noteq> 24 \<or> b = 3)"
proof -
  let ?y = "400 * a + 100 * b + 4 * c + e + 1"
  have "?y mod 4 = (e + 1) mod 4"
    by (rule mod_shift [of _ _ "100 * a + 25 * b + c"]) simp
  then have four: "?y mod 4 = 0 \<longleftrightarrow> e = 3"
    using assms(5,6) mod_top [of "e + 1" 4] by auto
  have "?y mod 100 = (4 * c + e + 1) mod 100"
    by (rule mod_shift [of _ _ "4 * a + b"]) simp
  then have hundred: "?y mod 100 = 0 \<longleftrightarrow> c = 24 \<and> e = 3"
    using assms(3-6) mod_top [of "4 * c + e + 1" 100] by linarith
  have "?y mod 400 = (100 * b + 4 * c + e + 1) mod 400"
    by (rule mod_shift [of _ _ a]) simp
  then have all: "?y mod 400 = 0 \<longleftrightarrow> b = 3 \<and> c = 24 \<and> e = 3"
    using assms mod_top [of "100 * b + 4 * c + e + 1" 400] by linarith
  show ?thesis unfolding leap_year_def four hundred all by blast
qed

lemma cycle_split:
  fixes y :: int
  obtains a b c e where "y = 400 * a + 100 * b + 4 * c + e + 1"
    "0 \<le> b" "b \<le> 3" "0 \<le> c" "c \<le> 24" "0 \<le> e" "e \<le> 3"
proof -
  define a r where "a = (y - 1) div 400" and "r = (y - 1) mod 400"
  define b s where "b = r div 100" and "s = r mod 100"
  define c e where "c = s div 4" and "e = s mod 4"
  have r: "y - 1 = 400 * a + r" "0 \<le> r" "r < 400" by (simp_all add: a_def r_def)
  have s: "r = 100 * b + s" "0 \<le> s" "s < 100" by (simp_all add: b_def s_def)
  have e: "s = 4 * c + e" "0 \<le> e" "e < 4" by (simp_all add: c_def e_def)
  show thesis
    by (rule that [of a b c e]) (use r s e in auto)
qed

lemma days_before_cycle:
  assumes "0 \<le> b" "b \<le> 3" "0 \<le> c" "c \<le> 24" "0 \<le> e" "e \<le> (3::int)"
  shows "days_before_year (400 * a + 100 * b + 4 * c + e + 1) =
    146097 * a + 36524 * b + 1461 * c + 365 * e"
proof -
  let ?z = "400 * a + 100 * b + 4 * c + e"
  have "?z div 4 = 100 * a + 25 * b + c"
    by (rule div_shift [of _ _ _ e]) (use assms in simp_all)
  moreover have "?z div 100 = 4 * a + b"
    by (rule div_shift [of _ _ _ "4 * c + e"]) (use assms in simp_all)
  moreover have "?z div 400 = a"
    by (rule div_shift [of _ _ _ "100 * b + 4 * c + e"]) (use assms in simp_all)
  ultimately show ?thesis by (simp add: days_before_year_def)
qed

definition year_length :: "int \<Rightarrow> int" where
  "year_length y = (if leap_year y then 366 else 365)"

lemma year_day_of:
  assumes "0 \<le> r" "r < year_length y"
  shows "year_day (days_before_year y + r) = (y, r)"
proof -
  obtain a b c e where y: "y = 400 * a + 100 * b + 4 * c + e + 1"
    and b: "0 \<le> b" "b \<le> 3" and c: "0 \<le> c" "c \<le> 24" and e: "0 \<le> e" "e \<le> 3"
    by (rule cycle_split)
  have leap: "leap_year y \<longleftrightarrow> e = 3 \<and> (c \<noteq> 24 \<or> b = 3)"
    unfolding y by (rule leap_cycle [OF b c e])
  have r: "0 \<le> r" "r \<le> 364 \<or> r \<le> 365 \<and> e = 3 \<and> (c \<noteq> 24 \<or> b = 3)"
    using assms leap by (auto simp: year_length_def split: if_splits)
  let ?n = "days_before_year y + r"
  have n: "?n = 146097 * a + (36524 * b + (1461 * c + (365 * e + r)))"
    using days_before_cycle [OF b c e, of a] by (simp add: y)
  have s: "0 \<le> 365 * e + r" "365 * e + r < 1461" "c = 24 \<Longrightarrow> b \<noteq> 3 \<Longrightarrow> 365 * e + r < 1460"
    using e r by auto
  then have t: "0 \<le> 1461 * c + (365 * e + r)" "1461 * c + (365 * e + r) < 36525"
    "b \<noteq> 3 \<Longrightarrow> 1461 * c + (365 * e + r) < 36524"
    using c by (simp, simp, cases "c = 24") auto
  then have "0 \<le> 36524 * b + (1461 * c + (365 * e + r))" "36524 * b + (1461 * c + (365 * e + r)) < 146097"
    using b by auto
  then have n1: "?n div 146097 = a" "?n mod 146097 = 36524 * b + (1461 * c + (365 * e + r))"
    unfolding n by simp_all
  have n2: "min 3 ((36524 * b + (1461 * c + (365 * e + r))) div 36524) = b"
    using b t by (cases "b = 3") auto
  have n3: "(1461 * c + (365 * e + r)) div 1461 = c"
    using s by simp
  have n4: "min 3 ((365 * e + r) div 365) = e"
    using e r by (cases "e = 3") auto
  have rest: "36524 * b + x - b * 36524 = x" "1461 * c + x - c * 1461 = x" "365 * e + x - e * 365 = x" for x
    by simp_all
  show ?thesis
    unfolding year_day_def Let_def n1 n2 rest n3 n4 by (simp add: y)
qed

text \<open>The month and day within a year.\<close>

lemma month_lengths_sum: "sum_list (month_lengths leap) = (if leap then 366 else 365)"
  by (simp add: month_lengths_def)

lemma month_day_of:
  assumes "k < length ls" "0 \<le> r" "r < ls ! k" "list_all (\<lambda>l. 0 \<le> l) ls"
  shows "month_day ls m (sum_list (take k ls) + r) = (m + int k, r + 1)"
  using assms
proof (induction ls arbitrary: k m)
  case (Cons l ls)
  show ?case
  proof (cases k)
    case (Suc j)
    then have "0 \<le> sum_list (take j ls)"
      using Cons.prems(4) by (auto simp: list_all_iff intro!: sum_list_nonneg dest: in_set_takeD)
    then show ?thesis
      using Cons.IH [of j "m + 1"] Cons.prems Suc by simp
  qed (use Cons.prems in simp)
qed simp

lemma month_day_back:
  assumes "0 \<le> r" "r < sum_list ls" "month_day ls m r = (m', d)"
  shows "\<exists>k < length ls. m' = m + int k \<and> r = sum_list (take k ls) + d - 1 \<and> 1 \<le> d \<and> d \<le> ls ! k"
  using assms
proof (induction ls arbitrary: m r)
  case (Cons l ls)
  show ?case
  proof (cases "r < l")
    case False
    then obtain k where "k < length ls" "m' = m + 1 + int k" "r - l = sum_list (take k ls) + d - 1" "1 \<le> d" "d \<le> ls ! k"
      using Cons.IH [of "r - l" "m + 1"] Cons.prems by auto
    then show ?thesis by (intro exI [of _ "Suc k"]) auto
  qed (use Cons.prems in auto)
qed simp

lemma year_shape:
  obtains y r where "n = days_before_year y + r" "0 \<le> r" "r < year_length y"
proof -
  define a s where "a = n div 146097" and "s = n mod 146097"
  define b t where "b = min 3 (s div 36524)" and "t = s - b * 36524"
  define c u where "c = t div 1461" and "u = t - c * 1461"
  define e r where "e = min 3 (u div 365)" and "r = u - e * 365"
  have s: "n = 146097 * a + s" "0 \<le> s" "s < 146097" by (simp_all add: a_def s_def)
  have b: "0 \<le> b" "b \<le> 3" "0 \<le> t" "t < 36524 \<or> b = 3 \<and> t < 36525"
  proof -
    show "0 \<le> b" "b \<le> 3" using s by (simp_all add: b_def pos_imp_zdiv_nonneg_iff)
    have m: "s div 36524 * 36524 + s mod 36524 = s" "0 \<le> s mod 36524" "s mod 36524 < 36524"
      by simp_all
    show "0 \<le> t" "t < 36524 \<or> b = 3 \<and> t < 36525"
      using m s by (auto simp: t_def b_def min_def)
  qed
  have c: "0 \<le> c" "c \<le> 24" "0 \<le> u" "u < 1461" "c = 24 \<Longrightarrow> b \<noteq> 3 \<Longrightarrow> u < 1460"
  proof -
    have m: "c * 1461 + t mod 1461 = t" "0 \<le> t mod 1461" "t mod 1461 < 1461"
      by (simp_all add: c_def)
    show "0 \<le> c" using b(3) by (simp add: c_def pos_imp_zdiv_nonneg_iff)
    show "c \<le> 24" using m b(4) by linarith
    show "0 \<le> u" "u < 1461" using m by (simp_all add: u_def)
    show "u < 1460" if "c = 24" "b \<noteq> 3" using b(4) that by (auto simp: u_def)
  qed
  have e: "0 \<le> e" "e \<le> 3" "0 \<le> r" "r < 365 \<or> e = 3 \<and> r < 366" "e = 3 \<Longrightarrow> c = 24 \<Longrightarrow> b \<noteq> 3 \<Longrightarrow> r < 365"
  proof -
    show "0 \<le> e" "e \<le> 3" using c(3) by (simp_all add: e_def pos_imp_zdiv_nonneg_iff)
    have m: "u div 365 * 365 + u mod 365 = u" "0 \<le> u mod 365" "u mod 365 < 365"
      by simp_all
    show "0 \<le> r" "r < 365 \<or> e = 3 \<and> r < 366"
      using m c(4) by (auto simp: r_def e_def min_def)
    show "r < 365" if "e = 3" "c = 24" "b \<noteq> 3" using c(5) that by (auto simp: r_def)
  qed
  let ?y = "400 * a + 100 * b + 4 * c + e + 1"
  have "n = days_before_year ?y + r"
    using days_before_cycle [OF b(1,2) c(1,2) e(1,2), of a] s(1) by (simp add: t_def u_def r_def)
  moreover have "r < year_length ?y"
    using e(4,5) leap_cycle [OF b(1,2) c(1,2) e(1,2), of a] by (auto simp: year_length_def)
  ultimately show thesis using that e(3) by blast
qed

lemma month_lengths_pos: "list_all (\<lambda>l. 0 \<le> l) (month_lengths leap)"
  by (simp add: month_lengths_def)

lemma length_month_lengths [simp]: "length (month_lengths leap) = 12"
  by (simp add: month_lengths_def)

lemma year_fits:
  assumes "valid_date y m d"
  shows "0 \<le> days_before_month (leap_year y) m + (d - 1)"
    "days_before_month (leap_year y) m + (d - 1) < year_length y"
proof -
  let ?ls = "month_lengths (leap_year y)" and ?k = "nat (m - 1)"
  have k: "?k < length ?ls" "1 \<le> d" "d \<le> ?ls ! ?k"
    using assms by (auto simp: valid_date_def days_in_def)
  have pos: "0 \<le> sum_list (take ?k ?ls)" "0 \<le> sum_list (drop (Suc ?k) ?ls)"
    using month_lengths_pos [of "leap_year y"]
    by (auto simp: list_all_iff intro!: sum_list_nonneg dest: in_set_takeD in_set_dropD)
  have "?ls = take ?k ?ls @ ?ls ! ?k # drop (Suc ?k) ?ls"
    by (rule id_take_nth_drop [OF k(1)])
  then have "sum_list ?ls = sum_list (take ?k ?ls) + ?ls ! ?k + sum_list (drop (Suc ?k) ?ls)"
    by (metis add.assoc sum_list.Cons sum_list_append)
  then show "0 \<le> days_before_month (leap_year y) m + (d - 1)"
    "days_before_month (leap_year y) m + (d - 1) < year_length y"
    using pos k(2,3) by (simp_all add: days_before_month_def year_length_def month_lengths_sum)
qed

lemma day_number_valid:
  "valid_date y m d \<Longrightarrow> day_number y m d = days_before_year y + (days_before_month (leap_year y) m + (d - 1))"
  by (simp add: day_number_def Let_def valid_date_def)

text \<open>The calendar is a bijection between day numbers and valid dates.\<close>

lemma civil_date_of:
  assumes "valid_date y m d"
  shows "civil_date (day_number y m d) = (y, m, d)"
proof -
  have k: "nat (m - 1) < 12" "1 \<le> m" "0 \<le> d - 1" "d - 1 < month_lengths (leap_year y) ! nat (m - 1)"
    using assms by (auto simp: valid_date_def days_in_def)
  have "month_day (month_lengths (leap_year y)) 1 (days_before_month (leap_year y) m + (d - 1)) = (m, d)"
    using month_day_of [OF _ k(3,4) month_lengths_pos, of 1] k(1,2)
    by (simp add: days_before_month_def)
  then show ?thesis
    by (simp add: civil_date_def day_number_valid [OF assms] year_day_of [OF year_fits [OF assms]])
qed

lemma day_number_of:
  assumes "civil_date n = (y, m, d)"
  shows "valid_date y m d \<and> day_number y m d = n"
proof -
  obtain y' r where n: "n = days_before_year y' + r" "0 \<le> r" "r < year_length y'"
    by (rule year_shape)
  let ?ls = "month_lengths (leap_year y')"
  have y: "y' = y" "month_day ?ls 1 r = (m, d)"
    using assms unfolding n(1) civil_date_def
    by (auto simp: year_day_of [OF n(2,3)] Let_def split: prod.splits)
  have "r < sum_list ?ls"
    using n(3) by (simp add: year_length_def month_lengths_sum)
  then obtain k where k: "k < length ?ls" "m = 1 + int k" "r = sum_list (take k ?ls) + d - 1" "1 \<le> d" "d \<le> ?ls ! k"
    using month_day_back [OF n(2) _ y(2)] by blast
  then have v: "valid_date y m d"
    by (simp add: valid_date_def days_in_def y(1))
  then show ?thesis
    using k n(1) by (simp add: day_number_valid days_before_month_def y(1))
qed

section \<open>Locations\<close>

text \<open>
  The answer of \<open>Location.lookup\<close>: the offset east of UTC in seconds and the span of instants, in
  seconds, for which it holds.
\<close>

record zone =
  zn_offset :: int
  zn_start :: int
  zn_end :: int

type_synonym location = "int \<Rightarrow> zone"

text \<open>A location with one offset for all time; \<open>UTC\<close> is the offset zero.\<close>

definition fixed_zone :: "int \<Rightarrow> location" where
  "fixed_zone off = (\<lambda>_. \<lparr>zn_offset = off, zn_start = - (2 ^ 63), zn_end = 2 ^ 63 - 1\<rparr>)"

definition LoadLocation :: "(string \<Rightarrow> location option) \<Rightarrow> string \<Rightarrow> location option" where
  "LoadLocation tz name = (if name = [] \<or> name = ''UTC'' then Some (fixed_zone 0) else tz name)"

definition unix_of :: "gotime \<Rightarrow> int" where
  "unix_of t = t div second"

definition local_seconds :: "location \<Rightarrow> gotime \<Rightarrow> int" where
  "local_seconds loc t = unix_of t + zn_offset (loc (unix_of t))"

definition local_date :: "location \<Rightarrow> gotime \<Rightarrow> int \<times> int \<times> int" where
  "local_date loc t = civil_date (local_seconds loc t div 86400)"

definition local_clock :: "location \<Rightarrow> gotime \<Rightarrow> int \<times> int \<times> int" where
  "local_clock loc t =
     (let s = local_seconds loc t mod 86400 in (s div 3600, s mod 3600 div 60, s mod 60))"

text \<open>
  \<open>time.Date\<close>: the wall clock read as UTC, then moved by the offset found there, or by the one at the
  moved instant when that lies outside the span of the first.
\<close>

definition date_seconds :: "location \<Rightarrow> int \<Rightarrow> int \<Rightarrow> int \<Rightarrow> int \<Rightarrow> int \<Rightarrow> int \<Rightarrow> int" where
  "date_seconds loc y m d hh mm ss =
     (let wall = 86400 * day_number y m d + 3600 * hh + 60 * mm + ss;
          z = loc wall; utc = wall - zn_offset z
      in if zn_offset z = 0 then wall
         else if utc < zn_start z \<or> zn_end z \<le> utc then wall - zn_offset (loc utc)
         else utc)"

definition time_Date :: "location \<Rightarrow> int \<Rightarrow> int \<Rightarrow> int \<Rightarrow> int \<Rightarrow> int \<Rightarrow> int \<Rightarrow> int \<Rightarrow> gotime" where
  "time_Date loc y m d hh mm ss ns = date_seconds loc y m d hh mm ss * second + ns"

text \<open>\<open>AddDate(0, 0, n)\<close>.\<close>

definition time_AddDays :: "location \<Rightarrow> int \<Rightarrow> gotime \<Rightarrow> gotime" where
  "time_AddDays loc n t =
     (let (y, m, d) = local_date loc t; (hh, mm, ss) = local_clock loc t
      in time_Date loc y m (d + n) hh mm ss (t mod second))"

lemma fixed_zone_offset [simp]: "zn_offset (fixed_zone off s) = off"
  by (simp add: fixed_zone_def)

lemma local_seconds_fixed [simp]: "local_seconds (fixed_zone off) t = t div second + off"
  by (simp add: local_seconds_def unix_of_def)

lemma date_seconds_fixed:
  "date_seconds (fixed_zone off) y m d hh mm ss = 86400 * day_number y m d + 3600 * hh + 60 * mm + ss - off"
  by (simp add: date_seconds_def Let_def)

lemma day_number_next: "day_number y m (d + k) = day_number y m d + k"
  by (simp add: day_number_def Let_def)

section \<open>Layouts\<close>

text \<open>\<open>getnum\<close>: two digits, or one when \<open>fixed\<close> is not set.\<close>

fun getnum :: "bool \<Rightarrow> string \<Rightarrow> (int \<times> string) option" where
  "getnum fixed [] = None"
| "getnum fixed [a] =
     (case digit_value a of Some x \<Rightarrow> if fixed then None else Some (int x, []) | None \<Rightarrow> None)"
| "getnum fixed (a # b # s) =
     (case digit_value a of
        None \<Rightarrow> None
      | Some x \<Rightarrow>
          (case digit_value b of
             Some y \<Rightarrow> Some (int (10 * x + y), s)
           | None \<Rightarrow> if fixed then None else Some (int x, b # s)))"

fun skip_char :: "char \<Rightarrow> string \<Rightarrow> string option" where
  "skip_char c [] = None"
| "skip_char c (x # s) = (if x = c then Some s else None)"

definition skip_space :: "string \<Rightarrow> string option" where
  "skip_space s =
     (if s \<noteq> [] \<and> hd s \<noteq> CHR '' '' then None else Some (dropWhile (\<lambda>c. c = CHR '' '') s))"

definition within_limit :: "int \<Rightarrow> int \<Rightarrow> int \<Rightarrow> unit option" where
  "within_limit lo hi x = (if lo \<le> x \<and> x \<le> hi then Some () else None)"

definition all_read :: "string \<Rightarrow> unit option" where
  "all_read s = (if s = [] then Some () else None)"

text \<open>The layout pieces \<open>15:04\<close> and \<open>2006-01-02\<close>, with the rest of the input.\<close>

definition read_hm :: "string \<Rightarrow> ((int \<times> int) \<times> string) option" where
  "read_hm s = do {
     (h, s) \<leftarrow> getnum False s;
     within_limit 0 23 h;
     s \<leftarrow> skip_char CHR '':'' s;
     (m, s) \<leftarrow> getnum True s;
     within_limit 0 59 m;
     Some ((h, m), s) }"

definition read_year :: "string \<Rightarrow> (int \<times> string) option" where
  "read_year s =
     (if length s < 4 then None
      else map_option (\<lambda>n. (int n, drop 4 s)) (parse_digits 0 (take 4 s)))"

definition read_ymd :: "string \<Rightarrow> ((int \<times> int \<times> int) \<times> string) option" where
  "read_ymd s = do {
     (y, s) \<leftarrow> read_year s;
     s \<leftarrow> skip_char CHR ''-'' s;
     (m, s) \<leftarrow> getnum True s;
     within_limit 1 12 m;
     s \<leftarrow> skip_char CHR ''-'' s;
     (d, s) \<leftarrow> getnum True s;
     within_limit 1 (days_in m y) d;
     Some ((y, m, d), s) }"

text \<open>A fraction after the seconds is read although the layout has none.\<close>

definition drop_fraction :: "string \<Rightarrow> string" where
  "drop_fraction s =
     (case s of
        p # d # r \<Rightarrow>
          if (p = CHR ''.'' \<or> p = CHR '','') \<and> digit_value d \<noteq> None
          then dropWhile (\<lambda>c. digit_value c \<noteq> None) r else s
      | _ \<Rightarrow> s)"

text \<open>
  \<open>time.Parse\<close> with the layouts \<open>15:04\<close> and \<open>15:04:05\<close> (hour and minute of the result), and
  \<open>2006-01-02\<close> and \<open>2006-01-02 15:04\<close> (its fields).
\<close>

definition Parse_hm :: "string \<Rightarrow> (int \<times> int) option" where
  "Parse_hm s = do { (hm, s) \<leftarrow> read_hm s; all_read s; Some hm }"

definition Parse_hms :: "string \<Rightarrow> (int \<times> int) option" where
  "Parse_hms s = do {
     (hm, s) \<leftarrow> read_hm s;
     s \<leftarrow> skip_char CHR '':'' s;
     (sec, s) \<leftarrow> getnum True s;
     within_limit 0 59 sec;
     all_read (drop_fraction s);
     Some hm }"

definition Parse_date :: "string \<Rightarrow> (int \<times> int \<times> int) option" where
  "Parse_date s = do { (ymd, s) \<leftarrow> read_ymd s; all_read s; Some ymd }"

definition Parse_date_hm :: "string \<Rightarrow> ((int \<times> int \<times> int) \<times> int \<times> int) option" where
  "Parse_date_hm s = do {
     (ymd, s) \<leftarrow> read_ymd s;
     s \<leftarrow> skip_space s;
     (hm, s) \<leftarrow> read_hm s;
     all_read s;
     Some (ymd, hm) }"

definition pad2 :: "int \<Rightarrow> string" where
  "pad2 n = (if n < 10 then ''0'' else []) @ show_int n"

definition Format_hm :: "int \<times> int \<Rightarrow> string" where
  "Format_hm hm = (case hm of (h, m) \<Rightarrow> pad2 h @ '':'' @ pad2 m)"

section \<open>Reading what was printed\<close>

lemma show_digit: "n < 10 \<Longrightarrow> show_nat n = [digit_char n]"
  by (simp add: show_nat.simps)

lemma show_two: "10 \<le> n \<Longrightarrow> n < 100 \<Longrightarrow> show_nat n = [digit_char (n div 10), digit_char (n mod 10)]"
  by (subst show_nat.simps) (simp add: show_digit)

lemma digit_zero: "digit_value CHR ''0'' = Some 0"
  by (simp add: digit_value_def)

lemma getnum_pad2:
  assumes "0 \<le> n" "n < 100"
  shows "getnum fixed (pad2 n @ s) = Some (n, s)"
proof (cases "n < 10")
  case True
  then have "nat n < 10" using assms by simp
  with True show ?thesis
    using assms by (simp add: pad2_def show_int_def show_digit digit_zero)
next
  case False
  then have n: "10 \<le> nat n" "nat n < 100" using assms by simp_all
  then have d: "nat n div 10 < 10" "nat n mod 10 < 10" by simp_all
  have "pad2 n = [digit_char (nat n div 10), digit_char (nat n mod 10)]"
    using n by (simp add: pad2_def show_int_def show_two)
  then have "getnum fixed (pad2 n @ s) = Some (int (10 * (nat n div 10) + nat n mod 10), s)"
    by (simp only: append.simps getnum.simps digit_value_char [OF d(1)] digit_value_char [OF d(2)] option.case)
  then show ?thesis using assms by simp
qed

lemma read_hm_Format:
  assumes "0 \<le> h" "h < 24" "0 \<le> m" "m < 60"
  shows "read_hm (Format_hm (h, m) @ s) = Some ((h, m), s)"
  using assms by (simp add: read_hm_def Format_hm_def getnum_pad2 within_limit_def)

lemma read_hm_range:
  "read_hm s = Some ((h, m), r) \<Longrightarrow> 0 \<le> h \<and> h < 24 \<and> 0 \<le> m \<and> m < 60"
  by (auto simp: read_hm_def within_limit_def split: Option.bind_splits if_splits)

lemma Parse_hm_Format:
  "0 \<le> h \<Longrightarrow> h < 24 \<Longrightarrow> 0 \<le> m \<Longrightarrow> m < 60 \<Longrightarrow> Parse_hm (Format_hm (h, m)) = Some (h, m)"
  using read_hm_Format [of h m "[]"] by (simp add: Parse_hm_def all_read_def)

lemma Parse_hm_range: "Parse_hm s = Some (h, m) \<Longrightarrow> 0 \<le> h \<and> h < 24 \<and> 0 \<le> m \<and> m < 60"
  by (auto simp: Parse_hm_def dest: read_hm_range split: Option.bind_splits)

lemma Parse_hms_range: "Parse_hms s = Some (h, m) \<Longrightarrow> 0 \<le> h \<and> h < 24 \<and> 0 \<le> m \<and> m < 60"
  by (auto simp: Parse_hms_def dest!: read_hm_range split: Option.bind_splits)

lemma getnum_append: "getnum True s = Some (n, r) \<Longrightarrow> getnum True (s @ t) = Some (n, r @ t)"
  by (cases "(True, s)" rule: getnum.cases) (auto split: option.splits)

lemma skip_char_append: "skip_char c s = Some r \<Longrightarrow> skip_char c (s @ t) = Some (r @ t)"
  by (cases s) (auto split: if_splits)

lemma read_year_append: "read_year s = Some (n, r) \<Longrightarrow> read_year (s @ t) = Some (n, r @ t)"
  by (auto simp: read_year_def split: if_splits)

lemma read_ymd_append: "read_ymd s = Some (ymd, r) \<Longrightarrow> read_ymd (s @ t) = Some (ymd, r @ t)"
  unfolding read_ymd_def
  by (auto simp: getnum_append skip_char_append read_year_append within_limit_def
      split: Option.bind_splits if_splits)

lemma read_ymd_valid: "read_ymd s = Some ((y, m, d), r) \<Longrightarrow> valid_date y m d"
  by (auto simp: read_ymd_def within_limit_def valid_date_def split: Option.bind_splits if_splits)

lemma Parse_date_valid: "Parse_date s = Some (y, m, d) \<Longrightarrow> valid_date y m d"
  by (auto simp: Parse_date_def dest: read_ymd_valid split: Option.bind_splits)

lemma Parse_date_hm_parts:
  assumes "Parse_date s = Some ymd" "0 \<le> h" "h < 24" "0 \<le> m" "m < 60"
  shows "Parse_date_hm (s @ '' '' @ Format_hm (h, m)) = Some (ymd, h, m)"
proof -
  have d: "read_ymd (s @ t) = Some (ymd, t)" for t
    using assms(1) read_ymd_append [of s ymd "[]"]
    by (auto simp: Parse_date_def all_read_def split: Option.bind_splits if_splits)
  have "hd (Format_hm (h, m)) \<noteq> CHR '' ''" "Format_hm (h, m) \<noteq> []"
  proof -
    obtain x xs where x: "pad2 h = x # xs" "digit_value x \<noteq> None"
    proof (cases "h < 10")
      case True
      then show thesis using that [of "CHR ''0''" "show_int h"] by (simp add: pad2_def digit_zero)
    next
      case False
      then have n: "10 \<le> nat h" "nat h < 100" "nat h div 10 < 10" using assms(3) by simp_all
      then show thesis
        using that [of "digit_char (nat h div 10)" "[digit_char (nat h mod 10)]"] False
        by (simp add: pad2_def show_int_def show_two)
    qed
    then have "x \<noteq> CHR '' ''" by (auto simp: digit_value_def)
    then show "hd (Format_hm (h, m)) \<noteq> CHR '' ''" "Format_hm (h, m) \<noteq> []"
      using x(1) by (simp_all add: Format_hm_def)
  qed
  then have sp: "skip_space ('' '' @ Format_hm (h, m)) = Some (Format_hm (h, m))"
    by (simp add: skip_space_def dropWhile_eq_self_iff)
  show ?thesis
    using read_hm_Format [OF assms(2-5), of "[]"]
    by (simp add: Parse_date_hm_def d [of "'' '' @ Format_hm (h, m)", simplified] sp [simplified] all_read_def)
qed

end
