(* ===== verification/Schedule_Timing.thy ===== *)
theory Schedule_Timing
  imports Prelude Go_Time
begin

text \<open>
  Schedules (\<open>domain/schedule\<close>): their data, the computation of the next run (\<open>cron.go\<close>), the
  validation of requests (\<open>service.go\<close>), the end of a power-target window (\<open>processor.go\<close>) and the
  expansion of targets (\<open>targets/expand.go\<close>). The zone data base and the cron library are the record
  \<open>clock_env\<close>. Error messages are kept without their arguments.
\<close>

section \<open>Messages\<close>

text \<open>The enumerations of \<open>schedule.proto\<close> are open: a value without a name is an \<open>Other\<close>.\<close>

datatype ScheduleAction = ActionUnspecified | SetPowerTarget | Reboot | Sleep | ActionOther int
datatype PowerTargetMode = PowerUnspecified | PowerDefault | PowerMax | PowerOther int
datatype ScheduleType = TypeUnspecified | OneTime | Recurring | TypeOther int
datatype RecurrenceFrequency = FreqUnspecified | Daily | Weekly | Monthly | FreqOther int
datatype ScheduleStatus = StUnspecified | StActive | StPaused | StRunning | StCompleted
datatype ScheduleTargetType =
  TargetUnspecified | TargetRack | TargetMiner | TargetGroup | TargetSite | TargetBuilding | TargetOther int

text \<open>A day of the week is its number: 1 is Sunday, 7 is Saturday, 0 is unspecified.\<close>

record ScheduleRecurrence =
  rec_Frequency :: RecurrenceFrequency
  rec_Interval :: int
  rec_DaysOfWeek :: "int list"
  rec_DayOfMonth :: "int option"

record ScheduleTarget =
  tg_TargetType :: ScheduleTargetType
  tg_TargetId :: string

record Schedule =
  sd_Id :: int
  sd_Name :: string
  sd_Action :: ScheduleAction
  sd_ActionConfig :: "PowerTargetMode option"
  sd_ScheduleType :: ScheduleType
  sd_Recurrence :: "ScheduleRecurrence option"
  sd_StartDate :: string
  sd_StartTime :: string
  sd_EndTime :: string
  sd_EndDate :: string
  sd_Timezone :: string
  sd_Status :: ScheduleStatus
  sd_Priority :: int
  sd_CreatedBy :: int
  sd_LastRunAt :: "gotime option"
  sd_NextRunAt :: "gotime option"
  sd_Targets :: "ScheduleTarget list"

section \<open>The next run\<close>

record clock_env =
  ce_tz :: "string \<Rightarrow> location option"
  ce_cron :: "string \<Rightarrow> (gotime \<Rightarrow> gotime) option"

datatype timing_error =
    BadStartTime | BadFrequency | NoDays | NoDayOfMonth | NoRecurrence | BadCron | BadTimezone | BadDate

definition parseClockValue :: "string \<Rightarrow> (int \<times> int) option" where
  "parseClockValue v = (case Parse_hm v of Some hm \<Rightarrow> Some hm | None \<Rightarrow> Parse_hms v)"

definition normalizeClockValue :: "string \<Rightarrow> string option" where
  "normalizeClockValue v = map_option Format_hm (parseClockValue v)"

definition protoDayToCron :: "int \<Rightarrow> string option" where
  "protoDayToCron d = (if 1 \<le> d \<and> d \<le> 7 then Some (show_int (d - 1)) else None)"

definition cron_fields :: "int \<times> int \<Rightarrow> string \<Rightarrow> string" where
  "cron_fields hm rest = (case hm of (h, m) \<Rightarrow> show_int m @ '' '' @ show_int h @ '' '' @ rest)"

definition ToCronExpression ::
  "RecurrenceFrequency \<Rightarrow> string \<Rightarrow> string \<Rightarrow> int list \<Rightarrow> int option \<Rightarrow> timing_error + string" where
  "ToCronExpression freq startTime timezone daysOfWeek dayOfMonth =
     (case parseClockValue startTime of
        None \<Rightarrow> Inl BadStartTime
      | Some hm \<Rightarrow>
          (case
             (case freq of
                FreqUnspecified \<Rightarrow> Inl BadFrequency
              | Daily \<Rightarrow> Inr (cron_fields hm ''* * *'')
              | Weekly \<Rightarrow>
                  let days = map the (filter (\<lambda>d. d \<noteq> None) (map protoDayToCron daysOfWeek))
                  in if days = [] then Inl NoDays
                     else Inr (cron_fields hm (''* * '' @ join_byte CHR '','' days))
              | Monthly \<Rightarrow>
                  (case dayOfMonth of
                     None \<Rightarrow> Inl NoDayOfMonth
                   | Some d \<Rightarrow> Inr (cron_fields hm (show_int d @ '' * *'')))
              | FreqOther n \<Rightarrow> Inl BadFrequency) of
             Inl e \<Rightarrow> Inl e
           | Inr fs \<Rightarrow> Inr (''CRON_TZ='' @ timezone @ '' '' @ fs)))"

definition ParseScheduleTime :: "clock_env \<Rightarrow> string \<Rightarrow> string \<Rightarrow> string \<Rightarrow> timing_error + gotime" where
  "ParseScheduleTime e date clock timezone =
     (case LoadLocation (ce_tz e) timezone of
        None \<Rightarrow> Inl BadTimezone
      | Some loc \<Rightarrow>
          (case normalizeClockValue clock of
             None \<Rightarrow> Inl BadDate
           | Some norm \<Rightarrow>
               (case Parse_date_hm (date @ '' '' @ norm) of
                  None \<Rightarrow> Inl BadDate
                | Some ((y, m, d), hh, mm) \<Rightarrow> Inr (time_Date loc y m d hh mm 0 0))))"

definition parseDateInLocation :: "clock_env \<Rightarrow> string \<Rightarrow> string \<Rightarrow> timing_error + location \<times> gotime" where
  "parseDateInLocation e date timezone =
     (case LoadLocation (ce_tz e) timezone of
        None \<Rightarrow> Inl BadTimezone
      | Some loc \<Rightarrow>
          (case Parse_date date of
             None \<Rightarrow> Inl BadDate
           | Some (y, m, d) \<Rightarrow> Inr (loc, time_Date loc y m d 0 0 0 0)))"

definition endOfDay :: "location \<Rightarrow> gotime \<Rightarrow> gotime" where
  "endOfDay loc t =
     (case local_date loc t of (y, m, d) \<Rightarrow> time_add (time_Date loc y m (d + 1) 0 0 0 0) (- second))"

text \<open>The last instant of the day \<open>EndDate\<close>, if the schedule has one; an instant is past it.\<close>

definition past_end :: "clock_env \<Rightarrow> Schedule \<Rightarrow> gotime \<Rightarrow> timing_error + bool" where
  "past_end e s t =
     (if sd_EndDate s = [] then Inr False
      else case parseDateInLocation e (sd_EndDate s) (sd_Timezone s) of
        Inl err \<Rightarrow> Inl err
      | Inr (loc, deadline) \<Rightarrow> Inr (time_after t (endOfDay loc deadline)))"

definition computeNextRunOneTime :: "clock_env \<Rightarrow> Schedule \<Rightarrow> gotime \<Rightarrow> timing_error + gotime option" where
  "computeNextRunOneTime e s after =
     (case ParseScheduleTime e (sd_StartDate s) (sd_StartTime s) (sd_Timezone s) of
        Inl err \<Rightarrow> Inl err
      | Inr t \<Rightarrow>
          (case past_end e s t of
             Inl err \<Rightarrow> Inl err
           | Inr True \<Rightarrow> Inr None
           | Inr False \<Rightarrow> if \<not> time_after t after then Inr None else Inr (Some t)))"

text \<open>The instant after which the first run of a recurring schedule is sought.\<close>

definition earliest :: "gotime \<Rightarrow> gotime \<Rightarrow> gotime" where
  "earliest startDate after =
     (if time_after startDate after then time_add startDate (- second) else after)"

definition computeNextRunRecurring :: "clock_env \<Rightarrow> Schedule \<Rightarrow> gotime \<Rightarrow> timing_error + gotime option" where
  "computeNextRunRecurring e s after =
     (case sd_Recurrence s of
        None \<Rightarrow> Inl NoRecurrence
      | Some r \<Rightarrow>
          (case ToCronExpression (rec_Frequency r) (sd_StartTime s) (sd_Timezone s)
              (rec_DaysOfWeek r) (rec_DayOfMonth r) of
             Inl err \<Rightarrow> Inl err
           | Inr expr \<Rightarrow>
               (case ce_cron e expr of
                  None \<Rightarrow> Inl BadCron
                | Some Next \<Rightarrow>
                    (case parseDateInLocation e (sd_StartDate s) (sd_Timezone s) of
                       Inl err \<Rightarrow> Inl err
                     | Inr (loc, startDate) \<Rightarrow>
                         let next = Next (earliest startDate after)
                         in (case past_end e s next of
                               Inl err \<Rightarrow> Inl err
                             | Inr over \<Rightarrow> if over then Inr None else Inr (Some next))))))"

definition ComputeNextRun :: "clock_env \<Rightarrow> Schedule \<Rightarrow> gotime \<Rightarrow> timing_error + gotime option" where
  "ComputeNextRun e s after =
     (if sd_ScheduleType s = OneTime then computeNextRunOneTime e s after
      else computeNextRunRecurring e s after)"

section \<open>Windows\<close>

text \<open>
  The end of the power-target window of a run at \<open>lastRun\<close> (\<open>checkEndOfWindow\<close>); \<open>None\<close> when a clock time
  does not parse.
\<close>

definition window_end :: "location \<Rightarrow> Schedule \<Rightarrow> gotime \<Rightarrow> gotime option" where
  "window_end loc s lastRun =
     (case Parse_hm (sd_StartTime s) of
        None \<Rightarrow> None
      | Some (sh, sm) \<Rightarrow>
          (case Parse_hm (sd_EndTime s) of
             None \<Rightarrow> None
           | Some (eh, em) \<Rightarrow>
               let (y, m, d) = local_date loc lastRun; b = time_Date loc y m d eh em 0 0
               in Some (if eh * 60 + em \<le> sh * 60 + sm then time_AddDays loc 1 b else b)))"

text \<open>The conditions under which \<open>checkEndOfWindow\<close> acts on a schedule at \<open>now\<close>.\<close>

definition window_expired :: "clock_env \<Rightarrow> gotime \<Rightarrow> Schedule \<Rightarrow> bool" where
  "window_expired e now s \<longleftrightarrow>
     sd_Status s = StRunning \<and> sd_Action s = SetPowerTarget \<and> sd_EndTime s \<noteq> [] \<and>
     (case LoadLocation (ce_tz e) (sd_Timezone s) of
        None \<Rightarrow> False
      | Some loc \<Rightarrow>
          (case sd_LastRunAt s of
             None \<Rightarrow> False
           | Some r \<Rightarrow>
               (case window_end loc s r of None \<Rightarrow> False | Some b \<Rightarrow> time_after now b)))"

section \<open>Validation\<close>

abbreviation "bad_request msg \<equiv> Some (FleetError CodeInvalidArgument msg)"

definition maxScheduleNameLength :: nat where
  "maxScheduleNameLength = 100"

definition validateScheduleName :: "string \<Rightarrow> fleet_error option" where
  "validateScheduleName name =
     (let trimmed = strings_TrimSpace name in
      if trimmed = [] then bad_request ''name is required''
      else if maxScheduleNameLength < length trimmed then bad_request ''name must be at most 100 characters''
      else None)"

definition validateActionConfig :: "ScheduleAction \<Rightarrow> PowerTargetMode option \<Rightarrow> fleet_error option" where
  "validateActionConfig action cfg =
     (case action of
        ActionUnspecified \<Rightarrow> bad_request ''action is required''
      | SetPowerTarget \<Rightarrow>
          (case cfg of
             None \<Rightarrow> bad_request ''action_config is required for set_power_target action''
           | Some mode \<Rightarrow>
               if mode = PowerUnspecified then bad_request ''power target mode is required''
               else if mode \<noteq> PowerDefault \<and> mode \<noteq> PowerMax then bad_request ''invalid power target mode''
               else None)
      | ActionOther n \<Rightarrow> None
      | _ \<Rightarrow>
          if cfg \<noteq> None \<and> cfg \<noteq> Some PowerUnspecified
          then bad_request ''action_config is not allowed for this action'' else None)"

definition validateRecurrence :: "ScheduleRecurrence \<Rightarrow> fleet_error option" where
  "validateRecurrence r =
     (if rec_Interval r \<noteq> 1 then bad_request ''recurrence interval must be 1''
      else case rec_Frequency r of
        FreqUnspecified \<Rightarrow> bad_request ''recurrence frequency is required''
      | Daily \<Rightarrow> None
      | Weekly \<Rightarrow>
          if rec_DaysOfWeek r = []
          then bad_request ''at least one day of week is required for weekly recurrence''
          else if list_ex (\<lambda>d. d = 0 \<or> d < 1 \<or> 7 < d) (rec_DaysOfWeek r)
          then bad_request ''invalid day of week'' else None
      | Monthly \<Rightarrow>
          (case rec_DayOfMonth r of
             None \<Rightarrow> bad_request ''day_of_month is required for monthly recurrence''
           | Some d \<Rightarrow>
               if d < 1 \<or> 31 < d then bad_request ''day_of_month must be between 1 and 31'' else None)
      | FreqOther n \<Rightarrow> bad_request ''unsupported recurrence frequency'')"

definition validateScheduleFields ::
  "string \<Rightarrow> ScheduleAction \<Rightarrow> PowerTargetMode option \<Rightarrow> ScheduleType \<Rightarrow> ScheduleRecurrence option \<Rightarrow>
   fleet_error option" where
  "validateScheduleFields name action cfg stype recurrence =
     (case validateScheduleName name of
        Some err \<Rightarrow> Some err
      | None \<Rightarrow>
          if action = ActionUnspecified then bad_request ''action is required''
          else if stype = TypeUnspecified then bad_request ''schedule_type is required''
          else case validateActionConfig action cfg of
            Some err \<Rightarrow> Some err
          | None \<Rightarrow>
              if stype = Recurring
              then (case recurrence of
                      None \<Rightarrow> bad_request ''recurrence is required for recurring schedules''
                    | Some r \<Rightarrow> validateRecurrence r)
              else None)"

definition isValidScheduleTargetType :: "ScheduleTargetType \<Rightarrow> bool" where
  "isValidScheduleTargetType t =
     (case t of TargetUnspecified \<Rightarrow> False | TargetOther n \<Rightarrow> False | _ \<Rightarrow> True)"

text \<open>The identifier of a target with a row: the canonical decimal form of a positive number.\<close>

definition canonical_id :: "string \<Rightarrow> bool" where
  "canonical_id v \<longleftrightarrow>
     (case ParseInt64 v of None \<Rightarrow> False | Some n \<Rightarrow> 0 < n \<and> show_int n = v)"

fun validate_target_list ::
  "(ScheduleTargetType \<times> string) list \<Rightarrow> ScheduleTarget option list \<Rightarrow> fleet_error option" where
  "validate_target_list seen [] = None"
| "validate_target_list seen (None # ts) = bad_request ''target is required''"
| "validate_target_list seen (Some t # ts) =
     (let tid = strings_TrimSpace (tg_TargetId t); key = (tg_TargetType t, tid) in
      if \<not> isValidScheduleTargetType (tg_TargetType t) then bad_request ''invalid target_type''
      else if tid = [] then bad_request ''target_id is required''
      else if tg_TargetType t \<noteq> TargetMiner \<and> \<not> canonical_id tid
      then bad_request ''invalid target_id: not a valid identifier''
      else if key \<in> set seen then bad_request ''duplicate target''
      else validate_target_list (key # seen) ts)"

definition validateTargets :: "ScheduleTarget option list \<Rightarrow> fleet_error option" where
  "validateTargets ts = validate_target_list [] ts"

section \<open>Targets\<close>

record target_resolver =
  tr_deviceSet :: "int \<Rightarrow> string list option"
  tr_site :: "int \<Rightarrow> string list option"
  tr_building :: "int \<Rightarrow> string list option"

definition addAll :: "string list \<Rightarrow> string list \<Rightarrow> string list" where
  "addAll = foldl (\<lambda>ids d. if d \<in> set ids then ids else ids @ [d])"

text \<open>The devices of one target; \<open>None\<close> is an error.\<close>

definition target_devices :: "target_resolver \<Rightarrow> ScheduleTarget \<Rightarrow> string list option" where
  "target_devices r t =
     (case tg_TargetType t of
        TargetMiner \<Rightarrow> Some [tg_TargetId t]
      | TargetRack \<Rightarrow> (case ParseInt64 (tg_TargetId t) of None \<Rightarrow> None | Some n \<Rightarrow> tr_deviceSet r n)
      | TargetGroup \<Rightarrow> (case ParseInt64 (tg_TargetId t) of None \<Rightarrow> None | Some n \<Rightarrow> tr_deviceSet r n)
      | TargetSite \<Rightarrow> (case ParseInt64 (tg_TargetId t) of None \<Rightarrow> None | Some n \<Rightarrow> tr_site r n)
      | TargetBuilding \<Rightarrow> (case ParseInt64 (tg_TargetId t) of None \<Rightarrow> None | Some n \<Rightarrow> tr_building r n)
      | _ \<Rightarrow> Some [])"

fun expand_loop :: "target_resolver \<Rightarrow> string list \<Rightarrow> ScheduleTarget list \<Rightarrow> string list option" where
  "expand_loop r ids [] = Some ids"
| "expand_loop r ids (t # ts) =
     (case target_devices r t of None \<Rightarrow> None | Some ds \<Rightarrow> expand_loop r (addAll ids ds) ts)"

definition Expand :: "target_resolver \<Rightarrow> ScheduleTarget list \<Rightarrow> string list option" where
  "Expand r ts = expand_loop r [] ts"

section \<open>The next run lies within the schedule's dates\<close>

text \<open>What is documented of the cron library: the next activation is later, at a whole second.\<close>

definition cron_law :: "clock_env \<Rightarrow> bool" where
  "cron_law e \<longleftrightarrow>
     (\<forall>expr Next t. ce_cron e expr = Some Next \<longrightarrow> t < Next t \<and> Next t mod second = 0)"

definition local_day :: "int \<Rightarrow> gotime \<Rightarrow> int" where
  "local_day off t = (unix_of t + off) div 86400"

lemma second_pos [simp]: "0 < second"
  by (simp add: second_def)

lemma unix_of_whole [simp]: "unix_of (s * second) = s"
  using second_pos by (simp add: unix_of_def less_imp_neq [symmetric])

lemma whole_div: "s * second div second = s" and whole_mod: "s * second mod second = 0"
  using second_pos by (simp_all add: less_imp_neq [symmetric])

lemma unix_of_mono: "t \<le> u \<Longrightarrow> unix_of t \<le> unix_of u"
  unfolding unix_of_def by (rule zdiv_mono1) simp_all

lemma whole_seconds: "t mod second = 0 \<Longrightarrow> t = unix_of t * second"
  unfolding unix_of_def by (metis add.right_neutral div_mult_mod_eq)

lemma time_Date_fixed:
  "time_Date (fixed_zone off) y m d hh mm 0 0 = (86400 * day_number y m d + 3600 * hh + 60 * mm - off) * second"
  by (simp add: time_Date_def date_seconds_fixed)

lemma endOfDay_fixed:
  "endOfDay (fixed_zone off) t = (86400 * (local_day off t + 1) - off - 1) * second"
proof -
  obtain y m d where c: "local_date (fixed_zone off) t = (y, m, d)"
    by (cases "local_date (fixed_zone off) t") auto
  then have n: "day_number y m d = local_day off t"
    using day_number_of [of "local_day off t" y m d] by (simp add: local_date_def local_day_def unix_of_def)
  have "day_number y m (d + 1) = local_day off t + 1"
    by (simp only: day_number_next n)
  then show ?thesis
    by (simp add: endOfDay_def c time_Date_fixed time_add_def algebra_simps)
qed

lemma local_day_Date:
  assumes "0 \<le> hh" "hh < 24" "0 \<le> mm" "mm < 60"
  shows "local_day off (time_Date (fixed_zone off) y m d hh mm 0 0) = day_number y m d"
proof -
  have "(86400 * day_number y m d + (3600 * hh + 60 * mm)) div 86400 = day_number y m d"
    by (rule div_shift [OF refl]) (use assms in simp_all)
  then show ?thesis
    by (simp add: local_day_def time_Date_fixed add.assoc)
qed

lemma local_day_bounds:
  "n * 86400 \<le> unix_of t + off \<Longrightarrow> n \<le> local_day off t"
  "unix_of t + off < (n + 1) * 86400 \<Longrightarrow> local_day off t \<le> n"
  unfolding local_day_def by (linarith, simp add: div_less_iff_less_mult flip: zless_add1_eq)

lemma before_endOfDay:
  assumes "t \<le> endOfDay (fixed_zone off) u"
  shows "local_day off t \<le> local_day off u"
proof -
  have "unix_of t \<le> 86400 * (local_day off u + 1) - off - 1"
    using unix_of_mono [OF assms] by (simp only: endOfDay_fixed unix_of_whole)
  then show ?thesis by (intro local_day_bounds(2)) simp
qed

text \<open>The dates of a schedule in a zone with a fixed offset.\<close>

definition within_dates :: "int \<Rightarrow> Schedule \<Rightarrow> gotime \<Rightarrow> bool" where
  "within_dates off s t \<longleftrightarrow>
     (case Parse_date (sd_StartDate s) of
        None \<Rightarrow> False
      | Some (y, m, d) \<Rightarrow> day_number y m d \<le> local_day off t) \<and>
     (sd_EndDate s = [] \<or>
      (case Parse_date (sd_EndDate s) of
         None \<Rightarrow> False
       | Some (y, m, d) \<Rightarrow> local_day off t \<le> day_number y m d))"

lemma not_past_end:
  assumes "past_end e s t = Inr False" "LoadLocation (ce_tz e) (sd_Timezone s) = Some (fixed_zone off)"
  shows "sd_EndDate s = [] \<or>
      (case Parse_date (sd_EndDate s) of
         None \<Rightarrow> False
       | Some (y, m, d) \<Rightarrow> local_day off t \<le> day_number y m d)"
proof (cases "sd_EndDate s = []")
  case False
  then obtain y m d where p: "Parse_date (sd_EndDate s) = Some (y, m, d)"
    and t: "t \<le> endOfDay (fixed_zone off) (time_Date (fixed_zone off) y m d 0 0 0 0)"
    using assms by (auto simp: past_end_def parseDateInLocation_def time_after_def split: if_splits option.splits)
  have "local_day off t \<le> day_number y m d"
    using before_endOfDay [OF t] local_day_Date [of 0 0] by simp
  with p show ?thesis by simp
qed simp

lemma past_end_cases:
  obtains err where "past_end e s t = Inl err" | "past_end e s t = Inr True" | "past_end e s t = Inr False"
  by (cases "past_end e s t") auto

lemma one_time_within:
  assumes "computeNextRunOneTime e s after = Inr (Some n)"
    "LoadLocation (ce_tz e) (sd_Timezone s) = Some (fixed_zone off)"
    "Parse_date (sd_StartDate s) = Some ymd"
  shows "after < n \<and> within_dates off s n"
proof -
  obtain t where t: "ParseScheduleTime e (sd_StartDate s) (sd_StartTime s) (sd_Timezone s) = Inr t"
    using assms(1) by (auto simp: computeNextRunOneTime_def split: sum.splits)
  have n: "past_end e s n = Inr False" "after < n" "n = t"
    using assms(1) t
    by (auto simp: computeNextRunOneTime_def time_after_def split: sum.splits bool.splits if_splits)
  obtain hh mm where hm: "parseClockValue (sd_StartTime s) = Some (hh, mm)"
    using t by (auto simp: ParseScheduleTime_def normalizeClockValue_def split: option.splits)
  then have r: "0 \<le> hh" "hh < 24" "0 \<le> mm" "mm < 60"
    by (auto simp: parseClockValue_def dest!: Parse_hm_range Parse_hms_range split: option.splits)
  obtain y m d where ymd: "ymd = (y, m, d)" by (cases ymd)
  have "n = time_Date (fixed_zone off) y m d hh mm 0 0"
    using t n(3) Parse_date_hm_parts [OF assms(3) r] assms(2) hm
    by (simp add: ParseScheduleTime_def normalizeClockValue_def ymd)
  then have "day_number y m d \<le> local_day off n"
    using local_day_Date [OF r] by simp
  then show ?thesis
    using n(1,2) not_past_end [OF n(1) assms(2)] assms(3) by (simp add: within_dates_def ymd)
qed

lemma recurring_cases:
  assumes "computeNextRunRecurring e s after = Inr (Some n)"
  obtains expr Next loc start where "ce_cron e expr = Some Next"
    "parseDateInLocation e (sd_StartDate s) (sd_Timezone s) = Inr (loc, start)"
    "n = Next (earliest start after)" "past_end e s n = Inr False"
  using assms unfolding computeNextRunRecurring_def Let_def
  by (auto split: option.splits sum.splits if_splits)

lemma recurring_within:
  assumes "computeNextRunRecurring e s after = Inr (Some n)" "cron_law e"
    "LoadLocation (ce_tz e) (sd_Timezone s) = Some (fixed_zone off)"
  shows "after < n \<and> within_dates off s n"
  using assms(1)
proof (cases rule: recurring_cases)
  case (1 expr Next loc start)
  have later: "earliest start after < n" "n mod second = 0"
    using assms(2) 1(1,3) by (auto simp: cron_law_def)
  obtain y m d where p: "Parse_date (sd_StartDate s) = Some (y, m, d)"
    "start = time_Date (fixed_zone off) y m d 0 0 0 0"
    using 1(2) assms(3) by (auto simp: parseDateInLocation_def split: option.splits)
  have w: "start = unix_of start * second"
    by (rule whole_seconds) (simp add: p(2) time_Date_fixed)
  have "start \<le> n"
  proof (rule ccontr)
    assume "\<not> start \<le> n"
    then have "unix_of n * second < unix_of start * second"
      using w whole_seconds [OF later(2)] by simp
    then have "unix_of n + 1 \<le> unix_of start" by simp
    then have "(unix_of n + 1) * second \<le> unix_of start * second" by simp
    then have "n + second \<le> start"
      using w whole_seconds [OF later(2)] by (simp add: algebra_simps)
    then show False
      using later(1) by (auto simp: second_def earliest_def time_after_def time_add_def split: if_splits)
  qed
  then have "local_day off start \<le> local_day off n"
    unfolding local_day_def using unix_of_mono by (intro zdiv_mono1) simp_all
  moreover have "after < n"
    using later(1) \<open>start \<le> n\<close> by (auto simp: earliest_def time_after_def split: if_splits)
  ultimately show ?thesis
    using p local_day_Date [of 0 0 off y m d] not_past_end [OF 1(4) assms(3)]
    by (simp add: within_dates_def)
qed

text \<open>
  A computed run is in the future and, in a zone of fixed offset, on a local day from the start
  date to the end date, both included, for one-time and for recurring schedules.
\<close>

theorem next_runs_stay_within_dates:
  assumes "cron_law e" "LoadLocation (ce_tz e) (sd_Timezone s) = Some (fixed_zone off)"
    "Parse_date (sd_StartDate s) \<noteq> None" "ComputeNextRun e s after = Inr (Some n)"
  shows "after < n \<and> within_dates off s n"
proof (cases "sd_ScheduleType s = OneTime")
  case True
  then show ?thesis
    using assms one_time_within by (auto simp: ComputeNextRun_def)
next
  case False
  then show ?thesis
    using assms recurring_within by (simp add: ComputeNextRun_def)
qed

definition demo_clock :: clock_env where
  "demo_clock =
     \<lparr>ce_tz = (\<lambda>_. Some (fixed_zone 3600)), ce_cron = (\<lambda>_. Some (\<lambda>t. (unix_of t + 1) * second))\<rparr>"

lemma demo_cron_law: "cron_law demo_clock"
proof -
  have "t < (unix_of t + 1) * second" for t
  proof -
    have "t = unix_of t * second + t mod second" by (simp add: unix_of_def)
    also have "\<dots> < unix_of t * second + second" by simp
    finally show ?thesis by (simp add: distrib_right)
  qed
  then show ?thesis by (auto simp: cron_law_def demo_clock_def)
qed

definition demo_schedule :: Schedule where
  "demo_schedule =
     \<lparr>sd_Id = 1, sd_Name = ''night'', sd_Action = SetPowerTarget, sd_ActionConfig = Some PowerMax,
      sd_ScheduleType = Recurring,
      sd_Recurrence = Some \<lparr>rec_Frequency = Weekly, rec_Interval = 1, rec_DaysOfWeek = [2, 7], rec_DayOfMonth = None\<rparr>,
      sd_StartDate = ''2024-02-29'', sd_StartTime = ''22:00'', sd_EndTime = ''06:00'', sd_EndDate = ''2024-03-01'',
      sd_Timezone = ''Europe/Paris'', sd_Status = StActive, sd_Priority = 1, sd_CreatedBy = 1,
      sd_LastRunAt = None, sd_NextRunAt = None, sd_Targets = []\<rparr>"

lemma demo_dates: "Parse_date ''2024-02-29'' = Some (2024, 2, 29)" "Parse_date ''2024-03-01'' = Some (2024, 3, 1)"
  by code_simp+

lemma demo_cron: "ToCronExpression Weekly ''22:00'' ''Europe/Paris'' [2, 7] None = Inr ''CRON_TZ=Europe/Paris 0 22 * * 1,6''"
  by code_simp

theorem next_runs_stay_within_dates_witness:
  "0 < time_Date (fixed_zone 3600) 2024 2 29 0 0 0 0 \<and>
   within_dates 3600 demo_schedule (time_Date (fixed_zone 3600) 2024 2 29 0 0 0 0)"
proof (rule next_runs_stay_within_dates [OF demo_cron_law])
  show "LoadLocation (ce_tz demo_clock) (sd_Timezone demo_schedule) = Some (fixed_zone 3600)"
    by (simp add: LoadLocation_def demo_clock_def demo_schedule_def)
  show "Parse_date (sd_StartDate demo_schedule) \<noteq> None"
    by (simp add: demo_schedule_def demo_dates)
  have d: "day_number 2024 2 29 = 738944" "day_number 2024 3 1 = 738945"
    by code_simp+
  have u: "unix_of (n * second - second) = n - 1" for n
    using unix_of_whole [of "n - 1"] by (simp add: left_diff_distrib)
  show "ComputeNextRun demo_clock demo_schedule 0 = Inr (Some (time_Date (fixed_zone 3600) 2024 2 29 0 0 0 0))"
    by (simp add: ComputeNextRun_def computeNextRunRecurring_def demo_schedule_def demo_cron demo_clock_def
        parseDateInLocation_def LoadLocation_def demo_dates time_Date_fixed d earliest_def time_after_def
        time_add_def past_end_def endOfDay_fixed local_day_def u)
qed

section \<open>Targets and windows\<close>

text \<open>The canonical identifiers are the decimal forms of the positive row numbers.\<close>

lemma canonical_id_iff: "canonical_id v \<longleftrightarrow> (\<exists>n. 0 < n \<and> n < 2 ^ 63 \<and> v = show_int n)"
proof
  assume "canonical_id v"
  then obtain n where n: "ParseInt64 v = Some n" "0 < n" "show_int n = v"
    by (auto simp: canonical_id_def split: option.splits)
  then have "n < 2 ^ 63"
    by (auto simp: ParseInt64_def Let_def split: if_splits option.splits)
  with n show "\<exists>n. 0 < n \<and> n < 2 ^ 63 \<and> v = show_int n" by blast
next
  assume "\<exists>n. 0 < n \<and> n < 2 ^ 63 \<and> v = show_int n"
  then show "canonical_id v"
    using ParseInt_show by (auto simp: canonical_id_def)
qed

definition target_key :: "ScheduleTarget \<Rightarrow> ScheduleTargetType \<times> string" where
  "target_key t = (tg_TargetType t, strings_TrimSpace (tg_TargetId t))"

definition target_ok :: "ScheduleTarget \<Rightarrow> bool" where
  "target_ok t \<longleftrightarrow>
     (tg_TargetType t \<in> {TargetRack, TargetGroup, TargetSite, TargetBuilding} \<and>
        canonical_id (strings_TrimSpace (tg_TargetId t)) \<or>
      tg_TargetType t = TargetMiner \<and> strings_TrimSpace (tg_TargetId t) \<noteq> [])"

lemma show_int_not_empty [simp]: "show_int n \<noteq> []"
  by (simp add: show_int_def)

lemma canonical_nonempty: "canonical_id v \<Longrightarrow> v \<noteq> []"
  by (auto simp: canonical_id_iff)

lemma valid_target_iff:
  "target_ok t \<longleftrightarrow>
     isValidScheduleTargetType (tg_TargetType t) \<and> strings_TrimSpace (tg_TargetId t) \<noteq> [] \<and>
     (tg_TargetType t = TargetMiner \<or> canonical_id (strings_TrimSpace (tg_TargetId t)))"
  using canonical_nonempty
  by (cases "tg_TargetType t") (auto simp: target_ok_def isValidScheduleTargetType_def)

lemma validate_target_step:
  "validate_target_list seen (Some t # ts) = None \<longleftrightarrow>
     target_ok t \<and> target_key t \<notin> set seen \<and> validate_target_list (target_key t # seen) ts = None"
  unfolding valid_target_iff target_key_def validate_target_list.simps Let_def
  by (simp split: if_split)

lemma validate_target_list_iff:
  "validate_target_list seen ts = None \<longleftrightarrow>
     (\<exists>us. ts = map Some us \<and> list_all target_ok us \<and> distinct (map target_key us) \<and>
        set (map target_key us) \<inter> set seen = {})"
proof (induction ts arbitrary: seen)
  case (Cons a ts)
  show ?case
  proof (cases a)
    case (Some t)
    show ?thesis
      unfolding Some validate_target_step Cons.IH by (auto simp: Cons_eq_map_conv)
  qed (auto simp: Cons_eq_map_conv)
qed simp

lemma validateTargets_iff:
  "validateTargets ts = None \<longleftrightarrow>
     (\<exists>us. ts = map Some us \<and> list_all target_ok us \<and> distinct (map target_key us))"
  by (simp add: validateTargets_def validate_target_list_iff)

lemma addAll_props:
  "distinct ids \<Longrightarrow> distinct (addAll ids ds)" "set (addAll ids ds) = set ids \<union> set ds"
  "\<exists>r. addAll ids ds = ids @ r"
proof -
  show "distinct ids \<Longrightarrow> distinct (addAll ids ds)" "set (addAll ids ds) = set ids \<union> set ds"
    by (induction ds arbitrary: ids) (auto simp: addAll_def)
  show "\<exists>r. addAll ids ds = ids @ r"
  proof (induction ds arbitrary: ids)
    case (Cons d ds)
    show ?case
      using Cons.IH [of ids] Cons.IH [of "ids @ [d]"] by (auto simp: addAll_def)
  qed (simp add: addAll_def)
qed

lemma expand_loop_spec:
  "expand_loop r ids ts =
     (if list_ex (\<lambda>t. target_devices r t = None) ts then None
      else Some (addAll ids (concat (map (\<lambda>t. the (target_devices r t)) ts))))"
  by (induction r ids ts rule: expand_loop.induct) (auto simp: addAll_def split: option.splits)

text \<open>
  The targets that \<open>CreateSchedule\<close> stores, with trimmed identifiers, always have a row number where one is
  needed, so their expansion fails only when the store does.
\<close>

lemma stored_target_devices:
  assumes "target_ok t" "strings_TrimSpace (tg_TargetId t) = tg_TargetId t"
  shows "\<exists>n. 0 < n \<and> target_devices r t =
    (case tg_TargetType t of
       TargetMiner \<Rightarrow> Some [tg_TargetId t]
     | TargetSite \<Rightarrow> tr_site r n
     | TargetBuilding \<Rightarrow> tr_building r n
     | _ \<Rightarrow> tr_deviceSet r n)"
proof (cases "tg_TargetType t = TargetMiner")
  case True
  then show ?thesis by (intro exI [of _ 1]) (simp add: target_devices_def)
next
  case False
  then have "canonical_id (tg_TargetId t)" using assms by (auto simp: target_ok_def)
  then obtain n where "ParseInt64 (tg_TargetId t) = Some n" "0 < n"
    by (auto simp: canonical_id_def split: option.splits)
  then show ?thesis
    using False assms(1) by (intro exI [of _ n]) (auto simp: target_devices_def target_ok_def)
qed

text \<open>The windows of power-target schedules, in a zone of fixed offset.\<close>

lemma clock_recomposed: "3600 * (a div 3600) + 60 * (a mod 3600 div 60) + a mod 60 = (a::int)"
proof -
  have "60 * (a mod 3600 div 60) + a mod 3600 mod 60 = a mod 3600" by simp
  moreover have "a mod 3600 mod 60 = a mod 60" by (simp add: mod_mod_cancel)
  moreover have "3600 * (a div 3600) + a mod 3600 = a" by simp
  ultimately show ?thesis by linarith
qed

lemma time_AddDays_fixed: "time_AddDays (fixed_zone off) n (s * second) = (s + 86400 * n) * second"
proof -
  let ?l = "s + off"
  obtain y m d where c: "civil_date (?l div 86400) = (y, m, d)"
    by (cases "civil_date (?l div 86400)") auto
  have "day_number y m (d + n) = ?l div 86400 + n"
    using day_number_of [OF c] by (simp only: day_number_next)
  moreover have "86400 * (?l div 86400) + ?l mod 86400 = ?l" by simp
  ultimately have "date_seconds (fixed_zone off) y m (d + n) (?l mod 86400 div 3600)
      (?l mod 86400 mod 3600 div 60) (?l mod 86400 mod 60) = s + 86400 * n"
    using clock_recomposed [of "?l mod 86400"] by (simp only: date_seconds_fixed distrib_left)
  moreover have "local_date (fixed_zone off) (s * second) = (y, m, d)"
    by (simp only: local_date_def local_seconds_fixed whole_div c)
  moreover have "local_clock (fixed_zone off) (s * second) =
      (?l mod 86400 div 3600, ?l mod 86400 mod 3600 div 60, ?l mod 86400 mod 60)"
    by (simp only: local_clock_def local_seconds_fixed whole_div Let_def)
  ultimately show ?thesis
    unfolding time_AddDays_def time_Date_def by (simp only: prod.case whole_mod add_0_right Let_def)
qed

lemma window_end_fixed:
  assumes "Parse_hm (sd_StartTime s) = Some (sh, sm)" "Parse_hm (sd_EndTime s) = Some (eh, em)"
  shows "window_end (fixed_zone off) s r =
    Some ((86400 * (local_day off r + (if eh * 60 + em \<le> sh * 60 + sm then 1 else 0)) +
      3600 * eh + 60 * em - off) * second)"
proof -
  obtain y m d where c: "local_date (fixed_zone off) r = (y, m, d)"
    by (cases "local_date (fixed_zone off) r") auto
  then have n: "day_number y m d = local_day off r"
    using day_number_of [of "local_day off r" y m d] by (simp add: local_date_def local_day_def unix_of_def)
  show ?thesis
    using assms by (simp add: window_end_def c time_Date_fixed n time_AddDays_fixed Let_def distrib_left)
qed

text \<open>
  The window of a power-target run that started at its scheduled minute ends after the run and
  at most a day after it: a window whose end is not later than its start reaches into the next day,
  one with equal times lasts the whole day.
\<close>

theorem windows_end_within_a_day:
  assumes "Parse_hm (sd_StartTime s) = Some (sh, sm)" "Parse_hm (sd_EndTime s) = Some (eh, em)"
    "local_clock (fixed_zone off) run = (sh, sm, x)"
  shows "case window_end (fixed_zone off) s run of
      None \<Rightarrow> False
    | Some w \<Rightarrow> run < w \<and> w \<le> run + 86400 * second"
proof -
  have r: "0 \<le> sh" "sh < 24" "0 \<le> sm" "sm < 60" "0 \<le> eh" "eh < 24" "0 \<le> em" "em < 60"
    using Parse_hm_range assms(1,2) by auto
  let ?l = "unix_of run + off"
  have a: "?l mod 86400 = 3600 * sh + 60 * sm + x" "0 \<le> x" "x < 60"
  proof -
    have c: "sh = ?l mod 86400 div 3600" "sm = ?l mod 86400 mod 3600 div 60" "x = ?l mod 86400 mod 60"
      using assms(3) by (simp_all add: local_clock_def Let_def unix_of_def)
    show "?l mod 86400 = 3600 * sh + 60 * sm + x"
      unfolding c by (rule clock_recomposed [symmetric])
    show "0 \<le> x" "x < 60" unfolding c(3) by simp_all
  qed
  have l: "?l = 86400 * local_day off run + (3600 * sh + 60 * sm + x)"
    using a(1) div_mult_mod_eq [of ?l 86400] by (simp add: local_day_def)
  define w where "w = 86400 * (local_day off run + (if eh * 60 + em \<le> sh * 60 + sm then 1 else 0)) +
      3600 * eh + 60 * em - off"
  have b: "unix_of run < w" "w \<le> unix_of run + 86400"
    using l a r by (auto simp: w_def split: if_splits)
  have t: "unix_of run * second \<le> run" "run < (unix_of run + 1) * second"
  proof -
    have "run = unix_of run * second + run mod second" "0 \<le> run mod second" "run mod second < second"
      by (simp_all add: unix_of_def)
    then show "unix_of run * second \<le> run" "run < (unix_of run + 1) * second"
      by (linarith, simp only: distrib_right)
  qed
  have "(unix_of run + 1) * second \<le> w * second"
    by (rule mult_right_mono) (use b in \<open>simp_all add: second_def\<close>)
  moreover have "w * second \<le> (unix_of run + 86400) * second"
    by (rule mult_right_mono) (use b in \<open>simp_all add: second_def\<close>)
  ultimately have "run < w * second" "w * second \<le> run + 86400 * second"
    using t by (simp_all only: distrib_right)
  then show ?thesis
    by (simp add: window_end_fixed [OF assms(1,2)] w_def)
qed

lemma demo_clocks: "Parse_hm ''22:00'' = Some (22, 0)" "Parse_hm ''06:00'' = Some (6, 0)"
  by code_simp+

theorem windows_end_within_a_day_witness:
  "case window_end (fixed_zone 0) demo_schedule (79205 * second) of
     None \<Rightarrow> False
   | Some w \<Rightarrow> 79205 * second < w \<and> w \<le> 79205 * second + 86400 * second"
  by (rule windows_end_within_a_day [of _ 22 0 6 0 _ _ 5])
    (use second_pos in \<open>simp_all add: demo_schedule_def demo_clocks local_clock_def Let_def less_imp_neq [symmetric]\<close>)

end
