(* ===== verification/Schedule_Store.thy ===== *)
theory Schedule_Store
  imports Schedule_Timing Go_Sort
begin

text \<open>
  The tables of schedules: rows, the conversions between rows and messages and the statements of
  \<open>stores/sqlstores/schedule.go\<close> and \<open>generated/sqlc/schedule.sql.go\<close>. A column that holds JSON is its value;
  an empty object is \<open>None\<close>. A statement that may violate the unique index on the priorities of an
  organization fails; the model lets it fail whenever a new priority equals an old or a new one of another
  row, whichever order the rows are visited in.
\<close>

section \<open>Rows\<close>

record schedule_row =
  sr_ID :: int
  sr_OrgID :: int
  sr_Name :: string
  sr_Action :: string
  sr_ActionConfig :: "PowerTargetMode option"
  sr_ScheduleType :: string
  sr_Recurrence :: "ScheduleRecurrence option"
  sr_StartDate :: "int \<times> int \<times> int"
  sr_StartTime :: string
  sr_EndTime :: "string option"
  sr_EndDate :: "(int \<times> int \<times> int) option"
  sr_Timezone :: string
  sr_Status :: string
  sr_Priority :: int
  sr_CreatedBy :: int
  sr_Deleted :: bool
  sr_LastRunAt :: "gotime option"
  sr_NextRunAt :: "gotime option"

record schedule_target_row =
  sx_ScheduleID :: int
  sx_TargetType :: string
  sx_TargetID :: string

record schedule_db =
  db_schedules :: "schedule_row list"
  db_targets :: "schedule_target_row list"
  db_nextID :: int

abbreviation "statusActive \<equiv> ''active''"
abbreviation "statusRunning \<equiv> ''running''"
abbreviation "statusCompleted \<equiv> ''completed''"
abbreviation "statusPaused \<equiv> ''paused''"

section \<open>Conversions\<close>

definition scheduleActionToString :: "ScheduleAction \<Rightarrow> string" where
  "scheduleActionToString a =
     (case a of SetPowerTarget \<Rightarrow> ''set_power_target'' | Reboot \<Rightarrow> ''reboot'' | Sleep \<Rightarrow> ''sleep''
      | _ \<Rightarrow> ''unknown'')"

definition stringToScheduleAction :: "string \<Rightarrow> ScheduleAction" where
  "stringToScheduleAction s =
     (if s = ''set_power_target'' then SetPowerTarget else if s = ''reboot'' then Reboot
      else if s = ''sleep'' then Sleep else ActionUnspecified)"

definition scheduleTypeToString :: "ScheduleType \<Rightarrow> string" where
  "scheduleTypeToString t =
     (case t of OneTime \<Rightarrow> ''one_time'' | Recurring \<Rightarrow> ''recurring'' | _ \<Rightarrow> ''unknown'')"

definition stringToScheduleType :: "string \<Rightarrow> ScheduleType" where
  "stringToScheduleType s =
     (if s = ''one_time'' then OneTime else if s = ''recurring'' then Recurring else TypeUnspecified)"

definition scheduleStatusToString :: "ScheduleStatus \<Rightarrow> string" where
  "scheduleStatusToString st =
     (case st of
        StUnspecified \<Rightarrow> statusActive | StActive \<Rightarrow> statusActive | StPaused \<Rightarrow> statusPaused
      | StRunning \<Rightarrow> statusRunning | StCompleted \<Rightarrow> statusCompleted)"

definition stringToScheduleStatus :: "string \<Rightarrow> ScheduleStatus" where
  "stringToScheduleStatus s =
     (if s = statusActive then StActive else if s = statusPaused then StPaused
      else if s = statusRunning then StRunning else if s = statusCompleted then StCompleted
      else StUnspecified)"

definition scheduleTargetTypeToString :: "ScheduleTargetType \<Rightarrow> string" where
  "scheduleTargetTypeToString t =
     (case t of
        TargetRack \<Rightarrow> ''rack'' | TargetGroup \<Rightarrow> ''group'' | TargetMiner \<Rightarrow> ''miner'' | TargetSite \<Rightarrow> ''site''
      | TargetBuilding \<Rightarrow> ''building'' | _ \<Rightarrow> ''unknown'')"

definition stringToScheduleTargetType :: "string \<Rightarrow> ScheduleTargetType" where
  "stringToScheduleTargetType s =
     (if s = ''rack'' then TargetRack else if s = ''group'' then TargetGroup
      else if s = ''miner'' then TargetMiner else if s = ''site'' then TargetSite
      else if s = ''building'' then TargetBuilding else TargetUnspecified)"

text \<open>A configuration with the unspecified mode is the empty object, which is read as none.\<close>

definition marshalActionConfig :: "PowerTargetMode option \<Rightarrow> PowerTargetMode option" where
  "marshalActionConfig cfg = (if cfg = Some PowerUnspecified then None else cfg)"

definition pad4 :: "int \<Rightarrow> string" where
  "pad4 n = replicate (4 - length (show_int n)) CHR ''0'' @ show_int n"

definition Format_date :: "int \<times> int \<times> int \<Rightarrow> string" where
  "Format_date ymd = (case ymd of (y, m, d) \<Rightarrow> pad4 y @ ''-'' @ pad2 m @ ''-'' @ pad2 d)"

definition parseScheduleTime :: "string \<Rightarrow> string option" where
  "parseScheduleTime s =
     (case Parse_hm s of
        Some hm \<Rightarrow> Some (Format_hm hm)
      | None \<Rightarrow> (case Parse_hms s of Some hm \<Rightarrow> Some (Format_hm hm) | None \<Rightarrow> None))"

definition parseNullTime :: "string \<Rightarrow> string option option" where
  "parseNullTime s = (if s = [] then Some None else map_option Some (parseScheduleTime s))"

definition parseNullDate :: "string \<Rightarrow> (int \<times> int \<times> int) option option" where
  "parseNullDate s = (if s = [] then Some None else map_option Some (Parse_date s))"

definition normalizeScheduleTimeString :: "string \<Rightarrow> string" where
  "normalizeScheduleTimeString v = (case parseScheduleTime v of None \<Rightarrow> v | Some p \<Rightarrow> p)"

definition convertToProtoSchedule :: "schedule_row \<Rightarrow> Schedule" where
  "convertToProtoSchedule r =
     \<lparr>sd_Id = sr_ID r, sd_Name = sr_Name r, sd_Action = stringToScheduleAction (sr_Action r),
      sd_ActionConfig = sr_ActionConfig r, sd_ScheduleType = stringToScheduleType (sr_ScheduleType r),
      sd_Recurrence = sr_Recurrence r, sd_StartDate = Format_date (sr_StartDate r),
      sd_StartTime = normalizeScheduleTimeString (sr_StartTime r),
      sd_EndTime = (case sr_EndTime r of None \<Rightarrow> [] | Some v \<Rightarrow> normalizeScheduleTimeString v),
      sd_EndDate = (case sr_EndDate r of None \<Rightarrow> [] | Some d \<Rightarrow> Format_date d),
      sd_Timezone = sr_Timezone r, sd_Status = stringToScheduleStatus (sr_Status r),
      sd_Priority = sr_Priority r, sd_CreatedBy = sr_CreatedBy r, sd_LastRunAt = sr_LastRunAt r,
      sd_NextRunAt = sr_NextRunAt r, sd_Targets = []\<rparr>"

definition convertScheduleTargets :: "schedule_target_row list \<Rightarrow> ScheduleTarget list" where
  "convertScheduleTargets rows =
     map (\<lambda>x. \<lparr>tg_TargetType = stringToScheduleTargetType (sx_TargetType x), tg_TargetId = sx_TargetID x\<rparr>) rows"

section \<open>Statements\<close>

abbreviation live_in :: "int \<Rightarrow> schedule_row \<Rightarrow> bool" where
  "live_in org r \<equiv> sr_OrgID r = org \<and> \<not> sr_Deleted r"

text \<open>An \<open>UPDATE\<close>: the number of rows it touched and the table after it.\<close>

definition update_schedules ::
  "(schedule_row \<Rightarrow> bool) \<Rightarrow> (schedule_row \<Rightarrow> schedule_row) \<Rightarrow> schedule_db \<Rightarrow> nat \<times> schedule_db" where
  "update_schedules P f db =
     (length (filter P (db_schedules db)),
      db\<lparr>db_schedules := map (\<lambda>r. if P r then f r else r) (db_schedules db)\<rparr>)"

definition find_schedule :: "int \<Rightarrow> int \<Rightarrow> schedule_db \<Rightarrow> schedule_row option" where
  "find_schedule org i db = List.find (\<lambda>r. live_in org r \<and> sr_ID r = i) (db_schedules db)"

definition GetSchedule :: "int \<Rightarrow> int \<Rightarrow> schedule_db \<Rightarrow> fleet_error + Schedule" where
  "GetSchedule org i db =
     (case find_schedule org i db of
        None \<Rightarrow> Inl (FleetError CodeNotFound ''schedule not found'')
      | Some r \<Rightarrow> Inr (convertToProtoSchedule r))"

text \<open>\<open>ORDER BY priority, id\<close>.\<close>

definition row_before :: "schedule_row \<Rightarrow> schedule_row \<Rightarrow> bool" where
  "row_before r q \<longleftrightarrow>
     sr_Priority r < sr_Priority q \<or> (sr_Priority r = sr_Priority q \<and> sr_ID r < sr_ID q)"

interpretation row_order: strict_weak UNIV row_before
  by unfold_locales (auto simp: row_before_def)

definition ordered_rows :: "(schedule_row \<Rightarrow> bool) \<Rightarrow> schedule_db \<Rightarrow> schedule_row list" where
  "ordered_rows P db = stable_sort row_before (filter P (db_schedules db))"

definition ListSchedules :: "int \<Rightarrow> string \<Rightarrow> string \<Rightarrow> schedule_db \<Rightarrow> Schedule list" where
  "ListSchedules org status action db =
     map convertToProtoSchedule
       (ordered_rows (\<lambda>r. live_in org r \<and> (status = [] \<or> sr_Status r = status) \<and>
          (action = [] \<or> sr_Action r = action)) db)"

definition GetActiveSchedules :: "schedule_db \<Rightarrow> (int \<times> Schedule) list" where
  "GetActiveSchedules db =
     map (\<lambda>r. (sr_OrgID r, convertToProtoSchedule r))
       (ordered_rows (\<lambda>r. sr_Status r \<in> {statusActive, statusRunning} \<and> \<not> sr_Deleted r) db)"

definition GetScheduleByID :: "int \<Rightarrow> schedule_db \<Rightarrow> (int \<times> Schedule) option" where
  "GetScheduleByID i db =
     map_option (\<lambda>r. (sr_OrgID r, convertToProtoSchedule r))
       (List.find (\<lambda>r. sr_ID r = i \<and> \<not> sr_Deleted r) (db_schedules db))"

definition GetMaxPriority :: "int \<Rightarrow> schedule_db \<Rightarrow> int" where
  "GetMaxPriority org db =
     (case map sr_Priority (filter (live_in org) (db_schedules db)) of
        [] \<Rightarrow> 0 | p # ps \<Rightarrow> foldl max p ps)"

definition ListScheduleIDStatuses :: "int \<Rightarrow> schedule_db \<Rightarrow> (int \<times> string) list" where
  "ListScheduleIDStatuses org db = map (\<lambda>r. (sr_ID r, sr_Status r)) (ordered_rows (live_in org) db)"

text \<open>The columns a request determines; \<open>None\<close> when a date or a time does not parse.\<close>

definition schedule_columns :: "Schedule \<Rightarrow> schedule_row \<Rightarrow> fleet_error + schedule_row" where
  "schedule_columns s r =
     (case Parse_date (sd_StartDate s) of
        None \<Rightarrow> Inl (FleetError CodeInvalidArgument ''invalid start_date'')
      | Some startDate \<Rightarrow>
      (case parseScheduleTime (sd_StartTime s) of
        None \<Rightarrow> Inl (FleetError CodeInvalidArgument ''invalid start_time'')
      | Some startTime \<Rightarrow>
      (case parseNullTime (sd_EndTime s) of
        None \<Rightarrow> Inl (FleetError CodeInvalidArgument ''invalid end_time'')
      | Some endTime \<Rightarrow>
      (case parseNullDate (sd_EndDate s) of
        None \<Rightarrow> Inl (FleetError CodeInvalidArgument ''invalid end_date'')
      | Some endDate \<Rightarrow>
          Inr (r\<lparr>sr_Name := sd_Name s, sr_Action := scheduleActionToString (sd_Action s),
                 sr_ActionConfig := marshalActionConfig (sd_ActionConfig s),
                 sr_ScheduleType := scheduleTypeToString (sd_ScheduleType s),
                 sr_Recurrence := sd_Recurrence s, sr_StartDate := startDate, sr_StartTime := startTime,
                 sr_EndTime := endTime, sr_EndDate := endDate, sr_Timezone := sd_Timezone s,
                 sr_NextRunAt := sd_NextRunAt s\<rparr>)))))"

definition blank_row :: "int \<Rightarrow> int \<Rightarrow> schedule_row" where
  "blank_row org i =
     \<lparr>sr_ID = i, sr_OrgID = org, sr_Name = [], sr_Action = [], sr_ActionConfig = None, sr_ScheduleType = [],
      sr_Recurrence = None, sr_StartDate = (1, 1, 1), sr_StartTime = [], sr_EndTime = None, sr_EndDate = None,
      sr_Timezone = [], sr_Status = statusActive, sr_Priority = 0, sr_CreatedBy = 0, sr_Deleted = False,
      sr_LastRunAt = None, sr_NextRunAt = None\<rparr>"

abbreviation "internal \<equiv> FleetError CodeInternal"

definition store_CreateSchedule :: "int \<Rightarrow> Schedule \<Rightarrow> schedule_db \<Rightarrow> fleet_error + int \<times> schedule_db" where
  "store_CreateSchedule org s db =
     (case schedule_columns s (blank_row org (db_nextID db)) of
        Inl err \<Rightarrow> Inl err
      | Inr r \<Rightarrow>
          if list_ex (\<lambda>q. live_in org q \<and> sr_Priority q = sd_Priority s) (db_schedules db)
          then Inl (internal ''failed to create schedule'')
          else Inr (db_nextID db,
            db\<lparr>db_schedules := db_schedules db @ [r\<lparr>sr_Priority := sd_Priority s, sr_CreatedBy := sd_CreatedBy s\<rparr>],
               db_nextID := db_nextID db + 1\<rparr>))"

definition store_UpdateSchedule :: "int \<Rightarrow> Schedule \<Rightarrow> schedule_db \<Rightarrow> fleet_error + nat \<times> schedule_db" where
  "store_UpdateSchedule org s db =
     (case schedule_columns s (blank_row org (sd_Id s)) of
        Inl err \<Rightarrow> Inl err
      | Inr c \<Rightarrow>
          Inr (update_schedules
            (\<lambda>r. live_in org r \<and> sr_ID r = sd_Id s \<and> sr_Status r \<noteq> statusRunning)
            (\<lambda>r. c\<lparr>sr_Status := scheduleStatusToString (sd_Status s), sr_Priority := sr_Priority r,
                   sr_CreatedBy := sr_CreatedBy r, sr_Deleted := sr_Deleted r, sr_LastRunAt := sr_LastRunAt r\<rparr>) db))"

definition SoftDeleteSchedule :: "int \<Rightarrow> int \<Rightarrow> schedule_db \<Rightarrow> nat \<times> schedule_db" where
  "SoftDeleteSchedule org i =
     update_schedules (\<lambda>r. live_in org r \<and> sr_ID r = i) (\<lambda>r. r\<lparr>sr_Deleted := True\<rparr>)"

definition PauseActiveSchedule :: "int \<Rightarrow> int \<Rightarrow> schedule_db \<Rightarrow> nat \<times> schedule_db" where
  "PauseActiveSchedule org i =
     update_schedules (\<lambda>r. live_in org r \<and> sr_ID r = i \<and> sr_Status r \<in> {statusActive, statusRunning})
       (\<lambda>r. r\<lparr>sr_Status := statusPaused\<rparr>)"

definition ResumePausedSchedule :: "int \<Rightarrow> int \<Rightarrow> string \<Rightarrow> gotime option \<Rightarrow> schedule_db \<Rightarrow> nat \<times> schedule_db" where
  "ResumePausedSchedule org i status next =
     update_schedules (\<lambda>r. live_in org r \<and> sr_ID r = i \<and> sr_Status r = statusPaused)
       (\<lambda>r. r\<lparr>sr_Status := status, sr_NextRunAt := next\<rparr>)"

definition UpdateScheduleAfterRun ::
  "int \<Rightarrow> gotime option \<Rightarrow> gotime option \<Rightarrow> string \<Rightarrow> schedule_db \<Rightarrow> schedule_db" where
  "UpdateScheduleAfterRun i lastRun next status db =
     snd (update_schedules
       (\<lambda>r. sr_ID r = i \<and> \<not> sr_Deleted r \<and> sr_Status r \<in> {statusActive, statusRunning})
       (\<lambda>r. r\<lparr>sr_LastRunAt := lastRun, sr_NextRunAt := next, sr_Status := status\<rparr>) db)"

definition SetScheduleRunning :: "int \<Rightarrow> schedule_db \<Rightarrow> nat \<times> schedule_db" where
  "SetScheduleRunning i =
     update_schedules (\<lambda>r. sr_ID r = i \<and> \<not> sr_Deleted r \<and> sr_Status r = statusActive)
       (\<lambda>r. r\<lparr>sr_Status := statusRunning\<rparr>)"

definition RevertScheduleToActive :: "int \<Rightarrow> schedule_db \<Rightarrow> schedule_db" where
  "RevertScheduleToActive i db =
     snd (update_schedules (\<lambda>r. sr_ID r = i \<and> \<not> sr_Deleted r \<and> sr_Status r = statusRunning)
       (\<lambda>r. r\<lparr>sr_Status := statusActive\<rparr>) db)"

section \<open>Priorities\<close>

text \<open>The position of an identifier in a list, counted from one.\<close>

definition ordinality :: "int list \<Rightarrow> int \<Rightarrow> int option" where
  "ordinality ids i = map_option (\<lambda>n. int n + 1) (index_of i ids)"

text \<open>An update of priorities by \<open>g\<close> fails when a new one meets an old or a new one of another row.\<close>

definition priority_clash :: "int \<Rightarrow> (int \<Rightarrow> int option) \<Rightarrow> schedule_row list \<Rightarrow> bool" where
  "priority_clash org g rows \<longleftrightarrow>
     list_ex (\<lambda>r. live_in org r \<and>
       (case g (sr_ID r) of
          None \<Rightarrow> False
        | Some p \<Rightarrow>
            list_ex (\<lambda>q. live_in org q \<and> sr_ID q \<noteq> sr_ID r \<and>
              (sr_Priority q = p \<or> g (sr_ID q) = Some p)) rows)) rows"

definition set_priorities :: "int \<Rightarrow> (int \<Rightarrow> int option) \<Rightarrow> schedule_db \<Rightarrow> schedule_db option" where
  "set_priorities org g db =
     (if priority_clash org g (db_schedules db) then None
      else Some (db\<lparr>db_schedules :=
        map (\<lambda>r. if live_in org r
                 then (case g (sr_ID r) of None \<Rightarrow> r | Some p \<Rightarrow> r\<lparr>sr_Priority := p\<rparr>) else r)
          (db_schedules db)\<rparr>))"

definition store_ReorderSchedules :: "int \<Rightarrow> int list \<Rightarrow> schedule_db \<Rightarrow> fleet_error + schedule_db" where
  "store_ReorderSchedules org ids db =
     (case set_priorities org (\<lambda>i. map_option uminus (ordinality ids i)) db of
        None \<Rightarrow> Inl (internal ''failed to negate priorities'')
      | Some db1 \<Rightarrow>
          (case set_priorities org (ordinality ids) db1 of
             None \<Rightarrow> Inl (internal ''failed to set priorities'')
           | Some db2 \<Rightarrow> Inr db2))"

section \<open>Targets\<close>

definition store_CreateScheduleTarget ::
  "int \<Rightarrow> int \<Rightarrow> string \<Rightarrow> string \<Rightarrow> schedule_db \<Rightarrow> fleet_error + schedule_db" where
  "store_CreateScheduleTarget org i ttype tid db =
     (let x = \<lparr>sx_ScheduleID = i, sx_TargetType = ttype, sx_TargetID = tid\<rparr> in
      if find_schedule org i db = None then Inr db
      else if x \<in> set (db_targets db) then Inl (internal ''failed to create schedule target'')
      else Inr (db\<lparr>db_targets := db_targets db @ [x]\<rparr>))"

definition DeleteScheduleTargets :: "int \<Rightarrow> int \<Rightarrow> schedule_db \<Rightarrow> schedule_db" where
  "DeleteScheduleTargets org i db =
     (if find_schedule org i db = None then db
      else db\<lparr>db_targets := filter (\<lambda>x. sx_ScheduleID x \<noteq> i) (db_targets db)\<rparr>)"

definition GetScheduleTargets :: "int \<Rightarrow> int \<Rightarrow> schedule_db \<Rightarrow> ScheduleTarget list" where
  "GetScheduleTargets org i db =
     (if find_schedule org i db = None then []
      else convertScheduleTargets (filter (\<lambda>x. sx_ScheduleID x = i) (db_targets db)))"

end
