(* ===== verification/Schedule_Service.thy ===== *)
theory Schedule_Service
  imports Schedule_Store
begin

text \<open>
  The operations of \<open>schedule/service.go\<close> on the tables. \<open>org\<close> and \<open>user\<close> come from the session, \<open>now\<close> is
  the service's clock. A transaction that fails leaves the tables as they were; \<open>UpdateSchedule\<close> reads the
  status of its row before it writes, and the two are separate definitions because another request may
  commit between them.
\<close>

section \<open>Requests\<close>

record schedule_request =
  rq_ScheduleId :: int
  rq_Name :: string
  rq_Action :: ScheduleAction
  rq_ActionConfig :: "PowerTargetMode option"
  rq_ScheduleType :: ScheduleType
  rq_Recurrence :: "ScheduleRecurrence option"
  rq_StartDate :: string
  rq_StartTime :: string
  rq_EndTime :: string
  rq_EndDate :: string
  rq_Timezone :: string
  rq_Targets :: "ScheduleTarget option list"

text \<open>The schedule built from a request, with its trimmed name.\<close>

definition request_schedule :: "int \<Rightarrow> schedule_request \<Rightarrow> Schedule" where
  "request_schedule user q =
     \<lparr>sd_Id = rq_ScheduleId q, sd_Name = strings_TrimSpace (rq_Name q), sd_Action = rq_Action q,
      sd_ActionConfig = rq_ActionConfig q, sd_ScheduleType = rq_ScheduleType q,
      sd_Recurrence = rq_Recurrence q, sd_StartDate = rq_StartDate q, sd_StartTime = rq_StartTime q,
      sd_EndTime = rq_EndTime q, sd_EndDate = rq_EndDate q, sd_Timezone = rq_Timezone q,
      sd_Status = StUnspecified, sd_Priority = 0, sd_CreatedBy = user, sd_LastRunAt = None,
      sd_NextRunAt = None, sd_Targets = []\<rparr>"

text \<open>The checks shared by \<open>CreateSchedule\<close> and \<open>UpdateSchedule\<close>; the result has its next run.\<close>

definition checked_request :: "clock_env \<Rightarrow> int \<Rightarrow> gotime \<Rightarrow> schedule_request \<Rightarrow> fleet_error + Schedule" where
  "checked_request e user now q =
     (case validateScheduleFields (strings_TrimSpace (rq_Name q)) (rq_Action q) (rq_ActionConfig q)
          (rq_ScheduleType q) (rq_Recurrence q) of
        Some err \<Rightarrow> Inl err
      | None \<Rightarrow>
          (case validateTargets (rq_Targets q) of
             Some err \<Rightarrow> Inl err
           | None \<Rightarrow>
               let s = request_schedule user q in
               (case ComputeNextRun e s now of
                  Inl err \<Rightarrow> Inl (FleetError CodeInvalidArgument ''cannot compute next run'')
                | Inr None \<Rightarrow> Inl (FleetError CodeInvalidArgument ''schedule has no future runs'')
                | Inr (Some t) \<Rightarrow> Inr (s\<lparr>sd_NextRunAt := Some t\<rparr>))))"

section \<open>Priorities\<close>

definition schedulePriorityOrderMatches :: "(int \<times> string) list \<Rightarrow> int list \<Rightarrow> bool" where
  "schedulePriorityOrderMatches statuses desired \<longleftrightarrow> map fst statuses = desired"

definition completed_last :: "(int \<times> string) list \<Rightarrow> int list" where
  "completed_last statuses =
     map fst (filter (\<lambda>(i, st). st \<noteq> statusCompleted) statuses) @
     map fst (filter (\<lambda>(i, st). st = statusCompleted) statuses)"

definition normalizeSchedulePriorities :: "int \<Rightarrow> schedule_db \<Rightarrow> fleet_error + schedule_db" where
  "normalizeSchedulePriorities org db =
     (let statuses = ListScheduleIDStatuses org db; ordered = completed_last statuses
      in if schedulePriorityOrderMatches statuses ordered then Inr db
         else store_ReorderSchedules org ordered db)"

section \<open>Operations\<close>

fun create_targets :: "int \<Rightarrow> int \<Rightarrow> ScheduleTarget option list \<Rightarrow> schedule_db \<Rightarrow> fleet_error + schedule_db" where
  "create_targets org i [] db = Inr db"
| "create_targets org i (None # ts) db = Inl (internal ''nil target'')"
| "create_targets org i (Some t # ts) db =
     (case store_CreateScheduleTarget org i (scheduleTargetTypeToString (tg_TargetType t))
          (strings_TrimSpace (tg_TargetId t)) db of
        Inl err \<Rightarrow> Inl (internal ''failed to create target'')
      | Inr db \<Rightarrow> create_targets org i ts db)"

definition fetchScheduleWithTargets :: "int \<Rightarrow> int \<Rightarrow> schedule_db \<Rightarrow> fleet_error + Schedule" where
  "fetchScheduleWithTargets org i db =
     (case GetSchedule org i db of
        Inl err \<Rightarrow> Inl err
      | Inr s \<Rightarrow> Inr (s\<lparr>sd_Targets := GetScheduleTargets org i db\<rparr>))"

text \<open>The last step of a transaction: the answer, read from the tables after it.\<close>

definition fetched :: "int \<Rightarrow> int \<Rightarrow> schedule_db \<Rightarrow> fleet_error + Schedule \<times> schedule_db" where
  "fetched org i db =
     (case fetchScheduleWithTargets org i db of Inl err \<Rightarrow> Inl err | Inr s \<Rightarrow> Inr (s, db))"

definition svc_CreateSchedule ::
  "clock_env \<Rightarrow> int \<Rightarrow> int \<Rightarrow> gotime \<Rightarrow> schedule_request \<Rightarrow> schedule_db \<Rightarrow> fleet_error + Schedule \<times> schedule_db" where
  "svc_CreateSchedule e org user now q db =
     (case checked_request e user now q of
        Inl err \<Rightarrow> Inl err
      | Inr s \<Rightarrow>
          (case store_CreateSchedule org (s\<lparr>sd_Priority := wrap32 (GetMaxPriority org db + 1)\<rparr>) db of
             Inl err \<Rightarrow> Inl err
           | Inr (i, db1) \<Rightarrow>
               (case create_targets org i (rq_Targets q) db1 of
                  Inl err \<Rightarrow> Inl err
                | Inr db2 \<Rightarrow>
                    (case normalizeSchedulePriorities org db2 of
                       Inl err \<Rightarrow> Inl err
                     | Inr db3 \<Rightarrow> fetched org i db3))))"

abbreviation "still_running \<equiv>
  FleetError CodeInvalidArgument ''cannot update schedule while it is running; pause it first''"

text \<open>The rest of \<open>UpdateSchedule\<close> once the status of the row was read.\<close>

definition update_read :: "int \<Rightarrow> schedule_request \<Rightarrow> Schedule \<Rightarrow> ScheduleStatus \<Rightarrow> schedule_db \<Rightarrow>
    fleet_error + Schedule \<times> schedule_db" where
  "update_read org q s existing db =
     (if existing = StRunning then Inl still_running
      else
        let status = (if existing = StCompleted then StActive else existing)
        in case store_UpdateSchedule org (s\<lparr>sd_Status := status\<rparr>) db of
             Inl err \<Rightarrow> Inl err
           | Inr (0, db1) \<Rightarrow>
               (case GetSchedule org (rq_ScheduleId q) db1 of
                  Inl err \<Rightarrow> Inl err
                | Inr c \<Rightarrow>
                    if sd_Status c = StRunning then Inl still_running
                    else Inl (FleetError CodeNotFound ''schedule not found''))
           | Inr (Suc n, db1) \<Rightarrow>
               (case create_targets org (rq_ScheduleId q) (rq_Targets q)
                    (DeleteScheduleTargets org (rq_ScheduleId q) db1) of
                  Inl err \<Rightarrow> Inl err
                | Inr db2 \<Rightarrow>
                    (case (if status = StActive then normalizeSchedulePriorities org db2 else Inr db2) of
                       Inl err \<Rightarrow> Inl err
                     | Inr db3 \<Rightarrow> fetched org (rq_ScheduleId q) db3)))"

definition svc_UpdateSchedule ::
  "clock_env \<Rightarrow> int \<Rightarrow> int \<Rightarrow> gotime \<Rightarrow> schedule_request \<Rightarrow> schedule_db \<Rightarrow> fleet_error + Schedule \<times> schedule_db" where
  "svc_UpdateSchedule e org user now q db =
     (case checked_request e user now q of
        Inl err \<Rightarrow> Inl err
      | Inr s \<Rightarrow>
          (case GetSchedule org (rq_ScheduleId q) db of
             Inl err \<Rightarrow> Inl err
           | Inr existing \<Rightarrow> update_read org q s (sd_Status existing) db))"

definition svc_DeleteSchedule :: "int \<Rightarrow> int \<Rightarrow> schedule_db \<Rightarrow> fleet_error option \<times> schedule_db" where
  "svc_DeleteSchedule org i db =
     (case SoftDeleteSchedule org i db of (n, db1) \<Rightarrow>
        (if n = 0 then Some (FleetError CodeNotFound ''schedule not found'') else None, db1))"

definition svc_PauseSchedule :: "int \<Rightarrow> int \<Rightarrow> schedule_db \<Rightarrow> (fleet_error + Schedule) \<times> schedule_db" where
  "svc_PauseSchedule org i db =
     (case PauseActiveSchedule org i db of (n, db1) \<Rightarrow>
        (if n = 0
         then (case GetSchedule org i db1 of
                 Inl err \<Rightarrow> Inl err
               | Inr s \<Rightarrow> Inl (FleetError CodeInvalidArgument ''cannot pause schedule with this status''))
         else fetchScheduleWithTargets org i db1, db1))"

definition svc_ResumeSchedule ::
  "clock_env \<Rightarrow> int \<Rightarrow> gotime \<Rightarrow> (ScheduleAction \<Rightarrow> fleet_error option) \<Rightarrow> int \<Rightarrow> schedule_db \<Rightarrow>
   fleet_error + Schedule \<times> schedule_db" where
  "svc_ResumeSchedule e org now authorizeAction i db =
     (case GetSchedule org i db of
        Inl err \<Rightarrow> Inl err
      | Inr existing \<Rightarrow>
          (case authorizeAction (sd_Action existing) of
             Some err \<Rightarrow> Inl err
           | None \<Rightarrow>
               (case ComputeNextRun e existing now of
                  Inl err \<Rightarrow> Inl (internal ''cannot compute next run'')
                | Inr next \<Rightarrow>
                    let status = (if next = None then statusCompleted else statusActive)
                    in case ResumePausedSchedule org i status (map_option (\<lambda>t. unix_of t * second) next) db of
                         (0, db1) \<Rightarrow>
                           (case GetSchedule org i db1 of
                              Inl err \<Rightarrow> Inl err
                            | Inr c \<Rightarrow> Inl (FleetError CodeInvalidArgument ''cannot resume schedule with this status''))
                       | (Suc n, db1) \<Rightarrow>
                           (case (if status = statusCompleted then normalizeSchedulePriorities org db1 else Inr db1) of
                              Inl err \<Rightarrow> Inl err
                            | Inr db2 \<Rightarrow> fetched org i db2))))"

text \<open>The loop of \<open>ReorderSchedules\<close> over the submitted identifiers.\<close>

fun reorder_loop :: "(int \<times> string) list \<Rightarrow> int list \<Rightarrow> int list \<Rightarrow> int list \<Rightarrow> fleet_error + int list" where
  "reorder_loop statuses seen acc [] = Inr acc"
| "reorder_loop statuses seen acc (i # is) =
     (if i \<in> set seen then Inl (FleetError CodeInvalidArgument ''duplicate schedule ID'')
      else case map_of statuses i of
        None \<Rightarrow> Inl (FleetError CodeInvalidArgument ''not a schedule in this organization'')
      | Some st \<Rightarrow>
          if st = statusCompleted then reorder_loop statuses (i # seen) acc is
          else reorder_loop statuses (i # seen) (acc @ [i]) is)"

definition svc_ReorderSchedules :: "int \<Rightarrow> int list \<Rightarrow> schedule_db \<Rightarrow> fleet_error + schedule_db" where
  "svc_ReorderSchedules org ids db =
     (let statuses = ListScheduleIDStatuses org db;
          completed = map fst (filter (\<lambda>(i, st). st = statusCompleted) statuses);
          reorderable = map fst (filter (\<lambda>(i, st). st \<noteq> statusCompleted) statuses)
      in case reorder_loop statuses [] [] ids of
           Inl err \<Rightarrow> Inl err
         | Inr reordered \<Rightarrow>
             if length reordered \<noteq> length reorderable
             then Inl (FleetError CodeInvalidArgument ''submitted reorderable IDs differ from the organization's'')
             else store_ReorderSchedules org (reordered @ completed) db)"

definition svc_ListSchedules :: "int \<Rightarrow> string \<Rightarrow> string \<Rightarrow> schedule_db \<Rightarrow> Schedule list" where
  "svc_ListSchedules org status action db =
     map (\<lambda>s. s\<lparr>sd_Targets := GetScheduleTargets org (sd_Id s) db\<rparr>) (ListSchedules org status action db)"

end
