(* ===== verification/Schedule_Processor.thy ===== *)
theory Schedule_Processor
  imports Schedule_Service
begin

text \<open>
  The schedule processor (\<open>schedule/processor.go\<close>): the jobs it registers with the cron library and with
  timers, the execution of a schedule in the steps between which other requests may commit, the end of
  power-target windows, recovery and reconciliation. The store may fail at every call (\<open>pe_fails\<close>, by call
  and schedule); the command service and the resolver of targets are arguments. The trace \<open>pr_sent\<close> holds
  the commands handed to the command service, \<open>pr_log\<close> the activity events.
\<close>

section \<open>State and environment\<close>

datatype performance_mode = ModeEfficiency | ModeMaximumHashrate

datatype miner_command = CmdSetPowerTarget performance_mode | CmdReboot | CmdStopMining

definition revertPerformanceMode :: performance_mode where
  "revertPerformanceMode = ModeEfficiency"

record command_result =
  cr_DispatchedCount :: nat
  cr_Skipped :: "(string \<times> string) list"

datatype store_call = CallSetRunning | CallGetByID | CallRevert | CallUpdate | CallTargets | CallActive

record proc_env =
  pe_clock :: clock_env
  pe_now :: gotime
  pe_fails :: "store_call \<Rightarrow> int \<Rightarrow> bool"
  pe_resolver :: target_resolver
  pe_command :: "int \<Rightarrow> miner_command \<Rightarrow> string list \<Rightarrow> command_result option option"

text \<open>
  A job names its cron entry or its timer by a handle. \<open>pr_cron\<close> are the entries of the cron library,
  \<open>pr_timers\<close> the timers that have not fired, each with the schedule it executes.
\<close>

record jobEntry =
  jb_handle :: nat
  jb_isOneTime :: bool
  jb_fingerprint :: string
  jb_generation :: nat

record sent_command =
  sc_schedule :: int
  sc_priority :: int
  sc_command :: miner_command
  sc_devices :: "string list"
  sc_revert :: bool

record processor =
  pr_db :: schedule_db
  pr_jobs :: "(int \<times> jobEntry) list"
  pr_nextGen :: nat
  pr_fresh :: nat
  pr_cron :: "(nat \<times> int) list"
  pr_timers :: "(nat \<times> int) list"
  pr_sent :: "sent_command list"
  pr_log :: "(string \<times> int) list"

section \<open>Fingerprints\<close>

definition ScheduleType_String :: "ScheduleType \<Rightarrow> string" where
  "ScheduleType_String t =
     (case t of
        TypeUnspecified \<Rightarrow> ''SCHEDULE_TYPE_UNSPECIFIED'' | OneTime \<Rightarrow> ''SCHEDULE_TYPE_ONE_TIME''
      | Recurring \<Rightarrow> ''SCHEDULE_TYPE_RECURRING'' | TypeOther n \<Rightarrow> show_int n)"

definition RecurrenceFrequency_String :: "RecurrenceFrequency \<Rightarrow> string" where
  "RecurrenceFrequency_String f =
     (case f of
        FreqUnspecified \<Rightarrow> ''RECURRENCE_FREQUENCY_UNSPECIFIED'' | Daily \<Rightarrow> ''RECURRENCE_FREQUENCY_DAILY''
      | Weekly \<Rightarrow> ''RECURRENCE_FREQUENCY_WEEKLY'' | Monthly \<Rightarrow> ''RECURRENCE_FREQUENCY_MONTHLY''
      | FreqOther n \<Rightarrow> show_int n)"

definition DayOfWeek_String :: "int \<Rightarrow> string" where
  "DayOfWeek_String d =
     (if 0 \<le> d \<and> d \<le> 7
      then ''DAY_OF_WEEK_'' @
        [''UNSPECIFIED'', ''SUNDAY'', ''MONDAY'', ''TUESDAY'', ''WEDNESDAY'', ''THURSDAY'', ''FRIDAY'',
         ''SATURDAY''] ! nat d
      else show_int d)"

definition scheduleFingerprint :: "Schedule \<Rightarrow> string" where
  "scheduleFingerprint s =
     join_byte CHR ''|''
       ([ScheduleType_String (sd_ScheduleType s), sd_StartDate s, sd_StartTime s, sd_Timezone s] @
        (case sd_Recurrence s of
           None \<Rightarrow> []
         | Some r \<Rightarrow>
             RecurrenceFrequency_String (rec_Frequency r) # map DayOfWeek_String (rec_DaysOfWeek r) @
             (case rec_DayOfMonth r of None \<Rightarrow> [] | Some d \<Rightarrow> [show_int d])))"

section \<open>Jobs\<close>

definition removeJobLocked :: "int \<Rightarrow> processor \<Rightarrow> processor" where
  "removeJobLocked i p =
     (case map_of (pr_jobs p) i of
        None \<Rightarrow> p
      | Some j \<Rightarrow>
          let p1 = (if jb_isOneTime j
                    then p\<lparr>pr_timers := filter (\<lambda>(h, _). h \<noteq> jb_handle j) (pr_timers p)\<rparr>
                    else p\<lparr>pr_cron := filter (\<lambda>(h, _). h \<noteq> jb_handle j) (pr_cron p)\<rparr>)
          in p1\<lparr>pr_jobs := AList.delete i (pr_jobs p1)\<rparr>)"

definition currentJobGeneration :: "int \<Rightarrow> processor \<Rightarrow> nat option" where
  "currentJobGeneration i p = map_option jb_generation (map_of (pr_jobs p) i)"

definition removeJobIfCurrent :: "int \<Rightarrow> nat option \<Rightarrow> processor \<Rightarrow> processor" where
  "removeJobIfCurrent i gen p =
     (case gen of
        None \<Rightarrow> p
      | Some g \<Rightarrow>
          (case map_of (pr_jobs p) i of
             None \<Rightarrow> p
           | Some j \<Rightarrow> if jb_generation j = g then removeJobLocked i p else p))"

text \<open>\<open>registerJob\<close>; a generation is drawn first, and an error leaves no job.\<close>

definition registerJob :: "proc_env \<Rightarrow> Schedule \<Rightarrow> processor \<Rightarrow> processor" where
  "registerJob e s p =
     (let g = pr_nextGen p + 1; p = p\<lparr>pr_nextGen := g\<rparr>; h = pr_fresh p; i = sd_Id s;
          j = \<lparr>jb_handle = h, jb_isOneTime = (sd_ScheduleType s = OneTime),
               jb_fingerprint = scheduleFingerprint s, jb_generation = g\<rparr>
      in if sd_ScheduleType s = OneTime then
           (case ParseScheduleTime (pe_clock e) (sd_StartDate s) (sd_StartTime s) (sd_Timezone s) of
              Inl err \<Rightarrow> p
            | Inr t \<Rightarrow>
                p\<lparr>pr_fresh := h + 1, pr_timers := pr_timers p @ [(h, i)],
                  pr_jobs := AList.update i j (pr_jobs p)\<rparr>)
         else case sd_Recurrence s of
           None \<Rightarrow> p
         | Some r \<Rightarrow>
             (case ToCronExpression (rec_Frequency r) (sd_StartTime s) (sd_Timezone s)
                 (rec_DaysOfWeek r) (rec_DayOfMonth r) of
                Inl err \<Rightarrow> p
              | Inr expr \<Rightarrow>
                  (case ce_cron (pe_clock e) expr of
                     None \<Rightarrow> p
                   | Some Next \<Rightarrow>
                       p\<lparr>pr_fresh := h + 1, pr_cron := pr_cron p @ [(h, i)],
                         pr_jobs := AList.update i j (pr_jobs p)\<rparr>)))"

definition sync_one :: "proc_env \<Rightarrow> processor \<Rightarrow> Schedule \<Rightarrow> processor" where
  "sync_one e p s =
     (case map_of (pr_jobs p) (sd_Id s) of
        Some j \<Rightarrow>
          if jb_fingerprint j = scheduleFingerprint s then p
          else registerJob e s (removeJobLocked (sd_Id s) p)
      | None \<Rightarrow> registerJob e s p)"

definition syncSchedules :: "proc_env \<Rightarrow> processor \<Rightarrow> processor" where
  "syncSchedules e p =
     (if pe_fails e CallActive 0 then p
      else
        let schedules = map snd (GetActiveSchedules (pr_db p));
            p1 = foldl (sync_one e) p schedules;
            gone = filter (\<lambda>i. i \<notin> sd_Id ` set schedules) (map fst (pr_jobs p1))
        in foldl (\<lambda>p i. removeJobLocked i p) p1 gone)"

section \<open>After a run\<close>

definition whole_unix :: "gotime \<Rightarrow> gotime" where
  "whole_unix t = unix_of t * second"

definition log_activity :: "string \<Rightarrow> int \<Rightarrow> processor \<Rightarrow> processor" where
  "log_activity kind i p = p\<lparr>pr_log := pr_log p @ [(kind, i)]\<rparr>"

text \<open>A revert to active; the result says whether the store did it.\<close>

definition revert_row :: "proc_env \<Rightarrow> int \<Rightarrow> processor \<Rightarrow> bool \<times> processor" where
  "revert_row e i p =
     (if pe_fails e CallRevert i then (False, p)
      else (True, p\<lparr>pr_db := RevertScheduleToActive i (pr_db p)\<rparr>))"

definition revert_for_retry :: "proc_env \<Rightarrow> int \<Rightarrow> nat option \<Rightarrow> processor \<Rightarrow> processor" where
  "revert_for_retry e i gen p =
     (case revert_row e i p of (ok, p1) \<Rightarrow> if ok then removeJobIfCurrent i gen p1 else p1)"

definition update_row :: "proc_env \<Rightarrow> int \<Rightarrow> gotime option \<Rightarrow> gotime option \<Rightarrow> string \<Rightarrow> processor \<Rightarrow>
    bool \<times> processor" where
  "update_row e i lastRun next status p =
     (if pe_fails e CallUpdate i then (False, p)
      else (True, p\<lparr>pr_db := UpdateScheduleAfterRun i lastRun next status (pr_db p)\<rparr>))"

definition has_window :: "Schedule \<Rightarrow> bool" where
  "has_window s \<longleftrightarrow> sd_Action s = SetPowerTarget \<and> sd_EndTime s \<noteq> []"

text \<open>The status after a run, and the next run to store.\<close>

definition after_run :: "Schedule \<Rightarrow> gotime option \<Rightarrow> string \<times> gotime option" where
  "after_run s next =
     (if next = None \<and> \<not> has_window s then (statusCompleted, None)
      else if has_window s then (statusRunning, map_option whole_unix next)
      else (statusActive, map_option whole_unix next))"

definition updateAfterRun :: "proc_env \<Rightarrow> Schedule \<Rightarrow> gotime \<Rightarrow> nat option \<Rightarrow> processor \<Rightarrow> processor" where
  "updateAfterRun e s now gen p =
     (case ComputeNextRun (pe_clock e) s now of
        Inl err \<Rightarrow> snd (update_row e (sd_Id s) (Some (whole_unix now)) None statusActive p)
      | Inr next \<Rightarrow>
          (case after_run s next of (status, stored) \<Rightarrow>
             (case update_row e (sd_Id s) (Some (whole_unix now)) stored status p of
                (False, p1) \<Rightarrow> revert_for_retry e (sd_Id s) gen p1
              | (True, p1) \<Rightarrow>
                  if status = statusCompleted
                  then log_activity ''schedule_completed'' (sd_Id s) (removeJobLocked (sd_Id s) p1)
                  else p1)))"

definition transitionToCompleted :: "proc_env \<Rightarrow> Schedule \<Rightarrow> gotime \<Rightarrow> nat option \<Rightarrow> processor \<Rightarrow> processor" where
  "transitionToCompleted e s now gen p =
     (case update_row e (sd_Id s) (Some (whole_unix now)) None statusCompleted p of
        (False, p1) \<Rightarrow> revert_for_retry e (sd_Id s) gen p1
      | (True, p1) \<Rightarrow> log_activity ''schedule_completed'' (sd_Id s) (removeJobLocked (sd_Id s) p1))"

section \<open>Execution\<close>

definition command_for :: "Schedule \<Rightarrow> miner_command option" where
  "command_for s =
     (case sd_Action s of
        SetPowerTarget \<Rightarrow>
          Some (CmdSetPowerTarget
            (if sd_ActionConfig s = Some PowerMax then ModeMaximumHashrate else ModeEfficiency))
      | Reboot \<Rightarrow> Some CmdReboot
      | Sleep \<Rightarrow> Some CmdStopMining
      | _ \<Rightarrow> None)"

text \<open>Handing a command to the command service, with the scheduler's identity and priority.\<close>

definition send_command :: "proc_env \<Rightarrow> Schedule \<Rightarrow> bool \<Rightarrow> miner_command \<Rightarrow> string list \<Rightarrow> processor \<Rightarrow>
    command_result option option \<times> processor" where
  "send_command e s revert c ds p =
     (pe_command e (sd_Id s) c ds,
      p\<lparr>pr_sent := pr_sent p @ [\<lparr>sc_schedule = sd_Id s, sc_priority = sd_Priority s, sc_command = c,
         sc_devices = ds, sc_revert = revert\<rparr>]\<rparr>)"

definition resolveTargets :: "proc_env \<Rightarrow> Schedule \<Rightarrow> int \<Rightarrow> processor \<Rightarrow> string list option" where
  "resolveTargets e s org p =
     (if pe_fails e CallTargets (sd_Id s) then None
      else Expand (pe_resolver e) (GetScheduleTargets org (sd_Id s) (pr_db p)))"

definition countSkipsByFilter :: "command_result option \<Rightarrow> string \<Rightarrow> nat" where
  "countSkipsByFilter r name =
     (case r of None \<Rightarrow> 0 | Some r \<Rightarrow> length (filter (\<lambda>(_, f). f = name) (cr_Skipped r)))"

abbreviation "ScheduleConflictFilterName \<equiv> ''schedule_conflict''"
abbreviation "CurtailmentActiveFilterName \<equiv> ''curtailment_active''"

definition log_skips :: "Schedule \<Rightarrow> command_result option \<Rightarrow> processor \<Rightarrow> processor" where
  "log_skips s r p =
     (let p1 = (if 0 < countSkipsByFilter r ScheduleConflictFilterName
                then log_activity ''schedule_conflict_skip'' (sd_Id s) p else p)
      in if 0 < countSkipsByFilter r CurtailmentActiveFilterName
         then log_activity ''schedule_skipped_due_to_curtailment'' (sd_Id s) p1 else p1)"

text \<open>
  An execution between two of its steps: the row is claimed; the schedule is loaded and within its dates;
  its command was sent (or there was no device).
\<close>

datatype execution =
    Claimed int "nat option"
  | Loaded int Schedule gotime "nat option"
  | Sent Schedule gotime "nat option" "command_result option" bool

definition exec_claim :: "proc_env \<Rightarrow> int \<Rightarrow> processor \<Rightarrow> execution option \<times> processor" where
  "exec_claim e i p =
     (let gen = currentJobGeneration i p in
      if pe_fails e CallSetRunning i then (None, p)
      else case SetScheduleRunning i (pr_db p) of
        (n, db) \<Rightarrow> if n = 0 then (None, p) else (Some (Claimed i gen), p\<lparr>pr_db := db\<rparr>))"

definition before_start :: "clock_env \<Rightarrow> Schedule \<Rightarrow> gotime \<Rightarrow> bool" where
  "before_start c s now \<longleftrightarrow>
     sd_StartDate s \<noteq> [] \<and>
     (case parseDateInLocation c (sd_StartDate s) (sd_Timezone s) of
        Inl err \<Rightarrow> False | Inr (_, d) \<Rightarrow> time_before now d)"

definition after_end :: "clock_env \<Rightarrow> Schedule \<Rightarrow> gotime \<Rightarrow> bool" where
  "after_end c s now \<longleftrightarrow> (case past_end c s now of Inl err \<Rightarrow> False | Inr b \<Rightarrow> b)"

definition exec_load :: "proc_env \<Rightarrow> int \<Rightarrow> nat option \<Rightarrow> processor \<Rightarrow> execution option \<times> processor" where
  "exec_load e i gen p =
     (case (if pe_fails e CallGetByID i then None else GetScheduleByID i (pr_db p)) of
        None \<Rightarrow> (None, revert_for_retry e i gen p)
      | Some (org, s) \<Rightarrow>
          if before_start (pe_clock e) s (pe_now e) then (None, snd (revert_row e i p))
          else if after_end (pe_clock e) s (pe_now e)
          then (None, transitionToCompleted e s (pe_now e) gen p)
          else (Some (Loaded org s (pe_now e) gen), p))"

definition exec_send :: "proc_env \<Rightarrow> int \<Rightarrow> Schedule \<Rightarrow> gotime \<Rightarrow> nat option \<Rightarrow> processor \<Rightarrow>
    execution option \<times> processor" where
  "exec_send e org s now gen p =
     (case resolveTargets e s org p of
        None \<Rightarrow> (None, revert_for_retry e (sd_Id s) gen p)
      | Some [] \<Rightarrow> (Some (Sent s now gen None False), p)
      | Some (d # ds) \<Rightarrow>
          (case command_for s of
             None \<Rightarrow> (None, revert_for_retry e (sd_Id s) gen p)
           | Some c \<Rightarrow>
               (case send_command e s False c (d # ds) p of
                  (None, p1) \<Rightarrow> (None, revert_for_retry e (sd_Id s) gen p1)
                | (Some r, p1) \<Rightarrow> (Some (Sent s now gen r True), log_skips s r p1))))"

definition exec_finish :: "proc_env \<Rightarrow> Schedule \<Rightarrow> gotime \<Rightarrow> nat option \<Rightarrow> command_result option \<Rightarrow> bool \<Rightarrow>
    processor \<Rightarrow> processor" where
  "exec_finish e s now gen r sent p =
     (let p1 = updateAfterRun e s now gen p;
          dispatched = (case r of None \<Rightarrow> 0 | Some r \<Rightarrow> cr_DispatchedCount r)
      in if sent \<and> (0 < dispatched \<or> countSkipsByFilter r ScheduleConflictFilterName = 0 \<and>
            countSkipsByFilter r CurtailmentActiveFilterName = 0)
         then log_activity ''schedule_executed'' (sd_Id s) p1 else p1)"

definition exec_step :: "proc_env \<Rightarrow> execution \<Rightarrow> processor \<Rightarrow> execution option \<times> processor" where
  "exec_step e x p =
     (case x of
        Claimed i gen \<Rightarrow> exec_load e i gen p
      | Loaded org s now gen \<Rightarrow> exec_send e org s now gen p
      | Sent s now gen r sent \<Rightarrow> (None, exec_finish e s now gen r sent p))"

text \<open>The whole of \<open>executeSchedule\<close>, when nothing else commits between its steps.\<close>

definition and_then_step :: "proc_env \<Rightarrow> execution option \<times> processor \<Rightarrow> execution option \<times> processor" where
  "and_then_step e xp = (case xp of (None, p) \<Rightarrow> (None, p) | (Some x, p) \<Rightarrow> exec_step e x p)"

definition executeSchedule :: "proc_env \<Rightarrow> int \<Rightarrow> processor \<Rightarrow> processor" where
  "executeSchedule e i p = snd (and_then_step e (and_then_step e (and_then_step e (exec_claim e i p))))"

section \<open>Windows\<close>

definition revertToActive :: "proc_env \<Rightarrow> Schedule \<Rightarrow> gotime \<Rightarrow> processor \<Rightarrow> bool \<times> processor" where
  "revertToActive e s now p =
     (case ComputeNextRun (pe_clock e) s now of
        Inl err \<Rightarrow> update_row e (sd_Id s) None None statusActive p
      | Inr next \<Rightarrow>
          let status = (if next = None then statusCompleted else statusActive)
          in case update_row e (sd_Id s) None (map_option whole_unix next) status p of
               (False, p1) \<Rightarrow> (False, p1)
             | (True, p1) \<Rightarrow>
                 (True, if status = statusCompleted then removeJobLocked (sd_Id s) p1 else p1))"

definition close_window :: "proc_env \<Rightarrow> Schedule \<Rightarrow> processor \<Rightarrow> processor" where
  "close_window e s p =
     (case revertToActive e s (pe_now e) p of
        (False, p1) \<Rightarrow> p1
      | (True, p1) \<Rightarrow> log_activity ''schedule_window_ended'' (sd_Id s) p1)"

definition end_window :: "proc_env \<Rightarrow> processor \<Rightarrow> int \<times> Schedule \<Rightarrow> processor" where
  "end_window e p os =
     (case os of (org, s) \<Rightarrow>
        if \<not> window_expired (pe_clock e) (pe_now e) s then p
        else case resolveTargets e s org p of
          None \<Rightarrow> p
        | Some ds \<Rightarrow>
            if ds = [] then close_window e s p
            else case send_command e s True (CmdSetPowerTarget revertPerformanceMode) ds p of
              (None, p1) \<Rightarrow> p1
            | (Some r, p1) \<Rightarrow> close_window e s (log_skips s r p1))"

definition checkEndOfWindow :: "proc_env \<Rightarrow> processor \<Rightarrow> processor" where
  "checkEndOfWindow e p =
     (if pe_fails e CallActive 0 then p
      else foldl (end_window e) p (GetActiveSchedules (pr_db p)))"

section \<open>Recovery\<close>

definition legitimate_window :: "Schedule \<Rightarrow> bool" where
  "legitimate_window s \<longleftrightarrow> has_window s \<and> sd_LastRunAt s \<noteq> None"

fun recover_loop :: "proc_env \<Rightarrow> Schedule list \<Rightarrow> processor \<Rightarrow> bool \<times> processor" where
  "recover_loop e [] p = (True, p)"
| "recover_loop e (s # ss) p =
     (if sd_Status s \<noteq> StRunning \<or> legitimate_window s then recover_loop e ss p
      else case revert_row e (sd_Id s) p of
        (False, p1) \<Rightarrow> (False, p1) | (True, p1) \<Rightarrow> recover_loop e ss p1)"

definition recoverStaleRunning :: "proc_env \<Rightarrow> processor \<Rightarrow> bool \<times> processor" where
  "recoverStaleRunning e p =
     (if pe_fails e CallActive 0 then (False, p)
      else recover_loop e (map snd (GetActiveSchedules (pr_db p))) p)"

end
