(* ===== verification/Schedule_Safety.thy ===== *)
theory Schedule_Safety
  imports Schedule_Processor
begin

text \<open>
  Requests and the processor as one system: the operations in any order, with executions that other
  operations interleave. Invariants of the tables and of the jobs, and what the processor may do to a row.
\<close>

section \<open>The system\<close>

type_synonym schedule_system = "processor \<times> execution list"

text \<open>
  \<open>Fire\<close> is the cron library or a timer calling a job by its handle, \<open>Proceed\<close> the next step of the
  \<open>n\<close>-th execution in flight. \<open>LateUpdate\<close> is an \<open>UpdateSchedule\<close> whose read of the row saw the given status.
\<close>

datatype schedule_op =
    Create clock_env int int gotime schedule_request
  | LateUpdate clock_env int int gotime schedule_request ScheduleStatus
  | Delete int int
  | Pause int int
  | Resume clock_env int gotime "ScheduleAction \<Rightarrow> fleet_error option" int
  | Reorder int "int list"
  | Sync proc_env
  | Fire proc_env nat
  | Proceed proc_env nat
  | Windows proc_env
  | Recover proc_env

definition in_tables :: "(schedule_db \<Rightarrow> fleet_error + 'a \<times> schedule_db) \<Rightarrow> processor \<Rightarrow> processor" where
  "in_tables f p = (case f (pr_db p) of Inl err \<Rightarrow> p | Inr (_, db) \<Rightarrow> p\<lparr>pr_db := db\<rparr>)"

definition late_update :: "clock_env \<Rightarrow> int \<Rightarrow> int \<Rightarrow> gotime \<Rightarrow> schedule_request \<Rightarrow> ScheduleStatus \<Rightarrow> schedule_db \<Rightarrow>
    fleet_error + Schedule \<times> schedule_db" where
  "late_update e org user now q st db =
     (case checked_request e user now q of Inl err \<Rightarrow> Inl err | Inr s \<Rightarrow> update_read org q s st db)"

definition fire :: "proc_env \<Rightarrow> nat \<Rightarrow> schedule_system \<Rightarrow> schedule_system" where
  "fire e h sys =
     (case sys of (p, xs) \<Rightarrow>
        case map_of (pr_cron p @ pr_timers p) h of
          None \<Rightarrow> (p, xs)
        | Some i \<Rightarrow>
            (case exec_claim e i (p\<lparr>pr_timers := filter (\<lambda>(k, _). k \<noteq> h) (pr_timers p)\<rparr>) of
               (None, p1) \<Rightarrow> (p1, xs) | (Some x, p1) \<Rightarrow> (p1, xs @ [x])))"

definition proceed :: "proc_env \<Rightarrow> nat \<Rightarrow> schedule_system \<Rightarrow> schedule_system" where
  "proceed e n sys =
     (case sys of (p, xs) \<Rightarrow>
        if length xs \<le> n then (p, xs)
        else case exec_step e (xs ! n) p of
          (None, p1) \<Rightarrow> (p1, take n xs @ drop (Suc n) xs) | (Some x, p1) \<Rightarrow> (p1, xs[n := x]))"

fun schedule_step :: "schedule_op \<Rightarrow> schedule_system \<Rightarrow> schedule_system" where
  "schedule_step (Create e org user now q) (p, xs) = (in_tables (svc_CreateSchedule e org user now q) p, xs)"
| "schedule_step (LateUpdate e org user now q st) (p, xs) = (in_tables (late_update e org user now q st) p, xs)"
| "schedule_step (Delete org i) (p, xs) = (p\<lparr>pr_db := snd (svc_DeleteSchedule org i (pr_db p))\<rparr>, xs)"
| "schedule_step (Pause org i) (p, xs) = (p\<lparr>pr_db := snd (svc_PauseSchedule org i (pr_db p))\<rparr>, xs)"
| "schedule_step (Resume e org now auth i) (p, xs) = (in_tables (svc_ResumeSchedule e org now auth i) p, xs)"
| "schedule_step (Reorder org ids) (p, xs) =
     (in_tables (\<lambda>db. case svc_ReorderSchedules org ids db of Inl err \<Rightarrow> Inl err | Inr db \<Rightarrow> Inr ((), db)) p, xs)"
| "schedule_step (Sync e) (p, xs) = (syncSchedules e p, xs)"
| "schedule_step (Fire e h) sys = fire e h sys"
| "schedule_step (Proceed e n) sys = proceed e n sys"
| "schedule_step (Windows e) (p, xs) = (checkEndOfWindow e p, xs)"
| "schedule_step (Recover e) (p, xs) = (snd (recoverStaleRunning e p), xs)"

definition processor_op :: "schedule_op \<Rightarrow> bool" where
  "processor_op o' =
     (case o' of Sync e \<Rightarrow> True | Fire e h \<Rightarrow> True | Proceed e n \<Rightarrow> True | Windows e \<Rightarrow> True | Recover e \<Rightarrow> True
      | _ \<Rightarrow> False)"

section \<open>What the processor does to a row\<close>

definition open_row :: "schedule_row \<Rightarrow> bool" where
  "open_row r \<longleftrightarrow> \<not> sr_Deleted r \<and> sr_Status r \<in> {statusActive, statusRunning}"

text \<open>The processor changes an open row only, and of it only the status and the two run times.\<close>

definition processor_change :: "schedule_row \<Rightarrow> schedule_row \<Rightarrow> bool" where
  "processor_change r r' \<longleftrightarrow>
     r' = r \<or>
     open_row r \<and> sr_Status r' \<in> {statusActive, statusRunning, statusCompleted} \<and>
     r' = r\<lparr>sr_Status := sr_Status r', sr_LastRunAt := sr_LastRunAt r', sr_NextRunAt := sr_NextRunAt r'\<rparr>"

definition tables_change :: "schedule_db \<Rightarrow> schedule_db \<Rightarrow> bool" where
  "tables_change db db' \<longleftrightarrow>
     list_all2 processor_change (db_schedules db) (db_schedules db') \<and>
     db_targets db' = db_targets db \<and> db_nextID db' = db_nextID db"

lemma processor_change_refl [simp]: "processor_change r r"
  by (simp add: processor_change_def)

lemma processor_change_trans:
  assumes "processor_change r s" "processor_change s t"
  shows "processor_change r t"
proof (cases "s = r \<or> t = s")
  case True
  then show ?thesis using assms by auto
next
  case False
  then have o: "open_row r" "sr_Status t \<in> {statusActive, statusRunning, statusCompleted}"
    and s: "s = r\<lparr>sr_Status := sr_Status s, sr_LastRunAt := sr_LastRunAt s, sr_NextRunAt := sr_NextRunAt s\<rparr>"
    and t: "t = s\<lparr>sr_Status := sr_Status t, sr_LastRunAt := sr_LastRunAt t, sr_NextRunAt := sr_NextRunAt t\<rparr>"
    using assms unfolding processor_change_def by blast+
  have "t = r\<lparr>sr_Status := sr_Status t, sr_LastRunAt := sr_LastRunAt t, sr_NextRunAt := sr_NextRunAt t\<rparr>"
    by (subst t, subst s) simp
  with o show ?thesis unfolding processor_change_def by blast
qed

lemma tables_change_refl [simp]: "tables_change db db"
  by (simp add: tables_change_def list_all2_refl)

lemma tables_change_trans:
  assumes "tables_change a b" "tables_change b c"
  shows "tables_change a c"
proof -
  have "list_all2 processor_change (db_schedules a) (db_schedules c)"
    by (rule list_all2_trans [OF processor_change_trans]) (use assms in \<open>auto simp: tables_change_def\<close>)
  then show ?thesis using assms by (simp add: tables_change_def)
qed

lemma update_change:
  assumes "\<And>r. P r \<Longrightarrow> processor_change r (f r)"
  shows "tables_change db (snd (update_schedules P f db))"
  using assms by (auto simp: tables_change_def update_schedules_def list_all2_conv_all_nth)

lemma statement_changes:
  "tables_change db (snd (SetScheduleRunning i db))"
  "tables_change db (RevertScheduleToActive i db)"
  "st \<in> {statusActive, statusRunning, statusCompleted} \<Longrightarrow>
     tables_change db (UpdateScheduleAfterRun i l n st db)"
  unfolding SetScheduleRunning_def RevertScheduleToActive_def UpdateScheduleAfterRun_def
  by (rule update_change, auto simp: processor_change_def open_row_def)+

text \<open>Parts of the processor that leave the tables alone.\<close>

lemma job_ops_db [simp]:
  "pr_db (removeJobLocked i p) = pr_db p" "pr_db (removeJobIfCurrent i g p) = pr_db p"
  "pr_db (registerJob e s p) = pr_db p" "pr_db (log_activity k i p) = pr_db p" "pr_db (log_skips s r p) = pr_db p"
  "pr_db (snd (send_command e s b c ds p)) = pr_db p"
  by (auto simp: removeJobLocked_def removeJobIfCurrent_def registerJob_def log_activity_def log_skips_def
      send_command_def Let_def split: option.splits sum.splits)

lemma sync_one_db [simp]: "pr_db (sync_one e p s) = pr_db p"
  by (simp add: sync_one_def split: option.splits)

lemma foldl_db:
  assumes "\<And>p x. pr_db (f p x) = pr_db p"
  shows "pr_db (foldl f p xs) = pr_db p"
  using assms by (induction xs arbitrary: p) simp_all

lemma sync_db [simp]: "pr_db (syncSchedules e p) = pr_db p"
  by (simp add: syncSchedules_def Let_def foldl_db)

abbreviation changes :: "processor \<Rightarrow> processor \<Rightarrow> bool" where
  "changes p q \<equiv> tables_change (pr_db p) (pr_db q)"

lemma revert_row_changes: "changes p (snd (revert_row e i p))"
  by (simp add: revert_row_def statement_changes)

lemma revert_for_retry_changes: "changes p (revert_for_retry e i g p)"
  using revert_row_changes [of p e i] by (cases "revert_row e i p") (simp add: revert_for_retry_def)

lemma update_row_changes:
  "st \<in> {statusActive, statusRunning, statusCompleted} \<Longrightarrow> changes p (snd (update_row e i l n st p))"
  by (simp add: update_row_def statement_changes(3))

lemma after_run_status: "fst (after_run s next) \<in> {statusActive, statusRunning, statusCompleted}"
  by (simp add: after_run_def)

lemma update_then_changes:
  assumes "update_row e i l n st p = (ok, q)" "st \<in> {statusActive, statusRunning, statusCompleted}"
  shows "changes p q"
  using update_row_changes [OF assms(2), of p e i l n] assms(1) by simp

lemma updateAfterRun_changes: "changes p (updateAfterRun e s now g p)"
proof (cases "ComputeNextRun (pe_clock e) s now")
  case (Inr nx)
  obtain st stored where a: "after_run s nx = (st, stored)" by fastforce
  obtain ok q where u: "update_row e (sd_Id s) (Some (whole_unix now)) stored st p = (ok, q)" by fastforce
  have "changes p q"
    using update_then_changes [OF u] after_run_status [of s nx] a by simp
  then show ?thesis
    using Inr a u revert_for_retry_changes [of q e "sd_Id s" g]
    by (cases ok) (auto simp: updateAfterRun_def intro: tables_change_trans)
qed (simp add: updateAfterRun_def update_row_changes)

lemma transitionToCompleted_changes: "changes p (transitionToCompleted e s now g p)"
proof -
  obtain ok q where u: "update_row e (sd_Id s) (Some (whole_unix now)) None statusCompleted p = (ok, q)" by fastforce
  then have "changes p q" by (rule update_then_changes) simp
  then show ?thesis
    using u revert_for_retry_changes [of q e "sd_Id s" g]
    by (cases ok) (auto simp: transitionToCompleted_def intro: tables_change_trans)
qed

lemma exec_claim_changes: "changes p (snd (exec_claim e i p))"
  using statement_changes(1) [of "pr_db p" i] by (auto simp: exec_claim_def Let_def split: prod.splits)

lemma exec_step_changes: "changes p (snd (exec_step e x p))"
proof (cases x)
  case (Claimed i g)
  then show ?thesis
    by (auto simp: exec_step_def exec_load_def revert_for_retry_changes transitionToCompleted_changes
        revert_row_changes split: option.splits)
next
  case (Loaded org s now g)
  obtain r q where q: "send_command e s False c ds p = (r c ds, q c ds)" "pr_db (q c ds) = pr_db p" for c ds
    by (simp add: send_command_def)
  show ?thesis
    using revert_for_retry_changes
    by (auto simp: Loaded exec_step_def exec_send_def send_command_def
        intro: tables_change_trans [OF _ revert_for_retry_changes] split: option.splits list.splits)
next
  case (Sent s now g r b)
  then show ?thesis
    using updateAfterRun_changes [of p e s now g] by (simp add: exec_step_def exec_finish_def Let_def)
qed

lemma revertToActive_changes: "changes p (snd (revertToActive e s now p))"
proof (cases "ComputeNextRun (pe_clock e) s now")
  case (Inr nx)
  let ?st = "if nx = None then statusCompleted else statusActive"
  obtain ok q where u: "update_row e (sd_Id s) None (map_option whole_unix nx) ?st p = (ok, q)" by fastforce
  then have "changes p q" by (rule update_then_changes) simp
  then show ?thesis using Inr u by (cases ok) (simp_all add: revertToActive_def Let_def)
qed (simp add: revertToActive_def update_row_changes)

lemma close_window_changes: "changes p (close_window e s p)"
  using revertToActive_changes [of p e s "pe_now e"]
  by (cases "revertToActive e s (pe_now e) p") (simp add: close_window_def split: bool.splits)

lemma end_window_changes: "changes p (end_window e p os)"
  using close_window_changes [of p e "snd os"] close_window_changes [where e = e and s = "snd os"]
  by (auto simp: end_window_def send_command_def split: prod.splits option.splits)
    (metis job_ops_db(5) processor.select_convs(1) processor.surjective processor.update_convs(7))

lemma foldl_changes:
  assumes "\<And>p x. changes p (f p x)"
  shows "changes p (foldl f p xs)"
  using assms by (induction xs arbitrary: p) (auto intro: tables_change_trans)

lemma checkEndOfWindow_changes: "changes p (checkEndOfWindow e p)"
  by (simp add: checkEndOfWindow_def foldl_changes end_window_changes)

lemma recover_loop_changes: "changes p (snd (recover_loop e ss p))"
proof (induction ss arbitrary: p)
  case (Cons s ss)
  obtain ok q where r: "revert_row e (sd_Id s) p = (ok, q)" by fastforce
  then have "changes p q" using revert_row_changes [of p e "sd_Id s"] by simp
  then show ?case
    using Cons.IH [of p] Cons.IH [of q] r by (cases ok) (auto intro: tables_change_trans)
qed simp

lemma recover_changes: "changes p (snd (recoverStaleRunning e p))"
  by (simp add: recoverStaleRunning_def recover_loop_changes)

lemma fire_changes: "changes (fst sys) (fst (fire e h sys))"
proof (cases sys)
  case (Pair p xs)
  let ?q = "p\<lparr>pr_timers := filter (\<lambda>(k, _). k \<noteq> h) (pr_timers p)\<rparr>"
  have "changes p (snd (exec_claim e i ?q))" for i
    using exec_claim_changes [of ?q e i] by simp
  then show ?thesis
    by (auto simp: Pair fire_def split: option.splits prod.splits) (metis snd_conv)+
qed

lemma proceed_changes: "changes (fst sys) (fst (proceed e n sys))"
proof (cases sys)
  case (Pair p xs)
  have "changes p (snd (exec_step e (xs ! n) p))" by (rule exec_step_changes)
  then show ?thesis
    by (cases "exec_step e (xs ! n) p") (auto simp: Pair proceed_def split: option.splits)
qed

lemma processor_op_changes:
  assumes "processor_op op"
  shows "changes (fst sys) (fst (schedule_step op sys))"
proof (cases sys)
  case (Pair p xs)
  then show ?thesis
    using assms fire_changes [of sys] proceed_changes [of sys]
    by (cases op) (auto simp: processor_op_def checkEndOfWindow_changes recover_changes)
qed

definition run_schedule :: "schedule_op list \<Rightarrow> schedule_system \<Rightarrow> schedule_system" where
  "run_schedule ops sys = foldl (\<lambda>s op. schedule_step op s) sys ops"

text \<open>
  C22. The processor never overrides an operator: however its jobs, executions, window checks and
  recoveries interleave and whatever fails, a schedule that is paused, completed or deleted stays as it
  is, and of any other schedule only the status and the times of its runs change; the targets do not.
\<close>

theorem processor_respects_operators:
  "tables_change (pr_db (fst sys)) (pr_db (fst (run_schedule (filter processor_op ops) sys)))"
proof (induction ops arbitrary: sys)
  case (Cons op ops)
  show ?case
  proof (cases "processor_op op")
    case True
    have "tables_change (pr_db (fst (schedule_step op sys)))
        (pr_db (fst (run_schedule (filter processor_op ops) (schedule_step op sys))))"
      by (rule Cons.IH)
    with processor_op_changes [OF True] show ?thesis
      by (simp add: True run_schedule_def) (rule tables_change_trans)
  next
    case False
    then show ?thesis using Cons.IH [of sys] by simp
  qed
qed (simp add: run_schedule_def)

end
