(* ===== verification/Schedule_Outcomes.thy ===== *)
theory Schedule_Outcomes
  imports Schedule_Safety
begin

text \<open>
  What the operations on schedules achieve: the tables stay sound, a new order of priorities is taken as it
  was submitted, a run of a schedule on its own, and the two windows of time in which a request of an
  operator or a run is lost.
\<close>

section \<open>Sound tables\<close>

abbreviation "known_statuses \<equiv> {statusActive, statusPaused, statusRunning, statusCompleted}"

definition sound_row :: "int \<Rightarrow> schedule_row \<Rightarrow> bool" where
  "sound_row n r \<longleftrightarrow>
     0 < sr_ID r \<and> sr_ID r < n \<and> sr_Status r \<in> known_statuses \<and>
     (\<not> sr_Deleted r \<longrightarrow> 0 < sr_Priority r \<and> sr_Priority r < n)"

definition schedule_tables :: "schedule_db \<Rightarrow> bool" where
  "schedule_tables db \<longleftrightarrow>
     0 < db_nextID db \<and> distinct (map sr_ID (db_schedules db)) \<and>
     (\<forall>r \<in> set (db_schedules db). sound_row (db_nextID db) r) \<and>
     (\<forall>org. distinct (map sr_Priority (filter (live_in org) (db_schedules db)))) \<and>
     distinct (db_targets db)"

definition live_ids :: "int \<Rightarrow> schedule_db \<Rightarrow> int list" where
  "live_ids org db = map sr_ID (filter (live_in org) (db_schedules db))"

lemma live_ids_distinct: "schedule_tables db \<Longrightarrow> distinct (live_ids org db)"
  by (auto simp: schedule_tables_def live_ids_def distinct_map intro: inj_on_subset)

lemma same_row:
  "schedule_tables db \<Longrightarrow> r \<in> set (db_schedules db) \<Longrightarrow> q \<in> set (db_schedules db) \<Longrightarrow> sr_ID r = sr_ID q \<Longrightarrow> r = q"
  by (auto simp: schedule_tables_def distinct_map dest: inj_onD)

lemma same_priority:
  "schedule_tables db \<Longrightarrow> r \<in> set (db_schedules db) \<Longrightarrow> q \<in> set (db_schedules db) \<Longrightarrow>
   live_in org r \<Longrightarrow> live_in org q \<Longrightarrow> sr_Priority r = sr_Priority q \<Longrightarrow> r = q"
  by (auto simp: schedule_tables_def distinct_map dest: inj_onD)

lemma live_ids_fit: "schedule_tables db \<Longrightarrow> int (length (live_ids org db)) < db_nextID db"
proof -
  assume w: "schedule_tables db"
  then have "set (live_ids org db) \<subseteq> {1..<db_nextID db}"
    by (fastforce simp: schedule_tables_def live_ids_def sound_row_def)
  then have "card (set (live_ids org db)) \<le> card {1..<db_nextID db}" by (intro card_mono) auto
  then have "length (live_ids org db) \<le> nat (db_nextID db - 1)"
    using live_ids_distinct [OF w, of org] by (simp add: distinct_card)
  moreover have "0 < db_nextID db" using w by (simp add: schedule_tables_def)
  ultimately show ?thesis by linarith
qed

section \<open>A new order of priorities\<close>

lemma index_of_Some: "index_of x xs = Some n \<Longrightarrow> n < length xs \<and> xs ! n = x"
  by (induction xs arbitrary: n) (auto split: if_splits)

lemma index_of_nth: "distinct xs \<Longrightarrow> n < length xs \<Longrightarrow> index_of (xs ! n) xs = Some n"
  by (induction xs arbitrary: n) (auto simp: nth_Cons' gr0_conv_Suc split: if_splits)

lemma index_of_member: "x \<in> set xs \<Longrightarrow> \<exists>n. index_of x xs = Some n"
  by (induction xs) auto

lemma ordinality_bounds:
  "ordinality ids i = Some p \<Longrightarrow> 0 < p \<and> p \<le> int (length ids) \<and> ids ! nat (p - 1) = i"
  by (auto simp: ordinality_def dest!: index_of_Some)

lemma ordinality_inj: "ordinality ids i = Some p \<Longrightarrow> ordinality ids j = Some p \<Longrightarrow> i = j"
  by (auto dest!: ordinality_bounds)

lemma ordinality_member: "i \<in> set ids \<Longrightarrow> \<exists>p. ordinality ids i = Some p"
  using index_of_member [of i ids] by (auto simp: ordinality_def)

definition renumbered :: "int \<Rightarrow> (int \<Rightarrow> int option) \<Rightarrow> schedule_row \<Rightarrow> schedule_row" where
  "renumbered org g r =
     (if live_in org r then (case g (sr_ID r) of None \<Rightarrow> r | Some p \<Rightarrow> r\<lparr>sr_Priority := p\<rparr>) else r)"

lemma renumbered_fields [simp]:
  "sr_ID (renumbered org g r) = sr_ID r" "sr_OrgID (renumbered org g r) = sr_OrgID r"
  "sr_Deleted (renumbered org g r) = sr_Deleted r" "sr_Status (renumbered org g r) = sr_Status r"
  by (auto simp: renumbered_def split: option.splits)

lemma renumbered_priority:
  "live_in org r \<Longrightarrow> g (sr_ID r) = Some p \<Longrightarrow> sr_Priority (renumbered org g r) = p"
  "\<not> live_in org r \<Longrightarrow> renumbered org g r = r"
  by (auto simp: renumbered_def)

lemma set_priorities_eq:
  "set_priorities org g db =
     (if priority_clash org g (db_schedules db) then None
      else Some (db\<lparr>db_schedules := map (renumbered org g) (db_schedules db)\<rparr>))"
  by (simp add: set_priorities_def renumbered_def [abs_def])

lemma no_clash:
  assumes "\<And>r q p. r \<in> set rows \<Longrightarrow> q \<in> set rows \<Longrightarrow> live_in org r \<Longrightarrow> live_in org q \<Longrightarrow> sr_ID q \<noteq> sr_ID r \<Longrightarrow>
    g (sr_ID r) = Some p \<Longrightarrow> sr_Priority q \<noteq> p \<and> g (sr_ID q) \<noteq> Some p"
  shows "\<not> priority_clash org g rows"
proof
  assume "priority_clash org g rows"
  then obtain r where r: "r \<in> set rows" "live_in org r"
      "case g (sr_ID r) of None \<Rightarrow> False
       | Some p \<Rightarrow> list_ex (\<lambda>q. live_in org q \<and> sr_ID q \<noteq> sr_ID r \<and> (sr_Priority q = p \<or> g (sr_ID q) = Some p)) rows"
    unfolding priority_clash_def list_ex_iff by blast
  then obtain p q where "g (sr_ID r) = Some p" "q \<in> set rows" "live_in org q" "sr_ID q \<noteq> sr_ID r"
      "sr_Priority q = p \<or> g (sr_ID q) = Some p"
    by (auto simp: list_ex_iff split: option.splits)
  with assms [OF r(1) _ r(2)] show False by blast
qed

text \<open>The two updates: to distinct negative numbers, which no row has, and from them to the positions.\<close>

lemma reorder_succeeds:
  assumes w: "schedule_tables db" and ids: "set ids = set (live_ids org db)"
  shows "store_ReorderSchedules org ids db =
    Inr (db\<lparr>db_schedules := map (renumbered org (ordinality ids)) (db_schedules db)\<rparr>)"
proof -
  let ?neg = "\<lambda>i. map_option uminus (ordinality ids i)"
  have pos: "0 < sr_Priority q" if "q \<in> set (db_schedules db)" "live_in org q" for q
    using w that by (auto simp: schedule_tables_def sound_row_def)
  have "\<not> priority_clash org ?neg (db_schedules db)"
  proof (rule no_clash)
    fix r q p
    assume q: "q \<in> set (db_schedules db)" "live_in org q" "sr_ID q \<noteq> sr_ID r"
      and "?neg (sr_ID r) = Some p"
    then obtain k where k: "ordinality ids (sr_ID r) = Some k" "p = - k" by auto
    have "sr_Priority q \<noteq> p" using pos [OF q(1,2)] ordinality_bounds [OF k(1)] k(2) by linarith
    moreover have "ordinality ids (sr_ID q) \<noteq> Some k" using ordinality_inj [OF k(1)] q(3) by metis
    ultimately show "sr_Priority q \<noteq> p \<and> ?neg (sr_ID q) \<noteq> Some p" using k(2) by simp
  qed
  then have first: "set_priorities org ?neg db =
      Some (db\<lparr>db_schedules := map (renumbered org ?neg) (db_schedules db)\<rparr>)"
    by (simp add: set_priorities_eq)
  have neg: "sr_Priority (renumbered org ?neg q) < 0" if q: "q \<in> set (db_schedules db)" "live_in org q" for q
  proof -
    have "sr_ID q \<in> set ids" using q by (auto simp: ids live_ids_def)
    then obtain p where "ordinality ids (sr_ID q) = Some p" using ordinality_member by blast
    then show ?thesis using q ordinality_bounds [of ids "sr_ID q" p] by (auto simp: renumbered_def)
  qed
  have "\<not> priority_clash org (ordinality ids) (map (renumbered org ?neg) (db_schedules db))"
  proof (rule no_clash)
    fix r q p
    assume r: "ordinality ids (sr_ID r) = Some p" and n: "sr_ID q \<noteq> sr_ID r"
      and m: "q \<in> set (map (renumbered org ?neg) (db_schedules db))" "live_in org q"
    then obtain q' where "q' \<in> set (db_schedules db)" "live_in org q'" "q = renumbered org ?neg q'" by auto
    then show "sr_Priority q \<noteq> p \<and> ordinality ids (sr_ID q) \<noteq> Some p"
      using neg ordinality_bounds [OF r] ordinality_inj [OF r] n by force
  qed
  then have "set_priorities org (ordinality ids)
      (db\<lparr>db_schedules := map (renumbered org ?neg) (db_schedules db)\<rparr>) =
      Some (db\<lparr>db_schedules := map (renumbered org (ordinality ids)) (db_schedules db)\<rparr>)"
    by (auto simp: set_priorities_eq renumbered_def split: option.splits)
  with first show ?thesis by (simp add: store_ReorderSchedules_def)
qed

lemma sorted_by_priority: "sorted (map sr_Priority (ordered_rows P db))"
proof -
  have "sorted_wrt (\<lambda>a b. \<not> row_before b a) (ordered_rows P db)"
    unfolding ordered_rows_def by (rule row_order.sorted_stable_sort) simp
  then show ?thesis
    by (auto simp: sorted_map row_before_def elim!: sorted_wrt_mono_rel [rotated])
qed

lemma ordered_rows_mset: "mset (ordered_rows P db) = mset (filter P (db_schedules db))"
  by (simp add: ordered_rows_def)

lemma ordered_rows_set [simp]: "set (ordered_rows P db) = {r \<in> set (db_schedules db). P r}"
  by (auto simp: ordered_rows_def)

text \<open>Afterwards the rows of the organization are listed in the order of the identifiers.\<close>

lemma reorder_lists:
  assumes w: "schedule_tables db" and d: "distinct ids" and ids: "set ids = set (live_ids org db)"
  shows "map sr_ID (ordered_rows (live_in org)
    (db\<lparr>db_schedules := map (renumbered org (ordinality ids)) (db_schedules db)\<rparr>)) = ids"
proof -
  let ?db = "db\<lparr>db_schedules := map (renumbered org (ordinality ids)) (db_schedules db)\<rparr>"
  let ?L = "ordered_rows (live_in org) ?db"
  have at': "\<exists>n. sr_Priority r = int n + 1 \<and> n < length ids \<and> ids ! n = sr_ID r" if r: "r \<in> set ?L" for r
  proof -
    obtain q where q: "q \<in> set (db_schedules db)" "live_in org q" "r = renumbered org (ordinality ids) q"
      using r by auto
    have "sr_ID q \<in> set ids" using q by (auto simp: ids live_ids_def)
    then obtain n where "index_of (sr_ID q) ids = Some n" using index_of_member by fast
    with q show ?thesis by (auto simp: renumbered_def ordinality_def dest: index_of_Some)
  qed
  have mid: "mset (map sr_ID ?L) = mset ids"
  proof -
    have "mset (map sr_ID ?L) = image_mset sr_ID (mset (filter (live_in org) (db_schedules ?db)))"
      by (simp add: ordered_rows_mset)
    also have "\<dots> = mset (live_ids org db)"
      by (simp only: live_ids_def mset_map [symmetric]) (simp add: filter_map o_def)
    also have "\<dots> = mset ids"
      using d ids live_ids_distinct [OF w] by (metis set_eq_iff_mset_eq_distinct)
    finally show ?thesis .
  qed
  have len: "length ?L = length ids" using mset_eq_length [OF mid] by (simp only: length_map)
  have dist: "distinct (map sr_ID ?L)" using mset_eq_imp_distinct_iff [OF mid] d by (simp only:)
  have inj: "distinct (map sr_Priority ?L)"
  proof -
    have "inj_on sr_Priority (set ?L)"
    proof (rule inj_onI)
      fix r q assume "r \<in> set ?L" "q \<in> set ?L" "sr_Priority r = sr_Priority q"
      then have "sr_ID r = sr_ID q" using at' [of r] at' [of q] by auto
      then show "r = q" using dist \<open>r \<in> set ?L\<close> \<open>q \<in> set ?L\<close> by (auto simp: distinct_map dest: inj_onD)
    qed
    then show ?thesis using dist by (simp add: distinct_map)
  qed
  have "set (map sr_Priority ?L) \<subseteq> {1..int (length ids)}"
  proof
    fix x assume "x \<in> set (map sr_Priority ?L)"
    then obtain r where "r \<in> set ?L" "x = sr_Priority r" by (auto simp del: ordered_rows_set)
    then show "x \<in> {1..int (length ids)}" using at' [of r] by auto
  qed
  moreover have "card (set (map sr_Priority ?L)) = card {1..int (length ids)}"
    unfolding distinct_card [OF inj] by (simp only: length_map len card_atLeastAtMost_int)
  ultimately have "set (map sr_Priority ?L) = {1..int (length ids)}" by (intro card_subset_eq) auto
  then have ps: "map sr_Priority ?L = [1..int (length ids)]"
    using sorted_by_priority [of "live_in org" ?db] inj by (intro sorted_distinct_set_unique) auto
  show ?thesis
  proof (rule nth_equalityI)
    fix k assume k: "k < length (map sr_ID ?L)"
    then have "map sr_Priority ?L ! k = 1 + int k" unfolding ps using len by (intro nth_upto) simp
    then have "sr_Priority (?L ! k) = int k + 1" using k by simp
    moreover have "?L ! k \<in> set ?L" using k by (intro nth_mem) simp
    ultimately show "map sr_ID ?L ! k = ids ! k" using at' [of "?L ! k"] k by (auto simp del: ordered_rows_set)
  qed (simp add: len)
qed

section \<open>Soundness is kept\<close>

text \<open>A change of a row that keeps its keys and does not bring it back to life.\<close>

definition row_keeps :: "schedule_row \<Rightarrow> schedule_row \<Rightarrow> bool" where
  "row_keeps r r' \<longleftrightarrow>
     sr_ID r' = sr_ID r \<and> sr_OrgID r' = sr_OrgID r \<and> sr_Priority r' = sr_Priority r \<and>
     (sr_Deleted r \<longrightarrow> sr_Deleted r') \<and> (sr_Status r \<in> known_statuses \<longrightarrow> sr_Status r' \<in> known_statuses)"

lemma rows_keep_priorities:
  assumes "list_all2 row_keeps rs rs'"
  shows "set (map sr_Priority (filter (live_in org) rs')) \<subseteq> set (map sr_Priority (filter (live_in org) rs)) \<and>
    (distinct (map sr_Priority (filter (live_in org) rs)) \<longrightarrow> distinct (map sr_Priority (filter (live_in org) rs')))"
  using assms
proof (induction rs rs' rule: list_all2_induct)
  case (Cons r rs r' rs')
  moreover have "live_in org r' \<Longrightarrow> live_in org r" "sr_Priority r' = sr_Priority r"
    using Cons.hyps by (auto simp: row_keeps_def)
  ultimately show ?case by auto
qed simp

lemma rows_keep_ids: "list_all2 row_keeps rs rs' \<Longrightarrow> map sr_ID rs' = map sr_ID rs"
  by (induction rs rs' rule: list_all2_induct) (auto simp: row_keeps_def)

lemma row_keeps_sound: "row_keeps r r' \<Longrightarrow> sound_row n r \<Longrightarrow> sound_row n r'"
  unfolding row_keeps_def sound_row_def by metis

lemma rows_keep_sound:
  "list_all2 row_keeps rs rs' \<Longrightarrow> \<forall>r \<in> set rs. sound_row n r \<Longrightarrow> \<forall>r \<in> set rs'. sound_row n r"
  by (induction rs rs' rule: list_all2_induct) (simp_all add: row_keeps_sound)

lemma tables_keep:
  assumes w: "schedule_tables db" and k: "list_all2 row_keeps (db_schedules db) (db_schedules db')"
    and "db_targets db' = db_targets db" "db_nextID db' = db_nextID db"
  shows "schedule_tables db'"
proof -
  have "\<forall>r \<in> set (db_schedules db'). sound_row (db_nextID db) r"
    using w by (intro rows_keep_sound [OF k]) (simp add: schedule_tables_def)
  moreover have "distinct (map sr_Priority (filter (live_in org) (db_schedules db')))" for org
    using w rows_keep_priorities [OF k, of org] by (simp add: schedule_tables_def)
  moreover have "distinct (map sr_ID (db_schedules db'))"
    using w by (simp only: rows_keep_ids [OF k] schedule_tables_def)
  ultimately show ?thesis using w assms(3,4) by (simp add: schedule_tables_def)
qed

lemma update_keeps:
  assumes "schedule_tables db" "\<And>r. P r \<Longrightarrow> row_keeps r (f r)"
  shows "schedule_tables (snd (update_schedules P f db))"
proof (rule tables_keep [OF assms(1)])
  show "list_all2 row_keeps (db_schedules db) (db_schedules (snd (update_schedules P f db)))"
    using assms(2) by (auto simp: update_schedules_def list_all2_map2 row_keeps_def intro!: list.rel_refl_strong)
qed (simp_all add: update_schedules_def)

lemma change_keeps: "tables_change db db' \<Longrightarrow> schedule_tables db \<Longrightarrow> schedule_tables db'"
proof -
  assume c: "tables_change db db'" and w: "schedule_tables db"
  have "row_keeps r r'" if "processor_change r r'" for r r'
    using that unfolding processor_change_def row_keeps_def
    by (elim disjE conjE) (simp, (erule ssubst, auto simp: open_row_def)+)
  with c show ?thesis
    by (auto simp: tables_change_def elim: list_all2_mono intro!: tables_keep [OF w])
qed

lemma reorder_keeps:
  assumes w: "schedule_tables db" and ids: "set ids = set (live_ids org db)" "distinct ids"
  shows "schedule_tables (db\<lparr>db_schedules := map (renumbered org (ordinality ids)) (db_schedules db)\<rparr>)"
    (is "schedule_tables ?db")
proof -
  have fit: "int (length ids) < db_nextID db"
    using live_ids_fit [OF w, of org] live_ids_distinct [OF w, of org] ids by (metis distinct_card)
  have ord: "\<exists>p. ordinality ids (sr_ID r) = Some p" if "r \<in> set (db_schedules db)" "live_in org r" for r
    using that ids(1) by (intro ordinality_member) (auto simp: live_ids_def)
  have "sound_row (db_nextID db) (renumbered org (ordinality ids) r)" if r: "r \<in> set (db_schedules db)" for r
  proof (cases "live_in org r")
    case True
    then obtain p where p: "ordinality ids (sr_ID r) = Some p" using ord [OF r] by blast
    show ?thesis
      using w r True fit ordinality_bounds [OF p] by (auto simp: schedule_tables_def sound_row_def renumbered_def p)
  next
    case False
    then show ?thesis using w r by (simp add: schedule_tables_def renumbered_priority(2))
  qed
  moreover have "distinct (map sr_Priority (filter (live_in o') (db_schedules ?db)))" for o'
  proof -
    have eq: "filter (live_in o') (db_schedules ?db) =
        map (renumbered org (ordinality ids)) (filter (live_in o') (db_schedules db))"
      by (simp add: filter_map o_def)
    show ?thesis
    proof (cases "o' = org")
      case True
      have "inj_on (\<lambda>r. sr_Priority (renumbered org (ordinality ids) r)) (set (filter (live_in org) (db_schedules db)))"
      proof (rule inj_onI)
        fix r q
        assume m: "r \<in> set (filter (live_in org) (db_schedules db))" "q \<in> set (filter (live_in org) (db_schedules db))"
          and e: "sr_Priority (renumbered org (ordinality ids) r) = sr_Priority (renumbered org (ordinality ids) q)"
        then obtain a b where "ordinality ids (sr_ID r) = Some a" "ordinality ids (sr_ID q) = Some b"
          using ord by fastforce
        then have "sr_ID r = sr_ID q" using m e by (auto simp: renumbered_def intro: ordinality_inj)
        then show "r = q" using same_row [OF w] m by auto
      qed
      moreover have "distinct (filter (live_in org) (db_schedules db))"
        using w by (auto simp: schedule_tables_def distinct_map)
      ultimately have "distinct (map (\<lambda>r. sr_Priority (renumbered org (ordinality ids) r))
          (filter (live_in org) (db_schedules db)))"
        by (simp add: distinct_map)
      then show ?thesis by (simp only: True eq [unfolded True] map_map comp_def)
    next
      case False
      then have "map (renumbered org (ordinality ids)) (filter (live_in o') (db_schedules db)) =
          filter (live_in o') (db_schedules db)"
        by (auto simp: renumbered_def intro!: map_idI)
      then show ?thesis using w unfolding eq by (simp add: schedule_tables_def)
    qed
  qed
  ultimately show ?thesis using w by (auto simp: schedule_tables_def o_def)
qed

text \<open>The new list of identifiers is a rearrangement of the live ones, in both callers.\<close>

lemma statuses_ids: "map fst (ListScheduleIDStatuses org db) = map sr_ID (ordered_rows (live_in org) db)"
  by (simp add: ListScheduleIDStatuses_def)

lemma statuses_set: "fst ` set (ListScheduleIDStatuses org db) = set (live_ids org db)"
  by (simp add: ListScheduleIDStatuses_def live_ids_def image_image)

lemma statuses_distinct: "schedule_tables db \<Longrightarrow> distinct (map fst (ListScheduleIDStatuses org db))"
proof -
  assume w: "schedule_tables db"
  have "mset (map sr_ID (ordered_rows (live_in org) db)) = mset (live_ids org db)"
    by (simp add: live_ids_def ordered_rows_mset)
  then show ?thesis
    unfolding statuses_ids using live_ids_distinct [OF w] by (metis mset_eq_imp_distinct_iff)
qed

lemma status_of_id:
  "schedule_tables db \<Longrightarrow> map_of (ListScheduleIDStatuses org db) i = Some st \<longleftrightarrow>
     (\<exists>r \<in> set (db_schedules db). live_in org r \<and> sr_ID r = i \<and> sr_Status r = st)"
  using statuses_distinct [of db org] by (auto simp: map_of_eq_Some_iff) (auto simp: ListScheduleIDStatuses_def)

lemma completed_last_perm:
  "set (completed_last xs) = fst ` set xs" "distinct (map fst xs) \<Longrightarrow> distinct (completed_last xs)"
proof -
  show "set (completed_last xs) = fst ` set xs" by (force simp: completed_last_def)
  have p: "mset (completed_last xs) = mset (map fst xs)"
    by (induction xs) (auto simp: completed_last_def)
  show "distinct (map fst xs) \<Longrightarrow> distinct (completed_last xs)"
    using mset_eq_imp_distinct_iff [OF p] by simp
qed

lemma normalize_keeps:
  assumes "schedule_tables db" "normalizeSchedulePriorities org db = Inr db'"
  shows "schedule_tables db' \<and> db_nextID db' = db_nextID db"
proof -
  let ?o = "completed_last (ListScheduleIDStatuses org db)"
  have o: "set ?o = set (live_ids org db)" "distinct ?o"
    by (simp_all add: completed_last_perm statuses_set statuses_distinct assms(1))
  show ?thesis
    using assms reorder_succeeds [OF assms(1) o(1)] reorder_keeps [OF assms(1) o]
    by (auto simp: normalizeSchedulePriorities_def Let_def split: if_splits)
qed

lemma targets_keep:
  assumes "schedule_tables db" "distinct ts"
  shows "schedule_tables (db\<lparr>db_targets := ts\<rparr>)"
  using assms by (simp add: schedule_tables_def)

lemma create_target_result:
  assumes "store_CreateScheduleTarget org i t x db = Inr db'"
  shows "\<exists>ts. db' = db\<lparr>db_targets := ts\<rparr> \<and> (distinct (db_targets db) \<longrightarrow> distinct ts)"
proof (cases "find_schedule org i db = None")
  case True
  then have "db' = db\<lparr>db_targets := db_targets db\<rparr>" using assms by (simp add: store_CreateScheduleTarget_def)
  then show ?thesis by blast
next
  case False
  let ?x = "\<lparr>sx_ScheduleID = i, sx_TargetType = t, sx_TargetID = x\<rparr>"
  have "?x \<notin> set (db_targets db)" "db' = db\<lparr>db_targets := db_targets db @ [?x]\<rparr>"
    using assms False by (auto simp: store_CreateScheduleTarget_def Let_def split: if_splits)
  then show ?thesis by (intro exI [of _ "db_targets db @ [?x]"]) simp
qed

lemma create_targets_result:
  assumes "create_targets org i ts db = Inr db'"
  shows "\<exists>us. db' = db\<lparr>db_targets := us\<rparr> \<and> (distinct (db_targets db) \<longrightarrow> distinct us)"
  using assms
proof (induction org i ts db rule: create_targets.induct)
  case (1 org i db)
  then show ?case by (intro exI [of _ "db_targets db"]) simp
next
  case (3 org i t ts db)
  then obtain db1 where c: "store_CreateScheduleTarget org i (scheduleTargetTypeToString (tg_TargetType t))
      (strings_TrimSpace (tg_TargetId t)) db = Inr db1" and r: "create_targets org i ts db1 = Inr db'"
    by (auto split: sum.splits)
  show ?case using "3.IH" [OF c r] create_target_result [OF c] by auto
qed simp

lemma create_targets_keep:
  assumes "schedule_tables db" "create_targets org i ts db = Inr db'"
  shows "schedule_tables db' \<and> db_nextID db' = db_nextID db"
proof -
  obtain us where "db' = db\<lparr>db_targets := us\<rparr>" "distinct us"
    using create_targets_result [OF assms(2)] assms(1) by (auto simp: schedule_tables_def)
  then show ?thesis using targets_keep [OF assms(1)] by simp
qed

lemma delete_targets_keep: "schedule_tables db \<Longrightarrow> schedule_tables (DeleteScheduleTargets org i db)"
  by (auto simp: DeleteScheduleTargets_def intro!: targets_keep) (simp add: schedule_tables_def)

lemma delete_targets_id [simp]: "db_nextID (DeleteScheduleTargets org i db) = db_nextID db"
  by (simp add: DeleteScheduleTargets_def)

lemma foldl_max:
  "(\<forall>x \<in> set ps. x \<le> foldl max p ps) \<and> p \<le> foldl max p (ps::int list) \<and> foldl max p ps \<in> insert p (set ps)"
proof (induction ps arbitrary: p)
  case (Cons a ps)
  have "foldl max (max p a) ps \<in> insert p (insert a (set ps))"
    using Cons.IH [of "max p a"] by (cases "p \<le> a") auto
  then show ?case using Cons.IH [of "max p a"] by simp
qed simp

lemma max_priority:
  assumes w: "schedule_tables db"
  shows "0 \<le> GetMaxPriority org db \<and> GetMaxPriority org db < db_nextID db \<and>
    (\<forall>r \<in> set (db_schedules db). live_in org r \<longrightarrow> sr_Priority r \<le> GetMaxPriority org db)"
proof -
  let ?ps = "map sr_Priority (filter (live_in org) (db_schedules db))"
  have b: "0 < x \<and> x < db_nextID db" if "x \<in> set ?ps" for x
    using that w by (auto simp: schedule_tables_def sound_row_def)
  have m: "sr_Priority r \<in> set ?ps" if "r \<in> set (db_schedules db)" "live_in org r" for r
    using that by auto
  show ?thesis
  proof (cases ?ps)
    case Nil
    have "0 < db_nextID db" using w by (simp add: schedule_tables_def)
    moreover have "\<not> (r \<in> set (db_schedules db) \<and> live_in org r)" for r using m [of r] Nil by auto
    ultimately show ?thesis using Nil by (auto simp: GetMaxPriority_def)
  next
    case (Cons p ps)
    have "GetMaxPriority org db = foldl max p ps" by (simp add: GetMaxPriority_def Cons)
    moreover have "sr_Priority r \<le> foldl max p ps" if "r \<in> set (db_schedules db)" "live_in org r" for r
      using m [OF that] foldl_max [of ps p] unfolding Cons by auto
    moreover have "foldl max p ps \<in> set ?ps" using foldl_max [of ps p] unfolding Cons by simp
    ultimately show ?thesis using b [of "foldl max p ps"] by (auto intro: less_imp_le)
  qed
qed

lemma columns_keys:
  assumes "schedule_columns s r = Inr c"
  shows "sr_ID c = sr_ID r" "sr_OrgID c = sr_OrgID r" "sr_Status c = sr_Status r" "sr_Deleted c = sr_Deleted r"
  using assms by (auto simp: schedule_columns_def split: option.splits)

lemma create_row_keeps:
  assumes w: "schedule_tables db"
    and c: "store_CreateSchedule org (s\<lparr>sd_Priority := wrap32 (GetMaxPriority org db + 1)\<rparr>) db = Inr (i, db')"
    and n: "db_nextID db' \<le> 2 ^ 31"
  shows "schedule_tables db' \<and> i = db_nextID db \<and> db_nextID db' = db_nextID db + 1"
proof -
  let ?m = "GetMaxPriority org db"
  let ?s = "s\<lparr>sd_Priority := wrap32 (?m + 1)\<rparr>"
  have cases: "\<exists>q. schedule_columns ?s (blank_row org (db_nextID db)) = Inr q \<and> i = db_nextID db \<and>
      db' = db\<lparr>db_schedules := db_schedules db @ [q\<lparr>sr_Priority := wrap32 (?m + 1), sr_CreatedBy := sd_CreatedBy s\<rparr>],
        db_nextID := db_nextID db + 1\<rparr>"
    using c by (auto simp: store_CreateSchedule_def split: sum.splits if_splits)
  then obtain q where q: "schedule_columns ?s (blank_row org (db_nextID db)) = Inr q" and i: "i = db_nextID db"
    and db': "db' = db\<lparr>db_schedules := db_schedules db @ [q\<lparr>sr_Priority := wrap32 (?m + 1), sr_CreatedBy := sd_CreatedBy s\<rparr>],
        db_nextID := db_nextID db + 1\<rparr>" by blast
  note m = max_priority [OF w, of org]
  have p: "wrap32 (?m + 1) = ?m + 1" using m n db' by (intro wrap32_id) auto
  let ?r = "q\<lparr>sr_Priority := ?m + 1, sr_CreatedBy := sd_CreatedBy s\<rparr>"
  have r: "sr_ID ?r = db_nextID db" "sr_OrgID ?r = org" "sr_Status ?r = statusActive" "\<not> sr_Deleted ?r"
    using columns_keys [OF q] by (simp_all add: blank_row_def)
  have old: "sound_row (db_nextID db + 1) x" if "x \<in> set (db_schedules db)" for x
    using w that unfolding schedule_tables_def sound_row_def by force
  have new: "sound_row (db_nextID db + 1) ?r"
    using r m w by (simp add: sound_row_def schedule_tables_def)
  have "db_nextID db \<notin> sr_ID ` set (db_schedules db)"
    using w by (fastforce simp: schedule_tables_def sound_row_def)
  moreover have "?m + 1 \<notin> sr_Priority ` set (filter (live_in org) (db_schedules db))"
    using m by fastforce
  ultimately have "schedule_tables db'"
    using w old new r unfolding db' p schedule_tables_def
    by (auto simp del: set_filter)
  then show ?thesis using i db' by simp
qed

lemma fetched_same: "fetched org i db = Inr (s, db') \<Longrightarrow> db' = db"
  by (auto simp: fetched_def split: sum.splits)

lemma reorder_ids: "store_ReorderSchedules org ids db = Inr db' \<Longrightarrow> db_nextID db' = db_nextID db"
  by (auto simp: store_ReorderSchedules_def set_priorities_eq split: if_splits option.splits)

lemma normalize_ids: "normalizeSchedulePriorities org db = Inr db' \<Longrightarrow> db_nextID db' = db_nextID db"
  by (auto simp: normalizeSchedulePriorities_def Let_def reorder_ids split: if_splits)

lemma create_parts:
  assumes "svc_CreateSchedule e org user now q db = Inr (s, db')"
  obtains s0 i db1 db2 where
    "store_CreateSchedule org (s0\<lparr>sd_Priority := wrap32 (GetMaxPriority org db + 1)\<rparr>) db = Inr (i, db1)"
    "create_targets org i (rq_Targets q) db1 = Inr db2" "normalizeSchedulePriorities org db2 = Inr db'"
    "db_nextID db1 = db_nextID db + 1" "db_nextID db' = db_nextID db1"
proof -
  obtain s0 i db1 db2 where
    1: "store_CreateSchedule org (s0\<lparr>sd_Priority := wrap32 (GetMaxPriority org db + 1)\<rparr>) db = Inr (i, db1)"
    and 2: "create_targets org i (rq_Targets q) db1 = Inr db2"
    and 3: "normalizeSchedulePriorities org db2 = Inr db'"
    using assms by (auto simp: svc_CreateSchedule_def split: sum.splits dest!: fetched_same)
  have "db_nextID db1 = db_nextID db + 1" using 1 by (auto simp: store_CreateSchedule_def split: sum.splits if_splits)
  moreover have "db_nextID db' = db_nextID db1"
    using create_targets_result [OF 2] normalize_ids [OF 3] by auto
  ultimately show ?thesis using that 1 2 3 by blast
qed

lemma create_keeps:
  assumes w: "schedule_tables db" and c: "svc_CreateSchedule e org user now q db = Inr (s, db')"
    and n: "db_nextID db' \<le> 2 ^ 31"
  shows "schedule_tables db'"
  using c
proof (rule create_parts)
  fix s0 i db1 db2
  assume 1: "store_CreateSchedule org (s0\<lparr>sd_Priority := wrap32 (GetMaxPriority org db + 1)\<rparr>) db = Inr (i, db1)"
    and 2: "create_targets org i (rq_Targets q) db1 = Inr db2"
    and 3: "normalizeSchedulePriorities org db2 = Inr db'" and ids: "db_nextID db' = db_nextID db1"
  have "schedule_tables db1" using create_row_keeps [OF w 1] n ids by simp
  then have "schedule_tables db2" using create_targets_keep [OF _ 2] by simp
  then show ?thesis using normalize_keeps [OF _ 3] by simp
qed

lemma update_schedule_keeps:
  assumes w: "schedule_tables db" and u: "store_UpdateSchedule org s db = Inr (n, db')"
  shows "schedule_tables db' \<and> db_nextID db' = db_nextID db"
proof -
  obtain c where c: "schedule_columns s (blank_row org (sd_Id s)) = Inr c" and
    d: "(n, db') = update_schedules (\<lambda>r. live_in org r \<and> sr_ID r = sd_Id s \<and> sr_Status r \<noteq> statusRunning)
      (\<lambda>r. c\<lparr>sr_Status := scheduleStatusToString (sd_Status s), sr_Priority := sr_Priority r,
         sr_CreatedBy := sr_CreatedBy r, sr_Deleted := sr_Deleted r, sr_LastRunAt := sr_LastRunAt r\<rparr>) db"
    using u by (auto simp: store_UpdateSchedule_def split: sum.splits)
  have "schedule_tables (snd (n, db'))" unfolding d
    using columns_keys [OF c]
    by (intro update_keeps [OF w]) (auto simp: row_keeps_def blank_row_def scheduleStatusToString_def split: ScheduleStatus.splits)
  then show ?thesis using d by (simp add: update_schedules_def)
qed

lemma update_read_keeps:
  assumes w: "schedule_tables db" and u: "update_read org q s st db = Inr (r, db')"
  shows "schedule_tables db' \<and> db_nextID db' = db_nextID db"
proof -
  let ?st = "if st = StCompleted then StActive else st"
  obtain n db1 where 1: "store_UpdateSchedule org (s\<lparr>sd_Status := ?st\<rparr>) db = Inr (Suc n, db1)"
    and r: "\<exists>db2. create_targets org (rq_ScheduleId q) (rq_Targets q)
        (DeleteScheduleTargets org (rq_ScheduleId q) db1) = Inr db2 \<and>
        (if ?st = StActive then normalizeSchedulePriorities org db2 else Inr db2) = Inr db'"
    using u by (auto simp: update_read_def Let_def split: sum.splits if_splits prod.splits nat.splits dest!: fetched_same)
  then obtain db2 where 2: "create_targets org (rq_ScheduleId q) (rq_Targets q)
        (DeleteScheduleTargets org (rq_ScheduleId q) db1) = Inr db2"
    and 3: "(if ?st = StActive then normalizeSchedulePriorities org db2 else Inr db2) = Inr db'" by blast
  have w1: "schedule_tables db1 \<and> db_nextID db1 = db_nextID db" by (rule update_schedule_keeps [OF w 1])
  have w2: "schedule_tables db2 \<and> db_nextID db2 = db_nextID db"
    using create_targets_keep [OF delete_targets_keep 2] w1 by simp
  show ?thesis
    using 3 w2 normalize_keeps [of db2 org db'] by (cases "?st = StActive") simp_all
qed

lemma resume_keeps:
  assumes w: "schedule_tables db" and u: "svc_ResumeSchedule e org now auth i db = Inr (r, db')"
  shows "schedule_tables db' \<and> db_nextID db' = db_nextID db"
proof -
  obtain x k where g: "GetSchedule org i db = Inr x" "auth (sd_Action x) = None" "ComputeNextRun e x now = Inr k"
    using u by (auto simp: svc_ResumeSchedule_def split: sum.splits option.splits)
  define st where "st = (if k = None then statusCompleted else statusActive)"
  define nx where "nx = map_option (\<lambda>t. unix_of t * second) k"
  obtain n db1 where 1: "ResumePausedSchedule org i st nx db = (n, db1)" by fastforce
  have 2: "(if st = statusCompleted then normalizeSchedulePriorities org db1 else Inr db1) = Inr db'"
    using u g 1 unfolding svc_ResumeSchedule_def Let_def st_def [symmetric] nx_def [symmetric]
    by (auto simp: st_def [symmetric] nx_def [symmetric] split: nat.splits sum.splits dest!: fetched_same)
  have st: "st \<in> {statusActive, statusCompleted}" by (simp add: st_def)
  have "schedule_tables (snd (ResumePausedSchedule org i st nx db))"
    unfolding ResumePausedSchedule_def using st by (intro update_keeps [OF w]) (auto simp: row_keeps_def)
  moreover have "db_nextID (snd (ResumePausedSchedule org i st nx db)) = db_nextID db"
    by (simp add: ResumePausedSchedule_def update_schedules_def)
  ultimately have w1: "schedule_tables db1" "db_nextID db1 = db_nextID db" by (simp_all add: 1)
  show ?thesis
    using 2 w1 normalize_keeps [OF w1(1), of org db'] by (cases "st = statusCompleted") simp_all
qed

lemma pause_delete_keep:
  assumes "schedule_tables db"
  shows "schedule_tables (snd (svc_PauseSchedule org i db)) \<and> db_nextID (snd (svc_PauseSchedule org i db)) = db_nextID db"
    "schedule_tables (snd (svc_DeleteSchedule org i db)) \<and> db_nextID (snd (svc_DeleteSchedule org i db)) = db_nextID db"
proof -
  have "schedule_tables (snd (PauseActiveSchedule org i db))" "schedule_tables (snd (SoftDeleteSchedule org i db))"
    unfolding PauseActiveSchedule_def SoftDeleteSchedule_def
    by (intro update_keeps [OF assms], auto simp: row_keeps_def)+
  then show "schedule_tables (snd (svc_PauseSchedule org i db)) \<and> db_nextID (snd (svc_PauseSchedule org i db)) = db_nextID db"
    "schedule_tables (snd (svc_DeleteSchedule org i db)) \<and> db_nextID (snd (svc_DeleteSchedule org i db)) = db_nextID db"
    by (simp_all add: svc_PauseSchedule_def svc_DeleteSchedule_def PauseActiveSchedule_def SoftDeleteSchedule_def
        update_schedules_def)
qed

lemma reorder_loop_iff:
  "reorder_loop sts seen acc ids = Inr out \<longleftrightarrow>
     distinct ids \<and> set ids \<inter> set seen = {} \<and> set ids \<subseteq> fst ` set sts \<and>
     out = acc @ filter (\<lambda>i. map_of sts i \<noteq> Some statusCompleted) ids"
proof (induction sts seen acc ids rule: reorder_loop.induct)
  case (2 sts seen acc i ids)
  show ?case
  proof (cases "map_of sts i")
    case None
    then have "i \<notin> fst ` set sts" by (simp add: map_of_eq_None_iff)
    then show ?thesis using None by simp
  next
    case (Some st)
    then have "i \<in> fst ` set sts" by (metis map_of_eq_None_iff option.distinct(1))
    then show ?thesis using "2.IH" Some by (cases "i \<in> set seen"; cases "st = statusCompleted") auto
  qed
qed auto

definition reorder_accepted :: "int \<Rightarrow> int list \<Rightarrow> schedule_db \<Rightarrow> bool" where
  "reorder_accepted org ids db \<longleftrightarrow>
     distinct ids \<and> set ids \<subseteq> set (live_ids org db) \<and>
     (\<forall>r \<in> set (db_schedules db). live_in org r \<and> sr_Status r \<noteq> statusCompleted \<longrightarrow> sr_ID r \<in> set ids)"

definition completed_ids :: "int \<Rightarrow> schedule_db \<Rightarrow> int list" where
  "completed_ids org db = map fst (filter (\<lambda>(i, st). st = statusCompleted) (ListScheduleIDStatuses org db))"

definition submitted_open :: "int \<Rightarrow> int list \<Rightarrow> schedule_db \<Rightarrow> int list" where
  "submitted_open org ids db = filter (\<lambda>i. i \<notin> set (completed_ids org db)) ids"

lemma completed_iff:
  "schedule_tables db \<Longrightarrow> i \<in> set (completed_ids org db) \<longleftrightarrow>
     map_of (ListScheduleIDStatuses org db) i = Some statusCompleted"
  using statuses_distinct [of db org] by (force simp: completed_ids_def)

lemma open_ids:
  fixes org
  assumes w: "schedule_tables db"
  defines "xs \<equiv> ListScheduleIDStatuses org db"
  shows "set (map fst (filter (\<lambda>(i, st). st \<noteq> statusCompleted) xs)) =
      set (live_ids org db) - set (completed_ids org db)"
    "distinct (map fst (filter (\<lambda>(i, st). st \<noteq> statusCompleted) xs))"
proof -
  have d: "distinct (map fst xs)" using statuses_distinct [OF w] by (simp add: xs_def)
  then show "distinct (map fst (filter (\<lambda>(i, st). st \<noteq> statusCompleted) xs))" by (rule distinct_map_filter)
  have m: "(i, st) \<in> set xs \<longleftrightarrow> map_of xs i = Some st" for i st using d by simp
  show "set (map fst (filter (\<lambda>(i, st). st \<noteq> statusCompleted) xs)) =
      set (live_ids org db) - set (completed_ids org db)"
  proof (intro set_eqI iffI)
    fix i assume "i \<in> set (map fst (filter (\<lambda>(i, st). st \<noteq> statusCompleted) xs))"
    then obtain st where "(i, st) \<in> set xs" "st \<noteq> statusCompleted" by auto
    then show "i \<in> set (live_ids org db) - set (completed_ids org db)"
      using m completed_iff [OF w, of i org] statuses_set [of org db] by (force simp: xs_def)
  next
    fix i assume i: "i \<in> set (live_ids org db) - set (completed_ids org db)"
    then obtain st where "(i, st) \<in> set xs" using statuses_set [of org db] by (force simp: xs_def)
    then show "i \<in> set (map fst (filter (\<lambda>(i, st). st \<noteq> statusCompleted) xs))"
      using i m completed_iff [OF w, of i org] by (force simp: xs_def)
  qed
qed

text \<open>Which submitted lists are accepted, and the order that results.\<close>

lemma reorder_perm:
  assumes w: "schedule_tables db" and a: "reorder_accepted org ids db"
  defines "new \<equiv> submitted_open org ids db @ completed_ids org db"
  shows "set new = set (live_ids org db)" "distinct new"
proof -
  have sub: "set (completed_ids org db) \<subseteq> set (live_ids org db)"
    unfolding statuses_set [symmetric] by (auto simp: completed_ids_def)
  have "x \<in> set ids \<or> x \<in> set (completed_ids org db)" if x: "x \<in> set (live_ids org db)" for x
  proof -
    obtain r where r: "r \<in> set (db_schedules db)" "live_in org r" "x = sr_ID r" using x by (auto simp: live_ids_def)
    then have "map_of (ListScheduleIDStatuses org db) x = Some (sr_Status r)" using status_of_id [OF w] by blast
    then show ?thesis using a r completed_iff [OF w] by (auto simp: reorder_accepted_def)
  qed
  then show "set new = set (live_ids org db)"
    using sub a by (auto simp: new_def submitted_open_def reorder_accepted_def)
  have "distinct (completed_ids org db)"
    unfolding completed_ids_def by (rule distinct_map_filter [OF statuses_distinct [OF w]])
  then show "distinct new" using a by (auto simp: new_def submitted_open_def reorder_accepted_def)
qed

lemma svc_reorder_cases:
  assumes w: "schedule_tables db"
  shows "(\<exists>err. svc_ReorderSchedules org ids db = Inl err) \<and> \<not> reorder_accepted org ids db \<or>
    reorder_accepted org ids db \<and> svc_ReorderSchedules org ids db =
      store_ReorderSchedules org (submitted_open org ids db @ completed_ids org db) db"
proof -
  let ?xs = "ListScheduleIDStatuses org db" and ?open = "submitted_open org ids db"
  let ?re = "map fst (filter (\<lambda>(i, st). st \<noteq> statusCompleted) (ListScheduleIDStatuses org db))"
  have f: "filter (\<lambda>i. map_of ?xs i \<noteq> Some statusCompleted) ids = ?open"
    by (simp add: submitted_open_def completed_iff [OF w])
  show ?thesis
  proof (cases "distinct ids \<and> set ids \<subseteq> set (live_ids org db)")
    case False
    then have "reorder_loop ?xs [] [] ids \<noteq> Inr out" for out by (auto simp: reorder_loop_iff statuses_set)
    then obtain err where "reorder_loop ?xs [] [] ids = Inl err" by (cases "reorder_loop ?xs [] [] ids") auto
    then have "svc_ReorderSchedules org ids db = Inl err" by (simp add: svc_ReorderSchedules_def Let_def)
    then show ?thesis using False by (auto simp: reorder_accepted_def)
  next
    case True
    then have l: "reorder_loop ?xs [] [] ids = Inr ?open" by (simp add: reorder_loop_iff statuses_set f)
    have sub: "set ?open \<subseteq> set ?re" "distinct ?open" "distinct ?re"
      using True open_ids [OF w, of org] by (auto simp: submitted_open_def)
    have "length ?open = length ?re \<longleftrightarrow> set ?re \<subseteq> set ?open"
      using sub by (metis card_subset_eq distinct_card finite_set subset_antisym order_refl)
    moreover have "set ?re \<subseteq> set ?open \<longleftrightarrow> reorder_accepted org ids db"
    proof -
      have c: "sr_ID r \<in> set (completed_ids org db) \<longleftrightarrow> sr_Status r = statusCompleted"
        if r: "r \<in> set (db_schedules db)" "live_in org r" for r
      proof -
        have "map_of ?xs (sr_ID r) = Some (sr_Status r)" using r status_of_id [OF w] by blast
        then show ?thesis by (simp add: completed_iff [OF w])
      qed
      have "set ?re \<subseteq> set ?open \<longleftrightarrow> set (live_ids org db) - set (completed_ids org db) \<subseteq> set ids"
        unfolding open_ids(1) [OF w] by (auto simp: submitted_open_def)
      also have "\<dots> \<longleftrightarrow> reorder_accepted org ids db"
        using True c by (auto simp: reorder_accepted_def live_ids_def)
      finally show ?thesis .
    qed
    ultimately show ?thesis
      by (auto simp: svc_ReorderSchedules_def Let_def l completed_ids_def)
  qed
qed

text \<open>
  C25. On sound tables \<open>ReorderSchedules\<close> fails for exactly the lists that repeat an identifier, name a
  schedule the organization does not have or leave out one that is not completed. Any other list becomes the
  order of the priorities as it was submitted, with the completed schedules behind it in their old order; the
  two updates never meet the unique index.
\<close>

theorem reorder_takes_submitted_order:
  assumes "schedule_tables db"
  shows "case svc_ReorderSchedules org ids db of
      Inl err \<Rightarrow> \<not> reorder_accepted org ids db
    | Inr db' \<Rightarrow>
        reorder_accepted org ids db \<and> schedule_tables db' \<and>
        map fst (ListScheduleIDStatuses org db') = submitted_open org ids db @ completed_ids org db"
  using svc_reorder_cases [OF assms, of org ids]
proof (elim disjE conjE exE)
  assume a: "reorder_accepted org ids db"
    and e: "svc_ReorderSchedules org ids db =
      store_ReorderSchedules org (submitted_open org ids db @ completed_ids org db) db"
  note p = reorder_perm [OF assms a]
  show ?thesis
    using a reorder_keeps [OF assms p] reorder_lists [OF assms p(2,1)]
    by (simp add: e reorder_succeeds [OF assms p(1)] statuses_ids del: map_append)
qed simp

section \<open>The tables of the system\<close>

lemma in_tables_cases:
  "in_tables f p = p \<or> (\<exists>x db'. f (pr_db p) = Inr (x, db') \<and> in_tables f p = p\<lparr>pr_db := db'\<rparr>)"
  by (auto simp: in_tables_def split: sum.splits)

lemma late_update_keeps:
  "schedule_tables db \<Longrightarrow> late_update e org user now q st db = Inr (r, db') \<Longrightarrow>
   schedule_tables db' \<and> db_nextID db' = db_nextID db"
  by (auto simp: late_update_def split: sum.splits dest: update_read_keeps)

lemma svc_reorder_keeps:
  assumes "schedule_tables db" "svc_ReorderSchedules org ids db = Inr db'"
  shows "schedule_tables db' \<and> db_nextID db' = db_nextID db"
proof -
  have a: "reorder_accepted org ids db" and
    e: "store_ReorderSchedules org (submitted_open org ids db @ completed_ids org db) db = Inr db'"
    using svc_reorder_cases [OF assms(1), of org ids] assms(2) by auto
  note p = reorder_perm [OF assms(1) a]
  show ?thesis using e reorder_succeeds [OF assms(1) p(1)] reorder_keeps [OF assms(1) p] by auto
qed

text \<open>Identifiers only grow.\<close>

lemma create_ids: "svc_CreateSchedule e org user now q db = Inr (s, db') \<Longrightarrow> db_nextID db' = db_nextID db + 1"
  by (auto elim: create_parts)

lemma create_targets_ids: "create_targets org i ts db = Inr db' \<Longrightarrow> db_nextID db' = db_nextID db"
  using create_targets_result by fastforce

lemma store_update_ids: "store_UpdateSchedule org s db = Inr (n, db') \<Longrightarrow> db_nextID db' = db_nextID db"
  by (auto simp: store_UpdateSchedule_def update_schedules_def split: sum.splits)

lemma update_read_ids:
  assumes "update_read org q s st db = Inr (r, db')"
  shows "db_nextID db' = db_nextID db"
proof -
  let ?st = "if st = StCompleted then StActive else st"
  obtain n db1 where 1: "store_UpdateSchedule org (s\<lparr>sd_Status := ?st\<rparr>) db = Inr (n, db1)"
    using assms by (auto simp: update_read_def Let_def split: sum.splits if_splits)
  obtain db2 where 2: "create_targets org (rq_ScheduleId q) (rq_Targets q)
        (DeleteScheduleTargets org (rq_ScheduleId q) db1) = Inr db2"
      "(if ?st = StActive then normalizeSchedulePriorities org db2 else Inr db2) = Inr db'"
    using assms 1 by (auto simp: update_read_def Let_def split: sum.splits if_splits nat.splits dest!: fetched_same)
  show ?thesis
    using store_update_ids [OF 1] create_targets_ids [OF 2(1)] 2(2) normalize_ids [of org db2 db']
    by (cases "?st = StActive") simp_all
qed

lemma late_update_ids: "late_update e org user now q st db = Inr (r, db') \<Longrightarrow> db_nextID db' = db_nextID db"
  by (auto simp: late_update_def split: sum.splits dest: update_read_ids)

lemma resume_ids: "svc_ResumeSchedule e org now auth i db = Inr (r, db') \<Longrightarrow> db_nextID db' = db_nextID db"
  by (auto simp: svc_ResumeSchedule_def Let_def ResumePausedSchedule_def update_schedules_def
      split: sum.splits option.splits nat.splits if_splits dest!: fetched_same normalize_ids)

lemma step_ids: "db_nextID (pr_db (fst sys)) \<le> db_nextID (pr_db (fst (schedule_step op sys)))"
proof (cases "processor_op op")
  case True
  then show ?thesis using processor_op_changes [OF True, of sys] by (auto simp: tables_change_def)
next
  case False
  obtain p xs where s: "sys = (p, xs)" by fastforce
  show ?thesis
    using False
    by (cases op)
      (auto simp: s processor_op_def in_tables_def svc_PauseSchedule_def svc_DeleteSchedule_def PauseActiveSchedule_def
        SoftDeleteSchedule_def update_schedules_def svc_ReorderSchedules_def Let_def split: sum.splits if_splits
        dest!: create_ids late_update_ids resume_ids reorder_ids)
qed

lemma step_keeps:
  assumes w: "schedule_tables (pr_db (fst sys))"
    and n: "db_nextID (pr_db (fst (schedule_step op sys))) \<le> 2 ^ 31"
  shows "schedule_tables (pr_db (fst (schedule_step op sys)))"
proof (cases "processor_op op")
  case True
  then show ?thesis using processor_op_changes [OF True, of sys] change_keeps w by blast
next
  case False
  obtain p xs where s: "sys = (p, xs)" by fastforce
  note w' = w [unfolded s, simplified]
  show ?thesis
  proof (cases op)
    case (Create e org user now q)
    have "schedule_tables db'" if "svc_CreateSchedule e org user now q (pr_db p) = Inr (x, db')"
        "db_nextID db' \<le> 2 ^ 31" for x db'
      using create_keeps [OF w'] that by blast
    then show ?thesis
      using in_tables_cases [of "svc_CreateSchedule e org user now q" p] w' n by (auto simp: s Create)
  next
    case (LateUpdate e org user now q st)
    have "schedule_tables db'" if "late_update e org user now q st (pr_db p) = Inr (x, db')" for x db'
      using late_update_keeps [OF w'] that by blast
    then show ?thesis
      using in_tables_cases [of "late_update e org user now q st" p] w' by (auto simp: s LateUpdate)
  next
    case (Resume e org now auth i)
    have "schedule_tables db'" if "svc_ResumeSchedule e org now auth i (pr_db p) = Inr (x, db')" for x db'
      using resume_keeps [OF w'] that by blast
    then show ?thesis
      using in_tables_cases [of "svc_ResumeSchedule e org now auth i" p] w' by (auto simp: s Resume)
  next
    case (Reorder org ids)
    have "schedule_tables db'" if "svc_ReorderSchedules org ids (pr_db p) = Inr db'" for db'
      using svc_reorder_keeps [OF w'] that by blast
    then show ?thesis using w' by (auto simp: s Reorder in_tables_def split: sum.splits)
  qed (use False w' in \<open>auto simp: s processor_op_def pause_delete_keep\<close>)
qed

lemma run_ids: "db_nextID (pr_db (fst sys)) \<le> db_nextID (pr_db (fst (run_schedule ops sys)))"
proof (induction ops arbitrary: sys)
  case (Cons op ops)
  show ?case using step_ids [of sys op] Cons.IH [of "schedule_step op sys"] by (simp add: run_schedule_def)
qed (simp add: run_schedule_def)

text \<open>
  C24. Whatever requests, jobs, executions, window checks and recoveries happen in whatever order, the tables
  of schedules stay sound while fewer than 2^31 schedules were created: identifiers are unique, statuses are
  known, the live schedules of an organization have different positive priorities, and no target is stored
  twice.
\<close>

theorem schedule_tables_stay_sound:
  assumes "schedule_tables (pr_db (fst sys))" "db_nextID (pr_db (fst (run_schedule ops sys))) \<le> 2 ^ 31"
  shows "schedule_tables (pr_db (fst (run_schedule ops sys)))"
  using assms
proof (induction ops arbitrary: sys)
  case (Cons op ops)
  have r: "run_schedule (op # ops) sys = run_schedule ops (schedule_step op sys)" by (simp add: run_schedule_def)
  show ?case
    using Cons.IH [of "schedule_step op sys"] step_keeps [OF Cons.prems(1), of op] Cons.prems(2)
      run_ids [of "schedule_step op sys" ops]
    unfolding r by linarith
qed (simp add: run_schedule_def)

section \<open>Witnesses\<close>

definition new_processor :: "schedule_db \<Rightarrow> processor" where
  "new_processor db =
     \<lparr>pr_db = db, pr_jobs = [], pr_nextGen = 0, pr_fresh = 0, pr_cron = [], pr_timers = [], pr_sent = [], pr_log = []\<rparr>"

definition demo_schedule_row :: "int \<Rightarrow> string \<Rightarrow> schedule_row" where
  "demo_schedule_row i st =
     (blank_row 1 i)\<lparr>sr_Name := ''night'', sr_Action := ''set_power_target'', sr_ScheduleType := ''recurring'',
        sr_StartTime := ''22:00'', sr_EndTime := Some ''06:00'', sr_Status := st, sr_Priority := i\<rparr>"

definition demo_tables :: schedule_db where
  "demo_tables =
     \<lparr>db_schedules = [demo_schedule_row 1 statusActive, demo_schedule_row 2 statusCompleted, demo_schedule_row 3 statusPaused],
      db_targets = [], db_nextID = 4\<rparr>"

lemma demo_tables_sound: "schedule_tables demo_tables"
proof -
  have "distinct (map sr_Priority (filter (live_in org) (db_schedules demo_tables)))" for org
    by (cases "org = 1") (simp_all add: demo_tables_def demo_schedule_row_def blank_row_def)
  then show ?thesis
    by (simp add: schedule_tables_def sound_row_def demo_tables_def demo_schedule_row_def blank_row_def)
qed

theorem reorder_takes_submitted_order_witness:
  "case svc_ReorderSchedules 1 [3, 1] demo_tables of
      Inl err \<Rightarrow> \<not> reorder_accepted 1 [3, 1] demo_tables
    | Inr db' \<Rightarrow>
        reorder_accepted 1 [3, 1] demo_tables \<and> schedule_tables db' \<and>
        map fst (ListScheduleIDStatuses 1 db') = submitted_open 1 [3, 1] demo_tables @ completed_ids 1 demo_tables"
  by (rule reorder_takes_submitted_order [OF demo_tables_sound])

lemma reorder_demo: "submitted_open 1 [3, 1] demo_tables @ completed_ids 1 demo_tables = [3, 1, 2]"
  by code_simp

theorem schedule_tables_stay_sound_witness:
  "schedule_tables (pr_db (fst (run_schedule [Pause 1 1, Delete 1 3] (new_processor demo_tables, []))))"
  by (rule schedule_tables_stay_sound)
    (simp_all add: demo_tables_sound new_processor_def run_schedule_def svc_PauseSchedule_def svc_DeleteSchedule_def
      PauseActiveSchedule_def SoftDeleteSchedule_def update_schedules_def,
     simp add: demo_tables_def)

end
