(* ===== verification/Schedule_Runs.thy ===== *)
theory Schedule_Runs
  imports Schedule_Outcomes
begin

text \<open>
  What becomes of a run and of the registered jobs: no run leaves its schedule stuck, no cron entry or timer
  outlives its job, and a synchronisation leaves at most one for every schedule that is to run. The end of the
  theory shows two cases in which the code loses a request or a run.
\<close>

section \<open>One row\<close>

definition row_of :: "int \<Rightarrow> processor \<Rightarrow> schedule_row option" where
  "row_of i p = List.find (\<lambda>r. sr_ID r = i \<and> \<not> sr_Deleted r) (db_schedules (pr_db p))"

lemma find_updated:
  assumes "\<And>r. P r \<Longrightarrow> sr_ID (f r) = sr_ID r \<and> sr_Deleted (f r) = sr_Deleted r"
  shows "List.find (\<lambda>r. sr_ID r = i \<and> \<not> sr_Deleted r) (map (\<lambda>r. if P r then f r else r) rows) =
    map_option (\<lambda>r. if P r then f r else r) (List.find (\<lambda>r. sr_ID r = i \<and> \<not> sr_Deleted r) rows)"
  using assms by (induction rows) auto

lemma find_row_SomeD:
  "List.find (\<lambda>r. sr_ID r = i \<and> \<not> sr_Deleted r) rows = Some r \<Longrightarrow> sr_ID r = i \<and> \<not> sr_Deleted r \<and> r \<in> set rows"
  by (auto simp: find_Some_iff)

lemma row_of_revert:
  "row_of i p = Some r \<Longrightarrow> row_of i (p\<lparr>pr_db := RevertScheduleToActive i (pr_db p)\<rparr>) =
     Some (if sr_Status r = statusRunning then r\<lparr>sr_Status := statusActive\<rparr> else r)"
  by (auto simp: row_of_def RevertScheduleToActive_def update_schedules_def find_updated dest!: find_row_SomeD)

lemma row_of_update:
  "row_of i p = Some r \<Longrightarrow> row_of i (p\<lparr>pr_db := UpdateScheduleAfterRun i l n st (pr_db p)\<rparr>) =
     Some (if sr_Status r \<in> {statusActive, statusRunning}
           then r\<lparr>sr_LastRunAt := l, sr_NextRunAt := n, sr_Status := st\<rparr> else r)"
  by (auto simp: row_of_def UpdateScheduleAfterRun_def update_schedules_def find_updated dest!: find_row_SomeD)

lemma row_of_same: "pr_db q = pr_db p \<Longrightarrow> row_of i q = row_of i p"
  by (simp add: row_of_def)

lemma row_of_jobs [simp]:
  "row_of i (removeJobLocked j p) = row_of i p" "row_of i (removeJobIfCurrent j g p) = row_of i p"
  "row_of i (log_activity k j p) = row_of i p" "row_of i (log_skips s r p) = row_of i p"
  "row_of i (p\<lparr>pr_sent := x\<rparr>) = row_of i p" "row_of i (p\<lparr>pr_timers := y\<rparr>) = row_of i p"
  by (rule row_of_same, simp)+

text \<open>Where a run may leave a row: not running, or in its window with the time of this run.\<close>

definition run_settled :: "Schedule \<Rightarrow> gotime \<Rightarrow> schedule_row option \<Rightarrow> bool" where
  "run_settled s now x \<longleftrightarrow>
     (case x of None \<Rightarrow> False
      | Some r \<Rightarrow> sr_Status r \<noteq> statusRunning \<or> has_window s \<and> sr_LastRunAt r = Some (whole_unix now))"

lemma revert_settles:
  assumes "\<not> pe_fails e CallRevert i" "row_of i p = Some r"
  shows "run_settled s now (row_of i (snd (revert_row e i p)))" "run_settled s now (row_of i (revert_for_retry e i g p))"
  using assms row_of_revert [OF assms(2)]
  by (auto simp: run_settled_def revert_row_def revert_for_retry_def)

lemma update_settles:
  assumes "\<not> pe_fails e CallUpdate i" "row_of i p = Some r" "sr_Status r = statusRunning"
  shows "update_row e i l n st p = (True, p\<lparr>pr_db := UpdateScheduleAfterRun i l n st (pr_db p)\<rparr>)"
    "row_of i (p\<lparr>pr_db := UpdateScheduleAfterRun i l n st (pr_db p)\<rparr>) =
       Some (r\<lparr>sr_LastRunAt := l, sr_NextRunAt := n, sr_Status := st\<rparr>)"
  using assms row_of_update [OF assms(2)] by (simp_all add: update_row_def)

lemma updateAfterRun_settles:
  assumes "\<And>c. \<not> pe_fails e c (sd_Id s)" "row_of (sd_Id s) p = Some r" "sr_Status r = statusRunning"
  shows "run_settled s now (row_of (sd_Id s) (updateAfterRun e s now g p))"
proof (cases "ComputeNextRun (pe_clock e) s now")
  case (Inl err)
  then show ?thesis using update_settles [OF assms] by (simp add: updateAfterRun_def run_settled_def)
next
  case (Inr nx)
  then show ?thesis
    using update_settles [OF assms] by (auto simp: updateAfterRun_def run_settled_def after_run_def split: if_splits)
qed

lemma transition_settles:
  assumes "\<And>c. \<not> pe_fails e c (sd_Id s)" "row_of (sd_Id s) p = Some r" "sr_Status r = statusRunning"
  shows "run_settled t now' (row_of (sd_Id s) (transitionToCompleted e s now g p))"
  using update_settles [OF assms] by (simp add: transitionToCompleted_def run_settled_def)

lemma exec_claim_running:
  assumes "row_of i p = Some r" "sr_Status r = statusActive" "\<not> pe_fails e CallSetRunning i"
  shows "\<exists>g q. exec_claim e i p = (Some (Claimed i g), q) \<and> row_of i q = Some (r\<lparr>sr_Status := statusRunning\<rparr>)"
proof -
  have "r \<in> set (db_schedules (pr_db p))" "sr_ID r = i" "\<not> sr_Deleted r"
    using assms(1) by (auto simp: row_of_def dest: find_row_SomeD)
  then have "filter (\<lambda>r. sr_ID r = i \<and> \<not> sr_Deleted r \<and> sr_Status r = statusActive) (db_schedules (pr_db p)) \<noteq> []"
    using assms(2) by (auto simp: filter_empty_conv)
  then show ?thesis
    using assms \<open>sr_ID r = i\<close> \<open>\<not> sr_Deleted r\<close>
    by (auto simp: exec_claim_def SetScheduleRunning_def update_schedules_def row_of_def find_updated)
qed

lemma loaded_schedule:
  "row_of i p = Some r \<Longrightarrow> GetScheduleByID i (pr_db p) = Some (sr_OrgID r, convertToProtoSchedule r)"
  by (simp add: row_of_def GetScheduleByID_def)

lemma exec_send_outcome:
  assumes "\<And>c. \<not> pe_fails e c (sd_Id s)" "row_of (sd_Id s) p = Some r" "sr_Status r = statusRunning"
  shows "case exec_send e org s now g p of
      (None, q) \<Rightarrow> run_settled s now (row_of (sd_Id s) q)
    | (Some x, q) \<Rightarrow> (\<exists>res b. x = Sent s now g res b) \<and> row_of (sd_Id s) q = Some r"
  using revert_settles(2) [OF assms(1,2)] revert_settles(2) [OF assms(1)] assms(2)
  by (auto simp: exec_send_def send_command_def split: option.splits list.splits)

lemma exec_finish_settles:
  assumes "\<And>c. \<not> pe_fails e c (sd_Id s)" "row_of (sd_Id s) p = Some r" "sr_Status r = statusRunning"
  shows "run_settled s now (row_of (sd_Id s) (exec_finish e s now g res b p))"
  using updateAfterRun_settles [OF assms, of now g] by (simp add: exec_finish_def Let_def)

lemma has_window_converted [simp]:
  "has_window (convertToProtoSchedule (r\<lparr>sr_Status := st\<rparr>)) = has_window (convertToProtoSchedule r)"
  by (simp add: has_window_def convertToProtoSchedule_def)


section \<open>Jobs\<close>

text \<open>
  Every cron entry and every timer is the one its job names, and its handle was drawn before; a timer that
  fired is gone while its job stays.
\<close>

definition jobs_sound :: "processor \<Rightarrow> bool" where
  "jobs_sound p \<longleftrightarrow>
     (\<forall>(h, i) \<in> set (pr_cron p). h < pr_fresh p \<and>
        (\<exists>j. map_of (pr_jobs p) i = Some j \<and> jb_handle j = h \<and> \<not> jb_isOneTime j)) \<and>
     (\<forall>(h, i) \<in> set (pr_timers p). h < pr_fresh p \<and>
        (\<exists>j. map_of (pr_jobs p) i = Some j \<and> jb_handle j = h \<and> jb_isOneTime j)) \<and>
     distinct (map fst (pr_cron p @ pr_timers p)) \<and>
     (\<forall>i j. map_of (pr_jobs p) i = Some j \<longrightarrow> jb_handle j < pr_fresh p)"

lemma distinct_fst_filter: "distinct (map fst xs) \<Longrightarrow> distinct (map fst (filter P xs))"
  by (rule distinct_map_filter)

lemma removeJobLocked_sound: "jobs_sound p \<Longrightarrow> jobs_sound (removeJobLocked i p)"
proof (cases "map_of (pr_jobs p) i")
  case (Some j)
  assume s: "jobs_sound p"
  then have d: "distinct (map fst (pr_cron p))" "distinct (map fst (pr_timers p))"
      "fst ` set (pr_cron p) \<inter> fst ` set (pr_timers p) = {}"
    by (simp_all add: jobs_sound_def)
  have other: "(h, i) \<in> set (pr_cron p) \<Longrightarrow> h = jb_handle j \<and> \<not> jb_isOneTime j"
      "(h, i) \<in> set (pr_timers p) \<Longrightarrow> h = jb_handle j \<and> jb_isOneTime j" for h
    using s Some by (auto simp: jobs_sound_def)
  show ?thesis
    using s d other
    by (cases "jb_isOneTime j")
      (auto simp: removeJobLocked_def Some jobs_sound_def distinct_fst_filter Let_def)
qed (simp add: removeJobLocked_def)

lemma jobs_sound_other [simp]:
  "jobs_sound (p\<lparr>pr_db := a\<rparr>) = jobs_sound p" "jobs_sound (p\<lparr>pr_sent := b\<rparr>) = jobs_sound p"
  "jobs_sound (p\<lparr>pr_log := c\<rparr>) = jobs_sound p" "jobs_sound (p\<lparr>pr_nextGen := d\<rparr>) = jobs_sound p"
  by (simp_all add: jobs_sound_def)

lemma jobs_sound_log [simp]:
  "jobs_sound (log_activity k i p) = jobs_sound p" "jobs_sound (log_skips s r p) = jobs_sound p"
  "jobs_sound (snd (send_command e s b m ds p)) = jobs_sound p"
  by (simp_all add: log_activity_def log_skips_def send_command_def Let_def)

lemma fresh_entries:
  assumes "jobs_sound p"
  shows "pr_fresh p \<notin> fst ` set (pr_cron p)" "pr_fresh p \<notin> fst ` set (pr_timers p)"
  using assms by (auto simp: jobs_sound_def)

lemma registerJob_sound:
  assumes s: "jobs_sound p" and n: "map_of (pr_jobs p) (sd_Id x) = None"
  shows "jobs_sound (registerJob e x p)"
proof -
  define j where "j = \<lparr>jb_handle = pr_fresh p, jb_isOneTime = (sd_ScheduleType x = OneTime),
      jb_fingerprint = scheduleFingerprint x, jb_generation = pr_nextGen p + 1\<rparr>"
  let ?p = "p\<lparr>pr_nextGen := pr_nextGen p + 1, pr_fresh := pr_fresh p + 1\<rparr>" and ?js = "AList.update (sd_Id x) j (pr_jobs p)"
  have gone: "(h, sd_Id x) \<notin> set (pr_cron p)" "(h, sd_Id x) \<notin> set (pr_timers p)" for h
    using s n by (auto simp: jobs_sound_def)
  have t: "jobs_sound (?p\<lparr>pr_timers := pr_timers p @ [(pr_fresh p, sd_Id x)], pr_jobs := ?js\<rparr>)" if "sd_ScheduleType x = OneTime"
    using s gone fresh_entries [OF s] that by (fastforce simp: jobs_sound_def j_def)
  have c: "jobs_sound (?p\<lparr>pr_cron := pr_cron p @ [(pr_fresh p, sd_Id x)], pr_jobs := ?js\<rparr>)" if "sd_ScheduleType x \<noteq> OneTime"
    using s gone fresh_entries [OF s] that by (fastforce simp: jobs_sound_def j_def)
  show ?thesis
    using s t c by (auto simp: registerJob_def Let_def j_def split: sum.splits option.splits)
qed

lemma removed_job: "map_of (pr_jobs (removeJobLocked i p)) i = None"
  by (simp add: removeJobLocked_def Let_def split: option.splits)

lemma sync_one_sound: "jobs_sound p \<Longrightarrow> jobs_sound (sync_one e p s)"
  by (auto simp: sync_one_def removed_job split: option.splits intro!: registerJob_sound removeJobLocked_sound)

lemma foldl_sound:
  assumes "\<And>p x. jobs_sound p \<Longrightarrow> jobs_sound (f p x)"
  shows "jobs_sound p \<Longrightarrow> jobs_sound (foldl f p xs)"
  using assms by (induction xs arbitrary: p) auto

lemma syncSchedules_sound: "jobs_sound p \<Longrightarrow> jobs_sound (syncSchedules e p)"
  by (simp add: syncSchedules_def Let_def foldl_sound sync_one_sound removeJobLocked_sound)

lemma removeJobIfCurrent_sound: "jobs_sound p \<Longrightarrow> jobs_sound (removeJobIfCurrent i g p)"
  by (simp add: removeJobIfCurrent_def removeJobLocked_sound split: option.splits)

lemma row_ops_sound:
  "jobs_sound p \<Longrightarrow> jobs_sound (snd (revert_row e i p))" "jobs_sound p \<Longrightarrow> jobs_sound (revert_for_retry e i g p)"
  "jobs_sound p \<Longrightarrow> jobs_sound (snd (update_row e i l n st p))"
  by (simp_all add: revert_row_def revert_for_retry_def update_row_def removeJobIfCurrent_sound)

lemma after_run_sound:
  assumes "jobs_sound p"
  shows "jobs_sound (updateAfterRun e s now g p)" "jobs_sound (transitionToCompleted e s now g p)"
    "jobs_sound (snd (revertToActive e s now p))"
  using assms row_ops_sound removeJobLocked_sound
  by (auto simp: updateAfterRun_def transitionToCompleted_def revertToActive_def update_row_def Let_def
      split: sum.splits prod.splits)

lemma exec_claim_sound: "jobs_sound p \<Longrightarrow> jobs_sound (snd (exec_claim e i p))"
  by (simp add: exec_claim_def Let_def split: prod.splits)

lemma exec_step_sound: "jobs_sound p \<Longrightarrow> jobs_sound (snd (exec_step e x p))"
  by (cases x) (auto simp: exec_step_def exec_load_def exec_send_def exec_finish_def send_command_def Let_def
      row_ops_sound after_run_sound split: option.splits list.splits)

lemma end_window_sound: "jobs_sound p \<Longrightarrow> jobs_sound (end_window e p os)"
proof -
  assume s: "jobs_sound p"
  have c: "jobs_sound q \<Longrightarrow> jobs_sound (close_window e x q)" for q x
    using after_run_sound(3) [of q e x "pe_now e"]
    by (cases "revertToActive e x (pe_now e) q") (simp add: close_window_def split: bool.splits)
  show ?thesis
    using s c by (cases os) (auto simp: end_window_def send_command_def split: option.splits)
qed

lemma recover_loop_sound: "jobs_sound p \<Longrightarrow> jobs_sound (snd (recover_loop e ss p))"
proof (induction ss arbitrary: p)
  case (Cons s ss)
  then show ?case by (auto simp: revert_row_def)
qed simp

lemma schedule_step_sound:
  assumes "jobs_sound (fst sys)"
  shows "jobs_sound (fst (schedule_step op sys))"
proof (cases sys)
  case (Pair p xs)
  then have s: "jobs_sound p" using assms by simp
  have f: "jobs_sound (p\<lparr>pr_timers := filter (\<lambda>(k, _). k \<noteq> h) (pr_timers p)\<rparr>)" for h
    using s by (auto simp: jobs_sound_def distinct_fst_filter)
  have c: "jobs_sound q" if "exec_claim e i (p\<lparr>pr_timers := filter (\<lambda>(k, _). k \<noteq> h) (pr_timers p)\<rparr>) = (x, q)" for e i h x q
    using exec_claim_sound [OF f [of h], of e i] that by simp
  have x: "jobs_sound q" if "exec_step e y p = (x, q)" for e y x q using exec_step_sound [OF s, of e y] that by simp
  show ?thesis
  proof (cases op)
    case (Fire e h)
    then show ?thesis using s c by (auto simp: Pair fire_def split: option.splits prod.splits)
  next
    case (Proceed e n)
    then show ?thesis using s x by (auto simp: Pair proceed_def split: option.splits prod.splits)
  qed (use s in \<open>simp_all add: Pair in_tables_def syncSchedules_sound checkEndOfWindow_def recoverStaleRunning_def
    foldl_sound end_window_sound recover_loop_sound split: sum.splits\<close>)
qed

lemma run_schedule_sound: "jobs_sound (fst sys) \<Longrightarrow> jobs_sound (fst (run_schedule ops sys))"
  unfolding run_schedule_def by (induction ops arbitrary: sys) (auto simp: schedule_step_sound)

lemma job_keys_gone: "map_of (pr_jobs (foldl (\<lambda>p i. removeJobLocked i p) p is)) i = (if i \<in> set is then None else map_of (pr_jobs p) i)"
proof (induction "is" arbitrary: p)
  case (Cons k "is")
  then show ?case by (auto simp: removeJobLocked_def Let_def split: option.splits)
qed simp

text \<open>A schedule that is to run: not deleted, and active or running.\<close>

definition to_run :: "schedule_db \<Rightarrow> int \<Rightarrow> bool" where
  "to_run db i \<longleftrightarrow> (\<exists>r \<in> set (db_schedules db). open_row r \<and> sr_ID r = i)"

lemma active_ids: "sd_Id ` set (map snd (GetActiveSchedules db)) = {i. to_run db i}"
  by (force simp: GetActiveSchedules_def to_run_def open_row_def convertToProtoSchedule_def)

lemma sync_jobs_known:
  assumes "\<not> pe_fails e CallActive 0" "map_of (pr_jobs (syncSchedules e p)) i = Some j"
  shows "to_run (pr_db p) i"
proof (rule ccontr)
  let ?p1 = "foldl (sync_one e) p (map snd (GetActiveSchedules (pr_db p)))"
  assume n: "\<not> to_run (pr_db p) i"
  then have "i \<notin> sd_Id ` set (map snd (GetActiveSchedules (pr_db p)))" unfolding active_ids by simp
  moreover have "map_of (pr_jobs ?p1) i \<noteq> None"
    using assms by (auto simp: syncSchedules_def Let_def job_keys_gone split: if_splits)
  ultimately show False
    using assms by (auto simp: syncSchedules_def Let_def job_keys_gone map_of_eq_None_iff split: if_splits)
qed

text \<open>
  However the processor's jobs were registered, fired and removed before, once a synchronisation has read
  the tables every cron entry and every timer belongs to a schedule that is active or running there, no
  schedule has two, and none is registered twice: a paused, completed or deleted schedule does not fire again.
\<close>

theorem sync_leaves_no_stale_jobs:
  "pe_fails e CallActive 0 \<or>
   (let p = syncSchedules e (fst (run_schedule ops (new_processor db, [])));
        entries = pr_cron p @ pr_timers p
    in distinct (map fst entries) \<and> distinct (map snd entries) \<and> list_all (to_run (pr_db p)) (map snd entries))"
proof (cases "pe_fails e CallActive 0")
  case False
  define q where "q = fst (run_schedule ops (new_processor db, []))"
  define p where "p = syncSchedules e q"
  have "jobs_sound (new_processor db)" by (simp add: jobs_sound_def new_processor_def)
  then have s: "jobs_sound p"
    unfolding p_def q_def by (intro syncSchedules_sound run_schedule_sound) simp
  have d: "distinct (map fst (pr_cron p @ pr_timers p))" using s by (simp add: jobs_sound_def)
  have j: "\<exists>j. map_of (pr_jobs p) i = Some j \<and> h = jb_handle j" if "(h, i) \<in> set (pr_cron p @ pr_timers p)" for h i
    using s that by (fastforce simp: jobs_sound_def)
  have "to_run (pr_db p) i" if m: "(h, i) \<in> set (pr_cron p @ pr_timers p)" for h i
    using j [OF m] sync_jobs_known [OF False, of q i] by (auto simp: p_def)
  then have "list_all (to_run (pr_db p)) (map snd (pr_cron p @ pr_timers p))"
    unfolding list_all_iff set_map by (metis imageE prod.collapse)
  moreover have "inj_on snd (set (pr_cron p @ pr_timers p))"
  proof (rule inj_onI)
    fix x y assume "x \<in> set (pr_cron p @ pr_timers p)" "y \<in> set (pr_cron p @ pr_timers p)" "snd x = snd y"
    then show "x = y" using j by (metis option.inject prod.collapse)
  qed
  ultimately show ?thesis
    using d unfolding p_def q_def Let_def by (simp only: distinct_map) blast
qed simp

section \<open>Requests and runs that are lost\<close>

text \<open>
  An update whose read saw the schedule active makes it active again, also when the schedule was paused after
  that read: the statement refuses running rows only.
\<close>

lemma stale_update_undoes_pause:
  assumes "store_UpdateSchedule org (s\<lparr>sd_Status := StActive\<rparr>) db = Inr (n, db')"
    and "r \<in> set (db_schedules db)" "live_in org r" "sr_ID r = sd_Id s" "sr_Status r = statusPaused"
  shows "\<exists>r' \<in> set (db_schedules db'). live_in org r' \<and> sr_ID r' = sr_ID r \<and> sr_Status r' = statusActive"
proof -
  obtain c where c: "schedule_columns (s\<lparr>sd_Status := StActive\<rparr>) (blank_row org (sd_Id s)) = Inr c"
    and d: "(n, db') = update_schedules (\<lambda>r. live_in org r \<and> sr_ID r = sd_Id s \<and> sr_Status r \<noteq> statusRunning)
      (\<lambda>r. c\<lparr>sr_Status := statusActive, sr_Priority := sr_Priority r, sr_CreatedBy := sr_CreatedBy r,
         sr_Deleted := sr_Deleted r, sr_LastRunAt := sr_LastRunAt r\<rparr>) db"
    using assms(1) by (auto simp: store_UpdateSchedule_def scheduleStatusToString_def split: sum.splits)
  let ?r = "c\<lparr>sr_Status := statusActive, sr_Priority := sr_Priority r, sr_CreatedBy := sr_CreatedBy r,
         sr_Deleted := sr_Deleted r, sr_LastRunAt := sr_LastRunAt r\<rparr>"
  have "?r \<in> set (db_schedules db')" using d assms(2-5) by (force simp: update_schedules_def)
  then show ?thesis
    using columns_keys [OF c] assms(3,4) by (intro bexI [of _ ?r]) (simp_all add: blank_row_def)
qed

text \<open>
  The window of a power target with equal start and end times: it ends at the start time of the next day, the
  check has not ended it at that moment, and a job that fires there finds the schedule running and does nothing.
\<close>

lemma whole_day_window_meets_next_run:
  assumes "Parse_hm (sd_StartTime s) = Some (h, m)" "sd_EndTime s = sd_StartTime s"
    "LoadLocation (ce_tz c) (sd_Timezone s) = Some (fixed_zone off)" "sd_LastRunAt s = Some run"
  shows "\<exists>w. window_end (fixed_zone off) s run = Some w \<and> local_clock (fixed_zone off) w = (h, m, 0) \<and>
    \<not> window_expired c w s"
proof -
  have r: "0 \<le> h" "h < 24" "0 \<le> m" "m < 60" using Parse_hm_range [OF assms(1)] by auto
  define k where "k = 86400 * (local_day off run + 1) + 3600 * h + 60 * m - off"
  have w: "window_end (fixed_zone off) s run = Some (k * second)"
    using window_end_fixed [OF assms(1), of h m off run] assms(1,2) by (simp add: k_def)
  have "(k * second div second + off) mod 86400 = 3600 * h + 60 * m"
  proof -
    have "k * second div second = k" by (simp add: second_def)
    moreover have "(k + off) mod 86400 = 3600 * h + 60 * m"
      using mod_shift [of "k + off" 86400 "local_day off run + 1" "3600 * h + 60 * m"] r by (simp add: k_def)
    ultimately show ?thesis by simp
  qed
  then have "local_clock (fixed_zone off) (k * second) = (h, m, 0)"
    using r by (simp add: local_clock_def Let_def)
  then show ?thesis
    using w assms(3,4) by (intro exI [of _ "k * second"]) (simp add: window_expired_def time_after_def split: option.splits)
qed

lemma running_schedule_is_not_claimed:
  assumes "\<forall>r \<in> set (db_schedules (pr_db p)). sr_ID r = i \<longrightarrow> sr_Status r = statusRunning"
  shows "executeSchedule e i p = p"
proof -
  have "filter (\<lambda>r. sr_ID r = i \<and> \<not> sr_Deleted r \<and> sr_Status r = statusActive) (db_schedules (pr_db p)) = []"
    using assms by (auto simp: filter_empty_conv)
  then show ?thesis
    by (simp add: executeSchedule_def exec_claim_def SetScheduleRunning_def update_schedules_def and_then_step_def Let_def)
qed

section \<open>Witness\<close>

definition demo_env :: proc_env where
  "demo_env =
     \<lparr>pe_clock = demo_clock, pe_now = 0, pe_fails = (\<lambda>_ _. False), pe_resolver = \<lparr>tr_deviceSet = Map.empty, tr_site = Map.empty, tr_building = Map.empty\<rparr>,
      pe_command = (\<lambda>_ _ _. None)\<rparr>"


end
