(* ===== verification/Command_Queue.thy ===== *)
theory Command_Queue
  imports Go_Sort
begin

text \<open>
  Command types, the tables of command execution (queue messages, batches, device results) with the
  statements of \<open>generated/sqlc/queue.sql.go\<close> and \<open>command.sql.go\<close>, and the message queue
  (\<open>infrastructure/queue/service.go\<close>). \<open>now\<close> is the time of the database transaction. The devices table is a
  function from identifiers to organization and site; its rows are not deleted while messages refer to them.
  \<open>cd_requeued\<close>, \<open>cd_resets\<close> and \<open>cd_cleared\<close> record the writes to tables of other components.
\<close>

section \<open>Command types\<close>

datatype command_type =
    CtStartMining | CtStopMining | CtSetCoolingMode | CtSetPowerTarget | CtUpdateMiningPools | CtDownloadLogs
  | CtReboot | CtBlinkLED | CtFirmwareUpdate | CtUnpair | CtUpdateMinerPassword | CtCurtail | CtUncurtail
  | CtApplyCurtailmentConfig

definition command_types :: "(command_type \<times> string) list" where
  "command_types =
     [(CtStartMining, ''StartMining''), (CtStopMining, ''StopMining''), (CtSetCoolingMode, ''SetCoolingMode''),
      (CtSetPowerTarget, ''SetPowerTarget''), (CtUpdateMiningPools, ''UpdateMiningPools''),
      (CtDownloadLogs, ''DownloadLogs''), (CtReboot, ''Reboot''), (CtBlinkLED, ''BlinkLED''),
      (CtFirmwareUpdate, ''FirmwareUpdate''), (CtUnpair, ''Unpair''),
      (CtUpdateMinerPassword, ''UpdateMinerPassword''), (CtCurtail, ''Curtail''), (CtUncurtail, ''Uncurtail''),
      (CtApplyCurtailmentConfig, ''ApplyCurtailmentConfig'')]"

definition Type_String :: "command_type \<Rightarrow> string" where
  "Type_String t = (case map_of command_types t of Some s \<Rightarrow> s | None \<Rightarrow> ''Undefined'')"

definition FromString :: "string \<Rightarrow> command_type option" where
  "FromString s = map_of (map (\<lambda>(t, n). (n, t)) command_types) s"

lemma FromString_String [simp]: "FromString (Type_String t) = Some t"
  by (cases t) (simp_all add: FromString_def Type_String_def command_types_def)

lemma Type_String_inj [simp]: "Type_String t = Type_String u \<longleftrightarrow> t = u"
  by (metis FromString_String option.inject)

section \<open>Tables\<close>

datatype queue_status = QPending | QProcessing | QSuccess | QFailed
datatype batch_status = BPending | BProcessing | BFinished

record queue_message =
  qm_ID :: int
  qm_BatchUUID :: string
  qm_CommandType :: string
  qm_DeviceID :: int
  qm_Status :: queue_status
  qm_RetryCount :: int
  qm_ErrorInfo :: "string option"
  qm_Payload :: string
  qm_CreatedAt :: gotime
  qm_UpdatedAt :: gotime

record batch_row =
  bl_ID :: int
  bl_UUID :: string
  bl_Type :: string
  bl_Status :: batch_status
  bl_DevicesCount :: int
  bl_OrganizationID :: int
  bl_StartedAt :: "gotime option"
  bl_FinishedAt :: "gotime option"

record device_log =
  dl_BatchID :: int
  dl_DeviceID :: int
  dl_Success :: bool
  dl_ErrorInfo :: "string option"
  dl_OrgID :: int
  dl_SiteID :: "int option"

record command_db =
  cd_messages :: "queue_message list"
  cd_batches :: "batch_row list"
  cd_logs :: "device_log list"
  cd_nextMessage :: int
  cd_nextBatch :: int
  cd_requeued :: "(int \<times> int) list"
  cd_resets :: "int list"
  cd_cleared :: "(int \<times> string) list"

type_synonym device_table = "int \<Rightarrow> (int \<times> int option) option"

definition terminal :: "queue_message \<Rightarrow> bool" where
  "terminal m \<longleftrightarrow> qm_Status m = QSuccess \<or> qm_Status m = QFailed"

definition batch_messages :: "string \<Rightarrow> command_db \<Rightarrow> queue_message list" where
  "batch_messages u db = filter (\<lambda>m. qm_BatchUUID m = u) (cd_messages db)"

section \<open>Statements on messages\<close>

definition update_messages ::
  "(queue_message \<Rightarrow> bool) \<Rightarrow> (queue_message \<Rightarrow> queue_message) \<Rightarrow> command_db \<Rightarrow> nat \<times> command_db" where
  "update_messages P f db =
     (length (filter P (cd_messages db)), db\<lparr>cd_messages := map (\<lambda>m. if P m then f m else m) (cd_messages db)\<rparr>)"

definition ClaimMessageForProcessing :: "gotime \<Rightarrow> int \<Rightarrow> command_db \<Rightarrow> nat \<times> command_db" where
  "ClaimMessageForProcessing now i =
     update_messages (\<lambda>m. qm_ID m = i \<and> qm_Status m = QPending)
       (\<lambda>m. m\<lparr>qm_Status := QProcessing, qm_UpdatedAt := now\<rparr>)"

definition UpdateMessageStatus :: "gotime \<Rightarrow> int \<Rightarrow> queue_status \<Rightarrow> command_db \<Rightarrow> nat \<times> command_db" where
  "UpdateMessageStatus now i st =
     update_messages (\<lambda>m. qm_ID m = i \<and> qm_Status m = QProcessing)
       (\<lambda>m. m\<lparr>qm_Status := st, qm_UpdatedAt := now\<rparr>)"

definition UpdateMessagePermanentlyFailed :: "gotime \<Rightarrow> int \<Rightarrow> string \<Rightarrow> command_db \<Rightarrow> nat \<times> command_db" where
  "UpdateMessagePermanentlyFailed now i err =
     update_messages (\<lambda>m. qm_ID m = i \<and> qm_Status m = QProcessing)
       (\<lambda>m. m\<lparr>qm_Status := QFailed, qm_ErrorInfo := Some err, qm_UpdatedAt := now\<rparr>)"

definition UpdateMessageAfterFailure :: "gotime \<Rightarrow> int \<Rightarrow> int \<Rightarrow> string \<Rightarrow> command_db \<Rightarrow> nat \<times> command_db" where
  "UpdateMessageAfterFailure now i maxRetries err =
     update_messages (\<lambda>m. qm_ID m = i \<and> qm_Status m = QProcessing)
       (\<lambda>m. m\<lparr>qm_Status := (if maxRetries \<le> qm_RetryCount m + 1 then QFailed else QPending),
              qm_RetryCount := qm_RetryCount m + 1, qm_ErrorInfo := Some err, qm_UpdatedAt := now\<rparr>)"

text \<open>Messages ready for a worker: pending, below the retry limit, no earlier open message of the device.\<close>

definition ready_message :: "device_table \<Rightarrow> int \<Rightarrow> command_db \<Rightarrow> queue_message \<Rightarrow> bool" where
  "ready_message devs maxRetries db m \<longleftrightarrow>
     devs (qm_DeviceID m) \<noteq> None \<and> qm_Status m = QPending \<and> qm_RetryCount m < maxRetries \<and>
     \<not> list_ex (\<lambda>x. qm_DeviceID x = qm_DeviceID m \<and> (qm_Status x = QPending \<or> qm_Status x = QProcessing) \<and>
         qm_CreatedAt x < qm_CreatedAt m) (cd_messages db)"

definition created_before :: "queue_message \<Rightarrow> queue_message \<Rightarrow> bool" where
  "created_before m n \<longleftrightarrow> qm_CreatedAt m < qm_CreatedAt n"

interpretation created_order: strict_weak UNIV created_before
  by unfold_locales (auto simp: created_before_def)

definition GetMessagesToProcess :: "device_table \<Rightarrow> int \<Rightarrow> int \<Rightarrow> command_db \<Rightarrow> queue_message list" where
  "GetMessagesToProcess devs maxRetries limit db =
     take (nat limit) (stable_sort created_before (filter (ready_message devs maxRetries db) (cd_messages db)))"

text \<open>Messages to reap, oldest first.\<close>

record reap_params =
  rp_IncludeFresh :: bool
  rp_Cutoff :: gotime
  rp_FirmwareCutoff :: gotime
  rp_Limit :: nat
  rp_ErrorInfo :: string
  rp_FirmwareErrorInfo :: string

definition reapable :: "reap_params \<Rightarrow> queue_message \<Rightarrow> bool" where
  "reapable p m \<longleftrightarrow>
     qm_Status m = QProcessing \<and>
     (rp_IncludeFresh p \<or>
      qm_UpdatedAt m < (if qm_CommandType m = ''FirmwareUpdate'' then rp_FirmwareCutoff p else rp_Cutoff p))"

definition updated_before :: "queue_message \<Rightarrow> queue_message \<Rightarrow> bool" where
  "updated_before m n \<longleftrightarrow>
     qm_UpdatedAt m < qm_UpdatedAt n \<or> (qm_UpdatedAt m = qm_UpdatedAt n \<and> qm_ID m < qm_ID n)"

definition reaped_row :: "reap_params \<Rightarrow> gotime \<Rightarrow> queue_message \<Rightarrow> queue_message" where
  "reaped_row p now m =
     m\<lparr>qm_Status := QFailed, qm_UpdatedAt := now,
       qm_ErrorInfo := Some (if qm_CommandType m = ''FirmwareUpdate'' then rp_FirmwareErrorInfo p else rp_ErrorInfo p)\<rparr>"

definition ReapMessages :: "device_table \<Rightarrow> reap_params \<Rightarrow> gotime \<Rightarrow> command_db \<Rightarrow> queue_message list \<times> command_db" where
  "ReapMessages devs p now db =
     (let ids = map qm_ID (take (rp_Limit p) (stable_sort updated_before (filter (reapable p) (cd_messages db))));
          hit = (\<lambda>m. qm_ID m \<in> set ids \<and> qm_Status m = QProcessing \<and> devs (qm_DeviceID m) \<noteq> None)
      in (map (reaped_row p now) (filter hit (cd_messages db)), snd (update_messages hit (reaped_row p now) db)))"

section \<open>Statements on batches and results\<close>

definition find_batch :: "string \<Rightarrow> command_db \<Rightarrow> batch_row option" where
  "find_batch u db = List.find (\<lambda>b. bl_UUID b = u) (cd_batches db)"

definition CreateCommandBatchLog :: "string \<Rightarrow> command_type \<Rightarrow> int \<Rightarrow> int \<Rightarrow> command_db \<Rightarrow> command_db" where
  "CreateCommandBatchLog u t n org db =
     db\<lparr>cd_batches := cd_batches db @
          [\<lparr>bl_ID = cd_nextBatch db, bl_UUID = u, bl_Type = Type_String t, bl_Status = BPending,
            bl_DevicesCount = n, bl_OrganizationID = org, bl_StartedAt = None, bl_FinishedAt = None\<rparr>],
        cd_nextBatch := cd_nextBatch db + 1\<rparr>"

definition update_batches :: "(batch_row \<Rightarrow> bool) \<Rightarrow> (batch_row \<Rightarrow> batch_row) \<Rightarrow> command_db \<Rightarrow> nat \<times> command_db" where
  "update_batches P f db =
     (length (filter P (cd_batches db)), db\<lparr>cd_batches := map (\<lambda>b. if P b then f b else b) (cd_batches db)\<rparr>)"

definition MarkCommandBatchFinished :: "gotime \<Rightarrow> string \<Rightarrow> command_db \<Rightarrow> nat \<times> command_db" where
  "MarkCommandBatchFinished now u =
     update_batches (\<lambda>b. bl_UUID b = u \<and> bl_Status b \<in> {BPending, BProcessing})
       (\<lambda>b. b\<lparr>bl_Status := BFinished, bl_FinishedAt := Some now\<rparr>)"

definition MarkCommandBatchFinishedWithStartedAt :: "gotime \<Rightarrow> string \<Rightarrow> command_db \<Rightarrow> nat \<times> command_db" where
  "MarkCommandBatchFinishedWithStartedAt now u =
     update_batches (\<lambda>b. bl_UUID b = u \<and> bl_Status b = BPending)
       (\<lambda>b. b\<lparr>bl_Status := BFinished, bl_StartedAt := Some now, bl_FinishedAt := Some now\<rparr>)"

definition MarkCommandBatchProcessing :: "gotime \<Rightarrow> string \<Rightarrow> command_db \<Rightarrow> nat \<times> command_db" where
  "MarkCommandBatchProcessing now u db =
     update_batches
       (\<lambda>b. bl_UUID b = u \<and> bl_Status b = BPending \<and>
         list_ex (\<lambda>m. qm_BatchUUID m = bl_UUID b \<and> qm_Status m = QProcessing) (cd_messages db))
       (\<lambda>b. b\<lparr>bl_Status := BProcessing, bl_StartedAt := Some now\<rparr>) db"

definition open_terminal_batch :: "command_db \<Rightarrow> batch_row \<Rightarrow> bool" where
  "open_terminal_batch db b \<longleftrightarrow>
     bl_Status b \<in> {BPending, BProcessing} \<and> batch_messages (bl_UUID b) db \<noteq> [] \<and>
     \<not> list_ex (\<lambda>m. qm_Status m \<in> {QPending, QProcessing}) (batch_messages (bl_UUID b) db)"

text \<open>\<open>ORDER BY id\<close>: the rows are kept in the order of their identifiers.\<close>

definition FinishTerminalCommandBatches :: "gotime \<Rightarrow> nat \<Rightarrow> command_db \<Rightarrow> nat \<times> command_db" where
  "FinishTerminalCommandBatches now limit db =
     (let ids = map bl_ID (take limit (filter (open_terminal_batch db) (cd_batches db)))
      in update_batches (\<lambda>b. bl_ID b \<in> set ids \<and> bl_Status b \<in> {BPending, BProcessing})
           (\<lambda>b. b\<lparr>bl_Status := BFinished, bl_FinishedAt := Some now\<rparr>) db)"

definition is_batch_finished :: "string \<Rightarrow> command_db \<Rightarrow> bool" where
  "is_batch_finished u db \<longleftrightarrow> batch_messages u db \<noteq> [] \<and> list_all terminal (batch_messages u db)"

text \<open>The result of one device of a batch: inserted with the owner of the device, or updated.\<close>

definition UpsertCommandOnDeviceLog ::
  "device_table \<Rightarrow> string \<Rightarrow> int \<Rightarrow> bool \<Rightarrow> string option \<Rightarrow> command_db \<Rightarrow> command_db" where
  "UpsertCommandOnDeviceLog devs u d ok err db =
     (case find_batch u db of
        None \<Rightarrow> db
      | Some b \<Rightarrow>
          (case devs d of
             None \<Rightarrow> db
           | Some (org, site) \<Rightarrow>
               let hit = (\<lambda>l. dl_BatchID l = bl_ID b \<and> dl_DeviceID l = d);
                   logs = (if list_ex hit (cd_logs db)
                           then map (\<lambda>l. if hit l then l\<lparr>dl_Success := ok, dl_ErrorInfo := err\<rparr> else l) (cd_logs db)
                           else cd_logs db @
                             [\<lparr>dl_BatchID = bl_ID b, dl_DeviceID = d, dl_Success = ok, dl_ErrorInfo = err,
                               dl_OrgID = org, dl_SiteID = site\<rparr>]);
                   owner = (case List.find hit logs of None \<Rightarrow> org | Some l \<Rightarrow> dl_OrgID l)
               in db\<lparr>cd_logs := logs,
                     cd_cleared := (if bl_Type b = ''FirmwareUpdate'' \<and> bl_OrganizationID b = owner
                                    then cd_cleared db @ [(d, u)] else cd_cleared db)\<rparr>))"

section \<open>The message queue\<close>

record queue_config =
  qc_DequeLimit :: int
  qc_MaxFailureRetries :: int

record message =
  ms_ID :: int
  ms_BatchUUID :: string
  ms_CommandType :: command_type
  ms_DeviceID :: int
  ms_Payload :: string
  ms_RetryCount :: int
  ms_OrgID :: int

definition new_message :: "gotime \<Rightarrow> string \<Rightarrow> command_type \<Rightarrow> int \<Rightarrow> int \<Rightarrow> string \<Rightarrow> queue_message" where
  "new_message now u t i d p =
     \<lparr>qm_ID = i, qm_BatchUUID = u, qm_CommandType = Type_String t, qm_DeviceID = d, qm_Status = QPending,
      qm_RetryCount = 0, qm_ErrorInfo = None, qm_Payload = p, qm_CreatedAt = now, qm_UpdatedAt = now\<rparr>"

fun new_messages :: "gotime \<Rightarrow> string \<Rightarrow> command_type \<Rightarrow> int \<Rightarrow> (int \<times> string) list \<Rightarrow> queue_message list" where
  "new_messages now u t i [] = []"
| "new_messages now u t i ((d, p) # ms) = new_message now u t i d p # new_messages now u t (i + 1) ms"

text \<open>\<open>CreateQueueMessages\<close>; a message of an unknown device violates the foreign key.\<close>

definition CreateQueueMessages :: "device_table \<Rightarrow> gotime \<Rightarrow> string \<Rightarrow> command_type \<Rightarrow> (int \<times> string) list \<Rightarrow>
    command_db \<Rightarrow> command_db option" where
  "CreateQueueMessages devs now u t ms db =
     (if list_all (\<lambda>(d, _). devs d \<noteq> None) ms
      then Some (db\<lparr>cd_messages := cd_messages db @ new_messages now u t (cd_nextMessage db) ms,
                    cd_nextMessage := cd_nextMessage db + int (length ms)\<rparr>)
      else None)"

definition enqueueEncoded :: "device_table \<Rightarrow> gotime \<Rightarrow> string \<Rightarrow> command_type \<Rightarrow> (int \<times> string) list \<Rightarrow>
    command_db \<Rightarrow> fleet_error + command_db" where
  "enqueueEncoded devs now u t ms db =
     (case find_batch u db of
        None \<Rightarrow> Inl (FleetError CodeInternal ''failed to lock command batch'')
      | Some b \<Rightarrow>
          if bl_Status b \<noteq> BPending
          then Inl (FleetError CodeInternal ''cannot enqueue messages for command batch in this status'')
          else case CreateQueueMessages devs now u t ms db of
            None \<Rightarrow> Inl (FleetError CodeInternal ''failed to enqueue messages'')
          | Some db \<Rightarrow> Inr db)"

text \<open>The loop of \<open>Dequeue\<close>: an error rolls back every claim of the call.\<close>

fun dequeue_loop :: "device_table \<Rightarrow> gotime \<Rightarrow> queue_message list \<Rightarrow> command_db \<Rightarrow>
    fleet_error + message list \<times> command_db" where
  "dequeue_loop devs now [] db = Inr ([], db)"
| "dequeue_loop devs now (m # ms) db =
     (case ClaimMessageForProcessing now (qm_ID m) db of (n, db1) \<Rightarrow>
        if n = 0 then dequeue_loop devs now ms db1
        else case FromString (qm_CommandType m) of
          None \<Rightarrow> Inl (FleetError CodeInternal ''invalid command type'')
        | Some t \<Rightarrow>
            (case dequeue_loop devs now ms db1 of
               Inl err \<Rightarrow> Inl err
             | Inr (out, db2) \<Rightarrow>
                 Inr (\<lparr>ms_ID = qm_ID m, ms_BatchUUID = qm_BatchUUID m, ms_CommandType = t,
                       ms_DeviceID = qm_DeviceID m, ms_Payload = qm_Payload m, ms_RetryCount = qm_RetryCount m,
                       ms_OrgID = (case devs (qm_DeviceID m) of None \<Rightarrow> 0 | Some (org, _) \<Rightarrow> org)\<rparr> # out, db2)))"

definition Dequeue :: "device_table \<Rightarrow> queue_config \<Rightarrow> gotime \<Rightarrow> int \<Rightarrow> command_db \<Rightarrow>
    fleet_error + message list \<times> command_db" where
  "Dequeue devs cfg now limit db =
     (if limit \<le> 0 then Inr ([], db)
      else
        let limit = (if 0 < qc_DequeLimit cfg then min limit (qc_DequeLimit cfg) else limit)
        in dequeue_loop devs now (GetMessagesToProcess devs (qc_MaxFailureRetries cfg) limit db) db)"

end
