(* ===== verification/Command_Worker.thy ===== *)
theory Command_Worker
  imports Command_Queue Go_Text
begin

text \<open>
  The transactions around a command: what a worker writes when it is done (\<open>workerProcessCommand\<close>), the
  reaper and the reaping at start-up of \<open>command/execution_service.go\<close>, the worker slots, and the batch side
  of \<open>command/service.go\<close>: failed enqueues and the routine that follows a batch to its end.
\<close>

section \<open>Errors of a worker\<close>

text \<open>
  A \<open>FleetError\<close> with its debug message and its text, an error of the RPC library, or any other error.
\<close>

datatype worker_error =
    WorkerFleetError grpc_code string string
  | WorkerConnectError grpc_code string
  | WorkerOtherError string

definition has_code :: "grpc_code \<Rightarrow> worker_error \<Rightarrow> bool" where
  "has_code c e =
     (case e of WorkerFleetError d _ _ \<Rightarrow> d = c | WorkerConnectError d _ \<Rightarrow> d = c | WorkerOtherError _ \<Rightarrow> False)"

definition error_text :: "worker_error \<Rightarrow> string" where
  "error_text e = (case e of WorkerFleetError _ _ t \<Rightarrow> t | WorkerConnectError _ t \<Rightarrow> t | WorkerOtherError t \<Rightarrow> t)"

text \<open>The name of a code as \<open>connect.Code\<close> prints it.\<close>

definition Code_String :: "grpc_code \<Rightarrow> string" where
  "Code_String c =
     (case c of
        CodeCanceled \<Rightarrow> ''canceled'' | CodeInvalidArgument \<Rightarrow> ''invalid_argument''
      | CodeDeadlineExceeded \<Rightarrow> ''deadline_exceeded'' | CodeNotFound \<Rightarrow> ''not_found''
      | CodeAlreadyExists \<Rightarrow> ''already_exists'' | CodePermissionDenied \<Rightarrow> ''permission_denied''
      | CodeResourceExhausted \<Rightarrow> ''resource_exhausted'' | CodeFailedPrecondition \<Rightarrow> ''failed_precondition''
      | CodeUnimplemented \<Rightarrow> ''unimplemented'' | CodeInternal \<Rightarrow> ''internal''
      | CodeUnavailable \<Rightarrow> ''unavailable'' | CodeUnauthenticated \<Rightarrow> ''unauthenticated'')"

text \<open>The bytes of the first rune of a string; a err_byte that starts no valid encoding stands alone.\<close>

definition rune_width :: "string \<Rightarrow> nat" where
  "rune_width s =
     (case map (of_char :: char \<Rightarrow> nat) s of
        [] \<Rightarrow> 0
      | a # bs \<Rightarrow>
          if 0xC2 \<le> a \<and> a < 0xE0 \<and> (case bs of b # _ \<Rightarrow> utf8_cont b | _ \<Rightarrow> False) then 2
          else if 0xE0 \<le> a \<and> a < 0xF0 \<and> (case bs of b # c # _ \<Rightarrow> utf8_second a b \<and> utf8_cont c | _ \<Rightarrow> False) then 3
          else if 0xF0 \<le> a \<and> a < 0xF5 \<and>
            (case bs of b # c # d # _ \<Rightarrow> utf8_second a b \<and> utf8_cont c \<and> utf8_cont d | _ \<Rightarrow> False) then 4
          else 1)"

lemma rune_width_pos [simp]: "0 < rune_width (c # s)"
  by (simp add: rune_width_def)

function rune_count :: "string \<Rightarrow> nat" where
  "rune_count s = (if s = [] then 0 else Suc (rune_count (drop (rune_width s) s)))"
  by pat_completeness auto

termination rune_count
proof (relation "measure length")
  fix s :: string assume "s \<noteq> []"
  then obtain c t where "s = c # t" by (cases s) auto
  then show "(drop (rune_width s) s, s) \<in> measure length" using rune_width_pos [of c t] by simp
qed simp

declare rune_count.simps [simp del]

fun take_runes :: "nat \<Rightarrow> string \<Rightarrow> string" where
  "take_runes 0 s = []"
| "take_runes (Suc n) s = take (rune_width s) s @ take_runes n (drop (rune_width s) s)"

definition maxErrorInfoRunes :: nat where
  "maxErrorInfoRunes = 2048"

definition truncationSuffix :: string where
  "truncationSuffix = ''... [truncated]''"

definition boundedErrorInfo :: "string \<Rightarrow> string option" where
  "boundedErrorInfo s =
     (if s = [] then None
      else if rune_count s \<le> maxErrorInfoRunes then Some s
      else Some (take_runes (maxErrorInfoRunes - rune_count truncationSuffix) s @ truncationSuffix))"

definition sanitizedErrorInfo :: "worker_error option \<Rightarrow> string option" where
  "sanitizedErrorInfo err =
     (case err of
        None \<Rightarrow> None
      | Some (WorkerFleetError c d _) \<Rightarrow> boundedErrorInfo (Code_String c @ (if d = [] then [] else '': '' @ d))
      | Some _ \<Rightarrow> boundedErrorInfo ''command failed'')"

section \<open>The end of a command\<close>

text \<open>The rows touched, whether the message is done, and the tables.\<close>

definition markQueueMessageStatus :: "queue_config \<Rightarrow> gotime \<Rightarrow> message \<Rightarrow> worker_error option \<Rightarrow> command_db \<Rightarrow>
    bool \<times> bool \<times> command_db" where
  "markQueueMessageStatus cfg now m err db =
     (case err of
        None \<Rightarrow> (case UpdateMessageStatus now (ms_ID m) QSuccess db of (n, db1) \<Rightarrow> (0 < n, True, db1))
      | Some e \<Rightarrow>
          if has_code CodeUnimplemented e \<or> has_code CodeFailedPrecondition e
          then (case UpdateMessagePermanentlyFailed now (ms_ID m) (error_text e) db of (n, db1) \<Rightarrow> (0 < n, True, db1))
          else (case UpdateMessageAfterFailure now (ms_ID m) (qc_MaxFailureRetries cfg) (error_text e) db of
                  (n, db1) \<Rightarrow> (0 < n, qc_MaxFailureRetries cfg \<le> ms_RetryCount m + 1, db1)))"

definition shouldRequeueRigConfig :: "command_type \<Rightarrow> bool \<Rightarrow> worker_error option \<Rightarrow> bool" where
  "shouldRequeueRigConfig t done' err \<longleftrightarrow> t = CtApplyCurtailmentConfig \<and> done' \<and> err \<noteq> None"

text \<open>The transaction after the execution; \<open>org\<close> is the organization the execution found.\<close>

definition workerProcessCommand :: "device_table \<Rightarrow> queue_config \<Rightarrow> gotime \<Rightarrow> int \<Rightarrow> message \<Rightarrow>
    worker_error option \<Rightarrow> command_db \<Rightarrow> command_db" where
  "workerProcessCommand devs cfg now org m err db =
     (case markQueueMessageStatus cfg now m err db of (updated, done', db1) \<Rightarrow>
        if \<not> updated \<or> \<not> done' then db1
        else
          let db2 = UpsertCommandOnDeviceLog devs (ms_BatchUUID m) (ms_DeviceID m) (err = None)
                (sanitizedErrorInfo err) db1
          in if shouldRequeueRigConfig (ms_CommandType m) done' err
             then db2\<lparr>cd_requeued := cd_requeued db2 @ [(org, ms_DeviceID m)]\<rparr> else db2)"

section \<open>Reaping\<close>

datatype reapMode = ReapStuck | ReapRestart

record reaper_config =
  rc_StuckMessageTimeout :: duration
  rc_FirmwareUpdateStuckTimeout :: duration

definition reaperBatchSize :: nat where
  "reaperBatchSize = 100"

definition reap_request :: "reaper_config \<Rightarrow> gotime \<Rightarrow> reapMode \<Rightarrow> reap_params" where
  "reap_request cfg now mode =
     \<lparr>rp_IncludeFresh = (mode = ReapRestart), rp_Cutoff = now - rc_StuckMessageTimeout cfg,
      rp_FirmwareCutoff = now - rc_FirmwareUpdateStuckTimeout cfg, rp_Limit = reaperBatchSize,
      rp_ErrorInfo = (if mode = ReapRestart then ''Interrupted by Fleet restart; device outcome may be unknown''
                      else ''reaped: stuck in PROCESSING beyond timeout''),
      rp_FirmwareErrorInfo = (if mode = ReapRestart then ''Interrupted by Fleet restart; device outcome may be unknown''
                      else ''reaped: firmware update stuck in PROCESSING beyond timeout'')\<rparr>"

definition log_reaped :: "device_table \<Rightarrow> command_db \<Rightarrow> queue_message \<Rightarrow> command_db" where
  "log_reaped devs db m = UpsertCommandOnDeviceLog devs (qm_BatchUUID m) (qm_DeviceID m) False (qm_ErrorInfo m) db"

definition owner_of :: "device_table \<Rightarrow> int \<Rightarrow> int" where
  "owner_of devs d = (case devs d of None \<Rightarrow> 0 | Some (org, _) \<Rightarrow> org)"

text \<open>The configuration targets to requeue, each once, by organization and device.\<close>

definition requeue_targets :: "device_table \<Rightarrow> queue_message list \<Rightarrow> (int \<times> int) list" where
  "requeue_targets devs ms =
     stable_sort (\<lambda>(a, b) (c, d). a < c \<or> (a = c \<and> b < d))
       (remdups (map (\<lambda>m. (owner_of devs (qm_DeviceID m), qm_DeviceID m))
         (filter (\<lambda>m. FromString (qm_CommandType m) = Some CtApplyCurtailmentConfig) ms)))"

definition firmware_devices :: "queue_message list \<Rightarrow> int list" where
  "firmware_devices ms = map qm_DeviceID (filter (\<lambda>m. FromString (qm_CommandType m) = Some CtFirmwareUpdate) ms)"

definition reapMessages :: "device_table \<Rightarrow> reaper_config \<Rightarrow> gotime \<Rightarrow> reapMode \<Rightarrow> command_db \<Rightarrow>
    queue_message list \<times> command_db" where
  "reapMessages devs cfg now mode db =
     (case ReapMessages devs (reap_request cfg now mode) now db of (ms, db1) \<Rightarrow>
        let db2 = foldl (log_reaped devs) db1 ms
        in (ms, db2\<lparr>cd_requeued := cd_requeued db2 @ requeue_targets devs ms,
                    cd_resets := cd_resets db2 @ firmware_devices ms\<rparr>))"

text \<open>The two loops of \<open>reapAfterRestart\<close>, with a bound on the rounds; \<open>None\<close> when the bound is not enough.\<close>

fun reap_loop :: "nat \<Rightarrow> device_table \<Rightarrow> reaper_config \<Rightarrow> gotime \<Rightarrow> command_db \<Rightarrow> command_db option" where
  "reap_loop 0 devs cfg now db = None"
| "reap_loop (Suc n) devs cfg now db =
     (case reapMessages devs cfg now ReapRestart db of (ms, db1) \<Rightarrow>
        if length ms < reaperBatchSize then Some db1 else reap_loop n devs cfg now db1)"

fun finish_loop :: "nat \<Rightarrow> gotime \<Rightarrow> command_db \<Rightarrow> command_db option" where
  "finish_loop 0 now db = None"
| "finish_loop (Suc n) now db =
     (case FinishTerminalCommandBatches now reaperBatchSize db of (k, db1) \<Rightarrow>
        if k < reaperBatchSize then Some db1 else finish_loop n now db1)"

definition reapAfterRestart :: "nat \<Rightarrow> device_table \<Rightarrow> reaper_config \<Rightarrow> gotime \<Rightarrow> command_db \<Rightarrow> command_db option" where
  "reapAfterRestart n devs cfg now db =
     (case reap_loop n devs cfg now db of None \<Rightarrow> None | Some db1 \<Rightarrow> finish_loop n now db1)"

section \<open>Batches\<close>

text \<open>What became of an enqueue that returned an error: it committed, or the batch is closed.\<close>

datatype reconcile_result = EnqueueCommitted | EnqueueFailed | ReconcileFailed

definition reconcileFailedEnqueue :: "gotime \<Rightarrow> string \<Rightarrow> nat \<Rightarrow> command_db \<Rightarrow> reconcile_result \<times> command_db" where
  "reconcileFailedEnqueue now u expected db =
     (case find_batch u db of
        None \<Rightarrow> (ReconcileFailed, db)
      | Some b \<Rightarrow>
          let n = length (batch_messages u db) in
          if n = expected then (EnqueueCommitted, db)
          else if n \<noteq> 0 then (ReconcileFailed, db)
          else if bl_Status b \<noteq> BPending then (EnqueueFailed, db)
          else (EnqueueFailed, snd (MarkCommandBatchFinishedWithStartedAt now u db)))"

text \<open>One tick of the routine that follows a batch, and its variables.\<close>

record batch_watch =
  bw_processingMarked :: bool
  bw_retries :: nat
  bw_callbackDone :: bool
  bw_batchMarked :: bool

definition maxCallbackRetries :: nat where
  "maxCallbackRetries = 3"

definition new_watch :: batch_watch where
  "new_watch = \<lparr>bw_processingMarked = False, bw_retries = 0, bw_callbackDone = False, bw_batchMarked = False\<rparr>"

definition watch_mark :: "gotime \<Rightarrow> string \<Rightarrow> batch_watch \<Rightarrow> command_db \<Rightarrow> batch_watch \<times> command_db" where
  "watch_mark now u w db =
     (if \<not> bw_batchMarked w \<and> \<not> bw_processingMarked w
      then (case MarkCommandBatchProcessing now u db of (n, db1) \<Rightarrow> (w\<lparr>bw_processingMarked := 0 < n\<rparr>, db1))
      else (w, db))"

text \<open>The callback: \<open>None\<close> when there is none, otherwise whether it succeeds. The result says whether to go on.\<close>

definition watch_callback :: "bool option \<Rightarrow> batch_watch \<Rightarrow> bool \<times> batch_watch" where
  "watch_callback cb w =
     (case cb of
        None \<Rightarrow> (True, w)
      | Some ok \<Rightarrow>
          if bw_callbackDone w then (True, w)
          else if ok then (True, w\<lparr>bw_callbackDone := True\<rparr>)
          else
            let n = bw_retries w + 1; w1 = w\<lparr>bw_retries := n\<rparr> in
            if \<not> bw_batchMarked w \<and> n < maxCallbackRetries then (False, w1)
            else (True, if maxCallbackRetries * 2 \<le> n then w1\<lparr>bw_callbackDone := True\<rparr> else w1))"

definition mark_finished :: "gotime \<Rightarrow> string \<Rightarrow> bool \<Rightarrow> command_db \<Rightarrow> command_db" where
  "mark_finished now u processing db =
     snd (if processing then MarkCommandBatchFinished now u db else MarkCommandBatchFinishedWithStartedAt now u db)"

text \<open>
  The rest of a tick once the batch was seen finished, then a whole tick. \<open>ok\<close> says whether the statement that
  marks the batch (all statements) answers; the result, whether the routine is over.
\<close>

definition watch_finish :: "gotime \<Rightarrow> string \<Rightarrow> bool \<Rightarrow> bool option \<Rightarrow> batch_watch \<Rightarrow> command_db \<Rightarrow> bool \<times> batch_watch \<times> command_db" where
  "watch_finish now u ok cb w db =
     (case watch_callback cb w of
        (False, w1) \<Rightarrow> (False, w1, db)
      | (True, w1) \<Rightarrow>
          if \<not> bw_batchMarked w1 \<and> \<not> ok then (False, w1, db)
          else
            let db1 = (if bw_batchMarked w1 then db else mark_finished now u (bw_processingMarked w1) db);
                w2 = w1\<lparr>bw_batchMarked := True\<rparr>
            in (bw_callbackDone w2 \<or> cb = None, w2, db1))"

record watch_answers =
  wa_processing :: bool
  wa_finished :: bool
  wa_mark :: bool

definition watch_tick :: "gotime \<Rightarrow> string \<Rightarrow> watch_answers \<Rightarrow> bool option \<Rightarrow> batch_watch \<Rightarrow> command_db \<Rightarrow>
    bool \<times> batch_watch \<times> command_db" where
  "watch_tick now u a cb w db =
     (if \<not> bw_batchMarked w \<and> \<not> bw_processingMarked w \<and> \<not> wa_processing a then (True, w, db)
      else
        case watch_mark now u w db of (w1, db1) \<Rightarrow>
          if \<not> bw_batchMarked w1 \<and> \<not> wa_finished a then (True, w1, db1)
          else if \<not> bw_batchMarked w1 \<and> \<not> is_batch_finished u db1 then (False, w1, db1)
          else watch_finish now u (wa_mark a) cb w1 db1)"

section \<open>Worker slots\<close>

text \<open>The semaphore: \<open>used\<close> of \<open>size\<close> places are taken. At least one place has to be free.\<close>

definition reserveWorkerSlots :: "nat \<Rightarrow> nat \<Rightarrow> (nat \<times> nat) option" where
  "reserveWorkerSlots cap used = (if used < cap then Some (cap - used, cap) else None)"

definition releaseWorkerSlots :: "nat \<Rightarrow> nat \<Rightarrow> nat" where
  "releaseWorkerSlots n used = used - n"

end
