(* ===== verification/Command_Safety.thy ===== *)
theory Command_Safety
  imports Command_Worker
begin

text \<open>
  Requests, workers, the reaper and the routines that follow batches as one system on the tables, in any
  order, with crashes and lost transactions: no command is tried more often than the configuration allows,
  a finished batch has nothing left to do, and every result is recorded once.
\<close>

section \<open>The system\<close>

text \<open>
  \<open>cs_dispatching\<close>: batches whose enqueue has not committed; \<open>cs_workers\<close>: the messages workers hold;
  \<open>cs_finishing\<close>: batches a routine saw finished; \<open>cs_claims\<close>: the messages claimed so far, in order.
\<close>

record command_system =
  cs_db :: command_db
  cs_dispatching :: "string list"
  cs_workers :: "message list"
  cs_finishing :: "string list"
  cs_claims :: "int list"

record command_config =
  cc_devices :: device_table
  cc_queue :: queue_config
  cc_reaper :: reaper_config

datatype command_op =
    OpCreate string command_type int int
  | OpEnqueue gotime string command_type "(int \<times> string) list"
  | OpReconcile gotime string nat
  | OpDequeue gotime int
  | OpDone gotime int nat "worker_error option"
  | OpLost nat
  | OpCrash
  | OpReap gotime reapMode
  | OpFinishTerminal gotime
  | OpMarkProcessing gotime string
  | OpSeen string
  | OpMarkFinished gotime string bool

text \<open>
  A batch gets a new identifier, its enqueue happens at most once and for different devices; a routine starts
  when the enqueue has committed. \<open>OpDone\<close> is the transaction of the \<open>k\<close>-th worker, \<open>OpLost\<close> its failure;
  \<open>OpCrash\<close> loses all workers.
\<close>

fun command_step :: "command_config \<Rightarrow> command_op \<Rightarrow> command_system \<Rightarrow> command_system" where
  "command_step c (OpCreate u t n org) s =
     (if u \<in> set (map bl_UUID (cd_batches (cs_db s))) then s
      else s\<lparr>cs_db := CreateCommandBatchLog u t n org (cs_db s), cs_dispatching := u # cs_dispatching s\<rparr>)"
| "command_step c (OpEnqueue now u t ms) s =
     (if u \<notin> set (cs_dispatching s) \<or> \<not> distinct (map fst ms) then s
      else case enqueueEncoded (cc_devices c) now u t ms (cs_db s) of
        Inl err \<Rightarrow> s
      | Inr db \<Rightarrow> s\<lparr>cs_db := db, cs_dispatching := removeAll u (cs_dispatching s)\<rparr>)"
| "command_step c (OpReconcile now u n) s = s\<lparr>cs_db := snd (reconcileFailedEnqueue now u n (cs_db s))\<rparr>"
| "command_step c (OpDequeue now limit) s =
     (case Dequeue (cc_devices c) (cc_queue c) now limit (cs_db s) of
        Inl err \<Rightarrow> s
      | Inr (ms, db) \<Rightarrow>
          s\<lparr>cs_db := db, cs_workers := cs_workers s @ ms, cs_claims := cs_claims s @ map ms_ID ms\<rparr>)"
| "command_step c (OpDone now org k err) s =
     (if length (cs_workers s) \<le> k then s
      else s\<lparr>cs_db := workerProcessCommand (cc_devices c) (cc_queue c) now org (cs_workers s ! k) err (cs_db s),
             cs_workers := take k (cs_workers s) @ drop (Suc k) (cs_workers s)\<rparr>)"
| "command_step c (OpLost k) s = s\<lparr>cs_workers := take k (cs_workers s) @ drop (Suc k) (cs_workers s)\<rparr>"
| "command_step c OpCrash s = s\<lparr>cs_workers := []\<rparr>"
| "command_step c (OpReap now mode) s = s\<lparr>cs_db := snd (reapMessages (cc_devices c) (cc_reaper c) now mode (cs_db s))\<rparr>"
| "command_step c (OpFinishTerminal now) s =
     s\<lparr>cs_db := snd (FinishTerminalCommandBatches now reaperBatchSize (cs_db s))\<rparr>"
| "command_step c (OpMarkProcessing now u) s =
     (if u \<in> set (cs_dispatching s) then s else s\<lparr>cs_db := snd (MarkCommandBatchProcessing now u (cs_db s))\<rparr>)"
| "command_step c (OpSeen u) s =
     (if u \<in> set (cs_dispatching s) \<or> \<not> is_batch_finished u (cs_db s) then s
      else s\<lparr>cs_finishing := u # cs_finishing s\<rparr>)"
| "command_step c (OpMarkFinished now u processing) s =
     (if u \<notin> set (cs_finishing s) then s else s\<lparr>cs_db := mark_finished now u processing (cs_db s)\<rparr>)"

definition run_commands :: "command_config \<Rightarrow> command_op list \<Rightarrow> command_system \<Rightarrow> command_system" where
  "run_commands c ops s = foldl (\<lambda>s op. command_step c op s) s ops"

definition empty_commands :: command_system where
  "empty_commands =
     \<lparr>cs_db = \<lparr>cd_messages = [], cd_batches = [], cd_logs = [], cd_nextMessage = 1, cd_nextBatch = 1,
        cd_requeued = [], cd_resets = [], cd_cleared = []\<rparr>,
      cs_dispatching = [], cs_workers = [], cs_finishing = [], cs_claims = []\<rparr>"

section \<open>The invariant\<close>

definition keys_sound :: "device_table \<Rightarrow> command_db \<Rightarrow> bool" where
  "keys_sound devs db \<longleftrightarrow>
     distinct (map qm_ID (cd_messages db)) \<and> (\<forall>m \<in> set (cd_messages db). qm_ID m < cd_nextMessage db) \<and>
     distinct (map (\<lambda>m. (qm_BatchUUID m, qm_DeviceID m)) (cd_messages db)) \<and>
     (\<forall>m \<in> set (cd_messages db). devs (qm_DeviceID m) \<noteq> None \<and> FromString (qm_CommandType m) \<noteq> None \<and>
        qm_BatchUUID m \<in> bl_UUID ` set (cd_batches db)) \<and>
     distinct (map bl_UUID (cd_batches db)) \<and> distinct (map bl_ID (cd_batches db)) \<and>
     (\<forall>b \<in> set (cd_batches db). bl_ID b < cd_nextBatch db)"

text \<open>How often a message was claimed, by its status and retries.\<close>

definition tries_sound :: "int \<Rightarrow> int list \<Rightarrow> queue_message \<Rightarrow> bool" where
  "tries_sound maxRetries claims m \<longleftrightarrow>
     0 \<le> qm_RetryCount m \<and>
     (let n = int (count_list claims (qm_ID m)) in
      case qm_Status m of
        QPending \<Rightarrow> n = qm_RetryCount m \<and> (qm_RetryCount m < maxRetries \<or> qm_RetryCount m = 0)
      | QProcessing \<Rightarrow> n = qm_RetryCount m + 1 \<and> qm_RetryCount m < maxRetries
      | _ \<Rightarrow> n \<le> maxRetries)"

definition worker_sound :: "command_db \<Rightarrow> message \<Rightarrow> bool" where
  "worker_sound db w \<longleftrightarrow>
     (\<exists>m \<in> set (cd_messages db). qm_ID m = ms_ID w \<and> qm_BatchUUID m = ms_BatchUUID w \<and> qm_DeviceID m = ms_DeviceID w \<and>
        qm_CommandType m = Type_String (ms_CommandType w) \<and>
        (qm_Status m = QProcessing \<and> qm_RetryCount m = ms_RetryCount w \<or> qm_Status m = QFailed))"

definition batch_settled :: "command_db \<Rightarrow> string \<Rightarrow> bool" where
  "batch_settled db u \<longleftrightarrow> (\<forall>m \<in> set (cd_messages db). qm_BatchUUID m = u \<longrightarrow> terminal m)"

definition recorded :: "command_db \<Rightarrow> queue_message \<Rightarrow> device_log \<Rightarrow> bool" where
  "recorded db m l \<longleftrightarrow>
     dl_DeviceID l = qm_DeviceID m \<and> dl_Success l = (qm_Status m = QSuccess) \<and>
     (\<exists>b \<in> set (cd_batches db). bl_UUID b = qm_BatchUUID m \<and> bl_ID b = dl_BatchID l)"

text \<open>The results are those of the messages in \<open>S\<close>, each once.\<close>

definition logs_for :: "command_db \<Rightarrow> queue_message set \<Rightarrow> bool" where
  "logs_for db S \<longleftrightarrow>
     (\<forall>m \<in> S. \<exists>l \<in> set (cd_logs db). recorded db m l) \<and>
     (\<forall>l \<in> set (cd_logs db). \<exists>m \<in> S. recorded db m l) \<and>
     distinct (map (\<lambda>l. (dl_BatchID l, dl_DeviceID l)) (cd_logs db))"

definition logs_sound :: "command_db \<Rightarrow> bool" where
  "logs_sound db \<longleftrightarrow> logs_for db {m \<in> set (cd_messages db). terminal m}"

definition command_inv :: "command_config \<Rightarrow> command_system \<Rightarrow> bool" where
  "command_inv c s \<longleftrightarrow>
     keys_sound (cc_devices c) (cs_db s) \<and>
     (\<forall>m \<in> set (cd_messages (cs_db s)). tries_sound (qc_MaxFailureRetries (cc_queue c)) (cs_claims s) m) \<and>
     (\<forall>i \<in> set (cs_claims s). i < cd_nextMessage (cs_db s)) \<and>
     (\<forall>w \<in> set (cs_workers s). worker_sound (cs_db s) w) \<and> distinct (map ms_ID (cs_workers s)) \<and>
     (\<forall>u \<in> set (cs_dispatching s). u \<notin> qm_BatchUUID ` set (cd_messages (cs_db s))) \<and>
     (\<forall>u \<in> set (cs_finishing s). u \<notin> set (cs_dispatching s) \<and> batch_settled (cs_db s) u \<and>
        u \<in> bl_UUID ` set (cd_batches (cs_db s))) \<and>
     (\<forall>b \<in> set (cd_batches (cs_db s)). bl_Status b = BFinished \<longrightarrow> batch_settled (cs_db s) (bl_UUID b)) \<and>
     logs_sound (cs_db s)"

lemma command_inv_empty [simp]: "command_inv c empty_commands"
  by (simp add: command_inv_def empty_commands_def keys_sound_def logs_sound_def logs_for_def)

section \<open>Rows that change in place\<close>

definition message_step :: "queue_message \<Rightarrow> queue_message \<Rightarrow> bool" where
  "message_step m m' \<longleftrightarrow>
     m' = m \<or>
     \<not> terminal m \<and> qm_ID m' = qm_ID m \<and> qm_BatchUUID m' = qm_BatchUUID m \<and> qm_DeviceID m' = qm_DeviceID m \<and>
     qm_CommandType m' = qm_CommandType m"

definition batch_step :: "batch_row \<Rightarrow> batch_row \<Rightarrow> bool" where
  "batch_step b b' \<longleftrightarrow> bl_ID b' = bl_ID b \<and> bl_UUID b' = bl_UUID b \<and> bl_Type b' = bl_Type b"

definition tables_step :: "command_db \<Rightarrow> command_db \<Rightarrow> bool" where
  "tables_step db db' \<longleftrightarrow>
     list_all2 message_step (cd_messages db) (cd_messages db') \<and> list_all2 batch_step (cd_batches db) (cd_batches db') \<and>
     cd_nextMessage db' = cd_nextMessage db \<and> cd_nextBatch db' = cd_nextBatch db"

lemma message_step_refl [simp]: "message_step m m"
  by (simp add: message_step_def)

lemma batch_step_refl [simp]: "batch_step b b"
  by (simp add: batch_step_def)

lemma message_step_keys:
  "message_step m m' \<Longrightarrow> qm_ID m' = qm_ID m \<and> qm_BatchUUID m' = qm_BatchUUID m \<and> qm_DeviceID m' = qm_DeviceID m \<and>
     qm_CommandType m' = qm_CommandType m"
  by (auto simp: message_step_def)

lemma list_all2_same_map: "list_all2 R xs ys \<Longrightarrow> (\<And>x y. R x y \<Longrightarrow> f y = f x) \<Longrightarrow> map f ys = map f xs"
  by (induction xs ys rule: list_all2_induct) auto

lemma list_all2_source: "list_all2 R xs ys \<Longrightarrow> y \<in> set ys \<Longrightarrow> \<exists>x \<in> set xs. R x y"
  by (induction xs ys rule: list_all2_induct) auto

lemma list_all2_target: "list_all2 R xs ys \<Longrightarrow> x \<in> set xs \<Longrightarrow> \<exists>y \<in> set ys. R x y"
  by (induction xs ys rule: list_all2_induct) auto

lemma list_all2_map_if:
  "(\<And>x. P x \<Longrightarrow> R x (f x)) \<Longrightarrow> (\<And>x. R x x) \<Longrightarrow> list_all2 R xs (map (\<lambda>x. if P x then f x else x) xs)"
  by (induction xs) auto

lemma tables_step_refl [simp]: "tables_step db db"
  by (simp add: tables_step_def list_all2_refl)

lemma tables_step_maps:
  assumes "tables_step db db'"
  shows "map qm_ID (cd_messages db') = map qm_ID (cd_messages db)"
    "map (\<lambda>m. (qm_BatchUUID m, qm_DeviceID m)) (cd_messages db') = map (\<lambda>m. (qm_BatchUUID m, qm_DeviceID m)) (cd_messages db)"
    "map qm_BatchUUID (cd_messages db') = map qm_BatchUUID (cd_messages db)"
    "map bl_UUID (cd_batches db') = map bl_UUID (cd_batches db)" "map bl_ID (cd_batches db') = map bl_ID (cd_batches db)"
  using assms by (auto simp: tables_step_def batch_step_def dest!: message_step_keys intro!: list_all2_same_map)

lemma tables_step_keys:
  assumes k: "keys_sound devs db" and r: "tables_step db db'"
  shows "keys_sound devs db'"
proof -
  note maps = tables_step_maps [OF r]
  have m: "\<exists>x \<in> set (cd_messages db). message_step x y" if "y \<in> set (cd_messages db')" for y
    using r that list_all2_source by (metis tables_step_def)
  have b: "\<exists>x \<in> set (cd_batches db). batch_step x y" if "y \<in> set (cd_batches db')" for y
    using r that list_all2_source by (metis tables_step_def)
  have u: "bl_UUID ` set (cd_batches db') = bl_UUID ` set (cd_batches db)" using maps(4) by (metis set_map)
  have n: "cd_nextMessage db' = cd_nextMessage db" "cd_nextBatch db' = cd_nextBatch db" using r by (simp_all add: tables_step_def)
  have "\<forall>y \<in> set (cd_messages db'). qm_ID y < cd_nextMessage db' \<and> devs (qm_DeviceID y) \<noteq> None \<and>
      FromString (qm_CommandType y) \<noteq> None \<and> qm_BatchUUID y \<in> bl_UUID ` set (cd_batches db')"
  proof
    fix y assume "y \<in> set (cd_messages db')"
    then obtain x where "x \<in> set (cd_messages db)" "message_step x y" using m by blast
    then show "qm_ID y < cd_nextMessage db' \<and> devs (qm_DeviceID y) \<noteq> None \<and>
      FromString (qm_CommandType y) \<noteq> None \<and> qm_BatchUUID y \<in> bl_UUID ` set (cd_batches db')"
      using k message_step_keys [of x y] by (auto simp: keys_sound_def u n)
  qed
  moreover have "\<forall>y \<in> set (cd_batches db'). bl_ID y < cd_nextBatch db'"
    using b k n by (fastforce simp: keys_sound_def batch_step_def)
  ultimately show ?thesis using k by (simp add: keys_sound_def maps)
qed

lemma tables_step_settled:
  assumes "tables_step db db'" "batch_settled db u"
  shows "batch_settled db' u"
  unfolding batch_settled_def
proof (intro ballI impI)
  fix y assume y: "y \<in> set (cd_messages db')" "qm_BatchUUID y = u"
  then obtain x where x: "x \<in> set (cd_messages db)" "message_step x y"
    using assms(1) list_all2_source by (metis tables_step_def)
  then have "terminal x" using assms(2) y message_step_keys by (auto simp: batch_settled_def)
  then show "terminal y" using x(2) by (simp add: message_step_def)
qed

lemma tables_step_uuids:
  "tables_step db db' \<Longrightarrow> qm_BatchUUID ` set (cd_messages db') = qm_BatchUUID ` set (cd_messages db)"
  "tables_step db db' \<Longrightarrow> bl_UUID ` set (cd_batches db') = bl_UUID ` set (cd_batches db)"
  using tables_step_maps(3,4) by (metis set_map)+

section \<open>Results\<close>

lemma find_batch_iff:
  assumes "keys_sound devs db"
  shows "find_batch u db = Some b \<longleftrightarrow> b \<in> set (cd_batches db) \<and> bl_UUID b = u"
proof -
  have d: "distinct (map bl_UUID (cd_batches db))" using assms by (simp add: keys_sound_def)
  have "List.find (\<lambda>b. bl_UUID b = u) bs = Some b \<longleftrightarrow> b \<in> set bs \<and> bl_UUID b = u" if "distinct (map bl_UUID bs)" for bs
    using that by (induction bs) auto
  then show ?thesis using d by (simp add: find_batch_def)
qed

lemma batch_of_id:
  "keys_sound devs db \<Longrightarrow> a \<in> set (cd_batches db) \<Longrightarrow> b \<in> set (cd_batches db) \<Longrightarrow> bl_ID a = bl_ID b \<Longrightarrow> a = b"
  by (auto simp: keys_sound_def distinct_map dest: inj_onD)

lemma batch_of_uuid:
  "keys_sound devs db \<Longrightarrow> a \<in> set (cd_batches db) \<Longrightarrow> b \<in> set (cd_batches db) \<Longrightarrow> bl_UUID a = bl_UUID b \<Longrightarrow> a = b"
  by (auto simp: keys_sound_def distinct_map dest: inj_onD)

lemma upsert_rows [simp]:
  "cd_messages (UpsertCommandOnDeviceLog devs u d ok err db) = cd_messages db"
  "cd_batches (UpsertCommandOnDeviceLog devs u d ok err db) = cd_batches db"
  "cd_nextMessage (UpsertCommandOnDeviceLog devs u d ok err db) = cd_nextMessage db"
  "cd_nextBatch (UpsertCommandOnDeviceLog devs u d ok err db) = cd_nextBatch db"
  by (simp_all add: UpsertCommandOnDeviceLog_def Let_def split: option.splits)

lemma recorded_upsert [simp]: "recorded (UpsertCommandOnDeviceLog devs u d ok err db) = recorded db"
  by (intro ext) (simp add: recorded_def)

text \<open>The first result of a message is a new row.\<close>

lemma upsert_adds:
  assumes k: "keys_sound devs db" and l: "logs_for db S"
    and b: "qm_BatchUUID m \<in> bl_UUID ` set (cd_batches db)" and d: "devs (qm_DeviceID m) \<noteq> None"
    and new: "\<forall>x \<in> S. (qm_BatchUUID x, qm_DeviceID x) \<noteq> (qm_BatchUUID m, qm_DeviceID m)"
    and ok: "ok = (qm_Status m = QSuccess)"
  shows "logs_for (UpsertCommandOnDeviceLog devs (qm_BatchUUID m) (qm_DeviceID m) ok err db) (insert m S)"
proof -
  obtain r where r: "r \<in> set (cd_batches db)" "bl_UUID r = qm_BatchUUID m" using b by auto
  then have f: "find_batch (qm_BatchUUID m) db = Some r" using find_batch_iff [OF k] by blast
  obtain org site where ds: "devs (qm_DeviceID m) = Some (org, site)" using d by auto
  have none: "\<not> (dl_BatchID x = bl_ID r \<and> dl_DeviceID x = qm_DeviceID m)" if x: "x \<in> set (cd_logs db)" for x
  proof
    assume h: "dl_BatchID x = bl_ID r \<and> dl_DeviceID x = qm_DeviceID m"
    obtain y where y: "y \<in> S" "recorded db y x" using l x by (auto simp: logs_for_def)
    then obtain a where "a \<in> set (cd_batches db)" "bl_UUID a = qm_BatchUUID y" "bl_ID a = dl_BatchID x"
      "dl_DeviceID x = qm_DeviceID y" by (auto simp: recorded_def)
    then show False using h batch_of_id [OF k r(1)] r(2) new y(1) by (metis prod.inject)
  qed
  define row where "row = \<lparr>dl_BatchID = bl_ID r, dl_DeviceID = qm_DeviceID m, dl_Success = ok, dl_ErrorInfo = err,
     dl_OrgID = org, dl_SiteID = site\<rparr>"
  let ?db = "UpsertCommandOnDeviceLog devs (qm_BatchUUID m) (qm_DeviceID m) ok err db"
  have logs: "cd_logs ?db = cd_logs db @ [row]"
    using none f ds by (auto simp: UpsertCommandOnDeviceLog_def Let_def list_ex_iff row_def)
  have "recorded db m row" using r ok by (auto simp: recorded_def row_def)
  moreover have "(dl_BatchID row, dl_DeviceID row) \<notin> (\<lambda>l. (dl_BatchID l, dl_DeviceID l)) ` set (cd_logs db)"
    using none by (fastforce simp: row_def)
  ultimately show ?thesis using l by (auto simp: logs_for_def logs)
qed

lemma logs_for_rows: "cd_logs db' = cd_logs db \<Longrightarrow> recorded db' = recorded db \<Longrightarrow> logs_for db' S = logs_for db S"
  by (simp add: logs_for_def)

lemma recorded_batches:
  "list_all2 batch_step (cd_batches db) (cd_batches db') \<Longrightarrow> recorded db' = recorded db"
proof (intro ext)
  fix m l
  assume b: "list_all2 batch_step (cd_batches db) (cd_batches db')"
  then show "recorded db' m l = recorded db m l"
    using list_all2_source [OF b] list_all2_target [OF b]
    by (auto simp: recorded_def batch_step_def) metis+
qed

section \<open>Claims\<close>

definition claimed :: "gotime \<Rightarrow> queue_message \<Rightarrow> queue_message" where
  "claimed now m = m\<lparr>qm_Status := QProcessing, qm_UpdatedAt := now\<rparr>"

definition held_by :: "message \<Rightarrow> queue_message \<Rightarrow> bool" where
  "held_by w m \<longleftrightarrow> ms_ID w = qm_ID m \<and> ms_BatchUUID w = qm_BatchUUID m \<and> ms_DeviceID w = qm_DeviceID m \<and>
     ms_RetryCount w = qm_RetryCount m \<and> qm_CommandType m = Type_String (ms_CommandType w)"

definition claim_all :: "gotime \<Rightarrow> queue_message list \<Rightarrow> command_db \<Rightarrow> command_db" where
  "claim_all now ms db =
     db\<lparr>cd_messages := map (\<lambda>m. if qm_ID m \<in> qm_ID ` set ms then claimed now m else m) (cd_messages db)\<rparr>"

lemma FromString_name: "FromString n = Some t \<Longrightarrow> n = Type_String t"
proof -
  assume "FromString n = Some t"
  then have "(t, n) \<in> set command_types" by (auto simp: FromString_def dest!: map_of_SomeD)
  then show ?thesis by (auto simp: command_types_def Type_String_def)
qed

lemma claim_one:
  assumes d: "distinct (map qm_ID (cd_messages db))" and m: "m \<in> set (cd_messages db)" "qm_Status m = QPending"
  shows "ClaimMessageForProcessing now (qm_ID m) db = (1, claim_all now [m] db)"
proof -
  have id: "x = m" if "x \<in> set (cd_messages db)" "qm_ID x = qm_ID m" for x
    using d m(1) that by (auto simp: distinct_map dest: inj_onD)
  have "filter (\<lambda>x. qm_ID x = qm_ID m \<and> qm_Status x = QPending) (cd_messages db) = filter (\<lambda>x. x = m) (cd_messages db)"
    using id m(2) by (intro filter_cong) auto
  also have "length \<dots> = 1"
    using m(1) d by (simp add: distinct_length_filter distinct_map Int_insert_right)
  finally have n: "length (filter (\<lambda>x. qm_ID x = qm_ID m \<and> qm_Status x = QPending) (cd_messages db)) = 1" by simp
  have "map (\<lambda>x. if qm_ID x = qm_ID m \<and> qm_Status x = QPending then x\<lparr>qm_Status := QProcessing, qm_UpdatedAt := now\<rparr> else x)
      (cd_messages db) = map (\<lambda>x. if qm_ID x \<in> qm_ID ` set [m] then claimed now x else x) (cd_messages db)"
    using id m(2) by (intro map_cong refl) (auto simp: claimed_def)
  then show ?thesis using n
    by (simp add: ClaimMessageForProcessing_def update_messages_def claim_all_def)
qed

lemma dequeue_loop_takes_all:
  assumes "distinct (map qm_ID (cd_messages db))" "distinct (map qm_ID ms)" "set ms \<subseteq> set (cd_messages db)"
    "\<forall>m \<in> set ms. qm_Status m = QPending \<and> FromString (qm_CommandType m) \<noteq> None"
  shows "\<exists>out. dequeue_loop devs now ms db = Inr (out, claim_all now ms db) \<and> list_all2 held_by out ms"
  using assms
proof (induction ms arbitrary: db)
  case Nil
  show ?case by (simp add: claim_all_def)
next
  case (Cons m ms)
  have m: "m \<in> set (cd_messages db)" "qm_Status m = QPending" using Cons.prems by auto
  obtain t where t: "FromString (qm_CommandType m) = Some t" using Cons.prems(4) by auto
  let ?db = "claim_all now [m] db"
  have ids: "map qm_ID (cd_messages ?db) = map qm_ID (cd_messages db)" by (auto simp: claim_all_def claimed_def)
  have sub: "set ms \<subseteq> set (cd_messages ?db)"
  proof
    fix x assume x: "x \<in> set ms"
    then have "x \<in> set (cd_messages db)" "qm_ID x \<noteq> qm_ID m" using Cons.prems(2,3) by (auto simp: image_iff)
    then show "x \<in> set (cd_messages ?db)" by (auto simp: claim_all_def image_iff intro!: bexI [of _ x])
  qed
  obtain out where o: "dequeue_loop devs now ms ?db = Inr (out, claim_all now ms ?db)" "list_all2 held_by out ms"
    using Cons.IH [of ?db] Cons.prems sub unfolding ids by auto
  have "claim_all now ms ?db = claim_all now (m # ms) db"
    by (auto simp: claim_all_def claimed_def)
  then show ?case
    using o t FromString_name [OF t] by (auto simp: claim_one [OF Cons.prems(1) m] held_by_def [abs_def] split: option.splits)
qed

section \<open>Every operation keeps the invariant\<close>

abbreviation max_tries :: "command_config \<Rightarrow> int" where
  "max_tries c \<equiv> qc_MaxFailureRetries (cc_queue c)"

lemma inv_frame:
  assumes I: "command_inv c s" and r: "tables_step (cs_db s) db'"
    and tries: "\<forall>m \<in> set (cd_messages db'). tries_sound (max_tries c) claims m"
    and ids: "\<forall>i \<in> set claims. i < cd_nextMessage (cs_db s)"
    and work: "\<forall>w \<in> set ws. worker_sound db' w" "distinct (map ms_ID ws)"
    and fin: "\<forall>b \<in> set (cd_batches db'). bl_Status b = BFinished \<longrightarrow> batch_settled db' (bl_UUID b)"
    and logs: "logs_sound db'"
  shows "command_inv c (s\<lparr>cs_db := db', cs_workers := ws, cs_claims := claims\<rparr>)"
proof -
  have "keys_sound (cc_devices c) db'" using I r tables_step_keys by (auto simp: command_inv_def)
  moreover have "\<forall>u \<in> set (cs_dispatching s). u \<notin> qm_BatchUUID ` set (cd_messages db')"
    using I unfolding tables_step_uuids(1) [OF r] by (simp add: command_inv_def)
  moreover have "\<forall>u \<in> set (cs_finishing s). u \<notin> set (cs_dispatching s) \<and> batch_settled db' u \<and>
      u \<in> bl_UUID ` set (cd_batches db')"
    using I tables_step_settled [OF r] unfolding tables_step_uuids(2) [OF r] by (simp add: command_inv_def)
  moreover have "cd_nextMessage db' = cd_nextMessage (cs_db s)" using r by (simp add: tables_step_def)
  ultimately show ?thesis using tries ids work fin logs by (simp add: command_inv_def)
qed

lemma inv_batches:
  assumes I: "command_inv c s" and step: "\<And>b. P b \<Longrightarrow> batch_step b (f b)"
    and fin: "\<And>b. b \<in> set (cd_batches (cs_db s)) \<Longrightarrow> P b \<Longrightarrow> bl_Status (f b) = BFinished \<Longrightarrow> batch_settled (cs_db s) (bl_UUID b)"
  shows "command_inv c (s\<lparr>cs_db := snd (update_batches P f (cs_db s))\<rparr>)"
proof -
  let ?db = "snd (update_batches P f (cs_db s))"
  have b: "list_all2 batch_step (cd_batches (cs_db s)) (cd_batches ?db)"
    using step by (simp add: update_batches_def list_all2_map_if)
  have m: "cd_messages ?db = cd_messages (cs_db s)" "cd_logs ?db = cd_logs (cs_db s)" by (simp_all add: update_batches_def)
  have r: "tables_step (cs_db s) ?db" using b by (simp add: tables_step_def update_batches_def list_all2_refl)
  have "logs_sound ?db"
    using I logs_for_rows [OF m(2) recorded_batches [OF b]] by (simp add: logs_sound_def m command_inv_def)
  moreover have "\<forall>b \<in> set (cd_batches ?db). bl_Status b = BFinished \<longrightarrow> batch_settled ?db (bl_UUID b)"
  proof (intro ballI impI)
    fix b assume "b \<in> set (cd_batches ?db)" "bl_Status b = BFinished"
    then obtain a where a: "a \<in> set (cd_batches (cs_db s))" "b = (if P a then f a else a)" "bl_Status b = BFinished"
      by (auto simp: update_batches_def)
    have "batch_settled (cs_db s) (bl_UUID a)"
      using I fin [OF a(1)] a by (cases "P a") (auto simp: command_inv_def)
    then show "batch_settled ?db (bl_UUID b)"
      using a step [of a] by (cases "P a") (auto simp: batch_settled_def m batch_step_def)
  qed
  ultimately have "command_inv c (s\<lparr>cs_db := ?db, cs_workers := cs_workers s, cs_claims := cs_claims s\<rparr>)"
    using I by (intro inv_frame [OF I r]) (auto simp: command_inv_def m worker_sound_def)
  then show ?thesis by simp
qed

lemma create_inv:
  assumes I: "command_inv c s" and new: "u \<notin> bl_UUID ` set (cd_batches (cs_db s))"
  shows "command_inv c (s\<lparr>cs_db := CreateCommandBatchLog u t n org (cs_db s), cs_dispatching := u # cs_dispatching s\<rparr>)"
proof -
  let ?db = "CreateCommandBatchLog u t n org (cs_db s)"
  have k: "keys_sound (cc_devices c) (cs_db s)" using I by (simp add: command_inv_def)
  have k': "keys_sound (cc_devices c) ?db"
    using k new by (fastforce simp: keys_sound_def CreateCommandBatchLog_def)
  have old: "x \<in> set (cd_batches (cs_db s)) \<Longrightarrow> bl_ID x < cd_nextBatch (cs_db s)" for x using k by (simp add: keys_sound_def)
  have m: "cd_messages ?db = cd_messages (cs_db s)" "cd_logs ?db = cd_logs (cs_db s)"
    "cd_nextMessage ?db = cd_nextMessage (cs_db s)" by (simp_all add: CreateCommandBatchLog_def)
  have u: "u \<notin> qm_BatchUUID ` set (cd_messages (cs_db s))" using k new by (auto simp: keys_sound_def)
  have rec: "recorded ?db x l = recorded (cs_db s) x l" if "x \<in> set (cd_messages (cs_db s))" for x l
    using u that by (auto simp: recorded_def CreateCommandBatchLog_def)
  have "logs_for ?db {m \<in> set (cd_messages (cs_db s)). terminal m}"
    using I rec by (simp add: command_inv_def logs_sound_def logs_for_def m)
  then have l: "logs_sound ?db" by (simp add: logs_sound_def m)
  have st: "batch_settled ?db v = batch_settled (cs_db s) v" for v by (simp add: batch_settled_def m)
  have "\<forall>b \<in> set (cd_batches ?db). bl_Status b = BFinished \<longrightarrow> batch_settled ?db (bl_UUID b)"
    using I by (auto simp: command_inv_def CreateCommandBatchLog_def st batch_settled_def)
  moreover have "\<forall>v \<in> set (cs_finishing s). v \<notin> set (u # cs_dispatching s) \<and> batch_settled ?db v \<and>
      v \<in> bl_UUID ` set (cd_batches ?db)"
    using I new by (auto simp: command_inv_def st) (auto simp: CreateCommandBatchLog_def)
  ultimately show ?thesis
    using I k' l u by (simp add: command_inv_def m worker_sound_def)
qed

lemma new_messages_maps:
  "map qm_DeviceID (new_messages now u t i ms) = map fst ms"
  "map qm_ID (new_messages now u t i ms) = map (\<lambda>k. i + int k) [0..<length ms]"
proof (induction now u t i ms rule: new_messages.induct)
  case (2 now u t i d p ms)
  have "[0..<length ((d, p) # ms)] = 0 # map Suc [0..<length ms]"
    by (simp add: upt_conv_Cons map_Suc_upt del: upt_Suc)
  then show "map qm_ID (new_messages now u t i ((d, p) # ms)) = map (\<lambda>k. i + int k) [0..<length ((d, p) # ms)]"
    using 2 by (simp add: new_message_def o_def algebra_simps del: upt_Suc)
qed (simp_all add: new_message_def)

lemma new_messages_members:
  "x \<in> set (new_messages now u t i ms) \<Longrightarrow>
     qm_BatchUUID x = u \<and> qm_CommandType x = Type_String t \<and> qm_Status x = QPending \<and> qm_RetryCount x = 0 \<and>
     i \<le> qm_ID x \<and> qm_ID x < i + int (length ms) \<and> qm_DeviceID x \<in> fst ` set ms"
  by (induction now u t i ms rule: new_messages.induct) (auto simp: new_message_def)

lemma enqueue_inv:
  assumes I: "command_inv c s" and u: "u \<in> set (cs_dispatching s)" and d: "distinct (map fst ms)"
    and e: "enqueueEncoded (cc_devices c) now u t ms (cs_db s) = Inr db'"
  shows "command_inv c (s\<lparr>cs_db := db', cs_dispatching := removeAll u (cs_dispatching s)\<rparr>)"
proof -
  let ?db = "cs_db s" and ?new = "new_messages now u t (cd_nextMessage (cs_db s)) ms"
  have k: "keys_sound (cc_devices c) ?db" using I by (simp add: command_inv_def)
  obtain b where b: "find_batch u ?db = Some b" "bl_Status b = BPending"
    and dev: "list_all (\<lambda>(d, _). cc_devices c d \<noteq> None) ms"
    and db': "db' = ?db\<lparr>cd_messages := cd_messages ?db @ ?new, cd_nextMessage := cd_nextMessage ?db + int (length ms)\<rparr>"
    using e by (auto simp: enqueueEncoded_def CreateQueueMessages_def split: option.splits if_splits)
  have bu: "b \<in> set (cd_batches ?db)" "bl_UUID b = u" using b(1) find_batch_iff [OF k] by auto
  note new = new_messages_members [of _ now u t "cd_nextMessage ?db" ms]
  have none: "u \<notin> qm_BatchUUID ` set (cd_messages ?db)" using I u by (simp add: command_inv_def)
  have distinct_new: "distinct (map (\<lambda>m. (qm_BatchUUID m, qm_DeviceID m)) ?new)" "distinct (map qm_ID ?new)"
  proof -
    have "map snd (map (\<lambda>m. (qm_BatchUUID m, qm_DeviceID m)) ?new) = map fst ms"
      using new_messages_maps(1) [of now u t _ ms] by (simp add: o_def)
    then show "distinct (map (\<lambda>m. (qm_BatchUUID m, qm_DeviceID m)) ?new)" using d by (metis distinct_map)
    show "distinct (map qm_ID ?new)" unfolding new_messages_maps by (simp add: distinct_map inj_on_def)
  qed
  have old: "x \<in> set (cd_messages ?db) \<Longrightarrow> qm_ID x < cd_nextMessage ?db" for x using k by (simp add: keys_sound_def)
  have "keys_sound (cc_devices c) db'"
    unfolding keys_sound_def
  proof (intro conjI)
    show "distinct (map qm_ID (cd_messages db'))"
      using k distinct_new(2) new old by (fastforce simp: db' keys_sound_def)
    show "distinct (map (\<lambda>m. (qm_BatchUUID m, qm_DeviceID m)) (cd_messages db'))"
      using k distinct_new(1) new none by (fastforce simp: db' keys_sound_def)
    show "\<forall>m \<in> set (cd_messages db'). qm_ID m < cd_nextMessage db'"
      using old new by (fastforce simp: db')
    show "\<forall>m \<in> set (cd_messages db'). cc_devices c (qm_DeviceID m) \<noteq> None \<and> FromString (qm_CommandType m) \<noteq> None \<and>
        qm_BatchUUID m \<in> bl_UUID ` set (cd_batches db')"
      using k new dev bu by (fastforce simp: db' keys_sound_def list_all_iff)
  qed (use k in \<open>simp_all add: keys_sound_def db'\<close>)
  moreover have "tries_sound (max_tries c) (cs_claims s) m" if m: "m \<in> set (cd_messages db')" for m
  proof (cases "m \<in> set (cd_messages ?db)")
    case True
    then show ?thesis using I by (simp add: command_inv_def)
  next
    case False
    then have n: "m \<in> set ?new" using m by (simp add: db')
    then have "qm_ID m \<notin> set (cs_claims s)" using new [OF n] I by (force simp: command_inv_def)
    then show ?thesis using new [OF n] by (simp add: tries_sound_def count_list_0_iff)
  qed
  moreover have "batch_settled db' v = batch_settled ?db v" if "v \<noteq> u" for v
    using new that by (auto simp: batch_settled_def db')
  moreover have "\<forall>x \<in> set (cd_batches ?db). bl_Status x = BFinished \<longrightarrow> bl_UUID x \<noteq> u"
    using batch_of_uuid [OF k bu(1)] bu(2) b(2) by (metis batch_status.distinct(3))
  moreover have "{m \<in> set (cd_messages db'). terminal m} = {m \<in> set (cd_messages ?db). terminal m}"
    using new by (fastforce simp: db' terminal_def)
  moreover have "logs_for db' = logs_for ?db" by (intro ext) (simp add: logs_for_def recorded_def db')
  moreover have "worker_sound db' w" if "worker_sound ?db w" for w using that by (auto simp: worker_sound_def db')
  moreover have "\<forall>i \<in> set (cs_claims s). i < cd_nextMessage db'" using I by (fastforce simp: command_inv_def db')
  moreover have "\<forall>v \<in> set (removeAll u (cs_dispatching s)). v \<notin> qm_BatchUUID ` set (cd_messages db')"
    using I new by (fastforce simp: command_inv_def db')
  moreover have "\<forall>v \<in> set (cs_finishing s). v \<noteq> u" using I u by (auto simp: command_inv_def)
  moreover have "cd_batches db' = cd_batches ?db" by (simp add: db')
  ultimately show ?thesis using I by (simp add: command_inv_def logs_sound_def)
qed

lemma worker_kept:
  assumes "worker_sound db w" "\<And>x. x \<in> set (cd_messages db) \<Longrightarrow> qm_ID x = ms_ID w \<Longrightarrow> x \<in> set (cd_messages db')"
  shows "worker_sound db' w"
  using assms unfolding worker_sound_def by metis

lemma inv_worker: "command_inv c s \<Longrightarrow> w \<in> set (cs_workers s) \<Longrightarrow> worker_sound (cs_db s) w"
  by (simp add: command_inv_def)

lemma count_list_distinct: "distinct xs \<Longrightarrow> count_list xs x = (if x \<in> set xs then 1 else 0)"
  by (induction xs) auto

text \<open>A message moves from one status to another.\<close>

lemma terminal_settled: "terminal m \<Longrightarrow> message_step m m' \<Longrightarrow> m' = m"
  by (simp add: message_step_def)

lemma finished_frame:
  assumes I: "command_inv c s" and r: "tables_step (cs_db s) db'" and b: "cd_batches db' = cd_batches (cs_db s)"
  shows "\<forall>b \<in> set (cd_batches db'). bl_Status b = BFinished \<longrightarrow> batch_settled db' (bl_UUID b)"
  using I tables_step_settled [OF r] by (auto simp: command_inv_def b)

lemma dequeue_inv:
  assumes I: "command_inv c s" and e: "Dequeue (cc_devices c) (cc_queue c) now limit (cs_db s) = Inr (ms, db')"
  shows "command_inv c (s\<lparr>cs_db := db', cs_workers := cs_workers s @ ms, cs_claims := cs_claims s @ map ms_ID ms\<rparr>)"
proof (cases "limit \<le> 0")
  case True
  then show ?thesis using I e by (simp add: Dequeue_def command_inv_def)
next
  case False
  let ?db = "cs_db s"
  obtain lim where e': "dequeue_loop (cc_devices c) now (GetMessagesToProcess (cc_devices c) (max_tries c) lim ?db) ?db = Inr (ms, db')"
    using e False by (auto simp: Dequeue_def Let_def)
  define rows where "rows = GetMessagesToProcess (cc_devices c) (max_tries c) lim ?db"
  have k: "keys_sound (cc_devices c) ?db" using I by (simp add: command_inv_def)
  have sub: "set rows \<subseteq> {m \<in> set (cd_messages ?db). ready_message (cc_devices c) (max_tries c) ?db m}"
    unfolding rows_def GetMessagesToProcess_def by (rule order_trans [OF set_take_subset]) auto
  have dr: "distinct (map qm_ID rows)"
  proof -
    let ?f = "filter (ready_message (cc_devices c) (max_tries c) ?db) (cd_messages ?db)"
    have "distinct (map qm_ID ?f)" using k by (simp add: keys_sound_def distinct_map_filter)
    moreover have "mset (map qm_ID (stable_sort created_before ?f)) = mset (map qm_ID ?f)" by simp
    ultimately have "distinct (map qm_ID (stable_sort created_before ?f))" by (metis mset_eq_imp_distinct_iff)
    then show ?thesis by (simp add: rows_def GetMessagesToProcess_def take_map [symmetric])
  qed
  have rd: "\<forall>m \<in> set rows. qm_Status m = QPending \<and> qm_RetryCount m < max_tries c \<and> FromString (qm_CommandType m) \<noteq> None"
    using sub k by (auto simp: ready_message_def keys_sound_def)
  obtain out where "dequeue_loop (cc_devices c) now rows ?db = Inr (out, claim_all now rows ?db)" and h: "list_all2 held_by out rows"
    using dequeue_loop_takes_all [of ?db rows "cc_devices c" now] k sub dr rd by (auto simp: keys_sound_def)
  then have m: "ms = out" and db': "db' = claim_all now rows ?db" using e' by (simp_all add: rows_def [symmetric])
  have ids: "map ms_ID ms = map qm_ID rows"
    unfolding m using h by (induction out rows rule: list_all2_induct) (auto simp: held_by_def)
  have row: "m \<in> set rows" if "m \<in> set (cd_messages ?db)" "qm_ID m \<in> qm_ID ` set rows" for m
    using that sub k by (auto simp: keys_sound_def distinct_map dest: inj_onD)
  have r: "tables_step ?db db'"
  proof -
    have "list_all2 message_step (cd_messages ?db) (cd_messages db')"
    proof (simp add: db' claim_all_def list_all2_map2, rule list.rel_refl_strong)
      fix m assume "m \<in> set (cd_messages ?db)"
      then show "(qm_ID m \<in> qm_ID ` set rows \<longrightarrow> message_step m (claimed now m)) \<and>
          (qm_ID m \<notin> qm_ID ` set rows \<longrightarrow> message_step m m)"
        using row rd by (auto simp: message_step_def claimed_def terminal_def)
    qed
    then show ?thesis by (simp add: tables_step_def db' claim_all_def list_all2_refl)
  qed
  let ?claims = "cs_claims s @ map ms_ID ms"
  have cnt: "count_list (map qm_ID rows) i = (if i \<in> qm_ID ` set rows then 1 else 0)" for i
    using count_list_distinct [OF dr, of i] by simp
  have tries: "\<forall>m \<in> set (cd_messages db'). tries_sound (max_tries c) ?claims m"
  proof
    fix y assume "y \<in> set (cd_messages db')"
    then obtain x where x: "x \<in> set (cd_messages ?db)" "y = (if qm_ID x \<in> qm_ID ` set rows then claimed now x else x)"
      by (auto simp: db' claim_all_def)
    have t: "tries_sound (max_tries c) (cs_claims s) x" using I x(1) by (simp add: command_inv_def)
    show "tries_sound (max_tries c) ?claims y"
      using t x row [OF x(1)] rd
      by (auto simp: tries_sound_def ids cnt claimed_def Let_def split: queue_status.splits if_splits)
  qed
  have nw: "\<forall>w \<in> set (cs_workers s). ms_ID w \<notin> qm_ID ` set rows"
  proof
    fix w assume "w \<in> set (cs_workers s)"
    then obtain m where "m \<in> set (cd_messages ?db)" "qm_ID m = ms_ID w" "qm_Status m \<noteq> QPending"
      using I by (auto simp: command_inv_def worker_sound_def)
    then show "ms_ID w \<notin> qm_ID ` set rows" using row [of m] rd by auto
  qed
  have work: "worker_sound db' w" if w: "w \<in> set (cs_workers s @ ms)" for w
  proof (cases "w \<in> set ms")
    case True
    then obtain x where x: "x \<in> set rows" "held_by w x" using h m list_all2_target by metis
    then have "claimed now x \<in> set (cd_messages db')" using sub by (auto simp: db' claim_all_def intro!: image_eqI [of _ _ x])
    then show ?thesis using x(2) by (auto simp: worker_sound_def held_by_def claimed_def intro!: bexI [of _ "claimed now x"])
  next
    case False
    then have w': "w \<in> set (cs_workers s)" using w by simp
    show ?thesis
    proof (rule worker_kept [OF inv_worker [OF I w']])
      fix x assume "x \<in> set (cd_messages ?db)" "qm_ID x = ms_ID w"
      then show "x \<in> set (cd_messages db')" using nw w' by (auto simp: db' claim_all_def intro!: image_eqI [of _ _ x])
    qed
  qed
  have "{m \<in> set (cd_messages db'). terminal m} = {m \<in> set (cd_messages ?db). terminal m}"
  proof -
    have "terminal (claimed now m) = False" for m by (simp add: terminal_def claimed_def)
    moreover have "\<not> terminal m" if "m \<in> set (cd_messages ?db)" "qm_ID m \<in> qm_ID ` set rows" for m
      using row [OF that] rd by (auto simp: terminal_def)
    ultimately show ?thesis by (auto simp: db' claim_all_def split: if_splits)
  qed
  then have logs: "logs_sound db'"
    using I by (simp add: command_inv_def logs_sound_def logs_for_def recorded_def db' claim_all_def)
  have "distinct (map ms_ID (cs_workers s @ ms))"
    using I nw dr by (auto simp: command_inv_def ids simp del: map_map)
  moreover have "\<forall>i \<in> set ?claims. i < cd_nextMessage ?db"
    using I sub k by (auto simp: command_inv_def ids keys_sound_def)
  ultimately show ?thesis
    using tries work logs finished_frame [OF I r] by (intro inv_frame [OF I r]) (simp_all add: db' claim_all_def)
qed

definition replaced :: "queue_message \<Rightarrow> queue_message \<Rightarrow> command_db \<Rightarrow> command_db" where
  "replaced m m' db = db\<lparr>cd_messages := map (\<lambda>x. if x = m then m' else x) (cd_messages db)\<rparr>"

lemma update_held:
  assumes k: "keys_sound devs db" and m: "m \<in> set (cd_messages db)"
  shows "update_messages (\<lambda>x. qm_ID x = qm_ID m \<and> qm_Status x = QProcessing) f db =
    (if qm_Status m = QProcessing then (1, replaced m (f m) db) else (0, db))"
proof -
  have id: "x = m" if "x \<in> set (cd_messages db)" "qm_ID x = qm_ID m" for x
    using k m that by (auto simp: keys_sound_def distinct_map dest: inj_onD)
  have d: "distinct (cd_messages db)" using k by (simp add: keys_sound_def distinct_map)
  show ?thesis
  proof (cases "qm_Status m = QProcessing")
    case True
    have "filter (\<lambda>x. qm_ID x = qm_ID m \<and> qm_Status x = QProcessing) (cd_messages db) = filter (\<lambda>x. x = m) (cd_messages db)"
      using id True by (intro filter_cong) auto
    then have "length (filter (\<lambda>x. qm_ID x = qm_ID m \<and> qm_Status x = QProcessing) (cd_messages db)) = 1"
      using m d by (simp add: distinct_length_filter Int_insert_right)
    moreover have "map (\<lambda>x. if qm_ID x = qm_ID m \<and> qm_Status x = QProcessing then f x else x) (cd_messages db) =
        map (\<lambda>x. if x = m then f m else x) (cd_messages db)"
      using id True by (intro map_cong) auto
    ultimately show ?thesis using True by (simp add: update_messages_def replaced_def)
  next
    case False
    have "filter (\<lambda>x. qm_ID x = qm_ID m \<and> qm_Status x = QProcessing) (cd_messages db) = []"
      using id False by (auto simp: filter_empty_conv)
    moreover have "map (\<lambda>x. if qm_ID x = qm_ID m \<and> qm_Status x = QProcessing then f x else x) (cd_messages db) = cd_messages db"
      using id False by (intro map_idI) auto
    ultimately show ?thesis using False by (simp add: update_messages_def)
  qed
qed

lemma replaced_inv:
  assumes I: "command_inv c s" and m: "m \<in> set (cd_messages (cs_db s))" "qm_Status m = QProcessing"
    and step: "message_step m m'" and tries: "tries_sound (max_tries c) (cs_claims s) m'"
    and ws: "set ws \<subseteq> set (cs_workers s)" "\<forall>w \<in> set ws. ms_ID w \<noteq> qm_ID m" "distinct (map ms_ID ws)"
    and db': "cd_messages db' = cd_messages (replaced m m' (cs_db s))" "cd_batches db' = cd_batches (cs_db s)"
      "cd_nextMessage db' = cd_nextMessage (cs_db s)" "cd_nextBatch db' = cd_nextBatch (cs_db s)"
    and logs: "logs_sound db'"
  shows "command_inv c (s\<lparr>cs_db := db', cs_workers := ws\<rparr>)"
proof -
  let ?db = "cs_db s"
  have "list_all2 message_step (cd_messages ?db) (map (\<lambda>x. if x = m then m' else x) (cd_messages ?db))"
    using step by (induction "cd_messages ?db") (auto simp: list_all2_map2 intro!: list.rel_refl_strong)
  then have r: "tables_step ?db db'" by (simp add: tables_step_def db' replaced_def list_all2_refl)
  have "\<forall>x \<in> set (cd_messages db'). tries_sound (max_tries c) (cs_claims s) x"
    using I tries by (auto simp: command_inv_def db' replaced_def)
  moreover have "worker_sound db' w" if w: "w \<in> set ws" for w
  proof (rule worker_kept [OF inv_worker [OF I]])
    fix x assume "x \<in> set (cd_messages ?db)" "qm_ID x = ms_ID w"
    then show "x \<in> set (cd_messages db')" using ws(2) w by (auto simp: db'(1) replaced_def intro!: image_eqI [of _ _ x])
  qed (use ws(1) w in auto)
  ultimately have "command_inv c (s\<lparr>cs_db := db', cs_workers := ws, cs_claims := cs_claims s\<rparr>)"
    using ws(3) logs finished_frame [OF I r db'(2)] I by (intro inv_frame [OF I r]) (auto simp: command_inv_def)
  then show ?thesis by simp
qed

lemma workers_inv:
  assumes "command_inv c s" "set ws \<subseteq> set (cs_workers s)" "distinct (map ms_ID ws)"
  shows "command_inv c (s\<lparr>cs_workers := ws\<rparr>)"
  using assms by (auto simp: command_inv_def)

text \<open>The status a worker's result gives its message, and the logs after it.\<close>

definition after_work :: "int \<Rightarrow> gotime \<Rightarrow> worker_error option \<Rightarrow> queue_message \<Rightarrow> queue_message" where
  "after_work maxRetries now err m =
     (case err of
        None \<Rightarrow> m\<lparr>qm_Status := QSuccess, qm_UpdatedAt := now\<rparr>
      | Some e \<Rightarrow>
          if has_code CodeUnimplemented e \<or> has_code CodeFailedPrecondition e
          then m\<lparr>qm_Status := QFailed, qm_ErrorInfo := Some (error_text e), qm_UpdatedAt := now\<rparr>
          else m\<lparr>qm_Status := (if maxRetries \<le> qm_RetryCount m + 1 then QFailed else QPending),
                 qm_RetryCount := qm_RetryCount m + 1, qm_ErrorInfo := Some (error_text e), qm_UpdatedAt := now\<rparr>)"

lemma mark_status:
  assumes k: "keys_sound devs db" and m: "m \<in> set (cd_messages db)" "qm_ID m = ms_ID w"
    and r: "qm_Status m = QProcessing \<Longrightarrow> qm_RetryCount m = ms_RetryCount w"
  shows "if qm_Status m = QProcessing
    then markQueueMessageStatus cfg now w err db =
      (True, terminal (after_work (qc_MaxFailureRetries cfg) now err m), replaced m (after_work (qc_MaxFailureRetries cfg) now err m) db)
    else (\<exists>t. markQueueMessageStatus cfg now w err db = (False, t, db))"
  using r update_held [OF k m(1)]
  by (auto simp: markQueueMessageStatus_def UpdateMessageStatus_def UpdateMessagePermanentlyFailed_def
      UpdateMessageAfterFailure_def after_work_def terminal_def m(2) split: option.splits)

lemma after_work_step:
  assumes "qm_Status m = QProcessing" "tries_sound x claims m"
  shows "message_step m (after_work x now err m)" "tries_sound x claims (after_work x now err m)"
    "terminal (after_work x now err m) \<Longrightarrow> (err = None) = (qm_Status (after_work x now err m) = QSuccess)"
  using assms
  by (auto simp: after_work_def message_step_def terminal_def tries_sound_def Let_def split: option.splits if_splits)

lemma same_message:
  "keys_sound devs db \<Longrightarrow> x \<in> set (cd_messages db) \<Longrightarrow> y \<in> set (cd_messages db) \<Longrightarrow>
   (qm_BatchUUID x, qm_DeviceID x) = (qm_BatchUUID y, qm_DeviceID y) \<Longrightarrow> x = y"
  unfolding keys_sound_def distinct_map by (metis (mono_tags, lifting) inj_onD)

lemma replaced_rows [simp]:
  "cd_batches (replaced m m' db) = cd_batches db" "cd_logs (replaced m m' db) = cd_logs db"
  "cd_nextMessage (replaced m m' db) = cd_nextMessage db" "cd_nextBatch (replaced m m' db) = cd_nextBatch db"
  by (simp_all add: replaced_def)

lemma replaced_terminal:
  "m \<in> set (cd_messages db) \<Longrightarrow> \<not> terminal m \<Longrightarrow>
   {x \<in> set (cd_messages (replaced m m' db)). terminal x} =
     (if terminal m' then insert m' {x \<in> set (cd_messages db). terminal x} else {x \<in> set (cd_messages db). terminal x})"
  by (auto simp: replaced_def)

lemma worker_logs:
  assumes k: "keys_sound devs db" and l: "logs_sound db" and m: "m \<in> set (cd_messages db)" "\<not> terminal m"
    and st: "message_step m m'" and ok: "terminal m' \<Longrightarrow> ok = (qm_Status m' = QSuccess)"
  shows "terminal m' \<Longrightarrow> logs_sound (UpsertCommandOnDeviceLog devs (qm_BatchUUID m) (qm_DeviceID m) ok err (replaced m m' db))"
    "\<not> terminal m' \<Longrightarrow> logs_sound (replaced m m' db)"
proof -
  let ?S = "{x \<in> set (cd_messages db). terminal x}" and ?db = "replaced m m' db"
  have rec: "recorded ?db = recorded db" by (intro ext) (simp add: recorded_def)
  have old: "logs_for ?db ?S" using l by (simp add: logs_sound_def logs_for_def rec)
  have "list_all2 message_step (cd_messages db) (map (\<lambda>x. if x = m then m' else x) (cd_messages db))"
    using st by (auto simp: list_all2_map2 intro!: list.rel_refl_strong)
  then have k': "keys_sound devs ?db"
    by (intro tables_step_keys [OF k]) (simp add: tables_step_def replaced_def list_all2_refl)
  note keys = message_step_keys [OF st]
  have new: "\<forall>x \<in> ?S. (qm_BatchUUID x, qm_DeviceID x) \<noteq> (qm_BatchUUID m', qm_DeviceID m')"
    using same_message [OF k _ m(1)] m(2) keys by auto
  have row: "m' \<in> set (cd_messages ?db)" using m(1) by (auto simp: replaced_def)
  then have fk: "qm_BatchUUID m' \<in> bl_UUID ` set (cd_batches ?db)" "devs (qm_DeviceID m') \<noteq> None"
    using k' by (simp_all add: keys_sound_def)
  show "logs_sound ?db" if "\<not> terminal m'"
    using old that unfolding logs_sound_def replaced_terminal [OF m] by simp
  show "logs_sound (UpsertCommandOnDeviceLog devs (qm_BatchUUID m) (qm_DeviceID m) ok err ?db)" if t: "terminal m'"
    using upsert_adds [OF k' old fk new ok [OF t], of err] t keys
    unfolding logs_sound_def upsert_rows(1) replaced_terminal [OF m] by simp
qed

lemma without_nth:
  assumes "n < length xs" "distinct (map f xs)"
  shows "set (take n xs @ drop (Suc n) xs) \<subseteq> set xs" "distinct (map f (take n xs @ drop (Suc n) xs))"
    "\<forall>x \<in> set (take n xs @ drop (Suc n) xs). f x \<noteq> f (xs ! n)"
proof -
  define a y b where "a = take n xs" and "y = xs ! n" and "b = drop (Suc n) xs"
  have xs: "xs = a @ y # b" using id_take_nth_drop [OF assms(1)] by (simp add: a_def y_def b_def)
  have "distinct (map f (a @ y # b))" using assms(2) xs by simp
  then have "set (a @ b) \<subseteq> set xs" "distinct (map f (a @ b))" "\<forall>x \<in> set (a @ b). f x \<noteq> f y"
    by (auto simp: xs rev_image_eqI)
  then show "set (take n xs @ drop (Suc n) xs) \<subseteq> set xs" "distinct (map f (take n xs @ drop (Suc n) xs))"
    "\<forall>x \<in> set (take n xs @ drop (Suc n) xs). f x \<noteq> f (xs ! n)"
    by (simp_all only: a_def b_def y_def)
qed

lemma done_inv:
  assumes I: "command_inv c s" and n: "n < length (cs_workers s)"
  shows "command_inv c (s\<lparr>cs_db := workerProcessCommand (cc_devices c) (cc_queue c) now org (cs_workers s ! n) err (cs_db s),
     cs_workers := take n (cs_workers s) @ drop (Suc n) (cs_workers s)\<rparr>)"
proof -
  let ?ws = "take n (cs_workers s) @ drop (Suc n) (cs_workers s)" and ?w = "cs_workers s ! n" and ?db = "cs_db s"
  have d: "distinct (map ms_ID (cs_workers s))" using I by (simp add: command_inv_def)
  note ws = without_nth [OF n d]
  have k: "keys_sound (cc_devices c) ?db" and l: "logs_sound ?db" using I by (simp_all add: command_inv_def)
  obtain m where m: "m \<in> set (cd_messages ?db)" "qm_ID m = ms_ID ?w" "qm_BatchUUID m = ms_BatchUUID ?w"
      "qm_DeviceID m = ms_DeviceID ?w" and st: "qm_Status m = QProcessing \<and> qm_RetryCount m = ms_RetryCount ?w \<or> qm_Status m = QFailed"
    using inv_worker [OF I nth_mem [OF n]] by (auto simp: worker_sound_def)
  have mark: "if qm_Status m = QProcessing
    then markQueueMessageStatus (cc_queue c) now ?w err ?db =
      (True, terminal (after_work (max_tries c) now err m), replaced m (after_work (max_tries c) now err m) ?db)
    else (\<exists>t. markQueueMessageStatus (cc_queue c) now ?w err ?db = (False, t, ?db))"
    by (rule mark_status [OF k m(1,2)]) (use st in auto)
  show ?thesis
  proof (cases "qm_Status m = QProcessing")
    case False
    then obtain t where "markQueueMessageStatus (cc_queue c) now ?w err ?db = (False, t, ?db)" using mark by auto
    then show ?thesis using workers_inv [OF I ws(1,2)] by (simp add: workerProcessCommand_def)
  next
    case True
    let ?m = "after_work (max_tries c) now err m"
    have tr: "tries_sound (max_tries c) (cs_claims s) m" using I m(1) by (simp add: command_inv_def)
    note a = after_work_step [OF True tr, of now err]
    have nt: "\<not> terminal m" using True by (simp add: terminal_def)
    note logs = worker_logs(1) [OF k l m(1) nt a(1,3), of "sanitizedErrorInfo err", unfolded m(3,4)]
      worker_logs(2) [OF k l m(1) nt a(1,3)]
    have w': "\<forall>w \<in> set ?ws. ms_ID w \<noteq> qm_ID m" using ws(3) m(2) by simp
    define db' where "db' = workerProcessCommand (cc_devices c) (cc_queue c) now org ?w err ?db"
    have "cd_messages db' = cd_messages (replaced m ?m ?db)" "cd_batches db' = cd_batches ?db"
      "cd_nextMessage db' = cd_nextMessage ?db" "cd_nextBatch db' = cd_nextBatch ?db" "logs_sound db'"
      using mark True logs unfolding db'_def
      by (auto simp: workerProcessCommand_def Let_def logs_sound_def logs_for_def recorded_def)
    then show ?thesis
      unfolding db'_def [symmetric] by (intro replaced_inv [OF I m(1) True a(1,2) ws(1) w' ws(2)])
  qed
qed

section \<open>Reaping\<close>

lemma log_reaped_rows [simp]:
  "cd_messages (foldl (log_reaped devs) db ms) = cd_messages db"
  "cd_batches (foldl (log_reaped devs) db ms) = cd_batches db"
  "cd_nextMessage (foldl (log_reaped devs) db ms) = cd_nextMessage db"
  "cd_nextBatch (foldl (log_reaped devs) db ms) = cd_nextBatch db"
  by (induction ms arbitrary: db) (simp_all add: log_reaped_def)

lemma keys_sound_rows:
  "cd_messages db' = cd_messages db \<Longrightarrow> cd_batches db' = cd_batches db \<Longrightarrow> cd_nextMessage db' = cd_nextMessage db \<Longrightarrow>
   cd_nextBatch db' = cd_nextBatch db \<Longrightarrow> keys_sound devs db' = keys_sound devs db"
  by (simp add: keys_sound_def)

lemma log_reaped_adds:
  assumes "keys_sound devs db" "logs_for db S" "set ms \<subseteq> set (cd_messages db)" "distinct ms"
    "\<forall>m \<in> set ms. qm_Status m = QFailed" "S \<subseteq> set (cd_messages db)" "S \<inter> set ms = {}"
  shows "logs_for (foldl (log_reaped devs) db ms) (S \<union> set ms)"
  using assms
proof (induction ms arbitrary: db S)
  case (Cons m ms)
  let ?db = "log_reaped devs db m"
  have k: "keys_sound devs db" and m: "m \<in> set (cd_messages db)" using Cons.prems by auto
  then have fk: "qm_BatchUUID m \<in> bl_UUID ` set (cd_batches db)" "devs (qm_DeviceID m) \<noteq> None"
    by (simp_all add: keys_sound_def)
  have new: "\<forall>x \<in> S. (qm_BatchUUID x, qm_DeviceID x) \<noteq> (qm_BatchUUID m, qm_DeviceID m)"
    using same_message [OF k _ m] Cons.prems(6,7) by (metis Int_iff empty_iff list.set_intros(1) subsetD)
  have "logs_for ?db (insert m S)"
    unfolding log_reaped_def using Cons.prems(5) by (intro upsert_adds [OF k Cons.prems(2) fk new]) simp
  moreover have "keys_sound devs ?db" using k by (simp add: keys_sound_def log_reaped_def)
  ultimately have "logs_for (foldl (log_reaped devs) ?db ms) (insert m S \<union> set ms)"
    using Cons.prems by (intro Cons.IH) (auto simp: log_reaped_def)
  then show ?case by simp
qed simp

text \<open>What \<open>ReapMessages\<close> does to the rows, by the set it hits.\<close>

lemma reap_rows:
  "\<exists>hit. ReapMessages devs p now db =
      (map (reaped_row p now) (filter hit (cd_messages db)),
       db\<lparr>cd_messages := map (\<lambda>m. if hit m then reaped_row p now m else m) (cd_messages db)\<rparr>) \<and>
    (\<forall>m. hit m \<longrightarrow> qm_Status m = QProcessing)"
  by (rule exI [of _ "\<lambda>m. qm_ID m \<in> set (map qm_ID (take (rp_Limit p) (stable_sort updated_before (filter (reapable p) (cd_messages db))))) \<and>
        qm_Status m = QProcessing \<and> devs (qm_DeviceID m) \<noteq> None"])
    (simp add: ReapMessages_def Let_def update_messages_def)

lemma reaped_row_keys [simp]:
  "qm_ID (reaped_row p now m) = qm_ID m" "qm_BatchUUID (reaped_row p now m) = qm_BatchUUID m"
  "qm_DeviceID (reaped_row p now m) = qm_DeviceID m" "qm_CommandType (reaped_row p now m) = qm_CommandType m"
  "qm_RetryCount (reaped_row p now m) = qm_RetryCount m" "qm_Status (reaped_row p now m) = QFailed"
  by (simp_all add: reaped_row_def)

lemma logs_for_same: "cd_logs db' = cd_logs db \<Longrightarrow> cd_batches db' = cd_batches db \<Longrightarrow> logs_for db' S = logs_for db S"
  by (intro logs_for_rows) (auto simp: recorded_def fun_eq_iff)

lemma reap_inv:
  assumes I: "command_inv c s"
  shows "command_inv c (s\<lparr>cs_db := snd (reapMessages (cc_devices c) (cc_reaper c) now mode (cs_db s))\<rparr>)"
proof -
  let ?db = "cs_db s" and ?devs = "cc_devices c" and ?p = "reap_request (cc_reaper c) now mode"
  obtain hit where r: "ReapMessages ?devs ?p now ?db =
      (map (reaped_row ?p now) (filter hit (cd_messages ?db)),
       ?db\<lparr>cd_messages := map (\<lambda>m. if hit m then reaped_row ?p now m else m) (cd_messages ?db)\<rparr>)"
    and hit': "\<forall>m. hit m \<longrightarrow> qm_Status m = QProcessing"
    using reap_rows [of ?devs ?p now ?db] by (elim exE conjE)
  note hit = hit' [rule_format]
  define ms where "ms = map (reaped_row ?p now) (filter hit (cd_messages ?db))"
  define db1 where "db1 = ?db\<lparr>cd_messages := map (\<lambda>m. if hit m then reaped_row ?p now m else m) (cd_messages ?db)\<rparr>"
  define db2 where "db2 = snd (reapMessages ?devs (cc_reaper c) now mode ?db)"
  have db2: "cd_messages db2 = cd_messages db1" "cd_batches db2 = cd_batches ?db" "cd_nextMessage db2 = cd_nextMessage ?db"
    "cd_nextBatch db2 = cd_nextBatch ?db" "cd_logs db2 = cd_logs (foldl (log_reaped ?devs) db1 ms)"
    by (simp_all add: db2_def reapMessages_def r db1_def ms_def Let_def)
  have k: "keys_sound ?devs ?db" and l: "logs_for ?db {m \<in> set (cd_messages ?db). terminal m}"
    using I by (simp_all add: command_inv_def logs_sound_def)
  have step: "list_all2 message_step (cd_messages ?db) (cd_messages db1)"
    unfolding db1_def by (simp, rule list_all2_map_if) (auto simp: message_step_def terminal_def dest: hit)
  have rs: "tables_step ?db db1" "tables_step ?db db2"
    using step by (simp_all add: tables_step_def db2) (simp_all add: db1_def list_all2_refl)
  have k1: "keys_sound ?devs db1" using tables_step_keys [OF k rs(1)] .
  let ?S = "{m \<in> set (cd_messages ?db). terminal m}"
  have S: "{m \<in> set (cd_messages db1). terminal m} = ?S \<union> set ms"
    using hit by (auto simp: db1_def ms_def terminal_def split: if_splits)
  have "distinct (map qm_ID ms)"
    using k by (simp add: ms_def o_def keys_sound_def distinct_map_filter)
  then have "distinct ms" by (simp add: distinct_map)
  moreover have "?S \<inter> set ms = {}"
  proof (rule equals0I)
    fix x assume x: "x \<in> ?S \<inter> set ms"
    then obtain y where y: "y \<in> set (cd_messages ?db)" "hit y" "qm_ID x = qm_ID y" by (auto simp: ms_def)
    have "x = y" using x y k by (auto simp: keys_sound_def distinct_map dest: inj_onD)
    then show False using x hit [OF y(2)] by (simp add: terminal_def)
  qed
  moreover have "logs_for db1 ?S" using l logs_for_same [of db1 ?db] by (simp add: db1_def)
  moreover have "?S \<subseteq> set (cd_messages db1)" "set ms \<subseteq> set (cd_messages db1)" using S by auto
  moreover have "\<forall>m \<in> set ms. qm_Status m = QFailed" by (auto simp: ms_def)
  ultimately have "logs_for (foldl (log_reaped ?devs) db1 ms) (?S \<union> set ms)"
    using log_reaped_adds [OF k1] by blast
  then have logs: "logs_sound db2"
    unfolding logs_sound_def db2(1) S using logs_for_same [of db2 "foldl (log_reaped ?devs) db1 ms"] by (simp add: db2) (simp add: db1_def)
  have "\<forall>m \<in> set (cd_messages db2). tries_sound (max_tries c) (cs_claims s) m"
  proof
    fix y assume "y \<in> set (cd_messages db2)"
    then obtain x where x: "x \<in> set (cd_messages ?db)" "y = (if hit x then reaped_row ?p now x else x)"
      by (auto simp: db2 db1_def)
    then show "tries_sound (max_tries c) (cs_claims s) y"
      using I hit [of x] by (fastforce simp: command_inv_def tries_sound_def Let_def)
  qed
  moreover have "worker_sound db2 w" if w: "w \<in> set (cs_workers s)" for w
  proof -
    obtain x where x: "x \<in> set (cd_messages ?db)" "qm_ID x = ms_ID w" "qm_BatchUUID x = ms_BatchUUID w" "qm_DeviceID x = ms_DeviceID w"
      "qm_CommandType x = Type_String (ms_CommandType w)"
      "qm_Status x = QProcessing \<and> qm_RetryCount x = ms_RetryCount w \<or> qm_Status x = QFailed"
      using inv_worker [OF I w] by (auto simp: worker_sound_def)
    then have "(if hit x then reaped_row ?p now x else x) \<in> set (cd_messages db2)" by (auto simp: db2 db1_def)
    then show ?thesis
      using x unfolding worker_sound_def by (intro bexI [of _ "if hit x then reaped_row ?p now x else x"]) auto
  qed
  ultimately have "command_inv c (s\<lparr>cs_db := db2, cs_workers := cs_workers s, cs_claims := cs_claims s\<rparr>)"
    using logs finished_frame [OF I rs(2) db2(2)] I by (intro inv_frame [OF I rs(2)]) (simp_all add: command_inv_def)
  then show ?thesis by (simp add: db2_def)
qed

section \<open>Every step\<close>

lemma settled_empty: "batch_messages u db = [] \<Longrightarrow> batch_settled db u"
  by (auto simp: batch_messages_def batch_settled_def filter_empty_conv)

lemma finished_settled: "is_batch_finished u db \<Longrightarrow> batch_settled db u"
  by (auto simp: is_batch_finished_def batch_messages_def batch_settled_def list_all_iff)

lemma open_terminal_settled: "open_terminal_batch db b \<Longrightarrow> batch_settled db (bl_UUID b)"
  by (auto simp: open_terminal_batch_def batch_messages_def batch_settled_def list_ex_iff terminal_def)
    (metis queue_status.exhaust)+

lemma marked_inv:
  assumes "command_inv c s" "batch_settled (cs_db s) u"
  shows "command_inv c (s\<lparr>cs_db := snd (MarkCommandBatchFinished now u (cs_db s))\<rparr>)"
    "command_inv c (s\<lparr>cs_db := snd (MarkCommandBatchFinishedWithStartedAt now u (cs_db s))\<rparr>)"
  unfolding MarkCommandBatchFinished_def MarkCommandBatchFinishedWithStartedAt_def
  by (rule inv_batches [OF assms(1)], use assms(2) in \<open>auto simp: batch_step_def\<close>)+

lemma reconcile_inv:
  assumes "command_inv c s"
  shows "command_inv c (s\<lparr>cs_db := snd (reconcileFailedEnqueue now u n (cs_db s))\<rparr>)"
  using assms marked_inv(2) [OF assms settled_empty]
  by (auto simp: reconcileFailedEnqueue_def Let_def split: option.splits)

lemma finish_inv:
  assumes I: "command_inv c s"
  shows "command_inv c (s\<lparr>cs_db := snd (FinishTerminalCommandBatches now lim (cs_db s))\<rparr>)"
  unfolding FinishTerminalCommandBatches_def Let_def
proof (rule inv_batches [OF I])
  fix b assume b: "b \<in> set (cd_batches (cs_db s))"
    "bl_ID b \<in> set (map bl_ID (take lim (filter (open_terminal_batch (cs_db s)) (cd_batches (cs_db s))))) \<and>
     bl_Status b \<in> {BPending, BProcessing}"
  then obtain a where "a \<in> set (cd_batches (cs_db s))" "open_terminal_batch (cs_db s) a" "bl_ID a = bl_ID b"
    by (auto dest!: in_set_takeD)
  moreover have "keys_sound (cc_devices c) (cs_db s)" using I by (simp add: command_inv_def)
  ultimately have "open_terminal_batch (cs_db s) b" using batch_of_id b(1) by metis
  then show "batch_settled (cs_db s) (bl_UUID b)" by (rule open_terminal_settled)
qed (simp add: batch_step_def)

lemma seen_inv:
  assumes I: "command_inv c s" and u: "u \<notin> set (cs_dispatching s)" "is_batch_finished u (cs_db s)"
  shows "command_inv c (s\<lparr>cs_finishing := u # cs_finishing s\<rparr>)"
proof -
  obtain m where "m \<in> set (cd_messages (cs_db s))" "qm_BatchUUID m = u"
    using u(2) by (auto simp: is_batch_finished_def batch_messages_def filter_empty_conv)
  then have "u \<in> bl_UUID ` set (cd_batches (cs_db s))" using I by (auto simp: command_inv_def keys_sound_def)
  then show ?thesis using I u finished_settled by (simp add: command_inv_def)
qed

lemma lost_inv:
  assumes I: "command_inv c s"
  shows "command_inv c (s\<lparr>cs_workers := take n (cs_workers s) @ drop (Suc n) (cs_workers s)\<rparr>)"
proof (cases "n < length (cs_workers s)")
  case True
  have d: "distinct (map ms_ID (cs_workers s))" using I by (simp add: command_inv_def)
  show ?thesis using without_nth(1,2) [OF True d] by (rule workers_inv [OF I])
qed (use I in simp)

lemma step_inv: "command_inv c s \<Longrightarrow> command_inv c (command_step c op s)"
proof (cases op)
  case (OpMarkProcessing now u)
  moreover assume "command_inv c s"
  ultimately show ?thesis by (auto simp: MarkCommandBatchProcessing_def batch_step_def intro!: inv_batches)
next
  case (OpMarkFinished now u p)
  moreover assume I: "command_inv c s"
  moreover have "batch_settled (cs_db s) u" if "u \<in> set (cs_finishing s)" using I that by (simp add: command_inv_def)
  ultimately show ?thesis by (auto simp: mark_finished_def intro!: marked_inv)
next
  case (OpCrash)
  moreover assume "command_inv c s"
  ultimately show ?thesis using workers_inv [of c s "[]"] by simp
qed (auto simp: create_inv enqueue_inv reconcile_inv dequeue_inv done_inv lost_inv reap_inv finish_inv seen_inv
    split: sum.splits prod.splits)

interpretation commands: safe_component empty_commands "\<lambda>op s. Some (command_step c op s)" "command_inv c" for c
  by unfold_locales (simp_all add: step_inv)

lemma run_commands_ops: "run_ops (\<lambda>op s. Some (command_step c op s)) ops s = Some (run_commands c ops s)"
  unfolding run_commands_def by (induction ops arbitrary: s) simp_all

lemma commands_inv: "command_inv c (run_commands c ops empty_commands)"
  using commands.run_inv [of c ops] by (simp add: run_commands_ops)

end
