(* ===== verification/Command_Outcomes.thy ===== *)
theory Command_Outcomes
  imports Command_Safety
begin

text \<open>
  What the command system promises at every moment and at a restart, the bound on recorded error texts, and
  the situations in which the selection of messages keeps neither the order nor the progress it is meant for.
\<close>

section \<open>Everything that can be reaped is reaped\<close>

text \<open>A limited update by key touches as many rows as the limit and the candidates allow.\<close>

lemma limited_hits:
  assumes d: "distinct (map f xs)" and ys: "mset ys = mset (filter P xs)"
  shows "\<And>x. x \<in> set (take n ys) \<Longrightarrow> x \<in> set xs \<and> P x"
    "\<And>x. x \<in> set xs \<Longrightarrow> f x \<in> f ` set (take n ys) \<longleftrightarrow> x \<in> set (take n ys)"
    "length (filter (\<lambda>x. x \<in> set (take n ys)) xs) = min n (length (filter P xs))"
proof -
  have s: "set ys = set (filter P xs)" using ys by (metis set_mset_mset)
  then show 1: "x \<in> set xs \<and> P x" if "x \<in> set (take n ys)" for x using that by (auto dest!: in_set_takeD)
  then show "f x \<in> f ` set (take n ys) \<longleftrightarrow> x \<in> set (take n ys)" if "x \<in> set xs" for x
    using d that by (auto simp: distinct_map dest: inj_onD)
  have dx: "distinct xs" using d by (simp add: distinct_map)
  then have "distinct (take n ys)" using ys by (metis distinct_filter distinct_take mset_eq_imp_distinct_iff)
  moreover have "set (take n ys) \<inter> set xs = set (take n ys)" using 1 by auto
  ultimately have "length (filter (\<lambda>x. x \<in> set (take n ys)) xs) = length (take n ys)"
    using dx by (metis distinct_card distinct_length_filter Collect_mem_eq Int_commute)
  then show "length (filter (\<lambda>x. x \<in> set (take n ys)) xs) = min n (length (filter P xs))"
    using ys by (metis length_take min.commute size_mset)
qed

lemma length_filter_without:
  "(\<And>x. x \<in> set xs \<Longrightarrow> Q x \<Longrightarrow> P x) \<Longrightarrow> length (filter (\<lambda>x. P x \<and> \<not> Q x) xs) = length (filter P xs) - length (filter Q xs)"
proof -
  assume q: "\<And>x. x \<in> set xs \<Longrightarrow> Q x \<Longrightarrow> P x"
  have "length (filter P xs) = length (filter (\<lambda>x. P x \<and> \<not> Q x) xs) + length (filter Q xs)"
    using q by (induction xs) auto
  then show ?thesis by simp
qed

lemma filter_after_hits:
  "(\<And>x. \<not> P (g x)) \<Longrightarrow> filter P (map (\<lambda>x. if Q x then g x else x) xs) = filter (\<lambda>x. P x \<and> \<not> Q x) xs"
  by (induction xs) auto

definition in_process :: "command_db \<Rightarrow> nat" where
  "in_process db = length (filter (\<lambda>m. qm_Status m = QProcessing) (cd_messages db))"

definition open_terminal :: "command_db \<Rightarrow> nat" where
  "open_terminal db = length (filter (open_terminal_batch db) (cd_batches db))"

lemma reap_restart_counts:
  assumes k: "keys_sound devs db" and r: "reapMessages devs cfg now ReapRestart db = (ms, db')"
  shows "length ms = min reaperBatchSize (in_process db)" "in_process db' = in_process db - length ms"
    "keys_sound devs db'" "cd_batches db' = cd_batches db"
    "list_all2 (\<lambda>m m'. m' = m \<or> qm_Status m = QProcessing \<and> qm_Status m' = QFailed) (cd_messages db) (cd_messages db')"
proof -
  let ?p = "reap_request cfg now ReapRestart" and ?P = "\<lambda>m. qm_Status m = QProcessing"
  define ys where "ys = stable_sort updated_before (filter ?P (cd_messages db))"
  define hit where "hit = (\<lambda>m. m \<in> set (take reaperBatchSize ys))"
  have ys: "mset ys = mset (filter ?P (cd_messages db))" by (simp add: ys_def)
  have d: "distinct (map qm_ID (cd_messages db))" using k by (simp add: keys_sound_def)
  note l = limited_hits [OF d ys]
  have pr: "m \<in> set (cd_messages db) \<and> ?P m" if "hit m" for m using l(1) that unfolding hit_def by blast
  have req: "rp_Limit ?p = reaperBatchSize" "reapable ?p = ?P" by (auto simp: reap_request_def reapable_def fun_eq_iff)
  have h: "(qm_ID m \<in> qm_ID ` set (take reaperBatchSize ys) \<and> ?P m \<and> devs (qm_DeviceID m) \<noteq> None) = hit m"
    if m: "m \<in> set (cd_messages db)" for m
  proof -
    have "(qm_ID m \<in> qm_ID ` set (take reaperBatchSize ys)) = hit m"
      using l(2) [OF m] by (simp add: hit_def)
    moreover have "devs (qm_DeviceID m) \<noteq> None" using k m by (simp add: keys_sound_def)
    ultimately show ?thesis using pr [of m] by auto
  qed
  have reap: "ReapMessages devs ?p now db = (map (reaped_row ?p now) (filter hit (cd_messages db)),
      db\<lparr>cd_messages := map (\<lambda>m. if hit m then reaped_row ?p now m else m) (cd_messages db)\<rparr>)"
    using h by (auto simp: ReapMessages_def Let_def update_messages_def req ys_def [symmetric] cong: filter_cong)
  then have ms: "ms = map (reaped_row ?p now) (filter hit (cd_messages db))"
    and rows: "cd_messages db' = map (\<lambda>m. if hit m then reaped_row ?p now m else m) (cd_messages db)"
    and same: "cd_batches db' = cd_batches db" "cd_nextMessage db' = cd_nextMessage db" "cd_nextBatch db' = cd_nextBatch db"
    using r by (auto simp: reapMessages_def Let_def)
  show "cd_batches db' = cd_batches db" by (rule same)
  show len: "length ms = min reaperBatchSize (in_process db)" using l(3) by (simp add: ms hit_def in_process_def)
  have "filter ?P (cd_messages db') = filter (\<lambda>m. ?P m \<and> \<not> hit m) (cd_messages db)"
    unfolding rows by (rule filter_after_hits) simp
  then show "in_process db' = in_process db - length ms"
    using length_filter_without [of "cd_messages db" hit ?P] pr by (simp add: in_process_def ms)
  have "tables_step db db'"
    unfolding tables_step_def rows same by (auto intro!: list_all2_map_if simp: message_step_def terminal_def list_all2_refl dest!: pr)
  then show "keys_sound devs db'" by (rule tables_step_keys [OF k])
  show "list_all2 (\<lambda>m m'. m' = m \<or> qm_Status m = QProcessing \<and> qm_Status m' = QFailed) (cd_messages db) (cd_messages db')"
    unfolding rows by (rule list_all2_map_if) (use pr in auto)
qed

lemma list_all2_two_steps:
  "list_all2 R xs ys \<Longrightarrow> list_all2 R ys zs \<Longrightarrow> (\<And>x y z. R x y \<Longrightarrow> R y z \<Longrightarrow> R x z) \<Longrightarrow> list_all2 R xs zs"
  by (rule list_all2_trans)

lemma reap_loop_returns:
  assumes "keys_sound devs db" "in_process db < reaperBatchSize * n"
  shows "\<exists>db'. reap_loop n devs cfg now db = Some db' \<and> in_process db' = 0 \<and> keys_sound devs db' \<and> cd_batches db' = cd_batches db \<and>
    list_all2 (\<lambda>m m'. m' = m \<or> qm_Status m = QProcessing \<and> qm_Status m' = QFailed) (cd_messages db) (cd_messages db')"
  using assms
proof (induction n arbitrary: db)
  case (Suc n)
  obtain ms db1 where r: "reapMessages devs cfg now ReapRestart db = (ms, db1)" by fastforce
  note c = reap_restart_counts [OF Suc.prems(1) r]
  show ?case
  proof (cases "length ms < reaperBatchSize")
    case True
    then show ?thesis using r c by auto
  next
    case False
    then have "in_process db1 < reaperBatchSize * n" using c(1,2) Suc.prems(2) by (simp add: reaperBatchSize_def)
    from Suc.IH [OF c(3) this] obtain db' where l: "reap_loop n devs cfg now db1 = Some db'" "in_process db' = 0"
      "keys_sound devs db'" "cd_batches db' = cd_batches db1"
      "list_all2 (\<lambda>m m'. m' = m \<or> qm_Status m = QProcessing \<and> qm_Status m' = QFailed) (cd_messages db1) (cd_messages db')"
      by blast
    have "list_all2 (\<lambda>m m'. m' = m \<or> qm_Status m = QProcessing \<and> qm_Status m' = QFailed) (cd_messages db) (cd_messages db')"
      by (rule list_all2_two_steps [OF c(5) l(5)]) auto
    then show ?thesis using r l c(4) False by auto
  qed
qed simp

lemma finish_counts:
  assumes k: "keys_sound devs db" and f: "FinishTerminalCommandBatches now reaperBatchSize db = (n, db')"
  shows "n = min reaperBatchSize (open_terminal db)" "open_terminal db' = open_terminal db - n"
    "keys_sound devs db'" "cd_messages db' = cd_messages db"
proof -
  let ?ys = "filter (open_terminal_batch db) (cd_batches db)"
  define hit where "hit = (\<lambda>b. b \<in> set (take reaperBatchSize ?ys))"
  have d: "distinct (map bl_ID (cd_batches db))" using k by (simp add: keys_sound_def)
  note l = limited_hits [OF d refl [of "mset ?ys"]]
  have pr: "b \<in> set (cd_batches db) \<and> open_terminal_batch db b" if "hit b" for b
    using that by (auto simp: hit_def dest!: in_set_takeD)
  have h: "(bl_ID b \<in> bl_ID ` set (take reaperBatchSize ?ys) \<and> bl_Status b \<in> {BPending, BProcessing}) = hit b"
    if b: "b \<in> set (cd_batches db)" for b
  proof -
    have "(bl_ID b \<in> bl_ID ` set (take reaperBatchSize ?ys)) = hit b"
      using l(2) [OF b] by (simp add: hit_def)
    then show ?thesis using pr [of b] by (auto simp: open_terminal_batch_def)
  qed
  let ?f = "\<lambda>b. b\<lparr>bl_Status := BFinished, bl_FinishedAt := Some now\<rparr>"
  have n: "n = length (filter hit (cd_batches db))"
    and db': "db' = db\<lparr>cd_batches := map (\<lambda>b. if hit b then ?f b else b) (cd_batches db)\<rparr>"
    using f h by (auto simp: FinishTerminalCommandBatches_def Let_def update_batches_def cong: filter_cong)
  show "n = min reaperBatchSize (open_terminal db)" using l(3) by (simp add: n hit_def open_terminal_def)
  have o: "open_terminal_batch db' b = open_terminal_batch db b" for b
    by (simp add: open_terminal_batch_def batch_messages_def db')
  have "filter (open_terminal_batch db') (cd_batches db') = filter (\<lambda>b. open_terminal_batch db b \<and> \<not> hit b) (cd_batches db)"
    unfolding ext [OF o] by (simp add: db', rule filter_after_hits) (simp add: open_terminal_batch_def)
  then show "open_terminal db' = open_terminal db - n"
    using length_filter_without [of "cd_batches db" hit "open_terminal_batch db"] pr by (simp add: open_terminal_def n)
  have "tables_step db db'"
    unfolding tables_step_def db' by (auto intro!: list_all2_map_if simp: batch_step_def list_all2_refl)
  then show "keys_sound devs db'" by (rule tables_step_keys [OF k])
  show "cd_messages db' = cd_messages db" by (simp add: db')
qed

lemma finish_loop_returns:
  assumes "keys_sound devs db" "open_terminal db < reaperBatchSize * n"
  shows "\<exists>db'. finish_loop n now db = Some db' \<and> open_terminal db' = 0 \<and> cd_messages db' = cd_messages db"
  using assms
proof (induction n arbitrary: db)
  case (Suc n)
  obtain i db1 where r: "FinishTerminalCommandBatches now reaperBatchSize db = (i, db1)" by fastforce
  note c = finish_counts [OF Suc.prems(1) r]
  show ?case
  proof (cases "i < reaperBatchSize")
    case True
    then show ?thesis using r c by auto
  next
    case False
    then have "open_terminal db1 < reaperBatchSize * n" using c(1,2) Suc.prems(2) by (simp add: reaperBatchSize_def)
    from Suc.IH [OF c(3) this] show ?thesis using r False c(4) by auto
  qed
qed simp

lemma restart_returns:
  assumes k: "keys_sound devs db" and n: "length (cd_messages db) < 100 * n" "length (cd_batches db) < 100 * n"
  shows "\<exists>db'. reapAfterRestart n devs cfg now db = Some db' \<and> in_process db' = 0 \<and> open_terminal db' = 0 \<and>
    list_all2 (\<lambda>m m'. m' = m \<or> qm_Status m = QProcessing \<and> qm_Status m' = QFailed) (cd_messages db) (cd_messages db')"
proof -
  have "in_process db < reaperBatchSize * n"
    using n(1) le_less_trans [OF length_filter_le] by (auto simp: in_process_def reaperBatchSize_def)
  from reap_loop_returns [OF k this, of cfg now] obtain db1 where 1: "reap_loop n devs cfg now db = Some db1" "in_process db1 = 0"
    "keys_sound devs db1" "cd_batches db1 = cd_batches db"
    "list_all2 (\<lambda>m m'. m' = m \<or> qm_Status m = QProcessing \<and> qm_Status m' = QFailed) (cd_messages db) (cd_messages db1)" by blast
  have "open_terminal db1 < reaperBatchSize * n"
    using n(2) le_less_trans [OF length_filter_le] by (auto simp: open_terminal_def reaperBatchSize_def 1(4))
  from finish_loop_returns [OF 1(3) this, of now] show ?thesis using 1 by (auto simp: reapAfterRestart_def in_process_def)
qed

section \<open>Error texts\<close>

lemma cont_not_ascii: "utf8_cont b \<Longrightarrow> 128 \<le> b" "utf8_second x b \<Longrightarrow> 128 \<le> b"
  by (auto simp: utf8_cont_def utf8_second_def split: if_splits)

text \<open>A longer encoding is fixed by its bytes, none of which but the first is an ASCII character.\<close>

lemma rune_width_long:
  assumes "1 < rune_width s"
  obtains a bs r where "s = (a # bs) @ r" "rune_width s = Suc (length bs)" "bs \<noteq> []" "\<forall>b \<in> set bs. 128 \<le> byte b"
    "\<forall>v. rune_width ((a # bs) @ v) = Suc (length bs)"
proof -
  from assms obtain a xs where s: "s = a # xs" by (cases s) (auto simp: rune_width_def)
  consider (two) b r where "xs = b # r" "0xC2 \<le> byte a" "byte a < 0xE0" "utf8_cont (byte b)"
    | (three) b d r where "xs = b # d # r" "0xE0 \<le> byte a" "byte a < 0xF0" "utf8_second (byte a) (byte b)" "utf8_cont (byte d)"
    | (four) b d e r where "xs = b # d # e # r" "0xF0 \<le> byte a" "byte a < 0xF5" "utf8_second (byte a) (byte b)" "utf8_cont (byte d)"
        "utf8_cont (byte e)"
    using assms by (auto simp: s rune_width_def split: if_splits list.splits)
  then show ?thesis
  proof cases
    case two
    then show ?thesis by (intro that [of a "[b]" r]) (auto simp: s rune_width_def cont_not_ascii)
  next
    case three
    then show ?thesis by (intro that [of a "[b, d]" r]) (auto simp: s rune_width_def dest: cont_not_ascii)
  next
    case four
    then show ?thesis by (intro that [of a "[b, d, e]" r]) (auto simp: s rune_width_def dest: cont_not_ascii)
  qed
qed

lemma rune_width_le: "rune_width s \<le> length s"
proof (cases "1 < rune_width s")
  case True
  then show ?thesis by (rule rune_width_long) simp
next
  case False
  then show ?thesis by (cases s) (auto simp: rune_width_def)
qed

text \<open>What follows an ASCII character does not matter for what is before it.\<close>

lemma rune_width_ascii:
  assumes t: "\<forall>c \<in> set t. byte c < 128" and w: "1 < rune_width (u @ t)"
  shows "u \<noteq> [] \<Longrightarrow> rune_width (u @ v) = rune_width (u @ t)"
proof -
  assume u: "u \<noteq> []"
  from w obtain a bs r where b: "u @ t = (a # bs) @ r" "rune_width (u @ t) = Suc (length bs)" "\<forall>b \<in> set bs. 128 \<le> byte b"
    "\<forall>v. rune_width ((a # bs) @ v) = Suc (length bs)" by (rule rune_width_long)
  consider (long) z where "u = (a # bs) @ z" | (short) x z where "u @ x # z = a # bs" "t = x # z @ r"
    using b(1) append_eq_append_conv2 [of u t "a # bs" r] by (metis append.right_neutral append_Cons list.exhaust)
  then show ?thesis
  proof cases
    case long
    then show ?thesis using b(2,4) by simp
  next
    case short
    then have "x \<in> set bs" "x \<in> set t" using u by (auto simp: append_eq_Cons_conv)
    then show ?thesis using b(3) t by force
  qed
qed

lemma take_runes_prefix: "\<exists>z. s = take_runes n s @ z"
proof (induction n arbitrary: s)
  case (Suc n)
  obtain z where "drop (rune_width s) s = take_runes n (drop (rune_width s) s) @ z" using Suc by blast
  then have "s = take (rune_width s) s @ take_runes n (drop (rune_width s) s) @ z" by (metis append_take_drop_id)
  then show ?case by auto
qed simp

lemma rune_count_take:
  assumes t: "\<forall>c \<in> set t. byte c < 128"
  shows "rune_count (take_runes n s @ t) \<le> n + rune_count t"
proof (induction n arbitrary: s)
  case (Suc n)
  show ?case
  proof (cases "s = []")
    case True
    then show ?thesis using Suc [of "[]"] by (simp add: rune_width_def)
  next
    case False
    let ?w = "rune_width s" and ?r = "take_runes n (drop (rune_width s) s)"
    have pos: "0 < ?w" using False by (cases s) auto
    have ne: "take ?w s \<noteq> []" using pos False by simp
    have len: "length (take ?w s) = ?w" using rune_width_le [of s] by simp
    have "rune_width (take ?w s @ ?r @ t) = ?w"
    proof (cases "1 < ?w")
      case True
      then show ?thesis
      proof (rule rune_width_long)
        fix a bs r assume "s = (a # bs) @ r" "?w = Suc (length bs)" "\<forall>v. rune_width ((a # bs) @ v) = Suc (length bs)"
        then show ?thesis by (metis append_eq_conv_conj length_Cons)
      qed
    next
      case False
      then have w: "?w = 1" using pos by simp
      obtain z where z: "s = (take ?w s @ ?r) @ z" using take_runes_prefix [of s "Suc n"] by auto
      have "\<not> 1 < rune_width ((take ?w s @ ?r) @ t)"
        using rune_width_ascii [OF t, of "take ?w s @ ?r" z] ne w z by auto
      moreover have "0 < rune_width ((take ?w s @ ?r) @ t)" using ne by (cases "take ?w s") auto
      ultimately show ?thesis using w by simp
    qed
    then have "rune_count (take ?w s @ ?r @ t) = Suc (rune_count (?r @ t))"
      using ne len rune_count.simps [of "take ?w s @ ?r @ t"] by simp
    then show ?thesis using Suc [of "drop ?w s"] by simp
  qed
qed simp

section \<open>The routine that follows a batch\<close>

definition all_answer :: watch_answers where
  "all_answer = \<lparr>wa_processing = True, wa_finished = True, wa_mark = True\<rparr>"

text \<open>The ticks of a routine with a callback that succeeds or fails as given, until it is over.\<close>

fun watch_ticks :: "gotime \<Rightarrow> string \<Rightarrow> bool list \<Rightarrow> batch_watch \<Rightarrow> command_db \<Rightarrow> bool \<times> batch_watch \<times> command_db" where
  "watch_ticks now u [] w db = (False, w, db)"
| "watch_ticks now u (ok # oks) w db =
     (case watch_tick now u all_answer (Some ok) w db of
        (True, w1, db1) \<Rightarrow> (True, w1, db1)
      | (False, w1, db1) \<Rightarrow> watch_ticks now u oks w1 db1)"

definition watch_inv :: "string \<Rightarrow> batch_watch \<Rightarrow> command_db \<Rightarrow> bool" where
  "watch_inv u w db \<longleftrightarrow>
     is_batch_finished u db \<and> \<not> bw_callbackDone w \<and> bw_retries w < 2 * maxCallbackRetries \<and>
     (bw_batchMarked w \<longrightarrow> (\<forall>b \<in> set (cd_batches db). bl_UUID b = u \<longrightarrow> bl_Status b = BFinished)) \<and>
     (\<not> bw_batchMarked w \<longrightarrow> bw_retries w < maxCallbackRetries \<and>
        (bw_processingMarked w \<or> (\<forall>b \<in> set (cd_batches db). bl_UUID b = u \<longrightarrow> bl_Status b \<noteq> BProcessing)))"

lemma update_batches_finished [simp]: "is_batch_finished u (snd (update_batches P f db)) = is_batch_finished u db"
  by (simp add: is_batch_finished_def batch_messages_def update_batches_def)

lemma update_batches_none: "\<forall>b \<in> set (cd_batches db). \<not> P b \<Longrightarrow> update_batches P f db = (0, db)"
proof -
  assume n: "\<forall>b \<in> set (cd_batches db). \<not> P b"
  then have "map (\<lambda>b. if P b then f b else b) (cd_batches db) = cd_batches db" by (intro map_idI) simp
  then show ?thesis using n by (simp add: update_batches_def filter_empty_conv)
qed

lemma mark_processing_finished:
  "is_batch_finished u db \<Longrightarrow> MarkCommandBatchProcessing now u db = (0, db)"
  unfolding MarkCommandBatchProcessing_def
  by (rule update_batches_none) (auto simp: is_batch_finished_def batch_messages_def list_all_iff list_ex_iff terminal_def)

lemma mark_finished_all:
  assumes "p \<or> (\<forall>b \<in> set (cd_batches db). bl_UUID b = u \<longrightarrow> bl_Status b \<noteq> BProcessing)"
  shows "\<forall>b \<in> set (cd_batches (mark_finished now u p db)). bl_UUID b = u \<longrightarrow> bl_Status b = BFinished"
proof (intro ballI impI)
  fix b assume b: "b \<in> set (cd_batches (mark_finished now u p db))" "bl_UUID b = u"
  show "bl_Status b = BFinished"
  proof (cases p)
    case True
    let ?f = "\<lambda>a. if bl_UUID a = u \<and> bl_Status a \<in> {BPending, BProcessing}
        then a\<lparr>bl_Status := BFinished, bl_FinishedAt := Some now\<rparr> else a"
    have "b \<in> ?f ` set (cd_batches db)"
      using b(1) True by (simp add: mark_finished_def MarkCommandBatchFinished_def update_batches_def)
    then obtain a where "b = ?f a" by (elim imageE)
    then show ?thesis using b(2) by (cases "bl_Status a") (auto split: if_splits)
  next
    case False
    let ?f = "\<lambda>a. if bl_UUID a = u \<and> bl_Status a = BPending
        then a\<lparr>bl_Status := BFinished, bl_StartedAt := Some now, bl_FinishedAt := Some now\<rparr> else a"
    have "b \<in> ?f ` set (cd_batches db)"
      using b(1) False by (simp add: mark_finished_def MarkCommandBatchFinishedWithStartedAt_def update_batches_def)
    then obtain a where "a \<in> set (cd_batches db)" "b = ?f a" by (elim imageE)
    then show ?thesis using b(2) assms False by (cases "bl_Status a") (auto split: if_splits)
  qed
qed

lemma mark_finished_keeps [simp]: "is_batch_finished u (mark_finished now v p db) = is_batch_finished u db"
  by (simp add: mark_finished_def MarkCommandBatchFinished_def MarkCommandBatchFinishedWithStartedAt_def)

text \<open>A tick ends the routine with the batch marked, or uses up one of the retries.\<close>

lemma watch_tick_step:
  assumes I: "watch_inv u w db" and t: "watch_tick now u all_answer (Some ok) w db = (over, w', db')"
  shows "if over then \<forall>b \<in> set (cd_batches db'). bl_UUID b = u \<longrightarrow> bl_Status b = BFinished
    else \<not> ok \<and> watch_inv u w' db' \<and> bw_retries w' = Suc (bw_retries w)"
proof -
  have f: "is_batch_finished u db" using I by (simp add: watch_inv_def)
  have m: "watch_mark now u w db = (if bw_batchMarked w then w else w\<lparr>bw_processingMarked := bw_processingMarked w\<rparr>, db)"
    using mark_processing_finished [OF f] by (simp add: watch_mark_def)
  have fin: "watch_tick now u all_answer (Some ok) w db = watch_finish now u True (Some ok) w db"
    using f by (simp add: watch_tick_def m all_answer_def)
  show ?thesis
  proof (cases "bw_batchMarked w")
    case True
    then show ?thesis
      using I t by (auto simp: fin watch_finish_def watch_callback_def Let_def watch_inv_def maxCallbackRetries_def
          split: if_splits)
  next
    case False
    then have "\<forall>b \<in> set (cd_batches (mark_finished now u (bw_processingMarked w) db)). bl_UUID b = u \<longrightarrow> bl_Status b = BFinished"
      using I by (intro mark_finished_all) (auto simp: watch_inv_def)
    then show ?thesis
      using I t False by (auto simp: fin watch_finish_def watch_callback_def Let_def watch_inv_def maxCallbackRetries_def
          split: if_splits)
  qed
qed

lemma watch_ticks_end:
  assumes "watch_inv u w db" "2 * maxCallbackRetries \<le> bw_retries w + length oks"
  shows "\<exists>w' db'. watch_ticks now u oks w db = (True, w', db') \<and> (\<forall>b \<in> set (cd_batches db'). bl_UUID b = u \<longrightarrow> bl_Status b = BFinished)"
  using assms
proof (induction oks arbitrary: w db)
  case Nil
  then show ?case by (simp add: watch_inv_def)
next
  case (Cons ok oks)
  obtain over w1 db1 where t: "watch_tick now u all_answer (Some ok) w db = (over, w1, db1)" by (metis prod_cases3)
  note st = watch_tick_step [OF Cons.prems(1) t]
  show ?case
  proof (cases over)
    case True
    then show ?thesis using t st by simp
  next
    case False
    then show ?thesis using t st Cons.prems(2) Cons.IH [of w1 db1] by simp
  qed
qed

section \<open>Promises\<close>

text \<open>C9. However requests, workers, crashes and the reaper interleave, a command is claimed by workers at
  most as often as the retry limit says.\<close>

theorem commands_tried_at_most:
  assumes "m \<in> set (cd_messages (cs_db (run_commands c ops empty_commands)))"
  shows "int (count_list (cs_claims (run_commands c ops empty_commands)) (qm_ID m)) \<le> max 0 (qc_MaxFailureRetries (cc_queue c))"
proof -
  have "tries_sound (max_tries c) (cs_claims (run_commands c ops empty_commands)) m"
    using assms commands_inv [of c ops] by (simp add: command_inv_def)
  then show ?thesis by (auto simp: tries_sound_def Let_def split: queue_status.splits)
qed

text \<open>C8. Every command of a batch marked finished has ended, and exactly one result of its device is stored
  with the batch; it says whether the command succeeded.\<close>

theorem finished_batches_are_recorded:
  assumes "db = cs_db (run_commands c ops empty_commands)" "b \<in> set (cd_batches db)" "bl_Status b = BFinished"
    "m \<in> set (cd_messages db)" "qm_BatchUUID m = bl_UUID b"
  shows "terminal m \<and>
    (\<exists>!l. l \<in> set (cd_logs db) \<and> dl_BatchID l = bl_ID b \<and> dl_DeviceID l = qm_DeviceID m) \<and>
    (\<exists>l \<in> set (cd_logs db). dl_BatchID l = bl_ID b \<and> dl_DeviceID l = qm_DeviceID m \<and> dl_Success l = (qm_Status m = QSuccess))"
proof -
  have I: "command_inv c (run_commands c ops empty_commands)" by (rule commands_inv)
  have t: "terminal m" using I assms by (auto simp: command_inv_def batch_settled_def)
  have k: "keys_sound (cc_devices c) db" and l: "logs_for db {m \<in> set (cd_messages db). terminal m}"
    using I by (simp_all add: command_inv_def logs_sound_def assms(1))
  obtain r where r: "r \<in> set (cd_logs db)" "recorded db m r" using l t assms(4) by (auto simp: logs_for_def)
  obtain a where a: "a \<in> set (cd_batches db)" "bl_UUID a = qm_BatchUUID m" "bl_ID a = dl_BatchID r" using r(2) by (auto simp: recorded_def)
  have ab: "a = b" using batch_of_uuid [OF k a(1) assms(2)] a(2) assms(5) by simp
  have "inj_on (\<lambda>l. (dl_BatchID l, dl_DeviceID l)) (set (cd_logs db))" using l by (simp add: logs_for_def distinct_map)
  moreover have key: "dl_BatchID r = bl_ID b" "dl_DeviceID r = qm_DeviceID m" "dl_Success r = (qm_Status m = QSuccess)"
    using r(2) a(3) ab by (simp_all add: recorded_def)
  ultimately have "x = r" if "x \<in> set (cd_logs db)" "dl_BatchID x = bl_ID b" "dl_DeviceID x = qm_DeviceID m" for x
    using that r(1) by (simp add: inj_on_def)
  then show ?thesis using t r(1) key by blast
qed

text \<open>C10. At a restart the reaping returns (with a round for every hundred messages and batches): nothing is
  left in processing and no batch whose messages have ended is left open; what was interrupted has failed,
  and every other message is as it was.\<close>

theorem restart_settles_interrupted_commands:
  assumes "db = cs_db (run_commands c ops empty_commands)" "length (cd_messages db) < 100 * n" "length (cd_batches db) < 100 * n"
  shows "\<exists>db'. reapAfterRestart n (cc_devices c) cfg now db = Some db' \<and>
    \<not> list_ex (\<lambda>m. qm_Status m = QProcessing) (cd_messages db') \<and> \<not> list_ex (open_terminal_batch db') (cd_batches db') \<and>
    list_all2 (\<lambda>m m'. if qm_Status m = QProcessing then qm_Status m' = QFailed else m' = m) (cd_messages db) (cd_messages db')"
proof -
  have "keys_sound (cc_devices c) db" using commands_inv [of c ops] by (simp add: command_inv_def assms(1))
  from restart_returns [OF this assms(2,3), of cfg now] obtain db' where
    r: "reapAfterRestart n (cc_devices c) cfg now db = Some db'" "in_process db' = 0" "open_terminal db' = 0"
    "list_all2 (\<lambda>m m'. m' = m \<or> qm_Status m = QProcessing \<and> qm_Status m' = QFailed) (cd_messages db) (cd_messages db')" by blast
  have p: "\<forall>m \<in> set (cd_messages db'). qm_Status m \<noteq> QProcessing" using r(2) by (simp add: in_process_def filter_empty_conv)
  have "list_all2 (\<lambda>m m'. if qm_Status m = QProcessing then qm_Status m' = QFailed else m' = m) (cd_messages db) (cd_messages db')"
    by (rule list.rel_mono_strong [OF r(4)]) (use p in auto)
  then show ?thesis using r(1,3) p by (auto simp: list_ex_iff open_terminal_def filter_empty_conv)
qed

text \<open>Once the messages of a batch have ended and the database answers, the routine that follows the batch is
  over after at most six ticks, whatever its callback returns, and the batch is marked finished.\<close>

theorem batch_watch_ends:
  assumes "is_batch_finished u db" "p \<or> (\<forall>b \<in> set (cd_batches db). bl_UUID b = u \<longrightarrow> bl_Status b \<noteq> BProcessing)" "6 \<le> length oks"
  shows "\<exists>w db'. watch_ticks now u oks (new_watch\<lparr>bw_processingMarked := p\<rparr>) db = (True, w, db') \<and>
    (\<forall>b \<in> set (cd_batches db'). bl_UUID b = u \<longrightarrow> bl_Status b = BFinished)"
  using assms by (intro watch_ticks_end) (auto simp: watch_inv_def new_watch_def maxCallbackRetries_def)

text \<open>The error text stored with a result has at most 2048 runes, and a text that short is stored whole.\<close>

theorem error_info_is_bounded:
  "case boundedErrorInfo s of
     None \<Rightarrow> s = []
   | Some t \<Rightarrow> rune_count t \<le> 2048 \<and> (if rune_count s \<le> 2048 then t = s else \<exists>n. t = take_runes n s @ truncationSuffix)"
proof -
  have a: "\<forall>c \<in> set truncationSuffix. byte c < 128" by (simp add: truncationSuffix_def)
  have c: "rune_count truncationSuffix = 15" by (simp add: truncationSuffix_def rune_count.simps rune_width_def)
  show ?thesis
    using rune_count_take [OF a, of "2048 - 15" s] by (auto simp: boundedErrorInfo_def maxErrorInfoRunes_def c)
qed

section \<open>Examples\<close>

definition demo_command_config :: "int \<Rightarrow> command_config" where
  "demo_command_config n =
     \<lparr>cc_devices = (\<lambda>d. if d = 1 \<or> d = 2 then Some (7, None) else None),
      cc_queue = \<lparr>qc_DequeLimit = 10, qc_MaxFailureRetries = n\<rparr>,
      cc_reaper = \<lparr>rc_StuckMessageTimeout = 60, rc_FirmwareUpdateStuckTimeout = 600\<rparr>\<rparr>"

text \<open>Two reboots in a batch: one succeeds, the other fails twice; the batch is closed.\<close>

definition demo_command_ops :: "command_op list" where
  "demo_command_ops =
     [OpCreate ''b'' CtReboot 2 7, OpEnqueue 10 ''b'' CtReboot [(1, ''{}''), (2, ''{}'')],
      OpDequeue 11 4, OpMarkProcessing 11 ''b'', OpDone 12 7 0 None, OpDone 12 7 0 (Some (WorkerOtherError ''x'')),
      OpDequeue 13 4, OpDone 14 7 0 (Some (WorkerOtherError ''y'')), OpSeen ''b'', OpMarkFinished 15 ''b'' True]"

lemma demo_commands_end:
  "map (\<lambda>m. (qm_ID m, qm_BatchUUID m, qm_DeviceID m, qm_Status m))
     (cd_messages (cs_db (run_commands (demo_command_config 2) demo_command_ops empty_commands))) =
     [(1, ''b'', 1, QSuccess), (2, ''b'', 2, QFailed)]"
  "map (\<lambda>b. (bl_ID b, bl_UUID b, bl_Status b))
     (cd_batches (cs_db (run_commands (demo_command_config 2) demo_command_ops empty_commands))) = [(1, ''b'', BFinished)]"
  "map (\<lambda>l. (dl_BatchID l, dl_DeviceID l, dl_Success l))
     (cd_logs (cs_db (run_commands (demo_command_config 2) demo_command_ops empty_commands))) = [(1, 1, True), (1, 2, False)]"
  "cs_claims (run_commands (demo_command_config 2) demo_command_ops empty_commands) = [1, 2, 2]"
  by code_simp+

theorem commands_tried_at_most_witness:
  "int (count_list (cs_claims (run_commands (demo_command_config 2) demo_command_ops empty_commands)) 2) \<le> 2"
proof -
  let ?ms = "cd_messages (cs_db (run_commands (demo_command_config 2) demo_command_ops empty_commands))"
  have "2 \<in> set (map fst (map (\<lambda>m. (qm_ID m, qm_BatchUUID m, qm_DeviceID m, qm_Status m)) ?ms))"
    unfolding demo_commands_end by simp
  then obtain m where "m \<in> set ?ms" "qm_ID m = 2" by auto
  then show ?thesis using commands_tried_at_most [of m "demo_command_config 2" demo_command_ops] by (simp add: demo_command_config_def)
qed

lemma demo_finished_batch:
  "\<exists>b m. b \<in> set (cd_batches (cs_db (run_commands (demo_command_config 2) demo_command_ops empty_commands))) \<and>
     bl_Status b = BFinished \<and> bl_ID b = 1 \<and>
     m \<in> set (cd_messages (cs_db (run_commands (demo_command_config 2) demo_command_ops empty_commands))) \<and>
     qm_BatchUUID m = bl_UUID b \<and> qm_DeviceID m = 2"
proof -
  let ?db = "cs_db (run_commands (demo_command_config 2) demo_command_ops empty_commands)"
  have "(2, ''b'', 2, QFailed) \<in> set (map (\<lambda>m. (qm_ID m, qm_BatchUUID m, qm_DeviceID m, qm_Status m)) (cd_messages ?db))"
    "(1, ''b'', BFinished) \<in> set (map (\<lambda>b. (bl_ID b, bl_UUID b, bl_Status b)) (cd_batches ?db))"
    unfolding demo_commands_end by simp_all
  then obtain m b where "m \<in> set (cd_messages ?db)" "qm_BatchUUID m = ''b''" "qm_DeviceID m = 2"
    "b \<in> set (cd_batches ?db)" "bl_ID b = 1" "bl_UUID b = ''b''" "bl_Status b = BFinished" by fastforce
  then show ?thesis by metis
qed

theorem finished_batches_are_recorded_witness:
  "\<exists>!l. l \<in> set (cd_logs (cs_db (run_commands (demo_command_config 2) demo_command_ops empty_commands))) \<and>
     dl_BatchID l = 1 \<and> dl_DeviceID l = 2"
proof -
  let ?db = "cs_db (run_commands (demo_command_config 2) demo_command_ops empty_commands)"
  obtain b m where h: "b \<in> set (cd_batches ?db)" "bl_Status b = BFinished" "m \<in> set (cd_messages ?db)" "qm_BatchUUID m = bl_UUID b"
    and k: "bl_ID b = 1" "qm_DeviceID m = 2" using demo_finished_batch by blast
  show ?thesis using finished_batches_are_recorded [OF refl h] unfolding k by blast
qed

theorem restart_settles_interrupted_commands_witness:
  "\<exists>db'. reapAfterRestart 1 (cc_devices (demo_command_config 2)) (cc_reaper (demo_command_config 2)) 20
     (cs_db (run_commands (demo_command_config 2) (take 3 demo_command_ops) empty_commands)) = Some db' \<and>
     \<not> list_ex (\<lambda>m. qm_Status m = QProcessing) (cd_messages db')"
proof -
  have "length (cd_messages (cs_db (run_commands (demo_command_config 2) (take 3 demo_command_ops) empty_commands))) < 100 * 1"
    "length (cd_batches (cs_db (run_commands (demo_command_config 2) (take 3 demo_command_ops) empty_commands))) < 100 * 1"
    by code_simp+
  from restart_settles_interrupted_commands [OF refl this, of "cc_reaper (demo_command_config 2)" 20] show ?thesis by blast
qed

theorem batch_watch_ends_witness:
  "\<exists>w db'. watch_ticks 16 ''b'' [False, False, False, False, False, False] (new_watch\<lparr>bw_processingMarked := True\<rparr>)
     (cs_db (run_commands (demo_command_config 2) (take 8 demo_command_ops) empty_commands)) = (True, w, db')"
proof -
  have "is_batch_finished ''b'' (cs_db (run_commands (demo_command_config 2) (take 8 demo_command_ops) empty_commands))"
    by code_simp
  moreover have "6 \<le> length [False, False, False, False, False, False]" by simp
  ultimately show ?thesis using batch_watch_ends [of _ _ True _ 16] by blast
qed

section \<open>What the selection of messages does not promise\<close>

text \<open>
  A message that waits for its second try when the limit is lowered to one is never selected again, nothing
  fails it, and it holds back every later command of its device.
\<close>

lemma lowered_limit_blocks_device:
  "let s = run_commands (demo_command_config 3)
     [OpCreate ''a'' CtReboot 1 7, OpEnqueue 10 ''a'' CtReboot [(1, ''{}'')], OpDequeue 11 4,
      OpDone 12 7 0 (Some (WorkerOtherError ''x'')), OpCreate ''b'' CtReboot 1 7, OpEnqueue 20 ''b'' CtReboot [(1, ''{}'')]]
     empty_commands
   in map (\<lambda>m. (qm_DeviceID m, qm_Status m)) (cd_messages (cs_db s)) = [(1, QPending), (1, QPending)] \<and>
      GetMessagesToProcess (cc_devices (demo_command_config 1)) (max_tries (demo_command_config 1)) 10 (cs_db s) = [] \<and>
      cd_messages (snd (reapMessages (cc_devices (demo_command_config 1)) (cc_reaper (demo_command_config 1)) 9999 ReapRestart (cs_db s))) =
        cd_messages (cs_db s)"
  by code_simp

text \<open>
  The time of a message is that of its transaction, not of its commit: a command enqueued earlier and
  committed later is selected while a later command of the same device is being executed.
\<close>

lemma late_commit_runs_two_at_once:
  "let s = run_commands (demo_command_config 3)
     [OpCreate ''a'' CtReboot 1 7, OpCreate ''b'' CtFirmwareUpdate 1 7,
      OpEnqueue 20 ''b'' CtFirmwareUpdate [(1, ''{}'')], OpDequeue 21 4, OpEnqueue 10 ''a'' CtReboot [(1, ''{}'')], OpDequeue 22 4]
     empty_commands
   in map (\<lambda>m. (qm_DeviceID m, qm_CommandType m, qm_Status m)) (cd_messages (cs_db s)) =
        [(1, ''FirmwareUpdate'', QProcessing), (1, ''Reboot'', QProcessing)]"
  by code_simp

end
