(* ===== verification/Command_Admission.thy ===== *)
theory Command_Admission
  imports Command_Worker
begin

text \<open>
  The way of a command into the queue: the preflight filters (\<open>command/filter.go\<close> and the three filters that
  \<open>cmd/fleetd/main.go\<close> registers) and \<open>admitCommand\<close> with its audit of rejections (\<open>command/service.go\<close>).
  A filter's query answers with rows or an error; the query results are arguments of the filters.
\<close>

section \<open>Sessions and filters\<close>

datatype session_actor = ActorNone | ActorScheduler | ActorCurtailment | ActorRolloutEnforcement

record session_info =
  si_UserID :: int
  si_OrganizationID :: int
  si_Actor :: session_actor
  si_ScheduleID :: int
  si_SchedulePriority :: int

definition isExternalCommand :: "session_info \<Rightarrow> bool" where
  "isExternalCommand info \<longleftrightarrow> si_Actor info = ActorNone \<and> si_ScheduleID info = 0"

record preflight_skip =
  sd_DeviceIdentifier :: string
  sd_FilterName :: string
  sd_Reason :: string

record filter_input =
  fi_CommandType :: command_type
  fi_OrganizationID :: int
  fi_Actor :: session_actor
  fi_ScheduleID :: int
  fi_SchedulePriority :: int
  fi_DeviceIdentifiers :: "string list"

type_synonym filter_result = "string + (string list \<times> preflight_skip list)"
type_synonym command_filter = "filter_input \<Rightarrow> filter_result"

text \<open>The loop every filter ends with: \<open>reason\<close> gives the reason for which an identifier is blocked.\<close>

fun split_identifiers :: "string \<Rightarrow> (string \<Rightarrow> string option) \<Rightarrow> string list \<Rightarrow> string list \<times> preflight_skip list" where
  "split_identifiers name reason [] = ([], [])"
| "split_identifiers name reason (i # is) =
     (case split_identifiers name reason is of (kept, skipped) \<Rightarrow>
        case reason i of
          Some r \<Rightarrow> (kept, \<lparr>sd_DeviceIdentifier = i, sd_FilterName = name, sd_Reason = r\<rparr> # skipped)
        | None \<Rightarrow> (i # kept, skipped))"

fun applyFilters :: "command_filter list \<Rightarrow> filter_input \<Rightarrow> filter_result" where
  "applyFilters [] inp = Inr (fi_DeviceIdentifiers inp, [])"
| "applyFilters (f # fs) inp =
     (if fi_DeviceIdentifiers inp = [] then Inr ([], [])
      else case f inp of
        Inl err \<Rightarrow> Inl err
      | Inr (kept, skipped) \<Rightarrow>
          (case applyFilters fs (inp\<lparr>fi_DeviceIdentifiers := kept\<rparr>) of
             Inl err \<Rightarrow> Inl err
           | Inr (kept', skipped') \<Rightarrow> Inr (kept', skipped @ skipped')))"

section \<open>The registered filters\<close>

record overlap_row =
  ov_ScheduleID :: int
  ov_SchedulePriority :: int
  ov_DeviceIdentifier :: string

definition ScheduleConflictFilterName :: string where
  "ScheduleConflictFilterName = ''schedule_conflict''"

text \<open>The first schedule that blocks each identifier.\<close>

definition schedule_blocks :: "filter_input \<Rightarrow> overlap_row \<Rightarrow> bool" where
  "schedule_blocks inp r \<longleftrightarrow>
     ov_ScheduleID r \<noteq> fi_ScheduleID inp \<and>
     \<not> (fi_ScheduleID inp \<noteq> 0 \<and> fi_SchedulePriority inp \<le> ov_SchedulePriority r)"

fun conflicted :: "filter_input \<Rightarrow> overlap_row list \<Rightarrow> (string \<rightharpoonup> int) \<Rightarrow> (string \<rightharpoonup> int)" where
  "conflicted inp [] m = m"
| "conflicted inp (r # rs) m =
     conflicted inp rs
       (if schedule_blocks inp r \<and> m (ov_DeviceIdentifier r) = None
        then m(ov_DeviceIdentifier r \<mapsto> ov_ScheduleID r) else m)"

definition ScheduleConflictFilter :: "(int \<Rightarrow> string list \<Rightarrow> string + overlap_row list) \<Rightarrow> command_filter" where
  "ScheduleConflictFilter overlaps inp =
     (if fi_CommandType inp \<noteq> CtSetPowerTarget \<or> fi_DeviceIdentifiers inp = [] then Inr (fi_DeviceIdentifiers inp, [])
      else case overlaps (fi_OrganizationID inp) (fi_DeviceIdentifiers inp) of
        Inl err \<Rightarrow> Inl (''failed to get running power target schedule overlaps: '' @ err)
      | Inr rs \<Rightarrow>
          let m = conflicted inp rs Map.empty in
          Inr (split_identifiers ScheduleConflictFilterName
            (\<lambda>i. map_option (\<lambda>b. ''schedule '' @ show_int b @
                (if fi_ScheduleID inp \<noteq> 0 then '' holds higher priority for set_power_target''
                 else '' blocks set_power_target'')) (m i))
            (fi_DeviceIdentifiers inp)))"

definition CurtailmentActiveFilterName :: string where
  "CurtailmentActiveFilterName = ''curtailment_active''"

definition CurtailmentActiveFilter :: "(int \<Rightarrow> string + string list) \<Rightarrow> command_filter" where
  "CurtailmentActiveFilter active inp =
     (if fi_CommandType inp = CtApplyCurtailmentConfig \<or>
         (fi_Actor inp = ActorCurtailment \<and> (fi_CommandType inp = CtCurtail \<or> fi_CommandType inp = CtUncurtail)) \<or>
         fi_DeviceIdentifiers inp = []
      then Inr (fi_DeviceIdentifiers inp, [])
      else case active (fi_OrganizationID inp) of
        Inl err \<Rightarrow> Inl (''failed to list active curtailed devices: '' @ err)
      | Inr ids \<Rightarrow>
          Inr (split_identifiers CurtailmentActiveFilterName
            (\<lambda>i. if i \<in> set ids then Some ''device is part of an active curtailment event'' else None)
            (fi_DeviceIdentifiers inp)))"

definition releaseChannelFirmwareFilterName :: string where
  "releaseChannelFirmwareFilterName = ''release_channel_firmware''"

text \<open>
  The rows pair an identifier with the name of its channel; a later row replaces an earlier one. \<open>quote\<close> is the
  quoted form of a name.
\<close>

definition ReleaseChannelFirmwareFilter ::
  "(string \<Rightarrow> string) \<Rightarrow> (int \<Rightarrow> string list \<Rightarrow> string + (string \<times> string) list) \<Rightarrow> command_filter" where
  "ReleaseChannelFirmwareFilter quote managed inp =
     (if fi_CommandType inp \<noteq> CtFirmwareUpdate \<or> fi_Actor inp = ActorRolloutEnforcement \<or> fi_DeviceIdentifiers inp = []
      then Inr (fi_DeviceIdentifiers inp, [])
      else case managed (fi_OrganizationID inp) (fi_DeviceIdentifiers inp) of
        Inl err \<Rightarrow> Inl (''check release channel firmware assignments: '' @ err)
      | Inr rows \<Rightarrow>
          Inr (split_identifiers releaseChannelFirmwareFilterName
            (\<lambda>i. map_option (\<lambda>c. ''firmware is managed by release channel '' @ quote c @
                ''; change its firmware in Settings > Firmware > Release channels'') (map_of (rev rows) i))
            (fi_DeviceIdentifiers inp)))"

record filter_queries =
  fq_overlaps :: "int \<Rightarrow> string list \<Rightarrow> string + overlap_row list"
  fq_active :: "int \<Rightarrow> string + string list"
  fq_managed :: "int \<Rightarrow> string list \<Rightarrow> string + (string \<times> string) list"
  fq_quote :: "string \<Rightarrow> string"

definition server_filters :: "filter_queries \<Rightarrow> command_filter list" where
  "server_filters q =
     [ScheduleConflictFilter (fq_overlaps q), CurtailmentActiveFilter (fq_active q),
      ReleaseChannelFirmwareFilter (fq_quote q) (fq_managed q)]"

section \<open>Messages about skips\<close>

definition skipsOnlyFromFilter :: "preflight_skip list \<Rightarrow> string \<Rightarrow> bool" where
  "skipsOnlyFromFilter skipped name \<longleftrightarrow> skipped \<noteq> [] \<and> list_all (\<lambda>s. sd_FilterName s = name) skipped"

definition preflightBlockedMessage :: "nat \<Rightarrow> preflight_skip list \<Rightarrow> string" where
  "preflightBlockedMessage requested skipped =
     (case List.find (\<lambda>s. sd_FilterName s = releaseChannelFirmwareFilterName) skipped of
        Some s \<Rightarrow> ''command blocked: '' @ sd_Reason s
      | None \<Rightarrow>
          if skipsOnlyFromFilter skipped CurtailmentActiveFilterName
          then ''command blocked: '' @ show_nat (length skipped) @ '' of '' @ show_nat requested @ '' '' @
            (if requested = 1 then ''device'' else ''devices'') @ '' '' @
            (if length skipped = 1 then ''is'' else ''are'') @ '' part of an active curtailment event''
          else ''command blocked: '' @ show_nat (length skipped) @ '' of '' @ show_nat requested @
            '' device(s) excluded by preflight filters'')"

section \<open>Selectors and devices\<close>

record device_filter =
  df_DeviceStatus :: "string list"
  df_PairingStatus :: "string list"
  df_Models :: "string list"
  df_Manufacturers :: "string list"

datatype device_selector =
    SelectAllDevices "device_filter option"
  | SelectIncludeDevices "string list option"
  | SelectAllMatchingFilter
  | SelectUnknown

fun dedup :: "string list \<Rightarrow> string list \<Rightarrow> string list" where
  "dedup seen [] = []"
| "dedup seen (x # xs) = (if x \<in> set seen then dedup seen xs else x # dedup (x # seen) xs)"

definition pairingStatusValuesForSelector :: "device_filter option \<Rightarrow> string list" where
  "pairingStatusValuesForSelector f =
     (case f of
        Some d \<Rightarrow> if df_PairingStatus d \<noteq> [] then dedup [] (df_PairingStatus d) else [''PAIRED'', ''DEFAULT_PASSWORD'']
      | None \<Rightarrow> [''PAIRED'', ''DEFAULT_PASSWORD''])"

text \<open>The parameters of the query for all devices.\<close>

record filter_params =
  fp_OrgID :: int
  fp_PairingStatusValues :: "string list"
  fp_DeviceStatus :: "string option"
  fp_ModelFilter :: "string option"
  fp_ManufacturerFilter :: "string option"

definition filter_params_of :: "int \<Rightarrow> device_filter option \<Rightarrow> filter_params" where
  "filter_params_of org f =
     (let d = (case f of Some d \<Rightarrow> d | None \<Rightarrow> \<lparr>df_DeviceStatus = [], df_PairingStatus = [], df_Models = [], df_Manufacturers = []\<rparr>) in
      \<lparr>fp_OrgID = org, fp_PairingStatusValues = pairingStatusValuesForSelector (Some d),
       fp_DeviceStatus = (case df_DeviceStatus d of [] \<Rightarrow> None | x # _ \<Rightarrow> Some x),
       fp_ModelFilter = (if df_Models d = [] then None else Some (join_byte CHR '','' (df_Models d))),
       fp_ManufacturerFilter = (if df_Manufacturers d = [] then None else Some (join_byte CHR '','' (df_Manufacturers d)))\<rparr>)"

record resolved_device =
  rd_id :: int
  rd_identifier :: string

text \<open>The loop of \<open>resolveIdentifiersToDevices\<close> over the rows of the query, identifier and id.\<close>

fun resolve_loop :: "(string \<rightharpoonup> int) \<Rightarrow> string list \<Rightarrow> string list \<Rightarrow> resolved_device list" where
  "resolve_loop ids seen [] = []"
| "resolve_loop ids seen (i # is) =
     (if i \<in> set seen then resolve_loop ids seen is
      else case ids i of
        None \<Rightarrow> resolve_loop ids seen is
      | Some d \<Rightarrow> \<lparr>rd_id = d, rd_identifier = i\<rparr> # resolve_loop ids (i # seen) is)"

definition resolveIdentifiersToDevices :: "(string \<times> int) list \<Rightarrow> string list \<Rightarrow> resolved_device list" where
  "resolveIdentifiersToDevices rows ids = resolve_loop (map_of (rev rows)) [] ids"

section \<open>Firmware targets\<close>

record firmware_metadata =
  fm_TargetManufacturer :: string
  fm_TargetModel :: string

definition lower_byte :: "char \<Rightarrow> char" where
  "lower_byte c = (if 65 \<le> byte c \<and> byte c \<le> 90 then char_of (byte c + 32) else c)"

definition equalFoldASCII :: "string \<Rightarrow> string \<Rightarrow> bool" where
  "equalFoldASCII a b \<longleftrightarrow> length a = length b \<and> list_all (\<lambda>(x, y). lower_byte x = lower_byte y) (zip a b)"

definition MatchesTarget :: "firmware_metadata \<Rightarrow> string \<Rightarrow> string \<Rightarrow> bool" where
  "MatchesTarget m manufacturer model \<longleftrightarrow>
     strings_TrimSpace manufacturer \<noteq> [] \<and> strings_TrimSpace model \<noteq> [] \<and>
     equalFoldASCII (strings_TrimSpace manufacturer) (strings_TrimSpace (fm_TargetManufacturer m)) \<and>
     equalFoldASCII (strings_TrimSpace model) (strings_TrimSpace (fm_TargetModel m))"

definition ValidateFirmwareMetadata :: "firmware_metadata \<Rightarrow> fleet_error option" where
  "ValidateFirmwareMetadata m =
     (if strings_TrimSpace (fm_TargetManufacturer m) = [] then Some (NewInvalidArgumentError ''target_manufacturer is required'')
      else if strings_TrimSpace (fm_TargetModel m) = [] then Some (NewInvalidArgumentError ''target_model is required'')
      else None)"

text \<open>The rows give the manufacturer and model of the organization's devices by identifier.\<close>

definition validateFirmwareUpdateTargets ::
  "(string + (string \<times> string \<times> string) list) \<Rightarrow> resolved_device list \<Rightarrow> firmware_metadata \<Rightarrow> fleet_error option" where
  "validateFirmwareUpdateTargets props devices m =
     (if ValidateFirmwareMetadata m \<noteq> None
      then Some (NewFailedPreconditionError ''firmware target metadata is unknown; repair its metadata before deploying it'')
      else case props of
        Inl err \<Rightarrow> Some (NewInternalError (''failed to load device targets for firmware compatibility validation: '' @ err))
      | Inr rows \<Rightarrow>
          let n = length (filter (\<lambda>d. case map_of (rev rows) (rd_identifier d) of
                None \<Rightarrow> True | Some (manufacturer, model) \<Rightarrow> \<not> MatchesTarget m manufacturer model) devices) in
          if 0 < n
          then Some (NewFailedPreconditionError (''firmware targets '' @ fm_TargetManufacturer m @ '' '' @ fm_TargetModel m @
            '', but '' @ show_nat n @ '' of '' @ show_nat (length devices) @ '' selected device(s) have a different or unknown target''))
          else None)"

section \<open>Payloads by route\<close>

record route_row =
  rt_ID :: int
  rt_FleetNodeID :: "int option"
  rt_EncryptionPubkey :: string

datatype encrypt_error = InvalidRecipientPublicKey | EncryptFailed string

fun routes_for :: "(int \<rightharpoonup> route_row) \<Rightarrow> resolved_device list \<Rightarrow> fleet_error + route_row list" where
  "routes_for m [] = Inr []"
| "routes_for m (d # ds) =
     (case m (rd_id d) of
        None \<Rightarrow> Inl (NewInternalError (''missing command route for device '' @ show_int (rd_id d)))
      | Some r \<Rightarrow> (case routes_for m ds of Inl e \<Rightarrow> Inl e | Inr rs \<Rightarrow> Inr (r # rs)))"

definition resolveDeviceCommandRoutes :: "(string + route_row list) \<Rightarrow> resolved_device list \<Rightarrow> fleet_error + route_row list" where
  "resolveDeviceCommandRoutes rows ds =
     (case rows of
        Inl err \<Rightarrow> Inl (NewInternalError (''resolve device command routes: '' @ err))
      | Inr rs \<Rightarrow> routes_for (map_of (rev (map (\<lambda>r. (rt_ID r, r)) rs))) ds)"

text \<open>
  The loop of both preparations. A device behind a fleet node gets the payload encrypted for the node
  (\<open>encrypt\<close>), any other device \<open>local\<close>; \<open>what\<close> and \<open>doing\<close> are the words of the error messages.
\<close>

fun dispatch_loop :: "string \<Rightarrow> string \<Rightarrow> (string \<Rightarrow> string \<Rightarrow> encrypt_error + string) \<Rightarrow> (fleet_error + string) \<Rightarrow>
    (resolved_device \<times> route_row) list \<Rightarrow> fleet_error + (int \<times> string) list" where
  "dispatch_loop what doing encrypt local [] = Inr []"
| "dispatch_loop what doing encrypt local ((d, r) # ds) =
     (case (case rt_FleetNodeID r of
              Some n \<Rightarrow>
                (case encrypt (rt_EncryptionPubkey r) (rd_identifier d) of
                   Inl InvalidRecipientPublicKey \<Rightarrow>
                     Inl (NewFailedPreconditionError (''fleet node '' @ show_int n @
                       '' does not have an encryption key; re-enroll the fleet node before '' @ doing))
                 | Inl (EncryptFailed e) \<Rightarrow>
                     Inl (NewInternalError (''encrypt '' @ what @ '' for device '' @ rd_identifier d @ '': '' @ e))
                 | Inr p \<Rightarrow> Inr p)
            | None \<Rightarrow> local) of
        Inl e \<Rightarrow> Inl e
      | Inr p \<Rightarrow> (case dispatch_loop what doing encrypt local ds of Inl e \<Rightarrow> Inl e | Inr ms \<Rightarrow> Inr ((rd_id d, p) # ms)))"

definition prepareUpdateMinerPasswordDispatch :: "(string + route_row list) \<Rightarrow> (string \<Rightarrow> string \<Rightarrow> encrypt_error + string) \<Rightarrow>
    resolved_device list \<Rightarrow> string \<Rightarrow> fleet_error + (int \<times> string) list" where
  "prepareUpdateMinerPasswordDispatch rows encrypt ds payload =
     (if ds = [] then Inr []
      else case resolveDeviceCommandRoutes rows ds of
        Inl e \<Rightarrow> Inl e
      | Inr rs \<Rightarrow> dispatch_loop ''password update'' ''updating miner passwords'' encrypt (Inr payload) (zip ds rs))"

text \<open>\<open>local\<close> is the result of \<open>encryptLocalCurtailmentConfig\<close>, which depends on the configuration only.\<close>

definition prepareCurtailmentConfigDispatch :: "(string + route_row list) \<Rightarrow> (string \<Rightarrow> string \<Rightarrow> encrypt_error + string) \<Rightarrow>
    (fleet_error + string) \<Rightarrow> resolved_device list \<Rightarrow> string option \<Rightarrow> fleet_error + (int \<times> string) list" where
  "prepareCurtailmentConfigDispatch rows encrypt local ds config =
     (case config of
        None \<Rightarrow> Inl (NewInternalError ''plaintext curtailment config is required before route encryption'')
      | Some _ \<Rightarrow>
          if ds = [] then Inr []
          else case resolveDeviceCommandRoutes rows ds of
            Inl e \<Rightarrow> Inl e
          | Inr rs \<Rightarrow> dispatch_loop ''curtailment config'' ''applying curtailment config'' encrypt local (zip ds rs))"

section \<open>Admission\<close>

datatype command_payload =
    PlainPayload string
  | PasswordPayload string
  | ConfigPayload "string option"
  | FirmwarePayload string

record command_request =
  cr_commandType :: command_type
  cr_deviceSelector :: device_selector
  cr_payload :: command_payload

text \<open>
  What the enqueue transaction does: it answers; it returns an error after or before its commit; or the
  execution service stops before it.
\<close>

datatype enqueue_answer = EnqueueAnswers | EnqueueLost bool | EnqueueStopped

text \<open>
  The world of one request. \<open>ae_rows\<close>: identifiers and ids of the live devices, of every organization, as
  \<open>GetDeviceIDsWithIdentifiers\<close> reads them; the routes and the properties are those of one organization.
\<close>

record admission_env =
  ae_inTx :: bool
  ae_hooks :: bool
  ae_running :: bool
  ae_session :: "session_info option"
  ae_allDevices :: "filter_params \<Rightarrow> string + string list"
  ae_matching :: "(fleet_error + string list) option"
  ae_filters :: "command_filter list"
  ae_rows :: "string + (string \<times> int) list"
  ae_metadata :: "fleet_error + firmware_metadata"
  ae_properties :: "int \<Rightarrow> string + (string \<times> string \<times> string) list"
  ae_routes :: "int \<Rightarrow> string + route_row list"
  ae_encrypt :: "command_payload \<Rightarrow> string \<Rightarrow> string \<Rightarrow> encrypt_error + string"
  ae_local :: "fleet_error + string"
  ae_marshals :: bool
  ae_saves :: bool
  ae_enqueue :: enqueue_answer
  ae_reconciles :: bool
  ae_audits :: bool

record command_outcome =
  co_BatchIdentifier :: string
  co_DispatchedCount :: nat
  co_Skipped :: "preflight_skip list"
  co_DispatchedDeviceIdentifiers :: "string list"

datatype admit_error = AdmitError fleet_error | PreflightRejection "string list" "preflight_skip list"

definition resolveSelectorIdentifiers :: "admission_env \<Rightarrow> int \<Rightarrow> device_selector \<Rightarrow> string + string list" where
  "resolveSelectorIdentifiers e org sel =
     (case sel of
        SelectAllDevices f \<Rightarrow> ae_allDevices e (filter_params_of org f)
      | SelectIncludeDevices None \<Rightarrow> Inr []
      | SelectIncludeDevices (Some ids) \<Rightarrow> Inr ids
      | SelectAllMatchingFilter \<Rightarrow>
          (case ae_matching e of
             None \<Rightarrow> Inl ''device identifier resolver not configured for all_matching_filter selector''
           | Some (Inl err) \<Rightarrow> Inl (fe_msg err)
           | Some (Inr ids) \<Rightarrow> Inr ids)
      | SelectUnknown \<Rightarrow> Inl ''resolveSelectorIdentifiers called with unknown selector type'')"

definition no_devices :: admit_error where
  "no_devices = AdmitError (NewInvalidArgumentError ''no devices matched selector'')"

definition internal :: "string \<Rightarrow> admit_error" where
  "internal t = AdmitError (NewInternalError t)"

text \<open>The payloads for the queue: one for all devices, or one per device.\<close>

definition queue_payloads :: "admission_env \<Rightarrow> int \<Rightarrow> command_request \<Rightarrow> resolved_device list \<Rightarrow> admit_error + (int \<times> string) list" where
  "queue_payloads e org c ds =
     (if cr_commandType c = CtUpdateMinerPassword then
        (case cr_payload c of
           PasswordPayload p \<Rightarrow>
             (case prepareUpdateMinerPasswordDispatch (ae_routes e org) (ae_encrypt e (cr_payload c)) ds p of
                Inl err \<Rightarrow> Inl (AdmitError err) | Inr ms \<Rightarrow> Inr ms)
         | _ \<Rightarrow> Inl (internal ''invalid update miner password payload''))
      else if cr_commandType c = CtApplyCurtailmentConfig then
        (case cr_payload c of
           ConfigPayload p \<Rightarrow>
             (case prepareCurtailmentConfigDispatch (ae_routes e org) (ae_encrypt e (cr_payload c)) (ae_local e) ds p of
                Inl err \<Rightarrow> Inl (AdmitError err) | Inr ms \<Rightarrow> Inr ms)
         | _ \<Rightarrow> Inl (internal ''invalid curtailment config payload''))
      else
        Inr (map (\<lambda>d. (rd_id d, case cr_payload c of PlainPayload p \<Rightarrow> p | PasswordPayload p \<Rightarrow> p | FirmwarePayload p \<Rightarrow> p
               | ConfigPayload p \<Rightarrow> (case p of None \<Rightarrow> ''null'' | Some p \<Rightarrow> p))) ds))"

text \<open>The batch row and the enqueue. A failure inside the caller's transaction rolls everything back.\<close>

definition enqueue_error :: "admission_env \<Rightarrow> command_type \<Rightarrow> admit_error" where
  "enqueue_error e t =
     internal (if ae_enqueue e = EnqueueStopped then ''command execution service stopped before enqueue''
       else if t = CtUpdateMinerPassword \<or> t = CtApplyCurtailmentConfig then ''error enqueuing per-device command payloads''
       else ''error enqueuing a batch of commands'')"

definition admit_enqueue :: "admission_env \<Rightarrow> device_table \<Rightarrow> gotime \<Rightarrow> string \<Rightarrow> command_type \<Rightarrow> int \<Rightarrow> (int \<times> string) list \<Rightarrow>
    command_db \<Rightarrow> admit_error option \<times> command_db" where
  "admit_enqueue e devs now u t org ms db =
     (if \<not> ae_saves e then (Some (internal ''error saving command batch log to db''), db)
      else
        let db1 = CreateCommandBatchLog u t (int (length ms)) org db;
            (err, db2) =
              (case ae_enqueue e of
                 EnqueueStopped \<Rightarrow> (True, db1)
               | EnqueueLost committed \<Rightarrow>
                   (True, if committed then (case enqueueEncoded devs now u t ms db1 of Inl _ \<Rightarrow> db1 | Inr d \<Rightarrow> d) else db1)
               | EnqueueAnswers \<Rightarrow> (case enqueueEncoded devs now u t ms db1 of Inl _ \<Rightarrow> (True, db1) | Inr d \<Rightarrow> (False, d)))
        in
          if \<not> err then (None, db2)
          else if ae_inTx e then (Some (enqueue_error e t), db)
          else if \<not> ae_reconciles e then (Some (internal ''command enqueue failed and reconciliation also failed''), db2)
          else (case reconcileFailedEnqueue now u (length ms) db2 of
                  (EnqueueCommitted, d) \<Rightarrow> (None, d)
                | (EnqueueFailed, d) \<Rightarrow> (Some (enqueue_error e t), d)
                | (ReconcileFailed, d) \<Rightarrow> (Some (internal ''command enqueue failed and reconciliation also failed''), d)))"

definition admit_devices :: "admission_env \<Rightarrow> device_table \<Rightarrow> gotime \<Rightarrow> string \<Rightarrow> session_info \<Rightarrow> command_request \<Rightarrow>
    string list \<Rightarrow> preflight_skip list \<Rightarrow> command_db \<Rightarrow> (admit_error + command_outcome) \<times> command_db" where
  "admit_devices e devs now u info c kept skipped db =
     (case ae_rows e of
        Inl err \<Rightarrow> (Inl (internal (''error resolving identifiers to device IDs: '' @ err)), db)
      | Inr rows \<Rightarrow>
          let ds = resolveIdentifiersToDevices rows kept;
              invalid =
                (if cr_commandType c \<noteq> CtFirmwareUpdate then None
                 else case cr_payload c of
                   FirmwarePayload _ \<Rightarrow>
                     (case ae_metadata e of
                        Inl err \<Rightarrow> Some err
                      | Inr m \<Rightarrow> validateFirmwareUpdateTargets (ae_properties e (si_OrganizationID info)) ds m)
                 | _ \<Rightarrow> Some (NewInternalError ''invalid firmware update payload''))
          in
          (case invalid of
             Some err \<Rightarrow> (Inl (AdmitError err), db)
           | None \<Rightarrow>
               (case queue_payloads e (si_OrganizationID info) c ds of
                  Inl err \<Rightarrow> (Inl err, db)
                | Inr ms \<Rightarrow>
                    if \<not> ae_marshals e then (Inl (internal ''error marshalling payload''), db)
                    else if ds = []
                    then (if isExternalCommand info then Inl no_devices
                          else Inr \<lparr>co_BatchIdentifier = [], co_DispatchedCount = 0, co_Skipped = skipped,
                                    co_DispatchedDeviceIdentifiers = []\<rparr>, db)
                    else
                      (case admit_enqueue e devs now u (cr_commandType c) (si_OrganizationID info) ms db of
                         (Some err, db1) \<Rightarrow> (Inl err, db1)
                       | (None, db1) \<Rightarrow>
                           (Inr \<lparr>co_BatchIdentifier = u, co_DispatchedCount = length ds, co_Skipped = skipped,
                                 co_DispatchedDeviceIdentifiers = map rd_identifier ds\<rparr>, db1)))))"

definition filter_input_of :: "session_info \<Rightarrow> command_type \<Rightarrow> string list \<Rightarrow> filter_input" where
  "filter_input_of info t ids =
     \<lparr>fi_CommandType = t, fi_OrganizationID = si_OrganizationID info, fi_Actor = si_Actor info,
      fi_ScheduleID = si_ScheduleID info, fi_SchedulePriority = si_SchedulePriority info, fi_DeviceIdentifiers = ids\<rparr>"

text \<open>\<open>u\<close> is the new batch identifier.\<close>

definition admitCommand :: "admission_env \<Rightarrow> device_table \<Rightarrow> gotime \<Rightarrow> string \<Rightarrow> command_request \<Rightarrow> command_db \<Rightarrow>
    (admit_error + command_outcome) \<times> command_db" where
  "admitCommand e devs now u c db =
     (if ae_inTx e \<and> \<not> ae_hooks e
      then (Inl (internal ''transactional command dispatch requires post-commit callbacks''), db)
      else if \<not> ae_running e then (Inl (AdmitError (FleetError CodeUnavailable ''Fleet is not active'')), db)
      else
        case ae_session e of
          None \<Rightarrow> (Inl (internal ''error getting session info from ctx''), db)
        | Some info \<Rightarrow>
            if si_OrganizationID info \<le> 0
            then (Inl (internal ''cannot create command batch: session missing organization_id''), db)
            else
              (case resolveSelectorIdentifiers e (si_OrganizationID info) (cr_deviceSelector c) of
                 Inl err \<Rightarrow> (Inl (internal (''error resolving device identifiers: '' @ err)), db)
               | Inr ids \<Rightarrow>
                   (case applyFilters (ae_filters e) (filter_input_of info (cr_commandType c) ids) of
                      Inl err \<Rightarrow> (Inl (internal (''preflight filter failed: '' @ err)), db)
                    | Inr (kept, skipped) \<Rightarrow>
                        if isExternalCommand info \<and> skipped \<noteq> []
                        then (Inl (case ae_rows e of
                                Inl err \<Rightarrow> internal (''error resolving identifiers to device IDs: '' @ err)
                              | Inr rows \<Rightarrow>
                                  if filter (\<lambda>(i, _). i \<in> set ids) rows = [] then no_devices
                                  else PreflightRejection ids skipped), db)
                        else if kept = [] \<and> skipped \<noteq> []
                        then (Inr \<lparr>co_BatchIdentifier = [], co_DispatchedCount = 0, co_Skipped = skipped,
                                   co_DispatchedDeviceIdentifiers = []\<rparr>, db)
                        else if kept = [] then (Inl no_devices, db)
                        else admit_devices e devs now u info c kept skipped db)))"

definition auditPreflightRejection :: "admission_env \<Rightarrow> admit_error \<Rightarrow> fleet_error" where
  "auditPreflightRejection e err =
     (case err of
        AdmitError f \<Rightarrow> f
      | PreflightRejection ids skipped \<Rightarrow>
          if ae_audits e then NewFailedPreconditionError (preflightBlockedMessage (length ids) skipped)
          else NewInternalError ''logging preflight block'')"

definition processCommand :: "admission_env \<Rightarrow> device_table \<Rightarrow> gotime \<Rightarrow> string \<Rightarrow> command_request \<Rightarrow> command_db \<Rightarrow>
    (fleet_error + command_outcome) \<times> command_db" where
  "processCommand e devs now u c db =
     (case admitCommand e devs now u c db of
        (Inl err, db1) \<Rightarrow> (Inl (auditPreflightRejection e err), db1)
      | (Inr r, db1) \<Rightarrow> (Inr r, db1))"

end
