(* ===== verification/Command_Preflight.thy ===== *)
theory Command_Preflight
  imports Command_Admission Command_Safety
begin

text \<open>
  What admission promises: the filters split the requested identifiers and nothing else, a dispatched command
  passed every filter, a refused one leaves nothing in the queue, and every admission is a run of the system
  of \<open>Command_Safety\<close>. At the end, the devices a selector by identifier reaches.
\<close>

section \<open>The contract of a filter\<close>

text \<open>A filter keeps the identifiers it does not skip, in their order, and loses none.\<close>

locale preflight_filter =
  fixes f :: command_filter
  assumes keeps: "f inp = Inr (kept, skipped) \<Longrightarrow>
      kept = filter (\<lambda>i. i \<notin> sd_DeviceIdentifier ` set skipped) (fi_DeviceIdentifiers inp)"
    and loses_none: "f inp = Inr (kept, skipped) \<Longrightarrow>
      mset (map sd_DeviceIdentifier skipped) + mset kept = mset (fi_DeviceIdentifiers inp)"
begin

lemma kept_requested: "f inp = Inr (kept, skipped) \<Longrightarrow> set kept \<subseteq> set (fi_DeviceIdentifiers inp)"
  by (drule keeps) (metis filter_is_subset)

lemma counts_add_up: "f inp = Inr (kept, skipped) \<Longrightarrow> length skipped + length kept = length (fi_DeviceIdentifiers inp)"
  using loses_none by (metis length_map size_mset size_union)

lemma all_kept: "f inp = Inr (kept, []) \<Longrightarrow> kept = fi_DeviceIdentifiers inp"
  using keeps by (metis (mono_tags) empty_iff filter_True image_empty list.set(1))

end

lemma split_identifiers_kept: "split_identifiers name reason ids = (kept, skipped) \<Longrightarrow> kept = filter (\<lambda>i. reason i = None) ids"
  by (induction ids arbitrary: kept skipped) (auto split: prod.splits option.splits)

lemma split_identifiers_skipped:
  "split_identifiers name reason ids = (kept, skipped) \<Longrightarrow> map sd_DeviceIdentifier skipped = filter (\<lambda>i. reason i \<noteq> None) ids"
  by (induction ids arbitrary: kept skipped) (auto split: prod.splits option.splits)

lemma split_identifiers_law:
  assumes "split_identifiers name reason ids = (kept, skipped)"
  shows "kept = filter (\<lambda>i. i \<notin> sd_DeviceIdentifier ` set skipped) ids"
    "mset (map sd_DeviceIdentifier skipped) + mset kept = mset ids"
proof -
  note k = split_identifiers_kept [OF assms] and s = split_identifiers_skipped [OF assms]
  have "sd_DeviceIdentifier ` set skipped = {i \<in> set ids. reason i \<noteq> None}" using s by (metis set_filter set_map)
  then show "kept = filter (\<lambda>i. i \<notin> sd_DeviceIdentifier ` set skipped) ids" unfolding k by (intro filter_cong) auto
  show "mset (map sd_DeviceIdentifier skipped) + mset kept = mset ids"
    unfolding k s by (simp add: multiset_partition [of "mset ids" "\<lambda>i. reason i \<noteq> None", symmetric])
qed

lemma filter_by_split:
  assumes "\<And>inp kept skipped. f inp = Inr (kept, skipped) \<Longrightarrow>
    kept = fi_DeviceIdentifiers inp \<and> skipped = [] \<or>
    (\<exists>name reason. split_identifiers name reason (fi_DeviceIdentifiers inp) = (kept, skipped))"
  shows "preflight_filter f"
proof unfold_locales
  fix inp kept skipped assume "f inp = Inr (kept, skipped)"
  from assms [OF this] show "kept = filter (\<lambda>i. i \<notin> sd_DeviceIdentifier ` set skipped) (fi_DeviceIdentifiers inp)"
    "mset (map sd_DeviceIdentifier skipped) + mset kept = mset (fi_DeviceIdentifiers inp)"
    by (elim disjE, simp, blast dest: split_identifiers_law)+
qed

interpretation schedule_filter: preflight_filter "ScheduleConflictFilter overlaps" for overlaps
  by (rule filter_by_split) (auto simp: ScheduleConflictFilter_def Let_def split: if_splits sum.splits)

interpretation curtailment_filter: preflight_filter "CurtailmentActiveFilter active" for active
  by (rule filter_by_split) (auto simp: CurtailmentActiveFilter_def split: if_splits sum.splits)

interpretation channel_filter: preflight_filter "ReleaseChannelFirmwareFilter quote managed" for quote managed
  by (rule filter_by_split) (auto simp: ReleaseChannelFirmwareFilter_def split: if_splits sum.splits)

text \<open>A chain of filters is a filter.\<close>

lemma chain_law:
  assumes "list_all preflight_filter fs" "applyFilters fs inp = Inr (kept, skipped)"
  shows "kept = filter (\<lambda>i. i \<notin> sd_DeviceIdentifier ` set skipped) (fi_DeviceIdentifiers inp) \<and>
    mset (map sd_DeviceIdentifier skipped) + mset kept = mset (fi_DeviceIdentifiers inp)"
  using assms
proof (induction fs arbitrary: inp kept skipped)
  case (Cons f fs)
  show ?case
  proof (cases "fi_DeviceIdentifiers inp = []")
    case True
    then show ?thesis using Cons.prems by simp
  next
    case False
    then obtain k1 s1 s2 where 1: "f inp = Inr (k1, s1)" "applyFilters fs (inp\<lparr>fi_DeviceIdentifiers := k1\<rparr>) = Inr (kept, s2)"
      "skipped = s1 @ s2" using Cons.prems(2) by (auto split: sum.splits)
    have f: "preflight_filter f" using Cons.prems(1) by simp
    have "list_all preflight_filter fs" using Cons.prems(1) by simp
    note ih = conjunct1 [OF Cons.IH [OF this 1(2)], simplified] conjunct2 [OF Cons.IH [OF this 1(2)], simplified]
    have "kept = filter (\<lambda>i. i \<notin> sd_DeviceIdentifier ` set skipped) (fi_DeviceIdentifiers inp)"
      unfolding ih(1) preflight_filter.keeps [OF f 1(1)] 1(3) by (auto intro!: filter_cong)
    moreover have "mset (map sd_DeviceIdentifier skipped) + mset kept = mset (fi_DeviceIdentifiers inp)"
      using ih(2) preflight_filter.loses_none [OF f 1(1)] by (simp add: 1(3) add.assoc)
    ultimately show ?thesis by blast
  qed
qed simp

interpretation server_chain: preflight_filter "applyFilters (server_filters q)" for q
proof unfold_locales
  fix inp kept skipped
  assume a: "applyFilters (server_filters q) inp = Inr (kept, skipped)"
  have "list_all preflight_filter (server_filters q)"
    by (simp add: server_filters_def schedule_filter.preflight_filter_axioms curtailment_filter.preflight_filter_axioms
        channel_filter.preflight_filter_axioms)
  note law = chain_law [OF this a]
  show "kept = filter (\<lambda>i. i \<notin> sd_DeviceIdentifier ` set skipped) (fi_DeviceIdentifiers inp)" using law ..
  show "mset (map sd_DeviceIdentifier skipped) + mset kept = mset (fi_DeviceIdentifiers inp)" using law ..
qed

section \<open>What a filter lets through\<close>

lemma conflicted_none:
  "conflicted inp rs m i = None \<longleftrightarrow> m i = None \<and> (\<forall>r \<in> set rs. ov_DeviceIdentifier r = i \<longrightarrow> \<not> schedule_blocks inp r)"
  by (induction rs arbitrary: m) auto

lemma schedule_lets_through:
  assumes "ScheduleConflictFilter overlaps inp = Inr (kept, skipped)" "i \<in> set kept" "fi_CommandType inp = CtSetPowerTarget"
  shows "\<exists>rows. overlaps (fi_OrganizationID inp) (fi_DeviceIdentifiers inp) = Inr rows \<and>
    (\<forall>r \<in> set rows. ov_DeviceIdentifier r = i \<longrightarrow> \<not> schedule_blocks inp r)"
  using assms
  by (auto simp: ScheduleConflictFilter_def Let_def conflicted_none split: if_splits sum.splits dest!: split_identifiers_kept)

definition curtailment_bypass :: "session_actor \<Rightarrow> command_type \<Rightarrow> bool" where
  "curtailment_bypass a t \<longleftrightarrow> t = CtApplyCurtailmentConfig \<or> a = ActorCurtailment \<and> (t = CtCurtail \<or> t = CtUncurtail)"

lemma curtailment_lets_through:
  assumes "CurtailmentActiveFilter active inp = Inr (kept, skipped)" "i \<in> set kept"
    "\<not> curtailment_bypass (fi_Actor inp) (fi_CommandType inp)"
  shows "\<exists>ids. active (fi_OrganizationID inp) = Inr ids \<and> i \<notin> set ids"
  using assms
  by (auto simp: CurtailmentActiveFilter_def curtailment_bypass_def split: if_splits sum.splits dest!: split_identifiers_kept)

lemma channel_lets_through:
  assumes "ReleaseChannelFirmwareFilter quote managed inp = Inr (kept, skipped)" "i \<in> set kept"
    "fi_CommandType inp = CtFirmwareUpdate" "fi_Actor inp \<noteq> ActorRolloutEnforcement"
  shows "\<exists>rows. managed (fi_OrganizationID inp) (fi_DeviceIdentifiers inp) = Inr rows \<and> i \<notin> fst ` set rows"
  using assms
  by (force simp: ReleaseChannelFirmwareFilter_def map_of_eq_None_iff split: if_splits sum.splits dest!: split_identifiers_kept)

lemma server_filters_pass:
  assumes "applyFilters (server_filters q) inp = Inr (kept, skipped)" "i \<in> set kept"
  shows "\<exists>k1 s1 k2 s2 s3. ScheduleConflictFilter (fq_overlaps q) inp = Inr (k1, s1) \<and> i \<in> set k1 \<and>
    CurtailmentActiveFilter (fq_active q) (inp\<lparr>fi_DeviceIdentifiers := k1\<rparr>) = Inr (k2, s2) \<and> i \<in> set k2 \<and>
    ReleaseChannelFirmwareFilter (fq_quote q) (fq_managed q) (inp\<lparr>fi_DeviceIdentifiers := k2\<rparr>) = Inr (kept, s3)"
proof -
  from assms obtain k1 s1 k2 s2 s3 where c: "ScheduleConflictFilter (fq_overlaps q) inp = Inr (k1, s1)"
    "CurtailmentActiveFilter (fq_active q) (inp\<lparr>fi_DeviceIdentifiers := k1\<rparr>) = Inr (k2, s2)"
    "ReleaseChannelFirmwareFilter (fq_quote q) (fq_managed q) (inp\<lparr>fi_DeviceIdentifiers := k2\<rparr>) = Inr (kept, s3)"
    by (auto simp: server_filters_def split: if_splits sum.splits)
  have "i \<in> set k2" using channel_filter.kept_requested [OF c(3)] assms(2) by auto
  moreover from this have "i \<in> set k1" using curtailment_filter.kept_requested [OF c(2)] by auto
  ultimately show ?thesis using c by blast
qed

section \<open>Admission, step by step\<close>

lemma resolve_loop_members:
  "d \<in> set (resolve_loop m seen ids) \<longleftrightarrow>
     rd_identifier d \<in> set ids \<and> rd_identifier d \<notin> set seen \<and> m (rd_identifier d) = Some (rd_id d)"
  by (induction m seen ids rule: resolve_loop.induct) (auto split: option.splits)

lemma resolve_loop_distinct: "distinct (map rd_identifier (resolve_loop m seen ids))"
proof (induction m seen ids rule: resolve_loop.induct)
  case (2 m seen i "is")
  then show ?case by (auto simp: resolve_loop_members split: option.splits)
qed simp

lemma resolved_ids_distinct:
  assumes "distinct (map snd rows)"
  shows "distinct (map rd_id (resolveIdentifiersToDevices rows ids))"
proof -
  let ?ds = "resolveIdentifiersToDevices rows ids"
  have "inj_on rd_id (set ?ds)"
  proof (rule inj_onI)
    fix x y assume a: "x \<in> set ?ds" "y \<in> set ?ds" "rd_id x = rd_id y"
    then have "(rd_identifier x, rd_id x) \<in> set rows" "(rd_identifier y, rd_id x) \<in> set rows"
      by (auto simp: resolveIdentifiersToDevices_def resolve_loop_members dest!: map_of_SomeD)
    then have "rd_identifier x = rd_identifier y" using assms unfolding distinct_map inj_on_def by force
    then show "x = y" using a(3) by simp
  qed
  moreover have "distinct ?ds" using resolve_loop_distinct unfolding resolveIdentifiersToDevices_def by (metis distinct_map)
  ultimately show ?thesis by (simp add: distinct_map)
qed

lemma routes_for_length: "routes_for m ds = Inr rs \<Longrightarrow> length rs = length ds"
  by (induction ds arbitrary: rs) (auto split: option.splits sum.splits)

lemma dispatch_loop_ids: "dispatch_loop a b f g ds = Inr ms \<Longrightarrow> map fst ms = map (rd_id \<circ> fst) ds"
  by (induction ds arbitrary: ms) (auto split: sum.splits option.splits encrypt_error.splits)

lemma queue_payloads_ids: "queue_payloads e org c ds = Inr ms \<Longrightarrow> map fst ms = map rd_id ds"
proof -
  assume q: "queue_payloads e org c ds = Inr ms"
  have z: "map (rd_id \<circ> fst) (zip ds rs) = map rd_id ds" if "resolveDeviceCommandRoutes r ds = Inr rs" for r rs
  proof -
    have "length ds = length rs"
      using that routes_for_length by (auto simp: resolveDeviceCommandRoutes_def split: sum.splits)
    then show ?thesis by (metis map_fst_zip map_map)
  qed
  show ?thesis
    using q by (auto simp: queue_payloads_def prepareUpdateMinerPasswordDispatch_def prepareCurtailmentConfigDispatch_def z
        split: if_splits command_payload.splits sum.splits option.splits dest!: dispatch_loop_ids)
qed

lemma admitted:
  assumes "admitCommand e devs now u c db = (Inr r, db')" "co_DispatchedDeviceIdentifiers r \<noteq> []"
  shows "\<exists>info ids kept skipped. ae_session e = Some info \<and>
    resolveSelectorIdentifiers e (si_OrganizationID info) (cr_deviceSelector c) = Inr ids \<and>
    applyFilters (ae_filters e) (filter_input_of info (cr_commandType c) ids) = Inr (kept, skipped) \<and>
    (isExternalCommand info \<longrightarrow> skipped = []) \<and> admit_devices e devs now u info c kept skipped db = (Inr r, db')"
  using assms unfolding admitCommand_def by (auto split: if_splits option.splits sum.splits)

lemma admitted_devices:
  assumes "admit_devices e devs now u info c kept skipped db = (Inr r, db')" "co_DispatchedDeviceIdentifiers r \<noteq> []"
  shows "\<exists>rows ds ms. ae_rows e = Inr rows \<and> ds = resolveIdentifiersToDevices rows kept \<and>
    queue_payloads e (si_OrganizationID info) c ds = Inr ms \<and>
    admit_enqueue e devs now u (cr_commandType c) (si_OrganizationID info) ms db = (None, db') \<and>
    co_DispatchedDeviceIdentifiers r = map rd_identifier ds \<and> co_BatchIdentifier r = u"
  using assms unfolding admit_devices_def Let_def by (auto split: if_splits option.splits sum.splits prod.splits)

lemma admit_enqueue_none:
  assumes "admit_enqueue e devs now u t org ms db = (None, db')" "ms \<noteq> []" "u \<notin> qm_BatchUUID ` set (cd_messages db)"
  shows "enqueueEncoded devs now u t ms (CreateCommandBatchLog u t (int (length ms)) org db) = Inr db'"
proof -
  let ?db = "CreateCommandBatchLog u t (int (length ms)) org db"
  have none: "batch_messages u ?db = []" using assms(3) by (auto simp: batch_messages_def CreateCommandBatchLog_def filter_empty_conv)
  have rec: "fst (reconcileFailedEnqueue now u (length ms) ?db) \<noteq> EnqueueCommitted"
    using none assms(2) by (auto simp: reconcileFailedEnqueue_def Let_def split: option.splits)
  have same: "reconcileFailedEnqueue now u n x = (EnqueueCommitted, y) \<Longrightarrow> y = x" for n x y
    by (auto simp: reconcileFailedEnqueue_def Let_def split: option.splits if_splits)
  show ?thesis
    using assms(1) rec
    by (auto simp: admit_enqueue_def Let_def split: if_splits enqueue_answer.splits sum.splits prod.splits reconcile_result.splits dest: same)
qed

lemma enqueue_adds:
  assumes "enqueueEncoded devs now u t ms (CreateCommandBatchLog u t n org db) = Inr db'"
  shows "cd_messages db' = cd_messages db @ new_messages now u t (cd_nextMessage db) ms"
  using assms by (auto simp: enqueueEncoded_def CreateQueueMessages_def CreateCommandBatchLog_def split: option.splits if_splits)

lemma find_last: "\<forall>x \<in> set xs. \<not> P x \<Longrightarrow> P y \<Longrightarrow> List.find P (xs @ [y]) = Some y"
  by (induction xs) auto

text \<open>What the enqueue leaves behind is a run of the system.\<close>

lemma enqueue_is_run:
  assumes s: "cc_devices cf = devs" "cs_db s = db" and u: "u \<notin> set (map bl_UUID (cd_batches db))" and ms: "distinct (map fst ms)"
    and e: "admit_enqueue e devs now u t org ms db = (x, db')"
  shows "\<exists>ops. db' = cs_db (run_commands cf ops s)"
proof -
  let ?create = "OpCreate u t (int (length ms)) org" and ?enq = "OpEnqueue now u t ms" and ?rec = "OpReconcile now u (length ms)"
  have "db' = cs_db (run_commands cf [] s) \<or> db' = cs_db (run_commands cf [?create] s) \<or>
      db' = cs_db (run_commands cf [?create, ?enq] s) \<or> db' = cs_db (run_commands cf [?create, ?rec] s) \<or>
      db' = cs_db (run_commands cf [?create, ?enq, ?rec] s)"
    using e s u ms
    by (auto simp: admit_enqueue_def run_commands_def Let_def split: if_splits enqueue_answer.splits sum.splits prod.splits reconcile_result.splits)
  then show ?thesis by blast
qed

lemma enqueue_error_queues_nothing:
  assumes u: "u \<notin> qm_BatchUUID ` set (cd_messages db)" "u \<notin> set (map bl_UUID (cd_batches db))" and r: "ae_reconciles e" and ms: "ms \<noteq> []"
    and e: "admit_enqueue e devs now u t org ms db = (Some x, db')"
  shows "cd_messages db' = cd_messages db \<and>
    (cd_batches db' = cd_batches db \<or> (\<exists>b. cd_batches db' = cd_batches db @ [b] \<and> bl_UUID b = u \<and> bl_Status b = BFinished))"
proof -
  let ?db = "CreateCommandBatchLog u t (int (length ms)) org db"
  obtain b where b: "cd_batches ?db = cd_batches db @ [b]" "bl_UUID b = u" "bl_Status b = BPending" and m: "cd_messages ?db = cd_messages db"
    by (simp add: CreateCommandBatchLog_def)
  have fb: "find_batch u ?db = Some b"
    unfolding find_batch_def b(1) by (rule find_last) (use u(2) b(2) in \<open>auto simp: image_iff\<close>)
  have none: "batch_messages u ?db = []" using u(1) by (auto simp: batch_messages_def m filter_empty_conv)
  have rec: "reconcileFailedEnqueue now u (length ms) ?db = (EnqueueFailed, snd (MarkCommandBatchFinishedWithStartedAt now u ?db))"
    using none ms b fb by (simp add: reconcileFailedEnqueue_def)
  have keep: "map (\<lambda>b. if bl_UUID b = u \<and> bl_Status b = BPending
      then b\<lparr>bl_Status := BFinished, bl_StartedAt := Some now, bl_FinishedAt := Some now\<rparr> else b) (cd_batches db) = cd_batches db"
    using u(2) by (intro map_idI) auto
  let ?fin = "snd (MarkCommandBatchFinishedWithStartedAt now u ?db)"
  have closed: "cd_messages ?fin = cd_messages db \<and> (\<exists>b. cd_batches ?fin = cd_batches db @ [b] \<and> bl_UUID b = u \<and> bl_Status b = BFinished)"
    using b m by (simp add: MarkCommandBatchFinishedWithStartedAt_def update_batches_def keep)
  have found: "fst (reconcileFailedEnqueue now u (length ms) d) = EnqueueCommitted" if "enqueueEncoded devs now u t ms ?db = Inr d" for d
  proof -
    have "cd_messages d = cd_messages db @ new_messages now u t (cd_nextMessage db) ms" by (rule enqueue_adds [OF that])
    moreover have "length (new_messages now u t i ms) = length ms" for i using new_messages_maps(1) [of now u t i ms] by (metis length_map)
    moreover have "filter (\<lambda>m. qm_BatchUUID m = u) (new_messages now u t i ms) = new_messages now u t i ms" for i
      using new_messages_members by (fastforce intro!: filter_True)
    moreover have "filter (\<lambda>m. qm_BatchUUID m = u) (cd_messages db) = []" using u(1) by (auto simp: filter_empty_conv)
    ultimately have n: "length (batch_messages u d) = length ms" by (simp add: batch_messages_def)
    have "find_batch u d = find_batch u ?db"
      using that by (auto simp: enqueueEncoded_def CreateQueueMessages_def find_batch_def split: option.splits if_splits)
    then show ?thesis using n fb by (simp add: reconcileFailedEnqueue_def)
  qed
  consider (same) "db' = db" | (fin) "db' = ?fin" | (com) d where "enqueueEncoded devs now u t ms ?db = Inr d"
      "fst (reconcileFailedEnqueue now u (length ms) d) \<noteq> EnqueueCommitted"
    using e r rec by (auto simp: admit_enqueue_def Let_def split: if_splits enqueue_answer.splits sum.splits prod.splits reconcile_result.splits)
  then show ?thesis
  proof cases
    case fin
    then show ?thesis using closed by simp
  next
    case (com d)
    then show ?thesis using found by blast
  qed simp
qed

section \<open>Promises\<close>

text \<open>C11. A command reaches a device only when every preflight rule allows it: the device is in no active
  curtailment (unless the command configures curtailment or the reconciler sends it), firmware is not managed by
  a release channel (unless the rollout sends it), and no running schedule of another, higher priority owns its
  power target.\<close>

theorem dispatched_commands_passed_every_filter:
  assumes "processCommand e devs now u c db = (Inr r, db')" "ae_filters e = server_filters q"
    "i \<in> set (co_DispatchedDeviceIdentifiers r)"
  shows "\<exists>info. ae_session e = Some info \<and>
    (\<not> curtailment_bypass (si_Actor info) (cr_commandType c) \<longrightarrow>
       (\<exists>ids. fq_active q (si_OrganizationID info) = Inr ids \<and> i \<notin> set ids)) \<and>
    (cr_commandType c = CtFirmwareUpdate \<and> si_Actor info \<noteq> ActorRolloutEnforcement \<longrightarrow>
       (\<exists>asked rows. i \<in> set asked \<and> fq_managed q (si_OrganizationID info) asked = Inr rows \<and> i \<notin> fst ` set rows)) \<and>
    (cr_commandType c = CtSetPowerTarget \<longrightarrow>
       (\<exists>asked rows. i \<in> set asked \<and> fq_overlaps q (si_OrganizationID info) asked = Inr rows \<and>
          (\<forall>o' \<in> set rows. ov_DeviceIdentifier o' = i \<longrightarrow>
             ov_ScheduleID o' = si_ScheduleID info \<or>
             si_ScheduleID info \<noteq> 0 \<and> si_SchedulePriority info \<le> ov_SchedulePriority o')))"
proof -
  have a: "admitCommand e devs now u c db = (Inr r, db')" "co_DispatchedDeviceIdentifiers r \<noteq> []"
    using assms(1,3) by (auto simp: processCommand_def split: prod.splits sum.splits)
  from admitted [OF a] obtain info ids kept skipped where i: "ae_session e = Some info"
    and f: "applyFilters (server_filters q) (filter_input_of info (cr_commandType c) ids) = Inr (kept, skipped)"
    and d: "admit_devices e devs now u info c kept skipped db = (Inr r, db')" unfolding assms(2) by blast
  have k: "i \<in> set kept"
    using admitted_devices [OF d a(2)] assms(3) by (auto simp: resolveIdentifiersToDevices_def resolve_loop_members)
  let ?inp = "filter_input_of info (cr_commandType c) ids"
  from server_filters_pass [OF f k] obtain k1 s1 k2 s2 s3 where
    1: "ScheduleConflictFilter (fq_overlaps q) ?inp = Inr (k1, s1)" "i \<in> set k1"
    and 2: "CurtailmentActiveFilter (fq_active q) (?inp\<lparr>fi_DeviceIdentifiers := k1\<rparr>) = Inr (k2, s2)" "i \<in> set k2"
    and 3: "ReleaseChannelFirmwareFilter (fq_quote q) (fq_managed q) (?inp\<lparr>fi_DeviceIdentifiers := k2\<rparr>) = Inr (kept, s3)"
    by blast
  have "i \<in> set ids" using schedule_filter.kept_requested [OF 1(1)] 1(2) by (auto simp: filter_input_of_def)
  then show ?thesis
    using i schedule_lets_through [OF 1] curtailment_lets_through [OF 2] channel_lets_through [OF 3 k] 2(2)
    by (auto simp: filter_input_of_def schedule_blocks_def)
qed

text \<open>C13. An admitted command puts exactly one new message per dispatched device into the queue, for the device
  that has the identifier, each identifier once; for a user's command every requested identifier that exists is
  dispatched.\<close>

theorem dispatch_queues_one_message_per_device:
  assumes "processCommand e devs now u c db = (Inr r, db')" "co_DispatchedDeviceIdentifiers r \<noteq> []"
    "u \<notin> qm_BatchUUID ` set (cd_messages db)" "ae_filters e = server_filters q"
  shows "\<exists>info ids rows ms. ae_session e = Some info \<and> ae_rows e = Inr rows \<and>
    resolveSelectorIdentifiers e (si_OrganizationID info) (cr_deviceSelector c) = Inr ids \<and>
    cd_messages db' = cd_messages db @ ms \<and>
    map (Some \<circ> qm_DeviceID) ms = map (map_of (rev rows)) (co_DispatchedDeviceIdentifiers r) \<and>
    list_all (\<lambda>m. qm_BatchUUID m = u \<and> qm_Status m = QPending \<and> qm_CommandType m = Type_String (cr_commandType c)) ms \<and>
    distinct (co_DispatchedDeviceIdentifiers r) \<and> set (co_DispatchedDeviceIdentifiers r) \<subseteq> set ids \<and>
    (isExternalCommand info \<longrightarrow> set (co_DispatchedDeviceIdentifiers r) = set ids \<inter> dom (map_of (rev rows)))"
proof -
  have a: "admitCommand e devs now u c db = (Inr r, db')"
    using assms(1) by (auto simp: processCommand_def split: prod.splits sum.splits)
  from admitted [OF a assms(2)] obtain info ids kept skipped where i: "ae_session e = Some info"
    and ids: "resolveSelectorIdentifiers e (si_OrganizationID info) (cr_deviceSelector c) = Inr ids"
    and f: "applyFilters (server_filters q) (filter_input_of info (cr_commandType c) ids) = Inr (kept, skipped)"
    and x: "isExternalCommand info \<longrightarrow> skipped = []"
    and d: "admit_devices e devs now u info c kept skipped db = (Inr r, db')" unfolding assms(4) by blast
  from admitted_devices [OF d assms(2)] obtain rows ds ms where rows: "ae_rows e = Inr rows"
    and ds: "ds = resolveIdentifiersToDevices rows kept" and q: "queue_payloads e (si_OrganizationID info) c ds = Inr ms"
    and e: "admit_enqueue e devs now u (cr_commandType c) (si_OrganizationID info) ms db = (None, db')"
    and r: "co_DispatchedDeviceIdentifiers r = map rd_identifier ds" by blast
  have ne: "ms \<noteq> []" using queue_payloads_ids [OF q] r assms(2) by auto
  let ?ms = "new_messages now u (cr_commandType c) (cd_nextMessage db) ms"
  have db': "cd_messages db' = cd_messages db @ ?ms" by (rule enqueue_adds [OF admit_enqueue_none [OF e ne assms(3)]])
  have "map qm_DeviceID ?ms = map rd_id ds" unfolding new_messages_maps using queue_payloads_ids [OF q] by simp
  moreover have "map (map_of (rev rows)) (map rd_identifier ds) = map Some (map rd_id ds)"
    by (auto simp: ds resolveIdentifiersToDevices_def resolve_loop_members)
  ultimately have dev: "map (Some \<circ> qm_DeviceID) ?ms = map (map_of (rev rows)) (co_DispatchedDeviceIdentifiers r)"
    unfolding r by (metis map_map)
  have mem: "rd_identifier ` set ds = set kept \<inter> dom (map_of (rev rows))"
  proof (intro equalityI subsetI)
    fix i assume "i \<in> set kept \<inter> dom (map_of (rev rows))"
    then obtain d where "i \<in> set kept" "map_of (rev rows) i = Some d" by auto
    then have "\<lparr>rd_id = d, rd_identifier = i\<rparr> \<in> set ds" by (simp add: ds resolveIdentifiersToDevices_def resolve_loop_members)
    then show "i \<in> rd_identifier ` set ds" by (metis image_eqI resolved_device.select_convs(2))
  qed (auto simp: ds resolveIdentifiersToDevices_def resolve_loop_members)
  have sub: "set kept \<subseteq> set ids" using server_chain.kept_requested [OF f] by (simp add: filter_input_of_def)
  have all: "isExternalCommand info \<longrightarrow> kept = ids"
  proof
    assume "isExternalCommand info"
    then have "applyFilters (server_filters q) (filter_input_of info (cr_commandType c) ids) = Inr (kept, [])" using x f by simp
    from server_chain.all_kept [OF this] show "kept = ids" by (simp add: filter_input_of_def)
  qed
  have "list_all (\<lambda>m. qm_BatchUUID m = u \<and> qm_Status m = QPending \<and> qm_CommandType m = Type_String (cr_commandType c)) ?ms"
    using new_messages_members by (fastforce simp: list_all_iff)
  moreover have "distinct (map rd_identifier ds)" by (simp add: ds resolveIdentifiersToDevices_def resolve_loop_distinct)
  ultimately show ?thesis
    using i ids rows db' dev mem sub all unfolding r by (metis (no_types, lifting) inf.coboundedI1 set_map)
qed

lemma refused_cases:
  assumes "admitCommand e devs now u c db = (Inl err, db')"
  shows "db' = db \<or> (\<exists>info rows kept ms. ae_session e = Some info \<and> ae_rows e = Inr rows \<and>
    queue_payloads e (si_OrganizationID info) c (resolveIdentifiersToDevices rows kept) = Inr ms \<and> ms \<noteq> [] \<and>
    admit_enqueue e devs now u (cr_commandType c) (si_OrganizationID info) ms db = (Some err, db'))"
proof (cases "db' = db")
  case False
  from assms False obtain info kept skipped where i: "ae_session e = Some info"
    and d: "admit_devices e devs now u info c kept skipped db = (Inl err, db')"
    unfolding admitCommand_def by (auto split: if_splits option.splits sum.splits)
  from d False obtain rows ms where "ae_rows e = Inr rows" "resolveIdentifiersToDevices rows kept \<noteq> []"
    and q: "queue_payloads e (si_OrganizationID info) c (resolveIdentifiersToDevices rows kept) = Inr ms"
    and "admit_enqueue e devs now u (cr_commandType c) (si_OrganizationID info) ms db = (Some err, db')"
    unfolding admit_devices_def Let_def by (auto split: if_splits option.splits sum.splits prod.splits)
  moreover from this have "ms \<noteq> []" using queue_payloads_ids [OF q] by auto
  ultimately show ?thesis using i by blast
qed simp


lemma nothing_is_run: "db = cs_db s \<Longrightarrow> \<exists>ops. db = cs_db (run_commands c ops s)"
  by (rule exI [of _ "[]"]) (simp add: run_commands_def)

text \<open>C14. Every admission, accepted or refused, changes the tables as a run of the command system does, so that
  the promises of that system hold with requests admitted at any time.\<close>

theorem admission_is_a_run:
  assumes "cc_devices cf = devs" "cs_db s = db" "u \<notin> bl_UUID ` set (cd_batches db)"
    "case ae_rows e of Inl err \<Rightarrow> True | Inr rows \<Rightarrow> distinct (map snd rows)"
  shows "\<exists>ops. snd (processCommand e devs now u c db) = cs_db (run_commands cf ops s)"
proof -
  obtain res db' where p: "admitCommand e devs now u c db = (res, db')" by fastforce
  have run: "\<exists>ops. db' = cs_db (run_commands cf ops s)"
    if "ae_rows e = Inr rows" "queue_payloads e org c (resolveIdentifiersToDevices rows kept) = Inr ms"
      "admit_enqueue e devs now u t org ms db = (x, db')" for rows kept ms org t x
  proof (rule enqueue_is_run [OF assms(1,2) _ _ that(3)])
    show "distinct (map fst ms)"
      using assms(4) that(1) resolved_ids_distinct [of rows kept] queue_payloads_ids [OF that(2)] by simp
  qed (use assms(3) in auto)
  have "\<exists>ops. db' = cs_db (run_commands cf ops s)"
  proof (cases res)
    case (Inl err)
    then show ?thesis using refused_cases [of e devs now u c db err db'] p run nothing_is_run assms(2) by metis
  next
    case (Inr r)
    show ?thesis
    proof (cases "co_DispatchedDeviceIdentifiers r = []")
      case True
      have "db' = db"
        using p Inr True unfolding admitCommand_def admit_devices_def Let_def
        by (auto split: if_splits option.splits sum.splits prod.splits)
      then show ?thesis using nothing_is_run assms(2) by metis
    next
      case False
      from admitted [OF p [unfolded Inr] False] obtain info kept skipped where
        "admit_devices e devs now u info c kept skipped db = (Inr r, db')" by blast
      from admitted_devices [OF this False] show ?thesis using run by metis
    qed
  qed
  moreover have "snd (processCommand e devs now u c db) = db'" by (simp add: processCommand_def p split: sum.splits)
  ultimately show ?thesis by simp
qed

section \<open>Examples\<close>

definition demo_session :: session_info where
  "demo_session = \<lparr>si_UserID = 3, si_OrganizationID = 7, si_Actor = ActorNone, si_ScheduleID = 0, si_SchedulePriority = 0\<rparr>"

definition demo_queries :: filter_queries where
  "demo_queries =
     \<lparr>fq_overlaps = (\<lambda>_ _. Inr []), fq_active = (\<lambda>org. Inr (if org = 7 then [''m9''] else [])),
      fq_managed = (\<lambda>_ _. Inr []), fq_quote = (\<lambda>s. s)\<rparr>"

text \<open>Devices 1 and 2 belong to organization 7, device 3 to organization 8.\<close>

definition demo_device_table :: device_table where
  "demo_device_table d = (if d = 1 \<or> d = 2 then Some (7, None) else if d = 3 then Some (8, None) else None)"

definition demo_admission_env :: "enqueue_answer \<Rightarrow> admission_env" where
  "demo_admission_env a =
     \<lparr>ae_inTx = False, ae_hooks = False, ae_running = True, ae_session = Some demo_session,
      ae_allDevices = (\<lambda>_. Inr []), ae_matching = None, ae_filters = server_filters demo_queries,
      ae_rows = Inr [(''m1'', 1), (''m2'', 2), (''m3'', 3)], ae_metadata = Inl (NewInternalError ''none''),
      ae_properties = (\<lambda>_. Inr []), ae_routes = (\<lambda>_. Inr []), ae_encrypt = (\<lambda>_ _ _. Inl InvalidRecipientPublicKey),
      ae_local = Inr ''{}'', ae_marshals = True, ae_saves = True, ae_enqueue = a, ae_reconciles = True, ae_audits = True\<rparr>"

definition demo_command_request :: "command_type \<Rightarrow> string list \<Rightarrow> command_request" where
  "demo_command_request t ids = \<lparr>cr_commandType = t, cr_deviceSelector = SelectIncludeDevices (Some ids), cr_payload = PlainPayload ''{}''\<rparr>"

abbreviation demo_admission :: "enqueue_answer \<Rightarrow> string list \<Rightarrow> (fleet_error + command_outcome) \<times> command_db" where
  "demo_admission a ids \<equiv>
     processCommand (demo_admission_env a) demo_device_table 10 ''b'' (demo_command_request CtReboot ids) (cs_db empty_commands)"

definition dispatched_to :: "(fleet_error + command_outcome) \<times> command_db \<Rightarrow> string list \<times> int list" where
  "dispatched_to r =
     (case fst r of Inl _ \<Rightarrow> [] | Inr out \<Rightarrow> co_DispatchedDeviceIdentifiers out, map qm_DeviceID (cd_messages (snd r)))"

lemma demo_admission_outcomes:
  "dispatched_to (demo_admission EnqueueAnswers [''m1'', ''m2'', ''m1'', ''m5'']) = ([''m1'', ''m2''], [1, 2])"
  "dispatched_to (demo_admission EnqueueAnswers [''m1'', ''m9'']) = ([], [])"
  "dispatched_to (demo_admission (EnqueueLost False) [''m1'']) = ([], [])"
  "dispatched_to (demo_admission (EnqueueLost True) [''m1'']) = ([''m1''], [1])"
  by code_simp+

lemma demo_accepted:
  "\<exists>r db'. demo_admission EnqueueAnswers [''m1'', ''m2'', ''m1'', ''m5''] = (Inr r, db') \<and>
     co_DispatchedDeviceIdentifiers r = [''m1'', ''m2''] \<and> map qm_DeviceID (cd_messages db') = [1, 2]"
  using demo_admission_outcomes(1)
  by (cases "demo_admission EnqueueAnswers [''m1'', ''m2'', ''m1'', ''m5'']") (auto simp: dispatched_to_def split: sum.splits)

theorem dispatched_commands_passed_every_filter_witness:
  "\<exists>ids. fq_active demo_queries 7 = Inr ids \<and> ''m1'' \<notin> set ids"
proof -
  obtain r db' where r: "demo_admission EnqueueAnswers [''m1'', ''m2'', ''m1'', ''m5''] = (Inr r, db')"
    and d: "''m1'' \<in> set (co_DispatchedDeviceIdentifiers r)" using demo_accepted by force
  have f: "ae_filters (demo_admission_env EnqueueAnswers) = server_filters demo_queries" by (simp add: demo_admission_env_def)
  show ?thesis
    using dispatched_commands_passed_every_filter [OF r f d]
    by (simp add: demo_admission_env_def demo_session_def demo_command_request_def curtailment_bypass_def)
qed

theorem dispatch_queues_one_message_per_device_witness:
  "\<exists>ms. cd_messages (snd (demo_admission EnqueueAnswers [''m1'', ''m2'', ''m1'', ''m5''])) = cd_messages (cs_db empty_commands) @ ms \<and>
     list_all (\<lambda>m. qm_BatchUUID m = ''b'' \<and> qm_Status m = QPending \<and> qm_CommandType m = Type_String CtReboot) ms"
proof -
  obtain r db' where r: "demo_admission EnqueueAnswers [''m1'', ''m2'', ''m1'', ''m5''] = (Inr r, db')"
    and d: "co_DispatchedDeviceIdentifiers r \<noteq> []" using demo_accepted by force
  have f: "ae_filters (demo_admission_env EnqueueAnswers) = server_filters demo_queries" by (simp add: demo_admission_env_def)
  have u: "''b'' \<notin> qm_BatchUUID ` set (cd_messages (cs_db empty_commands))" by (simp add: empty_commands_def)
  show ?thesis
    using dispatch_queues_one_message_per_device [OF r d u f] unfolding r by (auto simp: demo_command_request_def)
qed


theorem admission_is_a_run_witness:
  "\<exists>ops. snd (demo_admission EnqueueAnswers [''m1'', ''m2'']) =
     cs_db (run_commands \<lparr>cc_devices = demo_device_table, cc_queue = \<lparr>qc_DequeLimit = 10, qc_MaxFailureRetries = 2\<rparr>,
       cc_reaper = \<lparr>rc_StuckMessageTimeout = 60, rc_FirmwareUpdateStuckTimeout = 600\<rparr>\<rparr> ops empty_commands)"
  by (rule admission_is_a_run) (simp_all add: empty_commands_def demo_admission_env_def)

text \<open>
  A selector that names devices is not checked against the organization of the session: \<open>GetDeviceIDsWithIdentifiers\<close>
  reads the devices of every organization. A user of organization 7 reboots a device of organization 8; the
  worker executes the command for the owner of the device.
\<close>

lemma command_reaches_other_organization:
  "si_OrganizationID demo_session = 7 \<and> isExternalCommand demo_session \<and> demo_device_table 3 = Some (8, None) \<and>
   dispatched_to (demo_admission EnqueueAnswers [''m3'']) = ([''m3''], [3])"
  by code_simp

end
