(* ===== verification/Command_Device.thy ===== *)
theory Command_Device
  imports Command_Worker
begin

text \<open>
  What the workers compute for a device (\<open>command/execution_service.go\<close>, \<open>domain/workername\<close>): the user names of
  its pools, which carry the worker name after the first dot, and the end of a firmware installation; and
  the check of a command against the capabilities of devices (\<open>command/capability_checker.go\<close>,
  \<open>capability_mapping.go\<close>).
\<close>

section \<open>Worker names in pool user names\<close>

record mining_pool =
  mp_Priority :: nat
  mp_URL :: string
  mp_Username :: string
  mp_Password :: string
  mp_AppendMinerName :: bool

record pools_payload =
  pp_DefaultPool :: mining_pool
  pp_Backup1Pool :: "mining_pool option"
  pp_Backup2Pool :: "mining_pool option"

record configured_pool =
  cp_Priority :: int
  cp_URL :: string
  cp_Username :: string

abbreviation dot :: char where
  "dot \<equiv> CHR ''.''"

text \<open>The parts before and after the first dot, when there is something on both sides.\<close>

definition dot_split :: "string \<Rightarrow> (string \<times> string) option" where
  "dot_split s =
     (case dropWhile (\<lambda>c. c \<noteq> dot) s of
        [] \<Rightarrow> None
      | _ # w \<Rightarrow> if takeWhile (\<lambda>c. c \<noteq> dot) s = [] \<or> w = [] then None else Some (takeWhile (\<lambda>c. c \<noteq> dot) s, w))"

definition FromPoolUsername :: "string \<Rightarrow> string" where
  "FromPoolUsername username =
     (case dot_split (strings_TrimSpace username) of None \<Rightarrow> [] | Some (_, w) \<Rightarrow> strings_TrimSpace w)"

definition normalizePoolUsernameBase :: "string \<Rightarrow> string" where
  "normalizePoolUsernameBase username =
     (let t = strings_TrimSpace username in
      if t = [] then [] else case dot_split t of None \<Rightarrow> t | Some (b, _) \<Rightarrow> strings_TrimSpace b)"

definition shouldAppendMinerNameToUsername :: "string \<Rightarrow> bool" where
  "shouldAppendMinerNameToUsername username \<longleftrightarrow> strings_TrimSpace username \<noteq> [] \<and> dot \<notin> set (strings_TrimSpace username)"

definition shouldAppendMinerName :: "mining_pool \<Rightarrow> bool" where
  "shouldAppendMinerName p \<longleftrightarrow> mp_AppendMinerName p \<and> shouldAppendMinerNameToUsername (mp_Username p)"

definition appendMinerNameToPoolUsername :: "mining_pool \<Rightarrow> string \<Rightarrow> string" where
  "appendMinerNameToPoolUsername p name =
     (if \<not> shouldAppendMinerName p then mp_Username p
      else let b = normalizePoolUsernameBase (mp_Username p) in
        if b = [] then mp_Username p else b @ [dot] @ name)"

definition rewritePoolUsernameWithStoredWorkerName :: "string \<Rightarrow> string \<Rightarrow> string" where
  "rewritePoolUsernameWithStoredWorkerName username name =
     (let t = strings_TrimSpace username in
      if t = [] \<or> name = [] then t
      else let b = normalizePoolUsernameBase t in if b = [] then t else b @ [dot] @ name)"

definition configuredPoolToPayload :: "configured_pool \<Rightarrow> string \<Rightarrow> mining_pool" where
  "configuredPoolToPayload p name =
     \<lparr>mp_Priority = (if 0 < cp_Priority p then nat (cp_Priority p) else 0), mp_URL = cp_URL p,
      mp_Username = rewritePoolUsernameWithStoredWorkerName (cp_Username p) name, mp_Password = [], mp_AppendMinerName = False\<rparr>"

definition pool_before :: "configured_pool \<Rightarrow> configured_pool \<Rightarrow> bool" where
  "pool_before p q \<longleftrightarrow> cp_Priority p < cp_Priority q"

interpretation pool_order: strict_weak UNIV pool_before
  by unfold_locales (auto simp: pool_before_def)

definition sortedConfiguredPoolsByPriority :: "configured_pool list \<Rightarrow> configured_pool list" where
  "sortedConfiguredPoolsByPriority = stable_sort pool_before"

text \<open>\<open>None\<close>: the index out of range of an empty list.\<close>

definition buildCurrentPoolsPayloadWithWorkerName :: "configured_pool list \<Rightarrow> string \<Rightarrow> pools_payload option" where
  "buildCurrentPoolsPayloadWithWorkerName pools name =
     (case sortedConfiguredPoolsByPriority pools of
        [] \<Rightarrow> None
      | p # rest \<Rightarrow>
          Some \<lparr>pp_DefaultPool = configuredPoolToPayload p name,
                pp_Backup1Pool = (case rest of [] \<Rightarrow> None | q # _ \<Rightarrow> Some (configuredPoolToPayload q name)),
                pp_Backup2Pool = (case rest of _ # q # _ \<Rightarrow> Some (configuredPoolToPayload q name) | _ \<Rightarrow> None)\<rparr>)"

fun primary_loop :: "configured_pool \<Rightarrow> configured_pool list \<Rightarrow> configured_pool" where
  "primary_loop p [] = p"
| "primary_loop p (q # qs) = primary_loop (if cp_Priority q < cp_Priority p then q else p) qs"

definition primaryConfiguredMinerPool :: "configured_pool list \<Rightarrow> configured_pool option" where
  "primaryConfiguredMinerPool ps = (case ps of [] \<Rightarrow> None | p # qs \<Rightarrow> Some (primary_loop p qs))"

definition configuredMinerWorkerName :: "configured_pool list \<Rightarrow> string" where
  "configuredMinerWorkerName ps =
     (case primaryConfiguredMinerPool ps of None \<Rightarrow> [] | Some p \<Rightarrow> FromPoolUsername (cp_Username p))"

record rename_properties =
  rp_WorkerName :: string
  rp_MacAddress :: string

definition storedMinerWorkerName :: "rename_properties \<Rightarrow> string" where
  "storedMinerWorkerName r =
     (let w = strings_TrimSpace (rp_WorkerName r) in if w \<noteq> [] then w else strings_TrimSpace (rp_MacAddress r))"

text \<open>The miner's pools (or an error) first, then the stored properties.\<close>

definition getMinerWorkerName :: "(string + configured_pool list) \<Rightarrow> (string + rename_properties list) \<Rightarrow> fleet_error + string" where
  "getMinerWorkerName current props =
     (case (case current of Inl _ \<Rightarrow> [] | Inr ps \<Rightarrow> configuredMinerWorkerName ps) of
        [] \<Rightarrow>
          (case props of
             Inl err \<Rightarrow> Inl (NewInternalError (''failed to get miner name for pool assignment: '' @ err))
           | Inr [] \<Rightarrow> Inl (FleetError CodeNotFound ''device properties not found for device'')
           | Inr (r # _) \<Rightarrow> Inr (storedMinerWorkerName r))
      | w \<Rightarrow> Inr w)"

definition payloadRequiresMinerName :: "pools_payload \<Rightarrow> bool" where
  "payloadRequiresMinerName p \<longleftrightarrow>
     shouldAppendMinerName (pp_DefaultPool p) \<or>
     (case pp_Backup1Pool p of None \<Rightarrow> False | Some q \<Rightarrow> shouldAppendMinerName q) \<or>
     (case pp_Backup2Pool p of None \<Rightarrow> False | Some q \<Rightarrow> shouldAppendMinerName q)"

definition with_miner_name :: "string \<Rightarrow> mining_pool \<Rightarrow> mining_pool" where
  "with_miner_name name p = p\<lparr>mp_Username := appendMinerNameToPoolUsername p name\<rparr>"

definition applyMinerNameToPoolUsernames :: "(string + configured_pool list) \<Rightarrow> (string + rename_properties list) \<Rightarrow>
    pools_payload \<Rightarrow> fleet_error + pools_payload" where
  "applyMinerNameToPoolUsernames current props p =
     (if \<not> payloadRequiresMinerName p then Inr p
      else case getMinerWorkerName current props of
        Inl e \<Rightarrow> Inl e
      | Inr name \<Rightarrow>
          if name = [] then Inr p
          else Inr (p\<lparr>pp_DefaultPool := with_miner_name name (pp_DefaultPool p),
                      pp_Backup1Pool := map_option (with_miner_name name) (pp_Backup1Pool p),
                      pp_Backup2Pool := map_option (with_miner_name name) (pp_Backup2Pool p)\<rparr>))"

definition getDesiredWorkerNameForPoolReapply :: "string \<Rightarrow> (string + rename_properties list) \<Rightarrow> fleet_error + string" where
  "getDesiredWorkerNameForPoolReapply desired props =
     (if strings_TrimSpace desired \<noteq> [] then Inr (strings_TrimSpace desired)
      else case props of
        Inl err \<Rightarrow> Inl (NewInternalError (''failed to get stored worker name for pool reapply: '' @ err))
      | Inr [] \<Rightarrow> Inl (FleetError CodeNotFound ''device properties not found for device'')
      | Inr (r # _) \<Rightarrow> Inr (strings_TrimSpace (rp_WorkerName r)))"

text \<open>The payload to send if any, and the worker name to store.\<close>

definition reapplyCurrentPoolsWithDesiredWorkerName :: "string \<Rightarrow> (string + rename_properties list) \<Rightarrow>
    (fleet_error + configured_pool list) \<Rightarrow> fleet_error + (pools_payload option \<times> string)" where
  "reapplyCurrentPoolsWithDesiredWorkerName desired props current =
     (case getDesiredWorkerNameForPoolReapply desired props of
        Inl e \<Rightarrow> Inl e
      | Inr name \<Rightarrow>
          if name = [] then Inr (None, [])
          else case current of
            Inl e \<Rightarrow> Inl e
          | Inr ps \<Rightarrow> if ps = [] then Inr (None, name) else Inr (buildCurrentPoolsPayloadWithWorkerName ps name, name))"

section \<open>The end of a firmware installation\<close>

datatype miner_status = MinerStatusActive | MinerStatusUpdating | MinerStatusRebootRequired | MinerStatusOther

record firmware_status =
  fs_State :: string
  fs_Error :: "string option"

definition firmwareInstallGraceWindow :: duration where
  "firmwareInstallGraceWindow = 60 * 1000000000"

definition firmwareInstallRevertedError :: "int \<Rightarrow> firmware_status \<Rightarrow> duration \<Rightarrow> fleet_error option" where
  "firmwareInstallRevertedError d st since =
     (if since \<le> firmwareInstallGraceWindow then None
      else case fs_Error st of
        Some (c # e) \<Rightarrow> Some (NewInternalError (''firmware install reverted to '' @ fs_State st @ '' on device '' @ show_int d @
          ''; rig reported update error: '' @ (c # e)))
      | _ \<Rightarrow> Some (NewInternalError (''firmware install reverted to '' @ fs_State st @ '' on device '' @ show_int d @
          '' (install may have failed silently)'')))"

text \<open>
  One poll: an error or no status, or a status \<open>since\<close> after the upload. The result: the installation is
  verified, failed, or still open.
\<close>

datatype install_result = InstallVerified | InstallFailed fleet_error | InstallOpen

definition handleStatus :: "int \<Rightarrow> duration \<Rightarrow> firmware_status option \<Rightarrow> install_result" where
  "handleStatus d since st =
     (case st of
        None \<Rightarrow> InstallOpen
      | Some s \<Rightarrow>
          if fs_State s \<in> {''installed'', ''success'', ''confirming''} then InstallVerified
          else if fs_State s \<in> {''installing'', ''downloaded''} then InstallOpen
          else if fs_State s \<in> {''current'', ''available''}
          then (case firmwareInstallRevertedError d s since of Some e \<Rightarrow> InstallFailed e | None \<Rightarrow> InstallOpen)
          else if fs_State s = ''error''
          then InstallFailed (NewInternalError (''firmware install failed on device '' @ show_int d @ '': '' @
            (case fs_Error s of Some (c # e) \<Rightarrow> c # e | _ \<Rightarrow> ''unknown error'')))
          else InstallOpen)"

text \<open>The ticks until the context is done: the time since the upload and the answer of each.\<close>

fun poll_loop :: "int \<Rightarrow> (duration \<times> firmware_status option) list \<Rightarrow> fleet_error option" where
  "poll_loop d [] = Some (NewInternalError (''firmware install polling timed out for device '' @ show_int d))"
| "poll_loop d ((since, st) # ps) =
     (case handleStatus d since st of InstallVerified \<Rightarrow> None | InstallFailed e \<Rightarrow> Some e | InstallOpen \<Rightarrow> poll_loop d ps)"

text \<open>The error if any, and the statuses written. \<open>probe\<close> is the first answer, taken with the upload done.\<close>

definition doPollFirmwareInstall :: "int \<Rightarrow> firmware_status option \<Rightarrow> (duration \<times> firmware_status option) list \<Rightarrow>
    fleet_error option \<times> miner_status list" where
  "doPollFirmwareInstall d probe ps =
     (case poll_loop d ((0, probe) # ps) of
        None \<Rightarrow> (None, [MinerStatusUpdating, MinerStatusRebootRequired])
      | Some e \<Rightarrow> (Some e, [MinerStatusUpdating]))"

text \<open>\<open>probe\<close>: \<open>None\<close> when the device cannot be asked, otherwise an error or the reported status, if any.\<close>

definition pollFirmwareInstallStatus :: "int \<Rightarrow> (string + firmware_status option) option \<Rightarrow>
    (duration \<times> firmware_status option) list \<Rightarrow> fleet_error option \<times> miner_status list" where
  "pollFirmwareInstallStatus d probe ps =
     (case probe of
        None \<Rightarrow> (None, [MinerStatusRebootRequired])
      | Some (Inr None) \<Rightarrow> (None, [MinerStatusRebootRequired])
      | Some p \<Rightarrow>
          (case doPollFirmwareInstall d (case p of Inl _ \<Rightarrow> None | Inr st \<Rightarrow> st) ps of
             (None, ws) \<Rightarrow> (None, ws)
           | (Some e, ws) \<Rightarrow> (Some e, ws @ [MinerStatusActive])))"

text \<open>The status after a reboot; \<open>oks\<close> says which of the three writes succeed.\<close>

fun clear_attempts :: "nat \<Rightarrow> bool list \<Rightarrow> bool" where
  "clear_attempts 0 oks = False"
| "clear_attempts (Suc n) oks = (case oks of [] \<Rightarrow> False | ok # rest \<Rightarrow> ok \<or> clear_attempts n rest)"

definition clearFirmwareUpdateStatusForDevice :: "miner_status option \<Rightarrow> bool list \<Rightarrow> miner_status option" where
  "clearFirmwareUpdateStatusForDevice current oks =
     (if current \<in> {Some MinerStatusRebootRequired, Some MinerStatusUpdating} \<and> clear_attempts 3 oks
      then Some MinerStatusActive else current)"

section \<open>Capabilities\<close>

record command_capabilities =
  cc_Reboot :: bool
  cc_MiningStart :: bool
  cc_MiningStop :: bool
  cc_LedBlink :: bool
  cc_AirCooling :: bool
  cc_ImmersionCooling :: bool
  cc_PoolSwitching :: bool
  cc_LogsDownload :: bool
  cc_FactoryReset :: bool
  cc_PowerModeEfficiency :: bool
  cc_UpdateMinerPassword :: bool
  cc_CurtailFull :: bool
  cc_CurtailEfficiency :: bool

datatype capability =
    CapReboot | CapMiningStart | CapMiningStop | CapLEDBlink | CapCoolingModeAir | CapCoolingModeImmerse | CapPoolConfig
  | CapLogsDownload | CapManualUpload | CapFactoryReset | CapPowerModeEfficiency | CapUpdateMinerPassword
  | CapCurtailFull | CapCurtailEfficiency

definition hasCapability :: "command_capabilities \<Rightarrow> bool option \<Rightarrow> capability \<Rightarrow> bool" where
  "hasCapability cs firmware cap =
     (case cap of
        CapReboot \<Rightarrow> cc_Reboot cs | CapMiningStart \<Rightarrow> cc_MiningStart cs | CapMiningStop \<Rightarrow> cc_MiningStop cs
      | CapLEDBlink \<Rightarrow> cc_LedBlink cs | CapCoolingModeAir \<Rightarrow> cc_AirCooling cs
      | CapCoolingModeImmerse \<Rightarrow> cc_ImmersionCooling cs | CapPoolConfig \<Rightarrow> cc_PoolSwitching cs
      | CapLogsDownload \<Rightarrow> cc_LogsDownload cs | CapManualUpload \<Rightarrow> firmware = Some True
      | CapFactoryReset \<Rightarrow> cc_FactoryReset cs | CapPowerModeEfficiency \<Rightarrow> cc_PowerModeEfficiency cs
      | CapUpdateMinerPassword \<Rightarrow> cc_UpdateMinerPassword cs | CapCurtailFull \<Rightarrow> cc_CurtailFull cs
      | CapCurtailEfficiency \<Rightarrow> cc_CurtailEfficiency cs)"

text \<open>The commands of the request, with those the map does not hold.\<close>

definition GetRequiredCapabilities :: "command_type \<Rightarrow> capability list" where
  "GetRequiredCapabilities t =
     (case t of
        CtReboot \<Rightarrow> [CapReboot] | CtStartMining \<Rightarrow> [CapMiningStart] | CtStopMining \<Rightarrow> [CapMiningStop]
      | CtBlinkLED \<Rightarrow> [CapLEDBlink] | CtSetCoolingMode \<Rightarrow> [CapCoolingModeAir, CapCoolingModeImmerse]
      | CtUpdateMiningPools \<Rightarrow> [CapPoolConfig] | CtDownloadLogs \<Rightarrow> [CapLogsDownload]
      | CtFirmwareUpdate \<Rightarrow> [CapManualUpload, CapReboot] | CtSetPowerTarget \<Rightarrow> [CapPowerModeEfficiency]
      | CtUpdateMinerPassword \<Rightarrow> [CapUpdateMinerPassword] | CtCurtail \<Rightarrow> [CapCurtailFull]
      | CtUncurtail \<Rightarrow> [CapCurtailFull, CapCurtailEfficiency] | _ \<Rightarrow> [])"

definition requiresAllCapabilities :: "capability list \<Rightarrow> bool" where
  "requiresAllCapabilities caps \<longleftrightarrow> CapManualUpload \<in> set caps \<and> CapReboot \<in> set caps"

record device_info =
  di_DeviceIdentifier :: string
  di_Manufacturer :: string
  di_Model :: string
  di_FirmwareVersion :: string
  di_DriverName :: string

text \<open>What the plugins report for manufacturer, model and driver: the commands, and the firmware if present.\<close>

type_synonym capability_provider = "string \<Rightarrow> string \<Rightarrow> string \<Rightarrow> (command_capabilities option \<times> bool option) option"

definition deviceSupportsCommand :: "capability_provider \<Rightarrow> device_info \<Rightarrow> capability list \<Rightarrow> bool" where
  "deviceSupportsCommand prov d caps =
     (case prov (di_Manufacturer d) (di_Model d) (di_DriverName d) of
        Some (Some cs, firmware) \<Rightarrow>
          if requiresAllCapabilities caps then list_all (hasCapability cs firmware) caps
          else list_ex (hasCapability cs firmware) caps
      | _ \<Rightarrow> False)"

definition safeIntToInt32 :: "int \<Rightarrow> int" where
  "safeIntToInt32 i = (if 2147483647 < i \<or> i < - 2147483648 then 0 else i)"

record miner_group =
  mg_Model :: string
  mg_FirmwareVersion :: string
  mg_Count :: int

record capability_response =
  cx_SupportedCount :: int
  cx_UnsupportedCount :: int
  cx_TotalCount :: int
  cx_AllSupported :: bool
  cx_NoneSupported :: bool
  cx_Groups :: "(string \<times> miner_group) list"
  cx_SupportedDeviceIdentifiers :: "string list"

definition known_or :: "string \<Rightarrow> string" where
  "known_or s = (if s = [] then ''Unknown'' else s)"

text \<open>The groups by key; their order in the response is that of a map, so none.\<close>

definition add_unsupported :: "(string \<times> miner_group) list \<Rightarrow> device_info \<Rightarrow> (string \<times> miner_group) list" where
  "add_unsupported gs d =
     (let k = di_Model d @ [CHR ''|''] @ di_FirmwareVersion d in
      case map_of gs k of
        Some g \<Rightarrow> map (\<lambda>(x, h). (x, if x = k then h\<lparr>mg_Count := mg_Count h + 1\<rparr> else h)) gs
      | None \<Rightarrow> gs @ [(k, \<lparr>mg_Model = known_or (di_Model d), mg_FirmwareVersion = known_or (di_FirmwareVersion d), mg_Count = 1\<rparr>)])"

definition checkDeviceCapabilities :: "capability_provider \<Rightarrow> device_info list \<Rightarrow> capability list \<Rightarrow> capability_response" where
  "checkDeviceCapabilities prov ds caps =
     (let ok = filter (\<lambda>d. deviceSupportsCommand prov d caps) ds;
          n = safeIntToInt32 (int (length ok)); total = safeIntToInt32 (int (length ds))
      in \<lparr>cx_SupportedCount = n, cx_UnsupportedCount = total - n, cx_TotalCount = total,
          cx_AllSupported = (total - n = 0), cx_NoneSupported = (n = 0 \<and> 0 < total),
          cx_Groups = foldl add_unsupported [] (filter (\<lambda>d. \<not> deviceSupportsCommand prov d caps) ds),
          cx_SupportedDeviceIdentifiers = map di_DeviceIdentifier ok\<rparr>)"

text \<open>
  The rows of the queries: all command-eligible devices of the organization, those with the given identifiers,
  and the resolver of rich filters. The fields of the filter for all devices are not used.
\<close>

datatype capability_selector = CapSelNone | CapSelAll | CapSelInclude "string list" | CapSelMatching | CapSelUnknown

definition getDeviceInfo :: "(fleet_error + device_info list) \<Rightarrow> (string list \<Rightarrow> fleet_error + device_info list) \<Rightarrow>
    (fleet_error + string list) option \<Rightarrow> capability_selector \<Rightarrow> fleet_error + device_info list" where
  "getDeviceInfo all by_id resolver sel =
     (let named = (\<lambda>ids. if ids = [] then Inr [] else by_id ids) in
      case sel of
        CapSelAll \<Rightarrow> all
      | CapSelInclude ids \<Rightarrow> named ids
      | CapSelMatching \<Rightarrow>
          (case resolver of
             None \<Rightarrow> Inl (NewInternalError ''device identifier resolver not configured for all_matching_filter selector'')
           | Some (Inl e) \<Rightarrow> Inl e
           | Some (Inr ids) \<Rightarrow> named ids)
      | _ \<Rightarrow> Inl (NewInternalError ''unknown device selector type''))"

definition CheckCapabilities :: "capability_provider \<Rightarrow> (fleet_error + device_info list) \<Rightarrow>
    (string list \<Rightarrow> fleet_error + device_info list) \<Rightarrow> (fleet_error + string list) option \<Rightarrow> capability_selector \<Rightarrow>
    command_type \<Rightarrow> fleet_error + capability_response" where
  "CheckCapabilities prov all by_id resolver sel t =
     (if sel = CapSelNone then Inl (NewInvalidArgumentError ''device selector is required'')
      else let caps = GetRequiredCapabilities t in
        if caps = [] then Inl (NewInvalidArgumentError ''unknown or unsupported command type'')
        else case getDeviceInfo all by_id resolver sel of
          Inl e \<Rightarrow> Inl e
        | Inr ds \<Rightarrow> Inr (checkDeviceCapabilities prov ds caps))"

end
