(* ===== verification/Command_Results.thy ===== *)
theory Command_Results
  imports Command_Device
begin

text \<open>
  Worker names survive the rewriting of pool user names, a firmware installation is reported as done only when
  the device said so, and the capability check counts every device once.
\<close>

section \<open>Trimmed texts around a dot\<close>

definition clean :: "string \<Rightarrow> bool" where
  "clean s \<longleftrightarrow> strings_TrimSpace s = s"

lemma clean_trim [simp]: "clean (strings_TrimSpace s)"
  by (simp add: clean_def)

lemma cleanI: "strip_any space_runes s = None \<Longrightarrow> strip_any (map rev space_runes) (rev s) = None \<Longrightarrow> clean s"
  by (simp add: clean_def strings_TrimSpace_def trim_left_fix)

lemma cleanD:
  assumes "clean s"
  shows "strip_any space_runes s = None" "strip_any (map rev space_runes) (rev s) = None"
  using strings_TrimSpace_clean [of s] assms by (simp_all add: clean_def)

lemma space_without_dot: "w \<in> set space_runes \<Longrightarrow> dot \<notin> set w"
proof -
  have "list_all (\<lambda>w. dot \<notin> set w) space_runes" by code_simp
  then show "w \<in> set space_runes \<Longrightarrow> dot \<notin> set w" by (simp add: list_all_iff)
qed

text \<open>A text that begins and ends with visible ASCII characters has no white space to trim.\<close>

lemma clean_visible:
  assumes "s \<noteq> []" "33 \<le> byte (hd s)" "byte (hd s) < 127" "33 \<le> byte (last s)" "byte (last s) < 127"
  shows "clean s"
proof -
  have "list_all (\<lambda>w. w \<noteq> [] \<and> (byte (hd w) < 33 \<or> 127 \<le> byte (hd w)) \<and> (byte (last w) < 33 \<or> 127 \<le> byte (last w))) space_runes"
    by code_simp
  then have w: "w \<noteq> [] \<and> hd w \<noteq> hd s \<and> last w \<noteq> last s" if "w \<in> set space_runes" for w
    using assms that by (fastforce simp: list_all_iff)
  show ?thesis
  proof (rule cleanI)
    show "strip_any space_runes s = None"
      using w by (auto simp: strip_any_None_iff strip_word_None_iff) (metis hd_append)
    show "strip_any (map rev space_runes) (rev s) = None"
      using w by (auto simp: strip_any_None_iff strip_word_None_iff) (metis hd_append hd_rev rev_is_Nil_conv)
  qed
qed

lemma word_before_dot:
  assumes "dot \<notin> set w" "x @ dot # y = w @ t"
  shows "\<exists>t'. x = w @ t'"
  using assms by (auto simp: append_eq_append_conv2 Cons_eq_append_conv)

lemma clean_around_dot:
  assumes "clean b" "clean w"
  shows "clean (b @ dot # w)"
proof (rule cleanI)
  show "strip_any space_runes (b @ dot # w) = None"
    using cleanD(1) [OF assms(1)] word_before_dot space_without_dot
    by (auto simp: strip_any_None_iff strip_word_None_iff) metis
  have "rev (b @ dot # w) = rev w @ dot # rev b" by simp
  then show "strip_any (map rev space_runes) (rev (b @ dot # w)) = None"
    using cleanD(2) [OF assms(2)] word_before_dot [of "rev _" "rev w" "rev b"] space_without_dot
    by (auto simp: strip_any_None_iff strip_word_None_iff) (metis set_rev)
qed

lemma trim_left_empty:
  "trim_left ws s = [] \<Longrightarrow> s \<noteq> [] \<Longrightarrow> \<exists>w \<in> set ws. \<exists>q. s = q @ w"
proof (induction ws s rule: trim_left.induct)
  case (1 ws s)
  show ?case
  proof (cases "[] \<in> set ws \<or> strip_any ws s = None")
    case True
    then have "trim_left ws s = s" by (subst trim_left.simps) auto
    then show ?thesis using 1(2,3) by simp
  next
    case n: False
    then obtain t where t: "strip_any ws s = Some t" by auto
    then have "\<exists>w \<in> set ws. s = w @ t"
      by (induction ws) (auto simp: strip_word_Some_iff split: option.splits)
    then obtain w where w: "w \<in> set ws" "s = w @ t" by blast
    have e: "trim_left ws t = []" using 1(2) n t by (simp add: trim_left.simps [of ws s])
    show ?thesis
    proof (cases "t = []")
      case True
      then show ?thesis using w by (metis append.right_neutral append_Nil)
    next
      case False
      then obtain w' q where "w' \<in> set ws" "t = q @ w'" using 1(1) [OF _ t e] n by auto
      then show ?thesis using w(2) by (metis append.assoc)
    qed
  qed
qed

lemma trim_prefix_not_empty:
  assumes "clean (p @ q)" "p \<noteq> []"
  shows "strings_TrimSpace p \<noteq> []"
proof
  assume e: "strings_TrimSpace p = []"
  have s: "strip_any space_runes p = None" using trim_prefix_kept [OF cleanD(1) [OF assms(1)]] by blast
  then have "trim_left (map rev space_runes) (rev p) = []" using e by (simp add: strings_TrimSpace_def trim_left_fix)
  from trim_left_empty [OF this] obtain w r where "w \<in> set space_runes" "rev p = r @ rev w" using assms(2) by auto
  then have "p = w @ rev r" by (metis rev_append rev_rev_ident)
  then show False using s \<open>w \<in> set space_runes\<close> by (auto simp: strip_any_None_iff strip_word_None_iff)
qed

section \<open>Worker names\<close>

text \<open>A user name with something before its first dot, which is not its last character.\<close>

definition has_wallet :: "string \<Rightarrow> bool" where
  "has_wallet username \<longleftrightarrow>
     (let t = strings_TrimSpace username in t \<noteq> [] \<and> (dot \<notin> set t \<or> dot_split t \<noteq> None))"

lemma dot_split_join: "dot \<notin> set b \<Longrightarrow> b \<noteq> [] \<Longrightarrow> w \<noteq> [] \<Longrightarrow> dot_split (b @ dot # w) = Some (b, w)"
  by (auto simp: dot_split_def takeWhile_append dropWhile_append)

lemma dot_split_parts: "dot_split s = Some (b, w) \<Longrightarrow> s = b @ dot # w \<and> b \<noteq> [] \<and> w \<noteq> [] \<and> dot \<notin> set b"
proof -
  assume d: "dot_split s = Some (b, w)"
  then obtain c where c: "dropWhile (\<lambda>c. c \<noteq> dot) s = c # w" "b = takeWhile (\<lambda>c. c \<noteq> dot) s" "b \<noteq> []" "w \<noteq> []"
    by (auto simp: dot_split_def split: list.splits if_splits)
  then have "c = dot" using hd_dropWhile [of "\<lambda>c. c \<noteq> dot" s] by auto
  then show ?thesis using c takeWhile_dropWhile_id [of "\<lambda>c. c \<noteq> dot" s] by (auto dest: set_takeWhileD)
qed

lemma wallet_base:
  assumes "has_wallet u"
  shows "normalizePoolUsernameBase u \<noteq> []" "clean (normalizePoolUsernameBase u)" "dot \<notin> set (normalizePoolUsernameBase u)"
proof -
  let ?t = "strings_TrimSpace u"
  have t: "?t \<noteq> []" "dot \<notin> set ?t \<or> dot_split ?t \<noteq> None" using assms by (simp_all add: has_wallet_def Let_def)
  have sub: "set (strings_TrimSpace x) \<subseteq> set x" for x
  proof -
    obtain p where p: "x = p @ trim_left space_runes x" using trim_left_suffix by blast
    obtain q where "rev (trim_left space_runes x) = q @ rev (strings_TrimSpace x)"
      using trim_left_suffix unfolding strings_TrimSpace_def rev_rev_ident by blast
    then have "set (strings_TrimSpace x) \<subseteq> set (trim_left space_runes x)" by (metis Un_upper2 set_append set_rev)
    then show ?thesis using p by (metis Un_upper2 order_trans set_append)
  qed
  show "normalizePoolUsernameBase u \<noteq> []" "clean (normalizePoolUsernameBase u)" "dot \<notin> set (normalizePoolUsernameBase u)"
  proof -
    have "normalizePoolUsernameBase u \<noteq> [] \<and> clean (normalizePoolUsernameBase u) \<and> dot \<notin> set (normalizePoolUsernameBase u)"
    proof (cases "dot_split ?t")
      case None
      then show ?thesis using t by (auto simp: normalizePoolUsernameBase_def Let_def)
    next
      case (Some bw)
      obtain b w where bw: "bw = (b, w)" by fastforce
      note parts = dot_split_parts [OF Some [unfolded bw]]
      have "clean (b @ dot # w)" using parts clean_trim [of u] by metis
      then have "strings_TrimSpace b \<noteq> []" using trim_prefix_not_empty parts by blast
      then show ?thesis using Some bw t parts sub [of b] by (auto simp: normalizePoolUsernameBase_def Let_def)
    qed
    then show "normalizePoolUsernameBase u \<noteq> []" "clean (normalizePoolUsernameBase u)" "dot \<notin> set (normalizePoolUsernameBase u)" by simp_all
  qed
qed

lemma base_of_trimmed [simp]: "normalizePoolUsernameBase (strings_TrimSpace u) = normalizePoolUsernameBase u"
  by (simp add: normalizePoolUsernameBase_def)

lemma rewritten:
  assumes "has_wallet u" "name \<noteq> []"
  shows "rewritePoolUsernameWithStoredWorkerName u name = normalizePoolUsernameBase u @ dot # name"
  using assms wallet_base(1) [OF assms(1)] by (auto simp: rewritePoolUsernameWithStoredWorkerName_def has_wallet_def Let_def)

lemma worker_name_read_back:
  assumes "has_wallet u" "clean name" "name \<noteq> []"
  shows "FromPoolUsername (rewritePoolUsernameWithStoredWorkerName u name) = name"
proof -
  note b = wallet_base [OF assms(1)]
  have "clean (normalizePoolUsernameBase u @ dot # name)" using clean_around_dot b(2) assms(2) by blast
  then show ?thesis
    using dot_split_join [OF b(3,1) assms(3)] assms(2) unfolding rewritten [OF assms(1,3)]
    by (simp add: FromPoolUsername_def clean_def)
qed

lemma rewriting_again:
  assumes "has_wallet u" "clean v" "v \<noteq> []" "w \<noteq> []"
  shows "rewritePoolUsernameWithStoredWorkerName (rewritePoolUsernameWithStoredWorkerName u v) w =
    rewritePoolUsernameWithStoredWorkerName u w"
proof -
  note b = wallet_base [OF assms(1)]
  let ?b = "normalizePoolUsernameBase u"
  have c: "clean (?b @ dot # v)" using clean_around_dot b(2) assms(2) by blast
  have d: "dot_split (?b @ dot # v) = Some (?b, v)" by (rule dot_split_join [OF b(3,1) assms(3)])
  have "has_wallet (?b @ dot # v)" using c d by (simp add: has_wallet_def clean_def)
  moreover have "normalizePoolUsernameBase (?b @ dot # v) = ?b"
    using c d b(2) by (simp add: normalizePoolUsernameBase_def clean_def)
  ultimately show ?thesis using rewritten [OF assms(1,3)] rewritten [OF assms(1,4)] rewritten [OF _ assms(4)] by simp
qed

text \<open>The pool the worker name is read from is the one that becomes the default.\<close>

lemma primary_loop_step:
  "primary_loop p (q # qs) = (if cp_Priority (primary_loop q qs) < cp_Priority p then primary_loop q qs else p)"
proof (induction qs arbitrary: p q)
  case (Cons x qs)
  show ?case using Cons [of p x] Cons [of q x] by auto
qed simp

lemma primary_is_first:
  "sortedConfiguredPoolsByPriority (p # qs) \<noteq> [] \<and> hd (sortedConfiguredPoolsByPriority (p # qs)) = primary_loop p qs"
proof (induction qs arbitrary: p)
  case Nil
  show ?case by (simp add: sortedConfiguredPoolsByPriority_def)
next
  case (Cons q qs)
  obtain h hs where h: "sortedConfiguredPoolsByPriority (q # qs) = h # hs" "h = primary_loop q qs"
    using Cons [of q] by (cases "sortedConfiguredPoolsByPriority (q # qs)") auto
  have "sortedConfiguredPoolsByPriority (p # q # qs) = insort_by pool_before p (h # hs)"
    using h(1) by (simp add: sortedConfiguredPoolsByPriority_def)
  then show ?case unfolding primary_loop_step using h(2) by (simp add: pool_before_def)
qed


section \<open>Firmware installations\<close>

definition reports_installed :: "firmware_status option \<Rightarrow> bool" where
  "reports_installed st \<longleftrightarrow> (\<exists>s. st = Some s \<and> fs_State s \<in> {''installed'', ''success'', ''confirming''})"

lemma poll_verified: "poll_loop d ps = None \<Longrightarrow> \<exists>(t, st) \<in> set ps. reports_installed st"
proof (induction d ps rule: poll_loop.induct)
  case (2 d since st ps)
  show ?case
  proof (cases "handleStatus d since st")
    case InstallVerified
    then show ?thesis by (auto simp: handleStatus_def reports_installed_def split: option.splits if_splits)
  qed (use 2 in auto)
qed simp

text \<open>A firmware installation counts as done only when the device reported it (or reports no status at all),
  a device is not left in the updating status, and after an error it is marked active again. A device that
  still reports the old firmware during the first minute has not failed.\<close>

theorem firmware_done_only_when_reported:
  assumes "pollFirmwareInstallStatus d probe ps = (err, written)"
  shows "(err = None \<longrightarrow> last written = MinerStatusRebootRequired \<and>
      (probe = None \<or> probe = Some (Inr None) \<or> (\<exists>st. probe = Some (Inr st) \<and> reports_installed st) \<or>
       (\<exists>(t, st) \<in> set ps. reports_installed st))) \<and>
    (err \<noteq> None \<longrightarrow> last written = MinerStatusActive) \<and>
    (\<forall>t s. t \<le> firmwareInstallGraceWindow \<and> fs_State s \<in> {''current'', ''available''} \<longrightarrow> handleStatus d t (Some s) = InstallOpen)"
proof -
  have "handleStatus d t (Some s) = InstallOpen" if "t \<le> firmwareInstallGraceWindow" "fs_State s \<in> {''current'', ''available''}" for t s
    using that by (auto simp: handleStatus_def firmwareInstallRevertedError_def)
  moreover have "(err = None \<longrightarrow> last written = MinerStatusRebootRequired \<and>
      (probe = None \<or> probe = Some (Inr None) \<or> (\<exists>st. probe = Some (Inr st) \<and> reports_installed st) \<or>
       (\<exists>(t, st) \<in> set ps. reports_installed st))) \<and> (err \<noteq> None \<longrightarrow> last written = MinerStatusActive)"
  proof (cases "probe = None \<or> probe = Some (Inr None)")
    case True
    then show ?thesis using assms by (auto simp: pollFirmwareInstallStatus_def)
  next
    case False
    define st where "st = (case probe of Some (Inr s) \<Rightarrow> s | _ \<Rightarrow> None)"
    have p: "(err, written) = (case poll_loop d ((0, st) # ps) of
        None \<Rightarrow> (None, [MinerStatusUpdating, MinerStatusRebootRequired])
      | Some e \<Rightarrow> (Some e, [MinerStatusUpdating, MinerStatusActive]))"
      using assms False
      by (auto simp: pollFirmwareInstallStatus_def doPollFirmwareInstall_def st_def simp del: poll_loop.simps
          split: option.splits sum.splits)
    show ?thesis
    proof (cases "poll_loop d ((0, st) # ps)")
      case None
      then have "reports_installed st \<or> (\<exists>(t, st) \<in> set ps. reports_installed st)" using poll_verified [OF None] by simp
      then show ?thesis using p None by (auto simp: st_def reports_installed_def split: option.splits sum.splits)
    next
      case (Some e)
      then show ?thesis using p by auto
    qed
  qed
  ultimately show ?thesis by blast
qed

section \<open>Capabilities\<close>

definition group_total :: "(string \<times> miner_group) list \<Rightarrow> int" where
  "group_total gs = sum_list (map (mg_Count \<circ> snd) gs)"

lemma add_one_total:
  "distinct (map fst gs) \<Longrightarrow> k \<in> fst ` set gs \<Longrightarrow>
   group_total (map (\<lambda>(x, h). (x, if x = k then h\<lparr>mg_Count := mg_Count h + 1\<rparr> else h)) gs) = group_total gs + 1"
proof (induction gs)
  case (Cons g gs)
  obtain x h where g: "g = (x, h)" by fastforce
  show ?case
  proof (cases "x = k")
    case True
    then have "map (\<lambda>(x, h). (x, if x = k then h\<lparr>mg_Count := mg_Count h + 1\<rparr> else h)) gs = gs"
      using Cons.prems(1) by (intro map_idI) (force simp: g)
    then show ?thesis using True by (simp add: g group_total_def)
  next
    case False
    then show ?thesis using Cons by (simp add: g group_total_def)
  qed
qed simp

lemma add_unsupported_step:
  assumes "distinct (map fst gs)"
  shows "distinct (map fst (add_unsupported gs d)) \<and> group_total (add_unsupported gs d) = group_total gs + 1"
proof (cases "map_of gs (di_Model d @ [CHR ''|''] @ di_FirmwareVersion d)")
  case None
  then have "add_unsupported gs d = gs @ [(di_Model d @ [CHR ''|''] @ di_FirmwareVersion d,
      \<lparr>mg_Model = known_or (di_Model d), mg_FirmwareVersion = known_or (di_FirmwareVersion d), mg_Count = 1\<rparr>)]"
    by (simp add: add_unsupported_def)
  then show ?thesis using assms None by (simp add: group_total_def map_of_eq_None_iff)
next
  case (Some g)
  let ?k = "di_Model d @ [CHR ''|''] @ di_FirmwareVersion d"
  have "?k \<in> fst ` set gs" using Some by (metis domI dom_map_of_conv_image_fst)
  moreover have "map fst (map (\<lambda>(x, h). (x, if x = ?k then h\<lparr>mg_Count := mg_Count h + 1\<rparr> else h)) gs) = map fst gs" by auto
  ultimately show ?thesis using Some assms add_one_total [OF assms, of ?k] by (simp add: add_unsupported_def del: map_map)
qed

lemma unsupported_total:
  "distinct (map fst gs) \<Longrightarrow> group_total (foldl add_unsupported gs ds) = group_total gs + int (length ds)"
  by (induction ds arbitrary: gs) (simp_all add: add_unsupported_step)

text \<open>The capability check answers for every device exactly once: the supported identifiers are those of the
  devices that support the command, the two counts add up to the devices, the groups of unsupported miners count
  the others, and the flags say what they say.\<close>

theorem capability_check_is_exact:
  assumes "CheckCapabilities prov all by_id resolver sel t = Inr r" "getDeviceInfo all by_id resolver sel = Inr ds"
    "length ds < 2 ^ 31"
  shows "cx_SupportedDeviceIdentifiers r =
      map di_DeviceIdentifier (filter (\<lambda>d. deviceSupportsCommand prov d (GetRequiredCapabilities t)) ds) \<and>
    cx_SupportedCount r = int (length (cx_SupportedDeviceIdentifiers r)) \<and>
    cx_SupportedCount r + cx_UnsupportedCount r = int (length ds) \<and> cx_TotalCount r = int (length ds) \<and>
    group_total (cx_Groups r) = cx_UnsupportedCount r \<and>
    (cx_AllSupported r \<longleftrightarrow> (\<forall>d \<in> set ds. deviceSupportsCommand prov d (GetRequiredCapabilities t))) \<and>
    (cx_NoneSupported r \<longleftrightarrow> ds \<noteq> [] \<and> \<not> (\<exists>d \<in> set ds. deviceSupportsCommand prov d (GetRequiredCapabilities t)))"
proof -
  let ?P = "\<lambda>d. deviceSupportsCommand prov d (GetRequiredCapabilities t)"
  have r: "r = checkDeviceCapabilities prov ds (GetRequiredCapabilities t)"
    using assms(1,2) by (auto simp: CheckCapabilities_def Let_def split: if_splits)
  have "length (filter ?P ds) < 2 ^ 31" using le_less_trans [OF length_filter_le assms(3)] .
  then have s: "safeIntToInt32 (int (length (filter ?P ds))) = int (length (filter ?P ds))"
    "safeIntToInt32 (int (length ds)) = int (length ds)"
    using assms(3) by (simp_all add: safeIntToInt32_def)
  have sum: "length (filter ?P ds) + length (filter (\<lambda>d. \<not> ?P d) ds) = length ds" by (rule sum_length_filter_compl)
  have groups: "group_total (foldl add_unsupported [] (filter (\<lambda>d. \<not> ?P d) ds)) = int (length ds) - int (length (filter ?P ds))"
    using unsupported_total [of "[]"] sum by (simp add: group_total_def)
  have all: "int (length ds) - int (length (filter ?P ds)) = 0 \<longleftrightarrow> (\<forall>d \<in> set ds. ?P d)"
    using sum by (metis (mono_tags, lifting) add_cancel_right_right diff_0 diff_self filter_empty_conv filter_True length_0_conv of_nat_eq_iff right_minus_eq)
  have none: "int (length (filter ?P ds)) = 0 \<and> 0 < int (length ds) \<longleftrightarrow> ds \<noteq> [] \<and> \<not> (\<exists>d \<in> set ds. ?P d)"
    by (auto simp: filter_empty_conv)
  show ?thesis using s groups all none by (simp add: r checkDeviceCapabilities_def Let_def)
qed

section \<open>Examples\<close>

definition demo_pools :: "configured_pool list" where
  "demo_pools = [\<lparr>cp_Priority = 1, cp_URL = ''b'', cp_Username = ''w.x''\<rparr>, \<lparr>cp_Priority = 0, cp_URL = ''a'', cp_Username = ''wallet.old''\<rparr>]"


theorem firmware_done_only_when_reported_witness:
  "last (snd (pollFirmwareInstallStatus 5 (Some (Inr (Some \<lparr>fs_State = ''current'', fs_Error = None\<rparr>)))
     [(10, Some \<lparr>fs_State = ''installing'', fs_Error = None\<rparr>), (20, Some \<lparr>fs_State = ''installed'', fs_Error = None\<rparr>)])) =
   MinerStatusRebootRequired"
proof -
  obtain ws where r: "pollFirmwareInstallStatus 5 (Some (Inr (Some \<lparr>fs_State = ''current'', fs_Error = None\<rparr>)))
     [(10, Some \<lparr>fs_State = ''installing'', fs_Error = None\<rparr>), (20, Some \<lparr>fs_State = ''installed'', fs_Error = None\<rparr>)] = (None, ws)"
    by (simp add: pollFirmwareInstallStatus_def doPollFirmwareInstall_def handleStatus_def firmwareInstallRevertedError_def
        firmwareInstallGraceWindow_def)
  show ?thesis using firmware_done_only_when_reported [OF r] by (simp add: r)
qed

theorem capability_check_is_exact_witness:
  "cx_UnsupportedCount (checkDeviceCapabilities (\<lambda>_ _ _. None)
     [\<lparr>di_DeviceIdentifier = ''m1'', di_Manufacturer = ''a'', di_Model = ''x'', di_FirmwareVersion = ''1'', di_DriverName = ''d''\<rparr>] [CapReboot]) = 1"
proof -
  let ?ds = "[\<lparr>di_DeviceIdentifier = ''m1'', di_Manufacturer = ''a'', di_Model = ''x'', di_FirmwareVersion = ''1'', di_DriverName = ''d''\<rparr>]"
  have c: "CheckCapabilities (\<lambda>_ _ _. None) (Inr ?ds) (\<lambda>_. Inr []) None CapSelAll CtReboot =
      Inr (checkDeviceCapabilities (\<lambda>_ _ _. None) ?ds [CapReboot])"
    by (simp add: CheckCapabilities_def GetRequiredCapabilities_def getDeviceInfo_def)
  have d: "getDeviceInfo (Inr ?ds) (\<lambda>_. Inr []) None CapSelAll = Inr ?ds" by (simp add: getDeviceInfo_def)
  have "length ?ds < 2 ^ 31" by simp
  from capability_check_is_exact [OF c d this] show ?thesis by (auto simp: deviceSupportsCommand_def)
qed

text \<open>
  A user name that ends in its first dot keeps the dot: the worker name read back has a dot of its own, and
  sending the pools a second time gives another user name.
\<close>

lemma trailing_dot_breaks_worker_name:
  "rewritePoolUsernameWithStoredWorkerName ''wallet.'' ''rig1'' = ''wallet..rig1'' \<and>
   FromPoolUsername ''wallet..rig1'' = ''.rig1'' \<and>
   rewritePoolUsernameWithStoredWorkerName ''wallet..rig1'' ''rig1'' = ''wallet.rig1''"
proof -
  have "strings_TrimSpace ''wallet.'' = ''wallet.''" "strings_TrimSpace ''wallet..rig1'' = ''wallet..rig1''"
    "strings_TrimSpace ''.rig1'' = ''.rig1''" "strings_TrimSpace ''wallet'' = ''wallet''"
    unfolding clean_def [symmetric] by (rule clean_visible; simp)+
  then show ?thesis
    by (simp add: rewritePoolUsernameWithStoredWorkerName_def FromPoolUsername_def normalizePoolUsernameBase_def dot_split_def)
qed

text \<open>The firmware command needs all of its capabilities, not one of them.\<close>

lemma firmware_update_needs_both:
  "\<not> deviceSupportsCommand (\<lambda>_ _ _. Some (Some cs, Some False)) d (GetRequiredCapabilities CtFirmwareUpdate)"
  by (simp add: deviceSupportsCommand_def GetRequiredCapabilities_def requiresAllCapabilities_def hasCapability_def)

end
