(* ===== verification/Mqtt_Ingest.thy ===== *)
theory Mqtt_Ingest
  imports Go_Sort
begin

text \<open>
  The curtailment signal of an MQTT source
  (\<open>server/internal/domain/curtailment/mqttingest\<close>, files payload.go, precedence.go and
  edge_detector.go): decoding a message, choosing between the two brokers of a source, and
  turning the chosen observation into an edge. \<open>json.Unmarshal\<close> and the address parser of
  \<open>net/netip\<close> are parameters.
\<close>

section \<open>Payloads (payload.go)\<close>

datatype target = TargetUnknown | TargetOff | TargetOn

definition Target_String :: "target \<Rightarrow> string" where
  "Target_String t =
     (case t of TargetOff \<Rightarrow> ''OFF'' | TargetOn \<Rightarrow> ''ON'' | TargetUnknown \<Rightarrow> ''UNKNOWN'')"

definition IsOff :: "target \<Rightarrow> bool" where
  "IsOff t \<longleftrightarrow> t = TargetOff"

definition IsOn :: "target \<Rightarrow> bool" where
  "IsOn t \<longleftrightarrow> t = TargetOn"

record payload =
  pa_Target :: target
  pa_PublishedAt :: gotime

datatype payload_error =
    PayloadTooLong
  | PayloadInvalidJSON
  | PayloadMissingTarget
  | PayloadMissingTimestamp
  | PayloadTargetOutside int
  | PayloadTimestampNonPositive int
  | PayloadTimestampOutside int

definition timestampSanityWindow :: duration where
  "timestampSanityWindow = 24 * 3600 * second"

abbreviation maxPayloadBytes :: nat where "maxPayloadBytes \<equiv> 1024"

text \<open>The instant of a Unix time stamp; the zero time is the start of year 1.\<close>

definition time_Unix :: "int \<Rightarrow> gotime" where
  "time_Unix sec = (62135596800 + sec) * second"

definition wire_target :: "int \<Rightarrow> target option" where
  "wire_target n = (if n = 0 then Some TargetOff else if n = 100 then Some TargetOn else None)"

text \<open>The decoded object: target and timestamp, each possibly absent.\<close>

definition Decode ::
  "(string \<Rightarrow> unit + int option \<times> int option) \<Rightarrow> string \<Rightarrow> gotime \<Rightarrow> payload_error + payload" where
  "Decode unmarshal body now =
     (if maxPayloadBytes < length body then Inl PayloadTooLong
      else case unmarshal body of
             Inl _ \<Rightarrow> Inl PayloadInvalidJSON
           | Inr (rawTarget, rawTimestamp) \<Rightarrow>
               (case rawTarget of
                  None \<Rightarrow> Inl PayloadMissingTarget
                | Some n \<Rightarrow>
                    (case rawTimestamp of
                       None \<Rightarrow> Inl PayloadMissingTimestamp
                     | Some ts \<Rightarrow>
                         (case wire_target n of
                            None \<Rightarrow> Inl (PayloadTargetOutside n)
                          | Some target \<Rightarrow>
                              if ts \<le> 0 then Inl (PayloadTimestampNonPositive ts)
                              else
                                let publishedAt = time_Unix ts;
                                    delta = time_sub publishedAt now
                                in if timestampSanityWindow < delta
                                      \<or> delta < - timestampSanityWindow
                                   then Inl (PayloadTimestampOutside ts)
                                   else Inr \<lparr>pa_Target = target,
                                             pa_PublishedAt = publishedAt\<rparr>))))"

definition payloadFormatTargetTimestamp :: string where
  "payloadFormatTargetTimestamp = ''target_timestamp''"

datatype decoder = TargetTimestampDecoder

definition decoderForFormat :: "string \<Rightarrow> decoder option" where
  "decoderForFormat format =
     (let f = (if format = [] then payloadFormatTargetTimestamp else format)
      in map_of [(payloadFormatTargetTimestamp, TargetTimestampDecoder)] f)"

section \<open>Precedence (precedence.go)\<close>

datatype broker_role = BrokerPrimary | BrokerSecondary

record observation =
  ob_Broker :: string
  ob_Role :: broker_role
  ob_Payload :: payload
  ob_ReceivedAt :: gotime

definition ResolveBrokerRoles ::
  "(string \<Rightarrow> 'addr option) \<Rightarrow> ('addr \<Rightarrow> 'addr \<Rightarrow> int) \<Rightarrow> string \<Rightarrow> string \<Rightarrow> (string \<times> string) option" where
  "ResolveBrokerRoles parseAddr compareAddr hostA hostB =
     (if hostA = hostB then None
      else case (parseAddr hostA, parseAddr hostB) of
             (Some addrA, Some addrB) \<Rightarrow>
               if compareAddr addrA addrB \<le> 0 then Some (hostA, hostB) else Some (hostB, hostA)
           | _ \<Rightarrow> (case sort [hostA, hostB] of
                     [a, b] \<Rightarrow> Some (a, b)
                   | _ \<Rightarrow> None))"

record canonical_state =
  ca_Target :: target
  ca_PublishedAt :: gotime
  ca_ReceivedAt :: gotime
  ca_Broker :: string

definition canonical :: "observation \<Rightarrow> canonical_state" where
  "canonical ob = \<lparr>ca_Target = pa_Target (ob_Payload ob), ca_PublishedAt = pa_PublishedAt (ob_Payload ob),
     ca_ReceivedAt = ob_ReceivedAt ob, ca_Broker = ob_Broker ob\<rparr>"

definition CanonicalFromPair ::
  "observation option \<Rightarrow> observation option \<Rightarrow> duration \<Rightarrow> canonical_state option" where
  "CanonicalFromPair primary secondary freshnessWindow =
     (case (primary, secondary) of
        (None, None) \<Rightarrow> None
      | (Some p, None) \<Rightarrow> Some (canonical p)
      | (None, Some s) \<Rightarrow> Some (canonical s)
      | (Some p, Some s) \<Rightarrow>
          if time_before (time_add (ob_ReceivedAt p) freshnessWindow) (ob_ReceivedAt s)
          then Some (canonical s) else Some (canonical p))"

section \<open>Edges (edge_detector.go)\<close>

datatype edge_direction = EdgeNone | EdgeOnToOff | EdgeReassertOff | EdgeOffToOn | EdgeWatchdogOff

definition EdgeDirection_String :: "edge_direction \<Rightarrow> string" where
  "EdgeDirection_String d =
     (case d of EdgeNone \<Rightarrow> ''none'' | EdgeOnToOff \<Rightarrow> ''on_to_off'' | EdgeReassertOff \<Rightarrow> ''reassert_off''
      | EdgeOffToOn \<Rightarrow> ''off_to_on'' | EdgeWatchdogOff \<Rightarrow> ''watchdog_off'')"

record prior_state =
  ps_LastTarget :: target
  ps_LastEdgeAt :: gotime

definition DebounceWindow :: duration where
  "DebounceWindow = 5 * second"

definition debounced :: "prior_state \<Rightarrow> canonical_state \<Rightarrow> bool" where
  "debounced prior c =
     (if time_is_zero (ps_LastEdgeAt prior) then False
      else time_sub (ca_ReceivedAt c) (ps_LastEdgeAt prior) < DebounceWindow)"

definition Decide :: "prior_state \<Rightarrow> canonical_state \<Rightarrow> edge_direction" where
  "Decide prior c =
     (if ca_Target c = TargetOff \<and> ps_LastTarget prior \<noteq> TargetOff then EdgeOnToOff
      else if ca_Target c = TargetOn \<and> ps_LastTarget prior = TargetOff then
        (if debounced prior c then EdgeNone else EdgeOffToOn)
      else EdgeNone)"

datatype watchdog_decision = WatchdogIdle | WatchdogFire

definition EvaluateWatchdog :: "gotime \<Rightarrow> target \<Rightarrow> gotime \<Rightarrow> duration \<Rightarrow> watchdog_decision" where
  "EvaluateWatchdog lastReceivedAt lastTarget now threshold =
     (if IsOff lastTarget then WatchdogIdle
      else if time_is_zero lastReceivedAt then WatchdogFire
      else if threshold \<le> time_sub now lastReceivedAt then WatchdogFire
      else WatchdogIdle)"

section \<open>Lemmas\<close>

lemma debounced_iff:
  "debounced prior c \<longleftrightarrow>
    ps_LastEdgeAt prior \<noteq> 0 \<and> ca_ReceivedAt c < ps_LastEdgeAt prior + DebounceWindow"
  using time_sub_less_iff [of DebounceWindow "ca_ReceivedAt c" "ps_LastEdgeAt prior"]
  by (auto simp: debounced_def DebounceWindow_def gotime_simps)

lemma Decide_iff:
  "Decide prior c = EdgeOnToOff \<longleftrightarrow> ca_Target c = TargetOff \<and> ps_LastTarget prior \<noteq> TargetOff"
  "Decide prior c = EdgeOffToOn \<longleftrightarrow>
    ca_Target c = TargetOn \<and> ps_LastTarget prior = TargetOff \<and> \<not> debounced prior c"
  "Decide prior c \<noteq> EdgeReassertOff" "Decide prior c \<noteq> EdgeWatchdogOff"
  by (auto simp: Decide_def)

text \<open>The choice between the brokers depends on the hosts only, not on their order.\<close>

lemma roles_symmetric:
  assumes "\<And>x y. parseAddr a = Some x \<Longrightarrow> parseAddr b = Some y \<Longrightarrow>
    compareAddr y x \<le> 0 \<longleftrightarrow> \<not> compareAddr x y \<le> 0"
  shows "ResolveBrokerRoles parseAddr compareAddr a b = ResolveBrokerRoles parseAddr compareAddr b a"
proof -
  have "sort [a, b] = sort [b, a]"
    by (rule properties_for_sort) (auto simp: add_mset_commute)
  then show ?thesis
    using assms by (auto simp: ResolveBrokerRoles_def simp del: sort_key_simps split: option.splits)
qed

section \<open>Properties\<close>

text \<open>
  Fail-safe edges. A switch to OFF is reported at once, whatever the debounce window; a switch
  to ON is reported exactly when the source was OFF and at least five seconds have passed since the
  last edge, if there was one; and the watchdog asks for OFF exactly when the source is not OFF
  already and nothing was received for the threshold.
\<close>
theorem edges_fail_safe:
  "(Decide prior c = EdgeOnToOff \<longleftrightarrow> ca_Target c = TargetOff \<and> ps_LastTarget prior \<noteq> TargetOff) \<and>
   (Decide prior c = EdgeOffToOn \<longleftrightarrow>
     ca_Target c = TargetOn \<and> ps_LastTarget prior = TargetOff \<and>
     (ps_LastEdgeAt prior = 0 \<or> ps_LastEdgeAt prior + 5000000000 \<le> ca_ReceivedAt c)) \<and>
   (if 0 < threshold \<and> threshold \<le> max_duration
    then EvaluateWatchdog lastReceivedAt lastTarget now threshold = WatchdogFire \<longleftrightarrow>
      lastTarget \<noteq> TargetOff \<and> (lastReceivedAt = 0 \<or> lastReceivedAt + threshold \<le> now)
    else True)"
proof -
  have "EvaluateWatchdog lastReceivedAt lastTarget now threshold = WatchdogFire \<longleftrightarrow>
      lastTarget \<noteq> TargetOff \<and> (lastReceivedAt = 0 \<or> lastReceivedAt + threshold \<le> now)"
    if "0 < threshold" "threshold \<le> max_duration"
    using time_sub_ge_iff [of threshold now lastReceivedAt] that
    by (auto simp: EvaluateWatchdog_def IsOff_def time_is_zero_def min_duration_def)
  then show ?thesis
    by (simp add: Decide_iff debounced_iff DebounceWindow_def second_def not_less)
qed

text \<open>
  A message is accepted exactly when it has at most 1024 bytes, decodes to an object with both
  fields, the target is 0 or 100, and the time stamp is positive and within 24 hours of the
  receiver's clock; the payload then carries that target and that time.
\<close>
theorem decode_accepts_iff:
  "Decode unmarshal body now = Inr p \<longleftrightarrow>
    length body \<le> 1024 \<and>
    (\<exists>n ts. unmarshal body = Inr (Some n, Some ts) \<and> n \<in> {0, 100} \<and> 0 < ts \<and>
       \<bar>time_Unix ts - now\<bar> \<le> 24 * 3600 * second \<and>
       p = \<lparr>pa_Target = (if n = 0 then TargetOff else TargetOn), pa_PublishedAt = time_Unix ts\<rparr>)"
proof -
  have window: "(timestampSanityWindow < time_sub t now \<or> time_sub t now < - timestampSanityWindow)
      \<longleftrightarrow> \<not> \<bar>t - now\<bar> \<le> 24 * 3600 * second" for t
    by (auto simp: timestampSanityWindow_def time_sub_def gotime_simps)
  show ?thesis
    unfolding Decode_def window Let_def
    by (auto simp: wire_target_def intro: exI [of _ 100] split: sum.splits option.splits if_splits)
qed

end
