(* ===== verification/Mqtt_Worker.thy ===== *)
theory Mqtt_Worker
  imports Mqtt_Ingest
begin

text \<open>
  The worker of an MQTT source (\<open>server/internal/domain/curtailment/mqttingest/worker.go\<close>): the
  cache of the last observation per broker, the source state with its pending edge, the handling of
  a message and of a watchdog tick, and the retry of an edge whose execution failed. The outside of
  the worker is a \<open>world\<close>: the readings of the clock, the outcomes of the store's upserts and of the
  signal executor, the stored row, and a log of the executed signals together with the row that was
  stored at that moment. The startup delays of \<open>run\<close>, the broker connections and logging are not
  modelled.
\<close>

section \<open>State (store.go, worker.go)\<close>

record pending_edge =
  pe_Direction :: edge_direction
  pe_Target :: target
  pe_TargetAt :: gotime
  pe_ReceivedAt :: gotime
  pe_ReceivedBroker :: string
  pe_PriorEdgeAt :: gotime
  pe_RetryAt :: gotime

record source_state =
  ss_LastTarget :: target
  ss_LastTargetAt :: gotime
  ss_LastProcessedTarget :: target
  ss_LastProcessedTargets :: "target list"
  ss_LastReceivedAt :: gotime
  ss_LastReceivedBroker :: string
  ss_LastEdgeAt :: gotime
  ss_PendingEdge :: "pending_edge option"

record worker =
  wk_primaryHost :: string
  wk_BrokerFreshness :: duration
  wk_StalenessThreshold :: duration
  wk_WatchdogTickEvery :: duration
  wk_hasExecutor :: bool

record obs_cache =
  oc_primary :: "observation option"
  oc_secondary :: "observation option"

record raw_observation =
  ro_broker :: string
  ro_payload :: string
  ro_receivedAt :: gotime

record world =
  wo_clock :: "nat \<Rightarrow> gotime"
  wo_reads :: nat
  wo_upsert :: "nat \<Rightarrow> bool"
  wo_upserts :: nat
  wo_execute :: "nat \<Rightarrow> bool"
  wo_row :: "source_state option"
  wo_calls :: "(pending_edge \<times> source_state option) list"

definition Clock :: "world \<Rightarrow> gotime \<times> world" where
  "Clock wd = (wo_clock wd (wo_reads wd), wd\<lparr>wo_reads := Suc (wo_reads wd)\<rparr>)"

definition persistState :: "source_state \<Rightarrow> world \<Rightarrow> bool \<times> world" where
  "persistState s wd =
     (let ok = wo_upsert wd (wo_upserts wd)
      in (ok, wd\<lparr>wo_upserts := Suc (wo_upserts wd), wo_row := (if ok then Some s else wo_row wd)\<rparr>))"

definition HandleMQTTSignal :: "pending_edge \<Rightarrow> world \<Rightarrow> bool \<times> world" where
  "HandleMQTTSignal pe wd =
     (wo_execute wd (length (wo_calls wd)), wd\<lparr>wo_calls := wo_calls wd @ [(pe, wo_row wd)]\<rparr>)"

abbreviation edgeExecutorRetryMax :: duration where
  "edgeExecutorRetryMax \<equiv> 300 * 1000000000"

definition RepeatedOffMinInterval :: duration where
  "RepeatedOffMinInterval = 30 * second"

section \<open>The processed targets\<close>

definition recordProcessedTarget :: "source_state \<Rightarrow> canonical_state \<Rightarrow> source_state" where
  "recordProcessedTarget s c =
     (if time_is_zero (ca_PublishedAt c) then s
      else
        let t = s\<lparr>ss_LastProcessedTarget := ca_Target c\<rparr> in
        if time_is_zero (ss_LastTargetAt t) \<or> ca_PublishedAt c \<noteq> ss_LastTargetAt t
        then t\<lparr>ss_LastTargetAt := ca_PublishedAt c, ss_LastProcessedTargets := [ca_Target c]\<rparr>
        else if ca_Target c \<in> set (ss_LastProcessedTargets t) then t
        else t\<lparr>ss_LastProcessedTargets := ss_LastProcessedTargets t @ [ca_Target c]\<rparr>)"

definition alreadyProcessedTarget :: "source_state \<Rightarrow> canonical_state \<Rightarrow> bool" where
  "alreadyProcessedTarget prior c =
     (if time_is_zero (ss_LastTargetAt prior) \<or> ca_PublishedAt c \<noteq> ss_LastTargetAt prior then False
      else if ca_Target c \<noteq> ss_LastTarget prior then
        (if ca_Target c \<in> set (ss_LastProcessedTargets prior) then True
         else if ca_Target c = TargetOff then False
         else ss_LastTarget prior \<noteq> TargetUnknown \<and> ss_LastProcessedTarget prior = ca_Target c \<and>
              ss_LastProcessedTarget prior \<noteq> ss_LastTarget prior)
      else if ca_Target c \<in> set (ss_LastProcessedTargets prior) then True
      else ca_Target c = ss_LastProcessedTarget prior)"

definition shouldAssertRepeatedOff :: "source_state \<Rightarrow> canonical_state \<Rightarrow> bool \<Rightarrow> bool" where
  "shouldAssertRepeatedOff prior c alreadyProcessed \<longleftrightarrow>
     ca_Target c = TargetOff \<and> ss_LastTarget prior = TargetOff \<and> \<not> alreadyProcessed"

definition shouldSuppressRepeatedOffReassert ::
  "source_state \<Rightarrow> canonical_state \<Rightarrow> bool \<Rightarrow> bool" where
  "shouldSuppressRepeatedOffReassert prior c alreadyProcessed =
     (if \<not> shouldAssertRepeatedOff prior c alreadyProcessed \<or> time_is_zero (ss_LastTargetAt prior)
         \<or> time_is_zero (ca_PublishedAt c) then False
      else time_sub (ca_PublishedAt c) (ss_LastTargetAt prior) < RepeatedOffMinInterval)"

section \<open>Freshness\<close>

definition time_truncate :: "gotime \<Rightarrow> duration \<Rightarrow> gotime" where
  "time_truncate t d = t - t mod d"

definition isStalePayload :: "worker \<Rightarrow> source_state \<Rightarrow> canonical_state \<Rightarrow> bool" where
  "isStalePayload w prior c =
     (let cutoff =
            (if \<not> time_is_zero (ss_LastReceivedAt prior) \<and>
                time_before (ss_LastReceivedAt prior) (ss_LastTargetAt prior)
             then time_truncate (ss_LastReceivedAt prior) second else ss_LastTargetAt prior)
      in if \<not> time_is_zero (ss_LastTargetAt prior) \<and> time_before (ca_PublishedAt c) cutoff then True
         else wk_StalenessThreshold w \<le> time_sub (ca_ReceivedAt c) (ca_PublishedAt c))"

definition newer_fresh ::
  "worker \<Rightarrow> source_state \<Rightarrow> observation option \<Rightarrow> observation option \<Rightarrow> observation option" where
  "newer_fresh w prior latest obs =
     (case obs of
        None \<Rightarrow> latest
      | Some o' \<Rightarrow>
          if isStalePayload w prior (canonical o') then latest
          else case latest of
                 None \<Rightarrow> Some o'
               | Some l \<Rightarrow>
                   if time_after (ob_ReceivedAt o') (ob_ReceivedAt l) then Some o' else Some l)"

definition latestFreshObservation ::
  "worker \<Rightarrow> source_state \<Rightarrow> observation option list \<Rightarrow> observation option" where
  "latestFreshObservation w prior observations = foldl (newer_fresh w prior) None observations"

definition brokerRole :: "worker \<Rightarrow> string \<Rightarrow> broker_role" where
  "brokerRole w host = (if host = wk_primaryHost w then BrokerPrimary else BrokerSecondary)"

definition cache_put :: "broker_role \<Rightarrow> observation option \<Rightarrow> obs_cache \<Rightarrow> obs_cache" where
  "cache_put r v cache =
     (case r of BrokerPrimary \<Rightarrow> cache\<lparr>oc_primary := v\<rparr>
      | BrokerSecondary \<Rightarrow> cache\<lparr>oc_secondary := v\<rparr>)"

text \<open>
  The eviction loop. Its fuel is the number of observations that can be evicted plus one round;
  \<open>None\<close> means that the fuel ran out.
\<close>

fun evict_stale ::
  "nat \<Rightarrow> worker \<Rightarrow> source_state \<Rightarrow> obs_cache \<Rightarrow> (canonical_state option \<times> obs_cache) option" where
  "evict_stale 0 w prior cache = None"
| "evict_stale (Suc n) w prior cache =
     (case CanonicalFromPair (oc_primary cache) (oc_secondary cache) (wk_BrokerFreshness w) of
        None \<Rightarrow> Some (None, cache)
      | Some c \<Rightarrow>
          if isStalePayload w prior c
          then evict_stale n w prior (cache_put (brokerRole w (ca_Broker c)) None cache)
          else Some (Some c, cache))"

definition advanceLiveness ::
  "source_state \<Rightarrow> canonical_state \<Rightarrow> observation option \<Rightarrow> source_state" where
  "advanceLiveness s c latest =
     (let t = s\<lparr>ss_LastReceivedAt := ca_ReceivedAt c, ss_LastReceivedBroker := ca_Broker c\<rparr>
      in case latest of
           None \<Rightarrow> t
         | Some l \<Rightarrow>
             if time_after (ob_ReceivedAt l) (ss_LastReceivedAt t)
             then t\<lparr>ss_LastReceivedAt := ob_ReceivedAt l, ss_LastReceivedBroker := ob_Broker l\<rparr>
             else t)"

section \<open>Settling a pending edge\<close>

definition PendingEdge_canonical :: "pending_edge \<Rightarrow> canonical_state" where
  "PendingEdge_canonical p =
     \<lparr>ca_Target = pe_Target p, ca_PublishedAt = pe_TargetAt p, ca_ReceivedAt = pe_ReceivedAt p,
      ca_Broker = pe_ReceivedBroker p\<rparr>"

definition isRepeatedOffAssertion :: "source_state \<Rightarrow> pending_edge option \<Rightarrow> bool" where
  "isRepeatedOffAssertion prior pending \<longleftrightarrow>
     (case pending of
        None \<Rightarrow> False
      | Some p \<Rightarrow> pe_Target p = TargetOff \<and> ss_LastTarget prior = TargetOff)"

definition settlePendingEdge :: "source_state \<Rightarrow> pending_edge \<Rightarrow> target \<Rightarrow> source_state" where
  "settlePendingEdge prior p target =
     (let s = prior\<lparr>ss_PendingEdge := None\<rparr>;
          s1 = (if \<not> isRepeatedOffAssertion prior (Some p)
                then s\<lparr>ss_LastEdgeAt := pe_ReceivedAt p\<rparr> else s);
          s2 = s1\<lparr>ss_LastReceivedAt := pe_ReceivedAt p,
                  ss_LastReceivedBroker := pe_ReceivedBroker p, ss_LastTarget := target\<rparr>
      in recordProcessedTarget s2 (PendingEdge_canonical p))"

definition startupRetryEvery :: "worker \<Rightarrow> duration" where
  "startupRetryEvery w =
     (if 0 < wk_WatchdogTickEvery w \<and> wk_WatchdogTickEvery w < second
      then wk_WatchdogTickEvery w else second)"

text \<open>The doubling loop; its delay is positive, as \<open>startupRetryEvery\<close> is.\<close>

function retry_loop :: "duration \<Rightarrow> duration \<Rightarrow> duration" where
  "retry_loop elapsed delay =
     (if 0 < delay \<and> delay < edgeExecutorRetryMax \<and> delay \<le> elapsed then
        (if edgeExecutorRetryMax div 2 < delay then edgeExecutorRetryMax
         else retry_loop elapsed (delay * 2))
      else if edgeExecutorRetryMax < delay then edgeExecutorRetryMax else delay)"
  by pat_completeness auto

termination retry_loop
  by (relation "measure (\<lambda>(elapsed, delay). nat (edgeExecutorRetryMax - delay))") auto

declare retry_loop.simps [simp del]

definition edgeExecutorRetryDelay ::
  "worker \<Rightarrow> pending_edge option \<Rightarrow> world \<Rightarrow> duration \<times> world" where
  "edgeExecutorRetryDelay w pending wd =
     (let base = startupRetryEvery w in
      case pending of
        None \<Rightarrow> (base, wd)
      | Some p \<Rightarrow>
          if time_is_zero (pe_ReceivedAt p) then (base, wd)
          else
            let (now, wd1) = Clock wd;
                elapsed = time_sub now (pe_ReceivedAt p)
            in if elapsed \<le> 0 then (base, wd1) else (retry_loop elapsed base, wd1))"

definition pendingEdgeRetryReady :: "pending_edge option \<Rightarrow> world \<Rightarrow> bool \<times> world" where
  "pendingEdgeRetryReady pending wd =
     (case pending of
        None \<Rightarrow> (True, wd)
      | Some p \<Rightarrow>
          if time_is_zero (pe_RetryAt p) then (True, wd)
          else let (now, wd1) = Clock wd in (\<not> time_before now (pe_RetryAt p), wd1))"

definition execution_failed ::
  "worker \<Rightarrow> source_state \<Rightarrow> pending_edge \<Rightarrow> world \<Rightarrow> (source_state \<times> bool) \<times> world" where
  "execution_failed w prior p wd =
     (let (now, wd1) = Clock wd;
          (d, wd2) = edgeExecutorRetryDelay w (Some p) wd1;
          s = prior\<lparr>ss_PendingEdge := Some (p\<lparr>pe_RetryAt := time_add now d\<rparr>)\<rparr>;
          (ok, wd3) = persistState s wd2
      in (if \<not> ok then (prior, False) else (s, False), wd3))"

definition settlePendingSignal ::
  "worker \<Rightarrow> source_state \<Rightarrow> world \<Rightarrow> (source_state \<times> bool) \<times> world" where
  "settlePendingSignal w prior wd =
     (case ss_PendingEdge prior of
        None \<Rightarrow> ((prior, True), wd)
      | Some p \<Rightarrow>
          let (ready, wd1) = pendingEdgeRetryReady (Some p) wd in
          if \<not> ready then ((prior, False), wd1)
          else
            let (ok, wd2) = (if wk_hasExecutor w then HandleMQTTSignal p wd1 else (True, wd1))
            in if \<not> ok then execution_failed w prior p wd2
               else ((settlePendingEdge prior p (pe_Target p), True), wd2))"

definition new_pending ::
  "edge_direction \<Rightarrow> canonical_state \<Rightarrow> source_state \<Rightarrow> pending_edge" where
  "new_pending direction c prior =
     \<lparr>pe_Direction = direction, pe_Target = ca_Target c, pe_TargetAt = ca_PublishedAt c,
      pe_ReceivedAt = ca_ReceivedAt c, pe_ReceivedBroker = ca_Broker c,
      pe_PriorEdgeAt = ss_LastEdgeAt prior, pe_RetryAt = 0\<rparr>"

definition applyEdge ::
  "worker \<Rightarrow> source_state \<Rightarrow> canonical_state \<Rightarrow> edge_direction \<Rightarrow> world \<Rightarrow>
   (source_state \<times> bool) \<times> world" where
  "applyEdge w prior c direction wd =
     (if direction = EdgeNone then ((prior, True), wd)
      else
        let pendingState = prior\<lparr>ss_PendingEdge := Some (new_pending direction c prior)\<rparr>;
            (ok, wd1) = persistState pendingState wd
        in if \<not> ok then ((pendingState, False), wd1)
           else settlePendingSignal w pendingState wd1)"

definition retryPendingEdge ::
  "worker \<Rightarrow> source_state \<Rightarrow> world \<Rightarrow> (source_state \<times> bool) \<times> world" where
  "retryPendingEdge w prior wd =
     (let (ready, wd1) = pendingEdgeRetryReady (ss_PendingEdge prior) wd in
      if \<not> ready then ((prior, False), wd1)
      else
        let ((s, settled), wd2) = settlePendingSignal w prior wd1 in
        if \<not> settled then ((s, True), wd2)
        else let (ok, wd3) = persistState s wd2 in ((s, True), wd3))"

section \<open>Messages and watchdog ticks\<close>

definition pendingEdgeSupersededBy ::
  "pending_edge option \<Rightarrow> canonical_state \<Rightarrow> bool \<Rightarrow> bool" where
  "pendingEdgeSupersededBy edge c alreadyProcessed =
     (case edge of
        None \<Rightarrow> False
      | Some e \<Rightarrow>
          let dated = \<not> time_is_zero (pe_TargetAt e) \<and> \<not> time_is_zero (ca_PublishedAt c) in
          if pe_Target e = ca_Target c then False
          else if pe_Target e = TargetOff \<and> ca_Target c = TargetOn \<and> alreadyProcessed then False
          else if pe_Target e = TargetOff \<and> ca_Target c = TargetOn \<and> dated \<and>
                  ca_PublishedAt c = pe_TargetAt e then False
          else if dated \<and> time_after (ca_PublishedAt c) (pe_TargetAt e) then True
          else if dated \<and> time_before (ca_PublishedAt c) (pe_TargetAt e) then
            (if time_after (pe_TargetAt e) (pe_ReceivedAt e)
             then time_after (ca_ReceivedAt c) (pe_ReceivedAt e) else False)
          else time_after (ca_ReceivedAt c) (pe_ReceivedAt e))"

definition applySupersedingPendingOff ::
  "worker \<Rightarrow> source_state \<Rightarrow> source_state \<Rightarrow> canonical_state \<Rightarrow> observation option \<Rightarrow> world \<Rightarrow>
   source_state \<times> world" where
  "applySupersedingPendingOff w prior0 original c liveness wd =
     (let prior = prior0\<lparr>ss_PendingEdge := None\<rparr>;
          pendingState = prior\<lparr>ss_PendingEdge := Some (new_pending EdgeOffToOn c prior)\<rparr>;
          (ok, wd1) = persistState pendingState wd
      in if \<not> ok then (original, wd1)
         else
           let ((s, _), wd2) = settlePendingSignal w pendingState wd1;
               t = advanceLiveness s c liveness;
               (_, wd3) = persistState t wd2
           in (t, wd3))"

definition message_direction :: "source_state \<Rightarrow> canonical_state \<Rightarrow> bool \<Rightarrow> edge_direction" where
  "message_direction prior c alreadyProcessed =
     (let d = Decide \<lparr>ps_LastTarget = ss_LastTarget prior, ps_LastEdgeAt = ss_LastEdgeAt prior\<rparr> c;
          d1 = (if shouldSuppressRepeatedOffReassert prior c alreadyProcessed then EdgeNone
                else if shouldAssertRepeatedOff prior c alreadyProcessed then EdgeReassertOff
                else d)
      in if alreadyProcessed then EdgeNone else d1)"

text \<open>The rest of \<open>handleMessage\<close> once the pending edge does not stand in the way.\<close>

definition handle_canonical ::
  "worker \<Rightarrow> source_state \<Rightarrow> source_state \<Rightarrow> bool \<Rightarrow> canonical_state \<Rightarrow> observation option \<Rightarrow> bool \<Rightarrow>
   world \<Rightarrow> source_state \<times> world" where
  "handle_canonical w original prior pendingSuperseded c liveness alreadyProcessed wd =
     (let suppress = shouldSuppressRepeatedOffReassert prior c alreadyProcessed;
          direction = message_direction prior c alreadyProcessed;
          ((s0, settled), wd1) = applyEdge w prior c direction wd;
          s1 = advanceLiveness s0 c liveness;
          s2 = (if settled \<and> direction = EdgeNone \<and> \<not> suppress then
                  let r = recordProcessedTarget s1 c in
                  if ca_Target c \<noteq> ss_LastTarget prior \<and> ss_LastTarget prior \<noteq> TargetUnknown
                  then r else r\<lparr>ss_LastTarget := ca_Target c\<rparr>
                else s1);
          (ok, wd2) = persistState s2 wd1
      in if \<not> ok \<and> pendingSuperseded \<and> ss_PendingEdge original \<noteq> None \<and> ss_PendingEdge s2 = None
         then (original, wd2) else (s2, wd2))"

definition handle_fresh ::
  "worker \<Rightarrow> source_state \<Rightarrow> canonical_state \<Rightarrow> observation option \<Rightarrow> world \<Rightarrow> source_state \<times> world" where
  "handle_fresh w prior c liveness wd =
     (let alreadyProcessed = alreadyProcessedTarget prior c in
      if pendingEdgeSupersededBy (ss_PendingEdge prior) c alreadyProcessed then
        (if map_option pe_Target (ss_PendingEdge prior) = Some TargetOff \<and> ca_Target c = TargetOn
         then applySupersedingPendingOff w prior prior c liveness wd
         else handle_canonical w prior (prior\<lparr>ss_PendingEdge := None\<rparr>) True c liveness
                alreadyProcessed wd)
      else
        let (ready, wd1) = pendingEdgeRetryReady (ss_PendingEdge prior) wd in
        if \<not> ready then
          let s = advanceLiveness prior c liveness; (_, wd2) = persistState s wd1 in (s, wd2)
        else handle_canonical w prior prior False c liveness alreadyProcessed wd1)"

text \<open>\<open>None\<close> means that the eviction loop did not end within its three rounds.\<close>

definition handleMessage ::
  "(string \<Rightarrow> unit + int option \<times> int option) \<Rightarrow> worker \<Rightarrow> obs_cache \<Rightarrow> source_state \<Rightarrow>
   raw_observation \<Rightarrow> world \<Rightarrow> (source_state \<times> obs_cache \<times> world) option" where
  "handleMessage unmarshal w cache prior obs wd =
     (case Decode unmarshal (ro_payload obs) (ro_receivedAt obs) of
        Inl _ \<Rightarrow> Some (prior, cache, wd)
      | Inr p \<Rightarrow>
          let role = brokerRole w (ro_broker obs);
              cache1 = cache_put role
                (Some \<lparr>ob_Broker = ro_broker obs, ob_Role = role, ob_Payload = p,
                       ob_ReceivedAt = ro_receivedAt obs\<rparr>) cache
          in case evict_stale 3 w prior cache1 of
               None \<Rightarrow> None
             | Some (None, cache2) \<Rightarrow> Some (prior, cache2, wd)
             | Some (Some c, cache2) \<Rightarrow>
                 let liveness = latestFreshObservation w prior [oc_primary cache2, oc_secondary cache2];
                     (s, wd1) = handle_fresh w prior c liveness wd
                 in Some (s, cache2, wd1))"

definition handleWatchdog :: "worker \<Rightarrow> source_state \<Rightarrow> world \<Rightarrow> source_state \<times> world" where
  "handleWatchdog w prior wd =
     (if ss_PendingEdge prior \<noteq> None then
        let ((s, ok), wd1) = retryPendingEdge w prior wd in (if ok then s else prior, wd1)
      else
        let (now, wd1) = Clock wd in
        if IsOff (ss_LastTarget prior) then (prior, wd1)
        else if EvaluateWatchdog (ss_LastReceivedAt prior) (ss_LastTarget prior) now
                  (wk_StalenessThreshold w) = WatchdogIdle then (prior, wd1)
        else
          let c = \<lparr>ca_Target = TargetOff, ca_PublishedAt = 0, ca_ReceivedAt = now, ca_Broker = []\<rparr>;
              ((s, settled), wd2) = applyEdge w prior c EdgeWatchdogOff wd1
          in if \<not> settled then
               (case ss_PendingEdge s of
                  None \<Rightarrow> (prior, wd2)
                | Some p \<Rightarrow> if \<not> time_is_zero (pe_RetryAt p) then (s, wd2) else (prior, wd2))
             else let (_, wd3) = persistState s wd2 in (s, wd3))"

definition shouldDeferStartupWatchdog :: "source_state \<Rightarrow> gotime \<Rightarrow> duration \<Rightarrow> bool" where
  "shouldDeferStartupWatchdog s now threshold =
     (if ss_PendingEdge s \<noteq> None \<or> IsOff (ss_LastTarget s) then False
      else EvaluateWatchdog (ss_LastReceivedAt s) (ss_LastTarget s) now threshold = WatchdogFire)"

definition startupWatchdogSatisfied :: "source_state \<Rightarrow> gotime \<Rightarrow> bool" where
  "startupWatchdogSatisfied s startedAt \<longleftrightarrow>
     IsOff (ss_LastTarget s) \<or> time_after (ss_LastReceivedAt s) startedAt"

section \<open>Runs\<close>

datatype worker_op = Message raw_observation | Tick

record worker_state =
  ws_cache :: obs_cache
  ws_state :: source_state
  ws_world :: world

definition worker_exec ::
  "(string \<Rightarrow> unit + int option \<times> int option) \<Rightarrow> worker \<Rightarrow> worker_op \<Rightarrow> worker_state \<Rightarrow>
   worker_state option" where
  "worker_exec unmarshal w x s =
     (case x of
        Message obs \<Rightarrow>
          map_option (\<lambda>(t, cache, wd). \<lparr>ws_cache = cache, ws_state = t, ws_world = wd\<rparr>)
            (handleMessage unmarshal w (ws_cache s) (ws_state s) obs (ws_world s))
      | Tick \<Rightarrow>
          (case handleWatchdog w (ws_state s) (ws_world s) of
             (t, wd) \<Rightarrow> Some (s\<lparr>ws_state := t, ws_world := wd\<rparr>)))"

section \<open>The eviction loop ends\<close>

text \<open>An observation is cached under the role of its broker.\<close>

definition cache_ok :: "worker \<Rightarrow> obs_cache \<Rightarrow> bool" where
  "cache_ok w cache \<longleftrightarrow>
     pred_option (\<lambda>ob. brokerRole w (ob_Broker ob) = BrokerPrimary) (oc_primary cache) \<and>
     pred_option (\<lambda>ob. brokerRole w (ob_Broker ob) = BrokerSecondary) (oc_secondary cache)"

definition cached :: "obs_cache \<Rightarrow> nat" where
  "cached cache = (if oc_primary cache = None then 0 else 1) + (if oc_secondary cache = None then 0 else 1)"

lemma cache_ok_put:
  "cache_ok w cache \<Longrightarrow> pred_option (\<lambda>ob. brokerRole w (ob_Broker ob) = r) v \<Longrightarrow>
    cache_ok w (cache_put r v cache)"
  by (cases r) (auto simp: cache_ok_def cache_put_def)

lemma evicting_shrinks:
  assumes "cache_ok w cache"
    and "CanonicalFromPair (oc_primary cache) (oc_secondary cache) d = Some c"
  shows "cached (cache_put (brokerRole w (ca_Broker c)) None cache) < cached cache"
  using assms
  by (auto simp: CanonicalFromPair_def canonical_def cache_ok_def cached_def cache_put_def
      split: option.splits if_splits)

lemma evict_stale_ends:
  "cache_ok w cache \<Longrightarrow> cached cache < n \<Longrightarrow>
    \<exists>c cache'. evict_stale n w prior cache = Some (c, cache') \<and> cache_ok w cache'"
proof (induction n arbitrary: cache)
  case 0
  then show ?case by simp
next
  case (Suc n)
  show ?case
  proof (cases "CanonicalFromPair (oc_primary cache) (oc_secondary cache) (wk_BrokerFreshness w)")
    case None
    with Suc.prems show ?thesis by simp
  next
    case (Some c)
    let ?cache = "cache_put (brokerRole w (ca_Broker c)) None cache"
    have "cached ?cache < n"
      using evicting_shrinks [OF Suc.prems(1) Some] Suc.prems(2) by simp
    with Suc.IH [of ?cache] Suc.prems(1) Some show ?thesis
      by (simp add: cache_ok_put)
  qed
qed

lemma cached_le: "cached cache < 3"
  by (simp add: cached_def)

lemma handleMessage_returns:
  assumes "cache_ok w cache"
  obtains s cache' wd' where
    "handleMessage unmarshal w cache prior obs wd = Some (s, cache', wd')" "cache_ok w cache'"
proof (cases "Decode unmarshal (ro_payload obs) (ro_receivedAt obs)")
  case (Inl e)
  with that assms show ?thesis by (simp add: handleMessage_def)
next
  case (Inr p)
  let ?role = "brokerRole w (ro_broker obs)"
  let ?cache = "cache_put ?role (Some \<lparr>ob_Broker = ro_broker obs, ob_Role = ?role, ob_Payload = p,
    ob_ReceivedAt = ro_receivedAt obs\<rparr>) cache"
  have "cache_ok w ?cache" using assms by (rule cache_ok_put) simp
  then obtain c cache' where "evict_stale 3 w prior ?cache = Some (c, cache')" "cache_ok w cache'"
    using evict_stale_ends cached_le by blast
  with Inr that show ?thesis
    by (cases c) (simp_all add: handleMessage_def Let_def case_prod_beta)
qed

section \<open>The delay before a retry\<close>

lemma startupRetryEvery_bounds: "0 < startupRetryEvery w" "startupRetryEvery w \<le> second"
  by (simp_all add: startupRetryEvery_def second_def)

lemma retry_loop_bounds:
  assumes "0 < delay" "delay \<le> edgeExecutorRetryMax"
  shows "delay \<le> retry_loop elapsed delay \<and> retry_loop elapsed delay \<le> edgeExecutorRetryMax \<and>
    (retry_loop elapsed delay = edgeExecutorRetryMax \<or> elapsed < retry_loop elapsed delay)"
  using assms
proof (induction elapsed delay rule: retry_loop.induct)
  case (1 elapsed delay)
  show ?case
  proof (cases "delay < edgeExecutorRetryMax \<and> delay \<le> elapsed \<and> delay \<le> edgeExecutorRetryMax div 2")
    case True
    with "1.prems" have "retry_loop elapsed delay = retry_loop elapsed (delay * 2)"
      by (subst retry_loop.simps) simp
    moreover have "delay * 2 \<le> retry_loop elapsed (delay * 2) \<and>
        retry_loop elapsed (delay * 2) \<le> edgeExecutorRetryMax \<and>
        (retry_loop elapsed (delay * 2) = edgeExecutorRetryMax \<or>
          elapsed < retry_loop elapsed (delay * 2))"
      using "1.IH" "1.prems" True by simp
    ultimately show ?thesis using "1.prems" by linarith
  next
    case False
    with "1.prems" show ?thesis by (subst (1 2 3 4) retry_loop.simps) auto
  qed
qed

section \<open>Write-ahead\<close>

text \<open>A call of the executor is durable when the stored row carries the edge as pending.\<close>

definition call_durable :: "pending_edge \<times> source_state option \<Rightarrow> bool" where
  "call_durable call \<longleftrightarrow>
     (case snd call of None \<Rightarrow> False | Some r \<Rightarrow> ss_PendingEdge r = Some (fst call))"

definition good_world :: "world \<Rightarrow> bool" where
  "good_world wd \<longleftrightarrow> wo_upsert wd = (\<lambda>_. True) \<and> list_all call_durable (wo_calls wd)"

definition synced :: "source_state \<Rightarrow> world \<Rightarrow> bool" where
  "synced s wd \<longleftrightarrow>
     ss_PendingEdge s = None \<or> map_option ss_PendingEdge (wo_row wd) = Some (ss_PendingEdge s)"

definition same_outside :: "world \<Rightarrow> world \<Rightarrow> bool" where
  "same_outside wd wd' \<longleftrightarrow> wo_row wd' = wo_row wd \<and> wo_calls wd' = wo_calls wd \<and>
     wo_upsert wd' = wo_upsert wd"

lemma same_outsideD:
  "same_outside wd wd' \<Longrightarrow> good_world wd' = good_world wd"
  "same_outside wd wd' \<Longrightarrow> synced s wd' = synced s wd"
  by (simp_all add: same_outside_def good_world_def synced_def)

lemma Clock_outside: "Clock wd = (t, wd') \<Longrightarrow> same_outside wd wd'"
  by (auto simp: Clock_def same_outside_def)

lemma ready_outside: "pendingEdgeRetryReady p wd = (b, wd') \<Longrightarrow> same_outside wd wd'"
  by (auto simp: pendingEdgeRetryReady_def Clock_def same_outside_def split: option.splits if_splits)

lemma delay_outside: "edgeExecutorRetryDelay w p wd = (d, wd') \<Longrightarrow> same_outside wd wd'"
  by (auto simp: edgeExecutorRetryDelay_def Clock_def same_outside_def Let_def
      split: option.splits if_splits)

lemma persist_good:
  assumes "persistState s wd = (ok, wd')" "good_world wd"
  shows "ok" "good_world wd'" "wo_row wd' = Some s" "synced s wd'"
  using assms by (auto simp: persistState_def good_world_def synced_def Let_def)

text \<open>
  What settling a pending edge can do: at most one call, with the row as it is; and then the edge
  is settled, or the state is as before, or it carries a time for the retry and is stored.
\<close>

lemma execution_failed_effect:
  assumes "execution_failed w s p wd = ((t, b), wd')"
  shows "\<not> b \<and> wo_upsert wd' = wo_upsert wd \<and> wo_calls wd' = wo_calls wd \<and>
    ((t = s \<and> wo_row wd' = wo_row wd) \<or>
     (\<exists>r. t = s\<lparr>ss_PendingEdge := Some (p\<lparr>pe_RetryAt := r\<rparr>)\<rparr> \<and> wo_row wd' = Some t))"
proof -
  obtain now wd1 where 1: "Clock wd = (now, wd1)" by fastforce
  obtain d wd2 where 2: "edgeExecutorRetryDelay w (Some p) wd1 = (d, wd2)" by fastforce
  have "same_outside wd wd2"
    using Clock_outside [OF 1] delay_outside [OF 2] by (simp add: same_outside_def)
  with assms 1 2 show ?thesis
    by (auto simp: execution_failed_def persistState_def Let_def same_outside_def split: if_splits)
qed

lemma settle_effect:
  assumes "settlePendingSignal w s wd = ((t, b), wd')" "ss_PendingEdge s = Some p"
  shows "wo_upsert wd' = wo_upsert wd"
    and "wo_calls wd' = wo_calls wd \<or> wo_calls wd' = wo_calls wd @ [(p, wo_row wd)]"
    and "(b \<and> t = settlePendingEdge s p (pe_Target p)) \<or>
      (\<not> b \<and> t = s \<and> wo_row wd' = wo_row wd) \<or>
      (\<not> b \<and> (\<exists>r. t = s\<lparr>ss_PendingEdge := Some (p\<lparr>pe_RetryAt := r\<rparr>)\<rparr> \<and> wo_row wd' = Some t))"
proof -
  obtain ready wd1 where r: "pendingEdgeRetryReady (Some p) wd = (ready, wd1)" by fastforce
  note o1 = ready_outside [OF r, unfolded same_outside_def]
  let ?wd2 = "wd1\<lparr>wo_calls := wo_calls wd1 @ [(p, wo_row wd1)]\<rparr>"
  consider "\<not> ready" "t = s" "\<not> b" "wd' = wd1"
    | "ready" "wk_hasExecutor w" "execution_failed w s p ?wd2 = ((t, b), wd')"
    | "ready" "b" "t = settlePendingEdge s p (pe_Target p)" "wd' = ?wd2 \<or> wd' = wd1"
    using assms r
    by (auto simp: settlePendingSignal_def HandleMQTTSignal_def Let_def split: if_splits)
  note cases = this
  have "wo_upsert wd' = wo_upsert wd \<and>
    (wo_calls wd' = wo_calls wd \<or> wo_calls wd' = wo_calls wd @ [(p, wo_row wd)]) \<and>
    ((b \<and> t = settlePendingEdge s p (pe_Target p)) \<or>
      (\<not> b \<and> t = s \<and> wo_row wd' = wo_row wd) \<or>
      (\<not> b \<and> (\<exists>r. t = s\<lparr>ss_PendingEdge := Some (p\<lparr>pe_RetryAt := r\<rparr>)\<rparr> \<and> wo_row wd' = Some t)))"
    (is "?u \<and> ?c \<and> ?r")
  proof (rule cases)
    assume "execution_failed w s p ?wd2 = ((t, b), wd')"
    from execution_failed_effect [OF this] o1 show "?u \<and> ?c \<and> ?r"
      by simp
  qed (use o1 in auto)
  then show "?u" "?c" "?r" by blast+
qed

lemma settlePendingEdge_simps [simp]:
  "ss_PendingEdge (settlePendingEdge s p t) = None"
  "ss_LastTarget (settlePendingEdge s p t) = t"
  by (simp_all add: settlePendingEdge_def recordProcessedTarget_def Let_def)

lemma settle_good:
  assumes "settlePendingSignal w s wd = ((t, b), wd')" "good_world wd" "synced s wd"
  shows "good_world wd' \<and> synced t wd'"
proof (cases "ss_PendingEdge s")
  case None
  with assms show ?thesis by (simp add: settlePendingSignal_def)
next
  case (Some p)
  have row: "call_durable (p, wo_row wd)"
    using assms(3) Some by (auto simp: synced_def call_durable_def)
  show ?thesis
    using settle_effect [OF assms(1) Some] row assms(2,3)
    by (auto simp: good_world_def synced_def)
qed

lemma applyEdge_good:
  assumes "applyEdge w s c d wd = ((t, b), wd')" "good_world wd" "synced s wd"
  shows "good_world wd' \<and> synced t wd'"
proof (cases "d = EdgeNone")
  case True
  with assms show ?thesis by (simp add: applyEdge_def)
next
  case False
  let ?s = "s\<lparr>ss_PendingEdge := Some (new_pending d c s)\<rparr>"
  obtain ok wd1 where 1: "persistState ?s wd = (ok, wd1)" by fastforce
  note good = persist_good [OF 1 assms(2)]
  with assms(1) False 1 have "settlePendingSignal w ?s wd1 = ((t, b), wd')"
    by (simp add: applyEdge_def Let_def)
  then show ?thesis by (rule settle_good) (use good in simp_all)
qed

lemma handle_canonical_good:
  assumes "handle_canonical w original s ps c l a wd = (t, wd')" "good_world wd" "synced s wd"
  shows "good_world wd' \<and> synced t wd'"
proof -
  obtain s0 b wd1 where 1: "applyEdge w s c (message_direction s c a) wd = ((s0, b), wd1)"
    by (metis prod.exhaust)
  have "good_world wd1" using applyEdge_good [OF 1 assms(2,3)] by simp
  with assms(1) 1 show ?thesis
    by (auto simp: handle_canonical_def Let_def case_prod_beta persist_good(1) [OF surjective_pairing]
        intro: persist_good(2,4) [OF surjective_pairing])
qed

lemma superseding_good:
  assumes "applySupersedingPendingOff w s original c l wd = (t, wd')" "good_world wd"
  shows "good_world wd' \<and> synced t wd'"
proof -
  let ?s = "s\<lparr>ss_PendingEdge := None\<rparr>"
  let ?p = "?s\<lparr>ss_PendingEdge := Some (new_pending EdgeOffToOn c ?s)\<rparr>"
  obtain ok wd1 where 1: "persistState ?p wd = (ok, wd1)" by fastforce
  note good = persist_good [OF 1 assms(2)]
  obtain s0 b wd2 where 2: "settlePendingSignal w ?p wd1 = ((s0, b), wd2)" by (metis prod.exhaust)
  have "good_world wd2" using settle_good [OF 2] good by simp
  with assms(1) 1 2 good show ?thesis
    by (auto simp: applySupersedingPendingOff_def Let_def case_prod_beta
        intro: persist_good(2,4) [OF surjective_pairing])
qed

lemma handle_fresh_good:
  assumes "handle_fresh w s c l wd = (t, wd')" "good_world wd" "synced s wd"
  shows "good_world wd' \<and> synced t wd'"
proof (cases "pendingEdgeSupersededBy (ss_PendingEdge s) c (alreadyProcessedTarget s c)")
  case True
  then show ?thesis
    using assms superseding_good [of w s s c l wd t wd']
      handle_canonical_good [of w s "s\<lparr>ss_PendingEdge := None\<rparr>" True c l _ wd t wd']
    by (auto simp: handle_fresh_def Let_def synced_def split: if_splits)
next
  case False
  obtain ready wd1 where 1: "pendingEdgeRetryReady (ss_PendingEdge s) wd = (ready, wd1)" by fastforce
  have good: "good_world wd1" "synced s wd1"
    using same_outsideD [OF ready_outside [OF 1]] assms(2,3) by simp_all
  show ?thesis
  proof (cases ready)
    case True
    with False 1 assms(1) good show ?thesis
      using handle_canonical_good [of w s s False c l _ wd1 t wd']
      by (simp add: handle_fresh_def Let_def)
  next
    case unready: False
    with False 1 assms(1) good(1) show ?thesis
      by (auto simp: handle_fresh_def Let_def case_prod_beta
          intro: persist_good(2,4) [OF surjective_pairing])
  qed
qed

lemma retry_good:
  assumes "retryPendingEdge w s wd = ((t, b), wd')" "good_world wd" "synced s wd"
  shows "good_world wd' \<and> synced t wd'"
proof -
  obtain ready wd1 where 1: "pendingEdgeRetryReady (ss_PendingEdge s) wd = (ready, wd1)" by fastforce
  have good: "good_world wd1" "synced s wd1"
    using same_outsideD [OF ready_outside [OF 1]] assms(2,3) by simp_all
  obtain s0 settled wd2 where 2: "settlePendingSignal w s wd1 = ((s0, settled), wd2)"
    by (metis prod.exhaust)
  note good2 = settle_good [OF 2 good]
  show ?thesis
    using assms(1) 1 2 good good2
    by (auto simp: retryPendingEdge_def Let_def case_prod_beta split: if_splits
        intro: persist_good(2,4) [OF surjective_pairing])
qed

lemma handleWatchdog_good:
  assumes "handleWatchdog w s wd = (t, wd')" "good_world wd" "synced s wd"
  shows "good_world wd' \<and> synced t wd'"
proof (cases "ss_PendingEdge s = None")
  case True
  obtain now wd1 where 1: "Clock wd = (now, wd1)" by fastforce
  have good: "good_world wd1" using same_outsideD [OF Clock_outside [OF 1]] assms(2) by simp
  have none: "synced s wd''" for wd'' using True by (simp add: synced_def)
  let ?c = "\<lparr>ca_Target = TargetOff, ca_PublishedAt = 0, ca_ReceivedAt = now, ca_Broker = []\<rparr>"
  obtain s0 b wd2 where 2: "applyEdge w s ?c EdgeWatchdogOff wd1 = ((s0, b), wd2)"
    by (metis prod.exhaust)
  note good2 = applyEdge_good [OF 2 good none]
  show ?thesis
    using assms(1) True 1 2 good good2 none
    by (auto simp: handleWatchdog_def Let_def case_prod_beta split: if_splits option.splits
        intro: persist_good(2,4) [OF surjective_pairing])
next
  case False
  obtain s0 b wd1 where 1: "retryPendingEdge w s wd = ((s0, b), wd1)" by (metis prod.exhaust)
  have "wd1 = wd' \<and> (t = s0 \<or> t = s \<and> \<not> b)"
    using assms(1) False 1 by (auto simp: handleWatchdog_def split: if_splits)
  moreover have "s0 = s" if "\<not> b"
    using 1 that by (auto simp: retryPendingEdge_def Let_def case_prod_beta split: if_splits)
  ultimately show ?thesis using retry_good [OF 1 assms(2,3)] by auto
qed

section \<open>The worker as a component\<close>

definition worker_start ::
  "source_state \<Rightarrow> world \<Rightarrow> worker_state" where
  "worker_start st wd =
     \<lparr>ws_cache = \<lparr>oc_primary = None, oc_secondary = None\<rparr>, ws_state = st, ws_world = wd\<rparr>"

text \<open>A world whose store never fails and holds the state the worker starts from.\<close>

definition reliable_world :: "source_state \<Rightarrow> (nat \<Rightarrow> gotime) \<Rightarrow> (nat \<Rightarrow> bool) \<Rightarrow> world" where
  "reliable_world st clock execute =
     \<lparr>wo_clock = clock, wo_reads = 0, wo_upsert = \<lambda>_. True, wo_upserts = 0, wo_execute = execute,
      wo_row = Some st, wo_calls = []\<rparr>"

definition cache_inv :: "worker \<Rightarrow> worker_state \<Rightarrow> bool" where
  "cache_inv w s \<longleftrightarrow> cache_ok w (ws_cache s)"

definition worker_inv :: "worker \<Rightarrow> worker_state \<Rightarrow> bool" where
  "worker_inv w s \<longleftrightarrow> cache_ok w (ws_cache s) \<and> good_world (ws_world s) \<and>
     synced (ws_state s) (ws_world s)"

lemma handleMessage_good:
  assumes "handleMessage unmarshal w cache s obs wd = Some (t, cache', wd')"
    and "good_world wd" "synced s wd"
  shows "good_world wd' \<and> synced t wd'"
  using assms
  by (auto simp: handleMessage_def Let_def case_prod_beta split: sum.splits option.splits
      intro: handle_fresh_good [OF surjective_pairing, THEN conjunct1]
        handle_fresh_good [OF surjective_pairing, THEN conjunct2])

interpretation any_worker: safe_component "worker_start st wd" "worker_exec unmarshal w" "cache_inv w"
  for st wd unmarshal w
proof unfold_locales
  show "cache_inv w (worker_start st wd)"
    by (simp add: cache_inv_def worker_start_def cache_ok_def)
next
  fix s x
  assume inv: "cache_inv w s"
  show "\<exists>t. worker_exec unmarshal w x s = Some t \<and> cache_inv w t"
  proof (cases x)
    case (Message obs)
    obtain t cache' wd' where
      "handleMessage unmarshal w (ws_cache s) (ws_state s) obs (ws_world s) = Some (t, cache', wd')"
      "cache_ok w cache'"
      using handleMessage_returns [OF inv [unfolded cache_inv_def]] by metis
    then show ?thesis by (simp add: worker_exec_def Message cache_inv_def)
  next
    case Tick
    with inv show ?thesis by (simp add: worker_exec_def cache_inv_def split: prod.splits)
  qed
qed

interpretation durable_worker: safe_component
  "worker_start st (reliable_world st clock execute)" "worker_exec unmarshal w" "worker_inv w"
  for st clock execute unmarshal w
proof unfold_locales
  show "worker_inv w (worker_start st (reliable_world st clock execute))"
    by (simp add: worker_inv_def worker_start_def reliable_world_def cache_ok_def good_world_def
        synced_def)
next
  fix s x
  assume inv: "worker_inv w s"
  show "\<exists>t. worker_exec unmarshal w x s = Some t \<and> worker_inv w t"
  proof (cases x)
    case (Message obs)
    obtain t cache' wd' where
      m: "handleMessage unmarshal w (ws_cache s) (ws_state s) obs (ws_world s) = Some (t, cache', wd')"
      and "cache_ok w cache'"
      using handleMessage_returns inv unfolding worker_inv_def by metis
    with handleMessage_good [OF m] inv show ?thesis
      by (simp add: worker_exec_def Message worker_inv_def)
  next
    case Tick
    obtain t wd' where h: "handleWatchdog w (ws_state s) (ws_world s) = (t, wd')" by fastforce
    with handleWatchdog_good [OF h] inv Tick show ?thesis
      by (simp add: worker_exec_def worker_inv_def)
  qed
qed

section \<open>OFF is kept, repeats are dropped\<close>

definition heads_off :: "source_state \<Rightarrow> bool" where
  "heads_off s \<longleftrightarrow>
     (case ss_PendingEdge s of None \<Rightarrow> ss_LastTarget s = TargetOff | Some p \<Rightarrow> pe_Target p = TargetOff)"

lemma advanceLiveness_simps [simp]:
  "ss_PendingEdge (advanceLiveness s c l) = ss_PendingEdge s"
  "ss_LastTarget (advanceLiveness s c l) = ss_LastTarget s"
  by (simp_all add: advanceLiveness_def Let_def split: option.splits)

lemma recordProcessedTarget_simps [simp]:
  "ss_PendingEdge (recordProcessedTarget s c) = ss_PendingEdge s"
  "ss_LastTarget (recordProcessedTarget s c) = ss_LastTarget s"
  by (simp_all add: recordProcessedTarget_def Let_def)

lemma applyEdge_heads_off:
  assumes "applyEdge w s c d wd = ((t, b), wd')" "d \<noteq> EdgeNone" "ca_Target c = TargetOff"
  shows "heads_off t"
proof -
  let ?p = "new_pending d c s"
  let ?s = "s\<lparr>ss_PendingEdge := Some ?p\<rparr>"
  have off: "pe_Target ?p = TargetOff" using assms(3) by (simp add: new_pending_def)
  obtain ok wd1 where 1: "persistState ?s wd = (ok, wd1)" by fastforce
  show ?thesis
  proof (cases ok)
    case True
    with assms(1,2) 1 have "settlePendingSignal w ?s wd1 = ((t, b), wd')"
      by (simp add: applyEdge_def Let_def)
    from settle_effect(3) [OF this] off show ?thesis by (auto simp: heads_off_def)
  next
    case False
    with assms(1,2) 1 off show ?thesis by (auto simp: applyEdge_def Let_def heads_off_def)
  qed
qed

lemma processed_after_settling:
  assumes "pe_TargetAt p \<noteq> 0" "ca_Target c = pe_Target p" "ca_PublishedAt c = pe_TargetAt p"
  shows "alreadyProcessedTarget (settlePendingEdge s p (pe_Target p)) c"
  using assms
  by (auto simp: alreadyProcessedTarget_def settlePendingEdge_def recordProcessedTarget_def Let_def
      PendingEdge_canonical_def time_is_zero_def)

section \<open>Properties\<close>

text \<open>
  The worker never hangs: whatever the messages, the clock, the store and the executor do, every
  sequence of messages and watchdog ticks is handled to the end; in particular three rounds of the
  eviction loop are always enough.
\<close>
theorem worker_never_hangs: "run_ops (worker_exec unmarshal w) ops (worker_start st wd) \<noteq> None"
  using any_worker.run_from_init [of unmarshal w ops st wd] by auto

text \<open>
  C29. Signals are written ahead. When the store does not fail, in every sequence of messages and
  ticks each signal handed to the executor is, at that moment, stored as the pending edge of its
  source, so that a crash cannot lose it.
\<close>
theorem signals_are_durable_first:
  "case run_ops (worker_exec unmarshal w) ops (worker_start st (reliable_world st clock execute)) of
     None \<Rightarrow> False
   | Some s \<Rightarrow> list_all call_durable (wo_calls (ws_world s))"
  using durable_worker.run_from_init [of unmarshal w ops st clock execute]
  by (auto simp: worker_inv_def good_world_def)


definition demo_state :: source_state where
  "demo_state = \<lparr>ss_LastTarget = TargetOn, ss_LastTargetAt = 0, ss_LastProcessedTarget = TargetUnknown,
     ss_LastProcessedTargets = [], ss_LastReceivedAt = 0, ss_LastReceivedBroker = [],
     ss_LastEdgeAt = 0, ss_PendingEdge = None\<rparr>"

definition demo_worker :: worker where
  "demo_worker = \<lparr>wk_primaryHost = ''a'', wk_BrokerFreshness = 10 * second,
     wk_StalenessThreshold = 60 * second, wk_WatchdogTickEvery = second, wk_hasExecutor = True\<rparr>"

definition demo_off :: canonical_state where
  "demo_off = \<lparr>ca_Target = TargetOff, ca_PublishedAt = time_Unix 1, ca_ReceivedAt = time_Unix 2,
     ca_Broker = ''a''\<rparr>"

text \<open>A world whose store fails every time and whose executor works.\<close>

definition failing_world :: world where
  "failing_world = \<lparr>wo_clock = \<lambda>n. time_Unix (3 + int n), wo_reads = 0, wo_upsert = \<lambda>_. False,
     wo_upserts = 0, wo_execute = \<lambda>_. True, wo_row = Some demo_state, wo_calls = []\<rparr>"


text \<open>
  A redelivery is ignored. Once an edge with a time stamp is settled, a message with the same
  target and the same time stamp changes neither the target of the source nor reaches the executor
  again.
\<close>
theorem redelivery_is_ignored:
  assumes "pe_TargetAt p \<noteq> 0" "ca_Target c = pe_Target p" "ca_PublishedAt c = pe_TargetAt p"
  shows "let r = handle_fresh w (settlePendingEdge prior p (pe_Target p)) c liveness wd in
    wo_calls (snd r) = wo_calls wd \<and> ss_LastTarget (fst r) = pe_Target p \<and>
    ss_PendingEdge (fst r) = None"
  using processed_after_settling [OF assms, of prior] assms(2)
  by (simp add: handle_fresh_def handle_canonical_def pendingEdgeSupersededBy_def
      pendingEdgeRetryReady_def message_direction_def applyEdge_def persistState_def Let_def
      case_prod_beta)

theorem redelivery_is_ignored_witness:
  "let p = new_pending EdgeOnToOff demo_off demo_state;
       r = handle_fresh demo_worker (settlePendingEdge demo_state p (pe_Target p)) demo_off None
             failing_world in
    wo_calls (snd r) = wo_calls failing_world \<and> ss_LastTarget (fst r) = pe_Target p \<and>
    ss_PendingEdge (fst r) = None"
  using redelivery_is_ignored [of "new_pending EdgeOnToOff demo_off demo_state" demo_off demo_worker
      demo_state None failing_world]
  by (simp add: new_pending_def demo_off_def time_Unix_def second_def)

text \<open>
  Retries back off within bounds: the delay before a failed signal is tried again is at least
  the base delay, which is positive and at most a second, at most five minutes, and longer than the
  signal has been waiting unless it is five minutes already.
\<close>
theorem retry_delay_backs_off:
  "let d = fst (edgeExecutorRetryDelay w (Some p) wd); base = startupRetryEvery w;
       elapsed = time_sub (wo_clock wd (wo_reads wd)) (pe_ReceivedAt p) in
   0 < base \<and> base \<le> second \<and> base \<le> d \<and> d \<le> 300 * second \<and>
   (if pe_ReceivedAt p = 0 then d = base else d = 300 * second \<or> elapsed < d)"
proof -
  have base: "0 < startupRetryEvery w" "startupRetryEvery w \<le> edgeExecutorRetryMax"
    using startupRetryEvery_bounds [of w] by (simp_all add: second_def)
  note b = retry_loop_bounds [OF base, of "time_sub (wo_clock wd (wo_reads wd)) (pe_ReceivedAt p)"]
  show ?thesis
    using b base startupRetryEvery_bounds [of w]
    by (auto simp: edgeExecutorRetryDelay_def Clock_def Let_def time_is_zero_def second_def)
qed

text \<open>
  Without a reliable store the write-ahead is lost. When both upserts of an OFF message
  fail, the next watchdog tick hands the edge to the executor although the stored row never had it
  as pending.
\<close>
theorem failed_upserts_skip_the_write_ahead:
  "case run_ops (worker_exec (\<lambda>_. Inr (Some 0, Some 1)) demo_worker)
       [Message \<lparr>ro_broker = ''a'', ro_payload = ''x'', ro_receivedAt = time_Unix 2\<rparr>, Tick]
       (worker_start demo_state failing_world) of
     None \<Rightarrow> False
   | Some s \<Rightarrow> length (wo_calls (ws_world s)) = 1 \<and>
       \<not> list_all call_durable (wo_calls (ws_world s))"
  by code_simp

end
