(* ===== verification/Telemetry_Scheduler.thy ===== *)
theory Telemetry_Scheduler
  imports Go_Sort "HOL-Library.Word"
begin

text \<open>
  The telemetry scheduler (\<open>server/internal/domain/telemetry/scheduler\<close>): which devices are due
  for polling, which are checked out by a worker and which are parked after too many failures.

  The three tables are association lists. A value of \<open>failedDevices\<close>, an \<open>any\<close> that holds an
  \<open>int\<close> or a \<open>time.Time\<close>, is a datatype. Calls are atomic here; only \<open>AddNewDevices\<close>, which
  touches two tables without a common lock, is also given as its two separate steps. The clock
  \<open>now\<close> is an argument. \<open>slices.SortFunc\<close> leaves the order of equal elements open; the
  model takes the input order, and no theorem depends on it.
\<close>

unbundle bit_operations_syntax

section \<open>State\<close>

definition initialDevicePollSpread :: duration where
  "initialDevicePollSpread = 15 * second"

record scheduled_device =
  sd_lastUpdated :: gotime
  sd_notBefore :: gotime

record device =
  dv_ID :: string
  dv_LastUpdatedAt :: gotime

datatype failure_record = FailureCount int | FailedAt gotime

record scheduler =
  sc_devices :: "(string \<times> scheduled_device) list"
  sc_failedDevices :: "(string \<times> failure_record) list"
  sc_managedDevices :: "(string \<times> bool) list"
  sc_MaxConsecutiveFailures :: int

datatype scheduler_error = DeviceNotManagedErr string

definition NewScheduler :: "int \<Rightarrow> scheduler" where
  "NewScheduler maxFailures =
     \<lparr>sc_devices = [], sc_failedDevices = [], sc_managedDevices = [],
      sc_MaxConsecutiveFailures = maxFailures\<rparr>"

section \<open>Operations\<close>

text \<open>\<open>hash/fnv\<close>: the 32-bit FNV-1a hash of the bytes of a string.\<close>

definition fnv32a :: "string \<Rightarrow> 32 word" where
  "fnv32a bs = foldl (\<lambda>h b. (h XOR of_char b) * 16777619) 2166136261 bs"

definition initialPollOffset :: "string \<Rightarrow> duration" where
  "initialPollOffset deviceID =
     int (unat (fnv32a deviceID mod of_int (initialDevicePollSpread div millisecond))) * millisecond"

text \<open>The two steps of \<open>AddNewDevices\<close> for one device.\<close>

definition add_new_mark :: "string \<Rightarrow> scheduler \<Rightarrow> bool \<times> scheduler" where
  "add_new_mark i s =
     (if has_key (sc_managedDevices s) i then (False, s)
      else (True, s\<lparr>sc_managedDevices := AList.update i True (sc_managedDevices s)\<rparr>))"

definition add_new_enqueue :: "bool \<Rightarrow> gotime \<Rightarrow> string \<Rightarrow> scheduler \<Rightarrow> scheduler" where
  "add_new_enqueue spreadBulk addedAt i s =
     s\<lparr>sc_devices := AList.update i
        \<lparr>sd_lastUpdated = 0,
         sd_notBefore = (if spreadBulk then time_add addedAt (initialPollOffset i) else 0)\<rparr>
        (sc_devices s)\<rparr>"

definition add_new_device :: "bool \<Rightarrow> gotime \<Rightarrow> scheduler \<Rightarrow> string \<Rightarrow> scheduler" where
  "add_new_device spreadBulk addedAt s i =
     (case add_new_mark i s of
        (False, s) \<Rightarrow> s
      | (True, s) \<Rightarrow> add_new_enqueue spreadBulk addedAt i s)"

definition AddNewDevices :: "gotime \<Rightarrow> string list \<Rightarrow> scheduler \<Rightarrow> scheduler" where
  "AddNewDevices now ids s = foldl (add_new_device (1 < length ids) now) s ids"

fun addDevices :: "device list \<Rightarrow> scheduler \<Rightarrow> scheduler_error option \<times> scheduler" where
  "addDevices [] s = (None, s)"
| "addDevices (d # ds) s =
     (case map_of (sc_managedDevices s) (dv_ID d) of
        None \<Rightarrow> (Some (DeviceNotManagedErr (dv_ID d)), s)
      | Some True \<Rightarrow> addDevices ds s
      | Some False \<Rightarrow>
          addDevices ds (s\<lparr>
            sc_managedDevices := AList.update (dv_ID d) True (sc_managedDevices s),
            sc_devices := AList.update (dv_ID d)
              \<lparr>sd_lastUpdated = dv_LastUpdatedAt d, sd_notBefore = 0\<rparr> (sc_devices s)\<rparr>))"

definition AddDevices :: "device list \<Rightarrow> scheduler \<Rightarrow> scheduler_error option \<times> scheduler" where
  "AddDevices ds s =
     addDevices ds (foldl (\<lambda>s d. s\<lparr>sc_failedDevices :=
       AList.delete (dv_ID d) (sc_failedDevices s)\<rparr>) s ds)"

definition RequeueDevices :: "device list \<Rightarrow> scheduler \<Rightarrow> scheduler_error option \<times> scheduler" where
  "RequeueDevices ds s = addDevices ds s"

definition set_failure :: "string \<Rightarrow> failure_record \<Rightarrow> scheduler \<Rightarrow> scheduler" where
  "set_failure i f s = s\<lparr>sc_failedDevices := AList.update i f (sc_failedDevices s)\<rparr>"

fun AddFailedDevices :: "device list \<Rightarrow> scheduler \<Rightarrow> scheduler_error option \<times> scheduler" where
  "AddFailedDevices [] s = (None, s)"
| "AddFailedDevices (d # ds) s =
     (case (case map_of (sc_failedDevices s) (dv_ID d) of None \<Rightarrow> FailureCount 0 | Some f \<Rightarrow> f) of
        FailedAt _ \<Rightarrow> AddFailedDevices ds s
      | FailureCount k \<Rightarrow>
          if sc_MaxConsecutiveFailures s \<le> k + 1
          then AddFailedDevices ds (set_failure (dv_ID d) (FailedAt (dv_LastUpdatedAt d)) s)
          else
            (case addDevices [d] (set_failure (dv_ID d) (FailureCount (k + 1)) s) of
               (Some e, t) \<Rightarrow> (Some e, t)
             | (None, t) \<Rightarrow> AddFailedDevices ds t))"

fun RemoveDevices :: "string list \<Rightarrow> scheduler \<Rightarrow> scheduler_error option \<times> scheduler" where
  "RemoveDevices [] s = (None, s)"
| "RemoveDevices (i # is) s =
     (if \<not> has_key (sc_managedDevices s) i then (Some (DeviceNotManagedErr i), s)
      else RemoveDevices is (s\<lparr>
        sc_managedDevices := AList.delete i (sc_managedDevices s),
        sc_devices := AList.delete i (sc_devices s)\<rparr>))"

definition due :: "gotime \<Rightarrow> gotime \<Rightarrow> scheduled_device \<Rightarrow> bool" where
  "due now before k \<longleftrightarrow> time_before (sd_lastUpdated k) before \<and> \<not> time_after (sd_notBefore k) now"

definition check_out :: "scheduler \<Rightarrow> string \<Rightarrow> scheduler" where
  "check_out s i =
     s\<lparr>sc_managedDevices := AList.update i False (sc_managedDevices s),
       sc_devices := AList.delete i (sc_devices s)\<rparr>"

definition older :: "device \<Rightarrow> device \<Rightarrow> bool" where
  "older a b \<longleftrightarrow> time_before (dv_LastUpdatedAt a) (dv_LastUpdatedAt b)"

definition FetchDevices :: "gotime \<Rightarrow> gotime \<Rightarrow> scheduler \<Rightarrow> device list \<times> scheduler" where
  "FetchDevices now before s =
     (let stale = filter (\<lambda>(i, k). due now before k) (sc_devices s)
      in (stable_sort older (map (\<lambda>(i, k). \<lparr>dv_ID = i, dv_LastUpdatedAt = sd_lastUpdated k\<rparr>) stale),
          foldl check_out s (keys stale)))"

definition GetAllDevices :: "scheduler \<Rightarrow> device list" where
  "GetAllDevices s =
     map (\<lambda>(i, k). \<lparr>dv_ID = i, dv_LastUpdatedAt = sd_lastUpdated k\<rparr>) (sc_devices s)"

definition GetDeviceCount :: "scheduler \<Rightarrow> nat" where
  "GetDeviceCount s = length (sc_devices s)"

definition GetManagedDeviceCount :: "scheduler \<Rightarrow> nat" where
  "GetManagedDeviceCount s = length (filter snd (sc_managedDevices s))"

definition IsFailedDevice :: "string \<Rightarrow> scheduler \<Rightarrow> bool \<times> gotime" where
  "IsFailedDevice i s =
     (case map_of (sc_failedDevices s) i of
        Some (FailedAt t) \<Rightarrow> (True, t)
      | _ \<Rightarrow> (False, 0))"

datatype scheduler_op =
    SAddNew gotime "string list"
  | SAdd "device list"
  | SRequeue "device list"
  | SAddFailed "device list"
  | SRemove "string list"
  | SFetch gotime gotime

fun scheduler_exec :: "scheduler_op \<Rightarrow> scheduler \<Rightarrow> scheduler option" where
  "scheduler_exec (SAddNew now ids) s = Some (AddNewDevices now ids s)"
| "scheduler_exec (SAdd ds) s = Some (snd (AddDevices ds s))"
| "scheduler_exec (SRequeue ds) s = Some (snd (RequeueDevices ds s))"
| "scheduler_exec (SAddFailed ds) s = Some (snd (AddFailedDevices ds s))"
| "scheduler_exec (SRemove ids) s = Some (snd (RemoveDevices ids s))"
| "scheduler_exec (SFetch now before) s = Some (snd (FetchDevices now before s))"

section \<open>The invariant\<close>

text \<open>The polling queue holds exactly the managed devices that are not checked out.\<close>

definition queue_inv :: "scheduler \<Rightarrow> bool" where
  "queue_inv s \<longleftrightarrow>
     distinct (keys (sc_devices s)) \<and> distinct (keys (sc_managedDevices s)) \<and>
     (\<forall>i. has_key (sc_devices s) i \<longleftrightarrow> map_of (sc_managedDevices s) i = Some True)"

lemma queue_inv_new: "queue_inv (NewScheduler k)"
  by (simp add: queue_inv_def NewScheduler_def)

lemma queue_inv_failed [simp]: "queue_inv (s\<lparr>sc_failedDevices := f\<rparr>) = queue_inv s"
  by (simp add: queue_inv_def)

lemma queue_inv_enqueue:
  "queue_inv s \<Longrightarrow> queue_inv (s\<lparr>sc_managedDevices := AList.update i True (sc_managedDevices s),
    sc_devices := AList.update i k (sc_devices s)\<rparr>)"
  by (auto simp: queue_inv_def)

lemma queue_inv_remove:
  "queue_inv s \<Longrightarrow> queue_inv (s\<lparr>sc_managedDevices := AList.delete i (sc_managedDevices s),
    sc_devices := AList.delete i (sc_devices s)\<rparr>)"
  by (auto simp: queue_inv_def)

lemma queue_inv_check_out: "queue_inv s \<Longrightarrow> queue_inv (check_out s i)"
  by (auto simp: queue_inv_def check_out_def)

lemma queue_inv_addDevices: "queue_inv s \<Longrightarrow> queue_inv (snd (addDevices ds s))"
  by (induction ds s rule: addDevices.induct)
    (auto simp: queue_inv_enqueue split: option.splits bool.splits)

lemma queue_inv_AddNew: "queue_inv s \<Longrightarrow> queue_inv (AddNewDevices now ids s)"
  unfolding AddNewDevices_def
  by (rule foldl_inv [where I = queue_inv])
    (auto simp: add_new_device_def add_new_mark_def add_new_enqueue_def
      intro: queue_inv_enqueue [simplified])

lemma queue_inv_Add: "queue_inv s \<Longrightarrow> queue_inv (snd (AddDevices ds s))"
  unfolding AddDevices_def
  by (rule queue_inv_addDevices, rule foldl_inv [where I = queue_inv]) simp_all

lemma queue_inv_AddFailed: "queue_inv s \<Longrightarrow> queue_inv (snd (AddFailedDevices ds s))"
proof (induction ds arbitrary: s)
  case Nil
  then show ?case by simp
next
  case (Cons d ds)
  have "queue_inv (snd (addDevices [d] (set_failure i f s)))" for i f
    using Cons.prems by (intro queue_inv_addDevices) (simp add: set_failure_def)
  then have "addDevices [d] (set_failure i f s) = (r, t) \<Longrightarrow> queue_inv t" for i f r t
    by (metis snd_conv)
  with Cons show ?case
    by (auto simp: set_failure_def simp del: addDevices.simps
        split: option.splits failure_record.splits prod.splits)
qed

lemma queue_inv_Remove: "queue_inv s \<Longrightarrow> queue_inv (snd (RemoveDevices ids s))"
  by (induction ids s rule: RemoveDevices.induct) (auto simp: queue_inv_remove)

lemma queue_inv_Fetch: "queue_inv s \<Longrightarrow> queue_inv (snd (FetchDevices now before s))"
  unfolding FetchDevices_def Let_def snd_conv
  by (rule foldl_inv [where I = queue_inv]) (simp_all add: queue_inv_check_out)

lemma queue_inv_exec:
  "queue_inv s \<Longrightarrow> \<exists>t. scheduler_exec x s = Some t \<and> queue_inv t"
  by (cases x) (simp_all add: queue_inv_AddNew queue_inv_Add RequeueDevices_def
      queue_inv_addDevices queue_inv_AddFailed queue_inv_Remove queue_inv_Fetch)

interpretation sched: safe_component "NewScheduler k" scheduler_exec queue_inv for k
  by unfold_locales (auto simp: queue_inv_new queue_inv_exec)

interpretation by_age: strict_weak UNIV older
  by unfold_locales (auto simp: older_def time_before_def)

section \<open>Fetching\<close>

lemma foldl_check_out:
  "sc_failedDevices (foldl check_out s is) = sc_failedDevices s"
  "map_of (sc_devices (foldl check_out s is)) i = (if i \<in> set is then None else map_of (sc_devices s) i)"
  "map_of (sc_managedDevices (foldl check_out s is)) i =
    (if i \<in> set is then Some False else map_of (sc_managedDevices s) i)"
  by (induction "is" arbitrary: s) (auto simp: check_out_def)

lemma mem_stale:
  assumes "queue_inv s"
  shows "i \<in> set (keys (filter (\<lambda>(i, k). due now before k) (sc_devices s))) \<longleftrightarrow>
    (\<exists>k. map_of (sc_devices s) i = Some k \<and> due now before k)"
  using assms by (force simp: queue_inv_def)

lemma ids_of_fetch:
  "dv_ID ` set (fst (FetchDevices now before s)) =
    set (keys (filter (\<lambda>(i, k). due now before k) (sc_devices s)))"
  by (force simp: FetchDevices_def Let_def)

lemma distinct_fetch:
  assumes "queue_inv s"
  shows "distinct (map dv_ID (fst (FetchDevices now before s)))"
proof -
  have "mset (map dv_ID (fst (FetchDevices now before s))) =
      mset (keys (filter (\<lambda>(i, k). due now before k) (sc_devices s)))"
    by (simp add: FetchDevices_def Let_def case_prod_unfold multiset.map_comp comp_def)
  moreover have "distinct (keys (filter (\<lambda>(i, k). due now before k) (sc_devices s)))"
    using assms by (simp add: queue_inv_def distinct_map_filter)
  ultimately show ?thesis by (metis mset_eq_imp_distinct_iff)
qed

lemma length_filter_keys:
  assumes "distinct (keys m)"
  shows "length (filter snd m) = card {i. map_of m i = Some True}"
proof -
  have "{i. map_of m i = Some True} = fst ` set (filter snd m)"
    using assms by (force simp: image_iff)
  moreover have "distinct (keys (filter snd m))" using assms by (rule distinct_map_filter)
  ultimately show ?thesis by (metis distinct_card length_map set_map)
qed

lemma reachable_queue:
  obtains s where "run_ops scheduler_exec ops (NewScheduler k) = Some s" "queue_inv s"
  using sched.run_from_init by blast

lemma mod_word_less: "0 < m \<Longrightarrow> m < 2 ^ 32 \<Longrightarrow> unat (w mod of_nat m :: 32 word) < m"
  by (simp add: unat_mod unat_of_nat)

section \<open>Properties\<close>

text \<open>
  C38. In every sequence of calls the polling queue holds exactly the managed devices that are
  not checked out, each once, and both device counts the scheduler reports agree.
\<close>
theorem queue_matches_managed:
  "case run_ops scheduler_exec ops (NewScheduler k) of
     None \<Rightarrow> False
   | Some s \<Rightarrow>
       distinct (keys (sc_devices s)) \<and>
       (\<forall>i. has_key (sc_devices s) i \<longleftrightarrow> map_of (sc_managedDevices s) i = Some True) \<and>
       GetDeviceCount s = GetManagedDeviceCount s"
proof (rule reachable_queue [of ops k])
  fix s
  assume run: "run_ops scheduler_exec ops (NewScheduler k) = Some s" and inv: "queue_inv s"
  have "GetManagedDeviceCount s = card {i. map_of (sc_managedDevices s) i = Some True}"
    using inv by (simp add: GetManagedDeviceCount_def queue_inv_def length_filter_keys)
  also have "{i. map_of (sc_managedDevices s) i = Some True} = set (keys (sc_devices s))"
    using inv has_key_iff [of "sc_devices s"] unfolding queue_inv_def by blast
  also have "card (set (keys (sc_devices s))) = GetDeviceCount s"
    using inv distinct_card [of "keys (sc_devices s)"] by (simp add: GetDeviceCount_def queue_inv_def)
  finally show ?thesis using run inv by (simp add: queue_inv_def del: map_of_eq_Some_iff)
qed

text \<open>
  \<open>FetchDevices\<close> returns exactly the due devices, oldest first and each once; it takes them
  out of the queue and marks them checked out, so that they are not returned again, and leaves
  every other device alone.
\<close>
theorem fetch_checks_out_due_devices:
  "case run_ops scheduler_exec ops (NewScheduler k) of
     None \<Rightarrow> False
   | Some s \<Rightarrow>
       (case FetchDevices now before s of
          (ds, t) \<Rightarrow>
            sorted (map dv_LastUpdatedAt ds) \<and> distinct (map dv_ID ds) \<and>
            dv_ID ` set ds = {i. \<exists>k. map_of (sc_devices s) i = Some k \<and> due now before k} \<and>
            (\<forall>i. map_of (sc_devices t) i =
               (if i \<in> dv_ID ` set ds then None else map_of (sc_devices s) i)) \<and>
            (\<forall>i. map_of (sc_managedDevices t) i =
               (if i \<in> dv_ID ` set ds then Some False else map_of (sc_managedDevices s) i)))"
proof (rule reachable_queue [of ops k])
  fix s
  assume run: "run_ops scheduler_exec ops (NewScheduler k) = Some s" and inv: "queue_inv s"
  have "sorted (map dv_LastUpdatedAt (fst (FetchDevices now before s)))"
    using by_age.sorted_stable_sort
    by (simp add: FetchDevices_def Let_def sorted_map older_def time_before_def not_less)
  then show ?thesis
    using run distinct_fetch [OF inv, of now before] ids_of_fetch [of now before s]
      mem_stale [OF inv, of _ now before]
    by (auto simp: FetchDevices_def Let_def foldl_check_out)
qed

text \<open>
  Consecutive failures of a checked-out device: each one before the limit puts the device
  back into the queue with its count one higher; the one that reaches the limit parks it (not
  queued, marked failed since its last update); a success in between starts the count again.
\<close>
theorem failures_are_counted:
  assumes "map_of (sc_managedDevices s) (dv_ID d) = Some False"
    and "(case map_of (sc_failedDevices s) (dv_ID d) of None \<Rightarrow> FailureCount 0 | Some f \<Rightarrow> f) = FailureCount k"
  shows "case AddFailedDevices [d] s of (r, t) \<Rightarrow> r = None \<and>
    (if k + 1 < sc_MaxConsecutiveFailures s
     then map_of (sc_failedDevices t) (dv_ID d) = Some (FailureCount (k + 1)) \<and>
          map_of (sc_managedDevices t) (dv_ID d) = Some True \<and>
          map_of (sc_devices t) (dv_ID d) =
            Some \<lparr>sd_lastUpdated = dv_LastUpdatedAt d, sd_notBefore = 0\<rparr>
     else IsFailedDevice (dv_ID d) t = (True, dv_LastUpdatedAt d) \<and>
          sc_devices t = sc_devices s \<and> sc_managedDevices t = sc_managedDevices s) \<and>
    map_of (sc_failedDevices (snd (AddDevices [d] t))) (dv_ID d) = None"
  using assms
  by (auto simp: set_failure_def IsFailedDevice_def AddDevices_def split: bool.splits)

theorem failures_are_counted_witness:
  "case AddFailedDevices [\<lparr>dv_ID = ''a'', dv_LastUpdatedAt = 4\<rparr>]
      \<lparr>sc_devices = [], sc_failedDevices = [(''a'', FailureCount 1)],
       sc_managedDevices = [(''a'', False)], sc_MaxConsecutiveFailures = 2\<rparr> of
     (r, t) \<Rightarrow> r = None \<and> IsFailedDevice ''a'' t = (True, 4)"
  using failures_are_counted [of "\<lparr>sc_devices = [], sc_failedDevices = [(''a'', FailureCount 1)],
       sc_managedDevices = [(''a'', False)], sc_MaxConsecutiveFailures = 2\<rparr>"
      "\<lparr>dv_ID = ''a'', dv_LastUpdatedAt = 4\<rparr>" 1]
  by simp

text \<open>
  The start-up ramp: the first poll of a device is delayed by a whole number of
  milliseconds below the spread of fifteen seconds.
\<close>
theorem initial_offset_in_spread:
  "0 \<le> initialPollOffset i \<and> initialPollOffset i < initialDevicePollSpread \<and>
   initialPollOffset i mod millisecond = 0"
proof -
  have "initialDevicePollSpread div millisecond = 15000"
    by (simp add: initialDevicePollSpread_def second_def millisecond_def)
  then have "unat (fnv32a i mod of_int (initialDevicePollSpread div millisecond)) < 15000"
    using mod_word_less [of 15000 "fnv32a i"] by simp
  then have "int (unat (fnv32a i mod of_int (initialDevicePollSpread div millisecond))) < int 15000"
    by (simp only: of_nat_less_iff)
  then show ?thesis
    by (simp add: initialPollOffset_def initialDevicePollSpread_def second_def millisecond_def)
qed

text \<open>
  A failure record outlives removal: a device that was parked, removed and added again as
  new is dropped from polling by its first failure, whatever the limit, because its old record
  is still there.
\<close>
theorem failure_record_survives_removal:
  assumes "IsFailedDevice i s = (True, t)" "has_key (sc_managedDevices s) i"
  shows "let u = AddNewDevices now [i] (snd (RemoveDevices [i] s));
             v = check_out u i
         in map_of (sc_devices u) i \<noteq> None \<and>
            AddFailedDevices [\<lparr>dv_ID = i, dv_LastUpdatedAt = l\<rparr>] v = (None, v) \<and>
            map_of (sc_devices v) i = None"
  using assms
  by (auto simp: IsFailedDevice_def AddNewDevices_def add_new_device_def add_new_mark_def
      add_new_enqueue_def check_out_def split: option.splits failure_record.splits)

theorem failure_record_survives_removal_witness:
  "let s = \<lparr>sc_devices = [], sc_failedDevices = [(''a'', FailedAt 4)],
       sc_managedDevices = [(''a'', False)], sc_MaxConsecutiveFailures = 20\<rparr>;
       v = check_out (AddNewDevices 9 [''a''] (snd (RemoveDevices [''a''] s))) ''a''
   in AddFailedDevices [\<lparr>dv_ID = ''a'', dv_LastUpdatedAt = 0\<rparr>] v = (None, v) \<and>
      map_of (sc_devices v) ''a'' = None"
  using failure_record_survives_removal [of "''a''" "\<lparr>sc_devices = [],
       sc_failedDevices = [(''a'', FailedAt 4)], sc_managedDevices = [(''a'', False)],
       sc_MaxConsecutiveFailures = 20\<rparr>" 4 9 0]
  by (simp add: IsFailedDevice_def Let_def del: AddFailedDevices.simps RemoveDevices.simps)

text \<open>
  Removing a device between the two steps of adding it leaves it in the queue although it is
  not managed, and the next fetch makes it managed again: the two tables agree only when
  \<open>AddNewDevices\<close> and \<open>RemoveDevices\<close> for one device do not overlap.
\<close>
theorem removal_during_add_is_undone:
  "let s = NewScheduler k;
       u = add_new_enqueue False now i (snd (RemoveDevices [i] (snd (add_new_mark i s))))
   in map_of (sc_managedDevices u) i = None \<and> map_of (sc_devices u) i \<noteq> None \<and>
      map_of (sc_managedDevices (snd (FetchDevices (abs now) 1 u))) i = Some False"
  by (simp add: NewScheduler_def add_new_mark_def add_new_enqueue_def FetchDevices_def due_def
      check_out_def gotime_simps Let_def)

end
