(* ===== verification/Password_Attempts.thy ===== *)
theory Password_Attempts
  imports Prelude
begin

text \<open>
  The per-account limiter of password checks
  (\<open>server/internal/domain/auth/password_attempts.go\<close>): ten checks per fixed one-minute window
  and account, at most 10000 accounts with an entry, and a sweep of expired entries that is
  skipped while no entry can have expired. The loop that sweeps the map is a fold over the
  entries.
\<close>

section \<open>The limiter\<close>

definition passwordAttemptWindow :: duration where
  "passwordAttemptWindow = 60 * second"

record window_state =
  ws_started :: gotime
  ws_count :: nat

record password_attempts =
  pa_entries :: "(int \<times> window_state) list"
  pa_nextExpiry :: gotime

definition new_attempts :: password_attempts where
  "new_attempts = \<lparr>pa_entries = [], pa_nextExpiry = 0\<rparr>"

definition expiry :: "window_state \<Rightarrow> gotime" where
  "expiry e = time_add (ws_started e) passwordAttemptWindow"

definition earlier_expiry :: "gotime \<Rightarrow> gotime \<Rightarrow> gotime" where
  "earlier_expiry nextExpiry expires =
     (if time_is_zero nextExpiry \<or> time_before expires nextExpiry then expires else nextExpiry)"

definition sweep_step ::
  "gotime \<Rightarrow> (int \<times> window_state) list \<times> gotime \<Rightarrow> int \<times> window_state \<Rightarrow>
    (int \<times> window_state) list \<times> gotime" where
  "sweep_step now acc ke =
     (case acc of
        (entries, nextExpiry) \<Rightarrow>
          (case ke of
             (k, e) \<Rightarrow>
               if \<not> time_before now (expiry e) then (AList.delete k entries, nextExpiry)
               else (entries, earlier_expiry nextExpiry (expiry e))))"

definition sweep :: "gotime \<Rightarrow> password_attempts \<Rightarrow> password_attempts" where
  "sweep now l =
     (case foldl (sweep_step now) (pa_entries l, 0) (pa_entries l) of
        (entries, nextExpiry) \<Rightarrow> \<lparr>pa_entries = entries, pa_nextExpiry = nextExpiry\<rparr>)"

definition start_window :: "int \<Rightarrow> gotime \<Rightarrow> password_attempts \<Rightarrow> password_attempts" where
  "start_window userID now l =
     \<lparr>pa_entries = AList.update userID \<lparr>ws_started = now, ws_count = 1\<rparr> (pa_entries l),
      pa_nextExpiry = earlier_expiry (pa_nextExpiry l) (time_add now passwordAttemptWindow)\<rparr>"

definition live_entry :: "password_attempts \<Rightarrow> int \<Rightarrow> gotime \<Rightarrow> window_state option" where
  "live_entry l userID now =
     (case map_of (pa_entries l) userID of
        None \<Rightarrow> None
      | Some e \<Rightarrow> if time_before now (expiry e) then Some e else None)"

definition allow :: "int \<Rightarrow> gotime \<Rightarrow> password_attempts \<Rightarrow> bool \<times> password_attempts" where
  "allow userID now l =
     (case live_entry l userID now of
        Some e \<Rightarrow>
          if 10 \<le> ws_count e then (False, l)
          else (True, l\<lparr>pa_entries :=
                  AList.update userID (e\<lparr>ws_count := ws_count e + 1\<rparr>) (pa_entries l)\<rparr>)
      | None \<Rightarrow>
          if \<not> has_key (pa_entries l) userID \<and> 10000 \<le> length (pa_entries l) then
            if time_before now (pa_nextExpiry l) then (False, l)
            else
              let l' = sweep now l in
              if 10000 \<le> length (pa_entries l') then (False, l')
              else (True, start_window userID now l')
          else (True, start_window userID now l))"

definition check :: "int \<Rightarrow> gotime \<Rightarrow> password_attempts \<Rightarrow> fleet_error option \<times> password_attempts" where
  "check userID now l =
     (case allow userID now l of
        (ok, l') \<Rightarrow>
          (if ok then None
           else Some (FleetError CodeResourceExhausted
                  ''Too many password attempts. Try again in one minute.''), l'))"

section \<open>The sweep\<close>

abbreviation alive :: "gotime \<Rightarrow> int \<times> window_state \<Rightarrow> bool" where
  "alive now ke \<equiv> now < expiry (snd ke)"

text \<open>A lower bound of the expiries of \<open>es\<close>; zero when there is none.\<close>

definition lower_expiry :: "gotime \<Rightarrow> (int \<times> window_state) list \<Rightarrow> bool" where
  "lower_expiry t es \<longleftrightarrow> (if es = [] then t = 0 else t \<noteq> 0 \<and> (\<forall>ke \<in> set es. t \<le> expiry (snd ke)))"

lemma lower_expiry_snoc:
  assumes "lower_expiry t es" "expiry (snd ke) \<noteq> 0"
  shows "lower_expiry (earlier_expiry t (expiry (snd ke))) (es @ [ke])"
  using assms
  by (cases "es = []") (fastforce simp: lower_expiry_def earlier_expiry_def gotime_simps)+

lemma sweep_fold:
  assumes "distinct (keys (pre @ es))" "\<forall>ke \<in> set es. expiry (snd ke) \<noteq> 0"
    and "lower_expiry t (filter (alive now) pre)"
  shows "\<exists>t'. foldl (sweep_step now) (filter (alive now) pre @ es, t) es =
      (filter (alive now) (pre @ es), t') \<and> lower_expiry t' (filter (alive now) (pre @ es))"
  using assms
proof (induction es arbitrary: pre t)
  case Nil
  then show ?case by simp
next
  case (Cons ke es)
  obtain k e where ke: "ke = (k, e)" by (cases ke)
  show ?case
  proof (cases "now < expiry e")
    case True
    let ?t = "earlier_expiry t (expiry e)"
    have "lower_expiry ?t (filter (alive now) (pre @ [ke]))"
      using lower_expiry_snoc [OF Cons.prems(3), of ke] Cons.prems(2) True ke by simp
    from Cons.IH [OF _ _ this] Cons.prems True ke show ?thesis
      by (simp add: sweep_step_def time_before_def)
  next
    case False
    have "AList.delete k (filter (alive now) pre @ ke # es) = filter (alive now) pre @ es"
      using Cons.prems(1) ke delete_fresh [of k es] delete_fresh [of k "filter (alive now) pre"]
      by (auto simp: delete_append intro!: delete_fresh)
    with Cons.IH [of "pre @ [ke]" t] Cons.prems False ke show ?thesis
      by (simp add: sweep_step_def time_before_def)
  qed
qed

lemma sweep_eq:
  assumes "distinct (keys (pa_entries l))" "\<forall>ke \<in> set (pa_entries l). expiry (snd ke) \<noteq> 0"
  shows "pa_entries (sweep now l) = filter (alive now) (pa_entries l)"
    "lower_expiry (pa_nextExpiry (sweep now l)) (pa_entries (sweep now l))"
  using sweep_fold [of "[]" "pa_entries l" 0 now] assms
  by (auto simp: sweep_def lower_expiry_def split: prod.splits)

section \<open>The invariant\<close>

text \<open>
  At most one entry per account and 10000 in all, counts between 1 and 10, windows started
  after the zero time, and \<open>nextExpiry\<close> no later than any entry's expiry.
\<close>

definition window_ok :: "gotime \<Rightarrow> window_state \<Rightarrow> bool" where
  "window_ok nextExpiry e \<longleftrightarrow> 0 < ws_started e \<and> 1 \<le> ws_count e \<and> ws_count e \<le> 10 \<and>
     nextExpiry \<le> expiry e \<and> nextExpiry \<noteq> 0"

definition attempts_inv :: "password_attempts \<Rightarrow> bool" where
  "attempts_inv l \<longleftrightarrow>
     distinct (keys (pa_entries l)) \<and> length (pa_entries l) \<le> 10000 \<and>
     (\<forall>ke \<in> set (pa_entries l). window_ok (pa_nextExpiry l) (snd ke))"

lemma window_pos: "0 < passwordAttemptWindow"
  by (simp add: passwordAttemptWindow_def second_def)

lemma attempts_inv_new: "attempts_inv new_attempts"
  by (simp add: attempts_inv_def new_attempts_def)

lemma window_ok_expiry: "window_ok t e \<Longrightarrow> 0 < expiry e"
  using window_pos by (simp add: window_ok_def expiry_def time_add_def)

lemma window_ok_mono: "window_ok t e \<Longrightarrow> t' \<le> expiry e \<Longrightarrow> t' \<noteq> 0 \<Longrightarrow> window_ok t' e"
  by (simp add: window_ok_def)

lemma sweep_inv:
  assumes "attempts_inv l"
  shows "pa_entries (sweep now l) = filter (alive now) (pa_entries l)" "attempts_inv (sweep now l)"
proof -
  have d: "distinct (keys (pa_entries l))" and len: "length (pa_entries l) \<le> 10000"
    and ok: "\<forall>ke \<in> set (pa_entries l). window_ok (pa_nextExpiry l) (snd ke)"
    using assms by (simp_all add: attempts_inv_def)
  have nz: "\<forall>ke \<in> set (pa_entries l). expiry (snd ke) \<noteq> 0"
    using ok window_ok_expiry by fastforce
  note eq = sweep_eq [OF d nz, of now]
  show entries: "pa_entries (sweep now l) = filter (alive now) (pa_entries l)" by (rule eq(1))
  have "window_ok (pa_nextExpiry (sweep now l)) (snd ke)" if "ke \<in> set (pa_entries (sweep now l))" for ke
  proof -
    have "pa_nextExpiry (sweep now l) \<le> expiry (snd ke)" "pa_nextExpiry (sweep now l) \<noteq> 0"
      using eq(2) that by (auto simp: lower_expiry_def split: if_splits)
    moreover have "window_ok (pa_nextExpiry l) (snd ke)" using ok that entries by auto
    ultimately show ?thesis by (rule window_ok_mono [rotated])
  qed
  moreover have "length (filter (alive now) (pa_entries l)) \<le> 10000"
    using len length_filter_le le_trans by blast
  ultimately show "attempts_inv (sweep now l)"
    using d by (simp add: attempts_inv_def entries distinct_map_filter)
qed

lemma start_window_inv:
  assumes inv: "attempts_inv l" and now: "0 < now"
    and room: "has_key (pa_entries l) u \<or> length (pa_entries l) < 10000"
  shows "attempts_inv (start_window u now l)"
proof -
  let ?e = "\<lparr>ws_started = now, ws_count = 1\<rparr>"
  let ?t = "earlier_expiry (pa_nextExpiry l) (time_add now passwordAttemptWindow)"
  have "length (AList.update u ?e (pa_entries l)) \<le> 10000"
    using inv room has_key_iff [of "pa_entries l" u]
    by (simp add: length_update attempts_inv_def split: if_splits) linarith
  moreover have "window_ok ?t (snd ke)" if mem: "ke \<in> set (AList.update u ?e (pa_entries l))" for ke
  proof -
    consider "ke = (u, ?e)" | "ke \<in> set (pa_entries l)"
      using subsetD [OF set_update_subset mem] by blast
    then show ?thesis
    proof cases
      case 1
      then show ?thesis
        using now window_pos
        by (simp add: window_ok_def expiry_def earlier_expiry_def time_add_def time_before_def
            time_is_zero_def)
    next
      case 2
      then have "window_ok (pa_nextExpiry l) (snd ke)" using inv by (simp add: attempts_inv_def)
      then show ?thesis
        using now window_pos
        by (simp add: window_ok_def earlier_expiry_def time_add_def time_before_def
            time_is_zero_def)
    qed
  qed
  ultimately show ?thesis
    using inv by (simp add: attempts_inv_def start_window_def)
qed

text \<open>The sweep is skipped only while every entry is live.\<close>

lemma before_next_all_alive:
  assumes "attempts_inv l" "now < pa_nextExpiry l"
  shows "filter (alive now) (pa_entries l) = pa_entries l"
  using assms by (fastforce simp: attempts_inv_def window_ok_def filter_id_conv)

lemma count_inv:
  assumes inv: "attempts_inv l" and e: "live_entry l u now = Some e" "ws_count e < 10"
  shows "attempts_inv (l\<lparr>pa_entries := AList.update u (e\<lparr>ws_count := ws_count e + 1\<rparr>) (pa_entries l)\<rparr>)"
proof -
  have m: "map_of (pa_entries l) u = Some e"
    using e(1) by (auto simp: live_entry_def split: option.splits if_splits)
  then have ok: "window_ok (pa_nextExpiry l) e"
    using inv by (fastforce simp: attempts_inv_def dest: map_of_SomeD)
  have key: "u \<in> set (keys (pa_entries l))"
    using m has_key_iff [of "pa_entries l" u] by simp
  have "window_ok (pa_nextExpiry l) (snd ke)"
    if mem: "ke \<in> set (AList.update u (e\<lparr>ws_count := ws_count e + 1\<rparr>) (pa_entries l))" for ke
  proof -
    consider "ke = (u, e\<lparr>ws_count := ws_count e + 1\<rparr>)" | "ke \<in> set (pa_entries l)"
      using subsetD [OF set_update_subset mem] by blast
    then show ?thesis
      using ok e(2) inv by cases (auto simp: window_ok_def expiry_def attempts_inv_def)
  qed
  with inv key show ?thesis by (simp add: attempts_inv_def length_update)
qed

text \<open>What \<open>allow\<close> decides, in terms of live entries only.\<close>

lemma allow_spec:
  assumes inv: "attempts_inv l"
  shows "fst (allow u now l) \<longleftrightarrow>
    (case live_entry l u now of
       Some e \<Rightarrow> ws_count e < 10
     | None \<Rightarrow> has_key (pa_entries l) u \<or>
         length (filter (alive now) (pa_entries l)) < 10000)"
proof (cases "live_entry l u now")
  case (Some e)
  then show ?thesis by (auto simp: allow_def)
next
  case None
  have le: "10000 \<le> length (pa_entries l)" if "10000 \<le> length (filter (alive now) (pa_entries l))"
    using that length_filter_le le_trans by blast
  show ?thesis
    using None le before_next_all_alive [OF inv, of now] sweep_inv(1) [OF inv, of now]
    by (auto simp: allow_def Let_def time_before_def)
qed

lemma allow_inv:
  assumes inv: "attempts_inv l" and now: "0 < now"
  shows "attempts_inv (snd (allow u now l))"
proof (cases "live_entry l u now")
  case (Some e)
  with inv count_inv [OF inv Some] show ?thesis by (auto simp: allow_def)
next
  case None
  show ?thesis
    using None inv start_window_inv [OF inv now, of u]
      start_window_inv [OF sweep_inv(2) [OF inv] now, of now u] sweep_inv(2) [OF inv, of now]
    by (auto simp: allow_def Let_def not_le)
qed

section \<open>Runs\<close>

definition attempts_after :: "(int \<times> gotime) list \<Rightarrow> password_attempts" where
  "attempts_after xs = foldl (\<lambda>l (v, t). snd (allow v t l)) new_attempts xs"

fun granted :: "int \<Rightarrow> (int \<times> gotime) list \<Rightarrow> password_attempts \<Rightarrow> nat" where
  "granted u [] l = 0"
| "granted u ((v, t) # xs) l =
     (if v = u \<and> fst (allow v t l) then 1 else 0) + granted u xs (snd (allow v t l))"

lemma attempts_after_inv: "list_all (\<lambda>(v, t). 0 < t) xs \<Longrightarrow> attempts_inv (attempts_after xs)"
  unfolding attempts_after_def
  by (rule foldl_inv [where I = attempts_inv])
    (auto simp: attempts_inv_new list_all_iff intro: allow_inv)

text \<open>
  Checks an account can still be granted up to \<open>t0\<close> plus one window: what is left of a window
  started after \<open>t0\<close>, or what is left of an older one and a whole new one.
\<close>

definition budget :: "gotime \<Rightarrow> int \<Rightarrow> password_attempts \<Rightarrow> nat" where
  "budget t0 u l =
     (case map_of (pa_entries l) u of
        None \<Rightarrow> 10
      | Some e \<Rightarrow> if t0 \<le> ws_started e then 10 - ws_count e else 20 - ws_count e)"

lemma inv_window: "attempts_inv l \<Longrightarrow> map_of (pa_entries l) u = Some e \<Longrightarrow> window_ok (pa_nextExpiry l) e"
  by (fastforce simp: attempts_inv_def dest: map_of_SomeD)

lemma map_of_filter_alive:
  assumes "distinct (keys es)"
  shows "map_of (filter (alive now) es) u =
    (case map_of es u of None \<Rightarrow> None | Some e \<Rightarrow> if now < expiry e then Some e else None)"
  using assms
proof (induction es)
  case Nil
  then show ?case by simp
next
  case (Cons ke es)
  then show ?case
    by (cases ke) (auto simp: map_of_eq_None_iff split: option.splits)
qed

lemma budget_start: "t0 \<le> now \<Longrightarrow> budget t0 u (start_window u now l) = 9"
  "v \<noteq> u \<Longrightarrow> budget t0 u (start_window v now l) = budget t0 u l"
  by (simp_all add: budget_def start_window_def)

lemma budget_sweep:
  assumes "attempts_inv l" "now < t0 + passwordAttemptWindow"
  shows "budget t0 u (sweep now l) \<le> budget t0 u l"
proof -
  have "map_of (pa_entries (sweep now l)) u =
      (case map_of (pa_entries l) u of
         None \<Rightarrow> None | Some e \<Rightarrow> if now < expiry e then Some e else None)"
    using assms(1) map_of_filter_alive [of "pa_entries l" now u]
    by (simp add: sweep_inv(1) attempts_inv_def)
  then show ?thesis
    using inv_window [OF assms(1), of u] assms(2)
    by (auto simp: budget_def window_ok_def expiry_def time_add_def split: option.splits)
qed

lemma budget_expired:
  assumes "attempts_inv l" "live_entry l u now = None" "now < t0 + passwordAttemptWindow"
  shows "10 \<le> budget t0 u l"
  using assms inv_window [OF assms(1), of u]
  by (auto simp: budget_def live_entry_def window_ok_def expiry_def gotime_simps
      split: option.splits if_splits)

lemma budget_step:
  assumes inv: "attempts_inv l" and now: "t0 \<le> now" "now < t0 + passwordAttemptWindow"
  shows "(if v = u \<and> fst (allow v now l) then 1 else 0) + budget t0 u (snd (allow v now l))
    \<le> budget t0 u l"
proof (cases "live_entry l v now")
  case (Some e)
  then have "map_of (pa_entries l) v = Some e"
    by (auto simp: live_entry_def split: option.splits if_splits)
  then show ?thesis
    using Some inv_window [OF inv, of v e]
    by (auto simp: allow_def budget_def window_ok_def split: option.splits)
next
  case None
  have sw: "budget t0 u (sweep now l) \<le> budget t0 u l"
    using budget_sweep [OF inv now(2)] .
  show ?thesis
  proof (cases "v = u")
    case True
    with None sw budget_expired [OF inv, of u now t0] now show ?thesis
      by (auto simp: allow_def Let_def budget_start)
  next
    case False
    with None sw show ?thesis by (auto simp: allow_def Let_def budget_start)
  qed
qed

lemma granted_budget:
  assumes "attempts_inv l" "0 < t0" "list_all (\<lambda>(v, t). t0 \<le> t \<and> t < t0 + passwordAttemptWindow) xs"
  shows "granted u xs l \<le> budget t0 u l"
  using assms
proof (induction xs arbitrary: l)
  case Nil
  then show ?case by simp
next
  case (Cons x xs)
  obtain v t where x: "x = (v, t)" by (cases x)
  have "granted u xs (snd (allow v t l)) \<le> budget t0 u (snd (allow v t l))"
    using Cons x by (intro Cons.IH) (auto intro: allow_inv)
  with budget_step [OF Cons.prems(1), of t0 t v u] Cons.prems(3) x show ?case by simp
qed

section \<open>Properties\<close>

text \<open>
  In any minute an account gets at most twenty password checks, whatever the other accounts
  do and whatever happened before: the checks left in a window that is already running, and one
  new window of ten. An account without an entry gets at most ten.
\<close>
theorem one_minute_budget:
  assumes "list_all (\<lambda>(v, t). 0 < t) before" "0 < t0"
    and "list_all (\<lambda>(v, t). t0 \<le> t \<and> t < t0 + passwordAttemptWindow) xs"
  shows "granted u xs (attempts_after before) \<le>
    (if has_key (pa_entries (attempts_after before)) u then 20 else 10)"
  using granted_budget [OF attempts_after_inv [OF assms(1)] assms(2,3), of u]
  by (auto simp: budget_def split: option.splits if_splits)

theorem one_minute_budget_witness:
  "granted 1 (replicate 12 (1, 5)) (attempts_after [(2, 3)]) \<le> 10"
  using one_minute_budget [of "[(2, 3)]" 5 "replicate 12 (1, 5)" 1]
  by (simp add: attempts_after_def new_attempts_def allow_def live_entry_def start_window_def
      passwordAttemptWindow_def second_def list_all_length)

text \<open>
  A check is granted exactly when the account's running window has checks left, or it has
  no running window and either has an old entry or fewer than 10000 accounts have a running
  window; skipping the sweep never refuses an account that a sweep would let in.
\<close>
theorem allow_decides_by_running_windows:
  assumes "list_all (\<lambda>(v, t). 0 < t) before"
  shows "fst (allow u now (attempts_after before)) \<longleftrightarrow>
    (case live_entry (attempts_after before) u now of
       Some e \<Rightarrow> ws_count e < 10
     | None \<Rightarrow> has_key (pa_entries (attempts_after before)) u \<or>
         length (filter (\<lambda>(v, e). time_before now (expiry e))
           (pa_entries (attempts_after before))) < 10000)"
  using allow_spec [OF attempts_after_inv [OF assms], of u now]
  by (simp add: time_before_def case_prod_unfold split: option.splits)

theorem allow_decides_by_running_windows_witness:
  "fst (allow 1 4 (attempts_after [(1, 3)]))"
  by (subst allow_decides_by_running_windows)
    (simp_all add: attempts_after_def new_attempts_def allow_def live_entry_def start_window_def
      expiry_def time_add_def time_before_def passwordAttemptWindow_def second_def)

end
