(* ===== verification/Ha_Lease.thy ===== *)
theory Ha_Lease
  imports Prelude
begin

text \<open>
  The lease that makes one Fleet process of an active-passive deployment the owner: the types of
  \<open>server/internal/ha/types.go\<close>, the three statements on the one-row table
  \<open>fleet_runtime_lease\<close> (\<open>server/generated/sqlc/ha.sql.go\<close>), and the \<open>LeaseStore\<close> over them
  (\<open>server/internal/ha/store.go\<close>).

  A statement reads the identity of the connected server and captures the database clock once;
  it then sees and updates the row. The clock it captured is an argument, since a statement that
  waits for the row lock works with a time that has passed. The columns \<open>highest_writer_generation\<close>
  and \<open>lease_epoch\<close> are \<open>BIGINT\<close>: advancing the largest epoch is an error of the database.

  The locale \<open>lease_table\<close> is what the coordinators rely on: no statement disturbs a live term of
  the same writer generation, generations never go back, and only the exact owner renews.
\<close>

section \<open>Types\<close>

type_synonym uuid = nat

abbreviation (input) uuid_Nil :: uuid where
  "uuid_Nil \<equiv> 0"

record token =
  tk_WriterGeneration :: int
  tk_LeaseEpoch :: int

record writer_observation =
  wo_DCSClusterID :: string
  wo_WriterGeneration :: int
  wo_LeaderName :: string
  wo_ServerAddress :: string
  wo_ServerPort :: int
  wo_Timeline :: int
  wo_DCSProofDeadline :: gotime

record ownership =
  ow_DCSClusterID :: string
  ow_Token :: token
  ow_HolderID :: uuid
  ow_DatabaseTime :: gotime
  ow_ExpiresAt :: gotime

definition zero_ownership :: ownership where
  "zero_ownership = \<lparr>ow_DCSClusterID = '''', ow_Token = \<lparr>tk_WriterGeneration = 0, tk_LeaseEpoch = 0\<rparr>,
     ow_HolderID = uuid_Nil, ow_DatabaseTime = 0, ow_ExpiresAt = 0\<rparr>"

text \<open>Errors up to wrapping, as \<open>errors.Is\<close> sees them.\<close>

datatype ha_error =
    ErrLeaseUnavailable
  | ErrOwnershipLost
  | ErrOwnershipExpired
  | ErrDCSClusterIdentityMismatch
  | ErrLeaderLeaseExpired
  | ErrTimelineMismatch
  | ErrWritableServerMismatch
  | ErrWriterChanged
  | ErrContext
  | HaError string

abbreviation ow_gen :: "ownership \<Rightarrow> int" where
  "ow_gen own \<equiv> tk_WriterGeneration (ow_Token own)"

abbreviation ow_epoch :: "ownership \<Rightarrow> int" where
  "ow_epoch own \<equiv> tk_LeaseEpoch (ow_Token own)"

section \<open>The lease table and its statements\<close>

record pg_identity =
  pg_server_address :: string
  pg_server_port :: int
  pg_in_recovery :: bool
  pg_timeline :: int

record lease_row =
  lr_dcs_cluster_id :: string
  lr_highest_writer_generation :: int
  lr_lease_epoch :: int
  lr_holder_id :: uuid
  lr_expires_at :: gotime

record writer_params =
  wp_ServerAddress :: string
  wp_ServerPort :: int
  wp_Timeline :: int
  wp_DcsClusterID :: string
  wp_WriterGeneration :: int
  wp_HolderID :: uuid

record acquire_params = writer_params +
  ap_LeaseDurationMilliseconds :: int

record renew_params = writer_params +
  rp_LeaseDurationMilliseconds :: int
  rp_LeaseEpoch :: int

text \<open>What a one-row query returns: an error, \<open>sql.ErrNoRows\<close>, or a row.\<close>

datatype 'a query_result = DbError ha_error | NoRows | Row 'a

definition max_bigint :: int where
  "max_bigint = 2 ^ 63 - 1"

definition writer_matches :: "pg_identity \<Rightarrow> 'a writer_params_scheme \<Rightarrow> bool" where
  "writer_matches pg p \<longleftrightarrow> \<not> pg_in_recovery pg \<and> pg_server_address pg = wp_ServerAddress p \<and>
     pg_server_port pg = wp_ServerPort p \<and> pg_timeline pg = wp_Timeline p"

definition excluded_row :: "gotime \<Rightarrow> acquire_params \<Rightarrow> lease_row" where
  "excluded_row dbt p = \<lparr>lr_dcs_cluster_id = wp_DcsClusterID p,
     lr_highest_writer_generation = wp_WriterGeneration p, lr_lease_epoch = 1,
     lr_holder_id = wp_HolderID p,
     lr_expires_at = dbt + ap_LeaseDurationMilliseconds p * millisecond\<rparr>"

definition live_retry :: "gotime \<Rightarrow> acquire_params \<Rightarrow> lease_row \<Rightarrow> bool" where
  "live_retry dbt p r \<longleftrightarrow> lr_holder_id r = wp_HolderID p \<and>
     lr_highest_writer_generation r = wp_WriterGeneration p \<and> dbt < lr_expires_at r"

definition may_take :: "gotime \<Rightarrow> acquire_params \<Rightarrow> lease_row \<Rightarrow> bool" where
  "may_take dbt p r \<longleftrightarrow> lr_dcs_cluster_id r = wp_DcsClusterID p \<and>
     lr_highest_writer_generation r \<le> wp_WriterGeneration p \<and>
     (lr_highest_writer_generation r < wp_WriterGeneration p \<or> lr_holder_id r = wp_HolderID p \<or>
      lr_expires_at r \<le> dbt)"

definition AcquireFleetRuntimeLease ::
  "pg_identity \<Rightarrow> gotime \<Rightarrow> acquire_params \<Rightarrow> lease_row option \<Rightarrow>
    (lease_row \<times> gotime) query_result \<times> lease_row option" where
  "AcquireFleetRuntimeLease pg dbt p row =
     (if \<not> writer_matches pg p then (NoRows, row)
      else case row of
        None \<Rightarrow> (Row (excluded_row dbt p, dbt), Some (excluded_row dbt p))
      | Some r \<Rightarrow>
          if \<not> may_take dbt p r then (NoRows, row)
          else if live_retry dbt p r then
            let r' = r\<lparr>lr_highest_writer_generation := wp_WriterGeneration p,
                       lr_holder_id := wp_HolderID p\<rparr>
            in (Row (r', dbt), Some r')
          else if lr_lease_epoch r + 1 > max_bigint then
            (DbError (HaError ''bigint out of range''), row)
          else
            let r' = r\<lparr>lr_highest_writer_generation := wp_WriterGeneration p,
                       lr_lease_epoch := lr_lease_epoch r + 1,
                       lr_holder_id := wp_HolderID p,
                       lr_expires_at := lr_expires_at (excluded_row dbt p)\<rparr>
            in (Row (r', dbt), Some r'))"

definition ClassifyFleetRuntimeLeaseAcquisition ::
  "pg_identity \<Rightarrow> gotime \<Rightarrow> 'a writer_params_scheme \<Rightarrow> lease_row option \<Rightarrow> string" where
  "ClassifyFleetRuntimeLeaseAcquisition pg dbt p row =
     (if \<not> writer_matches pg p then ''writer_mismatch''
      else case row of
        None \<Rightarrow> ''unavailable''
      | Some r \<Rightarrow>
          if lr_dcs_cluster_id r \<noteq> wp_DcsClusterID p then ''cluster_mismatch''
          else if lr_highest_writer_generation r \<noteq> wp_WriterGeneration p then ''writer_changed''
          else if lr_holder_id r \<noteq> wp_HolderID p \<and> dbt < lr_expires_at r then ''contended''
          else ''unavailable'')"

definition renewable :: "gotime \<Rightarrow> renew_params \<Rightarrow> lease_row \<Rightarrow> bool" where
  "renewable dbt p r \<longleftrightarrow> lr_dcs_cluster_id r = wp_DcsClusterID p \<and>
     lr_highest_writer_generation r = wp_WriterGeneration p \<and>
     lr_lease_epoch r = rp_LeaseEpoch p \<and> lr_holder_id r = wp_HolderID p \<and> dbt < lr_expires_at r"

definition RenewFleetRuntimeLease ::
  "pg_identity \<Rightarrow> gotime \<Rightarrow> renew_params \<Rightarrow> lease_row option \<Rightarrow>
    (lease_row \<times> gotime) query_result \<times> lease_row option" where
  "RenewFleetRuntimeLease pg dbt p row =
     (if \<not> writer_matches pg p then (NoRows, row)
      else case row of
        None \<Rightarrow> (NoRows, row)
      | Some r \<Rightarrow>
          if renewable dbt p r then
            let r' = r\<lparr>lr_expires_at := dbt + rp_LeaseDurationMilliseconds p * millisecond\<rparr>
            in (Row (r', dbt), Some r')
          else (NoRows, row))"

section \<open>The store\<close>

text \<open>The method \<open>Milliseconds\<close> truncates toward zero.\<close>

definition duration_Milliseconds :: "duration \<Rightarrow> int" where
  "duration_Milliseconds d = (if d < 0 then - ((- d) div millisecond) else d div millisecond)"

definition validateWriterObservation :: "writer_observation \<Rightarrow> ha_error option" where
  "validateWriterObservation w =
     (if wo_DCSClusterID w = '''' \<or> wo_WriterGeneration w \<le> 0 \<or> wo_ServerAddress w = '''' \<or>
         wo_ServerPort w \<le> 0 \<or> wo_Timeline w \<le> 0
      then Some (HaError ''invalid writer observation'') else None)"

definition validateLeaseInput ::
  "writer_observation \<Rightarrow> uuid \<Rightarrow> duration \<Rightarrow> ha_error option" where
  "validateLeaseInput w holderID dur =
     (case validateWriterObservation w of
        Some e \<Rightarrow> Some e
      | None \<Rightarrow>
          if holderID = uuid_Nil then Some (HaError ''holder ID is required'')
          else if duration_Milliseconds dur \<le> 0 then
            Some (HaError ''duration must be at least one millisecond'')
          else None)"

definition ownershipFromAcquire :: "lease_row \<times> gotime \<Rightarrow> ownership" where
  "ownershipFromAcquire x = (case x of (r, dbt) \<Rightarrow>
     \<lparr>ow_DCSClusterID = lr_dcs_cluster_id r,
      ow_Token = \<lparr>tk_WriterGeneration = lr_highest_writer_generation r,
                  tk_LeaseEpoch = lr_lease_epoch r\<rparr>,
      ow_HolderID = lr_holder_id r, ow_DatabaseTime = dbt, ow_ExpiresAt = lr_expires_at r\<rparr>)"

definition leaseAcquisitionError :: "string \<Rightarrow> ha_error" where
  "leaseAcquisitionError result =
     (if result = ''contended'' then ErrLeaseUnavailable
      else if result = ''cluster_mismatch'' then ErrDCSClusterIdentityMismatch
      else if result \<in> {''writer_mismatch'', ''writer_changed'', ''unavailable''} then ErrWriterChanged
      else HaError ''unknown acquisition result'')"

definition acquire_request :: "writer_observation \<Rightarrow> uuid \<Rightarrow> duration \<Rightarrow> acquire_params" where
  "acquire_request w holderID dur =
     \<lparr>wp_ServerAddress = wo_ServerAddress w, wp_ServerPort = wo_ServerPort w,
      wp_Timeline = wo_Timeline w, wp_DcsClusterID = wo_DCSClusterID w,
      wp_WriterGeneration = wo_WriterGeneration w, wp_HolderID = holderID,
      ap_LeaseDurationMilliseconds = duration_Milliseconds dur\<rparr>"

definition renew_request :: "writer_observation \<Rightarrow> ownership \<Rightarrow> duration \<Rightarrow> renew_params" where
  "renew_request w own dur =
     \<lparr>wp_ServerAddress = wo_ServerAddress w, wp_ServerPort = wo_ServerPort w,
      wp_Timeline = wo_Timeline w, wp_DcsClusterID = ow_DCSClusterID own,
      wp_WriterGeneration = ow_gen own, wp_HolderID = ow_HolderID own,
      rp_LeaseDurationMilliseconds = duration_Milliseconds dur, rp_LeaseEpoch = ow_epoch own\<rparr>"

text \<open>
  \<open>Acquire\<close> after its validation: the answer of the statement, and of the classification that
  follows when it found no row. The two statements read the server identity and the clock
  separately, and the row may have changed in between.
\<close>

definition acquire_result ::
  "(lease_row \<times> gotime) query_result \<Rightarrow> (ha_error + string) \<Rightarrow> ha_error + ownership" where
  "acquire_result res classified =
     (case res of
        NoRows \<Rightarrow>
          (case classified of Inl e \<Rightarrow> Inl e | Inr c \<Rightarrow> Inl (leaseAcquisitionError c))
      | DbError e \<Rightarrow> Inl e
      | Row x \<Rightarrow> Inr (ownershipFromAcquire x))"

definition Acquire ::
  "pg_identity \<Rightarrow> gotime \<Rightarrow> pg_identity \<Rightarrow> gotime \<Rightarrow> writer_observation \<Rightarrow> uuid \<Rightarrow> duration \<Rightarrow>
    lease_row option \<Rightarrow> (ha_error + ownership) \<times> lease_row option" where
  "Acquire pg dbt pg2 dbt2 w holderID dur row =
     (case validateLeaseInput w holderID dur of
        Some e \<Rightarrow> (Inl e, row)
      | None \<Rightarrow>
          let p = acquire_request w holderID dur;
              (res, row') = AcquireFleetRuntimeLease pg dbt p row
          in (acquire_result res (Inr (ClassifyFleetRuntimeLeaseAcquisition pg2 dbt2 p row')), row'))"

definition invalid_renewal :: "writer_observation \<Rightarrow> ownership \<Rightarrow> duration \<Rightarrow> bool" where
  "invalid_renewal w own dur \<longleftrightarrow>
     wo_DCSClusterID w \<noteq> ow_DCSClusterID own \<or> wo_WriterGeneration w \<noteq> ow_gen own \<or>
     ow_DCSClusterID own = '''' \<or> ow_gen own \<le> 0 \<or> ow_epoch own \<le> 0 \<or>
     ow_HolderID own = uuid_Nil \<or> duration_Milliseconds dur \<le> 0"

definition validateRenewal :: "writer_observation \<Rightarrow> ownership \<Rightarrow> duration \<Rightarrow> ha_error option" where
  "validateRenewal w own dur =
     (case validateWriterObservation w of
        Some e \<Rightarrow> Some e
      | None \<Rightarrow> if invalid_renewal w own dur then Some (HaError ''invalid renewal'') else None)"

definition renew_result :: "(lease_row \<times> gotime) query_result \<Rightarrow> ha_error + ownership" where
  "renew_result res =
     (case res of
        NoRows \<Rightarrow> Inl ErrOwnershipLost
      | DbError e \<Rightarrow> Inl e
      | Row x \<Rightarrow> Inr (ownershipFromAcquire x))"

definition Renew ::
  "pg_identity \<Rightarrow> gotime \<Rightarrow> writer_observation \<Rightarrow> ownership \<Rightarrow> duration \<Rightarrow>
    lease_row option \<Rightarrow> (ha_error + ownership) \<times> lease_row option" where
  "Renew pg dbt w own dur row =
     (case validateRenewal w own dur of
        Some e \<Rightarrow> (Inl e, row)
      | None \<Rightarrow>
          let (res, row') = RenewFleetRuntimeLease pg dbt (renew_request w own dur) row
          in (renew_result res, row'))"

section \<open>The contract of the table\<close>

text \<open>Row \<open>r\<close> is a term of the holder, writer generation and epoch of \<open>own\<close>.\<close>

definition same_term :: "lease_row \<Rightarrow> ownership \<Rightarrow> bool" where
  "same_term r own \<longleftrightarrow> lr_holder_id r = ow_HolderID own \<and>
     lr_highest_writer_generation r = ow_gen own \<and> lr_lease_epoch r = ow_epoch own"

text \<open>
  The row protects the term \<open>own\<close> until database time \<open>t\<close>: either it is that term and does not
  expire before \<open>t\<close>, or a newer writer generation has superseded it.
\<close>

definition protects :: "lease_row option \<Rightarrow> ownership \<Rightarrow> gotime \<Rightarrow> bool" where
  "protects row own t = (case row of None \<Rightarrow> False | Some r \<Rightarrow>
     ow_gen own < lr_highest_writer_generation r \<or> (same_term r own \<and> t \<le> lr_expires_at r))"

locale lease_table =
  fixes acq :: "gotime \<Rightarrow> acquire_params \<Rightarrow> lease_row option \<Rightarrow>
      (lease_row \<times> gotime) query_result \<times> lease_row option"
    and ren :: "gotime \<Rightarrow> renew_params \<Rightarrow> lease_row option \<Rightarrow>
      (lease_row \<times> gotime) query_result \<times> lease_row option"
  assumes acq_keeps_live: "\<And>dbt p r. dbt < lr_expires_at r \<Longrightarrow>
      snd (acq dbt p (Some r)) = Some r \<or>
      (\<exists>r'. snd (acq dbt p (Some r)) = Some r' \<and>
        lr_highest_writer_generation r < lr_highest_writer_generation r')"
    and acq_forward: "\<And>dbt p r. \<exists>r'. snd (acq dbt p (Some r)) = Some r' \<and>
      lr_highest_writer_generation r \<le> lr_highest_writer_generation r'"
    and ren_exact: "\<And>dbt p row. snd (ren dbt p row) = row \<or>
      (\<exists>r. row = Some r \<and> renewable dbt p r \<and>
        snd (ren dbt p row) = Some (r\<lparr>lr_expires_at := dbt + rp_LeaseDurationMilliseconds p * millisecond\<rparr>))"
    and ren_row: "\<And>dbt p row x. fst (ren dbt p row) = Row x \<Longrightarrow>
      \<exists>r. row = Some r \<and> renewable dbt p r \<and>
        x = (r\<lparr>lr_expires_at := dbt + rp_LeaseDurationMilliseconds p * millisecond\<rparr>, dbt) \<and>
        snd (ren dbt p row) = Some (fst x)"
begin

lemma acquire_protects:
  assumes "protects row own t" "dbt < t"
  shows "protects (snd (acq dbt p row)) own t"
proof -
  from assms(1) obtain r where row: "row = Some r"
    and c: "ow_gen own < lr_highest_writer_generation r \<or> (same_term r own \<and> t \<le> lr_expires_at r)"
    by (auto simp: protects_def split: option.splits)
  show ?thesis
  proof (cases "ow_gen own < lr_highest_writer_generation r")
    case True
    with acq_forward [of dbt p r] show ?thesis by (auto simp: row protects_def)
  next
    case False
    with c assms(2) have "dbt < lr_expires_at r" by auto
    from acq_keeps_live [OF this, of p] c False show ?thesis
      by (auto simp: row protects_def same_term_def)
  qed
qed

lemma renew_protects:
  assumes "protects row own t"
    and "wp_HolderID p = ow_HolderID own \<Longrightarrow> t \<le> dbt + rp_LeaseDurationMilliseconds p * millisecond"
  shows "protects (snd (ren dbt p row)) own t"
  using ren_exact [of dbt p row] assms
  by (auto simp: protects_def same_term_def renewable_def)

lemma renew_grants:
  assumes "fst (ren dbt p row) = Row x"
  shows "\<exists>r. snd (ren dbt p row) = Some r \<and> ownershipFromAcquire x = ownershipFromAcquire (r, dbt) \<and>
    ow_HolderID (ownershipFromAcquire x) = wp_HolderID p \<and>
    ow_ExpiresAt (ownershipFromAcquire x) = dbt + rp_LeaseDurationMilliseconds p * millisecond \<and>
    protects (snd (ren dbt p row)) (ownershipFromAcquire x) (ow_ExpiresAt (ownershipFromAcquire x))"
  using ren_row [OF assms]
  by (auto simp: ownershipFromAcquire_def renewable_def protects_def same_term_def)

text \<open>A renewal is granted only to a holder no other term of its generation is protected from.\<close>

lemma renew_excludes:
  assumes "fst (ren dbt p row) = Row x" "protects row own t"
    and "ow_HolderID own \<noteq> wp_HolderID p"
  shows "ow_gen own \<noteq> ow_gen (ownershipFromAcquire x)"
  using ren_row [OF assms(1)] assms(2,3)
  by (auto simp: ownershipFromAcquire_def renewable_def protects_def same_term_def)

end

lemmas lease_statement_defs =
  AcquireFleetRuntimeLease_def RenewFleetRuntimeLease_def may_take_def live_retry_def
  renewable_def excluded_row_def Let_def

interpretation pg_lease: lease_table "AcquireFleetRuntimeLease pg" "RenewFleetRuntimeLease pg" for pg
proof unfold_locales
  fix dbt p and r :: lease_row
  assume live: "dbt < lr_expires_at r"
  show "snd (AcquireFleetRuntimeLease pg dbt p (Some r)) = Some r \<or>
      (\<exists>r'. snd (AcquireFleetRuntimeLease pg dbt p (Some r)) = Some r' \<and>
        lr_highest_writer_generation r < lr_highest_writer_generation r')"
    using live by (auto simp: lease_statement_defs)
next
  fix dbt p and r :: lease_row
  show "\<exists>r'. snd (AcquireFleetRuntimeLease pg dbt p (Some r)) = Some r' \<and>
      lr_highest_writer_generation r \<le> lr_highest_writer_generation r'"
    by (auto simp: lease_statement_defs)
next
  fix dbt p row
  show "snd (RenewFleetRuntimeLease pg dbt p row) = row \<or>
      (\<exists>r. row = Some r \<and> renewable dbt p r \<and> snd (RenewFleetRuntimeLease pg dbt p row) =
        Some (r\<lparr>lr_expires_at := dbt + rp_LeaseDurationMilliseconds p * millisecond\<rparr>))"
    by (auto simp: RenewFleetRuntimeLease_def Let_def split: option.splits)
next
  fix dbt p row x
  assume "fst (RenewFleetRuntimeLease pg dbt p row) = Row x"
  then show "\<exists>r. row = Some r \<and> renewable dbt p r \<and>
      x = (r\<lparr>lr_expires_at := dbt + rp_LeaseDurationMilliseconds p * millisecond\<rparr>, dbt) \<and>
      snd (RenewFleetRuntimeLease pg dbt p row) = Some (fst x)"
    by (auto simp: RenewFleetRuntimeLease_def Let_def split: option.splits if_splits)
qed

section \<open>Fencing\<close>

text \<open>Statements in the order in which they took the row lock, each with the clock it captured.\<close>

datatype lease_statement =
    StAcquire pg_identity gotime acquire_params
  | StRenew pg_identity gotime renew_params

fun exec_statement ::
  "lease_statement \<Rightarrow> lease_row option \<Rightarrow> (lease_row \<times> gotime) query_result \<times> lease_row option" where
  "exec_statement (StAcquire pg dbt p) row = AcquireFleetRuntimeLease pg dbt p row"
| "exec_statement (StRenew pg dbt p) row = RenewFleetRuntimeLease pg dbt p row"

fun grants :: "lease_statement list \<Rightarrow> lease_row option \<Rightarrow> ownership list" where
  "grants [] row = []"
| "grants (st # sts) row =
     (let (res, row') = exec_statement st row in
      (case res of Row x \<Rightarrow> [ownershipFromAcquire x] | _ \<Rightarrow> []) @ grants sts row')"

text \<open>
  \<open>advances r r'\<close>: the row went from \<open>r\<close> to \<open>r'\<close> within one term, or to a term of a larger epoch.
\<close>

definition advances :: "lease_row \<Rightarrow> lease_row \<Rightarrow> bool" where
  "advances r r' \<longleftrightarrow> lr_highest_writer_generation r \<le> lr_highest_writer_generation r' \<and>
     (lr_lease_epoch r < lr_lease_epoch r' \<or>
      (lr_lease_epoch r = lr_lease_epoch r' \<and> lr_holder_id r = lr_holder_id r' \<and>
       lr_highest_writer_generation r = lr_highest_writer_generation r'))"

lemma advances_refl [simp]: "advances r r"
  by (simp add: advances_def)

lemma advances_trans: "advances r s \<Longrightarrow> advances s t \<Longrightarrow> advances r t"
  by (auto simp: advances_def)

lemma exec_statement_advances:
  "\<exists>r'. snd (exec_statement st (Some r)) = Some r' \<and> advances r r'"
  by (cases st) (auto simp: lease_statement_defs advances_def)

lemma exec_statement_row:
  assumes "fst (exec_statement st row) = Row x"
  shows "\<exists>r dbt. snd (exec_statement st row) = Some r \<and> x = (r, dbt)"
  using assms
  by (cases st) (auto simp: AcquireFleetRuntimeLease_def RenewFleetRuntimeLease_def Let_def
      split: option.splits if_splits)

text \<open>Every ownership granted from \<open>r\<close> on is that of a row \<open>r\<close> advanced to.\<close>

lemma grants_advance:
  "own \<in> set (grants sts (Some r)) \<Longrightarrow> \<exists>r'. advances r r' \<and> same_term r' own"
proof (induction sts arbitrary: r)
  case Nil
  then show ?case by simp
next
  case (Cons st sts)
  obtain r' where r': "snd (exec_statement st (Some r)) = Some r'" "advances r r'"
    using exec_statement_advances by blast
  from Cons.prems consider x where "fst (exec_statement st (Some r)) = Row x"
      "own = ownershipFromAcquire x" | "own \<in> set (grants sts (Some r'))"
    using r' by (cases "fst (exec_statement st (Some r))") (auto simp: case_prod_beta)
  then show ?case
  proof cases
    case 1
    with exec_statement_row [OF 1(1)] r' show ?thesis
      by (auto simp: same_term_def ownershipFromAcquire_def)
  next
    case 2
    from Cons.IH [OF this] r'(2) show ?thesis by (blast intro: advances_trans)
  qed
qed

definition epoch_fences :: "ownership \<Rightarrow> ownership \<Rightarrow> bool" where
  "epoch_fences a b \<longleftrightarrow> ow_gen a \<le> ow_gen b \<and>
     (ow_epoch a < ow_epoch b \<or>
      (ow_epoch a = ow_epoch b \<and> ow_HolderID a = ow_HolderID b \<and> ow_gen a = ow_gen b))"

lemma grants_tail_fences:
  assumes "fst (exec_statement st row) = Row x" "snd (exec_statement st row) = Some r"
    and "b \<in> set (grants sts (Some r))"
  shows "epoch_fences (ownershipFromAcquire x) b"
  using exec_statement_row [OF assms(1)] assms(2) grants_advance [OF assms(3)]
  by (auto simp: epoch_fences_def advances_def same_term_def ownershipFromAcquire_def)

text \<open>
  C3. The token of the lease is a fencing token: in every sequence of acquisitions and renewals,
  whatever clocks the statements captured, of two grants the later one never has an older writer
  generation or a smaller epoch, and it has the same epoch only if it belongs to the same holder
  and the same generation. So no two terms share an epoch.
\<close>

theorem lease_tokens_fence: "sorted_wrt epoch_fences (grants sts row)"
proof (induction sts arbitrary: row)
  case Nil
  then show ?case by simp
next
  case (Cons st sts)
  show ?case
  proof (cases "fst (exec_statement st row)")
    case (Row x)
    with exec_statement_row [OF Row] obtain r dbt
      where r: "snd (exec_statement st row) = Some r" "x = (r, dbt)" by blast
    show ?thesis
      using Cons.IH grants_tail_fences [OF Row r(1), of _ sts]
      by (simp add: case_prod_beta Row r(1))
  qed (simp_all add: case_prod_beta Cons.IH)
qed

definition acquire_outcome ::
  "pg_identity \<Rightarrow> gotime \<Rightarrow> writer_observation \<Rightarrow> uuid \<Rightarrow> lease_row option \<Rightarrow> ha_error option" where
  "acquire_outcome pg dbt w holderID row =
     (if pg_in_recovery pg \<or> pg_server_address pg \<noteq> wo_ServerAddress w \<or>
         pg_server_port pg \<noteq> wo_ServerPort w \<or> pg_timeline pg \<noteq> wo_Timeline w
      then Some ErrWriterChanged
      else case row of
        None \<Rightarrow> None
      | Some r \<Rightarrow>
          if lr_dcs_cluster_id r \<noteq> wo_DCSClusterID w then Some ErrDCSClusterIdentityMismatch
          else if wo_WriterGeneration w < lr_highest_writer_generation r then Some ErrWriterChanged
          else if lr_highest_writer_generation r = wo_WriterGeneration w \<and>
                  lr_holder_id r \<noteq> holderID \<and> dbt < lr_expires_at r then Some ErrLeaseUnavailable
          else if max_bigint \<le> lr_lease_epoch r \<and>
                  \<not> live_retry dbt (acquire_request w holderID 0) r
               then Some (HaError ''bigint out of range'')
          else None)"

lemma classified_error:
  "leaseAcquisitionError (ClassifyFleetRuntimeLeaseAcquisition pg dbt p row) =
     (if \<not> writer_matches pg p then ErrWriterChanged
      else case row of
        None \<Rightarrow> ErrWriterChanged
      | Some r \<Rightarrow>
          if lr_dcs_cluster_id r \<noteq> wp_DcsClusterID p then ErrDCSClusterIdentityMismatch
          else if lr_highest_writer_generation r = wp_WriterGeneration p \<and>
                  lr_holder_id r \<noteq> wp_HolderID p \<and> dbt < lr_expires_at r then ErrLeaseUnavailable
          else ErrWriterChanged)"
  by (cases row) (simp_all add: ClassifyFleetRuntimeLeaseAcquisition_def leaseAcquisitionError_def)

lemma Acquire_valid:
  assumes "validateLeaseInput w holderID dur = None"
  shows "Acquire pg dbt pg dbt w holderID dur row =
    (let p = acquire_request w holderID dur; x = AcquireFleetRuntimeLease pg dbt p row in
     (case fst x of
        NoRows \<Rightarrow> Inl (leaseAcquisitionError (ClassifyFleetRuntimeLeaseAcquisition pg dbt p (snd x)))
      | DbError e \<Rightarrow> Inl e | Row y \<Rightarrow> Inr (ownershipFromAcquire y), snd x))"
  by (simp add: assms Acquire_def Let_def case_prod_beta acquire_result_def
      split: query_result.split)

lemma acquire_request_simps [simp]:
  "wp_DcsClusterID (acquire_request w h d) = wo_DCSClusterID w"
  "wp_WriterGeneration (acquire_request w h d) = wo_WriterGeneration w"
  "wp_HolderID (acquire_request w h d) = h"
  "ap_LeaseDurationMilliseconds (acquire_request w h d) = duration_Milliseconds d"
  "writer_matches pg (acquire_request w h d) \<longleftrightarrow> \<not> (pg_in_recovery pg \<or>
     pg_server_address pg \<noteq> wo_ServerAddress w \<or> pg_server_port pg \<noteq> wo_ServerPort w \<or>
     pg_timeline pg \<noteq> wo_Timeline w)"
  by (auto simp: acquire_request_def writer_matches_def)

lemma renew_request_simps [simp]:
  "wp_WriterGeneration (renew_request w own d) = ow_gen own"
  "wp_HolderID (renew_request w own d) = ow_HolderID own"
  "rp_LeaseDurationMilliseconds (renew_request w own d) = duration_Milliseconds d"
  by (simp_all add: renew_request_def)

text \<open>
  What \<open>Acquire\<close> reports when the two statements see the same server, clock and row: it
  succeeds exactly if the lease was free, superseded by a newer generation, expired or already
  held; \<open>ErrLeaseUnavailable\<close> (the one error after which the coordinator stays a healthy passive)
  exactly if another holder has a live term of the same generation; every other refusal is the
  error of a changed writer or of a foreign cluster. In a refusal the row is untouched.
\<close>

theorem acquire_outcome_complete:
  "case validateLeaseInput w holderID dur of
     Some e \<Rightarrow> Acquire pg dbt pg dbt w holderID dur row = (Inl e, row)
   | None \<Rightarrow>
       (case acquire_outcome pg dbt w holderID row of
          Some e \<Rightarrow> Acquire pg dbt pg dbt w holderID dur row = (Inl e, row)
        | None \<Rightarrow>
            \<exists>own r. Acquire pg dbt pg dbt w holderID dur row = (Inr own, Some r) \<and>
              own = ownershipFromAcquire (r, dbt) \<and> ow_HolderID own = holderID \<and>
              ow_gen own = wo_WriterGeneration w \<and> ow_DCSClusterID own = wo_DCSClusterID w \<and>
              dbt < ow_ExpiresAt own)"
proof (cases "validateLeaseInput w holderID dur")
  case (Some e)
  then show ?thesis by (simp add: Acquire_def)
next
  case None
  then have pos: "0 < duration_Milliseconds dur * millisecond"
    by (auto simp: validateLeaseInput_def millisecond_def split: option.splits if_splits)
  let ?p = "acquire_request w holderID dur"
  show ?thesis
  proof (cases "writer_matches pg ?p")
    case False
    then show ?thesis
      by (simp add: None Acquire_valid Let_def acquire_outcome_def AcquireFleetRuntimeLease_def
          classified_error)
  next
    case True
    show ?thesis
    proof (cases row)
      case None': None
      with True pos show ?thesis
        by (simp add: None Acquire_valid Let_def acquire_outcome_def AcquireFleetRuntimeLease_def
            excluded_row_def ownershipFromAcquire_def)
    next
      case (Some r)
      consider "\<not> may_take dbt ?p r" | "may_take dbt ?p r" "live_retry dbt ?p r" |
        "may_take dbt ?p r" "\<not> live_retry dbt ?p r" by blast
      then show ?thesis
        using True pos
        by cases (auto simp: None Some Acquire_valid Let_def acquire_outcome_def
            AcquireFleetRuntimeLease_def classified_error excluded_row_def ownershipFromAcquire_def
            may_take_def live_retry_def)
    qed
  qed
qed

end
