(* ===== verification/Ha_Coordinator.thy ===== *)
theory Ha_Coordinator
  imports Ha_Lease
begin

text \<open>
  The ownership coordinator (\<open>server/internal/ha/coordinator.go\<close>). A coordinator observes the
  database writer, acquires the lease, renews it once before it becomes active, and renews it
  while it is active; the first failure after activation is terminal.

  The state under the mutex is a record; each critical section is a function of it and of the
  local clock. An active lifetime is a context of the heap \<open>cd_contexts\<close>, \<open>None\<close> while it is live
  and \<open>Some cause\<close> once cancelled; \<open>cancelActive\<close> is set exactly when \<open>activeCtx\<close> is. Stopping a
  \<open>time.Timer\<close> does not stop a callback that has begun to wait for the mutex, so \<open>cd_timers\<close> keeps
  every timer created and its callback may run at any time from its deadline on. The counter
  \<open>leaseVersion\<close> is unbounded here.

  The calls \<open>tryAcquire\<close> and \<open>renewActive\<close> leave the mutex while they talk to the observer and the
  database. They are cut into the steps between two such calls; \<open>phase\<close> is where the goroutine of
  \<open>Run\<close> stands.
\<close>

section \<open>State\<close>

record coordinator_config =
  cc_LeaseDuration :: duration
  cc_RenewInterval :: duration
  cc_RetryInterval :: duration

definition validateCoordinatorConfig :: "coordinator_config \<Rightarrow> bool \<Rightarrow> bool \<Rightarrow> ha_error option" where
  "validateCoordinatorConfig cfg observerNil storeNil =
     (if observerNil \<or> storeNil then Some (HaError ''requires observer and lease store'')
      else if cc_LeaseDuration cfg \<le> 0 \<or> cc_RenewInterval cfg \<le> 0 \<or> cc_RetryInterval cfg \<le> 0
        then Some (HaError ''intervals must be positive'')
      else if cc_LeaseDuration cfg \<le> cc_RenewInterval cfg
        then Some (HaError ''renewal interval must be shorter'')
      else None)"

record coordinator =
  cd_holderID :: uuid
  cd_ownership :: ownership
  cd_activeCtx :: "nat option"
  cd_contexts :: "ha_error option list"
  cd_leaseTimer :: "(nat \<times> gotime) option"
  cd_timers :: "(nat \<times> gotime) list"
  cd_leaseVersion :: nat
  cd_stateChanged :: nat
  cd_acquireAfter :: gotime
  cd_observed :: bool
  cd_updatedAt :: gotime
  cd_proofDeadline :: gotime

definition newCoordinatorWithHolder :: "uuid \<Rightarrow> coordinator" where
  "newCoordinatorWithHolder h = \<lparr>cd_holderID = h, cd_ownership = zero_ownership,
     cd_activeCtx = None, cd_contexts = [], cd_leaseTimer = None, cd_timers = [],
     cd_leaseVersion = 0, cd_stateChanged = 0, cd_acquireAfter = 0, cd_observed = False,
     cd_updatedAt = 0, cd_proofDeadline = 0\<rparr>"

definition NewCoordinator ::
  "coordinator_config \<Rightarrow> bool \<Rightarrow> bool \<Rightarrow> uuid \<Rightarrow> ha_error + coordinator" where
  "NewCoordinator cfg observerNil storeNil h =
     (case validateCoordinatorConfig cfg observerNil storeNil of
        Some e \<Rightarrow> Inl e
      | None \<Rightarrow> Inr (newCoordinatorWithHolder h))"

datatype ha_state = StatePassive | StateActive

record snapshot =
  sn_State :: ha_state
  sn_HolderID :: uuid
  sn_DCSClusterID :: string
  sn_Token :: token
  sn_ExpiresAt :: gotime
  sn_UpdatedAt :: gotime
  sn_ObservationAvailable :: bool
  sn_FreshUntil :: gotime

definition fresh_until :: "coordinator_config \<Rightarrow> coordinator \<Rightarrow> gotime" where
  "fresh_until cfg c =
     (if time_is_zero (cd_updatedAt c) then 0
      else let f = time_add (cd_updatedAt c) (cc_LeaseDuration cfg + cc_RetryInterval cfg) in
        if \<not> time_is_zero (cd_proofDeadline c) \<and> time_before (cd_proofDeadline c) f
        then cd_proofDeadline c else f)"

definition Snapshot :: "coordinator_config \<Rightarrow> coordinator \<Rightarrow> snapshot" where
  "Snapshot cfg c =
     (let s = \<lparr>sn_State = StatePassive, sn_HolderID = cd_holderID c, sn_DCSClusterID = '''',
        sn_Token = ow_Token zero_ownership, sn_ExpiresAt = 0, sn_UpdatedAt = cd_updatedAt c,
        sn_ObservationAvailable = cd_observed c, sn_FreshUntil = fresh_until cfg c\<rparr> in
      if cd_activeCtx c \<noteq> None then
        s\<lparr>sn_State := StateActive, sn_DCSClusterID := ow_DCSClusterID (cd_ownership c),
          sn_Token := ow_Token (cd_ownership c), sn_ExpiresAt := ow_ExpiresAt (cd_ownership c)\<rparr>
      else s)"

definition ActiveLifetime :: "coordinator \<Rightarrow> (nat \<times> token) option" where
  "ActiveLifetime c = map_option (\<lambda>ctx. (ctx, ow_Token (cd_ownership c))) (cd_activeCtx c)"

section \<open>Critical sections\<close>

definition signalStateChangedLocked :: "coordinator \<Rightarrow> coordinator" where
  "signalStateChangedLocked c = c\<lparr>cd_stateChanged := cd_stateChanged c + 1\<rparr>"

definition stopLeaseTimerLocked :: "coordinator \<Rightarrow> coordinator" where
  "stopLeaseTimerLocked c = c\<lparr>cd_leaseVersion := cd_leaseVersion c + 1, cd_leaseTimer := None\<rparr>"

definition resetLeaseTimerLocked :: "gotime \<Rightarrow> coordinator \<Rightarrow> coordinator" where
  "resetLeaseTimerLocked deadline c =
     (let c = stopLeaseTimerLocked c in
      c\<lparr>cd_leaseTimer := Some (cd_leaseVersion c, deadline),
        cd_timers := (cd_leaseVersion c, deadline) # cd_timers c\<rparr>)"

text \<open>Cancelling a context keeps the first cause; a nil cause is \<open>context.Canceled\<close>.\<close>

definition cancel_active :: "ha_error option \<Rightarrow> coordinator \<Rightarrow> coordinator" where
  "cancel_active cause c =
     (case cd_activeCtx c of
        None \<Rightarrow> c
      | Some ctx \<Rightarrow>
          if cd_contexts c ! ctx = None
          then c\<lparr>cd_contexts := (cd_contexts c)[ctx := Some (case cause of None \<Rightarrow> ErrContext | Some e \<Rightarrow> e)]\<rparr>
          else c)"

definition deactivateLocked :: "gotime \<Rightarrow> ha_error option \<Rightarrow> coordinator \<Rightarrow> coordinator" where
  "deactivateLocked now cause c =
     (let wasActive = cd_activeCtx c \<noteq> None;
          c = stopLeaseTimerLocked c;
          c = (cancel_active cause c)\<lparr>cd_activeCtx := None\<rparr>;
          c = (if wasActive then signalStateChangedLocked c else c)
      in c\<lparr>cd_ownership := zero_ownership, cd_updatedAt := now, cd_observed := cause = None,
           cd_proofDeadline := 0\<rparr>)"

definition deactivateObserved :: "gotime \<Rightarrow> gotime \<Rightarrow> coordinator \<Rightarrow> coordinator" where
  "deactivateObserved now proofDeadline c =
     (deactivateLocked now None c)\<lparr>cd_proofDeadline := proofDeadline\<rparr>"

definition abandonCandidate ::
  "coordinator_config \<Rightarrow> gotime \<Rightarrow> uuid \<Rightarrow> gotime \<Rightarrow> ha_error \<Rightarrow> coordinator \<Rightarrow> coordinator" where
  "abandonCandidate cfg now newID leaseExpiresAt cause c =
     deactivateLocked now (Some cause)
       (c\<lparr>cd_holderID := newID,
          cd_acquireAfter := time_add leaseExpiresAt (cc_RetryInterval cfg)\<rparr>)"

definition lease_timer_callback :: "gotime \<Rightarrow> nat \<Rightarrow> coordinator \<Rightarrow> coordinator" where
  "lease_timer_callback now version c =
     (if cd_activeCtx c = None \<or> cd_leaseVersion c \<noteq> version then c
      else deactivateLocked now (Some ErrOwnershipExpired) c)"

definition valid_for :: "ownership \<Rightarrow> duration" where
  "valid_for own = time_sub (ow_ExpiresAt own) (ow_DatabaseTime own)"

definition localOwnershipDeadline ::
  "gotime \<Rightarrow> ownership \<Rightarrow> gotime \<Rightarrow> gotime \<Rightarrow> ha_error + gotime" where
  "localOwnershipDeadline now own requestStarted dcsProofDeadline =
     (if time_is_zero requestStarted \<or> valid_for own \<le> 0 then Inl ErrOwnershipExpired
      else let deadline = time_add requestStarted (valid_for own) in
        if time_is_zero dcsProofDeadline then Inl ErrLeaderLeaseExpired
        else let deadline =
               (if time_before dcsProofDeadline deadline then dcsProofDeadline else deadline)
             in if \<not> time_after deadline now then Inl ErrOwnershipExpired else Inr deadline)"

text \<open>
  \<open>checked\<close> is the clock \<open>localOwnershipDeadline\<close> compared with, \<open>now\<close> the clock under the mutex;
  \<open>parentDone\<close> whether the context of \<open>Run\<close> was cancelled by then. A new context of a done parent
  cannot arise here, and a parent cancelled later cancels its child.
\<close>

definition coord_activate ::
  "gotime \<Rightarrow> gotime \<Rightarrow> bool \<Rightarrow> ownership \<Rightarrow> gotime \<Rightarrow> gotime \<Rightarrow> coordinator \<Rightarrow>
    ha_error option \<times> coordinator" where
  "coord_activate checked now parentDone own requestStarted dcsProofDeadline c =
     (case localOwnershipDeadline checked own requestStarted dcsProofDeadline of
        Inl e \<Rightarrow> (Some e, c)
      | Inr deadline \<Rightarrow>
          if parentDone then (Some ErrContext, c)
          else
            let c = cancel_active (Some ErrOwnershipLost) c;
                c = c\<lparr>cd_activeCtx := Some (length (cd_contexts c)),
                      cd_contexts := cd_contexts c @ [None]\<rparr>;
                c = c\<lparr>cd_ownership := own, cd_observed := True, cd_updatedAt := now,
                      cd_proofDeadline := dcsProofDeadline\<rparr>
            in (None, signalStateChangedLocked (resetLeaseTimerLocked deadline c)))"

definition updateActive ::
  "gotime \<Rightarrow> gotime \<Rightarrow> ownership \<Rightarrow> ownership \<Rightarrow> gotime \<Rightarrow> gotime \<Rightarrow> coordinator \<Rightarrow>
    ha_error option \<times> coordinator" where
  "updateActive checked now renewed expected requestStarted dcsProofDeadline c =
     (case localOwnershipDeadline checked renewed requestStarted dcsProofDeadline of
        Inl e \<Rightarrow> (Some e, c)
      | Inr deadline \<Rightarrow>
          if cd_activeCtx c = None \<or>
             ow_DCSClusterID (cd_ownership c) \<noteq> ow_DCSClusterID expected \<or>
             ow_Token (cd_ownership c) \<noteq> ow_Token expected \<or>
             ow_HolderID (cd_ownership c) \<noteq> ow_HolderID expected
          then (Some ErrOwnershipLost, c)
          else
            (None, resetLeaseTimerLocked deadline
              (c\<lparr>cd_ownership := renewed, cd_updatedAt := now, cd_observed := True,
                 cd_proofDeadline := dcsProofDeadline\<rparr>)))"

definition markActiveObservationUnavailable ::
  "nat \<Rightarrow> coordinator \<Rightarrow> ha_error option \<times> coordinator" where
  "markActiveObservationUnavailable expectedCtx c =
     (if cd_activeCtx c \<noteq> Some expectedCtx then (Some ErrOwnershipLost, c)
      else (None, c\<lparr>cd_observed := False\<rparr>))"

definition validateObservedWriter :: "ownership \<Rightarrow> writer_observation \<Rightarrow> ha_error option" where
  "validateObservedWriter current w =
     (if wo_DCSClusterID w = ow_DCSClusterID current \<and> wo_WriterGeneration w = ow_gen current
      then None else Some ErrWriterChanged)"

section \<open>The goroutine of Run\<close>

text \<open>
  The phases with a database request in flight carry what the request was made from and the local
  clock when it was made.
\<close>

datatype phase =
    PhIdle
  | PhAcquiring writer_observation uuid gotime
  | PhAcquired writer_observation ownership gotime
  | PhContended writer_observation
  | PhActivating writer_observation ownership gotime gotime
  | PhActivated
  | PhActive nat
  | PhObserving nat ownership
  | PhRenewing nat ownership writer_observation gotime
  | PhRenewed nat ownership writer_observation ownership gotime
  | PhDone ha_error

text \<open>
  \<open>tryAcquire\<close> up to the call of the store inside \<open>ObserveAndRun\<close>: it is too early, the observer
  fails before the action, or \<open>Acquire\<close> is called with the observation of the opening snapshot.
  \<open>Acquire\<close> may refuse its input at once. Only this goroutine changes the holder identity.
\<close>

definition try_begin ::
  "coordinator_config \<Rightarrow> gotime \<Rightarrow> ha_error + writer_observation \<Rightarrow> coordinator \<Rightarrow>
    coordinator \<times> phase" where
  "try_begin cfg now opening c =
     (if time_before now (cd_acquireAfter c) then (c, PhIdle)
      else case opening of
        Inl e \<Rightarrow> (deactivateLocked now (Some e) c, PhIdle)
      | Inr w \<Rightarrow>
          (case validateLeaseInput w (cd_holderID c) (cc_LeaseDuration cfg) of
             Some e \<Rightarrow> (deactivateLocked now (Some e) c, PhIdle)
           | None \<Rightarrow> (c, PhAcquiring w (cd_holderID c) now)))"

text \<open>The answer of \<open>Acquire\<close> inside the action.\<close>

definition try_acquire_answer ::
  "gotime \<Rightarrow> writer_observation \<Rightarrow> ha_error + ownership \<Rightarrow> coordinator \<Rightarrow> coordinator \<times> phase" where
  "try_acquire_answer now w answer c =
     (case answer of
        Inr own \<Rightarrow> (c, PhAcquired w own (time_add now (valid_for own)))
      | Inl e \<Rightarrow>
          if e = ErrLeaseUnavailable then (c, PhContended w)
          else (deactivateLocked now (Some e) c, PhIdle))"

text \<open>
  \<open>ObserveAndRun\<close> returns after the action: with an error, or with the action's observation and
  the proof deadline. Then the candidate asks for its first renewal; the store may refuse it.
\<close>

definition try_observed ::
  "coordinator_config \<Rightarrow> gotime \<Rightarrow> uuid \<Rightarrow> writer_observation \<Rightarrow> ownership \<Rightarrow> gotime \<Rightarrow>
    ha_error + gotime \<Rightarrow> coordinator \<Rightarrow> coordinator \<times> phase" where
  "try_observed cfg now newID w own candidateExpiresAt closing c =
     (case closing of
        Inl e \<Rightarrow> (abandonCandidate cfg now newID candidateExpiresAt e c, PhIdle)
      | Inr proofDeadline \<Rightarrow>
          let w = w\<lparr>wo_DCSProofDeadline := proofDeadline\<rparr> in
          (case validateRenewal w own (cc_LeaseDuration cfg) of
             Some e \<Rightarrow> (abandonCandidate cfg now newID candidateExpiresAt e c, PhIdle)
           | None \<Rightarrow> (c, PhActivating w own candidateExpiresAt now)))"

definition try_contended ::
  "gotime \<Rightarrow> ha_error + gotime \<Rightarrow> coordinator \<Rightarrow> coordinator \<times> phase" where
  "try_contended now closing c =
     (case closing of
        Inl e \<Rightarrow> (deactivateLocked now (Some e) c, PhIdle)
      | Inr proofDeadline \<Rightarrow> (deactivateObserved now proofDeadline c, PhIdle))"

text \<open>
  The first renewal is answered: activate, or abandon the candidate. The three clocks are those
  of \<open>candidateExpiresAt\<close>, of \<open>localOwnershipDeadline\<close> and of the critical section.
\<close>

definition try_activate ::
  "coordinator_config \<Rightarrow> gotime \<Rightarrow> gotime \<Rightarrow> gotime \<Rightarrow> bool \<Rightarrow> uuid \<Rightarrow> writer_observation \<Rightarrow> gotime \<Rightarrow>
    gotime \<Rightarrow> ha_error + ownership \<Rightarrow> coordinator \<Rightarrow> coordinator \<times> phase" where
  "try_activate cfg received checked now parentDone newID w candidateExpiresAt requestStarted answer c =
     (case answer of
        Inl e \<Rightarrow> (abandonCandidate cfg now newID candidateExpiresAt e c, PhIdle)
      | Inr renewed \<Rightarrow>
          let candidateExpiresAt = time_add received (valid_for renewed);
              (err, c) = coord_activate checked now parentDone renewed requestStarted
                (wo_DCSProofDeadline w) c
          in case err of
               Some e \<Rightarrow> (abandonCandidate cfg now newID candidateExpiresAt e c, PhIdle)
             | None \<Rightarrow> (c, PhActivated))"

text \<open>\<open>Run\<close> looks up the lifetime after the activation; it may have ended again.\<close>

definition run_activated :: "coordinator \<Rightarrow> coordinator \<times> phase" where
  "run_activated c =
     (case ActiveLifetime c of
        None \<Rightarrow> (c, PhDone ErrOwnershipLost)
      | Some (ctx, _) \<Rightarrow> (c, PhActive ctx))"

text \<open>
  \<open>renewActive\<close>: what it reads under the mutex, and then the action inside \<open>ObserveAndRun\<close> up to
  the call of \<open>Renew\<close>. The observer may fail before the action, with an observation; only a
  timeline mismatch with an unchanged writer is survived.
\<close>

definition renew_begin :: "nat \<Rightarrow> coordinator \<Rightarrow> coordinator \<times> phase" where
  "renew_begin expectedCtx c =
     (if cd_activeCtx c \<noteq> Some expectedCtx then (c, PhDone ErrOwnershipLost)
      else (c, PhObserving expectedCtx (cd_ownership c)))"

definition renew_fail :: "gotime \<Rightarrow> ha_error \<Rightarrow> coordinator \<Rightarrow> coordinator \<times> phase" where
  "renew_fail now e c = (deactivateLocked now (Some e) c, PhDone e)"

definition renew_unobserved ::
  "gotime \<Rightarrow> nat \<Rightarrow> ownership \<Rightarrow> ha_error \<Rightarrow> writer_observation \<Rightarrow> coordinator \<Rightarrow>
    coordinator \<times> phase" where
  "renew_unobserved now ctx current err w c =
     (if err = ErrTimelineMismatch then
        (case validateObservedWriter current w of
           Some e \<Rightarrow> renew_fail now e c
         | None \<Rightarrow>
             (case markActiveObservationUnavailable ctx c of
                (Some e, c') \<Rightarrow> (c', PhDone e)
              | (None, c') \<Rightarrow> (c', PhActive ctx)))
      else renew_fail now err c)"

definition renew_action ::
  "coordinator_config \<Rightarrow> gotime \<Rightarrow> nat \<Rightarrow> ownership \<Rightarrow> writer_observation \<Rightarrow> coordinator \<Rightarrow>
    coordinator \<times> phase" where
  "renew_action cfg now ctx current w c =
     (case validateObservedWriter current w of
        Some e \<Rightarrow> renew_fail now e c
      | None \<Rightarrow>
          (case validateRenewal w current (cc_LeaseDuration cfg) of
             Some e \<Rightarrow> renew_fail now e c
           | None \<Rightarrow> (c, PhRenewing ctx current w now)))"

text \<open>
  The answer of \<open>Renew\<close>, and the return of \<open>ObserveAndRun\<close> after it. When the action or the closing
  reads fail the observer returns no observation.
\<close>

definition zero_observation :: writer_observation where
  "zero_observation = \<lparr>wo_DCSClusterID = '''', wo_WriterGeneration = 0, wo_LeaderName = '''',
     wo_ServerAddress = '''', wo_ServerPort = 0, wo_Timeline = 0, wo_DCSProofDeadline = 0\<rparr>"

definition renew_answer ::
  "gotime \<Rightarrow> nat \<Rightarrow> ownership \<Rightarrow> writer_observation \<Rightarrow> gotime \<Rightarrow> ha_error + ownership \<Rightarrow> coordinator \<Rightarrow>
    coordinator \<times> phase" where
  "renew_answer now ctx current w requestStarted answer c =
     (case answer of
        Inl e \<Rightarrow> renew_unobserved now ctx current e zero_observation c
      | Inr renewed \<Rightarrow> (c, PhRenewed ctx current w renewed requestStarted))"

definition renew_observed ::
  "gotime \<Rightarrow> gotime \<Rightarrow> nat \<Rightarrow> ownership \<Rightarrow> ownership \<Rightarrow> gotime \<Rightarrow> ha_error + gotime \<Rightarrow> coordinator \<Rightarrow>
    coordinator \<times> phase" where
  "renew_observed checked now ctx current renewed requestStarted closing c =
     (case closing of
        Inl e \<Rightarrow> renew_unobserved now ctx current e zero_observation c
      | Inr proofDeadline \<Rightarrow>
          (case updateActive checked now renewed current requestStarted proofDeadline c of
             (Some e, c') \<Rightarrow> renew_fail now e c'
           | (None, c') \<Rightarrow> (c', PhActive ctx)))"

text \<open>The context of \<open>Run\<close> is done, or the active lifetime has ended.\<close>

definition run_stopped :: "gotime \<Rightarrow> coordinator \<Rightarrow> coordinator \<times> phase" where
  "run_stopped now c = renew_fail now ErrContext c"

definition lifetime_ended :: "nat \<Rightarrow> coordinator \<Rightarrow> (coordinator \<times> phase) option" where
  "lifetime_ended ctx c =
     (case cd_contexts c ! ctx of None \<Rightarrow> None | Some cause \<Rightarrow> Some (c, PhDone cause))"

section \<open>Invariant of one coordinator\<close>

text \<open>
  The lifetime context exists and is guarded by a timer of the current version; every other timer
  ever created has an older version; a passive coordinator holds no ownership and no timer.
\<close>

definition coord_wf :: "coordinator \<Rightarrow> bool" where
  "coord_wf c \<longleftrightarrow>
     (case cd_activeCtx c of
        None \<Rightarrow> cd_leaseTimer c = None \<and> cd_ownership c = zero_ownership
      | Some ctx \<Rightarrow> ctx < length (cd_contexts c) \<and> cd_leaseTimer c \<noteq> None) \<and>
     (case cd_leaseTimer c of
        None \<Rightarrow> True
      | Some (v, d) \<Rightarrow> v = cd_leaseVersion c \<and> (v, d) \<in> set (cd_timers c)) \<and>
     (\<forall>t \<in> set (cd_timers c). fst t < cd_leaseVersion c \<or> cd_leaseTimer c = Some t) \<and>
     (\<forall>t \<in> set (cd_timers c). fst t \<le> cd_leaseVersion c)"

lemmas coord_section_defs =
  signalStateChangedLocked_def stopLeaseTimerLocked_def resetLeaseTimerLocked_def
  cancel_active_def deactivateLocked_def deactivateObserved_def abandonCandidate_def Let_def

lemma coord_wf_updates [simp]:
  "coord_wf (c\<lparr>cd_proofDeadline := d\<rparr>) = coord_wf c"
  "coord_wf (c\<lparr>cd_observed := b\<rparr>) = coord_wf c"
  "coord_wf (c\<lparr>cd_holderID := h, cd_acquireAfter := a\<rparr>) = coord_wf c"
  by (simp_all add: coord_wf_def cong: option.case_cong)

lemma new_coord_wf: "coord_wf (newCoordinatorWithHolder h)"
  by (simp add: coord_wf_def newCoordinatorWithHolder_def)

lemma deactivateLocked_wf: "coord_wf c \<Longrightarrow> coord_wf (deactivateLocked now cause c)"
  by (auto simp: coord_wf_def coord_section_defs less_Suc_eq_le split: option.splits)

lemma deactivateObserved_wf: "coord_wf c \<Longrightarrow> coord_wf (deactivateObserved now d c)"
  by (simp add: deactivateObserved_def deactivateLocked_wf)

lemma abandonCandidate_wf: "coord_wf c \<Longrightarrow> coord_wf (abandonCandidate cfg now i t e c)"
  by (simp add: abandonCandidate_def deactivateLocked_wf)

lemma timer_callback_wf: "coord_wf c \<Longrightarrow> coord_wf (lease_timer_callback now v c)"
  by (simp add: lease_timer_callback_def deactivateLocked_wf)

lemma coord_activate_wf:
  "coord_wf c \<Longrightarrow> coord_wf (snd (coord_activate t now pd own rs dl c))"
  by (auto simp: coord_wf_def coord_activate_def coord_section_defs less_Suc_eq_le
      split: option.splits sum.splits)

lemma updateActive_wf: "coord_wf c \<Longrightarrow> coord_wf (snd (updateActive t now own ex rs dl c))"
  by (auto simp: coord_wf_def updateActive_def coord_section_defs less_Suc_eq_le
      split: option.splits sum.splits)

lemmas coord_wf_intros =
  deactivateLocked_wf deactivateObserved_wf abandonCandidate_wf timer_callback_wf
  coord_activate_wf updateActive_wf

text \<open>Every step of the goroutine keeps the invariant.\<close>

lemma goroutine_wf:
  assumes "coord_wf c"
  shows "coord_wf (fst (try_begin cfg now opening c))"
    and "coord_wf (fst (try_acquire_answer now w ans c))"
    and "coord_wf (fst (try_observed cfg now i w own t cl c))"
    and "coord_wf (fst (try_contended now cl c))"
    and "coord_wf (fst (try_activate cfg rc ck now pd i w t rs ans c))"
    and "coord_wf (fst (run_activated c))"
    and "coord_wf (fst (renew_begin ctx c))"
    and "coord_wf (fst (renew_unobserved now ctx cur e w c))"
    and "coord_wf (fst (renew_action cfg now ctx cur w c))"
    and "coord_wf (fst (renew_answer now ctx cur w rs ans c))"
    and "coord_wf (fst (renew_observed ck now ctx cur own rs cl c))"
    and "coord_wf (fst (run_stopped now c))"
proof -
  show un: "coord_wf (fst (renew_unobserved now ctx cur e w c))" for ctx cur e w
    using assms by (auto simp: renew_unobserved_def renew_fail_def markActiveObservationUnavailable_def
        coord_wf_intros split: option.splits)
  show "coord_wf (fst (try_activate cfg rc ck now pd i w t rs ans c))"
  proof (cases ans)
    case (Inr own)
    let ?x = "coord_activate ck now pd own rs (wo_DCSProofDeadline w) c"
    have "coord_wf (snd ?x)" by (rule coord_activate_wf [OF assms])
    then show ?thesis
      by (auto simp: try_activate_def Inr Let_def case_prod_beta coord_wf_intros split: option.splits)
  qed (simp add: try_activate_def assms coord_wf_intros)
  show "coord_wf (fst (renew_observed ck now ctx cur own rs cl c))"
  proof (cases cl)
    case (Inr d)
    have "coord_wf (snd (updateActive ck now own cur rs d c))" by (rule updateActive_wf [OF assms])
    then show ?thesis
      by (auto simp: renew_observed_def Inr renew_fail_def coord_wf_intros
          split: option.splits prod.splits)
  qed (simp add: renew_observed_def un)
  show "coord_wf (fst (renew_answer now ctx cur w rs ans c))"
    using assms by (simp add: renew_answer_def un split: sum.split)
qed (use assms in \<open>auto simp: try_begin_def try_acquire_answer_def try_observed_def try_contended_def
  run_activated_def renew_begin_def renew_action_def renew_fail_def run_stopped_def Let_def
  coord_wf_intros split: option.splits sum.splits\<close>)

end
