(* ===== verification/Ha_Exclusion.thy ===== *)
theory Ha_Exclusion
  imports Ha_Coordinator
begin

text \<open>
  The coordinators of a deployment and the lease table they share, as one transition system, and
  the mutual exclusion they are built for.

  There is one global time. The clock of each process and that of the database are the global time
  plus a fixed offset, so clocks may disagree by any amount but run at the same rate. A request to
  the database is carried out any number of times while the process waits for the answer, each
  time with a clock reading taken between the moment it was sent and the present; when the process
  gives up (a timeout, a broken connection) the request stays behind as a stray and may still be
  carried out at any later time. The observations of the writer, and every error of the observer,
  are chosen freely; the identity of the server that carries out a statement is free too, the
  lease row being that of one durable database. A new holder identity (\<open>uuid.New\<close>) is one not
  issued before.

  The lists \<open>sy_seen\<close> and \<open>sy_proofs\<close> are history: every writer generation an observation named and
  when, and every proof deadline the observer returned for a generation.
\<close>

section \<open>The system\<close>

record node =
  nd_cfg :: coordinator_config
  nd_cd :: coordinator
  nd_phase :: phase
  nd_answer :: "(ha_error + ownership) option"
  nd_offset :: int
  nd_parentDone :: bool

datatype lease_request = ReqAcquire acquire_params | ReqRenew renew_params

record system =
  sy_now :: gotime
  sy_dbOffset :: int
  sy_row :: "lease_row option"
  sy_nodes :: "node list"
  sy_stray :: "lease_request list"
  sy_ids :: "uuid list"
  sy_seen :: "(int \<times> gotime) list"
  sy_proofs :: "(int \<times> gotime) list"

definition local_now :: "system \<Rightarrow> node \<Rightarrow> gotime" where
  "local_now s nd = sy_now s + nd_offset nd"

definition in_flight :: "node \<Rightarrow> (lease_request \<times> gotime) option" where
  "in_flight nd =
     (case nd_phase nd of
        PhAcquiring w h sent \<Rightarrow>
          Some (ReqAcquire (acquire_request w h (cc_LeaseDuration (nd_cfg nd))), sent)
      | PhActivating w own _ sent \<Rightarrow>
          Some (ReqRenew (renew_request w own (cc_LeaseDuration (nd_cfg nd))), sent)
      | PhRenewing _ cur w sent \<Rightarrow>
          Some (ReqRenew (renew_request w cur (cc_LeaseDuration (nd_cfg nd))), sent)
      | _ \<Rightarrow> None)"

text \<open>The answer of a request; \<open>cls\<close> is that of the classifying statement, if it is asked.\<close>

fun carry_out ::
  "pg_identity \<Rightarrow> gotime \<Rightarrow> ha_error + string \<Rightarrow> lease_request \<Rightarrow> lease_row option \<Rightarrow>
    (ha_error + ownership) \<times> lease_row option" where
  "carry_out pg dbt cls (ReqAcquire p) row =
     (acquire_result (fst (AcquireFleetRuntimeLease pg dbt p row)) cls,
      snd (AcquireFleetRuntimeLease pg dbt p row))"
| "carry_out pg dbt cls (ReqRenew p) row =
     (renew_result (fst (RenewFleetRuntimeLease pg dbt p row)),
      snd (RenewFleetRuntimeLease pg dbt p row))"

definition new_node :: "coordinator_config \<Rightarrow> uuid \<Rightarrow> int \<Rightarrow> node" where
  "new_node cfg h off = \<lparr>nd_cfg = cfg, nd_cd = newCoordinatorWithHolder h, nd_phase = PhIdle,
     nd_answer = None, nd_offset = off, nd_parentDone = False\<rparr>"

definition goto :: "node \<Rightarrow> coordinator \<times> phase \<Rightarrow> node" where
  "goto nd x = nd\<lparr>nd_cd := fst x, nd_phase := snd x, nd_answer := None\<rparr>"

text \<open>What happens next to one process, with the inputs the code reads from outside.\<close>

datatype node_event =
    EvBegin "ha_error + writer_observation"
  | EvAnswer gotime gotime uuid
  | EvGiveUp ha_error uuid
  | EvClosing "ha_error + gotime" gotime uuid
  | EvActivated
  | EvRenewTick
  | EvObserved "(ha_error \<times> writer_observation) + writer_observation"
  | EvTimer nat
  | EvStop
  | EvLifetimeEnded
  | EvParentCancel

fun answer_step ::
  "gotime \<Rightarrow> gotime \<Rightarrow> gotime \<Rightarrow> uuid \<Rightarrow> ha_error + ownership \<Rightarrow> node \<Rightarrow> node option" where
  "answer_step now received checked newID ans nd =
     (case nd_phase nd of
        PhAcquiring w h sent \<Rightarrow> Some (goto nd (try_acquire_answer now w ans (nd_cd nd)))
      | PhActivating w own t sent \<Rightarrow>
          Some (goto nd (try_activate (nd_cfg nd) received checked now (nd_parentDone nd) newID w t
            sent ans (nd_cd nd)))
      | PhRenewing ctx cur w sent \<Rightarrow> Some (goto nd (renew_answer now ctx cur w sent ans (nd_cd nd)))
      | _ \<Rightarrow> None)"

fun node_step :: "gotime \<Rightarrow> node_event \<Rightarrow> node \<Rightarrow> node option" where
  "node_step now (EvBegin opening) nd =
     (case nd_phase nd of
        PhIdle \<Rightarrow> Some (goto nd (try_begin (nd_cfg nd) now opening (nd_cd nd)))
      | _ \<Rightarrow> None)"
| "node_step now (EvAnswer received checked newID) nd =
     (case nd_answer nd of
        None \<Rightarrow> None
      | Some ans \<Rightarrow>
          if received \<le> checked \<and> checked \<le> now
          then answer_step now received checked newID ans nd else None)"
| "node_step now (EvGiveUp e newID) nd =
     (if e = ErrTimelineMismatch \<or> e = ErrLeaseUnavailable then None
      else answer_step now now now newID (Inl e) nd)"
| "node_step now (EvClosing closing checked newID) nd =
     (case nd_phase nd of
        PhAcquired w own t \<Rightarrow>
          Some (goto nd (try_observed (nd_cfg nd) now newID w own t closing (nd_cd nd)))
      | PhContended w \<Rightarrow> Some (goto nd (try_contended now closing (nd_cd nd)))
      | PhRenewed ctx cur w own sent \<Rightarrow>
          if checked \<le> now then
            Some (goto nd (renew_observed checked now ctx cur own sent closing (nd_cd nd)))
          else None
      | _ \<Rightarrow> None)"
| "node_step now EvActivated nd =
     (case nd_phase nd of
        PhActivated \<Rightarrow> Some (goto nd (run_activated (nd_cd nd)))
      | _ \<Rightarrow> None)"
| "node_step now EvRenewTick nd =
     (case nd_phase nd of
        PhActive ctx \<Rightarrow> Some (goto nd (renew_begin ctx (nd_cd nd)))
      | _ \<Rightarrow> None)"
| "node_step now (EvObserved opening) nd =
     (case nd_phase nd of
        PhObserving ctx cur \<Rightarrow>
          Some (goto nd (case opening of
              Inl (e, w) \<Rightarrow> renew_unobserved now ctx cur e w (nd_cd nd)
            | Inr w \<Rightarrow> renew_action (nd_cfg nd) now ctx cur w (nd_cd nd)))
      | _ \<Rightarrow> None)"
| "node_step now (EvTimer k) nd =
     (if k < length (cd_timers (nd_cd nd)) \<and> snd (cd_timers (nd_cd nd) ! k) \<le> now then
        Some (nd\<lparr>nd_cd := lease_timer_callback now (fst (cd_timers (nd_cd nd) ! k)) (nd_cd nd)\<rparr>)
      else None)"
| "node_step now EvStop nd =
     (case nd_phase nd of
        PhIdle \<Rightarrow> if nd_parentDone nd then Some (goto nd (run_stopped now (nd_cd nd))) else None
      | PhActivated \<Rightarrow> if nd_parentDone nd then Some (goto nd (run_stopped now (nd_cd nd))) else None
      | PhActive ctx \<Rightarrow> if nd_parentDone nd then Some (goto nd (run_stopped now (nd_cd nd))) else None
      | _ \<Rightarrow> None)"
| "node_step now EvLifetimeEnded nd =
     (case nd_phase nd of
        PhActive ctx \<Rightarrow> map_option (goto nd) (lifetime_ended ctx (nd_cd nd))
      | _ \<Rightarrow> None)"
| "node_step now EvParentCancel nd =
     Some (nd\<lparr>nd_parentDone := True,
              nd_cd := (nd_cd nd)\<lparr>cd_contexts :=
                map (\<lambda>x. case x of None \<Rightarrow> Some ErrContext | Some e \<Rightarrow> Some e) (cd_contexts (nd_cd nd))\<rparr>\<rparr>)"

text \<open>The identity an event issues, the request it leaves behind, and what it adds to the history.\<close>

fun issued_id :: "node_event \<Rightarrow> uuid list" where
  "issued_id (EvAnswer _ _ i) = [i]"
| "issued_id (EvGiveUp _ i) = [i]"
| "issued_id (EvClosing _ _ i) = [i]"
| "issued_id _ = []"

fun left_behind :: "node_event \<Rightarrow> node \<Rightarrow> lease_request list" where
  "left_behind (EvGiveUp _ _) nd = (case in_flight nd of None \<Rightarrow> [] | Some (r, _) \<Rightarrow> [r])"
| "left_behind _ nd = []"

fun seen_by :: "gotime \<Rightarrow> node_event \<Rightarrow> (int \<times> gotime) list" where
  "seen_by t (EvBegin (Inr w)) = [(wo_WriterGeneration w, t)]"
| "seen_by t (EvObserved (Inr w)) = [(wo_WriterGeneration w, t)]"
| "seen_by t _ = []"

definition proved_by :: "node_event \<Rightarrow> node \<Rightarrow> (int \<times> gotime) list" where
  "proved_by ev nd =
     (case ev of
        EvClosing (Inr d) _ _ \<Rightarrow>
          (case nd_phase nd of
             PhAcquired w _ _ \<Rightarrow> [(wo_WriterGeneration w, d - nd_offset nd)]
           | PhRenewed _ _ w _ _ \<Rightarrow> [(wo_WriterGeneration w, d - nd_offset nd)]
           | _ \<Rightarrow> [])
      | _ \<Rightarrow> [])"

datatype sys_op =
    OpWait nat
  | OpNode nat node_event
  | OpCarryOut nat pg_identity gotime "ha_error + string"
  | OpStray nat pg_identity gotime

fun sys_step :: "sys_op \<Rightarrow> system \<Rightarrow> system option" where
  "sys_step (OpWait n) s = Some (s\<lparr>sy_now := sy_now s + int n\<rparr>)"
| "sys_step (OpNode i ev) s =
     (if i < length (sy_nodes s) \<and> set (issued_id ev) \<inter> set (sy_ids s) = {} then
        let nd = sy_nodes s ! i in
        map_option (\<lambda>nd'. s\<lparr>sy_nodes := (sy_nodes s)[i := nd'],
            sy_stray := left_behind ev nd @ sy_stray s,
            sy_ids := issued_id ev @ sy_ids s,
            sy_seen := seen_by (sy_now s) ev @ sy_seen s,
            sy_proofs := proved_by ev nd @ sy_proofs s\<rparr>)
          (node_step (local_now s nd) ev nd)
      else None)"
| "sys_step (OpCarryOut i pg t cls) s =
     (if i < length (sy_nodes s) \<and> t \<le> sy_now s then
        let nd = sy_nodes s ! i in
        case in_flight nd of
          None \<Rightarrow> None
        | Some (r, sent) \<Rightarrow>
            if sent \<le> t + nd_offset nd then
              let x = carry_out pg (t + sy_dbOffset s) cls r (sy_row s) in
              Some (s\<lparr>sy_nodes := (sy_nodes s)[i := nd\<lparr>nd_answer := Some (fst x)\<rparr>],
                      sy_row := snd x\<rparr>)
            else None
      else None)"
| "sys_step (OpStray k pg t) s =
     (if k < length (sy_stray s) \<and> t \<le> sy_now s then
        Some (s\<lparr>sy_row := snd (carry_out pg (t + sy_dbOffset s) (Inr []) (sy_stray s ! k) (sy_row s))\<rparr>)
      else None)"

text \<open>
  The start: any number of processes with distinct holder identities, any clocks, any lease row
  left by earlier processes. A Go duration is at most \<open>max_duration\<close>.
\<close>

definition sys_init :: "system \<Rightarrow> bool" where
  "sys_init s \<longleftrightarrow>
     (\<forall>nd \<in> set (sy_nodes s). \<exists>cfg h off.
        nd = new_node cfg h off \<and> validateCoordinatorConfig cfg False False = None \<and>
        cc_LeaseDuration cfg \<le> max_duration) \<and>
     distinct (map (\<lambda>nd. cd_holderID (nd_cd nd)) (sy_nodes s)) \<and>
     set (map (\<lambda>nd. cd_holderID (nd_cd nd)) (sy_nodes s)) \<subseteq> set (sy_ids s) \<and>
     sy_stray s = [] \<and> sy_seen s = [] \<and> sy_proofs s = []"

inductive sys_reach :: "system \<Rightarrow> bool" where
  reach_init: "sys_init s \<Longrightarrow> sys_reach s"
| reach_step: "sys_reach s \<Longrightarrow> sys_step op s = Some s' \<Longrightarrow> sys_reach s'"

text \<open>Process \<open>i\<close> is in an active lifetime whose local deadline has not passed.\<close>

definition owns :: "system \<Rightarrow> nat \<Rightarrow> bool" where
  "owns s i \<longleftrightarrow> i < length (sy_nodes s) \<and>
     (let nd = sy_nodes s ! i in
      cd_activeCtx (nd_cd nd) \<noteq> None \<and>
      (case cd_leaseTimer (nd_cd nd) of None \<Rightarrow> False | Some (_, d) \<Rightarrow> local_now s nd < d))"

definition owned_gen :: "system \<Rightarrow> nat \<Rightarrow> int" where
  "owned_gen s i = ow_gen (cd_ownership (nd_cd (sy_nodes s ! i)))"

section \<open>Claims\<close>

text \<open>
  A process claims a term until a local time: the term it is active in until its timer, and a
  renewal already granted until the time its answer is good for.
\<close>

definition active_claims :: "coordinator \<Rightarrow> (ownership \<times> gotime) set" where
  "active_claims c =
     (if cd_activeCtx c = None then {}
      else case cd_leaseTimer c of None \<Rightarrow> {} | Some (_, d) \<Rightarrow> {(cd_ownership c, d)})"

definition granted :: "gotime \<Rightarrow> (ha_error + ownership) option \<Rightarrow> (ownership \<times> gotime) set" where
  "granted sent ans =
     (case ans of Some (Inr own) \<Rightarrow> {(own, sent + valid_for own)} | _ \<Rightarrow> {})"

definition pending_claims :: "node \<Rightarrow> (ownership \<times> gotime) set" where
  "pending_claims nd =
     (case nd_phase nd of
        PhActivating _ _ _ sent \<Rightarrow> granted sent (nd_answer nd)
      | PhRenewing _ _ _ sent \<Rightarrow> granted sent (nd_answer nd)
      | PhRenewed _ _ _ own sent \<Rightarrow> granted sent (Some (Inr own))
      | _ \<Rightarrow> {})"

definition claims :: "node \<Rightarrow> (ownership \<times> gotime) set" where
  "claims nd = active_claims (nd_cd nd) \<union> pending_claims nd"

definition lease_length :: "node \<Rightarrow> duration" where
  "lease_length nd = duration_Milliseconds (cc_LeaseDuration (nd_cfg nd)) * millisecond"

definition asked_at :: "gotime \<Rightarrow> node \<Rightarrow> gotime" where
  "asked_at now nd =
     (case nd_phase nd of PhActivating _ _ _ sent \<Rightarrow> sent | PhRenewing _ _ _ sent \<Rightarrow> sent | _ \<Rightarrow> now)"

abbreviation hid :: "node \<Rightarrow> uuid" where
  "hid nd \<equiv> cd_holderID (nd_cd nd)"

definition answer_ok :: "uuid \<Rightarrow> int \<Rightarrow> (ha_error + ownership) option \<Rightarrow> bool" where
  "answer_ok h g ans =
     (case ans of Some (Inr own) \<Rightarrow> ow_HolderID own = h \<and> ow_gen own = g | _ \<Rightarrow> True)"

definition phase_ok :: "gotime \<Rightarrow> node \<Rightarrow> bool" where
  "phase_ok now nd =
     (case nd_phase nd of
        PhAcquiring w h sent \<Rightarrow> h = hid nd \<and> sent \<le> now \<and>
          answer_ok (hid nd) (wo_WriterGeneration w) (nd_answer nd)
      | PhAcquired w own t \<Rightarrow> answer_ok (hid nd) (wo_WriterGeneration w) (Some (Inr own))
      | PhActivating w own t sent \<Rightarrow> sent \<le> now \<and>
          answer_ok (hid nd) (wo_WriterGeneration w) (Some (Inr own)) \<and>
          answer_ok (hid nd) (wo_WriterGeneration w) (nd_answer nd)
      | PhObserving ctx cur \<Rightarrow> ow_HolderID cur = hid nd
      | PhRenewing ctx cur w sent \<Rightarrow> sent \<le> now \<and>
          answer_ok (hid nd) (wo_WriterGeneration w) (Some (Inr cur)) \<and>
          answer_ok (hid nd) (wo_WriterGeneration w) (nd_answer nd)
      | PhRenewed ctx cur w own sent \<Rightarrow> sent \<le> now \<and>
          answer_ok (hid nd) (wo_WriterGeneration w) (Some (Inr own))
      | _ \<Rightarrow> True)"

definition node_ok :: "gotime \<Rightarrow> node \<Rightarrow> bool" where
  "node_ok now nd \<longleftrightarrow> coord_wf (nd_cd nd) \<and> phase_ok now nd \<and>
     0 < cc_LeaseDuration (nd_cfg nd) \<and> cc_LeaseDuration (nd_cfg nd) \<le> max_duration \<and>
     (\<forall>(own, d) \<in> claims nd. ow_HolderID own = hid nd \<and> d \<le> asked_at now nd + lease_length nd)"

text \<open>No claim is new or longer.\<close>

definition claims_le :: "(ownership \<times> gotime) set \<Rightarrow> (ownership \<times> gotime) set \<Rightarrow> bool" where
  "claims_le A B \<longleftrightarrow> (\<forall>(own, d) \<in> A. \<exists>d'. (own, d') \<in> B \<and> d \<le> d')"

lemma claims_le_empty [simp]: "claims_le {} B"
  by (simp add: claims_le_def)

lemma claims_le_subset: "A \<subseteq> B \<Longrightarrow> claims_le A B"
  by (auto simp: claims_le_def)

lemma claims_leD: "claims_le A B \<Longrightarrow> (own, d) \<in> A \<Longrightarrow> \<exists>d'. (own, d') \<in> B \<and> d \<le> d'"
  by (auto simp: claims_le_def)

section \<open>Claims under the critical sections\<close>

lemma section_holder [simp]:
  "cd_holderID (deactivateLocked now cause c) = cd_holderID c"
  "cd_holderID (deactivateObserved now d c) = cd_holderID c"
  "cd_holderID (abandonCandidate cfg now i t e c) = i"
  "cd_holderID (lease_timer_callback now v c) = cd_holderID c"
  "cd_holderID (snd (coord_activate ck now pd own rs dl c)) = cd_holderID c"
  "cd_holderID (snd (updateActive ck now own ex rs dl c)) = cd_holderID c"
  by (simp_all add: coord_section_defs lease_timer_callback_def coord_activate_def updateActive_def
      split: option.split sum.split)

lemma section_inactive [simp]:
  "cd_activeCtx (deactivateLocked now cause c) = None"
  "cd_activeCtx (deactivateObserved now d c) = None"
  "cd_activeCtx (abandonCandidate cfg now i t e c) = None"
  by (simp_all add: coord_section_defs)

lemma active_claims_section [simp]:
  "active_claims (deactivateLocked now cause c) = {}"
  "active_claims (deactivateObserved now d c) = {}"
  "active_claims (abandonCandidate cfg now i t e c) = {}"
  by (simp_all add: active_claims_def)

lemma active_claims_contexts [simp]: "active_claims (c\<lparr>cd_contexts := x\<rparr>) = active_claims c"
  by (simp add: active_claims_def cong: option.case_cong)

lemma active_claims_timer: "active_claims (lease_timer_callback now v c) \<subseteq> active_claims c"
  by (simp add: lease_timer_callback_def)

lemma local_deadline_bounds:
  assumes "localOwnershipDeadline now own rs dl = Inr d"
  shows "d \<le> rs + valid_for own" "d \<le> dl" "now < d"
  using assms by (auto simp: localOwnershipDeadline_def time_defs Let_def split: if_splits)

lemma active_claims_activate:
  assumes "coord_activate ck now pd own rs dl c = (None, c')"
  shows "\<exists>d. active_claims c' = {(own, d)} \<and> d \<le> rs + valid_for own \<and> d \<le> dl"
  using assms local_deadline_bounds [of ck own rs dl]
  by (auto simp: coord_activate_def active_claims_def coord_section_defs split: sum.splits if_splits)

lemma coord_activate_error: "coord_activate ck now pd own rs dl c = (Some e, c') \<Longrightarrow> c' = c"
  by (auto simp: coord_activate_def Let_def split: sum.splits if_splits)

lemma active_claims_update:
  assumes "updateActive ck now own ex rs dl c = (None, c')"
  shows "\<exists>d. active_claims c' = {(own, d)} \<and> d \<le> rs + valid_for own \<and> d \<le> dl"
  using assms local_deadline_bounds [of ck own rs dl]
  by (auto simp: updateActive_def active_claims_def coord_section_defs split: sum.splits if_splits)

lemma updateActive_error: "updateActive ck now own ex rs dl c = (Some e, c') \<Longrightarrow> c' = c"
  by (auto simp: updateActive_def Let_def split: sum.splits if_splits)

lemma goto_simps [simp]:
  "nd_cfg (goto nd x) = nd_cfg nd" "nd_offset (goto nd x) = nd_offset nd"
  "nd_cd (goto nd x) = fst x" "nd_phase (goto nd x) = snd x" "nd_answer (goto nd x) = None"
  "lease_length (goto nd x) = lease_length nd"
  by (simp_all add: goto_def lease_length_def)

section \<open>Steps of one process\<close>

text \<open>
  A move of the goroutine to \<open>x\<close>: the coordinator stays well formed, no claim is new or longer,
  and the holder identity changes only to \<open>i\<close>, when nothing is claimed.
\<close>

definition good_move :: "gotime \<Rightarrow> node \<Rightarrow> uuid \<Rightarrow> coordinator \<times> phase \<Rightarrow> bool" where
  "good_move now nd i x \<longleftrightarrow> coord_wf (fst x) \<and> claims_le (claims (goto nd x)) (claims nd) \<and>
     phase_ok now (goto nd x) \<and> asked_at now (goto nd x) = now \<and>
     (cd_holderID (fst x) = hid nd \<or> (cd_holderID (fst x) = i \<and> claims (goto nd x) = {}))"

lemma asked_at_le: "phase_ok now nd \<Longrightarrow> asked_at now nd \<le> now"
  by (auto simp: asked_at_def phase_ok_def split: phase.splits)

lemma good_move_ok:
  assumes ok: "node_ok now nd" and mv: "good_move now nd i x"
  shows "node_ok now (goto nd x)"
proof -
  have "ow_HolderID own = cd_holderID (fst x) \<and> d \<le> now + lease_length nd"
    if "(own, d) \<in> claims (goto nd x)" for own d
  proof -
    from claims_leD [OF _ that] mv obtain d' where d': "(own, d') \<in> claims nd" "d \<le> d'"
      by (auto simp: good_move_def)
    have "ow_HolderID own = hid nd" "d' \<le> asked_at now nd + lease_length nd"
      using ok d'(1) by (auto simp: node_ok_def)
    moreover have "asked_at now nd \<le> now" using ok by (simp add: node_ok_def asked_at_le)
    ultimately show ?thesis using mv that d'(2) by (auto simp: good_move_def)
  qed
  then show ?thesis using ok mv by (auto simp: node_ok_def good_move_def)
qed

text \<open>Moves that end in a phase with nothing pending.\<close>

definition quiet :: "phase \<Rightarrow> bool" where
  "quiet ph \<longleftrightarrow> (case ph of PhIdle \<Rightarrow> True | PhContended _ \<Rightarrow> True | PhActivated \<Rightarrow> True
     | PhActive _ \<Rightarrow> True | PhDone _ \<Rightarrow> True | _ \<Rightarrow> False)"

lemma quiet_goto:
  assumes "quiet (snd x)"
  shows "pending_claims (goto nd x) = {}" "phase_ok now (goto nd x)" "asked_at now (goto nd x) = now"
  using assms by (auto simp: quiet_def pending_claims_def phase_ok_def asked_at_def split: phase.splits)

lemma quiet_simps [simp]:
  "quiet PhIdle" "quiet (PhContended w)" "quiet PhActivated" "quiet (PhActive ctx)" "quiet (PhDone e)"
  by (simp_all add: quiet_def)

lemma good_move_inactive:
  assumes "coord_wf (fst x)" "cd_activeCtx (fst x) = None" "quiet (snd x)"
    and "cd_holderID (fst x) = hid nd \<or> cd_holderID (fst x) = i"
  shows "good_move now nd i x"
  using assms by (auto simp: good_move_def quiet_goto claims_def active_claims_def)

lemma good_move_same:
  assumes "coord_wf (fst x)" "active_claims (fst x) \<subseteq> active_claims (nd_cd nd)" "quiet (snd x)"
    and "cd_holderID (fst x) = hid nd"
  shows "good_move now nd i x"
  using assms by (auto simp: good_move_def quiet_goto claims_def intro!: claims_le_subset)

lemma node_okD:
  assumes "node_ok now nd"
  shows "coord_wf (nd_cd nd)" "phase_ok now nd"
  using assms by (simp_all add: node_ok_def)

lemma active_holder:
  assumes "node_ok now nd" "cd_activeCtx (nd_cd nd) = Some ctx"
  shows "ow_HolderID (cd_ownership (nd_cd nd)) = hid nd"
  using assms by (fastforce simp: node_ok_def claims_def active_claims_def coord_wf_def split: option.splits)

lemma move_try_begin:
  assumes "node_ok now nd"
  shows "good_move now nd i (try_begin (nd_cfg nd) now opening (nd_cd nd))"
proof -
  have wf: "coord_wf (nd_cd nd)" using assms by (rule node_okD)
  show ?thesis
    using wf
    by (auto simp: try_begin_def good_move_inactive good_move_same coord_wf_intros
        split: sum.splits option.splits)
      (auto simp: good_move_def claims_def pending_claims_def phase_ok_def asked_at_def answer_ok_def
        intro!: claims_le_subset)
qed

lemma move_try_answer:
  assumes "node_ok now nd" "nd_phase nd = PhAcquiring w h sent"
    and "answer_ok (hid nd) (wo_WriterGeneration w) (Some ans)"
  shows "good_move now nd i (try_acquire_answer now w ans (nd_cd nd))"
proof -
  have wf: "coord_wf (nd_cd nd)" using assms(1) by (rule node_okD)
  show ?thesis
    using wf assms(3)
    by (auto simp: try_acquire_answer_def good_move_inactive good_move_same coord_wf_intros
        split: sum.splits)
      (auto simp: good_move_def claims_def pending_claims_def phase_ok_def asked_at_def answer_ok_def
        intro!: claims_le_subset)
qed

lemma move_try_observed:
  assumes "node_ok now nd" "nd_phase nd = PhAcquired w own t"
  shows "good_move now nd i (try_observed (nd_cfg nd) now i w own t closing (nd_cd nd))"
proof -
  have wf: "coord_wf (nd_cd nd)" "phase_ok now nd" using assms(1) by (rule node_okD)+
  show ?thesis
    using wf assms(2)
    by (auto simp: try_observed_def Let_def good_move_inactive coord_wf_intros
        split: sum.splits option.splits)
      (auto simp: good_move_def claims_def pending_claims_def phase_ok_def asked_at_def answer_ok_def
        granted_def intro!: claims_le_subset)
qed

lemma move_try_contended:
  "node_ok now nd \<Longrightarrow> good_move now nd i (try_contended now closing (nd_cd nd))"
  by (auto simp: try_contended_def good_move_inactive node_okD coord_wf_intros split: sum.splits)

lemma move_try_activate:
  assumes "node_ok now nd" "nd_phase nd = PhActivating w own t sent"
    and "case ans of Inl e \<Rightarrow> True | Inr _ \<Rightarrow> nd_answer nd = Some ans"
  shows "good_move now nd i
    (try_activate (nd_cfg nd) rc ck now pd i w t sent ans (nd_cd nd))"
proof -
  have wf: "coord_wf (nd_cd nd)" using assms(1) by (rule node_okD)
  show ?thesis
  proof (cases ans)
    case (Inl e)
    then show ?thesis using wf by (simp add: try_activate_def good_move_inactive coord_wf_intros)
  next
    case (Inr ren)
    let ?x = "coord_activate ck now pd ren sent (wo_DCSProofDeadline w) (nd_cd nd)"
    show ?thesis
    proof (cases "fst ?x")
      case None
      then obtain c' where c': "?x = (None, c')" by (metis prod.collapse)
      from active_claims_activate [OF c'] obtain d where
        d: "active_claims c' = {(ren, d)}" "d \<le> sent + valid_for ren" by blast
      have wf': "coord_wf c'" and h: "cd_holderID c' = hid nd"
        using coord_activate_wf [OF wf, of ck now pd ren sent "wo_DCSProofDeadline w"]
          section_holder(5) [of ck now pd ren sent "wo_DCSProofDeadline w" "nd_cd nd"] c'
        by simp_all
      have "(ren, sent + valid_for ren) \<in> claims nd"
        using assms(2,3) Inr by (simp add: claims_def pending_claims_def granted_def)
      then have "claims_le {(ren, d)} (claims nd)"
        using d(2) by (auto simp: claims_le_def)
      then show ?thesis
        using wf' h d(1)
        by (simp add: try_activate_def Inr Let_def c' good_move_def claims_def quiet_goto)
    next
      case (Some e)
      then obtain c' where c': "?x = (Some e, c')" by (metis prod.collapse)
      then show ?thesis using wf coord_activate_error [OF c']
        by (simp add: try_activate_def Inr Let_def good_move_inactive coord_wf_intros)
    qed
  qed
qed

lemma move_run_activated: "node_ok now nd \<Longrightarrow> good_move now nd i (run_activated (nd_cd nd))"
  by (auto simp: run_activated_def ActiveLifetime_def good_move_same node_okD split: option.splits)

lemma move_renew_begin:
  assumes "node_ok now nd"
  shows "good_move now nd i (renew_begin ctx (nd_cd nd))"
proof (cases "cd_activeCtx (nd_cd nd) = Some ctx")
  case True
  then show ?thesis
    using active_holder [OF assms True] node_okD(1) [OF assms]
    by (auto simp: renew_begin_def good_move_def claims_def pending_claims_def phase_ok_def asked_at_def
        intro!: claims_le_subset)
qed (simp add: renew_begin_def good_move_same node_okD [OF assms])

lemma active_claims_observed [simp]: "active_claims (c\<lparr>cd_observed := b\<rparr>) = active_claims c"
  by (simp add: active_claims_def cong: option.case_cong)

lemma move_renew_fail: "node_ok now nd \<Longrightarrow> good_move now nd i (renew_fail t e (nd_cd nd))"
  by (simp add: renew_fail_def good_move_inactive node_okD coord_wf_intros)

lemma move_renew_unobserved:
  assumes "node_ok now nd"
  shows "good_move now nd i (renew_unobserved now ctx cur e w (nd_cd nd))"
  using move_renew_fail [OF assms] node_okD(1) [OF assms]
  by (auto simp: renew_unobserved_def markActiveObservationUnavailable_def good_move_same
      split: option.splits)

lemma move_renew_action:
  assumes "node_ok now nd" "nd_phase nd = PhObserving ctx cur"
  shows "good_move now nd i (renew_action (nd_cfg nd) now ctx cur w (nd_cd nd))"
  using move_renew_fail [OF assms(1)] node_okD [OF assms(1)] assms(2)
  by (auto simp: renew_action_def validateObservedWriter_def split: option.splits if_splits)
    (auto simp: good_move_def claims_def pending_claims_def phase_ok_def asked_at_def answer_ok_def
        granted_def intro!: claims_le_subset)

lemma move_renew_answer:
  assumes "node_ok now nd" "nd_phase nd = PhRenewing ctx cur w sent"
    and "case ans of Inl e \<Rightarrow> True | Inr _ \<Rightarrow> nd_answer nd = Some ans"
  shows "good_move now nd i (renew_answer now ctx cur w sent ans (nd_cd nd))"
proof (cases ans)
  case (Inl e)
  then show ?thesis using move_renew_unobserved [OF assms(1)] by (simp add: renew_answer_def)
next
  case (Inr own)
  then show ?thesis using node_okD [OF assms(1)] assms(2,3)
    by (auto simp: renew_answer_def good_move_def claims_def pending_claims_def phase_ok_def
        asked_at_def intro!: claims_le_subset)
qed

lemma move_renew_observed:
  assumes "node_ok now nd" "nd_phase nd = PhRenewed ctx cur w own sent"
  shows "good_move now nd i (renew_observed ck now ctx cur own sent closing (nd_cd nd))"
proof (cases closing)
  case (Inl e)
  then show ?thesis using move_renew_unobserved [OF assms(1)] by (simp add: renew_observed_def)
next
  case (Inr dl)
  let ?x = "updateActive ck now own cur sent dl (nd_cd nd)"
  show ?thesis
  proof (cases "fst ?x")
    case None
    then obtain c' where c': "?x = (None, c')" by (metis prod.collapse)
    from active_claims_update [OF c'] obtain d where
      d: "active_claims c' = {(own, d)}" "d \<le> sent + valid_for own" by blast
    have wf': "coord_wf c'" and h: "cd_holderID c' = hid nd"
      using updateActive_wf [OF node_okD(1) [OF assms(1)], of ck now own cur sent dl]
        section_holder(6) [of ck now own cur sent dl "nd_cd nd"] c' by simp_all
    have "(own, sent + valid_for own) \<in> claims nd"
      using assms(2) by (simp add: claims_def pending_claims_def granted_def)
    then have "claims_le {(own, d)} (claims nd)"
      using d(2) by (auto simp: claims_le_def)
    then show ?thesis
      using wf' h d(1) by (simp add: renew_observed_def Inr c' good_move_def claims_def quiet_goto)
  next
    case (Some e)
    then obtain c' where c': "?x = (Some e, c')" by (metis prod.collapse)
    then show ?thesis
      using move_renew_fail [OF assms(1)] updateActive_error [OF c']
      by (simp add: renew_observed_def Inr)
  qed
qed

text \<open>Every event of a process keeps its invariant and extends no claim.\<close>

definition good_step :: "gotime \<Rightarrow> node_event \<Rightarrow> node \<Rightarrow> node \<Rightarrow> bool" where
  "good_step now ev nd nd' \<longleftrightarrow> node_ok now nd' \<and> claims_le (claims nd') (claims nd) \<and>
     (hid nd' = hid nd \<or> (hid nd' \<in> set (issued_id ev) \<and> claims nd' = {})) \<and>
     nd_offset nd' = nd_offset nd"

lemma good_move_step:
  assumes "node_ok now nd" "good_move now nd i x" "i = hid nd \<or> i \<in> set (issued_id ev)"
  shows "good_step now ev nd (goto nd x)"
  using good_move_ok [OF assms(1,2)] assms(2,3) by (auto simp: good_step_def good_move_def)

lemma answer_ok_of_phase:
  assumes "node_ok now nd" "nd_phase nd = PhAcquiring w h sent"
    and "case ans of Inl e \<Rightarrow> True | Inr _ \<Rightarrow> nd_answer nd = Some ans"
  shows "answer_ok (hid nd) (wo_WriterGeneration w) (Some ans)"
  using assms node_okD(2) [OF assms(1)] by (cases ans) (auto simp: phase_ok_def answer_ok_def)

lemma answer_step_good:
  assumes "node_ok now nd" "answer_step now rc ck i ans nd = Some nd'"
    and "case ans of Inl e \<Rightarrow> True | Inr _ \<Rightarrow> nd_answer nd = Some ans"
    and "i \<in> set (issued_id ev)"
  shows "good_step now ev nd nd'"
proof (cases "nd_phase nd")
  case (PhAcquiring w h sent)
  with assms show ?thesis
    by (auto intro!: good_move_step [of _ _ i] move_try_answer answer_ok_of_phase)
next
  case (PhActivating w own t sent)
  with assms show ?thesis
    by (auto intro!: good_move_step [of _ _ i] move_try_activate)
next
  case (PhRenewing ctx cur w sent)
  with assms show ?thesis
    by (auto intro!: good_move_step [of _ _ i] move_renew_answer)
qed (use assms(2) in simp_all)

lemma timer_step_good:
  assumes "node_ok now nd"
  shows "good_step now ev nd (nd\<lparr>nd_cd := lease_timer_callback now v (nd_cd nd)\<rparr>)"
proof -
  let ?c = "lease_timer_callback now v (nd_cd nd)" and ?nd = "nd\<lparr>nd_cd := lease_timer_callback now v (nd_cd nd)\<rparr>"
  have sub: "claims ?nd \<subseteq> claims nd"
    using active_claims_timer [of now v "nd_cd nd"] by (auto simp: claims_def pending_claims_def cong: phase.case_cong)
  have "phase_ok now ?nd" "asked_at now ?nd = asked_at now nd" "lease_length ?nd = lease_length nd"
    using node_okD(2) [OF assms]
    by (simp_all add: phase_ok_def asked_at_def lease_length_def cong: phase.case_cong)
  then show ?thesis
    using assms sub by (auto simp: good_step_def node_ok_def coord_wf_intros intro!: claims_le_subset)
qed

lemma parent_step_good:
  assumes "node_ok now nd"
  shows "good_step now ev nd (nd\<lparr>nd_parentDone := True,
    nd_cd := (nd_cd nd)\<lparr>cd_contexts := map f (cd_contexts (nd_cd nd))\<rparr>\<rparr>)" (is "good_step now ev nd ?nd")
proof -
  have "coord_wf (nd_cd ?nd)" "claims ?nd = claims nd"
    using node_okD(1) [OF assms]
    by (simp_all add: coord_wf_def claims_def pending_claims_def active_claims_def
        cong: option.case_cong phase.case_cong)
  moreover have "phase_ok now ?nd" "asked_at now ?nd = asked_at now nd" "lease_length ?nd = lease_length nd"
    using node_okD(2) [OF assms]
    by (simp_all add: phase_ok_def asked_at_def lease_length_def cong: phase.case_cong)
  ultimately show ?thesis
    using assms by (auto simp: good_step_def node_ok_def intro!: claims_le_subset)
qed

lemma node_step_good:
  assumes "node_ok now nd" "node_step now ev nd = Some nd'"
  shows "good_step now ev nd nd'"
proof (cases ev)
  case (EvAnswer rc ck i)
  with assms show ?thesis
    by (auto split: option.splits if_splits sum.splits simp del: answer_step.simps
        intro!: answer_step_good)
next
  case (EvGiveUp e i)
  with assms show ?thesis
    by (auto split: if_splits simp del: answer_step.simps intro!: answer_step_good)
next
  case (EvClosing cl ck i)
  with assms show ?thesis
    by (auto split: phase.splits if_splits
        intro!: good_move_step [of _ _ i] move_try_observed move_try_contended move_renew_observed)
next
  case (EvBegin x)
  with assms show ?thesis
    by (auto split: phase.splits intro!: good_move_step [of _ _ "hid nd"] move_try_begin)
next
  case EvActivated
  with assms show ?thesis
    by (auto split: phase.splits intro!: good_move_step [of _ _ "hid nd"] move_run_activated)
next
  case EvRenewTick
  with assms show ?thesis
    by (auto split: phase.splits intro!: good_move_step [of _ _ "hid nd"] move_renew_begin)
next
  case (EvObserved x)
  with assms show ?thesis
    by (auto split: phase.splits sum.splits
        intro!: good_move_step [of _ _ "hid nd"] move_renew_unobserved move_renew_action)
next
  case (EvTimer k)
  with assms show ?thesis by (auto split: if_splits intro!: timer_step_good)
next
  case EvStop
  with assms show ?thesis
    by (auto simp: run_stopped_def split: phase.splits if_splits
        intro!: good_move_step [of _ _ "hid nd"] move_renew_fail)
next
  case EvLifetimeEnded
  with assms show ?thesis
    by (auto simp: lifetime_ended_def node_okD split: phase.splits option.splits
        intro!: good_move_step [of _ _ "hid nd"] good_move_same)
next
  case EvParentCancel
  with assms show ?thesis by (auto intro!: parent_step_good)
qed

lemma node_ok_later:
  assumes "node_ok now nd" "now \<le> now'"
  shows "node_ok now' nd"
proof -
  have "asked_at now nd \<le> asked_at now' nd"
    using assms(2) by (simp add: asked_at_def split: phase.split)
  moreover have "phase_ok now' nd"
    using node_okD(2) [OF assms(1)] assms(2) by (auto simp: phase_ok_def split: phase.splits)
  ultimately show ?thesis using assms(1) by (fastforce simp: node_ok_def)
qed

text \<open>A process that gives up a renewal never uses its holder identity again.\<close>

definition finished :: "node \<Rightarrow> bool" where
  "finished nd \<longleftrightarrow> claims nd = {} \<and> (\<exists>e. nd_phase nd = PhDone e)"

lemma finished_step:
  assumes "finished nd" "node_ok now nd" "node_step now ev nd = Some nd'"
  shows "finished nd'"
proof -
  have "claims nd' = {}"
    using node_step_good [OF assms(2,3)] assms(1) by (auto simp: good_step_def finished_def claims_le_def)
  moreover have "nd_phase nd' = nd_phase nd"
    using assms(1,3) by (cases ev) (auto simp: finished_def split: option.splits if_splits)
  ultimately show ?thesis using assms(1) by (simp add: finished_def)
qed

lemma renew_fail_finished: "finished (goto nd (renew_fail now e c))"
  by (simp add: finished_def renew_fail_def claims_def pending_claims_def)

lemma give_up_renewal:
  assumes "node_ok now nd" "node_step now (EvGiveUp e i) nd = Some nd'"
    and "in_flight nd = Some (ReqRenew p, sent)"
  shows "wp_HolderID p = hid nd \<and> (hid nd' = i \<or> finished nd')"
  using assms(2,3) node_okD(2) [OF assms(1)] renew_fail_finished
  by (auto simp: in_flight_def phase_ok_def answer_ok_def renew_request_def try_activate_def
      renew_answer_def renew_unobserved_def split: phase.splits if_splits)

lemma renew_in_flight:
  assumes "node_ok now nd" "in_flight nd = Some (ReqRenew p, sent)"
  shows "wp_HolderID p = hid nd" "asked_at now nd = sent"
    and "rp_LeaseDurationMilliseconds p * millisecond = lease_length nd"
    and "pending_claims nd = granted sent (nd_answer nd)"
  using assms(2) node_okD(2) [OF assms(1)]
  by (auto simp: in_flight_def phase_ok_def answer_ok_def renew_request_def asked_at_def
      lease_length_def pending_claims_def split: phase.splits)

section \<open>The invariant of the system\<close>

definition db_time :: "system \<Rightarrow> node \<Rightarrow> gotime \<Rightarrow> gotime" where
  "db_time s nd d = d - nd_offset nd + sy_dbOffset s"

text \<open>Every claim whose time has not passed is protected by the lease row.\<close>

definition covered :: "system \<Rightarrow> node \<Rightarrow> ownership \<times> gotime \<Rightarrow> bool" where
  "covered s nd c = (local_now s nd < snd c \<longrightarrow> protects (sy_row s) (fst c) (db_time s nd (snd c)))"

definition conflict :: "system \<Rightarrow> node \<Rightarrow> node \<Rightarrow> bool" where
  "conflict s a b \<longleftrightarrow> (\<exists>own d own' d'. (own, d) \<in> claims a \<and> (own', d') \<in> claims b \<and>
     local_now s a < d \<and> local_now s b < d' \<and> ow_gen own = ow_gen own')"

definition stray_ok :: "system \<Rightarrow> lease_request \<Rightarrow> bool" where
  "stray_ok s r = (case r of ReqAcquire _ \<Rightarrow> True | ReqRenew p \<Rightarrow>
     wp_HolderID p \<in> set (sy_ids s) \<and>
     (\<forall>nd \<in> set (sy_nodes s). hid nd = wp_HolderID p \<longrightarrow> finished nd))"

definition sys_inv :: "system \<Rightarrow> bool" where
  "sys_inv s \<longleftrightarrow>
     (\<forall>nd \<in> set (sy_nodes s). node_ok (local_now s nd) nd \<and> hid nd \<in> set (sy_ids s) \<and>
        (\<forall>c \<in> claims nd. covered s nd c)) \<and>
     (\<forall>i j. i < length (sy_nodes s) \<longrightarrow> j < length (sy_nodes s) \<longrightarrow> i \<noteq> j \<longrightarrow>
        hid (sy_nodes s ! i) \<noteq> hid (sy_nodes s ! j) \<and> \<not> conflict s (sy_nodes s ! i) (sy_nodes s ! j)) \<and>
     (\<forall>r \<in> set (sy_stray s). stray_ok s r)"

lemma claims_new_node [simp]: "claims (new_node cfg h off) = {}"
  by (simp add: claims_def active_claims_def pending_claims_def new_node_def newCoordinatorWithHolder_def)

lemma sys_inv_init:
  assumes "sys_init s"
  shows "sys_inv s"
proof -
  have nd: "claims nd = {} \<and> node_ok t nd \<and> hid nd \<in> set (sy_ids s)"
    if nd_in: "nd \<in> set (sy_nodes s)" for nd t
  proof -
    from assms nd_in obtain cfg h off where
      nd: "nd = new_node cfg h off" "cc_LeaseDuration cfg \<le> max_duration"
        "validateCoordinatorConfig cfg False False = None"
      unfolding sys_init_def by blast
    from nd(3) have "0 < cc_LeaseDuration cfg"
      by (auto simp: validateCoordinatorConfig_def split: if_splits)
    moreover have "claims nd = {}" by (simp add: nd(1))
    moreover have "coord_wf (nd_cd nd)" "nd_phase nd = PhIdle" "nd_cfg nd = cfg"
      using new_coord_wf [of h] by (simp_all add: nd(1) new_node_def)
    moreover have "hid nd \<in> set (sy_ids s)" using assms nd_in by (auto simp: sys_init_def)
    ultimately show ?thesis using nd(2) by (simp add: node_ok_def phase_ok_def)
  qed
  have "hid (sy_nodes s ! i) \<noteq> hid (sy_nodes s ! j)"
    if "i < length (sy_nodes s)" "j < length (sy_nodes s)" "i \<noteq> j" for i j
    using assms that nth_eq_iff_index_eq [of "map (\<lambda>nd. hid nd) (sy_nodes s)" i j]
    by (auto simp: sys_init_def)
  then show ?thesis
    using nd assms by (auto simp: sys_inv_def conflict_def sys_init_def)
qed

lemma sys_invD:
  assumes "sys_inv s" "i < length (sy_nodes s)"
  shows "node_ok (local_now s (sy_nodes s ! i)) (sy_nodes s ! i)" "hid (sy_nodes s ! i) \<in> set (sy_ids s)"
    and "c \<in> claims (sy_nodes s ! i) \<Longrightarrow> covered s (sy_nodes s ! i) c"
  using assms by (auto simp: sys_inv_def)

lemma sys_inv_wait:
  assumes "sys_inv s"
  shows "sys_inv (s\<lparr>sy_now := sy_now s + int n\<rparr>)" (is "sys_inv ?s")
proof -
  have later: "local_now s nd \<le> local_now ?s nd" for nd by (simp add: local_now_def)
  have "covered ?s nd c" if "covered s nd c" for nd c
    using that later [of nd] by (auto simp: covered_def db_time_def)
  moreover have "\<not> conflict ?s a b" if "\<not> conflict s a b" for a b
    using that later [of a] later [of b] unfolding conflict_def by (meson le_less_trans)
  moreover have "stray_ok ?s r = stray_ok s r" for r
    by (simp add: stray_ok_def split: lease_request.split)
  ultimately show ?thesis
    using assms node_ok_later [OF _ later] by (auto simp: sys_inv_def)
qed

lemma conflict_le:
  assumes "conflict s' a b" "claims_le (claims a) (claims a')" "claims_le (claims b) (claims b')"
    and "local_now s' a = local_now s a'" "local_now s' b = local_now s b'"
  shows "conflict s a' b'"
proof -
  from assms(1) obtain own d own' d' where c: "(own, d) \<in> claims a" "(own', d') \<in> claims b"
    "local_now s' a < d" "local_now s' b < d'" "ow_gen own = ow_gen own'" by (auto simp: conflict_def)
  from claims_leD [OF assms(2) c(1)] claims_leD [OF assms(3) c(2)] c(3-5) assms(4,5)
  show ?thesis unfolding conflict_def by fastforce
qed

lemma covered_le:
  assumes "covered s nd (own, d')" "d \<le> d'" "nd_offset nd' = nd_offset nd"
    and "sy_row s' = sy_row s" "sy_now s' = sy_now s" "sy_dbOffset s' = sy_dbOffset s"
  shows "covered s' nd' (own, d)"
  using assms by (auto simp: covered_def local_now_def db_time_def protects_def split: option.splits)

lemma left_behind_ok:
  assumes "node_ok now nd" "node_step now ev nd = Some nd'" "ReqRenew p \<in> set (left_behind ev nd)"
  shows "wp_HolderID p = hid nd \<and> (hid nd' \<in> set (issued_id ev) \<or> finished nd')"
proof -
  from assms(3) obtain e i sent where ev: "ev = EvGiveUp e i" "in_flight nd = Some (ReqRenew p, sent)"
    by (cases ev; cases "in_flight nd") auto
  from give_up_renewal [OF assms(1) assms(2)[unfolded ev(1)] ev(2)] show ?thesis by (auto simp: ev(1))
qed

lemma sys_inv_node:
  assumes inv: "sys_inv s" and i: "i < length (sy_nodes s)"
    and fresh: "set (issued_id ev) \<inter> set (sy_ids s) = {}"
    and st: "node_step (local_now s (sy_nodes s ! i)) ev (sy_nodes s ! i) = Some nd'"
  shows "sys_inv (s\<lparr>sy_nodes := (sy_nodes s)[i := nd'],
     sy_stray := left_behind ev (sy_nodes s ! i) @ sy_stray s, sy_ids := issued_id ev @ sy_ids s,
     sy_seen := seen, sy_proofs := proofs\<rparr>)" (is "sys_inv ?s")
proof -
  let ?nd = "sy_nodes s ! i"
  have ok: "node_ok (local_now s ?nd) ?nd" by (rule sys_invD [OF inv i])
  note good = node_step_good [OF ok st, unfolded good_step_def]
  have now: "local_now ?s nd = local_now s nd" for nd by (simp add: local_now_def)
  have now': "local_now s nd' = local_now s ?nd" using good by (simp add: local_now_def)
  have hid': "hid nd' \<in> set (issued_id ev) \<or> hid nd' = hid ?nd" using good by blast
  have cov': "covered ?s nd' c" if c: "c \<in> claims nd'" for c
  proof -
    obtain own d where od: "c = (own, d)" by force
    from claims_leD [of _ "claims ?nd" own d] good c od obtain d' where
      "(own, d') \<in> claims ?nd" "d \<le> d'" by blast
    with sys_invD(3) [OF inv i] good show ?thesis
      by (auto simp: od intro: covered_le [of s ?nd own d' d nd'])
  qed
  have cov: "covered ?s nd c = covered s nd c" for nd c
    by (simp add: covered_def local_now_def db_time_def)
  have nodes: "node_ok (local_now ?s nd) nd \<and> hid nd \<in> set (sy_ids ?s) \<and>
      (\<forall>c \<in> claims nd. covered ?s nd c)" if nd: "nd \<in> set (sy_nodes ?s)" for nd
  proof (cases "nd = nd'")
    case True
    then show ?thesis
      using good now now' hid' cov' sys_invD(2) [OF inv i] by auto
  next
    case False
    with nd have "nd \<in> set (sy_nodes s)"
      using set_update_subset_insert [of "sy_nodes s" i nd'] by auto
    then show ?thesis using inv now cov by (auto simp: sys_inv_def)
  qed
  have other: "hid (sy_nodes s ! j) \<noteq> hid nd' \<and> \<not> conflict ?s nd' (sy_nodes s ! j) \<and>
      \<not> conflict ?s (sy_nodes s ! j) nd'" if j: "j < length (sy_nodes s)" "j \<noteq> i" for j
  proof -
    have old: "hid (sy_nodes s ! j) \<noteq> hid ?nd" "\<not> conflict s ?nd (sy_nodes s ! j)"
      "\<not> conflict s (sy_nodes s ! j) ?nd"
      using inv i j by (auto simp: sys_inv_def)
    have "hid (sy_nodes s ! j) \<noteq> hid nd'"
      using hid' old(1) sys_invD(2) [OF inv j(1)] fresh by auto
    moreover have "\<not> conflict ?s nd' (sy_nodes s ! j)" "\<not> conflict ?s (sy_nodes s ! j) nd'"
      using old(2,3) conflict_le [of ?s nd' "sy_nodes s ! j" ?nd "sy_nodes s ! j" s]
        conflict_le [of ?s "sy_nodes s ! j" nd' "sy_nodes s ! j" ?nd s] good now now'
      by (auto intro: claims_le_subset)
    ultimately show ?thesis by simp
  qed
  have pairs: "hid (sy_nodes ?s ! a) \<noteq> hid (sy_nodes ?s ! b) \<and>
      \<not> conflict ?s (sy_nodes ?s ! a) (sy_nodes ?s ! b)"
    if "a < length (sy_nodes s)" "b < length (sy_nodes s)" "a \<noteq> b" for a b
  proof -
    have "\<not> conflict ?s x y" if "\<not> conflict s x y" for x y
      using that by (simp add: conflict_def now)
    then show ?thesis
      using other [of a] other [of b] that inv i by (auto simp: nth_list_update sys_inv_def)
  qed
  have stray: "stray_ok ?s r" if r: "r \<in> set (left_behind ev ?nd @ sy_stray s)" for r
  proof (cases r)
    case (ReqRenew p)
    have old: "wp_HolderID p \<in> set (sy_ids s) \<and>
        (\<forall>j < length (sy_nodes s). hid (sy_nodes s ! j) = wp_HolderID p \<longrightarrow> finished (sy_nodes s ! j))"
      if "ReqRenew p \<in> set (sy_stray s)"
      using that inv by (auto simp: sys_inv_def stray_ok_def)
    have new: "wp_HolderID p = hid ?nd" "hid nd' \<in> set (issued_id ev) \<or> finished nd'"
      if "ReqRenew p \<in> set (left_behind ev ?nd)"
      using left_behind_ok [OF ok st that] by auto
    have holder: "wp_HolderID p \<in> set (sy_ids s)"
      using r ReqRenew old new(1) sys_invD(2) [OF inv i] by auto
    have fin: "finished (sy_nodes s ! j)"
      if "j < length (sy_nodes s)" "j \<noteq> i" "hid (sy_nodes s ! j) = wp_HolderID p" for j
      using r ReqRenew old new(1) inv i that by (auto simp: sys_inv_def)
    have fin': "finished nd'" if "hid nd' = wp_HolderID p"
    proof -
      have "wp_HolderID p \<notin> set (issued_id ev)" using holder fresh by auto
      then show ?thesis
        using that hid' r ReqRenew old new finished_step [OF _ ok st] i by auto
    qed
    have "finished nd" if "nd \<in> set (sy_nodes ?s)" "hid nd = wp_HolderID p" for nd
      using that fin fin' i by (auto simp: in_set_conv_nth nth_list_update split: if_splits)
    then show ?thesis using holder by (auto simp: stray_ok_def ReqRenew)
  qed (simp add: stray_ok_def)
  show ?thesis
    unfolding sys_inv_def using nodes pairs stray by simp
qed

section \<open>Statements keep the invariant\<close>

lemma renew_result_Inr:
  "renew_result res = Inr own \<Longrightarrow> \<exists>x. res = Row x \<and> own = ownershipFromAcquire x"
  by (auto simp: renew_result_def split: query_result.splits)

lemma acquire_result_Inr:
  "acquire_result res cls = Inr own \<Longrightarrow> \<exists>x. res = Row x \<and> own = ownershipFromAcquire x"
  by (auto simp: acquire_result_def split: query_result.splits sum.splits)

lemma acquire_row:
  assumes "fst (AcquireFleetRuntimeLease pg dbt p row) = Row x"
  shows "ow_HolderID (ownershipFromAcquire x) = wp_HolderID p"
    and "ow_gen (ownershipFromAcquire x) = wp_WriterGeneration p"
  using assms
  by (auto simp: AcquireFleetRuntimeLease_def excluded_row_def ownershipFromAcquire_def Let_def
      split: option.splits if_splits)

lemma renew_row:
  assumes "fst (RenewFleetRuntimeLease pg dbt p row) = Row x"
  shows "ow_gen (ownershipFromAcquire x) = wp_WriterGeneration p"
    and "valid_for (ownershipFromAcquire x) =
      time_sub (dbt + rp_LeaseDurationMilliseconds p * millisecond) dbt"
  using pg_lease.ren_row [OF assms]
  by (auto simp: ownershipFromAcquire_def renewable_def valid_for_def)

lemma lease_length_bounds:
  assumes "node_ok now nd"
  shows "0 \<le> lease_length nd" "lease_length nd \<le> max_duration"
proof -
  let ?d = "cc_LeaseDuration (nd_cfg nd)"
  have d: "0 < ?d" "?d \<le> max_duration" using assms by (simp_all add: node_ok_def)
  then have "lease_length nd = ?d div millisecond * millisecond"
    by (simp add: lease_length_def duration_Milliseconds_def)
  with d show "0 \<le> lease_length nd" "lease_length nd \<le> max_duration"
    by (simp_all add: millisecond_def pos_imp_zdiv_nonneg_iff)
qed

text \<open>A statement spares every claim whose time has not passed.\<close>

lemma carry_out_covered:
  assumes cov: "covered s nd c" and t: "t \<le> sy_now s"
    and mine: "\<And>p. r = ReqRenew p \<Longrightarrow> wp_HolderID p = ow_HolderID (fst c) \<Longrightarrow>
      db_time s nd (snd c) \<le> t + sy_dbOffset s + rp_LeaseDurationMilliseconds p * millisecond"
    and s': "sy_row s' = snd (carry_out pg (t + sy_dbOffset s) cls r (sy_row s))"
      "sy_now s' = sy_now s" "sy_dbOffset s' = sy_dbOffset s" "nd_offset nd' = nd_offset nd"
  shows "covered s' nd' c"
proof (cases "local_now s nd < snd c")
  case True
  with cov have p: "protects (sy_row s) (fst c) (db_time s nd (snd c))" by (simp add: covered_def)
  have "t + sy_dbOffset s < db_time s nd (snd c)"
    using True t by (simp add: local_now_def db_time_def)
  then have "protects (sy_row s') (fst c) (db_time s nd (snd c))"
    using p mine s'(1)
    by (cases r) (auto intro: pg_lease.acquire_protects pg_lease.renew_protects)
  then show ?thesis using s' by (simp add: covered_def db_time_def)
next
  case False
  then show ?thesis using s' by (simp add: covered_def local_now_def)
qed

lemma sys_inv_stray:
  assumes inv: "sys_inv s" and k: "r \<in> set (sy_stray s)" and t: "t \<le> sy_now s"
  shows "sys_inv (s\<lparr>sy_row := snd (carry_out pg (t + sy_dbOffset s) cls r (sy_row s))\<rparr>)"
    (is "sys_inv ?s")
proof -
  have "covered ?s nd c" if nd: "nd \<in> set (sy_nodes s)" "c \<in> claims nd" for nd c
  proof (rule carry_out_covered [OF _ t])
    show "covered s nd c" using inv nd by (auto simp: sys_inv_def)
    fix p
    assume p: "r = ReqRenew p" "wp_HolderID p = ow_HolderID (fst c)"
    have "ow_HolderID (fst c) = hid nd" using inv nd by (force simp: sys_inv_def node_ok_def)
    with p inv k nd(1) have "finished nd" by (auto simp: sys_inv_def stray_ok_def)
    with nd(2) show "db_time s nd (snd c) \<le>
        t + sy_dbOffset s + rp_LeaseDurationMilliseconds p * millisecond"
      by (simp add: finished_def)
  qed simp_all
  moreover have "local_now ?s nd = local_now s nd" "conflict ?s a b = conflict s a b"
      "stray_ok ?s q = stray_ok s q" for nd a b q
    by (simp_all add: local_now_def conflict_def stray_ok_def split: lease_request.split)
  ultimately show ?thesis using inv by (auto simp: sys_inv_def)
qed

text \<open>The process that waits gets an answer it may rely on.\<close>

definition answered :: "system \<Rightarrow> node \<Rightarrow> pg_identity \<Rightarrow> gotime \<Rightarrow> ha_error + string \<Rightarrow> lease_request \<Rightarrow> node" where
  "answered s nd pg t cls r =
     nd\<lparr>nd_answer := Some (fst (carry_out pg (t + sy_dbOffset s) cls r (sy_row s)))\<rparr>"

lemma answered_simps [simp]:
  "nd_cd (answered s nd pg t cls r) = nd_cd nd" "nd_phase (answered s nd pg t cls r) = nd_phase nd"
  "nd_cfg (answered s nd pg t cls r) = nd_cfg nd" "nd_offset (answered s nd pg t cls r) = nd_offset nd"
  "asked_at now (answered s nd pg t cls r) = asked_at now nd"
  "lease_length (answered s nd pg t cls r) = lease_length nd"
  by (simp_all add: answered_def asked_at_def lease_length_def)

lemma acquire_answer_ok:
  "answer_ok (wp_HolderID p) (wp_WriterGeneration p)
     (Some (acquire_result (fst (AcquireFleetRuntimeLease pg dbt p row)) cls))"
  using acquire_row by (auto simp: answer_ok_def dest!: acquire_result_Inr split: sum.split)

lemma renew_answer_ok:
  "answer_ok (wp_HolderID p) (wp_WriterGeneration p)
     (Some (renew_result (fst (RenewFleetRuntimeLease pg dbt p row))))"
  using renew_row(1) pg_lease.renew_grants
  by (fastforce simp: answer_ok_def dest!: renew_result_Inr split: sum.split)

lemma answered_phase_ok:
  assumes "node_ok now nd" "in_flight nd = Some (r, sent)"
  shows "phase_ok now (answered s nd pg t cls r)"
proof (cases "nd_phase nd")
  case (PhAcquiring w h sent')
  with assms node_okD(2) [OF assms(1)] acquire_answer_ok [of "acquire_request w h (cc_LeaseDuration (nd_cfg nd))"]
  show ?thesis by (auto simp: in_flight_def phase_ok_def answered_def)
next
  case (PhActivating w own u sent')
  with assms node_okD(2) [OF assms(1)] renew_answer_ok [of "renew_request w own (cc_LeaseDuration (nd_cfg nd))"]
  show ?thesis by (auto simp: in_flight_def phase_ok_def answered_def answer_ok_def [of _ _ "Some (Inr _)"])
next
  case (PhRenewing ctx cur w sent')
  with assms node_okD(2) [OF assms(1)] renew_answer_ok [of "renew_request w cur (cc_LeaseDuration (nd_cfg nd))"]
  show ?thesis by (auto simp: in_flight_def phase_ok_def answered_def answer_ok_def [of _ _ "Some (Inr _)"])
qed (use assms(2) in \<open>simp_all add: in_flight_def\<close>)

lemma answered_claims:
  assumes "in_flight nd = Some (ReqAcquire p, sent)"
  shows "claims (answered s nd pg t cls r) = claims nd"
  using assms by (auto simp: in_flight_def claims_def pending_claims_def split: phase.splits)

lemma answered_renewal:
  assumes ok: "node_ok now nd" and fl: "in_flight nd = Some (ReqRenew p, sent)"
    and c: "(own, d) \<in> claims (answered s nd pg t cls (ReqRenew p))"
  shows "(own, d) \<in> claims nd \<or>
    (\<exists>x. fst (RenewFleetRuntimeLease pg (t + sy_dbOffset s) p (sy_row s)) = Row x \<and>
       own = ownershipFromAcquire x \<and> ow_HolderID own = hid nd \<and> d \<le> sent + lease_length nd)"
proof -
  have pend: "pending_claims (answered s nd pg t cls (ReqRenew p)) =
      granted sent (Some (renew_result (fst (RenewFleetRuntimeLease pg (t + sy_dbOffset s) p (sy_row s)))))"
    using fl by (auto simp: in_flight_def pending_claims_def answered_def split: phase.splits)
  show ?thesis
  proof (cases "(own, d) \<in> active_claims (nd_cd nd)")
    case True
    then show ?thesis by (simp add: claims_def)
  next
    case False
    with c pend have g: "(own, d) \<in>
      granted sent (Some (renew_result (fst (RenewFleetRuntimeLease pg (t + sy_dbOffset s) p (sy_row s)))))"
      by (simp add: claims_def)
    then have "renew_result (fst (RenewFleetRuntimeLease pg (t + sy_dbOffset s) p (sy_row s))) = Inr own"
      and d: "d = sent + valid_for own"
      by (auto simp: granted_def split: sum.splits)
    from renew_result_Inr [OF this(1)] obtain x where
      x: "fst (RenewFleetRuntimeLease pg (t + sy_dbOffset s) p (sy_row s)) = Row x"
      "own = ownershipFromAcquire x" by blast
    have "ow_HolderID own = hid nd"
      using pg_lease.renew_grants [OF x(1)] x(2) renew_in_flight(1) [OF ok fl] by auto
    moreover have "valid_for own \<le> lease_length nd"
      using renew_row(2) [OF x(1)] x(2) renew_in_flight(3) [OF ok fl] lease_length_bounds [OF ok]
      by (simp add: time_sub_def min_duration_def)
    ultimately show ?thesis using x d by auto
  qed
qed

text \<open>What an answer makes of a claim of the waiting process: an old one, or one just granted.\<close>

lemma answered_claim_cases:
  assumes ok: "node_ok now nd" and fl: "in_flight nd = Some (r, sent)"
    and c: "(own, d) \<in> claims (answered s nd pg t cls r)"
  obtains "(own, d) \<in> claims nd" |
    p x where "r = ReqRenew p" "fst (RenewFleetRuntimeLease pg (t + sy_dbOffset s) p (sy_row s)) = Row x"
      "own = ownershipFromAcquire x" "ow_HolderID own = hid nd" "d \<le> sent + lease_length nd"
proof (cases r)
  case (ReqAcquire p)
  with fl c show ?thesis by (intro that(1)) (simp add: answered_claims)
next
  case (ReqRenew p)
  from answered_renewal [OF ok fl [unfolded ReqRenew] c [unfolded ReqRenew]] show ?thesis
    using that ReqRenew by blast
qed

lemma answered_node_ok:
  assumes ok: "node_ok now nd" and fl: "in_flight nd = Some (r, sent)"
  shows "node_ok now (answered s nd pg t cls r)"
proof -
  have "ow_HolderID own = hid nd \<and> d \<le> asked_at now nd + lease_length nd"
    if c: "(own, d) \<in> claims (answered s nd pg t cls r)" for own d
  proof (cases rule: answered_claim_cases [OF ok fl c])
    case 1
    then show ?thesis using ok by (auto simp: node_ok_def)
  next
    case (2 p x)
    then show ?thesis using renew_in_flight(2) [OF ok] fl by auto
  qed
  then show ?thesis
    using ok answered_phase_ok [OF ok fl] by (auto simp: node_ok_def)
qed

lemma protects_earlier: "protects row own t \<Longrightarrow> u \<le> t \<Longrightarrow> protects row own u"
  by (auto simp: protects_def split: option.splits)

lemma answered_covered:
  assumes ok: "node_ok (local_now s nd) nd" and fl: "in_flight nd = Some (r, sent)"
    and cov: "\<And>c. c \<in> claims nd \<Longrightarrow> covered s nd c"
    and t: "t \<le> sy_now s" "sent \<le> t + nd_offset nd"
    and c: "c \<in> claims (answered s nd pg t cls r)"
    and s': "sy_row s' = snd (carry_out pg (t + sy_dbOffset s) cls r (sy_row s))"
      "sy_now s' = sy_now s" "sy_dbOffset s' = sy_dbOffset s"
  shows "covered s' (answered s nd pg t cls r) c"
proof -
  obtain own d where od: "c = (own, d)" by force
  show ?thesis
  proof (cases rule: answered_claim_cases [OF ok fl c [unfolded od]])
    case 1
    show ?thesis
      unfolding od
    proof (rule carry_out_covered [OF cov [OF 1] t(1) _ s'])
      fix p
      assume p: "r = ReqRenew p"
      have "d \<le> sent + lease_length nd"
        using ok 1 renew_in_flight(2) [OF ok fl [unfolded p]] by (auto simp: node_ok_def)
      then show "db_time s nd (snd (own, d)) \<le>
          t + sy_dbOffset s + rp_LeaseDurationMilliseconds p * millisecond"
        using t(2) renew_in_flight(3) [OF ok fl [unfolded p]] by (simp add: db_time_def)
    qed simp
  next
    case (2 p x)
    have "protects (sy_row s') own (t + sy_dbOffset s + lease_length nd)"
      using pg_lease.renew_grants [OF 2(2)] 2(1,3) s'(1) renew_in_flight(3) [OF ok fl [unfolded 2(1)]]
      by auto
    moreover have "db_time s' (answered s nd pg t cls r) d \<le> t + sy_dbOffset s + lease_length nd"
      using 2(5) t(2) s'(3) by (simp add: db_time_def)
    ultimately show ?thesis by (auto simp: od covered_def intro: protects_earlier)
  qed
qed

lemma answered_no_conflict:
  assumes ok: "node_ok (local_now s nd) nd" and fl: "in_flight nd = Some (r, sent)"
    and ok': "node_ok (local_now s b) b" and cov: "\<And>c. c \<in> claims b \<Longrightarrow> covered s b c"
    and no: "\<not> conflict s nd b" "hid b \<noteq> hid nd"
  shows "\<not> conflict s (answered s nd pg t cls r) b"
proof
  assume "conflict s (answered s nd pg t cls r) b"
  then obtain own d own' d' where c: "(own, d) \<in> claims (answered s nd pg t cls r)"
    "(own', d') \<in> claims b" "local_now s nd < d" "local_now s b < d'" "ow_gen own = ow_gen own'"
    by (auto simp: conflict_def local_now_def)
  show False
  proof (cases rule: answered_claim_cases [OF ok fl c(1)])
    case 1
    with c no(1) show False by (auto simp: conflict_def)
  next
    case (2 p x)
    have "protects (sy_row s) own' (db_time s b d')"
      using cov [OF c(2)] c(4) by (simp add: covered_def)
    moreover have "ow_HolderID own' = hid b" using ok' c(2) by (auto simp: node_ok_def)
    ultimately show False
      using pg_lease.renew_excludes [OF 2(2)] renew_in_flight(1) [OF ok fl [unfolded 2(1)]] no(2) c(5) 2(3)
      by fastforce
  qed
qed

lemma conflict_commute: "conflict s a b = conflict s b a"
  unfolding conflict_def by metis

lemma sys_inv_carry_out:
  assumes inv: "sys_inv s" and i: "i < length (sy_nodes s)" and t: "t \<le> sy_now s"
    and fl: "in_flight (sy_nodes s ! i) = Some (r, sent)"
    and sent: "sent \<le> t + nd_offset (sy_nodes s ! i)"
  shows "sys_inv (s\<lparr>sy_nodes := (sy_nodes s)[i := answered s (sy_nodes s ! i) pg t cls r],
      sy_row := snd (carry_out pg (t + sy_dbOffset s) cls r (sy_row s))\<rparr>)" (is "sys_inv ?s")
proof -
  let ?nd = "sy_nodes s ! i" and ?nd' = "answered s (sy_nodes s ! i) pg t cls r"
  note ok = sys_invD(1) [OF inv i] and cov = sys_invD(3) [OF inv i]
  have now: "local_now ?s nd = local_now s nd" "conflict ?s a b = conflict s a b" for nd a b
    by (simp_all add: local_now_def conflict_def)
  have now': "local_now s ?nd' = local_now s ?nd" by (simp add: local_now_def)
  have apart: "hid (sy_nodes s ! j) \<noteq> hid ?nd" "\<not> conflict s ?nd (sy_nodes s ! j)"
    if "j < length (sy_nodes s)" "j \<noteq> i" for j
    using inv i that by (auto simp: sys_inv_def)
  have others: "covered ?s (sy_nodes s ! j) c"
    if j: "j < length (sy_nodes s)" "j \<noteq> i" and c: "c \<in> claims (sy_nodes s ! j)" for j c
  proof (rule carry_out_covered [OF sys_invD(3) [OF inv j(1) c] t])
    fix p
    assume "r = ReqRenew p" "wp_HolderID p = ow_HolderID (fst c)"
    moreover have "ow_HolderID (fst c) = hid (sy_nodes s ! j)"
      using sys_invD(1) [OF inv j(1)] c by (force simp: node_ok_def)
    ultimately have False using renew_in_flight(1) [OF ok] fl apart(1) [OF j] by simp
    then show "db_time s (sy_nodes s ! j) (snd c) \<le>
        t + sy_dbOffset s + rp_LeaseDurationMilliseconds p * millisecond" ..
  qed simp_all
  have nodes: "node_ok (local_now ?s (sy_nodes ?s ! j)) (sy_nodes ?s ! j) \<and>
      hid (sy_nodes ?s ! j) \<in> set (sy_ids ?s) \<and>
      (\<forall>c \<in> claims (sy_nodes ?s ! j). covered ?s (sy_nodes ?s ! j) c)"
    if j: "j < length (sy_nodes s)" for j
  proof (cases "j = i")
    case True
    then show ?thesis
      using answered_node_ok [OF ok fl] answered_covered [OF ok fl cov t sent] sys_invD(2) [OF inv i] now now' i
      by simp
  next
    case False
    then show ?thesis
      using sys_invD(1,2) [OF inv j] others [OF j False] now by simp
  qed
  have "\<not> conflict s ?nd' (sy_nodes s ! j)" if "j < length (sy_nodes s)" "j \<noteq> i" for j
    using answered_no_conflict [OF ok fl sys_invD(1) [OF inv that(1)] sys_invD(3) [OF inv that(1)]]
      apart [OF that] by blast
  then have pairs: "hid (sy_nodes ?s ! a) \<noteq> hid (sy_nodes ?s ! b) \<and>
      \<not> conflict ?s (sy_nodes ?s ! a) (sy_nodes ?s ! b)"
    if "a < length (sy_nodes s)" "b < length (sy_nodes s)" "a \<noteq> b" for a b
    using that inv i conflict_commute [of s ?nd'] by (auto simp: nth_list_update now sys_inv_def)
  have "\<not> finished ?nd" using fl by (auto simp: finished_def in_flight_def)
  then have stray: "stray_ok ?s q" if "q \<in> set (sy_stray s)" for q
    using inv that i set_update_subset_insert [of "sy_nodes s" i ?nd']
    by (fastforce simp: sys_inv_def stray_ok_def split: lease_request.splits)
  show ?thesis
    unfolding sys_inv_def
  proof (intro conjI)
    show "\<forall>nd \<in> set (sy_nodes ?s). node_ok (local_now ?s nd) nd \<and> hid nd \<in> set (sy_ids ?s) \<and>
        (\<forall>c \<in> claims nd. covered ?s nd c)"
      using nodes by (subst all_set_conv_all_nth) simp
  qed (use pairs stray in simp_all)
qed

lemma sys_inv_step: "sys_inv s \<Longrightarrow> sys_step op s = Some s' \<Longrightarrow> sys_inv s'"
  using sys_inv_carry_out
  by (cases op)
    (auto simp: Let_def answered_def sys_inv_wait sys_inv_stray
      split: if_splits option.splits intro: sys_inv_node)

lemma reach_inv: "sys_reach s \<Longrightarrow> sys_inv s"
  by (induction rule: sys_reach.induct) (auto intro: sys_inv_init sys_inv_step)

section \<open>Where active terms come from\<close>

definition phase_obs :: "phase \<Rightarrow> writer_observation option" where
  "phase_obs ph =
     (case ph of
        PhAcquiring w _ _ \<Rightarrow> Some w
      | PhAcquired w _ _ \<Rightarrow> Some w
      | PhActivating w _ _ _ \<Rightarrow> Some w
      | PhRenewing _ _ w _ \<Rightarrow> Some w
      | PhRenewed _ _ w _ _ \<Rightarrow> Some w
      | _ \<Rightarrow> None)"

text \<open>
  Every generation a process works for has been seen, and an active term ends no later than a
  proof the observer returned for its generation.
\<close>

definition gen_seen :: "(int \<times> gotime) set \<Rightarrow> int \<Rightarrow> bool" where
  "gen_seen S g \<longleftrightarrow> g \<in> fst ` S"

lemma gen_seen_mono: "gen_seen S g \<Longrightarrow> S \<subseteq> S' \<Longrightarrow> gen_seen S' g"
  by (auto simp: gen_seen_def)

definition phase_traced :: "(int \<times> gotime) set \<Rightarrow> (int \<times> gotime) set \<Rightarrow> int \<Rightarrow> phase \<Rightarrow> bool" where
  "phase_traced S P off ph \<longleftrightarrow>
     (case phase_obs ph of None \<Rightarrow> True | Some w \<Rightarrow> gen_seen S (wo_WriterGeneration w)) \<and>
     (case ph of
        PhActivating w _ _ _ \<Rightarrow> (wo_WriterGeneration w, wo_DCSProofDeadline w - off) \<in> P
      | _ \<Rightarrow> True)"

definition claim_traced ::
  "(int \<times> gotime) set \<Rightarrow> (int \<times> gotime) set \<Rightarrow> int \<Rightarrow> ownership \<times> gotime \<Rightarrow> bool" where
  "claim_traced S P off c \<longleftrightarrow> gen_seen S (ow_gen (fst c)) \<and>
     (\<exists>D. (ow_gen (fst c), D) \<in> P \<and> snd c - off \<le> D)"

definition traced :: "(int \<times> gotime) set \<Rightarrow> (int \<times> gotime) set \<Rightarrow> node \<Rightarrow> bool" where
  "traced S P nd \<longleftrightarrow> phase_traced S P (nd_offset nd) (nd_phase nd) \<and>
     (\<forall>c \<in> active_claims (nd_cd nd). claim_traced S P (nd_offset nd) c)"

lemma phase_traced_mono:
  "phase_traced S P off ph \<Longrightarrow> S \<subseteq> S' \<Longrightarrow> P \<subseteq> P' \<Longrightarrow> phase_traced S' P' off ph"
  by (cases ph) (auto simp: phase_traced_def phase_obs_def intro: gen_seen_mono)

lemma phase_traced_quiet [simp]: "phase_obs ph = None \<Longrightarrow> phase_traced S P off ph"
  by (cases ph) (auto simp: phase_traced_def phase_obs_def)

lemma phase_traced_renewing:
  "gen_seen S (wo_WriterGeneration w) \<Longrightarrow> phase_traced S P off (PhRenewing ctx cur w sent)"
  by (simp add: phase_traced_def phase_obs_def)

lemma claim_traced_mono:
  "claim_traced S P off c \<Longrightarrow> S \<subseteq> S' \<Longrightarrow> P \<subseteq> P' \<Longrightarrow> claim_traced S' P' off c"
  by (auto simp: claim_traced_def intro: gen_seen_mono)

definition history_inv :: "system \<Rightarrow> bool" where
  "history_inv s \<longleftrightarrow> (\<forall>(g, t) \<in> set (sy_seen s). t \<le> sy_now s) \<and>
     (\<forall>nd \<in> set (sy_nodes s). traced (set (sy_seen s)) (set (sy_proofs s)) nd)"

lemma phase_after_fail [simp]:
  "phase_obs (snd (renew_fail now e c)) = None"
  "phase_obs (snd (renew_unobserved now ctx cur e w c)) = None"
  by (auto simp: renew_fail_def renew_unobserved_def markActiveObservationUnavailable_def phase_obs_def
      split: option.split prod.split)

lemma active_after_fail [simp]:
  "active_claims (fst (renew_fail now e c)) = {}"
  by (simp add: renew_fail_def)

lemma active_after_unobserved:
  "active_claims (fst (renew_unobserved now ctx cur e w c)) \<subseteq> active_claims c"
  by (auto simp: renew_unobserved_def markActiveObservationUnavailable_def split: option.split)

text \<open>A move that adds no active claim and ends in a traced phase is traced.\<close>

lemma traced_goto:
  assumes "traced S P nd" "phase_traced S' P' (nd_offset nd) (snd x)"
    and "active_claims (fst x) \<subseteq> active_claims (nd_cd nd)" "S \<subseteq> S'" "P \<subseteq> P'"
  shows "traced S' P' (goto nd x)"
  using assms claim_traced_mono [of S P _ _ S' P'] by (auto simp: traced_def)

lemma traced_goto_new:
  assumes "phase_traced S' P' (nd_offset nd) (snd x)" "active_claims (fst x) = {(own, d)}"
    and "gen_seen S' (ow_gen own)" "(ow_gen own, D) \<in> P'" "d - nd_offset nd \<le> D"
  shows "traced S' P' (goto nd x)"
  using assms by (auto simp: traced_def claim_traced_def)

lemma traced_more:
  assumes "traced S P nd" "S \<subseteq> S'" "P \<subseteq> P'"
    and "nd_phase nd' = nd_phase nd" "nd_offset nd' = nd_offset nd"
    and "active_claims (nd_cd nd') \<subseteq> active_claims (nd_cd nd)"
  shows "traced S' P' nd'"
  using assms claim_traced_mono [of S P _ _ S' P'] phase_traced_mono [of S P _ _ S' P']
  by (auto simp: traced_def)

lemma traced_activate:
  assumes "traced S P nd" "nd_phase nd = PhActivating w own t sent" "S \<subseteq> S'" "P \<subseteq> P'"
    and "case ans of Inl e \<Rightarrow> True | Inr o' \<Rightarrow> ow_gen o' = wo_WriterGeneration w"
  shows "traced S' P' (goto nd (try_activate (nd_cfg nd) rc ck now pd i w t sent ans (nd_cd nd)))"
proof (cases ans)
  case (Inl e)
  then show ?thesis
    using assms by (auto simp: try_activate_def phase_obs_def intro!: traced_goto [of S P])
next
  case (Inr ren)
  let ?x = "coord_activate ck now pd ren sent (wo_DCSProofDeadline w) (nd_cd nd)"
  show ?thesis
  proof (cases "fst ?x")
    case None
    then obtain c' where c': "?x = (None, c')" by (metis prod.collapse)
    from active_claims_activate [OF c'] obtain d where
      d: "active_claims c' = {(ren, d)}" "d \<le> wo_DCSProofDeadline w" by blast
    have "gen_seen S' (wo_WriterGeneration w)"
      "(wo_WriterGeneration w, wo_DCSProofDeadline w - nd_offset nd) \<in> P"
      using assms(1-3) by (auto simp: traced_def phase_traced_def phase_obs_def intro: gen_seen_mono)
    then show ?thesis
      using assms(3-5) Inr c' d
      by (auto simp: try_activate_def Let_def phase_obs_def
          intro!: traced_goto_new [where D = "wo_DCSProofDeadline w - nd_offset nd"])
  next
    case (Some e)
    then obtain c' where "?x = (Some e, c')" by (metis prod.collapse)
    then show ?thesis
      using assms(1,3,4) Inr
      by (auto simp: try_activate_def Let_def phase_obs_def intro!: traced_goto [of S P])
  qed
qed

lemma traced_renewed:
  assumes "traced S P nd" "nd_phase nd = PhRenewed ctx cur w own sent" "S \<subseteq> S'" "P \<subseteq> P'"
    and "ow_gen own = wo_WriterGeneration w"
    and "case cl of Inl e \<Rightarrow> True | Inr dl \<Rightarrow> (wo_WriterGeneration w, dl - nd_offset nd) \<in> P'"
  shows "traced S' P' (goto nd (renew_observed ck now ctx cur own sent cl (nd_cd nd)))"
proof (cases cl)
  case (Inl e)
  then show ?thesis
    using assms by (simp add: renew_observed_def traced_goto [of S P] active_after_unobserved)
next
  case (Inr dl)
  let ?x = "updateActive ck now own cur sent dl (nd_cd nd)"
  show ?thesis
  proof (cases "fst ?x")
    case None
    then obtain c' where c': "?x = (None, c')" by (metis prod.collapse)
    from active_claims_update [OF c'] obtain d where
      d: "active_claims c' = {(own, d)}" "d \<le> dl" by blast
    have "gen_seen S' (wo_WriterGeneration w)"
      using assms(1-3) by (auto simp: traced_def phase_traced_def phase_obs_def intro: gen_seen_mono)
    then show ?thesis
      using assms(3-6) Inr c' d
      by (auto simp: renew_observed_def phase_obs_def
          intro!: traced_goto_new [where D = "dl - nd_offset nd"])
  next
    case (Some e)
    then obtain c' where "?x = (Some e, c')" by (metis prod.collapse)
    then show ?thesis
      using assms(1,3,4) Inr by (auto simp: renew_observed_def intro!: traced_goto [of S P])
  qed
qed

lemma traced_answer_step:
  assumes "traced S P nd" "node_ok now nd" "answer_step now rc ck i ans nd = Some nd'" "S \<subseteq> S'" "P \<subseteq> P'"
    and "case ans of Inl e \<Rightarrow> True | Inr _ \<Rightarrow> nd_answer nd = Some ans"
  shows "traced S' P' nd'"
proof (cases "nd_phase nd")
  case (PhAcquiring w h sent)
  have "gen_seen S' (wo_WriterGeneration w)"
    using assms(1,4) PhAcquiring by (auto simp: traced_def phase_traced_def phase_obs_def intro: gen_seen_mono)
  then show ?thesis
    using assms(1,3-5) PhAcquiring
    by (cases ans) (auto simp: try_acquire_answer_def phase_traced_def phase_obs_def
        intro!: traced_goto [of S P] split: if_split_asm)
next
  case (PhActivating w own t sent)
  then show ?thesis
    using assms node_okD(2) [OF assms(2)]
    by (auto simp: phase_ok_def answer_ok_def intro!: traced_activate [of S P] split: sum.split)
next
  case (PhRenewing ctx cur w sent)
  have "gen_seen S' (wo_WriterGeneration w)"
    using assms(1,4) PhRenewing by (auto simp: traced_def phase_traced_def phase_obs_def intro: gen_seen_mono)
  then have "phase_traced S' P' (nd_offset nd) (PhRenewed ctx cur w o' sent)" for o'
    by (simp add: phase_traced_def phase_obs_def)
  then show ?thesis
    using assms(1,3-5) PhRenewing
    by (auto simp: renew_answer_def traced_goto [of S P] active_after_unobserved split: sum.split)
qed (use assms(3) in simp_all)

lemma traced_node_step:
  assumes tr: "traced S P nd" and ok: "node_ok now nd" and st: "node_step now ev nd = Some nd'"
    and S': "S' = set (seen_by t ev) \<union> S" and P': "P' = set (proved_by ev nd) \<union> P"
  shows "traced S' P' nd'"
proof -
  have sub: "S \<subseteq> S'" "P \<subseteq> P'" using S' P' by auto
  show ?thesis
  proof (cases ev)
    case (EvAnswer rc ck i)
    with st show ?thesis
      by (auto split: option.splits if_splits sum.splits simp del: answer_step.simps
          intro!: traced_answer_step [OF tr ok _ sub])
  next
    case (EvGiveUp e i)
    with st show ?thesis
      by (auto split: if_splits simp del: answer_step.simps intro!: traced_answer_step [OF tr ok _ sub])
  next
    case (EvBegin x)
    then have "case x of Inl e \<Rightarrow> True | Inr w \<Rightarrow> gen_seen S' (wo_WriterGeneration w)"
      by (simp add: S' gen_seen_def split: sum.split)
    with st EvBegin show ?thesis
      by (auto simp: try_begin_def phase_traced_def phase_obs_def intro!: traced_goto [OF tr _ _ sub]
          split: phase.splits sum.splits option.splits if_split_asm)
  next
    case (EvClosing cl ck i)
    show ?thesis
    proof (cases "nd_phase nd")
      case (PhAcquired w own u)
      then have "gen_seen S' (wo_WriterGeneration w)"
        using tr sub by (auto simp: traced_def phase_traced_def phase_obs_def intro: gen_seen_mono)
      moreover have "case cl of Inl e \<Rightarrow> True | Inr d \<Rightarrow> (wo_WriterGeneration w, d - nd_offset nd) \<in> P'"
        using EvClosing PhAcquired P' by (simp add: proved_by_def split: sum.split)
      ultimately show ?thesis
        using st EvClosing PhAcquired
        by (auto simp: try_observed_def Let_def phase_traced_def phase_obs_def
            intro!: traced_goto [OF tr _ _ sub] split: sum.splits option.splits)
    next
      case (PhRenewed ctx cur w own sent)
      then have "ow_gen own = wo_WriterGeneration w"
        using node_okD(2) [OF ok] by (simp add: phase_ok_def answer_ok_def)
      moreover have "case cl of Inl e \<Rightarrow> True | Inr d \<Rightarrow> (wo_WriterGeneration w, d - nd_offset nd) \<in> P'"
        using EvClosing PhRenewed P' by (simp add: proved_by_def split: sum.split)
      ultimately show ?thesis
        using st EvClosing PhRenewed
        by (auto intro!: traced_renewed [OF tr _ sub] split: if_splits)
    next
      case (PhContended w)
      with st EvClosing show ?thesis
        by (auto simp: try_contended_def phase_obs_def intro!: traced_goto [OF tr _ _ sub] split: sum.splits)
    qed (use st EvClosing in simp_all)
  next
    case EvActivated
    with st show ?thesis
      by (auto simp: run_activated_def phase_obs_def intro!: traced_goto [OF tr _ _ sub]
          split: phase.splits option.splits)
  next
    case EvRenewTick
    with st show ?thesis
      by (auto simp: renew_begin_def phase_obs_def intro!: traced_goto [OF tr _ _ sub]
          split: phase.splits if_split_asm)
  next
    case (EvObserved x)
    then have "case x of Inl e \<Rightarrow> True | Inr w \<Rightarrow> gen_seen S' (wo_WriterGeneration w)"
      by (simp add: S' gen_seen_def split: sum.split)
    then have "traced S' P' (goto nd (renew_action (nd_cfg nd) now ctx cur w (nd_cd nd)))"
      if "x = Inr w" for ctx cur w
      using that
      by (auto simp: renew_action_def phase_traced_renewing traced_goto [OF tr _ _ sub]
          split: option.splits)
    with st EvObserved show ?thesis
      by (auto simp: traced_goto [OF tr _ _ sub] active_after_unobserved split: phase.splits sum.splits)
  next
    case (EvTimer k)
    with st show ?thesis
      by (auto simp: active_claims_timer [THEN subsetD] split: if_splits intro!: traced_more [OF tr sub])
  next
    case EvStop
    with st show ?thesis
      by (auto simp: run_stopped_def intro!: traced_goto [OF tr _ _ sub] split: phase.splits if_splits)
  next
    case EvLifetimeEnded
    with st show ?thesis
      by (auto simp: lifetime_ended_def phase_obs_def intro!: traced_goto [OF tr _ _ sub]
          split: phase.splits option.splits)
  next
    case EvParentCancel
    with st show ?thesis
      by (auto intro!: traced_more [OF tr sub])
  qed
qed

lemma traced_answered:
  "traced S P (answered s nd pg t cls r) = traced S P nd"
  by (simp add: traced_def)

lemma history_inv_step:
  assumes h: "history_inv s" and inv: "sys_inv s" and st: "sys_step op s = Some s'"
  shows "history_inv s'"
proof (cases op)
  case (OpNode i ev)
  let ?S = "set (seen_by (sy_now s) ev) \<union> set (sy_seen s)"
    and ?P = "set (proved_by ev (sy_nodes s ! i)) \<union> set (sy_proofs s)"
  from st OpNode obtain nd' where i: "i < length (sy_nodes s)"
    and nd': "node_step (local_now s (sy_nodes s ! i)) ev (sy_nodes s ! i) = Some nd'"
    and s': "sy_nodes s' = (sy_nodes s)[i := nd']" "set (sy_seen s') = ?S" "set (sy_proofs s') = ?P"
      "sy_now s' = sy_now s"
    by (auto simp: Let_def split: if_splits)
  have old: "traced (set (sy_seen s)) (set (sy_proofs s)) nd" if "nd \<in> set (sy_nodes s)" for nd
    using h that by (simp add: history_inv_def)
  have "traced ?S ?P nd'"
    by (rule traced_node_step [OF old [OF nth_mem [OF i]] sys_invD(1) [OF inv i] nd' refl refl])
  moreover have "traced ?S ?P nd" if "nd \<in> set (sy_nodes s)" for nd
    by (rule traced_more [OF old [OF that]]) auto
  ultimately have "\<forall>nd \<in> set (sy_nodes s'). traced ?S ?P nd"
    using set_update_subset_insert [of "sy_nodes s" i nd'] by (auto simp: s'(1))
  moreover have "\<forall>(g, t) \<in> ?S. t \<le> sy_now s"
    using h by (cases "(sy_now s, ev)" rule: seen_by.cases) (auto simp: history_inv_def)
  ultimately show ?thesis by (simp add: history_inv_def s')
next
  case (OpCarryOut i pg t cls)
  with st obtain r sent where s': "sy_seen s' = sy_seen s" "sy_proofs s' = sy_proofs s" "sy_now s' = sy_now s"
    "sy_nodes s' = (sy_nodes s)[i := answered s (sy_nodes s ! i) pg t cls r]" "i < length (sy_nodes s)"
    by (auto simp: Let_def answered_def split: if_splits option.splits)
  then show ?thesis
    using h set_update_subset_insert [of "sy_nodes s" i "answered s (sy_nodes s ! i) pg t cls r"]
    by (auto simp: history_inv_def traced_answered)
next
  case (OpWait n)
  with st h show ?thesis by (fastforce simp: history_inv_def)
next
  case (OpStray k pg t)
  with st h show ?thesis by (auto simp: history_inv_def split: if_splits)
qed

lemma reach_history: "sys_reach s \<Longrightarrow> history_inv s"
proof (induction rule: sys_reach.induct)
  case (reach_init s)
  have "traced S P (new_node cfg h off)" for S P cfg h off
    by (simp add: traced_def new_node_def newCoordinatorWithHolder_def active_claims_def phase_obs_def)
  then show ?case using reach_init by (fastforce simp: history_inv_def sys_init_def)
next
  case (reach_step s op s')
  then show ?case using history_inv_step reach_inv by blast
qed

section \<open>Mutual exclusion\<close>

lemma owns_claim:
  assumes "owns s i"
  obtains d where "i < length (sy_nodes s)" "local_now s (sy_nodes s ! i) < d"
    "(cd_ownership (nd_cd (sy_nodes s ! i)), d) \<in> active_claims (nd_cd (sy_nodes s ! i))"
  using assms by (auto simp: owns_def Let_def active_claims_def split: option.splits)

lemma owner_protected:
  assumes "sys_reach s" "owns s i"
  shows "\<exists>r. sy_row s = Some r \<and> owned_gen s i \<le> lr_highest_writer_generation r \<and>
    (owned_gen s i = lr_highest_writer_generation r \<longrightarrow>
       same_term r (cd_ownership (nd_cd (sy_nodes s ! i))) \<and>
       sy_now s + sy_dbOffset s < lr_expires_at r)"
proof -
  obtain d where d: "i < length (sy_nodes s)" "local_now s (sy_nodes s ! i) < d"
    "(cd_ownership (nd_cd (sy_nodes s ! i)), d) \<in> active_claims (nd_cd (sy_nodes s ! i))"
    using assms(2) by (rule owns_claim)
  with sys_invD(3) [OF reach_inv [OF assms(1)] d(1)]
  have "protects (sy_row s) (cd_ownership (nd_cd (sy_nodes s ! i))) (db_time s (sy_nodes s ! i) d)"
    by (force simp: covered_def claims_def)
  moreover have "sy_now s + sy_dbOffset s < db_time s (sy_nodes s ! i) d"
    using d(2) by (simp add: db_time_def local_now_def)
  ultimately show ?thesis
    by (auto simp: protects_def owned_gen_def same_term_def split: option.splits)
qed

lemma owners_differ:
  assumes "sys_reach s" "owns s i" "owns s j" "i \<noteq> j"
  shows "owned_gen s i \<noteq> owned_gen s j"
proof -
  obtain d where d: "i < length (sy_nodes s)" "local_now s (sy_nodes s ! i) < d"
    "(cd_ownership (nd_cd (sy_nodes s ! i)), d) \<in> active_claims (nd_cd (sy_nodes s ! i))"
    using assms(2) by (rule owns_claim)
  obtain e where e: "j < length (sy_nodes s)" "local_now s (sy_nodes s ! j) < e"
    "(cd_ownership (nd_cd (sy_nodes s ! j)), e) \<in> active_claims (nd_cd (sy_nodes s ! j))"
    using assms(3) by (rule owns_claim)
  have "\<not> conflict s (sy_nodes s ! i) (sy_nodes s ! j)"
    using reach_inv [OF assms(1)] d(1) e(1) assms(4) by (simp add: sys_inv_def)
  with d e show ?thesis unfolding conflict_def claims_def owned_gen_def by blast
qed

lemma owner_traced:
  assumes "sys_reach s" "owns s i"
  obtains D t where "(owned_gen s i, D) \<in> set (sy_proofs s)" "sy_now s < D"
    "(owned_gen s i, t) \<in> set (sy_seen s)" "t \<le> sy_now s"
proof -
  obtain d where d: "i < length (sy_nodes s)" "local_now s (sy_nodes s ! i) < d"
    "(cd_ownership (nd_cd (sy_nodes s ! i)), d) \<in> active_claims (nd_cd (sy_nodes s ! i))"
    using assms(2) by (rule owns_claim)
  have h: "history_inv s" by (rule reach_history [OF assms(1)])
  then have "claim_traced (set (sy_seen s)) (set (sy_proofs s)) (nd_offset (sy_nodes s ! i))
      (cd_ownership (nd_cd (sy_nodes s ! i)), d)"
    using d by (auto simp: history_inv_def traced_def)
  then show ?thesis
    using that d(2) h
    by (fastforce simp: claim_traced_def gen_seen_def owned_gen_def local_now_def history_inv_def)
qed

text \<open>
  What the distributed configuration store promises of a leader key with a lease: as long as a
  proof for one generation lasts, no newer generation is seen.
\<close>

definition dcs_exclusive :: "system \<Rightarrow> bool" where
  "dcs_exclusive s \<longleftrightarrow> (\<forall>(g, t) \<in> set (sy_seen s). \<forall>(g', D) \<in> set (sy_proofs s). g' < g \<longrightarrow> D \<le> t)"



section \<open>A deployment\<close>

text \<open>
  Two processes, the second of which runs seven seconds ahead. The first takes the free lease for
  writer generation 5; the second observes generation 6 and supersedes it.
\<close>

definition demo_cfg :: coordinator_config where
  "demo_cfg = \<lparr>cc_LeaseDuration = 10 * second, cc_RenewInterval = 3 * second, cc_RetryInterval = second\<rparr>"

definition demo_init :: system where
  "demo_init = \<lparr>sy_now = 1000 * second, sy_dbOffset = - 5 * second, sy_row = None,
     sy_nodes = [new_node demo_cfg 1 0, new_node demo_cfg 2 (7 * second)], sy_stray = [],
     sy_ids = [1, 2], sy_seen = [], sy_proofs = []\<rparr>"

definition demo_pg :: pg_identity where
  "demo_pg = \<lparr>pg_server_address = ''10.0.0.1'', pg_server_port = 5432, pg_in_recovery = False, pg_timeline = 3\<rparr>"

definition demo_obs :: "int \<Rightarrow> writer_observation" where
  "demo_obs g = \<lparr>wo_DCSClusterID = ''c1'', wo_WriterGeneration = g, wo_LeaderName = ''pg-a'',
     wo_ServerAddress = ''10.0.0.1'', wo_ServerPort = 5432, wo_Timeline = 3, wo_DCSProofDeadline = 0\<rparr>"

text \<open>A takeover without a pause; \<open>now\<close> is the local clock of the process, \<open>n\<close> a fresh identity.\<close>

definition takeover ::
  "nat \<Rightarrow> pg_identity \<Rightarrow> gotime \<Rightarrow> gotime \<Rightarrow> writer_observation \<Rightarrow> gotime \<Rightarrow> uuid \<Rightarrow> sys_op list" where
  "takeover i pg t now w pdl n =
     [OpNode i (EvBegin (Inr w)), OpCarryOut i pg t (Inr ''''), OpNode i (EvAnswer now now n),
      OpNode i (EvClosing (Inr pdl) now (n + 1)), OpCarryOut i pg t (Inr ''''),
      OpNode i (EvAnswer now now (n + 2)), OpNode i EvActivated]"

lemma run_reach: "sys_reach s \<Longrightarrow> run_ops sys_step ops s = Some s' \<Longrightarrow> sys_reach s'"
proof (induction ops arbitrary: s)
  case (Cons x xs)
  then obtain t where "sys_step x s = Some t" "run_ops sys_step xs t = Some s'"
    by (cases "sys_step x s") auto
  with Cons show ?case by (blast intro: reach_step)
qed simp

lemma demo_reach: "sys_reach demo_init"
  by (rule reach_init)
    (auto simp: sys_init_def demo_init_def demo_cfg_def new_node_def newCoordinatorWithHolder_def
      validateCoordinatorConfig_def second_def max_duration_def)

definition demo_ops :: "sys_op list" where
  "demo_ops = takeover 0 demo_pg (1000 * second) (1000 * second) (demo_obs 5) (1020 * second) 3 @
     [OpWait 1000] @
     takeover 1 demo_pg (1000 * second + 1000) (1007 * second + 1000) (demo_obs 6) (1030 * second) 6"

lemma demo_both_own:
  "case run_ops sys_step demo_ops demo_init of None \<Rightarrow> False | Some s \<Rightarrow> owns s 0 \<and> owns s 1"
  by code_simp


lemma demo_first_owns:
  "case run_ops sys_step (takeover 0 demo_pg (1000 * second) (1000 * second) (demo_obs 5)
     (1020 * second) 3) demo_init of None \<Rightarrow> False | Some s \<Rightarrow> owns s 0 \<and> dcs_exclusive s"
  by code_simp


section \<open>Progress\<close>

text \<open>What makes the lease available to process \<open>i\<close>, and what the takeover needs besides.\<close>

definition can_take_over :: "system \<Rightarrow> nat \<Rightarrow> pg_identity \<Rightarrow> writer_observation \<Rightarrow> gotime \<Rightarrow> uuid \<Rightarrow> bool" where
  "can_take_over s i pg w pdl n \<longleftrightarrow> i < length (sy_nodes s) \<and>
     (let nd = sy_nodes s ! i; now = local_now s nd in
      nd_phase nd = PhIdle \<and> \<not> nd_parentDone nd \<and> cd_acquireAfter (nd_cd nd) \<le> now \<and> now \<noteq> 0 \<and>
      validateLeaseInput w (hid nd) (cc_LeaseDuration (nd_cfg nd)) = None \<and>
      acquire_outcome pg (sy_now s + sy_dbOffset s) w (hid nd) (sy_row s) = None \<and>
      (case sy_row s of None \<Rightarrow> True | Some r \<Rightarrow> 0 < lr_lease_epoch r) \<and>
      now < pdl \<and> pdl \<noteq> 0 \<and> set (sy_ids s) \<inter> {n, n + 1, n + 2} = {})"

lemma acquire_granted:
  assumes "acquire_outcome pg dbt w h row = None" "0 < duration_Milliseconds dur"
    and "case row of None \<Rightarrow> True | Some r \<Rightarrow> 0 < lr_lease_epoch r"
  shows "\<exists>r. AcquireFleetRuntimeLease pg dbt (acquire_request w h dur) row = (Row (r, dbt), Some r) \<and>
    lr_holder_id r = h \<and> lr_highest_writer_generation r = wo_WriterGeneration w \<and>
    lr_dcs_cluster_id r = wo_DCSClusterID w \<and> dbt < lr_expires_at r \<and> 0 < lr_lease_epoch r \<and>
    writer_matches pg (acquire_request w h dur)"
  using assms
  by (cases row) (auto simp: acquire_outcome_def lease_statement_defs millisecond_def split: if_splits)

lemma renew_granted:
  assumes "lr_holder_id r = h" "lr_highest_writer_generation r = wo_WriterGeneration w"
    and "lr_dcs_cluster_id r = wo_DCSClusterID w" "dbt < lr_expires_at r"
    and "writer_matches pg (acquire_request w h dur)"
  shows "RenewFleetRuntimeLease pg dbt
      (renew_request (w\<lparr>wo_DCSProofDeadline := p\<rparr>) (ownershipFromAcquire (r, dbt)) dur) (Some r) =
    (Row (r\<lparr>lr_expires_at := dbt + duration_Milliseconds dur * millisecond\<rparr>, dbt),
     Some (r\<lparr>lr_expires_at := dbt + duration_Milliseconds dur * millisecond\<rparr>))"
  using assms
  by (simp add: RenewFleetRuntimeLease_def renewable_def renew_request_def ownershipFromAcquire_def Let_def)
    (simp add: writer_matches_def)

lemma renewal_valid:
  assumes "validateLeaseInput w h dur = None" "lr_holder_id r = h"
    and "lr_highest_writer_generation r = wo_WriterGeneration w"
    and "lr_dcs_cluster_id r = wo_DCSClusterID w" "0 < lr_lease_epoch r"
  shows "validateRenewal (w\<lparr>wo_DCSProofDeadline := p\<rparr>) (ownershipFromAcquire (r, dbt)) dur = None"
  using assms
  by (auto simp: validateLeaseInput_def validateRenewal_def validateWriterObservation_def
      invalid_renewal_def ownershipFromAcquire_def split: option.splits if_splits)

lemma activation_succeeds:
  assumes "now < p" "p \<noteq> 0" "now \<noteq> 0" "0 < valid_for own"
  shows "\<exists>c' d ctx. coord_activate now now False own now p c = (None, c') \<and>
    cd_activeCtx c' = Some ctx \<and> cd_leaseTimer c' = Some (Suc (cd_leaseVersion c), d) \<and> now < d"
  using assms
  by (auto simp: coord_activate_def localOwnershipDeadline_def time_defs coord_section_defs
      split: option.split)

lemma goto_again:
  "goto (goto nd x) y = goto nd y" "goto ((goto nd x)\<lparr>nd_answer := a\<rparr>) y = goto nd y"
  by (simp_all add: goto_def)

lemma takeover_first_half:
  assumes can: "can_take_over s i pg w pdl n" and nd: "nd = sy_nodes s ! i"
    and now: "now = local_now s nd"
  shows "\<exists>s' r u. run_ops sys_step (take 4 (takeover i pg (sy_now s) now w pdl n)) s = Some s' \<and>
    i < length (sy_nodes s') \<and> sy_now s' = sy_now s \<and> sy_dbOffset s' = sy_dbOffset s \<and>
    sy_row s' = Some r \<and> set (sy_ids s') = {n, n + 1} \<union> set (sy_ids s) \<and>
    sy_nodes s' ! i = goto nd (nd_cd nd, PhActivating (w\<lparr>wo_DCSProofDeadline := pdl\<rparr>)
      (ownershipFromAcquire (r, sy_now s + sy_dbOffset s)) u now) \<and>
    lr_holder_id r = hid nd \<and> lr_highest_writer_generation r = wo_WriterGeneration w \<and>
    lr_dcs_cluster_id r = wo_DCSClusterID w \<and> sy_now s + sy_dbOffset s < lr_expires_at r \<and>
    writer_matches pg (acquire_request w (hid nd) (cc_LeaseDuration (nd_cfg nd)))"
proof -
  let ?dur = "cc_LeaseDuration (nd_cfg nd)" and ?dbt = "sy_now s + sy_dbOffset s"
  have c: "i < length (sy_nodes s)" "nd_phase nd = PhIdle" "\<not> nd_parentDone nd"
    "cd_acquireAfter (nd_cd nd) \<le> now" "validateLeaseInput w (hid nd) ?dur = None"
    "acquire_outcome pg ?dbt w (hid nd) (sy_row s) = None"
    "case sy_row s of None \<Rightarrow> True | Some r \<Rightarrow> 0 < lr_lease_epoch r"
    "set (sy_ids s) \<inter> {n, n + 1, n + 2} = {}"
    using can nd now by (auto simp: can_take_over_def Let_def)
  have pos: "0 < duration_Milliseconds ?dur"
    using c(5) by (auto simp: validateLeaseInput_def split: option.splits if_splits)
  obtain r where r: "AcquireFleetRuntimeLease pg ?dbt (acquire_request w (hid nd) ?dur) (sy_row s) =
      (Row (r, ?dbt), Some r)" "lr_holder_id r = hid nd"
    "lr_highest_writer_generation r = wo_WriterGeneration w" "lr_dcs_cluster_id r = wo_DCSClusterID w"
    "?dbt < lr_expires_at r" "0 < lr_lease_epoch r"
    "writer_matches pg (acquire_request w (hid nd) ?dur)"
    using acquire_granted [OF c(6) pos c(7)] by blast
  have beg: "try_begin (nd_cfg nd) now (Inr w) (nd_cd nd) = (nd_cd nd, PhAcquiring w (hid nd) now)"
    using c(4,5) by (simp add: try_begin_def time_before_def)
  have obs: "try_observed (nd_cfg nd) now m w (ownershipFromAcquire (r, ?dbt)) u (Inr pdl) (nd_cd nd) =
      (nd_cd nd, PhActivating (w\<lparr>wo_DCSProofDeadline := pdl\<rparr>) (ownershipFromAcquire (r, ?dbt)) u now)"
    for m u
    using renewal_valid [OF c(5) r(2-4,6)] by (simp add: try_observed_def)
  have ln: "local_now x nd' = now" if "sy_now x = sy_now s" "nd_offset nd' = nd_offset nd" for x nd'
    using now that by (simp add: local_now_def)
  show ?thesis
    using c(1,2,8) r(2-7)
    by (simp add: takeover_def Let_def in_flight_def ln beg obs r(1) try_acquire_answer_def
        acquire_result_def proved_by_def numeral_eq_Suc nd [symmetric] goto_again)
      (auto simp: now local_now_def)
qed

lemma takeover_second_half:
  assumes nd: "sy_nodes s ! i = goto nd (nd_cd nd, PhActivating (w\<lparr>wo_DCSProofDeadline := pdl\<rparr>)
      (ownershipFromAcquire (r, sy_now s + sy_dbOffset s)) u now)"
    and i: "i < length (sy_nodes s)" and now: "now = local_now s nd" "now < pdl" "pdl \<noteq> 0" "now \<noteq> 0"
    and row: "sy_row s = Some r" "lr_holder_id r = hid nd"
      "lr_highest_writer_generation r = wo_WriterGeneration w" "lr_dcs_cluster_id r = wo_DCSClusterID w"
      "sy_now s + sy_dbOffset s < lr_expires_at r"
      "writer_matches pg (acquire_request w (hid nd) (cc_LeaseDuration (nd_cfg nd)))"
    and pos: "0 < duration_Milliseconds (cc_LeaseDuration (nd_cfg nd))"
    and rest: "\<not> nd_parentDone nd" "n \<notin> set (sy_ids s)"
  shows "\<exists>s'. run_ops sys_step [OpCarryOut i pg (sy_now s) (Inr ''''), OpNode i (EvAnswer now now n),
      OpNode i EvActivated] s = Some s' \<and> owns s' i"
proof -
  let ?dbt = "sy_now s + sy_dbOffset s" and ?dur = "cc_LeaseDuration (nd_cfg nd)"
  let ?own = "ownershipFromAcquire (r\<lparr>lr_expires_at := ?dbt + duration_Milliseconds ?dur * millisecond\<rparr>, ?dbt)"
  note ren = renew_granted [OF row(2-6), of pdl]
  have "0 < valid_for ?own"
    using pos by (simp add: valid_for_def ownershipFromAcquire_def time_sub_def min_duration_def
        max_duration_def millisecond_def)
  from activation_succeeds [OF now(2-4) this, of "nd_cd nd"] obtain c' d ctx where
    act: "coord_activate now now False ?own now pdl (nd_cd nd) = (None, c')"
    "cd_activeCtx c' = Some ctx" "cd_leaseTimer c' = Some (Suc (cd_leaseVersion (nd_cd nd)), d)" "now < d"
    by blast
  have ln: "local_now x nd' = now" if "sy_now x = sy_now s" "nd_offset nd' = nd_offset nd" for x nd'
    using now(1) that by (simp add: local_now_def)
  have off: "now \<le> sy_now s + nd_offset nd" using now(1) by (simp add: local_now_def)
  have pd: "nd_parentDone (goto nd y) = nd_parentDone nd" for y by (simp add: goto_def)
  show ?thesis
    using i rest act(2-4) off
    by (simp add: Let_def nd in_flight_def ren row(1) renew_result_def ln goto_again pd try_activate_def
        act(1) run_activated_def ActiveLifetime_def owns_def)
qed

text \<open>
  C4. Progress: whenever the lease is available to an idle process (free, expired, superseded by the
  observed generation, or its own), its retry interval has passed and the observer's proof lasts,
  an undisturbed attempt makes that process the owner.
\<close>

theorem takeover_succeeds:
  assumes "can_take_over s i pg w pdl n"
  shows "\<exists>s'. run_ops sys_step (takeover i pg (sy_now s) (local_now s (sy_nodes s ! i)) w pdl n) s =
    Some s' \<and> owns s' i"
proof -
  let ?nd = "sy_nodes s ! i" and ?now = "local_now s (sy_nodes s ! i)"
  from takeover_first_half [OF assms refl refl] obtain s' r u where
    half: "run_ops sys_step (take 4 (takeover i pg (sy_now s) ?now w pdl n)) s = Some s'" and
    s': "i < length (sy_nodes s')" "sy_now s' = sy_now s" "sy_dbOffset s' = sy_dbOffset s"
      "sy_row s' = Some r" "set (sy_ids s') = {n, n + 1} \<union> set (sy_ids s)"
      "sy_nodes s' ! i = goto ?nd (nd_cd ?nd, PhActivating (w\<lparr>wo_DCSProofDeadline := pdl\<rparr>)
        (ownershipFromAcquire (r, sy_now s + sy_dbOffset s)) u ?now)"
      "lr_holder_id r = hid ?nd" "lr_highest_writer_generation r = wo_WriterGeneration w"
      "lr_dcs_cluster_id r = wo_DCSClusterID w" "sy_now s + sy_dbOffset s < lr_expires_at r"
      "writer_matches pg (acquire_request w (hid ?nd) (cc_LeaseDuration (nd_cfg ?nd)))"
    by blast
  have can: "?now < pdl" "pdl \<noteq> 0" "?now \<noteq> 0" "\<not> nd_parentDone ?nd" "n + 2 \<notin> set (sy_ids s)"
      "validateLeaseInput w (hid ?nd) (cc_LeaseDuration (nd_cfg ?nd)) = None"
    using assms by (auto simp: can_take_over_def Let_def)
  have pos: "0 < duration_Milliseconds (cc_LeaseDuration (nd_cfg ?nd))"
    using can(6) by (auto simp: validateLeaseInput_def split: option.splits if_splits)
  have now: "?now = local_now s' ?nd" using s'(2) by (simp add: local_now_def)
  have fresh: "n + 2 \<notin> set (sy_ids s')" using can(5) s'(5) by auto
  obtain s'' where fin: "run_ops sys_step [OpCarryOut i pg (sy_now s') (Inr ''''),
      OpNode i (EvAnswer ?now ?now (n + 2)), OpNode i EvActivated] s' = Some s''" "owns s'' i"
    using takeover_second_half [OF _ s'(1) now can(1-3) s'(4,7-9) _ s'(11) pos can(4) fresh]
      s'(2,3,6,10) by auto
  have "takeover i pg (sy_now s) ?now w pdl n = take 4 (takeover i pg (sy_now s) ?now w pdl n) @
      [OpCarryOut i pg (sy_now s') (Inr ''''), OpNode i (EvAnswer ?now ?now (n + 2)), OpNode i EvActivated]"
    by (simp add: takeover_def s'(2))
  then show ?thesis using half fin by (metis bind.bind_lunit run_ops_append)
qed

theorem takeover_succeeds_witness:
  "\<exists>s'. run_ops sys_step (takeover 1 demo_pg (1000 * second) (1007 * second) (demo_obs 5) (1020 * second) 3)
    demo_init = Some s' \<and> owns s' 1"
proof -
  have "can_take_over demo_init 1 demo_pg (demo_obs 5) (1020 * second) 3" by code_simp
  from takeover_succeeds [OF this] show ?thesis
    by (simp add: demo_init_def local_now_def new_node_def second_def)
qed

end
