(* ===== verification/Ha_Observer.thy ===== *)
theory Ha_Observer
  imports Ha_Lease
begin

text \<open>
  The writer observer (\<open>server/internal/ha/observer.go\<close>): it binds a leader term of the distributed
  configuration store to the PostgreSQL server the process is connected to, and runs an action
  between two readings of the store.

  The etcd, PostgreSQL, Patroni, resolver and clock readings are a record of operations on a world
  of any type, each of which may fail and may change the world; parsing of URLs and IP addresses is
  a pair of functions of that record.
\<close>

section \<open>Readings\<close>

record dcs_member =
  dm_Name :: string
  dm_APIURL :: string
  dm_ConnURL :: string

record dcs_snapshot =
  ds_ClusterID :: string
  ds_Revision :: int
  ds_LeaderName :: string
  ds_WriterGeneration :: int
  ds_LeaderLeaseID :: int
  ds_Member :: dcs_member

record patroni_identity =
  pi_Role :: string
  pi_Timeline :: int

record parsed_url =
  pu_Hostname :: string
  pu_Port :: string

record 'w readers =
  rd_Snapshot :: "'w \<Rightarrow> (ha_error + dcs_snapshot) \<times> 'w"
  rd_LeaseTTL :: "int \<Rightarrow> 'w \<Rightarrow> (ha_error + duration) \<times> 'w"
  rd_Postgres :: "'w \<Rightarrow> (ha_error + pg_identity) \<times> 'w"
  rd_Patroni :: "string \<Rightarrow> string \<Rightarrow> 'w \<Rightarrow> (ha_error + patroni_identity) \<times> 'w"
  rd_Resolve :: "string \<Rightarrow> 'w \<Rightarrow> (ha_error + string list) \<times> 'w"
  rd_Now :: "'w \<Rightarrow> gotime \<times> 'w"
  rd_ParseURL :: "string \<Rightarrow> parsed_url option"
  rd_ParseIP :: "string \<Rightarrow> string option"

text \<open>Sequencing of readings: the first error ends the observation.\<close>

definition and_then ::
  "('w \<Rightarrow> (ha_error + 'a) \<times> 'w) \<Rightarrow> ('a \<Rightarrow> 'w \<Rightarrow> (ha_error + 'b) \<times> 'w) \<Rightarrow> 'w \<Rightarrow> (ha_error + 'b) \<times> 'w" where
  "and_then m f w = (case m w of (Inl e, w') \<Rightarrow> (Inl e, w') | (Inr a, w') \<Rightarrow> f a w')"

definition check :: "ha_error option \<Rightarrow> 'w \<Rightarrow> (ha_error + unit) \<times> 'w" where
  "check e w = (case e of None \<Rightarrow> (Inr (), w) | Some e \<Rightarrow> (Inl e, w))"

lemma and_then_Inr:
  assumes "and_then m f w = (Inr b, w')"
  obtains a u where "m w = (Inr a, u)" "f a u = (Inr b, w')"
  using assms by (auto simp: and_then_def split: prod.splits sum.splits)

lemma check_Inr: "check e w = (Inr x, w') \<longleftrightarrow> e = None \<and> w' = w"
  by (auto simp: check_def split: option.splits)

section \<open>Validation\<close>

definition validateDCSSnapshot :: "dcs_snapshot \<Rightarrow> ha_error option" where
  "validateDCSSnapshot s =
     (if ds_ClusterID s = '''' \<or> ds_ClusterID s = ''0'' then Some (HaError ''no cluster identity'')
      else if ds_Revision s \<le> 0 then Some (HaError ''no revision'')
      else if ds_LeaderName s = '''' then Some (HaError ''no leader'')
      else if ds_WriterGeneration s \<le> 0 then Some (HaError ''create_revision is invalid'')
      else if ds_LeaderLeaseID s \<le> 0 then Some (HaError ''leader lease is invalid'')
      else if dm_Name (ds_Member s) \<noteq> ds_LeaderName s \<or> dm_APIURL (ds_Member s) = '''' \<or>
              dm_ConnURL (ds_Member s) = '''' then Some (HaError ''no matching leader member'')
      else None)"

definition isPrimaryRole :: "string \<Rightarrow> bool" where
  "isPrimaryRole role \<longleftrightarrow> role = ''primary'' \<or> role = ''master''"

definition writerObservation :: "dcs_snapshot \<Rightarrow> pg_identity \<Rightarrow> writer_observation" where
  "writerObservation s pg =
     \<lparr>wo_DCSClusterID = ds_ClusterID s, wo_WriterGeneration = ds_WriterGeneration s,
      wo_LeaderName = ds_LeaderName s, wo_ServerAddress = pg_server_address pg,
      wo_ServerPort = pg_server_port pg, wo_Timeline = pg_timeline pg, wo_DCSProofDeadline = 0\<rparr>"

definition normalizedIP :: "'w readers \<Rightarrow> string \<Rightarrow> string" where
  "normalizedIP rd a = (case rd_ParseIP rd a of Some p \<Rightarrow> p | None \<Rightarrow> a)"

text \<open>\<open>strconv.ParseInt(s, 10, 32)\<close>.\<close>

fun digits_value :: "int \<Rightarrow> string \<Rightarrow> int option" where
  "digits_value acc [] = Some acc"
| "digits_value acc (c # cs) =
     (let d = of_char c - 48 in
      if 0 \<le> d \<and> d \<le> 9 then digits_value (acc * 10 + d) cs else None)"

definition ParseInt32 :: "string \<Rightarrow> int option" where
  "ParseInt32 s =
     (let (neg, ds) = (case s of [] \<Rightarrow> (False, [])
        | c # cs \<Rightarrow> if c = CHR ''-'' then (True, cs) else if c = CHR ''+'' then (False, cs) else (False, s))
      in if ds = [] then None
         else case digits_value 0 ds of
           None \<Rightarrow> None
         | Some n \<Rightarrow> let v = (if neg then - n else n) in
             if - (2 ^ 31) \<le> v \<and> v < 2 ^ 31 then Some v else None)"

text \<open>
  The loop over the two endpoints of the leader with its cache of resolved hosts.
\<close>

fun match_endpoints ::
  "'w readers \<Rightarrow> string \<Rightarrow> string list \<Rightarrow> (string \<times> string list) list \<Rightarrow> 'w \<Rightarrow> (ha_error + unit) \<times> 'w" where
  "match_endpoints rd want [] cache w = (Inr (), w)"
| "match_endpoints rd want (host # hosts) cache w =
     (let (res, w') = (case map_of cache host of Some as \<Rightarrow> (Inr as, w) | None \<Rightarrow> rd_Resolve rd host w) in
      case res of
        Inl _ \<Rightarrow> (Inl ErrWritableServerMismatch, w')
      | Inr addresses \<Rightarrow>
          if list_ex (\<lambda>a. normalizedIP rd a = want) addresses
          then match_endpoints rd want hosts (AList.update host addresses cache) w'
          else (Inl ErrWritableServerMismatch, w'))"

definition validateConnectedPostgresEndpoints ::
  "'w readers \<Rightarrow> dcs_member \<Rightarrow> pg_identity \<Rightarrow> 'w \<Rightarrow> (ha_error + unit) \<times> 'w" where
  "validateConnectedPostgresEndpoints rd member pg w =
     (case rd_ParseURL rd (dm_ConnURL member) of
        None \<Rightarrow> (Inl ErrWritableServerMismatch, w)
      | Some conn \<Rightarrow>
          if pu_Hostname conn = '''' then (Inl ErrWritableServerMismatch, w)
          else case (if pu_Port conn = '''' then Some 5432 else ParseInt32 (pu_Port conn)) of
            None \<Rightarrow> (Inl ErrWritableServerMismatch, w)
          | Some port \<Rightarrow>
              if port \<noteq> pg_server_port pg then (Inl ErrWritableServerMismatch, w)
              else case rd_ParseURL rd (dm_APIURL member) of
                None \<Rightarrow> (Inl ErrWritableServerMismatch, w)
              | Some api \<Rightarrow>
                  if pu_Hostname api = '''' then (Inl ErrWritableServerMismatch, w)
                  else match_endpoints rd (normalizedIP rd (pg_server_address pg))
                         [pu_Hostname conn, pu_Hostname api] [] w)"

section \<open>Observation\<close>

definition leaderLeaseDeadline :: "'w readers \<Rightarrow> int \<Rightarrow> 'w \<Rightarrow> (ha_error + gotime) \<times> 'w" where
  "leaderLeaseDeadline rd leaseID w =
     (let (started, w) = rd_Now rd w in
      and_then (rd_LeaseTTL rd leaseID)
        (\<lambda>ttl w. let deadline = time_add started ttl in
           if ttl \<le> 0 then (Inl ErrLeaderLeaseExpired, w)
           else let (now, w) = rd_Now rd w in
             if \<not> time_after deadline now then (Inl ErrLeaderLeaseExpired, w)
             else (Inr deadline, w)) w)"

definition dcs_unchanged :: "dcs_snapshot \<Rightarrow> dcs_snapshot \<Rightarrow> ha_error option" where
  "dcs_unchanged first again =
     (if ds_ClusterID again \<noteq> ds_ClusterID first then Some ErrDCSClusterIdentityMismatch
      else if ds_LeaderName again \<noteq> ds_LeaderName first \<or>
              ds_WriterGeneration again \<noteq> ds_WriterGeneration first \<or>
              ds_LeaderLeaseID again \<noteq> ds_LeaderLeaseID first \<or>
              dm_APIURL (ds_Member again) \<noteq> dm_APIURL (ds_Member first) \<or>
              dm_ConnURL (ds_Member again) \<noteq> dm_ConnURL (ds_Member first)
        then Some ErrWriterChanged
      else None)"

definition confirmDCSUnchanged :: "'w readers \<Rightarrow> dcs_snapshot \<Rightarrow> 'w \<Rightarrow> (ha_error + dcs_snapshot) \<times> 'w" where
  "confirmDCSUnchanged rd first =
     and_then (rd_Snapshot rd) (\<lambda>again.
     and_then (check (validateDCSSnapshot again)) (\<lambda>_.
     and_then (check (dcs_unchanged first again)) (\<lambda>_ w. (Inr again, w))))"

definition invalid_connected :: "pg_identity \<Rightarrow> bool" where
  "invalid_connected pg \<longleftrightarrow> pg_in_recovery pg \<or> pg_server_address pg = '''' \<or>
     pg_server_port pg \<le> 0 \<or> pg_timeline pg \<le> 0"

text \<open>The opening readings: the snapshot, the connected server and Patroni's account of it.\<close>

definition observe_opening ::
  "'w readers \<Rightarrow> 'w \<Rightarrow> (ha_error + (dcs_snapshot \<times> pg_identity \<times> patroni_identity)) \<times> 'w" where
  "observe_opening rd =
     and_then (rd_Snapshot rd) (\<lambda>first.
     and_then (check (validateDCSSnapshot first)) (\<lambda>_.
     and_then (rd_Postgres rd) (\<lambda>pg.
     and_then (check (if invalid_connected pg then Some ErrWritableServerMismatch else None)) (\<lambda>_.
     and_then (validateConnectedPostgresEndpoints rd (ds_Member first) pg) (\<lambda>_.
     and_then (rd_Patroni rd (dm_APIURL (ds_Member first)) (pg_server_address pg)) (\<lambda>pat.
     and_then (check (if \<not> isPrimaryRole (pi_Role pat) then Some ErrWritableServerMismatch else None)) (\<lambda>_ w.
       (Inr (first, pg, pat), w))))))))"

text \<open>The closing readings: the unchanged snapshot and how long its leader lease lasts.\<close>

definition observe_closing ::
  "'w readers \<Rightarrow> dcs_snapshot \<Rightarrow> 'w \<Rightarrow> (ha_error + (dcs_snapshot \<times> gotime)) \<times> 'w" where
  "observe_closing rd first =
     and_then (confirmDCSUnchanged rd first) (\<lambda>again.
     and_then (leaderLeaseDeadline rd (ds_LeaderLeaseID again)) (\<lambda>deadline w. (Inr (again, deadline), w)))"

text \<open>
  \<open>observeAndRun\<close>; a nil action is \<open>None\<close>. An error comes with the zero observation, except that
  of a timeline mismatch.
\<close>

datatype observe_result =
    Observed writer_observation
  | TimelineDiffers writer_observation
  | ObserveError ha_error

definition observeAndRun ::
  "'w readers \<Rightarrow> (writer_observation \<Rightarrow> 'w \<Rightarrow> ha_error option \<times> 'w) option \<Rightarrow> 'w \<Rightarrow> observe_result \<times> 'w" where
  "observeAndRun rd action w =
     (case observe_opening rd w of
        (Inl e, w) \<Rightarrow> (ObserveError e, w)
      | (Inr (first, pg, pat), w) \<Rightarrow>
          if pi_Timeline pat \<noteq> pg_timeline pg then
            (case observe_closing rd first w of
               (Inl e, w) \<Rightarrow> (ObserveError e, w)
             | (Inr (again, _), w) \<Rightarrow> (TimelineDiffers (writerObservation again pg), w))
          else
            let (err, w) = (case action of None \<Rightarrow> (None, w) | Some f \<Rightarrow> f (writerObservation first pg) w) in
            case err of
              Some e \<Rightarrow> (ObserveError e, w)
            | None \<Rightarrow>
                (case observe_closing rd first w of
                   (Inl e, w) \<Rightarrow> (ObserveError e, w)
                 | (Inr (again, deadline), w) \<Rightarrow>
                     (Observed ((writerObservation again pg)\<lparr>wo_DCSProofDeadline := deadline\<rparr>), w)))"

definition ObserveAndRun ::
  "'w readers \<Rightarrow> (writer_observation \<Rightarrow> 'w \<Rightarrow> ha_error option \<times> 'w) option \<Rightarrow> 'w \<Rightarrow> observe_result \<times> 'w" where
  "ObserveAndRun rd action w =
     (case action of
        None \<Rightarrow> (ObserveError (HaError ''action is required''), w)
      | Some f \<Rightarrow> observeAndRun rd (Some f) w)"

definition Observe :: "'w readers \<Rightarrow> 'w \<Rightarrow> observe_result \<times> 'w" where
  "Observe rd w = observeAndRun rd None w"

section \<open>The etcd readings\<close>

record etcd_kv =
  kv_Key :: string
  kv_Value :: string
  kv_CreateRevision :: int
  kv_Lease :: int

record etcd_response =
  er_ClusterId :: nat
  er_Revision :: int
  er_Kvs :: "etcd_kv list"

definition trim_slashes :: "string \<Rightarrow> string" where
  "trim_slashes p = rev (dropWhile (\<lambda>c. c = CHR ''/'') (rev p))"

fun starts_with :: "string \<Rightarrow> string \<Rightarrow> bool" where
  "starts_with [] s \<longleftrightarrow> True"
| "starts_with (c # cs) [] \<longleftrightarrow> False"
| "starts_with (c # cs) (d # ds) \<longleftrightarrow> c = d \<and> starts_with cs ds"

record leader_scan =
  ls_leader :: string
  ls_generation :: int
  ls_lease :: int
  ls_members :: "(string \<times> dcs_member) list"

text \<open>
  The loop over the keys under the cluster path; \<open>decode\<close> is \<open>json.Unmarshal\<close> of a member's value
  into its two URLs.
\<close>

fun scan_keys ::
  "(string \<Rightarrow> (string \<times> string) option) \<Rightarrow> string \<Rightarrow> etcd_kv list \<Rightarrow> leader_scan \<Rightarrow> ha_error + leader_scan" where
  "scan_keys decode path [] sc = Inr sc"
| "scan_keys decode path (kv # kvs) sc =
     (if kv_Key kv = path @ ''/leader'' then
        if ls_leader sc \<noteq> '''' then Inl (HaError ''duplicate leader key'')
        else scan_keys decode path kvs (sc\<lparr>ls_leader := kv_Value kv,
               ls_generation := kv_CreateRevision kv, ls_lease := kv_Lease kv\<rparr>)
      else if starts_with (path @ ''/members/'') (kv_Key kv) then
        let name = drop (length (path @ ''/members/'')) (kv_Key kv) in
        (case decode (kv_Value kv) of
           None \<Rightarrow> Inl (HaError ''decode DCS member'')
         | Some (api, conn) \<Rightarrow>
             scan_keys decode path kvs (sc\<lparr>ls_members := AList.update name
               \<lparr>dm_Name = name, dm_APIURL = api, dm_ConnURL = conn\<rparr> (ls_members sc)\<rparr>))
      else scan_keys decode path kvs sc)"

definition extractDCSSnapshot ::
  "(string \<Rightarrow> (string \<times> string) option) \<Rightarrow> etcd_response option \<Rightarrow> string \<Rightarrow> ha_error + dcs_snapshot" where
  "extractDCSSnapshot decode response clusterPath =
     (case response of
        None \<Rightarrow> Inl (HaError ''no response header'')
      | Some r \<Rightarrow>
          (case scan_keys decode (trim_slashes clusterPath) (er_Kvs r)
              \<lparr>ls_leader = '''', ls_generation = 0, ls_lease = 0, ls_members = []\<rparr> of
             Inl e \<Rightarrow> Inl e
           | Inr sc \<Rightarrow>
               let s = \<lparr>ds_ClusterID = show_nat (er_ClusterId r), ds_Revision = er_Revision r,
                 ds_LeaderName = ls_leader sc, ds_WriterGeneration = ls_generation sc,
                 ds_LeaderLeaseID = ls_lease sc,
                 ds_Member = (case map_of (ls_members sc) (ls_leader sc) of Some m \<Rightarrow> m
                   | None \<Rightarrow> \<lparr>dm_Name = '''', dm_APIURL = '''', dm_ConnURL = ''''\<rparr>)\<rparr>
               in case validateDCSSnapshot s of None \<Rightarrow> Inr s | Some e \<Rightarrow> Inl e))"

text \<open>\<open>LeaseTTL\<close>: the answer of etcd is the identity of a lease and its remaining seconds.\<close>

definition LeaseTTL :: "int \<Rightarrow> (ha_error + (int \<times> int) option) \<Rightarrow> ha_error + duration" where
  "LeaseTTL leaseID answer =
     (case answer of
        Inl e \<Rightarrow> Inl e
      | Inr None \<Rightarrow> Inl (HaError ''different leader lease'')
      | Inr (Some (i, ttl)) \<Rightarrow>
          if i \<noteq> leaseID then Inl (HaError ''different leader lease'')
          else if ttl \<le> 0 then Inl ErrLeaderLeaseExpired
          else Inr (ttl * second))"

lemma scan_keys_leader:
  assumes "scan_keys decode path kvs sc = Inr sc'"
  shows "(ls_leader sc' = ls_leader sc \<and> ls_generation sc' = ls_generation sc \<and> ls_lease sc' = ls_lease sc) \<or>
    (\<exists>kv \<in> set kvs. kv_Key kv = path @ ''/leader'' \<and> ls_leader sc' = kv_Value kv \<and>
       ls_generation sc' = kv_CreateRevision kv \<and> ls_lease sc' = kv_Lease kv)"
  using assms
proof (induction kvs arbitrary: sc)
  case (Cons kv kvs)
  then show ?case
    by (fastforce simp: Let_def split: if_splits option.splits)
qed simp

text \<open>The writer generation is the create revision of the leader key, never that of another key.\<close>

lemma extract_generation:
  assumes "extractDCSSnapshot decode (Some r) clusterPath = Inr s"
  shows "\<exists>kv \<in> set (er_Kvs r). kv_Key kv = trim_slashes clusterPath @ ''/leader'' \<and>
    ds_LeaderName s = kv_Value kv \<and> ds_WriterGeneration s = kv_CreateRevision kv \<and>
    ds_LeaderLeaseID s = kv_Lease kv"
proof -
  from assms obtain sc where sc: "scan_keys decode (trim_slashes clusterPath) (er_Kvs r)
      \<lparr>ls_leader = '''', ls_generation = 0, ls_lease = 0, ls_members = []\<rparr> = Inr sc"
    and s: "ds_LeaderName s = ls_leader sc" "ds_WriterGeneration s = ls_generation sc"
      "ds_LeaderLeaseID s = ls_lease sc" "validateDCSSnapshot s = None"
    by (auto simp: extractDCSSnapshot_def Let_def split: sum.splits option.splits)
  from s(4) have "ds_LeaderName s \<noteq> ''''" by (auto simp: validateDCSSnapshot_def split: if_splits)
  with scan_keys_leader [OF sc] s show ?thesis by auto
qed

section \<open>What an observation proves\<close>

text \<open>The deadline \<open>d\<close> is the life of lease \<open>l\<close> from before it was read, and lies in the future.\<close>

definition live_lease :: "'w readers \<Rightarrow> int \<Rightarrow> gotime \<Rightarrow> 'w \<Rightarrow> bool" where
  "live_lease rd l d w' \<longleftrightarrow>
     (\<exists>v ttl. let (started, v) = rd_Now rd v; (res, v) = rd_LeaseTTL rd l v; (now, v) = rd_Now rd v in
        res = Inr ttl \<and> 0 < ttl \<and> d = started + ttl \<and> now < d \<and> v = w')"

lemma leaderLeaseDeadline_live:
  assumes "leaderLeaseDeadline rd l w = (Inr d, w')"
  shows "live_lease rd l d w'"
  using assms unfolding live_lease_def
  by (intro exI [of _ w])
    (auto simp: leaderLeaseDeadline_def and_then_def Let_def time_defs case_prod_beta
      split: prod.splits sum.splits if_splits)

lemma observe_openingE:
  assumes "observe_opening rd w = (Inr (first, pg, pat), w')"
  shows "validateDCSSnapshot first = None" "\<not> invalid_connected pg" "isPrimaryRole (pi_Role pat)"
    and "fst (rd_Snapshot rd w) = Inr first"
  using assms unfolding observe_opening_def
  by (auto elim!: and_then_Inr simp: check_Inr split: if_splits)

lemma observe_closingE:
  assumes "observe_closing rd first w = (Inr (again, d), w')"
  shows "validateDCSSnapshot again = None" "dcs_unchanged first again = None"
    and "fst (rd_Snapshot rd w) = Inr again"
    and "live_lease rd (ds_LeaderLeaseID first) d w'"
proof -
  from assms obtain u where u: "confirmDCSUnchanged rd first w = (Inr again, u)"
    "leaderLeaseDeadline rd (ds_LeaderLeaseID again) u = (Inr d, w')"
    unfolding observe_closing_def by (auto elim!: and_then_Inr)
  from u(1) show "validateDCSSnapshot again = None" "dcs_unchanged first again = None"
    "fst (rd_Snapshot rd w) = Inr again"
    unfolding confirmDCSUnchanged_def by (auto elim!: and_then_Inr simp: check_Inr)
  then show "live_lease rd (ds_LeaderLeaseID first) d w'"
    using leaderLeaseDeadline_live [OF u(2)] by (simp add: dcs_unchanged_def split: if_splits)
qed

lemma unchanged_observation:
  "dcs_unchanged first again = None \<Longrightarrow> writerObservation again pg = writerObservation first pg"
  by (auto simp: dcs_unchanged_def writerObservation_def split: if_splits)

lemma valid_observation:
  "validateDCSSnapshot s = None \<Longrightarrow> \<not> invalid_connected pg \<Longrightarrow>
     validateWriterObservation ((writerObservation s pg)\<lparr>wo_DCSProofDeadline := d\<rparr>) = None"
  by (auto simp: validateDCSSnapshot_def invalid_connected_def writerObservation_def
      validateWriterObservation_def split: if_splits)

text \<open>
  The action ran between two valid and equal readings of the leader, and the deadline is that of
  the leader's lease read after it.
\<close>

definition bracketed ::
  "'w readers \<Rightarrow> (writer_observation \<Rightarrow> 'w \<Rightarrow> ha_error option \<times> 'w) \<Rightarrow> 'w \<Rightarrow> writer_observation \<Rightarrow> 'w \<Rightarrow> bool" where
  "bracketed rd f w obs w' \<longleftrightarrow>
     (\<exists>first again pg u u'.
        fst (rd_Snapshot rd w) = Inr first \<and> writerObservation first pg = obs\<lparr>wo_DCSProofDeadline := 0\<rparr> \<and>
        f (writerObservation first pg) u = (None, u') \<and>
        fst (rd_Snapshot rd u') = Inr again \<and> dcs_unchanged first again = None \<and>
        live_lease rd (ds_LeaderLeaseID first) (wo_DCSProofDeadline obs) w')"

text \<open>
  Fail-closed observation: if \<open>ObserveAndRun\<close> returns an observation, then its action ran, with
  that very observation and without an error, between two valid readings of the leader that agree
  on cluster, leader, writer generation, lease and endpoints; the observation is one the lease
  store accepts; and its deadline is the remaining life of that leader's lease, read after the
  action, counted from before the reading and still in the future. When only the timelines differ
  the observation returned is that of an unchanged leader too, without a deadline.
\<close>

theorem observation_brackets_action:
  "case ObserveAndRun rd (Some f) w of
     (Observed obs, w') \<Rightarrow> bracketed rd f w obs w' \<and> validateWriterObservation obs = None
   | (TimelineDiffers obs, w') \<Rightarrow> validateWriterObservation obs = None \<and> wo_DCSProofDeadline obs = 0
   | (ObserveError e, w') \<Rightarrow> True"
proof (cases "observe_opening rd w")
  case (Pair res v)
  show ?thesis
  proof (cases res)
    case (Inl e)
    then show ?thesis by (simp add: ObserveAndRun_def observeAndRun_def Pair)
  next
    case (Inr x)
    obtain first pg pat where x: "x = (first, pg, pat)" by (metis prod.exhaust)
    note op = observe_openingE [OF Pair [unfolded Inr x]]
    have same: "writerObservation again pg = writerObservation first pg \<and>
        validateWriterObservation ((writerObservation first pg)\<lparr>wo_DCSProofDeadline := d\<rparr>) = None"
      if "observe_closing rd first u = (Inr (again, d'), u')" for again d d' u u'
      using observe_closingE(2) [OF that] unchanged_observation valid_observation op by blast
    have zero: "(writerObservation s p)\<lparr>wo_DCSProofDeadline := 0\<rparr> = writerObservation s p" for s p
      by (simp add: writerObservation_def)
    have br: "bracketed rd f w ((writerObservation first pg)\<lparr>wo_DCSProofDeadline := d\<rparr>) w'"
      if "f (writerObservation first pg) v = (None, u')" "observe_closing rd first u' = (Inr (again, d), w')"
      for u' again d w'
      unfolding bracketed_def
      by (rule exI [of _ first], rule exI [of _ again], rule exI [of _ pg], rule exI [of _ v],
          rule exI [of _ u'])
        (simp add: that op(4) observe_closingE [OF that(2)] zero)
    show ?thesis
      using same [of _ _ _ _ 0] same br
      by (auto simp: ObserveAndRun_def observeAndRun_def Pair Inr x zero Let_def writerObservation_def
          split: prod.split sum.split option.split if_split)
  qed
qed

end
