(* ===== verification/Ha_Gate.thy ===== *)
theory Ha_Gate
  imports Prelude
begin

text \<open>
  The admission gate of an active-passive deployment (\<open>server/internal/ha/gate.go\<close>): work is
  admitted only during an active lifetime, and deactivating one waits until everything admitted
  in it has been released.

  An activation is an object held by pointer, so activations live in a heap and the gate and
  every admission refer to them by index. The lifetime context of an activation is the flag
  whether it is cancelled, by the gate or by the runtime that owns its parent; \<open>drained\<close> is the
  flag whether the channel is closed. An admission keeps the state of its \<open>sync.Once\<close>. Each
  operation is one critical section of the gate's mutex.
\<close>

section \<open>The gate\<close>

record gate_activation =
  ga_cancelled :: bool
  ga_admitting :: bool
  ga_admissions :: int
  ga_drained :: bool

record admission =
  ad_activation :: nat
  ad_released :: bool

record gate =
  g_active :: "nat option"
  hp_acts :: "gate_activation list"
  g_admissions :: "admission list"

datatype gate_error = ErrNotActive

definition newGate :: gate where
  "newGate = \<lparr>g_active = None, hp_acts = [], g_admissions = []\<rparr>"

definition upd_act :: "nat \<Rightarrow> (gate_activation \<Rightarrow> gate_activation) \<Rightarrow> gate \<Rightarrow> gate" where
  "upd_act a f g = g\<lparr>hp_acts := (hp_acts g)[a := f (hp_acts g ! a)]\<rparr>"

definition may_admit :: "gate \<Rightarrow> nat \<Rightarrow> bool" where
  "may_admit g a \<longleftrightarrow> ga_admitting (hp_acts g ! a) \<and> \<not> ga_cancelled (hp_acts g ! a)"

definition Active :: "gate \<Rightarrow> bool" where
  "Active g = (case g_active g of None \<Rightarrow> False | Some a \<Rightarrow> may_admit g a)"

text \<open>Closing the closed channel would panic; the \<open>select\<close> looks before it closes.\<close>

definition close_drained :: "nat \<Rightarrow> gate \<Rightarrow> gate option" where
  "close_drained a g =
     (if ga_drained (hp_acts g ! a) then None
      else Some (upd_act a (\<lambda>k. k\<lparr>ga_drained := True\<rparr>) g))"

definition closeIfDrained :: "nat \<Rightarrow> gate \<Rightarrow> gate option" where
  "closeIfDrained a g =
     (if \<not> ga_admitting (hp_acts g ! a) \<and> ga_admissions (hp_acts g ! a) = 0 then
        if ga_drained (hp_acts g ! a) then Some g else close_drained a g
      else Some g)"

definition stop_admitting :: "nat \<Rightarrow> gate \<Rightarrow> gate option" where
  "stop_admitting a g =
     closeIfDrained a (upd_act a (\<lambda>k. k\<lparr>ga_admitting := False, ga_cancelled := True\<rparr>) g)"

text \<open>The parent context of the new activation may already be cancelled.\<close>

definition activate :: "bool \<Rightarrow> gate \<Rightarrow> gate option" where
  "activate parentCancelled g =
     Option.bind (case g_active g of None \<Rightarrow> Some g | Some old \<Rightarrow> stop_admitting old g)
       (\<lambda>g. Some (g\<lparr>hp_acts := hp_acts g @ [\<lparr>ga_cancelled = parentCancelled, ga_admitting = True,
                  ga_admissions = 0, ga_drained = False\<rparr>],
                g_active := Some (length (hp_acts g))\<rparr>))"

text \<open>
  The channel \<open>deactivate\<close> returns: that of the activation, or (\<open>None\<close>) a fresh closed one.
\<close>

definition deactivate :: "gate \<Rightarrow> (nat option \<times> gate) option" where
  "deactivate g =
     (case g_active g of
        None \<Rightarrow> Some (None, g)
      | Some a \<Rightarrow>
          map_option (\<lambda>g. (Some a, g)) (stop_admitting a (g\<lparr>g_active := None\<rparr>)))"

definition release_act :: "nat \<Rightarrow> gate \<Rightarrow> gate option" where
  "release_act a g =
     closeIfDrained a (upd_act a (\<lambda>k. k\<lparr>ga_admissions := ga_admissions k - 1\<rparr>) g)"

text \<open>The closure \<open>release\<close> of an admission, run at most once.\<close>

definition release :: "nat \<Rightarrow> gate \<Rightarrow> gate option" where
  "release l g =
     (if length (g_admissions g) \<le> l then Some g
      else let m = g_admissions g ! l in
        if ad_released m then Some g
        else release_act (ad_activation m)
               (g\<lparr>g_admissions := (g_admissions g)[l := m\<lparr>ad_released := True\<rparr>]\<rparr>))"

text \<open>\<open>Admit\<close> up to the end of its critical section, and the check of the lifetime after it.\<close>

definition admit_locked :: "gate \<Rightarrow> (gate_error + nat) \<times> gate" where
  "admit_locked g =
     (case g_active g of
        None \<Rightarrow> (Inl ErrNotActive, g)
      | Some a \<Rightarrow>
          if \<not> may_admit g a then (Inl ErrNotActive, g)
          else (Inr (length (g_admissions g)),
                (upd_act a (\<lambda>k. k\<lparr>ga_admissions := ga_admissions k + 1\<rparr>) g)
                  \<lparr>g_admissions := g_admissions g @ [\<lparr>ad_activation = a, ad_released = False\<rparr>]\<rparr>))"

definition admit_check :: "nat \<Rightarrow> gate \<Rightarrow> ((gate_error + nat) \<times> gate) option" where
  "admit_check l g =
     (if ga_cancelled (hp_acts g ! ad_activation (g_admissions g ! l))
      then map_option (\<lambda>g. (Inl ErrNotActive, g)) (release l g)
      else Some (Inr l, g))"

text \<open>An admitted request's context is done when it was released or its lifetime was cancelled.\<close>

definition request_done :: "gate \<Rightarrow> nat \<Rightarrow> bool" where
  "request_done g l \<longleftrightarrow> ad_released (g_admissions g ! l) \<or>
     ga_cancelled (hp_acts g ! ad_activation (g_admissions g ! l))"

datatype gate_op =
    GActivate bool
  | GDeactivate
  | GAdmit
  | GAdmitCheck nat
  | GRelease nat
  | GParentCancel nat

fun gate_exec :: "gate_op \<Rightarrow> gate \<Rightarrow> gate option" where
  "gate_exec (GActivate c) g = activate c g"
| "gate_exec GDeactivate g = map_option snd (deactivate g)"
| "gate_exec GAdmit g = Some (snd (admit_locked g))"
| "gate_exec (GAdmitCheck l) g =
     (if l < length (g_admissions g) then map_option snd (admit_check l g) else Some g)"
| "gate_exec (GRelease l) g = release l g"
| "gate_exec (GParentCancel a) g = Some (upd_act a (\<lambda>k. k\<lparr>ga_cancelled := True\<rparr>) g)"

text \<open>\<open>Admit\<close> as a whole; \<open>gap\<close> is what happens before the lifetime is checked again.\<close>

definition Admit :: "gate_op list \<Rightarrow> gate \<Rightarrow> ((gate_error + nat) \<times> gate) option" where
  "Admit gap g =
     (case admit_locked g of
        (Inl e, g) \<Rightarrow> Some (Inl e, g)
      | (Inr l, g) \<Rightarrow> Option.bind (run_ops gate_exec gap g) (admit_check l))"

section \<open>The invariant\<close>

definition held :: "gate \<Rightarrow> nat \<Rightarrow> nat" where
  "held g a = length (filter (\<lambda>m. ad_activation m = a \<and> \<not> ad_released m) (g_admissions g))"

definition act_ok :: "gate \<Rightarrow> nat \<Rightarrow> bool" where
  "act_ok g a \<longleftrightarrow>
     (let k = hp_acts g ! a in
      (ga_admitting k \<longleftrightarrow> g_active g = Some a) \<and>
      (\<not> ga_admitting k \<longrightarrow> ga_cancelled k) \<and>
      ga_admissions k = int (held g a) \<and>
      (ga_drained k \<longleftrightarrow> \<not> ga_admitting k \<and> held g a = 0))"

definition gate_inv :: "gate \<Rightarrow> bool" where
  "gate_inv g \<longleftrightarrow>
     (\<forall>a < length (hp_acts g). act_ok g a) \<and>
     (\<forall>a. g_active g = Some a \<longrightarrow> a < length (hp_acts g)) \<and>
     (\<forall>m \<in> set (g_admissions g). ad_activation m < length (hp_acts g))"

lemma upd_act_simps [simp]:
  "g_active (upd_act a f g) = g_active g" "g_admissions (upd_act a f g) = g_admissions g"
  "length (hp_acts (upd_act a f g)) = length (hp_acts g)" "held (upd_act a f g) = held g"
  by (simp_all add: upd_act_def held_def fun_eq_iff)

lemma nth_upd_act:
  "b < length (hp_acts g) \<Longrightarrow>
    hp_acts (upd_act a f g) ! b = (if b = a then f (hp_acts g ! a) else hp_acts g ! b)"
  by (simp add: upd_act_def nth_list_update)

lemma upd_act_id: "f (hp_acts g ! a) = hp_acts g ! a \<Longrightarrow> upd_act a f g = g"
  by (simp add: upd_act_def)

definition mark_drained :: "gate_activation \<Rightarrow> gate_activation" where
  "mark_drained k = k\<lparr>ga_drained := ga_drained k \<or> \<not> ga_admitting k \<and> ga_admissions k = 0\<rparr>"

lemma closeIfDrained_eq: "closeIfDrained a g = Some (upd_act a mark_drained g)"
proof -
  let ?k = "hp_acts g ! a"
  have same: "mark_drained k = k" if "ga_admitting k \<or> ga_admissions k \<noteq> 0 \<or> ga_drained k" for k
    using that by (cases k) (auto simp: mark_drained_def)
  consider "\<not> ga_admitting ?k" "ga_admissions ?k = 0" "\<not> ga_drained ?k"
    | "ga_admitting ?k \<or> ga_admissions ?k \<noteq> 0 \<or> ga_drained ?k"
    by blast
  then show ?thesis
  proof cases
    case 1
    then show ?thesis
      by (simp add: closeIfDrained_def close_drained_def upd_act_def mark_drained_def)
  next
    case 2
    then show ?thesis by (auto simp: closeIfDrained_def upd_act_id same)
  qed
qed

lemma upd_act_twice: "a < length (hp_acts g) \<Longrightarrow> upd_act a f (upd_act a h g) = upd_act a (f \<circ> h) g"
  by (simp add: upd_act_def)

lemma gate_invD:
  assumes "gate_inv g"
  shows "a < length (hp_acts g) \<Longrightarrow> act_ok g a" "g_active g = Some a \<Longrightarrow> a < length (hp_acts g)"
    "m \<in> set (g_admissions g) \<Longrightarrow> ad_activation m < length (hp_acts g)"
  using assms by (auto simp: gate_inv_def)

definition stopped :: "gate_activation \<Rightarrow> gate_activation" where
  "stopped k = mark_drained (k\<lparr>ga_admitting := False, ga_cancelled := True\<rparr>)"

lemma stop_admitting_eq:
  "a < length (hp_acts g) \<Longrightarrow> stop_admitting a g = Some (upd_act a stopped g)"
  by (simp add: stop_admitting_def closeIfDrained_eq upd_act_twice stopped_def [abs_def] comp_def)

lemma held_active [simp]: "held (g\<lparr>g_active := x\<rparr>) = held g" "held (g\<lparr>hp_acts := h\<rparr>) = held g"
  by (simp_all add: held_def fun_eq_iff)

lemma inv_stop:
  assumes inv: "gate_inv g" and a: "g_active g = Some a"
  shows "gate_inv (upd_act a stopped (g\<lparr>g_active := None\<rparr>))" (is "gate_inv ?g")
proof -
  have "act_ok ?g b" if "b < length (hp_acts g)" for b
  proof (cases "b = a")
    case True
    with gate_invD(1) [OF inv that] a that show ?thesis
      by (auto simp: act_ok_def Let_def nth_upd_act stopped_def mark_drained_def)
  next
    case False
    with gate_invD(1) [OF inv that] a that show ?thesis
      by (auto simp: act_ok_def Let_def nth_upd_act)
  qed
  then show ?thesis using inv by (simp add: gate_inv_def)
qed

lemma held_fresh:
  assumes "gate_inv g"
  shows "held g (length (hp_acts g)) = 0"
  using gate_invD(3) [OF assms] by (fastforce simp: held_def filter_empty_conv)

lemma inv_push:
  assumes inv: "gate_inv g" and none: "g_active g = None"
  shows "gate_inv (g\<lparr>hp_acts := hp_acts g @ [\<lparr>ga_cancelled = c, ga_admitting = True,
      ga_admissions = 0, ga_drained = False\<rparr>], g_active := Some (length (hp_acts g))\<rparr>)"
    (is "gate_inv ?g")
proof -
  have "act_ok ?g b" if "b < length (hp_acts ?g)" for b
  proof (cases "b = length (hp_acts g)")
    case True
    with held_fresh [OF inv] show ?thesis by (simp add: act_ok_def)
  next
    case False
    with that gate_invD(1) [OF inv, of b] none show ?thesis
      by (auto simp: act_ok_def Let_def nth_append)
  qed
  moreover have "ad_activation m < length (hp_acts ?g)" if "m \<in> set (g_admissions ?g)" for m
    using gate_invD(3) [OF inv, of m] that by simp
  ultimately show ?thesis unfolding gate_inv_def by auto
qed

lemma inv_activate:
  assumes inv: "gate_inv g"
  shows "\<exists>t. activate c g = Some t \<and> gate_inv t"
proof (cases "g_active g")
  case None
  with inv_push [OF inv None] show ?thesis by (simp add: activate_def)
next
  case (Some a)
  let ?u = "upd_act a stopped (g\<lparr>g_active := None\<rparr>)"
  have "stop_admitting a g = Some (upd_act a stopped g)"
    using gate_invD(2) [OF inv Some] by (rule stop_admitting_eq)
  moreover have "gate_inv (?u\<lparr>hp_acts := hp_acts ?u @ [\<lparr>ga_cancelled = c, ga_admitting = True,
      ga_admissions = 0, ga_drained = False\<rparr>], g_active := Some (length (hp_acts ?u))\<rparr>)"
    by (rule inv_push [OF inv_stop [OF inv Some]]) simp
  ultimately show ?thesis using Some by (simp add: activate_def upd_act_def)
qed

lemma inv_deactivate:
  assumes inv: "gate_inv g"
  shows "\<exists>r t. deactivate g = Some (r, t) \<and> gate_inv t"
proof (cases "g_active g")
  case None
  with inv show ?thesis by (simp add: deactivate_def)
next
  case (Some a)
  with gate_invD(2) [OF inv Some] inv_stop [OF inv Some] show ?thesis
    by (simp add: deactivate_def stop_admitting_eq)
qed

lemma inv_admit:
  assumes inv: "gate_inv g"
  shows "gate_inv (snd (admit_locked g))"
proof (cases "fst (admit_locked g)")
  case (Inl e)
  then have "snd (admit_locked g) = g"
    by (auto simp: admit_locked_def split: option.splits if_splits)
  with inv show ?thesis by simp
next
  case (Inr l)
  then obtain a where a: "g_active g = Some a" and t: "snd (admit_locked g) =
      (upd_act a (\<lambda>k. k\<lparr>ga_admissions := ga_admissions k + 1\<rparr>) g)
        \<lparr>g_admissions := g_admissions g @ [\<lparr>ad_activation = a, ad_released = False\<rparr>]\<rparr>"
    by (auto simp: admit_locked_def split: option.splits if_splits)
  let ?t = "snd (admit_locked g)"
  have h: "held ?t b = held g b + (if b = a then 1 else 0)" for b
    by (simp add: t held_def)
  have acts: "hp_acts ?t = hp_acts (upd_act a (\<lambda>k. k\<lparr>ga_admissions := ga_admissions k + 1\<rparr>) g)"
    "g_active ?t = g_active g" by (simp_all add: t)
  have "act_ok ?t b" if "b < length (hp_acts g)" for b
    using gate_invD(1) [OF inv that] a that
    by (auto simp: act_ok_def Let_def h acts nth_upd_act)
  then show ?thesis
    using gate_invD [OF inv] a by (auto simp: gate_inv_def acts) (auto simp: t)
qed

lemma held_release:
  assumes "l < length (g_admissions g)" "\<not> ad_released (g_admissions g ! l)"
  shows "held (g\<lparr>g_admissions := (g_admissions g)[l := (g_admissions g ! l)\<lparr>ad_released := True\<rparr>]\<rparr>) b =
    held g b - (if b = ad_activation (g_admissions g ! l) then 1 else 0)"
  using assms length_filter_update [OF assms(1),
      of "\<lambda>m. ad_activation m = b \<and> \<not> ad_released m" "(g_admissions g ! l)\<lparr>ad_released := True\<rparr>"]
  by (auto simp: held_def split: if_splits)

lemma held_pos:
  assumes "l < length (g_admissions g)" "\<not> ad_released (g_admissions g ! l)"
  shows "0 < held g (ad_activation (g_admissions g ! l))"
  using assms nth_mem [of l "g_admissions g"]
  by (auto simp: held_def length_greater_0_conv filter_empty_conv)

lemma inv_gate_release:
  assumes inv: "gate_inv g"
  shows "\<exists>t. release l g = Some t \<and> gate_inv t"
proof (cases "l < length (g_admissions g) \<and> \<not> ad_released (g_admissions g ! l)")
  case False
  with inv show ?thesis by (auto simp: release_def Let_def)
next
  case True
  let ?m = "g_admissions g ! l" let ?a = "ad_activation ?m"
  let ?L = "(g_admissions g)[l := ?m\<lparr>ad_released := True\<rparr>]"
  let ?f = "mark_drained \<circ> (\<lambda>k. k\<lparr>ga_admissions := ga_admissions k - 1\<rparr>)"
  let ?t = "upd_act ?a ?f (g\<lparr>g_admissions := ?L\<rparr>)"
  have a: "?a < length (hp_acts g)" using True gate_invD(3) [OF inv] by simp
  then have eq: "release l g = Some ?t"
    using True by (simp add: release_def Let_def release_act_def closeIfDrained_eq upd_act_twice)
  have h: "held (g\<lparr>g_admissions := ?L\<rparr>) b = held g b - (if b = ?a then 1 else 0)" for b
    using True by (simp add: held_release)
  have hp: "hp_acts ?t = hp_acts (upd_act ?a ?f g)" by (simp add: upd_act_def)
  have "act_ok ?t b" if "b < length (hp_acts g)" for b
    using gate_invD(1) [OF inv that] that held_pos [of l g] True
    by (auto simp: act_ok_def Let_def h hp nth_upd_act mark_drained_def)
  moreover have "m \<in> set ?L \<Longrightarrow> ad_activation m < length (hp_acts g)" for m
    using gate_invD(3) [OF inv] a subsetD [OF set_update_subset_insert, of m "g_admissions g" l]
    by fastforce
  ultimately show ?thesis
    using inv eq by (auto simp: gate_inv_def)
qed

lemma inv_gate_exec:
  assumes inv: "gate_inv g"
  shows "\<exists>t. gate_exec x g = Some t \<and> gate_inv t"
proof (cases x)
  case (GActivate c)
  with inv_activate [OF inv] show ?thesis by simp
next
  case GDeactivate
  with inv_deactivate [OF inv] show ?thesis by auto
next
  case GAdmit
  with inv_admit [OF inv] show ?thesis by simp
next
  case (GAdmitCheck l)
  with inv inv_gate_release [OF inv, of l] show ?thesis by (auto simp: admit_check_def)
next
  case (GRelease l)
  with inv_gate_release [OF inv] show ?thesis by simp
next
  case (GParentCancel a)
  have "act_ok (upd_act a (\<lambda>k. k\<lparr>ga_cancelled := True\<rparr>) g) b" if "b < length (hp_acts g)" for b
    using gate_invD(1) [OF inv that] that by (auto simp: act_ok_def Let_def nth_upd_act)
  with GParentCancel inv show ?thesis by (simp add: gate_inv_def)
qed

lemma gate_inv_new: "gate_inv newGate"
  by (simp add: gate_inv_def newGate_def)

interpretation gate: safe_component newGate gate_exec gate_inv
  by unfold_locales (auto simp: gate_inv_new inv_gate_exec)

section \<open>Properties\<close>

text \<open>
  In every order of activations, deactivations, admissions, releases and cancellations the
  gate never panics, and for every lifetime there ever was: its \<open>drained\<close> channel is closed
  exactly when it has stopped admitting and nothing admitted in it is still unreleased, and a
  lifetime that has stopped admitting is cancelled. At most the current lifetime admits.
\<close>
theorem gate_drains_exactly:
  "case run_ops gate_exec ops newGate of
     None \<Rightarrow> False
   | Some g \<Rightarrow>
       list_all (\<lambda>a. let k = hp_acts g ! a in
           (ga_drained k \<longleftrightarrow> \<not> ga_admitting k \<and> held g a = 0) \<and>
           (ga_cancelled k \<or> ga_admitting k) \<and>
           (ga_admitting k \<longleftrightarrow> g_active g = Some a))
         [0 ..< length (hp_acts g)]"
proof -
  obtain g where g: "run_ops gate_exec ops newGate = Some g" "gate_inv g"
    using gate.run_from_init by blast
  then show ?thesis
    by (auto simp: gate_inv_def act_ok_def Let_def list_all_iff)
qed

text \<open>
  After \<open>deactivate\<close> returns, the gate is inactive, every request admitted before is
  cancelled or released, the next admission is refused, and once everything admitted has been
  released the returned channel is closed.
\<close>
theorem deactivate_stops_everything:
  "case run_ops gate_exec ops newGate of
     None \<Rightarrow> False
   | Some g \<Rightarrow>
       (case deactivate g of
          None \<Rightarrow> False
        | Some (ch, t) \<Rightarrow>
            \<not> Active t \<and> fst (admit_locked t) = Inl ErrNotActive \<and>
            list_all (request_done t) [0 ..< length (g_admissions t)] \<and>
            (case ch of
               None \<Rightarrow> t = g
             | Some a \<Rightarrow> ga_drained (hp_acts t ! a) \<longleftrightarrow> held t a = 0))"
proof -
  obtain g where g: "run_ops gate_exec ops newGate = Some g" "gate_inv g"
    using gate.run_from_init by blast
  obtain ch t where t: "deactivate g = Some (ch, t)" "gate_inv t"
    using inv_deactivate [OF g(2)] by blast
  have none: "g_active t = None"
    using t(1) gate_invD(2) [OF g(2)]
    by (auto simp: deactivate_def stop_admitting_eq split: option.splits)
  have stopped: "ga_cancelled (hp_acts t ! a) \<and> (ga_drained (hp_acts t ! a) \<longleftrightarrow> held t a = 0)"
    if "a < length (hp_acts t)" for a
    using gate_invD(1) [OF t(2) that] none by (auto simp: act_ok_def Let_def)
  have "request_done t l" if "l < length (g_admissions t)" for l
    using stopped gate_invD(3) [OF t(2), of "g_admissions t ! l"] that by (simp add: request_done_def)
  moreover have "case ch of None \<Rightarrow> t = g | Some a \<Rightarrow> a < length (hp_acts t)"
    using t(1) gate_invD(2) [OF g(2)]
    by (auto simp: deactivate_def stop_admitting_eq split: option.splits)
  ultimately show ?thesis
    using g(1) t(1) none stopped
    by (auto simp: Active_def admit_locked_def list_all_iff split: option.splits)
qed

end
