(* ===== verification/Ha_Runtime.thy ===== *)
theory Ha_Runtime
  imports Ha_Coordinator Ha_Gate
begin

text \<open>
  The runtime that joins ownership, the runtime-job group and request admission
  (\<open>server/internal/ha/runtime.go\<close>), and the status it reports (\<open>status.go\<close>).

  \<open>Run\<close> is a function of what it waits for (the activation, the results of starting, stopping and
  aborting the job group, the health checks) to the calls it makes, in order, and its result. The
  channel operations of \<open>runHA\<close> are the outcomes of its \<open>select\<close> statements.
\<close>

section \<open>Endpoint monitor\<close>

record endpoint_monitor =
  em_checked :: bool
  em_deadline :: gotime
  em_ready :: bool
  em_unhealthySamples :: nat

definition newEndpointMonitor :: "bool \<Rightarrow> gotime \<Rightarrow> duration \<Rightarrow> endpoint_monitor" where
  "newEndpointMonitor checked startedAt timeout =
     \<lparr>em_checked = checked, em_deadline = time_add startedAt timeout, em_ready = False,
      em_unhealthySamples = 0\<rparr>"

text \<open>\<open>check\<close>: whether the endpoint is unavailable, and the monitor after the sample.\<close>

definition monitor_check :: "gotime \<Rightarrow> bool \<Rightarrow> endpoint_monitor \<Rightarrow> bool \<times> endpoint_monitor" where
  "monitor_check now healthy m =
     (if \<not> em_checked m then (False, m)
      else if healthy then (False, m\<lparr>em_ready := True, em_unhealthySamples := 0\<rparr>)
      else if \<not> em_ready m then (\<not> time_before now (em_deadline m), m)
      else let m = m\<lparr>em_unhealthySamples := em_unhealthySamples m + 1\<rparr> in
        (\<not> em_unhealthySamples m < 3, m))"

text \<open>The samples of \<open>waitWhileHealthy\<close> until the first failure.\<close>

fun monitor_run :: "(gotime \<times> bool) list \<Rightarrow> endpoint_monitor \<Rightarrow> bool" where
  "monitor_run [] m \<longleftrightarrow> False"
| "monitor_run ((now, h) # xs) m \<longleftrightarrow>
     (let (failed, m') = monitor_check now h m in failed \<or> monitor_run xs m')"

section \<open>Status\<close>

datatype runtime_role = RoleActive | RolePassive | RoleInitializing | RoleDegraded
datatype observation_status = ObservationCurrent | ObservationStale | ObservationUnavailable
datatype endpoint_status = EndpointHealthy | EndpointNotApplicable | EndpointUnhealthy
datatype reason_code =
    ReasonObservationPending
  | ReasonControlPlaneUnavailable
  | ReasonObservationStale
  | ReasonActivationPending
  | ReasonEndpointUnhealthy

record ha_status =
  st_Role :: runtime_role
  st_Observation :: observation_status
  st_ObservedAt :: "gotime option"
  st_LeaseExpiresAt :: "gotime option"
  st_Endpoint :: endpoint_status
  st_ReasonCodes :: "reason_code list"

record ha_runtime =
  rt_owner :: "(coordinator_config \<times> coordinator) option"
  rt_gate :: gate
  rt_EndpointHealthy :: "bool option"
  rt_EndpointOwned :: "bool option"

text \<open>The probes of the endpoint are their results, \<open>None\<close> if none is configured.\<close>

definition Status :: "ha_runtime \<Rightarrow> gotime \<Rightarrow> ha_status" where
  "Status r now =
     (let st = \<lparr>st_Role = RoleInitializing, st_Observation = ObservationUnavailable,
        st_ObservedAt = None, st_LeaseExpiresAt = None, st_Endpoint = EndpointNotApplicable,
        st_ReasonCodes = [ReasonObservationPending]\<rparr> in
      case rt_owner r of
        None \<Rightarrow> st
      | Some (cfg, c) \<Rightarrow>
          let sn = Snapshot cfg c in
          if time_is_zero (sn_UpdatedAt sn) then st
          else
            let st = st\<lparr>st_ObservedAt := Some (sn_UpdatedAt sn), st_ReasonCodes := []\<rparr> in
            if \<not> sn_ObservationAvailable sn then
              st\<lparr>st_Role := RoleDegraded, st_Observation := ObservationUnavailable,
                 st_ReasonCodes := [ReasonControlPlaneUnavailable]\<rparr>
            else if \<not> time_after (sn_FreshUntil sn) now then
              st\<lparr>st_Role := RoleDegraded, st_Observation := ObservationStale,
                 st_ReasonCodes := [ReasonObservationStale]\<rparr>
            else
              let st = st\<lparr>st_Observation := ObservationCurrent\<rparr> in
              if sn_State sn \<noteq> StateActive then
                if rt_EndpointOwned r = Some True then
                  st\<lparr>st_Role := RoleDegraded, st_Endpoint := EndpointUnhealthy,
                     st_ReasonCodes := [ReasonEndpointUnhealthy]\<rparr>
                else st\<lparr>st_Role := RolePassive\<rparr>
              else if \<not> Active (rt_gate r) then st\<lparr>st_ReasonCodes := [ReasonActivationPending]\<rparr>
              else if rt_EndpointHealthy r = Some False then
                st\<lparr>st_Role := RoleDegraded, st_Endpoint := EndpointUnhealthy,
                   st_ReasonCodes := [ReasonEndpointUnhealthy]\<rparr>
              else st\<lparr>st_Role := RoleActive, st_Endpoint := EndpointHealthy,
                      st_LeaseExpiresAt := Some (sn_ExpiresAt sn)\<rparr>)"

definition Passive :: "ha_runtime \<Rightarrow> gotime \<Rightarrow> bool" where
  "Passive r now =
     (case rt_owner r of
        None \<Rightarrow> False
      | Some (cfg, c) \<Rightarrow>
          let sn = Snapshot cfg c in
          if time_is_zero (sn_UpdatedAt sn) \<or> \<not> sn_ObservationAvailable sn \<or>
             \<not> time_after (sn_FreshUntil sn) now \<or> sn_State sn \<noteq> StatePassive
          then False
          else rt_EndpointOwned r = None \<or> rt_EndpointOwned r = Some False)"

section \<open>Run\<close>

record runtime_config =
  rc_HealthCheckInterval :: duration
  rc_CleanupTimeout :: duration

definition withRuntimeDefaults :: "runtime_config \<Rightarrow> runtime_config" where
  "withRuntimeDefaults cfg =
     (let cfg = (if rc_HealthCheckInterval cfg \<le> 0
                 then cfg\<lparr>rc_HealthCheckInterval := 100 * millisecond\<rparr> else cfg)
      in if rc_CleanupTimeout cfg \<le> 0 then cfg\<lparr>rc_CleanupTimeout := 10 * second\<rparr> else cfg)"

datatype runtime_call =
    CallGroupStart
  | CallGateActivate
  | CallGateDeactivate
  | CallGroupStop
  | CallGroupAbort
  | CallCancelCoordinator
  | CallAwaitDrained

datatype runtime_error =
    ErrStart
  | ErrUnhealthy
  | ErrRuntimeAborted
  | ErrLifetimeEnded
  | ErrStop
  | ErrDrain
  | ErrCoordinator
  | ErrWaitOwnership

text \<open>
  \<open>ri_start\<close>, \<open>ri_stop\<close>, \<open>ri_abort\<close> and \<open>ri_drained\<close> say whether those calls succeed; \<open>ri_healthy\<close> is
  the health check after the start, \<open>ri_ended\<close> what \<open>waitWhileHealthy\<close> returns, \<open>ri_ctxDone\<close> whether
  the process was asked to stop by then. A result is the list of joined errors.
\<close>

record run_input =
  ri_start :: bool
  ri_healthy :: bool
  ri_ended :: runtime_error
  ri_ctxDone :: bool
  ri_stop :: bool
  ri_abort :: bool
  ri_drained :: bool
  ri_coordinator :: bool

datatype activation = Activated | WaitFailed bool | CoordinatorFailed | StopRequested

definition runStandalone :: "run_input \<Rightarrow> runtime_call list \<times> runtime_error list" where
  "runStandalone x =
     (if \<not> ri_start x then ([CallGroupStart], [ErrStart])
      else
        let stopErr = (if ri_stop x then [] else [ErrStop]) in
        if \<not> ri_healthy x then
          ([CallGroupStart, CallGroupStop],
           if ri_ctxDone x then stopErr else ErrUnhealthy # stopErr)
        else
          ([CallGroupStart, CallGateActivate, CallGateDeactivate, CallGroupStop],
           if ri_ctxDone x then stopErr else ri_ended x # stopErr))"

definition abortGroup :: "run_input \<Rightarrow> runtime_error \<Rightarrow> runtime_error list" where
  "abortGroup x cause = [ErrRuntimeAborted, cause] @ (if ri_abort x then [] else [ErrStop])"

definition stopGroupAndDrainAdmissions :: "run_input \<Rightarrow> runtime_call list \<times> runtime_error list" where
  "stopGroupAndDrainAdmissions x =
     (if \<not> ri_stop x then ([CallGroupStop], [ErrStop])
      else ([CallGroupStop, CallAwaitDrained], if ri_drained x then [] else [ErrDrain]))"

definition runHA :: "activation \<Rightarrow> run_input \<Rightarrow> runtime_call list \<times> runtime_error list" where
  "runHA a x =
     (case a of
        WaitFailed coordinatorReturned \<Rightarrow>
          ([], if ri_ctxDone x then []
               else if coordinatorReturned then [ErrCoordinator] else [ErrWaitOwnership])
      | CoordinatorFailed \<Rightarrow> ([], [ErrCoordinator])
      | StopRequested \<Rightarrow> ([], [])
      | Activated \<Rightarrow>
          if \<not> ri_start x then ([CallGroupStart], [ErrStart])
          else if \<not> ri_healthy x then ([CallGroupStart, CallGroupAbort], abortGroup x ErrUnhealthy)
          else
            let opened = [CallGroupStart, CallGateActivate, CallGateDeactivate] in
            if ri_ctxDone x then
              (opened @ fst (stopGroupAndDrainAdmissions x), snd (stopGroupAndDrainAdmissions x))
            else
              (opened @ [CallCancelCoordinator, CallGroupAbort],
               abortGroup x (ri_ended x) @ (if ri_coordinator x then [ErrCoordinator] else [])))"

section \<open>What the status means\<close>

lemma Snapshot_simps [simp]:
  "sn_UpdatedAt (Snapshot cfg c) = cd_updatedAt c"
  "sn_ObservationAvailable (Snapshot cfg c) = cd_observed c"
  "sn_FreshUntil (Snapshot cfg c) = fresh_until cfg c"
  "sn_State (Snapshot cfg c) = (if cd_activeCtx c = None then StatePassive else StateActive)"
  by (simp_all add: Snapshot_def Let_def)

definition current_observation :: "gotime \<Rightarrow> coordinator_config \<Rightarrow> coordinator \<Rightarrow> bool" where
  "current_observation now cfg c \<longleftrightarrow> cd_updatedAt c \<noteq> 0 \<and> cd_observed c \<and> now < fresh_until cfg c"

lemma status_role_iffs:
  "st_Role (Status r now) = RoleActive \<longleftrightarrow>
     (\<exists>cfg c. rt_owner r = Some (cfg, c) \<and> current_observation now cfg c \<and> cd_activeCtx c \<noteq> None \<and>
        Active (rt_gate r) \<and> rt_EndpointHealthy r \<noteq> Some False)"
  "st_Role (Status r now) = RolePassive \<longleftrightarrow>
     (\<exists>cfg c. rt_owner r = Some (cfg, c) \<and> current_observation now cfg c \<and> cd_activeCtx c = None \<and>
        rt_EndpointOwned r \<noteq> Some True)"
  "Passive r now \<longleftrightarrow> st_Role (Status r now) = RolePassive"
  "st_Role (Status r now) \<in> {RoleActive, RolePassive} \<longleftrightarrow> st_ReasonCodes (Status r now) = []"
proof -
  show "st_Role (Status r now) = RoleActive \<longleftrightarrow>
     (\<exists>cfg c. rt_owner r = Some (cfg, c) \<and> current_observation now cfg c \<and> cd_activeCtx c \<noteq> None \<and>
        Active (rt_gate r) \<and> rt_EndpointHealthy r \<noteq> Some False)"
    by (cases "rt_owner r") (auto simp: Status_def Let_def current_observation_def time_defs split: if_splits)
  show "st_Role (Status r now) = RolePassive \<longleftrightarrow>
     (\<exists>cfg c. rt_owner r = Some (cfg, c) \<and> current_observation now cfg c \<and> cd_activeCtx c = None \<and>
        rt_EndpointOwned r \<noteq> Some True)"
    by (cases "rt_owner r") (auto simp: Status_def Let_def current_observation_def time_defs split: if_splits)
  show "Passive r now \<longleftrightarrow> st_Role (Status r now) = RolePassive"
    by (cases "rt_owner r"; cases "rt_EndpointOwned r")
      (auto simp: Passive_def Status_def Let_def time_defs split: if_splits)
  show "st_Role (Status r now) \<in> {RoleActive, RolePassive} \<longleftrightarrow> st_ReasonCodes (Status r now) = []"
    by (cases "rt_owner r") (auto simp: Status_def Let_def split: if_splits)
qed

text \<open>
  The status a load balancer and the peer rely on: the role is active exactly if the coordinator
  is in an active lifetime with a current observation, the gate admits requests and the endpoint
  probe does not fail; it is passive exactly if the coordinator is passive with a current
  observation and does not own the endpoint; the cheap signal \<open>Passive\<close> says just that; and an
  active or passive role is never reported with a reason code.
\<close>

theorem status_roles:
  "(st_Role (Status r now) = RoleActive \<longleftrightarrow>
     (\<exists>cfg c. rt_owner r = Some (cfg, c) \<and> current_observation now cfg c \<and> cd_activeCtx c \<noteq> None \<and>
        Active (rt_gate r) \<and> rt_EndpointHealthy r \<noteq> Some False)) \<and>
   (st_Role (Status r now) = RolePassive \<longleftrightarrow>
     (\<exists>cfg c. rt_owner r = Some (cfg, c) \<and> current_observation now cfg c \<and> cd_activeCtx c = None \<and>
        rt_EndpointOwned r \<noteq> Some True)) \<and>
   (Passive r now \<longleftrightarrow> st_Role (Status r now) = RolePassive) \<and>
   (st_Role (Status r now) \<in> {RoleActive, RolePassive} \<longleftrightarrow> st_ReasonCodes (Status r now) = [])"
  by (intro conjI status_role_iffs)

section \<open>The monitor's tolerance\<close>

fun missed_three :: "nat \<Rightarrow> bool list \<Rightarrow> bool" where
  "missed_three k [] \<longleftrightarrow> False"
| "missed_three k (h # hs) \<longleftrightarrow> (if h then missed_three 0 hs else k + 1 \<ge> 3 \<or> missed_three (k + 1) hs)"

lemma monitor_run_ready:
  "em_checked m \<Longrightarrow> em_ready m \<Longrightarrow>
    monitor_run xs m = missed_three (em_unhealthySamples m) (map snd xs)"
  by (induction xs arbitrary: m) (auto simp: monitor_check_def Let_def)

lemma missed_three_iff:
  assumes "k < 3"
  shows "missed_three k hs \<longleftrightarrow>
    (\<exists>zs. hs = replicate (3 - k) False @ zs) \<or> (\<exists>ys zs. hs = ys @ [False, False, False] @ zs)"
  using assms
proof (induction hs arbitrary: k)
  case Nil
  then show ?case by simp
next
  case (Cons h hs)
  have app: "(\<exists>ys zs. h # hs = ys @ [False, False, False] @ zs) \<longleftrightarrow>
      (\<exists>zs. h # hs = [False, False, False] @ zs) \<or> (\<exists>ys zs. hs = ys @ [False, False, False] @ zs)"
    by (metis (no_types, lifting) append_Cons append_Nil append_eq_Cons_conv)
  have three: "replicate 3 False = [False, False, False]" by (simp add: numeral_eq_Suc)
  have pre: "(\<exists>zs. h # hs = [False, False, False] @ zs) \<Longrightarrow> \<not> h \<and> (\<exists>zs. hs = replicate (2 - k) False @ zs)"
    using Cons.prems by (cases "k = 0"; cases "k = 1") (auto simp: numeral_eq_Suc)
  show ?case
  proof (cases h)
    case True
    have "3 - k = Suc (2 - k)" using Cons.prems by simp
    then show ?thesis using True Cons.IH [of 0] three app by auto
  next
    case False
    consider "k = 2" | "k + 1 < 3" using Cons.prems by linarith
    then show ?thesis
    proof cases
      case 1
      then show ?thesis using False by simp
    next
      case 2
      then have "3 - k = Suc (3 - (k + 1))" by simp
      then show ?thesis using False Cons.IH [OF 2] app pre 2 by auto
    qed
  qed
qed

text \<open>
  The monitor of an endpoint that has been ready ends the active lifetime exactly if three
  consecutive samples fail; two missed samples are tolerated however often they occur.
\<close>

lemma monitor_tolerates_two_misses:
  assumes "em_checked m" "em_ready m" "em_unhealthySamples m = 0"
  shows "monitor_run xs m \<longleftrightarrow> (\<exists>ys zs. map snd xs = ys @ [False, False, False] @ zs)"
proof -
  have "replicate (3 - 0) False = [False, False, False]" by (simp add: numeral_eq_Suc)
  then have "missed_three 0 (map snd xs) \<longleftrightarrow> (\<exists>ys zs. map snd xs = ys @ [False, False, False] @ zs)"
    using missed_three_iff [of 0 "map snd xs"] by (metis append_Nil zero_less_numeral)
  then show ?thesis using monitor_run_ready [OF assms(1,2)] assms(3) by simp
qed

section \<open>Order of the calls\<close>

text \<open>
  Requests are admitted only while the job group runs: the gate opens after a successful start,
  and whatever happens it is closed before the group is stopped or aborted.
\<close>

definition well_ordered :: "runtime_call list \<Rightarrow> bool" where
  "well_ordered cs \<longleftrightarrow> (CallGateActivate \<in> set cs \<longrightarrow>
     (\<exists>rest. cs = [CallGroupStart, CallGateActivate, CallGateDeactivate] @ rest \<and>
        set rest \<inter> {CallGroupStart, CallGateActivate} = {} \<and>
        set rest \<inter> {CallGroupStop, CallGroupAbort} \<noteq> {})) \<and>
     (CallGroupAbort \<in> set cs \<longrightarrow> CallGroupStop \<notin> set cs)"

lemma run_well_ordered: "well_ordered (fst (runHA a x))" "well_ordered (fst (runStandalone x))"
  by (auto simp: well_ordered_def runHA_def runStandalone_def stopGroupAndDrainAdmissions_def
      Let_def split: activation.split)

end
