(* ===== verification/Spec2Isabelle.thy ===== *)
theory Spec2Isabelle
  imports Control_Safety Control_Delivery Control_Dispatch Curtail_Outcomes
    Curtail_Pulse Curtail_Lifecycle
    Rollout_Outcomes Schedule_Runs Command_Outcomes Command_Preflight Command_Results
    Mqtt_Worker Telemetry_Scheduler Password_Attempts Ha_Exclusion Ha_Observer Ha_Runtime
begin

text \<open>
  Verification of the Proto Fleet server, a Go program that manages fleets of bitcoin miners. The
  development models the parts of \<open>src/server/internal\<close> that hold the program's own decisions and
  in-memory state; the rest of the server is storage, generated code, network and device drivers.

  \<^bold>\<open>The parts and how they interact.\<close> A user's requests pass the admission gate of the
  active-passive deployment (\<open>ha/gate.go\<close>), log in under the password limiter
  (\<open>domain/auth/password_attempts.go\<close>) and are authorised by an effective-permission snapshot
  (\<open>domain/authz\<close>). Remote sites run an agent (a fleet node) that keeps a control stream open; the
  control registry (\<open>domain/fleetnode/control\<close>) routes commands to it and acks, reports, pairing
  results and artifacts back. The telemetry scheduler (\<open>domain/telemetry/scheduler\<close>) decides which
  device is polled next. Curtailment (\<open>domain/curtailment\<close>) switches miners off to shed load: an MQTT
  source worker (\<open>mqttingest\<close>) turns grid signals into edges, a scope is resolved to candidates, the
  classifier and the selector build a plan in one of two modes, and the reconciler drives the rows of
  the plan tick by tick: it sends the commands, watches telemetry, controls the facility fans, admits
  miners that join the scope and restores in batches. The authorization envelope recorded at the
  start is checked against the caller's snapshot again before execution. Rollouts (\<open>domain/rollout\<close>)
  bring the miners of a release channel to a firmware version, in batches with gates between them, by
  an enforcement loop that works on the rows of a rollout beside operators and controllers. Schedules
  (\<open>domain/schedule\<close>) start commands at given times. Every command, of a user, a schedule, the reconciler or a
  rollout, goes through the preflight filters and admission (\<open>domain/command\<close>) into a queue of messages
  (\<open>infrastructure/queue\<close>), from which workers claim and execute it; a reaper and a routine per batch bring
  every batch to its end. Two instances of the server
  may run side by side; the coordinator (\<open>ha\<close>) decides through a lease in the database which of them
  owns the fleet and may act.

  \<^bold>\<open>Theories.\<close>
  \<^item> \<open>Prelude\<close>: Go values in HOL (time, errors, maps as association lists, decimal rendering),
    fixed-width arithmetic, \<open>run_ops\<close> and the locales \<open>kept_component\<close> (operations that may panic, an
    invariant they keep) and \<open>safe_component\<close> (with a start state).
  \<^item> \<open>Go_Sort\<close>: \<open>sort.SliceStable\<close> and the locale \<open>strict_weak\<close> a comparison has to satisfy;
    \<open>Go_Float\<close>: binary64 arithmetic over exact rationals; \<open>Go_Text\<close>: UTF-8, \<open>TrimSpace\<close>, base64 and
    \<open>ParseInt\<close>.
  \<^item> \<open>Authz\<close>: \<open>effective.go\<close>, \<open>resolver.go\<close>, \<open>catalog.go\<close>, \<open>builtin.go\<close> and the key checks of
    \<open>service.go\<close>. Its specification is the site-narrowing rule on assignments (\<open>allowed\<close>) and the
    set \<open>authority\<close> of a snapshot; the lemmas show that every query agrees with them.
  \<^item> \<open>Control_Registry\<close>: \<open>registry.go\<close> and \<open>stream.go\<close>. Connections and commands live in heaps and
    are named by their index, because the code compares pointers; the registry's maps hold indices.
    Every method is one operation, as it runs under the mutex; closing a closed channel is a panic
    (\<open>None\<close>). The receiving side of a channel is an operation of its own; receives that fall
    between the non-blocking sends of one \<open>deliverAck\<close> only make more room and are not separate
    steps. \<open>Control_Safety\<close> proves the invariant for every order of operations (interpretation
    \<open>registry\<close>), \<open>Control_Delivery\<close> what is delivered and admitted, and \<open>Control_Dispatch\<close> models
    the calls that span several critical sections (\<open>session.go\<close>, \<open>command.go\<close>, \<open>dispatch.go\<close>,
    \<open>admission.go\<close>) with explicit schedules of the other goroutines' operations.
  \<^item> \<open>Curtail_Modes\<close> (\<open>modes\<close>): the Go interface \<open>Mode\<close> as the locale \<open>mode\<close>, interpreted for both
    implementations. \<open>Curtail_Selector\<close> (\<open>selector.go\<close>): plan building and the all-paired policy.
    \<open>Curtail_Scope\<close> and \<open>Curtail_Service\<close> (\<open>service.go\<close>): scope resolution, the classifier,
    \<open>runSelector\<close> over a record of store functions, target rows and life-cycle rules.
    \<open>Curtail_Envelope\<close> (\<open>authorization_envelope.go\<close>): the coverage check and the strict parser.
  \<^item> \<open>Mqtt_Ingest\<close> (\<open>payload.go\<close>, \<open>precedence.go\<close>, \<open>edge_detector.go\<close>) and \<open>Mqtt_Worker\<close>
    (\<open>worker.go\<close>): the worker's state, its cache of observations, and a \<open>world\<close> with the clock, the
    store, the executor and a log of executed signals.
  \<^item> The reconciler (\<open>curtailment/reconciler\<close>), a tick as a computation of the state monad.
    \<open>Curtail_Rows\<close>: configuration, rows and the decisions taken from them alone. \<open>Curtail_Effects\<close>:
    the \<open>world\<close> (the rows in hand, the columns of the event the handlers write back, the latched
    rejections, the trace of calls) and the collaborators. A collaborator is a function of the trace,
    so it may answer every call differently; what other processes do shows up in its answers.
    \<open>Curtail_Dispatch\<close>, \<open>Curtail_Restore\<close>, \<open>Curtail_Active\<close>, \<open>Curtail_Admission\<close> and \<open>Curtail_Tick\<close>
    hold the handlers, one definition per method and one per loop or closure inside a long method.
    A pointer into the slice of targets is an index, a Go map over targets is visited in slice order,
    and the slice that \<open>dispatchClaimedCurtailTargets\<close> overwrites in place is returned.
    \<open>Curtail_Safety\<close> states what a trace may contain and proves it of every tick with a
    weakest-precondition calculus; \<open>Curtail_Outcomes\<close> characterises the decisions. \<open>Curtail_Pulse\<close>
    (\<open>confirmation_fast_path.go\<close>): the confirmation pass between ticks, with the locale \<open>keyset\<close> for
    its paging. \<open>Curtail_Lifecycle\<close>: start, stop and abort against the goroutines of an activation.
  \<^item> Rollouts (\<open>domain/rollout\<close>). \<open>Rollout_Behavior\<close> (\<open>behavior.go\<close>): behaviors, scopes, model keys.
    \<open>Rollout_Targets\<close>: what is read off a miner's row, the scopes of a stage and the evidence at a
    gate, against the specification \<open>gate_open\<close>. \<open>Rollout_Plan\<close>: order, batches and the rows a
    rollout starts with; cursors and pages. \<open>Rollout_Engine\<close> (\<open>enforce.go\<close>) and \<open>Rollout_Control\<close>
    (\<open>rollout.go\<close>, \<open>delegated.go\<close>): one definition per transaction over the record \<open>rollout_db\<close> (one
    rollout, its rows, the channel's reservations, the events), with the SQL statements of
    \<open>generated/sqlc\<close> it runs; everything else a transaction reads is in its \<open>tx_env\<close>, which is
    free, and an error rolls the transaction back. \<open>Rollout_Safety\<close> runs the transactions in any
    order (interpretation \<open>engine\<close>), \<open>Rollout_Outcomes\<close> states what they achieve.
  \<^item> Schedules. \<open>Go_Time\<close>: civil dates, clock times and time zones (with the zone's offsets as a
    parameter). \<open>Schedule_Timing\<close> (\<open>cron.go\<close>, request validation, windows, \<open>targets/expand.go\<close>), \<open>Schedule_Store\<close> (rows and
    statements), \<open>Schedule_Service\<close> (\<open>service.go\<close>), \<open>Schedule_Processor\<close> (\<open>processor.go\<close>: jobs, executions, window
    ends and recovery as steps that other requests may come between). \<open>Schedule_Safety\<close> and
    \<open>Schedule_Outcomes\<close> prove what holds in any order of requests and processor steps, \<open>Schedule_Runs\<close> how a
    single run and a synchronisation end.
  \<^item> Commands. \<open>Command_Queue\<close>: command types, the tables and statements, and the message queue.
    \<open>Command_Worker\<close> (\<open>execution_service.go\<close>, \<open>error_info.go\<close>, the batch side of \<open>service.go\<close>): the transactions
    of workers, the reaper, failed enqueues and the routine that follows a batch. \<open>Command_Safety\<close> composes
    them with crashes and lost transactions into one system (interpretation \<open>commands\<close>); \<open>Command_Outcomes\<close>
    states its promises and the restart. \<open>Command_Admission\<close> (\<open>filter.go\<close>, the three filters, \<open>admitCommand\<close>):
    the Go interface \<open>CommandFilter\<close> is the locale \<open>preflight_filter\<close> of \<open>Command_Preflight\<close>, interpreted for
    each filter and for the chain of the server. \<open>Command_Device\<close> and \<open>Command_Results\<close>: pool user names,
    firmware polling and the capability check. Texts of wrapped errors are abbreviated.
  \<^item> \<open>Telemetry_Scheduler\<close>, \<open>Password_Attempts\<close>, \<open>Ha_Gate\<close>: one theory per file of that name, each
    with its tables as a record and one operation per method; a method that takes its lock more than
    once is also given as its separate steps.
  \<^item> \<open>Ha_Lease\<close>: the lease row and the statements on it with the parameter and answer checks around
    them. \<open>Ha_Coordinator\<close>: the coordinator's state and steps. \<open>Ha_Exclusion\<close> composes several
    coordinators with one durable row into a transition system and proves that at most one owns the
    fleet and that a takeover succeeds. \<open>Ha_Observer\<close>: the parsing of observations and the bracketing
    of actions by them. \<open>Ha_Runtime\<close>: the calls of the runtime, the endpoint monitor and the status.
    The system assumes one row in a database that keeps what it commits, clocks that run at the same
    rate with fixed offsets, and fresh identifiers; requests may be delayed, repeated or lost, and
    observations are free. The readers, and the parsing of URLs and addresses, are parameters.

  \<^bold>\<open>What the lemmas show.\<close> For the stateful components: an invariant that every operation keeps, hence
  in every interleaving of calls no panic, bounded buffers and slots, and tables that agree with each
  other. For the decision functions: a characterisation on every branch against an independent
  description (sets of permissions, multisets of candidates, the shortest prefix). For the
  reconciler: no command without its guards, whatever the collaborators answer, and progress when they
  do their part. For rollouts: what never changes in any order of transactions, whom a dispatch may
  ask, and when a batch is left. For schedules: an operator's pause is respected, the tables stay sound, a run never strands its schedule. For
  commands: bounded tries, finished batches that are settled and recorded once, admission that passes every
  filter, queues nothing when it refuses and is a run of the command system. For the deployment: at most one owner, and fencing tokens that grow. For the
  worker: it never hangs, signals are stored before they are executed when the store works, an OFF is
  never lost, repeats are dropped. Some theorems describe behaviour that a comment or a caller
  would not expect: \<open>failure_record_survives_removal\<close>, \<open>removal_during_add_is_undone\<close>,
  \<open>full_fleet_all_skipped_is_accepted\<close>, \<open>stale_update_undoes_pause\<close>, \<open>whole_day_window_meets_next_run\<close>,
  \<open>lowered_limit_blocks_device\<close>, \<open>late_commit_runs_two_at_once\<close>, \<open>command_reaches_other_organization\<close>,
  \<open>trailing_dot_breaks_worker_name\<close>, and \<open>failed_upserts_skip_the_write_ahead\<close> shows what the
  write-ahead property needs of the store.

  \<^bold>\<open>Bounds and fuel.\<close> Integers of Go that count list elements or hold identifiers are \<open>int\<close> or \<open>nat\<close>:
  identifiers are only compared, and the counters are bounded by limits stated in the code (10000
  candidates, the report quota, the buffer sizes). The hash of the scheduler is a 32-bit word.
  \<open>Time.Sub\<close> saturates as in Go. Two loops have fuel. The worker's eviction loop gets three
  rounds, and \<open>worker_never_hangs\<close> proves that they suffice, because each round but the last evicts
  one of at most two observations. The loops at the restart of command execution get any number of rounds;
  \<open>restart_settles_interrupted_commands\<close> proves that one round for every hundred messages and batches, and one
  more, is enough. The retry counter of a target wraps at 32 bits, a number of seconds
  turned into a duration at 64; the theorem on the retry budget states the range it needs. Every loop
  of the reconciler runs over a list, so a tick ends.

  \<^bold>\<open>Parameters.\<close> \<open>json.Unmarshal\<close>, the address parser of \<open>net/netip\<close> and the SQL stores are arguments of
  the definitions that call them; the theorems hold for every value of them.

  \<^bold>\<open>Not modelled.\<close> SQL stores, protobuf handlers, generated code, drivers and plugins, the agent
  process, the web client, logging and metrics: they are input and output or code outside the
  server's decisions. Of the reconciler, deadlines and recovered panics. Of the schedules, the goroutines of the
  processor. Of the commands, the calls of the devices, the start and stop of the workers, status streams and
  result listings. The rest of the curtailment service (request validation, Start, Stop and recovery around the
  store), its automation and the channel side of rollouts (\<open>service.go\<close>) have decision logic of their own, over
  sequences of store calls that are not modelled here.
\<close>

section \<open>Properties that span components\<close>

text \<open>C40. Full-fleet admission takes every curtailable miner. The reconciler's admission of a
  full-fleet event writes one pending row, with the desired state curtailed and no error, for each
  candidate that is curtailable, in the order of the stable worst-efficiency-first ranking, and
  lists exactly the other candidates as skipped; it panics only on a nil candidate.
\<close>
theorem full_fleet_admits_all_curtailable:
  "case BuildFullFleetAdmissionTargets cands includeMaintenance minW of
     None \<Rightarrow> None \<in> set cands
   | Some (rows, skipped) \<Rightarrow>
       let opts = \<lparr>co_IncludeMaintenance = includeMaintenance, co_ActiveEventDevices = [],
             co_CooldownDevices = [], co_CandidateMinPowerW = minW\<rparr>;
           ranked = stable_sort worse_efficiency
             (map to_input (filter (curtailable opts) (known cands)))
       in sorted_wrt (\<lambda>a b. \<not> worse_efficiency b a) ranked \<and>
          map it_DeviceIdentifier rows = map ci_DeviceIdentifier ranked \<and>
          list_all (\<lambda>r. it_State r = TargetStatePending \<and> it_DesiredState r = ''curtailed'' \<and>
            it_LastError r = None) rows \<and>
          map sk_DeviceIdentifier skipped =
            map mc_DeviceIdentifier (filter (\<lambda>c. \<not> curtailable opts c) (known cands))"
proof -
  define opts where "opts = \<lparr>co_IncludeMaintenance = includeMaintenance, co_ActiveEventDevices = [],
    co_CooldownDevices = [], co_CandidateMinPowerW = minW\<rparr>"
  show ?thesis
  proof (cases "classifyCandidates cands opts")
    case None
    then have "None \<in> set cands" by (simp add: classifyCandidates_def classify_loop_None)
    with None show ?thesis
      by (simp add: BuildFullFleetAdmissionTargets_def opts_def)
  next
    case (Some k)
    let ?elig = "map to_input (filter (curtailable opts) (known cands))"
    let ?ranked = "stable_sort worse_efficiency ?elig"
    have "set ?elig \<subseteq> {c. ci_AvgEfficiencyJH c \<noteq> Some NaN}" using to_input_finite by auto
    then have sorted: "sorted_wrt (\<lambda>a b. \<not> worse_efficiency b a) ?ranked"
      by (rule by_efficiency.sorted_stable_sort)
    have plan: "pl_Selected (BuildPlan ?elig pre minW FullFleet) =
        map (\<lambda>c. to_selected ?elig (to_candidate c)) ?ranked"
      "pl_Skipped (BuildPlan ?elig pre minW FullFleet) = pre" for pre
      by (simp_all add: BuildPlan_def Let_def admitted_def turned_away_def Select_def
          FullFleet_Select_def RequiresDualSignalTelemetry_def filter_inputs_def)
    have "BuildFullFleetAdmissionTargets cands includeMaintenance minW = Some
        (map (\<lambda>c. target_row ModeFullFleet minW (to_selected ?elig (to_candidate c))) ?ranked,
         cl_skipped k)"
      using Some
      by (simp add: BuildFullFleetAdmissionTargets_def opts_def [symmetric] Let_def plan
          BuildInsertTargetParams_def classify_result(1) [OF Some])
    then show ?thesis
      unfolding opts_def [symmetric]
      by (simp add: Let_def sorted classify_result(2) [OF Some] classify_record_def target_row_def
          to_selected_def to_candidate_def list_all_iff)
  qed
qed

end
